(* ===== verification/Prelude.thy ===== *)
theory Prelude
  imports Main "HOL-Library.Word" "HOL-Library.Monad_Syntax" "HOL-Library.Char_ord"
    "HOL-Library.List_Lexorder"
begin

text \<open>
  What every component shares: the Go run-time operations the source uses (indexing,
  slicing, \<open>copy\<close>, truncating division, \<open>sort.Search\<close>) with their panics written out, and
  generic lemmas on lists.

  A Go statement that may panic is a value of type \<open>'a option\<close>, with \<open>None\<close> for the
  panic. Go's \<open>uint64\<close> is \<open>64 word\<close>; \<open>int\<close> values that may go negative are \<open>int\<close>, and
  lengths and non-negative indices are \<open>nat\<close>. A Go string is a byte list, which is what
  \<open>string\<close> (a list of 8-bit \<open>char\<close>s) is, and \<open><\<close> on it is the byte-wise lexicographic
  order of \<open>List_Lexorder\<close>, as in Go.
\<close>

named_theorems go_simps \<open>defining equations of the Go run-time operations\<close>

type_synonym u64 = "64 word"

lemma unat64_less: "unat (x :: u64) < 2 ^ 64"
  using unsigned_less [where ?'a = nat, of x] by simp

lemma unat_add_small: "unat (a :: u64) + unat b < 2 ^ 64 \<Longrightarrow> unat (a + b) = unat a + unat b"
  by (simp add: unat_word_ariths)

section \<open>Slices\<close>

definition idx :: "'a list \<Rightarrow> nat \<Rightarrow> 'a option" where
  "idx xs i = (if i < length xs then Some (xs ! i) else None)"

definition set_idx :: "'a list \<Rightarrow> nat \<Rightarrow> 'a \<Rightarrow> 'a list option" where
  "set_idx xs i v = (if i < length xs then Some (xs[i := v]) else None)"

text \<open>The slice \<open>xs[a:b]\<close>.\<close>

definition go_slice :: "'a list \<Rightarrow> nat \<Rightarrow> nat \<Rightarrow> 'a list option" where
  "go_slice xs a b = (if a \<le> b \<and> b \<le> length xs then Some (take (b - a) (drop a xs)) else None)"

text \<open>\<open>copy(dst, src)\<close> overwrites a prefix of \<open>dst\<close>.\<close>

definition go_copy :: "'a list \<Rightarrow> 'a list \<Rightarrow> 'a list" where
  "go_copy dst src = take (length dst) src @ drop (length src) dst"

text \<open>Integer division truncates towards zero and panics on a zero divisor.\<close>

definition go_div :: "int \<Rightarrow> int \<Rightarrow> int option" where
  "go_div a b = (if b = 0 then None else Some (sgn a * sgn b * (\<bar>a\<bar> div \<bar>b\<bar>)))"

lemma idx_Some [simp]: "i < length xs \<Longrightarrow> idx xs i = Some (xs ! i)"
  by (simp add: idx_def)

lemma idx_None_iff [simp]: "idx xs i = None \<longleftrightarrow> length xs \<le> i"
  by (auto simp: idx_def)

lemma idx_eq_Some_iff: "idx xs i = Some x \<longleftrightarrow> i < length xs \<and> x = xs ! i"
  by (auto simp: idx_def)

lemma set_idx_Some [simp]: "i < length xs \<Longrightarrow> set_idx xs i v = Some (xs[i := v])"
  by (simp add: set_idx_def)

lemma go_slice_Some [simp]:
  "a \<le> b \<Longrightarrow> b \<le> length xs \<Longrightarrow> go_slice xs a b = Some (take (b - a) (drop a xs))"
  by (simp add: go_slice_def)

lemma go_copy_same [simp]: "length src = length dst \<Longrightarrow> go_copy dst src = src"
  by (simp add: go_copy_def)

lemma length_go_copy [simp]: "length (go_copy dst src) = length dst"
  by (simp add: go_copy_def)

lemma go_div_nat: "0 < b \<Longrightarrow> go_div (int a) b = Some (int a div b)"
  by (cases "a = 0") (auto simp: go_div_def)

text \<open>A loop that fills a new slice from another one, whose body may panic.\<close>

fun those_columns :: "('a \<Rightarrow> 'b option) \<Rightarrow> 'a list \<Rightarrow> 'b list option" where
  "those_columns f [] = Some []"
| "those_columns f (x # xs) = do { y \<leftarrow> f x; ys \<leftarrow> those_columns f xs; Some (y # ys) }"

lemma those_columns_Some:
  "(\<And>x. x \<in> set xs \<Longrightarrow> f x = Some (g x)) \<Longrightarrow> those_columns f xs = Some (map g xs)"
  by (induction xs) auto

lemma those_columns_iff:
  "those_columns f xs = Some ys \<longleftrightarrow> list_all2 (\<lambda>x y. f x = Some y) xs ys"
  by (induction xs arbitrary: ys) (auto simp: list_all2_Cons1 bind_eq_Some_conv)

section \<open>\<open>sort.Search\<close>\<close>

text \<open>
  The binary search of Go's \<open>sort\<close> package: the least index in \<open>[i, j)\<close> at which a
  monotone predicate holds, \<open>j\<close> if there is none.
\<close>

function search_loop :: "(nat \<Rightarrow> bool) \<Rightarrow> nat \<Rightarrow> nat \<Rightarrow> nat" where
  "search_loop p i j =
     (if i < j then
        let h = (i + j) div 2 in
        if \<not> p h then search_loop p (h + 1) j else search_loop p i h
      else i)"
  by pat_completeness auto
termination
  by (relation "measure (\<lambda>(p, i, j). j - i)") (auto simp: Let_def)

declare search_loop.simps [simp del]

definition sort_Search :: "nat \<Rightarrow> (nat \<Rightarrow> bool) \<Rightarrow> nat" where
  "sort_Search n p = search_loop p 0 n"

lemma search_loop_bounds: "i \<le> j \<Longrightarrow> i \<le> search_loop p i j \<and> search_loop p i j \<le> j"
proof (induction p i j rule: search_loop.induct)
  case (1 p i j)
  show ?case
  proof (cases "i < j")
    case True
    let ?h = "(i + j) div 2"
    have "\<not> p ?h \<Longrightarrow> ?h + 1 \<le> search_loop p (?h + 1) j \<and> search_loop p (?h + 1) j \<le> j"
      using True by (intro "1.IH"(1)) auto
    moreover have "p ?h \<Longrightarrow> i \<le> search_loop p i ?h \<and> search_loop p i ?h \<le> ?h"
      using True by (intro "1.IH"(2)) auto
    ultimately show ?thesis
      using True by (subst (1 2) search_loop.simps) (auto simp: Let_def)
  next
    case False
    with "1.prems" show ?thesis by (subst (1 2) search_loop.simps) simp
  qed
qed

lemma search_loop_spec:
  assumes "i \<le> j" and "\<And>k l. k \<le> l \<Longrightarrow> p k \<Longrightarrow> l < n \<Longrightarrow> p l" and "j \<le> n"
    and "\<And>k. k < i \<Longrightarrow> \<not> p k" and "\<And>k. j \<le> k \<Longrightarrow> k < n \<Longrightarrow> p k"
  shows "(\<forall>k < search_loop p i j. \<not> p k) \<and> (\<forall>k. search_loop p i j \<le> k \<longrightarrow> k < n \<longrightarrow> p k)"
  using assms
proof (induction p i j rule: search_loop.induct)
  case (1 p i j)
  show ?case
  proof (cases "i < j")
    case True
    let ?h = "(i + j) div 2"
    have h: "i \<le> ?h" "?h < j" using True by auto
    show ?thesis
    proof (cases "p ?h")
      case False
      have "k < ?h + 1 \<Longrightarrow> \<not> p k" for k
        using False h "1.prems"(2)[of k ?h] "1.prems"(3) by auto
      then have "(\<forall>k < search_loop p (?h + 1) j. \<not> p k)
          \<and> (\<forall>k. search_loop p (?h + 1) j \<le> k \<longrightarrow> k < n \<longrightarrow> p k)"
        using "1.prems" h False True by (intro "1.IH"(1)) auto
      with False True show ?thesis by (subst (1 2) search_loop.simps) (simp add: Let_def)
    next
      case pt: True
      have "?h \<le> k \<Longrightarrow> k < n \<Longrightarrow> p k" for k
        using pt "1.prems"(2)[of ?h k] by auto
      then have "(\<forall>k < search_loop p i ?h. \<not> p k)
          \<and> (\<forall>k. search_loop p i ?h \<le> k \<longrightarrow> k < n \<longrightarrow> p k)"
        using "1.prems" h pt True by (intro "1.IH"(2)) auto
      with pt True show ?thesis by (subst (1 2) search_loop.simps) (simp add: Let_def)
    qed
  next
    case False
    with "1.prems" show ?thesis
      by (subst (1 2) search_loop.simps) auto
  qed
qed

lemma sort_Search_le: "sort_Search n p \<le> n"
  using search_loop_bounds [of 0 n p] by (simp add: sort_Search_def)

lemma sort_Search_spec:
  assumes "\<And>k l. k \<le> l \<Longrightarrow> p k \<Longrightarrow> l < n \<Longrightarrow> p l"
  shows "k < sort_Search n p \<Longrightarrow> \<not> p k"
    and "sort_Search n p \<le> k \<Longrightarrow> k < n \<Longrightarrow> p k"
  using search_loop_spec [of 0 n p n] assms by (auto simp: sort_Search_def)

end
