(* ===== verification/GoStrings.thy ===== *)
theory GoStrings
  imports Prelude
begin

text \<open>
  What the source uses of Go's string packages: \<open>encoding/hex\<close>, \<open>strconv\<close>, \<open>strings\<close> and
  \<open>net/url\<close>'s \<open>PathEscape\<close>, on byte strings.
\<close>

section \<open>Hexadecimal\<close>

definition byte_of :: "char \<Rightarrow> nat" where
  "byte_of c = of_char c"

definition hex_digit :: "nat \<Rightarrow> char" where
  "hex_digit n = ''0123456789abcdef'' ! n"

definition hex_encode :: "string \<Rightarrow> string" where
  "hex_encode s = concat (map (\<lambda>c. [hex_digit (byte_of c div 16), hex_digit (byte_of c mod 16)]) s)"

definition from_hex_char :: "char \<Rightarrow> nat option" where
  "from_hex_char c =
     (let b = byte_of c in
      if 48 \<le> b \<and> b \<le> 57 then Some (b - 48)
      else if 97 \<le> b \<and> b \<le> 102 then Some (b - 87)
      else if 65 \<le> b \<and> b \<le> 70 then Some (b - 55)
      else None)"

text \<open>\<open>hex.DecodeString\<close>; \<open>None\<close> is an error.\<close>

fun hex_decode :: "string \<Rightarrow> string option" where
  "hex_decode [] = Some []"
| "hex_decode [c] = None"
| "hex_decode (a # b # s) = do {
     x \<leftarrow> from_hex_char a;
     y \<leftarrow> from_hex_char b;
     r \<leftarrow> hex_decode s;
     Some (char_of (16 * x + y) # r)
   }"

lemma byte_of_less: "byte_of c < 256"
  by (simp add: byte_of_def)

lemma from_hex_digit: "n < 16 \<Longrightarrow> from_hex_char (hex_digit n) = Some n"
proof -
  assume "n < 16"
  moreover have "list_all (\<lambda>n. from_hex_char (hex_digit n) = Some n) [0..<16]" by code_simp
  ultimately show ?thesis by (simp add: list_all_iff)
qed

lemma hex_decode_encode: "hex_decode (hex_encode s) = Some s"
proof (induction s)
  case (Cons c s)
  have "byte_of c div 16 < 16" "byte_of c mod 16 < 16" using byte_of_less [of c] by auto
  then have "hex_decode (hex_encode (c # s)) = Some (char_of (byte_of c) # s)"
    using Cons by (simp add: hex_encode_def from_hex_digit)
  then show ?case by (simp add: byte_of_def)
qed (simp add: hex_encode_def)

section \<open>Decimal numbers\<close>

fun dec_digits :: "nat \<Rightarrow> string" where
  "dec_digits n = (if n < 10 then [char_of (48 + n)] else dec_digits (n div 10) @ [char_of (48 + n mod 10)])"

declare dec_digits.simps [simp del]

text \<open>The verb \<open>%d\<close> of \<open>fmt\<close>.\<close>

definition dec_string :: "int \<Rightarrow> string" where
  "dec_string i = (if i < 0 then ''-'' @ dec_digits (nat (- i)) else dec_digits (nat i))"

definition digit_value :: "char \<Rightarrow> nat option" where
  "digit_value c = (let b = byte_of c in if 48 \<le> b \<and> b \<le> 57 then Some (b - 48) else None)"

fun parse_digits :: "nat \<Rightarrow> string \<Rightarrow> nat option" where
  "parse_digits acc [] = Some acc"
| "parse_digits acc (c # s) = do { d \<leftarrow> digit_value c; parse_digits (acc * 10 + d) s }"

text \<open>
  Arithmetic on \<open>int64\<close> wraps. A \<open>time.Time\<close> holds the seconds since the year 1 in an
  \<open>int64\<close>: \<open>time.Unix(sec, 0)\<close> adds the distance to 1970 and wraps, and \<open>t.Unix()\<close> subtracts it
  and wraps. A time is the nanoseconds from 1970 of the second it holds.
\<close>

definition wrap64 :: "int \<Rightarrow> int" where
  "wrap64 i = (i + 9223372036854775808) mod 18446744073709551616 - 9223372036854775808"

definition unixToInternal :: int where "unixToInternal = 62135596800"

definition time_Unix :: "int \<Rightarrow> int" where
  "time_Unix sec = (wrap64 (sec + unixToInternal) - unixToInternal) * 1000000000"

definition unix_seconds :: "int \<Rightarrow> int" where
  "unix_seconds t = wrap64 (t div 1000000000)"

lemma wrap64_id: "- 9223372036854775808 \<le> i \<Longrightarrow> i < 9223372036854775808 \<Longrightarrow> wrap64 i = i"
  by (simp add: wrap64_def)

text \<open>The seconds of a time that was made from seconds are those seconds, however large.\<close>

lemma unix_seconds_time_Unix:
  assumes "- 9223372036854775808 \<le> sec" and "sec < 9223372036854775808"
  shows "unix_seconds (time_Unix sec) = sec"
proof -
  have "unix_seconds (time_Unix sec) = wrap64 (wrap64 (sec + unixToInternal) - unixToInternal)"
    by (simp add: unix_seconds_def time_Unix_def)
  also have "\<dots> = wrap64 sec"
    by (simp add: wrap64_def mod_simps algebra_simps)
  finally show ?thesis using assms by (simp add: wrap64_id)
qed

text \<open>\<open>strconv.ParseInt(s, 10, 64)\<close>; \<open>None\<close> is an error (a range error included).\<close>

definition ParseInt :: "string \<Rightarrow> int option" where
  "ParseInt s =
     (let neg = (take 1 s = ''-'');
          s' = (if take 1 s = ''-'' \<or> take 1 s = ''+'' then tl s else s)
      in if s' = '''' then None else do {
        n \<leftarrow> parse_digits 0 s';
        if neg then (if n \<le> 2 ^ 63 then Some (- int n) else None)
        else (if n < 2 ^ 63 then Some (int n) else None)
      })"

lemma parse_digits_append:
  "parse_digits a (s @ t) = do { b \<leftarrow> parse_digits a s; parse_digits b t }"
  by (induction s arbitrary: a) (auto simp: bind_assoc)

lemma digit_value_char: "d < 10 \<Longrightarrow> digit_value (char_of (48 + d)) = Some d"
  by (simp add: digit_value_def byte_of_def Let_def)

lemma parse_dec_digits: "parse_digits 0 (dec_digits n) = Some n"
proof (induction n rule: dec_digits.induct)
  case (1 n)
  show ?case
  proof (cases "n < 10")
    case True
    then show ?thesis by (subst dec_digits.simps) (simp add: digit_value_char)
  next
    case False
    then show ?thesis
      using 1 by (subst dec_digits.simps) (simp add: parse_digits_append digit_value_char)
  qed
qed

lemma dec_digits_ne: "dec_digits n \<noteq> []"
  by (subst dec_digits.simps) simp

lemma dec_digits_hd: "byte_of (hd (dec_digits n)) \<in> {48..57}"
proof (induction n rule: dec_digits.induct)
  case (1 n)
  show ?case
  proof (cases "n < 10")
    case True
    then show ?thesis by (subst dec_digits.simps) (simp add: byte_of_def)
  next
    case False
    then show ?thesis
      using 1 dec_digits_ne [of "n div 10"] by (subst dec_digits.simps) simp
  qed
qed

lemma ParseInt_dec_string:
  assumes "- (2 ^ 63) \<le> i" and "i < 2 ^ 63"
  shows "ParseInt (dec_string i) = Some i"
proof (cases "i < 0")
  case True
  then show ?thesis
    using assms(1) parse_dec_digits [of "nat (- i)"] dec_digits_ne [of "nat (- i)"]
    by (simp add: ParseInt_def dec_string_def Let_def nat_le_iff)
next
  case False
  obtain c s where cs: "dec_digits (nat i) = c # s" using dec_digits_ne [of "nat i"] by (cases "dec_digits (nat i)") auto
  have "byte_of c \<in> {48..57}" using dec_digits_hd [of "nat i"] cs by simp
  then have "c \<noteq> CHR ''-''" "c \<noteq> CHR ''+''" by (auto simp: byte_of_def)
  then show ?thesis
    using False assms(2) parse_dec_digits [of "nat i"] cs
    by (simp add: ParseInt_def dec_string_def Let_def nat_less_iff)
qed

section \<open>Splitting\<close>

definition prefix_at :: "string \<Rightarrow> string \<Rightarrow> bool" where
  "prefix_at p s \<longleftrightarrow> take (length p) s = p"

text \<open>\<open>strings.Split\<close> for a separator that is not empty; \<open>cur\<close> is the part read so far.\<close>

function split_at :: "string \<Rightarrow> string \<Rightarrow> string \<Rightarrow> string list" where
  "split_at sep cur s =
     (if s = [] then [cur]
      else if sep \<noteq> [] \<and> prefix_at sep s then cur # split_at sep [] (drop (length sep) s)
      else split_at sep (cur @ [hd s]) (tl s))"
  by pat_completeness auto
termination by (relation "measure (\<lambda>(sep, cur, s). length s)") auto

declare split_at.simps [simp del]

definition strings_Split :: "string \<Rightarrow> string \<Rightarrow> string list" where
  "strings_Split s sep = split_at sep [] s"

fun strings_Join :: "string list \<Rightarrow> string \<Rightarrow> string" where
  "strings_Join [] sep = []"
| "strings_Join [s] sep = s"
| "strings_Join (s # ss) sep = s @ sep @ strings_Join ss sep"

lemma split_at_ne: "split_at sep cur s \<noteq> []"
  by (induction sep cur s rule: split_at.induct) (subst split_at.simps, simp)

lemma strings_Join_Cons: "ss \<noteq> [] \<Longrightarrow> strings_Join (s # ss) sep = s @ sep @ strings_Join ss sep"
  by (cases ss) auto

lemma Join_split_at: "strings_Join (split_at sep cur s) sep = cur @ s"
proof (induction sep cur s rule: split_at.induct)
  case (1 sep cur s)
  consider "s = []" | "s \<noteq> []" "sep \<noteq> [] \<and> prefix_at sep s" | "s \<noteq> []" "\<not> (sep \<noteq> [] \<and> prefix_at sep s)"
    by blast
  then show ?case
  proof cases
    case 2
    then have "s = sep @ drop (length sep) s"
      unfolding prefix_at_def by (metis append_take_drop_id)
    with 2 1(1) show ?thesis
      by (subst split_at.simps) (simp add: strings_Join_Cons split_at_ne)
  next
    case 3
    then show ?thesis using 1(2) by (subst split_at.simps) auto
  qed (subst split_at.simps, simp)
qed

section \<open>\<open>url.PathEscape\<close>\<close>

definition upper_hex_digit :: "nat \<Rightarrow> char" where
  "upper_hex_digit n = ''0123456789ABCDEF'' ! n"

definition path_keeps :: "char \<Rightarrow> bool" where
  "path_keeps c \<longleftrightarrow> (let b = byte_of c in
     97 \<le> b \<and> b \<le> 122 \<or> 65 \<le> b \<and> b \<le> 90 \<or> 48 \<le> b \<and> b \<le> 57 \<or> c \<in> set ''-_.~$&+:=@'')"

definition PathEscape :: "string \<Rightarrow> string" where
  "PathEscape s = concat (map (\<lambda>c. if path_keeps c then [c]
     else [CHR ''%'', upper_hex_digit (byte_of c div 16), upper_hex_digit (byte_of c mod 16)]) s)"

section \<open>Suffixes, substrings and letter case\<close>

definition has_suffix :: "string \<Rightarrow> string \<Rightarrow> bool" where
  "has_suffix s suffix = (length suffix \<le> length s \<and> drop (length s - length suffix) s = suffix)"

fun contains_sub :: "string \<Rightarrow> string \<Rightarrow> bool" where
  "contains_sub [] p = (p = [])"
| "contains_sub (c # s) p = (take (length p) (c # s) = p \<or> contains_sub s p)"

definition lower_char :: "char \<Rightarrow> char" where
  "lower_char c = (let b = byte_of c in if 65 \<le> b \<and> b \<le> 90 then char_of (b + 32) else c)"

text \<open>
  \<open>strings.ToLower\<close> on ASCII text: it is applied to titles, names of columns and of JSON fields, and the
  states of stores. Where arbitrary text is lowered, the function is an argument of the model.
\<close>

definition to_lower :: "string \<Rightarrow> string" where
  "to_lower s = map lower_char s"

end
