(* ===== verification/DynamicConfig.thy ===== *)
theory DynamicConfig
  imports GoStrings
begin

text \<open>
  The dynamic configuration (\<open>pkg/config/dynamic_config.go\<close>, \<open>dynamic_config_manager.go\<close>) and
  the node kinds it names (\<open>pkg/apiserver/model\<close>).

  The manager is a record; etcd and \<open>encoding/json\<close> are operations of a record
  \<open>config_ops\<close> on a store state and a type of documents. A push channel is its buffer of
  capacity 1000: a send to a closed channel panics and a send to a full one blocks with the
  mutex held, both are \<open>None\<close>. The retries of \<open>Start\<close> are the steps of \<open>start_step\<close>.
\<close>

section \<open>Nodes\<close>

text \<open>\<open>NodeKind\<close> is a string type; other strings may come out of a request.\<close>

type_synonym NodeKind = string

definition NodeKindTiDB :: NodeKind where "NodeKindTiDB = ''tidb''"
definition NodeKindTiKV :: NodeKind where "NodeKindTiKV = ''tikv''"
definition NodeKindPD :: NodeKind where "NodeKindPD = ''pd''"
definition NodeKindTiFlash :: NodeKind where "NodeKindTiFlash = ''tiflash''"

record RequestTargetNode =
  rt_Kind :: NodeKind
  DisplayName :: string
  IP :: string
  Port :: int

definition node_String :: "RequestTargetNode \<Rightarrow> string" where
  "node_String n = rt_Kind n @ ''('' @ DisplayName n @ '')''"

definition FileName :: "RequestTargetNode \<Rightarrow> string" where
  "FileName n =
     (let displayName = map (\<lambda>c. if c = CHR '':'' then CHR ''_'' else c) (DisplayName n)
      in rt_Kind n @ ''_'' @ displayName)"

record RequestTargetStatistics =
  NumTiKVNodes :: int
  NumTiDBNodes :: int
  NumPDNodes :: int
  NumTiFlashNodes :: int

definition NewRequestTargetStatisticsFromArray :: "RequestTargetNode list \<Rightarrow> RequestTargetStatistics" where
  "NewRequestTargetStatisticsFromArray arr =
     fold (\<lambda>node stats.
       if rt_Kind node = NodeKindTiDB then stats\<lparr>NumTiDBNodes := NumTiDBNodes stats + 1\<rparr>
       else if rt_Kind node = NodeKindTiKV then stats\<lparr>NumTiKVNodes := NumTiKVNodes stats + 1\<rparr>
       else if rt_Kind node = NodeKindPD then stats\<lparr>NumPDNodes := NumPDNodes stats + 1\<rparr>
       else if rt_Kind node = NodeKindTiFlash then stats\<lparr>NumTiFlashNodes := NumTiFlashNodes stats + 1\<rparr>
       else stats)
     arr \<lparr>NumTiKVNodes = 0, NumTiDBNodes = 0, NumPDNodes = 0, NumTiFlashNodes = 0\<rparr>"

section \<open>\<open>dynamic_config.go\<close>\<close>

definition KeyVisualDBPolicy :: string where "KeyVisualDBPolicy = ''db''"
definition KeyVisualKVPolicy :: string where "KeyVisualKVPolicy = ''kv''"
definition DefaultKeyVisualPolicy :: string where "DefaultKeyVisualPolicy = KeyVisualDBPolicy"
definition DefaultProfilingAutoCollectionDurationSecs :: u64 where "DefaultProfilingAutoCollectionDurationSecs = 30"
definition MaxProfilingAutoCollectionDurationSecs :: u64 where "MaxProfilingAutoCollectionDurationSecs = 120"
definition DefaultProfilingAutoCollectionIntervalSecs :: u64 where "DefaultProfilingAutoCollectionIntervalSecs = 3600"

definition KeyVisualPolicies :: "string list" where
  "KeyVisualPolicies = [KeyVisualDBPolicy, KeyVisualKVPolicy]"

record KeyVisualConfig =
  AutoCollectionDisabled :: bool
  Policy :: string
  PolicyKVSeparator :: string

record ProfilingConfig =
  AutoCollectionTargets :: "RequestTargetNode list"
  AutoCollectionDurationSecs :: u64
  AutoCollectionIntervalSecs :: u64

record SSOCoreConfig =
  sso_Enabled :: bool
  ClientID :: string
  DiscoveryURL :: string
  IsReadOnly :: bool

record SSOConfig =
  CoreConfig :: SSOCoreConfig
  AuthURL :: string
  TokenURL :: string
  UserInfoURL :: string
  SignOutURL :: string

record DynamicConfig =
  KeyVisual :: KeyVisualConfig
  Profiling :: ProfilingConfig
  SSO :: SSOConfig

text \<open>The errors of \<open>Validate\<close>, one per message.\<close>

datatype verification_error =
    policy_must_be_in
  | duration_cannot_be_0
  | duration_cannot_be_greater
  | interval_cannot_be_0
  | duration_must_be_0
  | interval_must_be_0

definition validatePolicy :: "KeyVisualConfig \<Rightarrow> verification_error option" where
  "validatePolicy c = (if \<exists>p\<in>set KeyVisualPolicies. p = Policy c then None else Some policy_must_be_in)"

text \<open>\<open>Clone\<close> copies the slice of targets into a new one of the same length.\<close>

definition cfg_Clone :: "DynamicConfig \<Rightarrow> DynamicConfig" where
  "cfg_Clone c =
     (let targets = AutoCollectionTargets (Profiling c);
          zero = \<lparr>rt_Kind = '''', DisplayName = '''', IP = '''', Port = 0\<rparr>
      in c\<lparr>Profiling := (Profiling c)\<lparr>AutoCollectionTargets :=
             go_copy (replicate (length targets) zero) targets\<rparr>\<rparr>)"

text \<open>\<open>None\<close> is the nil error.\<close>

definition Validate :: "DynamicConfig \<Rightarrow> verification_error option" where
  "Validate c =
     (let perr = (if \<not> AutoCollectionDisabled (KeyVisual c) then validatePolicy (KeyVisual c) else None);
          p = Profiling c
      in if perr \<noteq> None then perr
         else if 0 < length (AutoCollectionTargets p) then
           (if AutoCollectionDurationSecs p = 0 then Some duration_cannot_be_0
            else if MaxProfilingAutoCollectionDurationSecs < AutoCollectionDurationSecs p
              then Some duration_cannot_be_greater
            else if AutoCollectionIntervalSecs p = 0 then Some interval_cannot_be_0
            else None)
         else
           (if AutoCollectionDurationSecs p \<noteq> 0 then Some duration_must_be_0
            else if AutoCollectionIntervalSecs p \<noteq> 0 then Some interval_must_be_0
            else None))"

definition Adjust :: "DynamicConfig \<Rightarrow> DynamicConfig" where
  "Adjust c =
     (let c = (if \<not> AutoCollectionDisabled (KeyVisual c) \<and> validatePolicy (KeyVisual c) \<noteq> None
               then c\<lparr>KeyVisual := (KeyVisual c)\<lparr>Policy := DefaultKeyVisualPolicy\<rparr>\<rparr> else c);
          p = Profiling c
      in if 0 < length (AutoCollectionTargets p) then
           let p = (if AutoCollectionDurationSecs p = 0
                 then p\<lparr>AutoCollectionDurationSecs := DefaultProfilingAutoCollectionDurationSecs\<rparr> else p);
               p = (if MaxProfilingAutoCollectionDurationSecs < AutoCollectionDurationSecs p
                 then p\<lparr>AutoCollectionDurationSecs := MaxProfilingAutoCollectionDurationSecs\<rparr> else p);
               p = (if AutoCollectionIntervalSecs p = 0
                 then p\<lparr>AutoCollectionIntervalSecs := DefaultProfilingAutoCollectionIntervalSecs\<rparr> else p)
           in c\<lparr>Profiling := p\<rparr>
         else c\<lparr>Profiling := p\<lparr>AutoCollectionDurationSecs := 0, AutoCollectionIntervalSecs := 0\<rparr>\<rparr>)"

definition zero_config :: DynamicConfig where
  "zero_config = \<lparr>KeyVisual = \<lparr>AutoCollectionDisabled = False, Policy = '''', PolicyKVSeparator = ''''\<rparr>,
     Profiling = \<lparr>AutoCollectionTargets = [], AutoCollectionDurationSecs = 0, AutoCollectionIntervalSecs = 0\<rparr>,
     SSO = \<lparr>CoreConfig = \<lparr>sso_Enabled = False, ClientID = '''', DiscoveryURL = '''', IsReadOnly = False\<rparr>,
       AuthURL = '''', TokenURL = '''', UserInfoURL = '''', SignOutURL = ''''\<rparr>\<rparr>"

section \<open>\<open>config.go\<close>\<close>

text \<open>\<open>strings.TrimRight\<close> with one character; \<open>NormalizePublicPathPrefix\<close> on the prefix.\<close>

definition TrimRight_char :: "string \<Rightarrow> char \<Rightarrow> string" where
  "TrimRight_char s c = rev (dropWhile (\<lambda>d. d = c) (rev s))"

definition defaultPublicPathPrefix :: string where "defaultPublicPathPrefix = ''/dashboard''"

definition NormalizePublicPathPrefix :: "string \<Rightarrow> string" where
  "NormalizePublicPathPrefix p =
     (let p = (if p = '''' then defaultPublicPathPrefix else p) in TrimRight_char p (CHR ''/''))"

definition GetClusterHTTPScheme :: "'tls option \<Rightarrow> string" where
  "GetClusterHTTPScheme tls = (if tls \<noteq> None then ''https'' else ''http'')"

section \<open>\<open>dynamic_config_manager.go\<close>\<close>

datatype config_error =
    ErrUnableToLoad
  | ErrPermanent
  | ErrJSON
  | ErrStore
  | ErrNotReady
  | ErrVerificationFailed verification_error

record ('e, 'j) config_ops =
  etcd_Get :: "'e \<Rightarrow> 'j list option"
  etcd_Put :: "'e \<Rightarrow> 'j \<Rightarrow> 'e \<times> bool"
  json_Marshal :: "DynamicConfig \<Rightarrow> 'j option"
  json_Unmarshal :: "'j \<Rightarrow> DynamicConfig option"

record channel =
  ch_buf :: "DynamicConfig list"
  ch_closed :: bool

record DynamicConfigManager =
  dynamicConfig :: "DynamicConfig option"
  pushChannels :: "channel list"

definition ch_send :: "DynamicConfig \<Rightarrow> channel \<Rightarrow> channel option" where
  "ch_send dc ch =
     (if ch_closed ch then None else if 1000 \<le> length (ch_buf ch) then None
      else Some (ch\<lparr>ch_buf := ch_buf ch @ [dc]\<rparr>))"

definition mgr_new :: DynamicConfigManager where
  "mgr_new = \<lparr>dynamicConfig = None, pushChannels = []\<rparr>"

text \<open>\<open>load\<close> gives nil when the key does not exist.\<close>

definition mgr_load :: "('e, 'j) config_ops \<Rightarrow> 'e \<Rightarrow> config_error + DynamicConfig option" where
  "mgr_load ops e =
     (case etcd_Get ops e of
        None \<Rightarrow> Inl ErrUnableToLoad
      | Some kvs \<Rightarrow>
          (if length kvs = 0 then Inr None
           else if length kvs = 1 then
             (case json_Unmarshal ops (kvs ! 0) of None \<Rightarrow> Inl ErrJSON | Some dc \<Rightarrow> Inr (Some dc))
           else Inl ErrPermanent))"

definition mgr_store :: "('e, 'j) config_ops \<Rightarrow> 'e \<Rightarrow> DynamicConfig \<Rightarrow> 'e \<times> config_error option" where
  "mgr_store ops e dc =
     (case json_Marshal ops dc of
        None \<Rightarrow> (e, Some ErrJSON)
      | Some bs \<Rightarrow> (let (e, err) = etcd_Put ops e bs in (e, if err then Some ErrStore else None)))"

definition mgr_Get :: "DynamicConfigManager \<Rightarrow> config_error + DynamicConfig" where
  "mgr_Get m = (case dynamicConfig m of None \<Rightarrow> Inl ErrNotReady | Some dc \<Rightarrow> Inr (cfg_Clone dc))"

text \<open>The part of \<open>Set\<close> under the mutex.\<close>

definition mgr_publish :: "DynamicConfigManager \<Rightarrow> DynamicConfig \<Rightarrow> DynamicConfigManager option" where
  "mgr_publish m newDc = do {
     let m = m\<lparr>dynamicConfig := Some newDc\<rparr>;
     chans \<leftarrow> those_columns (ch_send (cfg_Clone newDc)) (pushChannels m);
     Some (m\<lparr>pushChannels := chans\<rparr>)
   }"

definition mgr_Set ::
  "('e, 'j) config_ops \<Rightarrow> 'e \<Rightarrow> DynamicConfigManager \<Rightarrow> DynamicConfig \<Rightarrow>
   ('e \<times> DynamicConfigManager \<times> config_error option) option" where
  "mgr_Set ops e m newDc =
     (let (e, err) = mgr_store ops e newDc in
      if err \<noteq> None then Some (e, m, err) else do {
        m \<leftarrow> mgr_publish m newDc;
        Some (e, m, None)
      })"

text \<open>What \<open>Modify\<close> passes to \<open>Set\<close>.\<close>

definition modified :: "DynamicConfigManager \<Rightarrow> (DynamicConfig \<Rightarrow> DynamicConfig) list \<Rightarrow> config_error + DynamicConfig" where
  "modified m opts =
     (case mgr_Get m of
        Inl err \<Rightarrow> Inl err
      | Inr newDc \<Rightarrow>
          let newDc = fold (\<lambda>opt dc. opt dc) opts newDc in
          (case Validate newDc of
             Some err \<Rightarrow> Inl (ErrVerificationFailed err)
           | None \<Rightarrow> Inr newDc))"

definition Modify ::
  "('e, 'j) config_ops \<Rightarrow> 'e \<Rightarrow> DynamicConfigManager \<Rightarrow> (DynamicConfig \<Rightarrow> DynamicConfig) list \<Rightarrow>
   ('e \<times> DynamicConfigManager \<times> config_error option) option" where
  "Modify ops e m opts =
     (case modified m opts of
        Inl err \<Rightarrow> Some (e, m, Some err)
      | Inr newDc \<Rightarrow> mgr_Set ops e m newDc)"

definition NewPushChannel :: "DynamicConfigManager \<Rightarrow> (DynamicConfigManager \<times> nat) option" where
  "NewPushChannel m = do {
     let ch = \<lparr>ch_buf = [], ch_closed = False\<rparr>;
     ch \<leftarrow> (case dynamicConfig m of None \<Rightarrow> Some ch | Some dc \<Rightarrow> ch_send (cfg_Clone dc) ch);
     Some (m\<lparr>pushChannels := pushChannels m @ [ch]\<rparr>, length (pushChannels m))
   }"

text \<open>Closing a closed channel panics.\<close>

definition mgr_Stop :: "DynamicConfigManager \<Rightarrow> DynamicConfigManager option" where
  "mgr_Stop m = do {
     chans \<leftarrow> those_columns (\<lambda>ch. if ch_closed ch then None else Some (ch\<lparr>ch_closed := True\<rparr>)) (pushChannels m);
     Some (m\<lparr>pushChannels := chans\<rparr>)
   }"

text \<open>A receive by the subscriber of channel \<open>i\<close>.\<close>

definition ch_recv :: "DynamicConfigManager \<Rightarrow> nat \<Rightarrow> (DynamicConfigManager \<times> DynamicConfig) option" where
  "ch_recv m i = do {
     ch \<leftarrow> idx (pushChannels m) i;
     (case ch_buf ch of
        [] \<Rightarrow> None
      | dc # rest \<Rightarrow> Some (m\<lparr>pushChannels := (pushChannels m)[i := ch\<lparr>ch_buf := rest\<rparr>]\<rparr>, dc))
   }"

section \<open>Start\<close>

text \<open>
  Where the goroutine of \<open>Start\<close> stands. \<open>backoff.Retry\<close> repeats a failed operation until it
  succeeds, fails permanently or the context ends. \<open>Set\<close> stores without the mutex and
  publishes with it, which are two steps.
\<close>

datatype start_phase = Loading | Storing DynamicConfig | Publishing DynamicConfig | Started | Failed

definition loaded_config :: "DynamicConfig option \<Rightarrow> DynamicConfig" where
  "loaded_config dc = Adjust (case dc of None \<Rightarrow> zero_config | Some dc \<Rightarrow> dc)"

inductive start_step ::
  "('e, 'j) config_ops \<Rightarrow> start_phase \<times> 'e \<times> DynamicConfigManager \<Rightarrow>
   start_phase \<times> 'e \<times> DynamicConfigManager \<Rightarrow> bool" for ops where
  load_retry: "mgr_load ops e = Inl err \<Longrightarrow> err \<noteq> ErrPermanent \<Longrightarrow>
    start_step ops (Loading, e, m) (Loading, e, m)"
| load_permanent: "mgr_load ops e = Inl ErrPermanent \<Longrightarrow> start_step ops (Loading, e, m) (Failed, e, m)"
| load_ok: "mgr_load ops e = Inr dc \<Longrightarrow> start_step ops (Loading, e, m) (Storing (loaded_config dc), e, m)"
| store_retry: "mgr_store ops e dc = (e', Some err) \<Longrightarrow> start_step ops (Storing dc, e, m) (Storing dc, e', m)"
| store_ok: "mgr_store ops e dc = (e', None) \<Longrightarrow> start_step ops (Storing dc, e, m) (Publishing dc, e', m)"
| published: "mgr_publish m dc = Some m' \<Longrightarrow> start_step ops (Publishing dc, e, m) (Started, e, m')"
| load_cancelled: "start_step ops (Loading, e, m) (Failed, e, m)"
| store_cancelled: "start_step ops (Storing dc, e, m) (Failed, e, m)"

section \<open>Validation and adjustment\<close>

lemmas config_defs = Validate_def Adjust_def validatePolicy_def KeyVisualPolicies_def KeyVisualDBPolicy_def
  KeyVisualKVPolicy_def DefaultKeyVisualPolicy_def MaxProfilingAutoCollectionDurationSecs_def
  DefaultProfilingAutoCollectionDurationSecs_def DefaultProfilingAutoCollectionIntervalSecs_def Let_def

lemma Validate_Adjust: "Validate (Adjust c) = None"
  by (simp add: config_defs)

lemma Validate_None: "Validate c = None \<longleftrightarrow>
  (AutoCollectionDisabled (KeyVisual c) \<or> validatePolicy (KeyVisual c) = None) \<and>
  (if 0 < length (AutoCollectionTargets (Profiling c))
   then AutoCollectionDurationSecs (Profiling c) \<noteq> 0 \<and>
     AutoCollectionDurationSecs (Profiling c) \<le> MaxProfilingAutoCollectionDurationSecs \<and>
     AutoCollectionIntervalSecs (Profiling c) \<noteq> 0
   else AutoCollectionDurationSecs (Profiling c) = 0 \<and> AutoCollectionIntervalSecs (Profiling c) = 0)"
  unfolding Validate_def Let_def by (auto simp: linorder_not_le [symmetric])

lemma Adjust_valid: "Validate c = None \<Longrightarrow> Adjust c = c"
proof -
  assume "Validate c = None"
  then have v: "\<not> (\<not> AutoCollectionDisabled (KeyVisual c) \<and> validatePolicy (KeyVisual c) \<noteq> None)"
    "if 0 < length (AutoCollectionTargets (Profiling c))
     then AutoCollectionDurationSecs (Profiling c) \<noteq> 0 \<and>
       \<not> MaxProfilingAutoCollectionDurationSecs < AutoCollectionDurationSecs (Profiling c) \<and>
       AutoCollectionIntervalSecs (Profiling c) \<noteq> 0
     else AutoCollectionDurationSecs (Profiling c) = 0 \<and> AutoCollectionIntervalSecs (Profiling c) = 0"
    by (auto simp: Validate_None linorder_not_le [symmetric])
  show ?thesis
    unfolding Adjust_def Let_def if_not_P [OF v(1)] using v(2)
    by (cases "0 < length (AutoCollectionTargets (Profiling c))") simp_all
qed

lemma cfg_Clone_id [simp]: "cfg_Clone c = c"
  by (simp add: cfg_Clone_def)

text \<open>
  \<open>Adjust\<close> and \<open>Validate\<close> agree: what \<open>Adjust\<close> returns passes \<open>Validate\<close>, a configuration
  that passes is not changed, and so the configurations that pass are exactly the fixed
  points of \<open>Adjust\<close>.
\<close>

theorem Adjust_Validate: "Validate (Adjust c) = None \<and> (Validate c = None \<longleftrightarrow> Adjust c = c)"
  using Validate_Adjust [of c] Adjust_valid [of c] by metis

theorem Adjust_Validate_witness:
  "Validate zero_config = Some policy_must_be_in \<and> Policy (KeyVisual (Adjust zero_config)) = ''db'' \<and>
    Validate (Adjust zero_config) = None"
  using Adjust_Validate [of zero_config] by (simp add: config_defs zero_config_def)

section \<open>The manager among its clients\<close>

text \<open>
  The manager while requests modify the configuration, services subscribe and receive, and
  the application stops. A request that calls \<open>Modify\<close> reads, validates, stores and
  publishes in three steps between which others run: \<open>reqs\<close> lists the requests on their way.
  An interleaving of the goroutines is a sequence of these steps.
\<close>

datatype request = ToStore DynamicConfig | ToPublish DynamicConfig

type_synonym 'e mgr_state = "start_phase \<times> 'e \<times> DynamicConfigManager \<times> request list"

definition drop_at :: "nat \<Rightarrow> 'a list \<Rightarrow> 'a list" where
  "drop_at i xs = take i xs @ drop (Suc i) xs"

inductive mgr_step :: "('e, 'j) config_ops \<Rightarrow> 'e mgr_state \<Rightarrow> 'e mgr_state \<Rightarrow> bool" for ops where
  start: "start_step ops (ph, e, m) (ph', e', m') \<Longrightarrow> mgr_step ops (ph, e, m, rs) (ph', e', m', rs)"
| req_read: "modified m opts = Inr dc \<Longrightarrow> mgr_step ops (ph, e, m, rs) (ph, e, m, rs @ [ToStore dc])"
| req_store: "i < length rs \<Longrightarrow> rs ! i = ToStore dc \<Longrightarrow> mgr_store ops e dc = (e', None) \<Longrightarrow>
    mgr_step ops (ph, e, m, rs) (ph, e', m, rs[i := ToPublish dc])"
| req_store_err: "i < length rs \<Longrightarrow> rs ! i = ToStore dc \<Longrightarrow> mgr_store ops e dc = (e', Some err) \<Longrightarrow>
    mgr_step ops (ph, e, m, rs) (ph, e', m, drop_at i rs)"
| req_publish: "i < length rs \<Longrightarrow> rs ! i = ToPublish dc \<Longrightarrow> mgr_publish m dc = Some m' \<Longrightarrow>
    mgr_step ops (ph, e, m, rs) (ph, e, m', drop_at i rs)"
| subscribe: "NewPushChannel m = Some (m', i) \<Longrightarrow> mgr_step ops (ph, e, m, rs) (ph, e, m', rs)"
| receive: "ch_recv m i = Some (m', dc) \<Longrightarrow> mgr_step ops (ph, e, m, rs) (ph, e, m', rs)"
| stop: "mgr_Stop m = Some m' \<Longrightarrow> mgr_step ops (ph, e, m, rs) (ph, e, m', rs)"

definition mgr_reachable :: "('e, 'j) config_ops \<Rightarrow> 'e \<Rightarrow> 'e mgr_state \<Rightarrow> bool" where
  "mgr_reachable ops e c \<longleftrightarrow> (mgr_step ops)\<^sup>*\<^sup>* (Loading, e, mgr_new, []) c"

text \<open>
  The invariant: the current configuration, the ones on their way and every one that a
  subscriber has not read yet are valid; the newest unread one is the current one.
\<close>

definition chan_ok :: "DynamicConfig option \<Rightarrow> channel \<Rightarrow> bool" where
  "chan_ok cur ch \<longleftrightarrow> length (ch_buf ch) \<le> 1000 \<and> (\<forall>dc\<in>set (ch_buf ch). Validate dc = None) \<and>
     (ch_buf ch \<noteq> [] \<longrightarrow> Some (last (ch_buf ch)) = cur)"

fun phase_ok :: "start_phase \<Rightarrow> bool" where
  "phase_ok (Storing dc) \<longleftrightarrow> Validate dc = None"
| "phase_ok (Publishing dc) \<longleftrightarrow> Validate dc = None"
| "phase_ok _ \<longleftrightarrow> True"

fun request_ok :: "request \<Rightarrow> bool" where
  "request_ok (ToStore dc) \<longleftrightarrow> Validate dc = None"
| "request_ok (ToPublish dc) \<longleftrightarrow> Validate dc = None"

definition mgr_ok :: "DynamicConfigManager \<Rightarrow> bool" where
  "mgr_ok m \<longleftrightarrow> (\<forall>dc. dynamicConfig m = Some dc \<longrightarrow> Validate dc = None) \<and>
     (\<forall>ch\<in>set (pushChannels m). chan_ok (dynamicConfig m) ch)"

fun state_ok :: "'e mgr_state \<Rightarrow> bool" where
  "state_ok (ph, e, m, rs) \<longleftrightarrow> phase_ok ph \<and> mgr_ok m \<and> (\<forall>r\<in>set rs. request_ok r)"

lemma those_columns_set:
  "those_columns f xs = Some ys \<Longrightarrow> (\<And>x y. x \<in> set xs \<Longrightarrow> f x = Some y \<Longrightarrow> P y) \<Longrightarrow> \<forall>y\<in>set ys. P y"
  by (fastforce simp: those_columns_iff list_all2_conv_all_nth in_set_conv_nth)

lemma set_drop_at: "set (drop_at i xs) \<subseteq> set xs"
  unfolding drop_at_def by (metis Un_least set_append set_drop_subset set_take_subset)

lemma mgr_publish_ok:
  assumes "mgr_publish m dc = Some m'" and "mgr_ok m" and "Validate dc = None"
  shows "mgr_ok m'"
proof -
  obtain chans where c: "those_columns (ch_send dc) (pushChannels m) = Some chans"
    "m' = m\<lparr>dynamicConfig := Some dc, pushChannels := chans\<rparr>"
    using assms(1) by (auto simp: mgr_publish_def bind_eq_Some_conv)
  have "\<forall>ch\<in>set chans. chan_ok (Some dc) ch"
  proof (rule those_columns_set [OF c(1)])
    fix ch ch' assume "ch \<in> set (pushChannels m)" "ch_send dc ch = Some ch'"
    then show "chan_ok (Some dc) ch'"
      using assms(2,3) by (auto simp: ch_send_def mgr_ok_def chan_ok_def split: if_splits)
  qed
  then show ?thesis using c(2) assms(3) by (simp add: mgr_ok_def)
qed

lemma modified_valid: "modified m opts = Inr dc \<Longrightarrow> Validate dc = None"
  by (auto simp: modified_def Let_def split: sum.splits option.splits)

lemma start_step_ok:
  assumes "start_step ops c c'" and "phase_ok (fst c)" and "mgr_ok (snd (snd c))"
  shows "phase_ok (fst c') \<and> mgr_ok (snd (snd c'))"
  using assms by (induction rule: start_step.induct) (auto simp: loaded_config_def Validate_Adjust intro: mgr_publish_ok)

lemma subscribe_ok: "NewPushChannel m = Some (m', i) \<Longrightarrow> mgr_ok m \<Longrightarrow> mgr_ok m'"
  by (auto simp: NewPushChannel_def Let_def bind_eq_Some_conv mgr_ok_def chan_ok_def ch_send_def split: option.splits)

lemma receive_ok:
  assumes "ch_recv m i = Some (m', dc)" and "mgr_ok m"
  shows "mgr_ok m'"
proof -
  obtain ch rest where r: "i < length (pushChannels m)" "pushChannels m ! i = ch" "ch_buf ch = dc # rest"
    "m' = m\<lparr>pushChannels := (pushChannels m)[i := ch\<lparr>ch_buf := rest\<rparr>]\<rparr>"
    using assms(1) by (auto simp: ch_recv_def bind_eq_Some_conv idx_eq_Some_iff split: list.splits)
  have "ch \<in> set (pushChannels m)" using r(1,2) by auto
  then have "chan_ok (dynamicConfig m) ch" using assms(2) by (simp add: mgr_ok_def)
  then have "chan_ok (dynamicConfig m) (ch\<lparr>ch_buf := rest\<rparr>)" using r(3) by (auto simp: chan_ok_def split: if_splits)
  then show ?thesis using assms(2) r(4) set_update_subset_insert [of "pushChannels m" i] by (fastforce simp: mgr_ok_def)
qed

lemma stop_ok:
  assumes "mgr_Stop m = Some m'" and "mgr_ok m"
  shows "mgr_ok m'"
proof -
  obtain chans where c: "those_columns (\<lambda>ch. if ch_closed ch then None else Some (ch\<lparr>ch_closed := True\<rparr>))
      (pushChannels m) = Some chans" "m' = m\<lparr>pushChannels := chans\<rparr>"
    using assms(1) by (auto simp: mgr_Stop_def bind_eq_Some_conv)
  have "\<forall>ch\<in>set chans. chan_ok (dynamicConfig m) ch"
    by (rule those_columns_set [OF c(1)]) (use assms(2) in \<open>auto simp: mgr_ok_def chan_ok_def split: if_splits\<close>)
  then show ?thesis using assms(2) c(2) by (simp add: mgr_ok_def)
qed

lemma mgr_step_ok: "mgr_step ops c c' \<Longrightarrow> state_ok c \<Longrightarrow> state_ok c'"
proof (induction rule: mgr_step.induct)
  case (start ph e m ph' e' m' rs)
  then show ?case using start_step_ok [of ops "(ph, e, m)" "(ph', e', m')"] by simp
next
  case (req_store i rs dc e e' ph m)
  then have "request_ok (ToStore dc)" using nth_mem [of i rs] by (metis state_ok.simps)
  then show ?case using req_store set_update_subset_insert [of rs i "ToPublish dc"] by auto
next
  case (req_store_err i rs dc e e' err ph m)
  then show ?case using set_drop_at [of i rs] by auto
next
  case (req_publish i rs dc m m' ph e)
  then have "request_ok (ToPublish dc)" using nth_mem [of i rs] by (metis state_ok.simps)
  then show ?case using req_publish set_drop_at [of i rs] mgr_publish_ok [of m dc m'] by auto
qed (auto dest: modified_valid subscribe_ok receive_ok stop_ok)

lemma mgr_reachable_ok: "mgr_reachable ops e c \<Longrightarrow> state_ok c"
  unfolding mgr_reachable_def
  by (induction rule: rtranclp_induct) (simp add: mgr_ok_def mgr_new_def, blast intro: mgr_step_ok)

text \<open>
  C11: whatever etcd answers and however requests, subscribers and the start-up interleave,
  the configuration that \<open>Get\<close> returns and every configuration that reaches a subscriber
  is one that \<open>Validate\<close> accepts, and the newest configuration waiting in a push channel is
  the current one.
\<close>

theorem manager_configs_valid:
  assumes "mgr_reachable ops e (ph, e', m, rs)"
  shows "(\<forall>dc. mgr_Get m = Inr dc \<longrightarrow> Validate dc = None) \<and>
    (\<forall>m' i dc. ch_recv m i = Some (m', dc) \<longrightarrow> Validate dc = None) \<and>
    (\<forall>ch\<in>set (pushChannels m). ch_buf ch \<noteq> [] \<longrightarrow> mgr_Get m = Inr (last (ch_buf ch)))"
proof -
  have ok: "mgr_ok m" using mgr_reachable_ok [OF assms] by simp
  have "Validate dc = None" if that: "ch_recv m i = Some (m', dc)" for m' i dc
  proof -
    have "pushChannels m ! i \<in> set (pushChannels m) \<and> dc \<in> set (ch_buf (pushChannels m ! i))"
      using \<open>ch_recv m i = Some (m', dc)\<close>
      by (auto simp: ch_recv_def bind_eq_Some_conv idx_eq_Some_iff split: list.splits)
    with ok show ?thesis by (fastforce simp: mgr_ok_def chan_ok_def)
  qed
  moreover have "mgr_Get m = Inr (last (ch_buf ch))" if "ch \<in> set (pushChannels m)" "ch_buf ch \<noteq> []" for ch
  proof -
    have "Some (last (ch_buf ch)) = dynamicConfig m" using ok that by (simp add: mgr_ok_def chan_ok_def)
    from this [symmetric] show ?thesis by (simp add: mgr_Get_def)
  qed
  ultimately show ?thesis using ok by (auto simp: mgr_Get_def mgr_ok_def split: option.splits)
qed

definition list_etcd :: "(DynamicConfig list, DynamicConfig) config_ops" where
  "list_etcd = \<lparr>etcd_Get = Some, etcd_Put = (\<lambda>e bs. ([bs], False)), json_Marshal = Some, json_Unmarshal = Some\<rparr>"

definition demo_mgr :: "DynamicConfig \<Rightarrow> DynamicConfigManager" where
  "demo_mgr dc = \<lparr>dynamicConfig = Some dc, pushChannels = []\<rparr>"

lemmas demo_mgr_defs = mgr_load_def list_etcd_def mgr_store_def mgr_publish_def demo_mgr_def mgr_new_def
  modified_def mgr_Get_def drop_at_def

lemma demo_mgr_start: "(mgr_step list_etcd)\<^sup>*\<^sup>* (Loading, [], mgr_new, [])
  (Started, [Adjust zero_config], demo_mgr (Adjust zero_config), [])"
proof -
  let ?dc = "Adjust zero_config"
  have "start_step list_etcd (Loading, [], mgr_new) (Storing ?dc, [], mgr_new)"
    using start_step.load_ok [of list_etcd "[]" None mgr_new] by (simp add: demo_mgr_defs loaded_config_def)
  moreover have "start_step list_etcd (Storing ?dc, [], mgr_new) (Publishing ?dc, [?dc], mgr_new)"
    by (intro start_step.store_ok) (simp add: demo_mgr_defs)
  moreover have "start_step list_etcd (Publishing ?dc, [?dc], mgr_new) (Started, [?dc], demo_mgr ?dc)"
    by (intro start_step.published) (simp add: demo_mgr_defs)
  ultimately show ?thesis by (meson mgr_step.start converse_rtranclp_into_rtranclp rtranclp.rtrancl_refl)
qed

theorem manager_configs_valid_witness:
  "mgr_Get (demo_mgr (Adjust zero_config)) = Inr (Adjust zero_config) \<and> Validate (Adjust zero_config) = None"
  using manager_configs_valid [OF demo_mgr_start [folded mgr_reachable_def]] by (simp add: demo_mgr_def mgr_Get_def)

text \<open>
  Two requests can cross between the store and the mutex of \<open>Set\<close>: with both done, etcd
  keeps the configuration of one and the manager the other's.
\<close>

theorem concurrent_Modify_diverges:
  "\<exists>m stored dc. mgr_reachable list_etcd [] (Started, [stored], m, []) \<and> mgr_Get m = Inr dc \<and> dc \<noteq> stored"
proof -
  let ?dc = "Adjust zero_config"
  let ?set = "\<lambda>sep dc. dc\<lparr>KeyVisual := (KeyVisual dc)\<lparr>PolicyKVSeparator := sep\<rparr>\<rparr>"
  let ?a = "?set ''a'' ?dc" and ?b = "?set ''b'' ?dc"
  have valid: "Validate ?a = None" "Validate ?b = None" using Validate_Adjust [of zero_config] by (simp_all add: Validate_None validatePolicy_def)
  note st = mgr_step.intros [where ops = list_etcd and ph = Started]
  have 1: "mgr_step list_etcd (Started, [?dc], demo_mgr ?dc, []) (Started, [?dc], demo_mgr ?dc, [ToStore ?a])"
    using st(2) [where opts = "[?set ''a'']" and rs = "[]" and m = "demo_mgr ?dc" and dc = ?a] valid
    by (simp add: demo_mgr_defs)
  have 2: "mgr_step list_etcd (Started, [?dc], demo_mgr ?dc, [ToStore ?a]) (Started, [?dc], demo_mgr ?dc, [ToStore ?a, ToStore ?b])"
    using st(2) [where opts = "[?set ''b'']" and rs = "[ToStore ?a]" and m = "demo_mgr ?dc" and dc = ?b] valid
    by (simp add: demo_mgr_defs)
  have 3: "mgr_step list_etcd (Started, [?dc], demo_mgr ?dc, [ToStore ?a, ToStore ?b]) (Started, [?a], demo_mgr ?dc, [ToPublish ?a, ToStore ?b])"
    using st(3) [where i = 0 and rs = "[ToStore ?a, ToStore ?b]" and dc = ?a] by (simp add: demo_mgr_defs)
  have 4: "mgr_step list_etcd (Started, [?a], demo_mgr ?dc, [ToPublish ?a, ToStore ?b]) (Started, [?b], demo_mgr ?dc, [ToPublish ?a, ToPublish ?b])"
    using st(3) [where i = 1 and rs = "[ToPublish ?a, ToStore ?b]" and dc = ?b] by (simp add: demo_mgr_defs)
  have 5: "mgr_step list_etcd (Started, [?b], demo_mgr ?dc, [ToPublish ?a, ToPublish ?b]) (Started, [?b], demo_mgr ?b, [ToPublish ?a])"
    using st(5) [where i = 1 and rs = "[ToPublish ?a, ToPublish ?b]" and dc = ?b and m = "demo_mgr ?dc" and m' = "demo_mgr ?b"]
    by (simp add: demo_mgr_defs)
  have 6: "mgr_step list_etcd (Started, [?b], demo_mgr ?b, [ToPublish ?a]) (Started, [?b], demo_mgr ?a, [])"
    using st(5) [where i = 0 and rs = "[ToPublish ?a]" and dc = ?a and m = "demo_mgr ?b" and m' = "demo_mgr ?a"]
    by (simp add: demo_mgr_defs)
  have "mgr_reachable list_etcd [] (Started, [?b], demo_mgr ?a, [])"
    unfolding mgr_reachable_def
    by (rule demo_mgr_start [THEN rtranclp.rtrancl_into_rtrancl, OF 1, THEN rtranclp.rtrancl_into_rtrancl, OF 2,
        THEN rtranclp.rtrancl_into_rtrancl, OF 3, THEN rtranclp.rtrancl_into_rtrancl, OF 4,
        THEN rtranclp.rtrancl_into_rtrancl, OF 5, THEN rtranclp.rtrancl_into_rtrancl, OF 6])
  moreover have "mgr_Get (demo_mgr ?a) = Inr ?a" by (simp add: demo_mgr_defs)
  moreover have "PolicyKVSeparator (KeyVisual ?a) \<noteq> PolicyKVSeparator (KeyVisual ?b)" by simp
  then have "?a \<noteq> ?b" by (rule contrapos_nn) (rule arg_cong)
  ultimately show ?thesis by blast
qed

end
