(* ===== verification/RegionTags.thy ===== *)
theory RegionTags
  imports Prelude
begin

text \<open>
  The tags of the statistics dimensions (\<open>pkg/keyvisual/region/tag.go\<close>): their order in
  storage and in a response, and the display order in which the base tag comes first.
\<close>

datatype StatTag = Integration | WrittenBytes | ReadBytes | WrittenKeys | ReadKeys

definition IntoTag :: "string \<Rightarrow> StatTag" where
  "IntoTag typ =
     (if typ = '''' then Integration
      else if typ = ''integration'' then Integration
      else if typ = ''written_bytes'' then WrittenBytes
      else if typ = ''read_bytes'' then ReadBytes
      else if typ = ''written_keys'' then WrittenKeys
      else if typ = ''read_keys'' then ReadKeys
      else WrittenBytes)"

fun tag_String :: "StatTag \<Rightarrow> string" where
  "tag_String Integration = ''integration''"
| "tag_String WrittenBytes = ''written_bytes''"
| "tag_String ReadBytes = ''read_bytes''"
| "tag_String WrittenKeys = ''written_keys''"
| "tag_String ReadKeys = ''read_keys''"

definition StorageTags :: "StatTag list" where
  "StorageTags = [WrittenBytes, ReadBytes, WrittenKeys, ReadKeys]"

definition ResponseTags :: "StatTag list" where
  "ResponseTags = [Integration] @ StorageTags"

text \<open>The assignment \<open>xs[0], xs[i] = xs[i], xs[0]\<close>, for \<open>i\<close> in range.\<close>

definition swap_first :: "nat \<Rightarrow> 'a list \<Rightarrow> 'a list" where
  "swap_first i xs = xs[0 := xs ! i, i := xs ! 0]"

definition display_step :: "StatTag \<Rightarrow> nat \<times> StatTag \<Rightarrow> string list \<Rightarrow> string list" where
  "display_step baseTag = (\<lambda>(i, tag) displayTags.
     let displayTags = displayTags[i := tag_String tag] in
     if tag = baseTag then swap_first i displayTags else displayTags)"

definition GetDisplayTags :: "StatTag \<Rightarrow> string list" where
  "GetDisplayTags baseTag =
     fold (display_step baseTag) (zip [0..<length ResponseTags] ResponseTags)
       (replicate (length ResponseTags) '''')"

section \<open>Properties\<close>

definition tag_index :: "StatTag \<Rightarrow> nat" where
  "tag_index tag =
     (case tag of Integration \<Rightarrow> 0 | WrittenBytes \<Rightarrow> 1 | ReadBytes \<Rightarrow> 2 | WrittenKeys \<Rightarrow> 3 | ReadKeys \<Rightarrow> 4)"

lemmas tag_simps = ResponseTags_def StorageTags_def tag_index_def

lemma IntoTag_String [simp]: "IntoTag (tag_String tag) = tag"
  by (cases tag) (simp_all add: IntoTag_def)

lemma tag_index_nth [simp]: "ResponseTags ! tag_index tag = tag"
  by (cases tag) (simp_all add: tag_simps)

lemma tag_index_less [simp]: "tag_index tag < length ResponseTags"
  by (cases tag) (simp_all add: tag_simps)

lemma ResponseTags_set: "set ResponseTags = UNIV"
  using StatTag.exhaust by (auto simp: tag_simps)

lemma length_swap_first [simp]: "length (swap_first i xs) = length xs"
  by (simp add: swap_first_def)

lemma swap_first_idem: "0 < length xs \<Longrightarrow> i < length xs \<Longrightarrow> swap_first i (swap_first i xs) = xs"
  by (rule nth_equalityI) (auto simp: swap_first_def nth_list_update)

lemma swap_first_nth:
  "j < length xs \<Longrightarrow> i < length xs \<Longrightarrow>
   swap_first i xs ! j = (if j = i then xs ! 0 else if j = 0 then xs ! i else xs ! j)"
  by (auto simp: swap_first_def nth_list_update)

lemma map_swap_first: "0 < length xs \<Longrightarrow> i < length xs \<Longrightarrow> map f (swap_first i xs) = swap_first i (map f xs)"
  by (simp add: swap_first_def map_update)

text \<open>The in-place swap inside the loop gives the tags with the base tag and the first one exchanged.\<close>

lemma GetDisplayTags_eq:
  "GetDisplayTags baseTag = swap_first (tag_index baseTag) (map tag_String ResponseTags)"
  by (cases baseTag; simp only:; code_simp)

lemma distinct_GetDisplayTags: "distinct (GetDisplayTags baseTag)"
  by (cases baseTag; simp only:; code_simp)

lemma length_GetDisplayTags [simp]: "length (GetDisplayTags baseTag) = 5"
  by (simp add: GetDisplayTags_eq tag_simps)

end
