(* ===== verification/GoKeys.thy ===== *)
theory GoKeys
  imports Prelude
begin

text \<open>
  Interned keys (\<open>pkg/keyvisual/matrix/key.go\<close>).

  The matrix code compares keys by the address of their bytes (\<open>equal\<close>), so a Go string
  is modelled with its data pointer as well as its content. \<open>KeyMap\<close> interns keys: after
  \<open>SaveKeys\<close> two keys have the same pointer exactly when they have the same content.
  \<open>coherent\<close> is what memory itself gives (one address and length, one content),
  \<open>interned\<close> what the clients of \<open>equal\<close> need.
\<close>

datatype gostr = GoStr (sptr: nat) (sval: string)

text \<open>The literal \<open>""\<close>, whose data pointer is nil.\<close>

definition empty_str :: gostr where
  "empty_str = GoStr 0 ''''"

definition equal :: "gostr \<Rightarrow> gostr \<Rightarrow> bool" where
  "equal keyA keyB \<longleftrightarrow> sptr keyA = sptr keyB \<and> length (sval keyA) = length (sval keyB)"

section \<open>KeyMap\<close>

type_synonym key_map = "string \<rightharpoonup> gostr"

definition LoadOrStore :: "key_map \<Rightarrow> gostr \<Rightarrow> key_map \<times> gostr" where
  "LoadOrStore km key =
     (case km (sval key) of Some u \<Rightarrow> (km, u) | None \<Rightarrow> (km(sval key \<mapsto> key), key))"

definition SaveKey :: "key_map \<Rightarrow> gostr \<Rightarrow> key_map \<times> gostr" where
  "SaveKey km key = LoadOrStore km key"

fun SaveKeys :: "key_map \<Rightarrow> gostr list \<Rightarrow> key_map \<times> gostr list" where
  "SaveKeys km [] = (km, [])"
| "SaveKeys km (key # keys) =
     (let (km1, uniqueKey) = LoadOrStore km key; (km2, rest) = SaveKeys km1 keys
      in (km2, uniqueKey # rest))"

section \<open>Interning\<close>

definition coherent :: "gostr set \<Rightarrow> bool" where
  "coherent K \<longleftrightarrow> (\<forall>a\<in>K. \<forall>b\<in>K. equal a b \<longrightarrow> sval a = sval b)"

definition interned :: "gostr set \<Rightarrow> bool" where
  "interned K \<longleftrightarrow> (\<forall>a\<in>K. \<forall>b\<in>K. equal a b \<longleftrightarrow> sval a = sval b)"

definition km_ok :: "key_map \<Rightarrow> bool" where
  "km_ok km \<longleftrightarrow> (\<forall>s u. km s = Some u \<longrightarrow> sval u = s)"

lemma internedD: "interned K \<Longrightarrow> a \<in> K \<Longrightarrow> b \<in> K \<Longrightarrow> equal a b \<longleftrightarrow> sval a = sval b"
  by (auto simp: interned_def)

lemma interned_eqD: "interned K \<Longrightarrow> a \<in> K \<Longrightarrow> b \<in> K \<Longrightarrow> sval a = sval b \<Longrightarrow> a = b"
  using internedD [of K a b] by (cases a; cases b) (auto simp: equal_def)

lemma interned_subset: "interned K \<Longrightarrow> L \<subseteq> K \<Longrightarrow> interned L"
  by (auto simp: interned_def)

lemma interned_inj_on: "interned K \<Longrightarrow> inj_on sval K"
  by (auto simp: inj_on_def intro: interned_eqD)

lemma coherent_interned:
  assumes "coherent K" and "inj_on sval K"
  shows "interned K"
  using assms by (auto simp: interned_def coherent_def inj_on_def equal_def)

lemma km_ok_empty [simp]: "km_ok Map.empty"
  by (simp add: km_ok_def)

lemma LoadOrStore_props:
  assumes "km_ok km" and "LoadOrStore km key = (km', u)"
  shows "km_ok km'" and "sval u = sval key" and "km \<subseteq>\<^sub>m km'" and "km' (sval key) = Some u"
    and "ran km' \<subseteq> insert key (ran km)"
  using assms
  by (auto simp: LoadOrStore_def km_ok_def map_le_def ran_def split: option.splits if_splits)

lemma SaveKeys_props:
  assumes "km_ok km" and "SaveKeys km keys = (km', keys')"
  shows "km_ok km' \<and> map sval keys' = map sval keys \<and> km \<subseteq>\<^sub>m km' \<and>
    (\<forall>k\<in>set keys'. km' (sval k) = Some k) \<and> ran km' \<subseteq> ran km \<union> set keys"
  using assms
proof (induction keys arbitrary: km km' keys')
  case Nil
  then show ?case by simp
next
  case (Cons key keys)
  obtain km1 u where 1: "LoadOrStore km key = (km1, u)" by fastforce
  obtain km2 rest where 2: "SaveKeys km1 keys = (km2, rest)" by fastforce
  note P = LoadOrStore_props [OF Cons.prems(1) 1]
  note Q = Cons.IH [OF P(1) 2]
  have res: "km' = km2" "keys' = u # rest" using Cons.prems(2) by (simp_all add: 1 2)
  have "km2 (sval u) = Some u"
    using P(2,4) Q by (auto simp: map_le_def dom_def)
  moreover have "ran km2 \<subseteq> ran km \<union> set (key # keys)" using P(5) Q by auto
  ultimately show ?case using P Q res by (auto intro: map_le_trans)
qed

text \<open>Keys that came out of one key map are interned, whatever the strings that went in.\<close>

lemma km_interned:
  assumes "km_ok km" and "coherent (ran km)" and "\<And>k. k \<in> K \<Longrightarrow> km (sval k) = Some k"
  shows "interned K"
proof (rule coherent_interned)
  show "coherent K"
    using assms(2,3) by (force simp: coherent_def ran_def)
  show "inj_on sval K"
    using assms(3) by (metis inj_onI option.inject)
qed

end
