(* ===== verification/MatrixUtil.thy ===== *)
theory MatrixUtil
  imports GoKeys
begin

text \<open>
  The helpers of \<open>pkg/keyvisual/matrix/util.go\<close>: the doubling \<open>Memset\<close>, the inclusion
  checks on key lists, the construction of a key axis from a key set and the search of a
  key range in an axis.
\<close>

section \<open>Memset\<close>

text \<open>
  The loop \<open>for bp := 1; bp < sliceLen; bp <<= 1 { copy(slice[bp:], slice[:bp]) }\<close>, at
  the step where \<open>bp = 2 ^ n\<close>.
\<close>

function memset_loop :: "nat \<Rightarrow> 'a list \<Rightarrow> 'a list" where
  "memset_loop n xs =
     (let bp = 2 ^ n in
      if bp < length xs
      then memset_loop (Suc n) (take bp xs @ go_copy (drop bp xs) (take bp xs))
      else xs)"
  by pat_completeness auto
termination
proof (relation "measure (\<lambda>(n, xs). length xs - n)")
  fix n :: nat and xs :: "'a list" and bp :: nat
  assume bp: "bp = 2 ^ n" and lt: "bp < length xs"
  have "n < (2::nat) ^ n" by simp
  then have "n < bp" by (simp only: bp)
  with lt show "((Suc n, take bp xs @ go_copy (drop bp xs) (take bp xs)), n, xs)
      \<in> measure (\<lambda>(n, xs). length xs - n)"
    by simp
qed simp

declare memset_loop.simps [simp del]

definition MemsetUint64 :: "u64 list \<Rightarrow> u64 \<Rightarrow> u64 list" where
  "MemsetUint64 xs v = (if length xs = 0 then xs else memset_loop 0 (xs[0 := v]))"

definition MemsetInt :: "int list \<Rightarrow> int \<Rightarrow> int list" where
  "MemsetInt xs v = (if length xs = 0 then xs else memset_loop 0 (xs[0 := v]))"

lemma memset_loop_eq:
  "set (take (2 ^ n) xs) \<subseteq> {v} \<Longrightarrow> memset_loop n xs = replicate (length xs) v"
proof (induction n xs rule: memset_loop.induct)
  case (1 n xs)
  let ?bp = "2 ^ n :: nat"
  let ?next = "take ?bp xs @ go_copy (drop ?bp xs) (take ?bp xs)"
  show ?case
  proof (cases "?bp < length xs")
    case True
    have len: "length ?next = length xs" using True by simp
    have "take (2 ^ Suc n) ?next
        = take ?bp xs @ take ?bp (take (length xs - ?bp) (take ?bp xs))"
      using True by (auto simp: go_copy_def)
    moreover have "set (take ?bp (take (length xs - ?bp) (take ?bp xs))) \<subseteq> set (take ?bp xs)"
      by (metis set_take_subset subset_trans)
    ultimately have "set (take (2 ^ Suc n) ?next) \<subseteq> {v}"
      using "1.prems" by (simp only: set_append) blast
    then have "memset_loop (Suc n) ?next = replicate (length ?next) v"
      using True by (intro "1.IH") simp_all
    with True len show ?thesis by (subst memset_loop.simps) (simp add: Let_def)
  next
    case False
    then have "set xs \<subseteq> {v}" using "1.prems" by simp
    then have "xs = replicate (length xs) v"
      by (intro replicate_eqI) auto
    with False show ?thesis by (subst memset_loop.simps) (simp add: Let_def)
  qed
qed

lemma memset_start: "xs \<noteq> [] \<Longrightarrow> memset_loop 0 (xs[0 := v]) = replicate (length xs) v"
  by (cases xs) (auto simp: memset_loop_eq)

lemma MemsetUint64_eq: "MemsetUint64 xs v = replicate (length xs) v"
  by (simp add: MemsetUint64_def memset_start)

text \<open>
  \<open>MemsetUint64\<close>'s doubling copies set every element of a slice of any length, the
  lengths that are no power of two included.
\<close>

theorem MemsetUint64_correct: "MemsetUint64 xs v = replicate (length xs) v"
  by (rule MemsetUint64_eq)

lemma MemsetInt_correct: "MemsetInt xs v = replicate (length xs) v"
  by (simp add: MemsetInt_def memset_start)

section \<open>Go maps as key sets\<close>

text \<open>
  A \<open>map[string]struct{}\<close>: the keys in some order, at most one of each content. An
  assignment to a key that is already there stores the new string header.
\<close>

type_synonym key_set = "gostr list"

definition set_add :: "gostr \<Rightarrow> key_set \<Rightarrow> key_set" where
  "set_add key ks =
     (if sval key \<in> sval ` set ks then map (\<lambda>k. if sval k = sval key then key else k) ks
      else ks @ [key])"

definition MakeKeys :: "key_set \<Rightarrow> gostr list" where
  "MakeKeys keySet = sort_key sval keySet"

definition MakeKeysWithUnlimitedEnd :: "key_set \<Rightarrow> gostr list" where
  "MakeKeysWithUnlimitedEnd keySet = MakeKeys keySet @ [empty_str]"

definition key_set_ok :: "key_set \<Rightarrow> bool" where
  "key_set_ok ks \<longleftrightarrow> distinct (map sval ks)"

lemma key_set_ok_Nil [simp]: "key_set_ok []"
  by (simp add: key_set_ok_def)

lemma sval_set_add: "sval ` set (set_add key ks) = insert (sval key) (sval ` set ks)"
  by (auto simp: set_add_def image_iff)

lemma set_add_subset: "set (set_add key ks) \<subseteq> insert key (set ks)"
  by (auto simp: set_add_def)

lemma set_add_ok: "key_set_ok ks \<Longrightarrow> key_set_ok (set_add key ks)"
proof (cases "sval key \<in> sval ` set ks")
  case True
  have "map sval (map (\<lambda>k. if sval k = sval key then key else k) ks) = map sval ks"
    by (induction ks) auto
  with True show "key_set_ok ks \<Longrightarrow> key_set_ok (set_add key ks)"
    unfolding set_add_def key_set_ok_def by (simp only: if_True)
qed (auto simp: set_add_def key_set_ok_def)

lemma set_MakeKeys [simp]: "set (MakeKeys ks) = set ks"
  by (simp add: MakeKeys_def)

lemma MakeKeys_sorted: "key_set_ok ks \<Longrightarrow> sorted_wrt (<) (map sval (MakeKeys ks))"
  by (simp add: MakeKeys_def key_set_ok_def strict_sorted_iff distinct_map)

section \<open>Inclusion checks\<close>

definition GetLastKey :: "gostr list \<Rightarrow> gostr option" where
  "GetLastKey keys = (if keys = [] then None else Some (keys ! (length keys - 1)))"

definition CheckPartOf :: "gostr list \<Rightarrow> gostr list \<Rightarrow> unit option" where
  "CheckPartOf src part = do {
     s0 \<leftarrow> idx src 0;
     p0 \<leftarrow> idx part 0;
     srcLastKey \<leftarrow> GetLastKey src;
     partLastKey \<leftarrow> GetLastKey part;
     (let err = (sval p0 < sval s0 \<or> length src < length part);
          err = (if sval srcLastKey \<noteq> '''' \<and>
                    (sval partLastKey = '''' \<or> sval srcLastKey < sval partLastKey)
                 then True else err)
      in if err then None else Some ())
   }"

definition CheckReduceOf :: "gostr list \<Rightarrow> gostr list \<Rightarrow> unit option" where
  "CheckReduceOf src part = do {
     s0 \<leftarrow> idx src 0;
     p0 \<leftarrow> idx part 0;
     srcLastKey \<leftarrow> GetLastKey src;
     partLastKey \<leftarrow> GetLastKey part;
     (if sval s0 \<noteq> sval p0 \<or> sval srcLastKey \<noteq> sval partLastKey \<or> length src < length part
      then None else Some ())
   }"

section \<open>Key ranges\<close>

text \<open>
  The start (inclusive) and end (exclusive) index of the part of \<open>keys\<close> that meets
  \<open>[startKey, endKey)\<close>. \<open>Some None\<close> is the result \<open>(-1, -1, false)\<close>.
\<close>

definition KeysRange :: "gostr list \<Rightarrow> string \<Rightarrow> string \<Rightarrow> (nat \<times> nat) option option" where
  "KeysRange keys startKey endKey =
     (if endKey \<noteq> '''' \<and> endKey \<le> startKey then None else do {
        k0 \<leftarrow> idx keys 0;
        if endKey \<noteq> '''' \<and> endKey \<le> sval k0 then Some None else do {
          axisEndKey \<leftarrow> GetLastKey keys;
          if sval axisEndKey \<noteq> '''' \<and> sval axisEndKey \<le> startKey then Some None else
          (let keysLen = length keys;
               sortedKeysLen = (if sval axisEndKey = '''' then keysLen - 1 else keysLen);
               start = sort_Search sortedKeysLen (\<lambda>i. startKey < sval (keys ! i));
               start = (if 0 < start then start - 1 else start);
               end = (if endKey \<noteq> ''''
                      then (let e = sort_Search sortedKeysLen (\<lambda>i. endKey \<le> sval (keys ! i))
                            in if e < keysLen then e + 1 else e)
                      else keysLen)
           in Some (Some (start, end)))
        }
      })"

text \<open>
  The keys of an axis: at least two, strictly ascending, where a last key \<open>""\<close> stands for
  an unlimited end.
\<close>

definition axis_keys_ok :: "gostr list \<Rightarrow> bool" where
  "axis_keys_ok keys \<longleftrightarrow> 2 \<le> length keys \<and> sorted_wrt (<) (map sval (butlast keys)) \<and>
     (sval (last keys) = '''' \<or> sval (last (butlast keys)) < sval (last keys))"

text \<open>Whether bucket \<open>i\<close> of an axis meets the range \<open>[startKey, endKey)\<close>.\<close>

definition bucket_meets :: "gostr list \<Rightarrow> nat \<Rightarrow> string \<Rightarrow> string \<Rightarrow> bool" where
  "bucket_meets keys i startKey endKey \<longleftrightarrow>
     (endKey = '''' \<or> sval (keys ! i) < endKey) \<and>
     (Suc i = length keys - 1 \<and> sval (keys ! Suc i) = '''' \<or> startKey < sval (keys ! Suc i))"

text \<open>Whether an axis meets a key range at all.\<close>

definition keys_meet :: "gostr list \<Rightarrow> string \<Rightarrow> string \<Rightarrow> bool" where
  "keys_meet keys startKey endKey \<longleftrightarrow> (endKey = [] \<or> sval (hd keys) < endKey) \<and>
     (sval (last keys) = [] \<or> startKey < sval (last keys))"

lemma keys_meet_bucket:
  assumes "2 \<le> length keys" and "keys_meet keys startKey endKey" and "endKey = [] \<or> startKey < endKey"
  shows "\<exists>i < length keys - 1. bucket_meets keys i startKey endKey"
proof -
  let ?n = "length keys - 1"
  define P where "P i \<longleftrightarrow> Suc i = ?n \<and> sval (keys ! Suc i) = [] \<or> startKey < sval (keys ! Suc i)" for i
  have ends: "hd keys = keys ! 0" "last keys = keys ! ?n" using assms(1) hd_conv_nth [of keys] last_conv_nth [of keys] by force+
  have "Suc (?n - 1) = ?n" using assms(1) by simp
  then have "P (?n - 1)" using assms(2) ends by (auto simp: P_def keys_meet_def)
  then have least: "P (LEAST i. P i)" "(LEAST i. P i) \<le> ?n - 1" by (rule LeastI, rule Least_le)
  have "endKey = [] \<or> sval (keys ! (LEAST i. P i)) < endKey"
  proof (cases "LEAST i. P i")
    case 0
    then show ?thesis using assms(2) ends by (simp add: keys_meet_def)
  next
    case (Suc i)
    then have "\<not> P i" using not_less_Least [of i P] by simp
    then have "sval (keys ! (LEAST i. P i)) \<le> startKey" using Suc by (auto simp: P_def)
    then show ?thesis using assms(3) by auto
  qed
  with least show ?thesis unfolding bucket_meets_def P_def using assms(1)
    by (intro exI [of _ "LEAST i. P i"]) (auto simp: P_def)
qed

definition Max_int :: "int \<Rightarrow> int \<Rightarrow> int" where
  "Max_int a b = (if b < a then a else b)"

definition Min_int :: "int \<Rightarrow> int \<Rightarrow> int" where
  "Min_int a b = (if a < b then a else b)"

section \<open>What the range search returns\<close>

definition sorted_len :: "gostr list \<Rightarrow> nat" where
  "sorted_len keys = (if sval (last keys) = '''' then length keys - 1 else length keys)"

lemma sorted_len_le: "sorted_len keys \<le> length keys"
  by (simp add: sorted_len_def)

lemma axis_keys_less:
  assumes "axis_keys_ok keys" and "i < j" and "j < sorted_len keys"
  shows "sval (keys ! i) < sval (keys ! j)"
proof -
  have sorted: "sval (keys ! a) < sval (keys ! b)" if "a < b" "b < length keys - 1" for a b
    using that assms(1) by (auto simp: axis_keys_ok_def sorted_wrt_iff_nth_less nth_butlast)
  show ?thesis
  proof (cases "j < length keys - 1")
    case True
    with sorted assms(2) show ?thesis by blast
  next
    case False
    with assms have j: "j = length keys - 1" "keys \<noteq> []" "2 \<le> length keys"
      by (auto simp: sorted_len_def axis_keys_ok_def split: if_splits)
    have "sval (last keys) \<noteq> ''''" using False assms(3) by (auto simp: sorted_len_def)
    then have "sval (last (butlast keys)) < sval (last keys)"
      using assms(1) by (auto simp: axis_keys_ok_def)
    moreover have "last (butlast keys) = keys ! (length keys - 2)"
      using j by (subst last_conv_nth) (auto simp: nth_butlast numeral_2_eq_2 simp flip: length_0_conv)
    moreover have "last keys = keys ! j" using j by (simp add: last_conv_nth)
    ultimately have top: "sval (keys ! (length keys - 2)) < sval (keys ! j)" by simp
    show ?thesis
    proof (cases "i = length keys - 2")
      case False
      with assms(2) j have "sval (keys ! i) < sval (keys ! (length keys - 2))"
        by (intro sorted) auto
      with top show ?thesis by order
    qed (use top in simp)
  qed
qed

lemma axis_keys_le:
  "axis_keys_ok keys \<Longrightarrow> i \<le> j \<Longrightarrow> j < sorted_len keys \<Longrightarrow> sval (keys ! i) \<le> sval (keys ! j)"
  using axis_keys_less [of keys i j] by (cases "i = j") auto

lemma axis_search:
  assumes "axis_keys_ok keys" and "mono Q"
  defines "r \<equiv> sort_Search (sorted_len keys) (\<lambda>i. Q (sval (keys ! i)))"
  shows "r \<le> sorted_len keys"
    and "i < r \<Longrightarrow> \<not> Q (sval (keys ! i))"
    and "r \<le> i \<Longrightarrow> i < sorted_len keys \<Longrightarrow> Q (sval (keys ! i))"
proof -
  have mon: "Q (sval (keys ! k)) \<Longrightarrow> Q (sval (keys ! l))"
    if "k \<le> l" "l < sorted_len keys" for k l
    using axis_keys_le [OF assms(1) that] assms(2) by (auto simp: mono_def)
  show "r \<le> sorted_len keys" unfolding r_def by (rule sort_Search_le)
  show "i < r \<Longrightarrow> \<not> Q (sval (keys ! i))"
    unfolding r_def by (rule sort_Search_spec(1) [where n = "sorted_len keys"]) (auto intro: mon)
  show "r \<le> i \<Longrightarrow> i < sorted_len keys \<Longrightarrow> Q (sval (keys ! i))"
    unfolding r_def by (rule sort_Search_spec(2) [where n = "sorted_len keys"]) (auto intro: mon)
qed

lemma GetLastKey_last [simp]: "keys \<noteq> [] \<Longrightarrow> GetLastKey keys = Some (last keys)"
  by (simp add: GetLastKey_def last_conv_nth)

lemma KeysRange_unfold:
  assumes "axis_keys_ok keys" and "endKey = '''' \<or> startKey < endKey"
  shows "KeysRange keys startKey endKey =
    (if endKey \<noteq> '''' \<and> endKey \<le> sval (keys ! 0) \<or>
        sval (last keys) \<noteq> '''' \<and> sval (last keys) \<le> startKey then Some None
     else (let s = sort_Search (sorted_len keys) (\<lambda>i. startKey < sval (keys ! i));
               e = sort_Search (sorted_len keys) (\<lambda>i. endKey \<le> sval (keys ! i))
           in Some (Some (s - 1, if endKey = '''' then length keys
                else if e < length keys then e + 1 else e))))"
proof -
  have ne: "keys \<noteq> []" "0 < length keys" using assms(1) by (auto simp: axis_keys_ok_def)
  have "\<not> (endKey \<noteq> '''' \<and> endKey \<le> startKey)" using assms(2) by auto
  with ne show ?thesis
    by (auto simp: KeysRange_def sorted_len_def Let_def)
qed

lemma KeysRange_spec:
  assumes "axis_keys_ok keys" and "endKey = '''' \<or> startKey < endKey"
  shows "case KeysRange keys startKey endKey of
      None \<Rightarrow> False
    | Some None \<Rightarrow> (\<forall>i. i < length keys - 1 \<longrightarrow> \<not> bucket_meets keys i startKey endKey)
    | Some (Some (a, b)) \<Rightarrow> a + 2 \<le> b \<and> b \<le> length keys \<and>
        (\<forall>i. i < length keys - 1 \<longrightarrow>
          (bucket_meets keys i startKey endKey \<longleftrightarrow> a \<le> i \<and> i + 1 < b))"
proof -
  let ?n = "length keys" and ?m = "sorted_len keys"
  let ?s = "sort_Search ?m (\<lambda>i. startKey < sval (keys ! i))"
  let ?e = "sort_Search ?m (\<lambda>i. endKey \<le> sval (keys ! i))"
  have n: "2 \<le> ?n" "keys \<noteq> []" using assms(1) by (auto simp: axis_keys_ok_def)
  have last: "last keys = keys ! (?n - 1)" using n by (simp add: last_conv_nth)
  have m: "?m = ?n \<and> sval (last keys) \<noteq> '''' \<or> ?m = ?n - 1 \<and> sval (last keys) = ''''"
    by (auto simp: sorted_len_def)
  note s = axis_search [OF assms(1), of "\<lambda>x. startKey < x"]
  note e = axis_search [OF assms(1), of "\<lambda>x. endKey \<le> x"]
  have mono: "mono (\<lambda>x. startKey < x)" "mono (\<lambda>x. endKey \<le> x)" by (auto simp: mono_def)
  note s = s [OF mono(1)] and e = e [OF mono(2)]
  consider (low) "endKey \<noteq> ''''" "endKey \<le> sval (keys ! 0)"
    | (high) "sval (last keys) \<noteq> ''''" "sval (last keys) \<le> startKey"
    | (mid) "\<not> (endKey \<noteq> '''' \<and> endKey \<le> sval (keys ! 0))"
        "\<not> (sval (last keys) \<noteq> '''' \<and> sval (last keys) \<le> startKey)"
    by blast
  then show ?thesis
  proof cases
    case low
    have "\<not> bucket_meets keys i startKey endKey" if "i < ?n - 1" for i
    proof -
      have "i < ?m" using that m by auto
      then have "sval (keys ! 0) \<le> sval (keys ! i)" by (intro axis_keys_le [OF assms(1)]) auto
      with low have "\<not> sval (keys ! i) < endKey" by order
      with low show ?thesis by (simp add: bucket_meets_def)
    qed
    with low show ?thesis by (simp add: KeysRange_unfold [OF assms])
  next
    case high
    have "\<not> bucket_meets keys i startKey endKey" if "i < ?n - 1" for i
    proof -
      have "sval (keys ! Suc i) \<le> sval (keys ! (?n - 1))"
        using that high(1) m by (intro axis_keys_le [OF assms(1)]) auto
      with high last have "\<not> startKey < sval (keys ! Suc i)" by auto
      with high(1) last that show ?thesis by (auto simp: bucket_meets_def)
    qed
    with high show ?thesis by (simp add: KeysRange_unfold [OF assms])
  next
    case mid
    define b where "b = (if endKey = '''' then ?n else if ?e < ?n then ?e + 1 else ?e)"
    have R: "KeysRange keys startKey endKey = Some (Some (?s - 1, b))"
      using mid by (simp add: KeysRange_unfold [OF assms] Let_def b_def)
    have s_le: "?s \<le> ?n - 1"
    proof (cases "sval (last keys) = ''''")
      case False
      then have "\<not> (?n - 1 < ?s)" using s(2) [of "?n - 1"] mid(2) last by auto
      then show ?thesis by simp
    qed (use s(1) m in auto)
    have left: "(Suc i = ?n - 1 \<and> sval (keys ! Suc i) = '''' \<or> startKey < sval (keys ! Suc i))
        \<longleftrightarrow> ?s - 1 \<le> i" if "i < ?n - 1" for i
    proof (cases "?s \<le> Suc i")
      case True
      moreover have "startKey < sval (keys ! Suc i) \<or> Suc i = ?n - 1 \<and> sval (keys ! Suc i) = ''''"
      proof (cases "Suc i < ?m")
        case False
        with that m have "Suc i = ?n - 1" "sval (last keys) = ''''" by auto
        with last show ?thesis by simp
      qed (use s(3) True in blast)
      ultimately show ?thesis by auto
    next
      case False
      then have "\<not> startKey < sval (keys ! Suc i)" "Suc i \<noteq> ?n - 1"
        using s(2) [of "Suc i"] s_le by auto
      with False show ?thesis by auto
    qed
    have right: "(endKey = '''' \<or> sval (keys ! i) < endKey) \<longleftrightarrow> i + 1 < b" if "i < ?n - 1" for i
    proof (cases "endKey = ''''")
      case False
      have "i < ?m" using that m by auto
      then have "sval (keys ! i) < endKey \<longleftrightarrow> i < ?e"
        using e(2,3) by (meson not_le)
      moreover have "i < ?e \<longleftrightarrow> i + 1 < b" using that e(1) m False by (auto simp: b_def)
      ultimately show ?thesis using False by blast
    qed (use that in \<open>auto simp: b_def\<close>)
    have "?s - 1 + 1 < b"
    proof -
      have "endKey = '''' \<or> sval (keys ! (?s - 1)) < endKey"
      proof (cases "?s = 0")
        case False
        then have "sval (keys ! (?s - 1)) \<le> startKey" using s(2) [of "?s - 1"] by simp
        with assms(2) show ?thesis by auto
      qed (use mid(1) in auto)
      moreover have "?s - 1 < ?n - 1" using s_le n by auto
      ultimately show ?thesis using right [of "?s - 1"] by blast
    qed
    moreover have "b \<le> ?n" using e(1) m n by (auto simp: b_def)
    moreover have "bucket_meets keys i startKey endKey \<longleftrightarrow> ?s - 1 \<le> i \<and> i + 1 < b"
      if "i < ?n - 1" for i
      using left [OF that] right [OF that] by (auto simp: bucket_meets_def)
    ultimately show ?thesis by (simp add: R)
  qed
qed

text \<open>
  On a well-formed axis and a non-empty range, \<open>KeysRange\<close> never panics; it answers "no
  intersection" only when no bucket meets the range, and otherwise returns bounds of a
  sub-axis of at least one bucket whose buckets are exactly the ones that meet the range.
\<close>

theorem KeysRange_buckets:
  assumes "axis_keys_ok keys" and "endKey = '''' \<or> startKey < endKey"
  shows "case KeysRange keys startKey endKey of
      None \<Rightarrow> False
    | Some None \<Rightarrow> (\<forall>i. i < length keys - 1 \<longrightarrow> \<not> bucket_meets keys i startKey endKey)
    | Some (Some (a, b)) \<Rightarrow> a + 2 \<le> b \<and> b \<le> length keys \<and>
        (\<forall>i. i < length keys - 1 \<longrightarrow>
          (bucket_meets keys i startKey endKey \<longleftrightarrow> a \<le> i \<and> i + 1 < b))"
  by (rule KeysRange_spec [OF assms])

theorem KeysRange_buckets_witness:
  "KeysRange (map (GoStr 1) [''a'', ''c'', ''e'']) ''b'' ''d'' = Some (Some (0, 3)) \<and>
   bucket_meets (map (GoStr 1) [''a'', ''c'', ''e'']) 1 ''b'' ''d''"
proof -
  let ?ks = "map (GoStr 1) [''a'', ''c'', ''e'']"
  have ok: "axis_keys_ok ?ks" "''d'' = '''' \<or> ''b'' < ''d''"
    by (simp_all add: axis_keys_ok_def less_char_def)
  have val: "KeysRange ?ks ''b'' ''d'' = Some (Some (0, 3))"
    by code_simp
  then show ?thesis using KeysRange_buckets [OF ok] by simp
qed

end
