(* ===== verification/RegionInput.thy ===== *)
theory RegionInput
  imports "HOL-Library.Multiset" RegionTags MatrixUtil GoStrings
begin

text \<open>
  The regions that feed the key visualizer (\<open>pkg/keyvisual/region\<close>, \<open>pkg/keyvisual/input\<close>).

  The Go interface \<open>region.RegionsInfo\<close> is the record of its three methods; what the storage
  relies on is the locale \<open>regions_info\<close>, which the regions that \<open>read\<close> returns satisfy.
  \<open>read\<close> starts from the value that \<open>json.Unmarshal\<close> filled in (or its error), decodes
  the hexadecimal keys into freshly allocated strings and sorts the regions by start key;
  \<open>sort.Slice\<close> leaves the order of equal start keys open, the stable order is taken.
  Pointers to regions are the regions themselves: a JSON \<open>null\<close> region is not modelled.
\<close>

record RegionInfo =
  ID :: u64
  StartKey :: gostr
  EndKey :: gostr
  ri_WrittenBytes :: u64
  ri_ReadBytes :: u64
  ri_WrittenKeys :: u64
  ri_ReadKeys :: u64
  ApproximateSize :: int
  ApproximateKeys :: int

record RegionsInfo =
  Count :: int
  Regions :: "RegionInfo list"

text \<open>The interface value: its methods applied to the receiver.\<close>

record regions_methods =
  m_Len :: int
  m_GetKeys :: "gostr list option"
  m_GetValues :: "StatTag \<Rightarrow> u64 list option"

definition rs_Len :: "RegionsInfo \<Rightarrow> int" where
  "rs_Len rs = Count rs"

text \<open>\<open>for i, x := range xs { dst[i] = f x }\<close>, from index \<open>i\<close> on.\<close>

fun range_fill :: "('a \<Rightarrow> 'b) \<Rightarrow> nat \<Rightarrow> 'a list \<Rightarrow> 'b list \<Rightarrow> 'b list option" where
  "range_fill f i [] dst = Some dst"
| "range_fill f i (x # xs) dst = do { dst \<leftarrow> set_idx dst i (f x); range_fill f (i + 1) xs dst }"

definition GetKeys :: "RegionsInfo \<Rightarrow> gostr list option" where
  "GetKeys rs =
     (if Count rs + 1 < 0 then None else do {
        let keys = replicate (nat (Count rs + 1)) empty_str;
        first \<leftarrow> idx (Regions rs) 0;
        keys \<leftarrow> set_idx keys 0 (StartKey first);
        endKeys \<leftarrow> range_fill EndKey 0 (Regions rs) (tl keys);
        Some (hd keys # endKeys)
      })"

definition tag_value :: "StatTag \<Rightarrow> RegionInfo \<Rightarrow> u64" where
  "tag_value tag region =
     (case tag of
        WrittenBytes \<Rightarrow> ri_WrittenBytes region
      | ReadBytes \<Rightarrow> ri_ReadBytes region
      | WrittenKeys \<Rightarrow> ri_WrittenKeys region
      | ReadKeys \<Rightarrow> ri_ReadKeys region
      | Integration \<Rightarrow> ri_WrittenBytes region + ri_ReadBytes region)"

definition GetValues :: "RegionsInfo \<Rightarrow> StatTag \<Rightarrow> u64 list option" where
  "GetValues rs tag =
     (if Count rs < 0 then None
      else range_fill (tag_value tag) 0 (Regions rs) (replicate (nat (Count rs)) 0))"

definition api_regions :: "RegionsInfo \<Rightarrow> regions_methods" where
  "api_regions rs = \<lparr>m_Len = rs_Len rs, m_GetKeys = GetKeys rs, m_GetValues = GetValues rs\<rparr>"

section \<open>Reading the PD answer\<close>

text \<open>\<open>region.String\<close>: the string shares the address of the bytes, the empty one is \<open>""\<close>.\<close>

definition bytes_String :: "nat \<Rightarrow> string \<Rightarrow> gostr" where
  "bytes_String addr b = (if length b = 0 then empty_str else GoStr addr b)"

text \<open>\<open>addr\<close> is the address of the next allocation of \<open>hex.DecodeString\<close>.\<close>

definition decode_region :: "nat \<Rightarrow> RegionInfo \<Rightarrow> RegionInfo option" where
  "decode_region addr region = do {
     startBytes \<leftarrow> hex_decode (sval (StartKey region));
     let region = region\<lparr>StartKey := bytes_String addr startBytes\<rparr>;
     endBytes \<leftarrow> hex_decode (sval (EndKey region));
     Some (region\<lparr>EndKey := bytes_String (addr + 1) endBytes\<rparr>)
   }"

fun decode_regions :: "nat \<Rightarrow> RegionInfo list \<Rightarrow> RegionInfo list option" where
  "decode_regions addr [] = Some []"
| "decode_regions addr (r # rs) = do {
     r \<leftarrow> decode_region addr r;
     rs \<leftarrow> decode_regions (addr + 2) rs;
     Some (r # rs)
   }"

text \<open>\<open>None\<close> is \<open>ErrInvalidData\<close>; \<open>unmarshalled\<close> is the result of \<open>json.Unmarshal\<close>.\<close>

definition read_regions :: "nat \<Rightarrow> RegionsInfo option \<Rightarrow> RegionsInfo option" where
  "read_regions addr unmarshalled = do {
     regions \<leftarrow> unmarshalled;
     rs \<leftarrow> decode_regions addr (Regions regions);
     Some (regions\<lparr>Regions := sort_key (\<lambda>r. sval (StartKey r)) rs\<rparr>)
   }"

section \<open>The interface the storage relies on\<close>

locale regions_info =
  fixes methods :: "'r \<Rightarrow> regions_methods" and ok :: "'r \<Rightarrow> bool"
  assumes len_pos: "ok r \<Longrightarrow> 0 < m_Len (methods r)"
    and keys: "ok r \<Longrightarrow> \<exists>ks. m_GetKeys (methods r) = Some ks \<and> int (length ks) = m_Len (methods r) + 1 \<and>
      axis_keys_ok ks \<and> interned (set ks)"
    and vals: "ok r \<Longrightarrow> \<exists>vs. m_GetValues (methods r) tag = Some vs \<and> int (length vs) = m_Len (methods r)"
begin

lemma columns:
  assumes "ok r"
  shows "\<exists>vss. those_columns (m_GetValues (methods r)) tags = Some vss \<and> length vss = length tags \<and>
    (\<forall>vs\<in>set vss. int (length vs) = m_Len (methods r))"
proof (induction tags)
  case (Cons tag tags)
  obtain vs where vs: "m_GetValues (methods r) tag = Some vs" "int (length vs) = m_Len (methods r)"
    using vals [OF assms] by blast
  from Cons obtain vss where "those_columns (m_GetValues (methods r)) tags = Some vss"
    "length vss = length tags" "\<forall>vs\<in>set vss. int (length vs) = m_Len (methods r)" by blast
  with vs show ?case by simp
qed simp

end

section \<open>The regions of an answer\<close>

lemma range_fill_eq:
  "i + length xs \<le> length dst \<Longrightarrow>
   range_fill f i xs dst = Some (take i dst @ map f xs @ drop (i + length xs) dst)"
proof (induction xs arbitrary: i dst)
  case (Cons x xs)
  then have "range_fill f i (x # xs) dst
      = Some (take (Suc i) (dst[i := f x]) @ map f xs @ drop (Suc i + length xs) (dst[i := f x]))"
    by simp
  moreover have "take (Suc i) (dst[i := f x]) = take i dst @ [f x]"
    using Cons.prems by (subst take_Suc_conv_app_nth) auto
  ultimately show ?case by simp
qed simp

lemma range_fill_all: "length xs = length dst \<Longrightarrow> range_fill f 0 xs dst = Some (map f xs)"
  by (subst range_fill_eq) simp_all

text \<open>
  What PD returns: at least one region, \<open>count\<close> of them, and regions that tile a key range
  in the order of their start keys.
\<close>

definition key_pool :: "RegionInfo list \<Rightarrow> gostr set" where
  "key_pool regions = StartKey ` set regions \<union> EndKey ` set regions"

definition pool_ok :: "gostr set \<Rightarrow> bool" where
  "pool_ok K \<longleftrightarrow> coherent K \<and> (\<forall>k\<in>K. sval k = [] \<longrightarrow> k = empty_str)"

definition regions_ok :: "RegionsInfo \<Rightarrow> bool" where
  "regions_ok rs \<longleftrightarrow> Regions rs \<noteq> [] \<and> Count rs = int (length (Regions rs)) \<and>
     (\<forall>i < length (Regions rs) - 1.
        sval (EndKey (Regions rs ! i)) = sval (StartKey (Regions rs ! Suc i)) \<and>
        sval (StartKey (Regions rs ! i)) < sval (EndKey (Regions rs ! i))) \<and>
     (let r = last (Regions rs) in
        sval (EndKey r) = [] \<or> sval (StartKey r) < sval (EndKey r)) \<and>
     pool_ok (key_pool (Regions rs))"

lemma GetKeys_eq:
  assumes "Count rs = int (length (Regions rs))" and "Regions rs \<noteq> []"
  shows "GetKeys rs = Some (StartKey (hd (Regions rs)) # map EndKey (Regions rs))"
proof -
  have "nat (int (length (Regions rs)) + 1) = Suc (length (Regions rs))" by simp
  then show ?thesis
    using assms by (simp add: GetKeys_def range_fill_all hd_conv_nth)
qed

lemma GetValues_eq:
  "Count rs = int (length (Regions rs)) \<Longrightarrow> GetValues rs tag = Some (map (tag_value tag) (Regions rs))"
  by (simp add: GetValues_def range_fill_all)

text \<open>The keys of tiling regions are their start keys followed by the last end key.\<close>

lemma tiling_keys:
  assumes "regions_ok rs"
  shows "map sval (StartKey (hd (Regions rs)) # map EndKey (Regions rs))
    = map sval (map StartKey (Regions rs) @ [EndKey (last (Regions rs))])"
proof (rule nth_equalityI)
  fix i assume i: "i < length (map sval (StartKey (hd (Regions rs)) # map EndKey (Regions rs)))"
  have ne: "Regions rs \<noteq> []" using assms by (simp add: regions_ok_def)
  show "map sval (StartKey (hd (Regions rs)) # map EndKey (Regions rs)) ! i
      = map sval (map StartKey (Regions rs) @ [EndKey (last (Regions rs))]) ! i"
  proof (cases i)
    case 0
    with ne show ?thesis by (simp add: hd_conv_nth nth_append)
  next
    case (Suc k)
    then have "k < length (Regions rs) - 1 \<or> k = length (Regions rs) - 1" using i by auto
    then show ?thesis
      using assms ne Suc by (auto simp: regions_ok_def nth_append last_conv_nth Let_def)
  qed
qed simp

lemma tiling_sorted:
  assumes "regions_ok rs"
  shows "sorted_wrt (<) (map sval (map StartKey (Regions rs)))"
proof -
  have "sval (StartKey (Regions rs ! i)) < sval (StartKey (Regions rs ! Suc i))"
    if "Suc i < length (Regions rs)" for i
  proof -
    have "i < length (Regions rs) - 1" using that by simp
    with assms show ?thesis by (auto simp: regions_ok_def)
  qed
  then show ?thesis by (subst sorted_wrt_iff_nth_Suc_transp) (auto intro: transpI)
qed

text \<open>\<open>axis_keys_ok\<close> depends on the contents of the keys only.\<close>

lemma axis_keys_ok_vals:
  "axis_keys_ok keys \<longleftrightarrow> 2 \<le> length (map sval keys) \<and> sorted_wrt (<) (butlast (map sval keys)) \<and>
     (last (map sval keys) = [] \<or> last (butlast (map sval keys)) < last (map sval keys))"
proof (cases "2 \<le> length keys")
  case True
  then have "keys \<noteq> []" "butlast keys \<noteq> []" by (auto simp: butlast_conv_take)
  then have "last (butlast (map sval keys)) = sval (last (butlast keys))"
    by (simp add: last_map flip: map_butlast)
  with True \<open>keys \<noteq> []\<close> show ?thesis by (simp add: axis_keys_ok_def last_map map_butlast)
qed (simp add: axis_keys_ok_def)

lemma pool_interned:
  assumes "pool_ok (set ks)" and "axis_keys_ok ks"
  shows "interned (set ks)"
proof (rule coherent_interned)
  show "coherent (set ks)" using assms(1) by (simp add: pool_ok_def)
  have less: "i < j \<Longrightarrow> j < sorted_len ks \<Longrightarrow> sval (ks ! i) \<noteq> sval (ks ! j)" for i j
    using axis_keys_less [OF assms(2), of i j] by auto
  show "inj_on sval (set ks)"
  proof (rule inj_onI)
    fix a b assume ab: "a \<in> set ks" "b \<in> set ks" "sval a = sval b"
    show "a = b"
    proof (cases "sval a = []")
      case True
      with ab assms(1) show ?thesis unfolding pool_ok_def by metis
    next
      case False
      obtain i j where i: "i < length ks" "a = ks ! i" and j: "j < length ks" "b = ks ! j"
        using ab(1,2) by (auto simp: in_set_conv_nth)
      have "last ks = ks ! (length ks - 1)" using i(1) by (intro last_conv_nth) auto
      have bound: "k < sorted_len ks" if "k < length ks" "sval (ks ! k) \<noteq> []" for k
        using that \<open>last ks = _\<close> by (cases "k = length ks - 1") (auto simp: sorted_len_def)
      have "i < sorted_len ks" "j < sorted_len ks"
        using False ab(3) i j bound by auto
      then show ?thesis using less [of i j] less [of j i] ab(3) i j by (metis nat_neq_iff)
    qed
  qed
qed

lemma GetKeys_ok:
  assumes "regions_ok rs"
  shows "\<exists>ks. GetKeys rs = Some ks \<and> int (length ks) = Count rs + 1 \<and> axis_keys_ok ks \<and> interned (set ks)"
proof -
  let ?ks = "StartKey (hd (Regions rs)) # map EndKey (Regions rs)"
  have ne: "Regions rs \<noteq> []" and c: "Count rs = int (length (Regions rs))"
    using assms by (simp_all add: regions_ok_def)
  have "last (map StartKey (Regions rs)) = StartKey (last (Regions rs))"
    using ne by (simp add: last_map)
  then have "axis_keys_ok (map StartKey (Regions rs) @ [EndKey (last (Regions rs))])"
    using assms tiling_sorted [OF assms] ne
    by (auto simp: axis_keys_ok_def regions_ok_def Let_def Suc_le_eq)
  then have ok: "axis_keys_ok ?ks"
    unfolding axis_keys_ok_vals tiling_keys [OF assms] .
  have "set ?ks \<subseteq> key_pool (Regions rs)" using ne by (auto simp: key_pool_def)
  moreover have "pool_ok (key_pool (Regions rs))" using assms by (simp add: regions_ok_def)
  ultimately have "pool_ok (set ?ks)" unfolding pool_ok_def coherent_def by blast
  with ok have "interned (set ?ks)" by (rule pool_interned [rotated])
  with ok show ?thesis using GetKeys_eq [OF c ne] c by (intro exI [of _ ?ks]) simp
qed

interpretation api: regions_info api_regions regions_ok
proof
  fix r :: RegionsInfo and tag assume r: "regions_ok r"
  show "0 < m_Len (api_regions r)"
    using r by (auto simp: api_regions_def rs_Len_def regions_ok_def)
  show "\<exists>ks. m_GetKeys (api_regions r) = Some ks \<and> int (length ks) = m_Len (api_regions r) + 1 \<and>
      axis_keys_ok ks \<and> interned (set ks)"
    using GetKeys_ok [OF r] by (simp add: api_regions_def rs_Len_def)
  show "\<exists>vs. m_GetValues (api_regions r) tag = Some vs \<and> int (length vs) = m_Len (api_regions r)"
    using r GetValues_eq [of r tag] by (simp add: api_regions_def rs_Len_def regions_ok_def)
qed

section \<open>\<open>read\<close>\<close>

text \<open>A list of key ranges that follow each other.\<close>

definition tiling :: "(string \<times> string) list \<Rightarrow> bool" where
  "tiling ts \<longleftrightarrow> ts \<noteq> [] \<and>
     (\<forall>i < length ts - 1. snd (ts ! i) = fst (ts ! Suc i) \<and> fst (ts ! i) < snd (ts ! i)) \<and>
     (snd (last ts) = [] \<or> fst (last ts) < snd (last ts))"

definition region_range :: "RegionInfo \<Rightarrow> string \<times> string" where
  "region_range r = (sval (StartKey r), sval (EndKey r))"

definition hex_range :: "RegionInfo \<Rightarrow> string option \<times> string option" where
  "hex_range r = (hex_decode (sval (StartKey r)), hex_decode (sval (EndKey r)))"

lemma sval_bytes_String [simp]: "sval (bytes_String addr b) = b"
  by (simp add: bytes_String_def empty_str_def)

text \<open>Keys made of fresh addresses are coherent, and the empty ones are \<open>""\<close>.\<close>

definition fresh_keys :: "nat \<Rightarrow> nat \<Rightarrow> gostr set \<Rightarrow> bool" where
  "fresh_keys lo hi K \<longleftrightarrow> pool_ok K \<and> (\<forall>k\<in>K. k = empty_str \<or> sval k \<noteq> [] \<and> lo \<le> sptr k \<and> sptr k < hi)"

lemma fresh_one: "fresh_keys addr (addr + 1) {bytes_String addr b}"
  by (auto simp: fresh_keys_def pool_ok_def coherent_def bytes_String_def empty_str_def)

lemma equal_empty: "equal empty_str k \<longleftrightarrow> k = empty_str" "equal k empty_str \<longleftrightarrow> k = empty_str"
  by (cases k; auto simp: equal_def empty_str_def)+

lemma fresh_union:
  assumes "fresh_keys a b K" and "fresh_keys b c L" and "a \<le> b" and "b \<le> c"
  shows "fresh_keys a c (K \<union> L)"
proof -
  have k: "k = empty_str \<or> sval k \<noteq> [] \<and> a \<le> sptr k \<and> sptr k < b" if "k \<in> K" for k
    using assms(1) that by (simp add: fresh_keys_def)
  have l: "l = empty_str \<or> sval l \<noteq> [] \<and> b \<le> sptr l \<and> sptr l < c" if "l \<in> L" for l
    using assms(2) that by (simp add: fresh_keys_def)
  have cross: "equal k l \<longrightarrow> sval k = sval l" "equal l k \<longrightarrow> sval l = sval k" if "k \<in> K" "l \<in> L" for k l
    using k [OF that(1)] l [OF that(2)] by (auto simp: equal_empty) (auto simp: equal_def)
  have "coherent (K \<union> L)"
    using assms(1,2) cross unfolding fresh_keys_def pool_ok_def coherent_def by blast
  moreover have "\<forall>x\<in>K \<union> L. sval x = [] \<longrightarrow> x = empty_str" using k l by blast
  moreover have "\<forall>x\<in>K \<union> L. x = empty_str \<or> sval x \<noteq> [] \<and> a \<le> sptr x \<and> sptr x < c"
    using k l assms(3,4) by (meson Un_iff less_le_trans order_trans)
  ultimately show ?thesis by (simp add: fresh_keys_def pool_ok_def)
qed

lemma decode_region_ok:
  assumes "hex_range r = (Some s, Some e)"
  shows "\<exists>r'. decode_region addr r = Some r' \<and> region_range r' = (s, e) \<and>
    fresh_keys addr (addr + 2) {StartKey r', EndKey r'}"
proof -
  have "fresh_keys addr (addr + 1 + 1) ({bytes_String addr s} \<union> {bytes_String (addr + 1) e})"
    by (rule fresh_union [OF fresh_one fresh_one]) simp_all
  then show ?thesis
    using assms by (simp add: hex_range_def decode_region_def region_range_def insert_commute)
qed

lemma decode_regions_ok:
  assumes "map hex_range rs = map (\<lambda>(s, e). (Some s, Some e)) ts"
  shows "\<exists>rs'. decode_regions addr rs = Some rs' \<and> map region_range rs' = ts \<and>
    fresh_keys addr (addr + 2 * length rs) (key_pool rs')"
  using assms
proof (induction rs arbitrary: addr ts)
  case Nil
  then show ?case by (simp add: key_pool_def fresh_keys_def pool_ok_def coherent_def)
next
  case (Cons r rs)
  then obtain s e ts' where ts: "ts = (s, e) # ts'" "hex_range r = (Some s, Some e)"
    "map hex_range rs = map (\<lambda>(s, e). (Some s, Some e)) ts'" by (cases ts) auto
  obtain r' where r': "decode_region addr r = Some r'" "region_range r' = (s, e)"
    "fresh_keys addr (addr + 2) {StartKey r', EndKey r'}" using decode_region_ok [OF ts(2)] by blast
  obtain rs' where rs': "decode_regions (addr + 2) rs = Some rs'" "map region_range rs' = ts'"
    "fresh_keys (addr + 2) (addr + 2 + 2 * length rs) (key_pool rs')" using Cons.IH [OF ts(3)] by blast
  have "key_pool (r' # rs') = {StartKey r', EndKey r'} \<union> key_pool rs'" by (auto simp: key_pool_def)
  moreover have "fresh_keys addr (addr + 2 + 2 * length rs) \<dots>"
    by (rule fresh_union [OF r'(3) rs'(3)]) simp_all
  ultimately show ?case using ts(1) r'(1,2) rs'(1,2) by simp
qed

lemma tiling_distinct:
  assumes "tiling ts"
  shows "sorted_wrt (<) (map fst ts)"
proof -
  have "fst (ts ! i) < fst (ts ! Suc i)" if "Suc i < length ts" for i
  proof -
    have "i < length ts - 1" using that by simp
    with assms have "fst (ts ! i) < snd (ts ! i)" "snd (ts ! i) = fst (ts ! Suc i)"
      unfolding tiling_def by blast+
    then show ?thesis by (simp only:)
  qed
  then show ?thesis by (subst sorted_wrt_iff_nth_Suc_transp) (auto intro: transpI)
qed

lemma sort_by_start:
  assumes "tiling ts" and "mset (map region_range rs) = mset ts"
  shows "map region_range (sort_key (\<lambda>r. sval (StartKey r)) rs) = ts"
proof (rule map_sorted_distinct_set_unique [where f = fst])
  have s: "sorted (map fst ts)" "distinct (map fst ts)"
    using tiling_distinct [OF assms(1)] by (simp_all add: strict_sorted_iff)
  have m: "mset (map region_range (sort_key (\<lambda>r. sval (StartKey r)) rs)) = mset ts"
    using assms(2) by simp
  show eq: "set (map region_range (sort_key (\<lambda>r. sval (StartKey r)) rs)) = set ts"
    using m by (metis set_mset_mset)
  show "inj_on fst (set (map region_range (sort_key (\<lambda>r. sval (StartKey r)) rs)) \<union> set ts)"
    unfolding eq using s(2) by (simp add: distinct_map)
  have "map fst (map region_range xs) = map (\<lambda>r. sval (StartKey r)) xs" for xs
    by (simp add: region_range_def)
  then show "sorted (map fst (map region_range (sort_key (\<lambda>r. sval (StartKey r)) rs)))"
    by (simp only: sorted_sort_key)
  have "mset (map fst (map region_range (sort_key (\<lambda>r. sval (StartKey r)) rs))) = mset (map fst ts)"
    using m by (metis mset_map)
  then show "distinct (map fst (map region_range (sort_key (\<lambda>r. sval (StartKey r)) rs)))"
    using s(2) by (metis mset_eq_imp_distinct_iff)
qed (use tiling_distinct [OF assms(1)] in \<open>simp_all add: strict_sorted_iff\<close>)


lemma read_regions_tiles:
  assumes "Count rs = int (length (Regions rs))" and "tiling ts"
    and "mset (map hex_range (Regions rs)) = mset (map (\<lambda>(s, e). (Some s, Some e)) ts)"
  shows "\<exists>rs'. read_regions addr (Some rs) = Some rs' \<and> map region_range (Regions rs') = ts \<and>
    Count rs' = Count rs \<and> pool_ok (key_pool (Regions rs'))"
proof -
  define f where "f = (\<lambda>(s :: string, e :: string). (Some s, Some e))"
  define g where "g = (\<lambda>(a :: string option, b :: string option). (the a, the b))"
  have gf: "g (f t) = t" for t by (cases t) (simp add: f_def g_def)
  define ts' where "ts' = map g (map hex_range (Regions rs))"
  have p: "mset (map hex_range (Regions rs)) = mset (map f ts)"
    using assms(3) unfolding f_def .
  have "mset ts' = image_mset g (mset (map hex_range (Regions rs)))"
    unfolding ts'_def by (rule mset_map)
  also have "\<dots> = image_mset g (mset (map f ts))" unfolding p ..
  also have "\<dots> = mset ts" by (simp add: gf image_mset.compositionality comp_def)
  finally have m: "mset ts' = mset ts" .
  have "set (map hex_range (Regions rs)) = set (map f ts)"
    using p by (rule mset_eq_setD)
  then have "f (g (hex_range r)) = hex_range r" if "r \<in> set (Regions rs)" for r
    using that gf by (metis (no_types, lifting) ex_map_conv image_eqI list.set_map)
  then have "map f ts' = map hex_range (Regions rs)" by (simp add: ts'_def)
  then obtain ds where ds: "decode_regions addr (Regions rs) = Some ds" "map region_range ds = ts'"
    "fresh_keys addr (addr + 2 * length (Regions rs)) (key_pool ds)"
    using decode_regions_ok [of "Regions rs" ts' addr] unfolding f_def by metis
  let ?rs = "rs\<lparr>Regions := sort_key (\<lambda>r. sval (StartKey r)) ds\<rparr>"
  have "map region_range (Regions ?rs) = ts"
    using sort_by_start [OF assms(2), of ds] ds(2) m by simp
  moreover have "pool_ok (key_pool (Regions ?rs))"
    using ds(3) by (simp add: fresh_keys_def key_pool_def)
  ultimately show ?thesis using ds(1) by (simp add: read_regions_def)
qed

lemma tiling_regions_ok:
  assumes "map region_range (Regions rs) = ts" and "tiling ts"
    and "Count rs = int (length (Regions rs))" and "pool_ok (key_pool (Regions rs))"
  shows "regions_ok rs"
proof -
  have ne: "Regions rs \<noteq> []" using assms(1,2) by (auto simp: tiling_def)
  have nth: "ts ! i = region_range (Regions rs ! i)" if "i < length (Regions rs)" for i
    using that unfolding assms(1) [symmetric] by simp
  have "last ts = region_range (last (Regions rs))"
    using ne unfolding assms(1) [symmetric] by (simp add: last_map)
  then have "let r = last (Regions rs) in sval (EndKey r) = [] \<or> sval (StartKey r) < sval (EndKey r)"
    using assms(2) by (auto simp: tiling_def region_range_def Let_def)
  moreover have "sval (EndKey (Regions rs ! i)) = sval (StartKey (Regions rs ! Suc i)) \<and>
      sval (StartKey (Regions rs ! i)) < sval (EndKey (Regions rs ! i))"
    if "i < length (Regions rs) - 1" for i
  proof -
    have "length ts = length (Regions rs)" unfolding assms(1) [symmetric] by simp
    then have "snd (ts ! i) = fst (ts ! Suc i) \<and> fst (ts ! i) < snd (ts ! i)"
      using assms(2) that unfolding tiling_def by metis
    moreover have "i < length (Regions rs)" "Suc i < length (Regions rs)" using that by auto
    ultimately show ?thesis using nth [of i] nth [of "Suc i"] by (metis fst_conv region_range_def snd_conv)
  qed
  ultimately show ?thesis using ne assms(3,4) unfolding regions_ok_def by blast
qed

text \<open>
  Whatever the order in which PD lists regions that tile a key range, \<open>read\<close> succeeds,
  and the key axis it yields is well formed: the start keys in order followed by the last end
  key, with keys that \<open>equal\<close> tells apart exactly by content although every key is a fresh string.
\<close>

theorem read_regions_axis:
  assumes "Count rs = int (length (Regions rs))" and "tiling ts"
    and "mset (map hex_range (Regions rs)) = mset (map (\<lambda>(s, e). (Some s, Some e)) ts)"
  shows "\<exists>rs' keys. read_regions addr (Some rs) = Some rs' \<and> map region_range (Regions rs') = ts \<and>
    GetKeys rs' = Some keys \<and> map sval keys = map fst ts @ [snd (last ts)] \<and>
    axis_keys_ok keys \<and> interned (set keys)"
proof -
  obtain rs' where rs': "read_regions addr (Some rs) = Some rs'" "map region_range (Regions rs') = ts"
    "Count rs' = Count rs" "pool_ok (key_pool (Regions rs'))"
    using read_regions_tiles [OF assms] by blast
  have "length ts = length (Regions rs)"
    using arg_cong [OF assms(3), of size] by simp
  then have c: "Count rs' = int (length (Regions rs'))"
    using rs'(2,3) assms(1) by (metis length_map)
  note ok = tiling_regions_ok [OF rs'(2) assms(2) c rs'(4)]
  then have ne: "Regions rs' \<noteq> []" by (simp add: regions_ok_def)
  have "map sval (map StartKey (Regions rs') @ [EndKey (last (Regions rs'))]) = map fst ts @ [snd (last ts)]"
    using ne unfolding rs'(2) [symmetric] by (simp add: region_range_def last_map)
  then have "map sval (StartKey (hd (Regions rs')) # map EndKey (Regions rs')) = map fst ts @ [snd (last ts)]"
    using tiling_keys [OF ok] by simp
  then show ?thesis
    using rs'(1,2) GetKeys_ok [OF ok] GetKeys_eq [OF c ne] by auto
qed

definition demo_region :: "string \<Rightarrow> string \<Rightarrow> RegionInfo" where
  "demo_region s e = \<lparr>ID = 1, StartKey = GoStr 7 s, EndKey = GoStr 8 e, ri_WrittenBytes = 3,
     ri_ReadBytes = 4, ri_WrittenKeys = 1, ri_ReadKeys = 2, ApproximateSize = 1, ApproximateKeys = 1\<rparr>"

theorem read_regions_axis_witness:
  "\<exists>rs' keys. read_regions 1 (Some \<lparr>Count = 2, Regions = [demo_region ''62'' '''', demo_region '''' ''62'']\<rparr>)
      = Some rs' \<and> GetKeys rs' = Some keys \<and> map sval keys = ['''', ''b'', '''']"
proof -
  let ?rs = "\<lparr>Count = 2, Regions = [demo_region ''62'' '''', demo_region '''' ''62'']\<rparr>"
  let ?ts = "[('''', ''b''), (''b'', '''')]"
  have "hex_decode ''62'' = Some ''b''" by code_simp
  then have "mset (map hex_range (Regions ?rs)) = mset (map (\<lambda>(s, e). (Some s, Some e)) ?ts)"
    by (simp add: hex_range_def demo_region_def add_mset_commute)
  moreover have "Count ?rs = int (length (Regions ?rs))" by simp
  moreover have "tiling ?ts" by (simp add: tiling_def less_char_def)
  ultimately show ?thesis using read_regions_axis [of ?rs ?ts 1] by fastforce
qed

end
