(* ===== verification/MatrixChunk.thy ===== *)
theory MatrixChunk
  imports MatrixUtil
begin

text \<open>
  The \<open>chunk\<close> of \<open>pkg/keyvisual/matrix/axis.go\<close>: one column of an axis, its keys and the
  values of the buckets between them, with the operations that re-bucket it
  (\<open>Reduce\<close>, \<open>Focus\<close>, \<open>MergeColdLogicalRange\<close>, \<open>Divide\<close>).

  A labeler enters only through its \<open>CrossBorder\<close> predicate on two keys, which is a
  parameter here. Closures over local variables are steps on a record of those variables.
\<close>

record chunk =
  ckeys :: "gostr list"
  cvalues :: "u64 list"

type_synonym cross_border = "string \<Rightarrow> string \<Rightarrow> bool"

datatype FocusMode = NotMergeLogicalRange | MergeColdLogicalRange_mode

definition createChunk :: "gostr list \<Rightarrow> u64 list \<Rightarrow> chunk option" where
  "createChunk keys values =
     (let keysLen = length keys in
      if keysLen \<le> 1 then None
      else if keysLen \<noteq> length values + 1 then None
      else Some \<lparr>ckeys = keys, cvalues = values\<rparr>)"

definition createZeroChunk :: "gostr list \<Rightarrow> chunk option" where
  "createZeroChunk keys =
     (let keysLen = length keys in
      if keysLen \<le> 1 then None else createChunk keys (replicate (keysLen - 1) 0))"

definition SetValues :: "chunk \<Rightarrow> u64 list \<Rightarrow> chunk option" where
  "SetValues c values =
     (if length values + 1 \<noteq> length (ckeys c) then None else Some (c\<lparr>cvalues := values\<rparr>))"

definition SetZeroValues :: "chunk \<Rightarrow> chunk option" where
  "SetZeroValues c = SetValues c (replicate (length (cvalues c)) 0)"

definition Clear :: "chunk \<Rightarrow> chunk" where
  "Clear c = c\<lparr>cvalues := MemsetUint64 (cvalues c) 0\<rparr>"

section \<open>Reduce\<close>

text \<open>The loop of \<open>Reduce\<close> from index \<open>i\<close> on, over the remaining values.\<close>

fun reduce_loop ::
  "gostr list \<Rightarrow> gostr list \<Rightarrow> nat \<Rightarrow> nat \<Rightarrow> u64 list \<Rightarrow> u64 list \<Rightarrow> u64 list option" where
  "reduce_loop keys endKeys i j newValues [] = Some newValues"
| "reduce_loop keys endKeys i j newValues (value # values) = do {
     j \<leftarrow> (if 0 < i then do {
             k \<leftarrow> idx keys i;
             e \<leftarrow> idx endKeys j;
             Some (if equal k e then j + 1 else j)
           } else Some j);
     old \<leftarrow> idx newValues j;
     newValues \<leftarrow> set_idx newValues j (old + value);
     reduce_loop keys endKeys (i + 1) j newValues values
   }"

definition Reduce :: "chunk \<Rightarrow> gostr list \<Rightarrow> chunk option" where
  "Reduce c newKeys = do {
     let keys = ckeys c;
     CheckReduceOf keys newKeys;
     let newValues = replicate (length newKeys - 1) 0;
     if length keys = length newKeys
     then createChunk newKeys (go_copy newValues (cvalues c))
     else do {
       newValues \<leftarrow> reduce_loop keys (tl newKeys) 0 0 newValues (cvalues c);
       createChunk newKeys newValues
     }
   }"

section \<open>Focus\<close>

text \<open>The local variables of \<open>GetFocusRows\<close> and its closure \<open>generateBucket\<close>.\<close>

record rows_state =
  r_count :: nat
  r_start :: nat
  r_sum :: u64

definition rows_generateBucket :: "nat \<Rightarrow> rows_state \<Rightarrow> rows_state" where
  "rows_generateBucket end st =
     (if r_start st < end
      then st\<lparr>r_count := r_count st + 1, r_start := end, r_sum := 0\<rparr> else st)"

fun rows_loop :: "u64 \<Rightarrow> nat \<Rightarrow> rows_state \<Rightarrow> u64 list \<Rightarrow> rows_state" where
  "rows_loop threshold i st [] = st"
| "rows_loop threshold i st (value # values) =
     (let st = (if threshold \<le> value \<or> threshold \<le> r_sum st
                then rows_generateBucket i st else st)
      in rows_loop threshold (i + 1) (st\<lparr>r_sum := r_sum st + value\<rparr>) values)"

definition GetFocusRows :: "chunk \<Rightarrow> u64 \<Rightarrow> nat" where
  "GetFocusRows c threshold =
     (let st = rows_loop threshold 0 \<lparr>r_count = 0, r_start = 0, r_sum = 0\<rparr> (cvalues c)
      in r_count (rows_generateBucket (length (cvalues c)) st))"

text \<open>The local variables of \<open>Focus\<close> and its closure \<open>generateBucket\<close>.\<close>

record focus_state =
  f_keys :: "gostr list"
  f_values :: "u64 list"
  f_start :: nat
  f_sum :: u64

definition focus_generateBucket ::
  "gostr list \<Rightarrow> nat \<Rightarrow> focus_state \<Rightarrow> focus_state option" where
  "focus_generateBucket keys end st =
     (if f_start st < end then do {
        k \<leftarrow> idx keys end;
        Some (st\<lparr>f_keys := f_keys st @ [k], f_values := f_values st @ [f_sum st],
                 f_start := end, f_sum := 0\<rparr>)
      } else Some st)"

fun focus_loop ::
  "cross_border \<Rightarrow> gostr list \<Rightarrow> u64 \<Rightarrow> int \<Rightarrow> nat \<Rightarrow> focus_state \<Rightarrow> u64 list
     \<Rightarrow> focus_state option" where
  "focus_loop cb keys threshold ratio i st [] = Some st"
| "focus_loop cb keys threshold ratio i st (value # values) = do {
     cut \<leftarrow> (if threshold \<le> value \<or> threshold \<le> f_sum st \<or> ratio \<le> int i - int (f_start st)
             then Some True
             else do {
               ks \<leftarrow> idx keys (f_start st);
               ki \<leftarrow> idx keys i;
               Some (cb (sval ks) (sval ki))
             });
     st \<leftarrow> (if cut then focus_generateBucket keys i st else Some st);
     focus_loop cb keys threshold ratio (i + 1) (st\<lparr>f_sum := f_sum st + value\<rparr>) values
   }"

section \<open>MergeColdLogicalRange\<close>

record cold_state =
  m_keys :: "gostr list"
  m_values :: "u64 list"
  coldStart :: nat
  coldEnd :: nat
  coldRangeSum :: u64

definition mergeColdRange :: "gostr list \<Rightarrow> cold_state \<Rightarrow> cold_state option" where
  "mergeColdRange keys st =
     (if coldEnd st \<le> coldStart st then Some st else do {
        k \<leftarrow> idx keys (coldEnd st);
        Some (st\<lparr>m_keys := m_keys st @ [k], m_values := m_values st @ [coldRangeSum st],
                 coldStart := coldEnd st, coldRangeSum := 0\<rparr>)
      })"

definition generateRange ::
  "gostr list \<Rightarrow> u64 list \<Rightarrow> u64 \<Rightarrow> nat \<Rightarrow> cold_state \<Rightarrow> cold_state option" where
  "generateRange keys values threshold end st =
     (if end \<le> coldEnd st then Some st else do {
        range \<leftarrow> go_slice values (coldEnd st) end;
        let rangeSum = sum_list range;
        st \<leftarrow> (if threshold < coldRangeSum st \<or> threshold < rangeSum
               then mergeColdRange keys st else Some st);
        if threshold < rangeSum then do {
          ks \<leftarrow> go_slice keys (coldEnd st + 1) (end + 1);
          vs \<leftarrow> go_slice values (coldEnd st) end;
          Some (st\<lparr>m_keys := m_keys st @ ks, m_values := m_values st @ vs,
                   coldStart := end, coldEnd := end\<rparr>)
        }
        else Some (st\<lparr>coldRangeSum := coldRangeSum st + rangeSum, coldEnd := end\<rparr>)
      })"

fun cold_loop ::
  "cross_border \<Rightarrow> gostr list \<Rightarrow> u64 list \<Rightarrow> u64 \<Rightarrow> nat list \<Rightarrow> cold_state \<Rightarrow> cold_state option"
where
  "cold_loop cb keys values threshold [] st = Some st"
| "cold_loop cb keys values threshold (i # is) st = do {
     k \<leftarrow> idx keys i;
     k1 \<leftarrow> idx keys (i + 1);
     st \<leftarrow> (if cb (sval k) (sval k1) then generateRange keys values threshold (i + 1) st
            else Some st);
     cold_loop cb keys values threshold is st
   }"

text \<open>\<open>make([]string, 0, target)\<close> panics on a negative capacity.\<close>

definition MergeColdLogicalRange :: "cross_border \<Rightarrow> chunk \<Rightarrow> u64 \<Rightarrow> int \<Rightarrow> chunk option" where
  "MergeColdLogicalRange cb c threshold target = do {
     let threshold = threshold div 4;
     _ \<leftarrow> (if target < 0 then None else Some ());
     k0 \<leftarrow> idx (ckeys c) 0;
     st \<leftarrow> cold_loop cb (ckeys c) (cvalues c) threshold [0..<length (cvalues c)]
            \<lparr>m_keys = [k0], m_values = [], coldStart = 0, coldEnd = 0, coldRangeSum = 0\<rparr>;
     st \<leftarrow> generateRange (ckeys c) (cvalues c) threshold (length (cvalues c)) st;
     st \<leftarrow> mergeColdRange (ckeys c) st;
     createChunk (m_keys st) (m_values st)
   }"

definition Focus ::
  "cross_border \<Rightarrow> chunk \<Rightarrow> u64 \<Rightarrow> int \<Rightarrow> int \<Rightarrow> FocusMode \<Rightarrow> chunk option" where
  "Focus cb c threshold ratio target mode = do {
     _ \<leftarrow> (if target < 0 then None else Some ());
     k0 \<leftarrow> idx (ckeys c) 0;
     st \<leftarrow> focus_loop cb (ckeys c) threshold ratio 0
            \<lparr>f_keys = [k0], f_values = [], f_start = 0, f_sum = 0\<rparr> (cvalues c);
     st \<leftarrow> focus_generateBucket (ckeys c) (length (cvalues c)) st;
     newChunk \<leftarrow> createChunk (f_keys st) (f_values st);
     if mode = MergeColdLogicalRange_mode \<and> target \<le> int (length (f_values st))
     then MergeColdLogicalRange cb newChunk threshold target
     else Some newChunk
   }"

section \<open>Divide\<close>

text \<open>
  The binary search of \<open>Divide\<close>. The bounds are \<open>uint64\<close>, so \<open>lower + upper\<close> may wrap
  around and the loop need not end: \<open>None\<close> is a loop that does not return.
\<close>

partial_function (option) divide_search ::
  "(u64 \<Rightarrow> nat) \<Rightarrow> int \<Rightarrow> u64 \<Rightarrow> u64 \<Rightarrow> u64 option" where
  "divide_search rows targetFocusRows lowerThreshold upperThreshold =
     (if lowerThreshold < upperThreshold then
        let mid = drop_bit 1 (lowerThreshold + upperThreshold) in
        if targetFocusRows < int (rows mid)
        then divide_search rows targetFocusRows (mid + 1) upperThreshold
        else divide_search rows targetFocusRows lowerThreshold mid
      else Some lowerThreshold)"

definition Divide :: "cross_border \<Rightarrow> chunk \<Rightarrow> int \<Rightarrow> FocusMode \<Rightarrow> chunk option" where
  "Divide cb c target mode =
     (if int (length (cvalues c)) \<le> target then Some c else do {
        let upperThreshold = 1 + sum_list (cvalues c);
        targetFocusRows \<leftarrow> go_div (target * 2) 3;
        threshold \<leftarrow> divide_search (GetFocusRows c) targetFocusRows 1 upperThreshold;
        let focusRows = GetFocusRows c threshold;
        q \<leftarrow> go_div (int (length (cvalues c))) (target - int focusRows);
        let ratio = q + 1;
        Focus cb c threshold ratio target mode
      })"

end
