(* ===== verification/ChunkBuckets.thy ===== *)
theory ChunkBuckets
  imports MatrixChunk
begin

text \<open>
  What re-bucketing means, and that every operation on chunks does it.

  A list of cut positions \<open>ps\<close> from 0 to the number of buckets describes a coarser chunk:
  its keys are the keys at the positions, its values the sums between them (\<open>coarsen\<close>).
  \<open>Focus\<close>, \<open>MergeColdLogicalRange\<close> and \<open>Divide\<close> return a coarsening of their chunk, and
  \<open>Reduce\<close> onto the keys of a coarsening returns exactly that coarsening.
\<close>

definition seg :: "u64 list \<Rightarrow> nat \<Rightarrow> nat \<Rightarrow> u64" where
  "seg vs a b = sum_list (take (b - a) (drop a vs))"

definition buckets :: "nat list \<Rightarrow> u64 list \<Rightarrow> u64 list" where
  "buckets ps vs = map (\<lambda>(a, b). seg vs a b) (zip ps (tl ps))"

definition cuts :: "nat list \<Rightarrow> nat \<Rightarrow> bool" where
  "cuts ps n \<longleftrightarrow> ps \<noteq> [] \<and> hd ps = 0 \<and> last ps = n \<and> sorted_wrt (<) ps"

definition coarsen :: "chunk \<Rightarrow> nat list \<Rightarrow> chunk" where
  "coarsen c ps = \<lparr>ckeys = map ((!) (ckeys c)) ps, cvalues = buckets ps (cvalues c)\<rparr>"

definition chunk_ok :: "chunk \<Rightarrow> bool" where
  "chunk_ok c \<longleftrightarrow> 2 \<le> length (ckeys c) \<and> length (ckeys c) = length (cvalues c) + 1"

section \<open>Segments and buckets\<close>

lemma seg_same [simp]: "seg vs a a = 0"
  by (simp add: seg_def)

lemma seg_Suc: "a \<le> i \<Longrightarrow> i < length vs \<Longrightarrow> seg vs a (Suc i) = seg vs a i + vs ! i"
  by (simp add: seg_def Suc_diff_le take_Suc_conv_app_nth)

lemma seg_append: "a \<le> b \<Longrightarrow> b \<le> d \<Longrightarrow> d \<le> length vs \<Longrightarrow> seg vs a b + seg vs b d = seg vs a d"
proof (induction d)
  case (Suc d)
  then show ?case
    by (cases "b = Suc d") (auto simp: seg_Suc add.assoc [symmetric])
qed simp

lemma seg_all: "seg vs 0 (length vs) = sum_list vs"
  by (simp add: seg_def)

lemma length_buckets [simp]: "length (buckets ps vs) = length ps - 1"
  by (simp add: buckets_def)

lemma nth_buckets: "k < length ps - 1 \<Longrightarrow> buckets ps vs ! k = seg vs (ps ! k) (ps ! Suc k)"
  by (simp add: buckets_def nth_tl)

lemma buckets_single [simp]: "buckets [a] vs = []"
  by (simp add: buckets_def)

lemma buckets_snoc:
  assumes "ps \<noteq> []"
  shows "buckets (ps @ [b]) vs = buckets ps vs @ [seg vs (last ps) b]"
proof (rule nth_equalityI)
  fix k assume "k < length (buckets (ps @ [b]) vs)"
  then show "buckets (ps @ [b]) vs ! k = (buckets ps vs @ [seg vs (last ps) b]) ! k"
    using assms
  proof (cases "k < length ps - 1")
    case False
    with \<open>k < _\<close> assms have "k = length ps - 1" by auto
    then show ?thesis using assms by (simp add: nth_buckets nth_append last_conv_nth)
  qed (auto simp: nth_buckets nth_append)
qed (use assms in \<open>cases ps; simp\<close>)

lemma buckets_run:
  assumes "ps \<noteq> []" and "last ps = a" and "a \<le> e" and "e \<le> length vs"
  shows "buckets (ps @ [a + 1..<e + 1]) vs = buckets ps vs @ take (e - a) (drop a vs)"
  using assms(3,4)
proof (induction "e - a" arbitrary: e)
  case (Suc n)
  obtain e' where e': "e = Suc e'" "a \<le> e'" using Suc.hyps(2) Suc.prems by (cases e) auto
  have IH: "buckets (ps @ [a + 1..<e' + 1]) vs = buckets ps vs @ take (e' - a) (drop a vs)"
    using Suc e' by (intro Suc.hyps(1)) auto
  have "last (ps @ [a + 1..<e' + 1]) = e'"
    using assms(2) e' by (cases "a = e'") auto
  moreover have "ps @ [a + 1..<e + 1] = (ps @ [a + 1..<e' + 1]) @ [e]"
    using e' by simp
  moreover have "seg vs e' e = vs ! e'" using e' Suc.prems by (simp add: seg_Suc)
  ultimately have "buckets (ps @ [a + 1..<e + 1]) vs
      = buckets ps vs @ take (e' - a) (drop a vs) @ [vs ! e']"
    using assms(1) buckets_snoc [of "ps @ [a + 1..<e' + 1]" e vs] IH
    by (simp del: upt_Suc)
  then show ?case using e' Suc.prems by (simp add: Suc_diff_le take_Suc_conv_app_nth)
qed simp

lemma cuts_nth_less: "cuts ps n \<Longrightarrow> i < j \<Longrightarrow> j < length ps \<Longrightarrow> ps ! i < ps ! j"
  by (simp add: cuts_def sorted_wrt_nth_less)

lemma cuts_nth_le: "cuts ps n \<Longrightarrow> i \<le> j \<Longrightarrow> j < length ps \<Longrightarrow> ps ! i \<le> ps ! j"
  using cuts_nth_less [of ps n i j] by (cases "i = j") auto

lemma cuts_bound: "cuts ps n \<Longrightarrow> i < length ps \<Longrightarrow> ps ! i \<le> n"
  using cuts_nth_le [of ps n i "length ps - 1"] by (auto simp: cuts_def last_conv_nth)

lemma cuts_mem: "cuts ps n \<Longrightarrow> p \<in> set ps \<Longrightarrow> p \<le> n"
  using cuts_bound [of ps n] by (auto simp: in_set_conv_nth)

lemma cuts_Suc_pred: "cuts ps n \<Longrightarrow> q \<le> length ps - 1 \<Longrightarrow> q < length ps"
  by (cases ps) (auto simp: cuts_def)

lemma cuts_0: "cuts ps n \<Longrightarrow> ps ! 0 = 0"
  by (auto simp: cuts_def hd_conv_nth)

lemma cuts_length: "cuts ps n \<Longrightarrow> 0 < n \<Longrightarrow> 2 \<le> length ps"
  by (cases ps rule: list.exhaust; cases "tl ps") (auto simp: cuts_def)

lemma cuts_max: "cuts ps n \<Longrightarrow> length ps \<le> n + 1"
proof -
  assume c: "cuts ps n"
  have "set ps \<subseteq> {..n}" using cuts_bound [OF c] by (auto simp: in_set_conv_nth)
  then have "card (set ps) \<le> n + 1"
    using card_mono [of "{..n}" "set ps"] by simp
  moreover have "distinct ps" using c by (auto simp: cuts_def strict_sorted_iff)
  ultimately show ?thesis by (simp add: distinct_card)
qed

lemma cuts_full: "cuts ps n \<Longrightarrow> length ps = n + 1 \<Longrightarrow> ps = [0..<n + 1]"
proof -
  assume c: "cuts ps n" and len: "length ps = n + 1"
  have "set ps \<subseteq> {..n}" using cuts_bound [OF c] by (auto simp: in_set_conv_nth)
  moreover have d: "distinct ps" "sorted ps" using c by (auto simp: cuts_def strict_sorted_iff)
  moreover have "card (set ps) = card {..n}" using d len by (simp add: distinct_card)
  ultimately have "set ps = {..n}" by (intro card_subset_eq) simp_all
  then have "set ps = set [0..<n + 1]"
    by (simp only: set_upt atLeast0LessThan Suc_eq_plus1 [symmetric] lessThan_Suc_atMost)
  then show ?thesis
    using d by (intro sorted_distinct_set_unique) (simp_all del: upt_Suc)
qed

lemma seg_buckets:
  assumes "cuts ps (length vs)" and "a \<le> b" and "b < length ps"
  shows "seg (buckets ps vs) a b = seg vs (ps ! a) (ps ! b)"
  using assms(2,3)
proof (induction b)
  case (Suc b)
  show ?case
  proof (cases "a = Suc b")
    case False
    then have "seg (buckets ps vs) a (Suc b) = seg vs (ps ! a) (ps ! b) + seg vs (ps ! b) (ps ! Suc b)"
      using Suc by (simp add: seg_Suc nth_buckets)
    also have "\<dots> = seg vs (ps ! a) (ps ! Suc b)"
      using Suc.prems False cuts_nth_le [OF assms(1)] cuts_bound [OF assms(1)]
      by (intro seg_append) auto
    finally show ?thesis .
  qed simp
qed simp

lemma sum_buckets:
  assumes "cuts ps (length vs)"
  shows "sum_list (buckets ps vs) = sum_list vs"
proof -
  have "ps ! (length ps - 1) = length vs"
    using assms by (auto simp: cuts_def last_conv_nth)
  moreover have "seg (buckets ps vs) 0 (length ps - 1) = seg vs (ps ! 0) (ps ! (length ps - 1))"
    using assms by (intro seg_buckets) (auto simp: cuts_def)
  ultimately show ?thesis
    using cuts_0 [OF assms] seg_all [of "buckets ps vs"] seg_all [of vs] by simp
qed

lemma cuts_comp:
  assumes "cuts ps n" and "cuts qs (length ps - 1)"
  shows "cuts (map ((!) ps) qs) n"
proof -
  have len: "q \<in> set qs \<Longrightarrow> q < length ps" for q
    using cuts_mem [OF assms(2)] cuts_Suc_pred [OF assms(1)] by blast
  have "sorted_wrt (\<lambda>a b. ps ! a < ps ! b) qs"
    using assms(2) len cuts_nth_less [OF assms(1)] unfolding cuts_def
    by (auto simp: cuts_def intro: sorted_wrt_mono_rel [of _ "(<)"])
  then show ?thesis
    using assms
    by (auto simp: cuts_def sorted_wrt_map hd_map last_map hd_conv_nth last_conv_nth)
qed

lemma coarsen_comp:
  assumes "cuts ps (length (cvalues c))" and "cuts qs (length ps - 1)"
  shows "coarsen (coarsen c ps) qs = coarsen c (map ((!) ps) qs)"
proof -
  have len: "q \<in> set qs \<Longrightarrow> q < length ps" for q
    using cuts_mem [OF assms(2)] cuts_Suc_pred [OF assms(1)] by blast
  have "buckets qs (buckets ps (cvalues c)) = buckets (map ((!) ps) qs) (cvalues c)"
  proof (rule nth_equalityI)
    fix k assume k: "k < length (buckets qs (buckets ps (cvalues c)))"
    then have "qs ! k \<le> qs ! Suc k" "qs ! Suc k < length ps"
      using cuts_nth_le [OF assms(2), of k "Suc k"] len by auto
    with k show "buckets qs (buckets ps (cvalues c)) ! k
        = buckets (map ((!) ps) qs) (cvalues c) ! k"
      using assms(1) by (simp add: nth_buckets seg_buckets)
  qed simp
  then show ?thesis using len by (simp add: coarsen_def)
qed

lemma coarsen_ok:
  "chunk_ok c \<Longrightarrow> cuts ps (length (cvalues c)) \<Longrightarrow> chunk_ok (coarsen c ps)"
  using cuts_length [of ps "length (cvalues c)"]
  by (cases "cvalues c = []") (auto simp: chunk_ok_def coarsen_def)

lemma createChunk_ok: "chunk_ok \<lparr>ckeys = ks, cvalues = vs\<rparr> \<Longrightarrow>
    createChunk ks vs = Some \<lparr>ckeys = ks, cvalues = vs\<rparr>"
  by (auto simp: createChunk_def chunk_ok_def Let_def)

lemma createChunk_coarsen:
  "chunk_ok c \<Longrightarrow> cuts ps (length (cvalues c)) \<Longrightarrow>
   createChunk (map ((!) (ckeys c)) ps) (buckets ps (cvalues c)) = Some (coarsen c ps)"
  using coarsen_ok [of c ps] by (simp add: createChunk_ok coarsen_def)

end
