(* ===== verification/ChunkProps.thy ===== *)
theory ChunkProps
  imports ChunkBuckets
begin

text \<open>
  Functional correctness of the re-bucketing operations: \<open>Focus\<close> and
  \<open>MergeColdLogicalRange\<close> return coarsenings of their chunk for any labeler, and \<open>Reduce\<close>
  onto the keys of a coarsening computes its bucket sums.
\<close>

section \<open>Focus\<close>

definition focus_inv :: "chunk \<Rightarrow> nat \<Rightarrow> focus_state \<Rightarrow> bool" where
  "focus_inv c i st \<longleftrightarrow> (\<exists>ps. ps \<noteq> [] \<and> hd ps = 0 \<and> sorted_wrt (<) ps \<and> last ps = f_start st \<and>
     f_start st \<le> i \<and> f_keys st = map ((!) (ckeys c)) ps \<and>
     f_values st = buckets ps (cvalues c) \<and> f_sum st = seg (cvalues c) (f_start st) i)"

lemma sorted_wrt_snoc_last:
  "ps \<noteq> [] \<Longrightarrow> sorted_wrt (<) ps \<Longrightarrow> last ps < (x::nat) \<Longrightarrow> sorted_wrt (<) (ps @ [x])"
  by (cases ps rule: rev_cases) (force simp: sorted_wrt_append)+

lemma sorted_wrt_last_le: "sorted_wrt (<) ps \<Longrightarrow> p \<in> set ps \<Longrightarrow> p \<le> (last ps :: nat)"
  by (cases ps rule: rev_cases) (auto simp: sorted_wrt_append intro: less_imp_le)

lemma focus_inv_cut:
  assumes "focus_inv c i st" and "i < length (ckeys c)"
  shows "\<exists>st'. focus_generateBucket (ckeys c) i st = Some st' \<and> focus_inv c i st' \<and> f_start st' = i"
proof (cases "f_start st < i")
  case True
  obtain ps where ps: "ps \<noteq> []" "hd ps = 0" "sorted_wrt (<) ps" "last ps = f_start st"
    "f_keys st = map ((!) (ckeys c)) ps" "f_values st = buckets ps (cvalues c)"
    "f_sum st = seg (cvalues c) (f_start st) i"
    using assms(1) by (auto simp: focus_inv_def)
  let ?st = "st\<lparr>f_keys := f_keys st @ [ckeys c ! i], f_values := f_values st @ [f_sum st],
    f_start := i, f_sum := 0\<rparr>"
  have "focus_inv c i ?st"
    unfolding focus_inv_def using ps True
    by (intro exI [of _ "ps @ [i]"]) (auto simp: buckets_snoc intro: sorted_wrt_snoc_last)
  then show ?thesis using True assms(2) by (auto simp: focus_generateBucket_def)
next
  case False
  then have "f_start st = i" using assms(1) by (auto simp: focus_inv_def)
  then show ?thesis using assms(1) by (simp add: focus_generateBucket_def)
qed

lemma focus_inv_step:
  "focus_inv c i st \<Longrightarrow> i < length (cvalues c) \<Longrightarrow>
   focus_inv c (Suc i) (st\<lparr>f_sum := f_sum st + cvalues c ! i\<rparr>)"
  by (auto simp: focus_inv_def seg_Suc)

lemma focus_inv_init:
  "ckeys c \<noteq> [] \<Longrightarrow>
   focus_inv c 0 \<lparr>f_keys = [ckeys c ! 0], f_values = [], f_start = 0, f_sum = 0\<rparr>"
  unfolding focus_inv_def by (intro exI [of _ "[0]"]) auto

lemma focus_inv_start: "focus_inv c i st \<Longrightarrow> f_start st \<le> i"
  by (auto simp: focus_inv_def)

lemma focus_inv_done:
  assumes "focus_inv c (length (cvalues c)) st" and "f_start st = length (cvalues c)"
  obtains ps where "cuts ps (length (cvalues c))" and "f_keys st = map ((!) (ckeys c)) ps"
    and "f_values st = buckets ps (cvalues c)"
  using assms by (auto simp: focus_inv_def cuts_def)

text \<open>The condition of the loop body, which never indexes out of range.\<close>

definition focus_cut ::
  "cross_border \<Rightarrow> gostr list \<Rightarrow> u64 \<Rightarrow> int \<Rightarrow> nat \<Rightarrow> focus_state \<Rightarrow> u64 \<Rightarrow> bool" where
  "focus_cut cb keys threshold ratio i st value \<longleftrightarrow>
     threshold \<le> value \<or> threshold \<le> f_sum st \<or> ratio \<le> int i - int (f_start st) \<or>
     cb (sval (keys ! f_start st)) (sval (keys ! i))"

lemma focus_loop_step:
  assumes "focus_inv c i st" and "i < length (ckeys c)"
  shows "focus_loop cb (ckeys c) threshold ratio i st (value # values) =
    (if focus_cut cb (ckeys c) threshold ratio i st value
     then focus_generateBucket (ckeys c) i st else Some st) \<bind>
    (\<lambda>st. focus_loop cb (ckeys c) threshold ratio (i + 1) (st\<lparr>f_sum := f_sum st + value\<rparr>) values)"
  using assms focus_inv_start [OF assms(1)] by (simp add: focus_cut_def)

lemma focus_loop_inv:
  assumes "focus_inv c i st" and "chunk_ok c" and "vals = drop i (cvalues c)"
    and "i \<le> length (cvalues c)"
  shows "\<exists>st'. focus_loop cb (ckeys c) threshold ratio i st vals = Some st' \<and>
    focus_inv c (length (cvalues c)) st'"
  using assms
proof (induction vals arbitrary: i st)
  case Nil
  then show ?case by simp
next
  case (Cons v vals)
  have il: "i < length (cvalues c)"
    using Cons.prems(3) by (cases "i < length (cvalues c)") auto
  have i: "i < length (cvalues c)" "v = cvalues c ! i" "vals = drop (Suc i) (cvalues c)"
    using Cons.prems(3) il by (auto simp flip: Cons_nth_drop_Suc)
  have ik: "i < length (ckeys c)" using i(1) Cons.prems(2) by (simp add: chunk_ok_def)
  obtain st1 where st1: "(if focus_cut cb (ckeys c) threshold ratio i st v
     then focus_generateBucket (ckeys c) i st else Some st) = Some st1" "focus_inv c i st1"
    using focus_inv_cut [OF Cons.prems(1) ik] Cons.prems(1)
    by (cases "focus_cut cb (ckeys c) threshold ratio i st v") auto
  have "focus_inv c (Suc i) (st1\<lparr>f_sum := f_sum st1 + v\<rparr>)"
    using focus_inv_step [OF st1(2) i(1)] i(2) by simp
  moreover have "focus_loop cb (ckeys c) threshold ratio i st (v # vals) =
      focus_loop cb (ckeys c) threshold ratio (Suc i) (st1\<lparr>f_sum := f_sum st1 + v\<rparr>) vals"
    by (simp only: focus_loop_step [OF Cons.prems(1) ik] st1(1) bind.bind_lunit Suc_eq_plus1)
  ultimately show ?case
    using Cons.IH [of "Suc i" "st1\<lparr>f_sum := f_sum st1 + v\<rparr>"] Cons.prems(2) i by auto
qed

section \<open>MergeColdLogicalRange\<close>

definition cold_inv :: "chunk \<Rightarrow> cold_state \<Rightarrow> bool" where
  "cold_inv c st \<longleftrightarrow> (\<exists>ps. ps \<noteq> [] \<and> hd ps = 0 \<and> sorted_wrt (<) ps \<and> last ps = coldStart st \<and>
     coldStart st \<le> coldEnd st \<and> coldEnd st \<le> length (cvalues c) \<and>
     m_keys st = map ((!) (ckeys c)) ps \<and> m_values st = buckets ps (cvalues c) \<and>
     coldRangeSum st = seg (cvalues c) (coldStart st) (coldEnd st))"

lemma mergeColdRange_inv:
  assumes "cold_inv c st" and "chunk_ok c"
  shows "\<exists>st'. mergeColdRange (ckeys c) st = Some st' \<and> cold_inv c st' \<and>
    coldStart st' = coldEnd st \<and> coldEnd st' = coldEnd st"
proof (cases "coldEnd st \<le> coldStart st")
  case True
  then show ?thesis using assms by (auto simp: mergeColdRange_def cold_inv_def)
next
  case False
  obtain ps where ps: "ps \<noteq> []" "hd ps = 0" "sorted_wrt (<) ps" "last ps = coldStart st"
    "coldEnd st \<le> length (cvalues c)"
    "m_keys st = map ((!) (ckeys c)) ps" "m_values st = buckets ps (cvalues c)"
    "coldRangeSum st = seg (cvalues c) (coldStart st) (coldEnd st)"
    using assms(1) by (auto simp: cold_inv_def)
  have len: "coldEnd st < length (ckeys c)" using ps(5) assms(2) by (simp add: chunk_ok_def)
  let ?st = "st\<lparr>m_keys := m_keys st @ [ckeys c ! coldEnd st],
    m_values := m_values st @ [coldRangeSum st], coldStart := coldEnd st, coldRangeSum := 0\<rparr>"
  have "cold_inv c ?st"
    unfolding cold_inv_def using ps False
    by (intro exI [of _ "ps @ [coldEnd st]"]) (auto simp: buckets_snoc intro: sorted_wrt_snoc_last)
  then show ?thesis using False len by (simp add: mergeColdRange_def)
qed

lemma cold_inv_hot:
  assumes "cold_inv c st" and "chunk_ok c" and "coldStart st = coldEnd st"
    and "coldEnd st < e" and "e \<le> length (cvalues c)"
  shows "cold_inv c (st\<lparr>m_keys := m_keys st @ take (e - coldEnd st) (drop (coldEnd st + 1) (ckeys c)),
    m_values := m_values st @ take (e - coldEnd st) (drop (coldEnd st) (cvalues c)),
    coldStart := e, coldEnd := e\<rparr>)"
proof -
  obtain ps where ps: "ps \<noteq> []" "hd ps = 0" "sorted_wrt (<) ps" "last ps = coldEnd st"
    "m_keys st = map ((!) (ckeys c)) ps" "m_values st = buckets ps (cvalues c)"
    "coldRangeSum st = 0"
    using assms(1,3) by (auto simp: cold_inv_def)
  let ?a = "coldEnd st"
  let ?qs = "ps @ [?a + 1..<e + 1]"
  have keys: "take (e - ?a) (drop (Suc ?a) (ckeys c)) = map ((!) (ckeys c)) [Suc ?a..<Suc e]"
    using assms(2,5) by (intro nth_equalityI) (auto simp: chunk_ok_def simp del: upt_Suc)
  have vals: "buckets (ps @ [Suc ?a..<Suc e]) (cvalues c)
      = buckets ps (cvalues c) @ take (e - ?a) (drop ?a (cvalues c))"
    using buckets_run [OF ps(1,4), of e "cvalues c"] assms(4,5) by simp
  have "p \<le> ?a" if "p \<in> set ps" for p
    using sorted_wrt_last_le [OF ps(3) that] ps(4) by simp
  then have srt: "sorted_wrt (<) ?qs"
    using ps(3) by (force simp: sorted_wrt_append sorted_wrt_upt simp del: upt_Suc)
  show ?thesis
    unfolding cold_inv_def using ps assms(4,5) srt
    by (intro exI [of _ ?qs]) (auto simp: keys vals simp del: upt_Suc)
qed

lemma cold_inv_skip:
  assumes "cold_inv c st" and "coldEnd st < e" and "e \<le> length (cvalues c)"
  shows "cold_inv c (st\<lparr>coldRangeSum := coldRangeSum st + seg (cvalues c) (coldEnd st) e,
    coldEnd := e\<rparr>)"
  using assms by (auto simp: cold_inv_def seg_append)

lemma generateRange_inv:
  assumes "cold_inv c st" and "chunk_ok c" and "e \<le> length (cvalues c)"
  shows "\<exists>st'. generateRange (ckeys c) (cvalues c) threshold e st = Some st' \<and> cold_inv c st' \<and>
    coldEnd st' = max e (coldEnd st)"
proof (cases "e \<le> coldEnd st")
  case True
  then show ?thesis using assms by (auto simp: generateRange_def)
next
  case False
  define a where "a = coldEnd st"
  have a: "a < e" "a \<le> length (cvalues c)" using False assms(3) by (auto simp: a_def)
  define range_sum where "range_sum = seg (cvalues c) a e"
  let ?merge = "threshold < coldRangeSum st \<or> threshold < range_sum"
  obtain st1 where st1: "(if ?merge then mergeColdRange (ckeys c) st else Some st) = Some st1"
    "cold_inv c st1" "coldEnd st1 = a" "?merge \<longrightarrow> coldStart st1 = a"
    using mergeColdRange_inv [OF assms(1,2)] assms(1) by (cases ?merge) (auto simp: a_def)
  have klen: "length (ckeys c) = length (cvalues c) + 1"
    using assms(2) by (simp add: chunk_ok_def)
  have eq: "generateRange (ckeys c) (cvalues c) threshold e st =
    (if threshold < range_sum
     then Some (st1\<lparr>m_keys := m_keys st1 @ take (e - a) (drop (a + 1) (ckeys c)),
        m_values := m_values st1 @ take (e - a) (drop a (cvalues c)), coldStart := e, coldEnd := e\<rparr>)
     else Some (st1\<lparr>coldRangeSum := coldRangeSum st1 + range_sum, coldEnd := e\<rparr>))"
    unfolding generateRange_def using a st1(1,3) assms(3) klen
    by (simp add: a_def [symmetric] seg_def [symmetric] range_sum_def [symmetric] Let_def)
  show ?thesis
  proof (cases "threshold < range_sum")
    case True
    with cold_inv_hot [OF st1(2) assms(2), of e] st1(3,4) a assms(3) eq a_def show ?thesis
      by (auto simp: max_def)
  next
    case False
    with cold_inv_skip [OF st1(2), of e] st1(3) a assms(3) eq a_def show ?thesis
      by (auto simp: max_def range_sum_def)
  qed
qed

lemma cold_loop_inv:
  assumes "cold_inv c st" and "chunk_ok c" and "set is \<subseteq> {..<length (cvalues c)}"
  shows "\<exists>st'. cold_loop cb (ckeys c) (cvalues c) threshold is st = Some st' \<and> cold_inv c st'"
  using assms
proof (induction "is" arbitrary: st)
  case (Cons i "is")
  have i: "i < length (cvalues c)" "length (ckeys c) = length (cvalues c) + 1"
    using Cons.prems by (auto simp: chunk_ok_def)
  obtain st1 where st1: "(if cb (sval (ckeys c ! i)) (sval (ckeys c ! (i + 1)))
      then generateRange (ckeys c) (cvalues c) threshold (i + 1) st else Some st) = Some st1"
    "cold_inv c st1"
    using generateRange_inv [OF Cons.prems(1,2), of "i + 1" threshold] Cons.prems(1) i
    by (cases "cb (sval (ckeys c ! i)) (sval (ckeys c ! (i + 1)))") auto
  then show ?case using Cons.IH [OF st1(2)] Cons.prems i by simp
qed simp

lemma cold_inv_le: "cold_inv c st \<Longrightarrow> coldEnd st \<le> length (cvalues c)"
  by (auto simp: cold_inv_def)

lemma cold_inv_done:
  assumes "cold_inv c st" and "coldStart st = length (cvalues c)"
  obtains ps where "cuts ps (length (cvalues c))" and "m_keys st = map ((!) (ckeys c)) ps"
    and "m_values st = buckets ps (cvalues c)"
  using assms by (auto simp: cold_inv_def cuts_def)

lemma MergeCold_coarsen:
  assumes "chunk_ok c" and "0 \<le> target"
  shows "\<exists>ps. cuts ps (length (cvalues c)) \<and>
    MergeColdLogicalRange cb c threshold target = Some (coarsen c ps)"
proof -
  let ?n = "length (cvalues c)" and ?t = "threshold div 4"
  let ?st = "\<lparr>m_keys = [ckeys c ! 0], m_values = [], coldStart = 0, coldEnd = 0, coldRangeSum = 0\<rparr>"
  have "cold_inv c ?st" unfolding cold_inv_def by (intro exI [of _ "[0]"]) auto
  then obtain st1 where 1: "cold_loop cb (ckeys c) (cvalues c) ?t [0..<?n] ?st = Some st1"
    "cold_inv c st1"
    using cold_loop_inv [OF _ assms(1), of ?st "[0..<?n]" cb ?t] by (auto simp: atLeast0LessThan)
  obtain st2 where 2: "generateRange (ckeys c) (cvalues c) ?t ?n st1 = Some st2" "cold_inv c st2"
    "coldEnd st2 = ?n"
    using generateRange_inv [OF 1(2) assms(1), of ?n ?t] cold_inv_le [OF 1(2)] by (auto simp: max_def)
  obtain st3 where 3: "mergeColdRange (ckeys c) st2 = Some st3" "cold_inv c st3"
    "coldStart st3 = ?n"
    using mergeColdRange_inv [OF 2(2) assms(1)] 2(3) by auto
  obtain ps where ps: "cuts ps ?n" "m_keys st3 = map ((!) (ckeys c)) ps"
    "m_values st3 = buckets ps (cvalues c)"
    using cold_inv_done [OF 3(2,3)] by blast
  have "0 < length (ckeys c)" using assms(1) by (simp add: chunk_ok_def)
  then have "MergeColdLogicalRange cb c threshold target = Some (coarsen c ps)"
    using 1(1) 2(1) 3(1) ps createChunk_coarsen [OF assms(1) ps(1)] assms(2)
    by (simp add: MergeColdLogicalRange_def Let_def)
  with ps(1) show ?thesis by blast
qed

section \<open>Focus and Divide are coarsenings\<close>

lemma Focus_state:
  assumes "chunk_ok c"
  obtains st ps where
    "focus_loop cb (ckeys c) threshold ratio 0
       \<lparr>f_keys = [ckeys c ! 0], f_values = [], f_start = 0, f_sum = 0\<rparr> (cvalues c) \<bind>
     focus_generateBucket (ckeys c) (length (cvalues c)) = Some st"
    and "cuts ps (length (cvalues c))" and "f_keys st = map ((!) (ckeys c)) ps"
    and "f_values st = buckets ps (cvalues c)"
proof -
  let ?n = "length (cvalues c)"
  let ?st = "\<lparr>f_keys = [ckeys c ! 0], f_values = [], f_start = 0, f_sum = 0\<rparr>"
  have ne: "ckeys c \<noteq> []" "?n < length (ckeys c)" using assms by (auto simp: chunk_ok_def)
  obtain st1 where 1: "focus_loop cb (ckeys c) threshold ratio 0 ?st (cvalues c) = Some st1"
    "focus_inv c ?n st1"
    using focus_loop_inv [OF focus_inv_init [OF ne(1)] assms, of "cvalues c" cb threshold ratio]
    by auto
  obtain st2 where 2: "focus_generateBucket (ckeys c) ?n st1 = Some st2" "focus_inv c ?n st2"
    "f_start st2 = ?n"
    using focus_inv_cut [OF 1(2) ne(2)] by auto
  obtain ps where "cuts ps ?n" "f_keys st2 = map ((!) (ckeys c)) ps"
    "f_values st2 = buckets ps (cvalues c)"
    using focus_inv_done [OF 2(2,3)] by blast
  moreover have "focus_loop cb (ckeys c) threshold ratio 0 ?st (cvalues c) \<bind>
      focus_generateBucket (ckeys c) ?n = Some st2"
    by (simp only: 1(1) 2(1) bind.bind_lunit)
  ultimately show thesis by (rule that [rotated])
qed

lemma Focus_coarsen:
  assumes "chunk_ok c" and "0 \<le> target"
  shows "\<exists>ps. cuts ps (length (cvalues c)) \<and>
    Focus cb c threshold ratio target mode = Some (coarsen c ps)"
proof -
  let ?n = "length (cvalues c)"
  obtain st ps where st:
    "focus_loop cb (ckeys c) threshold ratio 0
       \<lparr>f_keys = [ckeys c ! 0], f_values = [], f_start = 0, f_sum = 0\<rparr> (cvalues c) \<bind>
     focus_generateBucket (ckeys c) ?n = Some st"
    and ps: "cuts ps ?n" "f_keys st = map ((!) (ckeys c)) ps" "f_values st = buckets ps (cvalues c)"
    using Focus_state [OF assms(1)] by blast
  have ne: "0 < length (ckeys c)" using assms(1) by (simp add: chunk_ok_def)
  let ?merge = "mode = MergeColdLogicalRange_mode \<and> target \<le> int (length (f_values st))"
  have F: "Focus cb c threshold ratio target mode =
      (if ?merge then MergeColdLogicalRange cb (coarsen c ps) threshold target
       else Some (coarsen c ps))"
  proof -
    have "Focus cb c threshold ratio target mode =
      (focus_loop cb (ckeys c) threshold ratio 0
        \<lparr>f_keys = [ckeys c ! 0], f_values = [], f_start = 0, f_sum = 0\<rparr> (cvalues c) \<bind>
       focus_generateBucket (ckeys c) ?n) \<bind>
      (\<lambda>st. createChunk (f_keys st) (f_values st) \<bind> (\<lambda>newChunk.
         if mode = MergeColdLogicalRange_mode \<and> target \<le> int (length (f_values st))
         then MergeColdLogicalRange cb newChunk threshold target else Some newChunk))"
      using assms(2) ne by (simp add: Focus_def)
    then show ?thesis
      using st ps createChunk_coarsen [OF assms(1) ps(1)] by simp
  qed
  show ?thesis
  proof (cases ?merge)
    case True
    obtain qs where qs: "cuts qs (length (cvalues (coarsen c ps)))"
      "MergeColdLogicalRange cb (coarsen c ps) threshold target = Some (coarsen (coarsen c ps) qs)"
      using MergeCold_coarsen [OF coarsen_ok [OF assms(1) ps(1)] assms(2)] by blast
    have "cuts qs (length ps - 1)" using qs(1) by (simp add: coarsen_def)
    with qs(2) F True show ?thesis
      using cuts_comp [OF ps(1)] coarsen_comp [OF ps(1)] by auto
  qed (use F ps(1) in auto)
qed

section \<open>Reduce\<close>

text \<open>
  The keys of a chunk as \<open>Reduce\<close> needs them: distinct but for the first (the unlimited
  start and end are both \<open>""\<close>), and interned, since the loop compares addresses.
\<close>

definition keys_distinct :: "gostr list \<Rightarrow> bool" where
  "keys_distinct keys \<longleftrightarrow> distinct (map sval (tl keys)) \<and> interned (set keys)"

lemma keys_distinct_equal:
  assumes "keys_distinct keys" and "0 < i" and "0 < k" and "i < length keys" and "k < length keys"
  shows "equal (keys ! i) (keys ! k) \<longleftrightarrow> i = k"
proof -
  have "equal (keys ! i) (keys ! k) \<longleftrightarrow> sval (keys ! i) = sval (keys ! k)"
    using assms by (intro internedD [of "set keys"]) (auto simp: keys_distinct_def)
  also have "\<dots> \<longleftrightarrow> map sval (tl keys) ! (i - 1) = map sval (tl keys) ! (k - 1)"
    using assms by (simp add: nth_tl)
  also have "\<dots> \<longleftrightarrow> i - 1 = k - 1"
    using assms by (intro nth_eq_iff_index_eq) (auto simp: keys_distinct_def)
  finally show ?thesis using assms by auto
qed

text \<open>The bucket sums restricted to the first \<open>i\<close> values.\<close>

definition partial_buckets :: "nat list \<Rightarrow> u64 list \<Rightarrow> nat \<Rightarrow> u64 list" where
  "partial_buckets ps vs i =
     map (\<lambda>k. seg vs (min i (ps ! k)) (min i (ps ! Suc k))) [0..<length ps - 1]"

lemma partial_buckets_0: "partial_buckets ps vs 0 = replicate (length ps - 1) 0"
  by (intro nth_equalityI) (auto simp: partial_buckets_def)

lemma partial_buckets_all:
  "cuts ps (length vs) \<Longrightarrow> partial_buckets ps vs (length vs) = buckets ps vs"
  using cuts_bound [of ps "length vs"]
  by (intro nth_equalityI) (auto simp: partial_buckets_def nth_buckets min_absorb2)

lemma partial_buckets_Suc:
  assumes "cuts ps (length vs)" and "j < length ps - 1" and "ps ! j \<le> i" and "i < ps ! Suc j"
  shows "(partial_buckets ps vs i)[j := partial_buckets ps vs i ! j + vs ! i]
    = partial_buckets ps vs (Suc i)"
proof (rule nth_equalityI)
  have "Suc j < length ps" using assms(2) by simp
  then have i: "i < length vs" using cuts_bound [OF assms(1), of "Suc j"] assms(4) by simp
  fix k assume "k < length ((partial_buckets ps vs i)[j := partial_buckets ps vs i ! j + vs ! i])"
  then have k: "k < length ps - 1" by (simp add: partial_buckets_def)
  consider "k = j" | "Suc k \<le> j" | "Suc j \<le> k" by linarith
  then show "(partial_buckets ps vs i)[j := partial_buckets ps vs i ! j + vs ! i] ! k
      = partial_buckets ps vs (Suc i) ! k"
  proof cases
    case 1
    then show ?thesis using assms k i
      by (simp add: partial_buckets_def seg_Suc min_absorb1 min_absorb2)
  next
    case 2
    then have "ps ! Suc k \<le> i" "ps ! k \<le> i"
      using cuts_nth_le [OF assms(1), of "Suc k" j] cuts_nth_le [OF assms(1), of k j]
        \<open>Suc j < length ps\<close> assms(3)
      by (meson Suc_lessD Suc_leD le_trans)+
    with 2 k show ?thesis by (simp add: partial_buckets_def min_absorb2)
  next
    case 3
    have "Suc k < length ps" using k by simp
    with 3 have "Suc i \<le> ps ! k" "Suc i \<le> ps ! Suc k"
      using cuts_nth_le [OF assms(1), of "Suc j" k] cuts_nth_le [OF assms(1), of "Suc j" "Suc k"]
        assms(4) by (auto simp: Suc_le_eq)
    with 3 k show ?thesis by (simp add: partial_buckets_def min_absorb1)
  qed
qed (simp add: partial_buckets_def)

lemma reduce_loop_eq:
  assumes "chunk_ok c" and "keys_distinct (ckeys c)" and "cuts ps (length (cvalues c))"
    and "vals = drop i (cvalues c)" and "i \<le> length (cvalues c)"
    and "j < length ps - 1" and "i = 0 \<and> j = 0 \<or> ps ! j < i \<and> i \<le> ps ! Suc j"
  shows "reduce_loop (ckeys c) (tl (map ((!) (ckeys c)) ps)) i j
    (partial_buckets ps (cvalues c) i) vals = Some (buckets ps (cvalues c))"
  using assms(4-7)
proof (induction vals arbitrary: i j)
  case Nil
  then have "i = length (cvalues c)" by simp
  then show ?case by (simp only: reduce_loop.simps partial_buckets_all [OF assms(3)])
next
  case (Cons v vals)
  let ?vs = "cvalues c" and ?keys = "ckeys c"
  have i: "i < length ?vs" using Cons.prems(1) by (cases "i < length ?vs") auto
  have v: "v = ?vs ! i" "vals = drop (Suc i) ?vs"
    using Cons.prems(1) i by (auto simp flip: Cons_nth_drop_Suc)
  have klen: "length ?keys = length ?vs + 1" using assms(1) by (simp add: chunk_ok_def)
  have Sj: "Suc j < length ps" "ps ! Suc j \<le> length ?vs" "0 < ps ! Suc j"
    using Cons.prems(3) cuts_bound [OF assms(3), of "Suc j"] cuts_nth_less [OF assms(3), of 0 "Suc j"]
    by (auto simp: cuts_0 [OF assms(3)])
  define j' where "j' = (if i = ps ! Suc j then Suc j else j)"
  have top: "ps ! (length ps - 1) = length ?vs"
    using assms(3) by (auto simp: cuts_def last_conv_nth)
  have j': "j' < length ps - 1" "ps ! j' \<le> i" "i < ps ! Suc j'"
  proof -
    show a: "j' < length ps - 1"
      using Cons.prems(3) i top Sj by (cases "Suc j = length ps - 1") (auto simp: j'_def)
    show "ps ! j' \<le> i"
      using Cons.prems(4) cuts_0 [OF assms(3)] by (auto simp: j'_def)
    show "i < ps ! Suc j'"
      using Cons.prems(4) cuts_nth_less [OF assms(3), of "Suc j" "Suc (Suc j)"] a Sj
      by (auto simp: j'_def)
  qed
  have e: "idx (tl (map ((!) ?keys) ps)) j = Some (?keys ! (ps ! Suc j))"
    using Sj by (simp add: nth_tl)
  have step: "(if 0 < i then do {
             k \<leftarrow> idx ?keys i;
             e \<leftarrow> idx (tl (map ((!) ?keys) ps)) j;
             Some (if equal k e then j + 1 else j)
           } else Some j) = Some j'"
    using keys_distinct_equal [OF assms(2), of i "ps ! Suc j"] i klen Sj
    by (auto simp: e j'_def)
  have len: "j' < length (partial_buckets ps ?vs i)" using j' by (simp add: partial_buckets_def)
  have "reduce_loop ?keys (tl (map ((!) ?keys) ps)) i j (partial_buckets ps ?vs i) (v # vals)
    = reduce_loop ?keys (tl (map ((!) ?keys) ps)) (Suc i) j' (partial_buckets ps ?vs (Suc i)) vals"
    using len v(1) partial_buckets_Suc [OF assms(3) j']
    by (simp only: reduce_loop.simps step bind.bind_lunit idx_Some set_idx_Some Suc_eq_plus1)
  also have "\<dots> = Some (buckets ps ?vs)"
    using Cons.IH [of "Suc i" j'] i v j' by auto
  finally show ?case .
qed

lemma Reduce_coarsen:
  assumes "chunk_ok c" and "keys_distinct (ckeys c)" and "cuts ps (length (cvalues c))"
  shows "Reduce c (map ((!) (ckeys c)) ps) = Some (coarsen c ps)"
proof -
  let ?vs = "cvalues c" and ?keys = "ckeys c"
  have klen: "length ?keys = length ?vs + 1" "0 < length ?vs" "?keys \<noteq> []"
    using assms(1) by (auto simp: chunk_ok_def)
  have ps: "ps \<noteq> []" "2 \<le> length ps" "length ps \<le> length ?vs + 1"
    using assms(3) cuts_length [OF assms(3) klen(2)] cuts_max [OF assms(3)]
    by (auto simp: cuts_def)
  have "last ?keys = ?keys ! last ps" "?keys ! 0 = ?keys ! hd ps"
    using assms(3) klen by (auto simp: cuts_def last_conv_nth)
  then have check: "CheckReduceOf ?keys (map ((!) ?keys) ps) = Some ()"
    using klen ps by (simp add: CheckReduceOf_def last_map hd_conv_nth)
  show ?thesis
  proof (cases "length ps = length ?keys")
    case True
    then have full: "ps = [0..<length ?vs + 1]" using cuts_full [OF assms(3)] klen by simp
    have "partial_buckets ps ?vs (length ?vs) = ?vs"
      unfolding full by (intro nth_equalityI)
        (auto simp: partial_buckets_def seg_Suc simp del: upt_Suc)
    then have "buckets ps ?vs = ?vs" by (simp add: partial_buckets_all [OF assms(3)])
    with True check klen createChunk_coarsen [OF assms(1,3)] show ?thesis
      by (simp add: Reduce_def Let_def)
  next
    case False
    have "reduce_loop ?keys (tl (map ((!) ?keys) ps)) 0 0 (partial_buckets ps ?vs 0) ?vs
      = Some (buckets ps ?vs)"
      using ps by (intro reduce_loop_eq [OF assms(1-3)]) auto
    with False check createChunk_coarsen [OF assms(1,3)] show ?thesis
      by (simp add: Reduce_def Let_def partial_buckets_0)
  qed
qed

lemma axis_keys_distinct:
  assumes "axis_keys_ok keys" and "interned (set keys)"
  shows "keys_distinct keys"
proof -
  have *: "sval (keys ! a) \<noteq> sval (keys ! b)" if "0 < a" "a < b" "b < length keys" for a b
  proof (cases "b < sorted_len keys")
    case True
    then show ?thesis using axis_keys_less [OF assms(1) that(2)] by auto
  next
    case False
    with that have b: "b = length keys - 1" "sval (last keys) = ''''" "a < sorted_len keys"
      by (auto simp: sorted_len_def split: if_splits)
    have "sval (keys ! 0) < sval (keys ! a)" using axis_keys_less [OF assms(1) that(1) b(3)] .
    then have "sval (keys ! a) \<noteq> ''''" by auto
    moreover have "last keys = keys ! b" using b that by (subst last_conv_nth) auto
    ultimately show ?thesis using b by simp
  qed
  have "distinct (map sval (tl keys))"
    unfolding distinct_conv_nth
  proof (intro allI impI)
    fix i j assume ij: "i < length (map sval (tl keys))" "j < length (map sval (tl keys))" "i \<noteq> j"
    then show "map sval (tl keys) ! i \<noteq> map sval (tl keys) ! j"
      using * [of "Suc i" "Suc j"] * [of "Suc j" "Suc i"] by (auto simp: nth_tl neq_iff)
  qed
  with assms(2) show ?thesis by (simp add: keys_distinct_def)
qed

end
