(* ===== verification/ChunkDivide.thy ===== *)
theory ChunkDivide
  imports ChunkProps
begin

text \<open>
  The binary search of \<open>Divide\<close>: it ends when the sum of the values stays below \<open>2 ^ 63\<close>,
  finds a threshold with at most two thirds of the target rows, and \<open>Focus\<close> with that
  threshold and the computed ratio stays below the target when no label border cuts in.
  Beyond \<open>2 ^ 63\<close> the midpoint wraps around, and a three-bucket chunk on which the search
  never ends is given.
\<close>

section \<open>The number of rows at a threshold above the sum\<close>

definition nat_sum :: "u64 list \<Rightarrow> nat" where
  "nat_sum vs = sum_list (map unat vs)"

lemma nat_sum_simps [simp]: "nat_sum [] = 0" "nat_sum (v # vs) = unat v + nat_sum vs"
  by (simp_all add: nat_sum_def)

lemma unat_sum_list: "nat_sum vs < 2 ^ 64 \<Longrightarrow> unat (sum_list vs) = nat_sum vs"
proof (induction vs)
  case (Cons v vs)
  then have "unat (sum_list vs) = nat_sum vs" by simp
  then show ?case using Cons.prems by (simp add: unat_word_ariths)
qed simp

lemma rows_loop_quiet:
  assumes "unat (r_sum st) + nat_sum vs < unat t"
  shows "r_count (rows_loop t i st vs) = r_count st \<and> r_start (rows_loop t i st vs) = r_start st"
  using assms
proof (induction vs arbitrary: i st)
  case (Cons v vs)
  have "unat (r_sum st) + unat v < 2 ^ 64" using Cons.prems unat64_less [of t] by simp
  then have "unat (r_sum st + v) = unat (r_sum st) + unat v" by (rule unat_add_small)
  moreover have "\<not> t \<le> v" "\<not> t \<le> r_sum st" using Cons.prems by (auto simp: word_le_nat_alt)
  ultimately show ?case using Cons by simp
qed simp

lemma GetFocusRows_above_sum:
  assumes "nat_sum (cvalues c) < unat t" and "cvalues c \<noteq> []"
  shows "GetFocusRows c t = 1"
  using rows_loop_quiet [of "\<lparr>r_count = 0, r_start = 0, r_sum = 0\<rparr>" "cvalues c" t 0] assms
  by (simp add: GetFocusRows_def rows_generateBucket_def Let_def)

section \<open>Termination of the search\<close>

lemma divide_search_returns:
  assumes "unat u < 2 ^ 63" and "int (rows u) \<le> T" and "l \<le> u"
  shows "\<exists>r. divide_search rows T l u = Some r \<and> int (rows r) \<le> T \<and> l \<le> r \<and> r \<le> u"
  using assms
proof (induction "unat u - unat l" arbitrary: l u rule: less_induct)
  case less
  show ?case
  proof (cases "l < u")
    case True
    define mid where "mid = drop_bit 1 (l + u)"
    have "unat l + unat u < 2 ^ 64"
      using less.prems(1) True by (simp add: word_less_nat_alt)
    then have "unat (l + u) = unat l + unat u" by (rule unat_add_small)
    then have mid: "unat mid = (unat l + unat u) div 2"
      by (simp only: mid_def unat_drop_bit_eq) (simp add: drop_bit_Suc)
    have mid_le: "l \<le> mid" "mid < u"
      using True by (auto simp: word_le_nat_alt word_less_nat_alt mid)
    have mid1: "unat (mid + 1) = unat mid + 1"
      using mid_le(2) less.prems(1) unat_add_small [of mid 1] by (simp add: word_less_nat_alt)
    show ?thesis
    proof (cases "T < int (rows mid)")
      case gt: True
      have le: "mid + 1 \<le> u" using mid_le(2) mid1 by (simp add: word_le_nat_alt word_less_nat_alt)
      have dec: "unat u - unat (mid + 1) < unat u - unat l"
        using mid_le mid1 by (simp add: word_le_nat_alt word_less_nat_alt)
      obtain r where "divide_search rows T (mid + 1) u = Some r" "int (rows r) \<le> T"
        "mid + 1 \<le> r" "r \<le> u"
        using less.hyps [OF dec less.prems(1,2) le] by blast
      moreover have "l \<le> mid + 1" using mid_le(1) mid1 by (simp add: word_le_nat_alt)
      ultimately show ?thesis
        using True gt by (subst divide_search.simps) (auto simp: Let_def mid_def)
    next
      case le: False
      have dec: "unat mid - unat l < unat u - unat l"
        using mid_le True by (simp add: word_le_nat_alt word_less_nat_alt)
      have "unat mid < 2 ^ 63" using mid_le less.prems(1) by (simp add: word_less_nat_alt)
      then obtain r where "divide_search rows T l mid = Some r" "int (rows r) \<le> T"
        "l \<le> r" "r \<le> mid"
        using less.hyps [OF dec _ _ mid_le(1)] le by auto
      then show ?thesis
        using True le mid_le by (subst divide_search.simps) (auto simp: Let_def mid_def)
    qed
  next
    case False
    with less.prems have "l = u" by simp
    then show ?thesis
      using less.prems by (subst divide_search.simps) simp
  qed
qed

text \<open>
  What \<open>Divide\<close> computes before it calls \<open>Focus\<close>: for a target of at least two rows, a
  threshold whose focus rows stay below the target, and a positive ratio.
\<close>

lemma Divide_eq_Focus:
  assumes "chunk_ok c" and "2 \<le> target" and "target < int (length (cvalues c))"
    and "nat_sum (cvalues c) + 1 < 2 ^ 63"
  obtains threshold where
    "Divide cb c target mode = Focus cb c threshold
       (int (length (cvalues c)) div (target - int (GetFocusRows c threshold)) + 1) target mode"
    and "int (GetFocusRows c threshold) < target" and "threshold \<noteq> 0"
proof -
  let ?vs = "cvalues c"
  define T where "T = target * 2 div 3"
  have sum: "unat (sum_list ?vs) = nat_sum ?vs" using assms(4) by (intro unat_sum_list) simp
  have u: "unat (1 + sum_list ?vs) = nat_sum ?vs + 1"
    using assms(4) sum unat_add_small [of 1 "sum_list ?vs"] by simp
  have "GetFocusRows c (1 + sum_list ?vs) = 1"
    using u assms(1,2,3) by (intro GetFocusRows_above_sum) auto
  then have top: "int (GetFocusRows c (1 + sum_list ?vs)) \<le> T" using assms(2) by (simp add: T_def)
  have "(1::u64) \<le> 1 + sum_list ?vs" using u by (simp add: word_le_nat_alt)
  then obtain r where r: "divide_search (GetFocusRows c) T 1 (1 + sum_list ?vs) = Some r"
    "int (GetFocusRows c r) \<le> T" "1 \<le> r"
    using divide_search_returns [where rows = "GetFocusRows c", OF _ top, of 1] u assms(4) by auto
  have lt: "int (GetFocusRows c r) < target" using r(2) assms(2) by (simp add: T_def)
  have T: "go_div (target * 2) 3 = Some T"
    using go_div_nat [of 3 "nat (target * 2)"] assms(2) by (simp add: T_def)
  have q: "go_div (int (length ?vs)) (target - int (GetFocusRows c r))
      = Some (int (length ?vs) div (target - int (GetFocusRows c r)))"
    using lt by (intro go_div_nat) simp
  have "Divide cb c target mode = Focus cb c r
       (int (length ?vs) div (target - int (GetFocusRows c r)) + 1) target mode"
    using assms(3) by (simp add: Divide_def T r(1) q Let_def)
  moreover have "r \<noteq> 0" using r(3) by auto
  ultimately show thesis using that lt by blast
qed

lemma cuts_all: "0 < n \<Longrightarrow> cuts [0..<n + 1] n"
  by (simp add: cuts_def hd_append sorted_wrt_append)

lemma buckets_all: "buckets [0..<length vs + 1] vs = vs"
  by (intro nth_equalityI) (simp_all add: nth_buckets seg_Suc del: upt_Suc)

lemma coarsen_all: "chunk_ok c \<Longrightarrow> coarsen c [0..<length (cvalues c) + 1] = c"
proof -
  assume ok: "chunk_ok c"
  have "map ((!) (ckeys c)) [0..<length (ckeys c)] = ckeys c" by (simp add: map_nth)
  then show ?thesis
    using ok unfolding coarsen_def buckets_all chunk_ok_def by simp
qed

lemma Divide_coarsen:
  assumes "chunk_ok c" and "2 \<le> target" and "nat_sum (cvalues c) + 1 < 2 ^ 63"
  shows "\<exists>ps. cuts ps (length (cvalues c)) \<and> Divide cb c target mode = Some (coarsen c ps)"
proof (cases "int (length (cvalues c)) \<le> target")
  case True
  have "0 < length (cvalues c)" using assms(1) by (cases "cvalues c") (auto simp: chunk_ok_def)
  then have "cuts [0..<length (cvalues c) + 1] (length (cvalues c))" by (rule cuts_all)
  moreover have "Divide cb c target mode = Some (coarsen c [0..<length (cvalues c) + 1])"
    using True by (simp only: coarsen_all [OF assms(1)]) (simp add: Divide_def)
  ultimately show ?thesis by blast
next
  case False
  then obtain threshold ratio where "Divide cb c target mode = Focus cb c threshold ratio target mode"
    using Divide_eq_Focus [OF assms(1,2) _ assms(3)] by (metis not_less)
  then show ?thesis using Focus_coarsen [OF assms(1), of target] assms(2) by simp
qed

section \<open>The number of rows\<close>

text \<open>
  \<open>Focus\<close> without label borders against \<open>GetFocusRows\<close> at the same threshold: every bucket
  of \<open>Focus\<close> is closed either by the threshold, and there are no more of those than
  \<open>GetFocusRows\<close> counts, or by the ratio, and each of those spans \<open>ratio\<close> buckets.
\<close>

definition rows_inv :: "nat \<Rightarrow> nat \<Rightarrow> nat \<Rightarrow> nat \<Rightarrow> focus_state \<Rightarrow> rows_state \<Rightarrow> bool" where
  "rows_inv tot ratio i rest F G \<longleftrightarrow> (\<exists>a b. length (f_values F) = a + b \<and> b * ratio \<le> f_start F \<and>
     a \<le> r_count G \<and> (a = r_count G \<longrightarrow> f_sum F \<le> r_sum G) \<and>
     (i = 0 \<longrightarrow> f_start F = 0 \<and> r_start G = 0) \<and> (0 < i \<longrightarrow> f_start F < i \<and> r_start G < i) \<and>
     unat (r_sum G) + rest \<le> tot)"

lemma rows_inv_step:
  assumes inv: "rows_inv tot ratio i (unat v + rest) F G" and i: "i < length keys"
    and ratio: "0 < ratio" and tot: "tot < 2 ^ 64" and t: "t \<noteq> 0"
    and F1: "(if focus_cut (\<lambda>_ _. False) keys t (int ratio) i F v
       then focus_generateBucket keys i F else Some F) = Some F1"
  defines "G1 \<equiv> (if t \<le> v \<or> t \<le> r_sum G then rows_generateBucket i G else G)"
  shows "rows_inv tot ratio (Suc i) rest (F1\<lparr>f_sum := f_sum F1 + v\<rparr>) (G1\<lparr>r_sum := r_sum G1 + v\<rparr>)"
proof -
  obtain a b where ab: "length (f_values F) = a + b" "b * ratio \<le> f_start F" "a \<le> r_count G"
    "a = r_count G \<longrightarrow> f_sum F \<le> r_sum G" "i = 0 \<longrightarrow> f_start F = 0 \<and> r_start G = 0"
    "0 < i \<longrightarrow> f_start F < i \<and> r_start G < i" "unat (r_sum G) + (unat v + rest) \<le> tot"
    using inv by (auto simp: rows_inv_def)
  have add_G: "unat (r_sum G + v) = unat (r_sum G) + unat v"
    using ab(7) tot by (intro unat_add_small) simp
  have mono: "x \<le> r_sum G \<Longrightarrow> x + v \<le> r_sum G + v" for x
    using add_G ab(7) tot unat_add_small [of x v] by (simp add: word_le_nat_alt)
  have le_add: "v \<le> r_sum G + v" by (simp add: word_le_nat_alt add_G)
  show ?thesis
  proof (cases "i = 0")
    case True
    then have "F1 = F" "G1 = G" using F1 ab(5)
      by (auto simp: focus_generateBucket_def rows_generateBucket_def G1_def split: if_splits)
    then show ?thesis
      unfolding rows_inv_def using ab True mono add_G
      by (intro exI [of _ a] exI [of _ b]) auto
  next
    case False
    then have lt: "f_start F < i" "r_start G < i" using ab(6) by auto
    let ?cut = "F\<lparr>f_keys := f_keys F @ [keys ! i], f_values := f_values F @ [f_sum F],
      f_start := i, f_sum := 0\<rparr>"
    have gen: "focus_generateBucket keys i F = Some ?cut"
      using lt i by (simp add: focus_generateBucket_def)
    have G1: "G1 = (if t \<le> v \<or> t \<le> r_sum G
      then G\<lparr>r_count := r_count G + 1, r_start := i, r_sum := 0\<rparr> else G)"
      using lt by (simp add: G1_def rows_generateBucket_def)
    consider (thr) "t \<le> v \<or> t \<le> f_sum F" | (rat) "\<not> (t \<le> v \<or> t \<le> f_sum F)" "int ratio \<le> int i - int (f_start F)"
      | (none) "\<not> focus_cut (\<lambda>_ _. False) keys t (int ratio) i F v"
      by (auto simp: focus_cut_def)
    then show ?thesis
    proof cases
      case thr
      then have "F1 = ?cut" using F1 gen by (auto simp: focus_cut_def)
      moreover have "a + 1 \<le> r_count G1"
      proof (cases "a = r_count G")
        case True
        then have "t \<le> v \<or> t \<le> r_sum G" using thr ab(4) by auto
        with True show ?thesis by (simp add: G1)
      qed (use ab(3) in \<open>auto simp: G1\<close>)
      moreover have "v \<le> r_sum G1 + v" using le_add by (simp add: G1)
      moreover have "b * ratio \<le> i" using ab(2) lt by simp
      ultimately show ?thesis
        unfolding rows_inv_def using ab lt add_G
        by (intro exI [of _ "a + 1"] exI [of _ b]) (auto simp: G1)
    next
      case rat
      then have "F1 = ?cut" using F1 gen by (auto simp: focus_cut_def)
      moreover have "(b + 1) * ratio \<le> i" using rat(2) ab(2) by simp
      moreover have "v \<le> r_sum G1 + v" using le_add by (simp add: G1)
      ultimately show ?thesis
        unfolding rows_inv_def using ab lt add_G
        by (intro exI [of _ a] exI [of _ "b + 1"]) (auto simp: G1)
    next
      case none
      then have "F1 = F" using F1 by simp
      then show ?thesis
        unfolding rows_inv_def using ab lt add_G mono
        by (intro exI [of _ a] exI [of _ b]) (auto simp: G1)
    qed
  qed
qed

lemma rows_inv_loop:
  assumes "rows_inv tot ratio i (nat_sum vals) F G" and "i + length vals < length keys"
    and "0 < ratio" and "tot < 2 ^ 64" and "t \<noteq> 0"
    and "focus_loop (\<lambda>_ _. False) keys t (int ratio) i F vals = Some F'" and "focus_inv c i F"
    and "ckeys c = keys" and "vals = drop i (cvalues c)"
  shows "rows_inv tot ratio (i + length vals) 0 F' (rows_loop t i G vals)"
  using assms
proof (induction vals arbitrary: i F G)
  case (Cons v vals)
  have i: "i < length keys" "i < length (cvalues c)"
    using Cons.prems(2,9) by (auto, cases "i < length (cvalues c)") auto
  have v: "v = cvalues c ! i" "vals = drop (Suc i) (cvalues c)"
    using Cons.prems(9) i by (auto simp flip: Cons_nth_drop_Suc)
  obtain F1 where F1: "(if focus_cut (\<lambda>_ _. False) keys t (int ratio) i F v
       then focus_generateBucket keys i F else Some F) = Some F1" "focus_inv c i F1"
    using focus_inv_cut [OF Cons.prems(7), unfolded Cons.prems(8), OF i(1)] Cons.prems(7)
    by (cases "focus_cut (\<lambda>_ _. False) keys t (int ratio) i F v") auto
  have loop: "focus_loop (\<lambda>_ _. False) keys t (int ratio) (Suc i) (F1\<lparr>f_sum := f_sum F1 + v\<rparr>) vals
      = Some F'"
    using Cons.prems(6) focus_loop_step [OF Cons.prems(7), unfolded Cons.prems(8), OF i(1),
        of "\<lambda>_ _. False" t "int ratio" v vals]
    by (simp only: F1(1) bind.bind_lunit Suc_eq_plus1)
  have inv: "focus_inv c (Suc i) (F1\<lparr>f_sum := f_sum F1 + v\<rparr>)"
    using focus_inv_step [OF F1(2) i(2)] v by simp
  let ?G1 = "if t \<le> v \<or> t \<le> r_sum G then rows_generateBucket i G else G"
  have "rows_inv tot ratio (Suc i) (nat_sum vals) (F1\<lparr>f_sum := f_sum F1 + v\<rparr>)
      (?G1\<lparr>r_sum := r_sum ?G1 + v\<rparr>)"
    using Cons.prems(1,3,4,5) i(1) F1(1) by (intro rows_inv_step) auto
  from Cons.IH [OF this _ Cons.prems(3-5) loop inv Cons.prems(8) v(2)] Cons.prems(2)
  show ?case by (simp add: Let_def)
qed simp

lemma Focus_rows:
  assumes "chunk_ok c" and "nat_sum (cvalues c) < 2 ^ 64" and "threshold \<noteq> 0" and "0 \<le> target"
    and "0 < d" and "int (GetFocusRows c threshold) + int d \<le> target"
  shows "\<exists>c'. Focus (\<lambda>_ _. False) c threshold (int (length (cvalues c)) div int d + 1) target mode = Some c' \<and>
    int (length (cvalues c')) < target"
proof -
  let ?n = "length (cvalues c)" and ?cb = "\<lambda>_ _. False"
  define ratio where "ratio = ?n div d + 1"
  have ratio: "int ?n div int d + 1 = int ratio" by (simp add: ratio_def zdiv_int)
  let ?F0 = "\<lparr>f_keys = [ckeys c ! 0], f_values = [], f_start = 0, f_sum = 0\<rparr>"
  let ?G0 = "\<lparr>r_count = 0, r_start = 0, r_sum = 0\<rparr>"
  let ?G = "rows_loop threshold 0 ?G0 (cvalues c)"
  have ne: "ckeys c \<noteq> []" "?n < length (ckeys c)" "0 < ?n"
    using assms(1) by (cases "cvalues c"; auto simp: chunk_ok_def)+
  obtain F where F: "focus_loop ?cb (ckeys c) threshold (int ratio) 0 ?F0 (cvalues c) = Some F"
    using focus_loop_inv [OF focus_inv_init [OF ne(1)] assms(1), of "cvalues c" ?cb threshold
        "int ratio"] by auto
  have "rows_inv (nat_sum (cvalues c)) ratio (0 + ?n) 0 F ?G"
    using ne assms(2,3) focus_inv_init [OF ne(1)]
    by (intro rows_inv_loop [OF _ _ _ _ _ F])
      (auto simp: rows_inv_def ratio_def intro!: exI [of _ 0])
  then obtain a b where ab: "length (f_values F) = a + b" "b * ratio \<le> f_start F"
    "a \<le> r_count ?G" "f_start F < ?n" "r_start ?G < ?n"
    using ne(3) by (auto simp: rows_inv_def)
  have G: "GetFocusRows c threshold = r_count ?G + 1"
    using ab(5) by (simp add: GetFocusRows_def rows_generateBucket_def Let_def)
  have "b < d"
  proof (rule ccontr)
    assume "\<not> b < d"
    then have "d * ratio \<le> b * ratio" by simp
    moreover have "?n < d * ratio"
      using assms(5) by (simp add: ratio_def distrib_left dividend_less_times_div)
    ultimately show False using ab(2,4) by linarith
  qed
  then have small: "int (a + b + 1) < target" using ab(3) G assms(6) by linarith
  obtain st ps where st:
    "focus_loop ?cb (ckeys c) threshold (int ratio) 0 ?F0 (cvalues c) \<bind>
     focus_generateBucket (ckeys c) ?n = Some st"
    and ps: "cuts ps ?n" "f_keys st = map ((!) (ckeys c)) ps" "f_values st = buckets ps (cvalues c)"
    using Focus_state [OF assms(1)] by blast
  have len: "length (f_values st) = a + b + 1"
    using st F ab(1,4) ne by (auto simp: focus_generateBucket_def)
  have "Focus ?cb c threshold (int ratio) target mode = Some (coarsen c ps)"
    using F st len small ps createChunk_coarsen [OF assms(1) ps(1)] assms(4) ne(1)
    by (simp add: Focus_def)
  moreover have "length (cvalues (coarsen c ps)) = a + b + 1"
    using len ps by (simp add: coarsen_def)
  ultimately show ?thesis using small by (simp add: ratio)
qed

lemma Divide_rows:
  assumes "chunk_ok c" and "2 \<le> target" and "nat_sum (cvalues c) + 1 < 2 ^ 63"
  shows "\<exists>ps. cuts ps (length (cvalues c)) \<and>
    Divide (\<lambda>_ _. False) c target mode = Some (coarsen c ps) \<and> int (length ps) - 1 \<le> target"
proof -
  obtain ps where ps: "cuts ps (length (cvalues c))"
    "Divide (\<lambda>_ _. False) c target mode = Some (coarsen c ps)"
    using Divide_coarsen [OF assms] by blast
  have len: "int (length (cvalues (coarsen c ps))) = int (length ps) - 1"
    using ps(1) by (cases ps) (auto simp: coarsen_def cuts_def)
  have "int (length (cvalues (coarsen c ps))) \<le> target"
  proof (cases "int (length (cvalues c)) \<le> target")
    case True
    with ps(2) have "coarsen c ps = c" by (simp add: Divide_def)
    with True show ?thesis by simp
  next
    case False
    then obtain t where t: "Divide (\<lambda>_ _. False) c target mode = Focus (\<lambda>_ _. False) c t
       (int (length (cvalues c)) div (target - int (GetFocusRows c t)) + 1) target mode"
      "int (GetFocusRows c t) < target" "t \<noteq> 0"
      using Divide_eq_Focus [OF assms(1,2) _ assms(3), of "\<lambda>_ _. False" mode] by auto
    define d where "d = nat (target - int (GetFocusRows c t))"
    have d: "0 < d" "int d = target - int (GetFocusRows c t)" using t(2) by (auto simp: d_def)
    obtain c' where "Focus (\<lambda>_ _. False) c t (int (length (cvalues c)) div int d + 1) target mode = Some c'"
      "int (length (cvalues c')) < target"
      using Focus_rows [OF assms(1) _ t(3) _ d(1), of target mode] d(2) assms(2,3) by auto
    then show ?thesis using t(1) ps(2) d(2) by simp
  qed
  then show ?thesis using ps len by auto
qed

text \<open>
  C9: when no label border cuts in and the sum of the values stays below \<open>2 ^ 63 - 1\<close>,
  \<open>Divide\<close> to a target of at least two rows returns a chunk of at most \<open>target\<close> rows whose
  keys are keys of the chunk and whose values are the sums of the buckets between them.
\<close>

theorem Divide_bound:
  assumes "chunk_ok c" and "2 \<le> target" and "nat_sum (cvalues c) + 1 < 2 ^ 63"
  shows "\<exists>ps. cuts ps (length (cvalues c)) \<and>
    Divide (\<lambda>_ _. False) c target mode = Some (coarsen c ps) \<and> int (length ps) - 1 \<le> target"
  by (rule Divide_rows [OF assms])

definition demo_chunk :: chunk where
  "demo_chunk = \<lparr>ckeys = map (GoStr 1) [''a'', ''b'', ''c'', ''d'', ''e''],
     cvalues = [1, 7, 1, 1]\<rparr>"

theorem Divide_bound_witness:
  "\<exists>ps. cuts ps 4 \<and> Divide (\<lambda>_ _. False) demo_chunk 3 NotMergeLogicalRange = Some (coarsen demo_chunk ps) \<and>
    int (length ps) - 1 \<le> 3"
proof -
  have "chunk_ok demo_chunk" "nat_sum (cvalues demo_chunk) + 1 < 2 ^ 63"
    by (simp_all add: demo_chunk_def chunk_ok_def nat_sum_def)
  moreover have "length (cvalues demo_chunk) = 4" by (simp add: demo_chunk_def)
  ultimately show ?thesis using Divide_bound [of demo_chunk 3 NotMergeLogicalRange] by simp
qed

section \<open>Overflow\<close>

definition overflow_chunk :: chunk where
  "overflow_chunk = \<lparr>ckeys = map (GoStr 1) [''a'', ''b'', ''c'', ''d''],
     cvalues = [2 ^ 63, 2 ^ 63, 2 ^ 63]\<rparr>"

lemma overflow_rows: "t \<le> 2 ^ 63 \<Longrightarrow> GetFocusRows overflow_chunk t = 3"
  by (simp add: GetFocusRows_def overflow_chunk_def rows_generateBucket_def Let_def)

lemma overflow_mid:
  assumes "1 \<le> (l::u64)" and "l \<le> 2 ^ 63"
  shows "drop_bit 1 (l + (2 ^ 63 + 1)) + 1 \<le> 2 ^ 63"
    and "1 \<le> drop_bit 1 (l + (2 ^ 63 + 1)) + 1"
    and "drop_bit 1 (l + (2 ^ 63 + 1)) \<le> 2 ^ 63"
proof -
  let ?m = "drop_bit 1 (l + (2 ^ 63 + 1))"
  have "unat ?m = unat (l + (2 ^ 63 + 1)) div 2"
    by (simp only: unat_drop_bit_eq) (simp add: drop_bit_Suc)
  moreover have "unat (l + (2 ^ 63 + 1)) < 2 ^ 64" by (rule unat64_less)
  ultimately have "unat ?m \<le> 2 ^ 63 - 1" by simp
  then have "unat (?m + 1) = unat ?m + 1" "unat ?m + 1 \<le> 2 ^ 63"
    using unat_add_small [of ?m 1] by auto
  then show "?m + 1 \<le> 2 ^ 63" "1 \<le> ?m + 1" "?m \<le> 2 ^ 63"
    by (simp_all add: word_le_nat_alt)
qed

lemma overflow_search:
  "divide_search rows T l u = Some r \<Longrightarrow>
   \<not> (rows = GetFocusRows overflow_chunk \<and> T = 1 \<and> u = 2 ^ 63 + 1 \<and> 1 \<le> l \<and> l \<le> 2 ^ 63)"
proof (induction rule: divide_search.raw_induct [rotated, consumes 1, case_names step])
  case (step search rows T l u r)
  show ?case
  proof
    assume *: "rows = GetFocusRows overflow_chunk \<and> T = 1 \<and> u = 2 ^ 63 + 1 \<and> 1 \<le> l \<and> l \<le> 2 ^ 63"
    let ?m = "drop_bit 1 (l + u)"
    have m: "?m + 1 \<le> 2 ^ 63" "1 \<le> ?m + 1" using overflow_mid [of l] * by auto
    have "?m \<le> 2 ^ 63" using overflow_mid(3) [of l] * by auto
    then have rows: "rows ?m = 3" using * overflow_rows by simp
    have "l < u" using * by (auto simp: word_less_nat_alt word_le_nat_alt)
    then have "search rows T (?m + 1) u = Some r"
      using step(2) rows * by (simp add: Let_def)
    then show False using step(1) * m by blast
  qed
qed

text \<open>
  The search of \<open>Divide\<close> does not end on three buckets of \<open>2 ^ 63\<close> each: the sum of the
  bounds wraps around and the lower bound starts again from below.
\<close>

theorem Divide_overflow_loops:
  "divide_search (GetFocusRows overflow_chunk) 1 1 (1 + sum_list (cvalues overflow_chunk)) = None \<and>
   Divide cb overflow_chunk 2 mode = None"
proof -
  have u: "1 + sum_list (cvalues overflow_chunk) = 2 ^ 63 + 1" by (simp add: overflow_chunk_def)
  have none: "divide_search (GetFocusRows overflow_chunk) 1 1 (2 ^ 63 + 1) = None"
    using overflow_search [of "GetFocusRows overflow_chunk" 1 1 "2 ^ 63 + 1"]
    by (cases "divide_search (GetFocusRows overflow_chunk) 1 1 (2 ^ 63 + 1)") auto
  have "go_div (2 * 2) 3 = Some 1" by (simp add: go_div_def)
  then show ?thesis
    using none u by (simp add: Divide_def Let_def) (simp add: overflow_chunk_def)
qed

end
