(* ===== verification/MatrixAxis.thy ===== *)
theory MatrixAxis
  imports ChunkDivide
begin

text \<open>
  The \<open>Axis\<close> of \<open>pkg/keyvisual/matrix/axis.go\<close>: one key axis with several columns of
  values, of which the first is the base column. \<open>Focus\<close> and \<open>Divide\<close> partition the base
  column and then reduce the other columns to the same keys; they are proved to re-bucket
  all columns by the same cuts. \<open>Range\<close> is total on well-formed axes.
\<close>

record Axis =
  Keys :: "gostr list"
  ValuesList :: "u64 list list"

definition CreateAxis :: "gostr list \<Rightarrow> u64 list list \<Rightarrow> Axis option" where
  "CreateAxis keys valuesList =
     (let keysLen = length keys in
      if keysLen \<le> 1 then None
      else if length valuesList = 0 then None
      else if \<exists>values\<in>set valuesList. keysLen \<noteq> length values + 1 then None
      else Some \<lparr>Keys = keys, ValuesList = valuesList\<rparr>)"

definition CreateEmptyAxis :: "gostr \<Rightarrow> gostr \<Rightarrow> nat \<Rightarrow> Axis option" where
  "CreateEmptyAxis startKey endKey valuesListLen =
     CreateAxis [startKey, endKey] (replicate valuesListLen [0])"

text \<open>\<open>Shrink\<close> divides in place; Go panics on a zero divisor once there is a value.\<close>

definition Shrink :: "Axis \<Rightarrow> u64 \<Rightarrow> Axis option" where
  "Shrink axis ratio =
     (if ratio = 0 \<and> (\<exists>vs\<in>set (ValuesList axis). vs \<noteq> []) then None
      else Some (axis\<lparr>ValuesList := map (map (\<lambda>v. v div ratio)) (ValuesList axis)\<rparr>))"

definition Axis_Range :: "Axis \<Rightarrow> gostr \<Rightarrow> gostr \<Rightarrow> Axis option" where
  "Axis_Range axis startKey endKey = do {
     r \<leftarrow> KeysRange (Keys axis) (sval startKey) (sval endKey);
     case r of
       None \<Rightarrow> CreateEmptyAxis startKey endKey (length (ValuesList axis))
     | Some (start, end) \<Rightarrow> do {
         keys \<leftarrow> go_slice (Keys axis) start end;
         valuesList \<leftarrow> those_columns (\<lambda>vs. go_slice vs start (end - 1)) (ValuesList axis);
         CreateAxis keys valuesList
       }
   }"

text \<open>
  The part that \<open>Focus\<close> and \<open>Divide\<close> of an axis share: after the base column has been
  partitioned into \<open>newChunk\<close>, the other columns are reduced to its keys.
\<close>

definition reduce_column :: "chunk \<Rightarrow> gostr list \<Rightarrow> u64 list \<Rightarrow> u64 list option" where
  "reduce_column baseChunk newKeys column = do {
     baseChunk \<leftarrow> SetValues baseChunk column;
     c \<leftarrow> Reduce baseChunk newKeys;
     Some (cvalues c)
   }"

definition Axis_Focus :: "cross_border \<Rightarrow> Axis \<Rightarrow> u64 \<Rightarrow> int \<Rightarrow> int \<Rightarrow> Axis option" where
  "Axis_Focus cb axis threshold ratio target =
     (if int (length (Keys axis)) - 1 \<le> target then Some axis else do {
        base \<leftarrow> idx (ValuesList axis) 0;
        baseChunk \<leftarrow> createChunk (Keys axis) base;
        newChunk \<leftarrow> Focus cb baseChunk threshold ratio target MergeColdLogicalRange_mode;
        rest \<leftarrow> those_columns (reduce_column baseChunk (ckeys newChunk)) (tl (ValuesList axis));
        CreateAxis (ckeys newChunk) (cvalues newChunk # rest)
      })"

definition Axis_Divide :: "cross_border \<Rightarrow> Axis \<Rightarrow> int \<Rightarrow> Axis option" where
  "Axis_Divide cb axis target =
     (if int (length (Keys axis)) - 1 \<le> target then Some axis else do {
        base \<leftarrow> idx (ValuesList axis) 0;
        baseChunk \<leftarrow> createChunk (Keys axis) base;
        newChunk \<leftarrow> Divide cb baseChunk target MergeColdLogicalRange_mode;
        rest \<leftarrow> those_columns (reduce_column baseChunk (ckeys newChunk)) (tl (ValuesList axis));
        CreateAxis (ckeys newChunk) (cvalues newChunk # rest)
      })"

section \<open>Well-formed axes\<close>

definition axis_ok :: "Axis \<Rightarrow> bool" where
  "axis_ok axis \<longleftrightarrow> 2 \<le> length (Keys axis) \<and> ValuesList axis \<noteq> [] \<and>
     (\<forall>vs\<in>set (ValuesList axis). length (Keys axis) = length vs + 1)"

definition axis_coarsen :: "Axis \<Rightarrow> nat list \<Rightarrow> Axis" where
  "axis_coarsen axis ps =
     \<lparr>Keys = map ((!) (Keys axis)) ps, ValuesList = map (buckets ps) (ValuesList axis)\<rparr>"

lemma CreateAxis_Some_iff:
  "CreateAxis keys valuesList = Some axis \<longleftrightarrow>
   axis_ok axis \<and> Keys axis = keys \<and> ValuesList axis = valuesList"
  by (cases axis) (auto simp: CreateAxis_def axis_ok_def Let_def)

lemma CreateAxis_ok: "axis_ok axis \<Longrightarrow> CreateAxis (Keys axis) (ValuesList axis) = Some axis"
  by (simp add: CreateAxis_Some_iff)

lemma axis_ok_columns:
  "axis_ok axis \<Longrightarrow> vs \<in> set (ValuesList axis) \<Longrightarrow> chunk_ok \<lparr>ckeys = Keys axis, cvalues = vs\<rparr>"
  by (auto simp: axis_ok_def chunk_ok_def)

lemma CreateEmptyAxis_ok:
  "0 < n \<Longrightarrow> \<exists>axis. CreateEmptyAxis s e n = Some axis \<and> axis_ok axis \<and> length (ValuesList axis) = n"
  by (simp add: CreateEmptyAxis_def CreateAxis_def axis_ok_def Let_def)

lemma Shrink_ok:
  "axis_ok axis \<Longrightarrow> ratio \<noteq> 0 \<Longrightarrow>
   \<exists>axis'. Shrink axis ratio = Some axis' \<and> axis_ok axis' \<and> Keys axis' = Keys axis \<and>
     length (ValuesList axis') = length (ValuesList axis)"
  by (auto simp: Shrink_def axis_ok_def)

section \<open>Range\<close>

lemma Axis_Range_spec:
  assumes "axis_ok axis" and "axis_keys_ok (Keys axis)"
    and "sval endKey = '''' \<or> sval startKey < sval endKey"
  shows "\<exists>axis'. Axis_Range axis startKey endKey = Some axis' \<and> axis_ok axis' \<and>
    length (ValuesList axis') = length (ValuesList axis) \<and>
    (if \<exists>i < length (Keys axis) - 1. bucket_meets (Keys axis) i (sval startKey) (sval endKey)
     then \<exists>a b. (\<forall>i < length (Keys axis) - 1.
            bucket_meets (Keys axis) i (sval startKey) (sval endKey) \<longleftrightarrow> a \<le> i \<and> i < b) \<and>
          Keys axis' = take (b + 1 - a) (drop a (Keys axis)) \<and>
          ValuesList axis' = map (\<lambda>vs. take (b - a) (drop a vs)) (ValuesList axis)
     else Keys axis' = [startKey, endKey] \<and> (\<forall>vs\<in>set (ValuesList axis'). vs = [0]))"
proof (cases "KeysRange (Keys axis) (sval startKey) (sval endKey)")
  case None
  then show ?thesis using KeysRange_spec [OF assms(2,3)] by simp
next
  case (Some r)
  note spec = KeysRange_spec [OF assms(2,3), unfolded Some, simplified]
  show ?thesis
  proof (cases r)
    case None
    with Some spec assms(1) show ?thesis
      by (auto simp: Axis_Range_def CreateEmptyAxis_def CreateAxis_def axis_ok_def Let_def)
  next
    case r: (Some ab)
    obtain a e where ab: "ab = (a, e)" by fastforce
    have b: "a + 2 \<le> e" "e \<le> length (Keys axis)"
      and meets: "\<And>i. i < length (Keys axis) - 1 \<Longrightarrow>
        bucket_meets (Keys axis) i (sval startKey) (sval endKey) \<longleftrightarrow> a \<le> i \<and> i + 1 < e"
      using spec r ab by auto
    define axis' where "axis' = \<lparr>Keys = take (e - a) (drop a (Keys axis)),
      ValuesList = map (\<lambda>vs. take (e - 1 - a) (drop a vs)) (ValuesList axis)\<rparr>"
    have ok: "axis_ok axis'" using assms(1) b by (auto simp: axis'_def axis_ok_def)
    have cols: "those_columns (\<lambda>vs. go_slice vs a (e - 1)) (ValuesList axis)
      = Some (ValuesList axis')"
      unfolding axis'_def Axis.simps using assms(1) b
      by (intro those_columns_Some) (auto simp: axis_ok_def)
    have "Axis_Range axis startKey endKey = Some axis'"
      using Some r ab b cols CreateAxis_ok [OF ok] by (simp add: Axis_Range_def axis'_def)
    moreover have "bucket_meets (Keys axis) a (sval startKey) (sval endKey)"
      using meets [of a] b by auto
    then have "\<exists>i < length (Keys axis) - 1. bucket_meets (Keys axis) i (sval startKey) (sval endKey)"
      using b by (intro exI [of _ a]) auto
    moreover have "\<exists>a b. (\<forall>i < length (Keys axis) - 1.
            bucket_meets (Keys axis) i (sval startKey) (sval endKey) \<longleftrightarrow> a \<le> i \<and> i < b) \<and>
          Keys axis' = take (b + 1 - a) (drop a (Keys axis)) \<and>
          ValuesList axis' = map (\<lambda>vs. take (b - a) (drop a vs)) (ValuesList axis)"
      using meets b by (intro exI [of _ a] exI [of _ "e - 1"]) (auto simp: axis'_def)
    moreover have "length (ValuesList axis') = length (ValuesList axis)" by (simp add: axis'_def)
    ultimately show ?thesis using ok by auto
  qed
qed

lemma Axis_Range_meets:
  assumes "axis_ok axis" and "axis_keys_ok (Keys axis)"
    and "sval endKey = '''' \<or> sval startKey < sval endKey" and "Axis_Range axis startKey endKey = Some axis'"
  shows "keys_meet (Keys axis') (sval startKey) (sval endKey)"
proof (cases "\<exists>i < length (Keys axis) - 1. bucket_meets (Keys axis) i (sval startKey) (sval endKey)")
  case True
  then obtain i where i: "i < length (Keys axis) - 1" "bucket_meets (Keys axis) i (sval startKey) (sval endKey)" by blast
  obtain a b where ab: "\<And>i. i < length (Keys axis) - 1 \<Longrightarrow>
      bucket_meets (Keys axis) i (sval startKey) (sval endKey) \<longleftrightarrow> a \<le> i \<and> i < b"
    and keys: "Keys axis' = take (b + 1 - a) (drop a (Keys axis))"
    using Axis_Range_spec [OF assms(1-3)] assms(4) True by auto
  have ok: "axis_ok axis'" using Axis_Range_spec [OF assms(1-3)] assms(4) by auto
  then have n: "2 \<le> length (Keys axis')" by (simp add: axis_ok_def)
  let ?m = "a + (length (Keys axis') - 2)"
  have a: "a \<le> i" "i < b" using ab i by auto
  have m: "Suc ?m < length (Keys axis)" "?m < b" using n keys by auto
  have first: "bucket_meets (Keys axis) a (sval startKey) (sval endKey)" using ab [of a] a i(1) by simp
  have "bucket_meets (Keys axis) ?m (sval startKey) (sval endKey)" using ab [of ?m] m by simp
  moreover have "hd (Keys axis') = Keys axis ! a" using n keys a by (subst hd_conv_nth) auto
  moreover have "last (Keys axis') = Keys axis ! Suc ?m"
    using n keys by (subst last_conv_nth) (auto simp: Suc_diff_Suc numeral_2_eq_2)
  ultimately show ?thesis using first by (auto simp: keys_meet_def bucket_meets_def)
next
  case False
  then have "Keys axis' = [startKey, endKey]" using Axis_Range_spec [OF assms(1-3)] assms(4) by auto
  then show ?thesis using assms(3) by (simp add: keys_meet_def)
qed

text \<open>
  \<open>Range\<close> of a well-formed axis over a non-empty key range never panics: it returns a
  well-formed axis with the same number of columns, and when some bucket meets the range,
  the keys and all the columns of the result are the contiguous part of the axis made of
  exactly the buckets that meet the range.
\<close>

theorem Axis_Range_buckets:
  assumes "axis_ok axis" and "axis_keys_ok (Keys axis)"
    and "sval endKey = '''' \<or> sval startKey < sval endKey"
  shows "\<exists>axis'. Axis_Range axis startKey endKey = Some axis' \<and> axis_ok axis' \<and>
    length (ValuesList axis') = length (ValuesList axis) \<and>
    (if \<exists>i < length (Keys axis) - 1. bucket_meets (Keys axis) i (sval startKey) (sval endKey)
     then \<exists>a b. (\<forall>i < length (Keys axis) - 1.
            bucket_meets (Keys axis) i (sval startKey) (sval endKey) \<longleftrightarrow> a \<le> i \<and> i < b) \<and>
          Keys axis' = take (b + 1 - a) (drop a (Keys axis)) \<and>
          ValuesList axis' = map (\<lambda>vs. take (b - a) (drop a vs)) (ValuesList axis)
     else Keys axis' = [startKey, endKey] \<and> (\<forall>vs\<in>set (ValuesList axis'). vs = [0]))"
  by (rule Axis_Range_spec [OF assms])

definition demo_axis :: Axis where
  "demo_axis = \<lparr>Keys = [GoStr 1 ''a'', GoStr 2 ''c'', GoStr 3 ''e'', GoStr 4 ''g''],
     ValuesList = [[1, 2, 3], [4, 5, 6]]\<rparr>"

theorem Axis_Range_buckets_witness:
  "\<exists>axis'. Axis_Range demo_axis (GoStr 2 ''d'') (GoStr 3 ''f'') = Some axis' \<and> axis_ok axis' \<and>
    length (ValuesList axis') = 2"
proof -
  have "axis_ok demo_axis" "axis_keys_ok (Keys demo_axis)"
    by (simp_all add: demo_axis_def axis_ok_def axis_keys_ok_def less_char_def)
  moreover have "sval (GoStr 3 ''f'') = '''' \<or> sval (GoStr 2 ''d'') < sval (GoStr 3 ''f'')"
    by (simp add: less_char_def)
  moreover have "length (ValuesList demo_axis) = 2" by (simp add: demo_axis_def)
  ultimately show ?thesis
    using Axis_Range_buckets [of demo_axis "GoStr 3 ''f''" "GoStr 2 ''d''"] by metis
qed

section \<open>Focus and Divide\<close>

lemma base_coarsen:
  assumes "axis_ok axis" and "base = hd (ValuesList axis)"
    and "newChunk = coarsen \<lparr>ckeys = Keys axis, cvalues = base\<rparr> ps"
    and "cuts ps (length base)" and "keys_distinct (Keys axis)"
  shows "those_columns (reduce_column \<lparr>ckeys = Keys axis, cvalues = base\<rparr> (ckeys newChunk))
      (tl (ValuesList axis)) = Some (map (buckets ps) (tl (ValuesList axis)))"
    and "CreateAxis (ckeys newChunk) (cvalues newChunk # map (buckets ps) (tl (ValuesList axis)))
      = Some (axis_coarsen axis ps)"
proof -
  have ne: "ValuesList axis \<noteq> []" using assms(1) by (simp add: axis_ok_def)
  then have "base \<in> set (ValuesList axis)" using assms(2) by simp
  then have cols: "length vs = length base" if "vs \<in> set (ValuesList axis)" for vs
    using assms(1) that unfolding axis_ok_def by (metis add_right_cancel)
  show "those_columns (reduce_column \<lparr>ckeys = Keys axis, cvalues = base\<rparr> (ckeys newChunk))
      (tl (ValuesList axis)) = Some (map (buckets ps) (tl (ValuesList axis)))"
  proof (rule those_columns_Some)
    fix vs assume "vs \<in> set (tl (ValuesList axis))"
    then have vs: "vs \<in> set (ValuesList axis)"
      using assms(1) by (cases "ValuesList axis") (auto simp: axis_ok_def)
    have ok: "chunk_ok \<lparr>ckeys = Keys axis, cvalues = vs\<rparr>"
      using axis_ok_columns [OF assms(1) vs] .
    then have "SetValues \<lparr>ckeys = Keys axis, cvalues = base\<rparr> vs
        = Some \<lparr>ckeys = Keys axis, cvalues = vs\<rparr>"
      by (simp add: SetValues_def chunk_ok_def)
    then show "reduce_column \<lparr>ckeys = Keys axis, cvalues = base\<rparr> (ckeys newChunk) vs
        = Some (buckets ps vs)"
      using Reduce_coarsen [OF ok] assms(3,4,5) cols [OF vs]
      by (simp add: reduce_column_def coarsen_def)
  qed
  have "0 < length base" using assms(1,2) by (cases "ValuesList axis") (fastforce simp: axis_ok_def)+
  then have "2 \<le> length ps" using cuts_length assms(4) by blast
  then have "axis_ok (axis_coarsen axis ps)"
    using assms(1) by (auto simp: axis_ok_def axis_coarsen_def)
  moreover have "Keys (axis_coarsen axis ps) = ckeys newChunk"
    "ValuesList (axis_coarsen axis ps) = cvalues newChunk # map (buckets ps) (tl (ValuesList axis))"
    using assms(1,2,3) by (cases "ValuesList axis"; simp add: axis_coarsen_def coarsen_def axis_ok_def)+
  ultimately show "CreateAxis (ckeys newChunk)
      (cvalues newChunk # map (buckets ps) (tl (ValuesList axis))) = Some (axis_coarsen axis ps)"
    by (simp add: CreateAxis_Some_iff)
qed

lemma axis_coarsen_all:
  assumes "axis_ok axis"
  shows "axis_coarsen axis [0..<length (Keys axis)] = axis" and
    "cuts [0..<length (Keys axis)] (length (Keys axis) - 1)"
proof -
  have "buckets [0..<length (Keys axis)] vs = vs" if "vs \<in> set (ValuesList axis)" for vs
    using buckets_all [of vs] assms that by (auto simp: axis_ok_def)
  then have "map (buckets [0..<length (Keys axis)]) (ValuesList axis) = ValuesList axis"
    by (intro map_idI) auto
  then show "axis_coarsen axis [0..<length (Keys axis)] = axis"
    by (simp add: axis_coarsen_def map_nth)
  show "cuts [0..<length (Keys axis)] (length (Keys axis) - 1)"
    using cuts_all [of "length (Keys axis) - 1"] assms
    by (cases "length (Keys axis)") (auto simp: axis_ok_def)
qed

lemma axis_base:
  assumes "axis_ok axis"
  shows "idx (ValuesList axis) 0 = Some (hd (ValuesList axis))"
    and "length (hd (ValuesList axis)) = length (Keys axis) - 1"
    and "createChunk (Keys axis) (hd (ValuesList axis))
      = Some \<lparr>ckeys = Keys axis, cvalues = hd (ValuesList axis)\<rparr>"
    and "chunk_ok \<lparr>ckeys = Keys axis, cvalues = hd (ValuesList axis)\<rparr>"
proof -
  have hd: "ValuesList axis \<noteq> []" "hd (ValuesList axis) \<in> set (ValuesList axis)"
    using assms by (auto simp: axis_ok_def)
  show ok: "chunk_ok \<lparr>ckeys = Keys axis, cvalues = hd (ValuesList axis)\<rparr>"
    using axis_ok_columns [OF assms hd(2)] .
  show "idx (ValuesList axis) 0 = Some (hd (ValuesList axis))" using hd by (simp add: hd_conv_nth)
  show "length (hd (ValuesList axis)) = length (Keys axis) - 1" using ok by (simp add: chunk_ok_def)
  show "createChunk (Keys axis) (hd (ValuesList axis))
      = Some \<lparr>ckeys = Keys axis, cvalues = hd (ValuesList axis)\<rparr>"
    using createChunk_ok [OF ok] .
qed

lemma Axis_Focus_coarsen:
  assumes "axis_ok axis" and "keys_distinct (Keys axis)" and "0 \<le> target"
  shows "\<exists>ps. cuts ps (length (Keys axis) - 1) \<and>
    Axis_Focus cb axis threshold ratio target = Some (axis_coarsen axis ps)"
proof (cases "int (length (Keys axis)) - 1 \<le> target")
  case True
  then show ?thesis using axis_coarsen_all [OF assms(1)] by (auto simp: Axis_Focus_def)
next
  case False
  let ?base = "\<lparr>ckeys = Keys axis, cvalues = hd (ValuesList axis)\<rparr>"
  note base = axis_base [OF assms(1)]
  obtain ps where ps: "cuts ps (length (hd (ValuesList axis)))"
    "Focus cb ?base threshold ratio target MergeColdLogicalRange_mode = Some (coarsen ?base ps)"
    using Focus_coarsen [OF base(4) assms(3), of cb threshold ratio MergeColdLogicalRange_mode]
    by auto
  then have "Axis_Focus cb axis threshold ratio target = Some (axis_coarsen axis ps)"
    using False base base_coarsen [OF assms(1) refl refl ps(1) assms(2)]
    by (simp add: Axis_Focus_def)
  then show ?thesis using ps(1) base(2) by auto
qed

lemma Axis_Divide_coarsen:
  assumes "axis_ok axis" and "keys_distinct (Keys axis)" and "2 \<le> target"
    and "nat_sum (hd (ValuesList axis)) + 1 < 2 ^ 63"
  shows "\<exists>ps. cuts ps (length (Keys axis) - 1) \<and> Axis_Divide cb axis target = Some (axis_coarsen axis ps)"
proof (cases "int (length (Keys axis)) - 1 \<le> target")
  case True
  then show ?thesis using axis_coarsen_all [OF assms(1)] by (auto simp: Axis_Divide_def)
next
  case False
  let ?base = "\<lparr>ckeys = Keys axis, cvalues = hd (ValuesList axis)\<rparr>"
  note base = axis_base [OF assms(1)]
  obtain ps where ps: "cuts ps (length (hd (ValuesList axis)))"
    "Divide cb ?base target MergeColdLogicalRange_mode = Some (coarsen ?base ps)"
    using Divide_coarsen [OF base(4) assms(3)] assms(4) by auto
  then have "Axis_Divide cb axis target = Some (axis_coarsen axis ps)"
    using False base base_coarsen [OF assms(1) refl refl ps(1) assms(2)]
    by (simp add: Axis_Divide_def)
  then show ?thesis using ps(1) base(2) by auto
qed

lemma axis_coarsen_ok:
  assumes "axis_ok axis" and "cuts ps (length (Keys axis) - 1)"
  shows "axis_ok (axis_coarsen axis ps)"
    and "map sum_list (ValuesList (axis_coarsen axis ps)) = map sum_list (ValuesList axis)"
    and "set (Keys (axis_coarsen axis ps)) \<subseteq> set (Keys axis)"
    and "length (ValuesList (axis_coarsen axis ps)) = length (ValuesList axis)"
proof -
  have "2 \<le> length ps" using cuts_length [OF assms(2)] assms(1) by (simp add: axis_ok_def)
  then show "axis_ok (axis_coarsen axis ps)"
    using assms(1) by (auto simp: axis_ok_def axis_coarsen_def)
  show "map sum_list (ValuesList (axis_coarsen axis ps)) = map sum_list (ValuesList axis)"
    using assms by (auto simp: axis_coarsen_def axis_ok_def intro!: sum_buckets)
  show "set (Keys (axis_coarsen axis ps)) \<subseteq> set (Keys axis)"
    using cuts_mem [OF assms(2)] assms(1) by (fastforce simp: axis_coarsen_def axis_ok_def)
  show "length (ValuesList (axis_coarsen axis ps)) = length (ValuesList axis)"
    by (simp add: axis_coarsen_def)
qed

text \<open>
  C30: for any labeler, threshold, ratio and non-negative target, \<open>Focus\<close> of a well-formed
  axis with distinct interned keys returns a well-formed axis that re-buckets every column
  by the same cuts of the key axis; so the sum of each column is kept.
\<close>

theorem Axis_Focus_buckets:
  assumes "axis_ok axis" and "axis_keys_ok (Keys axis)" and "interned (set (Keys axis))"
    and "0 \<le> target"
  shows "\<exists>ps. cuts ps (length (Keys axis) - 1) \<and>
    Axis_Focus cb axis threshold ratio target = Some (axis_coarsen axis ps) \<and>
    axis_ok (axis_coarsen axis ps) \<and>
    map sum_list (ValuesList (axis_coarsen axis ps)) = map sum_list (ValuesList axis)"
  using Axis_Focus_coarsen [OF assms(1) axis_keys_distinct [OF assms(2,3)] assms(4)]
    axis_coarsen_ok [OF assms(1)] by blast

theorem Axis_Focus_buckets_witness:
  "\<exists>ps. cuts ps 3 \<and> Axis_Focus (\<lambda>_ _. False) demo_axis 2 8 2 = Some (axis_coarsen demo_axis ps) \<and>
    map sum_list (ValuesList (axis_coarsen demo_axis ps)) = [6, 15]"
proof -
  have "axis_ok demo_axis" "axis_keys_ok (Keys demo_axis)" "interned (set (Keys demo_axis))"
    by (simp_all add: demo_axis_def axis_ok_def axis_keys_ok_def less_char_def interned_def equal_def)
  moreover have "length (Keys demo_axis) - 1 = 3"
    "map sum_list (ValuesList demo_axis) = [6, 15]" by (simp_all add: demo_axis_def)
  ultimately show ?thesis
    using Axis_Focus_buckets [of demo_axis 2 "\<lambda>_ _. False" 2 8] by auto
qed

text \<open>
  C1: \<open>Divide\<close> of a well-formed axis with distinct interned keys to a target of at least two
  rows ends and returns an axis that re-buckets every column by the same cuts, for any
  labeler, when the sum of the base column stays below \<open>2 ^ 63 - 1\<close>.
\<close>

theorem Axis_Divide_buckets:
  assumes "axis_ok axis" and "axis_keys_ok (Keys axis)" and "interned (set (Keys axis))"
    and "2 \<le> target" and "nat_sum (hd (ValuesList axis)) + 1 < 2 ^ 63"
  shows "\<exists>ps. cuts ps (length (Keys axis) - 1) \<and>
    Axis_Divide cb axis target = Some (axis_coarsen axis ps) \<and> axis_ok (axis_coarsen axis ps) \<and>
    map sum_list (ValuesList (axis_coarsen axis ps)) = map sum_list (ValuesList axis)"
  using Axis_Divide_coarsen [OF assms(1) axis_keys_distinct [OF assms(2,3)] assms(4,5)]
    axis_coarsen_ok [OF assms(1)] by blast

theorem Axis_Divide_buckets_witness:
  "\<exists>ps. cuts ps 3 \<and> Axis_Divide (\<lambda>_ _. False) demo_axis 2 = Some (axis_coarsen demo_axis ps) \<and>
    map sum_list (ValuesList (axis_coarsen demo_axis ps)) = [6, 15]"
proof -
  have "axis_ok demo_axis" "axis_keys_ok (Keys demo_axis)" "interned (set (Keys demo_axis))"
    by (simp_all add: demo_axis_def axis_ok_def axis_keys_ok_def less_char_def interned_def equal_def)
  moreover have "length (Keys demo_axis) - 1 = 3" "nat_sum (hd (ValuesList demo_axis)) + 1 < 2 ^ 63"
    "map sum_list (ValuesList demo_axis) = [6, 15]" by (simp_all add: demo_axis_def)
  ultimately show ?thesis
    using Axis_Divide_buckets [of demo_axis 2 "\<lambda>_ _. False"] by auto
qed

end
