(* ===== verification/MatrixSplit.thy ===== *)
theory MatrixSplit
  imports ChunkDivide
begin

text \<open>
  The splitters of \<open>pkg/keyvisual/matrix\<close> (\<open>interface.go\<close>, \<open>average.go\<close> and the \<open>Split\<close> of
  \<open>distance.go\<close>): a source chunk, whose keys are some of the keys of the destination, is
  distributed over the destination's buckets.

  The two \<open>Split\<close> methods differ only in the value they store at a position of a bucket,
  so the loops they share are written once, over that value (\<open>bucket_value\<close>).
\<close>

datatype splitTag = splitTo | splitAdd

text \<open>A \<open>Splitter\<close> is its \<open>Split\<close> method, a \<open>SplitStrategy\<close> its \<open>NewSplitter\<close>.\<close>

type_synonym Splitter = "chunk \<Rightarrow> chunk \<Rightarrow> splitTag \<Rightarrow> nat \<Rightarrow> chunk option"
type_synonym SplitStrategy = "chunk list \<Rightarrow> gostr list \<Rightarrow> Splitter option"

text \<open>The loop \<open>for !equal(keys[i], key) { i++ }\<close>, which panics past the end.\<close>

function find_key :: "gostr list \<Rightarrow> gostr \<Rightarrow> nat \<Rightarrow> nat option" where
  "find_key keys key i =
     (if i < length keys then if equal (keys ! i) key then Some i else find_key keys key (i + 1)
      else None)"
  by pat_completeness auto
termination by (relation "measure (\<lambda>(keys, key, i). length keys - i)") auto

declare find_key.simps [simp del]

definition tag_store :: "splitTag \<Rightarrow> u64 \<Rightarrow> u64 \<Rightarrow> u64" where
  "tag_store tag old new = (case tag of splitTo \<Rightarrow> new | splitAdd \<Rightarrow> old + new)"

text \<open>The loop \<open>for ; start < end; start++\<close> over one bucket.\<close>

function fill :: "splitTag \<Rightarrow> (nat \<Rightarrow> u64 option) \<Rightarrow> nat \<Rightarrow> nat \<Rightarrow> u64 list \<Rightarrow> u64 list option" where
  "fill tag f start end vals =
     (if start < end then do {
        new \<leftarrow> f start;
        old \<leftarrow> idx vals start;
        fill tag f (start + 1) end (vals[start := tag_store tag old new])
      } else Some vals)"
  by pat_completeness auto
termination by (relation "measure (\<lambda>(tag, f, start, end, vals). end - start)") auto

declare fill.simps [simp del]

fun split_loop ::
  "splitTag \<Rightarrow> (u64 \<Rightarrow> nat \<Rightarrow> nat \<Rightarrow> nat \<Rightarrow> u64 option) \<Rightarrow> gostr list \<Rightarrow> u64 list
     \<Rightarrow> nat \<Rightarrow> nat \<Rightarrow> nat \<Rightarrow> gostr list \<Rightarrow> u64 list \<Rightarrow> u64 list option" where
  "split_loop tag bucket_value dstKeys srcValues i start end [] vals = Some vals"
| "split_loop tag bucket_value dstKeys srcValues i start end (key # keys) vals = do {
     end \<leftarrow> find_key dstKeys key end;
     value \<leftarrow> idx srcValues i;
     vals \<leftarrow> fill tag (bucket_value value start end) start end vals;
     split_loop tag bucket_value dstKeys srcValues (i + 1) (max start end) (end + 1) keys vals
   }"

text \<open>The case of as many keys: \<open>copy\<close>, or addition in place.\<close>

fun add_loop :: "nat \<Rightarrow> u64 list \<Rightarrow> u64 list \<Rightarrow> u64 list option" where
  "add_loop i [] vals = Some vals"
| "add_loop i (v # vs) vals = do {
     old \<leftarrow> idx vals i;
     add_loop (i + 1) vs (vals[i := old + v])
   }"

definition split_with :: "(u64 \<Rightarrow> nat \<Rightarrow> nat \<Rightarrow> nat \<Rightarrow> u64 option) \<Rightarrow> chunk \<Rightarrow> chunk \<Rightarrow> splitTag \<Rightarrow> chunk option"
where
  "split_with bucket_value dst src tag = do {
     CheckPartOf (ckeys dst) (ckeys src);
     vals \<leftarrow>
       (if length (ckeys dst) = length (ckeys src)
        then (case tag of
            splitTo \<Rightarrow> Some (go_copy (cvalues dst) (cvalues src))
          | splitAdd \<Rightarrow> add_loop 0 (cvalues src) (cvalues dst))
        else do {
          startKey \<leftarrow> idx (ckeys src) 0;
          start \<leftarrow> find_key (ckeys dst) startKey 0;
          split_loop tag bucket_value (ckeys dst) (cvalues src) 0 start (start + 1)
            (tl (ckeys src)) (cvalues dst)
        });
     Some (dst\<lparr>cvalues := vals\<rparr>)
   }"

section \<open>Average\<close>

text \<open>\<open>src.Values[i] / uint64(end-start)\<close>, a panic for an empty bucket.\<close>

definition average_value :: "u64 \<Rightarrow> nat \<Rightarrow> nat \<Rightarrow> nat \<Rightarrow> u64 option" where
  "average_value value start end pos =
     (let d = of_nat end - of_nat start :: u64 in if d = 0 then None else Some (value div d))"

definition average_Split :: Splitter where
  "average_Split dst src tag axesIndex = split_with average_value dst src tag"

definition AverageSplitStrategy :: SplitStrategy where
  "AverageSplitStrategy chunks compactKeys = Some average_Split"

section \<open>Where the keys of a part are\<close>

text \<open>
  The keys of \<open>src\<close> are the keys of \<open>dst\<close> at the ascending positions \<open>ps\<close>.
\<close>

definition part_at :: "chunk \<Rightarrow> chunk \<Rightarrow> nat list \<Rightarrow> bool" where
  "part_at dst src ps \<longleftrightarrow> sorted_wrt (<) ps \<and> (\<forall>p\<in>set ps. p < length (ckeys dst)) \<and>
     ckeys src = map ((!) (ckeys dst)) ps"

definition part_of :: "chunk \<Rightarrow> chunk \<Rightarrow> bool" where
  "part_of dst src \<longleftrightarrow> chunk_ok dst \<and> chunk_ok src \<and> axis_keys_ok (ckeys dst) \<and>
     interned (set (ckeys dst)) \<and> (\<exists>ps. part_at dst src ps)"

lemma find_key_eq:
  assumes "p < length keys" and "i \<le> p" and "equal (keys ! p) key"
    and "\<And>j. i \<le> j \<Longrightarrow> j < p \<Longrightarrow> \<not> equal (keys ! j) key"
  shows "find_key keys key i = Some p"
  using assms
proof (induction "p - i" arbitrary: i)
  case 0
  then have "i = p" by simp
  with "0.prems" show ?case by (subst find_key.simps) simp
next
  case (Suc n)
  then have "find_key keys key (Suc i) = Some p" by (intro Suc.hyps(1)) auto
  moreover have "\<not> equal (keys ! i) key" "i < length keys" using Suc by auto
  ultimately show ?case by (subst find_key.simps) simp
qed

lemma fill_result:
  assumes "end \<le> length vals" and "start \<le> end"
    and "\<And>p. start \<le> p \<Longrightarrow> p < end \<Longrightarrow> f p = Some (g p)"
  shows "\<exists>new. fill tag f start end vals = Some new \<and> length new = length vals \<and>
    (\<forall>p. start \<le> p \<longrightarrow> p < end \<longrightarrow> new ! p = tag_store tag (vals ! p) (g p)) \<and>
    (\<forall>p. p < start \<or> end \<le> p \<longrightarrow> new ! p = vals ! p)"
  using assms
proof (induction "end - start" arbitrary: start vals)
  case 0
  then show ?case by (subst fill.simps) auto
next
  case (Suc n)
  let ?vals = "vals[start := tag_store tag (vals ! start) (g start)]"
  obtain new where new: "fill tag f (Suc start) end ?vals = Some new" "length new = length vals"
    "\<And>p. Suc start \<le> p \<Longrightarrow> p < end \<Longrightarrow> new ! p = tag_store tag (?vals ! p) (g p)"
    "\<And>p. p < Suc start \<or> end \<le> p \<Longrightarrow> new ! p = ?vals ! p"
  proof -
    have "n = end - Suc start" "Suc start \<le> end" using Suc.hyps(2) by auto
    from Suc.hyps(1) [of "Suc start" ?vals, OF this(1) _ this(2)] Suc.prems that show thesis by auto
  qed
  have "start < end" using Suc.hyps(2) by simp
  then have "fill tag f start end vals = Some new"
    using Suc.prems new(1) by (subst fill.simps) simp
  moreover have "new ! p = tag_store tag (vals ! p) (g p)" if "start \<le> p" "p < end" for p
    using that new(3,4) [of p] Suc.prems(1) Suc.hyps(2) by (cases "p = start") auto
  moreover have "new ! p = vals ! p" if "p < start \<or> end \<le> p" for p
    using that new(4) [of p] Suc.hyps(2) by auto
  ultimately show ?case using new(2) by blast
qed

text \<open>
  The result of a split: bucket \<open>k\<close> of the source is spread over the positions between
  \<open>ps ! k\<close> and \<open>ps ! Suc k\<close>, the positions outside the source are untouched.
\<close>

definition spread ::
  "splitTag \<Rightarrow> (u64 \<Rightarrow> nat \<Rightarrow> nat \<Rightarrow> nat \<Rightarrow> u64) \<Rightarrow> nat list \<Rightarrow> u64 list \<Rightarrow> u64 list \<Rightarrow> u64 list \<Rightarrow> bool" where
  "spread tag g ps vs old new \<longleftrightarrow> length new = length old \<and>
     (\<forall>k p. Suc k < length ps \<longrightarrow> ps ! k \<le> p \<longrightarrow> p < ps ! Suc k \<longrightarrow>
        new ! p = tag_store tag (old ! p) (g (vs ! k) (ps ! k) (ps ! Suc k) p)) \<and>
     (\<forall>p < length old. p < hd ps \<or> last ps \<le> p \<longrightarrow> new ! p = old ! p)"

lemma part_equal:
  assumes "part_of dst src" and "part_at dst src ps" and "k < length ps" and "j < length (ckeys dst)"
    and "0 < k \<and> 0 < j \<or> k = 0 \<and> j < length (ckeys dst) - 1"
  shows "equal (ckeys dst ! j) (ckeys src ! k) \<longleftrightarrow> j = ps ! k"
proof -
  have dst: "axis_keys_ok (ckeys dst)" "interned (set (ckeys dst))"
    using assms(1) by (auto simp: part_of_def)
  have ps: "ckeys src ! k = ckeys dst ! (ps ! k)" "ps ! k < length (ckeys dst)"
    using assms(2,3) by (auto simp: part_at_def)
  show ?thesis
  proof (cases "k = 0")
    case True
    have "length (ckeys src) = length ps" "2 \<le> length (ckeys src)"
      using assms(1,2) by (auto simp: part_of_def part_at_def chunk_ok_def)
    then have "ps ! k < ps ! 1" "ps ! 1 < length (ckeys dst)"
      using assms(2) True by (auto simp: part_at_def sorted_wrt_iff_nth_less)
    then have lt: "ps ! k < length (ckeys dst) - 1" "j < length (ckeys dst) - 1"
      using assms(5) True by auto
    have "sorted_len (ckeys dst) \<ge> length (ckeys dst) - 1" by (simp add: sorted_len_def)
    then have "sval (ckeys dst ! j) = sval (ckeys dst ! (ps ! k)) \<longleftrightarrow> j = ps ! k"
      using axis_keys_less [OF dst(1), of j "ps ! k"] axis_keys_less [OF dst(1), of "ps ! k" j] lt
      by (cases j "ps ! k" rule: linorder_cases) auto
    with internedD [OF dst(2)] ps lt show ?thesis by simp
  next
    case False
    then have "ps ! 0 < ps ! k" using assms(2,3) by (auto simp: part_at_def sorted_wrt_iff_nth_less)
    then show ?thesis
      using keys_distinct_equal [OF axis_keys_distinct [OF dst], of j "ps ! k"] ps assms(4,5) False
      by auto
  qed
qed

lemma split_loop_result:
  assumes "part_of dst src" and "part_at dst src ps" and "i < length ps"
    and bv: "\<And>k p. Suc k < length ps \<Longrightarrow> ps ! k \<le> p \<Longrightarrow> p < ps ! Suc k \<Longrightarrow>
      bv (cvalues src ! k) (ps ! k) (ps ! Suc k) p = Some (g (cvalues src ! k) (ps ! k) (ps ! Suc k) p)"
    and "length vals = length (cvalues dst)"
  shows "\<exists>new. split_loop tag bv (ckeys dst) (cvalues src) i (ps ! i) (ps ! i + 1)
      (drop (Suc i) (ckeys src)) vals = Some new \<and> length new = length vals \<and>
    (\<forall>k p. i \<le> k \<longrightarrow> Suc k < length ps \<longrightarrow> ps ! k \<le> p \<longrightarrow> p < ps ! Suc k \<longrightarrow>
       new ! p = tag_store tag (vals ! p) (g (cvalues src ! k) (ps ! k) (ps ! Suc k) p)) \<and>
    (\<forall>p. p < ps ! i \<or> last ps \<le> p \<longrightarrow> new ! p = vals ! p)"
  using assms(3,5)
proof (induction "length ps - i" arbitrary: i vals)
  case (Suc n)
  have lens: "length (ckeys src) = length ps" "length (ckeys src) = length (cvalues src) + 1"
    "length (ckeys dst) = length (cvalues dst) + 1"
    using assms(1,2) by (auto simp: part_of_def part_at_def chunk_ok_def)
  have mono: "a < b \<Longrightarrow> b < length ps \<Longrightarrow> ps ! a < ps ! b" for a b
    using assms(2) by (simp add: part_at_def sorted_wrt_iff_nth_less)
  show ?case
  proof (cases "Suc i = length ps")
    case True
    then have "k \<ge> i \<Longrightarrow> \<not> Suc k < length ps" for k by simp
    with True lens show ?thesis by auto
  next
    case False
    then have i: "Suc i < length ps" using Suc.prems by simp
    have keys: "drop (Suc i) (ckeys src) = ckeys src ! Suc i # drop (Suc (Suc i)) (ckeys src)"
      using i lens by (simp add: Cons_nth_drop_Suc)
    have S: "ps ! i < ps ! Suc i" "ps ! Suc i < length (ckeys dst)"
      using mono [of i "Suc i"] i assms(2) by (auto simp: part_at_def)
    have find: "find_key (ckeys dst) (ckeys src ! Suc i) (ps ! i + 1) = Some (ps ! Suc i)"
      using S part_equal [OF assms(1,2) i]
      by (intro find_key_eq) auto
    obtain vals1 where v1: "fill tag (bv (cvalues src ! i) (ps ! i) (ps ! Suc i)) (ps ! i) (ps ! Suc i) vals
        = Some vals1" "length vals1 = length vals"
      "\<And>p. ps ! i \<le> p \<Longrightarrow> p < ps ! Suc i \<Longrightarrow>
        vals1 ! p = tag_store tag (vals ! p) (g (cvalues src ! i) (ps ! i) (ps ! Suc i) p)"
      "\<And>p. p < ps ! i \<or> ps ! Suc i \<le> p \<Longrightarrow> vals1 ! p = vals ! p"
      using fill_result [of "ps ! Suc i" vals "ps ! i" "bv (cvalues src ! i) (ps ! i) (ps ! Suc i)"
          "g (cvalues src ! i) (ps ! i) (ps ! Suc i)" tag] S bv [OF i] Suc.prems(2) lens by auto
    obtain new where new: "split_loop tag bv (ckeys dst) (cvalues src) (Suc i) (ps ! Suc i)
        (ps ! Suc i + 1) (drop (Suc (Suc i)) (ckeys src)) vals1 = Some new" "length new = length vals1"
      "\<And>k p. Suc i \<le> k \<Longrightarrow> Suc k < length ps \<Longrightarrow> ps ! k \<le> p \<Longrightarrow> p < ps ! Suc k \<Longrightarrow>
         new ! p = tag_store tag (vals1 ! p) (g (cvalues src ! k) (ps ! k) (ps ! Suc k) p)"
      "\<And>p. p < ps ! Suc i \<or> last ps \<le> p \<Longrightarrow> new ! p = vals1 ! p"
    proof -
      have "n = length ps - Suc i" "length vals1 = length (cvalues dst)"
        using Suc.hyps(2) Suc.prems(2) v1(2) by auto
      from Suc.hyps(1) [OF this(1) i this(2)] that show thesis by auto
    qed
    have "split_loop tag bv (ckeys dst) (cvalues src) i (ps ! i) (ps ! i + 1)
        (drop (Suc i) (ckeys src)) vals = Some new"
      using new(1) v1(1) find S(1) i lens by (simp add: keys max_def)
    moreover have "new ! p = tag_store tag (vals ! p) (g (cvalues src ! k) (ps ! k) (ps ! Suc k) p)"
      if "i \<le> k" "Suc k < length ps" "ps ! k \<le> p" "p < ps ! Suc k" for k p
    proof (cases "k = i")
      case True
      then show ?thesis using that new(4) v1(3) by simp
    next
      case False
      then have "Suc i \<le> k" using that(1) by simp
      moreover have "ps ! Suc i \<le> ps ! k"
        using mono [of "Suc i" k] that(2) calculation by (cases "k = Suc i") auto
      ultimately show ?thesis using new(3) [of k p] v1(4) [of p] that by simp
    qed
    moreover have "new ! p = vals ! p" if "p < ps ! i \<or> last ps \<le> p" for p
    proof -
      have "last ps = ps ! (length ps - 1)" using i by (subst last_conv_nth) auto
      then have "ps ! Suc i \<le> last ps"
        using mono [of "Suc i" "length ps - 1"] i
        by (cases "Suc i = length ps - 1") (auto intro: less_imp_le)
      with that S(1) new(4) [of p] v1(4) [of p] show ?thesis by auto
    qed
    ultimately show ?thesis using new(2) v1(2) by auto
  qed
qed simp

lemma add_loop_result:
  assumes "i + length vs \<le> length vals"
  shows "\<exists>new. add_loop i vs vals = Some new \<and> length new = length vals \<and>
    (\<forall>k < length vs. new ! (i + k) = vals ! (i + k) + vs ! k) \<and> (\<forall>p < i. new ! p = vals ! p)"
  using assms
proof (induction vs arbitrary: i vals)
  case (Cons v vs)
  let ?vals = "vals[i := vals ! i + v]"
  obtain new where new: "add_loop (Suc i) vs ?vals = Some new" "length new = length vals"
    "\<And>k. k < length vs \<Longrightarrow> new ! (Suc i + k) = ?vals ! (Suc i + k) + vs ! k"
    "\<And>p. p < Suc i \<Longrightarrow> new ! p = ?vals ! p"
    using Cons.IH [of "Suc i" ?vals] Cons.prems by auto
  have "new ! (i + k) = vals ! (i + k) + (v # vs) ! k" if "k < length (v # vs)" for k
    using that new(3) [of "k - 1"] new(4) [of i] Cons.prems by (cases k) auto
  then show ?case using new Cons.prems by auto
qed simp

lemma part_check:
  assumes "part_of dst src"
  shows "CheckPartOf (ckeys dst) (ckeys src) = Some ()"
proof -
  obtain ps where ps: "part_at dst src ps" using assms by (auto simp: part_of_def)
  let ?d = "ckeys dst" and ?s = "ckeys src"
  have ok: "axis_keys_ok ?d" "2 \<le> length ?d" "2 \<le> length ?s"
    using assms by (auto simp: part_of_def chunk_ok_def)
  have len: "length ?s = length ps" using ps by (simp add: part_at_def)
  have psm: "ps ! k < length ?d" if "k < length ps" for k
    using ps that by (auto simp: part_at_def)
  have mono: "ps ! a < ps ! b" if "a < b" "b < length ps" for a b
    using ps that by (simp add: part_at_def sorted_wrt_iff_nth_less)
  have nths: "?s ! 0 = ?d ! (ps ! 0)" "last ?s = ?d ! last ps"
    using ps ok(3) len by (cases "ps = []"; simp add: part_at_def last_map)+
  have "ps ! 0 < length ?d - 1"
    using mono [of 0 1] psm [of 1] ok(3) len by auto
  then have first: "sval (?d ! 0) \<le> sval (?s ! 0)"
    unfolding nths by (intro axis_keys_le [OF ok(1)]) (auto simp: sorted_len_def)
  have lp: "last ps < length ?d" "last ps \<noteq> 0"
    using ps ok(3) len mono [of 0 "length ps - 1"]
    by (auto simp: part_at_def last_conv_nth simp flip: length_0_conv)
  have last: "sval (last ?d) = '''' \<or> sval (last ?s) \<noteq> '''' \<and> sval (last ?s) \<le> sval (last ?d)"
  proof (cases "sval (last ?d) = ''''")
    case False
    then have sl: "sorted_len ?d = length ?d" by (simp add: sorted_len_def)
    have "last ?d = ?d ! (length ?d - 1)" using ok(2) by (subst last_conv_nth) auto
    moreover have "sval (?d ! last ps) \<le> sval (?d ! (length ?d - 1))"
      using lp sl ok(2) by (intro axis_keys_le [OF ok(1)]) auto
    moreover have "sval (?d ! 0) < sval (?d ! last ps)"
      using lp sl by (intro axis_keys_less [OF ok(1)]) auto
    then have "sval (?d ! last ps) \<noteq> ''''" by auto
    ultimately show ?thesis unfolding nths by simp
  qed simp
  have "set ps \<subseteq> {..<length ?d}" using ps by (auto simp: part_at_def)
  then have "card (set ps) \<le> length ?d" using card_mono [of "{..<length ?d}" "set ps"] by simp
  moreover have "distinct ps" using ps by (auto simp: part_at_def strict_sorted_iff)
  ultimately have "length ?s \<le> length ?d" using len by (simp add: distinct_card)
  moreover have "?d \<noteq> []" "?s \<noteq> []" using ok by auto
  ultimately show ?thesis
    using first last by (auto simp: CheckPartOf_def Let_def not_less)
qed

lemma split_with_result:
  assumes "part_of dst src" and "part_at dst src ps"
    and bv: "\<And>k p. Suc k < length ps \<Longrightarrow> ps ! k \<le> p \<Longrightarrow> p < ps ! Suc k \<Longrightarrow>
      bv (cvalues src ! k) (ps ! k) (ps ! Suc k) p = Some (g (cvalues src ! k) (ps ! k) (ps ! Suc k) p)"
  shows "\<exists>new. split_with bv dst src tag = Some (dst\<lparr>cvalues := new\<rparr>) \<and>
    length new = length (cvalues dst) \<and>
    (if length (ckeys dst) = length (ckeys src)
     then \<forall>p < length new. new ! p = tag_store tag (cvalues dst ! p) (cvalues src ! p)
     else spread tag g ps (cvalues src) (cvalues dst) new)"
proof (cases "length (ckeys dst) = length (ckeys src)")
  case True
  then have len: "length (cvalues src) = length (cvalues dst)"
    using assms(1) by (auto simp: part_of_def chunk_ok_def)
  show ?thesis
  proof (cases tag)
    case splitTo
    with True len part_check [OF assms(1)] show ?thesis
      by (auto simp: split_with_def tag_store_def)
  next
    case splitAdd
    obtain new where "add_loop 0 (cvalues src) (cvalues dst) = Some new"
      "length new = length (cvalues dst)"
      "\<And>k. k < length (cvalues src) \<Longrightarrow> new ! k = cvalues dst ! k + cvalues src ! k"
      using add_loop_result [of 0 "cvalues src" "cvalues dst"] len by auto
    with splitAdd True len part_check [OF assms(1)] show ?thesis
      by (auto simp: split_with_def tag_store_def)
  qed
next
  case False
  have lens: "length (ckeys src) = length ps" "0 < length ps" "length (ckeys dst) = length (cvalues dst) + 1"
    "ckeys src ! 0 = ckeys dst ! (ps ! 0)" "1 < length ps"
    using assms(1,2) by (auto simp: part_of_def part_at_def chunk_ok_def)
  have p0: "ps ! 0 < ps ! 1" "ps ! 1 < length (ckeys dst)"
    using assms(2) lens by (auto simp: part_at_def sorted_wrt_iff_nth_less)
  have start: "find_key (ckeys dst) (ckeys src ! 0) 0 = Some (ps ! 0)"
    using p0 part_equal [OF assms(1,2), of 0] lens by (intro find_key_eq) auto
  obtain new where new: "split_loop tag bv (ckeys dst) (cvalues src) 0 (ps ! 0) (ps ! 0 + 1)
      (drop (Suc 0) (ckeys src)) (cvalues dst) = Some new" "length new = length (cvalues dst)"
    "\<And>k p. Suc k < length ps \<Longrightarrow> ps ! k \<le> p \<Longrightarrow> p < ps ! Suc k \<Longrightarrow>
       new ! p = tag_store tag (cvalues dst ! p) (g (cvalues src ! k) (ps ! k) (ps ! Suc k) p)"
    "\<And>p. p < ps ! 0 \<or> last ps \<le> p \<Longrightarrow> new ! p = cvalues dst ! p"
    using split_loop_result [where bv = bv and g = g and vals = "cvalues dst" and tag = tag,
        OF assms(1,2) lens(2) bv refl] by auto
  have "split_with bv dst src tag = Some (dst\<lparr>cvalues := new\<rparr>)"
    using False part_check [OF assms(1)] start new(1) lens by (simp add: split_with_def drop_Suc)
  moreover have "hd ps = ps ! 0" using lens by (simp add: hd_conv_nth flip: length_0_conv)
  ultimately show ?thesis using False new by (auto simp: spread_def)
qed

section \<open>What the average splitter computes\<close>

lemma average_value_Some:
  assumes "s < e" and "e - s < 2 ^ 64"
  shows "average_value v s e p = Some (v div of_nat (e - s))"
proof -
  have "unat (of_nat (e - s) :: u64) = e - s" using assms(2) by (simp add: unat_of_nat)
  then have "(of_nat (e - s) :: u64) \<noteq> 0" using assms(1) by (metis unat_0 zero_less_diff less_irrefl)
  moreover have "(of_nat e - of_nat s :: u64) = of_nat (e - s)" using assms(1) by simp
  ultimately show ?thesis by (simp add: average_value_def Let_def)
qed

lemma part_at_full:
  assumes "part_at dst src ps" and "length (ckeys dst) = length (ckeys src)"
  shows "ps = [0..<length (ckeys dst)]"
proof -
  have ps: "sorted_wrt (<) ps" "set ps \<subseteq> {..<length (ckeys dst)}" "length ps = length (ckeys dst)"
    using assms by (auto simp: part_at_def)
  have "card (set ps) = card {..<length (ckeys dst)}"
    using ps by (simp add: distinct_card strict_sorted_iff)
  then have "set ps = {..<length (ckeys dst)}" using ps(2) by (intro card_subset_eq) simp_all
  then have "set ps = set [0..<length (ckeys dst)]" by (simp only: set_upt atLeast0LessThan)
  then show ?thesis
    using ps(1) by (intro sorted_distinct_set_unique) (simp_all add: strict_sorted_iff)
qed

lemma average_Split_spread:
  assumes "part_of dst src" and "part_at dst src ps" and "length (ckeys dst) < 2 ^ 64"
  shows "\<exists>new. average_Split dst src tag i = Some (dst\<lparr>cvalues := new\<rparr>) \<and>
    spread tag (\<lambda>v s e p. v div of_nat (e - s)) ps (cvalues src) (cvalues dst) new"
proof -
  have bv: "average_value (cvalues src ! k) (ps ! k) (ps ! Suc k) p
      = Some (cvalues src ! k div of_nat (ps ! Suc k - ps ! k))"
    if "Suc k < length ps" "ps ! k \<le> p" "p < ps ! Suc k" for k p
  proof -
    have "ps ! Suc k < length (ckeys dst)" using assms(2) that(1) by (auto simp: part_at_def)
    with that assms(3) show ?thesis by (intro average_value_Some) auto
  qed
  obtain new where new: "split_with average_value dst src tag = Some (dst\<lparr>cvalues := new\<rparr>)"
    "length new = length (cvalues dst)"
    "if length (ckeys dst) = length (ckeys src)
     then \<forall>p < length new. new ! p = tag_store tag (cvalues dst ! p) (cvalues src ! p)
     else spread tag (\<lambda>v s e p. v div of_nat (e - s)) ps (cvalues src) (cvalues dst) new"
    using split_with_result [where bv = average_value and g = "\<lambda>v s e p. v div of_nat (e - s)",
        OF assms(1,2) bv] by blast
  have "spread tag (\<lambda>v s e p. v div of_nat (e - s)) ps (cvalues src) (cvalues dst) new"
  proof (cases "length (ckeys dst) = length (ckeys src)")
    case True
    then have ps: "ps = [0..<length (ckeys dst)]" by (rule part_at_full [OF assms(2)])
    have len: "length (ckeys dst) = length (cvalues dst) + 1"
      using assms(1) by (simp add: part_of_def chunk_ok_def)
    have div1: "v div 1 = v" for v :: u64 by simp
    show ?thesis
      unfolding spread_def
    proof (intro conjI allI impI)
      fix k p assume k: "Suc k < length ps" "ps ! k \<le> p" "p < ps ! Suc k"
      then have "p = k" "ps ! Suc k - ps ! k = 1" using ps by auto
      with k new(2,3) True ps len show "new ! p = tag_store tag (cvalues dst ! p)
          (cvalues src ! k div of_nat (ps ! Suc k - ps ! k))"
        by (simp add: div1)
    next
      fix p assume "p < length (cvalues dst)" "p < hd ps \<or> last ps \<le> p"
      then show "new ! p = cvalues dst ! p" using ps len by (auto simp del: upt_Suc)
    qed (use new in simp)
  qed (use new in simp)
  with new(1) show ?thesis by (auto simp: average_Split_def)
qed

lemma sum_list_const: "(\<forall>x\<in>set xs. x = (c::nat)) \<Longrightarrow> sum_list xs = length xs * c"
  by (induction xs) auto

lemma unat_div_of_nat:
  "n < 2 ^ 64 \<Longrightarrow> unat (v div of_nat n :: u64) = unat v div n"
  by (simp add: unat_div unat_of_nat)

text \<open>
  The average splitter never panics on a source whose keys are some of the destination's
  (interned) keys; every bucket of the source is spread evenly over the destination's buckets
  it covers, which adds up to the bucket's value less a remainder smaller than their number,
  and the buckets outside the source keep their values.
\<close>

theorem average_Split_even:
  assumes "part_of dst src" and "length (ckeys dst) < 2 ^ 64"
  shows "\<exists>ps new. part_at dst src ps \<and> average_Split dst src splitTo i = Some (dst\<lparr>cvalues := new\<rparr>) \<and>
    (\<forall>k. Suc k < length ps \<longrightarrow>
       nat_sum (take (ps ! Suc k - ps ! k) (drop (ps ! k) new)) +
         unat (cvalues src ! k) mod (ps ! Suc k - ps ! k) = unat (cvalues src ! k)) \<and>
    (\<forall>p < length (cvalues dst). p < hd ps \<or> last ps \<le> p \<longrightarrow> new ! p = cvalues dst ! p)"
proof -
  obtain ps where ps: "part_at dst src ps" using assms(1) by (auto simp: part_of_def)
  obtain new where new: "average_Split dst src splitTo i = Some (dst\<lparr>cvalues := new\<rparr>)"
    "spread splitTo (\<lambda>v s e p. v div of_nat (e - s)) ps (cvalues src) (cvalues dst) new"
    using average_Split_spread [OF assms(1) ps assms(2)] by blast
  have "nat_sum (take (ps ! Suc k - ps ! k) (drop (ps ! k) new)) +
      unat (cvalues src ! k) mod (ps ! Suc k - ps ! k) = unat (cvalues src ! k)"
    if k: "Suc k < length ps" for k
  proof -
    let ?d = "ps ! Suc k - ps ! k" and ?v = "cvalues src ! k"
    have lt: "ps ! k < ps ! Suc k" "ps ! Suc k < length (ckeys dst)"
      using ps k by (auto simp: part_at_def sorted_wrt_iff_nth_less)
    have len: "length new = length (ckeys dst) - 1"
      using new(2) assms(1) by (simp add: spread_def part_of_def chunk_ok_def)
    have "\<forall>x\<in>set (map unat (take ?d (drop (ps ! k) new))). x = unat ?v div ?d"
    proof
      fix x assume "x \<in> set (map unat (take ?d (drop (ps ! k) new)))"
      then obtain j where j: "j < ?d" "x = unat (new ! (ps ! k + j))"
        using lt len by (auto simp: in_set_conv_nth)
      then have "new ! (ps ! k + j) = ?v div of_nat ?d"
        using new(2) k by (simp add: spread_def tag_store_def)
      moreover have "unat (?v div of_nat ?d) = unat ?v div ?d"
        using lt assms(2) by (intro unat_div_of_nat) auto
      ultimately show "x = unat ?v div ?d" using j(2) by metis
    qed
    then have "nat_sum (take ?d (drop (ps ! k) new)) = ?d * (unat ?v div ?d)"
      using sum_list_const lt len by (fastforce simp: nat_sum_def)
    then show ?thesis by simp
  qed
  with ps new show ?thesis by (auto simp: spread_def)
qed

definition demo_dst :: chunk where
  "demo_dst = \<lparr>ckeys = [GoStr 1 ''a'', GoStr 2 ''b'', GoStr 3 ''c'', GoStr 4 ''d''],
     cvalues = [9, 9, 9]\<rparr>"

definition demo_src :: chunk where
  "demo_src = \<lparr>ckeys = [GoStr 1 ''a'', GoStr 3 ''c''], cvalues = [5]\<rparr>"

lemma demo_part: "part_of demo_dst demo_src"
  unfolding part_of_def
  by (auto simp: demo_dst_def demo_src_def chunk_ok_def axis_keys_ok_def less_char_def interned_def
      equal_def part_at_def intro!: exI [of _ "[0, 2]"])

theorem average_Split_even_witness:
  "\<exists>ps new. part_at demo_dst demo_src ps \<and>
    average_Split demo_dst demo_src splitTo 0 = Some (demo_dst\<lparr>cvalues := new\<rparr>)"
proof -
  have "length (ckeys demo_dst) < 2 ^ 64" by (simp add: demo_dst_def)
  then show ?thesis using average_Split_even [OF demo_part, of 0] by blast
qed

end
