(* ===== verification/MatrixDistance.thy ===== *)
theory MatrixDistance
  imports MatrixSplit
begin

text \<open>
  The distance splitter of \<open>pkg/keyvisual/matrix/distance.go\<close>: for every axis and compact
  key, the distance to the nearest axis that has the key (two passes over the axes), the
  scale factors computed from these distances, and the split of a bucket by the factors.

  The factors are \<open>float64\<close>; their arithmetic is a parameter (\<open>floats\<close>). The worker
  goroutines compute each column independently of the others, so \<open>GenerateScale\<close> is the list
  of its columns; a worker reuses its \<open>tempMap\<close>, which is an argument of the column.
\<close>

record 'f floats =
  f_zero :: 'f
  f_one :: 'f
  f_add :: "'f \<Rightarrow> 'f \<Rightarrow> 'f"
  f_mul :: "'f \<Rightarrow> 'f \<Rightarrow> 'f"
  f_div :: "'f \<Rightarrow> 'f \<Rightarrow> 'f"
  f_of_u64 :: "u64 \<Rightarrow> 'f"
  f_to_u64 :: "'f \<Rightarrow> u64"

record 'f distanceSplitStrategy =
  SplitLevel :: nat
  SplitCount :: nat
  SplitRatioPow :: "'f list"

text \<open>The constructor; \<open>math.Pow\<close> is a parameter, as all float arithmetic.\<close>

definition DistanceSplitStrategy ::
  "('f \<Rightarrow> nat \<Rightarrow> 'f) \<Rightarrow> 'f \<Rightarrow> nat \<Rightarrow> nat \<Rightarrow> 'f distanceSplitStrategy" where
  "DistanceSplitStrategy math_Pow ratio level count =
     \<lparr>SplitLevel = level, SplitCount = count,
      SplitRatioPow = map (\<lambda>i. math_Pow ratio i) [0..<level]\<rparr>"

section \<open>Distances\<close>

text \<open>
  The loop that \<open>updateLeftDis\<close> and \<open>updateRightDis\<close> share: 0 where the compact key is the
  next key of the axis, the value \<open>near\<close> computes elsewhere.
\<close>

fun update_dis ::
  "(nat \<Rightarrow> int option) \<Rightarrow> gostr list \<Rightarrow> gostr list \<Rightarrow> nat \<Rightarrow> nat list \<Rightarrow> int list option" where
  "update_dis near keys compactKeys j [] = Some []"
| "update_dis near keys compactKeys j (i # is) = do {
     hit \<leftarrow> (if j < length keys then do {
               ck \<leftarrow> idx compactKeys i;
               k \<leftarrow> idx keys j;
               Some (equal ck k)
             } else Some False);
     d \<leftarrow> (if hit then Some 0 else near i);
     ds \<leftarrow> update_dis near keys compactKeys (if hit then j + 1 else j) is;
     Some (d # ds)
   }"

definition updateLeftDis ::
  "int list \<Rightarrow> int list \<Rightarrow> gostr list \<Rightarrow> gostr list \<Rightarrow> int list option" where
  "updateLeftDis dis leftDis keys compactKeys = do {
     CheckPartOf compactKeys keys;
     update_dis (\<lambda>i. do { l \<leftarrow> idx leftDis i; Some (l + 1) }) keys compactKeys 0 [0..<length dis]
   }"

definition updateRightDis ::
  "int list \<Rightarrow> int list \<Rightarrow> gostr list \<Rightarrow> gostr list \<Rightarrow> int list option" where
  "updateRightDis dis rightDis keys compactKeys =
     update_dis (\<lambda>i. do { d \<leftarrow> idx dis i; r \<leftarrow> idx rightDis i; Some (Min_int d (r + 1)) })
       keys compactKeys 0 [0..<length dis]"

text \<open>The two passes of \<open>NewSplitter\<close>, left to right and back.\<close>

fun left_pass :: "gostr list \<Rightarrow> int list \<Rightarrow> chunk list \<Rightarrow> int list list option" where
  "left_pass compactKeys leftDis [] = Some []"
| "left_pass compactKeys leftDis (c # cs) = do {
     d \<leftarrow> updateLeftDis (replicate (length compactKeys) 0) leftDis (ckeys c) compactKeys;
     ds \<leftarrow> left_pass compactKeys d cs;
     Some (d # ds)
   }"

fun right_pass :: "gostr list \<Rightarrow> int list \<Rightarrow> (int list \<times> chunk) list \<Rightarrow> int list list option" where
  "right_pass compactKeys virtualColumn [] = Some []"
| "right_pass compactKeys virtualColumn ((dis, c) # rest) = do {
     ds \<leftarrow> right_pass compactKeys virtualColumn rest;
     d \<leftarrow> updateRightDis dis (case ds of [] \<Rightarrow> virtualColumn | r # _ \<Rightarrow> r) (ckeys c) compactKeys;
     Some (d # ds)
   }"

definition key_distances :: "chunk list \<Rightarrow> gostr list \<Rightarrow> int list list option" where
  "key_distances chunks compactKeys =
     (if chunks = [] then None else do {
        let virtualColumn = MemsetInt (replicate (length compactKeys) 0) (int (length chunks));
        dis \<leftarrow> left_pass compactKeys virtualColumn chunks;
        right_pass compactKeys virtualColumn (zip dis chunks)
      })"

section \<open>Scale\<close>

text \<open>The loop of \<open>toBucketDis\<close>, from index \<open>i\<close> down to 1.\<close>

fun bucket_dis :: "nat \<Rightarrow> int list \<Rightarrow> int \<Rightarrow> int list \<times> int" where
  "bucket_dis 0 dis maxDis = (tl dis, maxDis)"
| "bucket_dis (Suc i) dis maxDis =
     (let d = Max_int (dis ! Suc i) (dis ! i) in bucket_dis i (dis[Suc i := d]) (Max_int maxDis d))"

definition toBucketDis :: "int list \<Rightarrow> (int list \<times> int) option" where
  "toBucketDis dis = (if dis = [] then None else Some (bucket_dis (length dis - 1) dis 0))"

definition idx_int :: "'a list \<Rightarrow> int \<Rightarrow> 'a option" where
  "idx_int xs i = (if i < 0 then None else idx xs (nat i))"

definition set_idx_int :: "'a list \<Rightarrow> int \<Rightarrow> 'a \<Rightarrow> 'a list option" where
  "set_idx_int xs i v = (if i < 0 then None else set_idx xs (nat i) v)"

text \<open>
  The factors of one interval, over the sorted distances from index \<open>i\<close> on; \<open>prev\<close> is the
  distance at \<open>i - 1\<close>.
\<close>

fun level_loop ::
  "'f floats \<Rightarrow> 'f distanceSplitStrategy \<Rightarrow> nat \<Rightarrow> nat \<Rightarrow> 'f \<Rightarrow> 'f \<Rightarrow> 'f list \<Rightarrow> int \<Rightarrow> int list
     \<Rightarrow> ('f \<times> 'f list) option" where
  "level_loop F s i level tempValue tempSum tempMap prev [] = Some (tempSum, tempMap)"
| "level_loop F s i level tempValue tempSum tempMap prev (d # ds) = do {
     (level, tempValue, tempMap) \<leftarrow>
       (if d \<noteq> prev then do {
          let level = level + 1;
          if SplitLevel s \<le> level \<or> SplitCount s \<le> i
          then do {
            m \<leftarrow> set_idx_int tempMap d (f_zero F);
            Some (level, tempValue, m)
          }
          else do {
            v \<leftarrow> idx (SplitRatioPow s) level;
            m \<leftarrow> set_idx_int tempMap d v;
            Some (level, v, m)
          }
        } else Some (level, tempValue, tempMap));
     level_loop F s (i + 1) level tempValue (f_add F tempSum tempValue) tempMap d ds
   }"

definition interval_factors ::
  "'f floats \<Rightarrow> 'f distanceSplitStrategy \<Rightarrow> 'f list \<Rightarrow> int list \<Rightarrow> ('f \<times> 'f list) option" where
  "interval_factors F s tempMap dis =
     (case sort dis of
        [] \<Rightarrow> None
      | d # ds \<Rightarrow> do {
          m \<leftarrow> set_idx_int tempMap d (f_one F);
          level_loop F s 1 0 (f_one F) (f_one F) m d ds
        })"

text \<open>The loop over the keys of the axis; \<open>scale\<close> is filled from the left.\<close>

fun scale_loop ::
  "'f floats \<Rightarrow> 'f distanceSplitStrategy \<Rightarrow> gostr list \<Rightarrow> int list \<Rightarrow> nat \<Rightarrow> nat \<Rightarrow> gostr list
     \<Rightarrow> 'f list \<Rightarrow> 'f list \<Rightarrow> ('f list \<times> 'f list) option" where
  "scale_loop F s compactKeys dis start end [] tempMap scale = Some (scale, tempMap)"
| "scale_loop F s compactKeys dis start end (key # keys) tempMap scale = do {
     end \<leftarrow> find_key compactKeys key end;
     (scale, tempMap) \<leftarrow>
       (if start + 1 = end then do {
          scale \<leftarrow> set_idx scale start (f_one F);
          Some (scale, tempMap)
        } else do {
          tempDis \<leftarrow> go_slice dis start end;
          (tempSum, tempMap) \<leftarrow> interval_factors F s tempMap tempDis;
          factors \<leftarrow> those_columns (\<lambda>d. do { v \<leftarrow> idx_int tempMap d; Some (f_div F v tempSum) }) tempDis;
          Some (take start scale @ factors @ drop end scale, tempMap)
        });
     scale_loop F s compactKeys dis end (end + 1) keys tempMap scale
   }"

text \<open>\<open>for tempMapCap <= maxDis { tempMapCap *= 2 }\<close> reallocates the map when it is too small.\<close>

function grow_cap :: "nat \<Rightarrow> int \<Rightarrow> nat" where
  "grow_cap cap maxDis = (if int cap \<le> maxDis \<and> 0 < cap then grow_cap (cap * 2) maxDis else cap)"
  by pat_completeness auto
termination by (relation "measure (\<lambda>(cap, maxDis). nat (maxDis + 1) - cap)") auto

definition scale_column ::
  "'f floats \<Rightarrow> 'f distanceSplitStrategy \<Rightarrow> 'f list \<Rightarrow> int list \<Rightarrow> gostr list \<Rightarrow> gostr list
     \<Rightarrow> ('f list \<times> 'f list) option" where
  "scale_column F s tempMap dis keys compactKeys = do {
     (dis, maxDis) \<leftarrow> toBucketDis dis;
     let scale = replicate (length dis) (f_zero F);
     let tempMap = (if int (length tempMap) \<le> maxDis
                    then replicate (grow_cap (length tempMap) maxDis) (f_zero F) else tempMap);
     startKey \<leftarrow> idx keys 0;
     start \<leftarrow> find_key compactKeys startKey 0;
     scale_loop F s compactKeys dis start (start + 1) (tl keys) tempMap scale
   }"

definition GenerateScale ::
  "'f floats \<Rightarrow> 'f distanceSplitStrategy \<Rightarrow> chunk list \<Rightarrow> gostr list \<Rightarrow> int list list \<Rightarrow> 'f list list option"
where
  "GenerateScale F s chunks compactKeys dis =
     those_columns (\<lambda>(d, c). do {
       (scale, _) \<leftarrow> scale_column F s (replicate 256 (f_zero F)) d (ckeys c) compactKeys;
       Some scale
     }) (zip dis chunks)"

section \<open>The splitter\<close>

definition distance_value ::
  "'f floats \<Rightarrow> 'f list list \<Rightarrow> nat \<Rightarrow> u64 \<Rightarrow> nat \<Rightarrow> nat \<Rightarrow> nat \<Rightarrow> u64 option" where
  "distance_value F Scale axesIndex value start end pos = do {
     column \<leftarrow> idx Scale axesIndex;
     x \<leftarrow> idx column pos;
     Some (f_to_u64 F (f_mul F (f_of_u64 F value) x))
   }"

definition distance_Split :: "'f floats \<Rightarrow> 'f list list \<Rightarrow> Splitter" where
  "distance_Split F Scale dst src tag axesIndex = split_with (distance_value F Scale axesIndex) dst src tag"

definition distance_NewSplitter :: "'f floats \<Rightarrow> 'f distanceSplitStrategy \<Rightarrow> SplitStrategy" where
  "distance_NewSplitter F s chunks compactKeys = do {
     dis \<leftarrow> key_distances chunks compactKeys;
     Scale \<leftarrow> GenerateScale F s chunks compactKeys dis;
     Some (distance_Split F Scale)
   }"

end
