(* ===== verification/TidbCodec.thy ===== *)
theory TidbCodec
  imports Prelude
begin

text \<open>
  The TiDB key codec (\<open>pkg/tidb/model/codec.go\<close>, also kept as
  \<open>util/client/tidbclient/tidbproto/codec.go\<close>): the memcomparable encoding of byte strings,
  the order-preserving encoding of \<open>int64\<close>, and the questions asked of a decoded key.

  Bytes are \<open>8 word\<close>, \<open>int64\<close> is \<open>64 word\<close> read with \<open>sint\<close>. A decoded key shares memory with
  the buffer it was decoded into; a \<open>KeyInfoBuffer\<close> here is its content when returned.
\<close>

unbundle bit_operations_syntax

type_synonym byte = "8 word"
type_synonym i64 = "64 word"
type_synonym KeyInfoBuffer = "byte list"

datatype codec_error =
    InsufficientBytes
  | InvalidMarker "byte list"
  | InvalidPadding "byte list"

definition tablePrefix :: "byte list" where "tablePrefix = [116]"
definition metaPrefix :: "byte list" where "metaPrefix = [109]"
definition recordPrefix :: "byte list" where "recordPrefix = [114]"
definition signMask :: u64 where "signMask = 0x8000000000000000"
definition encGroupSize :: nat where "encGroupSize = 8"
definition encMarker :: byte where "encMarker = 0xFF"
definition encPad :: byte where "encPad = 0"

definition has_prefix :: "byte list \<Rightarrow> byte list \<Rightarrow> bool" where
  "has_prefix b p \<longleftrightarrow> take (length p) b = p"

section \<open>Byte strings\<close>

function decode_groups ::
  "byte list \<Rightarrow> byte list \<Rightarrow> codec_error + byte list \<times> byte list" where
  "decode_groups b buf =
     (if length b < encGroupSize + 1 then Inl InsufficientBytes
      else
        let groupBytes = take (encGroupSize + 1) b;
            group = take encGroupSize groupBytes;
            marker = groupBytes ! encGroupSize;
            padCount = encMarker - marker
        in if of_nat encGroupSize < padCount then Inl (InvalidMarker groupBytes)
        else
          let realGroupSize = encGroupSize - unat padCount;
              buf = buf @ take realGroupSize group;
              b = drop (encGroupSize + 1) b
          in if padCount \<noteq> 0
             then if \<exists>v\<in>set (drop realGroupSize group). v \<noteq> encPad
                  then Inl (InvalidPadding groupBytes)
                  else Inr (b, buf)
             else decode_groups b buf)"
  by pat_completeness auto
termination by (relation "measure (\<lambda>(b, buf). length b)") (auto simp: encGroupSize_def)

declare decode_groups.simps [simp del]

definition decodeBytes :: "byte list \<Rightarrow> codec_error + byte list \<times> byte list" where
  "decodeBytes b = decode_groups b []"

function encodeBytes :: "byte list \<Rightarrow> byte list" where
  "encodeBytes data =
     (let remain = length data in
      if encGroupSize \<le> remain
      then take encGroupSize data @ [encMarker - of_nat 0] @ encodeBytes (drop encGroupSize data)
      else
        let padCount = encGroupSize - remain
        in data @ replicate padCount encPad @ [encMarker - of_nat padCount])"
  by pat_completeness auto
termination by (relation "measure length") (auto simp: encGroupSize_def)

declare encodeBytes.simps [simp del]

section \<open>Integers\<close>

definition decodeCmpUintToInt :: "u64 \<Rightarrow> i64" where
  "decodeCmpUintToInt u = u XOR signMask"

definition encodeIntToCmpUint :: "i64 \<Rightarrow> u64" where
  "encodeIntToCmpUint v = v XOR signMask"

text \<open>\<open>binary.BigEndian\<close> of Go's standard library.\<close>

definition put_uint64 :: "u64 \<Rightarrow> byte list" where
  "put_uint64 u = map (\<lambda>k. word_of_nat (unat u div 256 ^ (7 - k))) [0..<8]"

definition get_uint64 :: "byte list \<Rightarrow> u64" where
  "get_uint64 bs = word_of_nat (foldl (\<lambda>a b. a * 256 + unat b) 0 bs)"

definition decodeInt :: "byte list \<Rightarrow> codec_error + byte list \<times> i64" where
  "decodeInt b =
     (if length b < 8 then Inl InsufficientBytes
      else Inr (drop 8 b, decodeCmpUintToInt (get_uint64 (take 8 b))))"

definition encodeInt :: "byte list \<Rightarrow> i64 \<Rightarrow> byte list" where
  "encodeInt b v = b @ put_uint64 (encodeIntToCmpUint v)"

text \<open>The value of \<open>_, v, _ := decodeInt(b)\<close>, which is 0 on an error.\<close>

definition decoded_int :: "byte list \<Rightarrow> i64" where
  "decoded_int b = (case decodeInt b of Inl _ \<Rightarrow> 0 | Inr (_, v) \<Rightarrow> v)"

section \<open>Keys\<close>

text \<open>\<open>DecodeKey\<close> returns the buffer's new content with the result.\<close>

definition DecodeKey :: "byte list \<Rightarrow> KeyInfoBuffer \<times> (codec_error + KeyInfoBuffer)" where
  "DecodeKey key =
     (case decodeBytes key of
        Inl err \<Rightarrow> ([], Inl err)
      | Inr (_, result) \<Rightarrow> (result, Inr result))"

definition MetaOrTable :: "KeyInfoBuffer \<Rightarrow> bool \<times> i64" where
  "MetaOrTable buf =
     (if has_prefix buf metaPrefix then (True, 0)
      else if has_prefix buf tablePrefix
      then (False, decoded_int (drop (length tablePrefix) buf))
      else (False, 0))"

definition RowInfo :: "KeyInfoBuffer \<Rightarrow> bool \<times> i64" where
  "RowInfo buf =
     (if \<not> has_prefix buf tablePrefix \<or> length buf < 19 \<or> \<not> (buf ! 9 = 95 \<and> buf ! 10 = 114)
      then (False, 0)
      else
        let isCommonHandle = (length buf \<noteq> 19)
        in (isCommonHandle,
            if \<not> isCommonHandle then decoded_int (take 8 (drop 11 buf)) else 0))"

definition IndexInfo :: "KeyInfoBuffer \<Rightarrow> i64" where
  "IndexInfo buf =
     (if \<not> has_prefix buf tablePrefix \<or> length buf < 19 \<or> \<not> (buf ! 9 = 95 \<and> buf ! 10 = 105)
      then 0 else decoded_int (take 8 (drop 11 buf)))"

text \<open>\<open>GenerateKey\<close>; \<open>None\<close> is a nil key, and the buffer is returned with it.\<close>

definition GenerateKey :: "KeyInfoBuffer \<Rightarrow> i64 \<Rightarrow> i64 \<Rightarrow> KeyInfoBuffer \<times> byte list option" where
  "GenerateKey buf tableID rowID =
     (if tableID = 0 then (buf, None)
      else
        let data = encodeInt tablePrefix tableID;
            data = (if rowID \<noteq> 0 then encodeInt (data @ recordPrefix) rowID else data)
        in (data, Some (encodeBytes data)))"

end
