(* ===== verification/CodecProps.thy ===== *)
theory CodecProps
  imports TidbCodec
begin

text \<open>
  The codec is right: decoding inverts encoding and encoding inverts decoding, both
  encodings are order preserving, and the questions asked of a key generated for a table
  give the table back.
\<close>

section \<open>Round trips of byte strings\<close>

lemma encode_long:
  "8 \<le> length data \<Longrightarrow> encodeBytes data = take 8 data @ [255] @ encodeBytes (drop 8 data)"
  by (subst encodeBytes.simps) (simp add: encGroupSize_def encMarker_def)

lemma encode_short:
  "length data < 8 \<Longrightarrow>
   encodeBytes data = data @ replicate (8 - length data) 0 @ [255 - of_nat (8 - length data)]"
  by (subst encodeBytes.simps) (simp add: encGroupSize_def encMarker_def encPad_def Let_def)

lemma pad_marker:
  assumes "k \<le> 8"
  shows "255 - (255 - of_nat k) = (of_nat k :: byte)" and "unat (of_nat k :: byte) = k"
    and "\<not> (8 :: byte) < of_nat k"
  using assms by (simp_all add: unat_of_nat word_less_nat_alt)

lemma decode_encode_groups:
  "decode_groups (encodeBytes data @ rest) buf = Inr (rest, buf @ data)"
proof (induction data arbitrary: buf rule: encodeBytes.induct)
  case (1 data)
  show ?case
  proof (cases "8 \<le> length data")
    case True
    have IH: "decode_groups (encodeBytes (drop 8 data) @ rest) buf' = Inr (rest, buf' @ drop 8 data)" for buf'
      using 1 [OF refl] True by (simp add: encGroupSize_def)
    show ?thesis
      using True IH [of "buf @ take 8 data"]
      by (subst decode_groups.simps)
        (simp add: encode_long encGroupSize_def encMarker_def nth_append Let_def)
  next
    case False
    define k where "k = 8 - length data"
    have k: "0 < k" "k \<le> 8" "length data = 8 - k" using False by (auto simp: k_def)
    have "(of_nat k :: byte) \<noteq> 0" using k pad_marker(2) [of k] by (metis unat_0 less_irrefl)
    moreover have "encodeBytes data = data @ replicate k 0 @ [255 - of_nat k]"
      using False encode_short [of data] by (simp add: k_def)
    moreover have "\<not> 8 < 8 - k" by simp
    ultimately show ?thesis
      using k pad_marker [of k]
      by (subst decode_groups.simps)
        (simp add: encGroupSize_def encMarker_def encPad_def nth_append Let_def)
  qed
qed

lemma decode_groups_encode:
  "decode_groups b buf = Inr (rest, r) \<Longrightarrow> \<exists>d. r = buf @ d \<and> b = encodeBytes d @ rest"
proof (induction "length b" arbitrary: b buf rule: less_induct)
  case less
  define g where "g = take 8 b"
  define m where "m = b ! 8"
  define p where "p = 255 - m"
  have len: "9 \<le> length b" using less.prems
    by (subst (asm) decode_groups.simps) (auto simp: encGroupSize_def split: if_splits)
  have b: "b = g @ [m] @ drop 9 b" "length g = 8"
    using len id_take_nth_drop [of 8 b] by (simp_all add: g_def m_def)
  have "take (Suc 8) b = take 8 b @ [b ! 8]" using len by (intro take_Suc_conv_app_nth) simp
  then have g9: "take 9 b = g @ [m]" by (simp add: g_def m_def)
  have dec: "decode_groups b buf =
    (if 8 < p then Inl (InvalidMarker (g @ [m]))
     else if p \<noteq> 0 then if \<exists>v\<in>set (drop (8 - unat p) g). v \<noteq> 0 then Inl (InvalidPadding (g @ [m]))
        else Inr (drop 9 b, buf @ take (8 - unat p) g)
     else decode_groups (drop 9 b) (buf @ g))"
    using len g9 b(2) nth_append_length [of g m "[]"]
    by (subst decode_groups.simps)
      (simp add: encGroupSize_def encMarker_def encPad_def p_def Let_def)
  show ?case
  proof (cases "p = 0")
    case True
    then have m: "m = 255" by (simp add: p_def)
    have "decode_groups (drop 9 b) (buf @ g) = Inr (rest, r)" using dec less.prems True by simp
    moreover have "length (drop 9 b) < length b" using len by simp
    ultimately obtain d where d: "r = buf @ g @ d" "drop 9 b = encodeBytes d @ rest"
      using less.hyps [of "drop 9 b" "buf @ g"] by auto
    have "encodeBytes (g @ d) = g @ [m] @ encodeBytes d" using encode_long [of "g @ d"] b(2) m by simp
    with d b(1) show ?thesis by (intro exI [of _ "g @ d"]) auto
  next
    case False
    let ?k = "unat p"
    have k: "0 < ?k" using False by (simp add: unat_gt_0)
    have cond: "\<not> 8 < p" "\<forall>v\<in>set (drop (8 - ?k) g). v = 0" "rest = drop 9 b" "r = buf @ take (8 - ?k) g"
      using dec less.prems False by (auto split: if_splits)
    have k8: "?k \<le> 8" using cond(1) by (simp add: word_less_nat_alt not_less)
    let ?d = "take (8 - ?k) g"
    have zeros: "drop (8 - ?k) g = replicate ?k 0"
      using cond(2) b(2) k8 by (intro replicate_eqI) auto
    have "m = 255 - of_nat ?k" by (simp add: p_def)
    then have "encodeBytes ?d = (?d @ replicate ?k 0) @ [m]"
      using encode_short [of ?d] b(2) k k8 by simp
    also have "?d @ replicate ?k 0 = g" by (simp only: zeros [symmetric] append_take_drop_id)
    finally have "b = encodeBytes ?d @ rest" using b(1) cond(3) by simp
    with cond(4) show ?thesis by blast
  qed
qed

lemma codec_bytes: "decodeBytes (encodeBytes data @ rest) = Inr (rest, data)"
  using decode_encode_groups [of data rest "[]"] by (simp add: decodeBytes_def)

text \<open>
  The memcomparable codec is a bijection onto its image: decoding an encoded string
  followed by any bytes gives the string and the bytes back, and whatever decodes without an
  error is the encoding of the result followed by the rest.
\<close>

theorem codec_bytes_roundtrip:
  "decodeBytes (encodeBytes data @ rest) = Inr (rest, data) \<and>
   (decodeBytes b = Inr (rest, data) \<longleftrightarrow> b = encodeBytes data @ rest)"
  using codec_bytes [of data rest] decode_groups_encode [of b "[]" rest data]
  by (auto simp: decodeBytes_def)

section \<open>The order of byte strings\<close>

lemma append_less_iff:
  "length x = length y \<Longrightarrow> (x @ s < y @ t) \<longleftrightarrow> (x < y \<or> x = y \<and> s < (t :: 'a :: linorder list))"
  by (induction x y rule: list_induct2) auto

definition padded :: "nat \<Rightarrow> byte list \<Rightarrow> byte list" where
  "padded n a = take n a @ replicate (n - length a) 0"

lemma length_padded [simp]: "length (padded n a) = n"
  by (simp add: padded_def)

lemma zeros_le: "replicate (length xs) 0 \<le> (xs :: byte list)"
  by (induction xs) (auto simp: order_le_less word_gt_0)

lemma padded_less:
  "a < b \<Longrightarrow> padded n a < padded n b \<or> padded n a = padded n b \<and>
    (min n (length a) < min n (length b) \<or> n \<le> length a \<and> n \<le> length b \<and> drop n a < drop n b)"
proof (induction n arbitrary: a b)
  case (Suc n)
  obtain y ys where b: "b = y # ys" using Suc.prems by (cases b) auto
  show ?case
  proof (cases a)
    case Nil
    have "padded (Suc n) a = replicate (length (padded (Suc n) b)) 0"
      unfolding length_padded using Nil by (simp add: padded_def)
    then have "padded (Suc n) a \<le> padded (Suc n) b" by (simp only: zeros_le)
    then show ?thesis using Nil b by (auto simp: order_le_less)
  next
    case (Cons x xs)
    then consider "x < y" | "x = y" "xs < ys" using Suc.prems b by auto
    then show ?thesis
    proof cases
      case 2
      then show ?thesis using Suc.IH [of xs ys] Cons b by (simp add: padded_def)
    qed (use Cons b in \<open>simp add: padded_def\<close>)
  qed
qed (simp add: padded_def)

lemma encode_unfold:
  "encodeBytes a = padded 8 a @ (255 - of_nat (8 - min 8 (length a))) #
     (if 8 \<le> length a then encodeBytes (drop 8 a) else [])"
  using encode_long [of a] encode_short [of a]
  by (cases "8 \<le> length a") (simp_all add: padded_def min_def)

lemma marker_less:
  assumes "i < j" and "j \<le> 8"
  shows "255 - of_nat (8 - i) < (255 - of_nat (8 - j) :: byte)"
proof -
  have "unat (255 - of_nat k :: byte) = 255 - k" if "k \<le> 8" for k
    using that by (subst unat_sub) (simp_all add: word_le_nat_alt unat_of_nat)
  from this [of "8 - i"] this [of "8 - j"] show ?thesis
    using assms unfolding word_less_nat_alt by linarith
qed

lemma encode_less: "a < b \<Longrightarrow> encodeBytes a < encodeBytes b"
proof (induction "length a" arbitrary: a b rule: less_induct)
  case less
  from padded_less [OF less.prems, of 8] consider
    "padded 8 a < padded 8 b"
    | "padded 8 a = padded 8 b" "min 8 (length a) < min 8 (length b)"
    | "padded 8 a = padded 8 b" "8 \<le> length a" "8 \<le> length b" "drop 8 a < drop 8 b"
    by blast
  then show ?case
  proof cases
    case 1
    then show ?thesis by (subst (1 2) encode_unfold) (simp add: append_less_iff)
  next
    case 2
    then have "255 - of_nat (8 - min 8 (length a)) < (255 - of_nat (8 - min 8 (length b)) :: byte)"
      by (intro marker_less) auto
    then show ?thesis
      using 2(1) by (simp only: encode_unfold [of a] encode_unfold [of b] append_less_iff
          length_padded Cons_less_Cons) blast
  next
    case 3
    then have "encodeBytes (drop 8 a) < encodeBytes (drop 8 b)" by (intro less.hyps) auto
    then show ?thesis using 3 by (subst (1 2) encode_unfold) (simp add: append_less_iff min_def)
  qed
qed

text \<open>
  The encoding of byte strings is order preserving, as its comment guarantees: byte-wise
  comparison of the encoded keys is byte-wise comparison of the keys.
\<close>

theorem encodeBytes_order: "encodeBytes a < encodeBytes b \<longleftrightarrow> a < b"
  using encode_less [of a b] encode_less [of b a] by (cases a b rule: linorder_cases) auto

section \<open>Integers\<close>

text \<open>The \<open>k\<close> low bytes of \<open>n\<close>, most significant first.\<close>

definition be_bytes :: "nat \<Rightarrow> nat \<Rightarrow> byte list" where
  "be_bytes k n = map (\<lambda>i. word_of_nat (n div 256 ^ (k - Suc i))) [0..<k]"

lemma be_bytes_Suc: "be_bytes (Suc k) n = be_bytes k (n div 256) @ [word_of_nat n]"
proof -
  have "n div 256 ^ (k - i) = n div 256 div 256 ^ (k - Suc i)" if "i < k" for i
  proof -
    have "k - i = Suc (k - Suc i)" using that by simp
    then show ?thesis by (simp add: div_mult2_eq)
  qed
  then show ?thesis by (simp add: be_bytes_def)
qed

lemma length_be_bytes [simp]: "length (be_bytes k n) = k"
  by (simp add: be_bytes_def)

lemma put_uint64_be: "put_uint64 u = be_bytes 8 (unat u)"
  by (simp add: put_uint64_def be_bytes_def)

lemma unat_byte: "unat (word_of_nat n :: byte) = n mod 256"
  by (simp add: unat_of_nat)

lemma foldl_be_bytes:
  "foldl (\<lambda>a b. a * 256 + unat b) 0 (be_bytes k n) = n mod 256 ^ k"
proof (induction k arbitrary: n)
  case (Suc k)
  have "n mod 256 ^ Suc k = 256 * (n div 256 mod 256 ^ k) + n mod 256"
    by (simp add: mod_mult2_eq)
  then show ?case using Suc.IH [of "n div 256"] by (simp add: be_bytes_Suc unat_byte)
qed (simp add: be_bytes_def)

lemma get_put_uint64: "get_uint64 (put_uint64 u) = u"
proof -
  have "unat u mod 256 ^ 8 = unat u" using unat64_less [of u] by simp
  then show ?thesis unfolding get_uint64_def put_uint64_be foldl_be_bytes by simp
qed

lemma digits_less:
  "b < 256 \<Longrightarrow> d < 256 \<Longrightarrow> (a < c \<or> a = c \<and> b < d) \<longleftrightarrow> 256 * a + b < 256 * c + (d :: nat)"
  by (cases a c rule: linorder_cases) auto

lemma be_bytes_less:
  "m < 256 ^ k \<Longrightarrow> n < 256 ^ k \<Longrightarrow> be_bytes k m < be_bytes k n \<longleftrightarrow> m < n"
proof (induction k arbitrary: m n)
  case (Suc k)
  have lt: "m div 256 < 256 ^ k" "n div 256 < 256 ^ k" using Suc.prems by auto
  have eq: "be_bytes k (m div 256) = be_bytes k (n div 256) \<longleftrightarrow> m div 256 = n div 256"
    using Suc.IH [OF lt] Suc.IH [OF lt(2,1)] by (metis linorder_neqE_nat less_irrefl)
  have "(word_of_nat m :: byte) < word_of_nat n \<longleftrightarrow> m mod 256 < n mod 256"
    by (simp add: word_less_nat_alt unat_byte)
  then have "be_bytes (Suc k) m < be_bytes (Suc k) n \<longleftrightarrow>
      m div 256 < n div 256 \<or> m div 256 = n div 256 \<and> m mod 256 < n mod 256"
    by (simp add: be_bytes_Suc append_less_iff Suc.IH [OF lt] eq)
  also have "\<dots> \<longleftrightarrow> m < n"
    using digits_less [of "m mod 256" "n mod 256" "m div 256" "n div 256"] by simp
  finally show ?case .
qed (simp add: be_bytes_def)

lemma put_uint64_less: "put_uint64 u < put_uint64 v \<longleftrightarrow> u < v"
proof -
  have "unat u < 256 ^ 8" "unat v < 256 ^ 8" using unat64_less [of u] unat64_less [of v] by simp_all
  then show ?thesis unfolding put_uint64_be word_less_nat_alt by (rule be_bytes_less)
qed

lemma length_put_uint64 [simp]: "length (put_uint64 u) = 8"
  by (simp add: put_uint64_be)

lemma decodeCmp_encodeInt: "decodeCmpUintToInt (encodeIntToCmpUint v) = v"
  by (simp add: decodeCmpUintToInt_def encodeIntToCmpUint_def xor.assoc)

lemma and_exp_eq_signMask: "v AND signMask = (if bit v 63 then signMask else 0)"
proof (rule bit_word_eqI)
  fix n assume "n < LENGTH(64)"
  have "bit (2 ^ 63 :: u64) n \<longleftrightarrow> n = 63"
    using bit_exp_iff [where ?'a = u64, of 63 n] \<open>n < LENGTH(64)\<close> by auto
  moreover have "signMask = 2 ^ 63" by (simp add: signMask_def)
  ultimately have "bit signMask n \<longleftrightarrow> n = 63" by metis
  then show "bit (v AND signMask) n = bit (if bit v 63 then signMask else 0) n"
    by (auto simp: bit_and_iff)
qed

lemma xor_signMask: "v XOR signMask = v + signMask"
proof (cases "v AND signMask = 0")
  case False
  have and_mask: "v AND signMask = (if bit v 63 then signMask else 0)"
    using and_exp_eq_signMask by simp
  then have "NOT v AND signMask = 0"
    using False and_exp_eq_signMask [of "NOT v"] by (simp add: bit_not_iff split: if_splits)
  then have "v XOR signMask = v - signMask"
    by (simp add: disjunctive_diff_eq_and_not disjunctive_diff_eq_xor)
  also have "\<dots> = v + signMask" by (simp add: signMask_def)
  finally show ?thesis .
qed (simp add: disjunctive_add_eq_xor)

lemma sint_i64: "sint (v :: i64) = (if uint v < 2 ^ 63 then uint v else uint v - 2 ^ 64)"
proof -
  have lt: "0 \<le> uint v" "uint v < 2 ^ 64" using uint_lt2p [of v] by simp_all
  have "bit (uint v) 63 \<longleftrightarrow> odd (uint v div 2 ^ 63)" by (rule bit_iff_odd)
  also have "\<dots> \<longleftrightarrow> 2 ^ 63 \<le> uint v"
  proof (cases "2 ^ 63 \<le> uint v")
    case True
    then have "uint v div 2 ^ 63 = 1" using lt by (intro int_div_pos_eq [where r = "uint v - 2 ^ 63"]) auto
    with True show ?thesis by simp
  qed (use lt in simp)
  finally have "bit (uint v) 63 \<longleftrightarrow> 2 ^ 63 \<le> uint v" .
  moreover have "take_bit 64 (uint v) = uint v" using lt by (simp add: take_bit_int_eq_self)
  ultimately show ?thesis
    by (simp add: sint_uint signed_take_bit_eq_take_bit_minus)
qed

lemma cmp_uint_eq: "uint (encodeIntToCmpUint v) = sint v + 2 ^ 63"
  unfolding encodeIntToCmpUint_def xor_signMask sint_i64 uint_plus_if'
  using uint_lt2p [of v] by (simp add: signMask_def)

lemma length_encodeInt [simp]: "length (encodeInt b v) = length b + 8"
  by (simp add: encodeInt_def)

lemma decode_encodeInt: "decodeInt (put_uint64 (encodeIntToCmpUint v) @ rest) = Inr (rest, v)"
  by (simp add: decodeInt_def get_put_uint64 decodeCmp_encodeInt)

text \<open>The encoding of \<open>int64\<close> is decoded by \<open>decodeInt\<close>, which leaves the bytes after it, and
  is order preserving: the byte-wise order of two encoded numbers, after the same prefix, is
  their signed order.
\<close>

theorem encodeInt_roundtrip_order:
  "decodeInt (encodeInt [] v @ rest) = Inr (rest, v) \<and>
   (encodeInt b v < encodeInt b w \<longleftrightarrow> sint v < sint w)"
proof
  show "decodeInt (encodeInt [] v @ rest) = Inr (rest, v)"
    using decode_encodeInt [of v rest] by (simp add: encodeInt_def)
  have "encodeInt b v < encodeInt b w \<longleftrightarrow> encodeIntToCmpUint v < encodeIntToCmpUint w"
    by (simp add: encodeInt_def append_less_iff put_uint64_less)
  also have "\<dots> \<longleftrightarrow> sint v < sint w" by (simp add: word_less_def cmp_uint_eq)
  finally show "encodeInt b v < encodeInt b w \<longleftrightarrow> sint v < sint w" .
qed

section \<open>Generated keys\<close>

lemma GenerateKey_table_info:
  assumes "tableID \<noteq> 0"
  shows "\<exists>buf' key. GenerateKey buf tableID 0 = (buf', Some key) \<and> DecodeKey key = (buf', Inr buf') \<and>
    MetaOrTable buf' = (False, tableID) \<and> RowInfo buf' = (False, 0) \<and> IndexInfo buf' = 0"
proof -
  define d where "d = encodeInt tablePrefix tableID"
  have d: "d = 116 # put_uint64 (encodeIntToCmpUint tableID)" by (simp add: d_def encodeInt_def tablePrefix_def)
  have "DecodeKey (encodeBytes d) = (d, Inr d)"
    using codec_bytes [of d "[]"] by (simp add: DecodeKey_def)
  moreover have "decodeInt (put_uint64 (encodeIntToCmpUint tableID)) = Inr ([], tableID)"
    using decode_encodeInt [of tableID "[]"] by simp
  then have "MetaOrTable d = (False, tableID)"
    by (simp add: MetaOrTable_def d has_prefix_def metaPrefix_def tablePrefix_def decoded_int_def)
  ultimately show ?thesis
    using assms by (simp add: GenerateKey_def d_def [symmetric] RowInfo_def IndexInfo_def)
      (simp add: d)
qed

text \<open>
  A key generated for a table without a row decodes to a key that is no meta key and
  belongs to the table, with no row and no index.
\<close>

theorem GenerateKey_table:
  assumes "tableID \<noteq> 0"
  shows "\<exists>buf' key. GenerateKey buf tableID 0 = (buf', Some key) \<and> DecodeKey key = (buf', Inr buf') \<and>
    MetaOrTable buf' = (False, tableID) \<and> RowInfo buf' = (False, 0) \<and> IndexInfo buf' = 0"
  using GenerateKey_table_info [OF assms] .

theorem GenerateKey_table_witness:
  "\<exists>buf' key. GenerateKey [] 5 0 = (buf', Some key) \<and> MetaOrTable buf' = (False, 5)"
  using GenerateKey_table [of 5 "[]"] by auto

lemma GenerateKey_row_info:
  assumes "tableID \<noteq> 0" and "rowID \<noteq> 0"
  shows "\<exists>buf' key. GenerateKey buf tableID rowID = (buf', Some key) \<and> DecodeKey key = (buf', Inr buf') \<and>
    MetaOrTable buf' = (False, tableID) \<and> RowInfo buf' = (False, 0) \<and> IndexInfo buf' = 0"
proof -
  define d where "d = encodeInt (encodeInt tablePrefix tableID @ recordPrefix) rowID"
  have d: "d = 116 # put_uint64 (encodeIntToCmpUint tableID) @ 114 # put_uint64 (encodeIntToCmpUint rowID)"
    by (simp add: d_def encodeInt_def tablePrefix_def recordPrefix_def)
  have "DecodeKey (encodeBytes d) = (d, Inr d)"
    using codec_bytes [of d "[]"] by (simp add: DecodeKey_def)
  moreover have "MetaOrTable d = (False, tableID)"
    using decode_encodeInt [of tableID "114 # put_uint64 (encodeIntToCmpUint rowID)"]
    by (simp add: MetaOrTable_def d has_prefix_def metaPrefix_def tablePrefix_def decoded_int_def)
  moreover have "length d = 18" by (simp add: d)
  ultimately show ?thesis
    using assms by (simp add: GenerateKey_def d_def [symmetric] RowInfo_def IndexInfo_def)
qed

text \<open>
  A key generated for a row of a table is read back as a key without a row, whatever the
  row: \<open>GenerateKey\<close> writes \<open>r\<close> after the table ID where \<open>RowInfo\<close> looks for \<open>_r\<close>.
\<close>

theorem GenerateKey_row_lost:
  assumes "tableID \<noteq> 0" and "rowID \<noteq> 0"
  shows "\<exists>buf' key. GenerateKey buf tableID rowID = (buf', Some key) \<and> DecodeKey key = (buf', Inr buf') \<and>
    MetaOrTable buf' = (False, tableID) \<and> RowInfo buf' = (False, 0) \<and> IndexInfo buf' = 0"
  using GenerateKey_row_info [OF assms] .

theorem GenerateKey_row_lost_witness:
  "\<exists>buf' key. GenerateKey [] 5 7 = (buf', Some key) \<and> RowInfo buf' = (False, 0)"
  using GenerateKey_row_lost [of 5 7 "[]"] by auto

end
