(* ===== verification/Decorator.thy ===== *)
theory Decorator
  imports CodecProps GoStrings
begin

text \<open>
  The labelers of \<open>pkg/keyvisual/decorator\<close>: naive, separator and TiDB, and the schema
  update of the TiDB strategy. A \<open>Labeler\<close> is the pair of its two methods; \<open>Label\<close> may
  panic on an empty list of keys.
\<close>

record LabelKey =
  lk_Key :: string
  lk_Labels :: "string list"

record Labeler =
  CrossBorder :: "string \<Rightarrow> string \<Rightarrow> bool"
  Label :: "string list \<Rightarrow> LabelKey list option"

text \<open>What the matrix code relies on: one label per key.\<close>

locale labeler_contract =
  fixes label :: "string list \<Rightarrow> LabelKey list option"
  assumes label_total: "keys \<noteq> [] \<Longrightarrow> \<exists>ls. label keys = Some ls"
    and label_length: "label keys = Some ls \<Longrightarrow> length ls = length keys"
begin

lemma label_some:
  assumes "keys \<noteq> []"
  obtains ls where "label keys = Some ls" and "length ls = length keys" and "ls \<noteq> []"
proof -
  obtain ls where ls: "label keys = Some ls" using label_total [OF assms] by blast
  moreover have "length ls = length keys" using label_length [OF ls] .
  moreover have "ls \<noteq> []" using calculation(2) assms by auto
  ultimately show thesis by (rule that)
qed

end

section \<open>Naive and separator\<close>

definition naive_CrossBorder :: "string \<Rightarrow> string \<Rightarrow> bool" where
  "naive_CrossBorder startKey endKey = False"

definition naive_Label :: "string list \<Rightarrow> LabelKey list option" where
  "naive_Label keys =
     Some (map (\<lambda>key. let str = hex_encode key in \<lparr>lk_Key = str, lk_Labels = [str]\<rparr>) keys)"

definition naive_NewLabeler :: Labeler where
  "naive_NewLabeler = \<lparr>CrossBorder = naive_CrossBorder, Label = naive_Label\<rparr>"

definition separator_CrossBorder :: "string \<Rightarrow> string \<Rightarrow> bool" where
  "separator_CrossBorder startKey endKey = False"

definition separator_Label :: "string \<Rightarrow> string list \<Rightarrow> LabelKey list option" where
  "separator_Label Separator keys =
     Some (map (\<lambda>key. \<lparr>lk_Key = key,
        lk_Labels = (if Separator = '''' then [key] else strings_Split key Separator)\<rparr>) keys)"

definition separator_NewLabeler :: "string \<Rightarrow> Labeler" where
  "separator_NewLabeler Separator =
     \<lparr>CrossBorder = separator_CrossBorder, Label = separator_Label Separator\<rparr>"

section \<open>TiDB\<close>

record tableDetail =
  td_Name :: string
  td_DB :: string
  td_ID :: i64
  td_Indices :: "i64 \<rightharpoonup> string"

type_synonym table_map = "i64 \<rightharpoonup> tableDetail"

text \<open>\<open>region.Bytes\<close>.\<close>

definition Bytes :: "string \<Rightarrow> byte list" where
  "Bytes s = map of_char s"

text \<open>\<open>info, _ := e.Buffer.DecodeKey(key)\<close>: nil, an empty buffer, on an error.\<close>

definition key_info :: "byte list \<Rightarrow> KeyInfoBuffer" where
  "key_info key = (case snd (DecodeKey key) of Inl _ \<Rightarrow> [] | Inr info \<Rightarrow> info)"

definition tidb_CrossBorder :: "string \<Rightarrow> string \<Rightarrow> bool" where
  "tidb_CrossBorder startKey endKey =
     (let startInfo = key_info (Bytes startKey);
          (startIsMeta, startTableID) = MetaOrTable startInfo;
          startIndex = IndexInfo startInfo;
          endInfo = key_info (Bytes endKey);
          (endIsMeta, endTableID) = MetaOrTable endInfo;
          endIndex = IndexInfo endInfo
      in if startIsMeta \<or> endIsMeta then startIsMeta \<noteq> endIsMeta
         else if startTableID \<noteq> endTableID then True
         else startIndex \<noteq> endIndex)"

definition tidb_label :: "table_map \<Rightarrow> string \<Rightarrow> LabelKey" where
  "tidb_label TableMap key =
     (let keyBytes = Bytes key;
          hex = hex_encode key;
          keyInfo = key_info keyBytes;
          (isMeta, tableID) = MetaOrTable keyInfo
      in if isMeta then \<lparr>lk_Key = hex, lk_Labels = [''meta'']\<rparr>
         else
           let detail = TableMap tableID;
               labels = (case detail of
                   Some d \<Rightarrow> [td_DB d, td_Name d]
                 | None \<Rightarrow> [''table_'' @ dec_string (sint tableID)]);
               (isCommonHandle, rowID) = RowInfo keyInfo;
               indexID = IndexInfo keyInfo;
               labels =
                 (if isCommonHandle then labels @ [''row'']
                  else if rowID \<noteq> 0 then labels @ [''row_'' @ dec_string (sint rowID)]
                  else if indexID \<noteq> 0 then
                    (case detail of
                       None \<Rightarrow> labels @ [''index_'' @ dec_string (sint indexID)]
                     | Some d \<Rightarrow> (case td_Indices d indexID of
                           Some name \<Rightarrow> labels @ [name]
                         | None \<Rightarrow> labels @ [''index_'' @ dec_string (sint indexID)]))
                  else labels)
           in \<lparr>lk_Key = hex, lk_Labels = labels\<rparr>)"

definition globalStart :: LabelKey where
  "globalStart = \<lparr>lk_Key = '''', lk_Labels = [''meta'']\<rparr>"

definition globalEnd :: LabelKey where
  "globalEnd = \<lparr>lk_Key = '''', lk_Labels = []\<rparr>"

definition tidb_Label :: "table_map \<Rightarrow> string list \<Rightarrow> LabelKey list option" where
  "tidb_Label TableMap keys = do {
     let labelKeys = map (tidb_label TableMap) keys;
     k0 \<leftarrow> idx keys 0;
     let labelKeys = (if k0 = '''' then labelKeys[0 := globalStart] else labelKeys);
     let endIndex = length keys - 1;
     kn \<leftarrow> idx keys endIndex;
     Some (if kn = '''' then labelKeys[endIndex := globalEnd] else labelKeys)
   }"

definition tidb_NewLabeler :: "table_map \<Rightarrow> Labeler" where
  "tidb_NewLabeler TableMap = \<lparr>CrossBorder = tidb_CrossBorder, Label = tidb_Label TableMap\<rparr>"

interpretation naive: labeler_contract naive_Label
  by unfold_locales (auto simp: naive_Label_def)

interpretation separator: labeler_contract "separator_Label sep" for sep
  by unfold_locales (auto simp: separator_Label_def)

interpretation tidb: labeler_contract "tidb_Label tm" for tm
  by unfold_locales (auto simp: tidb_Label_def Let_def bind_eq_Some_conv split: if_splits)

section \<open>The schema update\<close>

datatype SchemaState =
    StateNone | StateDeleteOnly | StateWriteOnly | StateWriteReorganization
  | StateDeleteReorganization | StatePublic

record DBInfo =
  db_Name :: string
  db_State :: SchemaState

record IndexDef =
  ix_ID :: i64
  ix_Name :: string

record PartitionDefinition =
  pd_ID :: i64
  pd_Name :: string

record PartitionInfo =
  Enable :: bool
  Definitions :: "PartitionDefinition list"

record TableInfo =
  tbl_ID :: i64
  tbl_Name :: string
  tbl_Indices :: "IndexDef list"
  tbl_Partition :: "PartitionInfo option"

definition GetPartitionInfo :: "TableInfo \<Rightarrow> PartitionInfo option" where
  "GetPartitionInfo t =
     (case tbl_Partition t of
        Some p \<Rightarrow> if Enable p then Some p else None
      | None \<Rightarrow> None)"

record tidbLabelStrategy =
  st_TableMap :: table_map
  st_SchemaVersion :: int

definition store_table :: "string \<Rightarrow> TableInfo \<Rightarrow> table_map \<Rightarrow> table_map" where
  "store_table dbName table tm =
     (let indices = fold (\<lambda>ix m. m(ix_ID ix \<mapsto> ix_Name ix)) (tbl_Indices table) Map.empty;
          tm = tm(tbl_ID table \<mapsto>
                 \<lparr>td_Name = tbl_Name table, td_DB = dbName, td_ID = tbl_ID table, td_Indices = indices\<rparr>)
      in case GetPartitionInfo table of
           None \<Rightarrow> tm
         | Some part \<Rightarrow> fold (\<lambda>def m. m(pd_ID def \<mapsto>
               \<lparr>td_Name = tbl_Name table @ ''/'' @ pd_Name def, td_DB = dbName, td_ID = pd_ID def,
                td_Indices = indices\<rparr>)) (Definitions part) tm)"

text \<open>
  The loop over the databases, with the answers of TiDB's schema API as a function of the
  path. A failed request skips the database and is remembered.
\<close>

fun update_dbs ::
  "(string \<Rightarrow> string + TableInfo list) \<Rightarrow> DBInfo list \<Rightarrow> table_map \<Rightarrow> bool \<Rightarrow> table_map \<times> bool" where
  "update_dbs request_tables [] tm updateSuccess = (tm, updateSuccess)"
| "update_dbs request_tables (db # dbs) tm updateSuccess =
     (if db_State db = StateNone then update_dbs request_tables dbs tm updateSuccess
      else case request_tables (''/schema/'' @ PathEscape (db_Name db)) of
          Inl err \<Rightarrow> update_dbs request_tables dbs tm False
        | Inr tables \<Rightarrow>
            update_dbs request_tables dbs (fold (store_table (db_Name db)) tables tm) updateSuccess)"

definition updateMap ::
  "string + string list \<Rightarrow> (string \<Rightarrow> string + DBInfo list) \<Rightarrow> (string \<Rightarrow> string + TableInfo list)
     \<Rightarrow> tidbLabelStrategy \<Rightarrow> tidbLabelStrategy" where
  "updateMap etcd_Kvs request_dbs request_tables s =
     (case etcd_Kvs of
        Inl err \<Rightarrow> s
      | Inr kvs \<Rightarrow>
          if length kvs \<noteq> 1 then s
          else case ParseInt (hd kvs) of
              None \<Rightarrow> s
            | Some schemaVersion \<Rightarrow>
                if schemaVersion = st_SchemaVersion s then s
                else case request_dbs ''/schema'' of
                    Inl err \<Rightarrow> s
                  | Inr dbInfos \<Rightarrow>
                      let (tm, updateSuccess) = update_dbs request_tables dbInfos (st_TableMap s) True
                      in if updateSuccess
                         then s\<lparr>st_TableMap := tm, st_SchemaVersion := schemaVersion\<rparr>
                         else s\<lparr>st_TableMap := tm\<rparr>)"

section \<open>What the TiDB strategy guarantees\<close>

text \<open>The logical range of a key: the meta keys, or an index (or the rows) of a table.\<close>

datatype logical_range = MetaRange | TableRange i64 i64

definition range_of_key :: "string \<Rightarrow> logical_range" where
  "range_of_key key =
     (let info = key_info (Bytes key)
      in if fst (MetaOrTable info) then MetaRange
         else TableRange (snd (MetaOrTable info)) (IndexInfo info))"

lemma tidb_CrossBorder_range: "tidb_CrossBorder s e \<longleftrightarrow> range_of_key s \<noteq> range_of_key e"
  by (auto simp: tidb_CrossBorder_def range_of_key_def Let_def split: prod.splits)

lemma key_info_generated:
  assumes "tableID \<noteq> 0" and "GenerateKey buf tableID rowID = (buf', Some key)"
  shows "MetaOrTable (key_info key) = (False, tableID) \<and> IndexInfo (key_info key) = 0"
proof (cases "rowID = 0")
  case True
  then show ?thesis
    using GenerateKey_table_info [OF assms(1), of buf] assms(2) by (auto simp: key_info_def)
next
  case False
  then show ?thesis
    using GenerateKey_row_info [OF assms(1), of rowID buf] assms(2) by (auto simp: key_info_def)
qed

text \<open>
  \<open>CrossBorder\<close> of the TiDB labeler is the complement of an equivalence of keys, and two
  keys generated for (rows of) tables cross a border exactly when the tables differ.
\<close>

theorem tidb_CrossBorder_tables:
  assumes "t1 \<noteq> 0" and "t2 \<noteq> 0"
    and "GenerateKey b1 t1 r1 = (b1', Some (Bytes k1))" and "GenerateKey b2 t2 r2 = (b2', Some (Bytes k2))"
  shows "equivp (\<lambda>s e. \<not> tidb_CrossBorder s e) \<and> (tidb_CrossBorder k1 k2 \<longleftrightarrow> t1 \<noteq> t2)"
proof
  show "equivp (\<lambda>s e. \<not> tidb_CrossBorder s e)"
    unfolding tidb_CrossBorder_range by (intro equivpI reflpI sympI transpI) auto
  show "tidb_CrossBorder k1 k2 \<longleftrightarrow> t1 \<noteq> t2"
    using key_info_generated [OF assms(1,3)] key_info_generated [OF assms(2,4)]
    by (auto simp: tidb_CrossBorder_range range_of_key_def)
qed

definition to_string :: "byte list \<Rightarrow> string" where
  "to_string bs = map (\<lambda>b. char_of (unat b)) bs"

lemma Bytes_to_string [simp]: "Bytes (to_string bs) = bs"
proof -
  have "of_char (char_of (unat b) :: char) = b" for b :: byte
  proof -
    have "unat b mod 256 = unat b" using unsigned_less [where ?'a = nat, of b] by simp
    then have "(of_char (char_of (unat b)) :: nat) = unat b" by simp
    then have "of_nat (of_char (char_of (unat b) :: char)) = (of_nat (unat b) :: byte)"
      by (rule arg_cong)
    then show ?thesis by (simp only: of_nat_of_char) simp
  qed
  then show ?thesis by (simp add: Bytes_def to_string_def map_idI)
qed

theorem tidb_CrossBorder_tables_witness:
  "tidb_CrossBorder (to_string (the (snd (GenerateKey [] 5 0)))) (to_string (the (snd (GenerateKey [] 6 0))))"
  using tidb_CrossBorder_tables [of 5 6 "[]" 0 _ "to_string (the (snd (GenerateKey [] 5 0)))" "[]" 0 _
      "to_string (the (snd (GenerateKey [] 6 0)))"]
  by (auto simp: GenerateKey_def Let_def)

text \<open>The entries that the answers announce, in the order they are stored.\<close>

definition table_entries :: "string \<Rightarrow> TableInfo \<Rightarrow> (i64 \<times> tableDetail) list" where
  "table_entries dbName table =
     (let indices = map_of (rev (map (\<lambda>ix. (ix_ID ix, ix_Name ix)) (tbl_Indices table)));
          entry = (\<lambda>i name. (i, \<lparr>td_Name = name, td_DB = dbName, td_ID = i, td_Indices = indices\<rparr>))
      in entry (tbl_ID table) (tbl_Name table) #
         (case GetPartitionInfo table of
            None \<Rightarrow> []
          | Some part \<Rightarrow> map (\<lambda>def. entry (pd_ID def) (tbl_Name table @ ''/'' @ pd_Name def)) (Definitions part)))"

definition db_entries :: "(string \<Rightarrow> string + TableInfo list) \<Rightarrow> DBInfo \<Rightarrow> (i64 \<times> tableDetail) list" where
  "db_entries request_tables db =
     (if db_State db = StateNone then []
      else case request_tables (''/schema/'' @ PathEscape (db_Name db)) of
          Inl _ \<Rightarrow> []
        | Inr tables \<Rightarrow> concat (map (table_entries (db_Name db)) tables))"

definition db_failed :: "(string \<Rightarrow> string + TableInfo list) \<Rightarrow> DBInfo \<Rightarrow> bool" where
  "db_failed request_tables db \<longleftrightarrow> db_State db \<noteq> StateNone \<and>
     (\<exists>err. request_tables (''/schema/'' @ PathEscape (db_Name db)) = Inl err)"

lemma upd_map_of: "m(a \<mapsto> b) ++ map_of (rev ps) = m ++ map_of (rev ((a, b) # ps))"
  by (simp only: rev.simps map_of_append map_of.simps fst_conv snd_conv map_add_assoc map_add_upd
      map_add_empty)

lemma fold_map_upd: "fold (\<lambda>x m. m(f x \<mapsto> g x)) xs m = m ++ map_of (rev (map (\<lambda>x. (f x, g x)) xs))"
proof (induction xs arbitrary: m)
  case (Cons x xs)
  show ?case
    unfolding fold.simps comp_def Cons.IH list.map upd_map_of ..
qed simp

lemma store_table_entries: "store_table dbName table tm = tm ++ map_of (rev (table_entries dbName table))"
proof (cases "GetPartitionInfo table")
  case None
  then show ?thesis
    using upd_map_of [where ps = "[]"]
    by (simp add: store_table_def table_entries_def Let_def fold_map_upd)
next
  case (Some part)
  then show ?thesis
    by (simp only: store_table_def table_entries_def Let_def fold_map_upd option.case upd_map_of
      empty_map_add)
qed

lemma map_add_rev_append: "m ++ map_of (rev xs) ++ map_of (rev ys) = m ++ map_of (rev (xs @ ys))"
  by (simp only: rev_append map_of_append map_add_assoc)

lemma fold_store_tables:
  "fold (store_table dbName) tables tm = tm ++ map_of (rev (concat (map (table_entries dbName) tables)))"
proof (induction tables arbitrary: tm)
  case (Cons t ts)
  show ?case
    unfolding fold.simps comp_apply Cons.IH
    by (simp only: store_table_entries map_add_rev_append list.map concat.simps)
qed simp

lemma update_dbs_entries:
  "update_dbs request_tables dbs tm ok =
   (tm ++ map_of (rev (concat (map (db_entries request_tables) dbs))),
    ok \<and> \<not> (\<exists>db\<in>set dbs. db_failed request_tables db))"
proof (induction dbs arbitrary: tm ok)
  case (Cons db dbs)
  show ?case
  proof (cases "db_State db = StateNone")
    case True
    then show ?thesis using Cons.IH [of tm ok] by (simp add: db_entries_def db_failed_def)
  next
    case False
    show ?thesis
    proof (cases "request_tables (''/schema/'' @ PathEscape (db_Name db))")
      case (Inl err)
      then show ?thesis using False Cons.IH [of tm False] by (simp add: db_entries_def db_failed_def)
    next
      case (Inr tables)
      then have "db_entries request_tables db = concat (map (table_entries (db_Name db)) tables)"
        "\<not> db_failed request_tables db"
        using False by (simp_all add: db_entries_def db_failed_def)
      then show ?thesis
        using False Inr Cons.IH [of _ ok]
        by (simp add: fold_store_tables map_add_rev_append del: map_add_assoc rev_append)
    qed
  qed
qed simp

text \<open>
  The schema update keeps what it knows, stores every table and partition that the
  databases announce (a later entry wins over an earlier one with the same ID), skips the
  databases whose request fails, and moves to the new schema version only when none failed,
  so a failed update is repeated at the next tick.
\<close>

theorem updateMap_entries:
  assumes "ParseInt v = Some version" and "version \<noteq> st_SchemaVersion s"
    and "request_dbs ''/schema'' = Inr dbs"
  shows "updateMap (Inr [v]) request_dbs request_tables s =
    s\<lparr>st_TableMap := st_TableMap s ++ map_of (rev (concat (map (db_entries request_tables) dbs))),
      st_SchemaVersion := (if \<exists>db\<in>set dbs. db_failed request_tables db
                           then st_SchemaVersion s else version)\<rparr>"
  using assms by (simp add: updateMap_def update_dbs_entries)

definition demo_db :: DBInfo where
  "demo_db = \<lparr>db_Name = ''test'', db_State = StatePublic\<rparr>"

definition demo_table :: TableInfo where
  "demo_table = \<lparr>tbl_ID = 5, tbl_Name = ''t'', tbl_Indices = [], tbl_Partition = None\<rparr>"

theorem updateMap_entries_witness:
  "let s = updateMap (Inr [''42'']) (\<lambda>_. Inr [demo_db]) (\<lambda>_. Inr [demo_table])
       \<lparr>st_TableMap = Map.empty, st_SchemaVersion = - 1\<rparr>
   in st_SchemaVersion s = 42 \<and> map_option td_DB (st_TableMap s 5) = Some ''test''"
proof -
  have v: "ParseInt ''42'' = Some 42"
    by (simp add: ParseInt_def Let_def digit_value_def byte_of_def)
  have "db_entries (\<lambda>_. Inr [demo_table]) demo_db =
    [(5, \<lparr>td_Name = ''t'', td_DB = ''test'', td_ID = 5, td_Indices = Map.empty\<rparr>)]"
    unfolding db_entries_def demo_db_def demo_table_def
    by (simp add: table_entries_def GetPartitionInfo_def)
  moreover have "\<not> db_failed (\<lambda>_. Inr [demo_table]) demo_db" by (simp add: db_failed_def)
  ultimately show ?thesis
    using updateMap_entries [OF v, of "\<lparr>st_TableMap = Map.empty, st_SchemaVersion = - 1\<rparr>"
        "\<lambda>_. Inr [demo_db]" "[demo_db]" "\<lambda>_. Inr [demo_table]"]
    by simp
qed

end
