(* ===== verification/MatrixPlane.thy ===== *)
theory MatrixPlane
  imports "HOL-Library.AList" MatrixAxis MatrixDistance Decorator
begin

text \<open>
  Planes and matrices (\<open>plane.go\<close>, \<open>matrix.go\<close>): consecutive axes are compacted into one
  axis over the union of their keys, and a plane is pixelated into a matrix of about the
  wanted number of rows.

  The splitter of a compaction comes from a \<open>SplitStrategy\<close>; what the code relies on is the
  locale \<open>split_contract\<close>, which the average and the distance strategy both satisfy. Times
  are \<open>int\<close> (nanoseconds), the data map is an association list with one entry per tag. The columns of \<open>Pixel\<close> are computed by concurrent goroutines that
  write different entries of the data map under a mutex, hence in any order the same map.
\<close>

record Plane =
  Times :: "int list"
  Axes :: "Axis list"

record Matrix =
  mx_Keys :: "gostr list"
  DataMap :: "(string \<times> u64 list list) list"
  KeyAxis :: "LabelKey list"
  TimeAxis :: "int list"

definition CreatePlane :: "int list \<Rightarrow> Axis list \<Rightarrow> Plane option" where
  "CreatePlane ts axes =
     (if length ts \<le> 1 then None else Some \<lparr>Times = ts, Axes = axes\<rparr>)"

definition CreateEmptyPlane :: "int \<Rightarrow> int \<Rightarrow> gostr \<Rightarrow> gostr \<Rightarrow> nat \<Rightarrow> Plane option" where
  "CreateEmptyPlane startTime endTime startKey endKey valuesListLen = do {
     axis \<leftarrow> CreateEmptyAxis startKey endKey valuesListLen;
     CreatePlane [startTime, endTime] [axis]
   }"

section \<open>Compaction\<close>

text \<open>The keys of the chunks; the end key \<open>""\<close> is only remembered in the flag.\<close>

fun compact_keys :: "chunk list \<Rightarrow> key_set \<Rightarrow> bool \<Rightarrow> (key_set \<times> bool) option" where
  "compact_keys [] keySet unlimitedEnd = Some (keySet, unlimitedEnd)"
| "compact_keys (c # chunks) keySet unlimitedEnd = do {
     endKey \<leftarrow> GetLastKey (ckeys c);
     let (keySet, unlimitedEnd) =
       (if sval endKey = '''' then (keySet, True) else (set_add endKey keySet, unlimitedEnd));
     compact_keys chunks (fold set_add (butlast (ckeys c)) keySet) unlimitedEnd
   }"

fun split_all :: "Splitter \<Rightarrow> splitTag \<Rightarrow> nat \<Rightarrow> chunk \<Rightarrow> chunk list \<Rightarrow> chunk option" where
  "split_all splitter tag i dst [] = Some dst"
| "split_all splitter tag i dst (c # chunks) = do {
     dst \<leftarrow> splitter dst c tag i;
     split_all splitter tag (i + 1) dst chunks
   }"

definition compact :: "SplitStrategy \<Rightarrow> chunk list \<Rightarrow> (chunk \<times> Splitter) option" where
  "compact strategy chunks = do {
     (keySet, unlimitedEnd) \<leftarrow> compact_keys chunks [] False;
     let compactKeys = (if unlimitedEnd then MakeKeysWithUnlimitedEnd keySet else MakeKeys keySet);
     compactChunk \<leftarrow> createZeroChunk compactKeys;
     splitter \<leftarrow> strategy chunks (ckeys compactChunk);
     compactChunk \<leftarrow> split_all splitter splitAdd 0 compactChunk chunks;
     Some (compactChunk, splitter)
   }"

definition base_chunk :: "Axis \<Rightarrow> chunk option" where
  "base_chunk axis = do { base \<leftarrow> idx (ValuesList axis) 0; createChunk (Keys axis) base }"

text \<open>Column \<open>j\<close> of an axis on the keys of its chunk (\<open>chunks[i].SetValues(axis.ValuesList[j])\<close>).\<close>

definition column_chunk :: "nat \<Rightarrow> chunk \<times> Axis \<Rightarrow> chunk option" where
  "column_chunk j = (\<lambda>(c, axis). do { values \<leftarrow> idx (ValuesList axis) j; SetValues c values })"

definition compact_column :: "Splitter \<Rightarrow> chunk \<Rightarrow> chunk list \<Rightarrow> Axis list \<Rightarrow> nat \<Rightarrow> u64 list option" where
  "compact_column splitter compactChunk chunks axes j = do {
     dst \<leftarrow> SetZeroValues compactChunk;
     columns \<leftarrow> those_columns (column_chunk j) (zip chunks axes);
     dst \<leftarrow> split_all splitter splitAdd 0 dst columns;
     Some (cvalues dst)
   }"

definition Compact :: "SplitStrategy \<Rightarrow> Plane \<Rightarrow> Axis option" where
  "Compact strategy plane = do {
     chunks \<leftarrow> those_columns base_chunk (Axes plane);
     (compactChunk, splitter) \<leftarrow> compact strategy chunks;
     first \<leftarrow> idx (Axes plane) 0;
     let valuesListLen = length (ValuesList first);
     rest \<leftarrow> those_columns (compact_column splitter compactChunk chunks (Axes plane)) [1..<valuesListLen];
     CreateAxis (ckeys compactChunk) (cvalues compactChunk # rest)
   }"

section \<open>Matrices\<close>

definition CreateMatrix :: "Labeler \<Rightarrow> int list \<Rightarrow> gostr list \<Rightarrow> nat \<Rightarrow> Matrix option" where
  "CreateMatrix labeler ts keys valuesListLen = do {
     keyAxis \<leftarrow> Label labeler (map sval keys);
     Some \<lparr>mx_Keys = keys, DataMap = [], KeyAxis = keyAxis, TimeAxis = map unix_seconds ts\<rparr>
   }"

text \<open>The column \<open>i\<close> of the data of one value (the loop body of \<open>generateFunc\<close>).\<close>

definition pixel_column ::
  "Splitter \<Rightarrow> gostr list \<Rightarrow> gostr list \<Rightarrow> nat \<Rightarrow> nat \<times> chunk \<times> Axis \<Rightarrow> u64 list option" where
  "pixel_column splitter compactKeys baseKeys j = (\<lambda>(i, c, axis). do {
     zero \<leftarrow> createZeroChunk compactKeys;
     let goCompactChunk = Clear zero;
     values \<leftarrow> idx (ValuesList axis) j;
     src \<leftarrow> createChunk (ckeys c) values;
     goCompactChunk \<leftarrow> splitter goCompactChunk src splitTo i;
     reduced \<leftarrow> Reduce goCompactChunk baseKeys;
     Some (cvalues reduced)
   })"

definition pixel_data ::
  "Splitter \<Rightarrow> gostr list \<Rightarrow> gostr list \<Rightarrow> chunk list \<Rightarrow> Axis list \<Rightarrow> nat \<Rightarrow> u64 list list option" where
  "pixel_data splitter compactKeys baseKeys chunks axes j =
     those_columns (pixel_column splitter compactKeys baseKeys j)
       (zip [0..<length axes] (zip chunks axes))"

definition Pixel :: "SplitStrategy \<Rightarrow> Labeler \<Rightarrow> Plane \<Rightarrow> int \<Rightarrow> string list \<Rightarrow> Matrix option" where
  "Pixel strategy labeler plane target displayTags = do {
     first \<leftarrow> idx (Axes plane) 0;
     let valuesListLen = length (ValuesList first);
     _ \<leftarrow> (if valuesListLen \<noteq> length displayTags then None else Some ());
     chunks \<leftarrow> those_columns base_chunk (Axes plane);
     (compactChunk, splitter) \<leftarrow> compact strategy chunks;
     divided \<leftarrow> Divide (CrossBorder labeler) compactChunk target NotMergeLogicalRange;
     let baseKeys = ckeys divided;
     matrix \<leftarrow> CreateMatrix labeler (Times plane) baseKeys valuesListLen;
     datas \<leftarrow> those_columns
       (pixel_data splitter (ckeys compactChunk) baseKeys chunks (Axes plane)) [0..<valuesListLen];
     Some (matrix\<lparr>DataMap := fold (\<lambda>(tag, data). AList.update tag data) (zip displayTags datas) (DataMap matrix)\<rparr>)
   }"

definition Matrix_Range :: "Matrix \<Rightarrow> string \<Rightarrow> string \<Rightarrow> Matrix option" where
  "Matrix_Range mx startKey endKey = do {
     r \<leftarrow> KeysRange (mx_Keys mx) startKey endKey;
     case r of
       None \<Rightarrow> None
     | Some (start, end) \<Rightarrow> do {
         keys \<leftarrow> go_slice (mx_Keys mx) start end;
         keyAxis \<leftarrow> go_slice (KeyAxis mx) start end;
         dataMap \<leftarrow> those_columns (\<lambda>(tag, data). do {
           data \<leftarrow> those_columns (\<lambda>axis. go_slice axis start (end - 1)) data;
           Some (tag, data)
         }) (DataMap mx);
         Some (mx\<lparr>mx_Keys := keys, KeyAxis := keyAxis, DataMap := dataMap\<rparr>)
       }
   }"

section \<open>The interface of a split strategy\<close>

locale split_contract =
  fixes strategy :: SplitStrategy
  assumes new_splitter: "chunks \<noteq> [] \<Longrightarrow> \<forall>c\<in>set chunks. part_of dst c \<Longrightarrow>
      \<exists>splitter. strategy chunks (ckeys dst) = Some splitter"
    and split_ok: "strategy chunks (ckeys dst) = Some splitter \<Longrightarrow> i < length chunks \<Longrightarrow>
      \<forall>c\<in>set chunks. part_of dst c \<Longrightarrow> length (ckeys dst) < 2 ^ 64 \<Longrightarrow>
      ckeys src = ckeys (chunks ! i) \<Longrightarrow> chunk_ok src \<Longrightarrow>
      \<exists>new. splitter dst src tag i = Some (dst\<lparr>cvalues := new\<rparr>) \<and> length new = length (cvalues dst)"

end
