(* ===== verification/StorageAxis.thy ===== *)
theory StorageAxis
  imports RegionInput MatrixPlane
begin

text \<open>
  The axes that are stored and answered (\<open>pkg/keyvisual/storage/region.go\<close>): the four
  storage columns of a region list (washed of dirty samples and divided to at most
  \<open>preTarget\<close> rows) and the five response columns, the integration column first and then
  exchanged with the base tag's.
\<close>

definition preTarget :: int where
  "preTarget = 3072"

definition dirtyWrittenBytes :: u64 where
  "dirtyWrittenBytes = push_bit 32 1"

section \<open>\<open>wash\<close>\<close>

fun zero_row :: "nat \<Rightarrow> nat list \<Rightarrow> u64 list list \<Rightarrow> u64 list list option" where
  "zero_row i [] valuesList = Some valuesList"
| "zero_row i (j # js) valuesList = do {
     column \<leftarrow> idx valuesList j;
     column \<leftarrow> set_idx column i 0;
     zero_row i js (valuesList[j := column])
   }"

fun wash_loop :: "nat list \<Rightarrow> u64 list list \<Rightarrow> u64 list list option" where
  "wash_loop [] valuesList = Some valuesList"
| "wash_loop (i # is) valuesList = do {
     column \<leftarrow> idx valuesList 1;
     value \<leftarrow> idx column i;
     valuesList \<leftarrow> (if dirtyWrittenBytes \<le> value
       then zero_row i [0..<length ResponseTags] valuesList else Some valuesList);
     wash_loop is valuesList
   }"

definition wash :: "Axis \<Rightarrow> Axis option" where
  "wash axis = do {
     column \<leftarrow> idx (ValuesList axis) 1;
     valuesList \<leftarrow> wash_loop [0..<length column] (ValuesList axis);
     Some (axis\<lparr>ValuesList := valuesList\<rparr>)
   }"

section \<open>Conversions\<close>

definition IntoStorageAxis :: "Axis \<Rightarrow> Labeler \<Rightarrow> Axis option" where
  "IntoStorageAxis responseAxis labeler = do {
     axis \<leftarrow> Axis_Divide (CrossBorder labeler) responseAxis preTarget;
     storageValuesList \<leftarrow> go_slice (ValuesList axis) 1 (length (ValuesList axis));
     CreateAxis (Keys axis) storageValuesList
   }"

definition CreateStorageAxis :: "regions_methods \<Rightarrow> Labeler \<Rightarrow> Axis option" where
  "CreateStorageAxis regions labeler =
     (if m_Len regions \<le> 0 then None else do {
        keys \<leftarrow> m_GetKeys regions;
        valuesList \<leftarrow> those_columns (m_GetValues regions) ResponseTags;
        preAxis \<leftarrow> CreateAxis keys valuesList;
        preAxis \<leftarrow> wash preAxis;
        IntoStorageAxis preAxis labeler
      })"

fun integration_loop :: "u64 list \<Rightarrow> u64 list \<Rightarrow> nat list \<Rightarrow> u64 list \<Rightarrow> u64 list option" where
  "integration_loop writtenBytes readBytes [] integration = Some integration"
| "integration_loop writtenBytes readBytes (i # is) integration = do {
     w \<leftarrow> idx writtenBytes i;
     r \<leftarrow> idx readBytes i;
     integration \<leftarrow> set_idx integration i (w + r);
     integration_loop writtenBytes readBytes is integration
   }"

text \<open>The exchange of the base tag's column; the loop returns at the first match.\<close>

fun swap_base :: "StatTag \<Rightarrow> (nat \<times> StatTag) list \<Rightarrow> u64 list list \<Rightarrow> u64 list list option" where
  "swap_base baseTag [] valuesList = None"
| "swap_base baseTag ((i, tag) # tags) valuesList =
     (if tag = baseTag then
        if i < length valuesList \<and> 0 < length valuesList then Some (swap_first i valuesList) else None
      else swap_base baseTag tags valuesList)"

definition IntoResponseAxis :: "Axis \<Rightarrow> StatTag \<Rightarrow> Axis option" where
  "IntoResponseAxis storageAxis baseTag = do {
     writtenBytes \<leftarrow> idx (ValuesList storageAxis) 0;
     readBytes \<leftarrow> idx (ValuesList storageAxis) 1;
     integration \<leftarrow> integration_loop writtenBytes readBytes [0..<length writtenBytes]
       (replicate (length writtenBytes) 0);
     valuesList \<leftarrow> swap_base baseTag (zip [0..<length ResponseTags] ResponseTags)
       (integration # ValuesList storageAxis);
     CreateAxis (Keys storageAxis) valuesList
   }"

section \<open>Response axes\<close>

definition storage_ok :: "Axis \<Rightarrow> bool" where
  "storage_ok axis \<longleftrightarrow> axis_ok axis \<and> length (ValuesList axis) = 4"

definition integration_column :: "Axis \<Rightarrow> u64 list" where
  "integration_column axis = map2 (+) (ValuesList axis ! 0) (ValuesList axis ! 1)"

text \<open>The column of a tag in a storage axis; integration is the sum of the two byte columns.\<close>

definition tag_column :: "Axis \<Rightarrow> StatTag \<Rightarrow> u64 list" where
  "tag_column axis tag = (integration_column axis # ValuesList axis) ! tag_index tag"

lemma integration_loop_eq:
  assumes "n \<le> length w" and "length w \<le> length r" and "length w = length s"
  shows "integration_loop w r [n..<length w] s = Some (take n s @ drop n (map2 (+) w r))"
  using assms
proof (induction "length w - n" arbitrary: n s)
  case 0
  then show ?case by simp
next
  case (Suc m)
  have n: "n < length w" "n < length r" "n < length s" using Suc.hyps(2) Suc.prems by auto
  have "integration_loop w r [Suc n..<length w] (s[n := w ! n + r ! n])
      = Some (take (Suc n) (s[n := w ! n + r ! n]) @ drop (Suc n) (map2 (+) w r))"
    using Suc n by (intro Suc.hyps(1)) auto
  moreover have "take (Suc n) (s[n := w ! n + r ! n]) = take n s @ [w ! n + r ! n]"
    using n by (subst take_Suc_conv_app_nth) auto
  moreover have "drop n (map2 (+) w r) = (w ! n + r ! n) # drop (Suc n) (map2 (+) w r)"
    using n by (subst Cons_nth_drop_Suc [symmetric]) auto
  ultimately show ?case using n by (simp add: upt_conv_Cons)
qed

lemma swap_base_eq:
  assumes "length valuesList = 5"
  shows "swap_base baseTag (zip [0..<length ResponseTags] ResponseTags) valuesList
    = Some (swap_first (tag_index baseTag) valuesList)"
proof -
  have "[0..<length ResponseTags] = [0, 1, 2, 3, 4]" by (simp add: tag_simps upt_rec)
  then show ?thesis using assms by (cases baseTag) (simp_all add: tag_simps eval_nat_numeral)
qed

lemma IntoResponseAxis_eq:
  assumes "storage_ok axis"
  shows "IntoResponseAxis axis baseTag = Some \<lparr>Keys = Keys axis,
      ValuesList = swap_first (tag_index baseTag) (integration_column axis # ValuesList axis)\<rparr>"
proof -
  let ?w = "ValuesList axis ! 0" and ?r = "ValuesList axis ! 1"
  have four: "length (ValuesList axis) = 4" and ok: "axis_ok axis" using assms by (simp_all add: storage_ok_def)
  have cols: "length vs = length (Keys axis) - 1" if "vs \<in> set (ValuesList axis)" for vs
    using ok that by (auto simp: axis_ok_def)
  have len: "length ?w = length (Keys axis) - 1" "length ?r = length (Keys axis) - 1"
    using four by (simp_all add: cols)
  have i: "integration_loop ?w ?r [0..<length ?w] (replicate (length ?w) 0) = Some (integration_column axis)"
    using integration_loop_eq [of 0 ?w ?r "replicate (length ?w) 0"] len
    by (simp add: integration_column_def)
  have "length vs = length (Keys axis) - 1" if "vs \<in> set (integration_column axis # ValuesList axis)" for vs
    using that cols len by (auto simp: integration_column_def)
  moreover have "set (swap_first (tag_index baseTag) (integration_column axis # ValuesList axis))
      \<subseteq> set (integration_column axis # ValuesList axis)"
  proof -
    have "tag_index baseTag < length (integration_column axis # ValuesList axis)"
      using four tag_index_less [of baseTag] by (simp add: tag_simps split: StatTag.splits)
    then show ?thesis unfolding swap_first_def
      by (meson list.set_intros(1) nth_mem set_update_subsetI subset_code(1) set_update_subset_insert
          insert_subset length_pos_if_in_set order_refl subset_trans)
  qed
  ultimately have "axis_ok \<lparr>Keys = Keys axis,
      ValuesList = swap_first (tag_index baseTag) (integration_column axis # ValuesList axis)\<rparr>"
    using ok by (auto simp: axis_ok_def swap_first_def split: nat.splits)
  then have c: "CreateAxis (Keys axis) (swap_first (tag_index baseTag) (integration_column axis # ValuesList axis))
      = Some \<lparr>Keys = Keys axis,
      ValuesList = swap_first (tag_index baseTag) (integration_column axis # ValuesList axis)\<rparr>"
    by (simp add: CreateAxis_Some_iff)
  show ?thesis
    unfolding IntoResponseAxis_def using four i c swap_base_eq [of "integration_column axis # ValuesList axis" baseTag]
    by simp
qed

lemma tag_index_inj: "tag_index a = tag_index b \<longleftrightarrow> a = b"
  by (metis tag_index_nth)

lemma response_column:
  assumes "storage_ok axis" and "i < 5"
  shows "\<exists>resp tag. IntoResponseAxis axis baseTag = Some resp \<and> length (ValuesList resp) = 5 \<and>
    GetDisplayTags baseTag ! i = tag_String tag \<and> ValuesList resp ! i = tag_column axis tag"
proof -
  let ?vs = "integration_column axis # ValuesList axis"
  let ?r = "\<lparr>Keys = Keys axis, ValuesList = swap_first (tag_index baseTag) ?vs\<rparr>"
  have five: "length ?vs = 5" "length ResponseTags = 5" using assms(1) by (simp_all add: storage_ok_def tag_simps)
  have b: "tag_index baseTag < 5" using tag_index_less [of baseTag] five by simp
  define j where "j = (if i = tag_index baseTag then 0 else if i = 0 then tag_index baseTag else i)"
  have j: "j < 5" using assms(2) b by (simp add: j_def)
  have nth: "swap_first (tag_index baseTag) xs ! i = xs ! j" if "length xs = 5" for xs :: "'x list"
    using that assms(2) b by (simp add: swap_first_nth j_def)
  have "GetDisplayTags baseTag ! i = tag_String (ResponseTags ! j)"
    unfolding GetDisplayTags_eq using nth [of "map tag_String ResponseTags"] five j by simp
  moreover have "tag_index (ResponseTags ! j) = j"
    using j by (auto simp: tag_simps less_Suc_eq numeral_eq_Suc)
  then have "ValuesList ?r ! i = tag_column axis (ResponseTags ! j)"
    using nth [OF five(1)] by (simp add: tag_column_def)
  moreover have "length (ValuesList ?r) = 5" using five by simp
  ultimately show ?thesis using IntoResponseAxis_eq [OF assms(1), of baseTag] by blast
qed

text \<open>
  For every base tag, column \<open>i\<close> of the response axis of a well-formed storage axis is the
  statistic that the \<open>i\<close>-th display tag names (integration being written plus read bytes),
  so the service labels each heat map correctly although tags and columns are exchanged in
  two separate places.
\<close>

theorem response_display_tags:
  assumes "storage_ok axis"
  shows "\<exists>resp. IntoResponseAxis axis baseTag = Some resp \<and> Keys resp = Keys axis \<and>
    ValuesList resp = map (tag_column axis \<circ> IntoTag) (GetDisplayTags baseTag) \<and>
    hd (ValuesList resp) = tag_column axis baseTag"
proof -
  obtain resp where r: "IntoResponseAxis axis baseTag = Some resp" "Keys resp = Keys axis"
    using IntoResponseAxis_eq [OF assms] by auto
  have five: "length (ValuesList resp) = 5" using response_column [OF assms, of 0 baseTag] r(1) by auto
  have nth: "ValuesList resp ! i = tag_column axis (IntoTag (GetDisplayTags baseTag ! i))" if "i < 5" for i
    using response_column [OF assms that, of baseTag] r(1) by auto
  have "ValuesList resp = map (tag_column axis \<circ> IntoTag) (GetDisplayTags baseTag)"
    by (rule nth_equalityI) (simp_all add: five nth)
  moreover have "GetDisplayTags baseTag ! 0 = tag_String baseTag"
    by (cases baseTag; simp only:; code_simp)
  then have "hd (ValuesList resp) = tag_column axis baseTag"
    using five nth [of 0] by (subst hd_conv_nth) auto
  ultimately show ?thesis using r by blast
qed

definition demo_storage :: Axis where
  "demo_storage = \<lparr>Keys = [GoStr 1 ''a'', GoStr 2 ''c'', GoStr 3 ''e''],
     ValuesList = [[1, 2], [3, 4], [5, 6], [7, 8]]\<rparr>"

lemma demo_storage_ok: "storage_ok demo_storage"
  by (simp add: storage_ok_def axis_ok_def demo_storage_def)

theorem response_display_tags_witness:
  "\<exists>resp. IntoResponseAxis demo_storage ReadBytes = Some resp \<and>
    hd (ValuesList resp) = tag_column demo_storage ReadBytes \<and> tag_column demo_storage ReadBytes = [3, 4]"
  using response_display_tags [OF demo_storage_ok, of ReadBytes]
  by (auto simp: tag_column_def tag_index_def demo_storage_def)

section \<open>Storage axes\<close>

lemma cut_keys_ok:
  assumes "axis_keys_ok keys" and "cuts ps (length keys - 1)"
  shows "axis_keys_ok (map ((!) keys) ps)"
proof -
  have len: "2 \<le> length keys" using assms(1) by (simp add: axis_keys_ok_def)
  have two: "2 \<le> length ps" using cuts_length [OF assms(2)] len by simp
  have less: "ps ! i < ps ! j" if "i < j" "j < length ps" for i j
    using cuts_nth_less [OF assms(2) that] .
  have lastp: "ps ! (length ps - 1) = length keys - 1"
    using assms(2) two by (auto simp: cuts_def last_conv_nth)
  have "last (map ((!) keys) ps) = keys ! (ps ! (length ps - 1))" using two
    by (subst last_conv_nth) auto
  then have last: "last (map ((!) keys) ps) = last keys" using lastp len
    by (metis last_conv_nth length_0_conv not_numeral_le_zero)
  have bound: "ps ! i < length keys - 1" if "i < length ps - 1" for i
    using less [of i "length ps - 1"] that lastp by simp
  have sorted: "sval (keys ! (ps ! i)) < sval (keys ! (ps ! j))" if "i < j" "j < length ps - 1" for i j
  proof -
    have "ps ! j < sorted_len keys" using bound [OF that(2)] by (auto simp: sorted_len_def)
    then show ?thesis using axis_keys_less [OF assms(1)] less [of i j] that by simp
  qed
  have "sorted_wrt (<) (map sval (butlast (map ((!) keys) ps)))"
    using sorted by (auto simp: sorted_wrt_iff_nth_less nth_butlast)
  moreover have "sval (last (butlast (map ((!) keys) ps))) < sval (last keys)" if "sval (last keys) \<noteq> []"
  proof -
    have i: "length ps - 2 < length ps - 1" using two by simp
    have "sorted_len keys = length keys" using that by (simp add: sorted_len_def)
    then have "sval (keys ! (ps ! (length ps - 2))) < sval (keys ! (length keys - 1))"
      using axis_keys_less [OF assms(1), of "ps ! (length ps - 2)" "length keys - 1"] bound [OF i] len by simp
    moreover have "last (butlast (map ((!) keys) ps)) = keys ! (ps ! (length ps - 2))"
      using two by (subst last_conv_nth) (auto simp: nth_butlast numeral_2_eq_2 simp flip: length_0_conv)
    moreover have "last keys = keys ! (length keys - 1)" using len by (subst last_conv_nth) auto
    ultimately show ?thesis by simp
  qed
  ultimately show ?thesis using two last by (auto simp: axis_keys_ok_def)
qed

subsection \<open>Washing\<close>

text \<open>The columns after washing: where the written bytes are dirty every column is zero.\<close>

definition washed :: "u64 list list \<Rightarrow> u64 list list" where
  "washed vss = map (map2 (\<lambda>w v. if dirtyWrittenBytes \<le> w then 0 else v) (vss ! 1)) vss"

definition rect :: "nat \<Rightarrow> u64 list list \<Rightarrow> bool" where
  "rect n vss \<longleftrightarrow> length vss = 5 \<and> (\<forall>vs\<in>set vss. length vs = n)"

lemma zero_row_eq:
  assumes "\<forall>vs\<in>set vss. i < length vs" and "set js \<subseteq> {..<length vss}" and "distinct js"
  shows "zero_row i js vss
    = Some (map (\<lambda>j. if j \<in> set js then (vss ! j)[i := 0] else vss ! j) [0..<length vss])"
  using assms
proof (induction js arbitrary: vss)
  case (Cons j js)
  let ?vss = "vss[j := (vss ! j)[i := 0]]"
  have j: "j < length vss" "i < length (vss ! j)" using Cons.prems by auto
  have "\<forall>vs\<in>set ?vss. i < length vs"
    using Cons.prems(1) j set_update_subset_insert [of vss j] by fastforce
  then have "zero_row i js ?vss
      = Some (map (\<lambda>k. if k \<in> set js then (?vss ! k)[i := 0] else ?vss ! k) [0..<length ?vss])"
    using Cons.prems by (intro Cons.IH) auto
  also have "map (\<lambda>k. if k \<in> set js then (?vss ! k)[i := 0] else ?vss ! k) [0..<length ?vss]
      = map (\<lambda>k. if k \<in> set (j # js) then (vss ! k)[i := 0] else vss ! k) [0..<length vss]"
    using Cons.prems(3) by (auto simp: nth_list_update) (metis nth_list_update_neq)
  finally show ?case using j by simp
qed (simp add: map_nth)

lemma zero_row_all:
  assumes "rect n vss" and "i < n"
  shows "zero_row i [0..<length ResponseTags] vss = Some (map (\<lambda>vs. vs[i := 0]) vss)"
proof -
  have five: "length ResponseTags = 5" by (simp add: tag_simps)
  have "zero_row i [0..<5] vss = Some (map (\<lambda>j. if j \<in> set [0..<5] then (vss ! j)[i := 0] else vss ! j) [0..<length vss])"
    using assms by (intro zero_row_eq) (auto simp: rect_def)
  also have "map (\<lambda>j. if j \<in> set [0..<5] then (vss ! j)[i := 0] else vss ! j) [0..<length vss] = map (\<lambda>vs. vs[i := 0]) vss"
    using assms(1) by (intro nth_equalityI) (auto simp: rect_def)
  finally show ?thesis unfolding five .
qed

lemma wash_step:
  fixes vs :: "u64 list"
  assumes "length vs = length ws" and "n < length ws"
  shows "take n (map2 (\<lambda>w v. if d \<le> w then 0 else v) ws vs) @ (if d \<le> ws ! n then 0 else vs ! n) # drop (Suc n) vs
    = take (Suc n) (map2 (\<lambda>w v. if d \<le> w then 0 else v) ws vs) @ drop (Suc n) vs"
  using assms by (simp add: take_Suc_conv_app_nth)

lemma wash_loop_eq:
  assumes "rect n vss" and "i \<le> n"
    and "vss' = map (\<lambda>vs. take i (map2 (\<lambda>w v. if dirtyWrittenBytes \<le> w then 0 else v) (vss ! 1) vs) @ drop i vs) vss"
  shows "wash_loop [i..<n] vss' = Some (washed vss)"
  using assms(2,3)
proof (induction "n - i" arbitrary: i vss')
  case 0
  have "vss' = washed vss"
    unfolding "0.prems"(2) washed_def using assms(1) 0 by (auto simp: rect_def)
  then show ?case using 0 by simp
next
  case (Suc m)
  let ?g = "map2 (\<lambda>w v. if dirtyWrittenBytes \<le> w then 0 else v) (vss ! 1)"
  have i: "i < n" using Suc.hyps(2) by simp
  have five: "1 < length vss" and w: "length (vss ! 1) = n" using assms(1) by (auto simp: rect_def)
  have r: "rect n vss'" using assms(1) Suc.prems by (auto simp: rect_def)
  have at_i: "vss' ! 1 ! i = vss ! 1 ! i"
    using Suc.prems five w i by (simp add: nth_append min_def)
  let ?next = "map (\<lambda>vs. take (Suc i) (?g vs) @ drop (Suc i) vs) vss"
  have step: "(if dirtyWrittenBytes \<le> vss ! 1 ! i then map (\<lambda>vs. vs[i := 0]) vss' else vss') = ?next"
  proof (rule nth_equalityI)
    fix k assume "k < length (if dirtyWrittenBytes \<le> vss ! 1 ! i then map (\<lambda>vs. vs[i := 0]) vss' else vss')"
    then have k: "k < length vss" using Suc.prems by (auto split: if_splits)
    have lk: "length (vss ! k) = n" using assms(1) k by (auto simp: rect_def)
    have "drop i (vss ! k) = vss ! k ! i # drop (Suc i) (vss ! k)"
      using lk i by (simp add: Cons_nth_drop_Suc)
    moreover have "length (take i (?g (vss ! k))) = i" using lk w i by simp
    ultimately have "(if dirtyWrittenBytes \<le> vss ! 1 ! i then (vss' ! k)[i := 0] else vss' ! k)
        = take i (?g (vss ! k)) @ (if dirtyWrittenBytes \<le> vss ! 1 ! i then 0 else vss ! k ! i) # drop (Suc i) (vss ! k)"
      using Suc.prems(2) k by (simp add: list_update_append)
    also have "\<dots> = ?next ! k" using wash_step [of "vss ! k" "vss ! 1" i dirtyWrittenBytes] lk w i k by simp
    finally show "(if dirtyWrittenBytes \<le> vss ! 1 ! i then map (\<lambda>vs. vs[i := 0]) vss' else vss') ! k = ?next ! k"
      using k Suc.prems by (auto split: if_splits)
  qed (use Suc.prems in simp)
  have "wash_loop [Suc i..<n] ?next = Some (washed vss)"
    using Suc.hyps(2) i by (intro Suc.hyps(1)) auto
  moreover have "(if dirtyWrittenBytes \<le> vss ! 1 ! i then zero_row i [0..<length ResponseTags] vss' else Some vss')
      = Some ?next"
    using zero_row_all [OF r i] step by (auto split: if_splits)
  moreover have "length (vss' ! 1) = n" "1 < length vss'" using r by (auto simp: rect_def)
  ultimately show ?case using i at_i by (simp add: upt_conv_Cons)
qed

lemma wash_eq:
  assumes "axis_ok axis" and "length (ValuesList axis) = 5"
  shows "wash axis = Some (axis\<lparr>ValuesList := washed (ValuesList axis)\<rparr>)"
    and "axis_ok (axis\<lparr>ValuesList := washed (ValuesList axis)\<rparr>)"
    and "length (washed (ValuesList axis)) = 5"
proof -
  have r: "rect (length (Keys axis) - 1) (ValuesList axis)"
    using assms by (auto simp: rect_def axis_ok_def)
  have l: "length (ValuesList axis ! 1) = length (Keys axis) - 1" using r by (auto simp: rect_def)
  show "wash axis = Some (axis\<lparr>ValuesList := washed (ValuesList axis)\<rparr>)"
    unfolding wash_def using wash_loop_eq [OF r, of 0] assms(2) l by simp
  have "\<forall>vs\<in>set (washed (ValuesList axis)). length vs = length (Keys axis) - 1"
    using r l by (auto simp: washed_def rect_def)
  then show "axis_ok (axis\<lparr>ValuesList := washed (ValuesList axis)\<rparr>)"
    using assms by (auto simp: axis_ok_def washed_def)
  show "length (washed (ValuesList axis)) = 5" using assms(2) by (simp add: washed_def)
qed

subsection \<open>The conversions\<close>

lemma in_set_tlD: "x \<in> set (tl xs) \<Longrightarrow> x \<in> set xs"
  by (cases xs) auto

lemma IntoStorageAxis_coarsen:
  assumes "axis_ok axis" and "length (ValuesList axis) = 5" and "axis_keys_ok (Keys axis)"
    and "interned (set (Keys axis))" and "nat_sum (hd (ValuesList axis)) + 1 < 2 ^ 63"
  shows "\<exists>ps. cuts ps (length (Keys axis) - 1) \<and>
    IntoStorageAxis axis labeler = Some \<lparr>Keys = map ((!) (Keys axis)) ps,
      ValuesList = map (buckets ps) (tl (ValuesList axis))\<rparr> \<and>
    storage_ok \<lparr>Keys = map ((!) (Keys axis)) ps, ValuesList = map (buckets ps) (tl (ValuesList axis))\<rparr> \<and>
    axis_keys_ok (map ((!) (Keys axis)) ps)"
proof -
  have t: "2 \<le> preTarget" by (simp add: preTarget_def)
  obtain ps where ps: "cuts ps (length (Keys axis) - 1)"
    "Axis_Divide (CrossBorder labeler) axis preTarget = Some (axis_coarsen axis ps)"
    using Axis_Divide_coarsen [OF assms(1) axis_keys_distinct [OF assms(3,4)] t assms(5)] by blast
  let ?new = "\<lparr>Keys = map ((!) (Keys axis)) ps, ValuesList = map (buckets ps) (tl (ValuesList axis))\<rparr>"
  have ok: "axis_ok (axis_coarsen axis ps)" using axis_coarsen_ok(1) [OF assms(1) ps(1)] .
  have five: "length (ValuesList (axis_coarsen axis ps)) = 5" using assms(2) by (simp add: axis_coarsen_def)
  have "tl (ValuesList axis) \<noteq> []" using assms(2) by (cases "ValuesList axis"; cases "tl (ValuesList axis)") auto
  moreover have "\<forall>vs\<in>set (map (buckets ps) (tl (ValuesList axis))). vs \<in> set (ValuesList (axis_coarsen axis ps))"
    by (auto simp: axis_coarsen_def dest: in_set_tlD)
  ultimately have new: "axis_ok ?new" using ok unfolding axis_ok_def axis_coarsen_def by auto
  have "go_slice (ValuesList (axis_coarsen axis ps)) 1 (length (ValuesList (axis_coarsen axis ps)))
      = Some (map (buckets ps) (tl (ValuesList axis)))"
    using five by (simp add: axis_coarsen_def drop_Suc map_tl)
  then have "IntoStorageAxis axis labeler = Some ?new"
    using ps(2) new by (simp add: IntoStorageAxis_def CreateAxis_Some_iff axis_coarsen_def)
  moreover have "storage_ok ?new" using new assms(2) by (simp add: storage_ok_def)
  ultimately show ?thesis using ps(1) cut_keys_ok [OF assms(3) ps(1)] by blast
qed

lemma IntoStorageAxis_small:
  assumes "axis_ok axis" and "length (ValuesList axis) = 5" and "int (length (Keys axis)) - 1 \<le> preTarget"
  shows "IntoStorageAxis axis labeler = Some \<lparr>Keys = Keys axis, ValuesList = tl (ValuesList axis)\<rparr>"
proof -
  have "tl (ValuesList axis) \<noteq> []" using assms(2) by (cases "ValuesList axis"; cases "tl (ValuesList axis)") auto
  then have "axis_ok \<lparr>Keys = Keys axis, ValuesList = tl (ValuesList axis)\<rparr>"
    using assms(1) unfolding axis_ok_def by (auto dest: in_set_tlD)
  then show ?thesis
    using assms by (simp add: IntoStorageAxis_def Axis_Divide_def CreateAxis_Some_iff drop_Suc)
qed

text \<open>Converting a storage axis to a response axis on the integration tag and back gives the
  axis itself when it has at most 3072 buckets, which is what a compacted layer goes
  through, for any labeler.
\<close>

theorem storage_response_roundtrip:
  assumes "storage_ok axis" and "int (length (Keys axis)) - 1 \<le> preTarget"
  shows "(do { r \<leftarrow> IntoResponseAxis axis Integration; IntoStorageAxis r labeler }) = Some axis"
proof -
  obtain resp where r: "IntoResponseAxis axis Integration = Some resp" "axis_ok resp"
    "resp = \<lparr>Keys = Keys axis, ValuesList = integration_column axis # ValuesList axis\<rparr>"
    using IntoResponseAxis_eq [OF assms(1), of Integration]
    by (auto simp: IntoResponseAxis_def tag_index_def swap_first_def CreateAxis_Some_iff bind_eq_Some_conv)
  have "IntoStorageAxis resp labeler = Some \<lparr>Keys = Keys resp, ValuesList = tl (ValuesList resp)\<rparr>"
    using r assms by (intro IntoStorageAxis_small) (auto simp: storage_ok_def)
  with r show ?thesis by simp
qed

theorem storage_response_roundtrip_witness:
  "(do { r \<leftarrow> IntoResponseAxis demo_storage Integration; IntoStorageAxis r naive_NewLabeler }) = Some demo_storage"
  by (rule storage_response_roundtrip [OF demo_storage_ok]) (simp add: demo_storage_def preTarget_def)

context regions_info begin

lemma CreateStorageAxis_buckets:
  assumes "ok r" and "those_columns (m_GetValues (methods r)) ResponseTags = Some vss"
    and "nat_sum (hd (washed vss)) + 1 < 2 ^ 63"
  shows "\<exists>keys ps. m_GetKeys (methods r) = Some keys \<and> cuts ps (length keys - 1) \<and>
    CreateStorageAxis (methods r) labeler = Some \<lparr>Keys = map ((!) keys) ps,
      ValuesList = map (buckets ps) (tl (washed vss))\<rparr> \<and>
    storage_ok \<lparr>Keys = map ((!) keys) ps, ValuesList = map (buckets ps) (tl (washed vss))\<rparr> \<and>
    axis_keys_ok (map ((!) keys) ps)"
proof -
  obtain ks where ks: "m_GetKeys (methods r) = Some ks" "int (length ks) = m_Len (methods r) + 1"
    "axis_keys_ok ks" "interned (set ks)" using keys [OF assms(1)] by blast
  let ?axis = "\<lparr>Keys = ks, ValuesList = vss\<rparr>" and ?washed = "\<lparr>Keys = ks, ValuesList = washed vss\<rparr>"
  have five: "length vss = 5" and cols: "\<forall>vs\<in>set vss. int (length vs) = m_Len (methods r)"
    using columns [OF assms(1), of ResponseTags] assms(2) by (auto simp: tag_simps)
  have ok: "axis_ok ?axis"
    using five cols ks by (fastforce simp: axis_ok_def axis_keys_ok_def simp flip: length_0_conv)
  note w = wash_eq [OF ok, simplified, OF five]
  obtain ps where "cuts ps (length ks - 1)" "IntoStorageAxis ?washed labeler
      = Some \<lparr>Keys = map ((!) ks) ps, ValuesList = map (buckets ps) (tl (washed vss))\<rparr>"
    "storage_ok \<lparr>Keys = map ((!) ks) ps, ValuesList = map (buckets ps) (tl (washed vss))\<rparr>"
    "axis_keys_ok (map ((!) ks) ps)"
    using IntoStorageAxis_coarsen [of ?washed labeler] w ks assms(3) by auto
  moreover have "CreateAxis ks vss = Some ?axis" using ok by (simp add: CreateAxis_Some_iff)
  ultimately show ?thesis
    using ks(1) assms(2) w(1) len_pos [OF assms(1)] by (auto simp: CreateStorageAxis_def)
qed

end

text \<open>
  For the regions of a PD answer, \<open>CreateStorageAxis\<close> never panics while the washed
  integration column sums to less than \<open>2 ^ 63 - 1\<close>: it stores the four washed columns
  re-bucketed by the same cuts, on well-formed keys chosen among the region borders.
\<close>

theorem CreateStorageAxis_api:
  assumes "regions_ok rs"
    and "nat_sum (hd (washed (map (\<lambda>tag. map (tag_value tag) (Regions rs)) ResponseTags))) + 1 < 2 ^ 63"
  shows "\<exists>keys ps. GetKeys rs = Some keys \<and> cuts ps (length keys - 1) \<and>
    CreateStorageAxis (api_regions rs) labeler = Some \<lparr>Keys = map ((!) keys) ps,
      ValuesList = map (buckets ps)
        (tl (washed (map (\<lambda>tag. map (tag_value tag) (Regions rs)) ResponseTags)))\<rparr> \<and>
    axis_keys_ok (map ((!) keys) ps)"
proof -
  have "those_columns (m_GetValues (api_regions rs)) ResponseTags
      = Some (map (\<lambda>tag. map (tag_value tag) (Regions rs)) ResponseTags)"
    using assms(1) by (intro those_columns_Some) (simp add: api_regions_def GetValues_eq regions_ok_def)
  from api.CreateStorageAxis_buckets [OF assms(1) this assms(2), of labeler]
  show ?thesis by (auto simp: api_regions_def)
qed

definition demo_regions :: RegionsInfo where
  "demo_regions = \<lparr>Count = 2, Regions =
     [(demo_region ''a'' ''c'')\<lparr>StartKey := GoStr 1 ''a'', EndKey := GoStr 2 ''c'', ri_WrittenBytes := 2 ^ 33\<rparr>,
      (demo_region ''c'' ''e'')\<lparr>StartKey := GoStr 2 ''c'', EndKey := GoStr 3 ''e''\<rparr>]\<rparr>"

lemma demo_regions_ok: "regions_ok demo_regions"
  by (simp add: regions_ok_def demo_regions_def demo_region_def pool_ok_def key_pool_def coherent_def
      equal_def less_char_def)

lemma demo_washed:
  "washed (map (\<lambda>tag. map (tag_value tag) (Regions demo_regions)) ResponseTags)
    = [[0, 7], [0, 3], [0, 4], [0, 1], [0, 2]]"
  by (simp add: washed_def demo_regions_def demo_region_def tag_simps tag_value_def dirtyWrittenBytes_def)

theorem CreateStorageAxis_api_witness:
  "\<exists>keys ps. GetKeys demo_regions = Some keys \<and> cuts ps (length keys - 1) \<and>
    CreateStorageAxis (api_regions demo_regions) naive_NewLabeler = Some \<lparr>Keys = map ((!) keys) ps,
      ValuesList = map (buckets ps) [[0, 3], [0, 4], [0, 1], [0, 2]]\<rparr>"
proof -
  have "nat_sum (hd (washed (map (\<lambda>tag. map (tag_value tag) (Regions demo_regions)) ResponseTags))) + 1 < 2 ^ 63"
    unfolding demo_washed by simp
  note CreateStorageAxis_api [OF demo_regions_ok this, of naive_NewLabeler]
  then show ?thesis unfolding demo_washed by auto
qed

end
