(* ===== verification/StorageStat.thy ===== *)
theory StorageStat
  imports StorageAxis
begin

text \<open>
  The layered statistics of \<open>pkg/keyvisual/storage\<close>: \<open>model.go\<close>, \<open>stat.go\<close> and
  \<open>stat_persist.go\<close>.

  A layer is the record of its fields; the chain of \<open>Next\<close> pointers, which \<open>NewStat\<close> sets
  from each layer to the following one and nothing changes, is the list of the layers from
  the current one on, so an operation of a layer takes and returns such a list. The
  database (\<open>gorm\<close>) and the \<open>gob\<close> encoding of an axis are operations of a record
  \<open>store_ops\<close> on a database state and a type of encoded axes; a flag \<open>True\<close> returned by a database
  operation is an error. Times are \<open>int\<close> nanoseconds. Locks are not modelled: every
  operation runs under the write lock of the statistics, or the read lock and reads only.
\<close>

section \<open>\<open>model.go\<close>\<close>

record 'g AxisModel =
  am_LayerNum :: "8 word"
  am_Time :: int
  am_Axis :: 'g

record ('db, 'g) store_ops =
  gob_Encode :: "Axis \<Rightarrow> 'g option"
  gob_Decode :: "'g \<Rightarrow> Axis option"
  db_HasTable :: "'db \<Rightarrow> bool"
  db_CreateTable :: "'db \<Rightarrow> 'db \<times> bool"
  db_Create :: "'db \<Rightarrow> 'g AxisModel \<Rightarrow> 'db \<times> bool"
  db_DeleteTime :: "'db \<Rightarrow> 8 word \<Rightarrow> int \<Rightarrow> 'db \<times> bool"
  db_DeleteLayer :: "'db \<Rightarrow> 8 word \<Rightarrow> 'db \<times> bool"
  db_DeleteAll :: "'db \<Rightarrow> 'db \<times> bool"
  db_FindByTime :: "'db \<Rightarrow> 8 word \<Rightarrow> 'g AxisModel list option"

text \<open>The zero values \<open>matrix.Axis{}\<close> and \<open>time.Time{}\<close>.\<close>

definition axis_nil :: Axis where
  "axis_nil = \<lparr>Keys = [], ValuesList = []\<rparr>"

definition time_zero :: int where
  "time_zero = - 62135596800000000000"

definition NewAxisModel :: "('db, 'g) store_ops \<Rightarrow> 8 word \<Rightarrow> int \<Rightarrow> Axis \<Rightarrow> 'g AxisModel option" where
  "NewAxisModel ops layerNum t axis = do {
     buf \<leftarrow> gob_Encode ops axis;
     Some \<lparr>am_LayerNum = layerNum, am_Time = t, am_Axis = buf\<rparr>
   }"

definition UnmarshalAxis :: "('db, 'g) store_ops \<Rightarrow> 'g AxisModel \<Rightarrow> Axis option" where
  "UnmarshalAxis ops a = gob_Decode ops (am_Axis a)"

definition am_Insert :: "('db, 'g) store_ops \<Rightarrow> 'db \<Rightarrow> 'g AxisModel \<Rightarrow> 'db \<times> bool" where
  "am_Insert ops db a = db_Create ops db a"

definition am_Delete :: "('db, 'g) store_ops \<Rightarrow> 'db \<Rightarrow> 'g AxisModel \<Rightarrow> 'db \<times> bool" where
  "am_Delete ops db a = db_DeleteTime ops db (am_LayerNum a) (am_Time a)"

text \<open>Whether the table existed, and the error.\<close>

definition CreateTableAxisModelIfNotExists :: "('db, 'g) store_ops \<Rightarrow> 'db \<Rightarrow> 'db \<times> bool \<times> bool" where
  "CreateTableAxisModelIfNotExists ops db =
     (if db_HasTable ops db then (db, True, False)
      else let (db, err) = db_CreateTable ops db in (db, False, err))"

section \<open>\<open>stat.go\<close>: a layer\<close>

record LayerConfig =
  lc_Len :: nat
  lc_Ratio :: nat

record layerStat =
  StartTime :: int
  EndTime :: int
  RingAxes :: "Axis list"
  RingTimes :: "int list"
  LayerNum :: "8 word"
  Head :: nat
  Tail :: nat
  Empty :: bool
  Len :: nat
  Ratio :: nat

definition newLayerStat :: "8 word \<Rightarrow> LayerConfig \<Rightarrow> int \<Rightarrow> layerStat" where
  "newLayerStat layerNum conf startTime =
     \<lparr>StartTime = startTime, EndTime = startTime,
      RingAxes = replicate (lc_Len conf) axis_nil, RingTimes = replicate (lc_Len conf) time_zero,
      LayerNum = layerNum, Head = 0, Tail = 0, Empty = True, Len = lc_Len conf, Ratio = lc_Ratio conf\<rparr>"

definition InsertLastAxisToDb :: "('db, 'g) store_ops \<Rightarrow> 'db \<Rightarrow> layerStat \<Rightarrow> Axis \<Rightarrow> int \<Rightarrow> 'db \<times> bool" where
  "InsertLastAxisToDb ops db s axis endTime =
     (case NewAxisModel ops (LayerNum s) endTime axis of
        None \<Rightarrow> (db, True)
      | Some axisModel \<Rightarrow> am_Insert ops db axisModel)"

definition DeleteFirstAxisFromDb :: "('db, 'g) store_ops \<Rightarrow> 'db \<Rightarrow> layerStat \<Rightarrow> 'db \<times> bool" where
  "DeleteFirstAxisFromDb ops db s =
     (case NewAxisModel ops (LayerNum s) (StartTime s) axis_nil of
        None \<Rightarrow> (db, True)
      | Some axisModel \<Rightarrow> am_Delete ops db axisModel)"

text \<open>
  The removal of the first axis, which both branches of \<open>Reduce\<close> do. Indices out of the
  ring panic, and so does \<open>% s.Len\<close> for a ring of length 0.
\<close>

definition pop_first :: "('db, 'g) store_ops \<Rightarrow> 'db \<Rightarrow> layerStat \<Rightarrow> ('db \<times> layerStat \<times> Axis) option" where
  "pop_first ops db s = do {
     let db = fst (DeleteFirstAxisFromDb ops db s);
     t \<leftarrow> idx (RingTimes s) (Head s);
     axis \<leftarrow> idx (RingAxes s) (Head s);
     ringAxes \<leftarrow> set_idx (RingAxes s) (Head s) axis_nil;
     Some (db, s\<lparr>StartTime := t, RingAxes := ringAxes, Head := (Head s + 1) mod Len s\<rparr>, axis)
   }"

fun reduce_take ::
  "('db, 'g) store_ops \<Rightarrow> nat \<Rightarrow> 'db \<Rightarrow> layerStat \<Rightarrow> int list \<Rightarrow> Axis list \<Rightarrow>
   ('db \<times> layerStat \<times> int list \<times> Axis list) option" where
  "reduce_take ops 0 db s ts axes = Some (db, s, ts, axes)"
| "reduce_take ops (Suc n) db s ts axes = do {
     (db, s, axis) \<leftarrow> pop_first ops db s;
     reduce_take ops n db s (ts @ [StartTime s]) (axes @ [axis])
   }"

definition reduce_axis :: "SplitStrategy \<Rightarrow> Labeler \<Rightarrow> nat \<Rightarrow> int list \<Rightarrow> Axis list \<Rightarrow> Axis option" where
  "reduce_axis strategy labeler ratio ts axes = do {
     plane \<leftarrow> CreatePlane ts axes;
     newAxis \<leftarrow> Compact strategy plane;
     newAxis \<leftarrow> IntoResponseAxis newAxis Integration;
     newAxis \<leftarrow> IntoStorageAxis newAxis labeler;
     Shrink newAxis (of_nat ratio)
   }"

text \<open>
  \<open>rest\<close> are the layers after \<open>s\<close>, and \<open>next_Append\<close> is \<open>s.Next.Append\<close>.
\<close>

definition layer_Reduce ::
  "('db, 'g) store_ops \<Rightarrow> SplitStrategy \<Rightarrow> Labeler \<Rightarrow>
   ('db \<Rightarrow> Axis \<Rightarrow> int \<Rightarrow> ('db \<times> layerStat list) option) \<Rightarrow>
   'db \<Rightarrow> layerStat \<Rightarrow> layerStat list \<Rightarrow> ('db \<times> layerStat \<times> layerStat list) option" where
  "layer_Reduce ops strategy labeler next_Append db s rest =
     (if Ratio s = 0 \<or> rest = [] then do {
        (db, s, _) \<leftarrow> pop_first ops db s;
        Some (db, s, rest)
      } else do {
        (db, s', ts, axes) \<leftarrow> reduce_take ops (Ratio s) db s [StartTime s] [];
        newAxis \<leftarrow> reduce_axis strategy labeler (Ratio s) ts axes;
        (db, rest) \<leftarrow> next_Append db newAxis (StartTime s');
        Some (db, s', rest)
      })"

definition ring_put :: "layerStat \<Rightarrow> Axis \<Rightarrow> int \<Rightarrow> layerStat option" where
  "ring_put s axis endTime = do {
     ringAxes \<leftarrow> set_idx (RingAxes s) (Tail s) axis;
     ringTimes \<leftarrow> set_idx (RingTimes s) (Tail s) endTime;
     Some (s\<lparr>RingAxes := ringAxes, RingTimes := ringTimes, Empty := False, EndTime := endTime,
             Tail := (Tail s + 1) mod Len s\<rparr>)
   }"

fun layer_Append ::
  "('db, 'g) store_ops \<Rightarrow> SplitStrategy \<Rightarrow> Labeler \<Rightarrow> layerStat list \<Rightarrow> 'db \<Rightarrow> Axis \<Rightarrow> int \<Rightarrow>
   ('db \<times> layerStat list) option" where
  "layer_Append ops strategy labeler [] db axis endTime = None"
| "layer_Append ops strategy labeler (s # rest) db axis endTime = do {
     (db, s, rest) \<leftarrow> (if Head s = Tail s \<and> \<not> Empty s
       then layer_Reduce ops strategy labeler (layer_Append ops strategy labeler rest) db s rest
       else Some (db, s, rest));
     let db = fst (InsertLastAxisToDb ops db s axis endTime);
     s \<leftarrow> ring_put s axis endTime;
     Some (db, s # rest)
   }"

text \<open>The slices \<open>ring[start:start+n]\<close>, or around the end of the ring.\<close>

definition ring_slice :: "'a list \<Rightarrow> nat \<Rightarrow> nat \<Rightarrow> int \<Rightarrow> 'a list option" where
  "ring_slice ring len start n =
     (if int start + n \<le> int len then
        (if n < 0 then None else go_slice ring start (start + nat n))
      else do {
        a \<leftarrow> go_slice ring start len;
        b \<leftarrow> go_slice ring 0 (nat (int start + n - int len));
        Some (a @ b)
      })"

definition range_layer :: "layerStat \<Rightarrow> int \<Rightarrow> int \<Rightarrow> int list \<times> Axis list \<Rightarrow> (int list \<times> Axis list) option" where
  "range_layer s startTime endTime = (\<lambda>(ts, axes).
     if Empty s \<or> \<not> (startTime < EndTime s \<and> StartTime s < endTime) then Some (ts, axes)
     else do {
       let size = int (Tail s) - int (Head s);
       let size = nat (if size \<le> 0 then size + int (Len s) else size);
       let start = sort_Search size (\<lambda>i. startTime < RingTimes s ! ((Head s + i) mod Len s));
       let e = sort_Search size (\<lambda>i. \<not> RingTimes s ! ((Head s + i) mod Len s) < endTime);
       let e = (if e \<noteq> size then e + 1 else e);
       let n = int e - int start;
       let start = (Head s + start) mod Len s;
       ts \<leftarrow> (if length ts = 0 then
                if start = Head s then Some (ts @ [StartTime s])
                else do {
                  t \<leftarrow> idx (RingTimes s) (nat ((int start - 1 + int (Len s)) mod int (Len s)));
                  Some (ts @ [t])
                }
              else Some ts);
       newTimes \<leftarrow> ring_slice (RingTimes s) (Len s) start n;
       newAxes \<leftarrow> ring_slice (RingAxes s) (Len s) start n;
       Some (ts @ newTimes, axes @ newAxes)
     })"

fun layer_Range :: "layerStat list \<Rightarrow> int \<Rightarrow> int \<Rightarrow> (int list \<times> Axis list) option" where
  "layer_Range [] startTime endTime = Some ([], [])"
| "layer_Range (s # rest) startTime endTime = do {
     r \<leftarrow> layer_Range rest startTime endTime;
     range_layer s startTime endTime r
   }"

section \<open>\<open>stat.go\<close>: all layers\<close>

record 'db Stat =
  layers :: "layerStat list"
  keyMap :: key_map
  stat_db :: 'db

definition NewStat :: "'db \<Rightarrow> LayerConfig list \<Rightarrow> int \<Rightarrow> 'db Stat" where
  "NewStat db cfg startTime =
     \<lparr>layers = map (\<lambda>(i, c). newLayerStat (of_nat i) c startTime) (zip [0..<length cfg] cfg),
      keyMap = Map.empty, stat_db = db\<rparr>"

text \<open>\<open>SaveKeys\<close> replaces the keys of each axis in place.\<close>

fun save_axes :: "key_map \<Rightarrow> Axis list \<Rightarrow> key_map \<times> Axis list" where
  "save_axes km [] = (km, [])"
| "save_axes km (axis # axes) =
     (let (km, ks) = (if 0 < length (Keys axis) then SaveKeys km (Keys axis) else (km, Keys axis));
          (km, axes) = save_axes km axes
      in (km, axis\<lparr>Keys := ks\<rparr> # axes))"

fun save_layers :: "key_map \<Rightarrow> layerStat list \<Rightarrow> key_map \<times> layerStat list" where
  "save_layers km [] = (km, [])"
| "save_layers km (layer # rest) =
     (let (km, axes) = save_axes km (RingAxes layer);
          (km, rest) = save_layers km rest
      in (km, layer\<lparr>RingAxes := axes\<rparr> # rest))"

definition rebuildKeyMap :: "'db Stat \<Rightarrow> 'db Stat" where
  "rebuildKeyMap s =
     (let (km, ls) = save_layers Map.empty (layers s) in s\<lparr>keyMap := km, layers := ls\<rparr>)"

text \<open>\<open>labeler\<close> is \<open>s.strategy.NewLabeler()\<close>.\<close>

definition Stat_Append ::
  "('db, 'g) store_ops \<Rightarrow> SplitStrategy \<Rightarrow> Labeler \<Rightarrow> 'db Stat \<Rightarrow> regions_methods \<Rightarrow> int \<Rightarrow> 'db Stat option" where
  "Stat_Append ops strategy labeler s regions endTime =
     (if m_Len regions = 0 then Some s else do {
        axis \<leftarrow> CreateStorageAxis regions labeler;
        let (km, ks) = SaveKeys (keyMap s) (Keys axis);
        let s = s\<lparr>keyMap := km\<rparr>;
        (db, ls) \<leftarrow> layer_Append ops strategy labeler (layers s) (stat_db s) (axis\<lparr>Keys := ks\<rparr>) endTime;
        Some (s\<lparr>layers := ls, stat_db := db\<rparr>)
      })"

definition rangeRoot :: "'db Stat \<Rightarrow> int \<Rightarrow> int \<Rightarrow> (int list \<times> Axis list) option" where
  "rangeRoot s startTime endTime =
     (if layers s = [] then None else layer_Range (layers s) startTime endTime)"

definition range_axis :: "gostr \<Rightarrow> gostr \<Rightarrow> StatTag \<Rightarrow> Axis \<Rightarrow> Axis option" where
  "range_axis startKey endKey baseTag axis = do {
     axis \<leftarrow> Axis_Range axis startKey endKey;
     IntoResponseAxis axis baseTag
   }"

definition Stat_Range ::
  "'db Stat \<Rightarrow> int \<Rightarrow> int \<Rightarrow> gostr \<Rightarrow> gostr \<Rightarrow> StatTag \<Rightarrow> ('db Stat \<times> Plane) option" where
  "Stat_Range s startTime endTime startKey endKey baseTag = do {
     let (km, startKey) = SaveKey (keyMap s) startKey;
     let (km, endKey) = SaveKey km endKey;
     let s = s\<lparr>keyMap := km\<rparr>;
     (ts, axes) \<leftarrow> rangeRoot s startTime endTime;
     if length ts \<le> 1 then do {
       plane \<leftarrow> CreateEmptyPlane startTime endTime startKey endKey (length ResponseTags);
       Some (s, plane)
     } else do {
       axes \<leftarrow> those_columns (range_axis startKey endKey baseTag) axes;
       plane \<leftarrow> CreatePlane ts axes;
       Some (s, plane)
     }
   }"

section \<open>\<open>stat_persist.go\<close>: Restore\<close>

text \<open>The flag of a result is an error that \<open>Restore\<close> returns.\<close>

fun createStartAxisModels :: "('db, 'g) store_ops \<Rightarrow> nat \<Rightarrow> layerStat list \<Rightarrow> 'db \<Rightarrow> 'db \<times> bool" where
  "createStartAxisModels ops i [] db = (db, False)"
| "createStartAxisModels ops i (layer # ls) db =
     (case NewAxisModel ops (of_nat i) (StartTime layer) axis_nil of
        None \<Rightarrow> (db, True)
      | Some startAxisModel \<Rightarrow>
          let (db, err) = am_Insert ops db startAxisModel in
          if err then (db, True) else createStartAxisModels ops (i + 1) ls db)"

fun delete_models :: "('db, 'g) store_ops \<Rightarrow> 'g AxisModel list \<Rightarrow> 'db \<Rightarrow> 'db" where
  "delete_models ops [] db = db"
| "delete_models ops (p # ps) db = delete_models ops ps (fst (am_Delete ops db p))"

text \<open>The rows \<open>axisModels[1:n+1]\<close> go to the ring from index \<open>i\<close> on.\<close>

fun load_models ::
  "('db, 'g) store_ops \<Rightarrow> nat \<Rightarrow> 'g AxisModel list \<Rightarrow> layerStat \<Rightarrow> key_map \<Rightarrow> (layerStat \<times> key_map \<times> bool) option" where
  "load_models ops i [] s km = Some (s, km, False)"
| "load_models ops i (axisModel # models) s km = do {
     ringTimes \<leftarrow> set_idx (RingTimes s) i (am_Time axisModel);
     let s = s\<lparr>RingTimes := ringTimes\<rparr>;
     (case UnmarshalAxis ops axisModel of
        None \<Rightarrow> Some (s, km, True)
      | Some axis \<Rightarrow> do {
          let (km, ks) = SaveKeys km (Keys axis);
          ringAxes \<leftarrow> set_idx (RingAxes s) i (axis\<lparr>Keys := ks\<rparr>);
          load_models ops (i + 1) models (s\<lparr>RingAxes := ringAxes\<rparr>) km
        })
   }"

text \<open>The part of the loop body that restores a layer from its (at least one) rows.\<close>

definition restore_layer ::
  "('db, 'g) store_ops \<Rightarrow> 'g AxisModel list \<Rightarrow> 'db \<Rightarrow> layerStat \<Rightarrow> key_map \<Rightarrow>
   ('db \<times> layerStat \<times> key_map \<times> bool) option" where
  "restore_layer ops axisModels db s km = do {
     first \<leftarrow> idx axisModels 0;
     let s = s\<lparr>StartTime := am_Time first, Head := 0\<rparr>;
     let n = length axisModels - 1;
     let (db, n) = (if Len s < n
       then (delete_models ops (drop (Len s + 1) axisModels) db, Len s) else (db, n));
     last \<leftarrow> idx axisModels n;
     _ \<leftarrow> (if Len s = 0 then None else Some ());
     let s = s\<lparr>EndTime := am_Time last, Tail := (Head s + n) mod Len s\<rparr>;
     (s, km, err) \<leftarrow> load_models ops 0 (take n (drop 1 axisModels)) s km;
     Some (db, s, km, err)
   }"

text \<open>
  The loop over the layer numbers, a \<open>uint8\<close> that wraps. It ends at the first number
  without rows; as the database may keep answering rows, the loop takes fuel, and \<open>None\<close> is
  a panic or the end of the fuel.
\<close>

fun restore_loop :: "nat \<Rightarrow> ('db, 'g) store_ops \<Rightarrow> 8 word \<Rightarrow> 'db Stat \<Rightarrow> ('db Stat \<times> bool) option" where
  "restore_loop 0 ops layerNum s = None"
| "restore_loop (Suc fuel) ops layerNum s =
     (case db_FindByTime ops (stat_db s) layerNum of
        None \<Rightarrow> Some (s, True)
      | Some axisModels \<Rightarrow>
          if length axisModels = 0 then Some (s, False)
          else if of_nat (length (layers s)) \<le> layerNum then
            restore_loop fuel ops (layerNum + 1)
              (s\<lparr>stat_db := fst (db_DeleteLayer ops (stat_db s) layerNum)\<rparr>)
          else do {
            layer \<leftarrow> idx (layers s) (unat layerNum);
            (if length axisModels > 1 \<or> layerNum \<noteq> 0 then do {
               let layer = (if length axisModels > 1 then layer\<lparr>Empty := False\<rparr> else layer);
               (db, layer, km, err) \<leftarrow> restore_layer ops axisModels (stat_db s) layer (keyMap s);
               let s = s\<lparr>layers := (layers s)[unat layerNum := layer], keyMap := km, stat_db := db\<rparr>;
               if err then Some (s, True) else restore_loop fuel ops (layerNum + 1) s
             } else do {
               let (db, err) = db_DeleteAll ops (stat_db s);
               if err then Some (s\<lparr>stat_db := db\<rparr>, True)
               else do {
                 let (db, err) = createStartAxisModels ops 0 (layers s) db;
                 Some (s\<lparr>stat_db := db\<rparr>, err)
               }
             })
          })"

definition Restore :: "nat \<Rightarrow> ('db, 'g) store_ops \<Rightarrow> 'db Stat \<Rightarrow> ('db Stat \<times> bool) option" where
  "Restore fuel ops s =
     (let (db, isExist, err) = CreateTableAxisModelIfNotExists ops (stat_db s);
          s = s\<lparr>stat_db := db\<rparr>
      in if err then Some (s, True)
         else if \<not> isExist then
           let (db, err) = createStartAxisModels ops 0 (layers s) (stat_db s)
           in Some (s\<lparr>stat_db := db\<rparr>, err)
         else restore_loop fuel ops 0 s)"

end
