(* ===== verification/StorageQueue.thy ===== *)
theory StorageQueue
  imports StorageStat
begin

text \<open>
  What a layer promises: it is a bounded queue of (end time, axis) entries after a start
  time. \<open>abs_layer\<close> reads the queue off the ring, and \<open>layer_Append\<close> refines
  \<open>q_append\<close>, in which a full queue hands its \<open>ratio\<close> oldest entries, merged into one axis,
  to the next queue.
\<close>

record queue =
  q_start :: int
  q_items :: "(int \<times> Axis) list"
  q_cap :: nat
  q_ratio :: nat

definition entry :: "layerStat \<Rightarrow> nat \<Rightarrow> int \<times> Axis" where
  "entry s i = (RingTimes s ! ((Head s + i) mod Len s), RingAxes s ! ((Head s + i) mod Len s))"

definition entries :: "layerStat \<Rightarrow> nat \<Rightarrow> (int \<times> Axis) list" where
  "entries s n = map (entry s) [0..<n]"

definition ring_size :: "layerStat \<Rightarrow> nat" where
  "ring_size s = (if Empty s then 0
     else if Head s < Tail s then Tail s - Head s else Tail s + Len s - Head s)"

definition abs_layer :: "layerStat \<Rightarrow> queue" where
  "abs_layer s = \<lparr>q_start = StartTime s, q_items = entries s (ring_size s), q_cap = Len s, q_ratio = Ratio s\<rparr>"

definition q_times :: "queue \<Rightarrow> int list" where
  "q_times q = q_start q # map fst (q_items q)"

fun q_append ::
  "(nat \<Rightarrow> int list \<Rightarrow> Axis list \<Rightarrow> Axis option) \<Rightarrow> queue list \<Rightarrow> Axis \<Rightarrow> int \<Rightarrow> queue list option" where
  "q_append merge [] axis t = None"
| "q_append merge (q # qs) axis t =
     (if length (q_items q) < q_cap q then Some (q\<lparr>q_items := q_items q @ [(t, axis)]\<rparr> # qs)
      else if q_ratio q = 0 \<or> qs = [] then
        Some (q\<lparr>q_start := fst (hd (q_items q)), q_items := tl (q_items q) @ [(t, axis)]\<rparr> # qs)
      else do {
        let oldest = take (q_ratio q) (q_items q);
        let start = fst (last oldest);
        axis' \<leftarrow> merge (q_ratio q) (q_start q # map fst oldest) (map snd oldest);
        qs \<leftarrow> q_append merge qs axis' start;
        Some (q\<lparr>q_start := start, q_items := drop (q_ratio q) (q_items q) @ [(t, axis)]\<rparr> # qs)
      })"

section \<open>The ring\<close>

text \<open>\<open>n\<close> live entries from the head on; between \<open>Reduce\<close> and the write \<open>n\<close> is not
  determined by the fields alone.\<close>

definition ring_ok :: "layerStat \<Rightarrow> nat \<Rightarrow> bool" where
  "ring_ok s n \<longleftrightarrow> length (RingAxes s) = Len s \<and> length (RingTimes s) = Len s \<and> Head s < Len s \<and>
     n \<le> Len s \<and> Tail s = (Head s + n) mod Len s \<and>
     EndTime s = last (StartTime s # map fst (entries s n))"

definition layer_ok :: "layerStat \<Rightarrow> bool" where
  "layer_ok s \<longleftrightarrow> ring_ok s (ring_size s) \<and> (Empty s \<longleftrightarrow> ring_size s = 0) \<and> Ratio s \<le> Len s"

text \<open>The fields that no operation of a layer changes.\<close>

definition same_conf :: "layerStat \<Rightarrow> layerStat \<Rightarrow> bool" where
  "same_conf s s' \<longleftrightarrow> Len s' = Len s \<and> Ratio s' = Ratio s \<and> LayerNum s' = LayerNum s"

lemma same_conf_refl [simp]: "same_conf s s"
  by (simp add: same_conf_def)

lemma same_conf_trans: "same_conf s t \<Longrightarrow> same_conf t u \<Longrightarrow> same_conf s u"
  by (simp add: same_conf_def)

lemma length_entries [simp]: "length (entries s n) = n"
  by (simp add: entries_def)

lemma nth_entries [simp]: "i < n \<Longrightarrow> entries s n ! i = entry s i"
  by (simp add: entries_def)

lemma mod_other: "h < (L :: nat) \<Longrightarrow> 0 < i \<Longrightarrow> i < L \<Longrightarrow> (h + i) mod L \<noteq> h"
  by (cases "h + i < L") (auto simp: mod_if)

lemma ring_size_eq:
  assumes "ring_ok s n" and "Empty s \<longleftrightarrow> n = 0"
  shows "ring_size s = n"
proof (cases "n = 0")
  case False
  have h: "Head s < Len s" "n \<le> Len s" "Tail s = (Head s + n) mod Len s"
    using assms(1) by (simp_all add: ring_ok_def)
  show ?thesis
  proof (cases "Head s + n < Len s")
    case True
    with h False assms(2) show ?thesis by (simp add: ring_size_def)
  next
    case f: False
    then have "Tail s = Head s + n - Len s" using h by (simp add: mod_if)
    with f h False assms(2) show ?thesis by (auto simp: ring_size_def)
  qed
qed (use assms(2) in \<open>simp add: ring_size_def\<close>)

lemma ring_full:
  assumes "layer_ok s"
  shows "Head s = Tail s \<and> \<not> Empty s \<longleftrightarrow> ring_size s = Len s" and "0 < Len s" and "ring_size s \<le> Len s"
  using assms by (auto simp: layer_ok_def ring_ok_def ring_size_def)

lemma pop_first_ok:
  assumes "ring_ok s (Suc n)"
  shows "\<exists>s'. pop_first ops db s = Some (fst (DeleteFirstAxisFromDb ops db s), s', snd (entry s 0)) \<and>
    ring_ok s' n \<and> StartTime s' = fst (entry s 0) \<and> entries s (Suc n) = entry s 0 # entries s' n \<and>
    same_conf s s' \<and> Tail s' = Tail s \<and> Empty s' = Empty s"
proof -
  let ?s = "s\<lparr>StartTime := RingTimes s ! Head s, RingAxes := (RingAxes s)[Head s := axis_nil],
    Head := (Head s + 1) mod Len s\<rparr>"
  have h: "length (RingAxes s) = Len s" "length (RingTimes s) = Len s" "Head s < Len s" "Suc n \<le> Len s"
    "Tail s = (Head s + Suc n) mod Len s" "EndTime s = last (StartTime s # map fst (entries s (Suc n)))"
    using assms by (simp_all add: ring_ok_def)
  have e: "entry ?s i = entry s (Suc i)" if "i < n" for i
    using that h mod_other [of "Head s" "Len s" "Suc i"]
    by (simp add: entry_def mod_add_left_eq)
  have split: "entries s (Suc n) = entry s 0 # entries ?s n"
    by (rule nth_equalityI) (use e in \<open>auto simp: nth_Cons split: nat.split simp del: upt_Suc\<close>)
  have "EndTime s = last (StartTime ?s # map fst (entries ?s n))"
    using h(3,6) unfolding split by (simp add: entry_def)
  moreover have "(Head s + Suc n) mod Len s = ((Head s + 1) mod Len s + n) mod Len s"
    by (simp add: mod_add_left_eq)
  ultimately have "ring_ok ?s n" using h by (simp add: ring_ok_def entries_def)
  then show ?thesis
    using h split by (intro exI [of _ ?s]) (simp add: pop_first_def entry_def same_conf_def)
qed

lemma ring_put_ok:
  assumes "ring_ok s n" and "n < Len s"
  shows "\<exists>s'. ring_put s axis t = Some s' \<and> ring_ok s' (Suc n) \<and> \<not> Empty s' \<and> StartTime s' = StartTime s \<and>
    entries s' (Suc n) = entries s n @ [(t, axis)] \<and> same_conf s s'"
proof -
  let ?s = "s\<lparr>RingAxes := (RingAxes s)[Tail s := axis], RingTimes := (RingTimes s)[Tail s := t],
    Empty := False, EndTime := t, Tail := (Tail s + 1) mod Len s\<rparr>"
  have h: "length (RingAxes s) = Len s" "length (RingTimes s) = Len s" "Head s < Len s"
    "Tail s = (Head s + n) mod Len s" using assms(1) by (simp_all add: ring_ok_def)
  have ne: "(Head s + i) mod Len s \<noteq> (Head s + n) mod Len s" if "i < n" for i
  proof -
    have "((Head s + i) mod Len s + (n - i)) mod Len s \<noteq> (Head s + i) mod Len s"
      using that assms(2) h(3) by (intro mod_other) auto
    moreover have "((Head s + i) mod Len s + (n - i)) mod Len s = (Head s + i + (n - i)) mod Len s"
      by (rule mod_add_left_eq)
    moreover have "Head s + i + (n - i) = Head s + n" using that by simp
    ultimately show ?thesis by metis
  qed
  have t: "Tail s < Len s" using h by simp
  have e: "entry ?s i = entry s i" if "i < n" for i
    using ne [OF that] h by (simp add: entry_def)
  have "entry ?s n = (t, axis)" using h t by (simp add: entry_def)
  then have split: "entries ?s (Suc n) = entries s n @ [(t, axis)]"
    by (intro nth_equalityI) (use e in \<open>auto simp: nth_append less_Suc_eq simp del: upt_Suc\<close>)
  have "(Tail s + 1) mod Len s = (Head s + Suc n) mod Len s" using h(4) by (simp add: mod_Suc_eq)
  moreover have "EndTime ?s = last (StartTime ?s # map fst (entries ?s (Suc n)))" unfolding split by simp
  ultimately have "ring_ok ?s (Suc n)" using h assms(2) by (simp add: ring_ok_def)
  then show ?thesis
    using h t split by (intro exI [of _ ?s]) (simp add: ring_put_def same_conf_def)
qed

lemma reduce_take_ok:
  assumes "ring_ok s (r + n)"
  shows "\<exists>db' s'. reduce_take ops r db s ts axes = Some (db', s',
      ts @ map fst (take r (entries s (r + n))), axes @ map snd (take r (entries s (r + n)))) \<and>
    ring_ok s' n \<and> entries s' n = drop r (entries s (r + n)) \<and> same_conf s s' \<and>
    StartTime s' = last (StartTime s # map fst (take r (entries s (r + n)))) \<and>
    Tail s' = Tail s \<and> Empty s' = Empty s"
  using assms
proof (induction r arbitrary: db s ts axes)
  case 0
  then show ?case by simp
next
  case (Suc r)
  have ok: "ring_ok s (Suc (r + n))" using Suc.prems by simp
  obtain s1 where s1: "pop_first ops db s = Some (fst (DeleteFirstAxisFromDb ops db s), s1, snd (entry s 0))"
    "ring_ok s1 (r + n)" "StartTime s1 = fst (entry s 0)"
    "entries s (Suc (r + n)) = entry s 0 # entries s1 (r + n)" "same_conf s s1" "Tail s1 = Tail s" "Empty s1 = Empty s"
    using pop_first_ok [OF ok, of ops db] by blast
  note IH = Suc.IH [OF s1(2), of "fst (DeleteFirstAxisFromDb ops db s)" "ts @ [fst (entry s 0)]" "axes @ [snd (entry s 0)]"]
  then show ?case using s1 by (auto intro: same_conf_trans)
qed

section \<open>Refinement\<close>

lemma abs_layer_eq:
  assumes "ring_ok s n" and "Empty s \<longleftrightarrow> n = 0"
  shows "abs_layer s = \<lparr>q_start = StartTime s, q_items = entries s n, q_cap = Len s, q_ratio = Ratio s\<rparr>"
  by (simp add: abs_layer_def ring_size_eq [OF assms])

lemma ring_put_abs:
  assumes "ring_ok s n" and "n < Len s" and "Ratio s \<le> Len s"
  shows "\<exists>s'. ring_put s axis t = Some s' \<and> layer_ok s' \<and> same_conf s s' \<and> abs_layer s' =
    \<lparr>q_start = StartTime s, q_items = entries s n @ [(t, axis)], q_cap = Len s, q_ratio = Ratio s\<rparr>"
proof -
  obtain s' where s': "ring_put s axis t = Some s'" "ring_ok s' (Suc n)" "\<not> Empty s'"
    "StartTime s' = StartTime s" "entries s' (Suc n) = entries s n @ [(t, axis)]" "same_conf s s'"
    using ring_put_ok [OF assms(1,2)] by blast
  have size: "ring_size s' = Suc n" using s' by (intro ring_size_eq) simp_all
  have "layer_ok s'" using s' size assms(3) by (simp add: layer_ok_def same_conf_def)
  moreover have "abs_layer s' =
    \<lparr>q_start = StartTime s, q_items = entries s n @ [(t, axis)], q_cap = Len s, q_ratio = Ratio s\<rparr>"
    using s'(4,5,6) size by (simp add: abs_layer_def same_conf_def)
  ultimately show ?thesis using s' by blast
qed

lemma layer_Append_refines:
  assumes "\<forall>s\<in>set ls. layer_ok s"
  shows "case q_append (reduce_axis strategy labeler) (map abs_layer ls) axis t of
      None \<Rightarrow> layer_Append ops strategy labeler ls db axis t = None
    | Some qs \<Rightarrow> \<exists>db' ls'. layer_Append ops strategy labeler ls db axis t = Some (db', ls') \<and>
        map abs_layer ls' = qs \<and> (\<forall>s\<in>set ls'. layer_ok s) \<and> list_all2 same_conf ls ls'"
  using assms
proof (induction ls arbitrary: db axis t)
  case Nil
  then show ?case by simp
next
  case (Cons s rest)
  let ?n = "ring_size s" and ?m = "reduce_axis strategy labeler"
  have ok: "layer_ok s" "ring_ok s ?n" "Ratio s \<le> Len s" using Cons.prems by (simp_all add: layer_ok_def)
  have refl: "list_all2 same_conf rest rest" by (simp add: list.rel_refl)
  note full = ring_full [OF ok(1)]
  let ?q = "abs_layer s"
  have q: "q_items ?q = entries s ?n" "q_cap ?q = Len s" "q_ratio ?q = Ratio s" "q_start ?q = StartTime s"
    by (simp_all add: abs_layer_def)
  have ne: "\<not> (Head s = Tail s \<and> \<not> Empty s) \<longleftrightarrow> ?n < Len s" using full by auto
  consider (room) "?n < Len s" | (drop) "?n = Len s" "Ratio s = 0 \<or> rest = []"
    | (merge) "?n = Len s" "Ratio s \<noteq> 0" "rest \<noteq> []" using full(3) by linarith
  then show ?case
  proof cases
    case room
    obtain s' where s': "ring_put s axis t = Some s'" "layer_ok s'" "same_conf s s'" "abs_layer s' =
      \<lparr>q_start = StartTime s, q_items = entries s ?n @ [(t, axis)], q_cap = Len s, q_ratio = Ratio s\<rparr>"
      using ring_put_abs [OF ok(2) room ok(3)] by blast
    have "q_append ?m (map abs_layer (s # rest)) axis t
        = Some (?q\<lparr>q_items := q_items ?q @ [(t, axis)]\<rparr> # map abs_layer rest)"
      using room q by simp
    moreover have "?q\<lparr>q_items := q_items ?q @ [(t, axis)]\<rparr> = abs_layer s'"
      using s'(4) by (simp add: abs_layer_def)
    ultimately show ?thesis
      using s' ne room Cons.prems refl by (auto simp: Let_def)
  next
    case drop
    obtain n where n: "?n = Suc n" using drop(1) full(2) gr0_implies_Suc by metis
    obtain s1 where s1: "pop_first ops db s = Some (fst (DeleteFirstAxisFromDb ops db s), s1, snd (entry s 0))"
      "ring_ok s1 n" "StartTime s1 = fst (entry s 0)" "entries s ?n = entry s 0 # entries s1 n" "same_conf s s1"
      using pop_first_ok [of s n ops db] ok(2) unfolding n by blast
    have "n < Len s1" "Ratio s1 \<le> Len s1" using s1(5) n drop(1) ok(3) by (auto simp: same_conf_def)
    then obtain s' where s': "ring_put s1 axis t = Some s'" "layer_ok s'" "same_conf s1 s'" "abs_layer s' =
      \<lparr>q_start = StartTime s1, q_items = entries s1 n @ [(t, axis)], q_cap = Len s1, q_ratio = Ratio s1\<rparr>"
      using ring_put_abs [OF s1(2)] by blast
    have "q_append ?m (map abs_layer (s # rest)) axis t
        = Some (?q\<lparr>q_start := fst (hd (q_items ?q)), q_items := tl (q_items ?q) @ [(t, axis)]\<rparr> # map abs_layer rest)"
      using drop q by auto
    moreover have "?q\<lparr>q_start := fst (hd (q_items ?q)), q_items := tl (q_items ?q) @ [(t, axis)]\<rparr> = abs_layer s'"
      using s'(4) s1 by (simp add: abs_layer_def same_conf_def)
    ultimately show ?thesis
      using s' s1 ne drop Cons.prems refl same_conf_trans [OF s1(5) s'(3)]
      by (auto simp: Let_def layer_Reduce_def)
  next
    case merge
    define r where "r = Ratio s"
    obtain n where n: "?n = r + n" using merge(1) ok(3) unfolding r_def by (metis le_add_diff_inverse)
    have r: "0 < r" using merge(2) by (simp add: r_def)
    let ?old = "take r (entries s ?n)"
    obtain db1 s1 where s1: "reduce_take ops r db s [StartTime s] [] = Some (db1, s1,
        [StartTime s] @ map fst ?old, [] @ map snd ?old)"
      "ring_ok s1 n" "entries s1 n = drop r (entries s ?n)" "same_conf s s1"
      "StartTime s1 = last (StartTime s # map fst ?old)"
      using reduce_take_ok [of s r n ops db "[StartTime s]" "[]"] ok(2) unfolding n by blast
    have old: "?old \<noteq> []" using r n by (simp flip: length_0_conv)
    then have start: "StartTime s1 = fst (last ?old)" using s1(5) by (simp add: last_map)
    have conf: "n < Len s1" "Ratio s1 \<le> Len s1" using s1(4) n r merge(1) ok(3) by (auto simp: same_conf_def)
    obtain s' where s': "ring_put s1 axis t = Some s'" "layer_ok s'" "same_conf s1 s'" "abs_layer s' =
      \<lparr>q_start = StartTime s1, q_items = entries s1 n @ [(t, axis)], q_cap = Len s1, q_ratio = Ratio s1\<rparr>"
      using ring_put_abs [OF s1(2) conf] by blast
    have conc: "layer_Append ops strategy labeler (s # rest) db axis t =
      do { a \<leftarrow> ?m r (StartTime s # map fst ?old) (map snd ?old);
           (db2, rest') \<leftarrow> layer_Append ops strategy labeler rest db1 a (StartTime s1);
           Some (fst (InsertLastAxisToDb ops db2 s1 axis t), s' # rest') }"
      using s1(1) s'(1) ne merge r_def
      by (simp add: Let_def layer_Reduce_def case_prod_beta' split: Option.bind_splits)
    have abs: "q_append ?m (map abs_layer (s # rest)) axis t =
      do { a \<leftarrow> ?m r (StartTime s # map fst ?old) (map snd ?old);
           qs \<leftarrow> q_append ?m (map abs_layer rest) a (StartTime s1);
           Some (abs_layer s' # qs) }"
      using merge q start s'(4) s1(3,4) r_def by (simp add: Let_def abs_layer_def same_conf_def)
    show ?thesis
    proof (cases "?m r (StartTime s # map fst ?old) (map snd ?old)")
      case None
      with conc abs show ?thesis by simp
    next
      case (Some a)
      note IH = Cons.IH [of db1 a "StartTime s1"]
      show ?thesis
      proof (cases "q_append ?m (map abs_layer rest) a (StartTime s1)")
        case None
        with IH Cons.prems conc abs Some show ?thesis by simp
      next
        case (Some qs)
        with IH Cons.prems obtain db2 rest' where "layer_Append ops strategy labeler rest db1 a (StartTime s1)
            = Some (db2, rest')" "map abs_layer rest' = qs" "\<forall>s\<in>set rest'. layer_ok s" "list_all2 same_conf rest rest'"
          by auto
        with conc abs Some \<open>?m r _ _ = Some a\<close> s' same_conf_trans [OF s1(4) s'(3)] show ?thesis by simp
      qed
    qed
  qed
qed

lemma newLayerStat_ok:
  assumes "0 < lc_Len conf" and "lc_Ratio conf \<le> lc_Len conf"
  shows "layer_ok (newLayerStat n conf t)" and "q_items (abs_layer (newLayerStat n conf t)) = []"
  using assms by (simp_all add: layer_ok_def ring_ok_def newLayerStat_def ring_size_def abs_layer_def entries_def)

definition demo_config :: "LayerConfig list" where
  "demo_config = [\<lparr>lc_Len = 2, lc_Ratio = 2\<rparr>, \<lparr>lc_Len = 2, lc_Ratio = 0\<rparr>]"

lemma NewStat_ok:
  assumes "\<forall>c\<in>set cfg. 0 < lc_Len c \<and> lc_Ratio c \<le> lc_Len c"
  shows "\<forall>s\<in>set (layers (NewStat db cfg t)). layer_ok s"
  using assms by (auto simp: NewStat_def dest!: set_zip_rightD intro: newLayerStat_ok)

text \<open>
  C3: the ring buffers implement bounded queues. Whatever the database does, appending to a
  chain of well-formed layers has exactly the effect of \<open>q_append\<close> on the queues read off
  the rings, a panic included, so a layer never holds more than \<open>Len\<close> axes, no entry is
  lost or reordered, and a full layer hands its \<open>Ratio\<close> oldest axes, compacted into one, to
  the next layer; the layers stay well formed.
\<close>

theorem layer_Append_queue:
  assumes "\<forall>s\<in>set ls. layer_ok s"
  shows "map_option (\<lambda>(db', ls'). map abs_layer ls') (layer_Append ops strategy labeler ls db axis t)
      = q_append (reduce_axis strategy labeler) (map abs_layer ls) axis t \<and>
    (\<forall>db' ls'. layer_Append ops strategy labeler ls db axis t = Some (db', ls') \<longrightarrow>
       (\<forall>s\<in>set ls'. layer_ok s) \<and> list_all2 same_conf ls ls')"
  using layer_Append_refines [OF assms, where strategy = strategy and labeler = labeler and ops = ops
      and db = db and axis = axis and t = t]
  by (auto split: option.splits)

definition demo_ops :: "(unit, unit) store_ops" where
  "demo_ops = \<lparr>gob_Encode = (\<lambda>_. None), gob_Decode = (\<lambda>_. None), db_HasTable = (\<lambda>_. True),
     db_CreateTable = (\<lambda>_. ((), True)), db_Create = (\<lambda>_ _. ((), True)), db_DeleteTime = (\<lambda>_ _ _. ((), True)),
     db_DeleteLayer = (\<lambda>_ _. ((), True)), db_DeleteAll = (\<lambda>_. ((), True)), db_FindByTime = (\<lambda>_ _. None)\<rparr>"

lemma demo_config_ok: "\<forall>c\<in>set demo_config. 0 < lc_Len c \<and> lc_Ratio c \<le> lc_Len c"
  by (simp add: demo_config_def)

theorem layer_Append_queue_witness:
  "map_option (\<lambda>(db', ls'). map abs_layer ls') (layer_Append demo_ops AverageSplitStrategy naive_NewLabeler
      (layers (NewStat () demo_config 10)) () demo_axis 20)
    = Some [\<lparr>q_start = 10, q_items = [(20, demo_axis)], q_cap = 2, q_ratio = 2\<rparr>,
            \<lparr>q_start = 10, q_items = [], q_cap = 2, q_ratio = 0\<rparr>]"
proof -
  note layer_Append_queue [OF NewStat_ok [OF demo_config_ok, of "()" 10], where ops = demo_ops
      and strategy = AverageSplitStrategy and labeler = naive_NewLabeler and axis = demo_axis and t = 20]
  moreover have "map abs_layer (layers (NewStat () demo_config 10))
      = [\<lparr>q_start = 10, q_items = [], q_cap = 2, q_ratio = 2\<rparr>, \<lparr>q_start = 10, q_items = [], q_cap = 2, q_ratio = 0\<rparr>]"
    by (simp add: NewStat_def demo_config_def newLayerStat_def abs_layer_def ring_size_def entries_def upt_rec)
  ultimately show ?thesis by simp
qed

section \<open>The time line\<close>

text \<open>
  Every layer's times increase, and the newest time of a layer is the start of the layer
  before it: together the layers cover one stretch of time without gaps or overlaps.
\<close>

definition q_sorted :: "queue \<Rightarrow> bool" where
  "q_sorted q \<longleftrightarrow> sorted_wrt (<) (q_times q)"

fun q_chain :: "queue list \<Rightarrow> bool" where
  "q_chain [] = True"
| "q_chain [q] = True"
| "q_chain (q # q' # qs) = (last (q_times q') = q_start q \<and> q_chain (q' # qs))"

definition q_config :: "queue list \<Rightarrow> bool" where
  "q_config qs \<longleftrightarrow> (\<forall>q\<in>set qs. 0 < q_cap q \<and> q_ratio q \<le> q_cap q \<and> length (q_items q) \<le> q_cap q) \<and>
     (\<forall>q\<in>set (butlast qs). 0 < q_ratio q)"

text \<open>The entries of a queue with the intervals they cover, and of all layers, oldest first.\<close>

definition intervals :: "queue \<Rightarrow> (int \<times> int \<times> Axis) list" where
  "intervals q = map2 (\<lambda>a (b, x). (a, b, x)) (q_times q) (q_items q)"

definition history :: "queue list \<Rightarrow> (int \<times> int \<times> Axis) list" where
  "history qs = concat (map intervals (rev qs))"

text \<open>Consecutive intervals from \<open>a\<close> to \<open>b\<close>.\<close>

fun covers :: "int \<Rightarrow> (int \<times> int \<times> 'x) list \<Rightarrow> int \<Rightarrow> bool" where
  "covers a [] b \<longleftrightarrow> a = b"
| "covers a ((c, d, x) # es) b \<longleftrightarrow> a = c \<and> c < d \<and> covers d es b"

lemma covers_append: "covers a (xs @ ys) c \<longleftrightarrow> (\<exists>b. covers a xs b \<and> covers b ys c)"
  by (induction a xs c rule: covers.induct) auto

lemma covers_le: "covers a es b \<Longrightarrow> a \<le> b"
  by (induction a es b rule: covers.induct) auto

lemma covers_intervals:
  assumes "sorted_wrt (<) (a # map fst items)"
  shows "covers a (map2 (\<lambda>a (b, x). (a, b, x)) (a # map fst items) items) (last (a # map fst items))"
  using assms by (induction items arbitrary: a) auto

lemma q_intervals_covers: "q_sorted q \<Longrightarrow> covers (q_start q) (intervals q) (last (q_times q))"
  unfolding q_sorted_def intervals_def q_times_def by (rule covers_intervals)

lemma history_covers:
  assumes "qs \<noteq> []" and "\<forall>q\<in>set qs. q_sorted q" and "q_chain qs"
  shows "covers (q_start (last qs)) (history qs) (last (q_times (hd qs)))"
  using assms
proof (induction qs rule: q_chain.induct)
  case (3 q q' qs)
  then have "covers (q_start (last (q' # qs))) (history (q' # qs)) (q_start q)" by simp
  moreover have "covers (q_start q) (intervals q) (last (q_times q))"
    using 3 by (intro q_intervals_covers) simp
  ultimately show ?case by (auto simp: history_def covers_append)
qed (simp_all add: history_def q_intervals_covers)


definition q_inv :: "queue list \<Rightarrow> bool" where
  "q_inv qs \<longleftrightarrow> qs \<noteq> [] \<and> (\<forall>q\<in>set qs. q_sorted q) \<and> q_chain qs \<and> q_config qs"

lemma q_times_snoc: "q_times (q\<lparr>q_items := is @ [(t, x)]\<rparr>) = q_start q # map fst is @ [t]"
  by (simp add: q_times_def)

lemma sorted_wrt_last_max: "sorted_wrt (<) ts \<Longrightarrow> u \<in> set ts \<Longrightarrow> u \<le> (last ts :: int)"
  by (induction ts) (auto split: if_splits intro: less_imp_le)

lemma q_sorted_drop:
  assumes "q_sorted q" and "0 < r" and "r \<le> length (q_items q)" and "last (q_times q) < t"
    and "start = fst (last (take r (q_items q)))"
  shows "q_sorted (q\<lparr>q_start := start, q_items := drop r (q_items q) @ [(t, x)]\<rparr>)"
    and "q_start q < start"
proof -
  let ?is = "q_items q"
  have ne: "take r ?is \<noteq> []" using assms(2,3) by auto
  have "map fst (take r ?is) = butlast (map fst (take r ?is)) @ [start]"
    using ne assms(5) by (metis append_butlast_last_id last_map map_is_Nil_conv)
  then have times: "q_times q = q_start q # butlast (map fst (take r ?is)) @ start # map fst (drop r ?is)"
    unfolding q_times_def
    by (metis append_Cons append_assoc append_take_drop_id map_append self_append_conv2)
  have s: "sorted_wrt (<) (q_times q)" using assms(1) by (simp add: q_sorted_def)
  then show "q_start q < start" unfolding times by simp
  have "\<forall>u\<in>set (q_times q). u < t"
    using sorted_wrt_last_max [OF s] assms(4) by fastforce
  then show "q_sorted (q\<lparr>q_start := start, q_items := drop r ?is @ [(t, x)]\<rparr>)"
    using s unfolding q_sorted_def times
    by (auto simp: q_times_def sorted_wrt_append)
qed

lemma q_sorted_put:
  assumes "q_sorted q" and "last (q_times q) < t"
  shows "q_sorted (q\<lparr>q_items := q_items q @ [(t, x)]\<rparr>)"
proof -
  have s: "sorted_wrt (<) (q_times q)" using assms(1) by (simp add: q_sorted_def)
  have "\<forall>u\<in>set (q_times q). u < t" using sorted_wrt_last_max [OF s] assms(2) by fastforce
  with s have "sorted_wrt (<) (q_times q @ [t])" by (simp add: sorted_wrt_append)
  then show ?thesis by (simp add: q_sorted_def q_times_def)
qed

lemma q_chain_replace:
  "q_chain (q # qs) \<Longrightarrow> q_start q' = q_start q \<Longrightarrow> q_chain (q' # qs)"
  by (cases qs) auto

lemma q_chain_Cons:
  "q_chain (q # qs) \<longleftrightarrow> q_chain qs \<and> (qs \<noteq> [] \<longrightarrow> last (q_times (hd qs)) = q_start q)"
  by (cases qs) auto

lemma q_append_step:
  assumes "q_append m qs axis t = Some qs'" and "q_inv qs" and "last (q_times (hd qs)) < t"
  shows "q_inv qs' \<and> last (q_times (hd qs')) = t \<and> map q_cap qs' = map q_cap qs \<and> map q_ratio qs' = map q_ratio qs"
  using assms
proof (induction qs arbitrary: axis t qs')
  case Nil
  then show ?case by simp
next
  case (Cons q qs)
  have sorted: "q_sorted q" "\<forall>q\<in>set qs. q_sorted q" and chain: "q_chain (q # qs)"
    and cap: "0 < q_cap q" "q_ratio q \<le> q_cap q" "length (q_items q) \<le> q_cap q"
    and conf: "q_config (q # qs)" and rest: "qs \<noteq> [] \<Longrightarrow> q_inv qs"
    using Cons.prems(2) by (auto simp: q_inv_def q_config_def q_chain_Cons)
  have last: "last (q_times q) < t" using Cons.prems(3) by simp
  consider (room) "length (q_items q) < q_cap q" | (drop) "length (q_items q) = q_cap q" "qs = []"
    | (merge) "length (q_items q) = q_cap q" "qs \<noteq> []" using cap by linarith
  then show ?case
  proof cases
    case room
    let ?q = "q\<lparr>q_items := q_items q @ [(t, axis)]\<rparr>"
    have "qs' = ?q # qs" using Cons.prems(1) room by simp
    moreover have "q_chain (?q # qs)" using chain by (rule q_chain_replace) simp
    moreover have "q_sorted ?q" using sorted(1) last by (rule q_sorted_put)
    moreover have "q_config (?q # qs)" using conf room by (auto simp: q_config_def)
    ultimately show ?thesis using sorted by (simp add: q_inv_def q_times_def)
  next
    case drop
    have one: "q_items q \<noteq> []" using cap(1) drop(1) by auto
    then have hd: "fst (hd (q_items q)) = fst (last (take 1 (q_items q)))" by (cases "q_items q") auto
    let ?q = "q\<lparr>q_start := fst (hd (q_items q)), q_items := tl (q_items q) @ [(t, axis)]\<rparr>"
    have "q_sorted ?q"
      using q_sorted_drop(1) [OF sorted(1) _ _ last hd, where x = axis] one
      by (cases "q_items q") (auto simp: drop_Suc)
    moreover have "qs' = [?q]" using Cons.prems(1) drop by simp
    moreover have "q_config [?q]" using conf drop one by (auto simp: q_config_def)
    ultimately show ?thesis using drop(2) by (simp add: q_inv_def q_times_def)
  next
    case merge
    let ?r = "q_ratio q" and ?old = "take (q_ratio q) (q_items q)"
    let ?start = "fst (last ?old)"
    have r: "0 < ?r" using conf merge(2) by (auto simp: q_config_def)
    obtain a qs1 where a: "q_append m qs a ?start = Some qs1"
      and qs': "qs' = q\<lparr>q_start := ?start, q_items := drop ?r (q_items q) @ [(t, axis)]\<rparr> # qs1"
      using Cons.prems(1) merge r by (auto simp: Let_def bind_eq_Some_conv)
    note drop = q_sorted_drop(1) [OF sorted(1) r _ last refl, where x = axis]
      q_sorted_drop(2) [OF sorted(1) r _ last refl]
    have "last (q_times (hd qs)) < ?start"
      using drop(2) cap(2) merge chain by (simp add: q_chain_Cons)
    from Cons.IH [OF a rest [OF merge(2)] this]
    have IH: "q_inv qs1" "last (q_times (hd qs1)) = ?start" "map q_cap qs1 = map q_cap qs"
      "map q_ratio qs1 = map q_ratio qs" by simp_all
    have "q_config qs'"
      using conf IH(1) r cap merge(1) unfolding qs' q_config_def q_inv_def by auto
    moreover have "q_chain qs'" using IH(1,2) unfolding qs' by (simp add: q_chain_Cons q_inv_def)
    moreover have "\<forall>q\<in>set qs'. q_sorted q"
      using drop(1) cap(2) merge(1) IH(1) unfolding qs' by (auto simp: q_inv_def)
    ultimately show ?thesis using IH unfolding qs' by (simp add: q_inv_def q_times_def)
  qed
qed

lemma NewStat_inv:
  assumes "cfg \<noteq> []" and "\<forall>c\<in>set cfg. 0 < lc_Len c \<and> lc_Ratio c \<le> lc_Len c"
    and "\<forall>c\<in>set (butlast cfg). 0 < lc_Ratio c"
  shows "q_inv (map abs_layer (layers (NewStat db cfg t)))"
    and "q_times (hd (map abs_layer (layers (NewStat db cfg t)))) = [t]"
proof -
  let ?f = "\<lambda>c. \<lparr>q_start = t, q_items = [], q_cap = lc_Len c, q_ratio = lc_Ratio c\<rparr>"
  have "abs_layer (newLayerStat i c t) = ?f c" for i c
    by (simp add: abs_layer_def newLayerStat_def ring_size_def entries_def)
  then have eq: "map abs_layer (layers (NewStat db cfg t)) = map ?f cfg"
    by (intro nth_equalityI) (simp_all add: NewStat_def)
  have "q_chain (map ?f cs)" for cs
    by (induction cs) (auto simp: q_chain_Cons q_times_def hd_map)
  then show "q_inv (map abs_layer (layers (NewStat db cfg t)))"
    unfolding eq using assms by (auto simp: q_inv_def q_sorted_def q_times_def q_config_def simp flip: map_butlast)
  show "q_times (hd (map abs_layer (layers (NewStat db cfg t)))) = [t]"
    unfolding eq using assms(1) by (simp add: hd_map q_times_def)
qed

text \<open>
  Appending at a later time keeps the time line of a chain of layers: each layer's times
  increase, each layer starts where the next one ends, no layer exceeds its length, and the
  axes of all layers cover one stretch of time without gap or overlap up to the appended
  time.
\<close>

theorem layer_Append_timeline:
  assumes "\<forall>s\<in>set ls. layer_ok s" and "q_inv (map abs_layer ls)" and "EndTime (hd ls) < t"
    and "layer_Append ops strategy labeler ls db axis t = Some (db', ls')"
  shows "q_inv (map abs_layer ls') \<and> EndTime (hd ls') = t \<and>
    covers (StartTime (last ls')) (history (map abs_layer ls')) t \<and>
    (\<forall>s\<in>set ls'. length (q_items (abs_layer s)) \<le> Len s)"
proof -
  have at_end: "EndTime s = last (q_times (abs_layer s))" if "layer_ok s" for s
    using that by (simp add: layer_ok_def ring_ok_def q_times_def abs_layer_def)
  have ne: "ls \<noteq> []" using assms(2) by (simp add: q_inv_def)
  have q: "q_append (reduce_axis strategy labeler) (map abs_layer ls) axis t = Some (map abs_layer ls')"
    and ok': "\<forall>s\<in>set ls'. layer_ok s"
    using layer_Append_refines [OF assms(1), where strategy = strategy and labeler = labeler and ops = ops
      and db = db and axis = axis and t = t] assms(4) by (auto split: option.splits)
  have "last (q_times (hd (map abs_layer ls))) < t"
    using assms(1,3) ne at_end [of "hd ls"] by (simp add: hd_map)
  from q_append_step [OF q assms(2) this]
  have inv: "q_inv (map abs_layer ls')" "last (q_times (hd (map abs_layer ls'))) = t" by simp_all
  then have ne': "ls' \<noteq> []" by (simp add: q_inv_def)
  have "EndTime (hd ls') = t" using inv(2) ne' ok' at_end [of "hd ls'"] by (simp add: hd_map)
  moreover have "covers (StartTime (last ls')) (history (map abs_layer ls')) t"
    using history_covers [of "map abs_layer ls'"] inv ne'
    by (simp add: q_inv_def last_map) (simp add: abs_layer_def)
  moreover have "\<forall>s\<in>set ls'. length (q_items (abs_layer s)) \<le> Len s"
    using ok' ring_full(3) by (simp add: abs_layer_def)
  ultimately show ?thesis using inv by blast
qed

theorem layer_Append_timeline_witness:
  "\<exists>ls'. layer_Append demo_ops AverageSplitStrategy naive_NewLabeler
      (layers (NewStat () demo_config 10)) () demo_axis 20 = Some ((), ls') \<and>
    covers 10 (history (map abs_layer ls')) 20"
proof -
  let ?ls = "layers (NewStat () demo_config 10)"
  have ok: "\<forall>s\<in>set ?ls. layer_ok s" by (rule NewStat_ok [OF demo_config_ok])
  have inv: "q_inv (map abs_layer ?ls)"
    by (rule NewStat_inv) (use demo_config_ok in \<open>auto simp: demo_config_def\<close>)
  have e: "EndTime (hd ?ls) < 20" by (simp add: NewStat_def demo_config_def newLayerStat_def upt_rec)
  have "\<exists>ls'. layer_Append demo_ops AverageSplitStrategy naive_NewLabeler ?ls () demo_axis 20 = Some ((), ls') \<and>
      StartTime (last ls') = 10"
    by (simp add: NewStat_def demo_config_def newLayerStat_def upt_rec ring_put_def Let_def)
  then obtain ls' where l: "layer_Append demo_ops AverageSplitStrategy naive_NewLabeler ?ls () demo_axis 20
      = Some ((), ls')" "StartTime (last ls') = 10" by blast
  from layer_Append_timeline [OF ok inv e l(1)] l show ?thesis by auto
qed

end
