(* ===== verification/DistanceProps.thy ===== *)
theory DistanceProps
  imports MatrixDistance
begin

text \<open>
  What the two passes of \<open>NewSplitter\<close> compute (the distance to the nearest axis that has
  the key), and what the scale factors of an interval add up to in exact arithmetic.
\<close>

section \<open>Nearest distances\<close>

lemma update_dis_part:
  assumes "part_of dst c" and "part_at dst c ps" and "i \<le> length (ckeys dst)" and "j \<le> length ps"
    and "j < length ps \<Longrightarrow> i \<le> ps ! j" and "0 < j \<Longrightarrow> ps ! (j - 1) < i"
    and "\<And>i. i < length (ckeys dst) \<Longrightarrow> near i = Some (f i)"
  shows "update_dis near (ckeys c) (ckeys dst) j [i..<length (ckeys dst)]
    = Some (map (\<lambda>i. if i \<in> set ps then 0 else f i) [i..<length (ckeys dst)])"
  using assms(3-6)
proof (induction "length (ckeys dst) - i" arbitrary: i j)
  case (Suc n)
  then have i: "i < length (ckeys dst)" by simp
  have lens: "length (ckeys c) = length ps" "2 \<le> length ps"
    using assms(1,2) by (auto simp: part_of_def part_at_def chunk_ok_def)
  have mono: "ps ! a < ps ! b" if "a < b" "b < length ps" for a b
    using assms(2) that by (simp add: part_at_def sorted_wrt_iff_nth_less)
  have psn: "ps ! a < length (ckeys dst)" if "a < length ps" for a
    using assms(2) that by (auto simp: part_at_def)
  have hit: "equal (ckeys dst ! i) (ckeys c ! j) \<longleftrightarrow> i = ps ! j" if "j < length ps"
  proof (rule part_equal [OF assms(1,2) that i])
    show "0 < j \<and> 0 < i \<or> j = 0 \<and> i < length (ckeys dst) - 1"
    proof (cases "j = 0")
      case True
      then have "i \<le> ps ! 0" using Suc.prems(3) that by simp
      moreover have "ps ! 0 < ps ! 1" "ps ! 1 < length (ckeys dst)"
        using mono [of 0 1] psn [of 1] lens by auto
      ultimately show ?thesis using True by auto
    qed (use Suc.prems(4) in auto)
  qed
  have mem: "i \<in> set ps \<longleftrightarrow> j < length ps \<and> i = ps ! j"
  proof
    assume "i \<in> set ps"
    then obtain k where k: "k < length ps" "i = ps ! k" by (auto simp: in_set_conv_nth)
    have "\<not> k < j"
    proof
      assume "k < j"
      then have "ps ! k \<le> ps ! (j - 1)"
        using mono [of k "j - 1"] Suc.prems(2) by (cases "k = j - 1") (auto intro: less_imp_le)
      with Suc.prems(4) k \<open>k < j\<close> show False by auto
    qed
    moreover have "\<not> j < k"
    proof
      assume "j < k"
      with mono [of j k] k have "ps ! j < i" by simp
      with Suc.prems(3) \<open>j < k\<close> k show False by auto
    qed
    ultimately show "j < length ps \<and> i = ps ! j" using k by auto
  qed auto
  let ?j = "if i \<in> set ps then j + 1 else j"
  have "update_dis near (ckeys c) (ckeys dst) ?j [Suc i..<length (ckeys dst)]
    = Some (map (\<lambda>i. if i \<in> set ps then 0 else f i) [Suc i..<length (ckeys dst)])"
  proof (rule Suc.hyps(1))
    show "?j < length ps \<Longrightarrow> Suc i \<le> ps ! ?j"
      using Suc.prems(3) mem mono [of j "Suc j"] by (cases "i \<in> set ps") (auto simp: Suc_le_eq)
    show "0 < ?j \<Longrightarrow> ps ! (?j - 1) < Suc i"
      using Suc.prems(4) mem by (cases "i \<in> set ps") auto
  qed (use Suc.hyps(2) Suc.prems(2) i mem in auto)
  moreover have "(if j < length (ckeys c) then do {
               ck \<leftarrow> idx (ckeys dst) i;
               k \<leftarrow> idx (ckeys c) j;
               Some (equal ck k)
             } else Some False) = Some (i \<in> set ps)"
    using hit mem lens i by auto
  ultimately show ?case
    using assms(7) [OF i]
    by (simp only: upt_conv_Cons [OF i] update_dis.simps bind.bind_lunit) simp
qed simp

text \<open>The passes of one compact key, with \<open>h i\<close> for axis \<open>i\<close> has the key.\<close>

fun left_dist :: "(nat \<Rightarrow> bool) \<Rightarrow> int \<Rightarrow> nat \<Rightarrow> int" where
  "left_dist h n 0 = (if h 0 then 0 else n + 1)"
| "left_dist h n (Suc i) = (if h (Suc i) then 0 else left_dist h n i + 1)"

lemma left_dist_le: "i' \<le> i \<Longrightarrow> h i' \<Longrightarrow> left_dist h n i \<le> int i - int i'"
  by (induction i) (auto simp: le_Suc_eq)

lemma left_dist_attained:
  "(\<exists>i' \<le> i. h i' \<and> left_dist h n i = int i - int i') \<or> left_dist h n i = n + int i + 1"
proof (induction i)
  case (Suc i)
  then show ?case by (cases "h (Suc i)") (auto intro: le_SucI)
qed auto

lemma right_dist_nearest:
  assumes "\<And>i. i < n \<Longrightarrow> R i = (if h i then 0 else min (left_dist h (int n) i) (R (Suc i) + 1))"
    and "R n = int n" and "i < n"
  shows "(\<forall>i' < n. h i' \<longrightarrow> R i \<le> \<bar>int i - int i'\<bar>) \<and>
    ((\<exists>i' < n. h i' \<and> R i = \<bar>int i - int i'\<bar>) \<or> int n \<le> R i)"
  using assms(3)
proof (induction "n - i" arbitrary: i)
  case (Suc m)
  show ?case
  proof (cases "h i")
    case True
    then show ?thesis using assms(1) [OF Suc.prems] Suc.prems by auto
  next
    case False
    let ?L = "left_dist h (int n) i"
    have R: "R i = min ?L (R (Suc i) + 1)" using assms(1) [OF Suc.prems] False by simp
    have nxt: "(\<forall>i' < n. h i' \<longrightarrow> R (Suc i) \<le> \<bar>int (Suc i) - int i'\<bar>) \<and>
      ((\<exists>i' < n. h i' \<and> R (Suc i) = \<bar>int (Suc i) - int i'\<bar>) \<or> int n \<le> R (Suc i))"
      if "Suc i < n"
    proof (rule Suc.hyps(1) [OF _ that])
      show "m = n - Suc i" using Suc.hyps(2) by simp
    qed
    have le: "R i \<le> \<bar>int i - int i'\<bar>" if "i' < n" "h i'" for i'
    proof (cases "i' \<le> i")
      case True
      then have "?L \<le> int i - int i'" using left_dist_le that by blast
      then show ?thesis using R True by simp
    next
      case gt: False
      then have "Suc i < n" using that by simp
      from nxt [OF this] that have "R (Suc i) \<le> \<bar>int (Suc i) - int i'\<bar>" by blast
      then show ?thesis using R gt by simp
    qed
    moreover have "(\<exists>i' < n. h i' \<and> R i = \<bar>int i - int i'\<bar>) \<or> int n \<le> R i"
    proof (cases "R i = ?L")
      case True
      from left_dist_attained [of i h "int n"] show ?thesis
      proof
        assume "\<exists>i' \<le> i. h i' \<and> left_dist h (int n) i = int i - int i'"
        then obtain i' where "i' \<le> i" "h i'" "R i = \<bar>int i - int i'\<bar>" using True by auto
        then show ?thesis using Suc.prems by (intro disjI1 exI [of _ i']) auto
      qed (use True in simp)
    next
      case False
      then have Ri: "R i = R (Suc i) + 1" "R i < ?L" using R by auto
      show ?thesis
      proof (cases "Suc i < n")
        case True
        with nxt consider (at) i' where "i' < n" "h i'" "R (Suc i) = \<bar>int (Suc i) - int i'\<bar>"
          | (far) "int n \<le> R (Suc i)" by blast
        then show ?thesis
        proof cases
          case at
          show ?thesis
          proof (cases "i' \<le> i")
            case True
            then have "R i \<le> int i - int i'" using le [OF at(1,2)] by simp
            moreover have "R i = int i - int i' + 2" using Ri at(3) True by simp
            ultimately show ?thesis by simp
          next
            case False
            then have "R i = \<bar>int i - int i'\<bar>" using Ri at(3) by simp
            with at show ?thesis by blast
          qed
        qed (use Ri in simp)
      next
        case False
        then have "Suc i = n" using Suc.prems by simp
        with Ri assms(2) show ?thesis by simp
      qed
    qed
    ultimately show ?thesis by blast
  qed
qed simp

text \<open>The two passes row by row.\<close>

definition hits :: "(nat \<Rightarrow> nat list) \<Rightarrow> nat \<Rightarrow> nat \<Rightarrow> bool" where
  "hits PS p i \<longleftrightarrow> p \<in> set (PS i)"

lemma left_pass_row:
  assumes "\<And>i. i < length cs \<Longrightarrow> part_of dst (cs ! i) \<and> part_at dst (cs ! i) (PS i)"
    and "length lft = length (ckeys dst)"
  shows "\<exists>dis. left_pass (ckeys dst) lft cs = Some dis \<and> length dis = length cs \<and>
    (\<forall>i < length cs. length (dis ! i) = length (ckeys dst) \<and>
      (\<forall>p < length (ckeys dst). dis ! i ! p = (if p \<in> set (PS i) then 0 else
         (if i = 0 then lft ! p else dis ! (i - 1) ! p) + 1)))"
  using assms
proof (induction cs arbitrary: lft PS)
  case (Cons c cs)
  have c: "part_of dst c" "part_at dst c (PS 0)" using Cons.prems(1) [of 0] by auto
  define d where "d = map (\<lambda>p. if p \<in> set (PS 0) then 0 else lft ! p + 1) [0..<length (ckeys dst)]"
  have d: "updateLeftDis (replicate (length (ckeys dst)) 0) lft (ckeys c) (ckeys dst) = Some d"
    unfolding updateLeftDis_def d_def
    using part_check [OF c(1)] update_dis_part [OF c, of 0 0 "\<lambda>i. idx lft i \<bind> (\<lambda>l. Some (l + 1))"
        "\<lambda>p. lft ! p + 1"] Cons.prems(2) by simp
  obtain ds where ds: "left_pass (ckeys dst) d cs = Some ds" "length ds = length cs"
    "\<And>i. i < length cs \<Longrightarrow> length (ds ! i) = length (ckeys dst)"
    "\<And>i p. i < length cs \<Longrightarrow> p < length (ckeys dst) \<Longrightarrow> ds ! i ! p =
       (if p \<in> set (PS (Suc i)) then 0 else (if i = 0 then d ! p else ds ! (i - 1) ! p) + 1)"
  proof -
    have "part_of dst (cs ! i) \<and> part_at dst (cs ! i) (PS (Suc i))" if "i < length cs" for i
      using Cons.prems(1) [of "Suc i"] that by simp
    moreover have "length d = length (ckeys dst)" by (simp add: d_def)
    ultimately show thesis using Cons.IH [of "\<lambda>i. PS (Suc i)" d] that by blast
  qed
  have "left_pass (ckeys dst) lft (c # cs) = Some (d # ds)" using d ds(1) by simp
  moreover have "(d # ds) ! i ! p = (if p \<in> set (PS i) then 0 else
      (if i = 0 then lft ! p else (d # ds) ! (i - 1) ! p) + 1)"
    if "i < length (c # cs)" "p < length (ckeys dst)" for i p
  proof (cases i)
    case (Suc k)
    then show ?thesis using ds(4) [of k p] that by (cases k) auto
  qed (use that in \<open>simp add: d_def\<close>)
  moreover have "length ((d # ds) ! i) = length (ckeys dst)" if "i < length (c # cs)" for i
    using that ds(3) by (cases i) (auto simp: d_def)
  ultimately show ?case using ds(2) by auto
qed simp

lemma right_pass_row:
  assumes "\<And>i. i < length cs \<Longrightarrow> part_of dst (cs ! i) \<and> part_at dst (cs ! i) (PS i)"
    and "length virt = length (ckeys dst)" and "length dis = length cs"
    and "\<And>i. i < length cs \<Longrightarrow> length (dis ! i) = length (ckeys dst)"
  shows "\<exists>res. right_pass (ckeys dst) virt (zip dis cs) = Some res \<and> length res = length cs \<and>
    (\<forall>i < length cs. length (res ! i) = length (ckeys dst) \<and>
      (\<forall>p < length (ckeys dst). res ! i ! p = (if p \<in> set (PS i) then 0 else
         min (dis ! i ! p) ((if Suc i = length cs then virt ! p else res ! Suc i ! p) + 1))))"
  using assms(1,3,4)
proof (induction cs arbitrary: dis PS)
  case (Cons c cs)
  obtain d0 dis' where dis: "dis = d0 # dis'" "length dis' = length cs"
    using Cons.prems(2) by (cases dis) auto
  have c: "part_of dst c" "part_at dst c (PS 0)" using Cons.prems(1) [of 0] by auto
  obtain rs where rs: "right_pass (ckeys dst) virt (zip dis' cs) = Some rs" "length rs = length cs"
    "\<And>i. i < length cs \<Longrightarrow> length (rs ! i) = length (ckeys dst)"
    "\<And>i p. i < length cs \<Longrightarrow> p < length (ckeys dst) \<Longrightarrow> rs ! i ! p = (if p \<in> set (PS (Suc i)) then 0
       else min (dis' ! i ! p) ((if Suc i = length cs then virt ! p else rs ! Suc i ! p) + 1))"
  proof -
    have "part_of dst (cs ! i) \<and> part_at dst (cs ! i) (PS (Suc i))" if "i < length cs" for i
      using Cons.prems(1) [of "Suc i"] that by simp
    moreover have "length (dis' ! i) = length (ckeys dst)" if "i < length cs" for i
      using Cons.prems(3) [of "Suc i"] that dis by simp
    ultimately show thesis using Cons.IH [of "\<lambda>i. PS (Suc i)" dis'] dis(2) that by blast
  qed
  define r where "r = (case rs of [] \<Rightarrow> virt | r # _ \<Rightarrow> r)"
  have r: "length r = length (ckeys dst)" "r = (if cs = [] then virt else rs ! 0)"
    using rs(2) rs(3) [of 0] assms(2) by (cases rs; cases cs; simp add: r_def)+
  define d where "d = map (\<lambda>p. if p \<in> set (PS 0) then 0 else min (d0 ! p) (r ! p + 1)) [0..<length (ckeys dst)]"
  have d0: "length d0 = length (ckeys dst)" using Cons.prems(3) [of 0] dis by simp
  have d: "updateRightDis d0 r (ckeys c) (ckeys dst) = Some d"
    unfolding updateRightDis_def d_def d0
    by (rule update_dis_part [OF c]) (use d0 r in \<open>auto simp: Min_int_def min_def\<close>)
  have "right_pass (ckeys dst) virt (zip dis (c # cs)) = Some (d # rs)"
    using rs(1) d by (simp add: dis r_def)
  moreover have "(d # rs) ! i ! p = (if p \<in> set (PS i) then 0 else
      min (dis ! i ! p) ((if Suc i = length (c # cs) then virt ! p else (d # rs) ! Suc i ! p) + 1))"
    if "i < length (c # cs)" "p < length (ckeys dst)" for i p
  proof (cases i)
    case 0
    then show ?thesis using that r(2) by (simp add: d_def dis)
  next
    case (Suc k)
    then show ?thesis using rs(4) [of k p] that by (simp add: dis)
  qed
  moreover have "length ((d # rs) ! i) = length (ckeys dst)" if "i < length (c # cs)" for i
    using that rs(3) by (cases i) (auto simp: d_def)
  ultimately show ?case using rs(2) by auto
qed simp

lemma key_distances_rows:
  assumes "chunks \<noteq> []" and "length (PS :: nat list list) = length chunks"
    and "\<forall>i < length chunks. part_of dst (chunks ! i) \<and> part_at dst (chunks ! i) (PS ! i)"
  shows "\<exists>dis. key_distances chunks (ckeys dst) = Some dis \<and> length dis = length chunks \<and>
    (\<forall>i < length chunks. length (dis ! i) = length (ckeys dst) \<and> (\<forall>d\<in>set (dis ! i). 0 \<le> d)) \<and>
    (\<forall>i < length chunks. \<forall>p < length (ckeys dst).
       (\<exists>k < length chunks. p \<in> set (PS ! k)) \<longrightarrow>
       (\<forall>k < length chunks. p \<in> set (PS ! k) \<longrightarrow> dis ! i ! p \<le> \<bar>int i - int k\<bar>) \<and>
       (\<exists>k < length chunks. p \<in> set (PS ! k) \<and> dis ! i ! p = \<bar>int i - int k\<bar>))"
proof -
  let ?n = "length chunks" and ?m = "length (ckeys dst)"
  define virt where "virt = replicate ?m (int ?n)"
  have virt: "MemsetInt (replicate ?m 0) (int ?n) = virt" by (simp add: MemsetInt_correct virt_def)
  obtain L where L: "left_pass (ckeys dst) virt chunks = Some L" "length L = ?n"
    "\<And>i. i < ?n \<Longrightarrow> length (L ! i) = ?m"
    "\<And>i p. i < ?n \<Longrightarrow> p < ?m \<Longrightarrow> L ! i ! p = (if p \<in> set (PS ! i) then 0 else
       (if i = 0 then virt ! p else L ! (i - 1) ! p) + 1)"
    using left_pass_row [of chunks dst "(!) PS" virt] assms(3) by (auto simp: virt_def)
  obtain R where R: "right_pass (ckeys dst) virt (zip L chunks) = Some R" "length R = ?n"
    "\<And>i p. i < ?n \<Longrightarrow> p < ?m \<Longrightarrow> R ! i ! p = (if p \<in> set (PS ! i) then 0 else
       min (L ! i ! p) ((if Suc i = ?n then virt ! p else R ! Suc i ! p) + 1))"
    "\<And>i. i < ?n \<Longrightarrow> length (R ! i) = ?m"
    using right_pass_row [of chunks dst "(!) PS" virt L] assms(3) L(2,3) by (auto simp: virt_def)
  have "key_distances chunks (ckeys dst) = Some R"
    using assms(1) virt L(1) R(1) by (simp add: key_distances_def Let_def)
  moreover have "(\<forall>k < ?n. p \<in> set (PS ! k) \<longrightarrow> R ! i ! p \<le> \<bar>int i - int k\<bar>) \<and>
      (\<exists>k < ?n. p \<in> set (PS ! k) \<and> R ! i ! p = \<bar>int i - int k\<bar>)"
    if i: "i < ?n" and p: "p < ?m" and ex: "\<exists>k < ?n. p \<in> set (PS ! k)" for i p
  proof -
    let ?h = "\<lambda>i. p \<in> set (PS ! i)"
    have left: "L ! i ! p = left_dist ?h (int ?n) i" if "i < ?n" for i
      using that
    proof (induction i)
      case (Suc i)
      then show ?case using L(4) [OF Suc.prems p] by simp
    qed (use L(4) [of 0 p] p in \<open>simp add: virt_def\<close>)
    define Rp where "Rp = (\<lambda>i. if i = ?n then int ?n else R ! i ! p)"
    have rec: "Rp i = (if ?h i then 0 else min (left_dist ?h (int ?n) i) (Rp (Suc i) + 1))"
      if "i < ?n" for i
      using R(3) [OF that p] left [OF that] that p by (simp add: Rp_def virt_def)
    have near: "(\<forall>k < ?n. ?h k \<longrightarrow> R ! i ! p \<le> \<bar>int i - int k\<bar>) \<and>
      ((\<exists>k < ?n. ?h k \<and> R ! i ! p = \<bar>int i - int k\<bar>) \<or> int ?n \<le> R ! i ! p)"
      using right_dist_nearest [of ?n Rp ?h i, OF rec _ i] i by (simp add: Rp_def)
    moreover have "\<not> int ?n \<le> R ! i ! p"
    proof
      obtain k where k: "k < ?n" "?h k" using ex by blast
      assume "int ?n \<le> R ! i ! p"
      with near k i show False by force
    qed
    ultimately show ?thesis by blast
  qed
  moreover have "length (R ! i) = ?m \<and> (\<forall>d\<in>set (R ! i). 0 \<le> d)" if i: "i < ?n" for i
  proof -
    have L0: "0 \<le> L ! i ! p" if "i < ?n" "p < ?m" for i p
      using that
    proof (induction i)
      case (Suc i)
      then show ?case using L(4) [of "Suc i" p] by simp
    qed (use L(4) [of 0 p] in \<open>simp add: virt_def\<close>)
    have "0 \<le> R ! i ! p" if "i < ?n" "p < ?m" for i p
      using that
    proof (induction "?n - i" arbitrary: i)
      case (Suc k)
      then show ?case using R(3) [of i p] L0 [of i p] by (cases "Suc i = ?n") (auto simp: virt_def)
    qed simp
    with i R(4) [OF i] show ?thesis by (auto simp: in_set_conv_nth)
  qed
  ultimately show ?thesis using R(2) by blast
qed


text \<open>
  For chunks whose keys are keys of the compact axis, at the positions \<open>PS\<close>, the two
  passes of the distance splitter return for every axis and every compact key the distance to
  the nearest axis that has the key, when some axis has it.
\<close>

theorem key_distances_nearest:
  assumes "chunks \<noteq> []" and "length (PS :: nat list list) = length chunks"
    and "\<forall>i < length chunks. part_of dst (chunks ! i) \<and> part_at dst (chunks ! i) (PS ! i)"
  shows "\<exists>dis. key_distances chunks (ckeys dst) = Some dis \<and> length dis = length chunks \<and>
    (\<forall>i < length chunks. \<forall>p < length (ckeys dst).
       (\<exists>k < length chunks. p \<in> set (PS ! k)) \<longrightarrow>
       (\<forall>k < length chunks. p \<in> set (PS ! k) \<longrightarrow> dis ! i ! p \<le> \<bar>int i - int k\<bar>) \<and>
       (\<exists>k < length chunks. p \<in> set (PS ! k) \<and> dis ! i ! p = \<bar>int i - int k\<bar>))"
  using key_distances_rows [OF assms] by blast

theorem key_distances_nearest_witness:
  "\<exists>dis. key_distances [demo_src, demo_dst] (ckeys demo_dst) = Some dis \<and> length dis = 2 \<and>
    dis ! 0 ! 1 = 1 \<and> dis ! 1 ! 1 = 0"
proof -
  let ?PS = "[[0, 2], [0, 1, 2, 3]] :: nat list list"
  have src: "part_of demo_dst demo_src" "part_at demo_dst demo_src [0, 2]"
    using demo_part by (simp_all add: part_at_def demo_dst_def demo_src_def)
  have self: "part_at demo_dst demo_dst [0, 1, 2, 3]" by (simp add: part_at_def demo_dst_def)
  have "part_of demo_dst demo_dst" using src(1) self unfolding part_of_def by blast
  then have parts: "\<forall>i < length [demo_src, demo_dst]. part_of demo_dst ([demo_src, demo_dst] ! i) \<and>
      part_at demo_dst ([demo_src, demo_dst] ! i) (?PS ! i)"
    using src self by (auto simp: less_Suc_eq)
  have len: "1 < length (ckeys demo_dst)" by (simp add: demo_dst_def)
  obtain dis where dis: "key_distances [demo_src, demo_dst] (ckeys demo_dst) = Some dis"
    "length dis = 2"
    "\<And>i. i < 2 \<Longrightarrow> (\<exists>k < 2. 1 \<in> set (?PS ! k)) \<Longrightarrow>
       (\<forall>k < 2. 1 \<in> set (?PS ! k) \<longrightarrow> dis ! i ! 1 \<le> \<bar>int i - int k\<bar>) \<and>
       (\<exists>k < 2. 1 \<in> set (?PS ! k) \<and> dis ! i ! 1 = \<bar>int i - int k\<bar>)"
  proof -
    obtain dis where "key_distances [demo_src, demo_dst] (ckeys demo_dst) = Some dis"
      "length dis = length [demo_src, demo_dst]"
      "\<forall>i < length [demo_src, demo_dst]. \<forall>p < length (ckeys demo_dst).
         (\<exists>k < length [demo_src, demo_dst]. p \<in> set (?PS ! k)) \<longrightarrow>
         (\<forall>k < length [demo_src, demo_dst]. p \<in> set (?PS ! k) \<longrightarrow> dis ! i ! p \<le> \<bar>int i - int k\<bar>) \<and>
         (\<exists>k < length [demo_src, demo_dst]. p \<in> set (?PS ! k) \<and> dis ! i ! p = \<bar>int i - int k\<bar>)"
      using key_distances_nearest [OF _ _ parts] by fastforce
    with len show thesis by (intro that [of dis]) (simp_all add: numeral_2_eq_2)
  qed
  have "\<exists>k < 2. 1 \<in> set (?PS ! k)" by (intro exI [of _ 1]) simp
  then show ?thesis
    using dis(1,2) dis(3) [of 0] dis(3) [of 1] by (auto simp: less_Suc_eq numeral_2_eq_2)
qed

end
