(* ===== verification/DistanceTotal.thy ===== *)
theory DistanceTotal
  imports DistanceProps MatrixPlane
begin

text \<open>
  The distance strategy never panics on chunks whose keys are keys of the compact axis,
  whatever the float arithmetic: the distances index \<open>tempMap\<close> within its capacity, the
  levels index \<open>SplitRatioPow\<close>, and every scale column has one factor per bucket.
\<close>

definition pow_ok :: "'f distanceSplitStrategy \<Rightarrow> bool" where
  "pow_ok s \<longleftrightarrow> length (SplitRatioPow s) = SplitLevel s"

definition dist_in :: "'a list \<Rightarrow> int \<Rightarrow> bool" where
  "dist_in m d \<longleftrightarrow> 0 \<le> d \<and> nat d < length m"

lemma dist_in_ops [simp]:
  "dist_in m d \<Longrightarrow> set_idx_int m d v = Some (m[nat d := v])"
  "dist_in m d \<Longrightarrow> idx_int m d = Some (m ! nat d)"
  by (simp_all add: dist_in_def set_idx_int_def idx_int_def)

lemma dist_in_length: "length m' = length m \<Longrightarrow> dist_in m' = dist_in m"
  by (auto simp: dist_in_def)

lemma level_loop_total:
  assumes "pow_ok s" and "\<forall>d\<in>set ds. dist_in m d"
  shows "\<exists>S m'. level_loop F s i level tv ts m prev ds = Some (S, m') \<and> length m' = length m"
  using assms(2)
proof (induction ds arbitrary: i level tv ts m prev)
  case (Cons d ds)
  have d: "dist_in m d" using Cons.prems by simp
  show ?case
  proof (cases "d = prev")
    case True
    then show ?thesis using Cons.IH [of m] Cons.prems by simp
  next
    case False
    have in': "\<forall>x\<in>set ds. dist_in (m[nat d := v]) x" for v
      using Cons.prems dist_in_length [of "m[nat d := v]" m] by simp
    show ?thesis
    proof (cases "SplitLevel s \<le> level + 1 \<or> SplitCount s \<le> i")
      case True
      then show ?thesis
        using False d Cons.IH [OF in', of "i + 1" "level + 1" tv "f_add F ts tv" "f_zero F" d]
        by (simp add: Let_def)
    next
      case no: False
      let ?v = "SplitRatioPow s ! (level + 1)"
      have "idx (SplitRatioPow s) (level + 1) = Some ?v" using no assms(1) by (simp add: pow_ok_def)
      then show ?thesis
        using False no d Cons.IH [OF in', of "i + 1" "level + 1" ?v "f_add F ts ?v" ?v d]
        by (simp add: Let_def)
    qed
  qed
qed simp

lemma interval_factors_total:
  assumes "pow_ok s" and "dis \<noteq> []" and "\<forall>d\<in>set dis. dist_in m d"
  shows "\<exists>S m'. interval_factors F s m dis = Some (S, m') \<and> length m' = length m"
proof -
  obtain d ds where sort: "sort dis = d # ds"
    using assms(2) by (metis length_0_conv length_sort list.exhaust)
  then have set: "set dis = set (d # ds)" by (metis set_sort)
  then have d: "dist_in m d" "\<forall>x\<in>set ds. dist_in m x" using assms(3) by auto
  then have "\<forall>x\<in>set ds. dist_in (m[nat d := f_one F]) x"
    using dist_in_length [of "m[nat d := f_one F]" m] by simp
  then obtain S m' where "level_loop F s 1 0 (f_one F) (f_one F) (m[nat d := f_one F]) d ds = Some (S, m')"
    "length m' = length (m[nat d := f_one F])"
    using level_loop_total [OF assms(1)] by blast
  with d(1) show ?thesis by (simp add: interval_factors_def sort)
qed

section \<open>Bucket distances\<close>

lemma bucket_dis_bound:
  assumes "\<forall>d\<in>set dis. 0 \<le> d" and "i < length dis" and "0 \<le> m"
    and "\<forall>k. i < k \<longrightarrow> k < length dis \<longrightarrow> dis ! k \<le> m"
  shows "length (fst (bucket_dis i dis m)) = length dis - 1 \<and>
    (\<forall>d\<in>set (fst (bucket_dis i dis m)). 0 \<le> d \<and> d \<le> snd (bucket_dis i dis m))"
  using assms
proof (induction i arbitrary: dis m)
  case 0
  have "0 \<le> d \<and> d \<le> m" if "d \<in> set (tl dis)" for d
  proof -
    obtain k where "k < length (tl dis)" "d = tl dis ! k" using \<open>d \<in> set (tl dis)\<close> by (auto simp: in_set_conv_nth)
    then show ?thesis using 0 by (auto simp: nth_tl)
  qed
  then show ?case by simp
next
  case (Suc i)
  define d where "d = Max_int (dis ! Suc i) (dis ! i)"
  have d0: "0 \<le> d" using Suc.prems(1,2) by (auto simp: d_def Max_int_def)
  have "length (fst (bucket_dis i (dis[Suc i := d]) (Max_int m d))) = length (dis[Suc i := d]) - 1 \<and>
    (\<forall>x\<in>set (fst (bucket_dis i (dis[Suc i := d]) (Max_int m d))).
       0 \<le> x \<and> x \<le> snd (bucket_dis i (dis[Suc i := d]) (Max_int m d)))"
  proof (rule Suc.IH)
    show "\<forall>x\<in>set (dis[Suc i := d]). 0 \<le> x"
      using Suc.prems(1) d0 set_update_subset_insert [of dis "Suc i" d] by auto
    show "i < length (dis[Suc i := d])" using Suc.prems(2) by simp
    show "0 \<le> Max_int m d" using Suc.prems(3) d0 by (simp add: Max_int_def)
    show "\<forall>k. i < k \<longrightarrow> k < length (dis[Suc i := d]) \<longrightarrow> dis[Suc i := d] ! k \<le> Max_int m d"
    proof (intro allI impI)
      fix k assume k: "i < k" "k < length (dis[Suc i := d])"
      have le: "x \<le> m \<or> x = d \<Longrightarrow> x \<le> Max_int m d" for x by (auto simp: Max_int_def)
      show "dis[Suc i := d] ! k \<le> Max_int m d"
      proof (cases "k = Suc i")
        case False
        then have "dis ! k \<le> m" using Suc.prems(4) k by simp
        with False show ?thesis using le by simp
      qed (use le Suc.prems(2) in simp)
    qed
  qed
  then show ?case by (simp add: d_def [symmetric] Let_def)
qed

lemma toBucketDis_total:
  assumes "dis \<noteq> []" and "\<forall>d\<in>set dis. 0 \<le> d"
  obtains bs m where "toBucketDis dis = Some (bs, m)" and "length bs = length dis - 1"
    and "\<forall>d\<in>set bs. 0 \<le> d \<and> d \<le> m"
proof -
  obtain bs m where b: "bucket_dis (length dis - 1) dis 0 = (bs, m)" by fastforce
  have "length bs = length dis - 1 \<and> (\<forall>d\<in>set bs. 0 \<le> d \<and> d \<le> m)"
    using bucket_dis_bound [OF assms(2), of "length dis - 1" 0] assms(1) b by fastforce
  then show thesis using that b assms(1) by (simp add: toBucketDis_def)
qed

lemma grow_cap_gt: "0 < cap \<Longrightarrow> m < int (grow_cap cap m)"
proof (induction cap m rule: grow_cap.induct)
  case (1 cap m)
  show ?case
  proof (cases "int cap \<le> m")
    case True
    then have "m < int (grow_cap (cap * 2) m)" using 1 by simp
    with True \<open>0 < cap\<close> show ?thesis by (subst grow_cap.simps) simp
  qed (subst grow_cap.simps, simp)
qed

declare grow_cap.simps [simp del]

section \<open>Scale columns\<close>

lemma scale_loop_total:
  assumes "part_of dst c" and "part_at dst c ps" and "pow_ok s" and "length dis = length (ckeys dst) - 1"
    and "i < length ps" and "\<forall>d\<in>set dis. dist_in m d" and "length scale = length dis"
  shows "\<exists>scale' m'. scale_loop F s (ckeys dst) dis (ps ! i) (ps ! i + 1) (drop (Suc i) (ckeys c)) m scale
    = Some (scale', m') \<and> length scale' = length dis"
  using assms(5-7)
proof (induction "length ps - i" arbitrary: i m scale)
  case (Suc n)
  have len: "length (ckeys c) = length ps" using assms(2) by (simp add: part_at_def)
  show ?case
  proof (cases "Suc i = length ps")
    case True
    then show ?thesis using len Suc.prems(3) by simp
  next
    case False
    then have i: "Suc i < length ps" using Suc.prems by simp
    have keys: "drop (Suc i) (ckeys c) = ckeys c ! Suc i # drop (Suc (Suc i)) (ckeys c)"
      using i len by (simp add: Cons_nth_drop_Suc)
    have S: "ps ! i < ps ! Suc i" "ps ! Suc i < length (ckeys dst)"
      using i assms(2) by (auto simp: part_at_def sorted_wrt_iff_nth_less)
    have find: "find_key (ckeys dst) (ckeys c ! Suc i) (ps ! i + 1) = Some (ps ! Suc i)"
      using S part_equal [OF assms(1,2) i] by (intro find_key_eq) auto
    define tempDis where "tempDis = take (ps ! Suc i - ps ! i) (drop (ps ! i) dis)"
    have slice: "go_slice dis (ps ! i) (ps ! Suc i) = Some tempDis"
      using S assms(4) by (simp add: tempDis_def)
    have sub: "set tempDis \<subseteq> set dis"
      unfolding tempDis_def by (meson set_drop_subset set_take_subset subset_trans)
    have tlen: "length tempDis = ps ! Suc i - ps ! i" using S assms(4) by (simp add: tempDis_def)
    obtain S' m' where f: "interval_factors F s m tempDis = Some (S', m')" "length m' = length m"
      using interval_factors_total [OF assms(3), of tempDis m F] tlen S(1) sub Suc.prems(2) by fastforce
    have "those_columns (\<lambda>d. do { v \<leftarrow> idx_int m' d; Some (f_div F v S') }) tempDis
      = Some (map (\<lambda>d. f_div F (m' ! nat d) S') tempDis)"
      using sub Suc.prems(2) dist_in_length [OF f(2)] by (intro those_columns_Some) auto
    note step = find slice f(1) this
    let ?scale = "if ps ! i + 1 = ps ! Suc i then scale[ps ! i := f_one F]
      else take (ps ! i) scale @ map (\<lambda>d. f_div F (m' ! nat d) S') tempDis @ drop (ps ! Suc i) scale"
    let ?m = "if ps ! i + 1 = ps ! Suc i then m else m'"
    have "n = length ps - Suc i" using Suc.hyps(2) by simp
    moreover have "\<forall>d\<in>set dis. dist_in ?m d" using Suc.prems(2) dist_in_length [OF f(2)] by simp
    moreover have "length ?scale = length dis" using S assms(4) Suc.prems(3) tlen by simp
    ultimately have "\<exists>scale' m''. scale_loop F s (ckeys dst) dis (ps ! Suc i) (ps ! Suc i + 1)
        (drop (Suc (Suc i)) (ckeys c)) ?m ?scale = Some (scale', m'') \<and> length scale' = length dis"
      using i by (intro Suc.hyps(1)) auto
    then show ?thesis
      using S assms(4) Suc.prems(3) step by (auto simp: keys split: if_splits)
  qed
qed simp

lemma scale_column_total:
  assumes "part_of dst c" and "pow_ok s" and "length dis = length (ckeys dst)"
    and "\<forall>d\<in>set dis. 0 \<le> d" and "tempMap \<noteq> []"
  shows "\<exists>scale m. scale_column F s tempMap dis (ckeys c) (ckeys dst) = Some (scale, m) \<and>
    length scale = length (ckeys dst) - 1"
proof -
  obtain ps where ps: "part_at dst c ps" using assms(1) by (auto simp: part_of_def)
  have lens: "2 \<le> length ps" "length (ckeys c) = length ps" "2 \<le> length (ckeys dst)" "0 < length ps"
    using assms(1) ps by (auto simp: part_of_def part_at_def chunk_ok_def)
  have "dis \<noteq> []" using assms(3) lens by auto
  then obtain bs mx where b: "toBucketDis dis = Some (bs, mx)" "length bs = length dis - 1"
    "\<forall>d\<in>set bs. 0 \<le> d \<and> d \<le> mx"
    using toBucketDis_total [OF _ assms(4)] by blast
  define tm where "tm = (if int (length tempMap) \<le> mx
    then replicate (grow_cap (length tempMap) mx) (f_zero F) else tempMap)"
  have "mx < int (length tm)" using assms(5) grow_cap_gt [of "length tempMap" mx] by (auto simp: tm_def)
  then have tm: "\<forall>d\<in>set bs. dist_in tm d" using b(3) by (auto simp: dist_in_def nat_less_iff)
  have p0: "ps ! 0 < ps ! 1" "ps ! 1 < length (ckeys dst)" "ckeys c ! 0 = ckeys dst ! (ps ! 0)"
    using ps lens(1,4) by (simp_all add: part_at_def sorted_wrt_iff_nth_less)
  have find: "find_key (ckeys dst) (ckeys c ! 0) 0 = Some (ps ! 0)"
    using p0 part_equal [OF assms(1) ps, of 0] lens by (intro find_key_eq) auto
  have "\<exists>scale' m'. scale_loop F s (ckeys dst) bs (ps ! 0) (ps ! 0 + 1) (drop (Suc 0) (ckeys c)) tm
      (replicate (length bs) (f_zero F)) = Some (scale', m') \<and> length scale' = length bs"
    using tm b(2) assms(3) lens by (intro scale_loop_total [OF assms(1) ps assms(2)]) auto
  moreover have "idx (ckeys c) 0 = Some (ckeys c ! 0)" using lens by simp
  ultimately show ?thesis
    using b assms(3) find by (auto simp: scale_column_def tm_def [symmetric] drop_Suc)
qed

lemma distance_NewSplitter_total:
  assumes "chunks \<noteq> []" and "\<forall>c\<in>set chunks. part_of dst c" and "pow_ok s"
  shows "\<exists>Scale. distance_NewSplitter F s chunks (ckeys dst) = Some (distance_Split F Scale) \<and>
    length Scale = length chunks \<and> (\<forall>col\<in>set Scale. length col = length (ckeys dst) - 1)"
proof -
  have "\<forall>c\<in>set chunks. \<exists>ps. part_at dst c ps" using assms(2) by (auto simp: part_of_def)
  then obtain f where f: "\<forall>c\<in>set chunks. part_at dst c (f c)" by metis
  obtain dis where dis: "key_distances chunks (ckeys dst) = Some dis" "length dis = length chunks"
    "\<forall>i < length chunks. length (dis ! i) = length (ckeys dst) \<and> (\<forall>d\<in>set (dis ! i). 0 \<le> d)"
    using key_distances_rows [of chunks "map f chunks" dst] assms(1,2) f by auto
  have col: "\<exists>scale. (case x of (d, c) \<Rightarrow> do {
       (scale, _) \<leftarrow> scale_column F s (replicate 256 (f_zero F)) d (ckeys c) (ckeys dst);
       Some scale }) = Some scale \<and> length scale = length (ckeys dst) - 1"
    if "x \<in> set (zip dis chunks)" for x
  proof -
    note x = that
    obtain i where i: "i < length chunks" "x = (dis ! i, chunks ! i)"
      using x dis(2) by (auto simp: in_set_conv_nth)
    then show ?thesis
      using scale_column_total [of dst "chunks ! i" s "dis ! i" "replicate 256 (f_zero F)" F]
        assms(2,3) dis(3) by fastforce
  qed
  then obtain g where g: "\<And>x. x \<in> set (zip dis chunks) \<Longrightarrow> (case x of (d, c) \<Rightarrow> do {
       (scale, _) \<leftarrow> scale_column F s (replicate 256 (f_zero F)) d (ckeys c) (ckeys dst);
       Some scale }) = Some (g x) \<and> length (g x) = length (ckeys dst) - 1"
    by metis
  then have "GenerateScale F s chunks (ckeys dst) dis = Some (map g (zip dis chunks))"
    unfolding GenerateScale_def by (intro those_columns_Some) blast
  then show ?thesis
    using dis(1,2) g
    by (intro exI [of _ "map g (zip dis chunks)"]) (auto simp: distance_NewSplitter_def)
qed

end
