(* ===== verification/PlaneProps.thy ===== *)
theory PlaneProps
  imports DistanceTotal
begin

text \<open>
  Compaction and pixelation never panic on well-formed planes with interned keys, for the
  average and for the distance strategy: the compact axis has exactly the keys of the axes,
  and a matrix has one label per key, one column of data per axis and tag, and one value per
  row.
\<close>

section \<open>The compact keys\<close>

definition chunk_axis_ok :: "chunk \<Rightarrow> bool" where
  "chunk_axis_ok c \<longleftrightarrow> chunk_ok c \<and> axis_keys_ok (ckeys c)"

text \<open>The keys that go into the key set: all but an unlimited end.\<close>

definition bounded_keys :: "gostr list \<Rightarrow> gostr set" where
  "bounded_keys keys = set (butlast keys) \<union> (if sval (last keys) = '''' then {} else {last keys})"

lemma fold_set_add:
  "sval ` set (fold set_add ks s) = sval ` (set s \<union> set ks) \<and> set (fold set_add ks s) \<subseteq> set s \<union> set ks \<and>
   (key_set_ok s \<longrightarrow> key_set_ok (fold set_add ks s))"
proof (induction ks arbitrary: s)
  case (Cons k ks)
  note IH1 = Cons [THEN conjunct1] and IH2 = Cons [THEN conjunct2, THEN conjunct1]
    and IH3 = Cons [THEN conjunct2, THEN conjunct2]
  have "set (fold set_add ks (set_add k s)) \<subseteq> set (set_add k s) \<union> set ks" by (rule IH2)
  then have "set (fold set_add (k # ks) s) \<subseteq> set s \<union> set (k # ks)"
    using set_add_subset [of k s] by auto
  moreover have "sval ` set (fold set_add (k # ks) s) = sval ` set (set_add k s) \<union> sval ` set ks"
    using IH1 [of "set_add k s"] by (simp only: image_Un fold_Cons comp_apply)
  then have "sval ` set (fold set_add (k # ks) s) = sval ` (set s \<union> set (k # ks))"
    unfolding sval_set_add by auto
  moreover have "key_set_ok s \<longrightarrow> key_set_ok (fold set_add (k # ks) s)"
    using IH3 [of "set_add k s"] set_add_ok [of s k] by (simp only: fold_Cons comp_apply) blast
  ultimately show ?case by (intro conjI)
qed simp

lemma compact_keys_set:
  assumes "\<forall>c\<in>set chunks. ckeys c \<noteq> []" and "key_set_ok s"
  shows "\<exists>ks u. compact_keys chunks s u0 = Some (ks, u) \<and> key_set_ok ks \<and>
    sval ` set ks = sval ` (set s \<union> (\<Union>c\<in>set chunks. bounded_keys (ckeys c))) \<and>
    set ks \<subseteq> set s \<union> (\<Union>c\<in>set chunks. bounded_keys (ckeys c)) \<and>
    (u \<longleftrightarrow> u0 \<or> (\<exists>c\<in>set chunks. sval (last (ckeys c)) = ''''))"
  using assms
proof (induction chunks arbitrary: s u0)
  case (Cons c chunks)
  let ?e = "last (ckeys c)"
  define s1 where "s1 = (if sval ?e = '''' then s else set_add ?e s)"
  define s2 where "s2 = fold set_add (butlast (ckeys c)) s1"
  have s1: "key_set_ok s1" "sval ` set s1 = sval ` (set s \<union> (if sval ?e = '''' then {} else {?e}))"
    "set s1 \<subseteq> set s \<union> (if sval ?e = '''' then {} else {?e})"
    using Cons.prems(2) set_add_ok [of s ?e] sval_set_add [of ?e s] set_add_subset [of ?e s]
    by (auto simp: s1_def)
  have s2: "key_set_ok s2" "sval ` set s2 = sval ` (set s \<union> bounded_keys (ckeys c))"
    "set s2 \<subseteq> set s \<union> bounded_keys (ckeys c)"
    using fold_set_add [of "butlast (ckeys c)" s1] s1
    by (auto simp: s2_def bounded_keys_def image_Un)
  have step: "compact_keys (c # chunks) s u0 = compact_keys chunks s2 (u0 \<or> sval ?e = '''')"
    using Cons.prems(1) by (simp add: s1_def s2_def)
  obtain ks u where IH: "compact_keys chunks s2 (u0 \<or> sval ?e = '''') = Some (ks, u)" "key_set_ok ks"
    "sval ` set ks = sval ` (set s2 \<union> (\<Union>c\<in>set chunks. bounded_keys (ckeys c)))"
    "set ks \<subseteq> set s2 \<union> (\<Union>c\<in>set chunks. bounded_keys (ckeys c))"
    "u \<longleftrightarrow> (u0 \<or> sval ?e = '''') \<or> (\<exists>c\<in>set chunks. sval (last (ckeys c)) = '''')"
    using Cons.IH [of s2 "u0 \<or> sval ?e = ''''"] Cons.prems(1) s2(1) by auto
  show ?case
    unfolding step using IH s2(2,3)
    by (intro exI [of _ ks] exI [of _ u]) (auto simp: image_Un)
qed simp

text \<open>A strictly sorted list inside another one is at ascending positions of it.\<close>

lemma sorted_positions:
  assumes "sorted_wrt (<) (map sval xs)" and "sorted_wrt (<) (map sval ys)" and "set xs \<subseteq> set ys"
  obtains ps where "sorted_wrt (<) ps" and "\<forall>p\<in>set ps. p < length ys" and "xs = map ((!) ys) ps"
proof -
  have "\<forall>x\<in>set xs. \<exists>p < length ys. ys ! p = x" using assms(3) by (metis in_set_conv_nth subsetD)
  then obtain f where f: "\<forall>x\<in>set xs. f x < length ys \<and> ys ! f x = x" by metis
  have asc: "\<And>i j. i < j \<Longrightarrow> j < length ys \<Longrightarrow> sval (ys ! i) < sval (ys ! j)"
    using assms(2) by (auto simp: sorted_wrt_iff_nth_less)
  have less: "f a < f b" if "a \<in> set xs" "b \<in> set xs" "sval a < sval b" for a b
  proof (rule ccontr)
    assume "\<not> f a < f b"
    then consider "f b < f a" | "f a = f b" by linarith
    then show False
    proof cases
      case 1
      then have "sval (ys ! f b) < sval (ys ! f a)"
        using asc f \<open>a \<in> set xs\<close> by blast
      then have "sval b < sval a" using f \<open>a \<in> set xs\<close> \<open>b \<in> set xs\<close> by simp
      with \<open>sval a < sval b\<close> show False by order
    next
      case 2
      then have "a = b" using f \<open>a \<in> set xs\<close> \<open>b \<in> set xs\<close> by metis
      with \<open>sval a < sval b\<close> show False by simp
    qed
  qed
  have "sorted_wrt (<) (map f xs)"
    using assms(1) less by (auto simp: sorted_wrt_map intro: sorted_wrt_mono_rel [rotated])
  moreover have "xs = map ((!) ys) (map f xs)" using f by (simp add: map_idI)
  ultimately show thesis using that [of "map f xs"] f by auto
qed

definition keys_of :: "chunk list \<Rightarrow> gostr set" where
  "keys_of chunks = (\<Union>c\<in>set chunks. set (ckeys c))"

definition compact_keys_list :: "chunk list \<Rightarrow> gostr list" where
  "compact_keys_list chunks =
     (case compact_keys chunks [] False of
        None \<Rightarrow> []
      | Some (ks, u) \<Rightarrow> if u then MakeKeysWithUnlimitedEnd ks else MakeKeys ks)"

lemma axis_keys_sorted:
  "axis_keys_ok keys \<Longrightarrow> sval (last keys) \<noteq> '''' \<Longrightarrow> sorted_wrt (<) (map sval keys)"
  using axis_keys_less [of keys] by (auto simp: sorted_wrt_iff_nth_less sorted_len_def)

lemma sorted_axis_keys:
  assumes "sorted_wrt (<) (map sval M)"
  shows "2 \<le> length M \<Longrightarrow> axis_keys_ok M"
    and "M \<noteq> [] \<Longrightarrow> axis_keys_ok (M @ [empty_str])"
proof -
  assume len: "2 \<le> length M"
  then obtain M' k where M: "M = M' @ [k]" by (cases M rule: rev_cases) auto
  then have "M' \<noteq> []" using len by auto
  then show "axis_keys_ok M"
    using assms len by (auto simp: M axis_keys_ok_def sorted_wrt_append)
qed (use assms in \<open>cases M; auto simp: axis_keys_ok_def empty_str_def\<close>)

lemma butlast_bounded: "keys \<noteq> [] \<Longrightarrow> set keys = insert (last keys) (set (butlast keys))"
  by (metis append_butlast_last_id list.set(1) list.set(2) set_append Un_insert_right sup_bot_right)

lemma bounded_keys_subset: "keys \<noteq> [] \<Longrightarrow> bounded_keys keys \<subseteq> set keys"
  using last_in_set [of keys] by (auto simp: bounded_keys_def dest: in_set_butlastD)

text \<open>The keys of one chunk inside the sorted key set \<open>M\<close>, which an unlimited end may follow.\<close>

lemma chunk_positions:
  assumes axis: "axis_keys_ok keys" and M: "sorted_wrt (<) (map sval M)" "bounded_keys keys \<subseteq> set M"
    and CK: "CK = (if u then M @ [empty_str] else M)"
    and last: "sval (last keys) = '''' \<Longrightarrow> u \<and> last keys = empty_str"
  shows "\<exists>ps. sorted_wrt (<) ps \<and> (\<forall>p\<in>set ps. p < length CK) \<and> keys = map ((!) CK) ps"
proof -
  have ne: "keys \<noteq> []" using axis by (auto simp: axis_keys_ok_def)
  show ?thesis
  proof (cases "sval (last keys) = ''''")
    case False
    have "set keys \<subseteq> set M"
      using M(2) False butlast_bounded [OF ne] by (auto simp: bounded_keys_def)
    then obtain ps where "sorted_wrt (<) ps" "\<forall>p\<in>set ps. p < length M" "keys = map ((!) M) ps"
      using sorted_positions [OF axis_keys_sorted [OF axis False] M(1)] by blast
    then show ?thesis by (intro exI [of _ ps]) (auto simp: CK nth_append)
  next
    case True
    have "set (butlast keys) \<subseteq> set M" using M(2) by (auto simp: bounded_keys_def)
    moreover have "sorted_wrt (<) (map sval (butlast keys))" using axis by (simp add: axis_keys_ok_def)
    ultimately obtain ps where ps: "sorted_wrt (<) ps" "\<forall>p\<in>set ps. p < length M"
      "butlast keys = map ((!) M) ps"
      using sorted_positions [OF _ M(1)] by blast
    have "keys = butlast keys @ [empty_str]" using last [OF True] ne by (metis append_butlast_last_id)
    then have "keys = map ((!) CK) (ps @ [length M])"
      using ps(2) last [OF True] by (simp only: ps(3)) (simp add: CK nth_append)
    then show ?thesis
      using ps last [OF True] by (intro exI [of _ "ps @ [length M]"]) (auto simp: CK sorted_wrt_append)
  qed
qed

text \<open>The sorted key set behind the compact keys.\<close>

lemma compact_keys_M:
  assumes ok: "\<forall>c\<in>set chunks. chunk_axis_ok c"
    and int: "interned (insert empty_str (keys_of chunks))"
  obtains ks u M where "compact_keys chunks [] False = Some (ks, u)" and "M = MakeKeys ks"
    and "compact_keys_list chunks = (if u then M @ [empty_str] else M)"
    and "sorted_wrt (<) (map sval M)" and "set M \<subseteq> keys_of chunks"
    and "\<forall>c\<in>set chunks. bounded_keys (ckeys c) \<subseteq> set M"
    and "\<forall>c\<in>set chunks. sval (last (ckeys c)) = '''' \<longrightarrow> u \<and> last (ckeys c) = empty_str"
    and "u \<longrightarrow> empty_str \<in> keys_of chunks"
proof -
  have ne: "ckeys c \<noteq> []" if "c \<in> set chunks" for c
    using ok that by (auto simp: chunk_axis_ok_def chunk_ok_def)
  obtain ks u where K: "compact_keys chunks [] False = Some (ks, u)" "key_set_ok ks"
    "sval ` set ks = sval ` (\<Union>c\<in>set chunks. bounded_keys (ckeys c))"
    "set ks \<subseteq> (\<Union>c\<in>set chunks. bounded_keys (ckeys c))"
    "u \<longleftrightarrow> (\<exists>c\<in>set chunks. sval (last (ckeys c)) = '''')"
    using compact_keys_set [of chunks "[]" False] ne by auto
  have bk: "bounded_keys (ckeys c) \<subseteq> keys_of chunks" if "c \<in> set chunks" for c
    using bounded_keys_subset [OF ne [OF that]] that by (auto simp: keys_of_def)
  have in_ks: "bounded_keys (ckeys c) \<subseteq> set ks" if "c \<in> set chunks" for c
  proof
    fix k assume k: "k \<in> bounded_keys (ckeys c)"
    then have "sval k \<in> sval ` set ks" using K(3) that by blast
    then obtain k' where k': "k' \<in> set ks" "sval k = sval k'" by auto
    have "k' \<in> keys_of chunks" using k'(1) K(4) bk by blast
    then have "k = k'" using interned_eqD [OF int] k' k bk [OF that] by blast
    with k' show "k \<in> set ks" by simp
  qed
  have last: "last (ckeys c) = empty_str" if "c \<in> set chunks" "sval (last (ckeys c)) = ''''" for c
  proof (rule interned_eqD [OF int])
    show "last (ckeys c) \<in> insert empty_str (keys_of chunks)"
      using that last_in_set [OF ne [OF that(1)]] by (auto simp: keys_of_def)
  qed (use that in \<open>auto simp: empty_str_def\<close>)
  have "u \<longrightarrow> empty_str \<in> keys_of chunks"
    using K(5) last last_in_set [OF ne] by (auto simp: keys_of_def) metis
  moreover have "compact_keys_list chunks = (if u then MakeKeys ks @ [empty_str] else MakeKeys ks)"
    by (simp only: compact_keys_list_def K(1) option.case prod.case MakeKeysWithUnlimitedEnd_def)
  moreover have "set (MakeKeys ks) \<subseteq> keys_of chunks" using K(4) bk by auto
  moreover have "\<forall>c\<in>set chunks. bounded_keys (ckeys c) \<subseteq> set (MakeKeys ks)" using in_ks by simp
  moreover have "\<forall>c\<in>set chunks. sval (last (ckeys c)) = '''' \<longrightarrow> u \<and> last (ckeys c) = empty_str"
    using K(5) last by blast
  ultimately show thesis by (intro that [OF K(1) refl _ MakeKeys_sorted [OF K(2)]])
qed

lemma compact_keys_props:
  assumes "chunks \<noteq> []" and ok: "\<forall>c\<in>set chunks. chunk_axis_ok c"
    and int: "interned (insert empty_str (keys_of chunks))"
  defines "CK \<equiv> compact_keys_list chunks"
  shows "axis_keys_ok CK" and "set CK = keys_of chunks"
    and "\<forall>c\<in>set chunks. \<exists>ps. sorted_wrt (<) ps \<and> (\<forall>p\<in>set ps. p < length CK) \<and> ckeys c = map ((!) CK) ps"
    and "\<exists>ks u. compact_keys chunks [] False = Some (ks, u) \<and>
      CK = (if u then MakeKeysWithUnlimitedEnd ks else MakeKeys ks)"
proof -
  obtain ks u M where K: "compact_keys chunks [] False = Some (ks, u)" "M = MakeKeys ks"
    "CK = (if u then M @ [empty_str] else M)" "sorted_wrt (<) (map sval M)" "set M \<subseteq> keys_of chunks"
    "\<forall>c\<in>set chunks. bounded_keys (ckeys c) \<subseteq> set M"
    "\<forall>c\<in>set chunks. sval (last (ckeys c)) = '''' \<longrightarrow> u \<and> last (ckeys c) = empty_str"
    "u \<longrightarrow> empty_str \<in> keys_of chunks"
    unfolding CK_def using compact_keys_M [OF ok int] by blast
  show "\<exists>ks u. compact_keys chunks [] False = Some (ks, u) \<and>
      CK = (if u then MakeKeysWithUnlimitedEnd ks else MakeKeys ks)"
    using K(1-3) by (auto simp: MakeKeysWithUnlimitedEnd_def)
  show parts: "\<forall>c\<in>set chunks. \<exists>ps. sorted_wrt (<) ps \<and> (\<forall>p\<in>set ps. p < length CK) \<and> ckeys c = map ((!) CK) ps"
    using chunk_positions [OF _ K(4) _ K(3)] K(6,7) ok by (auto simp: chunk_axis_ok_def)
  obtain c where c: "c \<in> set chunks" using assms(1) by (cases chunks) auto
  then have len2: "2 \<le> length (ckeys c)" using ok by (auto simp: chunk_axis_ok_def chunk_ok_def)
  obtain ps where ps: "sorted_wrt (<) ps" "\<forall>p\<in>set ps. p < length CK" "ckeys c = map ((!) CK) ps"
    using parts c by blast
  then have "ps ! 0 < ps ! 1" "ps ! 1 < length CK" using len2 by (auto simp: sorted_wrt_iff_nth_less)
  then have CK2: "2 \<le> length CK" by simp
  show "axis_keys_ok CK"
    using sorted_axis_keys [OF K(4)] CK2 by (cases u; cases "M = []") (auto simp: K(3))
  have "keys_of chunks \<subseteq> set CK" using parts by (fastforce simp: keys_of_def)
  moreover have "set CK \<subseteq> keys_of chunks" using K(5,8) by (auto simp: K(3))
  ultimately show "set CK = keys_of chunks" by blast
qed

lemma compact_part_of:
  assumes "chunks \<noteq> []" and "\<forall>c\<in>set chunks. chunk_axis_ok c"
    and "interned (insert empty_str (keys_of chunks))"
    and "chunk_ok dst" and "ckeys dst = compact_keys_list chunks"
  shows "\<forall>c\<in>set chunks. part_of dst c"
proof
  fix c assume c: "c \<in> set chunks"
  note P = compact_keys_props [OF assms(1-3)]
  have "interned (set (ckeys dst))"
    using interned_subset [OF assms(3)] P(2) assms(5) by auto
  then show "part_of dst c"
    using c P(1,3) assms(2,4,5) by (auto simp: part_of_def part_at_def chunk_axis_ok_def)
qed

lemma compact_keys_length:
  assumes "\<forall>c\<in>set chunks. chunk_axis_ok c" and "interned (insert empty_str (keys_of chunks))"
  shows "length (compact_keys_list chunks) \<le> 1 + sum_list (map (\<lambda>c. length (ckeys c)) chunks)"
proof -
  obtain ks u M where K: "compact_keys_list chunks = (if u then M @ [empty_str] else M)"
    "sorted_wrt (<) (map sval M)" "set M \<subseteq> keys_of chunks"
    using compact_keys_M [OF assms] by metis
  have "distinct M" using K(2) by (simp add: strict_sorted_iff distinct_map)
  then have "length M = card (set M)" by (simp add: distinct_card)
  also have "\<dots> \<le> card (keys_of chunks)" using K(3) by (intro card_mono) (auto simp: keys_of_def)
  also have "\<dots> \<le> sum_list (map (\<lambda>c. length (ckeys c)) chunks)"
  proof (induction chunks)
    case (Cons c chunks)
    have "keys_of (c # chunks) = set (ckeys c) \<union> keys_of chunks" by (auto simp: keys_of_def)
    then have "card (keys_of (c # chunks)) \<le> card (set (ckeys c)) + card (keys_of chunks)"
      by (simp add: card_Un_le)
    with Cons card_length [of "ckeys c"] show ?case by simp
  qed (simp add: keys_of_def)
  finally show ?thesis using K(1) by auto
qed

section \<open>Compaction and pixelation for any split strategy\<close>

definition chunks_ok :: "chunk list \<Rightarrow> bool" where
  "chunks_ok chunks \<longleftrightarrow> chunks \<noteq> [] \<and> (\<forall>c\<in>set chunks. chunk_axis_ok c) \<and>
     interned (insert empty_str (keys_of chunks)) \<and>
     1 + sum_list (map (\<lambda>c. length (ckeys c)) chunks) < 2 ^ 64"

definition base_column :: "Axis \<Rightarrow> chunk" where
  "base_column axis = \<lparr>ckeys = Keys axis, cvalues = hd (ValuesList axis)\<rparr>"

definition plane_ok :: "Plane \<Rightarrow> bool" where
  "plane_ok pl \<longleftrightarrow> chunks_ok (map base_column (Axes pl)) \<and>
     (\<forall>axis\<in>set (Axes pl). axis_ok axis \<and>
        length (ValuesList axis) = length (ValuesList (hd (Axes pl))))"

definition zero_chunk :: "gostr list \<Rightarrow> chunk" where
  "zero_chunk keys = \<lparr>ckeys = keys, cvalues = replicate (length keys - 1) 0\<rparr>"

lemma zero_chunk_simps [simp]:
  "ckeys (zero_chunk keys) = keys" "length (cvalues (zero_chunk keys)) = length keys - 1"
  by (simp_all add: zero_chunk_def)

lemma zero_chunk_ok: "2 \<le> length keys \<Longrightarrow> chunk_ok (zero_chunk keys)"
  by (auto simp: chunk_ok_def zero_chunk_def)

lemma createZeroChunk_ok: "2 \<le> length keys \<Longrightarrow> createZeroChunk keys = Some (zero_chunk keys)"
  by (simp add: createZeroChunk_def createChunk_def zero_chunk_def Let_def)

lemma compact_unfold:
  assumes "chunks_ok chunks"
  defines "CK \<equiv> compact_keys_list chunks"
  shows "compact strategy chunks = do {
      splitter \<leftarrow> strategy chunks CK;
      cc \<leftarrow> split_all splitter splitAdd 0 (zero_chunk CK) chunks;
      Some (cc, splitter) }"
    and "2 \<le> length CK" and "axis_keys_ok CK" and "set CK = keys_of chunks" and "length CK < 2 ^ 64"
    and "chunk_ok dst \<Longrightarrow> ckeys dst = CK \<Longrightarrow> \<forall>c\<in>set chunks. part_of dst c"
proof -
  have ok: "chunks \<noteq> []" "\<forall>c\<in>set chunks. chunk_axis_ok c" "interned (insert empty_str (keys_of chunks))"
    using assms(1) by (auto simp: chunks_ok_def)
  note P = compact_keys_props [OF ok, folded CK_def]
  show CK: "2 \<le> length CK" "axis_keys_ok CK" "set CK = keys_of chunks"
    using P by (auto simp: axis_keys_ok_def)
  show "length CK < 2 ^ 64"
    using compact_keys_length [OF ok(2,3)] assms(1) by (simp add: CK_def chunks_ok_def)
  show "chunk_ok dst \<Longrightarrow> ckeys dst = CK \<Longrightarrow> \<forall>c\<in>set chunks. part_of dst c"
    using compact_part_of [OF ok] by (simp add: CK_def)
  obtain ks u where K: "compact_keys chunks [] False = Some (ks, u)"
    "CK = (if u then MakeKeysWithUnlimitedEnd ks else MakeKeys ks)" using P(4) by blast
  show "compact strategy chunks = do {
      splitter \<leftarrow> strategy chunks CK;
      cc \<leftarrow> split_all splitter splitAdd 0 (zero_chunk CK) chunks;
      Some (cc, splitter) }"
    unfolding compact_def K(1) using createZeroChunk_ok [OF CK(1)]
    by (simp add: K(2) [symmetric] Let_def)
qed

context split_contract
begin

lemma split_all_ok:
  assumes "strategy chunks (ckeys dst) = Some splitter" and "\<forall>c\<in>set chunks. part_of dst c"
    and "length (ckeys dst) < 2 ^ 64" and "i + length srcs \<le> length chunks"
    and "\<forall>k < length srcs. ckeys (srcs ! k) = ckeys (chunks ! (i + k)) \<and> chunk_ok (srcs ! k)"
  shows "\<exists>new. split_all splitter tag i dst srcs = Some (dst\<lparr>cvalues := new\<rparr>) \<and>
    length new = length (cvalues dst)"
  using assms
proof (induction srcs arbitrary: i dst)
  case (Cons c srcs)
  obtain new where new: "splitter dst c tag i = Some (dst\<lparr>cvalues := new\<rparr>)"
    "length new = length (cvalues dst)"
    using split_ok [OF Cons.prems(1) _ Cons.prems(2,3), of i c tag] Cons.prems(4)
      spec [OF Cons.prems(5), of 0] by auto
  let ?dst = "dst\<lparr>cvalues := new\<rparr>"
  have "part_of dst c \<Longrightarrow> part_of ?dst c" for c
    using new(2) by (auto simp: part_of_def part_at_def chunk_ok_def)
  then have parts: "\<forall>c\<in>set chunks. part_of ?dst c" using Cons.prems(2) by blast
  have srcs: "\<forall>k < length srcs. ckeys (srcs ! k) = ckeys (chunks ! (i + 1 + k)) \<and> chunk_ok (srcs ! k)"
  proof (intro allI impI)
    fix k assume "k < length srcs"
    then show "ckeys (srcs ! k) = ckeys (chunks ! (i + 1 + k)) \<and> chunk_ok (srcs ! k)"
      using spec [OF Cons.prems(5), of "Suc k"] by simp
  qed
  have "\<exists>new'. split_all splitter tag (i + 1) ?dst srcs = Some (?dst\<lparr>cvalues := new'\<rparr>) \<and>
      length new' = length (cvalues ?dst)"
    using Cons.prems(1,3,4) parts srcs by (intro Cons.IH) auto
  with new show ?case by auto
next
  case Nil
  show ?case by (intro exI [of _ "cvalues dst"]) simp
qed

lemma compact_ok:
  assumes "chunks_ok chunks"
  shows "\<exists>cc splitter. compact strategy chunks = Some (cc, splitter) \<and> chunk_ok cc \<and>
    ckeys cc = compact_keys_list chunks \<and> strategy chunks (ckeys cc) = Some splitter"
proof -
  let ?CK = "compact_keys_list chunks"
  note C = compact_unfold [OF assms]
  have ok: "chunk_ok (zero_chunk ?CK)" using C(2) by (rule zero_chunk_ok)
  have parts: "\<forall>c\<in>set chunks. part_of (zero_chunk ?CK) c" using C(6) [OF ok] by simp
  have "chunks \<noteq> []" using assms by (simp add: chunks_ok_def)
  then obtain splitter where s: "strategy chunks ?CK = Some splitter"
    using new_splitter [OF _ parts] by auto
  have "\<forall>k < length chunks. ckeys (chunks ! k) = ckeys (chunks ! (0 + k)) \<and> chunk_ok (chunks ! k)"
    using assms by (auto simp: chunks_ok_def chunk_axis_ok_def)
  then obtain new where "split_all splitter splitAdd 0 (zero_chunk ?CK) chunks
      = Some ((zero_chunk ?CK)\<lparr>cvalues := new\<rparr>)" "length new = length ?CK - 1"
    using split_all_ok [of chunks "zero_chunk ?CK" splitter 0 chunks splitAdd] s parts C(5) by auto
  then show ?thesis using s C(1,2) by (simp add: chunk_ok_def)
qed

lemma compact_column_ok:
  assumes "chunks_ok chunks" and "strategy chunks (ckeys cc) = Some splitter" and "chunk_ok cc"
    and "ckeys cc = compact_keys_list chunks" and "length axes = length chunks"
    and "\<forall>i < length chunks. chunk_ok (chunks ! i) \<and> j < length (ValuesList (axes ! i)) \<and>
      length (ckeys (chunks ! i)) = length (ValuesList (axes ! i) ! j) + 1"
  shows "\<exists>vs. compact_column splitter cc chunks axes j = Some vs \<and> length vs = length (cvalues cc)"
proof -
  let ?dst = "cc\<lparr>cvalues := replicate (length (cvalues cc)) 0\<rparr>"
  define srcs where "srcs = map (\<lambda>(c, axis). c\<lparr>cvalues := ValuesList axis ! j\<rparr>) (zip chunks axes)"
  have dst: "SetZeroValues cc = Some ?dst" "chunk_ok ?dst"
    using assms(3) by (auto simp: SetZeroValues_def SetValues_def chunk_ok_def)
  have "those_columns (column_chunk j) (zip chunks axes) = Some srcs"
    unfolding srcs_def
  proof (rule those_columns_Some)
    fix x assume "x \<in> set (zip chunks axes)"
    then obtain i where "i < length chunks" "x = (chunks ! i, axes ! i)"
      using assms(5) by (auto simp: in_set_conv_nth)
    then show "column_chunk j x = Some ((\<lambda>(c, axis). c\<lparr>cvalues := ValuesList axis ! j\<rparr>) x)"
      using assms(6) by (simp add: column_chunk_def SetValues_def)
  qed
  moreover have "\<forall>k < length srcs. ckeys (srcs ! k) = ckeys (chunks ! (0 + k)) \<and> chunk_ok (srcs ! k)"
    using assms(5,6) by (auto simp: srcs_def chunk_ok_def)
  then obtain new where "split_all splitter splitAdd 0 ?dst srcs = Some (?dst\<lparr>cvalues := new\<rparr>)"
    "length new = length (cvalues ?dst)"
    using split_all_ok [of chunks ?dst splitter 0 srcs splitAdd] assms(2,4,5) dst(2)
      compact_unfold [OF assms(1)] by (auto simp: srcs_def)
  ultimately show ?thesis using dst(1) by (simp add: compact_column_def)
qed

lemma base_chunks:
  assumes "plane_ok pl"
  shows "those_columns base_chunk (Axes pl) = Some (map base_column (Axes pl))"
  using assms axis_base
  by (intro those_columns_Some) (auto simp: plane_ok_def base_chunk_def base_column_def)

lemma plane_ok_columns:
  assumes "plane_ok pl" and "i < length (Axes pl)" and "j < length (ValuesList (hd (Axes pl)))"
  shows "chunk_ok (base_column (Axes pl ! i)) \<and> j < length (ValuesList (Axes pl ! i)) \<and>
    length (Keys (Axes pl ! i)) = length (ValuesList (Axes pl ! i) ! j) + 1"
proof -
  have mem: "Axes pl ! i \<in> set (Axes pl)" using assms(2) by simp
  then have ax: "axis_ok (Axes pl ! i)" "length (ValuesList (Axes pl ! i)) = length (ValuesList (hd (Axes pl)))"
    using assms(1) unfolding plane_ok_def by blast+
  then have "j < length (ValuesList (Axes pl ! i))" using assms(3) by simp
  moreover have "length (Keys (Axes pl ! i)) = length (ValuesList (Axes pl ! i) ! j) + 1"
    using ax(1) nth_mem [OF calculation] unfolding axis_ok_def by blast
  ultimately show ?thesis using axis_base(4) [OF ax(1)] by (simp add: base_column_def)
qed

lemma Compact_ok:
  assumes "plane_ok pl"
  shows "\<exists>axis. Compact strategy pl = Some axis \<and> axis_ok axis \<and> axis_keys_ok (Keys axis) \<and>
    set (Keys axis) = (\<Union>a\<in>set (Axes pl). set (Keys a)) \<and>
    length (ValuesList axis) = length (ValuesList (hd (Axes pl)))"
proof -
  let ?chunks = "map base_column (Axes pl)" and ?n = "length (ValuesList (hd (Axes pl)))"
  have ok: "chunks_ok ?chunks" using assms by (simp add: plane_ok_def)
  then have ne: "Axes pl \<noteq> []" by (simp add: chunks_ok_def)
  have "axis_ok (hd (Axes pl))" using assms hd_in_set [OF ne] unfolding plane_ok_def by blast
  then have n: "0 < ?n" by (simp add: axis_ok_def)
  obtain cc splitter where C: "compact strategy ?chunks = Some (cc, splitter)" "chunk_ok cc"
    "ckeys cc = compact_keys_list ?chunks" "strategy ?chunks (ckeys cc) = Some splitter"
    using compact_ok [OF ok] by blast
  have col: "\<exists>vs. compact_column splitter cc ?chunks (Axes pl) j = Some vs \<and> length vs = length (cvalues cc)"
    if "j < ?n" for j
    using plane_ok_columns [OF assms _ that]
    by (intro compact_column_ok [OF ok C(4,2,3)]) (auto simp: base_column_def)
  then obtain f where f: "\<And>j. j < ?n \<Longrightarrow> compact_column splitter cc ?chunks (Axes pl) j = Some (f j) \<and>
      length (f j) = length (cvalues cc)" by metis
  have "those_columns (compact_column splitter cc ?chunks (Axes pl)) [1..<?n] = Some (map f [1..<?n])"
    using f by (intro those_columns_Some) auto
  moreover have "idx (Axes pl) 0 = Some (hd (Axes pl))" using ne by (simp add: hd_conv_nth)
  moreover define axis where "axis = \<lparr>Keys = ckeys cc, ValuesList = cvalues cc # map f [1..<?n]\<rparr>"
  have aok: "axis_ok axis" using C(2) f by (auto simp: axis_def axis_ok_def chunk_ok_def)
  ultimately have "Compact strategy pl = Some axis"
    using base_chunks [OF assms] C(1) CreateAxis_ok [OF aok] by (simp add: Compact_def axis_def Let_def)
  moreover have "keys_of ?chunks = (\<Union>a\<in>set (Axes pl). set (Keys a))" by (simp add: keys_of_def base_column_def)
  ultimately show ?thesis
    using aok compact_unfold(3,4) [OF ok] C(3) n by (auto simp: axis_def)
qed

end

end
