(* ===== verification/StorageRange.thy ===== *)
theory StorageRange
  imports StorageQueue PlaneProps
begin

text \<open>
  Queries. \<open>layer_Range\<close> finds by binary search in every ring the axes whose interval meets
  the queried one and joins them, oldest layer first: it is the filter of the \<open>history\<close> of the layers.
\<close>

section \<open>Slices of a ring\<close>

lemma ring_slice_eq:
  assumes "length ring = len" and "start < len" and "n \<le> len"
  shows "ring_slice ring len start (int n) = Some (map (\<lambda>i. ring ! ((start + i) mod len)) [0..<n])"
proof (cases "start + n \<le> len")
  case True
  have "take n (drop start ring) = map (\<lambda>i. ring ! ((start + i) mod len)) [0..<n]"
    using True assms by (intro nth_equalityI) auto
  then show ?thesis using True assms(1) by (simp add: ring_slice_def)
next
  case False
  then have "nat (int start + int n - int len) = start + n - len" by simp
  moreover have "take (len - start) (drop start ring) @ take (start + n - len) ring
      = map (\<lambda>i. ring ! ((start + i) mod len)) [0..<n]"
  proof (rule nth_equalityI)
    fix i assume i: "i < length (take (len - start) (drop start ring) @ take (start + n - len) ring)"
    show "(take (len - start) (drop start ring) @ take (start + n - len) ring) ! i
        = map (\<lambda>i. ring ! ((start + i) mod len)) [0..<n] ! i"
      using i False assms by (cases "start + i < len") (auto simp: nth_append mod_if add.commute)
  qed (use False assms in simp)
  ultimately show ?thesis using False assms by (simp add: ring_slice_def)
qed

lemma filter_upt: "b \<le> n \<Longrightarrow> filter (\<lambda>i. a \<le> i \<and> i < b) [0..<n] = [a..<b]"
  by (rule sorted_distinct_set_unique) (auto simp: sorted_wrt_filter)

section \<open>One layer\<close>

definition prev_time :: "layerStat \<Rightarrow> nat \<Rightarrow> int" where
  "prev_time s i = (if i = 0 then StartTime s else fst (entry s (i - 1)))"

definition slot :: "layerStat \<Rightarrow> nat \<Rightarrow> int \<times> int \<times> Axis" where
  "slot s i = (prev_time s i, fst (entry s i), snd (entry s i))"

lemma intervals_slots: "intervals (abs_layer s) = map (slot s) [0..<ring_size s]"
proof (rule nth_equalityI)
  fix i assume "i < length (intervals (abs_layer s))"
  then have "i < ring_size s" by (simp add: intervals_def abs_layer_def q_times_def)
  then show "intervals (abs_layer s) ! i = map (slot s) [0..<ring_size s] ! i"
    by (cases i) (auto simp: intervals_def abs_layer_def q_times_def slot_def prev_time_def split: prod.split)
qed (simp add: intervals_def abs_layer_def q_times_def)

definition meets :: "int \<Rightarrow> int \<Rightarrow> int \<times> int \<times> Axis \<Rightarrow> bool" where
  "meets startTime endTime = (\<lambda>(a, b, x). startTime < b \<and> a < endTime)"

text \<open>The times and axes of a list of intervals that follow each other.\<close>

definition spread_times :: "int list \<Rightarrow> (int \<times> int \<times> Axis) list \<Rightarrow> int list" where
  "spread_times ts es = (if ts = [] \<and> es \<noteq> [] then [fst (hd es)] else ts) @ map (fst \<circ> snd) es"

lemma entry_mono:
  assumes "q_sorted (abs_layer s)" and "i < j" and "j < ring_size s"
  shows "fst (entry s i) < fst (entry s j)"
proof -
  have "sorted_wrt (<) (map fst (entries s (ring_size s)))"
    using assms(1) by (simp add: q_sorted_def q_times_def abs_layer_def)
  then show ?thesis using assms(2,3) by (simp add: sorted_wrt_iff_nth_less)
qed

lemma entry_after_start:
  assumes "q_sorted (abs_layer s)" and "i < ring_size s"
  shows "StartTime s < fst (entry s i)"
proof -
  have "\<forall>x\<in>set (entries s (ring_size s)). StartTime s < fst x"
    using assms(1) by (simp add: q_sorted_def q_times_def abs_layer_def)
  moreover have "entry s i \<in> set (entries s (ring_size s))" using assms(2) by (auto simp: entries_def)
  ultimately show ?thesis by blast
qed

lemma entry_before_end:
  assumes "layer_ok s" and "q_sorted (abs_layer s)" and "i < ring_size s"
  shows "fst (entry s i) \<le> EndTime s"
proof -
  have "EndTime s = last (q_times (abs_layer s))"
    using assms(1) by (simp add: layer_ok_def ring_ok_def q_times_def abs_layer_def)
  moreover have "fst (entry s i) \<in> set (q_times (abs_layer s))"
    using assms(3) by (auto simp: q_times_def abs_layer_def entries_def)
  ultimately show ?thesis
    using assms(2) sorted_wrt_last_max unfolding q_sorted_def by metis
qed

lemma range_search:
  fixes startTime endTime :: int
  assumes "q_sorted (abs_layer s)" and "StartTime s < endTime" and "0 < ring_size s"
  defines "n \<equiv> ring_size s"
  defines "a \<equiv> sort_Search n (\<lambda>i. startTime < fst (entry s i))"
    and "e \<equiv> sort_Search n (\<lambda>i. \<not> fst (entry s i) < endTime)"
  defines "b \<equiv> (if e \<noteq> n then e + 1 else e)"
  shows "filter (meets startTime endTime) (map (slot s) [0..<n]) = map (slot s) [a..<b]" and "b \<le> n"
proof -
  have mono: "fst (entry s i) \<le> fst (entry s j)" if "i \<le> j" "j < n" for i j
    using entry_mono [OF assms(1), of i j] that unfolding n_def by (cases "i = j") auto
  have le: "a \<le> n" "e \<le> n" by (simp_all add: a_def e_def sort_Search_le)
  have A: "startTime < fst (entry s i) \<longleftrightarrow> a \<le> i" if "i < n" for i
    using sort_Search_spec [of "\<lambda>i. startTime < fst (entry s i)" n i] mono that
    unfolding a_def by (meson le_less_linear less_le_trans)
  have E: "fst (entry s i) < endTime \<longleftrightarrow> i < e" if "i < n" for i
    using sort_Search_spec [of "\<lambda>i. \<not> fst (entry s i) < endTime" n i] mono that
    unfolding e_def by (meson le_less_linear le_less_trans)
  show b: "b \<le> n" using le by (simp add: b_def)
  have B: "prev_time s i < endTime \<longleftrightarrow> i < b" if "i < n" for i
    using E [of "i - 1"] that assms(2,3) le by (auto simp: prev_time_def b_def)
  have "filter (\<lambda>i. meets startTime endTime (slot s i)) [0..<n] = filter (\<lambda>i. a \<le> i \<and> i < b) [0..<n]"
    by (intro filter_cong refl) (use A B in \<open>simp add: meets_def slot_def split_beta\<close>)
  then show "filter (meets startTime endTime) (map (slot s) [0..<n]) = map (slot s) [a..<b]"
    using filter_upt [OF b, of a] by (simp add: filter_map comp_def)
qed

lemma ring_size_int:
  assumes "layer_ok s" and "0 < ring_size s"
  shows "nat (if int (Tail s) - int (Head s) \<le> 0 then int (Tail s) - int (Head s) + int (Len s)
    else int (Tail s) - int (Head s)) = ring_size s"
proof -
  have "Head s < Len s" using assms(1) by (simp add: layer_ok_def ring_ok_def)
  moreover have "\<not> Empty s" using assms by (simp add: layer_ok_def)
  ultimately show ?thesis by (auto simp: ring_size_def)
qed

lemma slot_lists:
  "map (fst \<circ> snd) (map (slot s) is) = map (\<lambda>i. fst (entry s i)) is"
  "map (snd \<circ> snd) (map (slot s) is) = map (\<lambda>i. snd (entry s i)) is"
  by (simp_all add: slot_def)

lemma window_entries:
  assumes "Head s < Len s" and "a \<le> b"
  shows "map (\<lambda>i. RingTimes s ! (((Head s + a) mod Len s + i) mod Len s)) [0..<b - a]
      = map (\<lambda>i. fst (entry s i)) [a..<b]"
    and "map (\<lambda>i. RingAxes s ! (((Head s + a) mod Len s + i) mod Len s)) [0..<b - a]
      = map (\<lambda>i. snd (entry s i)) [a..<b]"
  by (rule nth_equalityI; use assms in \<open>simp add: entry_def mod_add_left_eq add.assoc\<close>)+

lemma range_layer_eq:
  assumes "layer_ok s" and "q_sorted (abs_layer s)" and "startTime < endTime"
  shows "range_layer s startTime endTime (ts, axes) =
    Some (spread_times ts (filter (meets startTime endTime) (intervals (abs_layer s))),
          axes @ map (snd \<circ> snd) (filter (meets startTime endTime) (intervals (abs_layer s))))"
proof (cases "Empty s \<or> \<not> (startTime < EndTime s \<and> StartTime s < endTime)")
  case True
  have "\<not> meets startTime endTime (slot s i)" if "i < ring_size s" for i
  proof -
    have "\<not> Empty s" using that assms(1) by (auto simp: layer_ok_def)
    moreover have "StartTime s \<le> prev_time s i"
      using entry_after_start [OF assms(2), of "i - 1"] that by (auto simp: prev_time_def intro: less_imp_le)
    ultimately show ?thesis
      using True entry_before_end [OF assms(1,2) that] by (auto simp: meets_def slot_def)
  qed
  then have "filter (meets startTime endTime) (intervals (abs_layer s)) = []"
    by (simp add: intervals_slots filter_empty_conv)
  with True show ?thesis by (simp add: range_layer_def spread_times_def)
next
  case False
  define n where "n = ring_size s"
  define a where "a = sort_Search n (\<lambda>i. startTime < fst (entry s i))"
  define e where "e = sort_Search n (\<lambda>i. \<not> fst (entry s i) < endTime)"
  define b where "b = (if e \<noteq> n then e + 1 else e)"
  have n: "0 < n" "n \<le> Len s" "Head s < Len s" and len: "length (RingAxes s) = Len s" "length (RingTimes s) = Len s"
    using False assms(1) by (auto simp: layer_ok_def ring_ok_def n_def)
  have "StartTime s < endTime" using False by simp
  note search = range_search(1) [OF assms(2) this n(1) [unfolded n_def], of startTime, folded n_def,
      folded a_def e_def, folded b_def]
    range_search(2) [OF assms(2) this n(1) [unfolded n_def], folded n_def, folded e_def, folded b_def]
  have mono: "fst (entry s i) \<le> fst (entry s j)" if "i \<le> j" "j < n" for i j
    using entry_mono [OF assms(2), of i j] that unfolding n_def by (cases "i = j") auto
  have last: "fst (entry s (n - 1)) = EndTime s"
    using assms(1) n(1) by (auto simp: layer_ok_def ring_ok_def n_def last_conv_nth simp flip: length_0_conv)
  have "a < n"
    using sort_Search_spec(1) [of "\<lambda>i. startTime < fst (entry s i)" n "n - 1"] mono last False n(1)
      sort_Search_le [of n "\<lambda>i. startTime < fst (entry s i)"] unfolding a_def
    by (metis diff_less less_le_trans linorder_not_less nat_neq_iff zero_less_one)
  have "a \<le> e"
  proof (rule ccontr)
    assume "\<not> a \<le> e"
    then have "e < a" by simp
    then have "\<not> startTime < fst (entry s e)" "e < n"
      using sort_Search_spec(1) [of "\<lambda>i. startTime < fst (entry s i)" n e] mono \<open>a < n\<close> unfolding a_def
      by (auto intro: less_le_trans)
    moreover have "\<not> fst (entry s e) < endTime"
      using sort_Search_spec(2) [of "\<lambda>i. \<not> fst (entry s i) < endTime" n e] mono \<open>e < n\<close> unfolding e_def
      by (meson le_less_trans order_refl)
    ultimately show False using assms(3) by simp
  qed
  then have ab: "a < b" "b \<le> n" using \<open>a < n\<close> search(2) False by (auto simp: b_def)
  have start: "(Head s + a) mod Len s = Head s \<longleftrightarrow> a = 0"
    using mod_other [OF n(3), of a] \<open>a < n\<close> n by (cases "a = 0") auto
  have prev: "idx (RingTimes s) (nat ((int ((Head s + a) mod Len s) - 1 + int (Len s)) mod int (Len s)))
      = Some (prev_time s a)" if "a \<noteq> 0"
  proof -
    have "(int ((Head s + a) mod Len s) - 1 + int (Len s)) mod int (Len s)
        = (int (Head s + a) mod int (Len s) - 1) mod int (Len s)" by (simp add: zmod_int)
    also have "\<dots> = int ((Head s + (a - 1)) mod Len s)"
      using that by (simp add: mod_diff_left_eq zmod_int of_nat_diff algebra_simps)
    finally show ?thesis using that n(3) len by (simp add: prev_time_def entry_def)
  qed
  have int_n: "int b - int a = int (b - a)" using ab by simp
  note win = window_entries [OF n(3), of a b]
  have slices: "ring_slice (RingTimes s) (Len s) ((Head s + a) mod Len s) (int (b - a))
      = Some (map (\<lambda>i. fst (entry s i)) [a..<b])"
    "ring_slice (RingAxes s) (Len s) ((Head s + a) mod Len s) (int (b - a))
      = Some (map (\<lambda>i. snd (entry s i)) [a..<b])"
    using ring_slice_eq [OF len(2), of "(Head s + a) mod Len s" "b - a"]
      ring_slice_eq [OF len(1), of "(Head s + a) mod Len s" "b - a"] n ab win by auto
  have hd: "fst (hd (map (slot s) [a..<b])) = prev_time s a" "map (slot s) [a..<b] \<noteq> []"
    using ab by (simp_all add: slot_def upt_conv_Cons)
  have "range_layer s startTime endTime (ts, axes) = do {
      ts \<leftarrow> (if length ts = 0 then if a = 0 then Some (ts @ [StartTime s])
         else do { t \<leftarrow> Some (prev_time s a); Some (ts @ [t]) } else Some ts);
      Some (ts @ map (\<lambda>i. fst (entry s i)) [a..<b], axes @ map (\<lambda>i. snd (entry s i)) [a..<b]) }"
  proof -
    have A: "sort_Search n (\<lambda>i. startTime < RingTimes s ! ((Head s + i) mod Len s)) = a"
      and E: "sort_Search n (\<lambda>i. \<not> RingTimes s ! ((Head s + i) mod Len s) < endTime) = e"
      by (simp_all add: a_def e_def entry_def)
    note size = ring_size_int [OF assms(1) n(1) [unfolded n_def], folded n_def]
    have "(if (Head s + a) mod Len s = Head s then Some (ts @ [StartTime s]) else do {
          t \<leftarrow> idx (RingTimes s) (nat ((int ((Head s + a) mod Len s) - 1 + int (Len s)) mod int (Len s)));
          Some (ts @ [t]) })
        = (if a = 0 then Some (ts @ [StartTime s]) else do { t \<leftarrow> Some (prev_time s a); Some (ts @ [t]) })"
      using start prev by simp
    then show ?thesis
      unfolding range_layer_def Let_def prod.case if_not_P [OF False] size A E b_def [symmetric] int_n slices
      by (simp only: bind.bind_lunit)
  qed
  also have "\<dots> = Some (spread_times ts (map (slot s) [a..<b]), axes @ map (snd \<circ> snd) (map (slot s) [a..<b]))"
    unfolding spread_times_def slot_lists hd(1) using hd(2) by (auto simp: prev_time_def)
  finally show ?thesis using search(1) False unfolding intervals_slots n_def by simp
qed

section \<open>All layers\<close>

lemma layer_Range_filter:
  assumes "\<forall>s\<in>set ls. layer_ok s" and "\<forall>s\<in>set ls. q_sorted (abs_layer s)" and "startTime < endTime"
  shows "layer_Range ls startTime endTime =
    Some (spread_times [] (filter (meets startTime endTime) (history (map abs_layer ls))),
          map (snd \<circ> snd) (filter (meets startTime endTime) (history (map abs_layer ls))))"
  using assms
proof (induction ls)
  case Nil
  then show ?case by (simp add: history_def spread_times_def)
next
  case (Cons s rest)
  have split: "history (map abs_layer (s # rest)) = history (map abs_layer rest) @ intervals (abs_layer s)"
    by (simp add: history_def)
  have spread: "spread_times (spread_times [] es) es' = spread_times [] (es @ es')" for es es'
    by (auto simp: spread_times_def)
  show ?case
    unfolding split using Cons by (simp add: range_layer_eq spread)
qed

text \<open>
  C4: a query for a non-empty time range returns exactly the stored axes whose interval
  meets the range, from all layers, oldest first, with one more time than axes: the start of
  the first interval and the end of every one. The binary searches and the slices around
  the end of the rings do not panic.
\<close>

theorem layer_Range_history:
  assumes "\<forall>s\<in>set ls. layer_ok s" and "q_inv (map abs_layer ls)" and "startTime < endTime"
  shows "\<exists>ts axes es. layer_Range ls startTime endTime = Some (ts, axes) \<and>
    es = filter (\<lambda>(a, b, x). startTime < b \<and> a < endTime) (history (map abs_layer ls)) \<and>
    axes = map (\<lambda>(a, b, x). x) es \<and>
    ts = (if es = [] then [] else fst (hd es) # map (\<lambda>(a, b, x). b) es)"
proof -
  have s: "\<forall>s\<in>set ls. q_sorted (abs_layer s)" using assms(2) by (auto simp: q_inv_def)
  have "(\<lambda>(a, b, x). startTime < b \<and> a < endTime) = meets startTime endTime"
    by (simp add: meets_def fun_eq_iff)
  moreover have "map (\<lambda>(a, b, x). x) es = map (snd \<circ> snd) es" "map (\<lambda>(a, b, x). b) es = map (fst \<circ> snd) es"
    for es :: "(int \<times> int \<times> Axis) list" by (auto simp: split_beta)
  ultimately show ?thesis
    using layer_Range_filter [OF assms(1) s assms(3)] by (simp add: spread_times_def)
qed

definition demo_layer :: layerStat where
  "demo_layer = \<lparr>StartTime = 10, EndTime = 40, RingAxes = [demo_storage, demo_axis, demo_storage],
     RingTimes = [40, 20, 30], LayerNum = 0, Head = 1, Tail = 1, Empty = False, Len = 3, Ratio = 0\<rparr>"

lemma demo_layer_ok: "\<forall>s\<in>set [demo_layer]. layer_ok s" "q_inv (map abs_layer [demo_layer])"
  by (simp_all add: layer_ok_def ring_ok_def demo_layer_def ring_size_def entries_def entry_def upt_rec
      q_inv_def q_sorted_def q_times_def abs_layer_def q_config_def)

theorem layer_Range_history_witness:
  "\<exists>axes. layer_Range [demo_layer] 25 35 = Some ([20, 30, 40], axes) \<and> length axes = 2"
proof -
  have "history (map abs_layer [demo_layer])
      = [(10, 20, demo_axis), (20, 30, demo_storage), (30, 40, demo_storage)]"
    by (simp add: history_def intervals_def abs_layer_def q_times_def entries_def ring_size_def entry_def
        demo_layer_def upt_rec)
  with layer_Range_history [OF demo_layer_ok, of 25 35] show ?thesis by force
qed

section \<open>\<open>Stat.Range\<close>\<close>

text \<open>What the storage keeps of every axis it holds.\<close>

definition stored_ok :: "key_map \<Rightarrow> Axis \<Rightarrow> bool" where
  "stored_ok km axis \<longleftrightarrow> storage_ok axis \<and> axis_keys_ok (Keys axis) \<and>
     (\<forall>k\<in>set (Keys axis). km (sval k) = Some k)"

lemma SaveKey_props:
  assumes "km_ok km" and "SaveKey km key = (km', u)"
  shows "km_ok km'" and "sval u = sval key" and "km \<subseteq>\<^sub>m km'" and "km' (sval key) = Some u"
  using LoadOrStore_props [OF assms(1), of key km' u] assms(2) by (simp_all add: SaveKey_def)

lemma stored_ok_mono: "stored_ok km axis \<Longrightarrow> km \<subseteq>\<^sub>m km' \<Longrightarrow> stored_ok km' axis"
  by (auto simp: stored_ok_def map_le_def dom_def)

definition range_ok :: "key_map \<Rightarrow> Axis \<Rightarrow> bool" where
  "range_ok km axis \<longleftrightarrow> axis_ok axis \<and> length (ValuesList axis) = 5 \<and> axis_keys_ok (Keys axis) \<and>
     (\<forall>k\<in>set (Keys axis). km (sval k) = Some k)"


lemma axis_keys_okI:
  assumes "2 \<le> length keys" and "\<And>i j. i < j \<Longrightarrow> j < length keys - 1 \<Longrightarrow> sval (keys ! i) < sval (keys ! j)"
    and "sval (keys ! (length keys - 1)) = [] \<or> sval (keys ! (length keys - 2)) < sval (keys ! (length keys - 1))"
  shows "axis_keys_ok keys"
proof -
  have "last (butlast keys) = keys ! (length keys - 2)"
    using assms(1) by (subst last_conv_nth) (auto simp: nth_butlast numeral_2_eq_2 simp flip: length_0_conv)
  moreover have "last keys = keys ! (length keys - 1)" using assms(1) by (subst last_conv_nth) auto
  moreover have "sorted_wrt (<) (map sval (butlast keys))"
    using assms(2) by (auto simp: sorted_wrt_iff_nth_less nth_butlast)
  ultimately show ?thesis using assms(1,3) by (simp add: axis_keys_ok_def)
qed

lemma axis_keys_part:
  assumes "axis_keys_ok keys" and "2 \<le> n" and "a + n \<le> length keys" and "length ks = n"
    and nth: "\<And>i. i < n \<Longrightarrow> ks ! i = keys ! (a + i)"
  shows "axis_keys_ok ks"
proof (rule axis_keys_okI)
  have below: "a + i < sorted_len keys" if "i < n - 1" for i
    using that assms(3) by (auto simp: sorted_len_def)
  show "2 \<le> length ks" using assms by simp
  show "sval (ks ! i) < sval (ks ! j)" if "i < j" "j < length ks - 1" for i j
    using axis_keys_less [OF assms(1), of "a + i" "a + j"] below [of j] nth [of i] nth [of j] that assms(4) by simp
  have last: "sval (ks ! (n - 1)) = [] \<or> a + (n - 1) < sorted_len keys"
  proof (cases "sval (last keys) = [] \<and> a + n = length keys")
    case True
    then have "a + (n - 1) = length keys - 1" "keys \<noteq> []" using assms(2) by auto
    then have "ks ! (n - 1) = last keys" using nth [of "n - 1"] assms(2) by (simp add: last_conv_nth)
    then show ?thesis using True by simp
  next
    case False
    then have "a + (n - 1) < sorted_len keys" using assms(2,3) by (auto simp: sorted_len_def)
    then show ?thesis ..
  qed
  moreover have "ks ! (n - 1) = keys ! (a + (n - 1))" "ks ! (n - 2) = keys ! (a + (n - 2))"
    using assms(2) by (intro nth; linarith)+
  moreover have "a + (n - 2) < a + (n - 1)" using assms(2) by linarith
  ultimately show "sval (ks ! (length ks - 1)) = [] \<or> sval (ks ! (length ks - 2)) < sval (ks ! (length ks - 1))"
    unfolding assms(4) using axis_keys_less [OF assms(1)] by metis
qed

lemma axis_keys_slice:
  assumes "axis_keys_ok keys" and "2 \<le> length (take m (drop a keys))"
  shows "axis_keys_ok (take m (drop a keys))"
proof (rule axis_keys_part [OF assms _ refl])
  show "a + length (take m (drop a keys)) \<le> length keys" using assms(2) by (auto simp: min_def)
  show "take m (drop a keys) ! i = keys ! (a + i)" if "i < length (take m (drop a keys))" for i
    using that by auto
qed

lemma range_axis_ok:
  assumes "stored_ok km axis" and "sval endKey = [] \<or> sval startKey < sval endKey"
    and "km (sval startKey) = Some startKey" and "km (sval endKey) = Some endKey"
  shows "\<exists>axis'. range_axis startKey endKey tag axis = Some axis' \<and> range_ok km axis' \<and>
    length (Keys axis') \<le> length (Keys axis) \<and> keys_meet (Keys axis') (sval startKey) (sval endKey)"
proof -
  have ok: "axis_ok axis" "length (ValuesList axis) = 4" "axis_keys_ok (Keys axis)"
    "\<forall>k\<in>set (Keys axis). km (sval k) = Some k" using assms(1) by (simp_all add: stored_ok_def storage_ok_def)
  obtain ax where ax: "Axis_Range axis startKey endKey = Some ax" "axis_ok ax" "length (ValuesList ax) = 4"
    and keys: "Keys ax = [startKey, endKey] \<or> (\<exists>a m. Keys ax = take m (drop a (Keys axis)))"
    using Axis_Range_spec [OF ok(1,3) assms(2)] ok(2) by (auto split: if_splits)
  have two: "2 \<le> length (Keys ax)" using ax(2) by (simp add: axis_ok_def)
  have pair: "axis_keys_ok [startKey, endKey]" using assms(2) by (simp add: axis_keys_ok_def)
  have "axis_keys_ok (Keys ax) \<and> (\<forall>k\<in>set (Keys ax). km (sval k) = Some k) \<and> length (Keys ax) \<le> length (Keys axis)"
  proof (cases "Keys ax = [startKey, endKey]")
    case True
    then show ?thesis using pair assms(3,4) ok(1) by (simp add: axis_ok_def)
  next
    case False
    then obtain a m where am: "Keys ax = take m (drop a (Keys axis))" using keys by blast
    have "set (Keys ax) \<subseteq> set (Keys axis)"
      unfolding am by (meson order_trans set_drop_subset set_take_subset)
    then show ?thesis using axis_keys_slice [OF ok(3)] two ok(4) am by auto
  qed
  moreover have "storage_ok ax" using ax by (simp add: storage_ok_def)
  moreover obtain r where r: "IntoResponseAxis ax tag = Some r" "Keys r = Keys ax" "length (ValuesList r) = 5"
    using IntoResponseAxis_eq [OF \<open>storage_ok ax\<close>, of tag] ax(3) by auto
  moreover have "axis_ok r" using r(1) by (auto simp: IntoResponseAxis_def CreateAxis_Some_iff bind_eq_Some_conv)
  moreover have "keys_meet (Keys ax) (sval startKey) (sval endKey)" by (rule Axis_Range_meets [OF ok(1,3) assms(2) ax(1)])
  ultimately show ?thesis using ax(1) by (auto simp: range_axis_def range_ok_def)
qed

lemma range_axes_ok:
  assumes "\<forall>axis\<in>set axes. stored_ok km axis" and "sval endKey = [] \<or> sval startKey < sval endKey"
    and "km (sval startKey) = Some startKey" and "km (sval endKey) = Some endKey"
  shows "\<exists>axes'. those_columns (range_axis startKey endKey tag) axes = Some axes' \<and>
    length axes' = length axes \<and> (\<forall>axis\<in>set axes'. range_ok km axis \<and> keys_meet (Keys axis) (sval startKey) (sval endKey)) \<and>
    sum_list (map (\<lambda>a. length (Keys a)) axes') \<le> sum_list (map (\<lambda>a. length (Keys a)) axes)"
  using assms(1)
proof (induction axes)
  case (Cons axis axes)
  obtain axis' where "range_axis startKey endKey tag axis = Some axis'" "range_ok km axis'"
    "length (Keys axis') \<le> length (Keys axis)" "keys_meet (Keys axis') (sval startKey) (sval endKey)"
    using range_axis_ok [OF _ assms(2-4)] Cons.prems by (metis list.set_intros(1))
  with Cons show ?case by fastforce
qed simp

text \<open>Keys out of one key map are told apart by \<open>equal\<close> exactly by content.\<close>

lemma km_pool_interned:
  assumes "km_ok km" and "pool_ok (ran km)"
  shows "interned (insert empty_str {k. km (sval k) = Some k})"
proof -
  have sub: "{k. km (sval k) = Some k} \<subseteq> ran km" by (auto simp: ran_def)
  have emp: "k = empty_str" if "k \<in> {k. km (sval k) = Some k}" "sval k = []" for k
    using that sub assms(2) unfolding pool_ok_def by blast
  have "interned {k. km (sval k) = Some k}"
    using assms by (intro km_interned) (auto simp: pool_ok_def)
  then show ?thesis
    using emp unfolding interned_def
    by (auto simp: equal_empty) (auto simp: empty_str_def)
qed

lemma plane_ok_range:
  assumes "axes \<noteq> []" and "\<forall>axis\<in>set axes. range_ok km axis" and "km_ok km" and "pool_ok (ran km)"
    and "1 + sum_list (map (\<lambda>a. length (Keys a)) axes) < 2 ^ 64"
  shows "plane_ok \<lparr>Times = ts, Axes = axes\<rparr>"
proof -
  have five: "length (ValuesList axis) = 5" if "axis \<in> set axes" for axis
    using assms(2) that by (simp add: range_ok_def)
  have "keys_of (map base_column axes) \<subseteq> {k. km (sval k) = Some k}"
    using assms(2) by (auto simp: keys_of_def base_column_def range_ok_def)
  then have "interned (insert empty_str (keys_of (map base_column axes)))"
    using km_pool_interned [OF assms(3,4)] by (rule interned_subset [rotated, OF insert_mono])
  moreover have "\<forall>c\<in>set (map base_column axes). chunk_axis_ok c"
    using assms(2) axis_base(4) by (auto simp: chunk_axis_ok_def range_ok_def base_column_def)
  ultimately show ?thesis
    using assms(1,2,5) five by (simp add: plane_ok_def chunks_ok_def base_column_def range_ok_def comp_def)
qed

text \<open>
  The invariant of the statistics: well-formed layers with one time line, and stored axes
  whose keys are the strings of the key map. \<open>stat_size\<close> bounds the number of keys that
  are held in memory.
\<close>

definition stat_ok :: "'db Stat \<Rightarrow> bool" where
  "stat_ok s \<longleftrightarrow> (\<forall>l\<in>set (layers s). layer_ok l) \<and> q_inv (map abs_layer (layers s)) \<and> km_ok (keyMap s) \<and>
     (\<forall>l\<in>set (layers s). \<forall>(t, axis)\<in>set (q_items (abs_layer l)). stored_ok (keyMap s) axis)"

definition stat_size :: "'db Stat \<Rightarrow> nat" where
  "stat_size s = sum_list (map (\<lambda>(a, b, x). length (Keys x)) (history (map abs_layer (layers s))))"

lemma history_axes:
  "(a, b, x) \<in> set (history qs) \<Longrightarrow> \<exists>q\<in>set qs. (b, x) \<in> set (q_items q)"
  by (auto simp: history_def intervals_def dest!: set_zip_rightD)

lemma sum_list_filter_le: "sum_list (map f (filter P xs)) \<le> sum_list (map f xs :: nat list)"
  by (induction xs) auto

lemma Stat_Range_ok:
  assumes "stat_ok s" and "startTime < endTime" and "sval endKey = [] \<or> sval startKey < sval endKey"
    and "pool_ok (insert startKey (insert endKey (ran (keyMap s))))" and "5 + stat_size s < 2 ^ 64"
  shows "\<exists>s' pl. Stat_Range s startTime endTime startKey endKey tag = Some (s', pl) \<and>
    plane_ok pl \<and> length (ValuesList (hd (Axes pl))) = 5 \<and>
    length (Times pl) = length (Axes pl) + 1 \<and> stat_ok s' \<and>
    (let es = filter (meets startTime endTime) (history (map abs_layer (layers s))) in
       Times pl = (if es = [] then [startTime, endTime] else fst (hd es) # map (fst \<circ> snd) es)) \<and>
    (\<forall>axis\<in>set (Axes pl). keys_meet (Keys axis) (sval startKey) (sval endKey))"
proof -
  obtain km1 sk where 1: "SaveKey (keyMap s) startKey = (km1, sk)" by fastforce
  obtain km2 ek where 2: "SaveKey km1 endKey = (km2, ek)" by fastforce
  have km: "km_ok (keyMap s)" using assms(1) by (simp add: stat_ok_def)
  note P = SaveKey_props [OF km 1]
  note Q = SaveKey_props [OF P(1) 2]
  have le: "keyMap s \<subseteq>\<^sub>m km2" using P(3) Q(3) by (rule map_le_trans)
  have sk: "km2 (sval sk) = Some sk" and ek: "km2 (sval ek) = Some ek"
    using P Q by (auto simp: map_le_def dom_def)
  have ran: "ran km2 \<subseteq> insert startKey (insert endKey (ran (keyMap s)))"
    using LoadOrStore_props(5) [OF km 1 [unfolded SaveKey_def]] LoadOrStore_props(5) [OF P(1) 2 [unfolded SaveKey_def]]
    by blast
  have pool: "pool_ok (ran km2)" using assms(4) ran unfolding pool_ok_def coherent_def by blast
  have keys: "sval ek = [] \<or> sval sk < sval ek" using assms(3) P(2) Q(2) by simp
  let ?es = "filter (meets startTime endTime) (history (map abs_layer (layers s)))"
  let ?s = "s\<lparr>keyMap := km2\<rparr>"
  have stored: "\<forall>axis\<in>set (map (snd \<circ> snd) ?es). stored_ok km2 axis"
  proof
    fix axis assume "axis \<in> set (map (snd \<circ> snd) ?es)"
    then obtain a b where "(a, b, axis) \<in> set (history (map abs_layer (layers s)))" by auto
    from history_axes [OF this] obtain l where "l \<in> set (layers s)" "(b, axis) \<in> set (q_items (abs_layer l))" by auto
    then show "stored_ok km2 axis" using assms(1) stored_ok_mono [OF _ le] by (fastforce simp: stat_ok_def)
  qed
  have ok': "stat_ok ?s" using assms(1) Q(1) stored_ok_mono [OF _ le] by (fastforce simp: stat_ok_def)
  have root: "rangeRoot ?s startTime endTime = Some (spread_times [] ?es, map (snd \<circ> snd) ?es)"
    using assms(1,2) layer_Range_filter [of "layers s" startTime endTime]
    by (auto simp: rangeRoot_def stat_ok_def q_inv_def)
  show ?thesis
  proof (cases "?es = []")
    case True
    let ?ax = "\<lparr>Keys = [sk, ek], ValuesList = replicate 5 [0]\<rparr>"
    have five: "length ResponseTags = 5" by (simp add: tag_simps)
    have "CreateEmptyPlane startTime endTime sk ek 5 = Some \<lparr>Times = [startTime, endTime], Axes = [?ax]\<rparr>"
      by (simp add: CreateEmptyPlane_def CreateEmptyAxis_def CreateAxis_def CreatePlane_def)
    moreover have "range_ok km2 ?ax"
      using keys sk ek by (auto simp: range_ok_def axis_ok_def axis_keys_ok_def)
    then have "plane_ok \<lparr>Times = [startTime, endTime], Axes = [?ax]\<rparr>"
      using plane_ok_range [of "[?ax]" km2] Q(1) pool assms(5) by simp
    moreover have "length (spread_times [] ?es) \<le> 1" using True by (simp add: spread_times_def)
    moreover have "keys_meet (Keys ?ax) (sval startKey) (sval endKey)"
      using assms(3) P(2) Q(2) by (simp add: keys_meet_def)
    ultimately show ?thesis
      using True root ok' five by (simp add: Stat_Range_def 1 2 Let_def)
  next
    case False
    obtain axes' where axes': "those_columns (range_axis sk ek tag) (map (snd \<circ> snd) ?es) = Some axes'"
      "length axes' = length (map (snd \<circ> snd) ?es)"
      "\<forall>axis\<in>set axes'. range_ok km2 axis \<and> keys_meet (Keys axis) (sval sk) (sval ek)"
      "sum_list (map (\<lambda>a. length (Keys a)) axes') \<le> sum_list (map (\<lambda>a. length (Keys a)) (map (snd \<circ> snd) ?es))"
      using range_axes_ok [OF stored keys sk ek, of tag] by blast
    have "sum_list (map (\<lambda>a. length (Keys a)) (map (snd \<circ> snd) ?es)) \<le> stat_size s"
      using sum_list_filter_le [of "\<lambda>(a, b, x). length (Keys x)" "meets startTime endTime"]
      by (simp add: stat_size_def comp_def split_beta')
    then have "plane_ok \<lparr>Times = spread_times [] ?es, Axes = axes'\<rparr>"
      using axes' False Q(1) pool assms(5) by (intro plane_ok_range) auto
    moreover have len: "length (spread_times [] ?es) = length axes' + 1" "axes' \<noteq> []"
      using False axes'(2) by (auto simp: spread_times_def)
    moreover have "length (ValuesList (hd axes')) = 5" using axes'(3) len(2) by (cases axes') (auto simp: range_ok_def)
    moreover have "CreatePlane (spread_times [] ?es) axes' = Some \<lparr>Times = spread_times [] ?es, Axes = axes'\<rparr>"
      using len by (cases axes') (simp_all add: CreatePlane_def)
    ultimately show ?thesis
      using root axes'(1,3) ok' False P(2) Q(2) by (cases axes') (auto simp: Stat_Range_def 1 2 Let_def spread_times_def)
  qed
qed

text \<open>
  C6: \<open>Stat.Range\<close> never panics when the statistics satisfy their invariant, for a non-empty
  time range and a non-empty key range: it returns a well-formed plane with interned keys,
  five columns per axis and the times of exactly the stored intervals that meet the range
  (the queried range itself with zero values when there are none), and keeps the invariant.
\<close>

theorem Stat_Range_plane:
  assumes "stat_ok s" and "startTime < endTime" and "sval endKey = [] \<or> sval startKey < sval endKey"
    and "pool_ok (insert startKey (insert endKey (ran (keyMap s))))" and "5 + stat_size s < 2 ^ 64"
  shows "\<exists>s' pl. Stat_Range s startTime endTime startKey endKey tag = Some (s', pl) \<and>
    plane_ok pl \<and> length (ValuesList (hd (Axes pl))) = 5 \<and>
    length (Times pl) = length (Axes pl) + 1 \<and> stat_ok s' \<and>
    (let es = filter (meets startTime endTime) (history (map abs_layer (layers s))) in
       Times pl = (if es = [] then [startTime, endTime] else fst (hd es) # map (fst \<circ> snd) es))"
proof -
  obtain s' pl where "Stat_Range s startTime endTime startKey endKey tag = Some (s', pl)" "plane_ok pl"
    "length (ValuesList (hd (Axes pl))) = 5" "length (Times pl) = length (Axes pl) + 1" "stat_ok s'"
    "let es = filter (meets startTime endTime) (history (map abs_layer (layers s))) in
       Times pl = (if es = [] then [startTime, endTime] else fst (hd es) # map (fst \<circ> snd) es)"
    using Stat_Range_ok [OF assms, of tag] by blast
  then show ?thesis by blast
qed

definition demo_stat :: "unit Stat" where
  "demo_stat = \<lparr>layers = [demo_layer\<lparr>RingAxes := [demo_storage, demo_storage, demo_storage]\<rparr>],
     keyMap = map_of [(''a'', GoStr 1 ''a''), (''c'', GoStr 2 ''c''), (''e'', GoStr 3 ''e'')], stat_db = ()\<rparr>"

lemma demo_stored: "stored_ok (keyMap demo_stat) demo_storage"
  by (simp add: stored_ok_def demo_storage_ok demo_stat_def)
    (simp add: demo_storage_def axis_keys_ok_def less_char_def)

lemma demo_queue:
  "map abs_layer (layers demo_stat) = [\<lparr>q_start = 10,
     q_items = [(20, demo_storage), (30, demo_storage), (40, demo_storage)], q_cap = 3, q_ratio = 0\<rparr>]"
  by (simp add: demo_stat_def demo_layer_def abs_layer_def ring_size_def entries_def entry_def upt_rec)

lemma demo_stat_ok: "stat_ok demo_stat"
proof -
  have "\<forall>l\<in>set (layers demo_stat). layer_ok l"
    by (simp add: demo_stat_def layer_ok_def ring_ok_def demo_layer_def ring_size_def entries_def entry_def upt_rec)
  moreover have "q_inv (map abs_layer (layers demo_stat))"
    unfolding demo_queue by (simp add: q_inv_def q_sorted_def q_times_def q_config_def)
  moreover have "km_ok (keyMap demo_stat)" by (auto simp: km_ok_def demo_stat_def split: if_splits)
  moreover have "\<forall>l\<in>set (layers demo_stat). \<forall>(t, axis)\<in>set (q_items (abs_layer l)). stored_ok (keyMap demo_stat) axis"
  proof -
    have "\<forall>q\<in>set (map abs_layer (layers demo_stat)). \<forall>(t, axis)\<in>set (q_items q). stored_ok (keyMap demo_stat) axis"
      unfolding demo_queue using demo_stored by simp
    then show ?thesis by simp
  qed
  ultimately show ?thesis by (simp add: stat_ok_def)
qed

lemma demo_pool: "pool_ok (insert (GoStr 9 ''b'') (insert (GoStr 0 []) (ran (keyMap demo_stat))))"
proof -
  have "ran (keyMap demo_stat) = {GoStr 1 ''a'', GoStr 2 ''c'', GoStr 3 ''e''}"
    unfolding demo_stat_def Stat.simps by (subst ran_distinct) auto
  then show ?thesis by (simp add: pool_ok_def coherent_def equal_def empty_str_def)
qed

lemma demo_range_args:
  "(25::int) < 35" "sval (GoStr 0 []) = [] \<or> sval (GoStr 9 ''b'') < sval (GoStr 0 [])"
  "5 + stat_size demo_stat < 2 ^ 64"
proof -
  have "stat_size demo_stat = 9"
    unfolding stat_size_def demo_queue by (simp add: history_def intervals_def q_times_def demo_storage_def)
  then show "5 + stat_size demo_stat < 2 ^ 64" by simp
qed simp_all

theorem Stat_Range_plane_witness:
  "\<exists>s' pl. Stat_Range demo_stat 25 35 (GoStr 9 ''b'') (GoStr 0 []) ReadBytes = Some (s', pl) \<and>
    plane_ok pl \<and> Times pl = [20, 30, 40]"
proof -
  have es: "filter (meets 25 35) (history (map abs_layer (layers demo_stat)))
      = [(20, 30, demo_storage), (30, 40, demo_storage)]"
    unfolding demo_queue by (simp add: history_def intervals_def q_times_def meets_def)
  have ts: "(let es = [(20, 30, demo_storage), (30, 40, demo_storage)]
      in T = (if es = [] then [25, 35] else fst (hd es) # map (fst \<circ> snd) es)) \<longleftrightarrow> T = [20, 30, 40]"
    for T :: "int list" by simp
  show ?thesis
    using Stat_Range_plane [OF demo_stat_ok demo_range_args(1,2) demo_pool demo_range_args(3), of ReadBytes]
    unfolding es ts by blast
qed

end
