(* ===== verification/StoragePersist.thy ===== *)
theory StoragePersist
  imports StorageRange
begin

text \<open>
  The rows of the table \<open>keyviz_axis\<close>. \<open>db_laws\<close> states what the code relies on of the database
  and of \<open>gob\<close>: no operation fails, \<open>db_FindByTime\<close> answers the rows of a layer by time,
  an insertion adds its row, a deletion by layer and time removes the rows with that time,
  and a decoded axis has the contents of the encoded one, in fresh strings.

  While a layer is appended to, its rows stay in step with its ring (\<open>rows_ok\<close>): a first row
  at the start time, whose axis means nothing, then one row per entry. \<open>Restore\<close> then
  rebuilds the same queues after a restart.
\<close>

definition same_axis :: "Axis \<Rightarrow> Axis \<Rightarrow> bool" where
  "same_axis a b \<longleftrightarrow> map sval (Keys a) = map sval (Keys b) \<and> ValuesList a = ValuesList b"

definition db_laws :: "('db, 'g) store_ops \<Rightarrow> bool" where
  "db_laws ops \<longleftrightarrow>
     (\<forall>axis. \<exists>b axis'. gob_Encode ops axis = Some b \<and> gob_Decode ops b = Some axis' \<and> same_axis axis' axis) \<and>
     (\<forall>db n. \<exists>rows. db_FindByTime ops db n = Some rows) \<and>
     (\<forall>db m n rows. db_FindByTime ops db n = Some rows \<longrightarrow>
        db_FindByTime ops (fst (db_Create ops db m)) n =
          Some (if n = am_LayerNum m then insort_key am_Time m rows else rows)) \<and>
     (\<forall>db k t n rows. db_FindByTime ops db n = Some rows \<longrightarrow>
        db_FindByTime ops (fst (db_DeleteTime ops db k t)) n =
          Some (if n = k then filter (\<lambda>m. am_Time m \<noteq> t) rows else rows))"

lemma db_laws_simps:
  assumes "db_laws ops"
  shows "\<exists>b axis'. gob_Encode ops axis = Some b \<and> gob_Decode ops b = Some axis' \<and> same_axis axis' axis"
    and "db_FindByTime ops db n = Some rows \<Longrightarrow> db_FindByTime ops (fst (db_Create ops db m)) n =
          Some (if n = am_LayerNum m then insort_key am_Time m rows else rows)"
    and "db_FindByTime ops db n = Some rows \<Longrightarrow> db_FindByTime ops (fst (db_DeleteTime ops db k t)) n =
          Some (if n = k then filter (\<lambda>m. am_Time m \<noteq> t) rows else rows)"
    and "\<exists>rows. db_FindByTime ops db n = Some rows"
  using assms unfolding db_laws_def by blast+

definition row_is :: "('db, 'g) store_ops \<Rightarrow> 'g AxisModel \<Rightarrow> int \<times> Axis \<Rightarrow> bool" where
  "row_is ops m e \<longleftrightarrow> am_Time m = fst e \<and>
     (\<exists>axis'. gob_Decode ops (am_Axis m) = Some axis' \<and> same_axis axis' (snd e))"

definition rows_ok :: "('db, 'g) store_ops \<Rightarrow> 'db \<Rightarrow> 8 word \<Rightarrow> int \<Rightarrow> (int \<times> Axis) list \<Rightarrow> bool" where
  "rows_ok ops db k start items \<longleftrightarrow> (\<exists>m ms. db_FindByTime ops db k = Some (m # ms) \<and>
     am_Time m = start \<and> list_all2 (row_is ops) ms items)"

section \<open>One layer\<close>

text \<open>The rows of the other layers are the same.\<close>

definition frame :: "('db, 'g) store_ops \<Rightarrow> 8 word set \<Rightarrow> 'db \<Rightarrow> 'db \<Rightarrow> bool" where
  "frame ops K db db' \<longleftrightarrow> (\<forall>n. n \<notin> K \<longrightarrow> db_FindByTime ops db' n = db_FindByTime ops db n)"

lemma frame_trans: "frame ops K db db1 \<Longrightarrow> frame ops L db1 db2 \<Longrightarrow> frame ops (K \<union> L) db db2"
  by (simp add: frame_def)

lemma frame_mono: "frame ops K db db' \<Longrightarrow> K \<subseteq> L \<Longrightarrow> frame ops L db db'"
  by (auto simp: frame_def)

lemma frame_rows: "frame ops K db db' \<Longrightarrow> k \<notin> K \<Longrightarrow> rows_ok ops db k start items \<Longrightarrow> rows_ok ops db' k start items"
  by (simp add: frame_def rows_ok_def)

lemma rows_times: "list_all2 (row_is ops) ms items \<Longrightarrow> map am_Time ms = map fst items"
  by (induction rule: list_all2_induct) (auto simp: row_is_def)

lemma rows_pop:
  assumes "db_laws ops" and "rows_ok ops db (LayerNum s) (StartTime s) (e # items)"
    and "sorted_wrt (<) (StartTime s # map fst (e # items))"
  shows "rows_ok ops (fst (DeleteFirstAxisFromDb ops db s)) (LayerNum s) (fst e) items"
    and "frame ops {LayerNum s} db (fst (DeleteFirstAxisFromDb ops db s))"
proof -
  obtain m m1 ms where rows: "db_FindByTime ops db (LayerNum s) = Some (m # m1 # ms)" "am_Time m = StartTime s"
    "row_is ops m1 e" "list_all2 (row_is ops) ms items"
    using assms(2) by (auto simp: rows_ok_def list_all2_Cons2)
  obtain b where b: "gob_Encode ops axis_nil = Some b" using db_laws_simps(1) [OF assms(1)] by blast
  have del: "fst (DeleteFirstAxisFromDb ops db s) = fst (db_DeleteTime ops db (LayerNum s) (StartTime s))"
    using b by (simp add: DeleteFirstAxisFromDb_def NewAxisModel_def am_Delete_def)
  have "StartTime s \<notin> set (map fst (e # items))" using assms(3) by auto
  moreover have "map am_Time (m1 # ms) = map fst (e # items)" using rows(3,4) by (intro rows_times [of ops]) simp
  ultimately have "StartTime s \<notin> set (map am_Time (m1 # ms))" by metis
  then have "filter (\<lambda>m. am_Time m \<noteq> StartTime s) (m1 # ms) = m1 # ms"
    by (intro filter_True) (auto simp: image_iff)
  then have "filter (\<lambda>m. am_Time m \<noteq> StartTime s) (m # m1 # ms) = m1 # ms" using rows(2) by simp
  then show "rows_ok ops (fst (DeleteFirstAxisFromDb ops db s)) (LayerNum s) (fst e) items"
    unfolding del using db_laws_simps(3) [OF assms(1) rows(1), of "LayerNum s" "StartTime s"] rows(3,4)
    by (simp add: rows_ok_def row_is_def)
  show "frame ops {LayerNum s} db (fst (DeleteFirstAxisFromDb ops db s))"
    unfolding del frame_def
  proof (intro allI impI)
    fix n assume n: "n \<notin> {LayerNum s}"
    obtain rs where rs: "db_FindByTime ops db n = Some rs" using db_laws_simps(4) [OF assms(1)] by blast
    show "db_FindByTime ops (fst (db_DeleteTime ops db (LayerNum s) (StartTime s))) n = db_FindByTime ops db n"
      using db_laws_simps(3) [OF assms(1) rs, of "LayerNum s" "StartTime s"] rs n by simp
  qed
qed

lemma insort_key_last: "\<forall>x\<in>set xs. f x < f y \<Longrightarrow> insort_key f y xs = xs @ [y]"
  by (induction xs) auto

lemma rows_put:
  assumes "db_laws ops" and "rows_ok ops db (LayerNum s) start items" and "\<forall>u\<in>set (start # map fst items). u < t"
  shows "rows_ok ops (fst (InsertLastAxisToDb ops db s axis t)) (LayerNum s) start (items @ [(t, axis)])"
    and "frame ops {LayerNum s} db (fst (InsertLastAxisToDb ops db s axis t))"
proof -
  obtain m ms where rows: "db_FindByTime ops db (LayerNum s) = Some (m # ms)" "am_Time m = start"
    "list_all2 (row_is ops) ms items" using assms(2) by (auto simp: rows_ok_def)
  obtain b axis' where b: "gob_Encode ops axis = Some b" "gob_Decode ops b = Some axis'" "same_axis axis' axis"
    using db_laws_simps(1) [OF assms(1)] by blast
  let ?m = "\<lparr>am_LayerNum = LayerNum s, am_Time = t, am_Axis = b\<rparr>"
  have ins: "fst (InsertLastAxisToDb ops db s axis t) = fst (db_Create ops db ?m)"
    using b by (simp add: InsertLastAxisToDb_def NewAxisModel_def am_Insert_def)
  have "map am_Time (m # ms) = start # map fst items" using rows(2) rows_times [OF rows(3)] by simp
  with assms(3) have "\<forall>u\<in>set (map am_Time (m # ms)). u < t" by metis
  then have "\<forall>x\<in>set (m # ms). am_Time x < am_Time ?m" by simp
  from insort_key_last [OF this] have "insort_key am_Time ?m (m # ms) = m # ms @ [?m]" by simp
  then show "rows_ok ops (fst (InsertLastAxisToDb ops db s axis t)) (LayerNum s) start (items @ [(t, axis)])"
    unfolding ins using db_laws_simps(2) [OF assms(1) rows(1), of ?m] rows(2,3) b
    by (simp add: rows_ok_def row_is_def list_all2_appendI)
  show "frame ops {LayerNum s} db (fst (InsertLastAxisToDb ops db s axis t))"
    unfolding ins frame_def
  proof (intro allI impI)
    fix n assume n: "n \<notin> {LayerNum s}"
    obtain rs where rs: "db_FindByTime ops db n = Some rs" using db_laws_simps(4) [OF assms(1)] by blast
    show "db_FindByTime ops (fst (db_Create ops db ?m)) n = db_FindByTime ops db n"
      using db_laws_simps(2) [OF assms(1) rs, of ?m] rs n by simp
  qed
qed

lemma rows_take:
  assumes "db_laws ops" and "ring_ok s (r + n)" and "rows_ok ops db (LayerNum s) (StartTime s) (entries s (r + n))"
    and "sorted_wrt (<) (StartTime s # map fst (entries s (r + n)))"
    and "reduce_take ops r db s ts axes = Some (db', s', ts', axes')"
  shows "rows_ok ops db' (LayerNum s') (StartTime s') (entries s' n) \<and> frame ops {LayerNum s} db db'"
  using assms(2-5)
proof (induction r arbitrary: db s ts axes)
  case 0
  then show ?case by (simp add: frame_def)
next
  case (Suc r)
  have ok: "ring_ok s (Suc (r + n))" using Suc.prems(1) by simp
  obtain s1 where s1: "pop_first ops db s = Some (fst (DeleteFirstAxisFromDb ops db s), s1, snd (entry s 0))"
    "ring_ok s1 (r + n)" "StartTime s1 = fst (entry s 0)"
    "entries s (Suc (r + n)) = entry s 0 # entries s1 (r + n)" "same_conf s s1"
    using pop_first_ok [OF ok, of ops db] by blast
  have rows: "rows_ok ops db (LayerNum s) (StartTime s) (entry s 0 # entries s1 (r + n))"
    and sorted: "sorted_wrt (<) (StartTime s # map fst (entry s 0 # entries s1 (r + n)))"
    using Suc.prems(2,3) s1(4) by (simp_all del: list.map sorted_wrt.simps)
  note pop = rows_pop [OF assms(1) rows sorted]
  have num: "LayerNum s1 = LayerNum s" using s1(5) by (simp add: same_conf_def)
  have "rows_ok ops db' (LayerNum s') (StartTime s') (entries s' n) \<and>
      frame ops {LayerNum s1} (fst (DeleteFirstAxisFromDb ops db s)) db'"
    by (rule Suc.IH [OF s1(2), of _ "ts @ [StartTime s1]" "axes @ [snd (entry s 0)]"])
      (use pop(1) sorted s1 num Suc.prems(4) in auto)
  then show ?case using frame_trans [OF pop(2)] num by fastforce
qed

section \<open>All layers\<close>

definition layer_rows :: "('db, 'g) store_ops \<Rightarrow> 'db \<Rightarrow> layerStat \<Rightarrow> bool" where
  "layer_rows ops db s \<longleftrightarrow> rows_ok ops db (LayerNum s) (StartTime s) (entries s (ring_size s))"

lemma layer_rows_frame:
  "\<forall>s\<in>set ls. layer_rows ops db s \<Longrightarrow> frame ops K db db' \<Longrightarrow> LayerNum ` set ls \<inter> K = {} \<Longrightarrow>
   \<forall>s\<in>set ls. layer_rows ops db' s"
  using frame_rows unfolding layer_rows_def by (metis disjoint_iff image_eqI)

text \<open>The write at the end of \<open>Append\<close>, to a ring with \<open>n\<close> entries and room.\<close>

lemma append_put:
  assumes "db_laws ops" and "ring_ok s n" and "n < Len s" and "rows_ok ops db (LayerNum s) (StartTime s) (entries s n)"
    and "\<forall>u\<in>set (StartTime s # map fst (entries s n)). u < t" and "ring_put s axis t = Some s'"
  shows "layer_rows ops (fst (InsertLastAxisToDb ops db s axis t)) s'"
    and "frame ops {LayerNum s'} db (fst (InsertLastAxisToDb ops db s axis t))" and "LayerNum s' = LayerNum s"
proof -
  obtain s1 where s1: "ring_put s axis t = Some s1" "ring_ok s1 (Suc n)" "\<not> Empty s1" "StartTime s1 = StartTime s"
    "entries s1 (Suc n) = entries s n @ [(t, axis)]" "same_conf s s1" using ring_put_ok [OF assms(2,3)] by blast
  have "ring_size s1 = Suc n" using s1(2,3) by (intro ring_size_eq) simp_all
  then show "layer_rows ops (fst (InsertLastAxisToDb ops db s axis t)) s'"
    "frame ops {LayerNum s'} db (fst (InsertLastAxisToDb ops db s axis t))" "LayerNum s' = LayerNum s"
    using s1 assms(6) rows_put [OF assms(1,4,5), of axis] by (simp_all add: layer_rows_def same_conf_def)
qed

lemma sorted_tail_below:
  assumes "sorted_wrt (<) (start # map fst items)" and "last (start # map fst items) < t"
  shows "\<forall>u\<in>set (start # map fst items). u < (t :: int)"
  using sorted_wrt_last_max [OF assms(1)] assms(2) by fastforce

lemma layer_Append_rows:
  assumes "db_laws ops" and "\<forall>s\<in>set ls. layer_ok s" and "q_inv (map abs_layer ls)" and "EndTime (hd ls) < t"
    and "distinct (map LayerNum ls)" and "\<forall>s\<in>set ls. layer_rows ops db s"
    and "layer_Append ops strategy labeler ls db axis t = Some (db', ls')"
  shows "(\<forall>s\<in>set ls'. layer_rows ops db' s) \<and> frame ops (LayerNum ` set ls) db db' \<and> map LayerNum ls' = map LayerNum ls"
  using assms(2-7)
proof (induction ls arbitrary: db axis t db' ls')
  case Nil
  then show ?case by simp
next
  case (Cons s rest)
  let ?n = "ring_size s"
  have ok: "layer_ok s" "ring_ok s ?n" "Ratio s \<le> Len s" "EndTime s < t" using Cons.prems by (simp_all add: layer_ok_def)
  have rows: "rows_ok ops db (LayerNum s) (StartTime s) (entries s ?n)" using Cons.prems(5) by (simp add: layer_rows_def)
  have sorted: "sorted_wrt (<) (StartTime s # map fst (entries s ?n))"
    using Cons.prems(2) by (simp add: q_inv_def q_sorted_def q_times_def abs_layer_def)
  have last: "last (StartTime s # map fst (entries s ?n)) < t" using ok(2,4) by (simp add: ring_ok_def)
  note full = ring_full [OF ok(1)]
  have dist: "LayerNum s \<notin> LayerNum ` set rest" "distinct (map LayerNum rest)" using Cons.prems(4) by auto
  have other: "\<forall>l\<in>set rest. layer_rows ops db l" using Cons.prems(5) by simp
  consider (room) "?n < Len s" | (drop) "?n = Len s" "rest = []" | (merge) "?n = Len s" "rest \<noteq> []"
    using full(3) by linarith
  then show ?case
  proof cases
    case room
    then have "\<not> (Head s = Tail s \<and> \<not> Empty s)" using full(1) by auto
    then obtain s' where s': "ring_put s axis t = Some s'" "db' = fst (InsertLastAxisToDb ops db s axis t)" "ls' = s' # rest"
      using Cons.prems(6) by (auto simp: Let_def bind_eq_Some_conv)
    note put = append_put [OF assms(1) ok(2) room rows sorted_tail_below [OF sorted last] s'(1)]
    have "\<forall>l\<in>set rest. layer_rows ops db' l"
      using layer_rows_frame [OF other put(2)] dist(1) put(3) s'(2) by auto
    then show ?thesis using put s'(2,3) frame_mono [OF put(2), of "LayerNum ` set (s # rest)"] by simp
  next
    case drop
    obtain n where n: "?n = Suc n" using drop(1) full(2) gr0_implies_Suc by metis
    let ?db1 = "fst (DeleteFirstAxisFromDb ops db s)"
    obtain s1 where s1: "pop_first ops db s = Some (?db1, s1, snd (entry s 0))"
      "ring_ok s1 n" "StartTime s1 = fst (entry s 0)" "entries s ?n = entry s 0 # entries s1 n" "same_conf s s1"
      using pop_first_ok [of s n ops db] ok(2) unfolding n by blast
    have num: "LayerNum s1 = LayerNum s" and room: "n < Len s1" using s1(5) n drop(1) by (auto simp: same_conf_def)
    obtain s' where s': "ring_put s1 axis t = Some s'" "db' = fst (InsertLastAxisToDb ops ?db1 s1 axis t)" "ls' = [s']"
      using Cons.prems(6) full(1) drop s1(1) by (auto simp: Let_def layer_Reduce_def bind_eq_Some_conv)
    note pop = rows_pop [OF assms(1) rows [unfolded s1(4)] sorted [unfolded s1(4)]]
    have rows1: "rows_ok ops ?db1 (LayerNum s1) (StartTime s1) (entries s1 n)" using pop(1) s1(3) num by simp
    have "sorted_wrt (<) (StartTime s1 # map fst (entries s1 n))" "last (StartTime s1 # map fst (entries s1 n)) < t"
      using sorted last s1(3) unfolding s1(4) by simp_all
    note put = append_put [OF assms(1) s1(2) room rows1 sorted_tail_below [OF this] s'(1)]
    have "frame ops {LayerNum s} db db'" using frame_trans [OF pop(2) put(2)] put(3) num s'(2) by simp
    then show ?thesis using put s' num drop(2) by simp
  next
    case merge
    define r where "r = Ratio s"
    have r: "0 < r" using Cons.prems(2) merge(2) by (simp add: q_inv_def q_config_def abs_layer_def r_def)
    obtain n where n: "?n = r + n" using merge(1) ok(3) unfolding r_def by (metis le_add_diff_inverse)
    obtain db1 s1 ts axes where s1: "reduce_take ops r db s [StartTime s] [] = Some (db1, s1, ts, axes)"
      "ring_ok s1 n" "entries s1 n = drop r (entries s ?n)" "same_conf s s1"
      "StartTime s1 = last (StartTime s # map fst (take r (entries s ?n)))"
      using reduce_take_ok [of s r n ops db "[StartTime s]" "[]"] ok(2) unfolding n by blast
    have num: "LayerNum s1 = LayerNum s" and room: "n < Len s1" using s1(4) n r merge(1) by (auto simp: same_conf_def)
    obtain a db2 rest' s' where s': "layer_Append ops strategy labeler rest db1 a (StartTime s1) = Some (db2, rest')"
      "ring_put s1 axis t = Some s'" "db' = fst (InsertLastAxisToDb ops db2 s1 axis t)" "ls' = s' # rest'"
      using Cons.prems(6) full(1) merge r s1(1) unfolding r_def
      by (auto simp: Let_def layer_Reduce_def bind_eq_Some_conv)
    have take: "rows_ok ops db1 (LayerNum s1) (StartTime s1) (entries s1 n)" "frame ops {LayerNum s} db db1"
      using rows_take [OF assms(1) _ _ _ s1(1), of n] ok(2) rows sorted unfolding n by simp_all
    have cut: "StartTime s # map fst (entries s ?n)
        = butlast (StartTime s # map fst (take r (entries s ?n))) @ StartTime s1 # map fst (entries s1 n)"
      unfolding s1(3,5) by (metis append_Cons append_assoc append_butlast_last_id append_take_drop_id
          list.distinct(1) map_append self_append_conv2 append_Nil)
    have sorted1: "sorted_wrt (<) (StartTime s1 # map fst (entries s1 n))" "last (StartTime s1 # map fst (entries s1 n)) < t"
      using sorted last unfolding cut by (auto simp: sorted_wrt_append)
    have start: "StartTime s < StartTime s1"
      using sorted r n unfolding cut by (cases "take r (entries s ?n)") (auto simp: sorted_wrt_append simp flip: length_0_conv)
    have inv: "q_inv (map abs_layer rest)" "EndTime (hd rest) < StartTime s1"
    proof -
      show "q_inv (map abs_layer rest)" using Cons.prems(2) merge(2) by (auto simp: q_inv_def q_config_def q_chain_Cons)
      have "last (q_times (abs_layer (hd rest))) = StartTime s"
        using Cons.prems(2) merge(2) by (simp add: q_inv_def q_chain_Cons hd_map) (simp add: abs_layer_def)
      moreover have "layer_ok (hd rest)" using Cons.prems(1) merge(2) by simp
      ultimately show "EndTime (hd rest) < StartTime s1"
        using start by (simp add: layer_ok_def ring_ok_def q_times_def abs_layer_def)
    qed
    have other1: "\<forall>l\<in>set rest. layer_rows ops db1 l" using layer_rows_frame [OF other take(2)] dist(1) by auto
    from Cons.IH [OF _ inv dist(2) other1 s'(1)] Cons.prems(1)
    have IH: "\<forall>l\<in>set rest'. layer_rows ops db2 l" "frame ops (LayerNum ` set rest) db1 db2"
      "map LayerNum rest' = map LayerNum rest" by simp_all
    have rows2: "rows_ok ops db2 (LayerNum s1) (StartTime s1) (entries s1 n)"
      using frame_rows [OF IH(2) _ take(1)] dist(1) num by simp
    note put = append_put [OF assms(1) s1(2) room rows2 sorted_tail_below [OF sorted1] s'(2)]
    have "LayerNum ` set rest' = LayerNum ` set rest" using arg_cong [OF IH(3), of set] by simp
    then have "\<forall>l\<in>set rest'. layer_rows ops db' l"
      using layer_rows_frame [OF IH(1) put(2)] dist(1) put(3) num s'(3) by simp
    moreover have "frame ops (LayerNum ` set (s # rest)) db db'"
      using frame_trans [OF frame_trans [OF take(2) IH(2)] put(2)] put(3) num s'(3) by simp
    ultimately show ?thesis using put s'(3,4) IH(3) num by simp
  qed
qed

section \<open>Restore\<close>

definition same_items :: "(int \<times> Axis) list \<Rightarrow> (int \<times> Axis) list \<Rightarrow> bool" where
  "same_items = list_all2 (\<lambda>e e'. fst e = fst e' \<and> same_axis (snd e) (snd e'))"

text \<open>A restored layer has the queue of the layer before the restart, up to the addresses of its keys.\<close>

definition restored :: "layerStat \<Rightarrow> layerStat \<Rightarrow> bool" where
  "restored l' l \<longleftrightarrow> layer_ok l' \<and> same_conf l l' \<and> StartTime l' = StartTime l \<and> EndTime l' = EndTime l \<and>
     same_items (q_items (abs_layer l')) (q_items (abs_layer l))"

lemma same_axis_saved: "same_axis a b \<Longrightarrow> map sval ks = map sval (Keys a) \<Longrightarrow> same_axis (a\<lparr>Keys := ks\<rparr>) b"
  by (simp add: same_axis_def)

lemma load_models_ok:
  assumes "list_all2 (row_is ops) ms items" and "i + length ms \<le> length (RingTimes s)"
    and "length (RingAxes s) = length (RingTimes s)" and "km_ok km"
  shows "\<exists>rt ra km'. load_models ops i ms s km = Some (s\<lparr>RingTimes := rt, RingAxes := ra\<rparr>, km', False) \<and> km_ok km' \<and>
    length rt = length (RingTimes s) \<and> length ra = length (RingTimes s) \<and>
    (\<forall>k<i. rt ! k = RingTimes s ! k \<and> ra ! k = RingAxes s ! k) \<and>
    (\<forall>j<length ms. rt ! (i + j) = fst (items ! j) \<and> same_axis (ra ! (i + j)) (snd (items ! j)))"
  using assms
proof (induction ms arbitrary: items i s km)
  case Nil
  then show ?case by (intro exI [of _ "RingTimes s"] exI [of _ "RingAxes s"]) simp
next
  case (Cons m ms)
  obtain e items' where items: "items = e # items'" "row_is ops m e" "list_all2 (row_is ops) ms items'"
    using Cons.prems(1) by (auto simp: list_all2_Cons1)
  obtain axis where axis: "gob_Decode ops (am_Axis m) = Some axis" "same_axis axis (snd e)" "am_Time m = fst e"
    using items(2) by (auto simp: row_is_def)
  obtain km1 ks where sk: "SaveKeys km (Keys axis) = (km1, ks)" by fastforce
  have km1: "km_ok km1" "map sval ks = map sval (Keys axis)" using SaveKeys_props [OF Cons.prems(4) sk] by simp_all
  let ?a = "axis\<lparr>Keys := ks\<rparr>"
  let ?s = "s\<lparr>RingTimes := (RingTimes s)[i := fst e], RingAxes := (RingAxes s)[i := ?a]\<rparr>"
  have i: "i < length (RingTimes s)" "i < length (RingAxes s)" using Cons.prems(2,3) by auto
  obtain rt ra km' where IH: "load_models ops (i + 1) ms ?s km1 = Some (?s\<lparr>RingTimes := rt, RingAxes := ra\<rparr>, km', False)"
    "km_ok km'" "length rt = length (RingTimes s)" "length ra = length (RingTimes s)"
    "\<forall>k<i + 1. rt ! k = RingTimes ?s ! k \<and> ra ! k = RingAxes ?s ! k"
    "\<forall>j<length ms. rt ! (i + 1 + j) = fst (items' ! j) \<and> same_axis (ra ! (i + 1 + j)) (snd (items' ! j))"
    using Cons.IH [OF items(3), of "i + 1" ?s km1] Cons.prems(2,3) km1(1) by auto
  have at_i: "rt ! i = fst e" "ra ! i = ?a" using IH(5) i by simp_all
  have "same_axis ?a (snd e)" using same_axis_saved [OF axis(2) km1(2)] .
  then have "\<forall>j<length (m # ms). rt ! (i + j) = fst (items ! j) \<and> same_axis (ra ! (i + j)) (snd (items ! j))"
    using at_i IH(6) items(1) by (auto simp: less_Suc_eq_0_disj)
  moreover have "load_models ops i (m # ms) s km = Some (s\<lparr>RingTimes := rt, RingAxes := ra\<rparr>, km', False)"
    using IH(1) axis sk i by (simp add: UnmarshalAxis_def)
  moreover have "\<forall>k<i. rt ! k = RingTimes s ! k \<and> ra ! k = RingAxes s ! k" using IH(5) by auto
  ultimately show ?case using IH(2-4) by blast
qed

lemma restore_layer_ok:
  assumes rows: "db_FindByTime ops db k = Some models" and ok: "rows_ok ops db k (StartTime l) (q_items (abs_layer l))"
    and l: "layer_ok l" and s: "s = newLayerStat k \<lparr>lc_Len = Len l, lc_Ratio = Ratio l\<rparr> now" "LayerNum l = k"
    and km: "km_ok km"
  shows "\<exists>l' km'. restore_layer ops models db (if length models > 1 then s\<lparr>Empty := False\<rparr> else s) km
      = Some (db, l', km', False) \<and> restored l' l \<and> km_ok km'"
proof -
  let ?items = "q_items (abs_layer l)" and ?n = "ring_size l"
  let ?s = "if length models > 1 then s\<lparr>Empty := False\<rparr> else s"
  obtain m ms where models: "models = m # ms" "am_Time m = StartTime l" "list_all2 (row_is ops) ms ?items"
    using ok rows by (auto simp: rows_ok_def)
  have n: "length ms = ?n" using list_all2_lengthD [OF models(3)] by (simp add: abs_layer_def)
  have len: "0 < Len l" "?n \<le> Len l" "Ratio l \<le> Len l" using ring_full [OF l] l by (simp_all add: layer_ok_def)
  define last where "last = am_Time (models ! ?n)"
  have "map am_Time (m # ms) = q_times (abs_layer l)"
    using models(2) rows_times [OF models(3)] by (simp add: q_times_def abs_layer_def)
  then have "last = q_times (abs_layer l) ! ?n" using models(1) n by (metis last_def length_Cons less_Suc_eq nth_map)
  moreover have "List.last (q_times (abs_layer l)) = q_times (abs_layer l) ! ?n"
    by (subst last_conv_nth) (simp_all add: q_times_def abs_layer_def)
  ultimately have last: "last = EndTime l"
    using l by (simp add: layer_ok_def ring_ok_def q_times_def abs_layer_def)
  let ?s1 = "?s\<lparr>StartTime := StartTime l, Head := 0, EndTime := last, Tail := ?n mod Len l\<rparr>"
  have fs: "Len ?s = Len l" "length (RingTimes ?s1) = Len l" "length (RingAxes ?s1) = Len l" "Ratio ?s = Ratio l"
    "LayerNum ?s = k" "Empty ?s \<longleftrightarrow> ?n = 0" using s n models(1) by (auto simp: newLayerStat_def)
  obtain rt ra km' where load: "load_models ops 0 ms ?s1 km = Some (?s1\<lparr>RingTimes := rt, RingAxes := ra\<rparr>, km', False)"
    "km_ok km'" "length rt = Len l" "length ra = Len l"
    "\<forall>j<length ms. rt ! j = fst (?items ! j) \<and> same_axis (ra ! j) (snd (?items ! j))"
    using load_models_ok [OF models(3), of 0 ?s1 km] fs n len(2) km by (auto simp: newLayerStat_def s)
  let ?l' = "?s1\<lparr>RingTimes := rt, RingAxes := ra\<rparr>"
  have "restore_layer ops models db ?s km = Some (db, ?l', km', False)"
    using models(1) n len fs load(1) last_def models(2) by (simp add: restore_layer_def Let_def if_distrib [of Len])
  moreover have e: "entry ?l' i = (rt ! i, ra ! i)" if "i < ?n" for i
    using that len fs by (simp add: entry_def)
  then have items: "same_items (entries ?l' ?n) ?items"
    using load(5) n by (auto simp: same_items_def list_all2_conv_all_nth abs_layer_def)
  then have times: "map fst (entries ?l' ?n) = map fst ?items"
    unfolding same_items_def by (induction rule: list_all2_induct) auto
  have "EndTime l = List.last (StartTime l # map fst ?items)"
    using l by (simp add: layer_ok_def ring_ok_def abs_layer_def)
  then have ring: "ring_ok ?l' ?n" using times last fs load(3,4) len by (simp add: ring_ok_def)
  moreover have "Empty ?l' \<longleftrightarrow> ?n = 0" using fs(6) by simp
  ultimately have size: "ring_size ?l' = ?n" by (intro ring_size_eq)
  have "layer_ok ?l'" using ring size fs len(3) by (simp add: layer_ok_def)
  moreover have "same_items (q_items (abs_layer ?l')) ?items" using items size by (simp add: abs_layer_def)
  moreover have "same_conf l ?l'" using fs s(2) by (simp add: same_conf_def)
  ultimately have "restored ?l' l" using last by (simp add: restored_def)
  then show ?thesis using \<open>restore_layer _ _ _ _ _ = _\<close> load(2) by blast
qed


text \<open>The table that belongs to a chain of layers.\<close>

definition persisted :: "('db, 'g) store_ops \<Rightarrow> 'db \<Rightarrow> layerStat list \<Rightarrow> bool" where
  "persisted ops db ls \<longleftrightarrow> (\<forall>s\<in>set ls. layer_rows ops db s) \<and>
     map LayerNum ls = map of_nat [0..<length ls] \<and> length ls < 256 \<and>
     (\<forall>n. n \<notin> LayerNum ` set ls \<longrightarrow> db_FindByTime ops db n = Some [])"

lemma persisted_distinct:
  assumes "persisted ops db ls"
  shows "distinct (map LayerNum ls)"
proof -
  have "inj_on (of_nat :: nat \<Rightarrow> 8 word) (set [0..<length ls])"
    using assms by (auto simp: inj_on_def persisted_def of_nat_eq_iff word_of_nat_eq_iff take_bit_eq_mod)
  then show ?thesis using assms by (simp add: persisted_def distinct_map)
qed

lemma layer_index:
  assumes "length ls < 256" and "i < 256"
  shows "(of_nat (length ls) :: 8 word) \<le> of_nat i \<longleftrightarrow> length ls \<le> i" and "unat (of_nat i :: 8 word) = i"
  using assms by (simp_all add: word_le_nat_alt unat_of_nat)

definition fresh_layer :: "int \<Rightarrow> nat \<Rightarrow> layerStat \<Rightarrow> layerStat" where
  "fresh_layer now i l = newLayerStat (of_nat i) \<lparr>lc_Len = Len l, lc_Ratio = Ratio l\<rparr> now"

lemma restore_loop_ok:
  assumes "persisted ops db ls" and "\<forall>l\<in>set ls. layer_ok l" and "ls \<noteq> []" and "q_items (abs_layer (hd ls)) \<noteq> []"
    and "stat_db s = db" and "km_ok (keyMap s)" and "length (layers s) = length ls" and "i \<le> length ls"
    and "\<forall>j<i. restored (layers s ! j) (ls ! j)"
    and "\<forall>j<length ls. i \<le> j \<longrightarrow> layers s ! j = fresh_layer now j (ls ! j)"
    and "length ls - i < fuel"
  shows "\<exists>s'. restore_loop fuel ops (of_nat i) s = Some (s', False) \<and> stat_db s' = db \<and> km_ok (keyMap s') \<and>
    list_all2 restored (layers s') ls"
  using assms(5-)
proof (induction "length ls - i" arbitrary: i s fuel)
  case 0
  then obtain f where f: "fuel = Suc f" by (cases fuel) auto
  have i: "i = length ls" using 0 by simp
  have "(of_nat i :: 8 word) \<notin> LayerNum ` set ls"
  proof
    assume "(of_nat i :: 8 word) \<in> LayerNum ` set ls"
    then have "(of_nat i :: 8 word) \<in> of_nat ` {0..<length ls}"
      using assms(1) unfolding persisted_def by (metis list.set_map set_upt)
    then obtain j where "(of_nat i :: 8 word) = of_nat j" "j < length ls" by auto
    then have "i = j" using layer_index(2) [OF _, of ls i] layer_index(2) [OF _, of ls j] i assms(1)
      unfolding persisted_def by (metis less_trans)
    with \<open>j < length ls\<close> i show False by simp
  qed
  then have "db_FindByTime ops (stat_db s) (of_nat i) = Some []" using assms(1) 0 by (simp add: persisted_def)
  moreover have "list_all2 restored (layers s) ls" using 0 i by (simp add: list_all2_conv_all_nth)
  ultimately show ?case using f 0 by simp
next
  case (Suc d)
  then obtain f where f: "fuel = Suc f" by (cases fuel) auto
  have i: "i < length ls" and i256: "i < 256" and ls256: "length ls < 256"
    using Suc.hyps(2) assms(1) by (auto simp: persisted_def)
  let ?l = "ls ! i" and ?k = "of_nat i :: 8 word"
  have l: "layer_ok ?l" "layer_rows ops db ?l" using assms(1,2) i by (auto simp: persisted_def)
  have num: "LayerNum ?l = ?k"
    using assms(1) i unfolding persisted_def by (metis add.left_neutral diff_zero length_upt nth_map nth_upt)
  have rows: "rows_ok ops db ?k (StartTime ?l) (q_items (abs_layer ?l))"
    using l(2) num by (simp add: layer_rows_def abs_layer_def)
  then obtain m ms where models: "db_FindByTime ops db ?k = Some (m # ms)" "list_all2 (row_is ops) ms (q_items (abs_layer ?l))"
    by (auto simp: rows_ok_def)
  have go: "length (m # ms) > 1 \<or> ?k \<noteq> 0"
  proof (cases "i = 0")
    case True
    then show ?thesis using assms(3,4) models(2) by (cases ls) auto
  next
    case False
    then show ?thesis using layer_index(2) [OF ls256 i256] by auto
  qed
  have s: "layers s ! i = newLayerStat ?k \<lparr>lc_Len = Len ?l, lc_Ratio = Ratio ?l\<rparr> now"
    using Suc.prems(6) i by (simp add: fresh_layer_def)
  obtain l' km' where r: "restore_layer ops (m # ms) db
      (if length (m # ms) > 1 then (layers s ! i)\<lparr>Empty := False\<rparr> else layers s ! i) (keyMap s)
      = Some (db, l', km', False)" "restored l' ?l" "km_ok km'"
    using restore_layer_ok [OF models(1) rows l(1) s num Suc.prems(2)] by blast
  let ?s = "s\<lparr>layers := (layers s)[i := l'], keyMap := km', stat_db := db\<rparr>"
  have "restore_loop fuel ops ?k s = restore_loop f ops (of_nat (Suc i)) ?s"
    using f models(1) Suc.prems(1,3) i layer_index [OF ls256 i256] go r(1) by (simp add: add.commute)
  moreover have "\<exists>s'. restore_loop f ops (of_nat (Suc i)) ?s = Some (s', False) \<and> stat_db s' = db \<and>
      km_ok (keyMap s') \<and> list_all2 restored (layers s') ls"
  proof (rule Suc.hyps(1))
    show "d = length ls - Suc i" using Suc.hyps(2) by simp
    show "\<forall>j<Suc i. restored (layers ?s ! j) (ls ! j)"
      using Suc.prems(3,5) r(2) i by (auto simp: nth_list_update less_Suc_eq)
    show "\<forall>j<length ls. Suc i \<le> j \<longrightarrow> layers ?s ! j = fresh_layer now j (ls ! j)" using Suc.prems(6) by simp
    show "length ls - Suc i < f" using Suc.prems(7) f i by simp
  qed (use Suc.prems r(3) i in simp_all)
  ultimately show ?case by simp
qed

text \<open>
  C2: the table and the rings agree. For a database that keeps its documented behaviour,
  appending to layers whose rows are in step with their rings leaves them in step, and a
  restart with the same configuration restores from the table the same queues: every start
  and end time, every entry's time and every axis's contents.
\<close>

theorem Append_Restore_roundtrip:
  assumes "db_laws ops" and "\<forall>s\<in>set ls. layer_ok s" and "q_inv (map abs_layer ls)" and "EndTime (hd ls) < t"
    and "persisted ops db ls" and "layer_Append ops strategy labeler ls db axis t = Some (db', ls')"
    and "db_HasTable ops db'" and "length ls < fuel"
  shows "persisted ops db' ls' \<and>
    (\<exists>s'. Restore fuel ops (NewStat db' (map (\<lambda>l. \<lparr>lc_Len = Len l, lc_Ratio = Ratio l\<rparr>) ls) now) = Some (s', False) \<and>
       list_all2 restored (layers s') ls')"
proof -
  note rows = layer_Append_rows [OF assms(1-4) persisted_distinct [OF assms(5)] _ assms(6)]
  have r: "\<forall>s\<in>set ls'. layer_rows ops db' s" "frame ops (LayerNum ` set ls) db db'" "map LayerNum ls' = map LayerNum ls"
    using rows assms(5) by (auto simp: persisted_def)
  have len: "length ls' = length ls" using arg_cong [OF r(3), of length] by simp
  have "LayerNum ` set ls' = LayerNum ` set ls" using arg_cong [OF r(3), of set] by simp
  then have p: "persisted ops db' ls'" using r len assms(5) by (simp add: persisted_def frame_def)
  have refine: "\<forall>s\<in>set ls'. layer_ok s" "list_all2 same_conf ls ls'"
    "q_append (reduce_axis strategy labeler) (map abs_layer ls) axis t = Some (map abs_layer ls')"
    using layer_Append_refines [OF assms(2), where strategy = strategy and labeler = labeler and ops = ops
      and db = db and axis = axis and t = t] assms(6) by (auto split: option.splits)
  have ne: "ls' \<noteq> []" using assms(3) len by (auto simp: q_inv_def)
  have "q_items (abs_layer (hd ls')) \<noteq> []"
  proof -
    have "q_append (reduce_axis strategy labeler) qs axis t = Some qs' \<Longrightarrow> q_items (hd qs') \<noteq> []" for qs qs'
      by (cases qs) (auto simp: Let_def bind_eq_Some_conv split: if_splits)
    from this [OF refine(3)] ne show ?thesis by (simp add: hd_map)
  qed
  moreover define s0 where "s0 = NewStat db' (map (\<lambda>l. \<lparr>lc_Len = Len l, lc_Ratio = Ratio l\<rparr>) ls) now"
  have s0: "stat_db s0 = db'" "keyMap s0 = Map.empty" "length (layers s0) = length ls'"
    by (simp_all add: s0_def NewStat_def len)
  have "\<forall>j<length ls'. layers s0 ! j = fresh_layer now j (ls' ! j)"
    using refine(2) len by (auto simp: s0_def NewStat_def fresh_layer_def list_all2_conv_all_nth same_conf_def)
  ultimately obtain s' where "restore_loop fuel ops (of_nat 0) s0 = Some (s', False)" "list_all2 restored (layers s') ls'"
    using restore_loop_ok [OF p refine(1) ne, of s0 0 now fuel] s0 assms(8) len by auto
  moreover have "Restore fuel ops s0 = restore_loop fuel ops 0 s0"
    using assms(7) by (simp add: Restore_def CreateTableAxisModelIfNotExists_def s0_def NewStat_def)
  ultimately show ?thesis using p by (simp add: s0_def)
qed


section \<open>A concrete table\<close>

definition list_ops :: "(Axis AxisModel list, Axis) store_ops" where
  "list_ops = \<lparr>gob_Encode = Some, gob_Decode = Some, db_HasTable = (\<lambda>_. True),
     db_CreateTable = (\<lambda>db. (db, False)), db_Create = (\<lambda>db m. (m # db, False)),
     db_DeleteTime = (\<lambda>db k t. (filter (\<lambda>m. \<not> (am_LayerNum m = k \<and> am_Time m = t)) db, False)),
     db_DeleteLayer = (\<lambda>db k. (filter (\<lambda>m. am_LayerNum m \<noteq> k) db, False)),
     db_DeleteAll = (\<lambda>db. ([], False)),
     db_FindByTime = (\<lambda>db k. Some (sort_key am_Time (filter (\<lambda>m. am_LayerNum m = k) db)))\<rparr>"

lemma list_ops_laws: "db_laws list_ops"
proof -
  have "filter (\<lambda>m. am_LayerNum m = n \<and> \<not> (am_LayerNum m = k \<and> am_Time m = t)) db
      = (if n = k then filter (\<lambda>m. am_Time m \<noteq> t) (filter (\<lambda>m. am_LayerNum m = n) db)
         else filter (\<lambda>m. am_LayerNum m = n) db)" for n k :: "8 word" and t and db :: "Axis AxisModel list"
    by (auto intro!: filter_cong)
  then show ?thesis
    by (auto simp: db_laws_def list_ops_def same_axis_def filter_sort conj_commute)
qed

definition demo_rows :: "Axis AxisModel list" where
  "demo_rows = [\<lparr>am_LayerNum = 0, am_Time = 10, am_Axis = axis_nil\<rparr>, \<lparr>am_LayerNum = 1, am_Time = 10, am_Axis = axis_nil\<rparr>]"

lemma demo_persisted: "persisted list_ops demo_rows (layers (NewStat db demo_config 10))"
  by (auto simp: persisted_def layer_rows_def rows_ok_def list_ops_def demo_rows_def NewStat_def demo_config_def
      newLayerStat_def ring_size_def entries_def upt_rec)

theorem Append_Restore_roundtrip_witness:
  "\<exists>db' ls' s'. layer_Append list_ops AverageSplitStrategy naive_NewLabeler (layers (NewStat demo_rows demo_config 10))
      demo_rows demo_axis 20 = Some (db', ls') \<and>
    Restore 3 list_ops (NewStat db' demo_config 99) = Some (s', False) \<and> list_all2 restored (layers s') ls'"
proof -
  let ?ls = "layers (NewStat demo_rows demo_config 10)"
  have ok: "\<forall>s\<in>set ?ls. layer_ok s" by (rule NewStat_ok [OF demo_config_ok])
  have inv: "q_inv (map abs_layer ?ls)"
    by (rule NewStat_inv) (use demo_config_ok in \<open>auto simp: demo_config_def\<close>)
  have e: "EndTime (hd ?ls) < 20" "length ?ls < 3" "map (\<lambda>l. \<lparr>lc_Len = Len l, lc_Ratio = Ratio l\<rparr>) ?ls = demo_config"
    by (simp_all add: NewStat_def demo_config_def newLayerStat_def upt_rec)
  obtain db' ls' where a: "layer_Append list_ops AverageSplitStrategy naive_NewLabeler ?ls demo_rows demo_axis 20 = Some (db', ls')"
    by (simp add: NewStat_def demo_config_def newLayerStat_def upt_rec ring_put_def Let_def)
  have h: "db_HasTable list_ops db'" by (simp add: list_ops_def)
  from Append_Restore_roundtrip [OF list_ops_laws ok inv e(1) demo_persisted a h e(2), of 99] a e(3)
  show ?thesis by auto
qed

end
