(* ===== verification/PixelProps.thy ===== *)
theory PixelProps
  imports PlaneProps
begin

text \<open>
  Pixelation for any split strategy and labeler, and its instances for the strategies and
  labelers of the source.
\<close>

lemma Clear_zero: "Clear (zero_chunk keys) = zero_chunk keys"
  by (simp add: Clear_def zero_chunk_def MemsetUint64_eq)

lemma fold_update:
  "map_of (fold (\<lambda>(tag, data). AList.update tag data) ps al) = map_of al ++ map_of (rev ps)"
proof (induction ps arbitrary: al)
  case (Cons p ps)
  obtain k v where p: "p = (k, v)" by fastforce
  show ?case
    unfolding p fold.simps comp_apply Cons.IH prod.case update_conv' upd_map_of ..
qed simp

locale pixel_contract = split_contract strategy + labeler_contract "Label labeler"
  for strategy :: SplitStrategy and labeler :: Labeler
begin

lemma pixel_column_ok:
  assumes "plane_ok pl" and "i < length (Axes pl)" and "j < length (ValuesList (hd (Axes pl)))"
    and "ckeys cc = compact_keys_list (map base_column (Axes pl))"
    and "strategy (map base_column (Axes pl)) (ckeys cc) = Some splitter"
    and "cuts ps (length (ckeys cc) - 1)"
  shows "\<exists>vs. pixel_column splitter (ckeys cc) (map ((!) (ckeys cc)) ps) j
      (i, base_column (Axes pl ! i), Axes pl ! i) = Some vs \<and> length vs + 1 = length ps"
proof -
  let ?CK = "ckeys cc" and ?axis = "Axes pl ! i" and ?chunks = "map base_column (Axes pl)"
  have ok: "chunks_ok ?chunks" using assms(1) by (simp add: plane_ok_def)
  note C = compact_unfold [OF ok, folded assms(4)]
  note col = plane_ok_columns [OF assms(1-3)]
  define src where "src = \<lparr>ckeys = Keys ?axis, cvalues = ValuesList ?axis ! j\<rparr>"
  have src: "chunk_ok src" using col by (simp add: src_def chunk_ok_def base_column_def)
  have zero: "chunk_ok (zero_chunk ?CK)" using C(2) by (rule zero_chunk_ok)
  have parts: "\<forall>c\<in>set ?chunks. part_of (zero_chunk ?CK) c" using C(6) [OF zero] by simp
  obtain new where new: "splitter (zero_chunk ?CK) src splitTo i = Some ((zero_chunk ?CK)\<lparr>cvalues := new\<rparr>)"
    "length new = length ?CK - 1"
    using split_ok [of ?chunks "zero_chunk ?CK" splitter i src splitTo] assms(2,5) parts C(5) src
    by (auto simp: src_def base_column_def)
  let ?dst = "(zero_chunk ?CK)\<lparr>cvalues := new\<rparr>"
  have "chunk_ok ?dst" using zero new(2) by (simp add: chunk_ok_def)
  moreover have "keys_distinct (ckeys ?dst)"
    using axis_keys_distinct [OF C(3)] interned_subset [of "insert empty_str (keys_of ?chunks)"] ok C(4)
    by (auto simp: chunks_ok_def)
  moreover have "cuts ps (length (cvalues ?dst))" using assms(6) new(2) by simp
  ultimately have red: "Reduce ?dst (map ((!) ?CK) ps) = Some (coarsen ?dst ps)"
    using Reduce_coarsen [of ?dst ps] by simp
  have "ps \<noteq> []" using assms(6) by (simp add: cuts_def)
  then have "length (cvalues (coarsen ?dst ps)) + 1 = length ps" by (simp add: coarsen_def)
  moreover have "pixel_column splitter ?CK (map ((!) ?CK) ps) j (i, base_column ?axis, ?axis)
      = Some (cvalues (coarsen ?dst ps))"
    using createZeroChunk_ok [OF C(2)] col new(1) red createChunk_ok [OF src [unfolded src_def]]
    by (simp add: pixel_column_def Clear_zero base_column_def src_def Let_def)
  ultimately show ?thesis by blast
qed

lemma pixel_data_ok:
  assumes "plane_ok pl" and "j < length (ValuesList (hd (Axes pl)))"
    and "ckeys cc = compact_keys_list (map base_column (Axes pl))"
    and "strategy (map base_column (Axes pl)) (ckeys cc) = Some splitter"
    and "cuts ps (length (ckeys cc) - 1)"
  shows "\<exists>data. pixel_data splitter (ckeys cc) (map ((!) (ckeys cc)) ps) (map base_column (Axes pl))
      (Axes pl) j = Some data \<and> length data = length (Axes pl) \<and> (\<forall>col\<in>set data. length col + 1 = length ps)"
proof -
  let ?n = "length (Axes pl)" and ?chunks = "map base_column (Axes pl)"
  have "\<forall>i < ?n. \<exists>vs. pixel_column splitter (ckeys cc) (map ((!) (ckeys cc)) ps) j
      (i, base_column (Axes pl ! i), Axes pl ! i) = Some vs \<and> length vs + 1 = length ps"
    using pixel_column_ok [OF assms(1) _ assms(2-5)] by blast
  then obtain g where g: "\<And>i. i < ?n \<Longrightarrow> pixel_column splitter (ckeys cc) (map ((!) (ckeys cc)) ps) j
      (i, base_column (Axes pl ! i), Axes pl ! i) = Some (g i) \<and> length (g i) + 1 = length ps"
    by metis
  have "those_columns (pixel_column splitter (ckeys cc) (map ((!) (ckeys cc)) ps) j)
      (zip [0..<?n] (zip ?chunks (Axes pl))) = Some (map (g \<circ> fst) (zip [0..<?n] (zip ?chunks (Axes pl))))"
    using g by (intro those_columns_Some) (auto simp: in_set_conv_nth)
  then show ?thesis
    using g unfolding pixel_data_def
    by (intro exI [of _ "map (g \<circ> fst) (zip [0..<?n] (zip ?chunks (Axes pl)))"])
      (auto simp: in_set_conv_nth)
qed

lemma Pixel_ok:
  assumes "plane_ok pl" and "2 \<le> target" and "length tags = length (ValuesList (hd (Axes pl)))"
    and "distinct tags"
    and "\<And>cc splitter. compact strategy (map base_column (Axes pl)) = Some (cc, splitter) \<Longrightarrow>
      nat_sum (cvalues cc) + 1 < 2 ^ 63"
  shows "\<exists>mx. Pixel strategy labeler pl target tags = Some mx \<and>
    length (KeyAxis mx) = length (mx_Keys mx) \<and> length (TimeAxis mx) = length (Times pl) \<and>
    set (mx_Keys mx) \<subseteq> (\<Union>a\<in>set (Axes pl). set (Keys a)) \<and>
    (\<forall>j < length tags. \<exists>data. map_of (DataMap mx) (tags ! j) = Some data \<and>
       length data = length (Axes pl) \<and> (\<forall>col\<in>set data. length col + 1 = length (mx_Keys mx))) \<and>
    (CrossBorder labeler = (\<lambda>_ _. False) \<longrightarrow> int (length (mx_Keys mx)) - 1 \<le> target)"
proof -
  let ?chunks = "map base_column (Axes pl)" and ?n = "length tags"
  have ok: "chunks_ok ?chunks" using assms(1) by (simp add: plane_ok_def)
  then have ne: "Axes pl \<noteq> []" by (simp add: chunks_ok_def)
  obtain cc splitter where C: "compact strategy ?chunks = Some (cc, splitter)" "chunk_ok cc"
    "ckeys cc = compact_keys_list ?chunks" "strategy ?chunks (ckeys cc) = Some splitter"
    using compact_ok [OF ok] by blast
  have sum: "nat_sum (cvalues cc) + 1 < 2 ^ 63" using assms(5) [OF C(1)] .
  have len: "length (cvalues cc) = length (ckeys cc) - 1" using C(2) by (simp add: chunk_ok_def)
  obtain ps where ps: "cuts ps (length (cvalues cc))"
    "Divide (CrossBorder labeler) cc target NotMergeLogicalRange = Some (coarsen cc ps)"
    using Divide_coarsen [OF C(2) assms(2) sum] by blast
  let ?base = "map ((!) (ckeys cc)) ps"
  have base: "ckeys (coarsen cc ps) = ?base" by (simp add: coarsen_def)
  have "ps \<noteq> []" using ps(1) by (simp add: cuts_def)
  then obtain ls where ls: "Label labeler (map sval ?base) = Some ls" "length ls = length ps"
    using label_some [of "map sval ?base"] by auto
  have cuts': "cuts ps (length (ckeys cc) - 1)" using ps(1) len by simp
  have "\<forall>j < ?n. \<exists>data. pixel_data splitter (ckeys cc) ?base ?chunks (Axes pl) j = Some data \<and>
      length data = length (Axes pl) \<and> (\<forall>col\<in>set data. length col + 1 = length ps)"
    using pixel_data_ok [OF assms(1) _ C(3,4) cuts'] assms(3) by simp
  then obtain f where f: "\<And>j. j < ?n \<Longrightarrow> pixel_data splitter (ckeys cc) ?base ?chunks (Axes pl) j = Some (f j) \<and>
      length (f j) = length (Axes pl) \<and> (\<forall>col\<in>set (f j). length col + 1 = length ps)" by metis
  have datas: "those_columns (pixel_data splitter (ckeys cc) ?base ?chunks (Axes pl)) [0..<?n]
      = Some (map f [0..<?n])"
    using f by (intro those_columns_Some) auto
  define mx where "mx = \<lparr>mx_Keys = ?base,
    DataMap = fold (\<lambda>(tag, data). AList.update tag data) (zip tags (map f [0..<?n])) [],
    KeyAxis = ls, TimeAxis = map unix_seconds (Times pl)\<rparr>"
  have "idx (Axes pl) 0 = Some (hd (Axes pl))" using ne by (simp add: hd_conv_nth)
  then have "Pixel strategy labeler pl target tags = Some mx"
    using assms(3) base_chunks [OF assms(1)] C(1) ps(2) ls(1) datas
    by (simp add: Pixel_def base CreateMatrix_def mx_def Let_def)
  moreover have "map_of (DataMap mx) (tags ! j) = Some (f j)" if "j < ?n" for j
  proof -
    let ?ps = "zip tags (map f [0..<?n])"
    have "(tags ! j, f j) \<in> set (rev ?ps)"
      using that by (auto simp: in_set_zip intro!: exI [of _ j])
    moreover have "distinct (map fst (rev ?ps))" using assms(4) by (simp add: rev_map [symmetric])
    ultimately have "map_of (rev ?ps) (tags ! j) = Some (f j)" by (rule map_of_is_SomeI [rotated])
    then show ?thesis by (simp add: mx_def fold_update)
  qed
  moreover have "int (length (mx_Keys mx)) - 1 \<le> target" if "CrossBorder labeler = (\<lambda>_ _. False)"
  proof -
    obtain qs where qs: "Divide (\<lambda>_ _. False) cc target NotMergeLogicalRange = Some (coarsen cc qs)"
      "int (length qs) - 1 \<le> target"
      using Divide_rows [OF C(2) assms(2) sum] by blast
    then have "coarsen cc qs = coarsen cc ps" using ps(2) that by simp
    then have "length (ckeys (coarsen cc qs)) = length (ckeys (coarsen cc ps))" by simp
    then have "length qs = length ps" by (simp add: coarsen_def)
    with qs(2) show ?thesis by (simp add: mx_def)
  qed
  moreover have "set ?base \<subseteq> set (ckeys cc)"
    using cuts_mem [OF cuts'] C(2) by (fastforce simp: chunk_ok_def)
  then have "set (mx_Keys mx) \<subseteq> (\<Union>a\<in>set (Axes pl). set (Keys a))"
    using compact_unfold(4) [OF ok] C(3) by (auto simp: mx_def keys_of_def base_column_def)
  ultimately show ?thesis using f ls(2) by (auto simp: mx_def)
qed

end

end
