(* ===== verification/PlaneInstances.thy ===== *)
theory PlaneInstances
  imports PixelProps
begin

text \<open>
  The strategies and labelers of the source satisfy the interfaces, so the results on
  compaction and pixelation hold for them.
\<close>

lemma part_of_same_keys:
  "part_of dst c \<Longrightarrow> chunk_ok src \<Longrightarrow> ckeys src = ckeys c \<Longrightarrow> part_of dst src"
  by (auto simp: part_of_def part_at_def)

interpretation average: split_contract AverageSplitStrategy
proof
  fix chunks :: "chunk list" and dst src :: chunk and splitter i tag
  assume "AverageSplitStrategy chunks (ckeys dst) = Some splitter" "i < length chunks"
    "\<forall>c\<in>set chunks. part_of dst c" "length (ckeys dst) < 2 ^ 64"
    "ckeys src = ckeys (chunks ! i)" "chunk_ok src"
  moreover from this have "part_of dst src" using part_of_same_keys [of dst "chunks ! i" src] by simp
  moreover from this obtain ps where "part_at dst src ps" by (auto simp: part_of_def)
  ultimately show "\<exists>new. splitter dst src tag i = Some (dst\<lparr>cvalues := new\<rparr>) \<and>
      length new = length (cvalues dst)"
    using average_Split_spread [of dst src ps tag i] by (auto simp: AverageSplitStrategy_def spread_def)
qed (simp add: AverageSplitStrategy_def)

lemma distance_split_ok:
  assumes "part_of dst src" and "axesIndex < length Scale"
    and "\<forall>col\<in>set Scale. length col = length (ckeys dst) - 1"
  shows "\<exists>new. distance_Split F Scale dst src tag axesIndex = Some (dst\<lparr>cvalues := new\<rparr>) \<and>
    length new = length (cvalues dst)"
proof -
  obtain ps where ps: "part_at dst src ps" using assms(1) by (auto simp: part_of_def)
  let ?g = "\<lambda>v s e p. f_to_u64 F (f_mul F (f_of_u64 F v) (Scale ! axesIndex ! p))"
  have bv: "distance_value F Scale axesIndex (cvalues src ! k) (ps ! k) (ps ! Suc k) p
      = Some (?g (cvalues src ! k) (ps ! k) (ps ! Suc k) p)"
    if "Suc k < length ps" "ps ! k \<le> p" "p < ps ! Suc k" for k p
  proof -
    have "ps ! Suc k < length (ckeys dst)" using ps that(1) by (auto simp: part_at_def)
    then show ?thesis using that(3) assms(2,3) by (simp add: distance_value_def)
  qed
  show ?thesis
    using split_with_result [where bv = "distance_value F Scale axesIndex" and g = ?g and tag = tag,
        OF assms(1) ps bv] by (auto simp: distance_Split_def)
qed

interpretation distance: split_contract "distance_NewSplitter F (DistanceSplitStrategy math_Pow ratio level count)"
  for F math_Pow ratio level count
proof
  let ?s = "DistanceSplitStrategy math_Pow ratio level count"
  have s: "pow_ok ?s" by (simp add: pow_ok_def DistanceSplitStrategy_def)
  show "\<exists>splitter. distance_NewSplitter F ?s chunks (ckeys dst) = Some splitter"
    if "chunks \<noteq> []" "\<forall>c\<in>set chunks. part_of dst c" for chunks dst
    using distance_NewSplitter_total [OF that s] by blast
  fix chunks :: "chunk list" and dst src :: chunk and splitter i tag
  assume a: "distance_NewSplitter F ?s chunks (ckeys dst) = Some splitter" "i < length chunks"
    "\<forall>c\<in>set chunks. part_of dst c" "ckeys src = ckeys (chunks ! i)" "chunk_ok src"
  have "chunks \<noteq> []" using a(2) by auto
  then obtain Scale where S: "splitter = distance_Split F Scale" "length Scale = length chunks"
    "\<forall>col\<in>set Scale. length col = length (ckeys dst) - 1"
    using distance_NewSplitter_total [OF _ a(3) s, of F] a(1) by auto
  have "part_of dst src" using part_of_same_keys [of dst "chunks ! i" src] a by simp
  then show "\<exists>new. splitter dst src tag i = Some (dst\<lparr>cvalues := new\<rparr>) \<and>
      length new = length (cvalues dst)"
    using distance_split_ok [of dst src i Scale F tag] S a(2) by simp
qed

lemma Label_NewLabeler [simp]:
  "Label naive_NewLabeler = naive_Label" "Label (separator_NewLabeler sep) = separator_Label sep"
  "Label (tidb_NewLabeler tm) = tidb_Label tm"
  "CrossBorder naive_NewLabeler = naive_CrossBorder"
  "CrossBorder (separator_NewLabeler sep) = separator_CrossBorder"
  "CrossBorder (tidb_NewLabeler tm) = tidb_CrossBorder"
  by (simp_all add: naive_NewLabeler_def separator_NewLabeler_def tidb_NewLabeler_def)

interpretation average_naive: pixel_contract AverageSplitStrategy naive_NewLabeler
  by unfold_locales (simp_all add: naive.label_total naive.label_length)

interpretation distance_tidb: pixel_contract
  "distance_NewSplitter F (DistanceSplitStrategy math_Pow ratio level count)" "tidb_NewLabeler tm"
  for F math_Pow ratio level count tm
  by unfold_locales (simp_all add: tidb.label_total tidb.label_length)

interpretation distance_separator: pixel_contract
  "distance_NewSplitter F (DistanceSplitStrategy math_Pow ratio level count)" "separator_NewLabeler sep"
  for F math_Pow ratio level count sep
  by unfold_locales (simp_all add: separator.label_total separator.label_length)

section \<open>A concrete plane\<close>

definition nat_floats :: "nat floats" where
  "nat_floats = \<lparr>f_zero = 0, f_one = 1, f_add = (+), f_mul = (*), f_div = (div),
     f_of_u64 = unat, f_to_u64 = of_nat\<rparr>"

definition demo_strategy2 :: "nat distanceSplitStrategy" where
  "demo_strategy2 = DistanceSplitStrategy (\<lambda>x i. x ^ i) 1 2 2"

definition demo_plane :: Plane where
  "demo_plane = \<lparr>Times = [0, 1000000000, 2000000000], Axes =
     [\<lparr>Keys = [GoStr 1 ''a'', GoStr 2 ''c'', GoStr 4 ''e''], ValuesList = [[1, 2], [3, 4]]\<rparr>,
      \<lparr>Keys = [GoStr 1 ''a'', GoStr 3 ''d'', GoStr 4 ''e''], ValuesList = [[5, 6], [7, 8]]\<rparr>]\<rparr>"

lemma demo_plane_ok: "plane_ok demo_plane"
  by (simp add: plane_ok_def demo_plane_def chunks_ok_def keys_of_def base_column_def
      chunk_axis_ok_def chunk_ok_def axis_keys_ok_def axis_ok_def less_char_def interned_def
      equal_def empty_str_def)

lemma demo_compact:
  "map_option (\<lambda>(cc, s). nat_sum (cvalues cc)) (compact (distance_NewSplitter nat_floats demo_strategy2)
     (map base_column (Axes demo_plane))) = Some 7"
  by code_simp

section \<open>The properties of the program's strategy\<close>

text \<open>
  C38: \<open>Compact\<close> with the distance strategy never panics on a well-formed plane with interned
  keys, whatever the float arithmetic, and returns a well-formed axis with exactly the keys
  of the plane's axes and as many columns.
\<close>

theorem Compact_distance:
  assumes "plane_ok pl"
  shows "\<exists>axis. Compact (distance_NewSplitter F (DistanceSplitStrategy math_Pow ratio level count)) pl
      = Some axis \<and> axis_ok axis \<and> axis_keys_ok (Keys axis) \<and>
    set (Keys axis) = (\<Union>a\<in>set (Axes pl). set (Keys a)) \<and>
    length (ValuesList axis) = length (ValuesList (hd (Axes pl)))"
  by (rule distance.Compact_ok [OF assms])

theorem Compact_distance_witness:
  "\<exists>axis. Compact (distance_NewSplitter nat_floats demo_strategy2) demo_plane = Some axis \<and>
    length (ValuesList axis) = 2"
proof -
  have "length (ValuesList (hd (Axes demo_plane))) = 2" by (simp add: demo_plane_def)
  then show ?thesis
    unfolding demo_strategy2_def
    using Compact_distance [OF demo_plane_ok, of nat_floats "\<lambda>x i. x ^ i" 1 2 2] by (metis (no_types))
qed

text \<open>
  C39: \<open>Pixel\<close> with the distance strategy and the TiDB labeler never panics on a well-formed
  plane with interned keys, a target of at least two rows and one tag per column, if the
  compacted base column sums to less than \<open>2 ^ 63 - 1\<close>: the matrix has one label per key,
  one time per plane time, keys of the plane's axes only, and for every tag one column per
  axis with one value per row.
\<close>

theorem Pixel_tidb:
  fixes F :: "'f floats"
  defines "strategy \<equiv> \<lambda>math_Pow ratio level count.
    distance_NewSplitter F (DistanceSplitStrategy math_Pow ratio level count)"
  assumes "plane_ok pl" and "2 \<le> target" and "length tags = length (ValuesList (hd (Axes pl)))"
    and "distinct tags"
    and "\<And>cc splitter. compact (strategy math_Pow ratio level count) (map base_column (Axes pl))
      = Some (cc, splitter) \<Longrightarrow> nat_sum (cvalues cc) + 1 < 2 ^ 63"
  shows "\<exists>mx. Pixel (strategy math_Pow ratio level count) (tidb_NewLabeler tm) pl target tags = Some mx \<and>
    length (KeyAxis mx) = length (mx_Keys mx) \<and> length (TimeAxis mx) = length (Times pl) \<and>
    set (mx_Keys mx) \<subseteq> (\<Union>a\<in>set (Axes pl). set (Keys a)) \<and>
    (\<forall>j < length tags. \<exists>data. map_of (DataMap mx) (tags ! j) = Some data \<and>
       length data = length (Axes pl) \<and> (\<forall>col\<in>set data. length col + 1 = length (mx_Keys mx)))"
  using distance_tidb.Pixel_ok [where tm = tm, OF assms(2-5), of F math_Pow ratio level count] assms(6)
  unfolding strategy_def by blast

lemma demo_sum:
  assumes "compact (distance_NewSplitter nat_floats (DistanceSplitStrategy (\<lambda>x i. x ^ i) 1 2 2))
    (map base_column (Axes demo_plane)) = Some (cc, splitter)"
  shows "nat_sum (cvalues cc) + 1 < 2 ^ 63"
  using demo_compact assms by (simp add: demo_strategy2_def)

lemma demo_tags: "(2 :: int) \<le> 2" "distinct [''w'', ''r'']"
  by simp_all

lemma demo_columns: "length [''w'', ''r''] = length (ValuesList (hd (Axes demo_plane)))"
  by (simp add: demo_plane_def)

theorem Pixel_tidb_witness:
  "\<exists>mx. Pixel (distance_NewSplitter nat_floats demo_strategy2) (tidb_NewLabeler Map.empty) demo_plane 2
      [''w'', ''r''] = Some mx \<and> length (TimeAxis mx) = 3"
proof -
  have "length (Times demo_plane) = 3" by (simp add: demo_plane_def)
  moreover note Pixel_tidb [where F = nat_floats and math_Pow = "\<lambda>x i. x ^ i" and ratio = 1 and level = 2
      and count = 2 and tm = Map.empty, OF demo_plane_ok demo_tags(1) demo_columns demo_tags(2), OF demo_sum]
  ultimately show ?thesis unfolding demo_strategy2_def by fastforce
qed

text \<open>With the separator labeler, which knows no borders, the matrix of \<open>Pixel\<close> has at most
  \<open>target\<close> rows.
\<close>

theorem Pixel_rows:
  fixes F :: "'f floats"
  defines "strategy \<equiv> \<lambda>math_Pow ratio level count.
    distance_NewSplitter F (DistanceSplitStrategy math_Pow ratio level count)"
  assumes "plane_ok pl" and "2 \<le> target" and "length tags = length (ValuesList (hd (Axes pl)))"
    and "distinct tags"
    and "\<And>cc splitter. compact (strategy math_Pow ratio level count) (map base_column (Axes pl))
      = Some (cc, splitter) \<Longrightarrow> nat_sum (cvalues cc) + 1 < 2 ^ 63"
  shows "\<exists>mx. Pixel (strategy math_Pow ratio level count) (separator_NewLabeler sep) pl target tags = Some mx \<and>
    int (length (mx_Keys mx)) - 1 \<le> target"
proof -
  have "CrossBorder (separator_NewLabeler sep) = (\<lambda>_ _. False)"
    by (intro ext) (simp add: separator_CrossBorder_def)
  then show ?thesis
    using distance_separator.Pixel_ok [where sep = sep, OF assms(2-5), of F math_Pow ratio level count] assms(6)
    unfolding strategy_def by blast
qed

theorem Pixel_rows_witness:
  "\<exists>mx. Pixel (distance_NewSplitter nat_floats demo_strategy2) (separator_NewLabeler ''/'') demo_plane 2
      [''w'', ''r''] = Some mx \<and> int (length (mx_Keys mx)) - 1 \<le> 2"
  unfolding demo_strategy2_def
  by (rule Pixel_rows [where F = nat_floats and math_Pow = "\<lambda>x i. x ^ i" and ratio = 1 and level = 2
      and count = 2 and sep = "''/''", OF demo_plane_ok demo_tags(1) demo_columns demo_tags(2)])
    (rule demo_sum)

end
