(* ===== verification/StorageInvariant.thy ===== *)
theory StorageInvariant
  imports StoragePersist PlaneInstances
begin

text \<open>
  The invariant \<open>stat_ok\<close> of the statistics is kept by \<open>Stat.Append\<close>: what is stored,
  compacted into the next layer and handed on has well-formed keys that come from the key
  map, so that queries on it succeed. \<open>rebuildKeyMap\<close> keeps it too.
\<close>

section \<open>Results of \<open>Divide\<close>, whatever the threshold\<close>

lemma Divide_Some_coarsen:
  assumes "chunk_ok c" and "0 \<le> target" and "Divide cb c target mode = Some c'"
  shows "\<exists>ps. cuts ps (length (cvalues c)) \<and> c' = coarsen c ps"
proof (cases "int (length (cvalues c)) \<le> target")
  case True
  have "0 < length (cvalues c)" using assms(1) by (auto simp: chunk_ok_def)
  moreover have "c' = coarsen c [0..<length (cvalues c) + 1]"
    using True assms(3) coarsen_all [OF assms(1)] by (simp add: Divide_def)
  ultimately show ?thesis using cuts_all by blast
next
  case False
  then obtain threshold ratio where "Focus cb c threshold ratio target mode = Some c'"
    using assms(3) by (auto simp: Divide_def Let_def bind_eq_Some_conv)
  with Focus_coarsen [OF assms(1,2), of cb threshold ratio mode] show ?thesis by auto
qed

lemma Axis_Divide_Some:
  assumes "axis_ok axis" and "keys_distinct (Keys axis)" and "0 \<le> target"
    and "Axis_Divide cb axis target = Some axis'"
  shows "\<exists>ps. cuts ps (length (Keys axis) - 1) \<and> axis' = axis_coarsen axis ps"
proof (cases "int (length (Keys axis)) - 1 \<le> target")
  case True
  then show ?thesis using axis_coarsen_all [OF assms(1)] assms(4) by (auto simp: Axis_Divide_def)
next
  case False
  let ?base = "\<lparr>ckeys = Keys axis, cvalues = hd (ValuesList axis)\<rparr>"
  note base = axis_base [OF assms(1)]
  obtain c where c: "Divide cb ?base target MergeColdLogicalRange_mode = Some c"
    using False base assms(4) by (auto simp: Axis_Divide_def bind_eq_Some_conv)
  obtain ps where ps: "cuts ps (length (hd (ValuesList axis)))" "c = coarsen ?base ps"
    using Divide_Some_coarsen [OF base(4) assms(3) c] by auto
  then have "Axis_Divide cb axis target = Some (axis_coarsen axis ps)"
    using False base c base_coarsen [OF assms(1) refl refl ps(1) assms(2)]
    by (simp add: Axis_Divide_def)
  then show ?thesis using assms(4) ps(1) base(2) by auto
qed

lemma IntoStorageAxis_Some:
  assumes "axis_ok axis" and "length (ValuesList axis) = 5" and "axis_keys_ok (Keys axis)"
    and "interned (set (Keys axis))" and "IntoStorageAxis axis labeler = Some axis'"
  shows "storage_ok axis' \<and> axis_keys_ok (Keys axis') \<and> set (Keys axis') \<subseteq> set (Keys axis) \<and>
    length (Keys axis') \<le> length (Keys axis)"
proof -
  obtain d where d: "Axis_Divide (CrossBorder labeler) axis preTarget = Some d"
    "go_slice (ValuesList d) 1 (length (ValuesList d)) = Some (ValuesList axis')" "Keys axis' = Keys d" "axis_ok axis'"
    using assms(5) by (auto simp: IntoStorageAxis_def bind_eq_Some_conv CreateAxis_Some_iff)
  have "0 \<le> preTarget" by (simp add: preTarget_def)
  then obtain ps where ps: "cuts ps (length (Keys axis) - 1)" "d = axis_coarsen axis ps"
    using Axis_Divide_Some [OF assms(1) axis_keys_distinct [OF assms(3,4)] _ d(1)] by blast
  have five: "length (ValuesList d) = 5" using ps(2) assms(2) by (simp add: axis_coarsen_def)
  then have "ValuesList axis' = tl (ValuesList d)" using d(2) by (simp add: drop_Suc)
  then have "length (ValuesList axis') = 4" using five by simp
  moreover have "axis_keys_ok (Keys d)" using cut_keys_ok [OF assms(3) ps(1)] ps(2) by (simp add: axis_coarsen_def)
  moreover have "set (Keys d) \<subseteq> set (Keys axis)" using axis_coarsen_ok(3) [OF assms(1) ps(1)] ps(2) by simp
  moreover have "length (Keys d) \<le> length (Keys axis)"
    using cuts_max [OF ps(1)] ps(2) assms(1) by (auto simp: axis_coarsen_def axis_ok_def)
  ultimately show ?thesis using d(3,4) by (simp add: storage_ok_def)
qed

section \<open>Merging\<close>

definition keys_size :: "Axis list \<Rightarrow> nat" where
  "keys_size axes = sum_list (map (\<lambda>a. length (Keys a)) axes)"

lemma keys_size_simps [simp]: "keys_size [] = 0" "keys_size (a # as) = length (Keys a) + keys_size as"
  "keys_size (as @ bs) = keys_size as + keys_size bs"
  by (simp_all add: keys_size_def)

lemma stored_plane:
  assumes "axes \<noteq> []" and "\<forall>axis\<in>set axes. stored_ok km axis" and "km_ok km" and "pool_ok (ran km)"
    and "1 + keys_size axes < 2 ^ 64"
  shows "plane_ok \<lparr>Times = ts, Axes = axes\<rparr>"
proof -
  have four: "length (ValuesList axis) = 4" if "axis \<in> set axes" for axis
    using assms(2) that by (simp add: stored_ok_def storage_ok_def)
  have "keys_of (map base_column axes) \<subseteq> {k. km (sval k) = Some k}"
    using assms(2) by (auto simp: keys_of_def base_column_def stored_ok_def)
  then have "interned (insert empty_str (keys_of (map base_column axes)))"
    using km_pool_interned [OF assms(3,4)] by (rule interned_subset [rotated, OF insert_mono])
  moreover have "\<forall>c\<in>set (map base_column axes). chunk_axis_ok c"
    using assms(2) axis_base(4) by (auto simp: chunk_axis_ok_def stored_ok_def storage_ok_def base_column_def)
  ultimately show ?thesis
    using assms(1,2,5) four
    by (simp add: plane_ok_def chunks_ok_def base_column_def stored_ok_def storage_ok_def comp_def keys_size_def)
qed

lemma keys_size_card:
  assumes "axis_keys_ok ks" and "interned (set ks)" and "set ks \<subseteq> (\<Union>a\<in>set axes. set (Keys a))" and "axes \<noteq> []"
  shows "length ks \<le> Suc (keys_size axes)"
proof -
  have "sorted_wrt (<) (map sval (butlast ks))" using assms(1) by (simp add: axis_keys_ok_def)
  then have "distinct (butlast ks)" using strict_sorted_iff by (metis distinct_map)
  then have "length (butlast ks) = card (set (butlast ks))" by (simp add: distinct_card)
  also have "\<dots> \<le> card (\<Union>a\<in>set axes. set (Keys a))"
    using assms(3) by (intro card_mono) (auto dest: in_set_butlastD)
  also have "\<dots> \<le> keys_size axes"
  proof (induction axes)
    case (Cons a axes)
    have "card (\<Union>a\<in>set (a # axes). set (Keys a)) \<le> card (set (Keys a)) + card (\<Union>a\<in>set axes. set (Keys a))"
      by (simp add: card_Un_le)
    with Cons card_length [of "Keys a"] show ?case by simp
  qed simp
  finally show ?thesis by simp
qed


lemma km_keys_interned:
  assumes "km_ok km" and "pool_ok (ran km)" and "\<forall>k\<in>K. km (sval k) = Some k"
  shows "interned K"
  by (rule interned_subset [OF km_pool_interned [OF assms(1,2)]]) (use assms(3) in auto)

context split_contract
begin

lemma reduce_axis_stored:
  assumes "axes \<noteq> []" and "\<forall>axis\<in>set axes. stored_ok km axis" and "km_ok km" and "pool_ok (ran km)"
    and "1 + keys_size axes < 2 ^ 64" and "reduce_axis strategy labeler ratio ts axes = Some axis'"
  shows "stored_ok km axis' \<and> length (Keys axis') \<le> Suc (keys_size axes)"
proof -
  let ?pl = "\<lparr>Times = ts, Axes = axes\<rparr>"
  obtain c r d where c: "Compact strategy ?pl = Some c" and r: "IntoResponseAxis c Integration = Some r"
    and d: "IntoStorageAxis r labeler = Some d" and sh: "Shrink d (of_nat ratio) = Some axis'"
    using assms(6) by (auto simp: reduce_axis_def bind_eq_Some_conv CreatePlane_def split: if_splits)
  have c': "axis_ok c" "axis_keys_ok (Keys c)" "set (Keys c) = (\<Union>a\<in>set axes. set (Keys a))"
    "length (ValuesList c) = length (ValuesList (hd axes))"
    using Compact_ok [OF stored_plane [OF assms(1-5), of ts]] c by auto
  have "length (ValuesList (hd axes)) = 4" using assms(1,2) by (cases axes) (auto simp: stored_ok_def storage_ok_def)
  then have sc: "storage_ok c" using c' by (simp add: storage_ok_def)
  have "r = \<lparr>Keys = Keys c, ValuesList = swap_first (tag_index Integration) (integration_column c # ValuesList c)\<rparr>"
    using IntoResponseAxis_eq [OF sc, of Integration] r by simp
  then have r': "Keys r = Keys c" "length (ValuesList r) = 5"
    using c'(4) \<open>length (ValuesList (hd axes)) = 4\<close> by simp_all
  have ok_r: "axis_ok r" using r by (auto simp: IntoResponseAxis_def CreateAxis_Some_iff bind_eq_Some_conv)
  have km: "\<forall>k\<in>set (Keys c). km (sval k) = Some k" using c'(3) assms(2) by (auto simp: stored_ok_def)
  have int: "interned (set (Keys c))" using km_keys_interned [OF assms(3,4) km] .
  have d': "storage_ok d" "axis_keys_ok (Keys d)" "set (Keys d) \<subseteq> set (Keys c)" "length (Keys d) \<le> length (Keys c)"
    using IntoStorageAxis_Some [OF ok_r r'(2) _ _ d] r'(1) c'(2) int by auto
  have "axis_ok axis'" "Keys axis' = Keys d" "length (ValuesList axis') = length (ValuesList d)"
    using sh d'(1) by (auto simp: Shrink_def storage_ok_def axis_ok_def split: if_splits)
  then have "stored_ok km axis'" using d' km by (auto simp: stored_ok_def storage_ok_def)
  moreover have "length (Keys c) \<le> Suc (keys_size axes)" using keys_size_card [OF c'(2) int _ assms(1)] c'(3) by simp
  ultimately show ?thesis using d'(4) \<open>Keys axis' = Keys d\<close> by simp
qed

end

section \<open>Append\<close>

definition q_axes :: "queue \<Rightarrow> Axis list" where
  "q_axes q = map snd (q_items q)"

definition all_size :: "queue list \<Rightarrow> nat" where
  "all_size qs = sum_list (map (\<lambda>q. keys_size (q_axes q)) qs)"

lemma keys_size_split: "keys_size (take n as) + keys_size (drop n as) = keys_size as"
  by (metis append_take_drop_id keys_size_simps(3))

text \<open>A property of axes that merging keeps is kept for all stored axes; \<open>P\<close> may depend on the key map.\<close>

lemma q_append_axes:
  assumes "\<And>r ts axes a. axes \<noteq> [] \<Longrightarrow> \<forall>x\<in>set axes. P x \<Longrightarrow> 1 + keys_size axes < (B :: nat) \<Longrightarrow> m r ts axes = Some a \<Longrightarrow>
      P a \<and> length (Keys a) \<le> Suc (keys_size axes)"
    and "q_append m qs axis t = Some qs'" and "q_inv qs" and "\<forall>q\<in>set qs. \<forall>x\<in>set (q_axes q). P x" and "P axis"
    and "1 + all_size qs + length (Keys axis) + length qs < B"
  shows "(\<forall>q\<in>set qs'. \<forall>x\<in>set (q_axes q). P x) \<and> all_size qs' \<le> all_size qs + length (Keys axis) + length qs"
  using assms(2-)
proof (induction qs arbitrary: axis t qs')
  case Nil
  then show ?case by simp
next
  case (Cons q qs)
  have put: "\<forall>x\<in>set (q_axes (q\<lparr>q_start := u, q_items := drop n (q_items q) @ [(t, axis)]\<rparr>)). P x"
    "keys_size (q_axes (q\<lparr>q_start := u, q_items := drop n (q_items q) @ [(t, axis)]\<rparr>)) + keys_size (map snd (take n (q_items q)))
      = keys_size (q_axes q) + length (Keys axis)" for n u
  proof -
    have "\<forall>x\<in>set (map snd (q_items q)). P x" using Cons.prems(3) by (simp add: q_axes_def)
    then have "\<forall>x\<in>set (drop n (map snd (q_items q))). P x" by (meson in_set_dropD)
    then show "\<forall>x\<in>set (q_axes (q\<lparr>q_start := u, q_items := drop n (q_items q) @ [(t, axis)]\<rparr>)). P x"
      using Cons.prems(4) by (auto simp: q_axes_def drop_map)
    show "keys_size (q_axes (q\<lparr>q_start := u, q_items := drop n (q_items q) @ [(t, axis)]\<rparr>)) + keys_size (map snd (take n (q_items q)))
      = keys_size (q_axes q) + length (Keys axis)"
      using keys_size_split [of n "map snd (q_items q)"] by (simp add: q_axes_def drop_map take_map)
  qed
  have cap: "0 < q_cap q" "q_ratio q \<le> q_cap q" "length (q_items q) \<le> q_cap q"
    using Cons.prems(2) by (auto simp: q_inv_def q_config_def)
  consider (room) "length (q_items q) < q_cap q" | (drop) "length (q_items q) = q_cap q" "qs = []"
    | (merge) "length (q_items q) = q_cap q" "qs \<noteq> []" using cap by linarith
  then show ?case
  proof cases
    case room
    have "qs' = q\<lparr>q_items := q_items q @ [(t, axis)]\<rparr> # qs" using Cons.prems(1) room by simp
    then show ?thesis using put [where n = 0 and u = "q_start q"] Cons.prems(3) by (auto simp: all_size_def)
  next
    case drop
    let ?q = "q\<lparr>q_start := fst (hd (q_items q)), q_items := drop 1 (q_items q) @ [(t, axis)]\<rparr>"
    have "qs' = [?q]" using Cons.prems(1) drop by (simp add: drop_Suc)
    then show ?thesis using put [where n = 1 and u = "fst (hd (q_items q))"] drop(2) by (simp add: all_size_def)
  next
    case merge
    let ?old = "take (q_ratio q) (q_items q)" and ?start = "fst (last (take (q_ratio q) (q_items q)))"
    have r: "0 < q_ratio q" using Cons.prems(2) merge(2) by (auto simp: q_inv_def q_config_def)
    obtain a qs1 where a: "m (q_ratio q) (q_start q # map fst ?old) (map snd ?old) = Some a"
      "q_append m qs a ?start = Some qs1"
      and qs': "qs' = q\<lparr>q_start := ?start, q_items := drop (q_ratio q) (q_items q) @ [(t, axis)]\<rparr> # qs1"
      using Cons.prems(1) merge r by (auto simp: Let_def bind_eq_Some_conv)
    note put' = put [where n = "q_ratio q" and u = ?start]
    have old: "map snd ?old \<noteq> []" "\<forall>x\<in>set (map snd ?old). P x"
      using r cap merge(1) Cons.prems(3) by (auto simp: q_axes_def dest: in_set_takeD)
    have total: "all_size (q # qs) = keys_size (q_axes q) + all_size qs" by (simp add: all_size_def)
    have "P a" "length (Keys a) \<le> Suc (keys_size (map snd ?old))"
      using assms(1) [OF old _ a(1)] Cons.prems(5) put'(2) total by auto
    moreover have "q_inv qs" using Cons.prems(2) merge(2) by (auto simp: q_inv_def q_config_def q_chain_Cons)
    ultimately have IH: "\<forall>q\<in>set qs1. \<forall>x\<in>set (q_axes q). P x" "all_size qs1 \<le> all_size qs + length (Keys a) + length qs"
      using Cons.IH [OF a(2)] Cons.prems(3,5) put'(2) total by auto
    have "all_size qs' \<le> all_size (q # qs) + length (Keys axis) + length (q # qs)"
      using IH(2) put'(2) total \<open>length (Keys a) \<le> _\<close> unfolding qs' by (simp add: all_size_def)
    then show ?thesis using IH(1) put'(1) unfolding qs' by simp
  qed
qed


lemma CreateStorageAxis_stored:
  assumes "regions_ok rs" and "CreateStorageAxis (api_regions rs) labeler = Some axis"
  shows "storage_ok axis \<and> axis_keys_ok (Keys axis) \<and> set (Keys axis) \<subseteq> key_pool (Regions rs) \<and>
    length (Keys axis) \<le> length (Regions rs) + 1"
proof -
  obtain ks where ks: "GetKeys rs = Some ks" "int (length ks) = Count rs + 1" "axis_keys_ok ks" "interned (set ks)"
    using GetKeys_ok [OF assms(1)] by blast
  have c: "Count rs = int (length (Regions rs))" "Regions rs \<noteq> []" using assms(1) by (simp_all add: regions_ok_def)
  then have sub: "set ks \<subseteq> key_pool (Regions rs)" using GetKeys_eq [OF c] ks(1) by (auto simp: key_pool_def)
  obtain vss pre w where vss: "those_columns (GetValues rs) ResponseTags = Some vss" "CreateAxis ks vss = Some pre"
    "wash pre = Some w" "IntoStorageAxis w labeler = Some axis"
    using assms(2) ks(1) by (auto simp: CreateStorageAxis_def api_regions_def bind_eq_Some_conv split: if_splits)
  have "length vss = 5" using vss(1) list_all2_lengthD unfolding those_columns_iff by (fastforce simp: tag_simps)
  moreover have pre: "axis_ok pre" "Keys pre = ks" "ValuesList pre = vss" using vss(2) by (simp_all add: CreateAxis_Some_iff)
  ultimately have w: "axis_ok w" "length (ValuesList w) = 5" "Keys w = ks"
    using wash_eq [OF pre(1)] vss(3) by auto
  have "interned (set (Keys w))" "axis_keys_ok (Keys w)" using ks w(3) by simp_all
  from IntoStorageAxis_Some [OF w(1,2) this(2,1) vss(4)] show ?thesis
    using w(3) sub ks(2) c(1) by auto
qed

lemma stat_axes:
  "(\<forall>l\<in>set ls. \<forall>(t, axis)\<in>set (q_items (abs_layer l)). P axis) \<longleftrightarrow>
   (\<forall>q\<in>set (map abs_layer ls). \<forall>x\<in>set (q_axes q). P x)"
  by (fastforce simp: q_axes_def)

lemma Stat_Append_step:
  assumes "split_contract strategy" and "stat_ok s" and "regions_ok rs" and "EndTime (hd (layers s)) < t"
    and "pool_ok (ran (keyMap s) \<union> key_pool (Regions rs))"
    and "3 + all_size (map abs_layer (layers s)) + length (Regions rs) + length (layers s) < 2 ^ 64"
    and "Stat_Append ops strategy labeler s (api_regions rs) t = Some s'"
  shows "stat_ok s' \<and> EndTime (hd (layers s')) = t"
proof -
  have "m_Len (api_regions rs) \<noteq> 0" using api.len_pos [OF assms(3)] by simp
  then obtain axis km ks db ls where a: "CreateStorageAxis (api_regions rs) labeler = Some axis"
    and sk: "SaveKeys (keyMap s) (Keys axis) = (km, ks)"
    and app: "layer_Append ops strategy labeler (layers s) (stat_db s) (axis\<lparr>Keys := ks\<rparr>) t = Some (db, ls)"
    and s': "s' = s\<lparr>keyMap := km, layers := ls, stat_db := db\<rparr>"
    using assms(7)
    by (auto simp: Stat_Append_def Let_def case_prod_unfold bind_eq_Some_conv prod_eq_iff split: if_splits)
  have ok: "\<forall>l\<in>set (layers s). layer_ok l" "q_inv (map abs_layer (layers s))" "km_ok (keyMap s)"
    "\<forall>q\<in>set (map abs_layer (layers s)). \<forall>x\<in>set (q_axes q). stored_ok (keyMap s) x"
    using assms(2) unfolding stat_ok_def stat_axes by blast+
  note stored = CreateStorageAxis_stored [OF assms(3) a]
  note km = SaveKeys_props [OF ok(3) sk]
  have "axis_keys_ok ks" using stored km axis_keys_ok_vals by (metis)
  moreover have "length ks = length (Keys axis)" using km by (metis length_map)
  ultimately have new: "stored_ok km (axis\<lparr>Keys := ks\<rparr>)"
    using stored km by (auto simp: stored_ok_def storage_ok_def axis_ok_def)
  have "ran km \<subseteq> ran (keyMap s) \<union> key_pool (Regions rs)" using km stored by blast
  then have pool: "pool_ok (ran km)" using assms(5) unfolding pool_ok_def coherent_def by blast
  have old: "\<forall>q\<in>set (map abs_layer (layers s)). \<forall>x\<in>set (q_axes q). stored_ok km x"
    using ok(4) km stored_ok_mono by blast
  have refine: "q_append (reduce_axis strategy labeler) (map abs_layer (layers s)) (axis\<lparr>Keys := ks\<rparr>) t = Some (map abs_layer ls)"
    "\<forall>l\<in>set ls. layer_ok l"
    using layer_Append_refines [OF ok(1), where strategy = strategy and labeler = labeler and ops = ops
      and db = "stat_db s" and axis = "axis\<lparr>Keys := ks\<rparr>" and t = t] app by (auto split: option.splits)
  have at_end: "EndTime l = last (q_times (abs_layer l))" if "layer_ok l" for l
    using that by (simp add: layer_ok_def ring_ok_def q_times_def abs_layer_def)
  have ne: "layers s \<noteq> []" using ok(2) by (simp add: q_inv_def)
  have last: "last (q_times (hd (map abs_layer (layers s)))) < t"
    using ok(1) assms(4) ne at_end [of "hd (layers s)"] by (simp add: hd_map)
  note step = q_append_step [OF refine(1) ok(2) last]
  have "\<forall>q\<in>set (map abs_layer ls). \<forall>x\<in>set (q_axes q). stored_ok km x"
  proof (rule conjunct1 [OF q_append_axes [OF _ refine(1) ok(2) old new]])
    show "stored_ok km a \<and> length (Keys a) \<le> Suc (keys_size axes)"
      if "axes \<noteq> []" "\<forall>x\<in>set axes. stored_ok km x" "1 + keys_size axes < 2 ^ 64"
        "reduce_axis strategy labeler r ts axes = Some a" for axes r ts a
      using split_contract.reduce_axis_stored [OF assms(1) that(1,2) _ pool that(3,4)] km by blast
    show "1 + all_size (map abs_layer (layers s)) + length (Keys (axis\<lparr>Keys := ks\<rparr>)) +
        length (map abs_layer (layers s)) < 2 ^ 64"
      using assms(6) stored \<open>length ks = _\<close> by simp
  qed
  moreover have "EndTime (hd ls) = t"
    using step refine(2) at_end [of "hd ls"] by (cases ls) (auto simp: q_inv_def)
  ultimately show ?thesis using step refine(2) km unfolding s' stat_ok_def stat_axes by simp
qed

text \<open>
  C5: the invariant of the statistics is kept. Whenever \<open>Stat.Append\<close> returns for the regions
  of a PD answer and a later time, with the program's distance strategy and any labeler,
  all stored axes, the compacted ones in older layers included, are again well formed with
  keys interned in the key map, and the time line goes on to the new time.
\<close>

theorem Stat_Append_invariant:
  fixes F :: "'f floats"
  defines "strategy \<equiv> \<lambda>math_Pow ratio level n.
    distance_NewSplitter F (DistanceSplitStrategy math_Pow ratio level n)"
  assumes "stat_ok s" and "regions_ok rs" and "EndTime (hd (layers s)) < t"
    and "pool_ok (ran (keyMap s) \<union> key_pool (Regions rs))"
    and "3 + all_size (map abs_layer (layers s)) + length (Regions rs) + length (layers s) < 2 ^ 64"
    and "Stat_Append ops (strategy math_Pow ratio level n) labeler s (api_regions rs) t = Some s'"
  shows "stat_ok s' \<and> EndTime (hd (layers s')) = t"
  by (rule Stat_Append_step [OF distance.split_contract_axioms assms(2-6) assms(7) [unfolded strategy_def]])


lemma demo_append_some:
  "(case Stat_Append demo_ops (distance_NewSplitter nat_floats demo_strategy2) naive_NewLabeler demo_stat
      (api_regions demo_regions) 50 of None \<Rightarrow> False | Some s' \<Rightarrow> True)"
  by code_simp

lemma demo_append_pool: "pool_ok (ran (keyMap demo_stat) \<union> key_pool (Regions demo_regions))"
proof -
  have "ran (keyMap demo_stat) = {GoStr 1 ''a'', GoStr 2 ''c'', GoStr 3 ''e''}"
    unfolding demo_stat_def Stat.simps by (subst ran_distinct) auto
  then show ?thesis
    by (simp add: pool_ok_def coherent_def equal_def empty_str_def key_pool_def demo_regions_def demo_region_def)
qed

theorem Stat_Append_invariant_witness:
  "\<exists>s'. Stat_Append demo_ops (distance_NewSplitter nat_floats demo_strategy2) naive_NewLabeler demo_stat
      (api_regions demo_regions) 50 = Some s' \<and> stat_ok s' \<and> EndTime (hd (layers s')) = 50"
proof -
  obtain s' where s': "Stat_Append demo_ops (distance_NewSplitter nat_floats demo_strategy2) naive_NewLabeler demo_stat
      (api_regions demo_regions) 50 = Some s'" using demo_append_some by (auto split: option.splits)
  have "EndTime (hd (layers demo_stat)) < 50" by (simp add: demo_stat_def demo_layer_def)
  moreover have "3 + all_size (map abs_layer (layers demo_stat)) + length (Regions demo_regions) + length (layers demo_stat) < 2 ^ 64"
    unfolding demo_queue by (simp add: all_size_def q_axes_def demo_storage_def demo_regions_def demo_stat_def)
  moreover note Stat_Append_invariant [where F = nat_floats and math_Pow = "\<lambda>x i. x ^ i" and ratio = 1 and level = 2 and n = 2,
      OF demo_stat_ok demo_regions_ok _ demo_append_pool _ s' [unfolded demo_strategy2_def]]
  ultimately show ?thesis using s' by blast
qed

end
