(* ===== verification/KvService.thy ===== *)
theory KvService
  imports DynamicConfig StorageInvariant
begin

text \<open>
  The Key Visualizer service (\<open>pkg/keyvisual/service.go\<close>, \<open>manager.go\<close>): its life cycle
  under the pushed configurations and the handler of heat maps.

  Whether the \<open>fx\<close> application starts is a parameter of \<open>Start\<close> (\<open>app_err\<close>, the error of
  \<open>app.Start\<close>); its constructors run in \<open>fx.New\<close>, so an unknown policy panics in
  \<open>newLabelStrategy\<close>. Of the objects the application provides, the service keeps the
  statistics, the strategy (one flag, both are set and dropped together with the
  application) and the label strategy.
\<close>

section \<open>The service and its life cycle\<close>

datatype labelStrategy = TiDBLabelStrategy | SeparatorLabelStrategy string

record Service =
  sv_status :: bool
  sv_app :: bool
  sv_ctx :: bool
  sv_objects :: bool
  keyVisualCfg :: "KeyVisualConfig option"
  sv_labelStrategy :: "labelStrategy option"

definition NewService :: Service where
  "NewService = \<lparr>sv_status = False, sv_app = False, sv_ctx = False, sv_objects = False,
     keyVisualCfg = None, sv_labelStrategy = None\<rparr>"

definition IsRunning :: "Service \<Rightarrow> bool" where
  "IsRunning s = sv_status s"

definition newLabelStrategy :: "Service \<Rightarrow> labelStrategy option" where
  "newLabelStrategy s = do {
     cfg \<leftarrow> keyVisualCfg s;
     (if Policy cfg = KeyVisualDBPolicy then Some TiDBLabelStrategy
      else if Policy cfg = KeyVisualKVPolicy then Some (SeparatorLabelStrategy (PolicyKVSeparator cfg))
      else None)
   }"

definition drop_objects :: "Service \<Rightarrow> Service" where
  "drop_objects s = s\<lparr>sv_app := False, sv_objects := False, sv_labelStrategy := None, sv_ctx := False\<rparr>"

definition cleanAfterError :: "Service \<Rightarrow> Service" where
  "cleanAfterError s = drop_objects s"

text \<open>
  The hook that \<open>status.Register\<close> appends is the last one: the status is set when every other
  hook has started, and stays unset when \<open>app.Start\<close> fails.
\<close>

definition Start :: "bool \<Rightarrow> Service \<Rightarrow> (Service \<times> bool) option" where
  "Start app_err s =
     (if IsRunning s then Some (s, False) else do {
        let s = s\<lparr>sv_ctx := True\<rparr>;
        ls \<leftarrow> newLabelStrategy s;
        let s = s\<lparr>sv_app := True, sv_objects := True, sv_labelStrategy := Some ls\<rparr>;
        if app_err then Some (cleanAfterError s, True) else Some (s\<lparr>sv_status := True\<rparr>, False)
      })"

definition Stop :: "Service \<Rightarrow> Service" where
  "Stop s = (if \<not> IsRunning s \<or> \<not> sv_app s then s else drop_objects (s\<lparr>sv_status := False\<rparr>))"

fun ReloadConfig :: "labelStrategy \<Rightarrow> KeyVisualConfig \<Rightarrow> labelStrategy" where
  "ReloadConfig TiDBLabelStrategy cfg = TiDBLabelStrategy"
| "ReloadConfig (SeparatorLabelStrategy sep) cfg = SeparatorLabelStrategy (PolicyKVSeparator cfg)"

definition reloadKeyVisualConfig :: "KeyVisualConfig \<Rightarrow> Service \<Rightarrow> Service" where
  "reloadKeyVisualConfig cfg s =
     (let s = s\<lparr>keyVisualCfg := Some cfg\<rparr> in
      case sv_labelStrategy s of
        None \<Rightarrow> s
      | Some ls \<Rightarrow> s\<lparr>sv_labelStrategy := Some (ReloadConfig ls cfg)\<rparr>)"

definition startService :: "bool \<Rightarrow> Service \<Rightarrow> Service option" where
  "startService app_err s = (if IsRunning s then Some s else map_option fst (Start app_err s))"

definition stopService :: "Service \<Rightarrow> Service" where
  "stopService s = (if \<not> IsRunning s then s else Stop s)"

definition resetKeyVisualConfig :: "bool \<Rightarrow> DynamicConfig \<Rightarrow> Service \<Rightarrow> Service option" where
  "resetKeyVisualConfig app_err cfg s =
     (let kv = KeyVisual cfg in
      if \<not> AutoCollectionDisabled kv then
        let s = (case keyVisualCfg s of
                   Some old \<Rightarrow> if Policy old \<noteq> Policy kv then stopService s else s
                 | None \<Rightarrow> s)
        in startService app_err (reloadKeyVisualConfig kv s)
      else Some (reloadKeyVisualConfig kv (stopService s)))"

text \<open>\<open>getDynamicConfig\<close> and \<open>setDynamicConfig\<close>: an error or the body of the answer. The JSON of the
  request body is a parameter: \<open>None\<close> when it does not bind.\<close>

datatype config_reply = ConfigOK KeyVisualConfig | ConfigBadRequest | ConfigError config_error

definition getDynamicConfig :: "DynamicConfigManager \<Rightarrow> config_reply" where
  "getDynamicConfig m = (case mgr_Get m of Inl err \<Rightarrow> ConfigError err | Inr dc \<Rightarrow> ConfigOK (KeyVisual dc))"

definition setDynamicConfig ::
  "('e, 'j) config_ops \<Rightarrow> 'e \<Rightarrow> DynamicConfigManager \<Rightarrow> KeyVisualConfig option \<Rightarrow>
   ('e \<times> DynamicConfigManager \<times> config_reply) option" where
  "setDynamicConfig ops e m body =
     (case body of
        None \<Rightarrow> Some (e, m, ConfigBadRequest)
      | Some req \<Rightarrow> do {
          (e, m, err) \<leftarrow> Modify ops e m [\<lambda>dc. dc\<lparr>KeyVisual := req\<rparr>];
          Some (e, m, case err of Some err \<Rightarrow> ConfigError err | None \<Rightarrow> ConfigOK req)
        })"

text \<open>What \<open>managerLoop\<close> receives; it returns on the first two.\<close>

datatype manager_event = ctx_Done | ch_Closed | ch_Config DynamicConfig bool

text \<open>The flag of the result: the loop has returned.\<close>

fun managerLoop :: "manager_event list \<Rightarrow> Service \<Rightarrow> (Service \<times> bool) option" where
  "managerLoop [] s = Some (s, False)"
| "managerLoop (ctx_Done # evs) s = Some (stopService s, True)"
| "managerLoop (ch_Closed # evs) s = Some (stopService s, True)"
| "managerLoop (ch_Config cfg app_err # evs) s = do {
     s \<leftarrow> resetKeyVisualConfig app_err cfg s;
     managerLoop evs s
   }"

section \<open>What the life cycle guarantees\<close>

definition strategy_of :: "KeyVisualConfig \<Rightarrow> labelStrategy" where
  "strategy_of cfg = (if Policy cfg = KeyVisualDBPolicy then TiDBLabelStrategy
     else SeparatorLabelStrategy (PolicyKVSeparator cfg))"

text \<open>
  A running service has all its objects, and a label strategy for its configuration; a
  stopped one has none.
\<close>

definition service_ok :: "Service \<Rightarrow> bool" where
  "service_ok s \<longleftrightarrow> sv_app s = sv_status s \<and> sv_objects s = sv_status s \<and> sv_ctx s = sv_status s \<and>
     sv_labelStrategy s = (if sv_status s then map_option strategy_of (keyVisualCfg s) else None) \<and>
     (sv_status s \<longrightarrow> (\<exists>cfg. keyVisualCfg s = Some cfg \<and> \<not> AutoCollectionDisabled cfg \<and> validatePolicy cfg = None))"

lemmas policy_defs = validatePolicy_def KeyVisualPolicies_def KeyVisualDBPolicy_def KeyVisualKVPolicy_def

lemma validatePolicy_cases:
  "validatePolicy cfg = None \<longleftrightarrow> Policy cfg = KeyVisualDBPolicy \<or> Policy cfg = KeyVisualKVPolicy"
  by (auto simp: validatePolicy_def KeyVisualPolicies_def)

lemma Validate_policy: "Validate cfg = None \<Longrightarrow> \<not> AutoCollectionDisabled (KeyVisual cfg) \<Longrightarrow>
  validatePolicy (KeyVisual cfg) = None"
  by (auto simp: Validate_def Let_def split: if_splits)

lemma stopService_ok:
  "service_ok s \<Longrightarrow> service_ok (stopService s) \<and> \<not> sv_status (stopService s) \<and> keyVisualCfg (stopService s) = keyVisualCfg s"
  by (auto simp: service_ok_def stopService_def Stop_def IsRunning_def drop_objects_def)

lemma ReloadConfig_strategy: "Policy old = Policy cfg \<Longrightarrow> ReloadConfig (strategy_of old) cfg = strategy_of cfg"
  by (simp add: strategy_of_def)

lemma reload_ok:
  assumes "service_ok s" and "sv_status s \<Longrightarrow> \<exists>old. keyVisualCfg s = Some old \<and> Policy old = Policy cfg \<and>
    \<not> AutoCollectionDisabled cfg"
  shows "service_ok (reloadKeyVisualConfig cfg s)" and "keyVisualCfg (reloadKeyVisualConfig cfg s) = Some cfg"
    and "sv_status (reloadKeyVisualConfig cfg s) = sv_status s"
proof -
  show "service_ok (reloadKeyVisualConfig cfg s)"
  proof (cases "sv_status s")
    case True
    then obtain old where old: "keyVisualCfg s = Some old" "Policy old = Policy cfg" "\<not> AutoCollectionDisabled cfg"
      using assms(2) by blast
    have "validatePolicy old = None" "sv_labelStrategy s = Some (strategy_of old)"
      using assms(1) True old(1) by (simp_all add: service_ok_def)
    then show ?thesis
      using assms(1) True old ReloadConfig_strategy [OF old(2)]
      by (simp add: service_ok_def reloadKeyVisualConfig_def Let_def validatePolicy_cases)
  next
    case False
    with assms(1) show ?thesis by (simp add: service_ok_def reloadKeyVisualConfig_def Let_def)
  qed
qed (simp_all add: reloadKeyVisualConfig_def Let_def split: option.split)

lemma startService_ok:
  assumes "service_ok s" and "keyVisualCfg s = Some cfg" and "validatePolicy cfg = None" and "\<not> AutoCollectionDisabled cfg"
  shows "\<exists>s'. startService app_err s = Some s' \<and> service_ok s' \<and> keyVisualCfg s' = Some cfg \<and>
    sv_status s' = (sv_status s \<or> \<not> app_err)"
proof -
  have "newLabelStrategy t = Some (strategy_of cfg)" if "keyVisualCfg t = Some cfg" for t
    using that assms(3) by (auto simp: newLabelStrategy_def strategy_of_def validatePolicy_cases)
  then show ?thesis
    using assms by (cases "sv_status s"; cases app_err)
      (simp_all add: startService_def Start_def Let_def IsRunning_def service_ok_def cleanAfterError_def drop_objects_def)
qed

lemma reset_ok:
  assumes "service_ok s" and "Validate cfg = None"
  shows "\<exists>s'. resetKeyVisualConfig app_err cfg s = Some s' \<and> service_ok s' \<and>
    keyVisualCfg s' = Some (KeyVisual cfg) \<and> (AutoCollectionDisabled (KeyVisual cfg) \<longrightarrow> \<not> sv_status s') \<and>
    (\<not> AutoCollectionDisabled (KeyVisual cfg) \<and> \<not> app_err \<longrightarrow> sv_status s')"
proof (cases "AutoCollectionDisabled (KeyVisual cfg)")
  case True
  note st = stopService_ok [OF assms(1)]
  note re = reload_ok [OF conjunct1 [OF st], of "KeyVisual cfg"]
  show ?thesis using True st re by (simp add: resetKeyVisualConfig_def Let_def)
next
  case False
  let ?kv = "KeyVisual cfg"
  let ?t = "case keyVisualCfg s of Some old \<Rightarrow> if Policy old \<noteq> Policy ?kv then stopService s else s | None \<Rightarrow> s"
  have t: "service_ok ?t" "sv_status ?t \<Longrightarrow> \<exists>old. keyVisualCfg ?t = Some old \<and> Policy old = Policy ?kv \<and> \<not> AutoCollectionDisabled ?kv"
    using assms(1) stopService_ok [OF assms(1)] False by (auto simp: service_ok_def split: option.splits)
  note re = reload_ok [OF t]
  note pol = Validate_policy [OF assms(2) False]
  obtain s' where "startService app_err (reloadKeyVisualConfig ?kv ?t) = Some s'" "service_ok s'" "keyVisualCfg s' = Some ?kv"
    "sv_status s' = (sv_status (reloadKeyVisualConfig ?kv ?t) \<or> \<not> app_err)"
    using startService_ok [OF re(1,2) pol False, of app_err] by blast
  then show ?thesis using False by (simp add: resetKeyVisualConfig_def Let_def)
qed

lemma managerLoop_ok:
  assumes "service_ok s" and "\<forall>ev\<in>set evs. \<forall>cfg app_err. ev = ch_Config cfg app_err \<longrightarrow> Validate cfg = None"
  shows "\<exists>s' done. managerLoop evs s = Some (s', done) \<and> service_ok s' \<and> (done \<longrightarrow> \<not> sv_status s')"
  using assms
proof (induction evs arbitrary: s)
  case (Cons ev evs)
  show ?case
  proof (cases ev)
    case (ch_Config cfg app_err)
    then obtain s1 where "resetKeyVisualConfig app_err cfg s = Some s1" "service_ok s1"
      using reset_ok [of s cfg app_err] Cons.prems by auto
    then show ?thesis using Cons ch_Config by simp
  qed (use Cons.prems stopService_ok in auto)
qed auto

text \<open>
  C10: fed with the configurations a manager pushes, all of which are valid, the service never
  panics; after each configuration it runs exactly when collection is enabled (and the
  application starts), with the label strategy of that configuration's policy and
  separator, even when policies change between configurations; and it is stopped, with all
  its objects dropped, when the loop ends.
\<close>

theorem managerLoop_follows_config:
  assumes "\<forall>ev\<in>set (evs @ [ch_Config cfg False]). \<forall>c app_err. ev = ch_Config c app_err \<longrightarrow> Validate c = None"
    and "\<forall>ev\<in>set evs. ev \<noteq> ctx_Done \<and> ev \<noteq> ch_Closed"
  shows "\<exists>s. managerLoop (evs @ [ch_Config cfg False]) NewService = Some (s, False) \<and>
    IsRunning s = (\<not> AutoCollectionDisabled (KeyVisual cfg)) \<and>
    sv_labelStrategy s = (if IsRunning s then Some (strategy_of (KeyVisual cfg)) else None) \<and>
    (\<forall>ev\<in>{ctx_Done, ch_Closed}. \<exists>s'. managerLoop (evs @ [ch_Config cfg False, ev]) NewService = Some (s', True) \<and>
       \<not> IsRunning s' \<and> sv_labelStrategy s' = None)"
proof -
  have new: "service_ok NewService" by (simp add: service_ok_def NewService_def)
  have app: "managerLoop (evs @ es) s = do { (s, _) \<leftarrow> managerLoop evs s; managerLoop es s }" for es s
    using assms(2)
  proof (induction evs arbitrary: s)
    case (Cons ev evs)
    then show ?case by (cases ev) (auto split: Option.bind_splits)
  qed simp
  obtain s1 d where s1: "managerLoop evs NewService = Some (s1, d)" "service_ok s1"
    using managerLoop_ok [OF new, of evs] assms(1) by auto
  obtain s2 where s2: "resetKeyVisualConfig False cfg s1 = Some s2" "service_ok s2" "keyVisualCfg s2 = Some (KeyVisual cfg)"
    "sv_status s2 = (\<not> AutoCollectionDisabled (KeyVisual cfg))"
    using reset_ok [OF s1(2), of cfg False] assms(1) by auto
  have "sv_labelStrategy s2 = (if sv_status s2 then Some (strategy_of (KeyVisual cfg)) else None)"
    using s2(2,3) by (simp add: service_ok_def)
  moreover have "\<not> sv_status (stopService s2) \<and> sv_labelStrategy (stopService s2) = None"
    using stopService_ok [OF s2(2)] by (simp add: service_ok_def)
  ultimately show ?thesis using s1(1) s2 by (simp add: app IsRunning_def)
qed

definition demo_policy :: "string \<Rightarrow> DynamicConfig" where
  "demo_policy p = zero_config\<lparr>KeyVisual := \<lparr>AutoCollectionDisabled = False, Policy = p, PolicyKVSeparator = ''/''\<rparr>\<rparr>"

theorem managerLoop_follows_config_witness:
  "\<exists>s. managerLoop [ch_Config (demo_policy ''db'') False, ch_Config (demo_policy ''kv'') False] NewService = Some (s, False) \<and>
    IsRunning s \<and> sv_labelStrategy s = Some (SeparatorLabelStrategy ''/'')"
proof -
  have "Validate (demo_policy ''db'') = None" "Validate (demo_policy ''kv'') = None"
    by (simp_all add: config_defs demo_policy_def zero_config_def)
  then show ?thesis
    using managerLoop_follows_config [of "[ch_Config (demo_policy ''db'') False]" "demo_policy ''kv''"]
    by (auto simp: demo_policy_def strategy_of_def KeyVisualDBPolicy_def)
qed

end
