(* ===== verification/KvHeatmaps.thy ===== *)
theory KvHeatmaps
  imports KvService
begin

text \<open>
  The handler of \<open>/keyvisual/heatmaps\<close> (\<open>service.go\<close>): the composition of the query on the
  statistics, the pixelation and the cut to the requested keys. The query parameters are
  strings, the current time is a parameter. A response is a status and a body; \<open>None\<close> is
  a panic in the handler.
\<close>

definition heatmapsMaxDisplayY :: int where
  "heatmapsMaxDisplayY = 1536"

definition distanceStrategyLevel :: nat where "distanceStrategyLevel = 15"
definition distanceStrategyCount :: nat where "distanceStrategyCount = 50"

definition minute :: int where "minute = 60000000000"

definition defaultStatConfig :: "LayerConfig list" where
  "defaultStatConfig =
     [\<lparr>lc_Len = 60, lc_Ratio = 2 div 1\<rparr>,
      \<lparr>lc_Len = 60 div 2 * 7, lc_Ratio = 6 div 2\<rparr>,
      \<lparr>lc_Len = 60 div 6 * 16, lc_Ratio = 30 div 6\<rparr>,
      \<lparr>lc_Len = 60 div 30 * 24 * 6, lc_Ratio = 4 * 60 div 30\<rparr>,
      \<lparr>lc_Len = 24 div 4 * 28, lc_Ratio = 0\<rparr>]"

datatype heatmaps_response = BadRequest | Heatmap Matrix

record heatmaps_query =
  hq_startkey :: string
  hq_endkey :: string
  hq_starttime :: string
  hq_endtime :: string
  hq_type :: string

text \<open>\<open>time.Unix(tsSec, 0)\<close>, with its wrap-around; an empty parameter leaves the default.\<close>

definition parse_time :: "string \<Rightarrow> int \<Rightarrow> int option" where
  "parse_time s dflt = (if s \<noteq> '''' then map_option time_Unix (ParseInt s) else Some dflt)"

text \<open>
  The largest number of seconds wraps to a time far in the past, so it is accepted as the
  start of a query.
\<close>

lemma parse_time_wraps:
  assumes "ParseInt s = Some 9223372036854775807"
  shows "parse_time s dflt = Some (- 9223372036854775809000000000)"
proof -
  have "s \<noteq> []" using assms by (auto simp: ParseInt_def Let_def)
  then show ?thesis using assms by (simp add: parse_time_def time_Unix_def wrap64_def unixToInternal_def)
qed

text \<open>
  \<open>strategy\<close> and \<open>labeler\<close> are those of \<open>s.strategy\<close>; \<open>addr\<close> is the address of the next string
  that is allocated.
\<close>

definition heatmaps ::
  "SplitStrategy \<Rightarrow> Labeler \<Rightarrow> int \<Rightarrow> nat \<Rightarrow> 'db Stat \<Rightarrow> heatmaps_query \<Rightarrow> ('db Stat \<times> heatmaps_response) option" where
  "heatmaps strategy labeler now addr stat q =
     (case parse_time (hq_starttime q) (now - 360 * minute) of
        None \<Rightarrow> Some (stat, BadRequest)
      | Some startTime \<Rightarrow>
     (case parse_time (hq_endtime q) now of
        None \<Rightarrow> Some (stat, BadRequest)
      | Some endTime \<Rightarrow>
     if \<not> (startTime < endTime \<and> (hq_endkey q = '''' \<or> hq_startkey q < hq_endkey q))
     then Some (stat, BadRequest) else
     (case hex_decode (hq_startkey q) of
        None \<Rightarrow> Some (stat, BadRequest)
      | Some startKeyBytes \<Rightarrow>
     (case hex_decode (hq_endkey q) of
        None \<Rightarrow> Some (stat, BadRequest)
      | Some endKeyBytes \<Rightarrow> do {
          let startKey = bytes_String addr startKeyBytes;
          let endKey = bytes_String (addr + 1) endKeyBytes;
          let baseTag = IntoTag (hq_type q);
          (stat, plane) \<leftarrow> Stat_Range stat startTime endTime startKey endKey baseTag;
          resp \<leftarrow> Pixel strategy labeler plane heatmapsMaxDisplayY (GetDisplayTags baseTag);
          resp \<leftarrow> Matrix_Range resp (sval startKey) (sval endKey);
          let data = (case map_of (DataMap resp) (hq_type q) of None \<Rightarrow> [] | Some d \<Rightarrow> d);
          Some (stat, Heatmap (resp\<lparr>DataMap := [(hq_type q, data)]\<rparr>))
        }))))"

section \<open>Lower-case hexadecimal keeps the order\<close>

lemma hex_digit_mono: "a < 16 \<Longrightarrow> b < 16 \<Longrightarrow> hex_digit a < hex_digit b \<longleftrightarrow> a < b"
proof -
  assume "a < 16" "b < 16"
  moreover have "list_all (\<lambda>a. list_all (\<lambda>b. hex_digit a < hex_digit b \<longleftrightarrow> a < b) [0..<16]) [0..<16]" by code_simp
  ultimately show ?thesis by (simp add: list_all_iff)
qed

lemma hex_digit_inj: "a < 16 \<Longrightarrow> b < 16 \<Longrightarrow> hex_digit a = hex_digit b \<longleftrightarrow> a = b"
  using hex_digit_mono [of a b] hex_digit_mono [of b a] by (metis linorder_neqE_nat order_less_irrefl)

lemma byte_split:
  fixes m n :: nat
  shows "m < n \<longleftrightarrow> m div 16 < n div 16 \<or> m div 16 = n div 16 \<and> m mod 16 < n mod 16"
proof -
  have "m = m div 16 * 16 + m mod 16" "n = n div 16 * 16 + n mod 16" by simp_all
  moreover have "m mod 16 < 16" "n mod 16 < 16" by simp_all
  ultimately show ?thesis by linarith
qed

lemma byte_of_less_iff: "byte_of c < byte_of d \<longleftrightarrow> c < (d :: char)"
  by (simp add: byte_of_def less_char_def)

lemma byte_of_bound: "byte_of c div 16 < 16" "byte_of c mod 16 < 16"
  using nat_of_char_less_256 [of c] by (simp_all add: byte_of_def less_mult_imp_div_less)

lemma hex_encode_simps [simp]: "hex_encode [] = []"
  "hex_encode (c # s) = hex_digit (byte_of c div 16) # hex_digit (byte_of c mod 16) # hex_encode s"
  by (simp_all add: hex_encode_def)

lemma hex_encode_less: "hex_encode s < hex_encode t \<longleftrightarrow> s < t"
proof (induction s arbitrary: t)
  case Nil
  then show ?case by (cases t) simp_all
next
  case (Cons c s)
  show ?case
  proof (cases t)
    case (Cons d u)
    have "c = d \<longleftrightarrow> byte_of c div 16 = byte_of d div 16 \<and> byte_of c mod 16 = byte_of d mod 16"
      by (metis byte_of_less_iff byte_split linorder_neqE order_less_irrefl)
    moreover have "c < d \<longleftrightarrow> byte_of c div 16 < byte_of d div 16 \<or>
        byte_of c div 16 = byte_of d div 16 \<and> byte_of c mod 16 < byte_of d mod 16"
      using byte_split [of "byte_of c" "byte_of d"] by (simp add: byte_of_less_iff)
    ultimately show ?thesis
      using Cons.IH [of u] Cons byte_of_bound [of c] byte_of_bound [of d]
      by (auto simp: hex_digit_mono hex_digit_inj)
  qed simp
qed

lemma hex_encode_empty: "hex_encode s = [] \<longleftrightarrow> s = []"
  by (cases s) simp_all

section \<open>The keys of a pixelated plane\<close>

lemma update_entries:
  "distinct (map fst al) \<Longrightarrow> distinct (map fst (fold (\<lambda>(tag, data). AList.update tag data) ps al)) \<and>
   set (fold (\<lambda>(tag, data). AList.update tag data) ps al) \<subseteq> set al \<union> set ps"
proof (induction ps arbitrary: al)
  case (Cons p ps)
  obtain k v where p: "p = (k, v)" by fastforce
  have "set (AList.update k v al) \<subseteq> insert (k, v) (set al)" by (induction al) auto
  then show ?case using Cons.IH [of "AList.update k v al"] Cons.prems p distinct_update [of al k v] by auto
qed simp



lemma Pixel_tags:
  assumes "Pixel strategy labeler pl target tags = Some mx"
  shows "fst ` set (DataMap mx) \<subseteq> set tags"
proof -
  obtain datas where "DataMap mx = fold (\<lambda>(tag, data). AList.update tag data) (zip tags datas) []"
    using assms by (auto simp: Pixel_def Let_def bind_eq_Some_conv CreateMatrix_def split: if_splits)
  then show ?thesis using update_entries [of "[]" "zip tags datas"] by (force dest: set_zip_leftD)
qed

context pixel_contract
begin

lemma Pixel_keys:
  assumes "plane_ok pl" and "0 \<le> target" and "Pixel strategy labeler pl target tags = Some mx"
  shows "axis_keys_ok (mx_Keys mx) \<and> (\<forall>(tag, data)\<in>set (DataMap mx). \<forall>col\<in>set data. length col + 1 = length (mx_Keys mx)) \<and>
    (\<forall>axis\<in>set (Axes pl). keys_meet (Keys axis) startKey endKey \<longrightarrow> keys_meet (mx_Keys mx) startKey endKey)"
proof -
  let ?chunks = "map base_column (Axes pl)"
  have ok: "chunks_ok ?chunks" using assms(1) by (simp add: plane_ok_def)
  then have ne: "Axes pl \<noteq> []" by (simp add: chunks_ok_def)
  have first: "idx (Axes pl) 0 = Some (hd (Axes pl))" using ne by (simp add: hd_conv_nth)
  obtain cc splitter where C: "compact strategy ?chunks = Some (cc, splitter)" "chunk_ok cc"
    "ckeys cc = compact_keys_list ?chunks" "strategy ?chunks (ckeys cc) = Some splitter"
    using compact_ok [OF ok] by blast
  let ?CK = "ckeys cc" and ?n = "length (ValuesList (hd (Axes pl)))"
  obtain dv matrix datas where D: "Divide (CrossBorder labeler) cc target NotMergeLogicalRange = Some dv"
    "CreateMatrix labeler (Times pl) (ckeys dv) ?n = Some matrix"
    "those_columns (pixel_data splitter ?CK (ckeys dv) ?chunks (Axes pl)) [0..<?n] = Some datas"
    "mx = matrix\<lparr>DataMap := fold (\<lambda>(tag, data). AList.update tag data) (zip tags datas) (DataMap matrix)\<rparr>"
    using assms(3) first base_chunks [OF assms(1)] C(1)
    by (auto simp: Pixel_def Let_def bind_eq_Some_conv split: if_splits)
  obtain ps where ps: "cuts ps (length (cvalues cc))" "dv = coarsen cc ps"
    using Divide_Some_coarsen [OF C(2) assms(2) D(1)] by blast
  have len: "length (cvalues cc) = length ?CK - 1" using C(2) by (simp add: chunk_ok_def)
  have mk: "mx_Keys mx = map ((!) ?CK) ps" "DataMap matrix = []"
    using D(2,4) ps(2) by (auto simp: CreateMatrix_def bind_eq_Some_conv coarsen_def)
  have CK: "axis_keys_ok ?CK" using compact_unfold(3) [OF ok] C(3) by simp
  have keys_ok: "axis_keys_ok (mx_Keys mx)" using cut_keys_ok [OF CK] ps(1) len mk by simp
  have data: "\<forall>(tag, data)\<in>set (DataMap mx). \<forall>col\<in>set data. length col + 1 = length (mx_Keys mx)"
  proof -
    have "\<forall>col\<in>set d. length col + 1 = length ps" if d: "d \<in> set datas" for d
    proof -
      obtain j where j': "j < length datas" "datas ! j = d" using d by (auto simp: in_set_conv_nth)
      have all: "list_all2 (\<lambda>j y. pixel_data splitter ?CK (ckeys dv) ?chunks (Axes pl) j = Some y) [0..<?n] datas"
        using D(3) by (simp add: those_columns_iff)
      then have "length datas = ?n" by (auto dest: list_all2_lengthD)
      with j' list_all2_nthD2 [OF all j'(1)] have j: "j < ?n"
        "pixel_data splitter ?CK (ckeys dv) ?chunks (Axes pl) j = Some d" by simp_all
      have "ckeys dv = map ((!) ?CK) ps" using ps(2) by (simp add: coarsen_def)
      then show ?thesis using pixel_data_ok [OF assms(1) j(1) C(3,4), of ps] ps(1) len j(2) by auto
    qed
    moreover have "set (DataMap mx) \<subseteq> set (zip tags datas)" using update_entries [of "[]" "zip tags datas"] D(4) mk(2) by simp
    ultimately show ?thesis using mk(1) by (fastforce dest: set_zip_rightD)
  qed
  have two: "2 \<le> length ?CK" using CK by (simp add: axis_keys_ok_def)
  have ends: "hd (mx_Keys mx) = hd ?CK" "last (mx_Keys mx) = last ?CK"
  proof -
    have p: "ps \<noteq> []" "hd ps = 0" "last ps = length ?CK - 1" using ps(1) len by (simp_all add: cuts_def)
    have "?CK \<noteq> []" using two by auto
    then show "hd (mx_Keys mx) = hd ?CK" "last (mx_Keys mx) = last ?CK"
      using p by (simp_all add: mk hd_map last_map hd_conv_nth last_conv_nth [of ?CK])
  qed
  have "keys_meet (mx_Keys mx) startKey endKey" if "axis \<in> set (Axes pl)" "keys_meet (Keys axis) startKey endKey" for axis
  proof -
    have c: "base_column axis \<in> set ?chunks" "ckeys (base_column axis) = Keys axis" using that(1) by (simp_all add: base_column_def)
    have "chunks_ok ?chunks \<Longrightarrow> ?chunks \<noteq> [] \<and> (\<forall>c\<in>set ?chunks. chunk_axis_ok c) \<and> interned (insert empty_str (keys_of ?chunks))"
      by (simp add: chunks_ok_def)
    with ok have P: "?chunks \<noteq> []" "\<forall>c\<in>set ?chunks. chunk_axis_ok c" "interned (insert empty_str (keys_of ?chunks))" by auto
    obtain qs where qs: "sorted_wrt (<) qs" "\<forall>p\<in>set qs. p < length ?CK" "Keys axis = map ((!) ?CK) qs"
      using compact_keys_props(3) [OF P] c C(3) by metis
    have "2 \<le> length (Keys axis)" using P(2) c by (auto simp: chunk_axis_ok_def chunk_ok_def)
    then have q: "2 \<le> length qs" "qs \<noteq> []" using qs(3) by auto
    then have q01: "qs ! 0 < qs ! (length qs - 1)" using qs(1) by (simp add: sorted_wrt_iff_nth_less)
    have qlast: "qs ! (length qs - 1) < length ?CK" using qs(2) q by simp
    have h: "hd (Keys axis) = ?CK ! (qs ! 0)" "last (Keys axis) = ?CK ! (qs ! (length qs - 1))"
      using q by (simp_all add: qs(3) hd_map last_map hd_conv_nth last_conv_nth)
    have "?CK \<noteq> []" using two by auto
    then have ends': "hd ?CK = ?CK ! 0" "last ?CK = ?CK ! (length ?CK - 1)" by (simp_all add: hd_conv_nth last_conv_nth)
    have "qs ! 0 < sorted_len ?CK" using q01 qlast by (auto simp: sorted_len_def)
    then have "sval (hd ?CK) \<le> sval (hd (Keys axis))" using axis_keys_le [OF CK, of 0 "qs ! 0"] h(1) ends' by simp
    moreover have "sval (last ?CK) = [] \<or> sval (last (Keys axis)) \<noteq> [] \<and> sval (last (Keys axis)) \<le> sval (last ?CK)"
    proof (cases "sval (last ?CK) = []")
      case False
      then have sl: "sorted_len ?CK = length ?CK" by (simp add: sorted_len_def)
      have "sval (?CK ! 0) < sval (last (Keys axis))"
        using axis_keys_less [OF CK, of 0 "qs ! (length qs - 1)"] q01 qlast sl h(2) by simp
      then have "sval (last (Keys axis)) \<noteq> []" by auto
      moreover have "sval (last (Keys axis)) \<le> sval (last ?CK)"
        using axis_keys_le [OF CK, of "qs ! (length qs - 1)" "length ?CK - 1"] qlast sl h(2) ends' two by simp
      ultimately show ?thesis by blast
    qed simp
    ultimately show ?thesis using that(2) unfolding keys_meet_def ends by (auto intro: le_less_trans less_le_trans)
  qed
  then show ?thesis using keys_ok data by blast
qed

end

lemma those_columns_map:
  "(\<And>x. x \<in> set xs \<Longrightarrow> f x = Some (g x)) \<Longrightarrow> those_columns f xs = Some (map g xs)"
  by (rule those_columns_Some) auto

lemma Matrix_Range_ok:
  assumes "axis_keys_ok (mx_Keys mx)" and "length (KeyAxis mx) = length (mx_Keys mx)"
    and "\<forall>(tag, data)\<in>set (DataMap mx). \<forall>col\<in>set data. length col + 1 = length (mx_Keys mx)"
    and "endKey = [] \<or> startKey < endKey" and "keys_meet (mx_Keys mx) startKey endKey"
  shows "\<exists>mx' g. Matrix_Range mx startKey endKey = Some mx' \<and> DataMap mx' = map (apsnd (map g)) (DataMap mx) \<and>
    TimeAxis mx' = TimeAxis mx \<and> length (KeyAxis mx') = length (mx_Keys mx') \<and>
    (\<forall>(tag, data)\<in>set (DataMap mx'). \<forall>col\<in>set data. length col + 1 = length (mx_Keys mx'))"
proof -
  have "2 \<le> length (mx_Keys mx)" using assms(1) by (simp add: axis_keys_ok_def)
  then obtain i where i: "i < length (mx_Keys mx) - 1" "bucket_meets (mx_Keys mx) i startKey endKey"
    using keys_meet_bucket assms(4,5) by blast
  obtain a b where R: "KeysRange (mx_Keys mx) startKey endKey = Some (Some (a, b))" "a + 2 \<le> b" "b \<le> length (mx_Keys mx)"
    using KeysRange_spec [OF assms(1,4)] i by (auto split: option.splits)
  let ?g = "\<lambda>col. take (b - 1 - a) (drop a col)"
  have cut: "go_slice col a (b - 1) = Some (?g col)" if "(tag, data) \<in> set (DataMap mx)" "col \<in> set data" for tag data col
  proof -
    have "length col + 1 = length (mx_Keys mx)" using assms(3) that by fastforce
    then have "b - 1 \<le> length col" "a \<le> b - 1" using R(2,3) by linarith+
    then show ?thesis by (simp add: go_slice_def)
  qed
  have "those_columns (\<lambda>(tag, data). do {
      data \<leftarrow> those_columns (\<lambda>axis. go_slice axis a (b - 1)) data; Some (tag, data) }) (DataMap mx)
    = Some (map (apsnd (map ?g)) (DataMap mx))"
  proof (rule those_columns_map)
    fix p assume p: "p \<in> set (DataMap mx)"
    obtain tag data where eq: "p = (tag, data)" by fastforce
    have "those_columns (\<lambda>axis. go_slice axis a (b - 1)) data = Some (map ?g data)"
      using cut p eq by (intro those_columns_map) blast
    then show "(case p of (tag, data) \<Rightarrow> do {
        data \<leftarrow> those_columns (\<lambda>axis. go_slice axis a (b - 1)) data; Some (tag, data) }) = Some (apsnd (map ?g) p)"
      by (simp add: eq)
  qed
  define mx' where "mx' = mx\<lparr>mx_Keys := take (b - a) (drop a (mx_Keys mx)),
      KeyAxis := take (b - a) (drop a (KeyAxis mx)), DataMap := map (apsnd (map ?g)) (DataMap mx)\<rparr>"
  from \<open>those_columns _ (DataMap mx) = _\<close> have "Matrix_Range mx startKey endKey = Some mx'"
    using R assms(2) by (simp add: Matrix_Range_def go_slice_def mx'_def)
  moreover have "length (?g col) + 1 = length (mx_Keys mx')"
    if "(tag, data) \<in> set (DataMap mx)" "col \<in> set data" for tag data col
  proof -
    have "length col + 1 = length (mx_Keys mx)" using assms(3) that by fastforce
    then show ?thesis using R(2,3) by (auto simp: mx'_def)
  qed
  then have "\<forall>(tag, data)\<in>set (DataMap mx'). \<forall>col\<in>set data. length col + 1 = length (mx_Keys mx')"
    by (fastforce simp: mx'_def)
  moreover have "DataMap mx' = map (apsnd (map ?g)) (DataMap mx)" "TimeAxis mx' = TimeAxis mx"
    "length (KeyAxis mx') = length (mx_Keys mx')" using assms(2) by (simp_all add: mx'_def)
  ultimately show ?thesis by blast
qed

section \<open>The handler\<close>

text \<open>What a well-formed answer to a heatmap request is.\<close>

definition heatmap_ok :: "string \<Rightarrow> Matrix \<Rightarrow> bool" where
  "heatmap_ok typ mx \<longleftrightarrow> length (KeyAxis mx) = length (mx_Keys mx) \<and>
     (\<exists>data. DataMap mx = [(typ, data)] \<and> (\<forall>col\<in>set data. length col + 1 = length (mx_Keys mx)) \<and>
        length data = (if typ \<in> set (map tag_String ResponseTags) then length (TimeAxis mx) - 1 else 0))"

lemma GetDisplayTags_set: "set (GetDisplayTags tag) = set (map tag_String ResponseTags)"
  by (cases tag) (auto simp: GetDisplayTags_eq tag_simps swap_first_def tag_index_def nth_Cons' split: if_splits)

lemma map_of_apsnd: "map_of (map (apsnd f) al) k = map_option f (map_of al k)"
  by (induction al) auto

context pixel_contract
begin

lemma heatmap_ok_Pixel:
  assumes "plane_ok pl" and "length (ValuesList (hd (Axes pl))) = 5" and "length (Times pl) = length (Axes pl) + 1"
    and "\<And>cc splitter. compact strategy (map base_column (Axes pl)) = Some (cc, splitter) \<Longrightarrow> nat_sum (cvalues cc) + 1 < 2 ^ 63"
    and "\<forall>axis\<in>set (Axes pl). keys_meet (Keys axis) startKey endKey" and "endKey = [] \<or> startKey < endKey"
  shows "\<exists>mx mx'. Pixel strategy labeler pl heatmapsMaxDisplayY (GetDisplayTags tag) = Some mx \<and>
    Matrix_Range mx startKey endKey = Some mx' \<and> length (TimeAxis mx') = length (Times pl) \<and>
    heatmap_ok kind (mx'\<lparr>DataMap := [(kind, case map_of (DataMap mx') kind of None \<Rightarrow> [] | Some d \<Rightarrow> d)]\<rparr>)"
proof -
  have two: "2 \<le> heatmapsMaxDisplayY" by (simp add: heatmapsMaxDisplayY_def)
  have five: "length (GetDisplayTags tag) = length (ValuesList (hd (Axes pl)))" using assms(2) by simp
  obtain mx where P: "Pixel strategy labeler pl heatmapsMaxDisplayY (GetDisplayTags tag) = Some mx"
    "length (KeyAxis mx) = length (mx_Keys mx)" "length (TimeAxis mx) = length (Times pl)"
    and all: "\<forall>j < length (GetDisplayTags tag). \<exists>data. map_of (DataMap mx) (GetDisplayTags tag ! j) = Some data \<and>
       length data = length (Axes pl) \<and> (\<forall>col\<in>set data. length col + 1 = length (mx_Keys mx))"
    using Pixel_ok [OF assms(1) two five distinct_GetDisplayTags] assms(4) by blast
  have data: "\<exists>data. map_of (DataMap mx) (GetDisplayTags tag ! j) = Some data \<and> length data = length (Axes pl)" if "j < 5" for j
    using all that by auto
  have in_data: "\<exists>data. map_of (DataMap mx) t = Some data \<and> length data = length (Axes pl)" if t: "t \<in> set (GetDisplayTags tag)" for t
  proof -
    obtain j where "j < 5" "t = GetDisplayTags tag ! j" using t by (auto simp: in_set_conv_nth)
    then show ?thesis using data by blast
  qed
  have keys: "fst ` set (DataMap mx) \<subseteq> set (GetDisplayTags tag)" by (rule Pixel_tags [OF P(1)])
  have pos: "0 \<le> heatmapsMaxDisplayY" using two by simp
  note K0 = Pixel_keys [OF assms(1) pos P(1), of startKey endKey]
  have K: "axis_keys_ok (mx_Keys mx)" "\<forall>(tag, data)\<in>set (DataMap mx). \<forall>col\<in>set data. length col + 1 = length (mx_Keys mx)"
    "\<forall>axis\<in>set (Axes pl). keys_meet (Keys axis) startKey endKey \<longrightarrow> keys_meet (mx_Keys mx) startKey endKey"
    using K0 by blast+
  have "hd (Axes pl) \<in> set (Axes pl)" using assms(1) by (simp add: plane_ok_def chunks_ok_def)
  then have meet: "keys_meet (mx_Keys mx) startKey endKey" using K(3) assms(5) by blast
  then obtain mx' g where R: "Matrix_Range mx startKey endKey = Some mx'" "DataMap mx' = map (apsnd (map g)) (DataMap mx)"
    "TimeAxis mx' = TimeAxis mx" "length (KeyAxis mx') = length (mx_Keys mx')"
    "\<forall>(tag, data)\<in>set (DataMap mx'). \<forall>col\<in>set data. length col + 1 = length (mx_Keys mx')"
    using Matrix_Range_ok [OF K(1) P(2) K(2) assms(6) meet] by blast
  have "(\<forall>col\<in>set d. length col + 1 = length (mx_Keys mx')) \<and>
    length d = (if kind \<in> set (map tag_String ResponseTags) then length (TimeAxis mx') - 1 else 0)"
    if d: "d = (case map_of (DataMap mx') kind of None \<Rightarrow> [] | Some d \<Rightarrow> d)" for d
  proof (cases "map_of (DataMap mx') kind")
    case None
    then have "map_of (DataMap mx) kind = None" unfolding R(2) map_of_apsnd by simp
    then have "kind \<notin> set (GetDisplayTags tag)" using in_data [of kind] by auto
    then show ?thesis using d None unfolding GetDisplayTags_set by simp
  next
    case (Some e)
    then obtain e' where e': "map_of (DataMap mx) kind = Some e'" "length e = length e'" unfolding R(2) map_of_apsnd by auto
    then have in_tags: "kind \<in> set (GetDisplayTags tag)" using keys by (force dest: map_of_SomeD)
    then have "length e = length (Axes pl)" using in_data [of kind] e' by auto
    moreover have "\<forall>col\<in>set e. length col + 1 = length (mx_Keys mx')" using R(5) map_of_SomeD [OF Some] by auto
    ultimately show ?thesis using in_tags d Some P(3) R(3) assms(3) unfolding GetDisplayTags_set by simp
  qed
  then have "heatmap_ok kind (mx'\<lparr>DataMap := [(kind, case map_of (DataMap mx') kind of None \<Rightarrow> [] | Some d \<Rightarrow> d)]\<rparr>)"
    using R(4) by (simp add: heatmap_ok_def)
  then show ?thesis using P(1,3) R(1,3) by auto
qed

end

context pixel_contract
begin

lemma heatmaps_ok:
  assumes "stat_ok stat" and "hq_startkey q = hex_encode sk" and "hq_endkey q = hex_encode ek"
    and "pool_ok (insert (bytes_String addr sk) (insert (bytes_String (addr + 1) ek) (ran (keyMap stat))))"
    and "5 + stat_size stat < 2 ^ 64"
    and "\<And>startTime endTime stat' pl cc splitter.
      parse_time (hq_starttime q) (now - 360 * minute) = Some startTime \<Longrightarrow> parse_time (hq_endtime q) now = Some endTime \<Longrightarrow>
      Stat_Range stat startTime endTime (bytes_String addr sk) (bytes_String (addr + 1) ek) (IntoTag (hq_type q)) = Some (stat', pl) \<Longrightarrow>
      compact strategy (map base_column (Axes pl)) = Some (cc, splitter) \<Longrightarrow> nat_sum (cvalues cc) + 1 < 2 ^ 63"
  shows "\<exists>stat' r. heatmaps strategy labeler now addr stat q = Some (stat', r) \<and> stat_ok stat' \<and>
    (case (parse_time (hq_starttime q) (now - 360 * minute), parse_time (hq_endtime q) now) of
       (Some startTime, Some endTime) \<Rightarrow>
         if startTime < endTime \<and> (ek = [] \<or> sk < ek) then \<exists>mx. r = Heatmap mx \<and> heatmap_ok (hq_type q) mx
         else r = BadRequest
     | _ \<Rightarrow> r = BadRequest)"
proof -
  have order: "hq_endkey q = [] \<or> hq_startkey q < hq_endkey q \<longleftrightarrow> ek = [] \<or> sk < ek"
    by (simp add: assms(2,3) hex_encode_less hex_encode_empty)
  have val [simp]: "sval (bytes_String a b) = b" for a b by (simp add: bytes_String_def empty_str_def)
  show ?thesis
  proof (cases "parse_time (hq_starttime q) (now - 360 * minute)")
    case None
    then show ?thesis using assms(1) by (simp add: heatmaps_def)
  next
    case st: (Some startTime)
    show ?thesis
    proof (cases "parse_time (hq_endtime q) now")
      case None
      then show ?thesis using st assms(1) by (simp add: heatmaps_def)
    next
      case et: (Some endTime)
      show ?thesis
      proof (cases "startTime < endTime \<and> (ek = [] \<or> sk < ek)")
        case False
        then have "\<not> (startTime < endTime \<and> (hq_endkey q = [] \<or> hq_startkey q < hq_endkey q))" using order by blast
        then have "heatmaps strategy labeler now addr stat q = Some (stat, BadRequest)"
          by (simp only: heatmaps_def st et option.case if_True not_False_eq_True)
        then show ?thesis using st et assms(1) False by auto
      next
        case True
        then have cond: "startTime < endTime \<and> (hq_endkey q = [] \<or> hq_startkey q < hq_endkey q)" using order by blast
        have keys: "sval (bytes_String (addr + 1) ek) = [] \<or> sval (bytes_String addr sk) < sval (bytes_String (addr + 1) ek)"
          using True by simp
        obtain stat' pl where R: "Stat_Range stat startTime endTime (bytes_String addr sk) (bytes_String (addr + 1) ek)
            (IntoTag (hq_type q)) = Some (stat', pl)" "plane_ok pl" "length (ValuesList (hd (Axes pl))) = 5"
          "length (Times pl) = length (Axes pl) + 1" "stat_ok stat'" "\<forall>axis\<in>set (Axes pl). keys_meet (Keys axis) sk ek"
          using Stat_Range_ok [OF assms(1) _ keys assms(4,5), of startTime endTime "IntoTag (hq_type q)"] True by auto
        have sum: "\<And>cc splitter. compact strategy (map base_column (Axes pl)) = Some (cc, splitter) \<Longrightarrow>
          nat_sum (cvalues cc) + 1 < 2 ^ 63" using assms(6) [OF st et R(1)] .
        have ord: "ek = [] \<or> sk < ek" using True by blast
        obtain mx mx' where M: "Pixel strategy labeler pl heatmapsMaxDisplayY (GetDisplayTags (IntoTag (hq_type q))) = Some mx"
          "Matrix_Range mx sk ek = Some mx'" "heatmap_ok (hq_type q) (mx'\<lparr>DataMap := [(hq_type q,
             case map_of (DataMap mx') (hq_type q) of None \<Rightarrow> [] | Some d \<Rightarrow> d)]\<rparr>)"
          using heatmap_ok_Pixel [where tag = "IntoTag (hq_type q)" and kind = "hq_type q", OF R(2-4) _ R(6) ord] sum
          by blast
        have dec: "hex_decode (hq_startkey q) = Some sk" "hex_decode (hq_endkey q) = Some ek"
          by (simp_all add: assms(2,3) hex_decode_encode)
        have "heatmaps strategy labeler now addr stat q = Some (stat', Heatmap (mx'\<lparr>DataMap := [(hq_type q,
             case map_of (DataMap mx') (hq_type q) of None \<Rightarrow> [] | Some d \<Rightarrow> d)]\<rparr>))"
          using cond R(1) M(1,2) dec by (simp add: heatmaps_def st et Let_def)
        then show ?thesis using st et True R(5) M(3) by auto
      qed
    qed
  qed
qed

end

text \<open>
  C7: the heatmap handler, with the distance strategy and the TiDB labeler, never panics on
  statistics that satisfy their invariant, for keys in lower-case hexadecimal: it refuses
  exactly the queries whose times do not parse as \<open>int64\<close> seconds or, taken as Go times (whose
  seconds since the year 1 wrap around), are not ordered, or whose key range is empty; every other query is answered with a well-formed matrix, cut to the requested keys,
  with one column per stored interval of the queried time if the type is the name of a tag
  (no column at all otherwise), and keeps the invariant of the statistics. The compacted base
  column of the queried plane is taken to sum to less than \<open>2 ^ 63 - 1\<close>.
\<close>

theorem heatmaps_total:
  fixes F :: "'f floats"
  defines "strategy \<equiv> \<lambda>math_Pow ratio.
    distance_NewSplitter F (DistanceSplitStrategy math_Pow ratio distanceStrategyLevel distanceStrategyCount)"
  assumes "stat_ok stat" and "hq_startkey q = hex_encode sk" and "hq_endkey q = hex_encode ek"
    and "pool_ok (insert (bytes_String addr sk) (insert (bytes_String (addr + 1) ek) (ran (keyMap stat))))"
    and "5 + stat_size stat < 2 ^ 64"
    and "\<And>startTime endTime stat' pl cc splitter.
      parse_time (hq_starttime q) (now - 360 * minute) = Some startTime \<Longrightarrow> parse_time (hq_endtime q) now = Some endTime \<Longrightarrow>
      Stat_Range stat startTime endTime (bytes_String addr sk) (bytes_String (addr + 1) ek) (IntoTag (hq_type q)) = Some (stat', pl) \<Longrightarrow>
      compact (strategy math_Pow ratio) (map base_column (Axes pl)) = Some (cc, splitter) \<Longrightarrow> nat_sum (cvalues cc) + 1 < 2 ^ 63"
  shows "\<exists>stat' r. heatmaps (strategy math_Pow ratio) (tidb_NewLabeler tm) now addr stat q = Some (stat', r) \<and> stat_ok stat' \<and>
    (case (parse_time (hq_starttime q) (now - 360 * minute), parse_time (hq_endtime q) now) of
       (Some startTime, Some endTime) \<Rightarrow>
         if startTime < endTime \<and> (ek = [] \<or> sk < ek) then \<exists>mx. r = Heatmap mx \<and> heatmap_ok (hq_type q) mx
         else r = BadRequest
     | _ \<Rightarrow> r = BadRequest)"
  using distance_tidb.heatmaps_ok [where tm = tm, OF assms(2-6), of now F math_Pow ratio distanceStrategyLevel distanceStrategyCount]
    assms(7) unfolding strategy_def by blast

definition demo_query :: heatmaps_query where
  "demo_query = \<lparr>hq_startkey = ''62'', hq_endkey = [], hq_starttime = [], hq_endtime = [], hq_type = ''read_bytes''\<rparr>"

lemma demo_heatmaps_sum:
  "map_option (\<lambda>(s, pl). map_option (\<lambda>(cc, sp). nat_sum (cvalues cc))
     (compact (distance_NewSplitter nat_floats (DistanceSplitStrategy (\<lambda>x i. x ^ i) 1 distanceStrategyLevel distanceStrategyCount))
       (map base_column (Axes pl))))
     (Stat_Range demo_stat (30 - 360 * minute) 30 (bytes_String 9 ''b'') (bytes_String 10 []) (IntoTag ''read_bytes'')) = Some (Some 14)"
  by code_simp

theorem heatmaps_total_witness:
  "\<exists>stat' mx. heatmaps (distance_NewSplitter nat_floats (DistanceSplitStrategy (\<lambda>x i. x ^ i) 1 distanceStrategyLevel distanceStrategyCount))
     (tidb_NewLabeler Map.empty) 30 9 demo_stat demo_query = Some (stat', Heatmap mx) \<and> heatmap_ok ''read_bytes'' mx"
proof -
  have q: "hq_startkey demo_query = hex_encode ''b''" "hq_endkey demo_query = hex_encode []" by code_simp (simp add: demo_query_def)
  have pool: "pool_ok (insert (bytes_String 9 ''b'') (insert (bytes_String (9 + 1) []) (ran (keyMap demo_stat))))"
    using demo_pool by (simp add: bytes_String_def empty_str_def)
  have t: "parse_time (hq_starttime demo_query) (30 - 360 * minute) = Some (30 - 360 * minute)"
    "parse_time (hq_endtime demo_query) 30 = Some 30" "hq_type demo_query = ''read_bytes''"
    by (simp_all add: demo_query_def parse_time_def)
  have lt: "30 - 360 * minute < 30" by (simp add: minute_def)
  show ?thesis
    using heatmaps_total [where F = nat_floats and math_Pow = "\<lambda>x i. x ^ i" and ratio = 1 and tm = Map.empty and now = 30,
        OF demo_stat_ok q pool demo_range_args(3)] demo_heatmaps_sum lt
    unfolding t by fastforce
qed

text \<open>
  The handler compares the keys as they are written and the storage compares what they
  decode to: with hexadecimal digits of mixed case a range that is ordered as text can be
  reversed as keys, and the query of any statistics with one axis then panics.
\<close>

theorem heatmaps_case_panic:
  "\<exists>(stat :: unit Stat) q. stat_ok stat \<and> hq_startkey q < hq_endkey q \<and>
     heatmaps (distance_NewSplitter nat_floats (DistanceSplitStrategy (\<lambda>x i. x ^ i) 1 distanceStrategyLevel distanceStrategyCount))
       (tidb_NewLabeler Map.empty) 30 9 stat q = None"
proof -
  let ?q = "demo_query\<lparr>hq_startkey := ''6A'', hq_endkey := ''6a''\<rparr>"
  have "heatmaps (distance_NewSplitter nat_floats (DistanceSplitStrategy (\<lambda>x i. x ^ i) 1 distanceStrategyLevel distanceStrategyCount))
       (tidb_NewLabeler Map.empty) 30 9 demo_stat ?q = None" by code_simp
  moreover have "hq_startkey ?q < hq_endkey ?q" by code_simp
  ultimately show ?thesis using demo_stat_ok by blast
qed

end
