(* ===== verification/DistanceScale.thy ===== *)
theory DistanceScale
  imports Complex_Main "HOL-Library.Multiset" DistanceProps
begin

text \<open>
  The factors of one interval in exact rational arithmetic: they never add up to more than 1,
  and to exactly 1 when no level is cut off. When a level is cut off its factor is 0 but the
  previous level's value is still added to the sum, and part of the bucket is lost.
\<close>

definition exact_floats :: "rat floats" where
  "exact_floats = \<lparr>f_zero = 0, f_one = 1, f_add = (+), f_mul = (*), f_div = (/),
     f_of_u64 = (\<lambda>v. of_nat (unat v)), f_to_u64 = (\<lambda>x. word_of_int (floor x))\<rparr>"

lemma exact_simps [simp]:
  "f_zero exact_floats = 0" "f_one exact_floats = 1" "f_add exact_floats = (+)"
  "f_mul exact_floats = (*)" "f_div exact_floats = (/)"
  by (simp_all add: exact_floats_def)

definition strategy_ok :: "rat distanceSplitStrategy \<Rightarrow> bool" where
  "strategy_ok s \<longleftrightarrow> length (SplitRatioPow s) = SplitLevel s \<and> (\<forall>x\<in>set (SplitRatioPow s). 0 \<le> x)"

definition factor :: "rat list \<Rightarrow> int \<Rightarrow> rat" where
  "factor m d = m ! nat d"

lemma set_idx_int_Some:
  "0 \<le> d \<Longrightarrow> nat d < length m \<Longrightarrow> set_idx_int m d v = Some (m[nat d := v])"
  by (simp add: set_idx_int_def)

lemma level_loop_sum:
  assumes "strategy_ok s" and "sorted (prev # ds)" and "0 \<le> prev"
    and "\<forall>d\<in>set (prev # ds). nat d < length m" and "0 \<le> factor m prev" and "factor m prev \<le> tv"
  shows "\<exists>S m'. level_loop exact_floats s i level tv ts m prev ds = Some (S, m') \<and>
    length m' = length m \<and> (\<forall>d. 0 \<le> d \<longrightarrow> d \<le> prev \<longrightarrow> factor m' d = factor m d) \<and>
    (\<forall>d\<in>set ds. 0 \<le> factor m' d) \<and> ts + (\<Sum>d\<leftarrow>ds. factor m' d) \<le> S \<and>
    (factor m prev = tv \<longrightarrow> level + card (set ds - {prev}) < SplitLevel s \<longrightarrow>
       i + length ds \<le> SplitCount s \<longrightarrow> ts + (\<Sum>d\<leftarrow>ds. factor m' d) = S)"
  using assms(2-6)
proof (induction ds arbitrary: i level tv ts m prev)
  case (Cons d ds)
  have d: "0 \<le> d" "nat d < length m" "prev \<le> d" "sorted (d # ds)"
    using Cons.prems by auto
  show ?case
  proof (cases "d = prev")
    case True
    obtain S m' where IH: "level_loop exact_floats s (i + 1) level tv (ts + tv) m prev ds = Some (S, m')"
      "length m' = length m" "\<forall>d. 0 \<le> d \<longrightarrow> d \<le> prev \<longrightarrow> factor m' d = factor m d"
      "\<forall>d\<in>set ds. 0 \<le> factor m' d" "ts + tv + (\<Sum>d\<leftarrow>ds. factor m' d) \<le> S"
      "factor m prev = tv \<longrightarrow> level + card (set ds - {prev}) < SplitLevel s \<longrightarrow>
       i + 1 + length ds \<le> SplitCount s \<longrightarrow> ts + tv + (\<Sum>d\<leftarrow>ds. factor m' d) = S"
      using Cons.IH [where prev = prev and m = m and tv = tv and ts = "ts + tv" and i = "i + 1" and level = level]
        Cons.prems by auto
    moreover have "level_loop exact_floats s i level tv ts m prev (d # ds) = Some (S, m')"
      using IH(1) True by simp
    moreover have "factor m' d = factor m prev" using IH(3) True Cons.prems(2) by simp
    ultimately show ?thesis
      using Cons.prems(4,5) True by (intro exI [of _ S] exI [of _ m']) (auto simp: insert_Diff_if)
  next
    case False
    then have lt: "prev < d" using d by simp
    define cutoff where "cutoff = (SplitLevel s \<le> level + 1 \<or> SplitCount s \<le> i)"
    define v where "v = (if cutoff then 0 else SplitRatioPow s ! (level + 1))"
    define tv' where "tv' = (if cutoff then tv else v)"
    define m1 where "m1 = m[nat d := v]"
    have pow: "\<not> cutoff \<Longrightarrow> idx (SplitRatioPow s) (level + 1) = Some v \<and> 0 \<le> v"
      using assms(1) by (auto simp: cutoff_def v_def strategy_ok_def)
    have v: "0 \<le> v" "v \<le> tv'"
      using pow Cons.prems(4,5) by (auto simp: tv'_def v_def)
    have f1: "factor m1 d = v" using d by (simp add: factor_def m1_def)
    have same: "factor m1 x = factor m x" if "0 \<le> x" "x \<le> prev" for x
      using that lt by (simp add: factor_def m1_def nat_eq_iff2 nth_list_update)
    have step: "level_loop exact_floats s i level tv ts m prev (d # ds)
      = level_loop exact_floats s (i + 1) (level + 1) tv' (ts + tv') m1 d ds"
      using False pow d
      by (auto simp: set_idx_int_Some cutoff_def v_def tv'_def m1_def Let_def)
    obtain S m' where IH: "level_loop exact_floats s (i + 1) (level + 1) tv' (ts + tv') m1 d ds = Some (S, m')"
      "length m' = length m" "\<forall>x. 0 \<le> x \<longrightarrow> x \<le> d \<longrightarrow> factor m' x = factor m1 x"
      "\<forall>d\<in>set ds. 0 \<le> factor m' d" "ts + tv' + (\<Sum>d\<leftarrow>ds. factor m' d) \<le> S"
      "factor m1 d = tv' \<longrightarrow> level + 1 + card (set ds - {d}) < SplitLevel s \<longrightarrow>
       i + 1 + length ds \<le> SplitCount s \<longrightarrow> ts + tv' + (\<Sum>d\<leftarrow>ds. factor m' d) = S"
      using Cons.IH [where prev = d and m = m1 and tv = tv' and ts = "ts + tv'" and i = "i + 1"
          and level = "level + 1"] Cons.prems d v f1 by (auto simp: m1_def)
    have fd: "factor m' d = v" using IH(3) d f1 by simp
    have card: "card (set (d # ds) - {prev}) = 1 + card (set ds - {d})"
    proof -
      have "prev \<notin> set (d # ds)" using lt d(4) by auto
      then have "set (d # ds) - {prev} = insert d (set ds)" by auto
      then show ?thesis by (simp only: card.insert_remove [OF finite_set] Suc_eq_plus1_left)
    qed
    have "ts + (\<Sum>d\<leftarrow>d # ds. factor m' d) = S"
      if "factor m prev = tv" "level + card (set (d # ds) - {prev}) < SplitLevel s"
        "i + length (d # ds) \<le> SplitCount s"
    proof -
      have "\<not> cutoff" using that card by (auto simp: cutoff_def)
      then have "tv' = v" by (simp add: tv'_def)
      with IH(6) f1 fd that card show ?thesis by simp
    qed
    moreover have "factor m' x = factor m x" if "0 \<le> x" "x \<le> prev" for x
      using IH(3) same [OF that] that lt by simp
    ultimately show ?thesis
      using IH(1,2,4,5) v fd step by (intro exI [of _ S] exI [of _ m']) auto
  qed
qed simp

text \<open>The sum of the factors of an interval: what \<open>scale\<close> holds for it.\<close>

definition factor_sum :: "rat \<Rightarrow> rat list \<Rightarrow> int list \<Rightarrow> rat" where
  "factor_sum tempSum m dis = (\<Sum>d\<leftarrow>dis. factor m d / tempSum)"

lemma factor_sum_div: "factor_sum S m dis = (\<Sum>d\<leftarrow>dis. factor m d) / S"
  by (induction dis) (auto simp: factor_sum_def add_divide_distrib)

lemma sum_list_sort: "(\<Sum>d\<leftarrow>sort xs. f d :: rat) = (\<Sum>d\<leftarrow>xs. f d)"
  by (metis mset_map mset_sort sum_mset_sum_list)

text \<open>In exact arithmetic the factors of a non-empty interval are not negative and add up to
  at most 1, so a split never distributes more than the bucket holds; they add up to exactly
  1 when there are at most \<open>SplitLevel\<close> different distances and at most \<open>SplitCount\<close> buckets.
\<close>

theorem interval_factors_sum:
  assumes "strategy_ok s" and "dis \<noteq> []" and "\<forall>d\<in>set dis. 0 \<le> d \<and> nat d < length m"
  shows "\<exists>S m'. interval_factors exact_floats s m dis = Some (S, m') \<and> 1 \<le> S \<and>
    (\<forall>d\<in>set dis. 0 \<le> factor m' d) \<and> factor_sum S m' dis \<le> 1 \<and>
    (card (set dis) \<le> SplitLevel s \<longrightarrow> length dis \<le> SplitCount s \<longrightarrow> factor_sum S m' dis = 1)"
proof -
  have "sort dis \<noteq> []" using assms(2) by (metis length_0_conv length_sort)
  then obtain d ds where sort: "sort dis = d # ds" by (cases "sort dis") auto
  have set: "set dis = insert d (set ds)" by (metis sort set_sort list.simps(15))
  have d: "0 \<le> d" "nat d < length m" using assms(3) set by auto
  let ?m = "m[nat d := 1]"
  have f1: "factor ?m d = 1" using d by (simp add: factor_def)
  have sd: "sorted (d # ds)" by (metis sort sorted_sort)
  obtain S m' where L: "level_loop exact_floats s 1 0 1 1 ?m d ds = Some (S, m')"
    "\<forall>x. 0 \<le> x \<longrightarrow> x \<le> d \<longrightarrow> factor m' x = factor ?m x" "\<forall>d\<in>set ds. 0 \<le> factor m' d"
    "1 + (\<Sum>d\<leftarrow>ds. factor m' d) \<le> S"
    "card (set ds - {d}) < SplitLevel s \<longrightarrow> 1 + length ds \<le> SplitCount s \<longrightarrow>
       1 + (\<Sum>d\<leftarrow>ds. factor m' d) = S"
    using level_loop_sum [OF assms(1) sd d(1), of ?m 1 1 0 1] f1 assms(3) set d by auto
  have fd: "factor m' d = 1" using L(2) f1 d by simp
  have sum: "(\<Sum>x\<leftarrow>dis. factor m' x) = 1 + (\<Sum>x\<leftarrow>ds. factor m' x)"
    using sum_list_sort [of "factor m'" dis] sort fd by simp
  have nn: "0 \<le> (\<Sum>x\<leftarrow>ds. factor m' x)" using L(3) by (induction ds) auto
  then have S: "1 \<le> S" using L(4) by simp
  have len: "length dis = 1 + length ds" by (metis length_sort sort length_Cons Suc_eq_plus1_left)
  have card: "card (set dis) = 1 + card (set ds - {d})"
    unfolding set by (simp only: card.insert_remove [OF finite_set] Suc_eq_plus1_left)
  have "interval_factors exact_floats s m dis = Some (S, m')"
    using L(1) d by (simp add: interval_factors_def sort set_idx_int_Some)
  moreover have "factor_sum S m' dis \<le> 1"
    using sum L(4) S by (simp add: factor_sum_div)
  moreover have "factor_sum S m' dis = 1"
    if "card (set dis) \<le> SplitLevel s" "length dis \<le> SplitCount s"
    using L(5) that card len sum S by (simp add: factor_sum_div)
  moreover have "\<forall>x\<in>set dis. 0 \<le> factor m' x" using set fd L(3) by auto
  ultimately show ?thesis using S by blast
qed

definition demo_strategy :: "rat distanceSplitStrategy" where
  "demo_strategy = \<lparr>SplitLevel = 2, SplitCount = 2, SplitRatioPow = [1, 1/2]\<rparr>"

theorem interval_factors_sum_witness:
  "\<exists>S m'. interval_factors exact_floats demo_strategy [0, 0, 0] [1, 2] = Some (S, m') \<and>
    factor_sum S m' [1, 2] = 1"
proof -
  have "strategy_ok demo_strategy" "card (set [1, 2 :: int]) \<le> SplitLevel demo_strategy"
    "length [1, 2 :: int] \<le> SplitCount demo_strategy"
    by (simp_all add: demo_strategy_def strategy_ok_def)
  moreover have "\<forall>d\<in>set [1, 2]. 0 \<le> d \<and> nat d < length [0, 0, 0 :: rat]" by simp
  ultimately show ?thesis using interval_factors_sum [of demo_strategy "[1, 2]" "[0, 0, 0]"] by auto
qed

text \<open>
  With three buckets and room for two, the third bucket's factor is 0 while the second's
  is counted twice in the sum, and the factors add up to \<open>3/4\<close>: a quarter of the bucket's
  value is distributed to nobody.
\<close>

theorem interval_factors_loss:
  "interval_factors exact_floats demo_strategy [0, 0, 0, 0] [0, 1, 2] = Some (2, [1, 1/2, 0, 0]) \<and>
   factor_sum 2 [1, 1/2, 0, 0] [0, 1, 2] = 3/4"
  by (simp add: interval_factors_def demo_strategy_def set_idx_int_def factor_sum_def factor_def
      numeral_2_eq_2)

end
