(* ===== verification/TidbProxy.thy ===== *)
theory TidbProxy
  imports GoStrings
begin

text \<open>
  The TCP proxy in front of the TiDB instances (\<open>pkg/tidb/proxy.go\<close>).

  \<open>remotes\<close> is an association list: its order is the one in which \<open>sync.Map.Range\<close> visits the
  entries, and no statement depends on it. A pointer to a remote is its key in the map. Whether a
  connection to an address can be opened is a parameter \<open>dial\<close> of the operations that dial. The
  operations are taken one at a time.
\<close>

section \<open>\<open>proxy.go\<close>\<close>

record remote =
  rm_addr :: string
  inactive :: bool

definition isActive :: "remote \<Rightarrow> bool" where
  "isActive r = (\<not> inactive r)"

definition becomeInactive :: "remote \<Rightarrow> remote" where
  "becomeInactive r = r\<lparr>inactive := True\<rparr>"

text \<open>The flag of the result: no error.\<close>

definition checkAlive :: "(string \<Rightarrow> bool) \<Rightarrow> remote \<Rightarrow> remote \<times> bool" where
  "checkAlive dial r = (if dial (rm_addr r) then (r\<lparr>inactive := False\<rparr>, True) else (r, False))"

record proxy =
  checkInterval :: int
  dialTimeout :: int
  noAliveRemote :: bool
  remotes :: "(string \<times> remote) list"
  current_key :: string

definition second :: int where "second = 1000000000"

definition newProxy :: "(string \<times> string) list \<Rightarrow> int \<Rightarrow> int \<Rightarrow> proxy" where
  "newProxy endpoints interval timeout =
     (let interval = (if interval \<le> 0 then 2 * second else interval);
          timeout = (if timeout \<le> 0 then 3 * second else timeout)
      in \<lparr>checkInterval = interval, dialTimeout = timeout, noAliveRemote = (length endpoints = 0),
          remotes = map (\<lambda>(key, e). (key, \<lparr>rm_addr = e, inactive = True\<rparr>)) endpoints, current_key = ''''\<rparr>)"

text \<open>\<open>addrs\<close> lists the keys of the map \<open>remotes\<close> that is passed.\<close>

definition store_remote :: "string \<Rightarrow> (string \<times> remote) list \<Rightarrow> (string \<times> remote) list" where
  "store_remote addr rs =
     (if map_of rs addr = None then rs @ [(addr, \<lparr>rm_addr = addr, inactive = True\<rparr>)] else rs)"

definition updateRemotes :: "string list \<Rightarrow> proxy \<Rightarrow> proxy" where
  "updateRemotes addrs p =
     (if length addrs = 0 then p\<lparr>remotes := [], noAliveRemote := True\<rparr>
      else
        let rs = fold store_remote addrs (remotes p);
            rs = filter (\<lambda>(addr, r). addr \<in> set addrs) rs
        in p\<lparr>remotes := rs, noAliveRemote := False\<rparr>)"

definition pick :: "proxy \<Rightarrow> proxy \<times> (string \<times> remote) option" where
  "pick p =
     (let (p, picked) =
        (if current_key p = '''' then
           (case find (\<lambda>(i, r). isActive r) (remotes p) of
              Some (i, r) \<Rightarrow> (p\<lparr>current_key := i\<rparr>, Some (i, r))
            | None \<Rightarrow> (p, None))
         else (p, None))
      in if picked \<noteq> None then (p, picked)
         else if current_key p \<noteq> '''' then
           (case map_of (remotes p) (current_key p) of
              Some r \<Rightarrow> (p, Some (current_key p, r))
            | None \<Rightarrow> (p\<lparr>current_key := ''''\<rparr>, None))
         else (p, None))"

text \<open>The store through the pointer \<open>picked\<close>.\<close>

definition set_remote :: "string \<Rightarrow> (remote \<Rightarrow> remote) \<Rightarrow> proxy \<Rightarrow> proxy" where
  "set_remote key f p = p\<lparr>remotes := map (\<lambda>(k, r). if k = key then (k, f r) else (k, r)) (remotes p)\<rparr>"

text \<open>
  The loop of \<open>pickActiveConn\<close>: the address that was connected to, and all the addresses
  that were dialled.
\<close>

definition active_count :: "proxy \<Rightarrow> nat" where
  "active_count p = length (filter (\<lambda>(k, r). isActive r) (remotes p))"

definition pick_measure :: "proxy \<Rightarrow> nat" where
  "pick_measure p = 2 * active_count p + (if current_key p \<noteq> '''' then 1 else 0)"

lemma pick_cases:
  assumes "pick p = (p', Some (k, r))"
  shows "(k, r) \<in> set (remotes p) \<and> p' = p\<lparr>current_key := k\<rparr> \<and>
    (current_key p = '''' \<and> isActive r \<or> current_key p = k \<and> k \<noteq> '''')"
proof (cases "current_key p = ''''")
  case True
  then have f: "find (\<lambda>(i, r). isActive r) (remotes p) = Some (k, r)" "p' = p\<lparr>current_key := k\<rparr>"
    using assms by (auto simp: pick_def split: option.splits)
  from f(1) have "(k, r) \<in> set (remotes p)" "isActive r" by (auto simp: find_Some_iff) (metis nth_mem)
  with f True show ?thesis by simp
next
  case False
  then show ?thesis using assms by (auto simp: pick_def dest: map_of_SomeD split: option.splits)
qed

definition quench :: "string \<Rightarrow> (string \<times> remote) list \<Rightarrow> (string \<times> remote) list" where
  "quench key rs = map (\<lambda>(k, r). if k = key then (k, becomeInactive r) else (k, r)) rs"

lemma inactive_count:
  "length (filter (\<lambda>(k, r). isActive r) (quench key rs)) \<le> length (filter (\<lambda>(k, r). isActive r) rs)"
  by (induction rs) (auto simp: quench_def isActive_def becomeInactive_def split: if_splits)

lemma inactive_count_less:
  "(key, r) \<in> set rs \<Longrightarrow> isActive r \<Longrightarrow>
    length (filter (\<lambda>(k, r). isActive r) (quench key rs)) < length (filter (\<lambda>(k, r). isActive r) rs)"
proof (induction rs)
  case (Cons a rs)
  then show ?case using inactive_count [of key rs]
    by (cases a) (auto simp: quench_def isActive_def becomeInactive_def le_imp_less_Suc split: if_splits)
qed simp

lemma pick_measure_less:
  assumes "pick p = (p', Some (k, r))"
  shows "pick_measure (set_remote k becomeInactive (p'\<lparr>current_key := ''''\<rparr>)) < pick_measure p"
proof -
  note c = pick_cases [OF assms]
  have le: "active_count (set_remote k becomeInactive (p'\<lparr>current_key := ''''\<rparr>)) \<le> active_count p"
    using c inactive_count by (simp add: active_count_def set_remote_def quench_def)
  show ?thesis
  proof (cases "current_key p = ''''")
    case True
    then have "active_count (set_remote k becomeInactive (p'\<lparr>current_key := ''''\<rparr>)) < active_count p"
      using c inactive_count_less [of k r "remotes p"] by (auto simp: active_count_def set_remote_def quench_def)
    then show ?thesis by (simp add: pick_measure_def set_remote_def)
  qed (use le in \<open>simp add: pick_measure_def set_remote_def\<close>)
qed

function pick_loop :: "(string \<Rightarrow> bool) \<Rightarrow> proxy \<Rightarrow> proxy \<times> string option \<times> string list" where
  "pick_loop dial p =
     (case pick p of
        (p, None) \<Rightarrow> (p, None, [])
      | (p, Some (key, picked)) \<Rightarrow>
          if dial (rm_addr picked) then (p, Some (rm_addr picked), [rm_addr picked])
          else
            let (p, out, dialled) = pick_loop dial (set_remote key becomeInactive (p\<lparr>current_key := ''''\<rparr>))
            in (p, out, rm_addr picked # dialled))"
  by pat_completeness auto
termination
  by (relation "measure (\<lambda>(dial, p). pick_measure p)") (auto dest: pick_measure_less [OF sym])

declare pick_loop.simps [simp del]

definition pickActiveConn :: "(string \<Rightarrow> bool) \<Rightarrow> proxy \<Rightarrow> proxy \<times> string option \<times> string list" where
  "pickActiveConn dial p =
     (let (p, out, dialled) = pick_loop dial p in (p\<lparr>noAliveRemote := (out = None)\<rparr>, out, dialled))"

text \<open>What becomes of an incoming connection.\<close>

datatype served = Dropped | Forwarded string

definition serve :: "(string \<Rightarrow> bool) \<Rightarrow> proxy \<Rightarrow> proxy \<times> served" where
  "serve dial p =
     (let (p, out, dialled) = pickActiveConn dial p
      in (p, case out of None \<Rightarrow> Dropped | Some addr \<Rightarrow> Forwarded addr))"

text \<open>One round of \<open>doCheck\<close>, all its checks done.\<close>

definition check_round :: "(string \<Rightarrow> bool) \<Rightarrow> proxy \<Rightarrow> proxy" where
  "check_round dial p =
     p\<lparr>remotes := map (\<lambda>(k, r). (k, if isActive r then r else fst (checkAlive dial r))) (remotes p)\<rparr>"

section \<open>Which remote a connection gets\<close>

definition keys_distinct_p :: "proxy \<Rightarrow> bool" where
  "keys_distinct_p p \<longleftrightarrow> distinct (map fst (remotes p))"

definition current_known :: "proxy \<Rightarrow> bool" where
  "current_known p \<longleftrightarrow> current_key p = '''' \<or> current_key p \<in> fst ` set (remotes p)"

lemma set_remote_keys [simp]: "map fst (remotes (set_remote k f p)) = map fst (remotes p)"
  by (simp add: set_remote_def split_beta comp_def cong: if_cong)

lemma set_remote_current [simp]: "current_key (set_remote k f p) = current_key p"
  by (simp add: set_remote_def)

lemma set_remote_addrs: "map (rm_addr \<circ> snd) (remotes (set_remote k becomeInactive p)) = map (rm_addr \<circ> snd) (remotes p)"
  by (simp add: set_remote_def becomeInactive_def split_beta comp_def)

lemma addrs_image: "(\<lambda>(k, r). rm_addr r) ` set rs = set (map (rm_addr \<circ> snd) rs)"
  by (simp add: split_beta comp_def)

lemma pick_None:
  assumes "pick p = (p', None)"
  shows "if current_known p then current_key p = '''' \<and> (\<forall>(k, r)\<in>set (remotes p). \<not> isActive r)
    else p' = p\<lparr>current_key := ''''\<rparr>"
proof (cases "current_key p = ''''")
  case True
  then have "find (\<lambda>(i, r). isActive r) (remotes p) = None"
    using assms by (auto simp: pick_def split: option.splits)
  then show ?thesis using True by (auto simp: find_None_iff current_known_def)
next
  case False
  then have "map_of (remotes p) (current_key p) = None" "p' = p\<lparr>current_key := ''''\<rparr>"
    using assms by (auto simp: pick_def split: option.splits)
  then show ?thesis using False by (simp add: current_known_def map_of_eq_None_iff)
qed

lemma active_survives:
  assumes "keys_distinct_p p" and "(k, r) \<in> set (remotes p)" and "\<not> dial (rm_addr r)"
    and "\<exists>(k, r)\<in>set (remotes p). isActive r \<and> dial (rm_addr r)"
  shows "\<exists>(k, r)\<in>set (remotes (set_remote k becomeInactive p)). isActive r \<and> dial (rm_addr r)"
proof -
  obtain k' r' where r': "(k', r') \<in> set (remotes p)" "isActive r'" "dial (rm_addr r')" using assms(4) by blast
  have "k' \<noteq> k"
  proof
    assume "k' = k"
    then have "r' = r" using eq_key_imp_eq_value [of "remotes p" k r' r] r'(1) assms(1,2) by (simp add: keys_distinct_p_def)
    then show False using r'(3) assms(3) by simp
  qed
  then have "(k', r') \<in> set (remotes (set_remote k becomeInactive p))" using r'(1) by (force simp: set_remote_def)
  then show ?thesis using r'(2,3) by blast
qed

lemma pick_loop_spec:
  assumes "pick_loop dial p = (p', out, dialled)" and "keys_distinct_p p"
  shows "(\<forall>a. out = Some a \<longrightarrow> dial a \<and> a \<in> (\<lambda>(k, r). rm_addr r) ` set (remotes p) \<and>
      (\<exists>fails. dialled = fails @ [a] \<and> (\<forall>x\<in>set fails. \<not> dial x))) \<and>
    (out = None \<longrightarrow> (\<forall>x\<in>set dialled. \<not> dial x)) \<and> length dialled \<le> active_count p + (if current_key p = '''' then 0 else 1) \<and>
    (current_known p \<longrightarrow> (\<exists>(k, r)\<in>set (remotes p). isActive r \<and> dial (rm_addr r)) \<longrightarrow> out \<noteq> None)"
  using assms
proof (induction dial p arbitrary: p' out dialled rule: pick_loop.induct)
  case (1 dial p)
  obtain q sel where pk: "pick p = (q, sel)" by fastforce
  show ?case
  proof (cases sel)
    case None
    then have "out = None" "dialled = []" using 1(2) pk by (simp_all add: pick_loop.simps)
    moreover have "\<not> (current_known p \<and> (\<exists>(k, r)\<in>set (remotes p). isActive r \<and> dial (rm_addr r)))"
      using pick_None [OF pk [unfolded None]] by (auto split: if_splits)
    ultimately show ?thesis by auto
  next
    case (Some kr)
    obtain k r where kr: "kr = (k, r)" by fastforce
    note c = pick_cases [OF pk [unfolded Some kr]]
    show ?thesis
    proof (cases "dial (rm_addr r)")
      case True
      then have "out = Some (rm_addr r)" "dialled = [rm_addr r]" using 1(2) pk Some kr by (simp_all add: pick_loop.simps)
      moreover have "1 \<le> active_count p + (if current_key p = '''' then 0 else 1)"
        using c by (cases "active_count p") (auto simp: active_count_def filter_empty_conv)
      moreover have "rm_addr r \<in> (\<lambda>(k, r). rm_addr r) ` set (remotes p)" using c by force
      ultimately show ?thesis using True by simp
    next
      case False
      let ?p = "set_remote k becomeInactive (q\<lparr>current_key := ''''\<rparr>)"
      obtain ds where rec: "pick_loop dial ?p = (p', out, ds)" "dialled = rm_addr r # ds"
        using 1(2) pk Some kr False by (auto simp: pick_loop.simps split: prod.splits)
      have q: "q\<lparr>current_key := ''''\<rparr> = p\<lparr>current_key := ''''\<rparr>" using c by simp
      have d: "keys_distinct_p ?p" using 1(3) q by (simp add: keys_distinct_p_def)
      note IH = 1(1) [OF pk [symmetric] Some kr [symmetric] False rec(1) d]
      have addrs: "(\<lambda>(k, r). rm_addr r) ` set (remotes ?p) = (\<lambda>(k, r). rm_addr r) ` set (remotes p)"
        unfolding addrs_image set_remote_addrs q by simp
      have known: "current_known ?p" unfolding q by (simp add: current_known_def)
      have len: "length ds + 1 \<le> active_count p + (if current_key p = '''' then 0 else 1)"
      proof (cases "isActive r")
        case True
        then have "active_count ?p < active_count p"
          using c q inactive_count_less [of k r "remotes p"] by (simp add: active_count_def set_remote_def quench_def)
        then show ?thesis using IH by (simp add: q)
      next
        case False
        have "active_count ?p \<le> active_count p"
          using q inactive_count [of k "remotes p"] by (simp add: active_count_def set_remote_def quench_def)
        then show ?thesis using IH c False by (simp add: q)
      qed
      have surv: "\<exists>(k, r)\<in>set (remotes ?p). isActive r \<and> dial (rm_addr r)"
        if "\<exists>(k, r)\<in>set (remotes p). isActive r \<and> dial (rm_addr r)"
        using active_survives [of "p\<lparr>current_key := ''''\<rparr>" k r dial] 1(3) c False that unfolding q
        by (simp add: keys_distinct_p_def)
      have "\<exists>fails. dialled = fails @ [a] \<and> (\<forall>x\<in>set fails. \<not> dial x)" if a: "out = Some a" for a
      proof -
        obtain fails where "ds = fails @ [a]" "\<forall>x\<in>set fails. \<not> dial x" using IH a by blast
        then show ?thesis using rec(2) False by (intro exI [of _ "rm_addr r # fails"]) simp
      qed
      moreover have "\<forall>a. out = Some a \<longrightarrow> dial a \<and> a \<in> (\<lambda>(k, r). rm_addr r) ` set (remotes p)"
        using IH unfolding addrs by blast
      moreover have "out = None \<longrightarrow> (\<forall>x\<in>set dialled. \<not> dial x)" using IH rec(2) False by simp
      moreover have "current_known p \<longrightarrow> (\<exists>(k, r)\<in>set (remotes p). isActive r \<and> dial (rm_addr r)) \<longrightarrow> out \<noteq> None"
        using IH known surv by blast
      ultimately show ?thesis using len rec(2) by simp
    qed
  qed
qed

text \<open>
  C34: a connection is forwarded to a remote that accepts it whenever the current remote is still
  known and some active remote accepts connections; the loop that looks for it dials every
  active remote at most once, and the current one. The proxy reports that it has no remote
  alive exactly when the connection is dropped.
\<close>

theorem pickActiveConn_live:
  assumes "pickActiveConn dial p = (p', out, dialled)" and "keys_distinct_p p"
  shows "(\<forall>a. out = Some a \<longrightarrow> dial a \<and> a \<in> (\<lambda>(k, r). rm_addr r) ` set (remotes p) \<and>
      (\<exists>fails. dialled = fails @ [a] \<and> (\<forall>x\<in>set fails. \<not> dial x))) \<and>
    length dialled \<le> active_count p + 1 \<and>
    noAliveRemote p' = (out = None) \<and>
    (current_known p \<longrightarrow> (\<exists>(k, r)\<in>set (remotes p). isActive r \<and> dial (rm_addr r)) \<longrightarrow> out \<noteq> None)"
proof -
  obtain q where q: "pick_loop dial p = (q, out, dialled)" "p' = q\<lparr>noAliveRemote := (out = None)\<rparr>"
    using assms(1) by (auto simp: pickActiveConn_def split: prod.splits)
  note spec = pick_loop_spec [OF q(1) assms(2)]
  then have "length dialled \<le> active_count p + 1" by (cases "current_key p = ''''") simp_all
  then show ?thesis using spec q(2) by simp
qed

definition demo_proxy :: proxy where
  "demo_proxy = \<lparr>checkInterval = 1, dialTimeout = 1, noAliveRemote = False,
     remotes = [(''a'', \<lparr>rm_addr = ''a'', inactive = False\<rparr>), (''b'', \<lparr>rm_addr = ''b'', inactive = False\<rparr>)], current_key = ''a''\<rparr>"

theorem pickActiveConn_live_witness:
  "\<exists>p' dialled. pickActiveConn (\<lambda>a. a = ''b'') demo_proxy = (p', Some ''b'', dialled) \<and> length dialled \<le> 3 \<and> \<not> noAliveRemote p'"
proof -
  obtain p' out ds where P: "pickActiveConn (\<lambda>a. a = ''b'') demo_proxy = (p', out, ds)" by (metis prod_cases3)
  have d: "keys_distinct_p demo_proxy" by (simp add: keys_distinct_p_def demo_proxy_def)
  have "current_known demo_proxy" "\<exists>(k, r)\<in>set (remotes demo_proxy). isActive r \<and> rm_addr r = ''b''" "active_count demo_proxy = 2"
    by (simp_all add: current_known_def demo_proxy_def isActive_def active_count_def)
  then show ?thesis using pickActiveConn_live [OF P d] P by (cases out) auto
qed

text \<open>When an update has removed the current remote, the next connection is dropped and the proxy
  reports that no remote is alive, even if every remote it has is active and accepts
  connections: \<open>updateRemotes\<close> leaves \<open>current\<close> as it is, and \<open>pick\<close> then gives up.
\<close>

theorem stale_current_drops:
  assumes "current_key p \<noteq> ''''" and "current_key p \<notin> set addrs" and "addrs \<noteq> []"
  shows "serve dial (updateRemotes addrs p) =
    ((updateRemotes addrs p)\<lparr>current_key := '''', noAliveRemote := True\<rparr>, Dropped)"
proof -
  let ?q = "updateRemotes addrs p"
  have cur: "current_key ?q = current_key p" by (simp add: updateRemotes_def Let_def)
  have "map_of (remotes ?q) (current_key p) = None"
    using assms(2,3) by (auto simp: updateRemotes_def Let_def map_of_eq_None_iff)
  then have "pick ?q = (?q\<lparr>current_key := ''''\<rparr>, None)" using assms(1) cur by (simp add: pick_def)
  then have "pick_loop dial ?q = (?q\<lparr>current_key := ''''\<rparr>, None, [])" by (simp add: pick_loop.simps)
  then show ?thesis by (simp add: serve_def pickActiveConn_def)
qed

theorem stale_current_drops_witness:
  "snd (serve (\<lambda>a. True) (updateRemotes [''b''] demo_proxy)) = Dropped \<and>
    list_all (\<lambda>(k, r). isActive r) (remotes (updateRemotes [''b''] demo_proxy))"
proof -
  have h: "current_key demo_proxy \<noteq> ''''" "current_key demo_proxy \<notin> set [''b'']" "[''b''] \<noteq> []" by (simp_all add: demo_proxy_def)
  show ?thesis using stale_current_drops [OF h, of "\<lambda>a. True"]
    by (simp add: updateRemotes_def demo_proxy_def store_remote_def isActive_def)
qed

end
