(* ===== verification/Topology.thy ===== *)
theory Topology
  imports GoStrings "HOL-Library.AList" "HOL-Library.Product_Lexorder" "HOL-Library.Multiset"
begin

text \<open>
  The topology of the cluster (\<open>pkg/utils/topology\<close>) and the parsing of addresses
  (\<open>util/netutil\<close>).

  What etcd and PD answer is an argument: \<open>None\<close> for a failed request, otherwise the key-value
  pairs or, where the source decodes JSON into a struct, the decoded value (\<open>None\<close> when it does
  not decode). A Go map is an association list; its order, which Go leaves open, is the one
  of insertion here and nothing depends on it. \<open>sort.Slice\<close> is the stable sort, Go's is not.
\<close>

section \<open>\<open>util/netutil\<close>\<close>

definition IndexByte :: "string \<Rightarrow> char \<Rightarrow> nat option" where
  "IndexByte s c =
     (let n = length (takeWhile (\<lambda>d. d \<noteq> c) s) in if n < length s then Some n else None)"

definition LastIndexByte :: "string \<Rightarrow> char \<Rightarrow> nat option" where
  "LastIndexByte s c = map_option (\<lambda>n. length s - 1 - n) (IndexByte (rev s) c)"

text \<open>\<open>net.SplitHostPort\<close>; \<open>None\<close> is an error.\<close>

definition SplitHostPort :: "string \<Rightarrow> (string \<times> string) option" where
  "SplitHostPort hostport = do {
     i \<leftarrow> LastIndexByte hostport (CHR '':'');
     (host, j, k) \<leftarrow>
       (if hostport ! 0 = CHR ''['' then do {
          e \<leftarrow> IndexByte hostport (CHR '']'');
          (if e + 1 = i then Some (take (e - 1) (drop 1 hostport), 1, e + 1) else None)
        } else
          let host = take i hostport
          in if IndexByte host (CHR '':'') \<noteq> None then None else Some (host, 0, 0));
     (if IndexByte (drop j hostport) (CHR ''['') \<noteq> None then None
      else if IndexByte (drop k hostport) (CHR '']'') \<noteq> None then None
      else Some (host, drop (i + 1) hostport))
   }"

text \<open>\<open>strconv.Atoi\<close> parses an \<open>int\<close> of 64 bits, and \<open>uint\<close> converts it.\<close>

definition ParseHostAndPortFromAddress :: "string \<Rightarrow> (string \<times> u64) option" where
  "ParseHostAndPortFromAddress address = do {
     (host, port) \<leftarrow> SplitHostPort address;
     portNumeric \<leftarrow> ParseInt port;
     (if portNumeric = 0 then None else Some (host, word_of_int portNumeric))
   }"

text \<open>\<open>url_host\<close> is the host part that \<open>url.Parse\<close> finds.\<close>

definition ParseHostAndPortFromAddressURL :: "(string \<Rightarrow> string option) \<Rightarrow> string \<Rightarrow> (string \<times> u64) option" where
  "ParseHostAndPortFromAddressURL url_host urlString = do {
     host \<leftarrow> url_host urlString;
     ParseHostAndPortFromAddress host
   }"

section \<open>\<open>models.go\<close>\<close>

datatype ComponentStatus =
    ComponentStatusUnreachable
  | ComponentStatusUp
  | ComponentStatusTombstone
  | ComponentStatusOffline
  | ComponentStatusDown

record PDInfo =
  pi_GitHash :: string
  pi_Version :: string
  pi_IP :: string
  pi_Port :: u64
  pi_DeployPath :: string
  pi_Status :: ComponentStatus
  pi_StartTimestamp :: int

record TiDBInfo =
  ti_GitHash :: string
  ti_Version :: string
  ti_IP :: string
  ti_Port :: u64
  ti_DeployPath :: string
  ti_Status :: ComponentStatus
  ti_StatusPort :: u64
  ti_StartTimestamp :: int

record StoreInfo =
  si_GitHash :: string
  si_Version :: string
  si_IP :: string
  si_Port :: u64
  si_DeployPath :: string
  si_Status :: ComponentStatus
  si_StatusPort :: u64
  si_Labels :: "string \<rightharpoonup> string"
  si_StartTimestamp :: int

record StoreLabels =
  sl_Address :: string
  sl_Labels :: "string \<rightharpoonup> string"

record StoreLocation =
  LocationLabels :: "string list"
  loc_Stores :: "StoreLabels list"

record StandardComponentInfo =
  sc_IP :: string
  sc_Port :: u64

datatype topology_error = ErrEtcdRequestFailed | ErrInvalidTopologyData | ErrPDRequest

section \<open>\<open>topology.go\<close>\<close>

text \<open>The etcd answer lists the keys with the prefix \<open>/topology/<component>\<close>; the values are decoded.\<close>

definition fetchStandardComponentTopology ::
  "(string \<times> StandardComponentInfo option) list option \<Rightarrow> topology_error + StandardComponentInfo option" where
  "fetchStandardComponentTopology resp =
     (case resp of
        None \<Rightarrow> Inl ErrEtcdRequestFailed
      | Some [] \<Rightarrow> Inr None
      | Some ((k, info) # kvs) \<Rightarrow> Inr info)"

section \<open>\<open>tidb.go\<close>\<close>

definition tidbTopologyKeyPrefix :: string where "tidbTopologyKeyPrefix = ''/topology/tidb/''"

record tidb_info_json =
  js_version :: string
  js_git_hash :: string
  js_status_port :: u64
  js_deploy_path :: string
  js_start_timestamp :: int

definition parseTiDBInfo :: "string \<Rightarrow> tidb_info_json option \<Rightarrow> topology_error + TiDBInfo" where
  "parseTiDBInfo address v =
     (case v of
        None \<Rightarrow> Inl ErrInvalidTopologyData
      | Some ds \<Rightarrow>
          (case ParseHostAndPortFromAddress address of
             None \<Rightarrow> Inl ErrInvalidTopologyData
           | Some (hostname, port) \<Rightarrow>
               Inr \<lparr>ti_GitHash = js_git_hash ds, ti_Version = js_version ds, ti_IP = hostname, ti_Port = port,
                    ti_DeployPath = js_deploy_path ds, ti_Status = ComponentStatusUnreachable,
                    ti_StatusPort = js_status_port ds, ti_StartTimestamp = js_start_timestamp ds\<rparr>))"

text \<open>\<open>strconv.ParseUint(s, 10, 64)\<close>.\<close>

definition ParseUint :: "string \<Rightarrow> u64 option" where
  "ParseUint s = (if s = '''' then None else do {
     n \<leftarrow> parse_digits 0 s;
     (if n < 2 ^ 64 then Some (of_nat n) else None)
   })"

text \<open>\<open>now\<close> is the current time in nanoseconds; the stored number is converted to \<open>int64\<close>.\<close>

definition alive_within :: "int \<Rightarrow> int \<Rightarrow> string \<Rightarrow> topology_error + bool" where
  "alive_within seconds now v =
     (case ParseUint v of
        None \<Rightarrow> Inl ErrInvalidTopologyData
      | Some ts \<Rightarrow> Inr (\<not> (seconds * 1000000000 < now - sint ts)))"

definition parseTiDBAliveness :: "int \<Rightarrow> string \<Rightarrow> topology_error + bool" where
  "parseTiDBAliveness now v = alive_within 45 now v"

text \<open>\<open>dec\<close> is \<open>json.Unmarshal\<close> into the struct of \<open>parseTiDBInfo\<close>. The second set holds the
  addresses that are alive.\<close>

definition tidb_entry ::
  "(string \<Rightarrow> tidb_info_json option) \<Rightarrow> int \<Rightarrow> string \<times> string \<Rightarrow>
   (string \<times> TiDBInfo) list \<times> string list \<Rightarrow> (string \<times> TiDBInfo) list \<times> string list" where
  "tidb_entry dec now = (\<lambda>(key, v) (nodesInfo, nodesAlive).
     if \<not> prefix_at tidbTopologyKeyPrefix key then (nodesInfo, nodesAlive)
     else
       let keyParts = strings_Split (drop (length tidbTopologyKeyPrefix) key) ''/'' in
       if length keyParts \<noteq> 2 then (nodesInfo, nodesAlive)
       else if keyParts ! 1 = ''info'' then
         (case parseTiDBInfo (keyParts ! 0) (dec v) of
            Inr node \<Rightarrow> (AList.update (keyParts ! 0) node nodesInfo, nodesAlive)
          | Inl err \<Rightarrow> (nodesInfo, nodesAlive))
       else if keyParts ! 1 = ''ttl'' then
         (case parseTiDBAliveness now v of
            Inr alive \<Rightarrow> (nodesInfo, List.insert (keyParts ! 0) nodesAlive)
          | Inl err \<Rightarrow> (nodesInfo, nodesAlive))
       else (nodesInfo, nodesAlive))"

definition FetchTiDBTopology ::
  "(string \<Rightarrow> tidb_info_json option) \<Rightarrow> int \<Rightarrow> (string \<times> string) list option \<Rightarrow> topology_error + TiDBInfo list" where
  "FetchTiDBTopology dec now resp =
     (case resp of
        None \<Rightarrow> Inl ErrEtcdRequestFailed
      | Some kvs \<Rightarrow>
          let (nodesInfo, nodesAlive) = fold (tidb_entry dec now) kvs ([], []);
              nodes = map (\<lambda>(addr, info). if addr \<in> set nodesAlive then info\<lparr>ti_Status := ComponentStatusUp\<rparr> else info) nodesInfo
          in Inr (sort_key (\<lambda>n. (ti_IP n, ti_Port n)) nodes))"

section \<open>\<open>store.go\<close>\<close>

record store_json =
  st_address :: string
  st_labels :: "(string \<times> string) list"
  st_state_name :: string
  st_version :: string
  st_status_address :: string
  st_git_hash :: string
  st_deploy_path :: string
  st_start_timestamp :: int

text \<open>\<open>strings.Trim(s, cutset)\<close> and \<open>strings.ToLower\<close> on ASCII letters.\<close>

definition strings_Trim :: "string \<Rightarrow> char set \<Rightarrow> string" where
  "strings_Trim s cs = rev (dropWhile (\<lambda>c. c \<in> cs) (rev (dropWhile (\<lambda>c. c \<in> cs) s)))"

definition newline :: char where "newline = char_of (10 :: nat)"

definition parseStoreState :: "string \<Rightarrow> ComponentStatus" where
  "parseStoreState state =
     (let state = strings_Trim (to_lower state) {newline, CHR '' ''} in
      if state = ''up'' then ComponentStatusUp
      else if state = ''tombstone'' then ComponentStatusTombstone
      else if state = ''offline'' then ComponentStatusOffline
      else if state = ''down'' then ComponentStatusDown
      else if state = ''disconnected'' then ComponentStatusUnreachable
      else ComponentStatusUnreachable)"

definition label_map :: "(string \<times> string) list \<Rightarrow> string \<rightharpoonup> string" where
  "label_map ls = fold (\<lambda>(k, v) m. m(k \<mapsto> v)) ls Map.empty"

definition store_info :: "store_json \<Rightarrow> StoreInfo option" where
  "store_info v = do {
     (hostname, port) \<leftarrow> ParseHostAndPortFromAddress (st_address v);
     (_, statusPort) \<leftarrow> ParseHostAndPortFromAddress (st_status_address v);
     let version = strings_Trim (st_version v) {newline, CHR '' ''};
     let version = (if \<not> prefix_at ''v'' version then ''v'' @ version else version);
     Some \<lparr>si_GitHash = st_git_hash v, si_Version = version, si_IP = hostname, si_Port = port,
       si_DeployPath = st_deploy_path v, si_Status = parseStoreState (st_state_name v), si_StatusPort = statusPort,
       si_Labels = label_map (st_labels v), si_StartTimestamp = st_start_timestamp v\<rparr>
   }"

definition buildStoreTopology :: "store_json list \<Rightarrow> StoreInfo list" where
  "buildStoreTopology stores = List.map_filter store_info stores"

text \<open>\<open>resp\<close> is the answer of \<open>/stores\<close>, decoded.\<close>

definition fetchStores :: "store_json list option option \<Rightarrow> topology_error + store_json list" where
  "fetchStores resp =
     (case resp of
        None \<Rightarrow> Inl ErrPDRequest
      | Some None \<Rightarrow> Inl ErrInvalidTopologyData
      | Some (Some stores) \<Rightarrow> Inr (sort_key st_address stores))"

definition is_TiFlash :: "store_json \<Rightarrow> bool" where
  "is_TiFlash s \<longleftrightarrow> (\<exists>(k, v)\<in>set (st_labels s). k = ''engine'' \<and> v = ''tiflash'')"

definition FetchStoreTopology ::
  "store_json list option option \<Rightarrow> topology_error + StoreInfo list \<times> StoreInfo list" where
  "FetchStoreTopology resp =
     (case fetchStores resp of
        Inl err \<Rightarrow> Inl err
      | Inr stores \<Rightarrow>
          let (tiKVStores, tiFlashStores) =
            fold (\<lambda>s (kv, fl). if is_TiFlash s then (kv, fl @ [s]) else (kv @ [s], fl)) stores ([], [])
          in Inr (buildStoreTopology tiKVStores, buildStoreTopology tiFlashStores))"

definition fetchLocationLabels :: "string option option \<Rightarrow> topology_error + string list" where
  "fetchLocationLabels resp =
     (case resp of
        None \<Rightarrow> Inl ErrPDRequest
      | Some None \<Rightarrow> Inl ErrInvalidTopologyData
      | Some (Some ls) \<Rightarrow> Inr (strings_Split ls '',''))"

definition FetchStoreLocation ::
  "string option option \<Rightarrow> store_json list option option \<Rightarrow> topology_error + StoreLocation" where
  "FetchStoreLocation labels resp =
     (case fetchLocationLabels labels of
        Inl err \<Rightarrow> Inl err
      | Inr locationLabels \<Rightarrow>
          (case fetchStores resp of
             Inl err \<Rightarrow> Inl err
           | Inr stores \<Rightarrow>
               Inr \<lparr>LocationLabels = locationLabels,
                    loc_Stores = map (\<lambda>s. \<lparr>sl_Address = st_address s, sl_Labels = label_map (st_labels s)\<rparr>) stores\<rparr>))"

section \<open>\<open>pd.go\<close>\<close>

record member_json =
  mj_git_hash :: string
  mj_client_urls :: "string list"
  mj_deploy_path :: string
  mj_binary_version :: string
  mj_member_id :: u64

text \<open>The map of the members whose health is true, as the list of its keys.\<close>

definition fetchPDHealth :: "(u64 \<times> bool) list option option \<Rightarrow> topology_error + u64 list" where
  "fetchPDHealth resp =
     (case resp of
        None \<Rightarrow> Inl ErrPDRequest
      | Some None \<Rightarrow> Inl ErrInvalidTopologyData
      | Some (Some healths) \<Rightarrow>
          Inr (fold (\<lambda>(member_id, health) memberHealth. if health then List.insert member_id memberHealth else memberHealth) healths []))"

definition fetchPDStartTimestamp :: "int option option \<Rightarrow> topology_error + int" where
  "fetchPDStartTimestamp resp =
     (case resp of
        None \<Rightarrow> Inl ErrPDRequest
      | Some None \<Rightarrow> Inl ErrInvalidTopologyData
      | Some (Some ts) \<Rightarrow> Inr ts)"

text \<open>
  The loop over the members. \<open>start i\<close> is the answer to the \<open>i\<close>-th request of \<open>/status\<close>;
  the index \<open>ClientUrls[0]\<close> panics on an empty list.
\<close>

fun pd_members ::
  "(string \<Rightarrow> string option) \<Rightarrow> u64 list \<Rightarrow> (nat \<Rightarrow> int option option) \<Rightarrow> member_json list \<Rightarrow> PDInfo list \<Rightarrow> PDInfo list option" where
  "pd_members url_host healthMap start [] nodes = Some nodes"
| "pd_members url_host healthMap start (ds # members) nodes = do {
     u \<leftarrow> idx (mj_client_urls ds) 0;
     (case ParseHostAndPortFromAddressURL url_host u of
        None \<Rightarrow> pd_members url_host healthMap start members nodes
      | Some (hostname, port) \<Rightarrow>
          let ts = (case fetchPDStartTimestamp (start (length nodes)) of Inl err \<Rightarrow> 0 | Inr ts \<Rightarrow> ts);
              storeStatus = (if mj_member_id ds \<in> set healthMap then ComponentStatusUp else ComponentStatusUnreachable)
          in pd_members url_host healthMap start members
               (nodes @ [\<lparr>pi_GitHash = mj_git_hash ds, pi_Version = mj_binary_version ds, pi_IP = hostname, pi_Port = port,
                  pi_DeployPath = mj_deploy_path ds, pi_Status = storeStatus, pi_StartTimestamp = ts\<rparr>]))
   }"

definition FetchPDTopology ::
  "(string \<Rightarrow> string option) \<Rightarrow> (u64 \<times> bool) list option option \<Rightarrow> member_json list option option \<Rightarrow>
   (nat \<Rightarrow> int option option) \<Rightarrow> (topology_error + PDInfo list) option" where
  "FetchPDTopology url_host health members start =
     (case fetchPDHealth health of
        Inl err \<Rightarrow> Some (Inl err)
      | Inr healthMap \<Rightarrow>
          (case members of
             None \<Rightarrow> Some (Inl ErrPDRequest)
           | Some None \<Rightarrow> Some (Inl ErrInvalidTopologyData)
           | Some (Some ms) \<Rightarrow> do {
               nodes \<leftarrow> pd_members url_host healthMap start ms [];
               Some (Inr (sort_key (\<lambda>n. (pi_IP n, pi_Port n)) nodes))
             }))"

section \<open>\<open>monitor.go\<close>\<close>

definition ngMonitoringKeyPrefix :: string where "ngMonitoringKeyPrefix = ''/topology/ng-monitoring/''"

definition parseNgMontioringAliveness :: "int \<Rightarrow> string \<Rightarrow> topology_error + bool" where
  "parseNgMontioringAliveness now v = alive_within 90 now v"

fun ng_scan :: "int \<Rightarrow> (string \<times> string) list \<Rightarrow> topology_error + string" where
  "ng_scan now [] = Inr ''''"
| "ng_scan now ((key, v) # kvs) =
     (if \<not> prefix_at ngMonitoringKeyPrefix key then ng_scan now kvs
      else
        let keyParts = strings_Split (drop (length ngMonitoringKeyPrefix) key) ''/'' in
        if length keyParts \<noteq> 2 then ng_scan now kvs
        else if keyParts ! 1 = ''ttl'' then
          (case parseNgMontioringAliveness now v of Inl err \<Rightarrow> Inl err | Inr alive \<Rightarrow> Inr (keyParts ! 0))
        else ng_scan now kvs)"

definition FetchNgMonitoringTopology :: "int \<Rightarrow> (string \<times> string) list option \<Rightarrow> topology_error + string" where
  "FetchNgMonitoringTopology now resp =
     (case resp of None \<Rightarrow> Inl ErrEtcdRequestFailed | Some kvs \<Rightarrow> ng_scan now kvs)"

section \<open>Addresses\<close>

lemma IndexByte_None [simp]: "IndexByte s c = None \<longleftrightarrow> c \<notin> set s"
proof -
  have "length (takeWhile (\<lambda>d. d \<noteq> c) s) < length s \<longleftrightarrow> c \<in> set s"
    using takeWhile_eq_all_conv [of "\<lambda>d. d \<noteq> c" s] length_takeWhile_le [of "\<lambda>d. d \<noteq> c" s]
    by (metis (mono_tags) le_neq_implies_less less_irrefl takeWhile_eq_take take_all_iff)
  then show ?thesis by (simp add: IndexByte_def Let_def)
qed

lemma IndexByte_append: "c \<notin> set s \<Longrightarrow> IndexByte (s @ c # t) c = Some (length s)"
proof -
  assume "c \<notin> set s"
  then have "takeWhile (\<lambda>d. d \<noteq> c) (s @ c # t) = s" by (subst takeWhile_append2) auto
  then show ?thesis by (simp add: IndexByte_def)
qed

lemma LastIndexByte_append: "c \<notin> set t \<Longrightarrow> LastIndexByte (s @ c # t) c = Some (length s)"
proof -
  assume "c \<notin> set t"
  then have "IndexByte (rev t @ c # rev s) c = Some (length (rev t))" by (intro IndexByte_append) simp
  then show ?thesis by (simp add: LastIndexByte_def)
qed

lemma digit_chars: "set (dec_digits n) \<subseteq> {c. 48 \<le> byte_of c \<and> byte_of c \<le> 57}"
proof (induction n rule: dec_digits.induct)
  case (1 n)
  have "48 \<le> byte_of (char_of (48 + d)) \<and> byte_of (char_of (48 + d)) \<le> 57" if "d < 10" for d :: nat
    using that by (simp add: byte_of_def)
  then show ?case using 1 by (subst dec_digits.simps) auto
qed

lemma port_chars: "0 \<le> p \<Longrightarrow> CHR '':'' \<notin> set (dec_string p) \<and> CHR ''['' \<notin> set (dec_string p) \<and> CHR '']'' \<notin> set (dec_string p)"
  using digit_chars [of "nat p"] by (auto simp: dec_string_def byte_of_def)

lemma SplitHostPort_bracket:
  "LastIndexByte s (CHR '':'') = Some i \<Longrightarrow> s ! 0 = CHR ''['' \<Longrightarrow> IndexByte s (CHR '']'') = Some e \<Longrightarrow> e + 1 = i \<Longrightarrow>
    CHR ''['' \<notin> set (drop 1 s) \<Longrightarrow> CHR '']'' \<notin> set (drop i s) \<Longrightarrow> SplitHostPort s = Some (take (e - 1) (drop 1 s), drop (i + 1) s)"
  by (simp add: SplitHostPort_def)

lemma SplitHostPort_plain:
  "LastIndexByte s (CHR '':'') = Some i \<Longrightarrow> s ! 0 \<noteq> CHR ''['' \<Longrightarrow> CHR '':'' \<notin> set (take i s) \<Longrightarrow> CHR ''['' \<notin> set s \<Longrightarrow>
    CHR '']'' \<notin> set s \<Longrightarrow> SplitHostPort s = Some (take i s, drop (i + 1) s)"
  by (simp add: SplitHostPort_def Let_def)

text \<open>An address that is written as \<open>host:port\<close>, with the host in brackets when it has colons,
  is parsed back into host and port.
\<close>

theorem ParseHostAndPort_roundtrip:
  assumes "CHR ''['' \<notin> set host" and "CHR '']'' \<notin> set host" and "0 < port" and "port < 2 ^ 63"
  shows "ParseHostAndPortFromAddress ((if CHR '':'' \<in> set host then ''['' @ host @ '']'' else host) @ '':'' @ dec_string port)
    = Some (host, word_of_int port)"
proof -
  note p = port_chars [of port]
  have port: "ParseInt (dec_string port) = Some port" using assms(3,4) by (intro ParseInt_dec_string) simp_all
  have "SplitHostPort ((if CHR '':'' \<in> set host then ''['' @ host @ '']'' else host) @ '':'' @ dec_string port)
    = Some (host, dec_string port)"
  proof (cases "CHR '':'' \<in> set host")
    case True
    have last: "LastIndexByte ((''['' @ host @ '']'') @ CHR '':'' # dec_string port) (CHR '':'') = Some (length host + 2)"
      using p assms(3) LastIndexByte_append [of "CHR '':''" "dec_string port" "''['' @ host @ '']''"] by simp
    have close: "IndexByte ((''['' @ host) @ CHR '']'' # CHR '':'' # dec_string port) (CHR '']'') = Some (length host + 1)"
      using assms(2) IndexByte_append [of "CHR '']''" "''['' @ host"] by simp
    let ?s = "CHR ''['' # host @ CHR '']'' # CHR '':'' # dec_string port"
    have l: "LastIndexByte ?s (CHR '':'') = Some (length host + 2)" using last by simp
    have c: "IndexByte ?s (CHR '']'') = Some (length host + 1)" using close by simp
    have "SplitHostPort ?s = Some (take (length host + 1 - 1) (drop 1 ?s), drop (length host + 2 + 1) ?s)"
      using p assms by (intro SplitHostPort_bracket [OF l _ c]) auto
    then have "SplitHostPort ?s = Some (host, dec_string port)" by simp
    then show ?thesis using True by simp
  next
    case False
    have last: "LastIndexByte (host @ CHR '':'' # dec_string port) (CHR '':'') = Some (length host)"
      using p assms(3) by (intro LastIndexByte_append) simp
    have "(host @ CHR '':'' # dec_string port) ! 0 \<noteq> CHR ''[''"
      using assms(1) by (cases host) auto
    then have "SplitHostPort (host @ CHR '':'' # dec_string port)
      = Some (take (length host) (host @ CHR '':'' # dec_string port), drop (length host + 1) (host @ CHR '':'' # dec_string port))"
      using False p assms by (intro SplitHostPort_plain [OF last]) auto
    then show ?thesis using False by simp
  qed
  then show ?thesis using port assms(3) by (simp add: ParseHostAndPortFromAddress_def)
qed

theorem ParseHostAndPort_roundtrip_witness:
  "ParseHostAndPortFromAddress ''[::1]:4000'' = Some (''::1'', 4000)"
proof -
  have d: "dec_string 4000 = ''4000''"
    by (simp add: dec_string_def) ((subst dec_digits.simps, simp)+, simp add: char_of_def bit_0)
  have "CHR ''['' \<notin> set ''::1''" "CHR '']'' \<notin> set ''::1''" "(0 :: int) < 4000" "(4000 :: int) < 2 ^ 63" by simp_all
  from ParseHostAndPort_roundtrip [OF this]
  have "ParseHostAndPortFromAddress (''[::1]'' @ '':'' @ dec_string 4000) = Some (''::1'', word_of_int 4000)" by simp
  then show ?thesis unfolding d by simp
qed

section \<open>The TiDB instances\<close>

lemma split_at_char: "split_at [c] cur s = (if c \<in> set s
    then (cur @ takeWhile (\<lambda>d. d \<noteq> c) s) # split_at [c] [] (tl (dropWhile (\<lambda>d. d \<noteq> c) s)) else [cur @ s])"
proof (induction s arbitrary: cur)
  case Nil
  show ?case by (subst split_at.simps) simp
next
  case (Cons d s)
  show ?case using Cons [of "cur @ [d]"] by (subst split_at.simps) (auto simp: prefix_at_def)
qed

lemma Split_two: "strings_Split s [c] = [a, b] \<longleftrightarrow> s = a @ c # b \<and> c \<notin> set a \<and> c \<notin> set b"
proof
  assume sp: "strings_Split s [c] = [a, b]"
  have "s = a @ c # b" using Join_split_at [of "[c]" "[]" s] sp by (simp add: strings_Split_def)
  moreover have "c \<in> set s" "a = takeWhile (\<lambda>d. d \<noteq> c) s" "split_at [c] [] (tl (dropWhile (\<lambda>d. d \<noteq> c) s)) = [b]"
    using sp split_at_char [of c "[]" s] by (auto simp: strings_Split_def split: if_splits)
  moreover have "c \<notin> set a" using \<open>a = _\<close> by (auto dest: set_takeWhileD)
  moreover have "c \<notin> set b"
    using \<open>split_at [c] [] _ = [b]\<close> split_at_char [of c "[]" "tl (dropWhile (\<lambda>d. d \<noteq> c) s)"] split_at_ne
    by (auto split: if_splits)
  ultimately show "s = a @ c # b \<and> c \<notin> set a \<and> c \<notin> set b" by blast
next
  assume s: "s = a @ c # b \<and> c \<notin> set a \<and> c \<notin> set b"
  then have P: "\<And>x. x \<in> set a \<Longrightarrow> x \<noteq> c" by auto
  have "takeWhile (\<lambda>d. d \<noteq> c) s = a" "dropWhile (\<lambda>d. d \<noteq> c) s = c # b"
    using s takeWhile_append2 [of a "\<lambda>d. d \<noteq> c" "c # b", OF P] dropWhile_append2 [of a "\<lambda>d. d \<noteq> c" "c # b", OF P] by simp_all
  then show "strings_Split s [c] = [a, b]"
    using s split_at_char [of c "[]" s] split_at_char [of c "[]" b] by (simp add: strings_Split_def)
qed

lemma Split_inj:
  fixes c :: char
  assumes "c \<notin> set a'" and "c \<notin> set b'" and "c \<notin> set a" and "c \<notin> set b" and eq: "a' @ c # b' = a @ c # b"
  shows "a' = a \<and> b' = b"
proof -
  have "strings_Split (a' @ c # b') [c] = [a', b']" using assms(1,2) Split_two by blast
  moreover have "strings_Split (a @ c # b) [c] = [a, b]" using assms(3,4) Split_two by blast
  ultimately have "[a', b'] = [a, b]" unfolding eq by (rule trans [OF sym])
  then show ?thesis by simp
qed

lemma length_two: "length xs = 2 \<longleftrightarrow> (\<exists>a b. xs = [a, b])"
  by (auto simp: numeral_2_eq_2 length_Suc_conv)

definition info_of :: "(string \<Rightarrow> tidb_info_json option) \<Rightarrow> string \<times> string \<Rightarrow> string \<Rightarrow> TiDBInfo \<Rightarrow> bool" where
  "info_of dec kv addr node \<longleftrightarrow> fst kv = tidbTopologyKeyPrefix @ addr @ ''/info'' \<and> CHR ''/'' \<notin> set addr \<and>
     parseTiDBInfo addr (dec (snd kv)) = Inr node"

definition ttl_of :: "string \<times> string \<Rightarrow> string \<Rightarrow> bool" where
  "ttl_of kv addr \<longleftrightarrow> fst kv = tidbTopologyKeyPrefix @ addr @ ''/ttl'' \<and> CHR ''/'' \<notin> set addr \<and> ParseUint (snd kv) \<noteq> None"

lemma prefix_at_append: "prefix_at p key \<longleftrightarrow> (\<exists>r. key = p @ r)"
  unfolding prefix_at_def by (metis append_eq_conv_conj append_take_drop_id)

lemma alive_Inl: "(\<exists>err. parseTiDBAliveness now v = Inl err) \<longleftrightarrow> ParseUint v = None"
  by (auto simp: parseTiDBAliveness_def alive_within_def split: option.splits)

lemma tidb_entry_cases:
  assumes "tidb_entry dec now (key, v) (ni, na) = (ni', na')"
  shows "(\<exists>addr node. info_of dec (key, v) addr node \<and> (\<forall>a. \<not> ttl_of (key, v) a) \<and> ni' = AList.update addr node ni \<and> na' = na) \<or>
    (\<exists>addr. ttl_of (key, v) addr \<and> (\<forall>a n. \<not> info_of dec (key, v) a n) \<and> ni' = ni \<and> na' = List.insert addr na) \<or>
    (\<forall>a n. \<not> info_of dec (key, v) a n) \<and> (\<forall>a. \<not> ttl_of (key, v) a) \<and> ni' = ni \<and> na' = na"
proof (cases "prefix_at tidbTopologyKeyPrefix key \<and> length (strings_Split (drop (length tidbTopologyKeyPrefix) key) ''/'') = 2")
  case False
  have no: "key \<noteq> tidbTopologyKeyPrefix @ a @ CHR ''/'' # b" if "CHR ''/'' \<notin> set a" "CHR ''/'' \<notin> set b" for a b
  proof
    assume key: "key = tidbTopologyKeyPrefix @ a @ CHR ''/'' # b"
    then have "strings_Split (drop (length tidbTopologyKeyPrefix) key) ''/'' = [a, b]"
      using that Split_two [of "a @ CHR ''/'' # b" "CHR ''/''" a b] by simp
    then show False using False key by (simp add: prefix_at_append)
  qed
  have "(\<forall>a n. \<not> info_of dec (key, v) a n) \<and> (\<forall>a. \<not> ttl_of (key, v) a)"
    using no [of _ "''info''"] no [of _ "''ttl''"] by (auto simp: info_of_def ttl_of_def)
  moreover have "ni' = ni \<and> na' = na" using assms False by (auto simp: tidb_entry_def Let_def split: if_splits)
  ultimately show ?thesis by blast
next
  case True
  then obtain a b where sp: "strings_Split (drop (length tidbTopologyKeyPrefix) key) ''/'' = [a, b]" by (auto simp: length_two)
  obtain r where key: "key = tidbTopologyKeyPrefix @ r" using True by (auto simp: prefix_at_append)
  have r: "r = a @ CHR ''/'' # b" "CHR ''/'' \<notin> set a" "CHR ''/'' \<notin> set b" using sp key Split_two [of r "CHR ''/''" a b] by simp_all
  have part: "a @ CHR ''/'' # b = a' @ CHR ''/'' # w \<and> CHR ''/'' \<notin> set a' \<and> P a' \<longleftrightarrow> a' = a \<and> b = w \<and> P a"
    if "CHR ''/'' \<notin> set w" for a' w P
    using Split_inj [OF r(2,3) _ that, of a'] r(2) by blast
  have info: "info_of dec (key, v) a' n \<longleftrightarrow> a' = a \<and> b = ''info'' \<and> parseTiDBInfo a (dec v) = Inr n" for a' n
    unfolding info_of_def fst_conv snd_conv key same_append_eq r(1) by (rule part) simp
  have ttl: "ttl_of (key, v) a' \<longleftrightarrow> a' = a \<and> b = ''ttl'' \<and> ParseUint v \<noteq> None" for a'
    unfolding ttl_of_def fst_conv snd_conv key same_append_eq r(1) by (rule part) simp
  have step: "tidb_entry dec now (key, v) (ni, na) =
    (if b = ''info'' then (case parseTiDBInfo a (dec v) of Inr node \<Rightarrow> (AList.update a node ni, na) | Inl err \<Rightarrow> (ni, na))
     else if b = ''ttl'' then (case parseTiDBAliveness now v of Inr alive \<Rightarrow> (ni, List.insert a na) | Inl err \<Rightarrow> (ni, na))
     else (ni, na))"
    using True sp by (simp add: tidb_entry_def Let_def split: sum.split)
  show ?thesis
    unfolding info ttl using assms unfolding step
    by (cases "parseTiDBInfo a (dec v)"; cases "parseTiDBAliveness now v")
      (auto simp: alive_Inl [symmetric, where now = now] simp del: not_None_eq split: if_splits)
qed

lemma update_new: "k \<notin> fst ` set al \<Longrightarrow> AList.update k v al = al @ [(k, v)]"
  by (induction al) auto

lemma info_of_key: "info_of dec kv addr node \<Longrightarrow> info_of dec' kv' addr node' \<Longrightarrow> fst kv = fst kv'"
  by (simp add: info_of_def)

lemma tidb_entries:
  assumes "distinct (map fst kvs)"
  shows "set (fst (fold (tidb_entry dec now) kvs ([], []))) = {(a, n). \<exists>kv\<in>set kvs. info_of dec kv a n} \<and>
    set (snd (fold (tidb_entry dec now) kvs ([], []))) = {a. \<exists>kv\<in>set kvs. ttl_of kv a}"
  using assms
proof (induction kvs rule: rev_induct)
  case (snoc kv kvs)
  obtain ni na where F: "fold (tidb_entry dec now) kvs ([], []) = (ni, na)" by fastforce
  obtain ni' na' where G: "tidb_entry dec now kv (ni, na) = (ni', na')" by fastforce
  obtain key v where kv: "kv = (key, v)" by fastforce
  have IH: "set ni = {(a, n). \<exists>kv\<in>set kvs. info_of dec kv a n}" "set na = {a. \<exists>kv\<in>set kvs. ttl_of kv a}"
    using snoc F by simp_all
  have new: "a \<notin> fst ` set ni" if "info_of dec kv a n" for a n
  proof
    assume "a \<in> fst ` set ni"
    then obtain n' kv' where "kv' \<in> set kvs" "info_of dec kv' a n'" using IH(1) by auto
    then have "fst kv \<in> fst ` set kvs" using info_of_key [OF that] by (metis image_eqI)
    then show False using snoc.prems by simp
  qed
  have uniq: "info_of dec kv a n \<Longrightarrow> info_of dec kv a' n' \<Longrightarrow> a' = a \<and> n' = n" "ttl_of kv a \<Longrightarrow> ttl_of kv a' \<Longrightarrow> a' = a" for a a' n n'
    by (auto simp: info_of_def ttl_of_def)
  have "set ni' = set ni \<union> {(a, n). info_of dec kv a n} \<and> set na' = set na \<union> {a. ttl_of kv a}"
    using tidb_entry_cases [OF G [unfolded kv], folded kv] uniq new by (elim disjE exE conjE) (auto simp: update_new)
  then show ?case using F G IH by (auto simp: kv)
qed simp

text \<open>
  The TiDB topology has exactly one entry for every key \<open><address>/info\<close> whose address and value
  parse, sorted by IP and port; the instance is up exactly when etcd also has a key
  \<open><address>/ttl\<close> with a number, however old the number is.
\<close>

theorem FetchTiDBTopology_nodes:
  assumes "distinct (map fst kvs)"
  shows "\<exists>nodes. FetchTiDBTopology dec now (Some kvs) = Inr nodes \<and> sorted (map (\<lambda>n. (ti_IP n, ti_Port n)) nodes) \<and>
    set nodes = {info\<lparr>ti_Status := (if \<exists>t. (tidbTopologyKeyPrefix @ addr @ ''/ttl'', t) \<in> set kvs \<and> ParseUint t \<noteq> None
        then ComponentStatusUp else ComponentStatusUnreachable)\<rparr> | addr info v.
      (tidbTopologyKeyPrefix @ addr @ ''/info'', v) \<in> set kvs \<and> CHR ''/'' \<notin> set addr \<and> parseTiDBInfo addr (dec v) = Inr info}"
proof -
  obtain ni na where F: "fold (tidb_entry dec now) kvs ([], []) = (ni, na)" by fastforce
  have sets: "set ni = {(a, n). \<exists>kv\<in>set kvs. info_of dec kv a n}" "set na = {a. \<exists>kv\<in>set kvs. ttl_of kv a}"
    using tidb_entries [OF assms, of dec now] F by simp_all
  have unreach: "ti_Status info = ComponentStatusUnreachable" if "parseTiDBInfo addr d = Inr info" for addr d info
    using that by (auto simp: parseTiDBInfo_def split: option.splits)
  have alive: "addr \<in> set na \<longleftrightarrow> (\<exists>t. (tidbTopologyKeyPrefix @ addr @ ''/ttl'', t) \<in> set kvs \<and> ParseUint t \<noteq> None)"
    if "CHR ''/'' \<notin> set addr" for addr
    using that unfolding sets(2) ttl_of_def by force
  have "set (map (\<lambda>(addr, info). if addr \<in> set na then info\<lparr>ti_Status := ComponentStatusUp\<rparr> else info) ni) =
    {info\<lparr>ti_Status := (if \<exists>t. (tidbTopologyKeyPrefix @ addr @ ''/ttl'', t) \<in> set kvs \<and> ParseUint t \<noteq> None
        then ComponentStatusUp else ComponentStatusUnreachable)\<rparr> | addr info v.
      (tidbTopologyKeyPrefix @ addr @ ''/info'', v) \<in> set kvs \<and> CHR ''/'' \<notin> set addr \<and> parseTiDBInfo addr (dec v) = Inr info}"
    (is "set (map ?f ni) = ?N")
  proof (intro set_eqI iffI)
    fix n assume "n \<in> set (map ?f ni)"
    then obtain addr info where "(addr, info) \<in> set ni" "n = ?f (addr, info)" by auto
    then obtain v where v: "(tidbTopologyKeyPrefix @ addr @ ''/info'', v) \<in> set kvs" "CHR ''/'' \<notin> set addr"
      "parseTiDBInfo addr (dec v) = Inr info" unfolding sets(1) info_of_def by force
    have "n = info\<lparr>ti_Status := (if \<exists>t. (tidbTopologyKeyPrefix @ addr @ ''/ttl'', t) \<in> set kvs \<and> ParseUint t \<noteq> None
        then ComponentStatusUp else ComponentStatusUnreachable)\<rparr>"
      using \<open>n = _\<close> alive [OF v(2)] unreach [OF v(3)] by simp
    then show "n \<in> ?N" using v by blast
  next
    fix n assume "n \<in> ?N"
    then obtain addr info v where n: "n = info\<lparr>ti_Status := (if \<exists>t. (tidbTopologyKeyPrefix @ addr @ ''/ttl'', t) \<in> set kvs \<and> ParseUint t \<noteq> None
        then ComponentStatusUp else ComponentStatusUnreachable)\<rparr>" "(tidbTopologyKeyPrefix @ addr @ ''/info'', v) \<in> set kvs"
      "CHR ''/'' \<notin> set addr" "parseTiDBInfo addr (dec v) = Inr info" by blast
    have "(addr, info) \<in> set ni" unfolding sets(1) info_of_def using n(2-4) by force
    moreover have "n = ?f (addr, info)" using n(1) alive [OF n(3)] unreach [OF n(4)] by simp
    ultimately show "n \<in> set (map ?f ni)" by force
  qed
  then show ?thesis using F by (simp add: FetchTiDBTopology_def)
qed

definition demo_json :: tidb_info_json where
  "demo_json = \<lparr>js_version = ''v1'', js_git_hash = [], js_status_port = 10080, js_deploy_path = [], js_start_timestamp = 0\<rparr>"

definition demo_kvs :: "(string \<times> string) list" where
  "demo_kvs = [(tidbTopologyKeyPrefix @ ''h:1'' @ ''/info'', []), (tidbTopologyKeyPrefix @ ''h:1'' @ ''/ttl'', ''5'')]"

theorem FetchTiDBTopology_nodes_witness:
  "\<exists>nodes. FetchTiDBTopology (\<lambda>v. Some demo_json) 0 (Some demo_kvs) = Inr nodes \<and>
    (\<exists>n\<in>set nodes. ti_IP n = ''h'' \<and> ti_Port n = 1 \<and> ti_Status n = ComponentStatusUp)"
proof -
  have d: "distinct (map fst demo_kvs)" by code_simp
  obtain nodes where F: "FetchTiDBTopology (\<lambda>v. Some demo_json) 0 (Some demo_kvs) = Inr nodes"
    "set nodes = {info\<lparr>ti_Status := (if \<exists>t. (tidbTopologyKeyPrefix @ addr @ ''/ttl'', t) \<in> set demo_kvs \<and> ParseUint t \<noteq> None
        then ComponentStatusUp else ComponentStatusUnreachable)\<rparr> | addr info v.
      (tidbTopologyKeyPrefix @ addr @ ''/info'', v) \<in> set demo_kvs \<and> CHR ''/'' \<notin> set addr \<and> parseTiDBInfo addr (Some demo_json) = Inr info}"
    using FetchTiDBTopology_nodes [OF d, of "\<lambda>v. Some demo_json" 0] by blast
  let ?info = "\<lparr>ti_GitHash = [], ti_Version = ''v1'', ti_IP = ''h'', ti_Port = 1, ti_DeployPath = [],
    ti_Status = ComponentStatusUnreachable, ti_StatusPort = 10080, ti_StartTimestamp = 0\<rparr>"
  have "SplitHostPort ''h:1'' = Some (''h'', ''1'')" by code_simp
  moreover have "ParseInt ''1'' = Some 1" by (simp add: ParseInt_def Let_def digit_value_def byte_of_def)
  ultimately have p: "parseTiDBInfo ''h:1'' (Some demo_json) = Inr ?info"
    by (simp add: parseTiDBInfo_def ParseHostAndPortFromAddress_def demo_json_def)
  have "ParseUint ''5'' \<noteq> None" by (simp add: ParseUint_def Let_def digit_value_def byte_of_def)
  then have up: "\<exists>t. (tidbTopologyKeyPrefix @ ''h:1'' @ ''/ttl'', t) \<in> set demo_kvs \<and> ParseUint t \<noteq> None"
    unfolding demo_kvs_def by (intro exI [of _ "''5''"]) simp
  have "(tidbTopologyKeyPrefix @ ''h:1'' @ ''/info'', []) \<in> set demo_kvs" "CHR ''/'' \<notin> set ''h:1''"
    unfolding demo_kvs_def by simp_all
  then have "?info\<lparr>ti_Status := (if \<exists>t. (tidbTopologyKeyPrefix @ ''h:1'' @ ''/ttl'', t) \<in> set demo_kvs \<and> ParseUint t \<noteq> None
        then ComponentStatusUp else ComponentStatusUnreachable)\<rparr> \<in> set nodes"
    unfolding F(2) using p by blast
  then show ?thesis unfolding if_P [OF up] using F(1) by (intro exI conjI bexI) (assumption, simp_all)
qed

section \<open>The PD members\<close>

lemma pd_members_None: "pd_members url_host healthMap start ms nodes = None \<longleftrightarrow> (\<exists>m\<in>set ms. mj_client_urls m = [])"
proof (induction ms arbitrary: nodes)
  case (Cons m ms)
  then show ?case by (cases "mj_client_urls m") (auto simp: idx_def split: option.splits prod.splits)
qed simp

text \<open>When PD answers health and members, the query of the PD topology panics exactly when some
  member has no client URL, which is what a member that has joined but not started reports.
\<close>

theorem FetchPDTopology_panics:
  "FetchPDTopology url_host (Some (Some healths)) (Some (Some ms)) start = None \<longleftrightarrow> (\<exists>m\<in>set ms. mj_client_urls m = [])"
  by (simp add: FetchPDTopology_def fetchPDHealth_def pd_members_None bind_eq_None_conv)

end
