(* ===== verification/TidbForwarder.thy ===== *)
theory TidbForwarder
  imports TidbProxy Topology
begin

text \<open>
  The forwarder, which keeps the remotes of two proxies in step with the topology
  (\<open>pkg/tidb/forwarder.go\<close>), and the client that sends SQL and status requests to the proxies or
  to given addresses (\<open>client.go\<close>). Environment variables, \<open>gorm.Open\<close> and the HTTP client are
  arguments.
\<close>

section \<open>\<open>forwarder.go\<close>\<close>

datatype tidb_error =
    ErrNoAliveTiDB
  | ErrTiDBConnFailed
  | ErrTiDBAuthFailed
  | ErrTiDBClientRequestFailed
  | ErrUnknown

record forwarderConfig =
  TiDBRetrieveTimeout :: int
  TiDBPollInterval :: int
  ProxyTimeout :: int
  ProxyCheckInterval :: int

record Forwarder =
  fw_config :: forwarderConfig
  sqlProxy :: proxy
  sqlPort :: int
  statusProxy :: proxy
  statusPort :: int

definition newForwarder_config :: forwarderConfig where
  "newForwarder_config = \<lparr>TiDBRetrieveTimeout = second, TiDBPollInterval = 5 * second,
     ProxyTimeout = 3 * second, ProxyCheckInterval = 2 * second\<rparr>"

definition createProxy :: "forwarderConfig \<Rightarrow> proxy" where
  "createProxy c = newProxy [] (ProxyCheckInterval c) (ProxyTimeout c)"

text \<open>\<open>port1\<close> and \<open>port2\<close> are the ports of the two listeners, \<open>None\<close> if \<open>net.Listen\<close> fails.\<close>

definition fw_Start :: "forwarderConfig \<Rightarrow> int option \<Rightarrow> int option \<Rightarrow> Forwarder option" where
  "fw_Start c port1 port2 = do {
     sqlPort \<leftarrow> port1;
     statusPort \<leftarrow> port2;
     Some \<lparr>fw_config = c, sqlProxy = createProxy c, sqlPort = sqlPort, statusProxy = createProxy c, statusPort = statusPort\<rparr>
   }"

definition host_port :: "string \<Rightarrow> u64 \<Rightarrow> string" where
  "host_port ip port = ip @ '':'' @ dec_string (uint port)"

text \<open>One poll; a failed one is retried and changes nothing.\<close>

definition pollingForTiDB :: "topology_error + TiDBInfo list \<Rightarrow> Forwarder \<Rightarrow> Forwarder" where
  "pollingForTiDB allTiDB f =
     (case allTiDB of
        Inl err \<Rightarrow> f
      | Inr servers \<Rightarrow>
          let (tidbEndpoints, statusEndpoints) =
            fold (\<lambda>server (tidb, status).
              if ti_Status server = ComponentStatusUp
              then (List.insert (host_port (ti_IP server) (ti_Port server)) tidb,
                    List.insert (host_port (ti_IP server) (ti_StatusPort server)) status)
              else (tidb, status)) servers ([], [])
          in f\<lparr>sqlProxy := updateRemotes tidbEndpoints (sqlProxy f),
               statusProxy := updateRemotes statusEndpoints (statusProxy f)\<rparr>)"

definition getEndpointAddr :: "Forwarder \<Rightarrow> int \<Rightarrow> tidb_error + string" where
  "getEndpointAddr f port =
     (if noAliveRemote (statusProxy f) then Inl ErrNoAliveTiDB else Inr (''127.0.0.1:'' @ dec_string port))"

section \<open>\<open>client.go\<close>\<close>

record Client =
  statusAPIHTTPScheme :: string
  statusAPIAddress :: string
  enforceStatusAPIAddresss :: bool
  statusAPITimeout :: int
  sqlAPITLSKey :: string
  sqlAPIAddress :: string

definition NewTiDBClient :: "'tls option \<Rightarrow> string \<Rightarrow> int \<Rightarrow> Client" where
  "NewTiDBClient tls scheme timeout =
     \<lparr>statusAPIHTTPScheme = scheme, statusAPIAddress = '''', enforceStatusAPIAddresss = False, statusAPITimeout = timeout,
      sqlAPITLSKey = (if tls \<noteq> None then ''tidb'' else ''''), sqlAPIAddress = ''''\<rparr>"

definition WithStatusAPITimeout :: "int \<Rightarrow> Client \<Rightarrow> Client" where
  "WithStatusAPITimeout timeout c = c\<lparr>statusAPITimeout := timeout\<rparr>"

definition WithStatusAPIAddress :: "string \<Rightarrow> int \<Rightarrow> Client \<Rightarrow> Client" where
  "WithStatusAPIAddress host port c = c\<lparr>statusAPIAddress := host @ '':'' @ dec_string port\<rparr>"

definition WithEnforcedStatusAPIAddress :: "string \<Rightarrow> int \<Rightarrow> Client \<Rightarrow> Client" where
  "WithEnforcedStatusAPIAddress host port c =
     c\<lparr>enforceStatusAPIAddresss := True, statusAPIAddress := host @ '':'' @ dec_string port\<rparr>"

definition WithSQLAPIAddress :: "string \<Rightarrow> int \<Rightarrow> Client \<Rightarrow> Client" where
  "WithSQLAPIAddress host port c = c\<lparr>sqlAPIAddress := host @ '':'' @ dec_string port\<rparr>"

text \<open>The errors of \<open>gorm.Open\<close> that the client tells apart.\<close>

datatype open_error = NetOpError | ErrBadConn | MySQLError nat | OtherOpenError

definition ER_ACCESS_DENIED_ERROR :: nat where "ER_ACCESS_DENIED_ERROR = 1045"

record dsn =
  dsn_Addr :: string
  dsn_User :: string
  dsn_Passwd :: string
  dsn_TLSConfig :: string

definition OpenSQLConn ::
  "(dsn \<Rightarrow> open_error + 'conn) \<Rightarrow> string \<Rightarrow> Forwarder \<Rightarrow> Client \<Rightarrow> string \<Rightarrow> string \<Rightarrow> tidb_error + 'conn" where
  "OpenSQLConn gorm_Open overrideEndpoint f c user pass =
     (if overrideEndpoint \<noteq> '''' \<and> sqlAPIAddress c \<noteq> '''' then Inl ErrTiDBConnFailed
      else
        let addr = (if overrideEndpoint \<noteq> '''' then overrideEndpoint else sqlAPIAddress c) in
        (case (if addr = '''' then getEndpointAddr f (sqlPort f) else Inr addr) of
           Inl err \<Rightarrow> Inl err
         | Inr addr \<Rightarrow>
             (case gorm_Open \<lparr>dsn_Addr = addr, dsn_User = user, dsn_Passwd = pass, dsn_TLSConfig = sqlAPITLSKey c\<rparr> of
                Inr db \<Rightarrow> Inr db
              | Inl err \<Rightarrow>
                  if err = NetOpError \<or> err = ErrBadConn then
                    (if noAliveRemote (sqlProxy f) then Inl ErrNoAliveTiDB else Inl ErrTiDBConnFailed)
                  else if err = MySQLError ER_ACCESS_DENIED_ERROR then Inl ErrTiDBAuthFailed
                  else Inl ErrUnknown)))"

text \<open>\<open>Send\<close> of the HTTP client, on the URI; the error it returns is kept.\<close>

definition Client_Get ::
  "(int \<Rightarrow> string \<Rightarrow> tidb_error + 'resp) \<Rightarrow> string \<Rightarrow> Forwarder \<Rightarrow> Client \<Rightarrow> string \<Rightarrow> tidb_error + 'resp" where
  "Client_Get http_Send overrideEndpoint f c relativeURI =
     (if overrideEndpoint \<noteq> '''' \<and> statusAPIAddress c \<noteq> '''' \<and> \<not> enforceStatusAPIAddresss c then Inl ErrTiDBConnFailed
      else
        let addr = (if enforceStatusAPIAddresss c then statusAPIAddress c
                    else if overrideEndpoint \<noteq> '''' then overrideEndpoint else statusAPIAddress c) in
        (case (if addr = '''' then getEndpointAddr f (statusPort f) else Inr addr) of
           Inl err \<Rightarrow> Inl err
         | Inr addr \<Rightarrow>
             (case http_Send (statusAPITimeout c) (statusAPIHTTPScheme c @ ''://'' @ addr @ relativeURI) of
                Inr res \<Rightarrow> Inr res
              | Inl err \<Rightarrow> if noAliveRemote (statusProxy f) then Inl ErrNoAliveTiDB else Inl err)))"

definition SendGetRequest ::
  "(int \<Rightarrow> string \<Rightarrow> tidb_error + 'resp) \<Rightarrow> ('resp \<Rightarrow> tidb_error + 'body) \<Rightarrow> string \<Rightarrow> Forwarder \<Rightarrow> Client \<Rightarrow> string \<Rightarrow>
   tidb_error + 'body" where
  "SendGetRequest http_Send read_body overrideEndpoint f c relativeURI =
     (case Client_Get http_Send overrideEndpoint f c relativeURI of
        Inl err \<Rightarrow> Inl err
      | Inr res \<Rightarrow> read_body res)"

section \<open>The remotes after a poll\<close>

lemma store_remote_keys: "fst ` set (store_remote addr rs) = insert addr (fst ` set rs)"
  by (auto simp: store_remote_def map_of_eq_None_iff)

lemma store_remotes_keys: "fst ` set (fold store_remote addrs rs) = set addrs \<union> fst ` set rs"
  by (induction addrs arbitrary: rs) (auto simp: store_remote_keys)

lemma store_remote_distinct: "distinct (map fst rs) \<Longrightarrow> distinct (map fst (store_remote addr rs))"
  by (auto simp: store_remote_def map_of_eq_None_iff)

lemma store_remotes_distinct: "distinct (map fst rs) \<Longrightarrow> distinct (map fst (fold store_remote addrs rs))"
  by (induction addrs arbitrary: rs) (auto simp: store_remote_distinct)

lemma filter_keys: "fst ` set (filter (\<lambda>(k, r). k \<in> A) rs) = fst ` set rs \<inter> A"
  by force

lemma store_remote_keeps: "p \<in> set rs \<Longrightarrow> p \<in> set (store_remote addr rs)"
  by (simp add: store_remote_def)

lemma store_remotes_keeps: "p \<in> set rs \<Longrightarrow> p \<in> set (fold store_remote addrs rs)"
  by (induction addrs arbitrary: rs) (auto simp: store_remote_keeps)

lemma updateRemotes_keys:
  "fst ` set (remotes (updateRemotes addrs p)) = set addrs" "noAliveRemote (updateRemotes addrs p) = (addrs = [])"
  by (simp_all add: updateRemotes_def Let_def filter_keys store_remotes_keys Int_absorb2 del: set_filter)

lemma updateRemotes_distinct: "keys_distinct_p p \<Longrightarrow> keys_distinct_p (updateRemotes addrs p)"
  unfolding keys_distinct_p_def
  by (auto simp: updateRemotes_def Let_def intro: distinct_map_filter store_remotes_distinct)

lemma poll_endpoints:
  "fold (\<lambda>server (tidb, status).
     if ti_Status server = ComponentStatusUp
     then (List.insert (host_port (ti_IP server) (ti_Port server)) tidb,
           List.insert (host_port (ti_IP server) (ti_StatusPort server)) status)
     else (tidb, status)) servers (a, b) = (a', b') \<Longrightarrow>
   set a' = set a \<union> {host_port (ti_IP s) (ti_Port s) | s. s \<in> set servers \<and> ti_Status s = ComponentStatusUp} \<and>
   set b' = set b \<union> {host_port (ti_IP s) (ti_StatusPort s) | s. s \<in> set servers \<and> ti_Status s = ComponentStatusUp}"
proof (induction servers arbitrary: a b)
  case (Cons s servers)
  show ?case
  proof (cases "ti_Status s = ComponentStatusUp")
    case True
    with Cons.prems show ?thesis by (auto dest!: Cons.IH)
  next
    case False
    with Cons.prems show ?thesis by (auto dest!: Cons.IH)
  qed
qed auto

text \<open>
  After a successful poll the proxies have exactly the SQL and the status addresses of the
  instances that are up as remotes, each once; a remote that was known keeps its state. A
  request without an address of its own is refused exactly when no instance is up.
\<close>

theorem poll_follows_topology:
  fixes f :: Forwarder and servers :: "TiDBInfo list"
  assumes "keys_distinct_p (sqlProxy f)" and "keys_distinct_p (statusProxy f)"
  defines "f' \<equiv> pollingForTiDB (Inr servers) f" and "up \<equiv> {s \<in> set servers. ti_Status s = ComponentStatusUp}"
  shows "fst ` set (remotes (sqlProxy f')) = (\<lambda>s. host_port (ti_IP s) (ti_Port s)) ` up \<and>
    fst ` set (remotes (statusProxy f')) = (\<lambda>s. host_port (ti_IP s) (ti_StatusPort s)) ` up \<and>
    keys_distinct_p (sqlProxy f') \<and> keys_distinct_p (statusProxy f') \<and>
    (\<forall>(k, r)\<in>set (remotes (sqlProxy f)). k \<in> fst ` set (remotes (sqlProxy f')) \<longrightarrow> (k, r) \<in> set (remotes (sqlProxy f'))) \<and>
    (\<forall>port. getEndpointAddr f' port = (if up = {} then Inl ErrNoAliveTiDB else Inr (''127.0.0.1:'' @ dec_string port)))"
proof -
  obtain a b where ab: "fold (\<lambda>server (tidb, status).
     if ti_Status server = ComponentStatusUp
     then (List.insert (host_port (ti_IP server) (ti_Port server)) tidb,
           List.insert (host_port (ti_IP server) (ti_StatusPort server)) status)
     else (tidb, status)) servers ([], []) = (a, b)" by fastforce
  have sets: "set a = (\<lambda>s. host_port (ti_IP s) (ti_Port s)) ` up" "set b = (\<lambda>s. host_port (ti_IP s) (ti_StatusPort s)) ` up"
    using poll_endpoints [OF ab] by (auto simp: up_def)
  have f': "sqlProxy f' = updateRemotes a (sqlProxy f)" "statusProxy f' = updateRemotes b (statusProxy f)"
    by (simp_all add: f'_def pollingForTiDB_def ab)
  have "(k, r) \<in> set (remotes (updateRemotes a (sqlProxy f)))" if "(k, r) \<in> set (remotes (sqlProxy f))" "k \<in> set a" for k r
    using that store_remotes_keeps [of "(k, r)" "remotes (sqlProxy f)" a] by (cases a) (auto simp: updateRemotes_def Let_def)
  moreover have "b = [] \<longleftrightarrow> up = {}" using sets(2) by (cases b) auto
  ultimately show ?thesis
    using assms(1,2) sets by (auto simp: f' updateRemotes_keys updateRemotes_distinct getEndpointAddr_def)
qed

definition demo_tidb :: "ComponentStatus \<Rightarrow> TiDBInfo" where
  "demo_tidb st = \<lparr>ti_GitHash = [], ti_Version = [], ti_IP = ''h'', ti_Port = 4000, ti_DeployPath = [], ti_Status = st,
     ti_StatusPort = 10080, ti_StartTimestamp = 0\<rparr>"

definition demo_forwarder :: Forwarder where
  "demo_forwarder = \<lparr>fw_config = newForwarder_config, sqlProxy = createProxy newForwarder_config, sqlPort = 1,
     statusProxy = createProxy newForwarder_config, statusPort = 2\<rparr>"

theorem poll_follows_topology_witness:
  "getEndpointAddr (pollingForTiDB (Inr [demo_tidb ComponentStatusUnreachable]) demo_forwarder) 1 = Inl ErrNoAliveTiDB \<and>
    fst ` set (remotes (sqlProxy (pollingForTiDB (Inr [demo_tidb ComponentStatusUp]) demo_forwarder))) = {host_port ''h'' 4000}"
proof -
  have d: "keys_distinct_p (sqlProxy demo_forwarder)" "keys_distinct_p (statusProxy demo_forwarder)"
    by (simp_all add: keys_distinct_p_def demo_forwarder_def createProxy_def newProxy_def)
  have up: "{s \<in> set [demo_tidb ComponentStatusUp]. ti_Status s = ComponentStatusUp} = {demo_tidb ComponentStatusUp}"
    "{s \<in> set [demo_tidb ComponentStatusUnreachable]. ti_Status s = ComponentStatusUp} = {}"
    by (auto simp: demo_tidb_def)
  show ?thesis
    using poll_follows_topology [OF d, of "[demo_tidb ComponentStatusUnreachable]"]
      poll_follows_topology [OF d, of "[demo_tidb ComponentStatusUp]"]
    unfolding up by (simp add: demo_tidb_def)
qed

end
