(* ===== verification/UtilProxy.thy ===== *)
theory UtilProxy
  imports GoStrings
begin

text \<open>
  The reverse proxy of \<open>util/proxy\<close>, which picks a new upstream when the current one is down.

  \<open>upstreams\<close> is an association list in the order in which \<open>sync.Map.Range\<close> visits it, and no
  statement depends on the order. A pointer to an upstream is its key. \<open>dial\<close> tells which addresses
  accept a connection. The atomic fields make every operation below one that can run at any
  time; here they are taken one at a time.
\<close>

section \<open>\<open>upstream.go\<close>\<close>

record upstream =
  us_addr :: string
  active :: bool

definition newUpstream :: "string \<Rightarrow> upstream" where
  "newUpstream addr = \<lparr>us_addr = addr, active = False\<rparr>"

definition us_IsActive :: "upstream \<Rightarrow> bool" where
  "us_IsActive r = active r"

definition setInactive :: "upstream \<Rightarrow> upstream" where
  "setInactive r = r\<lparr>active := False\<rparr>"

definition setActive :: "upstream \<Rightarrow> upstream" where
  "setActive r = r\<lparr>active := True\<rparr>"

text \<open>The flag of the result: no error.\<close>

definition Connect :: "(string \<Rightarrow> bool) \<Rightarrow> upstream \<Rightarrow> upstream \<times> bool" where
  "Connect dial r = (if \<not> dial (us_addr r) then (setInactive r, False) else (setActive r, True))"

definition TryProbeAsync :: "(string \<Rightarrow> bool) \<Rightarrow> upstream \<Rightarrow> upstream" where
  "TryProbeAsync dial r = (if us_IsActive r then r else fst (Connect dial r))"

section \<open>\<open>proxy.go\<close>\<close>

record ProxyConfig =
  KindTag :: string
  UpstreamProbeInterval :: int
  DialTimeout :: int

record Proxy =
  px_config :: ProxyConfig
  upstreams :: "(string \<times> upstream) list"
  noActiveUpstream :: bool
  currentUpstreamAddr :: string

definition DefaultUpstreamProbeInterval :: int where "DefaultUpstreamProbeInterval = 2000000000"
definition DefaultDialTimeout :: int where "DefaultDialTimeout = 3000000000"

definition px_New :: "ProxyConfig \<Rightarrow> Proxy" where
  "px_New config =
     (let config = (if UpstreamProbeInterval config \<le> 0
            then config\<lparr>UpstreamProbeInterval := DefaultUpstreamProbeInterval\<rparr> else config);
          config = (if DialTimeout config \<le> 0 then config\<lparr>DialTimeout := DefaultDialTimeout\<rparr> else config)
      in \<lparr>px_config = config, upstreams = [], noActiveUpstream = True, currentUpstreamAddr = ''''\<rparr>)"

definition HasActiveUpstream :: "Proxy \<Rightarrow> bool" where
  "HasActiveUpstream p = (\<not> noActiveUpstream p)"

definition add_upstream :: "string \<Rightarrow> (string \<times> upstream) list \<Rightarrow> (string \<times> upstream) list" where
  "add_upstream addr us = (if map_of us addr = None then us @ [(addr, newUpstream addr)] else us)"

definition SetUpstreams :: "string list \<Rightarrow> Proxy \<Rightarrow> Proxy" where
  "SetUpstreams addresses p =
     (if length addresses = 0 then p\<lparr>upstreams := [], currentUpstreamAddr := '''', noActiveUpstream := True\<rparr>
      else
        let us = fold add_upstream addresses (upstreams p);
            us = filter (\<lambda>(addr, r). addr \<in> set addresses) us
        in p\<lparr>upstreams := us\<rparr>)"

definition pickOneLastActiveUpstream :: "Proxy \<Rightarrow> (string \<times> upstream) option" where
  "pickOneLastActiveUpstream p =
     (let current = (if currentUpstreamAddr p \<noteq> '''' then
             (case map_of (upstreams p) (currentUpstreamAddr p) of
                Some r \<Rightarrow> if us_IsActive r then Some (currentUpstreamAddr p, r) else None
              | None \<Rightarrow> None)
           else None)
      in case current of Some kr \<Rightarrow> Some kr | None \<Rightarrow> find (\<lambda>(k, r). us_IsActive r) (upstreams p))"

definition set_upstream :: "string \<Rightarrow> upstream \<Rightarrow> Proxy \<Rightarrow> Proxy" where
  "set_upstream key r p = p\<lparr>upstreams := map (\<lambda>(k, old). (k, if k = key then r else old)) (upstreams p)\<rparr>"

definition actives :: "Proxy \<Rightarrow> nat" where
  "actives p = length (filter (\<lambda>(k, r). us_IsActive r) (upstreams p))"

lemma pickOne_active:
  "pickOneLastActiveUpstream p = Some (k, r) \<Longrightarrow> (k, r) \<in> set (upstreams p) \<and> us_IsActive r"
  by (auto simp: pickOneLastActiveUpstream_def Let_def find_Some_iff dest: map_of_SomeD split: option.splits if_splits)


lemma pickOne_None: "pickOneLastActiveUpstream p = None \<longleftrightarrow> (\<forall>(k, r)\<in>set (upstreams p). \<not> us_IsActive r)"
  by (auto simp: pickOneLastActiveUpstream_def Let_def find_None_iff dest: map_of_SomeD split: option.splits)

lemma set_inactive_filter:
  "\<not> us_IsActive r' \<Longrightarrow> filter (\<lambda>(k, r). us_IsActive r) (map (\<lambda>(k, old). (k, if k = key then r' else old)) us)
    = filter (\<lambda>(k, r). us_IsActive r \<and> k \<noteq> key) us"
  by (induction us) (auto split: if_splits)

lemma filter_less:
  "(k, r) \<in> set us \<Longrightarrow> us_IsActive r \<Longrightarrow>
    length (filter (\<lambda>(k', r). us_IsActive r \<and> k' \<noteq> k) us) < length (filter (\<lambda>(k, r). us_IsActive r) us)"
proof (induction us)
  case (Cons a us)
  have "length (filter (\<lambda>(k', r). us_IsActive r \<and> k' \<noteq> k) us) \<le> length (filter (\<lambda>(k, r). us_IsActive r) us)"
    by (induction us) auto
  with Cons show ?case by auto
qed simp

lemma actives_less:
  assumes "pickOneLastActiveUpstream p = Some (k, r)" and "\<not> us_IsActive r'"
  shows "actives ((set_upstream k r' p)\<lparr>currentUpstreamAddr := c\<rparr>) < actives p"
proof -
  have kr: "(k, r) \<in> set (upstreams p)" "us_IsActive r" using pickOne_active [OF assms(1)] by simp_all
  have "length (filter (\<lambda>(k', r). us_IsActive r \<and> k' \<noteq> k) (upstreams p)) < actives p"
    unfolding actives_def by (rule filter_less [OF kr])
  then show ?thesis by (simp add: actives_def set_upstream_def set_inactive_filter [OF assms(2)])
qed

function pickActiveUpstreamAndConnect :: "(string \<Rightarrow> bool) \<Rightarrow> Proxy \<Rightarrow> Proxy \<times> string option" where
  "pickActiveUpstreamAndConnect dial p =
     (case pickOneLastActiveUpstream p of
        None \<Rightarrow> (p\<lparr>currentUpstreamAddr := '''', noActiveUpstream := True\<rparr>, None)
      | Some (key, picked) \<Rightarrow>
          (case Connect dial picked of
             (picked, True) \<Rightarrow>
               ((set_upstream key picked p)\<lparr>currentUpstreamAddr := us_addr picked, noActiveUpstream := False\<rparr>,
                Some (us_addr picked))
           | (picked, False) \<Rightarrow>
               pickActiveUpstreamAndConnect dial ((set_upstream key picked p)\<lparr>currentUpstreamAddr := ''''\<rparr>)))"
  by pat_completeness auto
termination
  by (relation "measure (\<lambda>(dial, p). actives p)")
    (auto simp: Connect_def setInactive_def us_IsActive_def intro!: actives_less split: if_splits)

declare pickActiveUpstreamAndConnect.simps [simp del]

text \<open>Whether the incoming connection is joined to an upstream, or closed.\<close>

definition serveConnection :: "(string \<Rightarrow> bool) \<Rightarrow> Proxy \<Rightarrow> Proxy \<times> bool" where
  "serveConnection dial p =
     (let (p, out) = pickActiveUpstreamAndConnect dial p in (p, out \<noteq> None))"

text \<open>One round, with the probes that it starts.\<close>

definition probeActiveUpstreams :: "(string \<Rightarrow> bool) \<Rightarrow> Proxy \<Rightarrow> Proxy" where
  "probeActiveUpstreams dial p =
     (let activeUpstreams = actives p;
          p' = p\<lparr>upstreams := map (\<lambda>(k, r). (k, if us_IsActive r then r else TryProbeAsync dial r)) (upstreams p)\<rparr>
      in if 0 < activeUpstreams then p'\<lparr>noActiveUpstream := False\<rparr> else p')"

section \<open>Which connections are served\<close>

definition upstreams_ok :: "Proxy \<Rightarrow> bool" where
  "upstreams_ok p \<longleftrightarrow> distinct (map fst (upstreams p)) \<and> (\<forall>(k, r)\<in>set (upstreams p). us_addr r = k)"

definition accepting :: "(string \<Rightarrow> bool) \<Rightarrow> Proxy \<Rightarrow> string set" where
  "accepting dial p = {k. dial k \<and> (\<exists>r. (k, r) \<in> set (upstreams p) \<and> us_IsActive r)}"

lemma set_upstream_keys [simp]: "map fst (upstreams (set_upstream k r p)) = map fst (upstreams p)"
  by (simp add: set_upstream_def split_beta comp_def cong: if_cong)

lemma set_upstream_ok:
  "upstreams_ok p \<Longrightarrow> us_addr r = k \<Longrightarrow> upstreams_ok (set_upstream k r p)"
  unfolding upstreams_ok_def set_upstream_keys by (auto simp: set_upstream_def)

lemma quench_accepting:
  assumes "\<not> dial k" and "\<not> us_IsActive r"
  shows "accepting dial ((set_upstream k r p)\<lparr>currentUpstreamAddr := c\<rparr>) = accepting dial p"
proof -
  have "(\<exists>r'. (x, r') \<in> set (upstreams (set_upstream k r p)) \<and> us_IsActive r') \<longleftrightarrow> (\<exists>r'. (x, r') \<in> set (upstreams p) \<and> us_IsActive r')"
    if "x \<noteq> k" for x
    using that by (force simp: set_upstream_def)
  then have "dial x \<and> (\<exists>r'. (x, r') \<in> set (upstreams (set_upstream k r p)) \<and> us_IsActive r') \<longleftrightarrow>
    dial x \<and> (\<exists>r'. (x, r') \<in> set (upstreams p) \<and> us_IsActive r')" for x
    using assms(1) by (cases "x = k") auto
  then show ?thesis by (simp add: accepting_def)
qed

lemma connect_spec:
  assumes "pickActiveUpstreamAndConnect dial p = (p', out)" and "upstreams_ok p"
  shows "upstreams_ok p' \<and> noActiveUpstream p' = (out = None) \<and> currentUpstreamAddr p' = (case out of None \<Rightarrow> [] | Some a \<Rightarrow> a) \<and>
    (case out of None \<Rightarrow> accepting dial p = {} | Some a \<Rightarrow> a \<in> accepting dial p)"
  using assms
proof (induction dial p arbitrary: p' rule: pickActiveUpstreamAndConnect.induct)
  case (1 dial p)
  show ?case
  proof (cases "pickOneLastActiveUpstream p")
    case None
    then have "accepting dial p = {}" by (auto simp: pickOne_None accepting_def)
    moreover have "p' = p\<lparr>currentUpstreamAddr := '''', noActiveUpstream := True\<rparr>" "out = None"
      using 1(2) None by (simp_all add: pickActiveUpstreamAndConnect.simps)
    ultimately show ?thesis using 1(3) by (simp add: upstreams_ok_def)
  next
    case (Some kr)
    obtain k r where kr: "kr = (k, r)" by fastforce
    have r: "(k, r) \<in> set (upstreams p)" "us_IsActive r" using pickOne_active Some kr by auto
    have addr: "us_addr r = k" using 1(3) r(1) by (auto simp: upstreams_ok_def)
    show ?thesis
    proof (cases "dial k")
      case True
      then have c: "Connect dial r = (setActive r, True)" by (simp add: Connect_def addr)
      have "p' = (set_upstream k (setActive r) p)\<lparr>currentUpstreamAddr := k, noActiveUpstream := False\<rparr>" "out = Some k"
        using 1(2) Some kr c by (simp_all add: pickActiveUpstreamAndConnect.simps setActive_def addr)
      moreover have "upstreams_ok (set_upstream k (setActive r) p)"
        using 1(3) by (rule set_upstream_ok) (simp add: setActive_def addr)
      moreover have "k \<in> accepting dial p" using True r by (auto simp: accepting_def)
      ultimately show ?thesis by (simp add: upstreams_ok_def)
    next
      case False
      let ?p = "(set_upstream k (setInactive r) p)\<lparr>currentUpstreamAddr := ''''\<rparr>"
      have c: "Connect dial r = (setInactive r, False)" using False by (simp add: Connect_def addr)
      have rec: "pickActiveUpstreamAndConnect dial ?p = (p', out)"
        using 1(2) Some kr c by (simp add: pickActiveUpstreamAndConnect.simps)
      have "upstreams_ok (set_upstream k (setInactive r) p)"
        using 1(3) by (rule set_upstream_ok) (simp add: setInactive_def addr)
      then have ok: "upstreams_ok ?p" by (simp add: upstreams_ok_def)
      have "accepting dial ?p = accepting dial p"
        by (rule quench_accepting) (use False in \<open>simp_all add: setInactive_def us_IsActive_def\<close>)
      then show ?thesis using 1(1) [OF Some kr [symmetric] c [symmetric] refl rec ok] by (cases out) simp_all
    qed
  qed
qed

text \<open>
  C31: an incoming connection is joined to an upstream exactly when some active upstream accepts it,
  whichever was used before and however the list was changed; the connection's upstream becomes
  the current one and \<open>HasActiveUpstream\<close> tells the outcome.
\<close>

theorem serveConnection_iff:
  assumes "upstreams_ok p"
  shows "\<exists>p'. serveConnection dial p = (p', accepting dial p \<noteq> {}) \<and> upstreams_ok p' \<and>
    HasActiveUpstream p' = (accepting dial p \<noteq> {}) \<and>
    (accepting dial p \<noteq> {} \<longrightarrow> currentUpstreamAddr p' \<in> accepting dial p)"
proof -
  obtain p' out where P: "pickActiveUpstreamAndConnect dial p = (p', out)" by fastforce
  show ?thesis using connect_spec [OF P assms] P
    by (cases out) (auto simp: serveConnection_def HasActiveUpstream_def)
qed

definition demo_upstreams :: Proxy where
  "demo_upstreams = SetUpstreams [''a'', ''b''] (px_New \<lparr>KindTag = [], UpstreamProbeInterval = 0, DialTimeout = 0\<rparr>)"

lemma demo_upstreams_ok: "upstreams_ok demo_upstreams"
  by (simp add: upstreams_ok_def demo_upstreams_def SetUpstreams_def px_New_def Let_def add_upstream_def newUpstream_def)

theorem serveConnection_iff_witness:
  "\<exists>p'. serveConnection (\<lambda>a. True) demo_upstreams = (p', False) \<and> \<not> HasActiveUpstream p'"
proof -
  have "accepting (\<lambda>a. True) demo_upstreams = {}"
    by (auto simp: accepting_def us_IsActive_def demo_upstreams_def SetUpstreams_def px_New_def Let_def add_upstream_def newUpstream_def)
  then show ?thesis using serveConnection_iff [OF demo_upstreams_ok, of "\<lambda>a. True"] by auto
qed

lemma SetUpstreams_ok: "upstreams_ok p \<Longrightarrow> upstreams_ok (SetUpstreams addresses p)"
proof -
  have add: "distinct (map fst us) \<and> (\<forall>(k, r)\<in>set us. us_addr r = k) \<Longrightarrow>
    distinct (map fst (fold add_upstream as us)) \<and> (\<forall>(k, r)\<in>set (fold add_upstream as us). us_addr r = k)" for as us
  proof (induction as arbitrary: us)
    case (Cons a as)
    have "distinct (map fst (add_upstream a us)) \<and> (\<forall>(k, r)\<in>set (add_upstream a us). us_addr r = k)"
      using Cons.prems by (auto simp: add_upstream_def newUpstream_def map_of_eq_None_iff)
    then show ?case using Cons.IH by simp
  qed simp
  assume "upstreams_ok p"
  with add [of "upstreams p" addresses] show ?thesis
    by (auto simp: upstreams_ok_def SetUpstreams_def Let_def intro: distinct_map_filter)
qed

lemma probe_ok: "upstreams_ok p \<Longrightarrow> upstreams_ok (probeActiveUpstreams dial p)"
  by (auto simp: upstreams_ok_def probeActiveUpstreams_def Let_def TryProbeAsync_def Connect_def setActive_def
      setInactive_def comp_def split_beta)

lemma probe_accepting:
  assumes "upstreams_ok p" and "dial a" and "a \<in> fst ` set (upstreams p)"
  shows "a \<in> accepting dial (probeActiveUpstreams dial p)"
proof -
  obtain r where r: "(a, r) \<in> set (upstreams p)" using assms(3) by auto
  let ?r = "if us_IsActive r then r else TryProbeAsync dial r"
  have "us_addr r = a" using assms(1) r by (auto simp: upstreams_ok_def)
  then have "us_IsActive ?r" using assms(2) by (simp add: TryProbeAsync_def Connect_def setActive_def us_IsActive_def)
  moreover have "(a, ?r) \<in> set (upstreams (probeActiveUpstreams dial p))"
    using r by (force simp: probeActiveUpstreams_def Let_def)
  ultimately show ?thesis using assms(2) by (auto simp: accepting_def)
qed

text \<open>
  C32: recovery: whatever the proxy knew before and however the list of upstreams was replaced, if
  an upstream of the list accepts connections then after one round of probes the next connection
  is served.
\<close>

theorem probe_recovers:
  assumes "upstreams_ok p" and "a \<in> set addresses" and "dial a"
  shows "\<exists>p'. serveConnection dial (probeActiveUpstreams dial (SetUpstreams addresses p)) = (p', True) \<and> HasActiveUpstream p'"
proof -
  let ?p = "SetUpstreams addresses p"
  have "a \<in> fst ` set (fold add_upstream addresses us)" for us
  proof -
    have mono: "b \<in> fst ` set vs \<Longrightarrow> b \<in> fst ` set (fold add_upstream as vs)" for b as vs
      by (induction as arbitrary: vs) (auto simp: add_upstream_def)
    have "as = xs @ a # ys \<Longrightarrow> a \<in> fst ` set (fold add_upstream as us)" for as xs ys
      by (auto simp: add_upstream_def map_of_eq_None_iff intro!: mono)
    then show ?thesis using split_list [OF assms(2)] by blast
  qed
  then have "a \<in> fst ` {x \<in> set (fold add_upstream addresses (upstreams p)). fst x \<in> set addresses}"
    using assms(2) by force
  then have "a \<in> fst ` set (upstreams ?p)" using assms(2) by (auto simp: SetUpstreams_def Let_def split_beta)
  then have "accepting dial (probeActiveUpstreams dial ?p) \<noteq> {}"
    using probe_accepting [of ?p dial a] SetUpstreams_ok [OF assms(1)] assms(3) by auto
  then show ?thesis
    using serveConnection_iff [OF probe_ok [OF SetUpstreams_ok [OF assms(1)]], of dial dial addresses] by auto
qed

theorem probe_recovers_witness:
  "\<exists>p'. serveConnection (\<lambda>a. a = ''c'') (probeActiveUpstreams (\<lambda>a. a = ''c'') (SetUpstreams [''b'', ''c''] demo_upstreams)) = (p', True)"
  using probe_recovers [OF demo_upstreams_ok, of "''c''" "[''b'', ''c'']" "\<lambda>a. a = ''c''"] by auto

text \<open>
  \<open>HasActiveUpstream\<close> is not reset when \<open>SetUpstreams\<close> removes the active upstreams: it still
  answers that there is one while every upstream of the new list is inactive.
\<close>

theorem SetUpstreams_stale_flag:
  assumes "HasActiveUpstream p" and "addresses \<noteq> []" and "set addresses \<inter> fst ` set (upstreams p) = {}"
  shows "HasActiveUpstream (SetUpstreams addresses p) \<and> actives (SetUpstreams addresses p) = 0"
proof -
  have new: "(k, r) \<in> set us \<or> \<not> us_IsActive r" if "(k, r) \<in> set (fold add_upstream as us)" for k r as us
    using that by (induction as arbitrary: us) (fastforce simp: add_upstream_def newUpstream_def us_IsActive_def split: if_splits)+
  have "\<not> us_IsActive r" if "(k, r) \<in> set (upstreams (SetUpstreams addresses p))" for k r
  proof -
    have k: "k \<in> set addresses" "(k, r) \<in> set (fold add_upstream addresses (upstreams p))"
      using that assms(2) by (auto simp: SetUpstreams_def Let_def)
    then have "(k, r) \<notin> set (upstreams p)" using assms(3) by force
    with new [OF k(2)] show ?thesis by blast
  qed
  then have "actives (SetUpstreams addresses p) = 0" by (auto simp: actives_def filter_empty_conv)
  then show ?thesis using assms(1,2) by (simp add: HasActiveUpstream_def SetUpstreams_def Let_def)
qed

theorem SetUpstreams_stale_flag_witness:
  "HasActiveUpstream (SetUpstreams [''z''] (demo_upstreams\<lparr>noActiveUpstream := False\<rparr>)) \<and>
    actives (SetUpstreams [''z''] (demo_upstreams\<lparr>noActiveUpstream := False\<rparr>)) = 0"
  by (rule SetUpstreams_stale_flag)
    (simp_all add: HasActiveUpstream_def demo_upstreams_def SetUpstreams_def px_New_def Let_def add_upstream_def newUpstream_def)

end
