(* ===== verification/LogSearch.thy ===== *)
theory LogSearch
  imports DynamicConfig
begin

text \<open>
  The log search (\<open>pkg/apiserver/logsearch\<close>: \<open>models.go\<close>, \<open>task.go\<close>, \<open>scheduler.go\<close>,
  \<open>service.go\<close>).

  What the code asks of the local database, the file system, gRPC and the zip writer are
  arguments (\<open>search_env\<close>), and what it tells them is the list of \<open>effect\<close>s that an operation
  returns, in order. \<open>None\<close> is a panic. A task runs in a goroutine of its own; tasks share
  nothing but the database.
\<close>

section \<open>\<open>models.go\<close>\<close>

datatype TaskState = TaskStateRunning | TaskStateFinished | TaskStateError
datatype TaskGroupState = TaskGroupStateRunning | TaskGroupStateFinished

text \<open>\<open>LogLevel\<close> is an \<open>int32\<close> that comes out of a request; the levels of the protocol are \<open>0\<close> to \<open>6\<close>.\<close>

definition PBLogLevelSlice :: "int list" where "PBLogLevelSlice = [0, 1, 2, 3, 4, 5, 6]"

record SearchLogRequest =
  sr_StartTime :: int
  sr_EndTime :: int
  MinLevel :: int
  Patterns :: "string list"

datatype search_target = Search_Normal | Search_Slow

record pb_request =
  pb_StartTime :: int
  pb_EndTime :: int
  pb_Levels :: "int list"
  pb_Patterns :: "string list"
  pb_Target :: search_target

definition ConvertToPB :: "SearchLogRequest \<Rightarrow> search_target \<Rightarrow> pb_request option" where
  "ConvertToPB r target = do {
     levels \<leftarrow> (if 0 \<le> MinLevel r then go_slice PBLogLevelSlice (nat (MinLevel r)) (length PBLogLevelSlice) else None);
     Some \<lparr>pb_StartTime = sr_StartTime r, pb_EndTime = sr_EndTime r, pb_Levels = levels, pb_Patterns = Patterns r,
       pb_Target = target\<rparr>
   }"

record TaskModel =
  tk_ID :: nat
  tk_TaskGroupID :: nat
  Target :: RequestTargetNode
  tk_State :: TaskState
  LogStorePath :: "string option"
  SlowLogStorePath :: "string option"
  Size :: int
  tk_Error :: "string option"

record TaskGroupModel =
  tg_ID :: nat
  SearchRequest :: SearchLogRequest
  tg_State :: TaskGroupState
  TargetStats :: RequestTargetStatistics
  LogStoreDir :: "string option"

record LogMessage =
  msg_Time :: int
  msg_Level :: int
  Message :: string

record PreviewModel =
  pv_TaskID :: nat
  pv_TaskGroupID :: nat
  pv_Time :: int
  pv_Level :: int
  pv_Message :: string

datatype effect =
    CreatePreview PreviewModel
  | DeletePreviewsOfTask nat
  | DeletePreviewsOfGroup nat
  | DeleteTasksOfGroup nat
  | DeleteGroup nat
  | CreateGroup TaskGroupModel
  | CreateTask TaskModel
  | SaveTask TaskModel
  | SaveGroup TaskGroupModel
  | RemoveAll string
  | CreateFile string
  | WriteLine string string

definition RemoveDataAndPreview :: "TaskModel \<Rightarrow> TaskModel \<times> effect list" where
  "RemoveDataAndPreview task =
     (let (task, effs) = (case LogStorePath task of
            Some path \<Rightarrow> (task\<lparr>LogStorePath := None\<rparr>, [RemoveAll path])
          | None \<Rightarrow> (task, []))
      in (task, effs @ [DeletePreviewsOfTask (tk_ID task)]))"

definition tg_Delete :: "TaskGroupModel \<Rightarrow> effect list" where
  "tg_Delete tg =
     (case LogStoreDir tg of Some dir \<Rightarrow> [RemoveAll dir] | None \<Rightarrow> []) @
     [DeletePreviewsOfGroup (tg_ID tg), DeleteTasksOfGroup (tg_ID tg), DeleteGroup (tg_ID tg)]"

definition cleanupAllTasks :: "TaskGroupModel list \<Rightarrow> effect list" where
  "cleanupAllTasks taskGroups = concat (map tg_Delete taskGroups)"

section \<open>\<open>task.go\<close>\<close>

text \<open>
  The outside of a task. A stream is the batches that \<open>Recv\<close> returns and the error it ends with,
  \<open>None\<close> for \<open>io.EOF\<close>; the other functions give an error or \<open>None\<close>. \<open>se_write path i\<close> is the
  outcome of writing the \<open>i\<close>-th line.
\<close>

record search_env =
  se_Dial :: "RequestTargetNode \<Rightarrow> string option"
  se_SearchLog :: "RequestTargetNode \<Rightarrow> pb_request \<Rightarrow> string + LogMessage list list \<times> string option"
  se_Create :: "string \<Rightarrow> string option"
  se_zip_Create :: "string \<Rightarrow> string option"
  se_write :: "string \<Rightarrow> nat \<Rightarrow> string option"
  se_Stat :: "string \<Rightarrow> int option"
  se_Join :: "string \<Rightarrow> string \<Rightarrow> string"
  se_Time :: "int \<Rightarrow> string"
  se_Level :: "int \<Rightarrow> string"

definition setError :: "string \<Rightarrow> TaskModel \<Rightarrow> TaskModel" where
  "setError err t = t\<lparr>tk_Error := Some err\<rparr>"

definition accumulateLogSize :: "search_env \<Rightarrow> string option \<Rightarrow> TaskModel \<Rightarrow> TaskModel" where
  "accumulateLogSize env path t =
     (case path of
        None \<Rightarrow> t
      | Some path \<Rightarrow> (case se_Stat env path of None \<Rightarrow> t | Some sz \<Rightarrow> t\<lparr>Size := Size t + sz\<rparr>))"

definition logMessageToString :: "search_env \<Rightarrow> LogMessage \<Rightarrow> string" where
  "logMessageToString env msg =
     ''['' @ se_Time env (msg_Time msg) @ ''] ['' @ se_Level env (msg_Level msg) @ ''] '' @ Message msg @ [char_of (10 :: nat)]"

text \<open>
  The loop over the messages of one batch: the number of previews, the number of lines, the
  effects, and the error that ends the search.
\<close>

fun write_messages ::
  "search_env \<Rightarrow> string \<Rightarrow> nat \<Rightarrow> TaskModel \<Rightarrow> LogMessage list \<Rightarrow> nat \<times> nat \<Rightarrow> (nat \<times> nat) \<times> effect list \<times> string option" where
  "write_messages env path maxPreview t [] (previews, lines) = ((previews, lines), [], None)"
| "write_messages env path maxPreview t (msg # msgs) (previews, lines) =
     (case se_write env path lines of
        Some err \<Rightarrow> ((previews, lines), [], Some err)
      | None \<Rightarrow>
          let w = WriteLine path (logMessageToString env msg);
              (previews, effs) =
                (if previews < maxPreview
                 then (previews + 1, [w, CreatePreview \<lparr>pv_TaskID = tk_ID t, pv_TaskGroupID = tk_TaskGroupID t,
                         pv_Time = msg_Time msg, pv_Level = msg_Level msg, pv_Message = Message msg\<rparr>])
                 else (previews, [w]));
              (st, effs', err) = write_messages env path maxPreview t msgs (previews, lines + 1)
          in (st, effs @ effs', err))"

text \<open>The loop over \<open>stream.Recv\<close>.\<close>

fun recv_loop ::
  "search_env \<Rightarrow> search_target \<Rightarrow> string \<Rightarrow> nat \<Rightarrow> LogMessage list list \<Rightarrow> string option \<Rightarrow> nat \<times> nat \<Rightarrow> TaskModel \<Rightarrow>
   TaskModel \<times> effect list" where
  "recv_loop env target path maxPreview [] fin (previews, lines) t =
     (let t = (case fin of Some err \<Rightarrow> setError err t | None \<Rightarrow> t);
          t = (if previews \<noteq> 0 then
                 (if target = Search_Normal then t\<lparr>LogStorePath := Some path\<rparr> else t\<lparr>SlowLogStorePath := Some path\<rparr>)
               else t)
      in (t, []))"
| "recv_loop env target path maxPreview (msgs # batches) fin st t =
     (case write_messages env path maxPreview t msgs st of
        (st, effs, Some err) \<Rightarrow> (setError err t, effs)
      | (st, effs, None) \<Rightarrow>
          let (t, effs') = recv_loop env target path maxPreview batches fin st t in (t, effs @ effs'))"

text \<open>\<open>dir\<close> is \<open>*t.taskGroup.model.LogStoreDir\<close>. The part of \<open>searchLog\<close> from the call on.\<close>

definition search_stream ::
  "search_env \<Rightarrow> string \<Rightarrow> nat \<Rightarrow> search_target \<Rightarrow> TaskModel \<Rightarrow> pb_request \<Rightarrow> TaskModel \<times> effect list" where
  "search_stream env dir maxPreview target t req =
     (case se_SearchLog env (Target t) req of
        Inl err \<Rightarrow> (setError err t, [])
      | Inr (batches, fin) \<Rightarrow>
          let fileName = FileName (Target t);
              fileName = (if target = Search_Slow then fileName @ ''-slow'' else fileName);
              savedPath = se_Join env dir (fileName @ ''.zip'')
          in case se_Create env savedPath of
               Some err \<Rightarrow> (setError err t, [])
             | None \<Rightarrow>
                 let (t, effs) =
                   (case se_zip_Create env (fileName @ ''.log'') of
                      Some err \<Rightarrow> (setError err t, [])
                    | None \<Rightarrow>
                        recv_loop env target savedPath maxPreview batches fin (0, 0) (t\<lparr>tk_State := TaskStateRunning\<rparr>))
                 in (t, CreateFile savedPath # effs))"

definition searchLog ::
  "search_env \<Rightarrow> TaskGroupModel \<Rightarrow> string \<Rightarrow> nat \<Rightarrow> search_target \<Rightarrow> TaskModel \<Rightarrow> (TaskModel \<times> effect list) option" where
  "searchLog env tg dir maxPreview target t =
     (if tk_Error t \<noteq> None then Some (t, []) else do {
        req \<leftarrow> ConvertToPB (SearchRequest tg) target;
        let req = req\<lparr>pb_Patterns := map (\<lambda>p. ''(?i)'' @ p) (pb_Patterns req)\<rparr>;
        Some (search_stream env dir maxPreview target t req)
      })"

text \<open>\<open>Task.SyncRun\<close>: the body, then the deferred function.\<close>

definition task_body ::
  "search_env \<Rightarrow> TaskGroupModel \<Rightarrow> nat \<Rightarrow> TaskModel \<Rightarrow> (TaskModel \<times> effect list) option" where
  "task_body env tg maxPreview t =
     (case LogStoreDir tg of
        None \<Rightarrow> Some (setError ''failed to create temporary directory'' t, [])
      | Some dir \<Rightarrow>
          (case se_Dial env (Target t) of
             Some err \<Rightarrow> Some (setError err t, [])
           | None \<Rightarrow> do {
               (t, effs) \<leftarrow> searchLog env tg dir maxPreview Search_Normal t;
               (if rt_Kind (Target t) = NodeKindTiKV then do {
                  (t, effs') \<leftarrow> searchLog env tg dir maxPreview Search_Slow t;
                  Some (t, effs @ effs')
                } else Some (t, effs))
             }))"

definition Task_SyncRun ::
  "search_env \<Rightarrow> TaskGroupModel \<Rightarrow> nat \<Rightarrow> TaskModel \<Rightarrow> (TaskModel \<times> effect list) option" where
  "Task_SyncRun env tg maxPreview t = do {
     (t, effs) \<leftarrow> task_body env tg maxPreview t;
     (if tk_Error t \<noteq> None then
        let (t, effs') = RemoveDataAndPreview t;
            t = t\<lparr>tk_State := TaskStateError\<rparr>
        in Some (t, effs @ effs' @ [SaveTask t])
      else
        let t = t\<lparr>tk_State := TaskStateFinished\<rparr>;
            t = accumulateLogSize env (LogStorePath t) t;
            t = accumulateLogSize env (SlowLogStorePath t) t
        in Some (t, effs @ [SaveTask t]))
   }"

text \<open>\<open>TaskGroup.SyncRun\<close>; \<open>dir\<close> is the directory, \<open>None\<close> if it could not be created. The goroutines
  of the tasks are all awaited; a panic in one ends the process.\<close>

definition Group_SyncRun ::
  "search_env \<Rightarrow> string option \<Rightarrow> nat \<Rightarrow> TaskGroupModel \<Rightarrow> TaskModel list \<Rightarrow>
   (TaskGroupModel \<times> TaskModel list \<times> effect list) option" where
  "Group_SyncRun env dir maxPreview tg tasks = do {
     let (tg, effs) = (case dir of Some d \<Rightarrow> let tg = tg\<lparr>LogStoreDir := Some d\<rparr> in (tg, [SaveGroup tg]) | None \<Rightarrow> (tg, []));
     runs \<leftarrow> those_columns (Task_SyncRun env tg maxPreview) tasks;
     let tg = tg\<lparr>tg_State := TaskGroupStateFinished\<rparr>;
     Some (tg, map fst runs, effs @ concat (map snd runs) @ [SaveGroup tg])
   }"

section \<open>\<open>scheduler.go\<close>\<close>

definition TaskMaxPreviewLines :: int where "TaskMaxPreviewLines = 500"
definition TaskGroupMaxPreviewLines :: int where "TaskGroupMaxPreviewLines = 5000"

text \<open>The running groups, each with its tasks; \<open>None\<close> while \<open>InitTasks\<close> has not run.\<close>

type_synonym Scheduler = "nat \<rightharpoonup> TaskModel list option"

definition previewsPerTask :: "nat \<Rightarrow> int option" where
  "previewsPerTask n = do {
     q \<leftarrow> go_div TaskGroupMaxPreviewLines (int n);
     Some (if TaskMaxPreviewLines < q then TaskMaxPreviewLines else q)
   }"

text \<open>The first part of \<open>AsyncStart\<close>: the flag, and the bound that the group will use.\<close>

definition AsyncStart :: "Scheduler \<Rightarrow> TaskGroupModel \<Rightarrow> TaskModel list \<Rightarrow> (Scheduler \<times> bool \<times> int) option" where
  "AsyncStart s tg tasks = do {
     m \<leftarrow> previewsPerTask (length tasks);
     (if s (tg_ID tg) \<noteq> None then Some (s, False, m) else Some (s(tg_ID tg \<mapsto> None), True, m))
   }"

definition InitTasks :: "Scheduler \<Rightarrow> nat \<Rightarrow> TaskModel list \<Rightarrow> Scheduler option" where
  "InitTasks s i tasks =
     (case s i of
        Some None \<Rightarrow> Some (s(i \<mapsto> Some tasks))
      | Some (Some ts) \<Rightarrow> None
      | None \<Rightarrow> Some s)"

definition group_done :: "Scheduler \<Rightarrow> nat \<Rightarrow> Scheduler" where
  "group_done s i = s(i := None)"

text \<open>The flag, and the tasks whose contexts are cancelled.\<close>

definition AsyncAbort :: "Scheduler \<Rightarrow> nat \<Rightarrow> bool \<times> TaskModel list" where
  "AsyncAbort s i =
     (case s i of None \<Rightarrow> (False, []) | Some tasks \<Rightarrow> (True, case tasks of None \<Rightarrow> [] | Some ts \<Rightarrow> ts))"

section \<open>\<open>service.go\<close>\<close>

datatype 'a ls_reply = Reply 'a | ReplyBadRequest | ReplyDBError

text \<open>
  The handlers. The request body or the path parameter is \<open>None\<close> when it does not parse; \<open>group_id\<close>
  and \<open>task_id\<close> are the keys that the database gives to the new rows; what \<open>First\<close> and \<open>Find\<close> return is
  an argument. A handler that starts a group also returns it with its tasks.
\<close>

definition CreateTaskGroup ::
  "(SearchLogRequest \<times> RequestTargetNode list) option \<Rightarrow> nat option \<Rightarrow> (nat \<Rightarrow> nat) \<Rightarrow> Scheduler \<Rightarrow>
   (Scheduler \<times> effect list \<times> (TaskGroupModel \<times> TaskModel list) ls_reply) option" where
  "CreateTaskGroup body group_id task_id s =
     (case body of
        None \<Rightarrow> Some (s, [], ReplyBadRequest)
      | Some (req, targets) \<Rightarrow>
          if length targets = 0 then Some (s, [], ReplyBadRequest)
          else
            (case group_id of
               None \<Rightarrow> Some (s, [], ReplyDBError)
             | Some gid \<Rightarrow> do {
                 let taskGroup = \<lparr>tg_ID = gid, SearchRequest = req, tg_State = TaskGroupStateRunning,
                       TargetStats = NewRequestTargetStatisticsFromArray targets, LogStoreDir = None\<rparr>;
                 let tasks = map (\<lambda>(i, t). \<lparr>tk_ID = task_id i, tk_TaskGroupID = gid, Target = t, tk_State = TaskStateRunning,
                       LogStorePath = None, SlowLogStorePath = None, Size = 0, tk_Error = None\<rparr>) (enumerate 0 targets);
                 (s, started, m) \<leftarrow> AsyncStart s taskGroup tasks;
                 Some (s, CreateGroup taskGroup # map CreateTask tasks, Reply (taskGroup, tasks))
               }))"

text \<open>\<open>group\<close> is the finished group with the id, \<open>failed\<close> its tasks in the error state.\<close>

definition RetryTask ::
  "nat option \<Rightarrow> TaskGroupModel option \<Rightarrow> TaskModel list option \<Rightarrow> Scheduler \<Rightarrow>
   (Scheduler \<times> effect list \<times> (TaskGroupModel \<times> TaskModel list) ls_reply) option" where
  "RetryTask param tgroup failed s =
     (case param of
        None \<Rightarrow> Some (s, [], ReplyBadRequest)
      | Some taskGroupID \<Rightarrow>
          (case tgroup of
             None \<Rightarrow> Some (s, [], ReplyDBError)
           | Some taskGroup \<Rightarrow>
               (case failed of
                  None \<Rightarrow> Some (s, [], ReplyDBError)
                | Some tasks \<Rightarrow>
                    if length tasks = 0 then Some (s, [], Reply (taskGroup, []))
                    else do {
                      let taskGroup = taskGroup\<lparr>tg_State := TaskGroupStateRunning\<rparr>;
                      let tasks = map (\<lambda>t. t\<lparr>tk_Error := None, tk_State := TaskStateRunning\<rparr>) tasks;
                      (s, started, m) \<leftarrow> AsyncStart s taskGroup tasks;
                      Some (s, SaveGroup taskGroup # map SaveTask tasks, Reply (taskGroup, tasks))
                    })))"

definition CancelTask :: "nat option \<Rightarrow> TaskGroupModel option \<Rightarrow> Scheduler \<Rightarrow> TaskModel list ls_reply" where
  "CancelTask param tgroup s =
     (case param of
        None \<Rightarrow> ReplyBadRequest
      | Some taskGroupID \<Rightarrow>
          (case tgroup of
             None \<Rightarrow> ReplyDBError
           | Some taskGroup \<Rightarrow>
               if tg_State taskGroup \<noteq> TaskGroupStateRunning then ReplyBadRequest
               else Reply (snd (AsyncAbort s taskGroupID))))"

text \<open>\<open>tgroup\<close> is the group with the id, unless it is running.\<close>

definition DeleteTaskGroup :: "TaskGroupModel option \<Rightarrow> effect list \<times> unit ls_reply" where
  "DeleteTaskGroup tgroup =
     (case tgroup of None \<Rightarrow> ([], ReplyDBError) | Some taskGroup \<Rightarrow> (tg_Delete taskGroup, Reply ()))"

section \<open>The previews\<close>

definition preview_count :: "effect list \<Rightarrow> nat" where
  "preview_count effs = length (filter (\<lambda>e. case e of CreatePreview p \<Rightarrow> True | _ \<Rightarrow> False) effs)"

definition line_count :: "effect list \<Rightarrow> nat" where
  "line_count effs = length (filter (\<lambda>e. case e of WriteLine p l \<Rightarrow> True | _ \<Rightarrow> False) effs)"

lemma counts_simps [simp]:
  "preview_count [] = 0" "line_count [] = 0"
  "preview_count (a @ b) = preview_count a + preview_count b" "line_count (a @ b) = line_count a + line_count b"
  "preview_count (WriteLine p l # effs) = preview_count effs" "preview_count (CreatePreview v # effs) = Suc (preview_count effs)"
  "preview_count (RemoveAll d # effs) = preview_count effs" "preview_count (CreateFile d # effs) = preview_count effs" "preview_count (DeletePreviewsOfTask i # effs) = preview_count effs"
  "preview_count (SaveTask t # effs) = preview_count effs" "preview_count (SaveGroup g # effs) = preview_count effs"
  "line_count (WriteLine p l # effs) = Suc (line_count effs)" "line_count (CreatePreview v # effs) = line_count effs"
  by (simp_all add: preview_count_def line_count_def)

lemma write_messages_counts:
  assumes "write_messages env path m t msgs (pr, ln) = ((pr', ln'), effs, err)" and "pr \<le> m"
  shows "pr' = pr + preview_count effs \<and> pr' \<le> m \<and> ln' = ln + line_count effs \<and> pr' - pr = min (m - pr) (line_count effs) \<and>
    (err = None \<longrightarrow> line_count effs = length msgs)"
  using assms
proof (induction msgs arbitrary: pr ln effs)
  case (Cons msg msgs)
  show ?case
  proof (cases "se_write env path ln")
    case None
    let ?pr = "if pr < m then pr + 1 else pr"
    obtain effs' where rec: "write_messages env path m t msgs (?pr, ln + 1) = ((pr', ln'), effs', err)"
      and effs: "preview_count effs = (if pr < m then 1 else 0) + preview_count effs'" "line_count effs = Suc (line_count effs')"
      using Cons.prems(1) None by (auto simp: Let_def split: prod.splits if_splits)
    show ?thesis using Cons.IH [OF rec] Cons.prems(2) effs by (auto simp: min_def split: if_splits)
  next
    case (Some e)
    have "err = Some e" "effs = []" "pr' = pr" "ln' = ln" using Cons.prems(1) Some by simp_all
    then show ?thesis using Cons.prems(2) by simp
  qed
qed simp

lemma recv_loop_props:
  assumes "recv_loop env target path m batches fin st t = (t', effs)" and "fst st \<le> m"
  shows "fst st + preview_count effs \<le> m \<and> tk_ID t' = tk_ID t \<and> Target t' = Target t \<and>
    (target = Search_Normal \<longrightarrow> SlowLogStorePath t' = SlowLogStorePath t) \<and> (target = Search_Slow \<longrightarrow> LogStorePath t' = LogStorePath t)"
  using assms
proof (induction batches arbitrary: st t effs)
  case Nil
  then show ?case by (cases st) (auto simp: Let_def setError_def split: option.splits if_splits)
next
  case (Cons msgs batches)
  obtain pr ln where st: "st = (pr, ln)" by fastforce
  obtain pr' ln' effs1 err where W: "write_messages env path m t msgs (pr, ln) = ((pr', ln'), effs1, err)" by (metis prod_cases3 surj_pair)
  have w: "pr' = pr + preview_count effs1" "pr' \<le> m" using write_messages_counts [OF W] Cons.prems(2) st by simp_all
  show ?case
  proof (cases err)
    case (Some e)
    then show ?thesis using Cons.prems W w st by (auto simp: setError_def)
  next
    case None
    then obtain effs2 where "recv_loop env target path m batches fin (pr', ln') t = (t', effs2)" "effs = effs1 @ effs2"
      using Cons.prems W st by (auto simp: Let_def split: prod.splits)
    then show ?thesis using Cons.IH [of "(pr', ln')" t effs2] w st by simp
  qed
qed

section \<open>How a search ends\<close>

text \<open>The files of a task: those that are made, without those that are removed later.\<close>

fun files_after :: "effect list \<Rightarrow> string set \<Rightarrow> string set" where
  "files_after [] fs = fs"
| "files_after (CreateFile p # effs) fs = files_after effs (insert p fs)"
| "files_after (RemoveAll p # effs) fs = files_after effs (fs - {p})"
| "files_after (_ # effs) fs = files_after effs fs"

lemma files_after_append [simp]: "files_after (a @ b) fs = files_after b (files_after a fs)"
  by (induction a fs rule: files_after.induct) simp_all

text \<open>
  A search in terms of its stream: the first line that cannot be written ends it; the error of the
  search, whether it makes its file, and whether it records the path of the file in the task.
\<close>

definition first_failure :: "search_env \<Rightarrow> string \<Rightarrow> nat \<Rightarrow> nat \<Rightarrow> string option" where
  "first_failure env path start n =
     (case find (\<lambda>i. se_write env path i \<noteq> None) [start..<start + n] of None \<Rightarrow> None | Some i \<Rightarrow> se_write env path i)"

record search_end =
  end_error :: "string option"
  file_made :: bool
  path_recorded :: bool

definition log_name :: "search_target \<Rightarrow> RequestTargetNode \<Rightarrow> string" where
  "log_name target n = (if target = Search_Slow then FileName n @ ''-slow'' else FileName n)"

definition log_path :: "search_env \<Rightarrow> string \<Rightarrow> search_target \<Rightarrow> RequestTargetNode \<Rightarrow> string" where
  "log_path env dir target n = se_Join env dir (log_name target n @ ''.zip'')"

definition request_of :: "SearchLogRequest \<Rightarrow> search_target \<Rightarrow> pb_request" where
  "request_of r target = \<lparr>pb_StartTime = sr_StartTime r, pb_EndTime = sr_EndTime r,
     pb_Levels = drop (nat (MinLevel r)) PBLogLevelSlice, pb_Patterns = map (\<lambda>p. ''(?i)'' @ p) (Patterns r), pb_Target = target\<rparr>"

definition search_ends ::
  "search_env \<Rightarrow> SearchLogRequest \<Rightarrow> string \<Rightarrow> nat \<Rightarrow> search_target \<Rightarrow> RequestTargetNode \<Rightarrow> search_end" where
  "search_ends env r dir m target n =
     (case se_SearchLog env n (request_of r target) of
        Inl err \<Rightarrow> \<lparr>end_error = Some err, file_made = False, path_recorded = False\<rparr>
      | Inr (batches, fin) \<Rightarrow>
          (case se_Create env (log_path env dir target n) of
             Some err \<Rightarrow> \<lparr>end_error = Some err, file_made = False, path_recorded = False\<rparr>
           | None \<Rightarrow>
               (case se_zip_Create env (log_name target n @ ''.log'') of
                  Some err \<Rightarrow> \<lparr>end_error = Some err, file_made = True, path_recorded = False\<rparr>
                | None \<Rightarrow>
                    (case first_failure env (log_path env dir target n) 0 (length (concat batches)) of
                       Some err \<Rightarrow> \<lparr>end_error = Some err, file_made = True, path_recorded = False\<rparr>
                     | None \<Rightarrow> \<lparr>end_error = fin, file_made = True, path_recorded = m \<noteq> 0 \<and> concat batches \<noteq> []\<rparr>))))"

definition set_path :: "search_target \<Rightarrow> string option \<Rightarrow> TaskModel \<Rightarrow> TaskModel" where
  "set_path target p t = (case p of None \<Rightarrow> t
     | Some path \<Rightarrow> if target = Search_Normal then t\<lparr>LogStorePath := Some path\<rparr> else t\<lparr>SlowLogStorePath := Some path\<rparr>)"

lemma first_failure_Suc:
  "first_failure env path start (Suc n) =
     (case se_write env path start of Some err \<Rightarrow> Some err | None \<Rightarrow> first_failure env path (Suc start) n)"
  using upt_conv_Cons [of start "start + Suc n"] by (simp add: first_failure_def del: upt_Suc split: option.split)

lemma first_failure_add:
  "first_failure env path start (a + b) =
     (case first_failure env path start a of Some err \<Rightarrow> Some err | None \<Rightarrow> first_failure env path (start + a) b)"
proof (induction a arbitrary: start)
  case 0
  show ?case by (simp add: first_failure_def)
next
  case (Suc a)
  then show ?case by (simp add: first_failure_Suc split: option.split)
qed

lemma write_messages_end:
  assumes "write_messages env path m t msgs (pr, ln) = ((pr', ln'), effs, err)" and "pr \<le> m"
  shows "err = first_failure env path ln (length msgs) \<and> files_after effs fs = fs \<and>
    (err = None \<longrightarrow> ln' = ln + length msgs \<and> pr' = min m (pr + length msgs))"
  using assms
proof (induction msgs arbitrary: pr ln effs)
  case Nil
  then show ?case by (simp add: first_failure_def)
next
  case (Cons msg msgs)
  show ?case
  proof (cases "se_write env path ln")
    case None
    let ?pr = "if pr < m then pr + 1 else pr"
    obtain effs' where rec: "write_messages env path m t msgs (?pr, ln + 1) = ((pr', ln'), effs', err)"
      and effs: "files_after effs fs = files_after effs' fs"
      using Cons.prems(1) None by (auto simp: Let_def split: prod.splits if_splits)
    have "?pr \<le> m" using Cons.prems(2) by simp
    from Cons.IH [OF rec this] show ?thesis using effs None Cons.prems(2) by (auto simp: first_failure_Suc min_def)
  next
    case (Some e)
    then have "err = Some e" "effs = []" using Cons.prems(1) by simp_all
    then show ?thesis using Some by (simp add: first_failure_Suc)
  qed
qed

lemma recv_loop_end:
  assumes "recv_loop env target path m batches fin (pr, ln) t = (t', effs)" and "pr \<le> m"
  shows "files_after effs fs = fs \<and>
    t' = (case first_failure env path ln (length (concat batches)) of
       Some err \<Rightarrow> setError err t
     | None \<Rightarrow> set_path target (if min m (pr + length (concat batches)) \<noteq> 0 then Some path else None)
         (case fin of Some err \<Rightarrow> setError err t | None \<Rightarrow> t))"
  using assms
proof (induction batches arbitrary: pr ln effs)
  case Nil
  then show ?case by (auto simp: first_failure_def set_path_def Let_def min_def split: option.splits)
next
  case (Cons msgs batches)
  obtain pr' ln' effs1 err where W: "write_messages env path m t msgs (pr, ln) = ((pr', ln'), effs1, err)" by (metis prod_cases3 surj_pair)
  note w = write_messages_end [OF W Cons.prems(2), of fs]
  show ?case
  proof (cases err)
    case (Some e)
    then show ?thesis using Cons.prems(1) W w by (auto simp: first_failure_add)
  next
    case None
    then obtain effs2 where rec: "recv_loop env target path m batches fin (pr', ln') t = (t', effs2)" "effs = effs1 @ effs2"
      using Cons.prems(1) W by (auto simp: Let_def split: prod.splits)
    have st: "ln' = ln + length msgs" "pr' = min m (pr + length msgs)" "first_failure env path ln (length msgs) = None"
      using w None by simp_all
    then have "pr' \<le> m" by simp
    have mm: "min m (pr' + length (concat batches)) = min m (pr + length (concat (msgs # batches)))"
      unfolding st(2) by (simp add: min_def)
    show ?thesis
      using Cons.IH [OF rec(1) \<open>pr' \<le> m\<close>] w unfolding rec(2) mm by (simp add: first_failure_add st)
  qed
qed

lemma searchLog_None:
  "searchLog env tg dir m target t = None \<longleftrightarrow> tk_Error t = None \<and> \<not> (0 \<le> MinLevel (SearchRequest tg) \<and> MinLevel (SearchRequest tg) \<le> 7)"
  by (auto simp: searchLog_def bind_eq_None_conv ConvertToPB_def go_slice_def PBLogLevelSlice_def)

lemma searchLog_end:
  assumes "0 \<le> MinLevel (SearchRequest tg)" and "MinLevel (SearchRequest tg) \<le> 7" and "tk_Error t = None"
    and "searchLog env tg dir m target t = Some (t', effs)"
    and "e = search_ends env (SearchRequest tg) dir m target (Target t)"
  shows "preview_count effs \<le> m \<and> tk_ID t' = tk_ID t \<and> Target t' = Target t \<and> Size t' = Size t \<and> tk_Error t' = end_error e \<and>
    files_after effs fs = (if file_made e then insert (log_path env dir target (Target t)) fs else fs) \<and>
    (let p = (if path_recorded e then Some (log_path env dir target (Target t)) else None) in
       LogStorePath t' = LogStorePath (set_path target p t) \<and> SlowLogStorePath t' = SlowLogStorePath (set_path target p t))"
proof -
  have "nat (MinLevel (SearchRequest tg)) \<le> length PBLogLevelSlice" using assms(2) by (simp add: PBLogLevelSlice_def)
  then have "ConvertToPB (SearchRequest tg) target = Some ((request_of (SearchRequest tg) target)\<lparr>pb_Patterns := Patterns (SearchRequest tg)\<rparr>)"
    using assms(1) by (simp add: ConvertToPB_def go_slice_def request_of_def)
  then have S: "search_stream env dir m target t (request_of (SearchRequest tg) target) = (t', effs)"
    using assms(3,4) by (simp add: searchLog_def request_of_def del: append_Cons append.simps)
  let ?p = "log_path env dir target (Target t)"
  have path: "se_Join env dir ((if target = Search_Slow then FileName (Target t) @ ''-slow'' else FileName (Target t)) @ ''.zip'') = ?p"
    by (simp add: log_path_def log_name_def)
  show ?thesis
  proof (cases "se_SearchLog env (Target t) (request_of (SearchRequest tg) target)")
    case (Inl err)
    then show ?thesis using S assms(3,5) by (auto simp: search_stream_def search_ends_def setError_def set_path_def)
  next
    case (Inr r)
    obtain batches fin where r: "r = (batches, fin)" by fastforce
    note S = S [unfolded search_stream_def Inr sum.case r prod.case Let_def path]
    show ?thesis
    proof (cases "se_Create env ?p")
      case (Some err)
      then show ?thesis using S Inr r assms(3,5) by (auto simp: search_ends_def setError_def set_path_def)
    next
      case create: None
      show ?thesis
      proof (cases "se_zip_Create env (log_name target (Target t) @ ''.log'')")
        case (Some err)
        then show ?thesis
          using S create Inr r assms(3,5) by (auto simp: search_ends_def setError_def set_path_def log_name_def)
      next
        case None
        then obtain effs1 where L: "recv_loop env target ?p m batches fin (0, 0) (t\<lparr>tk_State := TaskStateRunning\<rparr>) = (t', effs1)"
          and effs: "effs = CreateFile ?p # effs1"
          using S create by (auto simp: log_name_def split: prod.splits)
        have e: "e = (case first_failure env ?p 0 (length (concat batches)) of
             Some err \<Rightarrow> \<lparr>end_error = Some err, file_made = True, path_recorded = False\<rparr>
           | None \<Rightarrow> \<lparr>end_error = fin, file_made = True, path_recorded = m \<noteq> 0 \<and> concat batches \<noteq> []\<rparr>)"
          using None create Inr r assms(5) by (simp add: search_ends_def)
        have pc: "preview_count effs \<le> m" using recv_loop_props [OF L] effs by simp
        have rec: "min m (0 + length (concat batches)) \<noteq> 0 \<longleftrightarrow> m \<noteq> 0 \<and> concat batches \<noteq> []"
        proof -
          have "min m (0 + n) \<noteq> 0 \<longleftrightarrow> m \<noteq> 0 \<and> n \<noteq> 0" for n by auto
          from this [of "length (concat batches)"] show ?thesis by (simp only: length_0_conv)
        qed
        show ?thesis
          using recv_loop_end [OF L zero_le, of "insert ?p fs", unfolded rec] pc assms(3) unfolding e
          by (cases "first_failure env ?p 0 (length (concat batches))")
            (auto simp: effs setError_def set_path_def split: option.splits if_splits)
      qed
    qed
  qed
qed

section \<open>Tasks\<close>

lemma task_body_None:
  "task_body env tg m t = None \<longleftrightarrow> LogStoreDir tg \<noteq> None \<and> se_Dial env (Target t) = None \<and> tk_Error t = None \<and>
    \<not> (0 \<le> MinLevel (SearchRequest tg) \<and> MinLevel (SearchRequest tg) \<le> 7)"
proof (cases "LogStoreDir tg")
  case (Some dir)
  have again: "searchLog env tg dir m Search_Slow t1 \<noteq> None" if "searchLog env tg dir m Search_Normal t = Some (t1, effs1)" for t1 effs1
  proof (cases "tk_Error t")
    case None
    then have "0 \<le> MinLevel (SearchRequest tg) \<and> MinLevel (SearchRequest tg) \<le> 7"
      using that searchLog_None [of env tg dir m Search_Normal t] by auto
    then show ?thesis by (simp only: searchLog_None) simp
  next
    case (Some e)
    then have "t1 = t" using that by (simp add: searchLog_def)
    then show ?thesis using Some by (simp only: searchLog_None) simp
  qed
  show ?thesis
  proof (cases "se_Dial env (Target t)")
    case None
    have "task_body env tg m t = None \<longleftrightarrow> searchLog env tg dir m Search_Normal t = None"
      using Some None again by (cases "searchLog env tg dir m Search_Normal t") (auto simp: task_body_def bind_eq_None_conv)
    then show ?thesis using Some None unfolding searchLog_None by simp
  qed (use Some in \<open>simp add: task_body_def\<close>)
qed (simp add: task_body_def)

text \<open>
  The end of the searches of a task: none if its group has no directory or its node cannot be dialled,
  else the normal one and, if that ends without an error and the node is TiKV, the slow one.
\<close>

definition no_search :: "string option \<Rightarrow> search_end" where
  "no_search err = \<lparr>end_error = err, file_made = False, path_recorded = False\<rparr>"

definition task_ends :: "search_env \<Rightarrow> TaskGroupModel \<Rightarrow> nat \<Rightarrow> RequestTargetNode \<Rightarrow> search_end \<times> search_end" where
  "task_ends env tg m n =
     (case LogStoreDir tg of
        None \<Rightarrow> (no_search (Some ''failed to create temporary directory''), no_search None)
      | Some dir \<Rightarrow>
          if se_Dial env n \<noteq> None then (no_search (se_Dial env n), no_search None) else
          let e = search_ends env (SearchRequest tg) dir m Search_Normal n
          in (e, if end_error e = None \<and> rt_Kind n = NodeKindTiKV
                 then search_ends env (SearchRequest tg) dir m Search_Slow n else no_search None))"

definition dir_of :: "TaskGroupModel \<Rightarrow> string" where
  "dir_of tg = (case LogStoreDir tg of None \<Rightarrow> '''' | Some dir \<Rightarrow> dir)"

definition made_files :: "string \<Rightarrow> search_end \<Rightarrow> string set" where
  "made_files p e = (if file_made e then {p} else {})"

lemma task_body_end:
  assumes "task_body env tg m t = Some (t', effs)" and "tk_Error t = None" and "task_ends env tg m (Target t) = (e, e')"
  shows "preview_count effs \<le> (if rt_Kind (Target t) = NodeKindTiKV then 2 * m else m) \<and>
    tk_ID t' = tk_ID t \<and> Target t' = Target t \<and> Size t' = Size t \<and>
    tk_Error t' = (if end_error e \<noteq> None then end_error e else end_error e') \<and>
    files_after effs fs = fs \<union> made_files (log_path env (dir_of tg) Search_Normal (Target t)) e \<union>
      made_files (log_path env (dir_of tg) Search_Slow (Target t)) e' \<and>
    LogStorePath t' = (if path_recorded e then Some (log_path env (dir_of tg) Search_Normal (Target t)) else LogStorePath t) \<and>
    SlowLogStorePath t' = (if path_recorded e' then Some (log_path env (dir_of tg) Search_Slow (Target t)) else SlowLogStorePath t)"
proof (cases "LogStoreDir tg")
  case None
  then show ?thesis using assms by (auto simp: task_body_def task_ends_def no_search_def made_files_def setError_def)
next
  case (Some dir)
  show ?thesis
  proof (cases "se_Dial env (Target t)")
    case err: (Some err)
    then show ?thesis using Some assms by (auto simp: task_body_def task_ends_def no_search_def made_files_def setError_def)
  next
    case None
    have level: "0 \<le> MinLevel (SearchRequest tg)" "MinLevel (SearchRequest tg) \<le> 7"
      using task_body_None [of env tg m t] assms(1,2) Some None by auto
    have d: "dir_of tg = dir" using Some by (simp add: dir_of_def)
    obtain t1 effs1 where t1: "searchLog env tg dir m Search_Normal t = Some (t1, effs1)"
      using assms(1) Some None by (auto simp: task_body_def bind_eq_Some_conv)
    note p1 = searchLog_end [OF level assms(2) t1 refl]
    have e: "e = search_ends env (SearchRequest tg) dir m Search_Normal (Target t)"
      using assms(3) Some None by (auto simp: task_ends_def Let_def)
    have T: "Target t1 = Target t" "tk_Error t1 = end_error e" using p1 e by simp_all
    show ?thesis
    proof (cases "rt_Kind (Target t) = NodeKindTiKV")
      case False
      then have "t' = t1" "effs = effs1" "e' = no_search None"
        using assms(1,3) Some None t1 T by (auto simp: task_body_def task_ends_def Let_def)
      then show ?thesis using p1 [of fs] e False by (auto simp: d no_search_def made_files_def set_path_def Let_def)
    next
      case kv: True
      obtain effs2 where s: "searchLog env tg dir m Search_Slow t1 = Some (t', effs2)" "effs = effs1 @ effs2"
        using assms(1) Some None t1 T kv by (auto simp: task_body_def bind_eq_Some_conv)
      show ?thesis
      proof (cases "end_error e")
        case err: (Some err)
        then have "t' = t1" "effs2 = []" "e' = no_search None"
          using s(1) T assms(3) Some None e by (auto simp: searchLog_def task_ends_def Let_def)
        then show ?thesis using p1 [of fs] e kv s(2) err by (auto simp: d no_search_def made_files_def set_path_def Let_def)
      next
        case ok: None
        then have e': "e' = search_ends env (SearchRequest tg) dir m Search_Slow (Target t1)"
          using assms(3) Some None kv e T by (auto simp: task_ends_def Let_def)
        have "tk_Error t1 = None" using T ok by simp
        note p2 = searchLog_end [OF level this s(1) e']
        show ?thesis
          using p1 [of fs] p2 [of "files_after effs1 fs"] e kv s(2) ok T
          by (auto simp: d made_files_def set_path_def Let_def)
      qed
    qed
  qed
qed

lemma accumulate_simps [simp]:
  "tk_State (accumulateLogSize env p t) = tk_State t" "tk_Error (accumulateLogSize env p t) = tk_Error t"
  "tk_ID (accumulateLogSize env p t) = tk_ID t" "Target (accumulateLogSize env p t) = Target t"
  "LogStorePath (accumulateLogSize env p t) = LogStorePath t" "SlowLogStorePath (accumulateLogSize env p t) = SlowLogStorePath t"
  by (simp_all add: accumulateLogSize_def split: option.split)

text \<open>What the deferred function makes of the result of the body.\<close>

lemma Task_SyncRun_cases:
  assumes "Task_SyncRun env tg m t = Some (t', effs)"
  obtains t1 effs1 where "task_body env tg m t = Some (t1, effs1)" and "tk_Error t1 = None" and "tk_State t' = TaskStateFinished"
      and "effs = effs1 @ [SaveTask t']" and "tk_Error t' = None" and "tk_ID t' = tk_ID t1" and "Target t' = Target t1"
      and "LogStorePath t' = LogStorePath t1" and "SlowLogStorePath t' = SlowLogStorePath t1"
    | t1 effs1 where "task_body env tg m t = Some (t1, effs1)" and "tk_Error t1 \<noteq> None" and "tk_State t' = TaskStateError"
      and "effs = effs1 @ (case LogStorePath t1 of None \<Rightarrow> [] | Some p \<Rightarrow> [RemoveAll p]) @ [DeletePreviewsOfTask (tk_ID t1), SaveTask t']"
      and "tk_Error t' = tk_Error t1" and "tk_ID t' = tk_ID t1" and "Target t' = Target t1"
      and "LogStorePath t' = None" and "SlowLogStorePath t' = SlowLogStorePath t1"
proof -
  obtain t1 effs1 where b: "task_body env tg m t = Some (t1, effs1)"
    using assms by (auto simp: Task_SyncRun_def bind_eq_Some_conv)
  show ?thesis
  proof (cases "tk_Error t1")
    case None
    then have "t' = accumulateLogSize env (SlowLogStorePath t1) (accumulateLogSize env (LogStorePath t1) (t1\<lparr>tk_State := TaskStateFinished\<rparr>))"
      "effs = effs1 @ [SaveTask t']" using assms b by (auto simp: Task_SyncRun_def Let_def)
    then show ?thesis using that(1) [OF b None] None by simp
  next
    case (Some err)
    then have "t' = (fst (RemoveDataAndPreview t1))\<lparr>tk_State := TaskStateError\<rparr>" "effs = effs1 @ snd (RemoveDataAndPreview t1) @ [SaveTask t']"
      using assms b by (auto simp: Task_SyncRun_def Let_def split: prod.splits)
    then show ?thesis using that(2) [OF b] Some by (simp add: RemoveDataAndPreview_def Let_def split: option.splits)
  qed
qed


text \<open>
  The run of a group whose directory was made panics, in a goroutine, exactly when the minimal
  level of the request is not between 0 and 7 and some task reaches its node; no handler
  checks the level.
\<close>

theorem min_level_crash:
  assumes "\<forall>t\<in>set tasks. tk_Error t = None"
  shows "Group_SyncRun env (Some dir) m tg tasks = None \<longleftrightarrow>
    \<not> (0 \<le> MinLevel (SearchRequest tg) \<and> MinLevel (SearchRequest tg) \<le> 7) \<and> (\<exists>t\<in>set tasks. se_Dial env (Target t) = None)"
proof -
  have none: "those_columns f xs = None \<longleftrightarrow> (\<exists>x\<in>set xs. f x = None)" for f :: "TaskModel \<Rightarrow> (TaskModel \<times> effect list) option" and xs
    by (induction xs) (auto simp: bind_eq_None_conv)
  have run: "Task_SyncRun env (tg\<lparr>LogStoreDir := Some dir\<rparr>) m t = None \<longleftrightarrow> se_Dial env (Target t) = None \<and>
    \<not> (0 \<le> MinLevel (SearchRequest tg) \<and> MinLevel (SearchRequest tg) \<le> 7)" if "t \<in> set tasks" for t
    using task_body_None [of env "tg\<lparr>LogStoreDir := Some dir\<rparr>" m t] assms that
    by (auto simp: Task_SyncRun_def bind_eq_None_conv Let_def split: prod.splits)
  show ?thesis using run by (auto simp: Group_SyncRun_def Let_def bind_eq_None_conv none)
qed

section \<open>A concrete run\<close>

definition demo_env :: search_env where
  "demo_env = \<lparr>se_Dial = (\<lambda>n. None),
     se_SearchLog = (\<lambda>n req. Inr ([[\<lparr>msg_Time = 1, msg_Level = 2, Message = ''m''\<rparr>, \<lparr>msg_Time = 2, msg_Level = 2, Message = ''n''\<rparr>]],
       if pb_Target req = Search_Slow then Some ''cut'' else None)),
     se_Create = (\<lambda>p. None), se_zip_Create = (\<lambda>p. None), se_write = (\<lambda>p i. None), se_Stat = (\<lambda>p. Some 9),
     se_Join = (\<lambda>d f. d @ ''/'' @ f), se_Time = (\<lambda>t. ''t''), se_Level = (\<lambda>l. ''INFO'')\<rparr>"

definition demo_group :: "int \<Rightarrow> TaskGroupModel" where
  "demo_group level = \<lparr>tg_ID = 1, SearchRequest = \<lparr>sr_StartTime = 0, sr_EndTime = 9, MinLevel = level, Patterns = []\<rparr>,
     tg_State = TaskGroupStateRunning, TargetStats = \<lparr>NumTiKVNodes = 1, NumTiDBNodes = 0, NumPDNodes = 0, NumTiFlashNodes = 0\<rparr>,
     LogStoreDir = Some ''d''\<rparr>"

definition demo_task :: "NodeKind \<Rightarrow> TaskModel" where
  "demo_task kind = \<lparr>tk_ID = 7, tk_TaskGroupID = 1, Target = \<lparr>rt_Kind = kind, DisplayName = ''h:1'', IP = ''h'', Port = 1\<rparr>,
     tk_State = TaskStateRunning, LogStorePath = None, SlowLogStorePath = None, Size = 0, tk_Error = None\<rparr>"

lemma demo_run_tidb:
  "map_option (\<lambda>(t, effs). (tk_State t, Size t, preview_count effs)) (Task_SyncRun demo_env (demo_group 0) 1 (demo_task NodeKindTiDB))
    = Some (TaskStateFinished, 9, 1)"
  by code_simp



theorem min_level_crash_witness:
  "Group_SyncRun demo_env (Some ''d'') 500 (demo_group 100) [demo_task NodeKindTiDB] = None \<and>
    Group_SyncRun demo_env (Some ''d'') 500 (demo_group 7) [demo_task NodeKindTiDB] \<noteq> None"
proof -
  have e: "\<forall>t\<in>set [demo_task NodeKindTiDB]. tk_Error t = None" by (simp add: demo_task_def)
  have "se_Dial demo_env (Target (demo_task NodeKindTiDB)) = None" "MinLevel (SearchRequest (demo_group l)) = l" for l
    by (simp_all add: demo_env_def demo_group_def)
  then show ?thesis
    using min_level_crash [OF e, of demo_env "''d''" 500 "demo_group 100"] min_level_crash [OF e, of demo_env "''d''" 500 "demo_group 7"]
    by simp
qed

text \<open>
  When the slow log search of a TiKV task fails after some lines, the task ends in the error
  state with the path of a slow log file that was not removed; and it has created twice as many
  previews as the bound of a task.
\<close>

theorem slow_log_left_behind:
  "\<exists>t' effs path. Task_SyncRun demo_env (demo_group 0) 1 (demo_task NodeKindTiKV) = Some (t', effs) \<and>
    tk_State t' = TaskStateError \<and> SlowLogStorePath t' = Some path \<and> RemoveAll path \<notin> set effs \<and> preview_count effs = 2"
proof -
  have "map_option (\<lambda>(t, effs). (tk_State t, preview_count effs, case SlowLogStorePath t of None \<Rightarrow> False | Some path \<Rightarrow> RemoveAll path \<notin> set effs))
      (Task_SyncRun demo_env (demo_group 0) 1 (demo_task NodeKindTiKV)) = Some (TaskStateError, 2, True)"
    by code_simp
  then show ?thesis by (auto split: option.splits)
qed

section \<open>Groups\<close>

lemma previewsPerTask_bound:
  assumes "previewsPerTask n = Some m"
  shows "0 < n \<and> 0 \<le> m \<and> m \<le> 500 \<and> int n * m \<le> 5000"
proof -
  have n: "0 < n" using assms by (cases n) (auto simp: previewsPerTask_def go_div_def)
  have m: "m = (if 500 < 5000 div int n then 500 else 5000 div int n)"
    using assms n go_div_nat [of "int n" 5000] by (simp add: previewsPerTask_def TaskGroupMaxPreviewLines_def TaskMaxPreviewLines_def split: if_splits)
  have "int n * (5000 div int n) \<le> 5000" using mult_div_mod_eq [of "int n" 5000] pos_mod_sign [of "int n" 5000] n by linarith
  moreover have "int n * m \<le> int n * (5000 div int n)" using m n by (intro mult_left_mono) auto
  ultimately have "int n * m \<le> 5000" by linarith
  moreover have "0 \<le> m \<and> m \<le> 500" using m n by (auto simp: pos_imp_zdiv_nonneg_iff)
  ultimately show ?thesis using n by blast
qed

lemma preview_count_concat: "preview_count (concat xs) = sum_list (map preview_count xs)"
  by (induction xs) auto

lemma Task_SyncRun_bounds:
  assumes "Task_SyncRun env tg m t = Some (t', effs)" and "tk_Error t = None"
  shows "tk_ID t' = tk_ID t \<and> tk_State t' = (if tk_Error t' = None then TaskStateFinished else TaskStateError) \<and>
    preview_count effs \<le> (if rt_Kind (Target t) = NodeKindTiKV then 2 * m else m)"
proof -
  obtain e e' where E: "task_ends env tg m (Target t) = (e, e')" by fastforce
  from assms(1) show ?thesis
  proof (cases rule: Task_SyncRun_cases)
    case (1 t1 effs1)
    then show ?thesis using task_body_end [OF 1(1) assms(2) E] by simp
  next
    case (2 t1 effs1)
    have "preview_count (case LogStorePath t1 of None \<Rightarrow> [] | Some p \<Rightarrow> [RemoveAll p]) = 0" by (simp split: option.split)
    then have "preview_count effs = preview_count effs1" using 2(4) by simp
    then show ?thesis using 2(2,3,5,6) task_body_end [OF 2(1) assms(2) E] by auto
  qed
qed

lemma those_columns_some: "\<forall>x\<in>set xs. f x \<noteq> None \<Longrightarrow> \<exists>ys. those_columns f xs = Some ys"
  by (induction xs) auto

text \<open>
  C35: a group that the scheduler starts, with a minimal level between 0 and 7 and tasks that have no
  error yet, runs to its end without a panic: the group is finished, every task is finished or, if it
  has an error, in the error state, and it creates at most 5000 previews if no target is a TiKV
  and twice as many otherwise. Starting a group without tasks panics; a level outside 0 to 7, which no
  handler checks, panics in the goroutine of a task and ends the process (\<open>min_level_crash\<close>).
\<close>

theorem group_run_bound:
  assumes "AsyncStart s tg tasks = Some (s', True, m)" and "\<forall>t\<in>set tasks. tk_Error t = None"
    and "0 \<le> MinLevel (SearchRequest tg)" and "MinLevel (SearchRequest tg) \<le> 7"
  shows "\<exists>tg' tasks' effs. Group_SyncRun env dir (nat m) tg tasks = Some (tg', tasks', effs) \<and>
    tasks \<noteq> [] \<and> s (tg_ID tg) = None \<and> tg_State tg' = TaskGroupStateFinished \<and> map tk_ID tasks' = map tk_ID tasks \<and>
    (\<forall>t\<in>set tasks'. tk_State t = (if tk_Error t = None then TaskStateFinished else TaskStateError)) \<and>
    preview_count effs \<le> (if \<exists>t\<in>set tasks. rt_Kind (Target t) = NodeKindTiKV then 10000 else 5000)"
proof -
  have m: "previewsPerTask (length tasks) = Some m" "s (tg_ID tg) = None"
    using assms(1) by (auto simp: AsyncStart_def bind_eq_Some_conv split: if_splits)
  note b = previewsPerTask_bound [OF m(1)]
  define tg1 where "tg1 = (case dir of Some d \<Rightarrow> tg\<lparr>LogStoreDir := Some d\<rparr> | None \<Rightarrow> tg)"
  define effs1 where "effs1 = (case dir of Some d \<Rightarrow> [SaveGroup tg1] | None \<Rightarrow> [])"
  have "SearchRequest tg1 = SearchRequest tg" by (simp add: tg1_def split: option.split)
  then have body: "task_body env tg1 (nat m) t \<noteq> None" for t
    using assms(3,4) task_body_None [of env tg1 "nat m" t] by simp
  have "Task_SyncRun env tg1 (nat m) t \<noteq> None" for t
    using body [of t] by (auto simp: Task_SyncRun_def Let_def split: prod.splits)
  then obtain runs where g: "those_columns (Task_SyncRun env tg1 (nat m)) tasks = Some runs"
    using those_columns_some [of tasks "Task_SyncRun env tg1 (nat m)"] by auto
  define tg' where "tg' = tg1\<lparr>tg_State := TaskGroupStateFinished\<rparr>"
  define tasks' where "tasks' = map fst runs"
  define effs where "effs = effs1 @ concat (map snd runs) @ [SaveGroup tg']"
  have run: "Group_SyncRun env dir (nat m) tg tasks = Some (tg', tasks', effs)"
    using g by (cases dir) (simp_all add: Group_SyncRun_def Let_def tg1_def effs1_def tg'_def tasks'_def effs_def)
  have all: "list_all2 (\<lambda>t r. Task_SyncRun env tg1 (nat m) t = Some r) tasks runs" using g by (simp add: those_columns_iff)
  have out: "list_all2 (\<lambda>t r. tk_ID (fst r) = tk_ID t \<and>
      tk_State (fst r) = (if tk_Error (fst r) = None then TaskStateFinished else TaskStateError) \<and>
      preview_count (snd r) \<le> (if rt_Kind (Target t) = NodeKindTiKV then 2 * nat m else nat m)) tasks runs"
    using all assms(2)
  proof (induction rule: list_all2_induct)
    case (Cons t ts r rs)
    then have "Task_SyncRun env tg1 (nat m) t = Some (fst r, snd r)" "tk_Error t = None" by simp_all
    from Task_SyncRun_bounds [OF this] show ?case using Cons by simp
  qed simp
  note g = g tasks'_def effs_def
  have fin: "tg_State tg' = TaskGroupStateFinished" "preview_count effs1 = 0"
    by (simp_all add: tg'_def effs1_def split: option.split)
  have ids: "map tk_ID tasks' = map tk_ID tasks" unfolding g(2) using out
    by (induction rule: list_all2_induct) auto
  have states: "\<forall>t\<in>set tasks'. tk_State t = (if tk_Error t = None then TaskStateFinished else TaskStateError)" unfolding g(2) using out
    by (induction rule: list_all2_induct) auto
  have sum: "sum_list (map (preview_count \<circ> snd) runs) \<le> length tasks * k"
    if "\<forall>t\<in>set tasks. (if rt_Kind (Target t) = NodeKindTiKV then 2 * nat m else nat m) \<le> k" for k
    using out that by (induction rule: list_all2_induct) (auto intro: add_mono order_trans)
  have count: "preview_count effs = sum_list (map (preview_count \<circ> snd) runs)"
    using g(3) fin(2) by (simp add: preview_count_concat)
  have nm: "length tasks * nat m \<le> 5000"
  proof -
    have "int (length tasks * nat m) \<le> 5000" using b by simp
    then show ?thesis by linarith
  qed
  show ?thesis
  proof (cases "\<exists>t\<in>set tasks. rt_Kind (Target t) = NodeKindTiKV")
    case True
    have "preview_count effs \<le> length tasks * (2 * nat m)" using sum [of "2 * nat m"] count by simp
    then have "preview_count effs \<le> 10000" using nm by linarith
    then show ?thesis using True ids states fin(1) b m(2) run by auto
  next
    case False
    then have "preview_count effs \<le> length tasks * nat m" using sum [of "nat m"] count by simp
    then show ?thesis using False nm ids states fin(1) b m(2) run by auto
  qed
qed

theorem group_run_bound_witness:
  "\<exists>tg' tasks' effs. Group_SyncRun demo_env (Some ''d'') 500 (demo_group 0) [demo_task NodeKindTiKV] = Some (tg', tasks', effs) \<and>
    map tk_ID tasks' = [7] \<and> preview_count effs \<le> 10000"
proof -
  have a: "AsyncStart Map.empty (demo_group 0) [demo_task NodeKindTiKV] = Some (Map.empty(1 \<mapsto> None), True, 500)"
    by (simp add: AsyncStart_def previewsPerTask_def go_div_def TaskGroupMaxPreviewLines_def TaskMaxPreviewLines_def demo_group_def)
  have e: "\<forall>t\<in>set [demo_task NodeKindTiKV]. tk_Error t = None" and l: "MinLevel (SearchRequest (demo_group 0)) = 0"
    and i: "map tk_ID [demo_task NodeKindTiKV] = [7]" "rt_Kind (Target (demo_task NodeKindTiKV)) = NodeKindTiKV"
    by (simp_all add: demo_task_def demo_group_def)
  show ?thesis using group_run_bound [OF a e, of demo_env "Some ''d''"] l i by auto
qed

end
