(* ===== verification/GoHeap.thy ===== *)
theory GoHeap
  imports Prelude "HOL-Library.Multiset"
begin

text \<open>
  What the source uses of Go's \<open>container/heap\<close> and \<open>sort\<close>: \<open>heap.Push\<close> and \<open>heap.Pop\<close> on a
  slice with an arbitrary \<open>Less\<close>, and \<open>sort.Slice\<close>. The contract of a queue from which the
  least element can be taken is the locale \<open>min_queue\<close>; a buffer that pushes every element
  and pops one when it has grown past a bound keeps the greatest elements it has seen, which
  is proved there once.
\<close>

section \<open>Weak orders\<close>

text \<open>What \<open>Less\<close> has to be for the heap and the sort to make sense.\<close>

definition weak_order :: "('a \<Rightarrow> 'a \<Rightarrow> bool) \<Rightarrow> bool" where
  "weak_order lt \<longleftrightarrow>
     (\<forall>x y. lt x y \<longrightarrow> \<not> lt y x) \<and> (\<forall>x y z. \<not> lt y x \<longrightarrow> \<not> lt z y \<longrightarrow> \<not> lt z x)"

lemma weak_order_asym: "weak_order lt \<Longrightarrow> lt x y \<Longrightarrow> \<not> lt y x"
  unfolding weak_order_def by blast

lemma weak_order_trans: "weak_order lt \<Longrightarrow> \<not> lt y x \<Longrightarrow> \<not> lt z y \<Longrightarrow> \<not> lt z x"
  unfolding weak_order_def by blast

lemma weak_order_irrefl: "weak_order lt \<Longrightarrow> \<not> lt x x"
  unfolding weak_order_def by blast

lemma weak_order_key: "weak_order (\<lambda>x y. f x < (f y :: 'k :: linorder))"
  by (simp only: weak_order_def not_less) (blast intro: less_imp_le order_trans)

section \<open>Queues with a least element\<close>

locale min_queue =
  fixes push :: "'a \<Rightarrow> 'h \<Rightarrow> 'h" and pop :: "'h \<Rightarrow> ('a \<times> 'h) option"
    and lt :: "'a \<Rightarrow> 'a \<Rightarrow> bool" and ok :: "'h \<Rightarrow> bool" and elems :: "'h \<Rightarrow> 'a multiset"
  assumes push_ok: "ok h \<Longrightarrow> ok (push x h)"
    and push_elems: "ok h \<Longrightarrow> elems (push x h) = add_mset x (elems h)"
    and pop_least: "ok h \<Longrightarrow> elems h \<noteq> {#} \<Longrightarrow>
      \<exists>x h'. pop h = Some (x, h') \<and> ok h' \<and> elems h = add_mset x (elems h') \<and>
        (\<forall>y\<in>#elems h. \<not> lt y x)"
    and ok_order: "ok h \<Longrightarrow> weak_order lt"
begin

text \<open>Push an element, and pop one if there are then more than \<open>k\<close>.\<close>

definition push_bounded :: "nat \<Rightarrow> 'a \<Rightarrow> 'h \<Rightarrow> 'h" where
  "push_bounded k x h =
     (let h = push x h in
      if k < size (elems h) then (case pop h of None \<Rightarrow> h | Some (_, h) \<Rightarrow> h) else h)"

text \<open>\<open>H\<close> is what is kept and \<open>D\<close> what has been dropped: no dropped element is above a kept one.\<close>

definition keeps_top :: "nat \<Rightarrow> 'a multiset \<Rightarrow> 'a multiset \<Rightarrow> bool" where
  "keeps_top k H D \<longleftrightarrow>
     size H = min k (size (H + D)) \<and> (\<forall>x\<in>#H. \<forall>y\<in>#D. \<not> lt x y)"

lemma keeps_top_empty: "keeps_top k {#} {#}"
  by (simp add: keeps_top_def)

lemma push_bounded_top:
  assumes "ok h" and "keeps_top k (elems h) D"
  shows "\<exists>D'. ok (push_bounded k x h) \<and> keeps_top k (elems (push_bounded k x h)) D' \<and>
    elems (push_bounded k x h) + D' = add_mset x (elems h + D)"
proof (cases "k < size (elems (push x h))")
  case False
  then have s: "size (elems h) < k" using push_elems [OF assms(1)] by simp
  then have "D = {#}" using assms(2) by (auto simp: keeps_top_def min_def split: if_splits)
  then show ?thesis
    using False s assms(1) push_ok push_elems
    by (intro exI [of _ "{#}"]) (simp add: push_bounded_def Let_def keeps_top_def)
next
  case True
  let ?H = "elems (push x h)"
  have H: "?H = add_mset x (elems h)" using push_elems [OF assms(1)] .
  obtain z h' where p: "pop (push x h) = Some (z, h')" "ok h'" "?H = add_mset z (elems h')"
    "\<forall>y\<in>#?H. \<not> lt y z"
    using pop_least [OF push_ok [OF assms(1)], of x] True by fastforce
  have k: "size (elems h) = k"
    using True H assms(2) by (auto simp: keeps_top_def min_def split: if_splits)
  have e: "push_bounded k x h = h'" using True p(1) by (simp add: push_bounded_def Let_def)
  have sz: "size (elems h') = k" using p(3) H k by (metis add_diff_cancel_left' size_add_mset plus_1_eq_Suc)
  have "\<not> lt y w" if "y \<in># elems h'" "w \<in># add_mset z D" for y w
  proof (cases "w = z")
    case True
    then show ?thesis using p(3,4) that(1) by auto
  next
    case False
    then have wD: "w \<in># D" using that(2) by simp
    have "y \<in># ?H" using that(1) p(3) by simp
    then have "y = x \<or> y \<in># elems h" using H by auto
    moreover have "\<not> lt y w" if "y \<in># elems h"
      using that wD assms(2) by (auto simp: keeps_top_def)
    moreover have "\<not> lt x w" if "y = x" "y \<notin># elems h"
    proof -
      have "z \<in># elems h" using p(3) H \<open>y \<in># elems h'\<close> that
        by (metis add_eq_conv_diff add_mset_commute insert_noteq_member union_single_eq_member)
      then have "\<not> lt z w" using wD assms(2) by (auto simp: keeps_top_def)
      moreover have "\<not> lt x z" using p(4) H by simp
      ultimately show ?thesis using weak_order_trans [OF ok_order [OF assms(1)]] by blast
    qed
    ultimately show ?thesis by blast
  qed
  then have "keeps_top k (elems h') (add_mset z D)" using sz by (simp add: keeps_top_def)
  moreover have "elems h' + add_mset z D = add_mset x (elems h + D)"
    using p(3) H by (metis union_mset_add_mset_left union_mset_add_mset_right)
  ultimately show ?thesis using e p(2) by auto
qed

lemma push_bounded_fold:
  assumes "ok h" and "keeps_top k (elems h) D"
  shows "\<exists>D'. ok (fold (push_bounded k) xs h) \<and> keeps_top k (elems (fold (push_bounded k) xs h)) D' \<and>
    elems (fold (push_bounded k) xs h) + D' = mset xs + (elems h + D)"
  using assms
proof (induction xs arbitrary: h D)
  case (Cons x xs)
  obtain D1 where D1: "ok (push_bounded k x h)" "keeps_top k (elems (push_bounded k x h)) D1"
    "elems (push_bounded k x h) + D1 = add_mset x (elems h + D)"
    using push_bounded_top [OF Cons.prems] by blast
  show ?case using Cons.IH [OF D1(1,2)] D1(3) by auto
qed auto

end

section \<open>\<open>container/heap\<close>\<close>

definition swap_elems :: "nat \<Rightarrow> nat \<Rightarrow> 'a list \<Rightarrow> 'a list" where
  "swap_elems i j h = h[i := h ! j, j := h ! i]"

abbreviation heap_parent :: "nat \<Rightarrow> nat" where
  "heap_parent i \<equiv> (i - 1) div 2"

function heap_up :: "('a \<Rightarrow> 'a \<Rightarrow> bool) \<Rightarrow> 'a list \<Rightarrow> nat \<Rightarrow> 'a list" where
  "heap_up lt h j =
     (let i = heap_parent j in
      if i = j \<or> \<not> lt (h ! j) (h ! i) then h else heap_up lt (swap_elems i j h) i)"
  by pat_completeness auto
termination
  by (relation "measure (\<lambda>(lt, h, j). j)") auto

function heap_down :: "('a \<Rightarrow> 'a \<Rightarrow> bool) \<Rightarrow> 'a list \<Rightarrow> nat \<Rightarrow> nat \<Rightarrow> 'a list" where
  "heap_down lt h i n =
     (let j1 = 2 * i + 1 in
      if n \<le> j1 then h else
      let j = (if j1 + 1 < n \<and> lt (h ! (j1 + 1)) (h ! j1) then j1 + 1 else j1) in
      if \<not> lt (h ! j) (h ! i) then h else heap_down lt (swap_elems i j h) j n)"
  by pat_completeness auto
termination
  by (relation "measure (\<lambda>(lt, h, i, n). n - i)") (auto simp: Let_def split: if_splits)

declare heap_up.simps [simp del] heap_down.simps [simp del]

definition heap_Push :: "('a \<Rightarrow> 'a \<Rightarrow> bool) \<Rightarrow> 'a \<Rightarrow> 'a list \<Rightarrow> 'a list" where
  "heap_Push lt x h = heap_up lt (h @ [x]) (length h)"

text \<open>\<open>None\<close> is the panic of \<open>Swap(0, -1)\<close>.\<close>

definition heap_Pop :: "('a \<Rightarrow> 'a \<Rightarrow> bool) \<Rightarrow> 'a list \<Rightarrow> ('a \<times> 'a list) option" where
  "heap_Pop lt h =
     (if h = [] then None else
      let n = length h - 1; h = heap_down lt (swap_elems 0 n h) 0 n
      in Some (last h, butlast h))"

subsection \<open>The heap invariant\<close>

definition is_heap :: "('a \<Rightarrow> 'a \<Rightarrow> bool) \<Rightarrow> nat \<Rightarrow> 'a list \<Rightarrow> bool" where
  "is_heap lt n h \<longleftrightarrow> (\<forall>i. 0 < i \<longrightarrow> i < n \<longrightarrow> \<not> lt (h ! i) (h ! heap_parent i))"

text \<open>The invariant with a hole below its parent, or above its children.\<close>

definition heap_but_up :: "('a \<Rightarrow> 'a \<Rightarrow> bool) \<Rightarrow> nat \<Rightarrow> nat \<Rightarrow> 'a list \<Rightarrow> bool" where
  "heap_but_up lt n j h \<longleftrightarrow>
     (\<forall>i. 0 < i \<longrightarrow> i < n \<longrightarrow> i \<noteq> j \<longrightarrow> \<not> lt (h ! i) (h ! heap_parent i)) \<and>
     (\<forall>c. 0 < j \<longrightarrow> 0 < c \<longrightarrow> c < n \<longrightarrow> heap_parent c = j \<longrightarrow> \<not> lt (h ! c) (h ! heap_parent j))"

definition heap_but_down :: "('a \<Rightarrow> 'a \<Rightarrow> bool) \<Rightarrow> nat \<Rightarrow> nat \<Rightarrow> 'a list \<Rightarrow> bool" where
  "heap_but_down lt n j h \<longleftrightarrow>
     (\<forall>i. 0 < i \<longrightarrow> i < n \<longrightarrow> heap_parent i \<noteq> j \<longrightarrow> \<not> lt (h ! i) (h ! heap_parent i)) \<and>
     (\<forall>c. 0 < j \<longrightarrow> 0 < c \<longrightarrow> c < n \<longrightarrow> heap_parent c = j \<longrightarrow> \<not> lt (h ! c) (h ! heap_parent j))"

lemma length_swap_elems [simp]: "length (swap_elems i j h) = length h"
  by (simp add: swap_elems_def)

lemma mset_swap_elems [simp]: "i < length h \<Longrightarrow> j < length h \<Longrightarrow> mset (swap_elems i j h) = mset h"
  by (simp add: swap_elems_def mset_swap)

lemma nth_swap_elems:
  "i < length h \<Longrightarrow> j < length h \<Longrightarrow>
   swap_elems i j h ! k = (if k = j then h ! i else if k = i then h ! j else h ! k)"
  by (auto simp: swap_elems_def nth_list_update)

lemma length_heap_up [simp]: "length (heap_up lt h j) = length h"
proof (induction lt h j rule: heap_up.induct)
  case (1 lt h j)
  then show ?case by (subst heap_up.simps) (simp add: Let_def)
qed

lemma mset_heap_up: "j < length h \<Longrightarrow> mset (heap_up lt h j) = mset h"
proof (induction lt h j rule: heap_up.induct)
  case (1 lt h j)
  then show ?case by (subst heap_up.simps) (auto simp: Let_def)
qed

lemma length_heap_down [simp]: "length (heap_down lt h i n) = length h"
proof (induction lt h i n rule: heap_down.induct)
  case (1 lt h i n)
  then show ?case by (subst heap_down.simps) (simp add: Let_def)
qed

lemma mset_heap_down: "i < n \<Longrightarrow> n \<le> length h \<Longrightarrow> mset (heap_down lt h i n) = mset h"
proof (induction lt h i n rule: heap_down.induct)
  case (1 lt h i n)
  then show ?case by (subst heap_down.simps) (auto simp: Let_def)
qed

lemma heap_up_step:
  assumes w: "weak_order lt" and j: "j < n" "n \<le> length h" and inv: "heap_but_up lt n j h"
    and ne: "heap_parent j \<noteq> j" and l: "lt (h ! j) (h ! heap_parent j)"
  shows "heap_but_up lt n (heap_parent j) (swap_elems (heap_parent j) j h)"
proof -
  let ?i = "heap_parent j" and ?h = "swap_elems (heap_parent j) j h"
  have ij: "?i < j" "0 < j" using ne by auto
  note sw = nth_swap_elems [of ?i h j]
  have S: "?h ! k = (if k = j then h ! ?i else if k = ?i then h ! j else h ! k)" for k
    using sw ij j by simp
  have I: "\<not> lt (h ! k) (h ! heap_parent k)" if "0 < k" "k < n" "k \<noteq> j" for k
    using inv that by (simp add: heap_but_up_def)
  have C: "\<not> lt (h ! c) (h ! ?i)" if "0 < c" "c < n" "heap_parent c = j" for c
    using inv that ij by (simp add: heap_but_up_def)
  have A: "\<not> lt (h ! ?i) (h ! j)" using weak_order_asym [OF w l] .
  have "\<not> lt (?h ! k) (?h ! heap_parent k)" if k: "0 < k" "k < n" "k \<noteq> ?i" for k
  proof -
    consider "k = j" | "k \<noteq> j" "heap_parent k = ?i" | "k \<noteq> j" "heap_parent k = j"
      | "k \<noteq> j" "heap_parent k \<noteq> ?i" "heap_parent k \<noteq> j" by blast
    then show ?thesis
    proof cases
      case 1
      then show ?thesis using A ij S [of j] S [of ?i] by simp
    next
      case 2
      then have "\<not> lt (h ! k) (h ! ?i)" using I [of k] k by simp
      then show ?thesis using 2 k ij S [of k] S [of ?i] weak_order_trans [OF w A] by simp
    next
      case 3
      then show ?thesis using C [of k] k S [of k] S [of j] by simp
    next
      case 4
      then show ?thesis using I [of k] k S [of k] S [of "heap_parent k"] by simp
    qed
  qed
  moreover have "\<not> lt (?h ! c) (?h ! heap_parent ?i)" if c: "0 < ?i" "0 < c" "c < n" "heap_parent c = ?i" for c
  proof -
    have p: "heap_parent ?i < ?i" using c(1) by simp
    then have "\<not> lt (h ! ?i) (h ! heap_parent ?i)" using I [of ?i] c(1) ij j by simp
    moreover have "\<not> lt (h ! c) (h ! heap_parent ?i)" if "c \<noteq> j"
      using I [of c] c that calculation weak_order_trans [OF w] by metis
    moreover have "c \<noteq> ?i" using c(1,4) p by auto
    ultimately show ?thesis using S [of c] S [of "heap_parent ?i"] p ij by auto
  qed
  ultimately show ?thesis by (simp add: heap_but_up_def)
qed

lemma heap_up_heap:
  "weak_order lt \<Longrightarrow> j < n \<Longrightarrow> n \<le> length h \<Longrightarrow> heap_but_up lt n j h \<Longrightarrow> is_heap lt n (heap_up lt h j)"
proof (induction lt h j rule: heap_up.induct)
  case (1 lt h j)
  let ?i = "heap_parent j"
  show ?case
  proof (cases "?i = j \<or> \<not> lt (h ! j) (h ! ?i)")
    case True
    have "\<not> lt (h ! i) (h ! heap_parent i)" if i: "0 < i" "i < n" for i
    proof (cases "i = j")
      case True
      then have "heap_parent j \<noteq> j" using i(1) by auto
      then show ?thesis using \<open>?i = j \<or> _\<close> True by blast
    next
      case False
      then show ?thesis using i "1.prems"(4) by (auto simp: heap_but_up_def)
    qed
    then show ?thesis using True by (subst heap_up.simps) (simp add: Let_def is_heap_def)
  next
    case False
    have "heap_but_up lt n ?i (swap_elems ?i j h)"
      using heap_up_step [OF "1.prems"] False by blast
    moreover have "?i < n" using "1.prems"(2) by simp
    ultimately have "is_heap lt n (heap_up lt (swap_elems ?i j h) ?i)"
      using "1.IH" [OF refl] False "1.prems"(1,3) by simp
    then show ?thesis using False by (subst heap_up.simps) (simp add: Let_def)
  qed
qed

abbreviation least_child :: "('a \<Rightarrow> 'a \<Rightarrow> bool) \<Rightarrow> nat \<Rightarrow> nat \<Rightarrow> 'a list \<Rightarrow> nat" where
  "least_child lt i n h \<equiv>
     (if 2 * i + 1 + 1 < n \<and> lt (h ! (2 * i + 1 + 1)) (h ! (2 * i + 1)) then 2 * i + 1 + 1 else 2 * i + 1)"

lemma least_child_least:
  assumes "weak_order lt" and "0 < k" and "k < n" and "heap_parent k = i" and "j = least_child lt i n h"
  shows "\<not> lt (h ! k) (h ! j)"
proof -
  have "k = 2 * i + 1 \<or> k = 2 * i + 2" using assms(2,4) by auto
  then show ?thesis
    using assms(3,5) weak_order_asym [OF assms(1)] weak_order_irrefl [OF assms(1)] by auto
qed

lemma heap_down_step:
  assumes w: "weak_order lt" and n: "n \<le> length h" and inv: "heap_but_down lt n i h"
    and j: "j = least_child lt i n h" "2 * i + 1 < n" and l: "lt (h ! j) (h ! i)"
  shows "heap_but_down lt n j (swap_elems i j h)"
proof -
  let ?h = "swap_elems i j h"
  have ij: "i < j" "j < n" "heap_parent j = i" using j by (auto split: if_splits)
  have S: "?h ! k = (if k = j then h ! i else if k = i then h ! j else h ! k)" for k
    using nth_swap_elems [of i h j] ij n by simp
  have I: "\<not> lt (h ! k) (h ! heap_parent k)" if "0 < k" "k < n" "heap_parent k \<noteq> i" for k
    using inv that by (simp add: heap_but_down_def)
  have A: "\<not> lt (h ! i) (h ! j)" using weak_order_asym [OF w l] .
  have "\<not> lt (?h ! k) (?h ! heap_parent k)" if k: "0 < k" "k < n" "heap_parent k \<noteq> j" for k
  proof -
    consider "k = i" | "k = j" | "k \<noteq> i" "k \<noteq> j" "heap_parent k = i"
      | "k \<noteq> i" "k \<noteq> j" "heap_parent k \<noteq> i" by blast
    then show ?thesis
    proof cases
      case 1
      have "heap_parent i < i" using k 1 by auto
      moreover have "\<not> lt (h ! j) (h ! heap_parent i)"
        using inv ij k 1 by (simp add: heap_but_down_def)
      ultimately show ?thesis using 1 ij S [of i] S [of "heap_parent i"] by simp
    next
      case 2
      then show ?thesis using A ij S [of i] S [of j] by simp
    next
      case 3
      then show ?thesis
        using least_child_least [OF w k(1,2) 3(3) j(1)] ij S [of k] S [of i] by simp
    next
      case 4
      then show ?thesis using I [of k] k S [of k] S [of "heap_parent k"] by simp
    qed
  qed
  moreover have "\<not> lt (?h ! c) (?h ! heap_parent j)" if c: "0 < c" "c < n" "heap_parent c = j" for c
  proof -
    have "c \<noteq> i" "c \<noteq> j" using c ij by auto
    then show ?thesis using I [of c] c ij S [of c] S [of i] by simp
  qed
  ultimately show ?thesis by (simp add: heap_but_down_def)
qed

lemma heap_down_unfold:
  "heap_down lt h i n =
     (if n \<le> 2 * i + 1 \<or> \<not> lt (h ! least_child lt i n h) (h ! i) then h
      else heap_down lt (swap_elems i (least_child lt i n h) h) (least_child lt i n h) n)"
  by (cases "n \<le> 2 * i + 1")
    (simp_all only: heap_down.simps [of lt h i n] Let_def simp_thms if_True if_False)

lemma heap_down_heap:
  "weak_order lt \<Longrightarrow> i < n \<Longrightarrow> n \<le> length h \<Longrightarrow> heap_but_down lt n i h \<Longrightarrow> is_heap lt n (heap_down lt h i n)"
proof (induction lt h i n rule: heap_down.induct)
  case (1 lt h i n)
  let ?j = "least_child lt i n h"
  show ?case
  proof (cases "n \<le> 2 * i + 1 \<or> \<not> lt (h ! ?j) (h ! i)")
    case True
    have "\<not> lt (h ! k) (h ! heap_parent k)" if k: "0 < k" "k < n" for k
    proof (cases "heap_parent k = i")
      case True
      then have "2 * i + 1 < n" using k by auto
      then have "\<not> lt (h ! ?j) (h ! i)" using \<open>n \<le> 2 * i + 1 \<or> _\<close> by (meson leD)
      then show ?thesis
        using weak_order_trans [OF "1.prems"(1)] least_child_least [OF "1.prems"(1) k True refl, of h] True by blast
    next
      case False
      then show ?thesis using "1.prems"(4) k by (simp add: heap_but_down_def)
    qed
    then have "is_heap lt n h" by (simp add: is_heap_def)
    then show ?thesis using True by (metis heap_down_unfold)
  next
    case False
    have j: "?j < n" using False by auto
    have "heap_but_down lt n ?j (swap_elems i ?j h)"
      using heap_down_step [OF "1.prems"(1,3,4) refl] False by (meson not_le)
    then have "is_heap lt n (heap_down lt (swap_elems i ?j h) ?j n)"
      using "1.IH" [OF refl _ refl] False "1.prems"(1,3) j by (metis length_swap_elems)
    then show ?thesis using False by (metis heap_down_unfold)
  qed
qed

lemma is_heap_least:
  assumes "weak_order lt" and "is_heap lt n h" and "i < n"
  shows "\<not> lt (h ! i) (h ! 0)"
  using assms(3)
proof (induction i rule: less_induct)
  case (less i)
  show ?case
  proof (cases "i = 0")
    case False
    then have "\<not> lt (h ! heap_parent i) (h ! 0)" "\<not> lt (h ! i) (h ! heap_parent i)"
      using less assms(2) by (auto simp: is_heap_def)
    then show ?thesis using weak_order_trans [OF assms(1)] by blast
  qed (simp add: weak_order_irrefl [OF assms(1)])
qed

text \<open>The operations keep the invariant, and \<open>heap_Pop\<close> takes a least element.\<close>

lemma heap_Push_heap:
  assumes "weak_order lt" and "is_heap lt (length h) h"
  shows "is_heap lt (length (heap_Push lt x h)) (heap_Push lt x h)"
proof -
  have "heap_but_up lt (length (h @ [x])) (length h) (h @ [x])"
    using assms(2) by (auto simp: heap_but_up_def is_heap_def nth_append)
  then show ?thesis
    using heap_up_heap [OF assms(1), of "length h" "length (h @ [x])" "h @ [x]"] by (simp add: heap_Push_def)
qed

lemma mset_heap_Push: "mset (heap_Push lt x h) = add_mset x (mset h)"
  using mset_heap_up [of "length h" "h @ [x]" lt] by (simp add: heap_Push_def)

lemma heap_down_last: "n = length h - 1 \<Longrightarrow> h \<noteq> [] \<Longrightarrow> n \<le> m \<Longrightarrow> m < length h \<Longrightarrow> i < n \<or> n = 0 \<Longrightarrow>
  heap_down lt h i n ! m = h ! m"
proof (induction lt h i n rule: heap_down.induct)
  case (1 lt h i n)
  let ?j = "least_child lt i n h"
  show ?case
  proof (cases "n \<le> 2 * i + 1 \<or> \<not> lt (h ! ?j) (h ! i)")
    case True
    then show ?thesis by (metis heap_down_unfold)
  next
    case False
    have j: "?j < n" "i < n" using False by auto
    have "heap_down lt (swap_elems i ?j h) ?j n ! m = swap_elems i ?j h ! m"
      using "1.IH" [OF refl _ refl] False "1.prems" j by (metis length_swap_elems length_0_conv)
    also have "\<dots> = h ! m" using nth_swap_elems [of i h ?j m] j "1.prems" by simp
    finally show ?thesis using False by (metis heap_down_unfold)
  qed
qed

lemma heap_Pop_least:
  assumes w: "weak_order lt" and h: "is_heap lt (length h) h" "h \<noteq> []"
  shows "\<exists>h'. heap_Pop lt h = Some (h ! 0, h') \<and> is_heap lt (length h') h' \<and>
    mset h = add_mset (h ! 0) (mset h')"
proof -
  let ?n = "length h - 1"
  let ?s = "swap_elems 0 ?n h"
  let ?d = "heap_down lt ?s 0 ?n"
  have n: "?n < length h" using h(2) by simp
  have m: "mset ?d = mset h"
  proof (cases "?n = 0")
    case True
    then show ?thesis using n by (subst heap_down.simps) (simp add: Let_def)
  next
    case False
    then show ?thesis using n h(2) mset_heap_down [of 0 ?n ?s lt] mset_swap_elems [of 0 h ?n] by simp
  qed
  have S: "?s ! k = (if k = ?n then h ! 0 else if k = 0 then h ! ?n else h ! k)" for k
    using nth_swap_elems [of 0 h ?n k] n h(2) by simp
  have "?d ! ?n = ?s ! ?n" using heap_down_last [of ?n ?s ?n 0 lt] n h(2)
    by (metis diff_le_self le_refl length_0_conv length_swap_elems neq0_conv)
  then have last: "last ?d = h ! 0" using S [of ?n] h(2) by (metis last_conv_nth length_0_conv length_heap_down length_swap_elems)
  have ne: "?d \<noteq> []" using h(2) by (metis length_0_conv length_heap_down length_swap_elems)
  have hd: "is_heap lt ?n ?d"
  proof (cases "?n = 0")
    case True
    then show ?thesis by (simp add: is_heap_def)
  next
    case False
    have "heap_but_down lt ?n 0 ?s"
      unfolding heap_but_down_def
    proof (intro conjI allI impI)
      fix k
      assume "0 < k" "k < ?n" "heap_parent k \<noteq> 0"
      then show "\<not> lt (?s ! k) (?s ! heap_parent k)"
        using S [of k] S [of "heap_parent k"] h(1) by (auto simp: is_heap_def)
    qed simp
    then show ?thesis using False by (intro heap_down_heap [OF w]) auto
  qed
  have "is_heap lt (length (butlast ?d)) (butlast ?d)"
    using hd by (auto simp: is_heap_def nth_butlast)
  moreover have "mset h = add_mset (h ! 0) (mset (butlast ?d))"
    using m last ne by (metis append_butlast_last_id mset.simps(1,2) mset_append union_mset_add_mset_right add.right_neutral)
  moreover have "heap_Pop lt h = Some (h ! 0, butlast ?d)"
    using h(2) last by (simp add: heap_Pop_def Let_def)
  ultimately show ?thesis by blast
qed

interpretation go_heap: min_queue "heap_Push lt" "heap_Pop lt" lt
  "\<lambda>h. weak_order lt \<and> is_heap lt (length h) h" mset for lt :: "'a \<Rightarrow> 'a \<Rightarrow> bool"
proof
  fix h :: "'a list"
  assume ok: "weak_order lt \<and> is_heap lt (length h) h" and ne: "mset h \<noteq> {#}"
  obtain h' where "heap_Pop lt h = Some (h ! 0, h')" "is_heap lt (length h') h'"
    "mset h = add_mset (h ! 0) (mset h')"
    using heap_Pop_least ok ne by (metis mset_zero_iff)
  moreover have "\<forall>y\<in>#mset h. \<not> lt y (h ! 0)"
    using is_heap_least ok by (metis in_multiset_in_set in_set_conv_nth)
  ultimately show "\<exists>x h'. heap_Pop lt h = Some (x, h') \<and>
      (weak_order lt \<and> is_heap lt (length h') h') \<and> mset h = add_mset x (mset h') \<and>
      (\<forall>y\<in>#mset h. \<not> lt y x)"
    using ok by blast
qed (auto simp: heap_Push_heap mset_heap_Push)

section \<open>\<open>sort.Slice\<close>\<close>

text \<open>
  \<open>sort.Slice\<close> looks at the elements through \<open>less\<close> only, so what it does to a slice of \<open>n\<close>
  elements is a permutation of the indices that depends on \<open>n\<close> and on the comparisons of the
  elements. Which one is not specified by Go's documentation when \<open>less\<close> is not a weak order
  or leaves elements equivalent: the permutation is a parameter.
\<close>

type_synonym go_sort = "nat \<Rightarrow> (nat \<Rightarrow> nat \<Rightarrow> bool) \<Rightarrow> nat list"

definition sort_Slice :: "go_sort \<Rightarrow> ('a \<Rightarrow> 'a \<Rightarrow> bool) \<Rightarrow> 'a list \<Rightarrow> 'a list" where
  "sort_Slice srt lt xs = map (\<lambda>i. xs ! i) (srt (length xs) (\<lambda>i j. lt (xs ! i) (xs ! j)))"

text \<open>The documented behaviour.\<close>

definition go_sort_ok :: "go_sort \<Rightarrow> bool" where
  "go_sort_ok srt \<longleftrightarrow> (\<forall>n lt. mset (srt n lt) = mset [0..<n] \<and>
     (weak_order lt \<longrightarrow> sorted_wrt (\<lambda>i j. \<not> lt j i) (srt n lt)))"

lemma mset_sort_Slice:
  assumes "go_sort_ok srt"
  shows "mset (sort_Slice srt lt xs) = mset xs"
proof -
  let ?p = "srt (length xs) (\<lambda>i j. lt (xs ! i) (xs ! j))"
  have "mset (sort_Slice srt lt xs) = image_mset (\<lambda>i. xs ! i) (mset ?p)"
    by (simp add: sort_Slice_def)
  also have "mset ?p = mset [0..<length xs]" using assms by (simp add: go_sort_ok_def)
  also have "image_mset (\<lambda>i. xs ! i) (mset [0..<length xs]) = mset (map ((!) xs) [0..<length xs])"
    by (simp only: mset_map)
  also have "\<dots> = mset xs" by (simp only: map_nth)
  finally show ?thesis .
qed

lemma length_sort_Slice: "go_sort_ok srt \<Longrightarrow> length (sort_Slice srt lt xs) = length xs"
  using mset_sort_Slice by (metis size_mset)

lemma set_sort_Slice: "go_sort_ok srt \<Longrightarrow> set (sort_Slice srt lt xs) = set xs"
  using mset_sort_Slice by (metis set_mset_mset)

lemma weak_order_pull: "weak_order lt \<Longrightarrow> weak_order (\<lambda>i j. lt (f i) (f j))"
  unfolding weak_order_def by blast

lemma sorted_sort_Slice:
  assumes "go_sort_ok srt" and "weak_order lt"
  shows "sorted_wrt (\<lambda>x y. \<not> lt y x) (sort_Slice srt lt xs)"
  using assms weak_order_pull [OF assms(2), of "\<lambda>i. xs ! i"]
  by (simp add: sort_Slice_def go_sort_ok_def sorted_wrt_map)

text \<open>An instance: insertion of the indices one after the other.\<close>

fun insert_index :: "(nat \<Rightarrow> nat \<Rightarrow> bool) \<Rightarrow> nat \<Rightarrow> nat list \<Rightarrow> nat list" where
  "insert_index lt i [] = [i]"
| "insert_index lt i (j # js) = (if lt i j then i # j # js else j # insert_index lt i js)"

definition insertion_sort :: go_sort where
  "insertion_sort n lt = fold (insert_index lt) [0..<n] []"

lemma mset_insert_index: "mset (insert_index lt i js) = add_mset i (mset js)"
  by (induction js) auto

lemma sorted_insert_index:
  assumes "weak_order lt"
  shows "sorted_wrt (\<lambda>i j. \<not> lt j i) js \<Longrightarrow> sorted_wrt (\<lambda>i j. \<not> lt j i) (insert_index lt i js)"
proof (induction js)
  case (Cons j js)
  have s: "set (insert_index lt i js) = insert i (set js)"
    using mset_insert_index [of lt i js] by (metis set_mset_add_mset_insert set_mset_mset)
  show ?case
  proof (cases "lt i j")
    case True
    then have a: "\<not> lt j i" using weak_order_asym [OF assms] by blast
    have "\<not> lt k i" if "k \<in> set js" for k
      using Cons.prems that a weak_order_trans [OF assms, of j i k] by simp
    then show ?thesis using Cons.prems True a by simp
  qed (use Cons s in auto)
qed simp

lemma insertion_sort_ok: "go_sort_ok insertion_sort"
proof -
  have "mset (fold (insert_index lt) is js) = mset is + mset js \<and>
      (weak_order lt \<longrightarrow> sorted_wrt (\<lambda>i j. \<not> lt j i) js \<longrightarrow>
        sorted_wrt (\<lambda>i j. \<not> lt j i) (fold (insert_index lt) is js))" for lt "is" js
    by (induction "is" arbitrary: js) (auto simp: mset_insert_index sorted_insert_index)
  then show ?thesis by (fastforce simp: go_sort_ok_def insertion_sort_def)
qed

end
