(* ===== verification/DiagTable.thy ===== *)
theory DiagTable
  imports GoHeap GoStrings Complex_Main
begin

text \<open>
  The tables of the diagnosis report (\<open>pkg/apiserver/diagnose/report.go\<close>) and what the
  operations on them share: outcomes with panics and errors, \<open>float64\<close> as a parameter, labels
  of rows, and the conversions of cells (\<open>query.go\<close>, \<open>compare.go\<close>).

  Go's \<open>float64\<close> arithmetic, \<open>strconv.ParseFloat\<close>, \<open>math.Round\<close> and the verb \<open>%.nf\<close> are the
  record \<open>gofloat\<close>; its instance \<open>rat_float\<close> computes exactly, with the decimal notation
  only, and serves the concrete examples.
\<close>

section \<open>Outcomes\<close>

text \<open>An operation panics, fails with an error (its message), or returns a value.\<close>

datatype 'a outcome = Panics | Fails string | Returns 'a

text \<open>
  Operations on the shared difference buffer: the buffer keeps what was added to it also when
  the operation panics or fails.
\<close>

type_synonym ('s, 'a) op = "'s \<Rightarrow> 'a outcome \<times> 's"

definition op_return :: "'a \<Rightarrow> ('s, 'a) op" where
  "op_return x s = (Returns x, s)"

definition op_lift :: "'a outcome \<Rightarrow> ('s, 'a) op" where
  "op_lift r s = (r, s)"

definition op_modify :: "('s \<Rightarrow> 's) \<Rightarrow> ('s, unit) op" where
  "op_modify f s = (Returns (), f s)"

definition op_bind :: "('s, 'a) op \<Rightarrow> ('a \<Rightarrow> ('s, 'b) op) \<Rightarrow> ('s, 'b) op" where
  "op_bind m k s = (case m s of (Returns x, s) \<Rightarrow> k x s | (Fails e, s) \<Rightarrow> (Fails e, s) | (Panics, s) \<Rightarrow> (Panics, s))"

fun op_map :: "('a \<Rightarrow> ('s, 'b) op) \<Rightarrow> 'a list \<Rightarrow> ('s, 'b list) op" where
  "op_map f [] = op_return []"
| "op_map f (x # xs) = op_bind (f x) (\<lambda>y. op_bind (op_map f xs) (\<lambda>ys. op_return (y # ys)))"

definition out_bind :: "'a outcome \<Rightarrow> ('a \<Rightarrow> 'b outcome) \<Rightarrow> 'b outcome" where
  "out_bind r k = (case r of Returns x \<Rightarrow> k x | Fails e \<Rightarrow> Fails e | Panics \<Rightarrow> Panics)"

definition opt_out :: "'a option \<Rightarrow> 'a outcome" where
  "opt_out r = (case r of None \<Rightarrow> Panics | Some x \<Rightarrow> Returns x)"

lemma op_bind_Returns [simp]: "m s = (Returns x, s') \<Longrightarrow> op_bind m k s = k x s'"
  by (simp add: op_bind_def)

lemma op_run_simps [simp]:
  "op_return x s = (Returns x, s)" "op_lift r s = (r, s)" "op_modify f s = (Returns (), f s)"
  by (simp_all add: op_return_def op_lift_def op_modify_def)

lemma out_bind_simps [simp]:
  "out_bind (Returns x) k = k x" "out_bind (Fails e) k = Fails e" "out_bind Panics k = Panics"
  by (simp_all add: out_bind_def)

lemma opt_out_simps [simp]: "opt_out (Some x) = Returns x" "opt_out None = Panics"
  by (simp_all add: opt_out_def)

section \<open>Floats\<close>

record 'f gofloat =
  fl_dec :: "int \<Rightarrow> nat \<Rightarrow> 'f"
  fl_sub :: "'f \<Rightarrow> 'f \<Rightarrow> 'f"
  fl_mul :: "'f \<Rightarrow> 'f \<Rightarrow> 'f"
  fl_div :: "'f \<Rightarrow> 'f \<Rightarrow> 'f"
  fl_less :: "'f \<Rightarrow> 'f \<Rightarrow> bool"
  fl_eq :: "'f \<Rightarrow> 'f \<Rightarrow> bool"
  fl_Abs :: "'f \<Rightarrow> 'f"
  fl_Round :: "'f \<Rightarrow> 'f"
  fl_Int :: "'f \<Rightarrow> int"
  fl_Parse :: "string \<Rightarrow> string + 'f"
  fl_Fixed :: "nat \<Rightarrow> 'f \<Rightarrow> string"
  fl_String :: "'f \<Rightarrow> string"

text \<open>
  \<open>fl_dec m k\<close> is the constant \<open>m * 10\<^sup>-\<^sup>k\<close>, \<open>fl_Parse\<close> is \<open>strconv.ParseFloat(s, 64)\<close> \<open>fl_Fixed n\<close> the verb
  \<open>%.nf\<close> and \<open>fl_String\<close> the verb \<open>%v\<close>. \<open>fl_Int\<close> is the conversion \<open>int(x)\<close>: the value without its
  fraction where that is an \<open>int64\<close>; of any other value Go leaves the result to the implementation.
\<close>

abbreviation fl_int :: "'f gofloat \<Rightarrow> int \<Rightarrow> 'f" where
  "fl_int F n \<equiv> fl_dec F n 0"

text \<open>The comparison of absolute values is a weak order: no value is \<open>NaN\<close>.\<close>

definition abs_less :: "'f gofloat \<Rightarrow> 'f \<Rightarrow> 'f \<Rightarrow> bool" where
  "abs_less F x y = fl_less F (fl_Abs F x) (fl_Abs F y)"

section \<open>Tables\<close>

record 'f TableRowDef =
  Values :: "string list"
  SubValues :: "string list list"
  row_ratio :: 'f
  row_Comment :: string

text \<open>\<open>Rows\<close> is \<open>None\<close> for the \<open>nil\<close> slice.\<close>

record 'f TableDef =
  Category :: "string list"
  Title :: string
  Comment :: string
  joinColumns :: "nat list"
  compareColumns :: "nat list"
  Column :: "string list"
  Rows :: "'f TableRowDef list option"

definition table_rows :: "'f TableDef \<Rightarrow> 'f TableRowDef list" where
  "table_rows t = (case Rows t of None \<Rightarrow> [] | Some rs \<Rightarrow> rs)"

lemma table_rows_Some [simp]: "Rows t = Some rs \<Longrightarrow> table_rows t = rs"
  by (simp add: table_rows_def)

definition row_zero :: "'f gofloat \<Rightarrow> 'f TableRowDef" where
  "row_zero F = \<lparr>Values = [], SubValues = [], row_ratio = fl_int F 0, row_Comment = ''''\<rparr>"

definition row_of :: "'f gofloat \<Rightarrow> string list \<Rightarrow> 'f TableRowDef" where
  "row_of F vs = row_zero F\<lparr>Values := vs\<rparr>"

section \<open>Strings\<close>

text \<open>The verbs \<open>%v\<close> and \<open>%s\<close> on a slice of strings.\<close>

definition fmt_strings :: "string list \<Rightarrow> string" where
  "fmt_strings ss = ''['' @ strings_Join ss '' '' @ '']''"

section \<open>Labels\<close>

fun label_loop :: "string list \<Rightarrow> string \<Rightarrow> nat \<Rightarrow> nat list \<Rightarrow> string outcome" where
  "label_loop row label i [] = Returns label"
| "label_loop row label i (ix # ixs) =
     (let label = (if 0 < i then label @ '','' else label) in
      out_bind (opt_out (idx row ix)) (\<lambda>v. label_loop row (label @ v) (i + 1) ixs))"

definition genRowLabel :: "string list \<Rightarrow> nat list \<Rightarrow> string outcome" where
  "genRowLabel row cols = label_loop row '''' 0 cols"

fun checkIn :: "nat \<Rightarrow> nat list \<Rightarrow> bool" where
  "checkIn ix [] = False"
| "checkIn ix (i # ixs) = (if i = ix then True else checkIn ix ixs)"

lemma checkIn_iff [simp]: "checkIn ix ixs \<longleftrightarrow> ix \<in> set ixs"
  by (induction ixs) auto

lemma label_loop_Suc:
  "list_all (\<lambda>i. i < length row) cols \<Longrightarrow>
   label_loop row label (Suc i) cols = Returns (label @ concat (map (\<lambda>i. '','' @ row ! i) cols))"
  by (induction cols arbitrary: label i) auto

lemma strings_Join_concat: "strings_Join (s # ss) sep = s @ concat (map (\<lambda>t. sep @ t) ss)"
  by (induction ss arbitrary: s) auto

text \<open>The label is the join of the cells in the join columns; a row too short panics.\<close>

lemma genRowLabel_join:
  assumes "list_all (\<lambda>i. i < length row) cols"
  shows "genRowLabel row cols = Returns (strings_Join (map (\<lambda>i. row ! i) cols) '','')"
proof (cases cols)
  case (Cons c cs)
  then show ?thesis
    using assms label_loop_Suc [of row cs "row ! c" 0]
    by (simp add: genRowLabel_def strings_Join_concat o_def)
qed (simp add: genRowLabel_def)

lemma label_loop_panics: "\<exists>i\<in>set cols. length row \<le> i \<Longrightarrow> label_loop row label k cols = Panics"
proof (induction cols arbitrary: label k)
  case (Cons c cs)
  then show ?case by (cases "c < length row") (auto simp: Let_def idx_def)
qed simp

section \<open>Cells\<close>

text \<open>The table of suffixes of \<open>parseFloat\<close>.\<close>

definition suffix_ratios :: "'f gofloat \<Rightarrow> (string \<times> 'f) list" where
  "suffix_ratios F =
     [('' GB'', fl_int F (1024 * 1024 * 1024)), ('' MB'', fl_int F (1024 * 1024)), ('' KB'', fl_int F 1024),
      (''%'', fl_int F 1), ('' s'', fl_int F 1),
      ('' ms'', fl_div F (fl_int F 1) (fl_int F 1000)),
      ('' us'', fl_div F (fl_int F 1) (fl_int F 1000000))]"

definition parseFloat :: "'f gofloat \<Rightarrow> string \<Rightarrow> string + 'f" where
  "parseFloat F s =
     (if length s = 0 then Inr (fl_int F 0) else
      let (s, ratio) = (case find (\<lambda>(suffix, _). has_suffix s suffix) (suffix_ratios F) of
            Some (suffix, ratio) \<Rightarrow> (take (length s - length suffix) s, ratio)
          | None \<Rightarrow> (s, fl_int F 1))
      in case fl_Parse F s of Inl err \<Rightarrow> Inl err | Inr f \<Rightarrow> Inr (fl_mul F f ratio))"

definition convertFloatToInt :: "'f gofloat \<Rightarrow> string \<Rightarrow> string" where
  "convertFloatToInt F s =
     (case fl_Parse F s of Inl _ \<Rightarrow> s | Inr f \<Rightarrow> fl_Fixed F 0 (fl_Round F f))"

definition round_thousandth :: "'f gofloat \<Rightarrow> 'f \<Rightarrow> 'f" where
  "round_thousandth F f = fl_div F (fl_Round F (fl_mul F f (fl_int F 1000))) (fl_int F 1000)"

definition convertFloatToSize :: "'f gofloat \<Rightarrow> string \<Rightarrow> string" where
  "convertFloatToSize F s =
     (case fl_Parse F s of Inl _ \<Rightarrow> s | Inr f \<Rightarrow>
      let gb = fl_div F f (fl_int F (1024 * 1024 * 1024)) in
      if fl_less F (fl_int F 1) gb then fl_Fixed F 3 (round_thousandth F gb) @ '' GB'' else
      let mb = fl_div F f (fl_int F (1024 * 1024)) in
      if fl_less F (fl_int F 1) mb then fl_Fixed F 3 (round_thousandth F mb) @ '' MB'' else
      let kb = fl_div F f (fl_int F 1024) in
      fl_Fixed F 3 (round_thousandth F kb) @ '' KB'')"

definition convertFloatToDuration :: "'f gofloat \<Rightarrow> string \<Rightarrow> 'f \<Rightarrow> string" where
  "convertFloatToDuration F s ratio =
     (case fl_Parse F s of Inl _ \<Rightarrow> s | Inr f \<Rightarrow>
      let f = fl_mul F f ratio in
      if fl_less F (fl_int F 10) f then fl_Fixed F 0 (round_thousandth F f) @ '' s'' else
      let ms = fl_mul F f (fl_int F 1000) in
      if fl_less F (fl_int F 10) ms then fl_Fixed F 0 (round_thousandth F ms) @ '' ms'' else
      let us = fl_mul F (fl_mul F f (fl_int F 1000)) (fl_int F 1000) in
      fl_Fixed F 0 (round_thousandth F us) @ '' us'')"

text \<open>The number of digits after the point: the loop stops above 15.\<close>

function digits_loop :: "'f gofloat \<Rightarrow> 'f \<Rightarrow> nat \<Rightarrow> nat" where
  "digits_loop F tmp n =
     (if fl_less F (fl_dec F 1 2) tmp then n
      else if 15 < n + 1 then n + 1
      else digits_loop F (fl_mul F tmp (fl_int F 10)) (n + 1))"
  by pat_completeness auto
termination
  by (relation "measure (\<lambda>(F, tmp, n). 16 - n)") auto

declare digits_loop.simps [simp del]

text \<open>\<open>for strings.HasSuffix(str, "0") { str = str[:len(str)-1] }\<close>\<close>

definition trim_zeros :: "string \<Rightarrow> string" where
  "trim_zeros s = rev (dropWhile (\<lambda>c. c = CHR ''0'') (rev s))"

definition convertFloatToString :: "'f gofloat \<Rightarrow> 'f \<Rightarrow> string" where
  "convertFloatToString F f =
     (if fl_eq F f (fl_int F 0) then ''0'' else
      let (sign, f) = (if fl_less F f (fl_int F 0) then (fl_int F (- 1), fl_sub F (fl_int F 0) f) else (fl_int F 1, f));
          n = digits_loop F f 2;
          value = fl_int F (10 ^ n);
          f = fl_div F (fl_Round F (fl_mul F f value)) value;
          str = fl_Fixed F n (fl_mul F f sign);
          str = (if contains_sub str ''.'' then trim_zeros str else str)
      in if has_suffix str ''.'' then take (length str - 1) str else str)"

definition RoundFloatString :: "'f gofloat \<Rightarrow> string \<Rightarrow> string" where
  "RoundFloatString F s = (case fl_Parse F s of Inl _ \<Rightarrow> s | Inr f \<Rightarrow> convertFloatToString F f)"

definition genComment :: "string \<Rightarrow> string list \<Rightarrow> string" where
  "genComment comment labels =
     (if 0 < length labels then
        (if 0 < length comment then comment @ '','' else comment) @
        '' the label is ['' @ strings_Join labels '', '' @ '']''
      else comment)"

section \<open>Exact arithmetic\<close>

text \<open>\<open>math.Round\<close> rounds half away from zero; the verb \<open>%.nf\<close> rounds half to even.\<close>

definition rat_Round :: "rat \<Rightarrow> rat" where
  "rat_Round x = (if x < 0 then - of_int \<lfloor>- x + 1 / 2\<rfloor> else of_int \<lfloor>x + 1 / 2\<rfloor>)"

definition round_even :: "rat \<Rightarrow> int" where
  "round_even x =
     (let f = \<lfloor>x\<rfloor>; d = x - of_int f in
      if d < 1 / 2 then f else if 1 / 2 < d then f + 1 else if even f then f else f + 1)"

definition pad_zeros :: "nat \<Rightarrow> string \<Rightarrow> string" where
  "pad_zeros n s = replicate (n - length s) (CHR ''0'') @ s"

definition rat_Fixed :: "nat \<Rightarrow> rat \<Rightarrow> string" where
  "rat_Fixed n x =
     (let m = round_even (\<bar>x\<bar> * 10 ^ n);
          ds = pad_zeros (n + 1) (dec_digits (nat m));
          k = length ds - n
      in (if x < 0 then ''-'' else '''') @ take k ds @ (if n = 0 then '''' else ''.'' @ drop k ds))"

definition rat_Parse :: "string \<Rightarrow> string + rat" where
  "rat_Parse s =
     (let neg = (take 1 s = ''-''); s' = (if neg then tl s else s);
          a = takeWhile (\<lambda>c. c \<noteq> CHR ''.'') s'; b = drop (length a + 1) s'
      in case (parse_digits 0 a, parse_digits 0 b) of
           (Some x, Some y) \<Rightarrow>
             if a @ b = '''' then Inl ''invalid syntax''
             else Inr ((if neg then - 1 else 1) * (of_nat x + of_nat y / 10 ^ length b))
         | _ \<Rightarrow> Inl ''invalid syntax'')"

definition rat_Int :: "rat \<Rightarrow> int" where
  "rat_Int x = (let n = (if x < 0 then - \<lfloor>- x\<rfloor> else \<lfloor>x\<rfloor>)
     in if - (2 ^ 63) \<le> n \<and> n < 2 ^ 63 then n else - (2 ^ 63))"

definition rat_float :: "rat gofloat" where
  "rat_float =
     \<lparr>fl_dec = (\<lambda>m k. of_int m / 10 ^ k), fl_sub = (-), fl_mul = (*), fl_div = (/), fl_less = (<), fl_eq = (=),
      fl_Abs = abs, fl_Round = rat_Round, fl_Int = rat_Int, fl_Parse = rat_Parse, fl_Fixed = rat_Fixed,
      fl_String = rat_Fixed 6\<rparr>"

lemma rat_float_simps [simp]:
  "fl_dec rat_float m k = of_int m / 10 ^ k" "fl_sub rat_float = (-)" "fl_mul rat_float = (*)"
  "fl_div rat_float = (/)" "fl_less rat_float = (<)" "fl_eq rat_float = (=)" "fl_Abs rat_float = abs"
  "fl_Round rat_float = rat_Round" "fl_Int rat_float = rat_Int" "fl_Parse rat_float = rat_Parse" "fl_Fixed rat_float = rat_Fixed"
  by (simp_all add: rat_float_def)

lemma rat_abs_order: "weak_order (abs_less rat_float)"
  using weak_order_key [of "abs :: rat \<Rightarrow> rat"] by (simp add: abs_less_def [abs_def])

section \<open>The environment\<close>

text \<open>
  What the report is run with: floats, \<open>sort.Slice\<close>, and the order of the \<open>k\<close>-th range over a map
  with the given keys.
\<close>

record 'f diag_env =
  de_float :: "'f gofloat"
  de_sort :: go_sort
  de_range :: "nat \<Rightarrow> string list \<Rightarrow> string list"

text \<open>
  The order of the \<open>k\<close>-th range: what the environment says, if it is a permutation of the
  keys.
\<close>

definition range_order :: "'f diag_env \<Rightarrow> nat \<Rightarrow> string list \<Rightarrow> string list" where
  "range_order E k keys = (let p = de_range E k keys in if sort p = sort keys then p else keys)"

end
