(* ===== verification/DiagQuery.thy ===== *)
theory DiagQuery
  imports DiagTable
begin

text \<open>
  The queries behind the tables of the diagnosis report (\<open>pkg/apiserver/diagnose/query.go\<close>,
  and the helpers of \<open>report.go\<close> that turn their answers into rows): the four kinds of metric
  queries with the SQL text they send, the relabelling and formatting of the answers, and the
  loop over a list of queries.

  The database is a parameter: what the driver gives for the text of a statement. All text in
  a statement is built as in the code; \<open>quoted\<close> puts it between single quotes.
\<close>

section \<open>The database\<close>

text \<open>
  The driver's answer: a row is an error of \<open>Columns\<close> or \<open>Scan\<close>, or the cells with \<open>None\<close> for
  \<open>NULL\<close>; \<open>rows.Err()\<close> at the end.
\<close>

record sql_answer =
  sa_rows :: "(string + string option list) list"
  sa_err :: "string option"

type_synonym sql_db = "string \<Rightarrow> string + sql_answer"

text \<open>An error of a row makes \<open>querySQL\<close> return its \<open>err\<close>, which is \<open>nil\<close> there.\<close>

fun query_rows :: "string option \<Rightarrow> (string + string option list) list \<Rightarrow> string list list \<Rightarrow> string list list outcome" where
  "query_rows err [] resultRows = (case err of Some e \<Rightarrow> Fails e | None \<Rightarrow> Returns resultRows)"
| "query_rows err (Inl err1 # rows) resultRows = Returns []"
| "query_rows err (Inr rawResult # rows) resultRows =
     query_rows err rows (resultRows @ [map (\<lambda>raw. case raw of None \<Rightarrow> '''' | Some val \<Rightarrow> val) rawResult])"

definition querySQL :: "sql_db \<Rightarrow> string \<Rightarrow> string list list outcome" where
  "querySQL db sql =
     (if length sql = 0 then Returns [] else
      (case db sql of Inl err \<Rightarrow> Fails err | Inr a \<Rightarrow> query_rows (sa_err a) (sa_rows a) []))"

definition quote :: string where
  "quote = [CHR 0x27]"

definition quoted :: "string \<Rightarrow> string" where
  "quoted s = quote @ s @ quote"

definition time_range :: "string \<Rightarrow> string \<Rightarrow> string" where
  "time_range startTime endTime = ''where time >= '' @ quoted startTime @ '' and time < '' @ quoted endTime"

section \<open>Rows of an answer\<close>

fun out_map :: "('a \<Rightarrow> 'b outcome) \<Rightarrow> 'a list \<Rightarrow> 'b list outcome" where
  "out_map f [] = Returns []"
| "out_map f (x # xs) = out_bind (f x) (\<lambda>y. out_bind (out_map f xs) (\<lambda>ys. Returns (y # ys)))"

text \<open>Apply \<open>f\<close> to the cells at the given indices.\<close>

definition update_cells :: "(string \<Rightarrow> string) \<Rightarrow> nat list \<Rightarrow> string list \<Rightarrow> string list outcome" where
  "update_cells f ixs row =
     (if list_all (\<lambda>i. i < length row) ixs then Returns (fold (\<lambda>i row. row[i := f (row ! i)]) ixs row) else Panics)"

text \<open>The \<open>n\<close> label cells after the name become one cell.\<close>

definition join_labels :: "nat \<Rightarrow> string list \<Rightarrow> string list outcome" where
  "join_labels n row =
     (if 1 + n \<le> length row \<and> 1 < length row
      then Returns ([row ! 0, strings_Join (take n (drop 1 row)) '',''] @ drop (1 + n) row) else Panics)"

section \<open>The metric queries\<close>

record 'f queryArg =
  qa_totalTime :: 'f
  qa_startTime :: string
  qa_endTime :: string
  qa_quantiles :: "'f list"

definition newQueryArg :: "'f gofloat \<Rightarrow> string \<Rightarrow> string \<Rightarrow> 'f queryArg" where
  "newQueryArg F startTime endTime =
     \<lparr>qa_totalTime = fl_int F 0, qa_startTime = startTime, qa_endTime = endTime,
      qa_quantiles = [fl_dec F 999 3, fl_dec F 99 2, fl_dec F 90 2, fl_dec F 80 2]\<rparr>"

definition row_def :: "'f gofloat \<Rightarrow> string list \<Rightarrow> string list list \<Rightarrow> string \<Rightarrow> 'f TableRowDef" where
  "row_def F vs subs comment = \<lparr>Values = vs, SubValues = subs, row_ratio = fl_int F 0, row_Comment = comment\<rparr>"

text \<open>
  The shape the queries share: the first row of the summary, and below it the rows of the
  detail query, when the metric has labels.
\<close>

definition summary_detail ::
  "sql_db \<Rightarrow> string list \<Rightarrow> string \<Rightarrow> string \<Rightarrow> (string list \<Rightarrow> string list list \<Rightarrow> 'f TableRowDef outcome) \<Rightarrow>
   'f TableRowDef option outcome" where
  "summary_detail db labels sql detail genRow =
     out_bind (querySQL db sql) (\<lambda>rows. case rows of [] \<Rightarrow> Returns None | row # _ \<Rightarrow>
       if length labels = 0 then out_bind (genRow row []) (\<lambda>r. Returns (Some r)) else
       out_bind (querySQL db detail) (\<lambda>subRows.
       out_bind (out_map (join_labels (length labels)) subRows) (\<lambda>subRows.
       out_bind (genRow row subRows) (\<lambda>r. Returns (Some r)))))"

definition handle_row ::
  "'f gofloat \<Rightarrow> (string list \<Rightarrow> string list outcome) \<Rightarrow> string \<Rightarrow> string list \<Rightarrow> string list list \<Rightarrow> 'f TableRowDef outcome" where
  "handle_row F special comment vs subs =
     out_bind (special vs) (\<lambda>vs. out_bind (out_map special subs) (\<lambda>subs. Returns (row_def F vs subs comment)))"

definition label_columns :: "string list \<Rightarrow> string" where
  "label_columns labels = ''`'' @ strings_Join labels ''`,`'' @ ''`''"

paragraph \<open>Average, maximum and minimum\<close>

record AvgMaxMinTableDef =
  am_name :: string
  am_tbl :: string
  am_condition :: string
  am_labels :: "string list"
  am_Comment :: string

definition metric_condition :: "'f queryArg \<Rightarrow> string \<Rightarrow> string" where
  "metric_condition arg cond =
     time_range (qa_startTime arg) (qa_endTime arg) @ '' '' @ (if 0 < length cond then ''and '' @ cond else '''')"

definition avg_summary_sql :: "AvgMaxMinTableDef \<Rightarrow> 'f queryArg \<Rightarrow> string" where
  "avg_summary_sql t arg =
     ''select '' @ quoted (am_name t) @ '', '' @ quoted '''' @
     '', avg(value), max(value), min(value) from metrics_schema.'' @ am_tbl t @ '' '' @
     metric_condition arg (am_condition t)"

definition avg_detail_sql :: "AvgMaxMinTableDef \<Rightarrow> 'f queryArg \<Rightarrow> string" where
  "avg_detail_sql t arg =
     ''select '' @ quoted (am_name t) @ '','' @ label_columns (am_labels t) @
     '', avg(value), max(value), min(value) from metrics_schema.'' @ am_tbl t @ '' '' @
     metric_condition arg (am_condition t) @ '' group by '' @ label_columns (am_labels t) @
     '' order by avg(value) desc''"

text \<open>\<open>specialHandle\<close> of \<open>genRow\<close>.\<close>

definition avg_handle :: "'f gofloat \<Rightarrow> string list \<Rightarrow> string list outcome" where
  "avg_handle F row = (if length row = 0 then Returns row else update_cells (RoundFloatString F) [2, 3, 4] row)"

definition avg_genRow :: "'f gofloat \<Rightarrow> AvgMaxMinTableDef \<Rightarrow> string list \<Rightarrow> string list list \<Rightarrow> 'f TableRowDef outcome" where
  "avg_genRow F t = handle_row F (avg_handle F) (am_Comment t)"

definition avg_queryRow :: "'f gofloat \<Rightarrow> sql_db \<Rightarrow> AvgMaxMinTableDef \<Rightarrow> 'f queryArg \<Rightarrow> 'f TableRowDef option outcome" where
  "avg_queryRow F db t arg =
     (let t = (if length (am_name t) = 0 then t\<lparr>am_name := am_tbl t\<rparr> else t) in
      summary_detail db (am_labels t) (avg_summary_sql t arg) (avg_detail_sql t arg) (avg_genRow F t))"

paragraph \<open>Sums\<close>

record sumValueQuery =
  sv_name :: string
  sv_tbl :: string
  sv_condition :: string
  sv_labels :: "string list"
  sv_comment :: string

definition sum_summary_sql :: "sumValueQuery \<Rightarrow> 'f queryArg \<Rightarrow> string" where
  "sum_summary_sql t arg =
     ''select '' @ quoted (sv_name t) @ '', '' @ quoted '''' @ '', sum(value) from metrics_schema.'' @ sv_tbl t @ '' '' @
     metric_condition arg (sv_condition t)"

definition sum_detail_sql :: "sumValueQuery \<Rightarrow> 'f queryArg \<Rightarrow> string" where
  "sum_detail_sql t arg =
     ''select '' @ quoted (sv_name t) @ '','' @ label_columns (sv_labels t) @
     '', sum(value) from metrics_schema.'' @ sv_tbl t @ '' '' @ metric_condition arg (sv_condition t) @
     '' group by '' @ label_columns (sv_labels t) @ '' having sum(value) > 0 order by sum(value) desc''"

definition sum_handle :: "'f gofloat \<Rightarrow> string list \<Rightarrow> string list outcome" where
  "sum_handle F row = (if length row = 0 then Returns row else update_cells (RoundFloatString F) [2] row)"

definition sum_genRow :: "'f gofloat \<Rightarrow> sumValueQuery \<Rightarrow> string list \<Rightarrow> string list list \<Rightarrow> 'f TableRowDef outcome" where
  "sum_genRow F t = handle_row F (sum_handle F) (genComment (sv_comment t) (sv_labels t))"

definition sum_queryRow :: "'f gofloat \<Rightarrow> sql_db \<Rightarrow> sumValueQuery \<Rightarrow> 'f queryArg \<Rightarrow> 'f TableRowDef option outcome" where
  "sum_queryRow F db t arg =
     (let t = (if length (sv_name t) = 0 then t\<lparr>sv_name := sv_tbl t\<rparr> else t) in
      summary_detail db (sv_labels t) (sum_summary_sql t arg) (sum_detail_sql t arg) (sum_genRow F t))"

paragraph \<open>Total time by labels\<close>

record totalTimeByLabelsTableDef =
  tt_name :: string
  tt_tbl :: string
  tt_labels :: "string list"
  tt_comment :: string

text \<open>The statements joined as \<open>t0\<close>, \<open>t1\<close> and so on: the fields, and the tables.\<close>

fun fields_loop :: "nat \<Rightarrow> string list \<Rightarrow> string" where
  "fields_loop i [] = ''''"
| "fields_loop i (sql # sqls) =
     (if 0 < i then '','' else '''') @ ''t'' @ dec_digits i @ ''.*'' @ fields_loop (i + 1) sqls"

fun tbls_loop :: "nat \<Rightarrow> string list \<Rightarrow> string" where
  "tbls_loop i [] = ''''"
| "tbls_loop i (sql # sqls) =
     (if 0 < i then ''join '' else '''') @ '' ('' @ sql @ '') as t'' @ dec_digits i @ '' '' @ tbls_loop (i + 1) sqls"

definition join_summary :: "string list \<Rightarrow> string" where
  "join_summary sqls = ''select '' @ fields_loop 0 sqls @ '' from '' @ tbls_loop 0 sqls"

definition quantile_sql :: "'f gofloat \<Rightarrow> string \<Rightarrow> 'f queryArg \<Rightarrow> 'f \<Rightarrow> string" where
  "quantile_sql F tbl arg quantile =
     ''select max(value) as max_value from metrics_schema.'' @ tbl @ '' '' @
     time_range (qa_startTime arg) (qa_endTime arg) @ '' and quantile='' @ fl_Fixed F 6 quantile"

definition total_ratio_sql :: "'f gofloat \<Rightarrow> 'f \<Rightarrow> string" where
  "total_ratio_sql F totalTime = ''if('' @ fl_String F totalTime @ ''>0,sum(value)/'' @ fl_String F totalTime @ '',1)''"

definition tt_genSumarySQLs :: "'f gofloat \<Rightarrow> totalTimeByLabelsTableDef \<Rightarrow> 'f queryArg \<Rightarrow> string" where
  "tt_genSumarySQLs F t arg =
     join_summary
       ([''select '' @ quoted (tt_name t) @ '','' @ quoted '''' @ '', '' @ total_ratio_sql F (qa_totalTime arg) @
         '' , sum(value) from metrics_schema.'' @ tt_tbl t @ ''_total_time '' @ time_range (qa_startTime arg) (qa_endTime arg),
         ''select sum(value) from metrics_schema.'' @ tt_tbl t @ ''_total_count '' @
         time_range (qa_startTime arg) (qa_endTime arg)] @
        map (quantile_sql F (tt_tbl t @ ''_duration'') arg) (qa_quantiles arg))"

text \<open>The detail statement: its select list, the joined statements, the equalities of the labels.\<close>

fun max_values_loop :: "nat \<Rightarrow> 'f list \<Rightarrow> string" where
  "max_values_loop i [] = ''''"
| "max_values_loop i (quantile # quantiles) =
     '',t'' @ dec_digits (i + 2) @ ''.max_value'' @ max_values_loop (i + 1) quantiles"

fun joins_loop :: "nat \<Rightarrow> nat \<Rightarrow> string list \<Rightarrow> string" where
  "joins_loop n i [] = ''''"
| "joins_loop n i (sql # sqls) =
     '' ('' @ sql @ '') as t'' @ dec_digits i @ '' '' @ (if i + 1 \<noteq> n then ''join '' else '''') @ joins_loop n (i + 1) sqls"

fun equal_labels :: "nat \<Rightarrow> nat \<Rightarrow> string list \<Rightarrow> string" where
  "equal_labels i j [] = ''''"
| "equal_labels i j (label # labels) =
     (if 0 < i \<or> 0 < j then ''and '' else '''') @
     '' t'' @ dec_digits i @ ''.'' @ label @ '' = t'' @ dec_digits (i + 1) @ ''.'' @ label @ '' '' @
     equal_labels i (j + 1) labels"

definition join_detail :: "string \<Rightarrow> 'f list \<Rightarrow> string list \<Rightarrow> string list \<Rightarrow> string" where
  "join_detail head quantiles sqls labels =
     head @ max_values_loop 0 quantiles @ '' from '' @ joins_loop (length sqls) 0 sqls @ '' where '' @
     concat (map (\<lambda>i. equal_labels i 0 labels) [0..<length sqls - 1]) @ '' order by t0.total desc''"

definition quantile_detail_sql :: "'f gofloat \<Rightarrow> string \<Rightarrow> string list \<Rightarrow> 'f queryArg \<Rightarrow> 'f \<Rightarrow> string" where
  "quantile_detail_sql F tbl labels arg quantile =
     ''select '' @ label_columns labels @ '', max(value) as max_value from metrics_schema.'' @ tbl @ '' '' @
     time_range (qa_startTime arg) (qa_endTime arg) @ '' and quantile='' @ fl_Fixed F 6 quantile @
     '' group by '' @ label_columns labels"

definition tt_genDetailSQLs :: "'f gofloat \<Rightarrow> totalTimeByLabelsTableDef \<Rightarrow> 'f queryArg \<Rightarrow> string" where
  "tt_genDetailSQLs F t arg =
     (if length (tt_labels t) = 0 then '''' else
      join_detail ''select t0.*,t1.total_count'' (qa_quantiles arg)
       ([''select '' @ quoted (tt_name t) @ '', '' @ label_columns (tt_labels t) @ '', '' @
         total_ratio_sql F (qa_totalTime arg) @ '' , sum(value) as total from metrics_schema.'' @ tt_tbl t @
         ''_total_time '' @ time_range (qa_startTime arg) (qa_endTime arg) @ '' group by '' @
         label_columns (tt_labels t) @ '' having sum(value) > 0'',
         ''select '' @ label_columns (tt_labels t) @ '', sum(value) as total_count from metrics_schema.'' @ tt_tbl t @
         ''_total_count '' @ time_range (qa_startTime arg) (qa_endTime arg) @ '' group by '' @
         label_columns (tt_labels t)] @
        map (quantile_detail_sql F (tt_tbl t @ ''_duration'') (tt_labels t) arg) (qa_quantiles arg))
       (tt_labels t))"

text \<open>
  \<open>specialHandle\<close>: a name that ends in \<open>(us)\<close> loses the suffix and its times are divided by
  10e5, unless the total time is empty: then the row is left as it is.
\<close>

definition us_cell :: "'f gofloat \<Rightarrow> string \<Rightarrow> string" where
  "us_cell F s = (case fl_Parse F s of Inl _ \<Rightarrow> s | Inr v \<Rightarrow> fl_Fixed F 6 (fl_div F v (fl_int F 1000000)))"

definition time_cells :: "nat list" where
  "time_cells = [2, 3, 5, 6, 7, 8]"

definition round_times :: "'f gofloat \<Rightarrow> string list \<Rightarrow> string list outcome" where
  "round_times F row =
     out_bind (opt_out (idx row 4)) (\<lambda>v.
       update_cells (RoundFloatString F) time_cells (if 0 < length v then row[4 := convertFloatToInt F v] else row))"

definition time_handle :: "'f gofloat \<Rightarrow> string list \<Rightarrow> string list outcome" where
  "time_handle F row =
     (if length row = 0 then Returns row else
      let name = row ! 0 in
      if has_suffix name ''(us)'' then
        out_bind (opt_out (idx row 3)) (\<lambda>v.
          if length v = 0 then Returns row else
          out_bind (update_cells (us_cell F) time_cells row) (\<lambda>row.
            round_times F (row[0 := take (length name - 4) name])))
      else round_times F row)"

definition time_genRow :: "'f gofloat \<Rightarrow> totalTimeByLabelsTableDef \<Rightarrow> string list \<Rightarrow> string list list \<Rightarrow> 'f TableRowDef outcome" where
  "time_genRow F t = handle_row F (time_handle F) (genComment (tt_comment t) (tt_labels t))"

text \<open>The first total time that parses becomes the total of the argument.\<close>

definition set_totalTime :: "'f gofloat \<Rightarrow> string list \<Rightarrow> ('f queryArg, unit) op" where
  "set_totalTime F row arg =
     (if fl_eq F (qa_totalTime arg) (fl_int F 0) then
        (case idx row 3 of
           None \<Rightarrow> (Panics, arg)
         | Some v \<Rightarrow>
             (Returns (), if 0 < length v then (case fl_Parse F v of Inl _ \<Rightarrow> arg | Inr t \<Rightarrow> arg\<lparr>qa_totalTime := t\<rparr>) else arg))
      else (Returns (), arg))"

definition time_queryRow :: "'f gofloat \<Rightarrow> sql_db \<Rightarrow> totalTimeByLabelsTableDef \<Rightarrow> ('f queryArg, 'f TableRowDef option) op" where
  "time_queryRow F db t arg =
     op_bind (op_lift (querySQL db (tt_genSumarySQLs F t arg))) (\<lambda>rows. case rows of [] \<Rightarrow> op_return None | row # _ \<Rightarrow>
       if length (tt_labels t) = 0 then op_lift (out_bind (time_genRow F t row []) (\<lambda>r. Returns (Some r))) else
       op_bind (set_totalTime F row) (\<lambda>_ arg.
       op_bind (op_lift (querySQL db (tt_genDetailSQLs F t arg))) (\<lambda>subRows. op_lift
       (out_bind (out_map (join_labels (length (tt_labels t))) subRows) (\<lambda>subRows.
        out_bind (time_genRow F t row subRows) (\<lambda>r. Returns (Some r))))) arg)) arg"

paragraph \<open>Total value and total count\<close>

record totalValueAndTotalCountTableDef =
  tv_name :: string
  tv_tbl :: string
  tv_sumTbl :: string
  tv_countTbl :: string
  tv_labels :: "string list"
  tv_comment :: string

definition tv_genSumarySQLs :: "'f gofloat \<Rightarrow> totalValueAndTotalCountTableDef \<Rightarrow> 'f queryArg \<Rightarrow> string" where
  "tv_genSumarySQLs F t arg =
     join_summary
       ([''select '' @ quoted (tv_name t) @ '','' @ quoted '''' @ '' , sum(value) from metrics_schema.'' @ tv_sumTbl t @
         '' '' @ time_range (qa_startTime arg) (qa_endTime arg),
         ''select sum(value) from metrics_schema.'' @ tv_countTbl t @ '' '' @
         time_range (qa_startTime arg) (qa_endTime arg)] @
        map (quantile_sql F (tv_tbl t) arg) (qa_quantiles arg))"

definition tv_genDetailSQLs :: "'f gofloat \<Rightarrow> totalValueAndTotalCountTableDef \<Rightarrow> 'f queryArg \<Rightarrow> string" where
  "tv_genDetailSQLs F t arg =
     (if length (tv_labels t) = 0 then '''' else
      join_detail ''select t0.*,t1.count'' (qa_quantiles arg)
       ([''select '' @ quoted (tv_name t) @ '', '' @ label_columns (tv_labels t) @
         '' , sum(value) as total from metrics_schema.'' @ tv_sumTbl t @ '' '' @
         time_range (qa_startTime arg) (qa_endTime arg) @ '' group by '' @ label_columns (tv_labels t) @
         '' having sum(value) > 0'',
         ''select '' @ label_columns (tv_labels t) @ '', sum(value) as count from metrics_schema.'' @ tv_countTbl t @
         '' '' @ time_range (qa_startTime arg) (qa_endTime arg) @ '' group by '' @ label_columns (tv_labels t)] @
        map (quantile_detail_sql F (tv_tbl t) (tv_labels t) arg) (qa_quantiles arg))
       (tv_labels t))"

definition int_cells :: "'f gofloat \<Rightarrow> string list \<Rightarrow> string list" where
  "int_cells F row = take 2 row @ map (\<lambda>v. if length v = 0 then v else convertFloatToInt F v) (drop 2 row)"

definition value_genRow :: "'f gofloat \<Rightarrow> totalValueAndTotalCountTableDef \<Rightarrow> string list \<Rightarrow> string list list \<Rightarrow> 'f TableRowDef outcome" where
  "value_genRow F t = handle_row F (\<lambda>row. Returns (int_cells F row)) (genComment (tv_comment t) (tv_labels t))"

definition value_queryRow :: "'f gofloat \<Rightarrow> sql_db \<Rightarrow> totalValueAndTotalCountTableDef \<Rightarrow> 'f queryArg \<Rightarrow> 'f TableRowDef option outcome" where
  "value_queryRow F db t arg =
     summary_detail db (tv_labels t) (tv_genSumarySQLs F t arg) (tv_genDetailSQLs F t arg) (value_genRow F t)"

section \<open>Lists of queries\<close>

text \<open>The types that implement the interface \<open>rowQuery\<close>.\<close>

datatype rowQuery =
    AvgQuery AvgMaxMinTableDef
  | SumQuery sumValueQuery
  | TimeQuery totalTimeByLabelsTableDef
  | ValueQuery totalValueAndTotalCountTableDef

fun queryRow :: "'f gofloat \<Rightarrow> sql_db \<Rightarrow> rowQuery \<Rightarrow> ('f queryArg, 'f TableRowDef option) op" where
  "queryRow F db (AvgQuery t) arg = (avg_queryRow F db t arg, arg)"
| "queryRow F db (SumQuery t) arg = (sum_queryRow F db t arg, arg)"
| "queryRow F db (TimeQuery t) arg = time_queryRow F db t arg"
| "queryRow F db (ValueQuery t) arg = (value_queryRow F db t arg, arg)"

text \<open>A query that fails is printed and skipped; \<open>appendRows\<close> appends one row each time.\<close>

fun getTableRows ::
  "'f gofloat \<Rightarrow> sql_db \<Rightarrow> ('f TableRowDef \<Rightarrow> ('f queryArg, 'f TableRowDef) op) \<Rightarrow> rowQuery list \<Rightarrow>
   ('f queryArg, 'f TableRowDef list) op" where
  "getTableRows F db appendRows [] = op_return []"
| "getTableRows F db appendRows (def # defs) = (\<lambda>arg.
     case queryRow F db def arg of
       (Panics, arg) \<Rightarrow> (Panics, arg)
     | (Fails _, arg) \<Rightarrow> getTableRows F db appendRows defs arg
     | (Returns None, arg) \<Rightarrow> getTableRows F db appendRows defs arg
     | (Returns (Some row), arg) \<Rightarrow>
         op_bind (appendRows row) (\<lambda>r. op_bind (getTableRows F db appendRows defs) (\<lambda>rs. op_return (r # rs))) arg)"

definition table_rows_of ::
  "'f gofloat \<Rightarrow> sql_db \<Rightarrow> ('f TableRowDef \<Rightarrow> ('f queryArg, 'f TableRowDef) op) \<Rightarrow> rowQuery list \<Rightarrow> 'f queryArg \<Rightarrow>
   'f TableRowDef list outcome" where
  "table_rows_of F db appendRows defs arg = fst (getTableRows F db appendRows defs arg)"

text \<open>\<open>appendRows\<close> with a \<open>specialHandle\<close> applied to the cells and to the cells of each row below.\<close>

definition handle_cells :: "(string list \<Rightarrow> string list outcome) \<Rightarrow> 'f TableRowDef \<Rightarrow> 'f TableRowDef outcome" where
  "handle_cells special row =
     out_bind (special (Values row)) (\<lambda>vs. out_bind (out_map special (SubValues row)) (\<lambda>subs.
       Returns (row\<lparr>Values := vs, SubValues := subs\<rparr>)))"

definition append_handled :: "(string list \<Rightarrow> string list outcome) \<Rightarrow> 'f TableRowDef \<Rightarrow> ('f queryArg, 'f TableRowDef) op" where
  "append_handled special row = op_lift (handle_cells special row)"

definition count_handle :: "'f gofloat \<Rightarrow> string list \<Rightarrow> string list outcome" where
  "count_handle F row = (if length row < 3 then Returns row else update_cells (convertFloatToInt F) [2] row)"

definition getSumValueTableData ::
  "'f gofloat \<Rightarrow> sql_db \<Rightarrow> string \<Rightarrow> string \<Rightarrow> sumValueQuery list \<Rightarrow> 'f TableRowDef list outcome" where
  "getSumValueTableData F db startTime endTime defs1 =
     table_rows_of F db (append_handled (count_handle F)) (map SumQuery defs1) (newQueryArg F startTime endTime)"

definition getAvgValueTableData ::
  "'f gofloat \<Rightarrow> sql_db \<Rightarrow> string \<Rightarrow> string \<Rightarrow> AvgMaxMinTableDef list \<Rightarrow> 'f TableRowDef list outcome" where
  "getAvgValueTableData F db startTime endTime defs1 =
     table_rows_of F db op_return (map AvgQuery defs1) (newQueryArg F startTime endTime)"

section \<open>Plain queries\<close>

definition getSQLRows :: "'f gofloat \<Rightarrow> sql_db \<Rightarrow> string \<Rightarrow> 'f TableRowDef list outcome" where
  "getSQLRows F db sql = out_bind (querySQL db sql) (\<lambda>rows. Returns (map (row_of F) rows))"

definition getSQLRoundRows ::
  "'f gofloat \<Rightarrow> sql_db \<Rightarrow> string \<Rightarrow> nat list \<Rightarrow> string \<Rightarrow> 'f TableRowDef list outcome" where
  "getSQLRoundRows F db sql nums comment =
     out_bind (querySQL db sql) (\<lambda>rows.
     out_bind (out_map (update_cells (RoundFloatString F) nums) rows) (\<lambda>rows.
     Returns (map (\<lambda>vs. row_def F vs [] comment) rows)))"

definition set_size :: "'f gofloat \<Rightarrow> nat \<Rightarrow> string list \<Rightarrow> string list" where
  "set_size F ix row = (if length row < ix + 1 then row else row[ix := convertFloatToSize F (row ! ix)])"

definition convertFloatToSizeByRow :: "'f gofloat \<Rightarrow> nat \<Rightarrow> 'f TableRowDef \<Rightarrow> 'f TableRowDef" where
  "convertFloatToSizeByRow F ix row =
     (if length (Values row) < ix + 1 then row
      else row\<lparr>Values := set_size F ix (Values row), SubValues := map (set_size F ix) (SubValues row)\<rparr>)"

definition convertFloatToSizeByRows :: "'f gofloat \<Rightarrow> nat \<Rightarrow> 'f TableRowDef list \<Rightarrow> 'f TableRowDef list" where
  "convertFloatToSizeByRows F ix rows = map (convertFloatToSizeByRow F ix) rows"

text \<open>Rows are compared by a cell; cells that are missing or do not parse compare as equal.\<close>

definition cell_greater :: "'f gofloat \<Rightarrow> nat \<Rightarrow> string list \<Rightarrow> string list \<Rightarrow> bool" where
  "cell_greater F ix a b =
     (if length a < ix + 1 \<or> length b < ix + 1 then False else
      (case (parseFloat F (a ! ix), parseFloat F (b ! ix)) of
         (Inr v1, Inr v2) \<Rightarrow> fl_less F v2 v1
       | _ \<Rightarrow> False))"

definition sortRowsByIndex :: "'f gofloat \<Rightarrow> go_sort \<Rightarrow> nat \<Rightarrow> 'f TableRowDef list \<Rightarrow> 'f TableRowDef list" where
  "sortRowsByIndex F srt ix resultRows =
     sort_Slice srt (\<lambda>a b. cell_greater F ix (Values a) (Values b))
       (map (\<lambda>r. r\<lparr>SubValues := sort_Slice srt (cell_greater F ix) (SubValues r)\<rparr>) resultRows)"

text \<open>A text longer than 100 bytes moves to a row below and is cut.\<close>

definition sub_row_for_long :: "nat \<Rightarrow> 'f TableRowDef \<Rightarrow> 'f TableRowDef" where
  "sub_row_for_long colIdx row =
     (if length (Values row) \<le> colIdx then row
      else if 100 < length (Values row ! colIdx) then
        row\<lparr>Values := (Values row)[colIdx := take 100 (Values row ! colIdx)],
            SubValues := SubValues row @ [(replicate (length (Values row)) '''')[colIdx := Values row ! colIdx]]\<rparr>
      else row)"

definition useSubRowForLongColumnValue :: "'f TableRowDef list \<Rightarrow> nat \<Rightarrow> 'f TableRowDef list" where
  "useSubRowForLongColumnValue rows colIdx = map (sub_row_for_long colIdx) rows"

end
