(* ===== verification/DiagMetrics.thy ===== *)
theory DiagMetrics
  imports DiagQuery
begin

text \<open>
  The tables of the diagnosis report that are filled from lists of metric queries
  (\<open>pkg/apiserver/diagnose/report.go\<close>): for each table its queries, its schema, the handling of
  its rows and the function that fills it.
\<close>

section \<open>Schemas and results\<close>

definition table_schema :: "string \<Rightarrow> string \<Rightarrow> nat list \<Rightarrow> nat list \<Rightarrow> string list \<Rightarrow> 'f TableDef" where
  "table_schema category title joins compares cols =
     \<lparr>Category = [category], Title = title, Comment = '''', joinColumns = joins, compareColumns = compares,
      Column = cols, Rows = None\<rparr>"

text \<open>What a table function returns, the table and the error; \<open>None\<close> when it panics.\<close>

type_synonym 'f table_result = "('f TableDef \<times> string option) option"

definition fill_table :: "'f TableDef \<Rightarrow> 'f TableRowDef list outcome \<Rightarrow> 'f table_result" where
  "fill_table table r =
     (case r of Panics \<Rightarrow> None | Fails err \<Rightarrow> Some (table, Some err) | Returns rows \<Rightarrow> Some (table\<lparr>Rows := Some rows\<rparr>, None))"

definition time_def :: "string \<Rightarrow> string \<Rightarrow> string list \<Rightarrow> totalTimeByLabelsTableDef" where
  "time_def name tbl labels = \<lparr>tt_name = name, tt_tbl = tbl, tt_labels = labels, tt_comment = ''''\<rparr>"

definition sum_def :: "string \<Rightarrow> string \<Rightarrow> string list \<Rightarrow> string \<Rightarrow> sumValueQuery" where
  "sum_def name tbl labels condition =
     \<lparr>sv_name = name, sv_tbl = tbl, sv_condition = condition, sv_labels = labels, sv_comment = ''''\<rparr>"

definition avg_def :: "string \<Rightarrow> string \<Rightarrow> string list \<Rightarrow> string \<Rightarrow> AvgMaxMinTableDef" where
  "avg_def name tbl labels condition =
     \<lparr>am_name = name, am_tbl = tbl, am_condition = condition, am_labels = labels, am_Comment = ''''\<rparr>"

definition value_def :: "string \<Rightarrow> string \<Rightarrow> string \<Rightarrow> string \<Rightarrow> string list \<Rightarrow> totalValueAndTotalCountTableDef" where
  "value_def name tbl sumTbl countTbl labels =
     \<lparr>tv_name = name, tv_tbl = tbl, tv_sumTbl = sumTbl, tv_countTbl = countTbl, tv_labels = labels, tv_comment = ''''\<rparr>"

section \<open>Time consumed\<close>

text \<open>
  The first total time that parses is the total of the queries after it; the PD table resets
  it after each row.
\<close>

definition append_time :: "'f gofloat \<Rightarrow> 'f TableRowDef \<Rightarrow> ('f queryArg, 'f TableRowDef) op" where
  "append_time F row =
     op_bind (set_totalTime F (Values row)) (\<lambda>_.
     op_bind (op_map (set_totalTime F) (SubValues row)) (\<lambda>_. op_return row))"

definition append_reset :: "'f gofloat \<Rightarrow> 'f TableRowDef \<Rightarrow> ('f queryArg, 'f TableRowDef) op" where
  "append_reset F row = op_bind (op_modify (\<lambda>arg. arg\<lparr>qa_totalTime := fl_int F 0\<rparr>)) (\<lambda>_. op_return row)"

definition GetTotalTimeConsumeTable_defs :: "totalTimeByLabelsTableDef list" where
  "GetTotalTimeConsumeTable_defs =
     [time_def ''tidb_query'' ''tidb_query'' [''sql_type''],
      time_def ''tidb_get_token(us)'' ''tidb_get_token'' [''instance''],
      time_def ''tidb_parse'' ''tidb_parse'' [''sql_type''],
      time_def ''tidb_compile'' ''tidb_compile'' [''sql_type''],
      time_def ''tidb_execute'' ''tidb_execute'' [''sql_type''],
      time_def ''tidb_distsql_execution'' ''tidb_distsql_execution'' [''type''],
      time_def ''tidb_cop'' ''tidb_cop'' [''instance''],
      time_def ''tidb_transaction'' ''tidb_transaction'' [''sql_type''],
      time_def ''tidb_transaction_local_latch_wait'' ''tidb_transaction_local_latch_wait'' [''instance''],
      time_def ''tidb_txn_cmd'' ''tidb_txn_cmd'' [''type''],
      time_def ''tidb_kv_backoff'' ''tidb_kv_backoff'' [''type''],
      time_def ''tidb_kv_request'' ''tidb_kv_request'' [''type''],
      time_def ''tidb_slow_query'' ''tidb_slow_query'' [''instance''],
      time_def ''tidb_slow_query_cop_process'' ''tidb_slow_query_cop_process'' [''instance''],
      time_def ''tidb_slow_query_cop_wait'' ''tidb_slow_query_cop_wait'' [''instance''],
      time_def ''tidb_ddl_handle_job'' ''tidb_ddl'' [''type''],
      time_def ''tidb_ddl_worker'' ''tidb_ddl_worker'' [''action''],
      time_def ''tidb_ddl_update_self_version'' ''tidb_ddl_update_self_version'' [''result''],
      time_def ''tidb_owner_handle_syncer'' ''tidb_owner_handle_syncer'' [''type''],
      time_def ''tidb_ddl_batch_add_index'' ''tidb_ddl_batch_add_index'' [''type''],
      time_def ''tidb_ddl_deploy_syncer'' ''tidb_ddl_deploy_syncer'' [''type''],
      time_def ''tidb_load_schema'' ''tidb_load_schema'' [''instance''],
      time_def ''tidb_meta_operation'' ''tidb_meta_operation'' [''type''],
      time_def ''tidb_auto_id_request'' ''tidb_auto_id_request'' [''type''],
      time_def ''tidb_statistics_auto_analyze'' ''tidb_statistics_auto_analyze'' [''instance''],
      time_def ''tidb_gc'' ''tidb_gc'' [''instance''],
      time_def ''tidb_gc_push_task'' ''tidb_gc_push_task'' [''type''],
      time_def ''tidb_batch_client_unavailable'' ''tidb_batch_client_unavailable'' [''instance''],
      time_def ''tidb_batch_client_wait'' ''tidb_batch_client_wait'' [''instance''],
      time_def ''tidb_batch_client_wait_conn'' ''tidb_batch_client_wait_conn'' [''instance''],
      time_def ''pd_tso_rpc'' ''pd_tso_rpc'' [''instance''],
      time_def ''pd_tso_wait'' ''pd_tso_wait'' [''instance''],
      time_def ''pd_client_cmd'' ''pd_client_cmd'' [''type''],
      time_def ''pd_client_request_rpc'' ''pd_request_rpc'' [''type''],
      time_def ''pd_grpc_completed_commands'' ''pd_grpc_completed_commands'' [''grpc_method''],
      time_def ''pd_operator_finish'' ''pd_operator_finish'' [''type''],
      time_def ''pd_operator_step_finish'' ''pd_operator_step_finish'' [''type''],
      time_def ''pd_handle_transactions'' ''pd_handle_transactions'' [''result''],
      time_def ''pd_region_heartbeat'' ''pd_region_heartbeat'' [''address''],
      time_def ''etcd_wal_fsync'' ''etcd_wal_fsync'' [''instance''],
      time_def ''pd_peer_round_trip'' ''pd_peer_round_trip'' [''To''],
      time_def ''tikv_grpc_message'' ''tikv_grpc_message'' [''type''],
      time_def ''tikv_cop_request'' ''tikv_cop_request'' [''req''],
      time_def ''tikv_cop_handle'' ''tikv_cop_handle'' [''req''],
      time_def ''tikv_cop_wait'' ''tikv_cop_wait'' [''req''],
      time_def ''tikv_scheduler_command'' ''tikv_scheduler_command'' [''type''],
      time_def ''tikv_scheduler_latch_wait'' ''tikv_scheduler_latch_wait'' [''type''],
      time_def ''tikv_storage_async_request'' ''tikv_storage_async_request'' [''type''],
      time_def ''tikv_scheduler_processing_read'' ''tikv_scheduler_processing_read'' [''type''],
      time_def ''tikv_raft_propose_wait'' ''tikv_raftstore_propose_wait'' [''instance''],
      time_def ''tikv_raft_process'' ''tikv_raftstore_process'' [''type''],
      time_def ''tikv_raft_append_log'' ''tikv_raftstore_append_log'' [''instance''],
      time_def ''tikv_raft_commit_log'' ''tikv_raftstore_commit_log'' [''instance''],
      time_def ''tikv_raft_apply_wait'' ''tikv_raftstore_apply_wait'' [''instance''],
      time_def ''tikv_raft_apply_log'' ''tikv_raftstore_apply_log'' [''instance''],
      time_def ''tikv_raft_store_events'' ''tikv_raft_store_events'' [''type''],
      time_def ''tikv_handle_snapshot'' ''tikv_handle_snapshot'' [''type''],
      time_def ''tikv_send_snapshot'' ''tikv_send_snapshot'' [''instance''],
      time_def ''tikv_check_split'' ''tikv_check_split'' [''instance''],
      time_def ''tikv_ingest_sst'' ''tikv_ingest_sst'' [''instance''],
      time_def ''tikv_gc_tasks'' ''tikv_gc_tasks'' [''task''],
      time_def ''tikv_pd_request'' ''tikv_pd_request'' [''type''],
      time_def ''tikv_lock_manager_deadlock_detect'' ''tikv_lock_manager_deadlock_detect'' [''instance''],
      time_def ''tikv_lock_manager_waiter_lifetime'' ''tikv_lock_manager_waiter_lifetime'' [''instance''],
      time_def ''tikv_backup_range'' ''tikv_backup_range'' [''type''],
      time_def ''tikv_backup'' ''tikv_backup'' [''instance'']]"

definition GetTotalTimeConsumeTable_schema :: "'f TableDef" where
  "GetTotalTimeConsumeTable_schema = table_schema ''overview'' ''total_time_consume'' [0, 1] [3, 4, 5]
     [''METRIC_NAME'', ''LABEL'', ''TIME_RATIO'', ''TOTAL_TIME'', ''TOTAL_COUNT'', ''P999'', ''P99'', ''P90'', ''P80'']"

definition GetTotalTimeConsumeTable :: "'f diag_env \<Rightarrow> sql_db \<Rightarrow> string \<Rightarrow> string \<Rightarrow> 'f table_result" where
  "GetTotalTimeConsumeTable E db startTime endTime =
     (let F = de_float E in fill_table GetTotalTimeConsumeTable_schema
       (table_rows_of F db (append_time F) (map TimeQuery GetTotalTimeConsumeTable_defs) (newQueryArg F startTime endTime)))"

definition GetTiDBTimeConsumeTable_defs :: "totalTimeByLabelsTableDef list" where
  "GetTiDBTimeConsumeTable_defs =
     [time_def ''tidb_query'' ''tidb_query'' [''instance'', ''sql_type''],
      time_def ''tidb_get_token(us)'' ''tidb_get_token'' [''instance''],
      time_def ''tidb_parse'' ''tidb_parse'' [''instance'', ''sql_type''],
      time_def ''tidb_compile'' ''tidb_compile'' [''instance'', ''sql_type''],
      time_def ''tidb_execute'' ''tidb_execute'' [''instance'', ''sql_type''],
      time_def ''tidb_distsql_execution'' ''tidb_distsql_execution'' [''instance'', ''type''],
      time_def ''tidb_cop'' ''tidb_cop'' [''instance''],
      time_def ''tidb_transaction'' ''tidb_transaction'' [''instance'', ''sql_type'', ''type''],
      time_def ''tidb_transaction_local_latch_wait'' ''tidb_transaction_local_latch_wait'' [''instance''],
      time_def ''tidb_kv_backoff'' ''tidb_kv_backoff'' [''instance'', ''type''],
      time_def ''tidb_kv_request'' ''tidb_kv_request'' [''instance'', ''store'', ''type''],
      time_def ''tidb_slow_query'' ''tidb_slow_query'' [''instance''],
      time_def ''tidb_slow_query_cop_process'' ''tidb_slow_query_cop_process'' [''instance''],
      time_def ''tidb_slow_query_cop_wait'' ''tidb_slow_query_cop_wait'' [''instance''],
      time_def ''tidb_ddl_handle_job'' ''tidb_ddl'' [''instance'', ''type''],
      time_def ''tidb_ddl_worker'' ''tidb_ddl_worker'' [''instance'', ''type'', ''result'', ''action''],
      time_def ''tidb_ddl_update_self_version'' ''tidb_ddl_update_self_version'' [''instance'', ''result''],
      time_def ''tidb_owner_handle_syncer'' ''tidb_owner_handle_syncer'' [''instance'', ''type'', ''result''],
      time_def ''tidb_ddl_batch_add_index'' ''tidb_ddl_batch_add_index'' [''instance'', ''type''],
      time_def ''tidb_ddl_deploy_syncer'' ''tidb_ddl_deploy_syncer'' [''instance'', ''type'', ''result''],
      time_def ''tidb_load_schema'' ''tidb_load_schema'' [''instance''],
      time_def ''tidb_meta_operation'' ''tidb_meta_operation'' [''instance'', ''type'', ''result''],
      time_def ''tidb_auto_id_request'' ''tidb_auto_id_request'' [''instance'', ''type''],
      time_def ''tidb_statistics_auto_analyze'' ''tidb_statistics_auto_analyze'' [''instance''],
      time_def ''tidb_gc'' ''tidb_gc'' [''instance''],
      time_def ''tidb_gc_push_task'' ''tidb_gc_push_task'' [''instance'', ''type''],
      time_def ''tidb_batch_client_unavailable'' ''tidb_batch_client_unavailable'' [''instance''],
      time_def ''tidb_batch_client_wait'' ''tidb_batch_client_wait'' [''instance''],
      time_def ''tidb_batch_client_wait_conn'' ''tidb_batch_client_wait_conn'' [''instance''],
      time_def ''pd_tso_rpc'' ''pd_tso_rpc'' [''instance''],
      time_def ''pd_tso_wait'' ''pd_tso_wait'' [''instance'']]"

definition GetTiDBTimeConsumeTable_schema :: "'f TableDef" where
  "GetTiDBTimeConsumeTable_schema = table_schema ''TiDB'' ''tidb_time_consume'' [0, 1] [3, 4, 5]
     [''METRIC_NAME'', ''LABEL'', ''TIME_RATIO'', ''TOTAL_TIME'', ''TOTAL_COUNT'', ''P999'', ''P99'', ''P90'', ''P80'']"

definition GetTiDBTimeConsumeTable :: "'f diag_env \<Rightarrow> sql_db \<Rightarrow> string \<Rightarrow> string \<Rightarrow> 'f table_result" where
  "GetTiDBTimeConsumeTable E db startTime endTime =
     (let F = de_float E in fill_table GetTiDBTimeConsumeTable_schema
       (table_rows_of F db (append_time F) (map TimeQuery GetTiDBTimeConsumeTable_defs) (newQueryArg F startTime endTime)))"

definition GetTiKVTotalTimeConsumeTable_defs :: "totalTimeByLabelsTableDef list" where
  "GetTiKVTotalTimeConsumeTable_defs =
     [time_def ''tikv_grpc_message'' ''tikv_grpc_message'' [''instance'', ''type''],
      time_def ''tikv_cop_request'' ''tikv_cop_request'' [''instance'', ''req''],
      time_def ''tikv_cop_handle'' ''tikv_cop_handle'' [''instance'', ''req''],
      time_def ''tikv_cop_wait'' ''tikv_cop_wait'' [''instance'', ''req''],
      time_def ''tikv_scheduler_command'' ''tikv_scheduler_command'' [''instance'', ''type''],
      time_def ''tikv_scheduler_latch_wait'' ''tikv_scheduler_latch_wait'' [''instance'', ''type''],
      time_def ''tikv_storage_async_request'' ''tikv_storage_async_request'' [''instance'', ''type''],
      time_def ''tikv_scheduler_processing_read'' ''tikv_scheduler_processing_read'' [''type''],
      time_def ''tikv_raft_propose_wait'' ''tikv_raftstore_propose_wait'' [''instance''],
      time_def ''tikv_raft_process'' ''tikv_raftstore_process'' [''instance'', ''type''],
      time_def ''tikv_raft_append_log'' ''tikv_raftstore_append_log'' [''instance''],
      time_def ''tikv_raft_commit_log'' ''tikv_raftstore_commit_log'' [''instance''],
      time_def ''tikv_raft_apply_wait'' ''tikv_raftstore_apply_wait'' [''instance''],
      time_def ''tikv_raft_apply_log'' ''tikv_raftstore_apply_log'' [''instance''],
      time_def ''tikv_raft_store_events'' ''tikv_raft_store_events'' [''instance'', ''type''],
      time_def ''tikv_handle_snapshot'' ''tikv_handle_snapshot'' [''instance'', ''type''],
      time_def ''tikv_send_snapshot'' ''tikv_send_snapshot'' [''instance''],
      time_def ''tikv_check_split'' ''tikv_check_split'' [''instance''],
      time_def ''tikv_ingest_sst'' ''tikv_ingest_sst'' [''instance''],
      time_def ''tikv_gc_tasks'' ''tikv_gc_tasks'' [''instance'', ''task''],
      time_def ''tikv_pd_request'' ''tikv_pd_request'' [''instance'', ''type''],
      time_def ''tikv_lock_manager_deadlock_detect'' ''tikv_lock_manager_deadlock_detect'' [''instance''],
      time_def ''tikv_lock_manager_waiter_lifetime'' ''tikv_lock_manager_waiter_lifetime'' [''instance''],
      time_def ''tikv_backup_range'' ''tikv_backup_range'' [''instance'', ''type''],
      time_def ''tikv_backup'' ''tikv_backup'' [''instance'']]"

definition GetTiKVTotalTimeConsumeTable_schema :: "'f TableDef" where
  "GetTiKVTotalTimeConsumeTable_schema = table_schema ''TiKV'' ''tikv_time_consume'' [0, 1] [3, 4, 5]
     [''METRIC_NAME'', ''LABEL'', ''TIME_RATIO'', ''TOTAL_TIME'', ''TOTAL_COUNT'', ''P999'', ''P99'', ''P90'', ''P80'']"

definition GetTiKVTotalTimeConsumeTable :: "'f diag_env \<Rightarrow> sql_db \<Rightarrow> string \<Rightarrow> string \<Rightarrow> 'f table_result" where
  "GetTiKVTotalTimeConsumeTable E db startTime endTime =
     (let F = de_float E in fill_table GetTiKVTotalTimeConsumeTable_schema
       (table_rows_of F db (append_time F) (map TimeQuery GetTiKVTotalTimeConsumeTable_defs) (newQueryArg F startTime endTime)))"

definition GetPDTimeConsumeTable_defs :: "totalTimeByLabelsTableDef list" where
  "GetPDTimeConsumeTable_defs =
     [time_def ''pd_client_cmd'' ''pd_client_cmd'' [''instance'', ''type''],
      time_def ''pd_client_request_rpc'' ''pd_request_rpc'' [''instance'', ''type''],
      time_def ''pd_grpc_completed_commands'' ''pd_grpc_completed_commands'' [''instance'', ''grpc_method''],
      time_def ''pd_operator_finish'' ''pd_operator_finish'' [''type''],
      time_def ''pd_operator_step_finish'' ''pd_operator_step_finish'' [''type''],
      time_def ''pd_handle_transactions'' ''pd_handle_transactions'' [''instance'', ''result''],
      time_def ''pd_region_heartbeat'' ''pd_region_heartbeat'' [''address'', ''store''],
      time_def ''etcd_wal_fsync'' ''etcd_wal_fsync'' [''instance''],
      time_def ''pd_peer_round_trip'' ''pd_peer_round_trip'' [''instance'', ''To'']]"

definition GetPDTimeConsumeTable_schema :: "'f TableDef" where
  "GetPDTimeConsumeTable_schema = table_schema ''PD'' ''pd_time_consume'' [0, 1] [3, 4, 5]
     [''METRIC_NAME'', ''LABEL'', ''TIME_RATIO'', ''TOTAL_TIME'', ''TOTAL_COUNT'', ''P999'', ''P99'', ''P90'', ''P80'']"

definition GetPDTimeConsumeTable :: "'f diag_env \<Rightarrow> sql_db \<Rightarrow> string \<Rightarrow> string \<Rightarrow> 'f table_result" where
  "GetPDTimeConsumeTable E db startTime endTime =
     (let F = de_float E in fill_table GetPDTimeConsumeTable_schema
       (table_rows_of F db (append_reset F) (map TimeQuery GetPDTimeConsumeTable_defs) (newQueryArg F startTime endTime)))"

section \<open>Sums\<close>

definition GetTotalErrorTable_defs :: "sumValueQuery list" where
  "GetTotalErrorTable_defs =
     [sum_def '''' ''tidb_binlog_error_total_count'' [''instance''] '''',
      sum_def '''' ''tidb_handshake_error_total_count'' [''instance''] '''',
      sum_def '''' ''tidb_transaction_retry_error_total_count'' [''sql_type''] '''',
      sum_def '''' ''tidb_kv_region_error_total_count'' [''type''] '''',
      sum_def '''' ''tidb_schema_lease_error_total_count'' [''instance''] '''',
      sum_def '''' ''tikv_grpc_error_total_count'' [''type''] '''',
      sum_def '''' ''tikv_critical_error_total_count'' [''type''] '''',
      sum_def '''' ''tikv_scheduler_is_busy_total_count'' [''type''] '''',
      sum_def '''' ''tikv_channel_full_total_count'' [''type''] '''',
      sum_def '''' ''tikv_coprocessor_request_error_total_count'' [''reason''] '''',
      sum_def '''' ''tikv_engine_write_stall'' [''instance''] '''',
      sum_def '''' ''tikv_server_report_failures_total_count'' [''instance''] '''',
      sum_def ''tikv_storage_async_request_error'' ''tikv_storage_async_requests_total_count'' [''type''] (''status not in ('' @ quoted ''all'' @ '','' @ quoted ''success'' @ '')''),
      sum_def '''' ''tikv_lock_manager_detect_error_total_count'' [''type''] '''',
      sum_def '''' ''tikv_backup_errors_total_count'' [''error''] '''',
      sum_def '''' ''node_network_in_errors_total_count'' [''instance''] '''',
      sum_def '''' ''node_network_out_errors_total_count'' [''instance''] '''']"

definition GetTotalErrorTable_schema :: "'f TableDef" where
  "GetTotalErrorTable_schema = table_schema ''overview'' ''total_error'' [0, 1] [2]
     [''METRIC_NAME'', ''LABEL'', ''TOTAL_COUNT'']"

definition GetTotalErrorTable :: "'f diag_env \<Rightarrow> sql_db \<Rightarrow> string \<Rightarrow> string \<Rightarrow> 'f table_result" where
  "GetTotalErrorTable E db startTime endTime =
     fill_table GetTotalErrorTable_schema (getSumValueTableData (de_float E) db startTime endTime GetTotalErrorTable_defs)"

definition GetTiDBStatisticsInfo_defs :: "sumValueQuery list" where
  "GetTiDBStatisticsInfo_defs =
     [sum_def ''pseudo_estimation_total_count'' ''tidb_statistics_pseudo_estimation_total_count'' [''instance''] '''',
      sum_def ''dump_feedback_total_count'' ''tidb_statistics_dump_feedback_total_count'' [''instance'', ''type''] '''',
      sum_def ''store_query_feedback_total_count'' ''tidb_statistics_store_query_feedback_total_count'' [''instance'', ''type''] '''',
      sum_def ''update_stats_total_count'' ''tidb_statistics_update_stats_total_count'' [''instance'', ''type''] '''']"

definition GetTiDBStatisticsInfo_schema :: "'f TableDef" where
  "GetTiDBStatisticsInfo_schema = table_schema ''TiDB'' ''statistics_info'' [0, 1] [2]
     [''METRIC_NAME'', ''LABEL'', ''TOTAL_COUNT'']"

definition GetTiDBStatisticsInfo :: "'f diag_env \<Rightarrow> sql_db \<Rightarrow> string \<Rightarrow> string \<Rightarrow> 'f table_result" where
  "GetTiDBStatisticsInfo E db startTime endTime =
     fill_table GetTiDBStatisticsInfo_schema (getSumValueTableData (de_float E) db startTime endTime GetTiDBStatisticsInfo_defs)"

definition GetPDSchedulerInfo_defs :: "sumValueQuery list" where
  "GetPDSchedulerInfo_defs =
     [sum_def ''blance-leader-in'' ''pd_scheduler_balance_leader'' [''address''] (''type='' @ quoted ''move-leader'' @ '' and address like '' @ quoted ''%-in''),
      sum_def ''blance-leader-out'' ''pd_scheduler_balance_leader'' [''address''] (''type='' @ quoted ''move-leader'' @ '' and address like '' @ quoted ''%-out''),
      sum_def ''blance-region-in'' ''pd_scheduler_balance_region'' [''address''] (''type='' @ quoted ''move-peer'' @ '' and address like '' @ quoted ''%-in''),
      sum_def ''blance-region-out'' ''pd_scheduler_balance_region'' [''address''] (''type='' @ quoted ''move-peer'' @ '' and address like '' @ quoted ''%-out'')]"

definition GetPDSchedulerInfo_schema :: "'f TableDef" where
  "GetPDSchedulerInfo_schema = table_schema ''PD'' ''balance_leader_region'' [0, 1] [2]
     [''METRIC_NAME'', ''LABEL'', ''TOTAL_COUNT'']"

definition GetPDSchedulerInfo :: "'f diag_env \<Rightarrow> sql_db \<Rightarrow> string \<Rightarrow> string \<Rightarrow> 'f table_result" where
  "GetPDSchedulerInfo E db startTime endTime =
     fill_table GetPDSchedulerInfo_schema (getSumValueTableData (de_float E) db startTime endTime GetPDSchedulerInfo_defs)"

definition GetTiKVGCInfo_defs :: "sumValueQuery list" where
  "GetTiKVGCInfo_defs =
     [sum_def '''' ''tikv_gc_keys_total_num'' [''instance'', ''cf'', ''tag''] '''',
      sum_def ''tidb_gc_worker_action_total_num'' ''tidb_gc_worker_action_opm'' [''instance'', ''type''] '''']"

definition GetTiKVGCInfo_schema :: "'f TableDef" where
  "GetTiKVGCInfo_schema = table_schema ''TiKV'' ''gc_info'' [0, 1] [2]
     [''METRIC_NAME'', ''LABEL'', ''TOTAL_VALUE'']"

definition GetTiKVGCInfo :: "'f diag_env \<Rightarrow> sql_db \<Rightarrow> string \<Rightarrow> string \<Rightarrow> 'f table_result" where
  "GetTiKVGCInfo E db startTime endTime =
     fill_table GetTiKVGCInfo_schema (getSumValueTableData (de_float E) db startTime endTime GetTiKVGCInfo_defs)"

definition GetTiKVTaskInfo_defs :: "sumValueQuery list" where
  "GetTiKVTaskInfo_defs =
     [sum_def '''' ''tikv_worker_handled_tasks_total_num'' [''instance'', ''name''] '''',
      sum_def '''' ''tikv_worker_pending_tasks_total_num'' [''instance'', ''name''] '''',
      sum_def '''' ''tikv_futurepool_handled_tasks_total_num'' [''instance'', ''name''] '''',
      sum_def '''' ''tikv_futurepool_pending_tasks_total_num'' [''instance'', ''name''] '''']"

definition GetTiKVTaskInfo_schema :: "'f TableDef" where
  "GetTiKVTaskInfo_schema = table_schema ''TiKV'' ''task_info'' [0, 1] [2]
     [''METRIC_NAME'', ''LABEL'', ''TOTAL_VALUE'']"

definition GetTiKVTaskInfo :: "'f diag_env \<Rightarrow> sql_db \<Rightarrow> string \<Rightarrow> string \<Rightarrow> 'f table_result" where
  "GetTiKVTaskInfo E db startTime endTime =
     fill_table GetTiKVTaskInfo_schema (getSumValueTableData (de_float E) db startTime endTime GetTiKVTaskInfo_defs)"

definition GetTiKVStoreInfo_defs :: "sumValueQuery list" where
  "GetTiKVStoreInfo_defs =
     [sum_def ''store size'' ''tikv_engine_size'' [''instance'', ''type''] '''']"

definition GetTiKVStoreInfo_schema :: "'f TableDef" where
  "GetTiKVStoreInfo_schema = table_schema ''TiKV'' ''tikv_engine_size'' [0, 1] [2]
     [''METRIC_NAME'', ''LABEL'', ''TOTAL_COUNT'']"

definition GetTiKVStoreInfo :: "'f diag_env \<Rightarrow> sql_db \<Rightarrow> string \<Rightarrow> string \<Rightarrow> 'f table_result" where
  "GetTiKVStoreInfo E db startTime endTime =
     (let F = de_float E in fill_table GetTiKVStoreInfo_schema
       (out_bind (getSumValueTableData F db startTime endTime GetTiKVStoreInfo_defs) (\<lambda>rows.
          Returns (convertFloatToSizeByRows F 2 rows))))"

definition GetTiKVCopInfo_defs :: "sumValueQuery list" where
  "GetTiKVCopInfo_defs =
     [sum_def ''tikv_cop_scan_keys_num'' ''tikv_cop_scan_keys_total_num'' [''instance'', ''req''] '''',
      sum_def '''' ''tikv_cop_total_response_total_size'' [''instance''] '''',
      sum_def ''tikv_cop_scan_num'' ''tikv_cop_scan_details_total'' [''instance'', ''req'', ''tag'', ''cf''] '''']"

definition GetTiKVCopInfo_schema :: "'f TableDef" where
  "GetTiKVCopInfo_schema = table_schema ''TiKV'' ''coprocessor_info'' [0, 1] [2]
     [''METRIC_NAME'', ''LABEL'', ''TOTAL_VALUE'']"

definition append_cop :: "'f gofloat \<Rightarrow> 'f TableRowDef \<Rightarrow> ('f queryArg, 'f TableRowDef) op" where
  "append_cop F row = op_return
     (if length (Values row) = 3 \<and> Values row ! 0 = ''tikv_cop_total_response_total_size''
      then convertFloatToSizeByRow F 2 row else row)"

definition GetTiKVCopInfo :: "'f diag_env \<Rightarrow> sql_db \<Rightarrow> string \<Rightarrow> string \<Rightarrow> 'f table_result" where
  "GetTiKVCopInfo E db startTime endTime =
     (let F = de_float E in fill_table GetTiKVCopInfo_schema
       (table_rows_of F db (append_cop F) (map SumQuery GetTiKVCopInfo_defs) (newQueryArg F startTime endTime)))"

definition GetTiKVRaftInfo_defs :: "sumValueQuery list" where
  "GetTiKVRaftInfo_defs =
     [sum_def '''' ''tikv_raft_sent_messages_total_num'' [''instance'', ''type''] '''',
      sum_def '''' ''tikv_flush_messages_total_num'' [''instance''] '''',
      sum_def '''' ''tikv_receive_messages_total_num'' [''instance''] '''',
      sum_def '''' ''tikv_raft_dropped_messages_total'' [''instance'', ''type''] '''',
      sum_def '''' ''tikv_raft_proposals_total_num'' [''instance'', ''type''] '''']"

definition GetTiKVRaftInfo_schema :: "'f TableDef" where
  "GetTiKVRaftInfo_schema = table_schema ''TiKV'' ''raft_info'' [0, 1] [2]
     [''METRIC_NAME'', ''LABEL'', ''TOTAL_VALUE'']"

definition GetTiKVRaftInfo :: "'f diag_env \<Rightarrow> sql_db \<Rightarrow> string \<Rightarrow> string \<Rightarrow> 'f table_result" where
  "GetTiKVRaftInfo E db startTime endTime =
     (let F = de_float E in fill_table GetTiKVRaftInfo_schema
       (table_rows_of F db op_return (map SumQuery GetTiKVRaftInfo_defs) (newQueryArg F startTime endTime)))"

definition GetTiKVErrorTable_defs :: "sumValueQuery list" where
  "GetTiKVErrorTable_defs =
     [sum_def '''' ''tikv_grpc_error_total_count'' [''instance'', ''type''] '''',
      sum_def '''' ''tikv_critical_error_total_count'' [''instance'', ''type''] '''',
      sum_def '''' ''tikv_scheduler_is_busy_total_count'' [''instance'', ''db'', ''type'', ''stage''] '''',
      sum_def '''' ''tikv_channel_full_total_count'' [''instance'', ''db'', ''type''] '''',
      sum_def '''' ''tikv_coprocessor_request_error_total_count'' [''instance'', ''reason''] '''',
      sum_def '''' ''tikv_engine_write_stall'' [''instance'', ''db''] '''',
      sum_def '''' ''tikv_server_report_failures_total_count'' [''instance''] '''',
      sum_def ''tikv_storage_async_request_error'' ''tikv_storage_async_requests_total_count'' [''instance'', ''status'', ''type''] (''status not in ('' @ quoted ''all'' @ '','' @ quoted ''success'' @ '')''),
      sum_def '''' ''tikv_lock_manager_detect_error_total_count'' [''instance'', ''type''] '''',
      sum_def '''' ''tikv_backup_errors_total_count'' [''instance'', ''error''] '''']"

definition GetTiKVErrorTable_schema :: "'f TableDef" where
  "GetTiKVErrorTable_schema = table_schema ''TiKV'' ''tikv_error'' [0, 1] [2]
     [''METRIC_NAME'', ''LABEL'', ''TOTAL_COUNT'']"

definition GetTiKVErrorTable :: "'f diag_env \<Rightarrow> sql_db \<Rightarrow> string \<Rightarrow> string \<Rightarrow> 'f table_result" where
  "GetTiKVErrorTable E db startTime endTime =
     (let F = de_float E in fill_table GetTiKVErrorTable_schema
       (table_rows_of F db (append_handled (update_cells (convertFloatToInt F) [2])) (map SumQuery GetTiKVErrorTable_defs)
          \<lparr>qa_totalTime = fl_int F 0, qa_startTime = startTime, qa_endTime = endTime, qa_quantiles = []\<rparr>))"

section \<open>Values and counts\<close>

definition pad_cells :: "string list \<Rightarrow> string list" where
  "pad_cells row = row @ replicate (8 - length row) ''''"

definition append_padded :: "'f TableRowDef \<Rightarrow> ('f queryArg, 'f TableRowDef) op" where
  "append_padded = append_handled (\<lambda>row. Returns (pad_cells row))"

definition GetTiDBTxnTableData_defs1 :: "totalValueAndTotalCountTableDef list" where
  "GetTiDBTxnTableData_defs1 =
     [value_def ''tidb_transaction_retry_num'' ''tidb_transaction_retry_num'' ''tidb_transaction_retry_total_num'' ''tidb_transaction_retry_num_total_count'' [''instance''],
      value_def ''tidb_transaction_statement_num'' ''tidb_transaction_statement_num'' ''tidb_transaction_statement_total_num'' ''tidb_transaction_statement_num_total_count'' [''sql_type''],
      value_def ''tidb_txn_region_num'' ''tidb_txn_region_num'' ''tidb_txn_region_total_num'' ''tidb_txn_region_num_total_count'' [''instance''],
      value_def ''tidb_txn_kv_write_num'' ''tidb_kv_write_num'' ''tidb_kv_write_total_num'' ''tidb_kv_write_num_total_count'' [''instance''],
      value_def ''tidb_txn_kv_write_size'' ''tidb_kv_write_size'' ''tidb_kv_write_total_size'' ''tidb_kv_write_size_total_count'' [''instance'']]"

definition GetTiDBTxnTableData_defs2 :: "sumValueQuery list" where
  "GetTiDBTxnTableData_defs2 =
     [sum_def ''tidb_load_safepoint_total_num'' ''tidb_load_safepoint_total_num'' [''type''] '''',
      sum_def ''tidb_lock_resolver_total_num'' ''tidb_lock_resolver_total_num'' [''type''] '''']"

definition GetTiDBTxnTableData_schema :: "'f TableDef" where
  "GetTiDBTxnTableData_schema = table_schema ''TiDB'' ''transaction'' [0, 1] [2, 3, 4, 5]
     [''METRIC_NAME'', ''LABEL'', ''TOTAL_VALUE'', ''TOTAL_COUNT'', ''P999'', ''P99'', ''P90'', ''P80'']"

definition txn_cell :: "'f gofloat \<Rightarrow> string \<Rightarrow> nat \<Rightarrow> string \<Rightarrow> string" where
  "txn_cell F name i v =
     (if length v = 0 then v
      else if name = ''tidb_txn_kv_write_size'' \<and> i \<noteq> 3 then convertFloatToSize F v else convertFloatToInt F v)"

definition txn_cells :: "'f gofloat \<Rightarrow> string list \<Rightarrow> string list" where
  "txn_cells F row =
     (let row = pad_cells row in
      take 2 row @ map (\<lambda>i. txn_cell F (row ! 0) i (row ! i)) [2..<length row])"

definition GetTiDBTxnTableData :: "'f diag_env \<Rightarrow> sql_db \<Rightarrow> string \<Rightarrow> string \<Rightarrow> 'f table_result" where
  "GetTiDBTxnTableData E db startTime endTime =
     (let F = de_float E in fill_table GetTiDBTxnTableData_schema
       (table_rows_of F db (append_handled (\<lambda>row. Returns (txn_cells F row)))
          (map ValueQuery GetTiDBTxnTableData_defs1 @ map SumQuery GetTiDBTxnTableData_defs2) (newQueryArg F startTime endTime)))"

definition GetTiKVSchedulerInfo_defs1 :: "totalValueAndTotalCountTableDef list" where
  "GetTiKVSchedulerInfo_defs1 =
     [value_def ''tikv_scheduler_keys_read'' ''tikv_scheduler_keys_read'' ''tikv_scheduler_keys_total_read'' ''tikv_scheduler_keys_read_total_count'' [''instance'', ''type''],
      value_def ''tikv_scheduler_keys_written'' ''tikv_scheduler_keys_written'' ''tikv_scheduler_keys_total_written'' ''tikv_scheduler_keys_written_total_count'' [''instance'', ''type'']]"

definition GetTiKVSchedulerInfo_defs2 :: "sumValueQuery list" where
  "GetTiKVSchedulerInfo_defs2 =
     [sum_def '''' ''tikv_scheduler_scan_details_total_num'' [''instance'', ''req'', ''tag''] '''',
      sum_def '''' ''tikv_scheduler_stage_total_num'' [''instance'', ''type'', ''stage''] '''']"

definition GetTiKVSchedulerInfo_schema :: "'f TableDef" where
  "GetTiKVSchedulerInfo_schema = table_schema ''TiKV'' ''scheduler_info'' [0, 1] [2, 3, 4, 5]
     [''METRIC_NAME'', ''LABEL'', ''TOTAL_VALUE'', ''TOTAL_COUNT'', ''P999'', ''P99'', ''P90'', ''P80'']"

definition GetTiKVSchedulerInfo :: "'f diag_env \<Rightarrow> sql_db \<Rightarrow> string \<Rightarrow> string \<Rightarrow> 'f table_result" where
  "GetTiKVSchedulerInfo E db startTime endTime =
     (let F = de_float E in fill_table GetTiKVSchedulerInfo_schema
       (table_rows_of F db append_padded (map ValueQuery GetTiKVSchedulerInfo_defs1 @ map SumQuery GetTiKVSchedulerInfo_defs2)
          (newQueryArg F startTime endTime)))"

definition GetTiKVSnapshotInfo_defs1 :: "totalValueAndTotalCountTableDef list" where
  "GetTiKVSnapshotInfo_defs1 =
     [value_def ''tikv_snapshot_kv_count'' ''tikv_snapshot_kv_count'' ''tikv_snapshot_kv_total_count'' ''tikv_snapshot_kv_count_total_count'' [''instance''],
      value_def ''tikv_snapshot_size'' ''tikv_snapshot_size'' ''tikv_snapshot_total_size'' ''tikv_snapshot_size_total_count'' [''instance'']]"

definition GetTiKVSnapshotInfo_defs2 :: "sumValueQuery list" where
  "GetTiKVSnapshotInfo_defs2 =
     [sum_def '''' ''tikv_snapshot_state_total_count'' [''instance'', ''type''] '''']"

definition GetTiKVSnapshotInfo_schema :: "'f TableDef" where
  "GetTiKVSnapshotInfo_schema = table_schema ''TiKV'' ''snapshot_info'' [0, 1] [2, 3, 4, 5]
     [''METRIC_NAME'', ''LABEL'', ''TOTAL_VALUE'', ''TOTAL_COUNT'', ''P999'', ''P99'', ''P90'', ''P80'']"

definition GetTiKVSnapshotInfo :: "'f diag_env \<Rightarrow> sql_db \<Rightarrow> string \<Rightarrow> string \<Rightarrow> 'f table_result" where
  "GetTiKVSnapshotInfo E db startTime endTime =
     (let F = de_float E in fill_table GetTiKVSnapshotInfo_schema
       (table_rows_of F db append_padded (map ValueQuery GetTiKVSnapshotInfo_defs1 @ map SumQuery GetTiKVSnapshotInfo_defs2)
          (newQueryArg F startTime endTime)))"

definition GetTiKVRegionSizeInfo_defs :: "totalValueAndTotalCountTableDef list" where
  "GetTiKVRegionSizeInfo_defs =
     [value_def ''Approximate Region size'' ''tikv_approximate_region_size'' ''tikv_approximate_region_total_size'' ''tikv_approximate_region_size_total_count'' [''instance'']]"

definition GetTiKVRegionSizeInfo_schema :: "'f TableDef" where
  "GetTiKVRegionSizeInfo_schema = table_schema ''TiKV'' ''approximate_region_size'' [0, 1] [2, 3, 4, 5]
     [''METRIC_NAME'', ''LABEL'', ''P99'', ''P90'', ''P80'', ''P50'']"

definition region_cells :: "'f gofloat \<Rightarrow> string list \<Rightarrow> string list" where
  "region_cells F row =
     (let row = (if length row = 8 then take 2 row @ drop 4 row else row) in
      take 2 row @ map (\<lambda>v. if length v = 0 then v else convertFloatToSize F v) (drop 2 row))"

definition GetTiKVRegionSizeInfo :: "'f diag_env \<Rightarrow> sql_db \<Rightarrow> string \<Rightarrow> string \<Rightarrow> 'f table_result" where
  "GetTiKVRegionSizeInfo E db startTime endTime =
     (let F = de_float E in fill_table GetTiKVRegionSizeInfo_schema
       (table_rows_of F db (append_handled (\<lambda>row. Returns (region_cells F row))) (map ValueQuery GetTiKVRegionSizeInfo_defs)
          \<lparr>qa_totalTime = fl_int F 0, qa_startTime = startTime, qa_endTime = endTime,
           qa_quantiles = [fl_dec F 99 2, fl_dec F 90 2, fl_dec F 80 2, fl_dec F 50 2]\<rparr>))"

section \<open>Averages\<close>

text \<open>
  Cells become percentages from the left: a cell that does not parse ends the loop and leaves
  the rest of the row.
\<close>

definition percent :: "'f gofloat \<Rightarrow> 'f \<Rightarrow> string" where
  "percent F f = convertFloatToString F (fl_mul F f (fl_int F 100)) @ ''%''"

text \<open>The row, and whether the loop has come to its end.\<close>

fun percent_loop :: "'f gofloat \<Rightarrow> nat list \<Rightarrow> string list \<Rightarrow> string list \<times> bool" where
  "percent_loop F [] row = (row, True)"
| "percent_loop F (i # ixs) row =
     (case fl_Parse F (row ! i) of Inl _ \<Rightarrow> (row, False) | Inr f \<Rightarrow> percent_loop F ixs (row[i := percent F f]))"

definition percent_cells :: "'f gofloat \<Rightarrow> string list \<Rightarrow> string list" where
  "percent_cells F row = (if length row < 5 then row else fst (percent_loop F [2, 3, 4] row))"

definition map_row_cells :: "(string list \<Rightarrow> string list) \<Rightarrow> 'f TableRowDef \<Rightarrow> 'f TableRowDef" where
  "map_row_cells f row = row\<lparr>Values := f (Values row), SubValues := map f (SubValues row)\<rparr>"

definition GetStoreStatusTable_defs :: "AvgMaxMinTableDef list" where
  "GetStoreStatusTable_defs =
     [avg_def ''region_score'' ''pd_scheduler_store_status'' [''address''] (''type = '' @ quoted ''region_score''),
      avg_def ''leader_score'' ''pd_scheduler_store_status'' [''address''] (''type = '' @ quoted ''leader_score''),
      avg_def ''region_count'' ''pd_scheduler_store_status'' [''address''] (''type = '' @ quoted ''region_count''),
      avg_def ''leader_count'' ''pd_scheduler_store_status'' [''address''] (''type = '' @ quoted ''leader_count''),
      avg_def ''region_size'' ''pd_scheduler_store_status'' [''address''] (''type = '' @ quoted ''region_size''),
      avg_def ''leader_size'' ''pd_scheduler_store_status'' [''address''] (''type = '' @ quoted ''leader_size'')]"

definition GetStoreStatusTable_schema :: "'f TableDef" where
  "GetStoreStatusTable_schema = table_schema ''PD'' ''store_status'' [0, 1] [2, 3, 4]
     [''METRIC_NAME'', ''INSTANCE'', ''AVG'', ''MAX'', ''MIN'']"

definition GetStoreStatusTable :: "'f diag_env \<Rightarrow> sql_db \<Rightarrow> string \<Rightarrow> string \<Rightarrow> 'f table_result" where
  "GetStoreStatusTable E db startTime endTime =
     fill_table GetStoreStatusTable_schema (getAvgValueTableData (de_float E) db startTime endTime GetStoreStatusTable_defs)"

definition GetTiKVCacheHitTable_defs :: "AvgMaxMinTableDef list" where
  "GetTiKVCacheHitTable_defs =
     [avg_def ''tikv_memtable_hit'' ''tikv_memtable_hit'' [''instance''] '''',
      avg_def ''tikv_block_all_cache_hit'' ''tikv_block_all_cache_hit'' [''instance''] '''',
      avg_def ''tikv_block_index_cache_hit'' ''tikv_block_index_cache_hit'' [''instance''] '''',
      avg_def ''tikv_block_filter_cache_hit'' ''tikv_block_filter_cache_hit'' [''instance''] '''',
      avg_def ''tikv_block_data_cache_hit'' ''tikv_block_data_cache_hit'' [''instance''] '''',
      avg_def ''tikv_block_bloom_prefix_cache_hit'' ''tikv_block_bloom_prefix_cache_hit'' [''instance''] '''']"

definition GetTiKVCacheHitTable_schema :: "'f TableDef" where
  "GetTiKVCacheHitTable_schema = table_schema ''TiKV'' ''cache_hit'' [0, 1] [2, 3, 4]
     [''METRIC_NAME'', ''INSTANCE'', ''AVG'', ''MAX'', ''MIN'']"

definition GetTiKVCacheHitTable :: "'f diag_env \<Rightarrow> sql_db \<Rightarrow> string \<Rightarrow> string \<Rightarrow> 'f table_result" where
  "GetTiKVCacheHitTable E db startTime endTime =
     (let F = de_float E in fill_table GetTiKVCacheHitTable_schema
       (out_bind (getAvgValueTableData F db startTime endTime GetTiKVCacheHitTable_defs) (\<lambda>rows.
          Returns (map (map_row_cells (percent_cells F)) rows))))"

definition GetLoadTable_defs :: "AvgMaxMinTableDef list" where
  "GetLoadTable_defs =
     [avg_def ''node_disk_io_utilization'' ''node_disk_io_util'' [''instance'', ''device''] '''',
      avg_def ''node_disk_write_latency'' ''node_disk_write_latency'' [''instance'', ''device''] '''',
      avg_def ''node_disk_read_latency'' ''node_disk_read_latency'' [''instance'', ''device''] '''',
      avg_def ''tikv_disk_read_bytes'' ''tikv_disk_read_bytes'' [''instance'', ''device''] '''',
      avg_def ''tikv_disk_write_bytes'' ''tikv_disk_write_bytes'' [''instance'', ''device''] '''',
      avg_def ''node_network_in_traffic'' ''node_network_in_traffic'' [''instance'', ''device''] '''',
      avg_def ''node_network_out_traffic'' ''node_network_out_traffic'' [''instance'', ''device''] '''',
      avg_def ''node_tcp_in_use'' ''node_tcp_in_use'' [''instance''] '''',
      avg_def ''node_tcp_connections'' ''node_tcp_connections'' [''instance''] '''']"

definition GetLoadTable_schema :: "'f TableDef" where
  "GetLoadTable_schema = table_schema ''load'' ''node_load_info'' [0, 1] [2, 3, 4]
     [''METRIC_NAME'', ''instance'', ''AVG'', ''MAX'', ''MIN'']"

text \<open>\<open>getAvgMaxMinCPUUsage\<close> and \<open>getAvgMaxMinMemoryUsage\<close> share their handling of the answers.\<close>

definition usage_handle :: "'f gofloat \<Rightarrow> string list \<Rightarrow> string list outcome" where
  "usage_handle F row =
     (if length row = 0 then Returns row
      else update_cells (\<lambda>v. if 0 < length v then RoundFloatString F v @ ''%'' else v) [2, 3, 4] row)"

definition usage_row :: "'f gofloat \<Rightarrow> sql_db \<Rightarrow> string \<Rightarrow> string \<Rightarrow> 'f TableRowDef option outcome" where
  "usage_row F db sql detail =
     out_bind (querySQL db sql) (\<lambda>rows. case rows of [] \<Rightarrow> Returns None | row # _ \<Rightarrow>
     out_bind (querySQL db detail) (\<lambda>subRows.
     out_bind (handle_row F (usage_handle F) '''' row subRows) (\<lambda>r. Returns (Some r))))"

definition cpu_sql :: "string \<Rightarrow> string \<Rightarrow> string" where
  "cpu_sql startTime endTime =
     ''select '' @ quoted ''node_cpu_usage'' @ '', '' @ quoted '''' @
     '', 100-avg(value),100-min(value),100-max(value) from metrics_schema.node_cpu_usage '' @
     time_range startTime endTime @ ''  and mode='' @ quoted ''idle''"

definition cpu_detail_sql :: "string \<Rightarrow> string \<Rightarrow> string" where
  "cpu_detail_sql startTime endTime =
     ''select '' @ quoted ''node_cpu_usage'' @
     '', instance, 100-avg(value) as avg_value,100-min(value),100-max(value) from metrics_schema.node_cpu_usage '' @
     time_range startTime endTime @ ''  and mode='' @ quoted ''idle'' @ '' group by instance order by avg_value desc''"

definition getAvgMaxMinCPUUsage :: "'f gofloat \<Rightarrow> sql_db \<Rightarrow> string \<Rightarrow> string \<Rightarrow> 'f TableRowDef option outcome" where
  "getAvgMaxMinCPUUsage F db startTime endTime =
     usage_row F db (cpu_sql startTime endTime) (cpu_detail_sql startTime endTime)"

definition memory_sql :: "string \<Rightarrow> string \<Rightarrow> string" where
  "memory_sql startTime endTime =
     ''select '' @
     quoted ''node_mem_usage'' @
     '','' @
     quoted '''' @
     '', 100*(1-t1.avg_value/t2.total),100*(1-t1.min_value/t2.total), 100*(1-t1.max_value/t2.total) from
			(select avg(value) as avg_value,max(value) as max_value,min(value) as min_value from metrics_schema.node_memory_available '' @
     (time_range startTime endTime @ '' '') @
     '') as t1 join
			(select max(value) as total from metrics_schema.node_total_memory '' @
     (time_range startTime endTime @ '' '') @
     '') as t2;''"

definition memory_detail_sql :: "string \<Rightarrow> string \<Rightarrow> string" where
  "memory_detail_sql startTime endTime =
     ''select '' @
     quoted ''node_mem_usage'' @
     '',t1.instance, 100*(1-t1.avg_value/t2.total) as avg_value, 100*(1-t1.min_value/t2.total), 100*(1-t1.max_value/t2.total)  from
			(select instance, avg(value) as avg_value,max(value) as max_value,min(value) as min_value from metrics_schema.node_memory_available '' @
     (time_range startTime endTime @ '' '') @
     '' GROUP BY instance) as t1 join
			(select instance, max(value) as total from metrics_schema.node_total_memory '' @
     (time_range startTime endTime @ '' '') @
     '' GROUP BY instance) as t2 where t1.instance = t2.instance order by avg_value desc;''"

definition getAvgMaxMinMemoryUsage :: "'f gofloat \<Rightarrow> sql_db \<Rightarrow> string \<Rightarrow> string \<Rightarrow> 'f TableRowDef option outcome" where
  "getAvgMaxMinMemoryUsage F db startTime endTime =
     usage_row F db (memory_sql startTime endTime) (memory_detail_sql startTime endTime)"

text \<open>The cells of the load table, by the name of the metric.\<close>

fun load_loop :: "'f gofloat \<Rightarrow> nat list \<Rightarrow> string list \<Rightarrow> string list" where
  "load_loop F [] row = row"
| "load_loop F (i # ixs) row =
     (if length (row ! i) = 0 then load_loop F ixs row
      else if row ! 0 = ''node_disk_io_utilization'' then
        (case fl_Parse F (row ! i) of Inl _ \<Rightarrow> row | Inr f \<Rightarrow> load_loop F ixs (row[i := percent F f]))
      else if row ! 0 \<in> {''node_disk_write_latency'', ''node_disk_read_latency''} then
        load_loop F ixs (row[i := convertFloatToDuration F (row ! i) (fl_int F 1)])
      else if row ! 0 \<in> {''node_tcp_in_use'', ''node_tcp_connections''} then
        load_loop F ixs (row[i := convertFloatToInt F (row ! i)])
      else load_loop F ixs (row[i := convertFloatToSize F (row ! i)]))"

definition load_cells :: "'f gofloat \<Rightarrow> string list \<Rightarrow> string list" where
  "load_cells F row = (if length row < 5 then row else load_loop F [2, 3, 4] row)"

text \<open>A missing row of CPU or memory usage is dereferenced.\<close>

definition deref_row :: "'f TableRowDef option outcome \<Rightarrow> 'f TableRowDef outcome" where
  "deref_row r = out_bind r opt_out"

definition GetLoadTable :: "'f diag_env \<Rightarrow> sql_db \<Rightarrow> string \<Rightarrow> string \<Rightarrow> 'f table_result" where
  "GetLoadTable E db startTime endTime =
     (let F = de_float E in fill_table GetLoadTable_schema
       (out_bind (deref_row (getAvgMaxMinCPUUsage F db startTime endTime)) (\<lambda>cpu.
        out_bind (deref_row (getAvgMaxMinMemoryUsage F db startTime endTime)) (\<lambda>mem.
        out_bind (getAvgValueTableData F db startTime endTime GetLoadTable_defs) (\<lambda>partRows.
        Returns ([cpu, mem] @ map (map_row_cells (load_cells F)) partRows))))))"

end
