(* ===== verification/DiagPlain.thy ===== *)
theory DiagPlain
  imports DiagMetrics "HOL-Library.AList"
begin

text \<open>
  The tables of the diagnosis report that are filled from the answer of one or two plain
  statements (\<open>pkg/apiserver/diagnose/report.go\<close>, \<open>compare.go\<close>): configuration, connections, CPU
  and memory of processes, slow queries, threads of TiKV, RocksDB times, inspection results and
  the hardware of the hosts.
\<close>

section \<open>Times of the report\<close>

definition GetHeaderTimeTable :: "'f diag_env \<Rightarrow> sql_db \<Rightarrow> string \<Rightarrow> string \<Rightarrow> 'f table_result" where
  "GetHeaderTimeTable E db startTime endTime =
     fill_table (table_schema ''header'' ''report_time_range'' [] [] [''START_TIME'', ''END_TIME''])
       (Returns [row_of (de_float E) [startTime, endTime]])"

definition GetCompareHeaderTimeTable :: "'f gofloat \<Rightarrow> string \<Rightarrow> string \<Rightarrow> string \<Rightarrow> string \<Rightarrow> 'f TableDef" where
  "GetCompareHeaderTimeTable F startTime1 endTime1 startTime2 endTime2 =
     (table_schema ''header'' ''compare_report_time_range'' [] []
        [''T1.START_TIME'', ''T1.END_TIME'', ''T2.START_TIME'', ''T2.END_TIME''])
     \<lparr>Rows := Some [row_of F [startTime1, endTime1, startTime2, endTime2]]\<rparr>"

section \<open>One statement\<close>

definition GetTiDBConnectionCountTable_schema :: "'f TableDef" where
  "GetTiDBConnectionCountTable_schema = table_schema ''TiDB'' ''tidb_connection_count'' [0] [1, 2, 3]
     [''INSTANCE'', ''AVG'', ''MAX'', ''MIN'']"

definition GetTiDBConnectionCountTable_sql :: "string \<Rightarrow> string \<Rightarrow> string" where
  "GetTiDBConnectionCountTable_sql startTime endTime =
     ''select instance, avg(value), max(value), min(value) from metrics_schema.tidb_connection_count where time >= '' @
     quoted startTime @ '' and time < '' @ quoted endTime @ '' group by instance order by avg(value) desc''"

definition GetTiDBConnectionCountTable :: "'f diag_env \<Rightarrow> sql_db \<Rightarrow> string \<Rightarrow> string \<Rightarrow> 'f table_result" where
  "GetTiDBConnectionCountTable E db startTime endTime =
     fill_table GetTiDBConnectionCountTable_schema
       (getSQLRoundRows (de_float E) db (GetTiDBConnectionCountTable_sql startTime endTime) [1, 2, 3] '''')"

definition GetGoroutinesCountTable_schema :: "'f TableDef" where
  "GetGoroutinesCountTable_schema = table_schema ''load'' ''tidb/pd_goroutines_count'' [0, 1] [2, 3, 4]
     [''INSTANCE'', ''JOB'', ''AVG'', ''MAX'', ''MIN'']"

definition GetGoroutinesCountTable_sql :: "string \<Rightarrow> string \<Rightarrow> string" where
  "GetGoroutinesCountTable_sql startTime endTime =
     ''select instance, job, avg(value), max(value), min(value) from metrics_schema.goroutines_count where job in ('' @
     quoted ''tidb'' @ '','' @ quoted ''pd'' @ '') and time >= '' @ quoted startTime @ '' and time < '' @ quoted endTime @
     '' group by instance, job order by avg(value) desc''"

definition GetGoroutinesCountTable :: "'f diag_env \<Rightarrow> sql_db \<Rightarrow> string \<Rightarrow> string \<Rightarrow> 'f table_result" where
  "GetGoroutinesCountTable E db startTime endTime =
     fill_table GetGoroutinesCountTable_schema
       (getSQLRoundRows (de_float E) db (GetGoroutinesCountTable_sql startTime endTime) [2, 3, 4] '''')"

definition GetPDEtcdStatusTable_schema :: "'f TableDef" where
  "GetPDEtcdStatusTable_schema = table_schema ''PD'' ''etcd_status'' [0] [1, 2]
     [''TYPE'', ''MAX'', ''MIN'']"

definition GetPDEtcdStatusTable_sql :: "string \<Rightarrow> string \<Rightarrow> string" where
  "GetPDEtcdStatusTable_sql startTime endTime =
     ''select type, max(value), min(value) from metrics_schema.pd_server_etcd_state where time >= '' @
     quoted startTime @ '' and time < '' @ quoted endTime @ '' group by type''"

definition GetPDEtcdStatusTable :: "'f diag_env \<Rightarrow> sql_db \<Rightarrow> string \<Rightarrow> string \<Rightarrow> 'f table_result" where
  "GetPDEtcdStatusTable E db startTime endTime =
     fill_table GetPDEtcdStatusTable_schema
       (getSQLRoundRows (de_float E) db (GetPDEtcdStatusTable_sql startTime endTime) [1, 2] '''')"

definition GetClusterInfoTable_schema :: "'f TableDef" where
  "GetClusterInfoTable_schema = table_schema ''header'' ''cluster_info'' [0, 1, 2, 3, 4] []
     [''TYPE'', ''INSTANCE'', ''STATUS_ADDRESS'', ''VERSION'', ''GIT_HASH'', ''START_TIME'', ''UPTIME'']"

definition GetClusterInfoTable :: "'f diag_env \<Rightarrow> sql_db \<Rightarrow> string \<Rightarrow> string \<Rightarrow> 'f table_result" where
  "GetClusterInfoTable E db startTime endTime =
     fill_table GetClusterInfoTable_schema
       (getSQLRoundRows (de_float E) db ''select * from information_schema.cluster_info order by type,start_time desc'' [] '''')"

definition GetTiDBDDLOwner_schema :: "'f TableDef" where
  "GetTiDBDDLOwner_schema = table_schema ''TiDB'' ''ddl_owner'' [1] []
     [''MIN_TIME'', ''DDL OWNER'']"

definition GetTiDBDDLOwner_sql :: "string \<Rightarrow> string \<Rightarrow> string" where
  "GetTiDBDDLOwner_sql startTime endTime =
     ''select min(time),instance from metrics_schema.tidb_ddl_worker_total_count where time>='' @
     quoted startTime @ '' and time<'' @ quoted endTime @ '' and value>0 and type='' @ quoted ''run_job'' @
     '' group by instance order by min(time);''"

definition GetTiDBDDLOwner :: "'f diag_env \<Rightarrow> sql_db \<Rightarrow> string \<Rightarrow> string \<Rightarrow> 'f table_result" where
  "GetTiDBDDLOwner E db startTime endTime =
     fill_table GetTiDBDDLOwner_schema (getSQLRows (de_float E) db (GetTiDBDDLOwner_sql startTime endTime))"

definition GetPDConfigChangeInfo_schema :: "'f TableDef" where
  "GetPDConfigChangeInfo_schema = table_schema ''config'' ''scheduler_change_config'' [1] [2]
     [''APPROXIMATE_CHANGE_TIME'', ''CONFIG_ITEM'', ''VALUE'']"

definition GetPDConfigChangeInfo_sql :: "string \<Rightarrow> string \<Rightarrow> string" where
  "GetPDConfigChangeInfo_sql startTime endTime =
     ''select t1.* from
		(select min(time) as time,type,value from metrics_schema.pd_scheduler_config where time>='' @
     quoted startTime @ '' and time<'' @ quoted endTime @
     '' group by type,value order by type) as t1 join
		(select type, count(distinct value) as count from metrics_schema.pd_scheduler_config where time>='' @
     quoted startTime @ '' and time<'' @ quoted endTime @
     '' group by type order by count desc) as t2
		where t1.type=t2.type and t2.count > 1 order by t2.count desc, t1.time;''"

definition GetPDConfigChangeInfo :: "'f diag_env \<Rightarrow> sql_db \<Rightarrow> string \<Rightarrow> string \<Rightarrow> 'f table_result" where
  "GetPDConfigChangeInfo E db startTime endTime =
     fill_table GetPDConfigChangeInfo_schema (getSQLRows (de_float E) db (GetPDConfigChangeInfo_sql startTime endTime))"

definition GetTiDBGCConfigChangeInfo_schema :: "'f TableDef" where
  "GetTiDBGCConfigChangeInfo_schema = table_schema ''config'' ''tidb_gc_change_config'' [1] [2]
     [''APPROXIMATE_CHANGE_TIME'', ''CONFIG_ITEM'', ''VALUE'']"

definition GetTiDBGCConfigChangeInfo_sql :: "string \<Rightarrow> string \<Rightarrow> string" where
  "GetTiDBGCConfigChangeInfo_sql startTime endTime =
     ''select t1.* from
		(select min(time) as time,type,value from metrics_schema.tidb_gc_config where time>='' @
     quoted startTime @ '' and time<'' @ quoted endTime @
     '' and value > 0 group by type,value order by type) as t1 join
		(select type, count(distinct value) as count from metrics_schema.tidb_gc_config where time>='' @
     quoted startTime @ '' and time<'' @ quoted endTime @
     '' and value > 0 group by type order by count desc) as t2
		where t1.type=t2.type and t2.count>1 order by t2.count desc, t1.time;''"

definition GetTiDBGCConfigChangeInfo :: "'f diag_env \<Rightarrow> sql_db \<Rightarrow> string \<Rightarrow> string \<Rightarrow> 'f table_result" where
  "GetTiDBGCConfigChangeInfo E db startTime endTime =
     fill_table GetTiDBGCConfigChangeInfo_schema (getSQLRows (de_float E) db (GetTiDBGCConfigChangeInfo_sql startTime endTime))"

definition GetTiKVRocksDBConfigChangeInfo_schema :: "'f TableDef" where
  "GetTiKVRocksDBConfigChangeInfo_schema = table_schema ''config'' ''tikv_rocksdb_change_config'' [1, 2] [3]
     [''APPROXIMATE_CHANGE_TIME'', ''CONFIG_ITEM'', ''INSTANCE'', ''VALUE'']"

definition GetTiKVRocksDBConfigChangeInfo_sql :: "string \<Rightarrow> string \<Rightarrow> string" where
  "GetTiKVRocksDBConfigChangeInfo_sql startTime endTime =
     ''select t1.* from
		(select min(time) as time,concat(name,'' @ quoted '' , '' @
     '',cf) as name,instance,value from metrics_schema.tikv_config_rocksdb where time>='' @ quoted startTime @
     '' and time<'' @ quoted endTime @
     ''         group by name,cf,instance,value order by name) as t1 join
		(select concat(name,'' @ quoted '' , '' @
     '',cf) as name,instance, count(distinct value) as count from metrics_schema.tikv_config_rocksdb where time>='' @
     quoted startTime @ '' and time<'' @ quoted endTime @
     '' group by name,cf,instance order by count desc) as t2
		where t1.name=t2.name and t1.instance = t2.instance and t2.count>1 order by t1.name,instance, t2.count desc, t1.time;''"

definition GetTiKVRocksDBConfigChangeInfo :: "'f diag_env \<Rightarrow> sql_db \<Rightarrow> string \<Rightarrow> string \<Rightarrow> 'f table_result" where
  "GetTiKVRocksDBConfigChangeInfo E db startTime endTime =
     fill_table GetTiKVRocksDBConfigChangeInfo_schema (getSQLRows (de_float E) db (GetTiKVRocksDBConfigChangeInfo_sql startTime endTime))"

definition GetTiKVRaftStoreConfigChangeInfo_schema :: "'f TableDef" where
  "GetTiKVRaftStoreConfigChangeInfo_schema = table_schema ''config'' ''tikv_raftstore_change_config'' [1, 2] [3]
     [''APPROXIMATE_CHANGE_TIME'', ''CONFIG_ITEM'', ''INSTANCE'', ''VALUE'']"

definition GetTiKVRaftStoreConfigChangeInfo_sql :: "string \<Rightarrow> string \<Rightarrow> string" where
  "GetTiKVRaftStoreConfigChangeInfo_sql startTime endTime =
     ''select t1.* from
		(select min(time) as time,name,instance,value from metrics_schema.tikv_config_raftstore where time>='' @
     quoted startTime @ '' and time<'' @ quoted endTime @
     ''         group by name,instance,value order by name) as t1 join
		(select name,instance, count(distinct value) as count from metrics_schema.tikv_config_raftstore where time>='' @
     quoted startTime @ '' and time<'' @ quoted endTime @
     '' group by name,instance order by count desc) as t2
		where t1.name=t2.name and t1.instance = t2.instance and t2.count>1 order by t1.name,instance,t2.count desc, t1.time;''"

definition GetTiKVRaftStoreConfigChangeInfo :: "'f diag_env \<Rightarrow> sql_db \<Rightarrow> string \<Rightarrow> string \<Rightarrow> 'f table_result" where
  "GetTiKVRaftStoreConfigChangeInfo E db startTime endTime =
     fill_table GetTiKVRaftStoreConfigChangeInfo_schema (getSQLRows (de_float E) db (GetTiKVRaftStoreConfigChangeInfo_sql startTime endTime))"

definition GetTiDBCurrentConfig_schema :: "'f TableDef" where
  "GetTiDBCurrentConfig_schema = table_schema ''config'' ''tidb_current_config'' [] []
     [''KEY'', ''VALUE'']"

definition GetTiDBCurrentConfig_sql :: string where
  "GetTiDBCurrentConfig_sql =
     ''select `key`,`value` from information_schema.CLUSTER_CONFIG where type='' @ quoted ''tidb'' @
     '' group by `key`,`value` order by `key`;''"

definition GetTiDBCurrentConfig :: "'f diag_env \<Rightarrow> sql_db \<Rightarrow> string \<Rightarrow> string \<Rightarrow> 'f table_result" where
  "GetTiDBCurrentConfig E db startTime endTime =
     fill_table GetTiDBCurrentConfig_schema (getSQLRows (de_float E) db GetTiDBCurrentConfig_sql)"

definition GetPDCurrentConfig_schema :: "'f TableDef" where
  "GetPDCurrentConfig_schema = table_schema ''config'' ''pd_current_config'' [] []
     [''KEY'', ''VALUE'']"

definition GetPDCurrentConfig_sql :: string where
  "GetPDCurrentConfig_sql =
     ''select `key`,`value` from information_schema.CLUSTER_CONFIG where type='' @ quoted ''pd'' @
     '' group by `key`,`value` order by `key`;''"

definition GetPDCurrentConfig :: "'f diag_env \<Rightarrow> sql_db \<Rightarrow> string \<Rightarrow> string \<Rightarrow> 'f table_result" where
  "GetPDCurrentConfig E db startTime endTime =
     fill_table GetPDCurrentConfig_schema (getSQLRows (de_float E) db GetPDCurrentConfig_sql)"

definition GetTiKVCurrentConfig_schema :: "'f TableDef" where
  "GetTiKVCurrentConfig_schema = table_schema ''config'' ''tikv_current_config'' [] []
     [''KEY'', ''VALUE'']"

definition GetTiKVCurrentConfig_sql :: string where
  "GetTiKVCurrentConfig_sql =
     ''select `key`,`value` from information_schema.CLUSTER_CONFIG where type='' @ quoted ''tikv'' @
     '' group by `key`,`value` order by `key`;''"

definition GetTiKVCurrentConfig :: "'f diag_env \<Rightarrow> sql_db \<Rightarrow> string \<Rightarrow> string \<Rightarrow> 'f table_result" where
  "GetTiKVCurrentConfig E db startTime endTime =
     fill_table GetTiKVCurrentConfig_schema (getSQLRows (de_float E) db GetTiKVCurrentConfig_sql)"

text \<open>The PD scheduler table keeps its rows \<open>nil\<close> when the answer is empty.\<close>

definition GetPDConfigInfo_schema :: "'f TableDef" where
  "GetPDConfigInfo_schema = table_schema ''config'' ''scheduler_initial_config'' [0, 2] [1]
     [''CONFIG_ITEM'', ''VALUE'', ''CURRENT_VALUE'', ''DIFF_WITH_CURRENT'']"

definition GetPDConfigInfo_sql :: "string \<Rightarrow> string" where
  "GetPDConfigInfo_sql startTime =
     ''select t1.type,t1.value,t2.value,t1.value!=t2.value from
		(select distinct type,value from metrics_schema.pd_scheduler_config where time = '' @
     quoted startTime @
     '' and value>0) as t1 join
		(select distinct type,value from metrics_schema.pd_scheduler_config where time = now() and value>0) as t2
		where t1.type=t2.type order by abs(t2.value-t1.value) desc''"

definition drop_empty :: "'f table_result \<Rightarrow> 'f table_result" where
  "drop_empty r = map_option (\<lambda>(t, err). (if Rows t = Some [] then t\<lparr>Rows := None\<rparr> else t, err)) r"

definition GetPDConfigInfo :: "'f diag_env \<Rightarrow> sql_db \<Rightarrow> string \<Rightarrow> string \<Rightarrow> 'f table_result" where
  "GetPDConfigInfo E db startTime endTime =
     drop_empty (fill_table GetPDConfigInfo_schema (getSQLRows (de_float E) db (GetPDConfigInfo_sql startTime)))"

definition GetTiDBGCConfigInfo_schema :: "'f TableDef" where
  "GetTiDBGCConfigInfo_schema = table_schema ''config'' ''tidb_gc_initial_config'' [0, 2] [1]
     [''CONFIG_ITEM'', ''VALUE'', ''CURRENT_VALUE'', ''DIFF_WITH_CURRENT'']"

definition GetTiDBGCConfigInfo_sql :: "string \<Rightarrow> string" where
  "GetTiDBGCConfigInfo_sql startTime =
     ''select t1.type,t1.value,t2.value,t1.value!=t2.value from
		(select distinct type,value from metrics_schema.tidb_gc_config where time = '' @ quoted startTime @
     '' and value>0) as t1 join
		(select distinct type,value from metrics_schema.tidb_gc_config where time = now() and value>0) as t2
		where t1.type=t2.type order by abs(t2.value-t1.value) desc''"

definition GetTiDBGCConfigInfo :: "'f diag_env \<Rightarrow> sql_db \<Rightarrow> string \<Rightarrow> string \<Rightarrow> 'f table_result" where
  "GetTiDBGCConfigInfo E db startTime endTime =
     fill_table GetTiDBGCConfigInfo_schema (getSQLRows (de_float E) db (GetTiDBGCConfigInfo_sql startTime))"

section \<open>Configuration by instance\<close>

text \<open>
  A configuration item whose value differs between the instances gets their values as rows
  below it; the map of these rows is queried when it is first needed (again if it is empty),
  and the flag of the difference is taken from the first of them that differs.
\<close>

definition add_sub_row :: "'f TableRowDef \<Rightarrow> (string \<times> string list list) list \<Rightarrow> (string \<times> string list list) list" where
  "add_sub_row subRow m =
     (if length (Values subRow) < 6 then m else
      let k = Values subRow ! 0 in
      AList.update k ((case map_of m k of None \<Rightarrow> [] | Some vss \<Rightarrow> vss) @ [Values subRow]) m)"

fun diff_flag :: "string list list \<Rightarrow> string list \<Rightarrow> string list" where
  "diff_flag [] vs = vs"
| "diff_flag (sub # subs) vs =
     (if vs ! 4 \<noteq> ''0'' then vs
      else if length sub \<noteq> 6 then diff_flag subs vs
      else diff_flag subs (vs[4 := sub ! 4]))"

fun config_info_loop ::
  "'f gofloat \<Rightarrow> sql_db \<Rightarrow> string \<Rightarrow> 'f TableRowDef list \<Rightarrow> (string \<times> string list list) list \<Rightarrow> 'f TableRowDef list outcome" where
  "config_info_loop F db sql [] m = Returns []"
| "config_info_loop F db sql (row # rows) m =
     (if length (Values row) < 6 \<or> Values row ! 5 = ''1''
      then out_bind (config_info_loop F db sql rows m) (\<lambda>rs. Returns (row # rs)) else
      out_bind (if length m = 0 then out_bind (getSQLRows F db sql) (\<lambda>subRows. Returns (fold add_sub_row subRows []))
                else Returns m) (\<lambda>m.
      let subs = (case map_of m (Values row ! 0) of None \<Rightarrow> [] | Some vss \<Rightarrow> vss);
          vs = (if 0 < length subs \<and> Values row ! 4 = ''0'' then diff_flag subs (Values row) else Values row) in
      out_bind (config_info_loop F db sql rows m) (\<lambda>rs. Returns (row\<lparr>Values := vs, SubValues := subs\<rparr> # rs))))"

definition GetTiKVRocksDBConfigInfo_schema :: "'f TableDef" where
  "GetTiKVRocksDBConfigInfo_schema = table_schema ''config'' ''tikv_rocksdb_initial_config'' [0, 1, 3] [2]
     [''CONFIG_ITEM'', ''INSTANCE'', ''VALUE'', ''CURRENT_VALUE'', ''DIFF_WITH_CURRENT'', ''DISTINCT_VALUES_IN_INSTANCE'']"

definition GetTiKVRocksDBConfigInfo_sql :: "string \<Rightarrow> string" where
  "GetTiKVRocksDBConfigInfo_sql startTime =
     ''select t1.name,'' @ quoted '''' @
     '', t1.value,t2.value,t1.value!=t2.value, t1.count from
		(select concat(name,'' @ quoted '' , '' @
     '',cf) as name, min(value) as value, count(distinct value) as count from metrics_schema.tikv_config_rocksdb where time = '' @
     quoted startTime @ '' group by cf, name) as t1 join
		(select concat(name,'' @ quoted '' , '' @
     '',cf) as name, min(value) as value from metrics_schema.tikv_config_rocksdb where time = now()   group by cf, name) as t2
		where t1.name=t2.name order by abs(t2.value-t1.value) desc,t1.count desc, t1.name''"

definition GetTiKVRocksDBConfigInfo_sub_sql :: "string \<Rightarrow> string" where
  "GetTiKVRocksDBConfigInfo_sub_sql startTime =
     ''select t1.name,t1.instance,t1.value,t2.value,t1.value!=t2.value, '' @ quoted '''' @
     '' from
			(select concat(name,'' @ quoted '' , '' @
     '',cf) as name,instance, value from metrics_schema.tikv_config_rocksdb where time = '' @
     quoted startTime @ '' group by cf, name, instance, value) as t1 join
			(select concat(name,'' @ quoted '' , '' @
     '',cf) as name,instance, value from metrics_schema.tikv_config_rocksdb where time = now()   group by cf, name, instance, value) as t2
			where t1.name=t2.name and t1.instance = t2.instance order by abs(t2.value-t1.value) desc, t1.name''"

definition GetTiKVRocksDBConfigInfo :: "'f diag_env \<Rightarrow> sql_db \<Rightarrow> string \<Rightarrow> string \<Rightarrow> 'f table_result" where
  "GetTiKVRocksDBConfigInfo E db startTime endTime =
     (let F = de_float E in fill_table GetTiKVRocksDBConfigInfo_schema
       (out_bind (getSQLRows F db (GetTiKVRocksDBConfigInfo_sql startTime)) (\<lambda>rows.
          config_info_loop F db (GetTiKVRocksDBConfigInfo_sub_sql startTime) rows [])))"

definition GetTiKVRaftStoreConfigInfo_schema :: "'f TableDef" where
  "GetTiKVRaftStoreConfigInfo_schema = table_schema ''config'' ''tikv_raftstore_initial_config'' [0, 1, 3] [2]
     [''CONFIG_ITEM'', ''INSTANCE'', ''VALUE'', ''CURRENT_VALUE'', ''DIFF_WITH_CURRENT'', ''DISTINCT_VALUES_IN_INSTANCE'']"

definition GetTiKVRaftStoreConfigInfo_sql :: "string \<Rightarrow> string" where
  "GetTiKVRaftStoreConfigInfo_sql startTime =
     ''select t1.name,'' @ quoted '''' @
     '', t1.value,t2.value,t1.value!=t2.value, t1.count from
		(select name, min(value) as value, count(distinct value) as count from metrics_schema.tikv_config_raftstore where time = '' @
     quoted startTime @
     '' group by name) as t1 join
		(select name, min(value) as value                                 from metrics_schema.tikv_config_raftstore where time = now()   group by name) as t2
		where t1.name=t2.name order by abs(t2.value-t1.value) desc,t1.count desc, t1.name''"

definition GetTiKVRaftStoreConfigInfo_sub_sql :: "string \<Rightarrow> string" where
  "GetTiKVRaftStoreConfigInfo_sub_sql startTime =
     ''select t1.name,t1.instance,t1.value,t2.value,t1.value!=t2.value, '' @ quoted '''' @
     '' from
			(select name,instance, value from metrics_schema.tikv_config_raftstore where time = '' @
     quoted startTime @
     '' group by name, instance, value) as t1 join
			(select name,instance, value from metrics_schema.tikv_config_raftstore where time = now()   group by name, instance, value) as t2
			where t1.name=t2.name and t1.instance = t2.instance order by abs(t2.value-t1.value) desc, t1.name''"

definition GetTiKVRaftStoreConfigInfo :: "'f diag_env \<Rightarrow> sql_db \<Rightarrow> string \<Rightarrow> string \<Rightarrow> 'f table_result" where
  "GetTiKVRaftStoreConfigInfo E db startTime endTime =
     (let F = de_float E in fill_table GetTiKVRaftStoreConfigInfo_schema
       (out_bind (getSQLRows F db (GetTiKVRaftStoreConfigInfo_sql startTime)) (\<lambda>rows.
          config_info_loop F db (GetTiKVRaftStoreConfigInfo_sub_sql startTime) rows [])))"

section \<open>Processes and PD\<close>

definition GetCPUUsageTable_schema :: "'f TableDef" where
  "GetCPUUsageTable_schema = table_schema ''load'' ''process_cpu_usage'' [0, 1] [2, 3, 4]
     [''INSTANCE'', ''JOB'', ''AVG'', ''MAX'', ''MIN'']"

definition GetCPUUsageTable_sql :: "string \<Rightarrow> string \<Rightarrow> string" where
  "GetCPUUsageTable_sql startTime endTime =
     ''select instance, job, avg(value),max(value),min(value) from metrics_schema.process_cpu_usage where time >= '' @
     quoted startTime @ '' and time < '' @ quoted endTime @ '' and job not in ('' @ quoted ''overwritten-nodes'' @ '','' @
     quoted ''overwritten-cluster'' @ '') group by instance, job order by avg(value) desc''"

definition GetCPUUsageTable :: "'f diag_env \<Rightarrow> sql_db \<Rightarrow> string \<Rightarrow> string \<Rightarrow> 'f table_result" where
  "GetCPUUsageTable E db startTime endTime =
     (let F = de_float E in fill_table GetCPUUsageTable_schema
       (out_bind (getSQLRoundRows F db (GetCPUUsageTable_sql startTime endTime) [2, 3, 4] '''') (\<lambda>rows.
          Returns (map (\<lambda>r. r\<lparr>Values := percent_cells F (Values r)\<rparr>) rows))))"

definition GetProcessMemUsageTable_schema :: "'f TableDef" where
  "GetProcessMemUsageTable_schema = table_schema ''load'' ''process_memory_usage'' [0, 1] [2, 3, 4]
     [''INSTANCE'', ''JOB'', ''AVG'', ''MAX'', ''MIN'']"

definition GetProcessMemUsageTable_sql :: "string \<Rightarrow> string \<Rightarrow> string" where
  "GetProcessMemUsageTable_sql startTime endTime =
     ''select instance, job, avg(value),max(value),min(value) from metrics_schema.tidb_process_mem_usage where time >= '' @
     quoted startTime @ '' and time < '' @ quoted endTime @ '' and job not in ('' @ quoted ''overwritten-nodes'' @ '','' @
     quoted ''overwritten-cluster'' @ '') group by instance, job order by avg(value) desc''"

definition size_cells :: "'f gofloat \<Rightarrow> string list \<Rightarrow> string list" where
  "size_cells F row =
     (if length row < 5 then row else fold (\<lambda>i row. row[i := convertFloatToSize F (row ! i)]) [2, 3, 4] row)"

definition GetProcessMemUsageTable :: "'f diag_env \<Rightarrow> sql_db \<Rightarrow> string \<Rightarrow> string \<Rightarrow> 'f table_result" where
  "GetProcessMemUsageTable E db startTime endTime =
     (let F = de_float E in fill_table GetProcessMemUsageTable_schema
       (out_bind (getSQLRoundRows F db (GetProcessMemUsageTable_sql startTime endTime) [2, 3, 4] '''') (\<lambda>rows.
          Returns (map (\<lambda>r. r\<lparr>Values := size_cells F (Values r)\<rparr>) rows))))"

definition GetPDClusterStatusTable_schema :: "'f TableDef" where
  "GetPDClusterStatusTable_schema = table_schema ''PD'' ''cluster_status'' [0] [1, 2]
     [''TYPE'', ''MAX'', ''MIN'']"

definition GetPDClusterStatusTable_sql :: "string \<Rightarrow> string \<Rightarrow> string" where
  "GetPDClusterStatusTable_sql startTime endTime =
     ''select type, max(value), min(value) from metrics_schema.pd_cluster_status where time >= '' @
     quoted startTime @ '' and time < '' @ quoted endTime @ '' group by type''"

definition cluster_status_row :: "'f gofloat \<Rightarrow> 'f TableRowDef \<Rightarrow> 'f TableRowDef" where
  "cluster_status_row F r =
     (let vs = Values r in
      if length vs \<noteq> 3 then r
      else if vs ! 0 = ''leader_count'' then r\<lparr>row_Comment := ''The total number of leader Regions''\<rparr>
      else if vs ! 0 = ''store_up_count'' then r\<lparr>row_Comment := ''The count of healthy stores''\<rparr>
      else if vs ! 0 \<in> {''storage_capacity'', ''storage_size''} then
        r\<lparr>Values := vs[1 := convertFloatToSize F (vs ! 1), 2 := convertFloatToSize F (vs ! 2)]\<rparr>
      else r)"

definition GetPDClusterStatusTable :: "'f diag_env \<Rightarrow> sql_db \<Rightarrow> string \<Rightarrow> string \<Rightarrow> 'f table_result" where
  "GetPDClusterStatusTable E db startTime endTime =
     (let F = de_float E in fill_table GetPDClusterStatusTable_schema
       (out_bind (getSQLRoundRows F db (GetPDClusterStatusTable_sql startTime endTime) [1, 2] '''') (\<lambda>rows.
          Returns (map (cluster_status_row F) rows))))"

section \<open>Slow queries\<close>

definition slow_query_columns :: "string list" where
  "slow_query_columns =
     [''query_time'', ''parse_time'', ''compile_time'', ''prewrite_time'', ''commit_time'', ''process_time'', ''wait_time'', ''backoff_time'', ''cop_proc_max'', ''cop_wait_max'', ''query'']"

definition GetTiDBTopNSlowQuery_schema :: "'f TableDef" where
  "GetTiDBTopNSlowQuery_schema = table_schema ''TiDB'' ''top_10_slow_query'' [] [] slow_query_columns"

definition GetTiDBTopNSlowQuery_sql :: "string \<Rightarrow> string \<Rightarrow> string" where
  "GetTiDBTopNSlowQuery_sql startTime endTime =
     ''select '' @ strings_Join slow_query_columns '','' @
     '' from information_schema.cluster_slow_query where time >= '' @ quoted startTime @ '' and time < '' @
     quoted endTime @ '' order by query_time desc limit 10;''"

definition GetTiDBTopNSlowQuery :: "'f diag_env \<Rightarrow> sql_db \<Rightarrow> string \<Rightarrow> string \<Rightarrow> 'f table_result" where
  "GetTiDBTopNSlowQuery E db startTime endTime =
     (let table = GetTiDBTopNSlowQuery_schema in fill_table table
       (out_bind (getSQLRows (de_float E) db (GetTiDBTopNSlowQuery_sql startTime endTime)) (\<lambda>rows.
          Returns (useSubRowForLongColumnValue rows (length (Column table) - 1)))))"

definition digest_columns :: "string list" where
  "digest_columns =
     map (\<lambda>c. if c = ''*'' then ''count(*)'' else if c = ''query'' then ''min(query)'' else ''sum('' @ c @ '')'')
       (''*'' # slow_query_columns)"

definition GetTiDBTopNSlowQueryGroupByDigest_schema :: "'f TableDef" where
  "GetTiDBTopNSlowQueryGroupByDigest_schema = table_schema ''TiDB'' ''top_10_slow_query_group_by_digest'' [] [] digest_columns"

definition GetTiDBTopNSlowQueryGroupByDigest_sql :: "string \<Rightarrow> string \<Rightarrow> string" where
  "GetTiDBTopNSlowQueryGroupByDigest_sql startTime endTime =
     ''select /*+ AGG_TO_COP(), HASH_AGG() */ '' @ strings_Join digest_columns '','' @
     '' from information_schema.cluster_slow_query where time >= '' @ quoted startTime @ '' and time < '' @
     quoted endTime @ '' group by digest order by sum(query_time) desc limit 10;''"

definition GetTiDBTopNSlowQueryGroupByDigest :: "'f diag_env \<Rightarrow> sql_db \<Rightarrow> string \<Rightarrow> string \<Rightarrow> 'f table_result" where
  "GetTiDBTopNSlowQueryGroupByDigest E db startTime endTime =
     (let table = GetTiDBTopNSlowQueryGroupByDigest_schema in fill_table table
       (out_bind (getSQLRows (de_float E) db (GetTiDBTopNSlowQueryGroupByDigest_sql startTime endTime)) (\<lambda>rows.
          Returns (useSubRowForLongColumnValue rows (length (Column table) - 1)))))"

definition GetTiDBSlowQueryWithDiffPlan_schema :: "'f TableDef" where
  "GetTiDBSlowQueryWithDiffPlan_schema = table_schema ''TiDB'' ''slow_query_with_diff_plan'' [] []
     [''digest'', ''query'']"

definition GetTiDBSlowQueryWithDiffPlan_sql :: "string \<Rightarrow> string \<Rightarrow> string" where
  "GetTiDBSlowQueryWithDiffPlan_sql startTime endTime =
     ''select /*+ AGG_TO_COP(), HASH_AGG() */ digest, min(query) from information_schema.cluster_slow_query where time >= '' @
     quoted startTime @ '' and time < '' @ quoted endTime @
     '' group by digest having max(plan_digest) != min(plan_digest);''"

definition GetTiDBSlowQueryWithDiffPlan :: "'f diag_env \<Rightarrow> sql_db \<Rightarrow> string \<Rightarrow> string \<Rightarrow> 'f table_result" where
  "GetTiDBSlowQueryWithDiffPlan E db startTime endTime =
     fill_table GetTiDBSlowQueryWithDiffPlan_schema
       (out_bind (getSQLRows (de_float E) db (GetTiDBSlowQueryWithDiffPlan_sql startTime endTime)) (\<lambda>rows.
          Returns (useSubRowForLongColumnValue rows 1)))"

definition abnormal_sql :: "string \<Rightarrow> string \<Rightarrow> string \<Rightarrow> string \<Rightarrow> string" where
  "abnormal_sql startTime1 endTime1 startTime2 endTime2 =
     ''select * from
    (select /*+ agg_to_cop(), hash_agg() */ count(*),
         min(time),
         sum(query_time) as sum_query_time,
         sum(process_time) as sum_process_time,
         sum(wait_time) as sum_wait_time,
         sum(commit_time),
         sum(request_count),
         sum(process_keys),
         sum(write_keys),
         max(cop_proc_max),
         min(query),min(prev_stmt),
         digest
    from information_schema.cluster_slow_query
    where time >= '' @ quoted startTime2 @ ''
            and time < '' @ quoted endTime2 @
     ''
            and is_internal = false
    group by  digest) as t1
where t1.digest not in
    (select /*+ agg_to_cop(), hash_agg() */ digest
    from information_schema.cluster_slow_query
    where time >= '' @ quoted startTime1 @ ''
            and time < '' @ quoted endTime1 @
     ''
    group by  digest)
order by  t1.sum_query_time desc limit 10''"

definition getTiDBAbnormalSlowQueryOnly ::
  "'f gofloat \<Rightarrow> sql_db \<Rightarrow> string \<Rightarrow> string \<Rightarrow> string \<Rightarrow> string \<Rightarrow> ('f TableDef \<times> 'f TableRowDef option) outcome" where
  "getTiDBAbnormalSlowQueryOnly F db startTime1 endTime1 startTime2 endTime2 =
     (let sql = abnormal_sql startTime1 endTime1 startTime2 endTime2;
          table = (table_schema ''TiDB'' ''slow_query_t2'' [] []
            [''count(*)'', ''min(time)'', ''sum(query_time)'', ''sum(Process_time)'', ''sum(Wait_time)'', ''sum(Commit_time)'', ''sum(Request_count)'', ''sum(process_keys)'', ''sum(Write_keys)'', ''max(Cop_proc_max)'', ''min(query)'', ''min(prev_stmt)'', ''digest''])\<lparr>Comment := sql\<rparr>
      in case getSQLRows F db sql of
           Panics \<Rightarrow> Panics
         | Fails err \<Rightarrow> Returns (table, Some (row_of F [strings_Join (Category table) '','', Title table, err]))
         | Returns rows \<Rightarrow>
             Returns (table\<lparr>Rows := Some (useSubRowForLongColumnValue rows (length (Column table) - 3))\<rparr>, None))"

section \<open>Inspection results\<close>

definition GetDiagnoseReport_schema :: "'f TableDef" where
  "GetDiagnoseReport_schema = table_schema ''diagnose'' ''diagnose'' [] []
     [''RULE'', ''ITEM'', ''TYPE'', ''INSTANCE'', ''STATUS_ADDRESS'', ''VALUE'', ''REFERENCE'', ''SEVERITY'', ''DETAILS'']"

definition diagnose_sql :: "string \<Rightarrow> string \<Rightarrow> string list \<Rightarrow> string list \<Rightarrow> string" where
  "diagnose_sql startTime endTime cols rules =
     (let sql = ''select /*+ time_range('' @ quoted startTime @ '','' @ quoted endTime @ '') */ '' @ strings_Join cols '','' @
            '' from information_schema.INSPECTION_RESULT'' in
      if 0 < length rules then
        sql @ '' where RULE in ('' @ quoted (strings_Join rules (quote @ '','' @ quote)) @ '')'' else sql)"

text \<open>Rows with the same rule and item are put below the first of them.\<close>

definition diagnose_step ::
  "nat \<Rightarrow> 'f TableRowDef \<Rightarrow> 'f TableRowDef list \<times> (string \<rightharpoonup> nat) \<Rightarrow> 'f TableRowDef list \<times> (string \<rightharpoonup> nat)" where
  "diagnose_step width row = (\<lambda>(newRows, rowIdxMap).
     if length (Values row) < width then (newRows, rowIdxMap) else
     let name = Values row ! 0 @ Values row ! 1 in
     case rowIdxMap name of
       Some ix \<Rightarrow>
         (if ix < length newRows
          then (newRows[ix := (newRows ! ix)\<lparr>SubValues := SubValues (newRows ! ix) @ [Values row]\<rparr>], rowIdxMap)
          else (newRows @ [row], rowIdxMap(name \<mapsto> length newRows)))
     | None \<Rightarrow> (newRows @ [row], rowIdxMap(name \<mapsto> length newRows)))"

definition GetDiagnoseReport :: "'f diag_env \<Rightarrow> sql_db \<Rightarrow> string \<Rightarrow> string \<Rightarrow> string list \<Rightarrow> 'f table_result" where
  "GetDiagnoseReport E db startTime endTime rules =
     (let table = GetDiagnoseReport_schema in fill_table table
       (out_bind (getSQLRows (de_float E) db (diagnose_sql startTime endTime (Column table) rules)) (\<lambda>rows.
          Returns (fst (fold (diagnose_step (length (Column table))) rows ([], Map.empty))))))"

definition GetAllDiagnoseReport :: "'f diag_env \<Rightarrow> sql_db \<Rightarrow> string \<Rightarrow> string \<Rightarrow> 'f table_result" where
  "GetAllDiagnoseReport E db startTime endTime = GetDiagnoseReport E db startTime endTime []"

section \<open>RocksDB times\<close>

record rocksDBDef =
  rd_name :: string
  rd_maxTbl :: string
  rd_tbl :: string
  rd_conditions :: "string list"
  rd_comment :: string

definition rocks_def :: "string \<Rightarrow> string \<Rightarrow> string \<Rightarrow> string list \<Rightarrow> string \<Rightarrow> rocksDBDef" where
  "rocks_def name maxTbl tbl conditions comment =
     \<lparr>rd_name = name, rd_maxTbl = maxTbl, rd_tbl = tbl, rd_conditions = conditions, rd_comment = comment\<rparr>"

definition GetTiKVRocksDBTimeConsumeTable_defs :: "rocksDBDef list" where
  "GetTiKVRocksDBTimeConsumeTable_defs =
     [rocks_def ''get duration'' ''tikv_engine_max_get_duration'' ''tikv_engine_avg_get_duration''
        [''type='' @ quoted ''get_average'', ''type='' @ quoted ''get_max'', ''type='' @ quoted ''get_percentile99'', ''type='' @ quoted ''get_percentile95'']
        ''The time consumed when rocksdb executing get operations'',
      rocks_def ''seek duration'' ''tikv_engine_max_seek_duration'' ''tikv_engine_avg_seek_duration''
        [''type='' @ quoted ''seek_average'', ''type='' @ quoted ''seek_max'', ''type='' @ quoted ''seek_percentile99'', ''type='' @ quoted ''seek_percentile95'']
        ''The time consumed when rocksdb executing seek operations'',
      rocks_def ''write duration'' ''tikv_engine_write_duration'' ''tikv_engine_write_duration''
        [''type='' @ quoted ''write_average'', ''type='' @ quoted ''write_max'', ''type='' @ quoted ''write_percentile99'', ''type='' @ quoted ''write_percentile95'']
        ''The time consumed when rocksdb executing write operations'',
      rocks_def ''WAL sync duration'' ''tikv_wal_sync_max_duration'' ''tikv_wal_sync_duration''
        [''type='' @ quoted ''wal_file_sync_average'', ''type='' @ quoted ''wal_file_sync_max'', ''type='' @ quoted ''wal_file_sync_percentile99'', ''type='' @ quoted ''wal_file_sync_percentile95'']
        ''The time consumed when rocksdb executing WAL sync operations'',
      rocks_def ''compaction duration'' ''tikv_compaction_max_duration'' ''tikv_compaction_duration''
        [''type='' @ quoted ''compaction_time_average'', ''type='' @ quoted ''compaction_time_max'', ''type='' @ quoted ''compaction_time_percentile99'', ''type='' @ quoted ''compaction_time_percentile95'']
        ''The time consumed when rocksdb executing compaction operations'',
      rocks_def ''SST read duration'' ''tikv_sst_read_max_duration'' ''tikv_sst_read_duration''
        [''type='' @ quoted ''sst_read_micros_average'', ''type='' @ quoted ''sst_read_micros_max'', ''type='' @ quoted ''sst_read_micros_percentile99'', ''type='' @ quoted ''sst_read_micros_percentile95'']
        ''The time consumed when rocksdb reading SST files'',
      rocks_def ''write stall duration'' ''tikv_write_stall_max_duration'' ''tikv_write_stall_avg_duration''
        [''type='' @ quoted ''write_stall_average'', ''type='' @ quoted ''write_stall_max'', ''type='' @ quoted ''write_stall_percentile99'', ''type='' @ quoted ''write_stall_percentile95'']
        ''The time which is caused by write stall'']"

definition GetTiKVRocksDBTimeConsumeTable_schema :: "'f TableDef" where
  "GetTiKVRocksDBTimeConsumeTable_schema = table_schema ''TiKV'' ''rocksdb_time_consume'' [0, 1] [2, 3, 4, 5]
     [''METRIC_NAME'', ''LABEL'', ''AVG'', ''MAX'', ''P99'', ''P95'']"

definition rocks_condition :: "string \<Rightarrow> string \<Rightarrow> string \<Rightarrow> string" where
  "rocks_condition startTime endTime cond =
     time_range startTime endTime @ '' '' @ (if 0 < length cond then '' and '' @ cond else '''')"

fun rocks_joins :: "string \<Rightarrow> string \<Rightarrow> string \<Rightarrow> string \<Rightarrow> string \<Rightarrow> string \<Rightarrow> nat \<Rightarrow> string list \<Rightarrow> string" where
  "rocks_joins startTime endTime tbl head as grp i [] = ''''"
| "rocks_joins startTime endTime tbl head as grp i (c # cs) =
     (if i = 0 then ''(select '' @ head @ ''avg(value)'' else ''join (select '' @ head @ ''max(value)'') @ as @
     '' from metrics_schema.'' @ tbl @ '' '' @ rocks_condition startTime endTime c @ grp @ '') as t'' @ dec_digits i @
     '' '' @ rocks_joins startTime endTime tbl head as grp (i + 1) cs"

definition rocks_sql :: "string \<Rightarrow> string \<Rightarrow> rocksDBDef \<Rightarrow> string" where
  "rocks_sql startTime endTime d =
     ''select '' @ quoted (rd_name d) @ '', '' @ quoted '''' @ '', t0.*, t1.*,t2.*,t3.* from '' @
     rocks_joins startTime endTime (rd_tbl d) '''' '''' '''' 0 (rd_conditions d)"

definition rocks_detail_sql :: "string \<Rightarrow> string \<Rightarrow> rocksDBDef \<Rightarrow> string" where
  "rocks_detail_sql startTime endTime d =
     ''select '' @ quoted (rd_name d) @ '', t0.instance, t0.value, t1.value,t2.value,t3.value from '' @
     rocks_joins startTime endTime (rd_tbl d) ''instance, '' '' as value'' '' group by instance'' 0 (rd_conditions d) @
     '' on t0.instance = t1.instance and t1.instance = t2.instance and t2.instance = t3.instance order by t0.value desc''"

definition rocks_cells :: "'f gofloat \<Rightarrow> string list \<Rightarrow> string list" where
  "rocks_cells F row =
     (if length row < 6 then row else
      fold (\<lambda>i row. row[i := convertFloatToDuration F (row ! i) (fl_div F (fl_int F 1) (fl_int F 1000000))]) [2, 3, 4, 5] row)"

fun rocks_rows :: "'f gofloat \<Rightarrow> sql_db \<Rightarrow> string \<Rightarrow> string \<Rightarrow> rocksDBDef list \<Rightarrow> 'f TableRowDef list outcome" where
  "rocks_rows F db startTime endTime [] = Returns []"
| "rocks_rows F db startTime endTime (d # ds) =
     out_bind (querySQL db (rocks_sql startTime endTime d)) (\<lambda>rows. case rows of
       [] \<Rightarrow> rocks_rows F db startTime endTime ds
     | row # _ \<Rightarrow>
         out_bind (querySQL db (rocks_detail_sql startTime endTime d)) (\<lambda>subRows.
         out_bind (rocks_rows F db startTime endTime ds) (\<lambda>rs.
         Returns (row_def F (rocks_cells F row) (map (rocks_cells F) subRows) (rd_comment d) # rs))))"

definition GetTiKVRocksDBTimeConsumeTable :: "'f diag_env \<Rightarrow> sql_db \<Rightarrow> string \<Rightarrow> string \<Rightarrow> 'f table_result" where
  "GetTiKVRocksDBTimeConsumeTable E db startTime endTime =
     fill_table GetTiKVRocksDBTimeConsumeTable_schema
       (rocks_rows (de_float E) db startTime endTime GetTiKVRocksDBTimeConsumeTable_defs)"

section \<open>Threads of TiKV\<close>

definition GetTiKVThreadCPUTable_defs :: "AvgMaxMinTableDef list" where
  "GetTiKVThreadCPUTable_defs =
     [avg_def ''grpc'' ''tikv_thread_cpu'' [''instance''] (''name like '' @ quoted ''grpc%''),
      avg_def ''raftstore'' ''tikv_thread_cpu'' [''instance''] (''name like '' @ quoted ''raftstore_%''),
      avg_def ''Async apply'' ''tikv_thread_cpu'' [''instance''] (''name like '' @ quoted ''apply%''),
      avg_def ''sched_worker'' ''tikv_thread_cpu'' [''instance''] (''name like '' @ quoted ''sched_%''),
      avg_def ''snapshot'' ''tikv_thread_cpu'' [''instance''] (''name like '' @ quoted ''snap%''),
      avg_def ''unified read pool'' ''tikv_thread_cpu'' [''instance''] (''name like '' @ quoted ''unified_read_po%''),
      avg_def ''storage read pool'' ''tikv_thread_cpu'' [''instance''] (''name like '' @ quoted ''store_read%''),
      avg_def ''storage read pool normal'' ''tikv_thread_cpu'' [''instance''] (''name like '' @ quoted ''store_read_norm%''),
      avg_def ''storage read pool high'' ''tikv_thread_cpu'' [''instance''] (''name like '' @ quoted ''store_read_high%''),
      avg_def ''storage read pool low'' ''tikv_thread_cpu'' [''instance''] (''name like '' @ quoted ''store_read_low%''),
      avg_def ''cop'' ''tikv_thread_cpu'' [''instance''] (''name like '' @ quoted ''cop%''),
      avg_def ''cop normal'' ''tikv_thread_cpu'' [''instance''] (''name like '' @ quoted ''cop_normal%''),
      avg_def ''cop high'' ''tikv_thread_cpu'' [''instance''] (''name like '' @ quoted ''cop_high%''),
      avg_def ''cop low'' ''tikv_thread_cpu'' [''instance''] (''name like '' @ quoted ''cop_low%''),
      avg_def ''rocksdb'' ''tikv_thread_cpu'' [''instance''] (''name like '' @ quoted ''rocksdb%''),
      avg_def ''gc'' ''tikv_thread_cpu'' [''instance''] (''name like '' @ quoted ''gc_worker%''),
      avg_def ''split_check'' ''tikv_thread_cpu'' [''instance''] (''name = '' @ quoted ''split_check'')]"

definition GetTiKVThreadCPUTable_schema :: "'f TableDef" where
  "GetTiKVThreadCPUTable_schema = table_schema ''load'' ''tikv_thread_cpu_usage'' [0, 1] [2, 3, 4]
     [''METRIC_NAME'', ''INSTANCE'', ''AVG'', ''MAX'', ''MIN'', ''CONFIG_KEY'', ''CURRENT_CONFIG_VALUE'']"

definition configKeys :: "(string \<times> string) list" where
  "configKeys =
     [(''grpc'', ''server.grpc-concurrency''),
      (''sched_worker'', ''storage.scheduler-worker-pool-size''),
      (''raftstore'', ''raftstore.store-pool-size''),
      (''Async apply'', ''raftstore.apply-pool-size''),
      (''unified read pool'', ''readpool.unified.max-thread-count''),
      (''storage read pool high'', ''readpool.storage.high-concurrency''),
      (''storage read pool low'', ''readpool.storage.low-concurrency''),
      (''storage read pool normal'', ''readpool.storage.normal-concurrency''),
      (''cop high'', ''readpool.coprocessor.high-concurrency''),
      (''cop low'', ''readpool.coprocessor.low-concurrency''),
      (''cop normal'', ''readpool.coprocessor.normal-concurrency'')]"

definition config_key :: "string \<Rightarrow> string" where
  "config_key name = (case map_of configKeys name of None \<Rightarrow> '''' | Some k \<Rightarrow> k)"

text \<open>The statement lists the keys in the order in which Go ranges over the map.\<close>

definition thread_config_sql :: "'f diag_env \<Rightarrow> string" where
  "thread_config_sql E =
     ''select t2.status_address, t1.`key`,t1.value from (select instance, `key`,value from information_schema.cluster_config where type='' @
     quoted ''tikv'' @ '' and `key` in ('' @
     strings_Join (map (\<lambda>name. quoted (config_key name)) (range_order E 0 (map fst configKeys))) '','' @
     '') ) as t1 join (select instance,status_address from information_schema.cluster_info where type='' @ quoted ''tikv'' @
     '') as t2 where t1.instance=t2.instance''"

fun config_values :: "string list list \<Rightarrow> (string \<times> string \<rightharpoonup> string) \<Rightarrow> (string \<times> string \<rightharpoonup> string) outcome" where
  "config_values [] m = Returns m"
| "config_values (row # rows) m =
     (if length row < 3 then Panics else config_values rows (m((row ! 0, row ! 1) \<mapsto> row ! 2)))"

definition thread_cells :: "'f gofloat \<Rightarrow> (string \<times> string \<rightharpoonup> string) \<Rightarrow> string list \<Rightarrow> string list" where
  "thread_cells F cfgMap row =
     (if length row < 7 then row else
      case percent_loop F [2, 3, 4] row of
        (row, False) \<Rightarrow> row
      | (row, True) \<Rightarrow>
          (case cfgMap (row ! 1, config_key (row ! 0)) of
             None \<Rightarrow> row
           | Some cfgValue \<Rightarrow> row[5 := config_key (row ! 0), 6 := cfgValue]))"

definition thread_condition :: "string \<Rightarrow> string \<Rightarrow> AvgMaxMinTableDef \<Rightarrow> string" where
  "thread_condition startTime endTime d =
     time_range startTime endTime @ '' '' @ (if 0 < length (am_condition d) then ''and '' @ am_condition d else '''')"

definition thread_sql :: "string \<Rightarrow> string \<Rightarrow> AvgMaxMinTableDef \<Rightarrow> string" where
  "thread_sql startTime endTime d =
     ''select '' @ quoted (am_name d) @ '', '' @ quoted '''' @ '', avg(sum_value),max(sum_value),min(sum_value),'' @
     quoted '''' @ '','' @ quoted '''' @ '' from ( select sum(value) as sum_value from metrics_schema.'' @ am_tbl d @ '' '' @
     thread_condition startTime endTime d @ '' group by '' @ hd (am_labels d) @ '', time) as t1''"

definition thread_detail_sql :: "string \<Rightarrow> string \<Rightarrow> AvgMaxMinTableDef \<Rightarrow> string" where
  "thread_detail_sql startTime endTime d =
     (let label = hd (am_labels d) in
      ''select '' @ quoted (am_name d) @ '', '' @ label @ '',avg(sum_value),max(sum_value),min(sum_value),'' @
      quoted '''' @ '','' @ quoted '''' @ '' from ( select '' @ label @ '',sum(value) as sum_value from metrics_schema.'' @
      am_tbl d @ '' '' @ thread_condition startTime endTime d @ '' group by '' @ label @ '',time) as t1 group by '' @ label @
      '' order by avg(sum_value) desc'')"

fun thread_rows ::
  "'f gofloat \<Rightarrow> sql_db \<Rightarrow> string \<Rightarrow> string \<Rightarrow> (string \<times> string \<rightharpoonup> string) \<Rightarrow> AvgMaxMinTableDef list \<Rightarrow> 'f TableRowDef list outcome" where
  "thread_rows F db startTime endTime cfgMap [] = Returns []"
| "thread_rows F db startTime endTime cfgMap (d # ds) =
     out_bind (querySQL db (thread_sql startTime endTime d)) (\<lambda>rows. case rows of
       [] \<Rightarrow> thread_rows F db startTime endTime cfgMap ds
     | row # _ \<Rightarrow>
         out_bind (querySQL db (thread_detail_sql startTime endTime d)) (\<lambda>subRows.
         out_bind (thread_rows F db startTime endTime cfgMap ds) (\<lambda>rs.
         Returns (map_row_cells (thread_cells F cfgMap) (row_def F row subRows (am_Comment d)) # rs))))"

definition GetTiKVThreadCPUTable :: "'f diag_env \<Rightarrow> sql_db \<Rightarrow> string \<Rightarrow> string \<Rightarrow> 'f table_result" where
  "GetTiKVThreadCPUTable E db startTime endTime =
     (let F = de_float E in fill_table GetTiKVThreadCPUTable_schema
       (out_bind (querySQL db (thread_config_sql E)) (\<lambda>rows.
        out_bind (config_values rows Map.empty) (\<lambda>cfgMap.
        out_bind (thread_rows F db startTime endTime cfgMap GetTiKVThreadCPUTable_defs) (\<lambda>resultRows.
        Returns (sortRowsByIndex F (de_sort E) 2 resultRows))))))"

end
