(* ===== verification/DiagHardware.thy ===== *)
theory DiagHardware
  imports DiagPlain
begin

text \<open>
  The hardware of the hosts (\<open>GetClusterHardwareInfoTable\<close> in
  \<open>pkg/apiserver/diagnose/report.go\<close>): four statements whose answers are gathered in a map from
  hosts to their hardware. A map is an association list; the orders in which Go ranges over
  the maps come from the environment.
\<close>

section \<open>Numbers and hosts\<close>

text \<open>
  \<open>strconv.Atoi\<close>; its error quotes the text, which is plain for the texts here.
\<close>

definition Atoi :: "string \<Rightarrow> string + int" where
  "Atoi s =
     (case ParseInt s of Some i \<Rightarrow> Inr i
      | None \<Rightarrow>
          let s' = (if take 1 s = ''-'' \<or> take 1 s = ''+'' then tl s else s) in
          Inl (''strconv.Atoi: parsing \"'' @ s @ ''\": '' @
            (if s' = '''' \<or> parse_digits 0 s' = None then ''invalid syntax'' else ''value out of range'')))"

definition err_out :: "string + 'a \<Rightarrow> 'a outcome" where
  "err_out r = (case r of Inl err \<Rightarrow> Fails err | Inr x \<Rightarrow> Returns x)"

text \<open>The text before the first colon; without a colon the slice panics.\<close>

definition host_of :: "string \<Rightarrow> string outcome" where
  "host_of s = (if CHR '':'' \<in> set s then Returns (takeWhile (\<lambda>c. c \<noteq> CHR '':'') s) else Panics)"

fun out_fold :: "('a \<Rightarrow> 's \<Rightarrow> 's outcome) \<Rightarrow> 'a list \<Rightarrow> 's \<Rightarrow> 's outcome" where
  "out_fold f [] s = Returns s"
| "out_fold f (x # xs) s = out_bind (f x s) (out_fold f xs)"

section \<open>The map of the hosts\<close>

record 'f hardWare =
  hw_instance :: string
  hw_Type :: "(string \<times> int) list"
  hw_cpu :: "(string \<times> int) list"
  hw_memory :: 'f
  hw_disk :: "(string \<times> 'f) list"
  hw_uptime :: string

type_synonym 'f hosts = "(string \<times> 'f hardWare) list"

definition new_host :: "'f gofloat \<Rightarrow> string \<Rightarrow> (string \<times> int) list \<Rightarrow> 'f hardWare" where
  "new_host F s types =
     \<lparr>hw_instance = s, hw_Type = types, hw_cpu = [], hw_memory = fl_int F 0, hw_disk = [], hw_uptime = ''''\<rparr>"

definition entry_or :: "'v \<Rightarrow> (string \<times> 'v) list \<Rightarrow> string \<Rightarrow> 'v" where
  "entry_or d m k = (case map_of m k of None \<Rightarrow> d | Some v \<Rightarrow> v)"

definition set_absent :: "string \<Rightarrow> 'v \<Rightarrow> (string \<times> 'v) list \<Rightarrow> (string \<times> 'v) list" where
  "set_absent k v m = (if map_of m k = None then AList.update k v m else m)"

text \<open>Cells are indexed; a short row panics.\<close>

definition cpu_step :: "'f gofloat \<Rightarrow> string list \<Rightarrow> 'f hosts \<Rightarrow> 'f hosts outcome" where
  "cpu_step F row m =
     (if length row < 4 then Panics else
      out_bind (host_of (row ! 0)) (\<lambda>s.
      out_bind (err_out (Atoi (row ! 3))) (\<lambda>cpuCnt.
      let h = entry_or (new_host F s [(row ! 1, 1)]) m s;
          h = h\<lparr>hw_Type := AList.update (row ! 1) (entry_or 0 (hw_Type h) (row ! 1) + 1) (hw_Type h),
                hw_cpu := set_absent (row ! 2) cpuCnt (hw_cpu h)\<rparr>
      in Returns (AList.update s h m))))"

text \<open>A host that is not in the map yet is a \<open>nil\<close> pointer.\<close>

definition memory_step :: "'f gofloat \<Rightarrow> string list \<Rightarrow> 'f hosts \<Rightarrow> 'f hosts outcome" where
  "memory_step F row m =
     (if length row < 2 then Panics else
      out_bind (host_of (row ! 0)) (\<lambda>s.
      out_bind (err_out (fl_Parse F (row ! 1))) (\<lambda>memCnt.
      out_bind (opt_out (map_of m s)) (\<lambda>h.
      Returns (AList.update s (h\<lparr>hw_memory := memCnt\<rparr>) m)))))"

definition disk_step :: "'f gofloat \<Rightarrow> string list \<Rightarrow> 'f hosts \<Rightarrow> 'f hosts outcome" where
  "disk_step F row m =
     (if length row < 3 then Panics else
      out_bind (host_of (row ! 0)) (\<lambda>s.
      out_bind (err_out (fl_Parse F (row ! 2))) (\<lambda>diskCnt.
      out_bind (opt_out (map_of m s)) (\<lambda>h.
      Returns (AList.update s (h\<lparr>hw_disk := set_absent (row ! 1) diskCnt (hw_disk h)\<rparr>) m)))))"

text \<open>A host first seen here is added without its uptime.\<close>

definition uptime_step :: "'f gofloat \<Rightarrow> string list \<Rightarrow> 'f hosts \<Rightarrow> 'f hosts outcome" where
  "uptime_step F row m =
     out_bind (opt_out (idx row 0)) (\<lambda>inst.
     out_bind (host_of inst) (\<lambda>s.
     case map_of m s of
       Some h \<Rightarrow> out_bind (opt_out (idx row 1)) (\<lambda>v. Returns (AList.update s (h\<lparr>hw_uptime := v\<rparr>) m))
     | None \<Rightarrow> Returns (AList.update s (new_host F s []) m)))"

section \<open>The table\<close>

definition hardware_cpu_sql :: string where
  "hardware_cpu_sql =
     ''SELECT instance,type,NAME,VALUE
		FROM information_schema.CLUSTER_HARDWARE
		WHERE device_type='' @ quoted ''cpu'' @ ''
		group by instance,type,VALUE,NAME HAVING NAME = '' @
     quoted ''cpu-physical-cores'' @ ''
		OR NAME = '' @ quoted ''cpu-logical-cores'' @ '' ORDER BY INSTANCE''"

definition hardware_memory_sql :: string where
  "hardware_memory_sql =
     ''SELECT instance,value FROM information_schema.CLUSTER_HARDWARE WHERE device_type='' @
     quoted ''memory'' @ '' and name = '' @ quoted ''capacity'' @ '' group by instance,value''"

definition hardware_disk_sql :: string where
  "hardware_disk_sql =
     ''SELECT `INSTANCE`,`DEVICE_NAME`,`VALUE` from information_schema.CLUSTER_HARDWARE where `NAME` = '' @
     quoted ''total'' @ '' AND `DEVICE_TYPE` = '' @ quoted ''disk'' @ '' AND `DEVICE_NAME` NOT LIKE '' @
     quoted ''%loop%'' @ '' group by instance,device_name,value''"

definition hardware_uptime_sql :: "string \<Rightarrow> string \<Rightarrow> string" where
  "hardware_uptime_sql startTime endTime =
     ''SELECT instance,max(value)/60/60/24
	FROM metrics_schema.node_uptime
	where time >= '' @ quoted startTime @ '' and time < '' @ quoted endTime @ ''
	GROUP BY instance''"

text \<open>A row of the table: the ranges over the two maps of the \<open>j\<close>-th host.\<close>

definition hardware_row :: "'f diag_env \<Rightarrow> nat \<Rightarrow> 'f hardWare \<Rightarrow> string list" where
  "hardware_row E j v =
     (let F = de_float E; gb = fl_int F (1024 * 1024 * 1024) in
      [hw_instance v,
       concat (map (\<lambda>k. k @ ''*'' @ dec_string (entry_or 0 (hw_Type v) k div 2) @ '' '')
         (range_order E (2 * j + 1) (map fst (hw_Type v)))),
       dec_string (entry_or 0 (hw_cpu v) ''cpu-physical-cores'') @ ''/'' @
       dec_string (entry_or 0 (hw_cpu v) ''cpu-logical-cores''),
       fl_Fixed F 6 (fl_div F (hw_memory v) gb),
       concat (map (\<lambda>k. k @ '': '' @ fl_Fixed F 6 (fl_div F (entry_or (fl_int F 0) (hw_disk v) k) gb) @ ''    '')
         (range_order E (2 * j + 2) (map fst (hw_disk v)))),
       hw_uptime v])"

definition gather_hosts :: "'f gofloat \<Rightarrow> sql_db \<Rightarrow> string \<Rightarrow> string \<Rightarrow> 'f hosts outcome" where
  "gather_hosts F db startTime endTime =
     out_bind (querySQL db hardware_cpu_sql) (\<lambda>rows. out_bind (out_fold (cpu_step F) rows []) (\<lambda>m.
     out_bind (querySQL db hardware_memory_sql) (\<lambda>rows. out_bind (out_fold (memory_step F) rows m) (\<lambda>m.
     out_bind (querySQL db hardware_disk_sql) (\<lambda>rows. out_bind (out_fold (disk_step F) rows m) (\<lambda>m.
     out_bind (querySQL db (hardware_uptime_sql startTime endTime)) (\<lambda>rows. out_fold (uptime_step F) rows m)))))))"

definition GetClusterHardwareInfoTable_schema :: "'f TableDef" where
  "GetClusterHardwareInfoTable_schema = table_schema ''header'' ''cluster_hardware'' [] []
     [''HOST'', ''INSTANCE'', ''CPU_CORES'', ''MEMORY (GB)'', ''DISK (GB)'', ''UPTIME (DAY)'']"

definition GetClusterHardwareInfoTable :: "'f diag_env \<Rightarrow> sql_db \<Rightarrow> string \<Rightarrow> string \<Rightarrow> 'f table_result" where
  "GetClusterHardwareInfoTable E db startTime endTime =
     (let F = de_float E in fill_table GetClusterHardwareInfoTable_schema
       (out_bind (gather_hosts F db startTime endTime) (\<lambda>m.
          let order = range_order E 0 (map fst m) in
          Returns (map (\<lambda>j. row_def F (hardware_row E j (entry_or (new_host F '''' []) m (order ! j))) [] '''')
            [0..<length order]))))"

end
