(* ===== verification/DiagInspect.thy ===== *)
theory DiagInspect
  imports DiagHardware
begin

text \<open>
  The comparison of two time ranges by rules (\<open>pkg/apiserver/diagnose/inspection.go\<close>): metrics are
  queried in both ranges and compared label by label; if the queries per second or the latency
  of some instance has become worse, the differences of further metrics and a statement for the
  slow queries are reported.

  \<open>batchAtoi\<close> converts rounded floats to integers (\<open>fl_Int\<close>), which the comparison turns back into floats.
\<close>

section \<open>Metric queries\<close>

record baseQuery =
  bq_table :: string
  bq_labels :: "string list"
  bq_condition :: string

datatype metricQuery = QueryQPS baseQuery | QueryQuantile baseQuery | QueryTotal baseQuery

fun query_base :: "metricQuery \<Rightarrow> baseQuery" where
  "query_base (QueryQPS b) = b"
| "query_base (QueryQuantile b) = b"
| "query_base (QueryTotal b) = b"

text \<open>The values of the three result maps: \<open>avgMaxMin\<close>, \<open>durationValue\<close> and \<open>float64\<close>.\<close>

datatype 'f metricValue = AvgMaxMin int int int | DurationValue 'f 'f | TotalValue 'f

text \<open>The value that is compared, as a float: \<open>float64(v.avg)\<close>, \<open>v.avg\<close> or the total.\<close>

fun metric_avg :: "'f gofloat \<Rightarrow> 'f metricValue \<Rightarrow> 'f" where
  "metric_avg F (AvgMaxMin a b c) = fl_int F a"
| "metric_avg F (DurationValue a b) = a"
| "metric_avg F (TotalValue v) = v"

type_synonym 'f metric_map = "(string \<times> 'f metricValue) list"

definition genCondition :: "baseQuery \<Rightarrow> string \<Rightarrow> string \<Rightarrow> string" where
  "genCondition b startTime endTime =
     time_range startTime endTime @ '' '' @ (if 0 < length (bq_condition b) then ''and '' @ bq_condition b else '''')"

fun field_list :: "nat \<Rightarrow> string list \<Rightarrow> string" where
  "field_list i [] = ''''"
| "field_list i (label # labels) =
     (if 0 < i then '','' else '''') @ ''t1.`'' @ label @ ''`'' @ field_list (i + 1) labels"

definition prepare_sql :: "string \<Rightarrow> string" where
  "prepare_sql step =
     ''set @@tidb_metric_query_step='' @ step @ '';set @@tidb_metric_query_range_duration='' @ step @ '';''"

fun generateSQL :: "metricQuery \<Rightarrow> string \<Rightarrow> string \<Rightarrow> string" where
  "generateSQL (QueryQPS b) startTime endTime =
     (let field = field_list 0 (bq_labels b) in
      prepare_sql ''30'' @ ''select '' @ field @ '', avg(value),max(value),min(value) from (select '' @
      label_columns (bq_labels b) @ '', sum(value) as value from metrics_schema.'' @ bq_table b @ '' '' @
      genCondition b startTime endTime @ '' group by '' @ label_columns (bq_labels b) @ '',time) as t1 group by '' @
      field @ '' having avg(value)>0'')"
| "generateSQL (QueryQuantile b) startTime endTime =
     prepare_sql ''30'' @ ''select '' @ label_columns (bq_labels b) @ '', avg(value),max(value) from metrics_schema.'' @
     bq_table b @ '' '' @ genCondition b startTime endTime @ '' group by '' @ label_columns (bq_labels b)"
| "generateSQL (QueryTotal b) startTime endTime =
     prepare_sql ''60'' @ ''select '' @ label_columns (bq_labels b) @ '', sum(value) as total from metrics_schema.'' @
     bq_table b @ '' '' @ genCondition b startTime endTime @ '' group by '' @ label_columns (bq_labels b) @
     '' having total > 0''"

definition batchAtof :: "'f gofloat \<Rightarrow> string list \<Rightarrow> 'f list outcome" where
  "batchAtof F ss = out_map (\<lambda>s. err_out (fl_Parse F s)) ss"

definition batchAtoi :: "'f gofloat \<Rightarrow> string list \<Rightarrow> int list outcome" where
  "batchAtoi F ss = out_map (\<lambda>s. out_bind (err_out (fl_Parse F s)) (\<lambda>v. Returns (fl_Int F (fl_Round F v)))) ss"

text \<open>The values are indexed after the conversion.\<close>

fun metric_value :: "'f gofloat \<Rightarrow> metricQuery \<Rightarrow> string list \<Rightarrow> 'f metricValue outcome" where
  "metric_value F (QueryQPS b) cells =
     out_bind (batchAtoi F cells) (\<lambda>vs. case vs of a # b # c # _ \<Rightarrow> Returns (AvgMaxMin a b c) | _ \<Rightarrow> Panics)"
| "metric_value F (QueryQuantile b) cells =
     out_bind (batchAtof F cells) (\<lambda>vs. case vs of a # b # _ \<Rightarrow> Returns (DurationValue a b) | _ \<Rightarrow> Panics)"
| "metric_value F (QueryTotal b) cells =
     out_bind (batchAtof F cells) (\<lambda>vs. case vs of a # _ \<Rightarrow> Returns (TotalValue a) | _ \<Rightarrow> Panics)"

definition metric_appendRow ::
  "'f gofloat \<Rightarrow> metricQuery \<Rightarrow> string list \<Rightarrow> 'f metric_map \<Rightarrow> 'f metric_map outcome" where
  "metric_appendRow F q row result =
     (let n = length (bq_labels (query_base q)) in
      if length row < n then Panics else
      out_bind (metric_value F q (drop n row)) (\<lambda>v. Returns (AList.update (strings_Join (take n row) '','') v result)))"

definition queryMetric :: "'f gofloat \<Rightarrow> sql_db \<Rightarrow> metricQuery \<Rightarrow> string \<Rightarrow> string \<Rightarrow> 'f metric_map outcome" where
  "queryMetric F db q startTime endTime =
     out_bind (querySQL db (generateSQL q startTime endTime)) (\<lambda>rows. out_fold (metric_appendRow F q) rows [])"

section \<open>Differences\<close>

record 'f metricDiff =
  md_tp :: string
  md_label :: string
  md_ratio :: 'f
  md_rv :: 'f
  md_v :: 'f

definition calculateDiff :: "'f gofloat \<Rightarrow> 'f \<Rightarrow> 'f \<Rightarrow> 'f" where
  "calculateDiff F refer check = (if \<not> fl_eq F refer (fl_int F 0) then fl_div F check refer else check)"

definition newMetricDiff :: "'f gofloat \<Rightarrow> string \<Rightarrow> string \<Rightarrow> 'f \<Rightarrow> 'f \<Rightarrow> 'f metricDiff" where
  "newMetricDiff F tp label refer check =
     \<lparr>md_tp = tp, md_label = label, md_ratio = calculateDiff F refer check, md_rv = refer, md_v = check\<rparr>"

text \<open>The labels of the current map only; a label that \<open>refer\<close> lacks counts as zero there.\<close>

definition metric_compare ::
  "'f diag_env \<Rightarrow> nat \<Rightarrow> metricQuery \<Rightarrow> 'f metric_map \<Rightarrow> 'f metric_map \<Rightarrow> 'f metricDiff list" where
  "metric_compare E k q refer current =
     (let F = de_float E; get = (\<lambda>m label. case map_of m label of None \<Rightarrow> fl_int F 0 | Some v \<Rightarrow> metric_avg F v) in
      map (\<lambda>label. newMetricDiff F (bq_table (query_base q)) label (get refer label) (get current label))
        (range_order E k (map fst current)))"

datatype compareType = CompareLT | CompareGT

fun checkDiff :: "'f gofloat \<Rightarrow> compareType \<Rightarrow> 'f \<Rightarrow> 'f metricDiff \<Rightarrow> bool" where
  "checkDiff F CompareLT threshold d = fl_less F (md_ratio d) threshold"
| "checkDiff F CompareGT threshold d = fl_less F threshold (md_ratio d)"

definition checkDiffs :: "'f gofloat \<Rightarrow> 'f metricDiff list \<Rightarrow> compareType \<Rightarrow> 'f \<Rightarrow> 'f metricDiff list" where
  "checkDiffs F mds tp threshold = filter (checkDiff F tp threshold) mds"

text \<open>The arrows are the three bytes of their UTF-8 encoding.\<close>

definition metricDiff_String :: "'f gofloat \<Rightarrow> 'f metricDiff \<Rightarrow> string" where
  "metricDiff_String F d =
     md_tp d @ '','' @ md_label d @ '': '' @
     (if fl_less F (fl_int F 1) (md_ratio d) then [CHR 0xE2, CHR 0x86, CHR 0x91] else [CHR 0xE2, CHR 0x86, CHR 0x93]) @
     '' '' @ fl_Fixed F 2 (md_ratio d) @ '' ('' @ fl_Fixed F 2 (md_v d) @ '' / '' @ fl_Fixed F 2 (md_rv d) @ '')''"

definition genMetricDiffsString :: "'f gofloat \<Rightarrow> 'f metricDiff list \<Rightarrow> string list" where
  "genMetricDiffsString F mds = map (metricDiff_String F) mds"

section \<open>The inspection\<close>

record clusterInspection =
  ci_referStartTime :: string
  ci_referEndTime :: string
  ci_startTime :: string
  ci_endTime :: string

definition compareMetric ::
  "'f gofloat \<Rightarrow> sql_db \<Rightarrow> clusterInspection \<Rightarrow> metricQuery \<Rightarrow> ('f metric_map \<times> 'f metric_map) outcome" where
  "compareMetric F db c q =
     out_bind (queryMetric F db q (ci_referStartTime c) (ci_referEndTime c)) (\<lambda>refer.
     out_bind (queryMetric F db q (ci_startTime c) (ci_endTime c)) (\<lambda>current. Returns (refer, current)))"

type_synonym 'f metric_check = "metricQuery \<times> compareType \<times> 'f"

definition check_metric ::
  "'f diag_env \<Rightarrow> sql_db \<Rightarrow> clusterInspection \<Rightarrow> nat \<Rightarrow> 'f metric_check \<Rightarrow> 'f metricDiff list outcome" where
  "check_metric E db c k ck =
     (case ck of (q, ct, threshold) \<Rightarrow>
        out_bind (compareMetric (de_float E) db c q) (\<lambda>(refer, current).
          Returns (checkDiffs (de_float E) (metric_compare E k q refer current) ct threshold)))"

fun run_checks ::
  "'f diag_env \<Rightarrow> sql_db \<Rightarrow> clusterInspection \<Rightarrow> nat \<Rightarrow> 'f metric_check list \<Rightarrow> 'f metricDiff list outcome" where
  "run_checks E db c k [] = Returns []"
| "run_checks E db c k (ck # cks) =
     out_bind (check_metric E db c k ck) (\<lambda>ds. out_bind (run_checks E db c (k + 1) cks) (\<lambda>rest. Returns (ds @ rest)))"

text \<open>A further check that fails is skipped.\<close>

fun run_other_checks ::
  "'f diag_env \<Rightarrow> sql_db \<Rightarrow> clusterInspection \<Rightarrow> nat \<Rightarrow> 'f metric_check list \<Rightarrow> 'f metricDiff list outcome" where
  "run_other_checks E db c k [] = Returns []"
| "run_other_checks E db c k (ck # cks) =
     (case check_metric E db c k ck of
        Panics \<Rightarrow> Panics
      | Fails _ \<Rightarrow> run_other_checks E db c (k + 1) cks
      | Returns ds \<Rightarrow> out_bind (run_other_checks E db c (k + 1) cks) (\<lambda>rest. Returns (ds @ rest)))"

definition quantile_condition :: string where
  "quantile_condition = ''value is not null and quantile=0.999''"

definition base_query :: "string \<Rightarrow> string list \<Rightarrow> string \<Rightarrow> baseQuery" where
  "base_query table labels condition = \<lparr>bq_table = table, bq_labels = labels, bq_condition = condition\<rparr>"

definition qps_query :: metricQuery where
  "qps_query = QueryQPS (base_query ''tidb_qps'' [''instance''] '''')"

definition latency_query :: metricQuery where
  "latency_query = QueryQuantile (base_query ''tidb_query_duration'' [''instance''] quantile_condition)"

definition big_query_checks :: "'f gofloat \<Rightarrow> 'f metric_check list" where
  "big_query_checks F = [(qps_query, CompareLT, fl_dec F 95 2), (latency_query, CompareGT, fl_dec F 12 1)]"

definition other_info_checks :: "'f gofloat \<Rightarrow> 'f metric_check list" where
  "other_info_checks F =
     [(QueryQuantile (base_query ''tidb_cop_duration'' [''instance''] quantile_condition), CompareGT, fl_int F 2),
      (QueryQuantile (base_query ''tidb_kv_write_num'' [''instance''] quantile_condition), CompareGT, fl_int F 2),
      (QueryTotal (base_query ''tikv_cop_scan_keys_total_num'' [''instance''] ''''), CompareGT, fl_int F 2),
      (QueryQuantile (base_query ''tikv_storage_async_request_duration'' [''instance'', ''type''] quantile_condition),
        CompareGT, fl_int F 2),
      (QueryTotal (base_query ''pd_operator_step_finish_total_count'' [''type''] ''''), CompareGT, fl_int F 1)]"

definition big_query_count_sql :: "clusterInspection \<Rightarrow> string" where
  "big_query_count_sql c =
     ''select count(*) from
    (select sum(Process_time) as sum_process_time,
         digest
    from information_schema.CLUSTER_SLOW_QUERY
    where time >= '' @ quoted (ci_startTime c) @ ''
            AND time < '' @ quoted (ci_endTime c) @
     ''
			AND Is_internal = false
    group by  digest) AS t1
	where t1.digest NOT IN
    (select digest
    from information_schema.CLUSTER_SLOW_QUERY
    where time >= '' @ quoted (ci_referStartTime c) @ ''
            and time < '' @
     quoted (ci_referEndTime c) @ ''
    group by  digest);''"

definition big_query_sql :: "clusterInspection \<Rightarrow> string" where
  "big_query_sql c =
     ''select * from
    (select count(*),
         min(time),
         sum(query_time) AS sum_query_time,
         sum(Process_time) AS sum_process_time,
         sum(Wait_time) AS sum_wait_time,
         sum(Commit_time),
         sum(Request_count),
         sum(process_keys),
         sum(Write_keys),
         max(Cop_proc_max),
         min(query),min(prev_stmt),
         digest
    from information_schema.CLUSTER_SLOW_QUERY
    where time >= '' @ quoted (ci_startTime c) @ ''
            and time < '' @ quoted (ci_endTime c) @
     ''
            and Is_internal = false
    group by  digest) AS t1
	where t1.digest NOT IN
    (select digest
    from information_schema.CLUSTER_SLOW_QUERY
    where time >= '' @ quoted (ci_referStartTime c) @ ''
            AND time < '' @
     quoted (ci_referEndTime c) @ ''
    group by  digest)
	order by  t1.sum_query_time desc limit 10;''"

text \<open>The first cell of the first row as a count: no row or no cell gives \<open>None\<close>.\<close>

definition count_cell :: "string list list \<Rightarrow> int option outcome" where
  "count_cell rows =
     (case rows of (v # _) # _ \<Rightarrow> out_bind (err_out (Atoi v)) (\<lambda>n. Returns (Some n)) | _ \<Rightarrow> Returns None)"

definition queryBigQueryInSlowLog :: "sql_db \<Rightarrow> clusterInspection \<Rightarrow> string outcome" where
  "queryBigQueryInSlowLog db c =
     out_bind (querySQL db (big_query_count_sql c)) (\<lambda>rows. out_bind (count_cell rows) (\<lambda>count.
       Returns (if count = None \<or> count = Some 0 then '''' else big_query_sql c)))"

text \<open>\<open>strings.Replace(s, old, new, 1)\<close>\<close>

fun replace_first :: "string \<Rightarrow> string \<Rightarrow> string \<Rightarrow> string" where
  "replace_first old new [] = []"
| "replace_first old new (c # s) =
     (if take (length old) (c # s) = old then new @ drop (length old) (c # s) else c # replace_first old new s)"

definition expensive_sql :: "clusterInspection \<Rightarrow> string" where
  "expensive_sql c =
     ''select count(*) from information_schema.cluster_log where type='' @ quoted ''tidb'' @ '' and time >= '' @
     quoted (ci_startTime c) @ '' and time < '' @ quoted (ci_endTime c) @ '' and level = '' @ quoted ''warn'' @
     '' and message LIKE '' @ quoted ''%expensive_query%''"

definition queryExpensiveQueryInTiDBLog :: "sql_db \<Rightarrow> clusterInspection \<Rightarrow> string outcome" where
  "queryExpensiveQueryInTiDBLog db c =
     out_bind (querySQL db (expensive_sql c)) (\<lambda>rows. out_bind (count_cell rows) (\<lambda>count.
       Returns (if count = None \<or> count = Some 0 then '''' else replace_first ''count(*)'' ''*'' (expensive_sql c))))"

definition slow_query_hint :: string where
  "slow_query_hint = ''try to check the slow query only appear in diagnose time range with sql: '' @ [CHR 0x0A]"

definition detail_statement :: "sql_db \<Rightarrow> clusterInspection \<Rightarrow> string outcome" where
  "detail_statement db c =
     out_bind (queryBigQueryInSlowLog db c) (\<lambda>sql.
       if length sql = 0 then queryExpensiveQueryInTiDBLog db c else Returns sql)"

definition inspectForAffectByBigQuery :: "'f diag_env \<Rightarrow> sql_db \<Rightarrow> clusterInspection \<Rightarrow> string list outcome" where
  "inspectForAffectByBigQuery E db c =
     (let F = de_float E in
      out_bind (run_checks E db c 0 (big_query_checks F)) (\<lambda>totalDiffs.
      if length totalDiffs = 0 then Returns [] else
      out_bind (run_other_checks E db c 2 (other_info_checks F)) (\<lambda>more.
      out_bind (detail_statement db c) (\<lambda>detailSQL.
      Returns (genMetricDiffsString F (totalDiffs @ more) @
               (if 0 < length detailSQL then [slow_query_hint @ detailSQL] else []))))))"

definition CompareDiagnose ::
  "'f diag_env \<Rightarrow> sql_db \<Rightarrow> string \<Rightarrow> string \<Rightarrow> string \<Rightarrow> string \<Rightarrow> ('f TableDef \<times> 'f TableRowDef option) outcome" where
  "CompareDiagnose E db referStartTime referEndTime startTime endTime =
     (let F = de_float E;
          c = \<lparr>ci_referStartTime = referStartTime, ci_referEndTime = referEndTime, ci_startTime = startTime, ci_endTime = endTime\<rparr>;
          table = table_schema ''diagnose'' ''compare_diagnose'' [] [] [''RULE'', ''DETAIL'']
      in case inspectForAffectByBigQuery E db c of
           Panics \<Rightarrow> Panics
         | Fails err \<Rightarrow> Returns (table, Some (row_of F [strings_Join (Category table) '','', Title table, err]))
         | Returns details \<Rightarrow>
             Returns
               (if 0 < length details then
                  table\<lparr>Rows := Some [row_def F [''big-query'', ''may have big query in diagnose time range'']
                     (map (\<lambda>d. ['''', d]) details) ''diagnose for big query/write that affect the qps or duration'']\<rparr>
                else table, None))"

end
