(* ===== verification/DiagCompare.thy ===== *)
theory DiagCompare
  imports DiagTable "HOL-Library.AList"
begin

text \<open>
  The comparison of two runs of the diagnosis report (\<open>pkg/apiserver/diagnose/compare.go\<close>):
  the ratio of two rows, the joined row, the buffer of the greatest differences, the join of
  two tables by their labels (with unique labels, and for configuration tables with repeated
  ones) and the table of the differences.

  The order that \<open>sort.Slice\<close> gives and the order in which Go ranges over a map are
  parameters. The nested deferred function of \<open>compareTableWithNonUniqueKey\<close> recovers
  nothing (Go's \<open>recover\<close> works in a function deferred by the panicking one only), so a panic
  in it reaches the \<open>recover\<close> of \<open>compareTable\<close>.
\<close>

section \<open>The difference of two rows\<close>

record 'f ratio_state =
  rs_ratios :: "'f list"
  rs_maxRatio :: 'f
  rs_needBetter :: bool
  rs_maxIdx :: int

definition cell_float :: "'f gofloat \<Rightarrow> string list \<Rightarrow> nat \<Rightarrow> string + 'f" where
  "cell_float F row ix = (if ix < length row then parseFloat F (row ! ix) else Inr (fl_int F 0))"

definition pair_ratio :: "'f gofloat \<Rightarrow> 'f \<Rightarrow> 'f \<Rightarrow> 'f" where
  "pair_ratio F f1 f2 =
     (let zero = fl_int F 0; one = fl_int F 1 in
      if fl_eq F f1 zero then f2
      else if fl_eq F f2 zero then fl_sub F zero f1
      else if fl_less F f1 f2 then fl_sub F (fl_div F f2 f1) one
      else fl_sub F one (fl_div F f1 f2))"

definition ratio_step :: "'f gofloat \<Rightarrow> nat \<Rightarrow> 'f \<Rightarrow> 'f \<Rightarrow> 'f ratio_state \<Rightarrow> 'f ratio_state" where
  "ratio_step F ix f1 f2 st =
     (let zero = fl_int F 0 in
      if fl_eq F f1 f2 then st\<lparr>rs_ratios := rs_ratios st @ [zero]\<rparr> else
      let ratio = pair_ratio F f1 f2;
          st = st\<lparr>rs_ratios := rs_ratios st @ [ratio]\<rparr>;
          z = fl_eq F f1 zero \<or> fl_eq F f2 zero
      in if z \<and> \<not> fl_eq F (rs_maxRatio st) zero \<and> \<not> rs_needBetter st then st
         else if abs_less F (rs_maxRatio st) ratio \<or> (rs_needBetter st \<and> \<not> z)
         then st\<lparr>rs_maxRatio := ratio, rs_needBetter := z, rs_maxIdx := int ix\<rparr>
         else st)"

fun ratio_loop ::
  "'f gofloat \<Rightarrow> string list \<Rightarrow> string list \<Rightarrow> nat list \<Rightarrow> 'f ratio_state \<Rightarrow> 'f ratio_state outcome" where
  "ratio_loop F row1 row2 [] st = Returns st"
| "ratio_loop F row1 row2 (ix # ixs) st =
     (case cell_float F row1 ix of Inl err \<Rightarrow> Fails err | Inr f1 \<Rightarrow>
     (case cell_float F row2 ix of Inl err \<Rightarrow> Fails err | Inr f2 \<Rightarrow>
        ratio_loop F row1 row2 ixs (ratio_step F ix f1 f2 st)))"

definition calculateDiffRatio ::
  "'f gofloat \<Rightarrow> string list \<Rightarrow> string list \<Rightarrow> 'f TableDef \<Rightarrow> ('f \<times> 'f list \<times> int) outcome" where
  "calculateDiffRatio F row1 row2 table =
     (if length (compareColumns table) = 0 then Returns (fl_int F 0, [], - 1)
      else if length row1 = 0 \<and> length row2 = 0 then Returns (fl_int F 0, [], - 1)
      else out_bind (ratio_loop F row1 row2 (compareColumns table)
              \<lparr>rs_ratios = [], rs_maxRatio = fl_int F 0, rs_needBetter = False, rs_maxIdx = - 1\<rparr>)
           (\<lambda>st. Returns (rs_maxRatio st, rs_ratios st, rs_maxIdx st)))"

section \<open>The joined row\<close>

record 'f newJoinRow =
  jr_row1 :: "string list"
  jr_row2 :: "string list"
  jr_ratio :: 'f
  jr_ratios :: "'f list"

definition ratio_cells :: "'f gofloat \<Rightarrow> 'f newJoinRow \<Rightarrow> 'f TableDef \<Rightarrow> string list" where
  "ratio_cells F r table =
     map (\<lambda>i. convertFloatToString F (if i < length (jr_ratios r) then jr_ratios r ! i else jr_ratio r))
       [0..<length (compareColumns table)]"

text \<open>The loop over \<open>r.row2\<close> when \<open>r.row1\<close> is empty: \<open>newRow\<close> starts with blanks.\<close>

fun blank_loop :: "nat list \<Rightarrow> string list \<Rightarrow> nat \<Rightarrow> string list \<Rightarrow> string list" where
  "blank_loop cols newRow i [] = newRow"
| "blank_loop cols newRow i (v # vs) =
     blank_loop cols (if checkIn i cols then newRow[i := v] else newRow @ [v]) (i + 1) vs"

fun rest_loop :: "nat list \<Rightarrow> nat \<Rightarrow> string list \<Rightarrow> string list" where
  "rest_loop cols i [] = []"
| "rest_loop cols i (v # vs) = (if \<not> checkIn i cols then v # rest_loop cols (i + 1) vs else rest_loop cols (i + 1) vs)"

text \<open>\<open>make\<close> panics on a negative length.\<close>

definition genNewRow :: "'f gofloat \<Rightarrow> 'f newJoinRow \<Rightarrow> 'f TableDef \<Rightarrow> string list outcome" where
  "genNewRow F r table =
     (if length (jr_row1 r) = 0 then
        Returns (blank_loop (joinColumns table) (replicate (length (jr_row2 r)) '''') 0 (jr_row2 r)
                 @ ratio_cells F r table)
      else if length (jr_row2 r) = 0 then
        (if length (jr_row1 r) < length (joinColumns table) then Panics
         else Returns (jr_row1 r @ replicate (length (jr_row1 r) - length (joinColumns table)) ''''
                 @ ratio_cells F r table))
      else Returns (jr_row1 r @ rest_loop (joinColumns table) 0 (jr_row2 r) @ ratio_cells F r table))"

section \<open>The buffer of differences\<close>

record 'f diffRow =
  dr_table :: string
  dr_label :: string
  dr_ratio :: 'f
  dr_ratioIdx :: int
  dr_colName :: string
  dr_v1 :: string
  dr_v2 :: string
  dr_comment :: string

definition diffRows_Less :: "'f gofloat \<Rightarrow> 'f diffRow \<Rightarrow> 'f diffRow \<Rightarrow> bool" where
  "diffRows_Less F a b = abs_less F (dr_ratio a) (dr_ratio b)"

definition appendRow :: "'f gofloat \<Rightarrow> 'f diffRow \<Rightarrow> 'f diffRow list \<Rightarrow> 'f diffRow list" where
  "appendRow F row r =
     (let r = heap_Push (diffRows_Less F) row r in
      if 500 < length r then (case heap_Pop (diffRows_Less F) r of None \<Rightarrow> r | Some (_, r) \<Rightarrow> r) else r)"

definition diff_cell :: "string list \<Rightarrow> int \<Rightarrow> string" where
  "diff_cell vs ix = (if 0 \<le> ix \<and> ix < int (length vs) then vs ! nat ix else '''')"

definition diff_row ::
  "'f TableDef \<Rightarrow> string \<Rightarrow> 'f \<Rightarrow> string list \<Rightarrow> string list \<Rightarrow> int \<Rightarrow> string \<Rightarrow> 'f diffRow" where
  "diff_row table label ratio vs1 vs2 ix comment =
     (let named = (0 < ix \<and> ix < int (length (Column table))) in
      \<lparr>dr_table = strings_Join (Category table) ''-'' @ '', '' @ Title table,
       dr_label = label, dr_ratio = ratio, dr_ratioIdx = ix,
       dr_colName = (if named then Column table ! nat ix else ''''),
       dr_v1 = diff_cell vs1 ix, dr_v2 = diff_cell vs2 ix,
       dr_comment = (if named then comment @ '', the value is '' @ Column table ! nat ix else comment)\<rparr>)"

definition addRow ::
  "'f gofloat \<Rightarrow> 'f TableDef \<Rightarrow> string \<Rightarrow> 'f \<Rightarrow> string list \<Rightarrow> string list \<Rightarrow> int \<Rightarrow> string \<Rightarrow>
   'f diffRow list \<Rightarrow> 'f diffRow list" where
  "addRow F table label ratio vs1 vs2 ix comment r =
     (if fl_eq F ratio (fl_int F 0) then r
      else appendRow F (diff_row table label ratio vs1 vs2 ix comment) r)"

section \<open>Joining two rows\<close>

fun genRowsLablesMap ::
  "'f TableDef \<Rightarrow> string list list \<Rightarrow> (string \<rightharpoonup> string list) \<Rightarrow> (string \<rightharpoonup> string list) outcome" where
  "genRowsLablesMap table [] m = Returns m"
| "genRowsLablesMap table (row # rows) m =
     out_bind (genRowLabel row (joinColumns table)) (\<lambda>label.
       case m label of
         Some _ \<Rightarrow> Fails (''category '' @ strings_Join (Category table) '','' @ '',table '' @ Title table @
                      '' has duplicate join label: '' @ label)
       | None \<Rightarrow> genRowsLablesMap table rows (m(label \<mapsto> row)))"

definition ratio_error :: "'f TableDef \<Rightarrow> string \<Rightarrow> string list \<Rightarrow> string list \<Rightarrow> string" where
  "ratio_error table err row1 row2 =
     ''category '' @ strings_Join (Category table) '','' @ '',table '' @ Title table @
     '', calculate diff ratio error: '' @ err @ '',  '' @ fmt_strings row1 @ '','' @ fmt_strings row2"

definition wrap_error :: "(string \<Rightarrow> string) \<Rightarrow> 'a outcome \<Rightarrow> 'a outcome" where
  "wrap_error f r = (case r of Fails err \<Rightarrow> Fails (f err) | Panics \<Rightarrow> Panics | Returns x \<Rightarrow> Returns x)"

text \<open>The body of the two loops over the sub rows.\<close>

definition join_sub ::
  "'f gofloat \<Rightarrow> 'f TableDef \<Rightarrow> string \<Rightarrow> string list \<Rightarrow> string list \<Rightarrow> string \<Rightarrow> ('f diffRow list, 'f newJoinRow) op" where
  "join_sub F table label subRow1 subRow2 comment =
     op_bind (op_lift (wrap_error (\<lambda>err. ratio_error table err subRow1 subRow2)
                (calculateDiffRatio F subRow1 subRow2 table))) (\<lambda>(ratio, ratios, ix).
     op_bind (op_modify (addRow F table label ratio subRow1 subRow2 ix comment)) (\<lambda>_.
     op_return \<lparr>jr_row1 = subRow1, jr_row2 = subRow2, jr_ratio = ratio, jr_ratios = ratios\<rparr>))"

definition map_cells :: "(string \<rightharpoonup> string list) \<Rightarrow> string \<Rightarrow> string list" where
  "map_cells m label = (case m label of None \<Rightarrow> [] | Some r \<Rightarrow> r)"

fun subs_loop1 ::
  "'f gofloat \<Rightarrow> 'f TableDef \<Rightarrow> (string \<rightharpoonup> string list) \<Rightarrow> string \<Rightarrow> string list list \<Rightarrow>
   ('f diffRow list, 'f newJoinRow list) op" where
  "subs_loop1 F table rowsMap2 comment [] = op_return []"
| "subs_loop1 F table rowsMap2 comment (subRow1 # subs) =
     op_bind (op_lift (genRowLabel subRow1 (joinColumns table))) (\<lambda>label.
     op_bind (join_sub F table label subRow1 (map_cells rowsMap2 label) comment) (\<lambda>r.
     op_bind (subs_loop1 F table rowsMap2 comment subs) (\<lambda>rs. op_return (r # rs))))"

fun subs_loop2 ::
  "'f gofloat \<Rightarrow> 'f TableDef \<Rightarrow> (string \<rightharpoonup> string list) \<Rightarrow> string \<Rightarrow> string list list \<Rightarrow>
   ('f diffRow list, 'f newJoinRow list) op" where
  "subs_loop2 F table rowsMap1 comment [] = op_return []"
| "subs_loop2 F table rowsMap1 comment (subRow2 # subs) =
     op_bind (op_lift (genRowLabel subRow2 (joinColumns table))) (\<lambda>label.
     if rowsMap1 label \<noteq> None then subs_loop2 F table rowsMap1 comment subs else
     op_bind (join_sub F table label [] subRow2 comment) (\<lambda>r.
     op_bind (subs_loop2 F table rowsMap1 comment subs) (\<lambda>rs. op_return (r # rs))))"

definition joinRow ::
  "'f diag_env \<Rightarrow> 'f TableRowDef \<Rightarrow> 'f TableRowDef \<Rightarrow> 'f TableDef \<Rightarrow> ('f diffRow list, 'f TableRowDef) op" where
  "joinRow E row1 row2 table =
     (let F = de_float E in
      op_bind (op_lift (genRowsLablesMap table (SubValues row1) Map.empty)) (\<lambda>rowsMap1.
      op_bind (op_lift (genRowsLablesMap table (SubValues row2) Map.empty)) (\<lambda>rowsMap2.
      op_bind (subs_loop1 F table rowsMap2 (row_Comment row1) (SubValues row1)) (\<lambda>subs1.
      op_bind (subs_loop2 F table rowsMap1 (row_Comment row2) (SubValues row2)) (\<lambda>subs2.
      let subJoinRows = sort_Slice (de_sort E) (\<lambda>a b. abs_less F (jr_ratio b) (jr_ratio a)) (subs1 @ subs2) in
      op_bind (op_map (\<lambda>r. op_lift (genNewRow F r table)) subJoinRows) (\<lambda>resultSubRows.
      op_bind (if length (Values row1) \<noteq> length (Values row2) then op_return (fl_int F 1, [], - 1)
               else op_lift (wrap_error (\<lambda>err. ratio_error table err (Values row1) (Values row2))
                      (calculateDiffRatio F (Values row1) (Values row2) table)))
        (\<lambda>(totalRatio, totalRatios, totalRatioIdx).
      op_bind
        (if SubValues row1 = [] \<and> SubValues row2 = [] then
           op_bind (op_lift
             (if length (Column table) \<le> length (Values row1) then genRowLabel (Values row1) (joinColumns table)
              else if length (Column table) \<le> length (Values row2) then genRowLabel (Values row2) (joinColumns table)
              else Returns '''')) (\<lambda>label.
           op_modify (addRow F table label totalRatio (Values row1) (Values row2) totalRatioIdx (row_Comment row1)))
         else op_return ()) (\<lambda>_.
      op_bind (op_lift (genNewRow F \<lparr>jr_row1 = Values row1, jr_row2 = Values row2,
                 jr_ratio = totalRatio, jr_ratios = totalRatios\<rparr> table)) (\<lambda>vs.
      op_return \<lparr>Values = vs, SubValues = resultSubRows, row_ratio = totalRatio, row_Comment = row_Comment row1\<rparr>)))))))))"

section \<open>Comparing two tables with unique labels\<close>

definition no_join_error :: "'f TableDef \<Rightarrow> string" where
  "no_join_error table =
     ''category '' @ strings_Join (Category table) '','' @ '',table '' @ Title table @ '' doesn't have join columns''"

fun labels_map_loop ::
  "'f TableDef \<Rightarrow> 'f TableRowDef list \<Rightarrow> (string \<rightharpoonup> 'f TableRowDef) \<Rightarrow> (string \<rightharpoonup> 'f TableRowDef) outcome" where
  "labels_map_loop table [] m = Returns m"
| "labels_map_loop table (row # rows) m =
     out_bind (genRowLabel (Values row) (joinColumns table)) (\<lambda>label.
       case m label of
         Some _ \<Rightarrow> Fails (''category '' @ strings_Join (Category table) '','' @ '',table '' @ Title table @
                      '' has duplicate join label: '' @ label)
       | None \<Rightarrow> labels_map_loop table rows (m(label \<mapsto> row)))"

definition getTableLablesMap :: "'f TableDef \<Rightarrow> (string \<rightharpoonup> 'f TableRowDef) outcome" where
  "getTableLablesMap table =
     (if length (joinColumns table) = 0 then Fails (no_join_error table)
      else labels_map_loop table (table_rows table) Map.empty)"

definition map_row :: "'f diag_env \<Rightarrow> (string \<rightharpoonup> 'f TableRowDef) \<Rightarrow> string \<Rightarrow> 'f TableRowDef" where
  "map_row E m label = (case m label of None \<Rightarrow> row_zero (de_float E) | Some r \<Rightarrow> r)"

definition join_left ::
  "'f diag_env \<Rightarrow> 'f TableDef \<Rightarrow> (string \<rightharpoonup> 'f TableRowDef) \<Rightarrow> 'f TableRowDef \<Rightarrow> ('f diffRow list, 'f TableRowDef) op" where
  "join_left E table1 labelsMap2 row1 =
     op_bind (op_lift (genRowLabel (Values row1) (joinColumns table1))) (\<lambda>label1.
       joinRow E row1 (map_row E labelsMap2 label1) table1)"

fun join_rights ::
  "'f diag_env \<Rightarrow> 'f TableDef \<Rightarrow> 'f TableDef \<Rightarrow> (string \<rightharpoonup> 'f TableRowDef) \<Rightarrow> 'f TableRowDef list \<Rightarrow>
   ('f diffRow list, 'f TableRowDef list) op" where
  "join_rights E table1 table2 labelsMap1 [] = op_return []"
| "join_rights E table1 table2 labelsMap1 (row2 # rows) =
     op_bind (op_lift (genRowLabel (Values row2) (joinColumns table2))) (\<lambda>label2.
     if labelsMap1 label2 \<noteq> None then join_rights E table1 table2 labelsMap1 rows else
     op_bind (joinRow E (row_zero (de_float E)) row2 table1) (\<lambda>r.
     op_bind (join_rights E table1 table2 labelsMap1 rows) (\<lambda>rs. op_return (r # rs))))"

text \<open>The columns of the result; the capacity given to \<open>make\<close> must not be negative.\<close>

fun left_columns :: "nat list \<Rightarrow> nat \<Rightarrow> string list \<Rightarrow> string list" where
  "left_columns cols i [] = []"
| "left_columns cols i (c # cs) = (if checkIn i cols then c else ''t1.'' @ c) # left_columns cols (i + 1) cs"

definition joined_columns :: "'f TableDef \<Rightarrow> 'f TableDef \<Rightarrow> string list outcome" where
  "joined_columns table1 table2 =
     (if length (Column table1) * 2 < length (joinColumns table1) then Panics
      else out_bind (opt_out (those_columns (\<lambda>ix. map_option (\<lambda>c. c @ ''_DIFF_RATIO'') (idx (Column table1) ix))
                       (compareColumns table1))) (\<lambda>ratios.
        Returns (left_columns (joinColumns table1) 0 (Column table1) @
                 map (\<lambda>c. ''t2.'' @ c) (rest_loop (joinColumns table2) 0 (Column table2)) @ ratios)))"

definition ratio_formula :: "string \<Rightarrow> string" where
  "ratio_formula c =
     c @ ''_DIFF_RATIO='' @ ''if t2.'' @ c @ '' > t1.'' @ c @ '' => { t2.'' @ c @ '' / t1.'' @ c @
     '' - 1 } else => { 1 - t1.'' @ c @ '' / t2.'' @ c @ '' }''"

definition config_formula :: "string \<Rightarrow> string" where
  "config_formula c =
     c @ ''_DIFF_RATIO='' @ ''(t2.'' @ c @ ''-t1.'' @ c @ '')/max(t2.'' @ c @ '', t1.'' @ c @ '')''"

text \<open>The formulas are appended to the comment of the table, separated by a comma and a newline.\<close>

definition add_formulas :: "(string \<Rightarrow> string) \<Rightarrow> string list \<Rightarrow> string \<Rightarrow> string" where
  "add_formulas formula cs comment =
     fold (\<lambda>c comment. (if 0 < length comment then comment @ '', '' @ [CHR 0x0A] else comment) @ formula c) cs comment"

definition compareTable_body ::
  "'f diag_env \<Rightarrow> 'f TableDef \<Rightarrow> 'f TableDef \<Rightarrow> ('f diffRow list, 'f TableDef) op" where
  "compareTable_body E table1 table2 =
     op_bind (op_lift (getTableLablesMap table1)) (\<lambda>labelsMap1.
     op_bind (op_lift (getTableLablesMap table2)) (\<lambda>labelsMap2.
     op_bind (op_map (join_left E table1 labelsMap2) (table_rows table1)) (\<lambda>lefts.
     op_bind (join_rights E table1 table2 labelsMap1 (table_rows table2)) (\<lambda>rights.
     op_bind (op_lift (joined_columns table1 table2)) (\<lambda>columns.
     let resultRows = sort_Slice (de_sort E) (\<lambda>a b. abs_less (de_float E) (row_ratio b) (row_ratio a)) (lefts @ rights) in
     op_bind (op_lift (opt_out (those_columns (idx (Column table1)) (compareColumns table1)))) (\<lambda>cs.
     op_return \<lparr>Category = Category table1, Title = Title table1,
                Comment = add_formulas ratio_formula cs (Comment table1),
                joinColumns = [], compareColumns = [], Column = columns, Rows = Some resultRows\<rparr>))))))"

section \<open>Comparing two tables whose labels repeat\<close>

type_synonym 'f rows_map = "(string \<times> 'f TableRowDef list) list"

fun rows_map_loop :: "'f TableDef \<Rightarrow> 'f TableRowDef list \<Rightarrow> 'f rows_map \<Rightarrow> 'f rows_map outcome" where
  "rows_map_loop table [] m = Returns m"
| "rows_map_loop table (row # rows) m =
     out_bind (genRowLabel (Values row) (joinColumns table)) (\<lambda>label.
       rows_map_loop table rows
         (AList.update label ((case map_of m label of None \<Rightarrow> [] | Some rs \<Rightarrow> rs) @ [row]) m))"

definition getTableLablesMapWithNonUniqueJoinKey :: "'f TableDef \<Rightarrow> 'f rows_map outcome" where
  "getTableLablesMapWithNonUniqueJoinKey table =
     (if length (joinColumns table) = 0 then Fails (no_join_error table)
      else rows_map_loop table (table_rows table) [])"

text \<open>The row of the second table for a row of the first one.\<close>

definition take_row2 :: "'f diag_env \<Rightarrow> string \<Rightarrow> 'f rows_map \<Rightarrow> 'f TableRowDef \<times> 'f rows_map" where
  "take_row2 E label m =
     (case map_of m label of
        Some (r # rs) \<Rightarrow> (r, if rs = [] then AList.delete label m else AList.update label rs m)
      | _ \<Rightarrow> (row_zero (de_float E), AList.delete label m))"

definition drop_row1 :: "string \<Rightarrow> 'f rows_map \<Rightarrow> 'f rows_map" where
  "drop_row1 label m =
     (case map_of m label of
        Some rs \<Rightarrow> (if length rs \<le> 1 then AList.delete label m else AList.update label (tl rs) m)
      | None \<Rightarrow> m)"

fun config_lefts ::
  "'f diag_env \<Rightarrow> 'f TableDef \<Rightarrow> 'f TableRowDef list \<Rightarrow> 'f rows_map \<Rightarrow> 'f rows_map \<Rightarrow>
   ('f diffRow list, 'f TableRowDef list \<times> 'f rows_map \<times> 'f rows_map) op" where
  "config_lefts E table1 [] m1 m2 = op_return ([], m1, m2)"
| "config_lefts E table1 (row1 # rows) m1 m2 =
     op_bind (op_lift (genRowLabel (Values row1) (joinColumns table1))) (\<lambda>label1.
     let (row2, m2) = take_row2 E label1 m2; m1 = drop_row1 label1 m1 in
     op_bind (joinRow E row1 row2 table1) (\<lambda>r.
     op_bind (config_lefts E table1 rows m1 m2) (\<lambda>(rs, m1, m2). op_return (r # rs, m1, m2))))"

text \<open>
  One \<open>range\<close> over the second map, in the order of its keys at the start: the loop deletes no
  entry but the one it is at. A row of the first table is left only under a label whose rows
  were not all taken above.
\<close>

definition take_row1 :: "'f diag_env \<Rightarrow> string \<Rightarrow> 'f rows_map \<Rightarrow> 'f TableRowDef \<times> 'f rows_map" where
  "take_row1 E label m =
     (case map_of m label of
        Some (r # rs) \<Rightarrow> (r, AList.update label rs m)
      | _ \<Rightarrow> (row_zero (de_float E), AList.delete label m))"

fun config_range ::
  "'f diag_env \<Rightarrow> 'f TableDef \<Rightarrow> string list \<Rightarrow> 'f rows_map \<Rightarrow> 'f rows_map \<Rightarrow>
   ('f diffRow list, 'f TableRowDef list \<times> 'f rows_map \<times> 'f rows_map) op" where
  "config_range E table1 [] m1 m2 = op_return ([], m1, m2)"
| "config_range E table1 (label # labels) m1 m2 =
     (case map_of m2 label of
        None \<Rightarrow> config_range E table1 labels m1 m2
      | Some [] \<Rightarrow> config_range E table1 labels m1 (AList.delete label m2)
      | Some (row2 # rest) \<Rightarrow>
          let m2 = (if rest = [] then AList.delete label m2 else AList.update label rest m2);
              (row1, m1) = take_row1 E label m1 in
          op_bind (joinRow E row1 row2 table1) (\<lambda>r.
          op_bind (config_range E table1 labels m1 m2) (\<lambda>(rs, m1, m2). op_return (r # rs, m1, m2))))"

text \<open>\<open>for len(labelsMap2) > 0\<close>, with the number of rounds as fuel.\<close>

fun config_rights ::
  "nat \<Rightarrow> 'f diag_env \<Rightarrow> 'f TableDef \<Rightarrow> nat \<Rightarrow> 'f rows_map \<Rightarrow> 'f rows_map \<Rightarrow> ('f diffRow list, 'f TableRowDef list option) op" where
  "config_rights 0 E table1 k m1 m2 = op_return (if m2 = [] then Some [] else None)"
| "config_rights (Suc fuel) E table1 k m1 m2 =
     (if m2 = [] then op_return (Some []) else
      op_bind (config_range E table1 (range_order E k (map fst m2)) m1 m2) (\<lambda>(rs, m1, m2).
      op_bind (config_rights fuel E table1 (k + 1) m1 m2) (\<lambda>more. op_return (map_option (\<lambda>rs'. rs @ rs') more))))"

definition config_Less :: "nat list \<Rightarrow> 'f TableRowDef \<Rightarrow> 'f TableRowDef \<Rightarrow> bool" where
  "config_Less cols a b =
     (case cols of [] \<Rightarrow> False
      | ix # _ \<Rightarrow>
        if ix + 1 < length (Values a) \<and> ix + 1 < length (Values b) then
          (if Values a ! ix \<noteq> Values b ! ix then Values a ! ix < Values b ! ix
           else Values a ! 0 < Values b ! 0)
        else False)"

text \<open>\<open>None\<close> is a loop that has not ended within the fuel.\<close>

definition compareTableWithNonUniqueKey ::
  "nat \<Rightarrow> 'f diag_env \<Rightarrow> 'f TableDef \<Rightarrow> 'f TableDef \<Rightarrow> ('f diffRow list, 'f TableDef option) op" where
  "compareTableWithNonUniqueKey fuel E table1 table2 =
     op_bind (op_lift (getTableLablesMapWithNonUniqueJoinKey table1)) (\<lambda>m1.
     op_bind (op_lift (getTableLablesMapWithNonUniqueJoinKey table2)) (\<lambda>m2.
     op_bind (config_lefts E table1 (table_rows table1) m1 m2) (\<lambda>(lefts, m1, m2).
     op_bind (config_rights fuel E table1 0 m1 m2) (\<lambda>rights. case rights of None \<Rightarrow> op_return None | Some rights \<Rightarrow>
     op_bind (op_lift (joined_columns table1 table2)) (\<lambda>columns.
     let resultRows = sort_Slice (de_sort E) (config_Less (joinColumns table1)) (lefts @ rights) in
     op_bind (op_lift (opt_out (those_columns (idx (Column table1)) (compareColumns table1)))) (\<lambda>cs.
     op_return (Some \<lparr>Category = Category table1, Title = Title table1,
                Comment = add_formulas config_formula cs (Comment table1),
                joinColumns = [], compareColumns = [], Column = columns, Rows = Some resultRows\<rparr>)))))))"

section \<open>Comparing two reports\<close>

text \<open>The deferred \<open>recover\<close>.\<close>

definition recovering :: "string \<Rightarrow> ('s, 'a) op \<Rightarrow> ('s, 'a) op" where
  "recovering err m s = (case m s of (Panics, s) \<Rightarrow> (Fails err, s) | r \<Rightarrow> r)"

text \<open>A configuration table is compared with a buffer of its own.\<close>

definition compareTable ::
  "nat \<Rightarrow> 'f diag_env \<Rightarrow> 'f TableDef \<Rightarrow> 'f TableDef \<Rightarrow> ('f diffRow list, 'f TableDef option) op" where
  "compareTable fuel E table1 table2 =
     recovering (''compare table '' @ fmt_strings (Category table1) @ '' ,'' @ Title table1 @ '' panic'')
       (if contains_sub (to_lower (Title table1)) ''config''
        then op_lift (fst (compareTableWithNonUniqueKey fuel E table1 table2 []))
        else op_bind (compareTable_body E table1 table2) (\<lambda>t. op_return (Some t)))"

definition appendErrorRow :: "'f gofloat \<Rightarrow> 'f TableDef \<Rightarrow> string \<Rightarrow> 'f TableRowDef list \<Rightarrow> 'f TableRowDef list" where
  "appendErrorRow F tbl err errRows = errRows @ [row_of F [strings_Join (Category tbl) '','', Title tbl, err]]"

definition same_table :: "'f TableDef \<Rightarrow> 'f TableDef \<Rightarrow> bool" where
  "same_table t1 t2 \<longleftrightarrow> strings_Join (Category t1) '','' = strings_Join (Category t2) '','' \<and> Title t1 = Title t2"

definition compare_pair ::
  "nat \<Rightarrow> 'f diag_env \<Rightarrow> 'f TableDef \<times> 'f TableDef \<Rightarrow>
   'f TableDef list \<times> 'f TableRowDef list \<times> 'f diffRow list \<Rightarrow>
   'f TableDef list \<times> 'f TableRowDef list \<times> 'f diffRow list" where
  "compare_pair fuel E = (\<lambda>(t1, t2) (tables, errRows, dr).
     case compareTable fuel E t1 t2 dr of
       (Returns (Some t), dr) \<Rightarrow> (tables @ [t], errRows, dr)
     | (Returns None, dr) \<Rightarrow> (tables, errRows, dr)
     | (Fails err, dr) \<Rightarrow> (tables, appendErrorRow (de_float E) t1 err errRows, dr)
     | (Panics, dr) \<Rightarrow> (tables, errRows, dr))"

definition compared_pairs :: "'f TableDef list \<Rightarrow> 'f TableDef list \<Rightarrow> ('f TableDef \<times> 'f TableDef) list" where
  "compared_pairs tables1 tables2 =
     concat (map (\<lambda>t1. map (\<lambda>t2. (t1, t2)) (filter (same_table t1) tables2)) tables1)"

section \<open>The table of the greatest differences\<close>

definition label_name :: "string \<Rightarrow> string" where
  "label_name label = takeWhile (\<lambda>c. c \<noteq> CHR '','') label"

definition label_rest :: "string \<Rightarrow> string" where
  "label_rest label =
     (let name = label_name label in if length name < length label then drop (length name + 1) label else '''')"

definition diff_abs :: "'f gofloat \<Rightarrow> 'f diffRow \<Rightarrow> 'f" where
  "diff_abs F d = fl_Abs F (fl_div F (fl_Round F (fl_mul F (dr_ratio d) (fl_int F 100))) (fl_int F 100))"

definition diff_Less :: "'f gofloat \<Rightarrow> 'f diffRow \<Rightarrow> 'f diffRow \<Rightarrow> bool" where
  "diff_Less F di dj =
     (let abs1 = diff_abs F di; abs2 = diff_abs F dj in
      if \<not> fl_eq F abs1 abs2 then fl_less F abs2 abs1 else
      (case (parseFloat F (dr_v1 di), parseFloat F (dr_v2 di), parseFloat F (dr_v1 dj), parseFloat F (dr_v2 dj)) of
         (Inr vi1, Inr vi2, Inr vj1, Inr vj2) \<Rightarrow>
           fl_less F (fl_Abs F (fl_sub F vj1 vj2)) (fl_Abs F (fl_sub F vi2 vi1))
       | _ \<Rightarrow> False))"

definition diff_values :: "'f gofloat \<Rightarrow> 'f diffRow \<Rightarrow> string list" where
  "diff_values F d =
     [dr_table d, label_name (dr_label d), label_rest (dr_label d), fl_Fixed F 2 (dr_ratio d), dr_v1 d, dr_v2 d,
      dr_colName d]"

definition same_change :: "string list \<Rightarrow> string list \<Rightarrow> bool" where
  "same_change vs lastValue = (vs ! 3 = lastValue ! 3 \<and> vs ! 4 = lastValue ! 4 \<and> vs ! 5 = lastValue ! 5)"

definition last_values :: "'f TableRowDef \<Rightarrow> string list" where
  "last_values r = (if length (SubValues r) = 0 then Values r else SubValues r ! (length (SubValues r) - 1))"

text \<open>One iteration of the loop over the differences: the rows and the map of their indices.\<close>

definition diff_step ::
  "'f gofloat \<Rightarrow> 'f diffRow \<Rightarrow> 'f TableRowDef list \<times> (string \<times> int \<rightharpoonup> nat) \<Rightarrow>
   'f TableRowDef list \<times> (string \<times> int \<rightharpoonup> nat)" where
  "diff_step F d = (\<lambda>(rows, rowMap).
     let name = label_name (dr_label d); vs = diff_values F d; k = (name, dr_ratioIdx d) in
     if length name = 0 then (rows, rowMap) else
     (case rowMap k of
        Some ix \<Rightarrow>
          (if same_change vs (last_values (rows ! ix)) then (rows, rowMap)
           else (rows[ix := (rows ! ix)\<lparr>SubValues := SubValues (rows ! ix) @ [vs]\<rparr>], rowMap))
      | None \<Rightarrow> (rows @ [(row_of F vs)\<lparr>row_Comment := dr_comment d\<rparr>], rowMap(k \<mapsto> length rows))))"

definition GenerateDiffTable :: "'f diag_env \<Rightarrow> 'f diffRow list \<Rightarrow> 'f TableDef" where
  "GenerateDiffTable E dr =
     (let F = de_float E in
      \<lparr>Category = [''overview''], Title = ''max_diff_item'', Comment = '''', joinColumns = [], compareColumns = [],
       Column = [''TABLE'', ''METRIC_NAME'', ''LABEL'', ''MAX_DIFF'', ''t1.VALUE'', ''t2.VALUE'', ''VALUE_TYPE''],
       Rows = Some (fst (fold (diff_step F) (sort_Slice (de_sort E) (diff_Less F) dr) ([], Map.empty)))\<rparr>)"

definition CompareTables ::
  "nat \<Rightarrow> 'f diag_env \<Rightarrow> 'f TableDef list \<Rightarrow> 'f TableDef list \<Rightarrow> 'f TableDef list \<times> 'f TableRowDef list" where
  "CompareTables fuel E tables1 tables2 =
     (case fold (compare_pair fuel E) (compared_pairs tables1 tables2) ([], [], []) of
        (tables, errRows, dr) \<Rightarrow> (GenerateDiffTable E dr # tables, errRows))"

end
