(* ===== verification/DiagJoin.thy ===== *)
theory DiagJoin
  imports DiagCompare
begin

text \<open>
  What the comparison of two tables computes: the full outer join of their rows by label. The
  specification is written with plain list functions: \<open>join_cells\<close> for the cells of a joined
  row, \<open>outer_join\<close> for the rows that are joined. The buffer of differences is shown to
  receive the same differences whatever it holds, and to keep the 500 greatest.
\<close>

section \<open>Well-formed tables\<close>

definition schema_ok :: "'f TableDef \<Rightarrow> bool" where
  "schema_ok t \<longleftrightarrow> joinColumns t \<noteq> [] \<and> distinct (joinColumns t) \<and>
     (\<forall>i\<in>set (joinColumns t) \<union> set (compareColumns t). i < length (Column t))"

definition same_schema :: "'f TableDef \<Rightarrow> 'f TableDef \<Rightarrow> bool" where
  "same_schema t u \<longleftrightarrow> Column t = Column u \<and> joinColumns t = joinColumns u \<and> compareColumns t = compareColumns u"

definition cells_ok :: "'f gofloat \<Rightarrow> 'f TableDef \<Rightarrow> string list \<Rightarrow> bool" where
  "cells_ok F t vs \<longleftrightarrow> length vs = length (Column t) \<and>
     (\<forall>i\<in>set (compareColumns t). \<not> isl (parseFloat F (vs ! i)))"

definition label_of :: "'f TableDef \<Rightarrow> string list \<Rightarrow> string" where
  "label_of t vs = strings_Join (map (\<lambda>i. vs ! i) (joinColumns t)) '',''"

definition row_ok :: "'f gofloat \<Rightarrow> 'f TableDef \<Rightarrow> 'f TableRowDef \<Rightarrow> bool" where
  "row_ok F t r \<longleftrightarrow> cells_ok F t (Values r) \<and> (\<forall>s\<in>set (SubValues r). cells_ok F t s) \<and>
     distinct (map (label_of t) (SubValues r))"

definition table_ok :: "'f gofloat \<Rightarrow> 'f TableDef \<Rightarrow> bool" where
  "table_ok F t \<longleftrightarrow> schema_ok t \<and> (\<forall>r\<in>set (table_rows t). row_ok F t r)"

definition labels_distinct :: "'f TableDef \<Rightarrow> bool" where
  "labels_distinct t \<longleftrightarrow> distinct (map (\<lambda>r. label_of t (Values r)) (table_rows t))"

lemma genRowLabel_ok: "schema_ok t \<Longrightarrow> length vs = length (Column t) \<Longrightarrow>
  genRowLabel vs (joinColumns t) = Returns (label_of t vs)"
  unfolding label_of_def by (rule genRowLabel_join) (simp add: schema_ok_def list_all_iff)

section \<open>The cells of a joined row\<close>

definition join_cells :: "'f gofloat \<Rightarrow> 'f TableDef \<Rightarrow> 'f newJoinRow \<Rightarrow> string list" where
  "join_cells F t r =
     (let n = length (Column t); v1 = jr_row1 r; v2 = jr_row2 r; js = joinColumns t in
      map (\<lambda>i. if v1 \<noteq> [] then v1 ! i else if i \<in> set js then v2 ! i else '''') [0..<n] @
      map (\<lambda>i. if v2 \<noteq> [] then v2 ! i else '''') (filter (\<lambda>i. i \<notin> set js) [0..<n]) @
      ratio_cells F r t)"

lemma rest_loop_filter:
  "rest_loop cols k vs = map (\<lambda>i. vs ! (i - k)) (filter (\<lambda>i. i \<notin> set cols) [k..<k + length vs])"
proof (induction cols k vs rule: rest_loop.induct)
  case (2 cols k v vs)
  have e: "[k..<k + length (v # vs)] = k # [Suc k..<Suc k + length vs]"
    by (simp only: length_Cons add_Suc_right) (simp add: upt_conv_Cons del: upt_Suc)
  have m: "map (\<lambda>i. (v # vs) ! (i - k)) (filter (\<lambda>i. i \<notin> set cols) [Suc k..<Suc k + length vs])
      = map (\<lambda>i. vs ! (i - Suc k)) (filter (\<lambda>i. i \<notin> set cols) [Suc k..<Suc k + length vs])"
    by (rule map_cong [OF refl]) (auto simp: nth_Cons split: nat.split intro!: arg_cong [where f = "(!) vs"])
  show ?case using 2 m unfolding e by simp
qed simp

lemma blank_loop_spec:
  "k + length vs \<le> length base \<Longrightarrow>
   blank_loop cols (base @ out) k vs =
     map (\<lambda>i. if k \<le> i \<and> i < k + length vs \<and> i \<in> set cols then vs ! (i - k) else base ! i) [0..<length base] @
     out @ rest_loop cols k vs"
proof (induction vs arbitrary: base out k)
  case Nil
  have "map (\<lambda>i. if k \<le> i \<and> i < k + length [] \<and> i \<in> set cols then [] ! (i - k) else base ! i) [0..<length base]
      = map (\<lambda>i. base ! i) [0..<length base]"
    by (rule map_cong) auto
  then show ?case by (simp add: map_nth)
next
  case (Cons v vs)
  show ?case
  proof (cases "k \<in> set cols")
    case True
    have "blank_loop cols (base @ out) k (v # vs) = blank_loop cols (base[k := v] @ out) (Suc k) vs"
      using True Cons.prems by (simp add: list_update_append)
    also have "\<dots> = map (\<lambda>i. if Suc k \<le> i \<and> i < Suc k + length vs \<and> i \<in> set cols then vs ! (i - Suc k)
          else base[k := v] ! i) [0..<length base] @ out @ rest_loop cols (Suc k) vs"
      using Cons.IH [of "Suc k" "base[k := v]" out] Cons.prems by simp
    also have "map (\<lambda>i. if Suc k \<le> i \<and> i < Suc k + length vs \<and> i \<in> set cols then vs ! (i - Suc k)
          else base[k := v] ! i) [0..<length base] =
        map (\<lambda>i. if k \<le> i \<and> i < k + length (v # vs) \<and> i \<in> set cols then (v # vs) ! (i - k) else base ! i) [0..<length base]"
      using True Cons.prems by (intro map_cong refl) (auto simp: nth_Cons' nth_list_update)
    finally show ?thesis using True by simp
  next
    case False
    have "blank_loop cols (base @ out) k (v # vs) = blank_loop cols (base @ out @ [v]) (Suc k) vs"
      using False by simp
    also have "\<dots> = map (\<lambda>i. if Suc k \<le> i \<and> i < Suc k + length vs \<and> i \<in> set cols then vs ! (i - Suc k)
          else base ! i) [0..<length base] @ (out @ [v]) @ rest_loop cols (Suc k) vs"
      using Cons.IH [of "Suc k" base "out @ [v]"] Cons.prems by simp
    also have "map (\<lambda>i. if Suc k \<le> i \<and> i < Suc k + length vs \<and> i \<in> set cols then vs ! (i - Suc k)
          else base ! i) [0..<length base] =
        map (\<lambda>i. if k \<le> i \<and> i < k + length (v # vs) \<and> i \<in> set cols then (v # vs) ! (i - k) else base ! i) [0..<length base]"
      using False by (intro map_cong refl) (auto simp: nth_Cons' le_Suc_eq not_less_eq_eq Suc_le_eq)
    finally show ?thesis using False by simp
  qed
qed

lemma length_nonjoin:
  assumes "distinct js" and "\<forall>i\<in>set js. i < n"
  shows "length (filter (\<lambda>i. i \<notin> set js) [0..<n]) = n - length js"
proof -
  have "length (filter (\<lambda>i. i \<notin> set js) [0..<n]) = card ({0..<n} - set js)"
    by (simp add: distinct_length_filter Int_def Diff_eq) (rule arg_cong [where f = card], auto)
  also have "\<dots> = n - length js"
    using assms by (simp add: card_Diff_subset subset_eq distinct_card)
  finally show ?thesis .
qed

lemma length_join_le:
  assumes "schema_ok t"
  shows "length (joinColumns t) \<le> length (Column t)"
proof -
  have "card (set (joinColumns t)) \<le> card {0..<length (Column t)}"
    using assms by (intro card_mono) (auto simp: schema_ok_def)
  then show ?thesis using assms by (simp add: schema_ok_def distinct_card)
qed

lemma genNewRow_cells:
  assumes t: "schema_ok t" and ne: "jr_row1 r \<noteq> [] \<or> jr_row2 r \<noteq> []"
    and len: "jr_row1 r \<noteq> [] \<Longrightarrow> length (jr_row1 r) = length (Column t)"
      "jr_row2 r \<noteq> [] \<Longrightarrow> length (jr_row2 r) = length (Column t)"
  shows "genNewRow F r t = Returns (join_cells F t r)"
proof -
  let ?n = "length (Column t)" and ?js = "joinColumns t"
  have nj: "length (filter (\<lambda>i. i \<notin> set ?js) [0..<?n]) = ?n - length ?js"
    using t by (intro length_nonjoin) (auto simp: schema_ok_def)
  consider "jr_row1 r = []" "jr_row2 r \<noteq> []" | "jr_row1 r \<noteq> []" "jr_row2 r = []"
    | "jr_row1 r \<noteq> []" "jr_row2 r \<noteq> []" using ne by blast
  then show ?thesis
  proof cases
    case 1
    have l: "length (jr_row2 r) = ?n" using len(2) 1(2) .
    have "blank_loop ?js (replicate ?n '''' @ []) 0 (jr_row2 r) =
        map (\<lambda>i. if i \<in> set ?js then jr_row2 r ! i else '''') [0..<?n] @
        map (\<lambda>i. jr_row2 r ! i) (filter (\<lambda>i. i \<notin> set ?js) [0..<?n])"
      using l by (subst blank_loop_spec) (auto simp: rest_loop_filter)
    then show ?thesis using 1 l by (simp add: genNewRow_def join_cells_def Let_def)
  next
    case 2
    have l: "length (jr_row1 r) = ?n" using len(1) 2(1) .
    have "map (\<lambda>i. jr_row1 r ! i) [0..<?n] = jr_row1 r" using l by (metis map_nth)
    moreover have "map (\<lambda>i. ('''' :: string)) (filter (\<lambda>i. i \<notin> set ?js) [0..<?n]) = replicate (?n - length ?js) ''''"
      unfolding map_replicate_const nj ..
    ultimately have "join_cells F t r = jr_row1 r @ replicate (?n - length ?js) '''' @ ratio_cells F r t"
      unfolding join_cells_def Let_def using 2 by (simp only: if_True if_False simp_thms)
    moreover have "Column t \<noteq> []" using 2(1) l by auto
    ultimately show ?thesis
      using 2 l length_join_le [OF t] by (simp add: genNewRow_def)
  next
    case 3
    have l: "length (jr_row1 r) = ?n" "length (jr_row2 r) = ?n" using len 3 by auto
    have "map (\<lambda>i. jr_row1 r ! i) [0..<?n] = jr_row1 r" using l by (metis map_nth)
    moreover have "Column t \<noteq> []" using 3(1) l by auto
    ultimately show ?thesis using 3 l by (simp add: genNewRow_def join_cells_def Let_def rest_loop_filter)
  qed
qed

lemma length_join_cells:
  assumes "schema_ok t"
  shows "length (join_cells F t r) = 2 * length (Column t) - length (joinColumns t) + length (compareColumns t)"
proof -
  have "length (filter (\<lambda>i. i \<notin> set (joinColumns t)) [0..<length (Column t)]) = length (Column t) - length (joinColumns t)"
    using assms by (intro length_nonjoin) (auto simp: schema_ok_def)
  then show ?thesis using length_join_le [OF assms] by (simp add: join_cells_def Let_def ratio_cells_def)
qed

text \<open>A joined row has the label of the rows it joins.\<close>

lemma label_join_cells:
  assumes t: "schema_ok t" and "v = jr_row1 r \<and> v \<noteq> [] \<or> v = jr_row2 r \<and> jr_row1 r = []"
    and "length v = length (Column t)"
  shows "label_of t (join_cells F t r) = label_of t v"
proof -
  have "join_cells F t r ! i = v ! i" if "i \<in> set (joinColumns t)" for i
  proof -
    have "i < length (Column t)" using t that by (auto simp: schema_ok_def)
    then show ?thesis using assms(2) that by (auto simp: join_cells_def Let_def nth_append)
  qed
  then show ?thesis by (simp add: label_of_def cong: map_cong)
qed

section \<open>The ratio and the differences of two rows\<close>

definition cells_or_nil :: "'f gofloat \<Rightarrow> 'f TableDef \<Rightarrow> string list \<Rightarrow> bool" where
  "cells_or_nil F t vs \<longleftrightarrow> vs = [] \<or> cells_ok F t vs"

definition diff_ratio :: "'f gofloat \<Rightarrow> 'f TableDef \<Rightarrow> string list \<Rightarrow> string list \<Rightarrow> 'f \<times> 'f list \<times> int" where
  "diff_ratio F t v1 v2 =
     (case calculateDiffRatio F v1 v2 t of Returns x \<Rightarrow> x | _ \<Rightarrow> (fl_int F 0, [], - 1))"

lemma cell_float_ok:
  "cells_or_nil F t vs \<Longrightarrow> ix \<in> set (compareColumns t) \<Longrightarrow> \<exists>f. cell_float F vs ix = Inr f"
  by (cases "parseFloat F (vs ! ix)") (auto simp: cells_or_nil_def cells_ok_def cell_float_def)

lemma ratio_loop_ok:
  "cells_or_nil F t v1 \<Longrightarrow> cells_or_nil F t v2 \<Longrightarrow> set ixs \<subseteq> set (compareColumns t) \<Longrightarrow>
   \<exists>st'. ratio_loop F v1 v2 ixs st = Returns st'"
proof (induction ixs arbitrary: st)
  case (Cons ix ixs)
  obtain f1 f2 where "cell_float F v1 ix = Inr f1" "cell_float F v2 ix = Inr f2"
    using cell_float_ok [OF Cons.prems(1)] cell_float_ok [OF Cons.prems(2)] Cons.prems(3)
    by (metis insert_subset list.simps(15))
  then show ?case using Cons.IH [OF Cons.prems(1,2)] Cons.prems(3) by simp
qed simp

lemma calculateDiffRatio_ok:
  assumes "cells_or_nil F t v1" and "cells_or_nil F t v2"
  shows "calculateDiffRatio F v1 v2 t = Returns (diff_ratio F t v1 v2)"
proof -
  obtain st where "ratio_loop F v1 v2 (compareColumns t)
      \<lparr>rs_ratios = [], rs_maxRatio = fl_int F 0, rs_needBetter = False, rs_maxIdx = - 1\<rparr> = Returns st"
    using ratio_loop_ok [OF assms subset_refl] by blast
  then show ?thesis by (simp add: diff_ratio_def calculateDiffRatio_def)
qed

definition mk_join :: "'f gofloat \<Rightarrow> 'f TableDef \<Rightarrow> string list \<times> string list \<Rightarrow> 'f newJoinRow" where
  "mk_join F t = (\<lambda>(v1, v2). case diff_ratio F t v1 v2 of (r, rs, ix) \<Rightarrow>
     \<lparr>jr_row1 = v1, jr_row2 = v2, jr_ratio = r, jr_ratios = rs\<rparr>)"

definition diff_added ::
  "'f gofloat \<Rightarrow> 'f TableDef \<Rightarrow> string \<Rightarrow> 'f \<times> 'f list \<times> int \<Rightarrow> string list \<Rightarrow> string list \<Rightarrow> string \<Rightarrow> 'f diffRow list" where
  "diff_added F t label d v1 v2 comment =
     (case d of (r, rs, ix) \<Rightarrow> if fl_eq F r (fl_int F 0) then [] else [diff_row t label r v1 v2 ix comment])"

abbreviation add_diffs :: "'f gofloat \<Rightarrow> 'f diffRow list \<Rightarrow> 'f diffRow list \<Rightarrow> 'f diffRow list" where
  "add_diffs F ds s \<equiv> fold (appendRow F) ds s"

lemma addRow_diffs:
  "addRow F t label r v1 v2 ix comment s = add_diffs F (diff_added F t label (r, rs, ix) v1 v2 comment) s"
  by (simp add: addRow_def diff_added_def)

lemma join_sub_ok:
  assumes "cells_or_nil F t v1" and "cells_or_nil F t v2"
  shows "join_sub F t label v1 v2 comment s =
    (Returns (mk_join F t (v1, v2)), add_diffs F (diff_added F t label (diff_ratio F t v1 v2) v1 v2 comment) s)"
proof (cases "diff_ratio F t v1 v2")
  case (fields r rs ix)
  then show ?thesis
    using calculateDiffRatio_ok [OF assms] addRow_diffs [of F t label r v1 v2 ix comment s rs]
    by (simp add: join_sub_def wrap_error_def mk_join_def op_bind_def)
qed

section \<open>Joining the sub rows\<close>

definition find_sub :: "'f TableDef \<Rightarrow> string list list \<Rightarrow> string \<Rightarrow> string list" where
  "find_sub t subs label = (case find (\<lambda>v. label_of t v = label) subs of None \<Rightarrow> [] | Some v \<Rightarrow> v)"

abbreviation unmatched :: "('r \<Rightarrow> string) \<Rightarrow> 'r list \<Rightarrow> 'r list \<Rightarrow> 'r list" where
  "unmatched lab xs ys \<equiv> filter (\<lambda>y. lab y \<notin> lab ` set xs) ys"

definition sub_pairs :: "'f TableDef \<Rightarrow> string list list \<Rightarrow> string list list \<Rightarrow> (string list \<times> string list) list" where
  "sub_pairs t s1 s2 =
     map (\<lambda>v. (v, find_sub t s2 (label_of t v))) s1 @ map (\<lambda>v. ([], v)) (unmatched (label_of t) s1 s2)"

definition sub_diffs :: "'f gofloat \<Rightarrow> 'f TableDef \<Rightarrow> 'f TableRowDef \<Rightarrow> 'f TableRowDef \<Rightarrow> 'f diffRow list" where
  "sub_diffs F t r1 r2 =
     concat (map (\<lambda>v. let w = find_sub t (SubValues r2) (label_of t v) in
        diff_added F t (label_of t v) (diff_ratio F t v w) v w (row_Comment r1)) (SubValues r1)) @
     concat (map (\<lambda>v. diff_added F t (label_of t v) (diff_ratio F t [] v) [] v (row_Comment r2))
        (unmatched (label_of t) (SubValues r1) (SubValues r2)))"

lemma genRowsLablesMap_ok:
  assumes "schema_ok t"
  shows "list_all (\<lambda>v. length v = length (Column t)) subs \<Longrightarrow> distinct (map (label_of t) subs) \<Longrightarrow>
    dom m \<inter> label_of t ` set subs = {} \<Longrightarrow>
    \<exists>m'. genRowsLablesMap t subs m = Returns m' \<and> dom m' = dom m \<union> label_of t ` set subs \<and>
      (\<forall>l. m' l = (case find (\<lambda>v. label_of t v = l) subs of Some v \<Rightarrow> Some v | None \<Rightarrow> m l))"
proof (induction subs arbitrary: m)
  case (Cons v subs)
  have l: "genRowLabel v (joinColumns t) = Returns (label_of t v)"
    using genRowLabel_ok [OF assms] Cons.prems(1) by simp
  have n: "m (label_of t v) = None" using Cons.prems(3) by auto
  have d: "dom (m(label_of t v \<mapsto> v)) \<inter> label_of t ` set subs = {}"
    using Cons.prems(2,3) by auto
  have p: "list_all (\<lambda>v. length v = length (Column t)) subs" "distinct (map (label_of t) subs)"
    using Cons.prems(1,2) by auto
  obtain m' where m': "genRowsLablesMap t subs (m(label_of t v \<mapsto> v)) = Returns m'"
    "dom m' = dom (m(label_of t v \<mapsto> v)) \<union> label_of t ` set subs"
    "\<forall>l. m' l = (case find (\<lambda>v. label_of t v = l) subs of Some v \<Rightarrow> Some v | None \<Rightarrow> (m(label_of t v \<mapsto> v)) l)"
    using Cons.IH [OF p d] by blast
  have "find (\<lambda>w. label_of t w = label_of t v) subs = None"
    using Cons.prems(2) by (simp add: find_None_iff) (metis image_eqI)
  then have "\<forall>l. m' l = (case find (\<lambda>v. label_of t v = l) (v # subs) of Some v \<Rightarrow> Some v | None \<Rightarrow> m l)"
    using m'(3) by (auto split: option.splits)
  then show ?case using l n m'(1,2) by auto
qed simp

lemma genRowsLablesMap_empty:
  assumes "schema_ok t" and "\<forall>v\<in>set subs. cells_ok F t v" and "distinct (map (label_of t) subs)"
  shows "\<exists>m. genRowsLablesMap t subs Map.empty = Returns m \<and> dom m = label_of t ` set subs \<and>
    (\<forall>l. map_cells m l = find_sub t subs l)"
proof -
  obtain m' where "genRowsLablesMap t subs Map.empty = Returns m'" "dom m' = label_of t ` set subs"
    "\<forall>l. m' l = (case find (\<lambda>v. label_of t v = l) subs of Some v \<Rightarrow> Some v | None \<Rightarrow> None)"
    using genRowsLablesMap_ok [OF assms(1) _ assms(3), of Map.empty] assms(2)
    by (auto simp: list_all_iff cells_ok_def)
  then show ?thesis by (auto simp: map_cells_def find_sub_def split: option.splits)
qed

lemma find_sub_cells:
  "\<forall>v\<in>set subs. cells_ok F t v \<Longrightarrow> cells_or_nil F t (find_sub t subs l)"
  by (auto simp: find_sub_def cells_or_nil_def find_Some_iff split: option.splits)

lemma subs_loop1_ok:
  assumes t: "schema_ok t" and s2: "\<forall>v\<in>set subs2. cells_ok F t v" "\<forall>l. map_cells m2 l = find_sub t subs2 l"
  shows "\<forall>v\<in>set subs. cells_ok F t v \<Longrightarrow>
    subs_loop1 F t m2 c subs s =
      (Returns (map (\<lambda>v. mk_join F t (v, find_sub t subs2 (label_of t v))) subs),
       add_diffs F (concat (map (\<lambda>v. let w = find_sub t subs2 (label_of t v) in
          diff_added F t (label_of t v) (diff_ratio F t v w) v w c) subs)) s)"
proof (induction subs arbitrary: s)
  case (Cons v subs)
  have "genRowLabel v (joinColumns t) = Returns (label_of t v)"
    using Cons.prems by (intro genRowLabel_ok [OF t]) (simp add: cells_ok_def)
  then show ?case
    using Cons s2(2) join_sub_ok [of F t v "find_sub t subs2 (label_of t v)"] find_sub_cells [OF s2(1)]
    by (simp add: cells_or_nil_def op_bind_def Let_def)
qed simp

lemma subs_loop2_ok:
  assumes t: "schema_ok t" and m1: "dom m1 = L"
  shows "\<forall>v\<in>set subs. cells_ok F t v \<Longrightarrow>
    subs_loop2 F t m1 c subs s =
      (Returns (map (\<lambda>v. mk_join F t ([], v)) (filter (\<lambda>v. label_of t v \<notin> L) subs)),
       add_diffs F (concat (map (\<lambda>v. diff_added F t (label_of t v) (diff_ratio F t [] v) [] v c)
          (filter (\<lambda>v. label_of t v \<notin> L) subs))) s)"
proof (induction subs arbitrary: s)
  case (Cons v subs)
  have "genRowLabel v (joinColumns t) = Returns (label_of t v)"
    using Cons.prems by (intro genRowLabel_ok [OF t]) (simp add: cells_ok_def)
  then show ?case
    using Cons m1 join_sub_ok [of F t "[]" v] by (auto simp: cells_or_nil_def op_bind_def dom_def)
qed simp

section \<open>Joining two rows\<close>

definition total_ratio :: "'f gofloat \<Rightarrow> 'f TableDef \<Rightarrow> string list \<Rightarrow> string list \<Rightarrow> 'f \<times> 'f list \<times> int" where
  "total_ratio F t v1 v2 = (if length v1 \<noteq> length v2 then (fl_int F 1, [], - 1) else diff_ratio F t v1 v2)"

text \<open>A row that is missing is the zero row, without cells; both are not missing.\<close>

definition row_or_zero :: "'f gofloat \<Rightarrow> 'f TableDef \<Rightarrow> 'f TableRowDef \<Rightarrow> bool" where
  "row_or_zero F t r \<longleftrightarrow> r = row_zero F \<or> row_ok F t r"

definition row_label :: "'f TableDef \<Rightarrow> 'f TableRowDef \<Rightarrow> 'f TableRowDef \<Rightarrow> string" where
  "row_label t r1 r2 = label_of t (if Values r1 \<noteq> [] then Values r1 else Values r2)"

definition row_diffs :: "'f gofloat \<Rightarrow> 'f TableDef \<Rightarrow> 'f TableRowDef \<Rightarrow> 'f TableRowDef \<Rightarrow> 'f diffRow list" where
  "row_diffs F t r1 r2 = sub_diffs F t r1 r2 @
     (if SubValues r1 = [] \<and> SubValues r2 = []
      then diff_added F t (row_label t r1 r2) (total_ratio F t (Values r1) (Values r2)) (Values r1) (Values r2) (row_Comment r1)
      else [])"

definition total_join :: "'f gofloat \<Rightarrow> 'f TableDef \<Rightarrow> string list \<Rightarrow> string list \<Rightarrow> 'f newJoinRow" where
  "total_join F t v1 v2 = (case total_ratio F t v1 v2 of (r, rs, ix) \<Rightarrow>
     \<lparr>jr_row1 = v1, jr_row2 = v2, jr_ratio = r, jr_ratios = rs\<rparr>)"

definition joined_row :: "'f diag_env \<Rightarrow> 'f TableDef \<Rightarrow> 'f TableRowDef \<Rightarrow> 'f TableRowDef \<Rightarrow> 'f TableRowDef" where
  "joined_row E t r1 r2 =
     (let F = de_float E; j = total_join F t (Values r1) (Values r2) in
      \<lparr>Values = join_cells F t j,
       SubValues = map (join_cells F t) (sort_Slice (de_sort E) (\<lambda>a b. abs_less F (jr_ratio b) (jr_ratio a))
          (map (mk_join F t) (sub_pairs t (SubValues r1) (SubValues r2)))),
       row_ratio = jr_ratio j, row_Comment = row_Comment r1\<rparr>)"

lemma mk_join_simps [simp]: "jr_row1 (mk_join F t p) = fst p" "jr_row2 (mk_join F t p) = snd p"
  by (simp_all add: mk_join_def split_beta split: prod.splits)

lemma total_join_simps [simp]: "jr_row1 (total_join F t v w) = v" "jr_row2 (total_join F t v w) = w"
  by (simp_all add: total_join_def split_beta split: prod.splits)

lemma op_map_lift:
  "(\<And>x. x \<in> set xs \<Longrightarrow> f x = Returns (g x)) \<Longrightarrow> op_map (\<lambda>x. op_lift (f x)) xs s = (Returns (map g xs), s)"
  by (induction xs) (auto simp: op_bind_def)

lemma cells_length: "schema_ok t \<Longrightarrow> cells_ok F t v \<Longrightarrow> v \<noteq> [] \<and> length v = length (Column t)"
  by (cases "joinColumns t") (auto simp: schema_ok_def cells_ok_def)

lemma sub_pairs_cells:
  assumes t: "schema_ok t" and "\<forall>v\<in>set s1. cells_ok F t v" and "\<forall>v\<in>set s2. cells_ok F t v"
    and "p \<in> set (sub_pairs t s1 s2)"
  shows "genNewRow F (mk_join F t p) t = Returns (join_cells F t (mk_join F t p))"
proof -
  have f: "\<forall>l. find_sub t s2 l = [] \<or> cells_ok F t (find_sub t s2 l)"
    using find_sub_cells [OF assms(3)] by (auto simp: cells_or_nil_def)
  have "cells_or_nil F t (fst p)" "cells_or_nil F t (snd p)" "fst p \<noteq> [] \<or> snd p \<noteq> []"
    using assms f cells_length [OF t, of F] by (auto simp: sub_pairs_def cells_or_nil_def)
  then show ?thesis
    using cells_length [OF t] by (intro genNewRow_cells [OF t]) (auto simp: cells_or_nil_def)
qed

lemma row_or_zero_ok:
  "row_or_zero F t r \<Longrightarrow> (\<forall>v\<in>set (SubValues r). cells_ok F t v) \<and> distinct (map (label_of t) (SubValues r)) \<and>
   cells_or_nil F t (Values r)"
  by (auto simp: row_or_zero_def row_zero_def row_ok_def cells_or_nil_def)

lemma joinRow_spec:
  assumes srt: "go_sort_ok (de_sort E)" and t: "schema_ok t"
    and r: "row_or_zero (de_float E) t r1" "row_or_zero (de_float E) t r2" "Values r1 \<noteq> [] \<or> Values r2 \<noteq> []"
  shows "joinRow E r1 r2 t s =
    (Returns (joined_row E t r1 r2), add_diffs (de_float E) (row_diffs (de_float E) t r1 r2) s)"
proof -
  let ?F = "de_float E"
  note o1 = row_or_zero_ok [OF r(1)] and o2 = row_or_zero_ok [OF r(2)]
  obtain m1 where m1: "genRowsLablesMap t (SubValues r1) Map.empty = Returns m1"
    "dom m1 = label_of t ` set (SubValues r1)" using genRowsLablesMap_empty [OF t] o1 by blast
  obtain m2 where m2: "genRowsLablesMap t (SubValues r2) Map.empty = Returns m2"
    "\<forall>l. map_cells m2 l = find_sub t (SubValues r2) l" using genRowsLablesMap_empty [OF t] o2 by blast
  let ?subs = "map (mk_join ?F t) (sub_pairs t (SubValues r1) (SubValues r2))"
  let ?sorted = "sort_Slice (de_sort E) (\<lambda>a b. abs_less ?F (jr_ratio b) (jr_ratio a)) ?subs"
  have c2: "\<forall>v\<in>set (SubValues r2). cells_ok ?F t v" and c1: "\<forall>v\<in>set (SubValues r1). cells_ok ?F t v"
    using o1 o2 by auto
  note l1 = subs_loop1_ok [OF t c2 m2(2) c1] and l2 = subs_loop2_ok [OF t m1(2) c2]
  have subs: "map (\<lambda>v. mk_join ?F t (v, find_sub t (SubValues r2) (label_of t v))) (SubValues r1) @
      map (\<lambda>v. mk_join ?F t ([], v)) (unmatched (label_of t) (SubValues r1) (SubValues r2)) = ?subs"
    by (simp add: sub_pairs_def)
  have gen: "genNewRow ?F j t = Returns (join_cells ?F t j)" if "j \<in> set ?sorted" for j
    using that sub_pairs_cells [OF t c1 c2] by (auto simp: set_sort_Slice [OF srt])
  note cells = op_map_lift [of ?sorted "\<lambda>j. genNewRow ?F j t", OF gen]
  have v: "cells_or_nil ?F t (Values r1)" "cells_or_nil ?F t (Values r2)" using o1 o2 by auto
  have total: "(if length (Values r1) \<noteq> length (Values r2) then op_return (fl_int ?F 1, [], - 1)
      else op_lift (wrap_error (\<lambda>err. ratio_error t err (Values r1) (Values r2))
        (calculateDiffRatio ?F (Values r1) (Values r2) t))) s' =
      (Returns (total_ratio ?F t (Values r1) (Values r2)), s')" for s' :: "'a diffRow list"
    using calculateDiffRatio_ok [OF v] by (simp add: total_ratio_def wrap_error_def)
  have label: "(if length (Column t) \<le> length (Values r1) then genRowLabel (Values r1) (joinColumns t)
      else if length (Column t) \<le> length (Values r2) then genRowLabel (Values r2) (joinColumns t) else Returns '''')
      = Returns (row_label t r1 r2)"
  proof -
    have "Column t \<noteq> []" using t by (cases "joinColumns t") (auto simp: schema_ok_def)
    then show ?thesis
      using v r(3) cells_length [OF t] genRowLabel_ok [OF t]
      by (auto simp: cells_or_nil_def row_label_def)
  qed
  obtain tr trs tix where tr: "total_ratio ?F t (Values r1) (Values r2) = (tr, trs, tix)"
    by (cases "total_ratio ?F t (Values r1) (Values r2)")
  have new: "genNewRow ?F \<lparr>jr_row1 = Values r1, jr_row2 = Values r2, jr_ratio = tr, jr_ratios = trs\<rparr> t =
      Returns (join_cells ?F t (total_join ?F t (Values r1) (Values r2)))"
  proof -
    have "total_join ?F t (Values r1) (Values r2) =
        \<lparr>jr_row1 = Values r1, jr_row2 = Values r2, jr_ratio = tr, jr_ratios = trs\<rparr>"
      using tr by (simp add: total_join_def)
    moreover have "genNewRow ?F (total_join ?F t (Values r1) (Values r2)) t =
        Returns (join_cells ?F t (total_join ?F t (Values r1) (Values r2)))"
      using v r(3) cells_length [OF t] by (intro genNewRow_cells [OF t]) (auto simp: cells_or_nil_def)
    ultimately show ?thesis by simp
  qed
  show ?thesis
    using addRow_diffs [of ?F t "row_label t r1 r2" tr "Values r1" "Values r2" tix "row_Comment r1" _ trs]
    by (simp add: joinRow_def Let_def op_bind_def [of "op_lift _"] op_bind_def m1(1) m2(1) l1 l2 subs cells total label tr new
        joined_row_def total_join_def row_diffs_def sub_diffs_def)
qed

section \<open>Joining two tables\<close>

definition find_row :: "'f gofloat \<Rightarrow> 'f TableDef \<Rightarrow> 'f TableRowDef list \<Rightarrow> string \<Rightarrow> 'f TableRowDef" where
  "find_row F t rows label =
     (case find (\<lambda>r. label_of t (Values r) = label) rows of None \<Rightarrow> row_zero F | Some r \<Rightarrow> r)"

text \<open>The rows that are joined: every row of the first table, and the rows of the second one whose label it lacks.\<close>

definition outer_join ::
  "'f gofloat \<Rightarrow> 'f TableDef \<Rightarrow> 'f TableRowDef list \<Rightarrow> 'f TableRowDef list \<Rightarrow> ('f TableRowDef \<times> 'f TableRowDef) list" where
  "outer_join F t rows1 rows2 =
     map (\<lambda>r. (r, find_row F t rows2 (label_of t (Values r)))) rows1 @
     map (\<lambda>r. (row_zero F, r)) (unmatched (\<lambda>r. label_of t (Values r)) rows1 rows2)"

definition join_diffs ::
  "'f gofloat \<Rightarrow> 'f TableDef \<Rightarrow> 'f TableRowDef list \<Rightarrow> 'f TableRowDef list \<Rightarrow> 'f diffRow list" where
  "join_diffs F t rows1 rows2 = concat (map (\<lambda>(r1, r2). row_diffs F t r1 r2) (outer_join F t rows1 rows2))"

definition out_columns :: "'f TableDef \<Rightarrow> string list" where
  "out_columns t =
     map (\<lambda>i. if i \<in> set (joinColumns t) then Column t ! i else ''t1.'' @ Column t ! i) [0..<length (Column t)] @
     map (\<lambda>i. ''t2.'' @ Column t ! i) (filter (\<lambda>i. i \<notin> set (joinColumns t)) [0..<length (Column t)]) @
     map (\<lambda>i. Column t ! i @ ''_DIFF_RATIO'') (compareColumns t)"

lemma labels_map_ok:
  assumes t: "schema_ok t"
  shows "\<forall>r\<in>set rows. row_ok F t r \<Longrightarrow> distinct (map (\<lambda>r. label_of t (Values r)) rows) \<Longrightarrow>
    dom m \<inter> (\<lambda>r. label_of t (Values r)) ` set rows = {} \<Longrightarrow>
    \<exists>m'. labels_map_loop t rows m = Returns m' \<and> dom m' = dom m \<union> (\<lambda>r. label_of t (Values r)) ` set rows \<and>
      (\<forall>l. m' l = (case find (\<lambda>r. label_of t (Values r) = l) rows of Some r \<Rightarrow> Some r | None \<Rightarrow> m l))"
proof (induction rows arbitrary: m)
  case (Cons r rows)
  let ?l = "label_of t (Values r)"
  have l: "genRowLabel (Values r) (joinColumns t) = Returns ?l"
    using Cons.prems(1) by (intro genRowLabel_ok [OF t]) (simp add: row_ok_def cells_ok_def)
  have n: "m ?l = None" using Cons.prems(3) by auto
  have d: "dom (m(?l \<mapsto> r)) \<inter> (\<lambda>r. label_of t (Values r)) ` set rows = {}"
    using Cons.prems(2,3) by auto
  have p: "\<forall>r\<in>set rows. row_ok F t r" "distinct (map (\<lambda>r. label_of t (Values r)) rows)"
    using Cons.prems(1,2) by auto
  obtain m' where m': "labels_map_loop t rows (m(?l \<mapsto> r)) = Returns m'"
    "dom m' = dom (m(?l \<mapsto> r)) \<union> (\<lambda>r. label_of t (Values r)) ` set rows"
    "\<forall>l. m' l = (case find (\<lambda>r. label_of t (Values r) = l) rows of Some r \<Rightarrow> Some r | None \<Rightarrow> (m(?l \<mapsto> r)) l)"
    using Cons.IH [OF p d] by blast
  have "find (\<lambda>w. label_of t (Values w) = ?l) rows = None"
    using Cons.prems(2) by (simp add: find_None_iff) (metis image_eqI)
  then have "\<forall>l. m' l = (case find (\<lambda>r. label_of t (Values r) = l) (r # rows) of Some r \<Rightarrow> Some r | None \<Rightarrow> m l)"
    using m'(3) by (auto split: option.splits)
  then show ?case using l n m'(1,2) by auto
qed simp

lemma getTableLablesMap_ok:
  assumes "table_ok F t" and "labels_distinct t"
  shows "\<exists>m. getTableLablesMap t = Returns m \<and> dom m = (\<lambda>r. label_of t (Values r)) ` set (table_rows t) \<and>
    (\<forall>E l. de_float E = F \<longrightarrow> map_row E m l = find_row F t (table_rows t) l)"
proof -
  have t: "schema_ok t" "\<forall>r\<in>set (table_rows t). row_ok F t r" using assms(1) by (auto simp: table_ok_def)
  obtain m where m: "labels_map_loop t (table_rows t) Map.empty = Returns m"
    "dom m = (\<lambda>r. label_of t (Values r)) ` set (table_rows t)"
    "\<forall>l. m l = (case find (\<lambda>r. label_of t (Values r) = l) (table_rows t) of Some r \<Rightarrow> Some r | None \<Rightarrow> None)"
    using labels_map_ok [OF t(1,2), of Map.empty] assms(2) by (auto simp: labels_distinct_def)
  moreover have "getTableLablesMap t = labels_map_loop t (table_rows t) Map.empty"
    using t(1) by (simp add: getTableLablesMap_def schema_ok_def)
  ultimately show ?thesis by (auto simp: map_row_def find_row_def split: option.splits)
qed

lemma left_columns_map:
  "left_columns cols k cs = map (\<lambda>i. if i \<in> set cols then cs ! (i - k) else ''t1.'' @ cs ! (i - k)) [k..<k + length cs]"
proof (induction cols k cs rule: left_columns.induct)
  case (2 cols k c cs)
  have e: "[k..<k + length (c # cs)] = k # [Suc k..<Suc k + length cs]"
    by (simp only: length_Cons add_Suc_right) (simp add: upt_conv_Cons del: upt_Suc)
  have "map (\<lambda>i. if i \<in> set cols then (c # cs) ! (i - k) else ''t1.'' @ (c # cs) ! (i - k)) [Suc k..<Suc k + length cs]
      = map (\<lambda>i. if i \<in> set cols then cs ! (i - Suc k) else ''t1.'' @ cs ! (i - Suc k)) [Suc k..<Suc k + length cs]"
    by (rule map_cong [OF refl]) (auto simp: nth_Cons' Suc_le_eq)
  then show ?case using 2 unfolding e by simp
qed simp

lemma joined_columns_ok:
  assumes "schema_ok t" and "same_schema t u"
  shows "joined_columns t u = Returns (out_columns t)"
proof -
  have "those_columns (\<lambda>ix. map_option (\<lambda>c. c @ ''_DIFF_RATIO'') (idx (Column t) ix)) (compareColumns t) =
      Some (map (\<lambda>i. Column t ! i @ ''_DIFF_RATIO'') (compareColumns t))"
    using assms(1) by (intro those_columns_Some) (auto simp: schema_ok_def)
  then show ?thesis
    using assms(2) length_join_le [OF assms(1)]
    by (simp add: joined_columns_def out_columns_def same_schema_def left_columns_map rest_loop_filter)
qed

lemma join_left_ok:
  assumes srt: "go_sort_ok (de_sort E)" and t: "schema_ok t"
    and m2: "\<forall>l. map_row E m2 l = find_row (de_float E) t rows2 l" "\<forall>r\<in>set rows2. row_ok (de_float E) t r"
  shows "\<forall>r\<in>set rows. row_ok (de_float E) t r \<Longrightarrow>
    op_map (join_left E t m2) rows s =
      (Returns (map (\<lambda>r. joined_row E t r (find_row (de_float E) t rows2 (label_of t (Values r)))) rows),
       add_diffs (de_float E) (concat (map (\<lambda>r.
         row_diffs (de_float E) t r (find_row (de_float E) t rows2 (label_of t (Values r)))) rows)) s)"
proof (induction rows arbitrary: s)
  case (Cons r rows)
  let ?F = "de_float E"
  have r: "row_ok ?F t r" using Cons.prems by simp
  then have c: "cells_ok ?F t (Values r)" by (simp add: row_ok_def)
  have l: "genRowLabel (Values r) (joinColumns t) = Returns (label_of t (Values r))"
    using c by (intro genRowLabel_ok [OF t]) (simp add: cells_ok_def)
  have f: "row_or_zero ?F t (find_row ?F t rows2 (label_of t (Values r)))"
    using m2(2) by (auto simp: find_row_def row_or_zero_def find_Some_iff split: option.splits)
  have "joinRow E r (find_row ?F t rows2 (label_of t (Values r))) t s =
      (Returns (joined_row E t r (find_row ?F t rows2 (label_of t (Values r)))),
       add_diffs ?F (row_diffs ?F t r (find_row ?F t rows2 (label_of t (Values r)))) s)" for s
    using r cells_length [OF t c] by (intro joinRow_spec [OF srt t _ f]) (auto simp: row_or_zero_def)
  then show ?case using Cons l m2(1) by (simp add: join_left_def op_bind_def)
qed simp

lemma join_rights_ok:
  assumes srt: "go_sort_ok (de_sort E)" and t: "schema_ok t" and u: "same_schema t u" and m1: "dom m1 = L"
  shows "\<forall>r\<in>set rows. row_ok (de_float E) t r \<Longrightarrow>
    join_rights E t u m1 rows s =
      (Returns (map (joined_row E t (row_zero (de_float E))) (filter (\<lambda>r. label_of t (Values r) \<notin> L) rows)),
       add_diffs (de_float E) (concat (map (row_diffs (de_float E) t (row_zero (de_float E)))
         (filter (\<lambda>r. label_of t (Values r) \<notin> L) rows))) s)"
proof (induction rows arbitrary: s)
  case (Cons r rows)
  let ?F = "de_float E"
  have r: "row_ok ?F t r" using Cons.prems by simp
  then have c: "cells_ok ?F t (Values r)" by (simp add: row_ok_def)
  have l: "genRowLabel (Values r) (joinColumns u) = Returns (label_of t (Values r))"
    using c u genRowLabel_ok [OF t, of "Values r"] by (simp add: cells_ok_def same_schema_def)
  have "joinRow E (row_zero ?F) r t s = (Returns (joined_row E t (row_zero ?F) r), add_diffs ?F (row_diffs ?F t (row_zero ?F) r) s)" for s
    using r cells_length [OF t c] by (intro joinRow_spec [OF srt t]) (auto simp: row_or_zero_def)
  then show ?case using Cons l m1 by (auto simp: op_bind_def dom_def)
qed simp

lemma same_schema_simps:
  assumes "same_schema t u"
  shows "schema_ok u = schema_ok t" "label_of u = label_of t" "cells_ok F u = cells_ok F t" "row_ok F u = row_ok F t"
proof -
  show l: "label_of u = label_of t" and "schema_ok u = schema_ok t" and c: "cells_ok F u = cells_ok F t"
    using assms by (auto simp: same_schema_def schema_ok_def label_of_def cells_ok_def fun_eq_iff)
  show "row_ok F u = row_ok F t" by (simp add: row_ok_def fun_eq_iff l c)
qed

text \<open>The comparison of two well-formed tables returns the outer join, sorted.\<close>

lemma compareTable_body_spec:
  assumes srt: "go_sort_ok (de_sort E)"
    and t: "table_ok (de_float E) t" "labels_distinct t" and u: "table_ok (de_float E) u" "labels_distinct u"
    and s: "same_schema t u"
  defines "F \<equiv> de_float E"
  shows "compareTable_body E t u dr =
    (Returns \<lparr>Category = Category t, Title = Title t,
       Comment = add_formulas ratio_formula (map (\<lambda>i. Column t ! i) (compareColumns t)) (Comment t),
       joinColumns = [], compareColumns = [], Column = out_columns t,
       Rows = Some (sort_Slice (de_sort E) (\<lambda>a b. abs_less F (row_ratio b) (row_ratio a))
         (map (\<lambda>(r1, r2). joined_row E t r1 r2) (outer_join F t (table_rows t) (table_rows u))))\<rparr>,
     add_diffs F (join_diffs F t (table_rows t) (table_rows u)) dr)"
proof -
  have t': "schema_ok t" "\<forall>r\<in>set (table_rows t). row_ok F t r" using t(1) by (auto simp: table_ok_def F_def)
  have u': "\<forall>r\<in>set (table_rows u). row_ok F t r"
    using u(1) same_schema_simps [OF s] by (auto simp: table_ok_def F_def)
  obtain m1 where m1: "getTableLablesMap t = Returns m1"
    "dom m1 = (\<lambda>r. label_of t (Values r)) ` set (table_rows t)"
    using getTableLablesMap_ok [OF t] by blast
  obtain m2 where m2: "getTableLablesMap u = Returns m2"
    "\<forall>l. map_row E m2 l = find_row F t (table_rows u) l"
    using getTableLablesMap_ok [OF u] same_schema_simps(2) [OF s] by (auto simp: find_row_def F_def)
  have c: "those_columns (idx (Column t)) (compareColumns t) = Some (map (\<lambda>i. Column t ! i) (compareColumns t))"
    using t'(1) by (intro those_columns_Some) (auto simp: schema_ok_def)
  show ?thesis
    using join_left_ok [OF srt t'(1) m2(2) [unfolded F_def] u' [unfolded F_def] t'(2) [unfolded F_def]]
      join_rights_ok [OF srt t'(1) s m1(2) u' [unfolded F_def]] joined_columns_ok [OF t'(1) s]
    by (simp add: compareTable_body_def m1(1) m2(1) op_bind_def Let_def c outer_join_def join_diffs_def F_def o_def)
qed

lemma weak_order_flip: "weak_order lt \<Longrightarrow> weak_order (\<lambda>a b. lt (f b) (f a))"
  unfolding weak_order_def by blast

lemma joined_row_length:
  assumes t: "schema_ok t" and srt: "go_sort_ok (de_sort E)"
  shows "length (Values (joined_row E t r1 r2)) = length (out_columns t) \<and>
    (\<forall>s\<in>set (SubValues (joined_row E t r1 r2)). length s = length (out_columns t))"
proof -
  have "length (out_columns t) = 2 * length (Column t) - length (joinColumns t) + length (compareColumns t)"
    using length_nonjoin [of "joinColumns t" "length (Column t)"] t length_join_le [OF t]
    by (simp add: out_columns_def schema_ok_def)
  then show ?thesis
    using length_join_cells [OF t] by (auto simp: joined_row_def Let_def)
qed

lemma label_joined_row:
  assumes t: "schema_ok t" and r: "row_or_zero (de_float E) t r1" "row_or_zero (de_float E) t r2"
    and "Values r1 \<noteq> [] \<or> Values r2 \<noteq> []"
  shows "label_of t (Values (joined_row E t r1 r2)) = row_label t r1 r2"
proof -
  have "label_of t (join_cells (de_float E) t (total_join (de_float E) t (Values r1) (Values r2)))
      = label_of t (if Values r1 \<noteq> [] then Values r1 else Values r2)"
    using row_or_zero_ok [OF r(1)] row_or_zero_ok [OF r(2)] assms(4) cells_length [OF t]
    by (intro label_join_cells [OF t]) (auto simp: cells_or_nil_def)
  then show ?thesis by (simp add: joined_row_def Let_def row_label_def)
qed

text \<open>
  C13: comparing two tables of the same schema whose rows have the width of the table, unique
  labels and numbers in their compared columns returns their full outer join: one row for each
  row of the first table, joined with the row of the second that has its label, and one for each
  other row of the second; every row and sub row is as wide as the header; the rows are in
  descending order of the absolute ratio, and the buffer of differences receives exactly the
  differences of the joined rows.
\<close>

theorem compareTable_outer_join:
  assumes "go_sort_ok (de_sort E)" and "weak_order (abs_less (de_float E))"
    and "table_ok (de_float E) t" "labels_distinct t" and "table_ok (de_float E) u" "labels_distinct u"
    and "same_schema t u" and "\<not> contains_sub (to_lower (Title t)) ''config''"
  shows "\<exists>rt. compareTable fuel E t u dr =
      (Returns (Some rt), add_diffs (de_float E) (join_diffs (de_float E) t (table_rows t) (table_rows u)) dr) \<and>
    Column rt = out_columns t \<and>
    mset (table_rows rt) = image_mset (\<lambda>(r1, r2). joined_row E t r1 r2)
      (mset (outer_join (de_float E) t (table_rows t) (table_rows u))) \<and>
    sorted_wrt (\<lambda>a b. \<not> abs_less (de_float E) (row_ratio a) (row_ratio b)) (table_rows rt) \<and>
    image_mset (\<lambda>r. label_of t (Values r)) (mset (table_rows rt)) =
      mset (map (\<lambda>r. label_of t (Values r)) (table_rows t @
        unmatched (\<lambda>r. label_of t (Values r)) (table_rows t) (table_rows u))) \<and>
    (\<forall>r\<in>set (table_rows rt). length (Values r) = length (Column rt) \<and>
      (\<forall>s\<in>set (SubValues r). length s = length (Column rt)))"
proof -
  let ?F = "de_float E" and ?p = "outer_join (de_float E) t (table_rows t) (table_rows u)"
  let ?lt = "\<lambda>a b. abs_less ?F (row_ratio b) (row_ratio a)"
  let ?rows = "sort_Slice (de_sort E) ?lt (map (\<lambda>(r1, r2). joined_row E t r1 r2) ?p)"
  have t: "schema_ok t" "\<forall>r\<in>set (table_rows t). row_ok ?F t r" using assms(3) by (auto simp: table_ok_def)
  have u: "\<forall>r\<in>set (table_rows u). row_ok ?F t r"
    using assms(5) same_schema_simps [OF assms(7)] by (auto simp: table_ok_def)
  obtain rt where rt: "compareTable fuel E t u dr =
      (Returns (Some rt), add_diffs ?F (join_diffs ?F t (table_rows t) (table_rows u)) dr)"
    "Column rt = out_columns t" "table_rows rt = ?rows"
    using compareTable_body_spec [OF assms(1,3-7)] assms(8)
    by (auto simp: compareTable_def recovering_def op_bind_def)
  have m: "mset ?rows = image_mset (\<lambda>(r1, r2). joined_row E t r1 r2) (mset ?p)"
    by (simp add: mset_sort_Slice [OF assms(1)])
  have "weak_order ?lt" using weak_order_flip [OF assms(2)] .
  then have s: "sorted_wrt (\<lambda>a b. \<not> abs_less ?F (row_ratio a) (row_ratio b)) ?rows"
    using sorted_sort_Slice [OF assms(1)] by blast
  have f: "row_or_zero ?F t (find_row ?F t (table_rows u) l)" for l
    using u by (auto simp: find_row_def row_or_zero_def find_Some_iff split: option.splits)
  have ne: "Values r \<noteq> []" if "row_ok ?F t r" for r
    using that cells_length [OF t(1)] by (auto simp: row_ok_def)
  have lab: "map (\<lambda>(r1, r2). label_of t (Values (joined_row E t r1 r2))) ?p =
      map (\<lambda>r. label_of t (Values r)) (table_rows t @
        unmatched (\<lambda>r. label_of t (Values r)) (table_rows t) (table_rows u))"
    using t(2) u f ne
    by (auto simp: outer_join_def label_joined_row [OF t(1)] row_or_zero_def row_label_def row_zero_def)
  have "image_mset (\<lambda>r. label_of t (Values r)) (mset ?rows) =
      mset (map (\<lambda>(r1, r2). label_of t (Values (joined_row E t r1 r2))) ?p)"
    unfolding m by (simp add: image_mset.compositionality o_def) (rule image_mset_cong, auto)
  then have l: "image_mset (\<lambda>r. label_of t (Values r)) (mset ?rows) =
      mset (map (\<lambda>r. label_of t (Values r)) (table_rows t @
        unmatched (\<lambda>r. label_of t (Values r)) (table_rows t) (table_rows u)))"
    using lab by simp
  have w: "\<forall>r\<in>set ?rows. length (Values r) = length (out_columns t) \<and>
      (\<forall>s\<in>set (SubValues r). length s = length (out_columns t))"
    using joined_row_length [OF t(1) assms(1)] by (auto simp: set_sort_Slice [OF assms(1)])
  show ?thesis
    by (rule exI [of _ rt]) (use rt m s l w in simp)
qed

text \<open>The tables of \<open>TestCompareTable\<close> in \<open>report_test.go\<close>.\<close>

definition demo_diag_table :: "string list list \<Rightarrow> rat TableDef" where
  "demo_diag_table vss = \<lparr>Category = [''header''], Title = ''test'', Comment = '''', joinColumns = [1], compareColumns = [2],
     Column = [''c1'', ''c2'', ''c3''], Rows = Some (map (row_of rat_float) vss)\<rparr>"

definition demo_diag_env :: "rat diag_env" where
  "demo_diag_env = \<lparr>de_float = rat_float, de_sort = insertion_sort, de_range = (\<lambda>k ks. ks)\<rparr>"

lemma demo_diag_env_simps [simp]: "de_float demo_diag_env = rat_float" "de_sort demo_diag_env = insertion_sort"
  by (simp_all add: demo_diag_env_def)

lemma demo_schema_ok: "schema_ok (demo_diag_table vss)"
  by (simp add: schema_ok_def demo_diag_table_def)

lemma parse_digit_cell: "parseFloat rat_float ''0'' = Inr 0" "parseFloat rat_float ''1'' = Inr 1"
  by (simp_all add: parseFloat_def suffix_ratios_def has_suffix_def rat_Parse_def digit_value_def byte_of_def Let_def)

lemma compareTable_outer_join_witness:
  "\<exists>rt dr'. compareTable 0 demo_diag_env (demo_diag_table [[''0'', ''0'', ''0'']]) (demo_diag_table [[''1'', ''1'', ''1'']]) [] =
      (Returns (Some rt), dr') \<and> length (table_rows rt) = 2 \<and>
      list_all (\<lambda>r. length (Values r) = 6) (table_rows rt)"
proof -
  let ?t = "demo_diag_table [[''0'', ''0'', ''0'']]" and ?u = "demo_diag_table [[''1'', ''1'', ''1'']]"
  have ok: "table_ok (de_float demo_diag_env) ?t" "labels_distinct ?t" "table_ok (de_float demo_diag_env) ?u" "labels_distinct ?u"
    by (simp_all add: table_ok_def demo_schema_ok labels_distinct_def)
      (simp_all add: demo_diag_table_def row_of_def row_zero_def row_ok_def cells_ok_def parse_digit_cell)
  have s: "same_schema ?t ?u" by (simp add: same_schema_def demo_diag_table_def)
  have c: "\<not> contains_sub (to_lower (Title ?t)) ''config''"
    by (simp add: demo_diag_table_def to_lower_def lower_char_def byte_of_def Let_def)
  have u: "unmatched (\<lambda>r. label_of ?t (Values r)) (table_rows ?t) (table_rows ?u) = table_rows ?u"
    by (simp add: demo_diag_table_def table_rows_def label_of_def row_of_def row_zero_def)
  have n: "length (table_rows ?t) = 1" "length (table_rows ?u) = 1" "length (out_columns ?t) = 6"
    by (simp_all add: demo_diag_table_def table_rows_def out_columns_def)
  obtain rt where rt: "compareTable 0 demo_diag_env ?t ?u [] =
      (Returns (Some rt), add_diffs (de_float demo_diag_env) (join_diffs (de_float demo_diag_env) ?t (table_rows ?t) (table_rows ?u)) [])"
    "Column rt = out_columns ?t"
    "image_mset (\<lambda>r. label_of ?t (Values r)) (mset (table_rows rt)) =
      mset (map (\<lambda>r. label_of ?t (Values r)) (table_rows ?t @ table_rows ?u))"
    "\<forall>r\<in>set (table_rows rt). length (Values r) = length (Column rt)"
    using compareTable_outer_join [of demo_diag_env, unfolded demo_diag_env_simps, OF insertion_sort_ok rat_abs_order
        ok [unfolded demo_diag_env_simps] s c, unfolded u, of 0 "[]"] by auto
  have "length (table_rows rt) = length (table_rows ?t @ table_rows ?u)"
    using rt(3) by (metis length_map size_image_mset size_mset)
  then show ?thesis using rt(1,2,4) n by (auto simp: list_all_iff)
qed

end
