(* ===== verification/DiagDiff.thy ===== *)
theory DiagDiff
  imports DiagJoin
begin

text \<open>
  The differences that the comparison of two reports shows: which compared column stands for a
  row, which differences the buffer keeps, and how the table of the differences groups them.
\<close>

section \<open>The greatest differences\<close>

lemma appendRow_bounded: "appendRow F row r = go_heap.push_bounded (diffRows_Less F) 500 row r"
  by (simp add: appendRow_def go_heap.push_bounded_def [of "diffRows_Less F"])

lemma diffRows_order: "weak_order (abs_less F) \<Longrightarrow> weak_order (diffRows_Less F)"
  using weak_order_pull [of "abs_less F" dr_ratio] by (simp add: diffRows_Less_def [abs_def])

text \<open>
  C17: whatever differences are added to the buffer, in whatever order, it holds the 500 with
  the greatest absolute ratio (all of them when there are fewer): nothing is lost but what the
  heap has popped, and no popped difference is greater than one that is kept.
\<close>

theorem buffer_keeps_greatest:
  assumes "weak_order (abs_less F)"
  shows "\<exists>D. mset (add_diffs F ds []) + D = mset ds \<and> length (add_diffs F ds []) = min 500 (length ds) \<and>
    (\<forall>x\<in>set (add_diffs F ds []). \<forall>y\<in>#D. \<not> abs_less F (dr_ratio x) (dr_ratio y))"
proof -
  let ?lt = "diffRows_Less F"
  have e: "appendRow F = go_heap.push_bounded ?lt 500" using appendRow_bounded by blast
  have "weak_order ?lt \<and> is_heap ?lt (length []) []"
    using diffRows_order [OF assms] by (simp add: is_heap_def)
  then obtain D where D: "go_heap.keeps_top ?lt 500 (mset (add_diffs F ds [])) D"
    "mset (add_diffs F ds []) + D = mset ds + (mset [] + {#})"
    using go_heap.push_bounded_fold [of ?lt "[]" 500 "{#}" ds] go_heap.keeps_top_empty unfolding e by auto
  have "length (add_diffs F ds []) = min 500 (length ds)"
    using D by (simp add: go_heap.keeps_top_def flip: size_mset)
  then show ?thesis using D by (auto simp: go_heap.keeps_top_def diffRows_Less_def)
qed

definition demo_diff :: "rat \<Rightarrow> rat diffRow" where
  "demo_diff r = \<lparr>dr_table = '''', dr_label = '''', dr_ratio = r, dr_ratioIdx = 0, dr_colName = '''', dr_v1 = '''',
     dr_v2 = '''', dr_comment = ''''\<rparr>"

lemma buffer_keeps_greatest_witness:
  "length (add_diffs rat_float (map (\<lambda>i. demo_diff (of_nat i)) [0..<501]) []) = 500"
  using buffer_keeps_greatest [OF rat_abs_order, of "map (\<lambda>i. demo_diff (of_nat i)) [0..<501]"] by auto

section \<open>The ratio of two rows\<close>

text \<open>The pair of values of a compared column; a missing cell counts as zero.\<close>

definition col_pair :: "'f gofloat \<Rightarrow> string list \<Rightarrow> string list \<Rightarrow> nat \<Rightarrow> 'f \<times> 'f" where
  "col_pair F v1 v2 i =
     (case (cell_float F v1 i, cell_float F v2 i) of (Inr f1, Inr f2) \<Rightarrow> (f1, f2) | _ \<Rightarrow> (fl_int F 0, fl_int F 0))"

definition col_ratio :: "'f gofloat \<Rightarrow> string list \<Rightarrow> string list \<Rightarrow> nat \<Rightarrow> 'f" where
  "col_ratio F v1 v2 i =
     (case col_pair F v1 v2 i of (f1, f2) \<Rightarrow> if fl_eq F f1 f2 then fl_int F 0 else pair_ratio F f1 f2)"

text \<open>A column changed from or to zero, and one changed between two other values.\<close>

definition col_changed :: "'f gofloat \<Rightarrow> string list \<Rightarrow> string list \<Rightarrow> nat \<Rightarrow> bool" where
  "col_changed F v1 v2 i = (case col_pair F v1 v2 i of (f1, f2) \<Rightarrow> \<not> fl_eq F f1 f2)"

definition col_zero :: "'f gofloat \<Rightarrow> string list \<Rightarrow> string list \<Rightarrow> nat \<Rightarrow> bool" where
  "col_zero F v1 v2 i = (case col_pair F v1 v2 i of (f1, f2) \<Rightarrow> fl_eq F f1 (fl_int F 0) \<or> fl_eq F f2 (fl_int F 0))"

text \<open>What the loop has chosen after the columns \<open>is\<close>.\<close>

definition chosen_ok :: "'f gofloat \<Rightarrow> string list \<Rightarrow> string list \<Rightarrow> nat list \<Rightarrow> 'f ratio_state \<Rightarrow> bool" where
  "chosen_ok F v1 v2 js st \<longleftrightarrow>
     rs_ratios st = map (col_ratio F v1 v2) js \<and>
     (if list_all (\<lambda>i. \<not> col_changed F v1 v2 i) js
      then rs_maxIdx st = - 1 \<and> rs_maxRatio st = fl_int F 0 \<and> \<not> rs_needBetter st
      else \<exists>i\<in>set js. rs_maxIdx st = int i \<and> rs_maxRatio st = col_ratio F v1 v2 i \<and> col_changed F v1 v2 i \<and>
        rs_needBetter st = col_zero F v1 v2 i \<and>
        (col_zero F v1 v2 i \<longrightarrow> (\<forall>j\<in>set js. col_changed F v1 v2 j \<longrightarrow> col_zero F v1 v2 j)) \<and>
        (\<forall>j\<in>set js. col_changed F v1 v2 j \<longrightarrow> col_zero F v1 v2 j = col_zero F v1 v2 i \<longrightarrow>
           \<not> abs_less F (rs_maxRatio st) (col_ratio F v1 v2 j)))"

text \<open>The float laws that the choice needs: a change has a ratio that is not zero.\<close>

definition ratios_proper :: "'f gofloat \<Rightarrow> string list \<Rightarrow> string list \<Rightarrow> nat list \<Rightarrow> bool" where
  "ratios_proper F v1 v2 js \<longleftrightarrow> fl_eq F (fl_int F 0) (fl_int F 0) \<and>
     (\<forall>i\<in>set js. col_changed F v1 v2 i \<longrightarrow>
        abs_less F (fl_int F 0) (col_ratio F v1 v2 i) \<and> \<not> fl_eq F (col_ratio F v1 v2 i) (fl_int F 0))"

lemma ratio_step_chosen:
  assumes w: "weak_order (abs_less F)" and p: "ratios_proper F v1 v2 (js @ [ix])"
    and c: "cell_float F v1 ix = Inr f1" "cell_float F v2 ix = Inr f2" and inv: "chosen_ok F v1 v2 js st"
  shows "chosen_ok F v1 v2 (js @ [ix]) (ratio_step F ix f1 f2 st)"
proof -
  have pair: "col_pair F v1 v2 ix = (f1, f2)" using c by (simp add: col_pair_def)
  show ?thesis
  proof (cases "fl_eq F f1 f2")
    case True
    then have "\<not> col_changed F v1 v2 ix" "col_ratio F v1 v2 ix = fl_int F 0"
      using pair by (simp_all add: col_changed_def col_ratio_def)
    then show ?thesis using inv True by (auto simp: chosen_ok_def ratio_step_def Let_def)
  next
    case False
    have ch: "col_changed F v1 v2 ix" and r: "col_ratio F v1 v2 ix = pair_ratio F f1 f2"
      and z: "col_zero F v1 v2 ix = (fl_eq F f1 (fl_int F 0) \<or> fl_eq F f2 (fl_int F 0))"
      using False pair by (simp_all add: col_changed_def col_ratio_def col_zero_def)
    have zero: "abs_less F (fl_int F 0) (col_ratio F v1 v2 ix)" "fl_eq F (fl_int F 0) (fl_int F 0)"
      using p ch by (auto simp: ratios_proper_def)
    show ?thesis
    proof (cases "list_all (\<lambda>i. \<not> col_changed F v1 v2 i) js")
      case True
      then have st: "rs_maxIdx st = - 1" "rs_maxRatio st = fl_int F 0" "\<not> rs_needBetter st"
        "rs_ratios st = map (col_ratio F v1 v2) js" using inv by (auto simp: chosen_ok_def)
      have irr: "\<not> abs_less F (col_ratio F v1 v2 ix) (col_ratio F v1 v2 ix)"
        using weak_order_irrefl [OF w] .
      have "ratio_step F ix f1 f2 st = st\<lparr>rs_ratios := map (col_ratio F v1 v2) (js @ [ix]),
          rs_maxRatio := col_ratio F v1 v2 ix, rs_needBetter := col_zero F v1 v2 ix, rs_maxIdx := int ix\<rparr>"
        using st zero False r z by (simp add: ratio_step_def Let_def)
      moreover have "\<forall>j\<in>set js. \<not> col_changed F v1 v2 j" using True by (simp add: list_all_iff)
      ultimately show ?thesis using ch irr by (auto simp: chosen_ok_def)
    next
      case F: False
      then obtain i where i: "i \<in> set js" "rs_maxIdx st = int i" "rs_maxRatio st = col_ratio F v1 v2 i"
        "col_changed F v1 v2 i" "rs_needBetter st = col_zero F v1 v2 i"
        "col_zero F v1 v2 i \<longrightarrow> (\<forall>j\<in>set js. col_changed F v1 v2 j \<longrightarrow> col_zero F v1 v2 j)"
        "\<forall>j\<in>set js. col_changed F v1 v2 j \<longrightarrow> col_zero F v1 v2 j = col_zero F v1 v2 i \<longrightarrow>
           \<not> abs_less F (rs_maxRatio st) (col_ratio F v1 v2 j)"
        "rs_ratios st = map (col_ratio F v1 v2) js"
        using inv by (auto simp: chosen_ok_def)
      have nz: "\<not> fl_eq F (rs_maxRatio st) (fl_int F 0)" using p i by (auto simp: ratios_proper_def)
      let ?z = "col_zero F v1 v2 ix"
      have step: "ratio_step F ix f1 f2 st =
          (let st' = st\<lparr>rs_ratios := map (col_ratio F v1 v2) (js @ [ix])\<rparr> in
           if ?z \<and> \<not> rs_needBetter st then st'
           else if abs_less F (rs_maxRatio st) (col_ratio F v1 v2 ix) \<or> (rs_needBetter st \<and> \<not> ?z)
           then st'\<lparr>rs_maxRatio := col_ratio F v1 v2 ix, rs_needBetter := ?z, rs_maxIdx := int ix\<rparr>
           else st')"
        using i(8) nz False r z by (simp add: ratio_step_def Let_def)
      have irr: "\<not> abs_less F x x" for x using weak_order_irrefl [OF w] .
      have tr: "abs_less F x y \<Longrightarrow> \<not> abs_less F x u \<Longrightarrow> \<not> abs_less F y u" for x y u
        using weak_order_trans [OF w] weak_order_asym [OF w] by blast
      have na: "\<not> list_all (\<lambda>i. \<not> col_changed F v1 v2 i) (js @ [ix])" using F by simp
      consider "?z" "\<not> rs_needBetter st" | "\<not> (?z \<and> \<not> rs_needBetter st)" "rs_needBetter st \<and> \<not> ?z"
        | "rs_needBetter st = ?z" "abs_less F (rs_maxRatio st) (col_ratio F v1 v2 ix)"
        | "rs_needBetter st = ?z" "\<not> abs_less F (rs_maxRatio st) (col_ratio F v1 v2 ix)" by blast
      then show ?thesis
      proof cases
        case 1
        then show ?thesis
          using i na step unfolding chosen_ok_def by (auto simp: Let_def intro!: bexI [of _ i])
      next
        case 2
        then have "\<forall>j\<in>set js. col_changed F v1 v2 j \<longrightarrow> col_zero F v1 v2 j" using i(5,6) by simp
        then show ?thesis
          using 2 i(8) na step ch irr unfolding chosen_ok_def by (auto simp: Let_def)
      next
        case 3
        then have "\<forall>j\<in>set js. col_changed F v1 v2 j \<longrightarrow> col_zero F v1 v2 j = ?z \<longrightarrow>
            \<not> abs_less F (col_ratio F v1 v2 ix) (col_ratio F v1 v2 j)"
          using i(5,7) tr by blast
        moreover have "?z \<longrightarrow> (\<forall>j\<in>set js. col_changed F v1 v2 j \<longrightarrow> col_zero F v1 v2 j)"
          using 3 i(5,6) by simp
        ultimately show ?thesis
          using 3 i(8) na step ch irr unfolding chosen_ok_def by (auto simp: Let_def)
      next
        case 4
        then show ?thesis
          using i na step ch unfolding chosen_ok_def by (auto simp: Let_def intro!: bexI [of _ i])
      qed
    qed
  qed
qed

lemma ratio_loop_chosen:
  assumes w: "weak_order (abs_less F)" and v: "cells_or_nil F t v1" "cells_or_nil F t v2"
  shows "set js' \<subseteq> set (compareColumns t) \<Longrightarrow> ratios_proper F v1 v2 (js @ js') \<Longrightarrow> chosen_ok F v1 v2 js st \<Longrightarrow>
    \<exists>st'. ratio_loop F v1 v2 js' st = Returns st' \<and> chosen_ok F v1 v2 (js @ js') st'"
proof (induction js' arbitrary: js st)
  case (Cons ix js')
  obtain f1 f2 where f: "cell_float F v1 ix = Inr f1" "cell_float F v2 ix = Inr f2"
    using cell_float_ok [OF v(1)] cell_float_ok [OF v(2)] Cons.prems(1) by (metis insert_subset list.simps(15))
  have "ratios_proper F v1 v2 (js @ [ix])" using Cons.prems(2) by (auto simp: ratios_proper_def)
  then have "chosen_ok F v1 v2 (js @ [ix]) (ratio_step F ix f1 f2 st)"
    by (rule ratio_step_chosen [OF w _ f Cons.prems(3)])
  then show ?case using Cons.IH [of "js @ [ix]"] Cons.prems f by simp
qed simp

text \<open>
  The ratio of two rows. Every compared column has its ratio; the row stands for the column
  of greatest absolute ratio among the columns that changed between two values other than
  zero, and only when there is none among those that changed from or to zero; a row without a
  change has ratio 0 and no column.
\<close>

theorem calculateDiffRatio_choice:
  assumes "weak_order (abs_less F)" and "cells_or_nil F t v1" "cells_or_nil F t v2"
    and "v1 \<noteq> [] \<or> v2 \<noteq> []" and "compareColumns t \<noteq> []"
    and "ratios_proper F v1 v2 (compareColumns t)"
  shows "\<exists>r rs ix. calculateDiffRatio F v1 v2 t = Returns (r, rs, ix) \<and>
    rs = map (col_ratio F v1 v2) (compareColumns t) \<and>
    (if list_all (\<lambda>i. \<not> col_changed F v1 v2 i) (compareColumns t) then r = fl_int F 0 \<and> ix = - 1
     else \<exists>i\<in>set (compareColumns t). ix = int i \<and> r = col_ratio F v1 v2 i \<and> col_changed F v1 v2 i \<and>
       (\<forall>j\<in>set (compareColumns t). col_changed F v1 v2 j \<longrightarrow>
          (col_zero F v1 v2 i \<longrightarrow> col_zero F v1 v2 j) \<and>
          (col_zero F v1 v2 j = col_zero F v1 v2 i \<longrightarrow> \<not> abs_less F r (col_ratio F v1 v2 j))))"
proof -
  let ?st = "\<lparr>rs_ratios = [], rs_maxRatio = fl_int F 0, rs_needBetter = False, rs_maxIdx = - 1\<rparr>"
  have "chosen_ok F v1 v2 [] ?st" by (simp add: chosen_ok_def)
  then obtain st where st: "ratio_loop F v1 v2 (compareColumns t) ?st = Returns st"
    "chosen_ok F v1 v2 (compareColumns t) st"
    using ratio_loop_chosen [OF assms(1-3) subset_refl, of "[]"] assms(6) by auto
  have "calculateDiffRatio F v1 v2 t = Returns (rs_maxRatio st, rs_ratios st, rs_maxIdx st)"
    using st(1) assms(4,5) by (auto simp: calculateDiffRatio_def)
  moreover have "rs_ratios st = map (col_ratio F v1 v2) (compareColumns t)"
    using st(2) by (simp add: chosen_ok_def)
  moreover have "if list_all (\<lambda>i. \<not> col_changed F v1 v2 i) (compareColumns t)
     then rs_maxRatio st = fl_int F 0 \<and> rs_maxIdx st = - 1
     else \<exists>i\<in>set (compareColumns t). rs_maxIdx st = int i \<and> rs_maxRatio st = col_ratio F v1 v2 i \<and>
       col_changed F v1 v2 i \<and>
       (\<forall>j\<in>set (compareColumns t). col_changed F v1 v2 j \<longrightarrow>
          (col_zero F v1 v2 i \<longrightarrow> col_zero F v1 v2 j) \<and>
          (col_zero F v1 v2 j = col_zero F v1 v2 i \<longrightarrow> \<not> abs_less F (rs_maxRatio st) (col_ratio F v1 v2 j)))"
    using st(2) unfolding chosen_ok_def by (auto split: if_splits)
  ultimately show ?thesis by blast
qed

text \<open>The change of the second column is smaller, but it is not from zero: the row stands for it.\<close>

definition demo_ratio_table :: "rat TableDef" where
  "demo_ratio_table = (demo_diag_table [])\<lparr>compareColumns := [0, 2]\<rparr>"

lemma calculateDiffRatio_choice_witness:
  "calculateDiffRatio rat_float [''0'', ''a'', ''1''] [''9'', ''a'', ''2''] demo_ratio_table = Returns (1, [9, 1], 2)"
proof -
  have p: "parseFloat rat_float ''9'' = Inr 9" "parseFloat rat_float ''2'' = Inr 2"
    by (simp_all add: parseFloat_def suffix_ratios_def has_suffix_def rat_Parse_def digit_value_def byte_of_def Let_def)
  let ?v = "[''0'', ''a'', ''1'']" and ?w = "[''9'', ''a'', ''2'']"
  have c: "compareColumns demo_ratio_table = [0, 2]" "Column demo_ratio_table = [''c1'', ''c2'', ''c3'']"
    by (simp_all add: demo_ratio_table_def demo_diag_table_def)
  have cells: "cells_or_nil rat_float demo_ratio_table ?v" "cells_or_nil rat_float demo_ratio_table ?w"
    by (simp_all add: cells_or_nil_def cells_ok_def c p parse_digit_cell)
  have cols: "col_pair rat_float ?v ?w 0 = (0, 9)" "col_pair rat_float ?v ?w 2 = (1, 2)"
    by (simp_all add: col_pair_def cell_float_def p parse_digit_cell)
  then have "col_ratio rat_float ?v ?w 0 = 9" "col_ratio rat_float ?v ?w 2 = 1"
    "col_changed rat_float ?v ?w 0" "col_changed rat_float ?v ?w 2" "col_zero rat_float ?v ?w 0" "\<not> col_zero rat_float ?v ?w 2"
    by (simp_all add: col_ratio_def pair_ratio_def col_changed_def col_zero_def Let_def)
  then show ?thesis
    using calculateDiffRatio_choice [OF rat_abs_order cells] by (auto simp: c ratios_proper_def abs_less_def)
qed

section \<open>The table of the differences\<close>

text \<open>
  The reference: the differences grouped by metric name and compared column, groups in the
  order of their first difference; a group shows its first difference, and under it the
  following ones, leaving out those that show the same change as the one shown before.
\<close>

definition diff_key :: "'f diffRow \<Rightarrow> string \<times> int" where
  "diff_key d = (label_name (dr_label d), dr_ratioIdx d)"

fun thin :: "string list \<Rightarrow> string list list \<Rightarrow> string list list" where
  "thin shown [] = []"
| "thin shown (v # vs) = (if same_change v shown then thin shown vs else v # thin v vs)"

definition group_row :: "'f gofloat \<Rightarrow> 'f diffRow list \<Rightarrow> 'f TableRowDef" where
  "group_row F ds =
     (row_of F (diff_values F (hd ds)))\<lparr>
       SubValues := thin (diff_values F (hd ds)) (map (diff_values F) (tl ds)), row_Comment := dr_comment (hd ds)\<rparr>"

definition firsts :: "'k list \<Rightarrow> 'k list" where
  "firsts ks = rev (remdups (rev ks))"

definition diff_groups :: "'f gofloat \<Rightarrow> 'f diffRow list \<Rightarrow> 'f TableRowDef list" where
  "diff_groups F ds =
     (let ds = filter (\<lambda>d. label_name (dr_label d) \<noteq> '''') ds in
      map (\<lambda>k. group_row F (filter (\<lambda>d. diff_key d = k) ds)) (firsts (map diff_key ds)))"

lemma firsts_snoc: "firsts (ks @ [k]) = (if k \<in> set ks then firsts ks else firsts ks @ [k])"
  by (simp add: firsts_def)

lemma set_firsts [simp]: "set (firsts ks) = set ks"
  by (simp add: firsts_def)

lemma distinct_firsts [simp]: "distinct (firsts ks)"
  by (simp add: firsts_def)

text \<open>What is shown last in a group.\<close>

fun shown_last :: "string list \<Rightarrow> string list list \<Rightarrow> string list" where
  "shown_last shown [] = shown"
| "shown_last shown (v # vs) = (if same_change v shown then shown_last shown vs else shown_last v vs)"

lemma thin_snoc:
  "thin shown (vs @ [v]) = (if same_change v (shown_last shown vs) then thin shown vs else thin shown vs @ [v])"
  by (induction vs arbitrary: shown) auto

lemma shown_last_thin:
  "shown_last shown vs = (if thin shown vs = [] then shown else last (thin shown vs))"
  by (induction vs arbitrary: shown) auto

lemma last_values_group:
  "last_values (group_row F ds) = shown_last (diff_values F (hd ds)) (map (diff_values F) (tl ds))"
  by (simp add: last_values_def group_row_def row_of_def row_zero_def shown_last_thin last_conv_nth)

lemma group_row_snoc:
  assumes "ds \<noteq> []"
  shows "group_row F (ds @ [d]) =
    (if same_change (diff_values F d) (last_values (group_row F ds)) then group_row F ds
     else (group_row F ds)\<lparr>SubValues := SubValues (group_row F ds) @ [diff_values F d]\<rparr>)"
  using assms by (simp add: last_values_group) (simp add: group_row_def thin_snoc row_of_def row_zero_def)

definition map_indices :: "('k \<rightharpoonup> nat) \<Rightarrow> 'k list \<Rightarrow> bool" where
  "map_indices m ks \<longleftrightarrow> (\<forall>k i. m k = Some i \<longleftrightarrow> i < length ks \<and> ks ! i = k)"

lemma map_indices_None: "map_indices m ks \<Longrightarrow> m k = None \<longleftrightarrow> k \<notin> set ks"
  unfolding map_indices_def by (metis in_set_conv_nth not_Some_eq)

lemma map_indices_snoc: "map_indices m ks \<Longrightarrow> m k = None \<Longrightarrow> map_indices (m(k \<mapsto> length ks)) (ks @ [k])"
  using map_indices_None [of m ks k] by (auto simp: map_indices_def nth_append less_Suc_eq)

abbreviation named_diffs :: "'f diffRow list \<Rightarrow> 'f diffRow list" where
  "named_diffs ds \<equiv> filter (\<lambda>d. label_name (dr_label d) \<noteq> '''') ds"

lemma diff_groups_snoc:
  fixes d :: "'f diffRow" and ds :: "'f diffRow list"
  assumes d: "label_name (dr_label d) \<noteq> ''''"
  defines "ks \<equiv> firsts (map diff_key (named_diffs ds))"
  shows "diff_key d \<notin> set ks \<Longrightarrow> diff_groups F (ds @ [d]) = diff_groups F ds @ [group_row F [d]]"
    and "i < length ks \<Longrightarrow> ks ! i = diff_key d \<Longrightarrow> diff_groups F (ds @ [d]) =
      (diff_groups F ds)[i := group_row F (filter (\<lambda>x. diff_key x = diff_key d) (named_diffs ds) @ [d])]"
proof -
  let ?n = "named_diffs ds"
  have other: "filter (\<lambda>x. diff_key x = k) (?n @ [d]) = filter (\<lambda>x. diff_key x = k) ?n" if "k \<noteq> diff_key d" for k
    using that by auto
  {
    assume new: "diff_key d \<notin> set ks"
    then have nn: "diff_key d \<notin> diff_key ` set ?n" by (simp add: ks_def)
    have "\<forall>x\<in>set ?n. diff_key x \<noteq> diff_key d" using nn by (metis (mono_tags, lifting) image_eqI)
    then have e: "filter (\<lambda>x. diff_key x = diff_key d) ?n = []" unfolding filter_empty_conv .
    have "map (\<lambda>k. group_row F (filter (\<lambda>x. diff_key x = k) (?n @ [d]))) ks =
        map (\<lambda>k. group_row F (filter (\<lambda>x. diff_key x = k) ?n)) ks"
    proof (rule map_cong [OF refl])
      fix k
      assume "k \<in> set ks"
      then have "k \<noteq> diff_key d" using new by blast
      then show "group_row F (filter (\<lambda>x. diff_key x = k) (?n @ [d])) = group_row F (filter (\<lambda>x. diff_key x = k) ?n)"
        by (simp add: other)
    qed
    then show "diff_groups F (ds @ [d]) = diff_groups F ds @ [group_row F [d]]"
      using d nn e by (simp add: diff_groups_def Let_def firsts_snoc ks_def)
  }
  {
    assume i: "i < length ks" "ks ! i = diff_key d"
    then have "diff_key d \<in> diff_key ` set ?n" unfolding ks_def by (metis nth_mem set_firsts set_map)
    then have "diff_groups F (ds @ [d]) = map (\<lambda>k. group_row F (filter (\<lambda>x. diff_key x = k) (?n @ [d]))) ks"
      using d by (simp add: diff_groups_def Let_def firsts_snoc ks_def)
    also have "\<dots> = (map (\<lambda>k. group_row F (filter (\<lambda>x. diff_key x = k) ?n)) ks)
        [i := group_row F (filter (\<lambda>x. diff_key x = diff_key d) ?n @ [d])]"
    proof (rule nth_equalityI)
      fix j
      assume "j < length (map (\<lambda>k. group_row F (filter (\<lambda>x. diff_key x = k) (?n @ [d]))) ks)"
      then have j: "j < length ks" by simp
      have "distinct ks" by (simp add: ks_def)
      then have "ks ! j = diff_key d \<longleftrightarrow> j = i" using i j by (metis nth_eq_iff_index_eq)
      then show "map (\<lambda>k. group_row F (filter (\<lambda>x. diff_key x = k) (?n @ [d]))) ks ! j =
          (map (\<lambda>k. group_row F (filter (\<lambda>x. diff_key x = k) ?n)) ks)
            [i := group_row F (filter (\<lambda>x. diff_key x = diff_key d) ?n @ [d])] ! j"
        using j i other [of "ks ! j"] by (cases "j = i") simp_all
    qed simp
    finally show "diff_groups F (ds @ [d]) =
        (diff_groups F ds)[i := group_row F (filter (\<lambda>x. diff_key x = diff_key d) ?n @ [d])]"
      by (simp add: diff_groups_def Let_def ks_def)
  }
qed

lemma diff_step_unnamed: "label_name (dr_label d) = '''' \<Longrightarrow> diff_step F d s = s"
  by (simp add: diff_step_def Let_def split_beta)

lemma diff_step_new:
  "label_name (dr_label d) \<noteq> '''' \<Longrightarrow> m (diff_key d) = None \<Longrightarrow>
   diff_step F d (rows, m) = (rows @ [group_row F [d]], m(diff_key d \<mapsto> length rows))"
  by (simp add: diff_step_def Let_def group_row_def row_of_def row_zero_def diff_key_def)

lemma diff_step_old:
  assumes "label_name (dr_label d) \<noteq> ''''" and "m (diff_key d) = Some i" and "i < length rows"
    and "rows ! i = group_row F ds" and "ds \<noteq> []"
  shows "diff_step F d (rows, m) = (rows[i := group_row F (ds @ [d])], m)"
  using assms group_row_snoc [OF assms(5), of F d] list_update_id [of rows i]
  by (auto simp: diff_step_def Let_def diff_key_def)

lemma diff_fold_groups:
  "\<exists>m. fold (diff_step F) ds ([], Map.empty) = (diff_groups F ds, m) \<and>
    map_indices m (firsts (map diff_key (named_diffs ds)))"
proof (induction ds rule: rev_induct)
  case Nil
  then show ?case by (simp add: diff_groups_def map_indices_def firsts_def)
next
  case (snoc d ds)
  let ?ks = "firsts (map diff_key (named_diffs ds))"
  obtain m where m: "fold (diff_step F) ds ([], Map.empty) = (diff_groups F ds, m)" "map_indices m ?ks"
    using snoc by blast
  show ?case
  proof (cases "label_name (dr_label d) = ''''")
    case True
    then have "diff_groups F (ds @ [d]) = diff_groups F ds" "named_diffs (ds @ [d]) = named_diffs ds"
      by (simp_all add: diff_groups_def)
    then show ?thesis using m diff_step_unnamed [OF True] by simp
  next
    case False
    have len: "length (diff_groups F ds) = length ?ks" by (simp add: diff_groups_def Let_def)
    show ?thesis
    proof (cases "m (diff_key d)")
      case None
      then have n: "diff_key d \<notin> set ?ks" using map_indices_None [OF m(2)] by blast
      have "firsts (map diff_key (named_diffs (ds @ [d]))) = ?ks @ [diff_key d]"
        using False n by (simp add: firsts_snoc)
      then show ?thesis
        using m(1) len diff_groups_snoc(1) [OF False n] map_indices_snoc [OF m(2) None]
          diff_step_new [where m = m, OF False None, of F "diff_groups F ds"] by simp
    next
      case (Some i)
      then have i: "i < length ?ks" "?ks ! i = diff_key d" using m(2) unfolding map_indices_def by blast+
      have "?ks ! i \<in> set ?ks" using i(1) by (rule nth_mem)
      then have mem: "diff_key d \<in> set (map diff_key (named_diffs ds))" unfolding i(2) set_firsts .
      let ?g = "filter (\<lambda>x. diff_key x = diff_key d) (named_diffs ds)"
      obtain x where "x \<in> set (named_diffs ds)" "diff_key x = diff_key d" using mem by auto
      then have ne: "?g \<noteq> []" unfolding filter_empty_conv by blast
      have ri: "diff_groups F ds ! i = group_row F ?g" using i by (simp add: diff_groups_def Let_def)
      have "diff_step F d (diff_groups F ds, m) = (diff_groups F (ds @ [d]), m)"
        using diff_step_old [where m = m, OF False Some _ ri ne] len i(1) diff_groups_snoc(2) [OF False i] by simp
      moreover have "firsts (map diff_key (named_diffs (ds @ [d]))) = ?ks"
        using mem False by (simp add: firsts_snoc)
      ultimately show ?thesis using m by simp
    qed
  qed
qed

text \<open>
  The table of the differences is the grouping of the sorted differences: one row for each
  metric name and compared column, in the order of its first (greatest) difference, which the
  row shows; the following differences of the group are its sub rows, without those that repeat
  the change shown before them.
\<close>

theorem GenerateDiffTable_groups:
  "Rows (GenerateDiffTable E dr) = Some (diff_groups (de_float E) (sort_Slice (de_sort E) (diff_Less (de_float E)) dr)) \<and>
   length (table_rows (GenerateDiffTable E dr)) =
     card (diff_key ` {d \<in> set (sort_Slice (de_sort E) (diff_Less (de_float E)) dr). label_name (dr_label d) \<noteq> ''''})"
proof -
  let ?ds = "sort_Slice (de_sort E) (diff_Less (de_float E)) dr"
  have r: "Rows (GenerateDiffTable E dr) = Some (diff_groups (de_float E) ?ds)"
    using diff_fold_groups [of "de_float E" ?ds] by (auto simp: GenerateDiffTable_def Let_def)
  have "length (diff_groups (de_float E) ?ds) = card (set (map diff_key (named_diffs ?ds)))"
    by (simp add: diff_groups_def Let_def firsts_def length_remdups_card_conv)
  then show ?thesis using r by simp
qed

end
