(* ===== verification/DiagConfig.thy ===== *)
theory DiagConfig
  imports DiagJoin
begin

text \<open>
  The comparison of two configuration tables, whose labels repeat: every row of the first table
  takes the first remaining row of the second one with its label, and the rows that remain stand
  alone. The loops over the maps are shown to do this for every order in which Go ranges over a
  map, and to end.
\<close>

section \<open>The reference\<close>

fun remove_label :: "'f TableDef \<Rightarrow> string \<Rightarrow> 'f TableRowDef list \<Rightarrow> 'f TableRowDef list" where
  "remove_label t l [] = []"
| "remove_label t l (r # rs) = (if label_of t (Values r) = l then rs else r # remove_label t l rs)"

fun config_match ::
  "'f gofloat \<Rightarrow> 'f TableDef \<Rightarrow> 'f TableRowDef list \<Rightarrow> 'f TableRowDef list \<Rightarrow> ('f TableRowDef \<times> 'f TableRowDef) list" where
  "config_match F t [] rows2 = map (\<lambda>r. (row_zero F, r)) rows2"
| "config_match F t (r # rows1) rows2 =
     (let l = label_of t (Values r) in
      (r, find_row F t rows2 l) # config_match F t rows1 (remove_label t l rows2))"

section \<open>The map of the rows by label\<close>

abbreviation with_label :: "'f TableDef \<Rightarrow> string \<Rightarrow> 'f TableRowDef list \<Rightarrow> 'f TableRowDef list" where
  "with_label t l rows \<equiv> filter (\<lambda>r. label_of t (Values r) = l) rows"

text \<open>The map holds the rows of a list by their labels, and no empty entry.\<close>

definition holds :: "'f TableDef \<Rightarrow> 'f rows_map \<Rightarrow> 'f TableRowDef list \<Rightarrow> bool" where
  "holds t m rows \<longleftrightarrow> distinct (map fst m) \<and>
     (\<forall>l. map_of m l = (if with_label t l rows = [] then None else Some (with_label t l rows)))"

lemma holds_distinct: "holds t m rows \<Longrightarrow> distinct (map fst m)"
  by (simp add: holds_def)

lemma holds_Some: "holds t m rows \<Longrightarrow> map_of m l = Some rs \<Longrightarrow> rs = with_label t l rows \<and> rs \<noteq> []"
  by (auto simp: holds_def split: if_splits)

lemma holds_None: "holds t m rows \<Longrightarrow> map_of m l = None \<Longrightarrow> with_label t l rows = []"
  by (auto simp: holds_def split: if_splits)

lemma holds_Nil: "holds t m [] \<longleftrightarrow> m = []"
  by (cases m) (auto simp: holds_def)

lemma holds_nil_rows: "holds t [] rows \<Longrightarrow> rows = []"
  by (cases rows) (auto simp: holds_def split: if_splits)

lemma holds_update:
  assumes "holds t m rows" and "rs \<noteq> []" and "with_label t l rows' = rs"
    and "\<And>l'. l' \<noteq> l \<Longrightarrow> with_label t l' rows' = with_label t l' rows"
  shows "holds t (AList.update l rs m) rows'"
  using assms by (auto simp: holds_def distinct_update update_conv')

lemma holds_delete:
  assumes "holds t m rows" and "with_label t l rows' = []"
    and "\<And>l'. l' \<noteq> l \<Longrightarrow> with_label t l' rows' = with_label t l' rows"
  shows "holds t (AList.delete l m) rows'"
  using assms by (auto simp: holds_def distinct_delete delete_conv')

lemma rows_map_loop_ok:
  assumes t: "schema_ok t"
  shows "\<forall>r\<in>set rows. row_ok F t r \<Longrightarrow> holds t m done \<Longrightarrow>
    \<exists>m'. rows_map_loop t rows m = Returns m' \<and> holds t m' (done @ rows)"
proof (induction rows arbitrary: m "done")
  case (Cons r rows)
  let ?l = "label_of t (Values r)"
  have l: "genRowLabel (Values r) (joinColumns t) = Returns ?l"
    using Cons.prems(1) by (intro genRowLabel_ok [OF t]) (simp add: row_ok_def cells_ok_def)
  have "(case map_of m ?l of None \<Rightarrow> [] | Some rs \<Rightarrow> rs) = with_label t ?l done"
    using holds_Some [OF Cons.prems(2)] holds_None [OF Cons.prems(2)] by (auto split: option.splits)
  then have "holds t (AList.update ?l ((case map_of m ?l of None \<Rightarrow> [] | Some rs \<Rightarrow> rs) @ [r]) m) (done @ [r])"
    using Cons.prems(2) by (intro holds_update) auto
  then show ?case using Cons.IH [of _ "done @ [r]"] Cons.prems(1) l by simp
qed simp

lemma config_map_ok:
  assumes "table_ok F t"
  shows "\<exists>m. getTableLablesMapWithNonUniqueJoinKey t = Returns m \<and> holds t m (table_rows t)"
proof -
  have t: "schema_ok t" "\<forall>r\<in>set (table_rows t). row_ok F t r" using assms by (auto simp: table_ok_def)
  have "holds t [] []" by (simp add: holds_def)
  then obtain m where "rows_map_loop t (table_rows t) [] = Returns m" "holds t m (table_rows t)"
    using rows_map_loop_ok [OF t, of "[]" "[]"] by auto
  then show ?thesis using t(1) by (simp add: getTableLablesMapWithNonUniqueJoinKey_def schema_ok_def)
qed

section \<open>The rows of the first table\<close>

lemma with_label_remove:
  "with_label t l (remove_label t l rows) = tl (with_label t l rows)"
  "l' \<noteq> l \<Longrightarrow> with_label t l' (remove_label t l rows) = with_label t l' rows"
  by (induction rows) auto

lemma find_row_with_label:
  "find_row F t rows l = (case with_label t l rows of [] \<Rightarrow> row_zero F | r # _ \<Rightarrow> r)"
proof (induction rows)
  case (Cons r rows)
  then show ?case by (simp add: find_row_def)
qed (simp add: find_row_def)

lemma take_row2_ok:
  assumes "holds t m rows"
  shows "\<exists>m'. take_row2 E l m = (find_row (de_float E) t rows l, m') \<and> holds t m' (remove_label t l rows)"
proof (cases "map_of m l")
  case None
  then have n: "with_label t l rows = []" using holds_None [OF assms] by blast
  have "holds t (AList.delete l m) (remove_label t l rows)"
    using n by (intro holds_delete [OF assms]) (simp_all add: with_label_remove)
  then show ?thesis using None n by (simp add: take_row2_def find_row_with_label)
next
  case (Some rs)
  then obtain r rest where r: "rs = r # rest" "with_label t l rows = r # rest"
    using holds_Some [OF assms] by (cases rs) auto
  have "holds t (if rest = [] then AList.delete l m else AList.update l rest m) (remove_label t l rows)"
    using r by (auto intro!: holds_delete [OF assms] holds_update [OF assms] simp: with_label_remove)
  then show ?thesis using Some r by (simp add: take_row2_def find_row_with_label)
qed

lemma drop_row1_ok:
  assumes "holds t m (r # rows)"
  shows "holds t (drop_row1 (label_of t (Values r)) m) rows"
proof -
  let ?l = "label_of t (Values r)"
  have m: "map_of m ?l = Some (r # with_label t ?l rows)" using assms by (simp add: holds_def)
  have o: "with_label t l' rows = with_label t l' (r # rows)" if "l' \<noteq> ?l" for l' using that by simp
  show ?thesis
  proof (cases "with_label t ?l rows = []")
    case True
    then show ?thesis using m by (simp add: drop_row1_def) (rule holds_delete [OF assms True o])
  next
    case False
    then show ?thesis using m by (simp add: drop_row1_def) (rule holds_update [OF assms False refl o])
  qed
qed

definition log_pairs ::
  "'f gofloat \<Rightarrow> 'f TableDef \<Rightarrow> ('f TableRowDef \<times> 'f TableRowDef) list \<Rightarrow> 'f diffRow list \<Rightarrow> 'f diffRow list" where
  "log_pairs F t ps = add_diffs F (concat (map (\<lambda>(r1, r2). row_diffs F t r1 r2) ps))"

lemma row_found: "\<forall>r\<in>set rows. row_ok F t r \<Longrightarrow> row_or_zero F t (find_row F t rows l)"
  by (auto simp: find_row_def row_or_zero_def find_Some_iff split: option.splits)

lemma set_remove_label: "set (remove_label t l rows) \<subseteq> set rows"
  by (induction rows) auto

fun taken_pairs ::
  "'f gofloat \<Rightarrow> 'f TableDef \<Rightarrow> 'f TableRowDef list \<Rightarrow> 'f TableRowDef list \<Rightarrow> ('f TableRowDef \<times> 'f TableRowDef) list" where
  "taken_pairs F t [] rows2 = []"
| "taken_pairs F t (r # rows1) rows2 =
     (let l = label_of t (Values r) in (r, find_row F t rows2 l) # taken_pairs F t rows1 (remove_label t l rows2))"

definition left_over :: "'f TableDef \<Rightarrow> 'f TableRowDef list \<Rightarrow> 'f TableRowDef list \<Rightarrow> 'f TableRowDef list" where
  "left_over t rows1 rows2 = fold (\<lambda>r. remove_label t (label_of t (Values r))) rows1 rows2"

lemma config_match_parts:
  "config_match F t rows1 rows2 = taken_pairs F t rows1 rows2 @ map (\<lambda>r. (row_zero F, r)) (left_over t rows1 rows2)"
  by (induction rows1 arbitrary: rows2) (auto simp: left_over_def Let_def)

lemma config_lefts_ok:
  assumes srt: "go_sort_ok (de_sort E)" and t: "schema_ok t"
  shows "\<forall>r\<in>set rows1. row_ok (de_float E) t r \<Longrightarrow> \<forall>r\<in>set rows2. row_ok (de_float E) t r \<Longrightarrow>
    holds t m1 rows1 \<Longrightarrow> holds t m2 rows2 \<Longrightarrow>
    \<exists>m2'. config_lefts E t rows1 m1 m2 s =
      (Returns (map (\<lambda>(r1, r2). joined_row E t r1 r2) (taken_pairs (de_float E) t rows1 rows2), [], m2'),
       log_pairs (de_float E) t (taken_pairs (de_float E) t rows1 rows2) s) \<and>
      holds t m2' (left_over t rows1 rows2)"
proof (induction rows1 arbitrary: rows2 m1 m2 s)
  case Nil
  then show ?case using holds_Nil by (auto simp: left_over_def log_pairs_def)
next
  case (Cons r rows1)
  let ?F = "de_float E" and ?l = "label_of t (Values r)"
  let ?w = "find_row ?F t rows2 ?l"
  have r: "row_ok ?F t r" using Cons.prems(1) by simp
  then have c: "cells_ok ?F t (Values r)" by (simp add: row_ok_def)
  have l: "genRowLabel (Values r) (joinColumns t) = Returns ?l"
    using c by (intro genRowLabel_ok [OF t]) (simp add: cells_ok_def)
  obtain m2' where m2': "take_row2 E ?l m2 = (?w, m2')" "holds t m2' (remove_label t ?l rows2)"
    using take_row2_ok [OF Cons.prems(4)] by blast
  note m1' = drop_row1_ok [OF Cons.prems(3)]
  have j: "joinRow E r ?w t s = (Returns (joined_row E t r ?w), add_diffs ?F (row_diffs ?F t r ?w) s)" for s
    using r cells_length [OF t c] row_found [OF Cons.prems(2)]
    by (intro joinRow_spec [OF srt t]) (auto simp: row_or_zero_def)
  have "\<forall>r\<in>set (remove_label t ?l rows2). row_ok ?F t r"
    using Cons.prems(2) set_remove_label [of t ?l rows2] by blast
  then obtain m where "config_lefts E t rows1 (drop_row1 ?l m1) m2' (add_diffs ?F (row_diffs ?F t r ?w) s) =
      (Returns (map (\<lambda>(r1, r2). joined_row E t r1 r2) (taken_pairs ?F t rows1 (remove_label t ?l rows2)), [], m),
       log_pairs ?F t (taken_pairs ?F t rows1 (remove_label t ?l rows2)) (add_diffs ?F (row_diffs ?F t r ?w) s))"
    "holds t m (left_over t rows1 (remove_label t ?l rows2))"
    using Cons.IH [OF _ _ m1' m2'(2)] Cons.prems(1) by (metis list.set_intros(2))
  then show ?case
    using l m2'(1) j by (simp add: op_bind_def Let_def log_pairs_def left_over_def)
qed

section \<open>The rows that remain\<close>

lemma log_pairs_append: "log_pairs F t (ps @ qs) s = log_pairs F t qs (log_pairs F t ps s)"
  by (simp add: log_pairs_def)

lemma mset_remove_label: "with_label t l rows = r # rs \<Longrightarrow> mset rows = add_mset r (mset (remove_label t l rows))"
  by (induction rows) (auto split: if_splits)

lemma config_range_ok:
  assumes srt: "go_sort_ok (de_sort E)" and t: "schema_ok t"
  shows "\<forall>r\<in>set rows2. row_ok (de_float E) t r \<Longrightarrow> holds t m2 rows2 \<Longrightarrow>
    \<exists>rs m2' rows2'. config_range E t labels [] m2 s =
      (Returns (map (joined_row E t (row_zero (de_float E))) rs, [], m2'),
       log_pairs (de_float E) t (map (\<lambda>r. (row_zero (de_float E), r)) rs) s) \<and>
      holds t m2' rows2' \<and> mset rows2 = mset rs + mset rows2' \<and>
      ((\<exists>l\<in>set labels. map_of m2 l \<noteq> None) \<longrightarrow> rs \<noteq> [])"
proof (induction labels arbitrary: rows2 m2 s)
  case Nil
  then show ?case by (intro exI [of _ "[]"] exI [of _ m2] exI [of _ rows2]) (simp add: log_pairs_def)
next
  case (Cons l labels)
  let ?F = "de_float E"
  show ?case
  proof (cases "map_of m2 l")
    case None
    then show ?thesis using Cons.IH [OF Cons.prems] by auto
  next
    case (Some ws)
    obtain r rest where r: "ws = r # rest" "with_label t l rows2 = r # rest"
      using holds_Some [OF Cons.prems(2) Some] by (metis neq_Nil_conv)
    let ?m = "if rest = [] then AList.delete l m2 else AList.update l rest m2"
    have h: "holds t ?m (remove_label t l rows2)"
      using r by (auto intro!: holds_delete [OF Cons.prems(2)] holds_update [OF Cons.prems(2)] simp: with_label_remove)
    have ok: "\<forall>r\<in>set (remove_label t l rows2). row_ok ?F t r"
      using Cons.prems(1) set_remove_label [of t l rows2] by blast
    have rr: "row_ok ?F t r" using Cons.prems(1) r(2) by (metis filter_is_subset list.set_intros(1) subsetD)
    then have "Values r \<noteq> []" using cells_length [OF t] by (auto simp: row_ok_def)
    then have j: "joinRow E (row_zero ?F) r t s =
        (Returns (joined_row E t (row_zero ?F) r), add_diffs ?F (row_diffs ?F t (row_zero ?F) r) s)"
      using rr by (intro joinRow_spec [OF srt t]) (auto simp: row_or_zero_def)
    obtain rs m2' rows2' where IH: "config_range E t labels [] ?m (add_diffs ?F (row_diffs ?F t (row_zero ?F) r) s) =
        (Returns (map (joined_row E t (row_zero ?F)) rs, [], m2'),
         log_pairs ?F t (map (\<lambda>r. (row_zero ?F, r)) rs) (add_diffs ?F (row_diffs ?F t (row_zero ?F) r) s))"
      "holds t m2' rows2'" "mset (remove_label t l rows2) = mset rs + mset rows2'"
      using Cons.IH [OF ok h] by blast
    have "config_range E t (l # labels) [] m2 s =
        (Returns (map (joined_row E t (row_zero ?F)) (r # rs), [], m2'),
         log_pairs ?F t (map (\<lambda>r. (row_zero ?F, r)) (r # rs)) s)"
      using Some r(1) j IH(1) by (simp add: take_row1_def Let_def op_bind_def log_pairs_def)
    moreover have "mset rows2 = mset (r # rs) + mset rows2'" using mset_remove_label [OF r(2)] IH(3) by simp
    ultimately show ?thesis using IH(2) by blast
  qed
qed

lemma set_range_order: "set (range_order E k keys) = set keys"
proof -
  let ?p = "de_range E k keys"
  show ?thesis
  proof (cases "sort ?p = sort keys")
    case True
    then have "set ?p = set keys" by (metis set_sort)
    then show ?thesis unfolding range_order_def Let_def if_P [OF True] .
  next
    case False
    show ?thesis unfolding range_order_def Let_def if_not_P [OF False] ..
  qed
qed

lemma config_rights_ok:
  assumes srt: "go_sort_ok (de_sort E)" and t: "schema_ok t"
  shows "\<forall>r\<in>set rows2. row_ok (de_float E) t r \<Longrightarrow> holds t m2 rows2 \<Longrightarrow> length rows2 \<le> fuel \<Longrightarrow>
    \<exists>rs. config_rights fuel E t k [] m2 s =
      (Returns (Some (map (joined_row E t (row_zero (de_float E))) rs)),
       log_pairs (de_float E) t (map (\<lambda>r. (row_zero (de_float E), r)) rs) s) \<and> mset rs = mset rows2"
proof (induction fuel arbitrary: rows2 m2 k s)
  case 0
  then have "rows2 = []" "m2 = []" using holds_Nil [of t m2] by simp_all
  then show ?case by (intro exI [of _ "[]"]) (simp add: log_pairs_def)
next
  case (Suc fuel)
  let ?F = "de_float E"
  show ?case
  proof (cases "m2 = []")
    case True
    then have "rows2 = []" using Suc.prems(2) holds_nil_rows by blast
    then show ?thesis using True by (intro exI [of _ "[]"]) (simp add: log_pairs_def)
  next
    case False
    then obtain p where p: "p \<in> set m2" by (cases m2) auto
    have "map_of m2 (fst p) \<noteq> None" using p by (simp add: map_of_eq_None_iff)
    then have key: "\<exists>l\<in>set (range_order E k (map fst m2)). map_of m2 l \<noteq> None"
      using p by (auto simp: set_range_order)
    obtain rs m2' rows2' where R: "config_range E t (range_order E k (map fst m2)) [] m2 s =
        (Returns (map (joined_row E t (row_zero ?F)) rs, [], m2'), log_pairs ?F t (map (\<lambda>r. (row_zero ?F, r)) rs) s)"
      "holds t m2' rows2'" "mset rows2 = mset rs + mset rows2'" "rs \<noteq> []"
      using config_range_ok [OF srt t Suc.prems(1,2)] key by blast
    have "length rows2 = length rs + length rows2'" using R(3) by (metis size_mset size_union)
    then have len: "length rows2' \<le> fuel" using R(4) Suc.prems(3) by (cases rs) auto
    have ok: "\<forall>r\<in>set rows2'. row_ok ?F t r" using Suc.prems(1) R(3) by (metis Un_iff set_mset_mset set_mset_union)
    obtain rs' where "config_rights fuel E t (k + 1) [] m2' (log_pairs ?F t (map (\<lambda>r. (row_zero ?F, r)) rs) s) =
        (Returns (Some (map (joined_row E t (row_zero ?F)) rs')),
         log_pairs ?F t (map (\<lambda>r. (row_zero ?F, r)) rs') (log_pairs ?F t (map (\<lambda>r. (row_zero ?F, r)) rs) s))"
      "mset rs' = mset rows2'"
      using Suc.IH [OF ok R(2) len] by blast
    then show ?thesis
      using False R(1,3) by (intro exI [of _ "rs @ rs'"]) (simp add: op_bind_def log_pairs_append)
  qed
qed

lemma set_left_over: "set (left_over t rows1 rows2) \<subseteq> set rows2"
proof (induction rows1 arbitrary: rows2)
  case (Cons r rows1)
  then show ?case using set_remove_label [of t "label_of t (Values r)" rows2] by (fastforce simp: left_over_def)
qed (simp add: left_over_def)

lemma length_left_over: "length (left_over t rows1 rows2) \<le> length rows2"
proof (induction rows1 arbitrary: rows2)
  case (Cons r rows1)
  have "length (remove_label t l rows2) \<le> length rows2" for l by (induction rows2) auto
  then show ?case using Cons by (auto simp: left_over_def intro: order_trans)
qed (simp add: left_over_def)

lemma config_match_rows:
  "\<forall>r\<in>set rows1. row_ok F t r \<Longrightarrow> \<forall>r\<in>set rows2. row_ok F t r \<Longrightarrow> (r1, r2) \<in> set (config_match F t rows1 rows2) \<Longrightarrow>
   row_or_zero F t r1 \<and> row_or_zero F t r2 \<and> (row_ok F t r1 \<or> row_ok F t r2)"
proof (induction rows1 arbitrary: rows2)
  case (Cons r rows1)
  let ?l = "label_of t (Values r)"
  have "\<forall>r\<in>set (remove_label t ?l rows2). row_ok F t r"
    using Cons.prems(2) set_remove_label [of t ?l rows2] by blast
  then show ?case
    using Cons.IH Cons.prems row_found [OF Cons.prems(2)] by (auto simp: Let_def row_or_zero_def)
qed (auto simp: row_or_zero_def)

text \<open>How many joined rows a label has.\<close>

lemma with_label_match:
  "\<forall>r\<in>set rows1. Values r \<noteq> [] \<Longrightarrow> \<forall>r\<in>set rows2. Values r \<noteq> [] \<Longrightarrow>
    length (filter (\<lambda>(r1, r2). row_label t r1 r2 = l) (config_match F t rows1 rows2)) =
      max (length (with_label t l rows1)) (length (with_label t l rows2))"
proof (induction rows1 arbitrary: rows2)
  case Nil
  have "filter (\<lambda>(r1, r2). row_label t r1 r2 = l) (map (\<lambda>r. (row_zero F, r)) rows2) =
      map (\<lambda>r. (row_zero F, r)) (with_label t l rows2)"
    by (simp add: filter_map o_def row_label_def row_zero_def)
  then show ?case by simp
next
  case (Cons r rows1)
  let ?l = "label_of t (Values r)"
  have "\<forall>r\<in>set (remove_label t ?l rows2). Values r \<noteq> []"
    using Cons.prems(2) set_remove_label [of t ?l rows2] by blast
  note IH = Cons.IH [OF _ this]
  have "row_label t r (find_row F t rows2 ?l) = ?l" using Cons.prems(1) by (simp add: row_label_def)
  then show ?case
    using IH Cons.prems(1) with_label_remove(1) [of t ?l rows2] with_label_remove(2) [of l ?l t rows2]
    by (cases "l = ?l"; cases "with_label t ?l rows2") (auto simp: Let_def max_def)
qed

lemma compareTable_config_spec:
  assumes "go_sort_ok (de_sort E)" and "table_ok (de_float E) t" and "table_ok (de_float E) u"
    and "same_schema t u" and "contains_sub (to_lower (Title t)) ''config''" and "length (table_rows u) \<le> fuel"
  shows "\<exists>rt. compareTable fuel E t u dr = (Returns (Some rt), dr) \<and> Column rt = out_columns t \<and>
    mset (table_rows rt) = image_mset (\<lambda>(r1, r2). joined_row E t r1 r2)
      (mset (config_match (de_float E) t (table_rows t) (table_rows u))) \<and>
    (\<forall>l. length (with_label t l (table_rows rt)) =
       max (length (with_label t l (table_rows t))) (length (with_label t l (table_rows u))))"
proof -
  let ?F = "de_float E" and ?ps = "config_match (de_float E) t (table_rows t) (table_rows u)"
  have t: "schema_ok t" "\<forall>r\<in>set (table_rows t). row_ok ?F t r" using assms(2) by (auto simp: table_ok_def)
  have u: "\<forall>r\<in>set (table_rows u). row_ok ?F t r"
    using assms(3) same_schema_simps [OF assms(4)] by (auto simp: table_ok_def)
  obtain m1 where m1: "getTableLablesMapWithNonUniqueJoinKey t = Returns m1" "holds t m1 (table_rows t)"
    using config_map_ok [OF assms(2)] by blast
  obtain m2 where m2: "getTableLablesMapWithNonUniqueJoinKey u = Returns m2" "holds t m2 (table_rows u)"
    using config_map_ok [OF assms(3)] same_schema_simps(2) [OF assms(4)] by (auto simp: holds_def)
  obtain m2' where L: "config_lefts E t (table_rows t) m1 m2 [] =
      (Returns (map (\<lambda>(r1, r2). joined_row E t r1 r2) (taken_pairs ?F t (table_rows t) (table_rows u)), [], m2'),
       log_pairs ?F t (taken_pairs ?F t (table_rows t) (table_rows u)) [])"
    "holds t m2' (left_over t (table_rows t) (table_rows u))"
    using config_lefts_ok [OF assms(1) t(1,2) u m1(2) m2(2)] by blast
  have ok: "\<forall>r\<in>set (left_over t (table_rows t) (table_rows u)). row_ok ?F t r"
    using u set_left_over [of t "table_rows t" "table_rows u"] by blast
  have "length (left_over t (table_rows t) (table_rows u)) \<le> fuel"
    using assms(6) length_left_over [of t "table_rows t" "table_rows u"] by linarith
  then obtain rs s' where R: "config_rights fuel E t 0 [] m2'
        (log_pairs ?F t (taken_pairs ?F t (table_rows t) (table_rows u)) []) =
      (Returns (Some (map (joined_row E t (row_zero ?F)) rs)), s')"
      "mset rs = mset (left_over t (table_rows t) (table_rows u))"
    using config_rights_ok [OF assms(1) t(1) ok L(2)] by blast
  have c: "those_columns (idx (Column t)) (compareColumns t) = Some (map (\<lambda>i. Column t ! i) (compareColumns t))"
    using t(1) by (intro those_columns_Some) (auto simp: schema_ok_def)
  let ?all = "map (\<lambda>(r1, r2). joined_row E t r1 r2) (taken_pairs ?F t (table_rows t) (table_rows u)) @
      map (joined_row E t (row_zero ?F)) rs"
  let ?rows = "sort_Slice (de_sort E) (config_Less (joinColumns t)) ?all"
  obtain rt where rt: "compareTable fuel E t u dr = (Returns (Some rt), dr)" "Column rt = out_columns t" "table_rows rt = ?rows"
    using assms(5) m1(1) m2(1) L(1) R(1) joined_columns_ok [OF t(1) assms(4)] c
    by (auto simp: compareTable_def compareTableWithNonUniqueKey_def recovering_def op_bind_def Let_def)
  have m: "mset ?rows = image_mset (\<lambda>(r1, r2). joined_row E t r1 r2) (mset ?ps)"
    using R(2) by (simp add: mset_sort_Slice [OF assms(1)] config_match_parts image_mset.compositionality o_def)
  have ne: "Values r \<noteq> []" if "row_ok ?F t r" for r
    using that cells_length [OF t(1)] by (auto simp: row_ok_def)
  have lab: "label_of t (Values (joined_row E t r1 r2)) = row_label t r1 r2" if "(r1, r2) \<in> set ?ps" for r1 r2
    using config_match_rows [OF t(2) u that] ne
    by (intro label_joined_row [OF t(1)]) (auto simp: row_or_zero_def)
  have "length (with_label t l ?rows) = max (length (with_label t l (table_rows t))) (length (with_label t l (table_rows u)))" for l
  proof -
    have "length (with_label t l ?rows) = size (filter_mset (\<lambda>r. label_of t (Values r) = l) (mset ?rows))"
      by (metis mset_filter size_mset)
    also have "\<dots> = length (filter (\<lambda>p. case p of (r1, r2) \<Rightarrow> label_of t (Values (joined_row E t r1 r2)) = l) ?ps)"
      unfolding m filter_mset_image_mset size_image_mset by (simp add: split_beta flip: mset_filter)
    also have "filter (\<lambda>p. case p of (r1, r2) \<Rightarrow> label_of t (Values (joined_row E t r1 r2)) = l) ?ps =
        filter (\<lambda>(r1, r2). row_label t r1 r2 = l) ?ps"
      using lab by (intro filter_cong refl) auto
    also have "length \<dots> = max (length (with_label t l (table_rows t))) (length (with_label t l (table_rows u)))"
      using t(2) u ne by (intro with_label_match) auto
    finally show ?thesis .
  qed
  then show ?thesis using rt m by metis
qed

text \<open>
  C33: comparing two configuration tables of the same schema, whose labels may repeat, returns
  for every label as many rows as the table that has more of it: the rows with this label are
  joined in their order, and the ones left over stand alone. The loop over the map of the second
  table ends, whatever the order of its ranges, and the shared buffer gets no difference.
\<close>

theorem compareTable_config:
  assumes "go_sort_ok (de_sort E)" and "table_ok (de_float E) t" and "table_ok (de_float E) u"
    and "same_schema t u" and "contains_sub (to_lower (Title t)) ''config''" and "length (table_rows u) \<le> fuel"
  shows "\<exists>rt. compareTable fuel E t u dr = (Returns (Some rt), dr) \<and> Column rt = out_columns t \<and>
    mset (table_rows rt) = image_mset (\<lambda>(r1, r2). joined_row E t r1 r2)
      (mset (config_match (de_float E) t (table_rows t) (table_rows u))) \<and>
    (\<forall>l. length (with_label t l (table_rows rt)) =
       max (length (with_label t l (table_rows t))) (length (with_label t l (table_rows u))))"
  using assms by (rule compareTable_config_spec)

text \<open>Two rows of the same label against one.\<close>

definition demo_config_table :: "string list list \<Rightarrow> rat TableDef" where
  "demo_config_table vss = (demo_diag_table vss)\<lparr>Title := ''pd_config''\<rparr>"

lemma compareTable_config_witness:
  "\<exists>rt. compareTable 1 demo_diag_env (demo_config_table [[''0'', ''a'', ''0''], [''1'', ''a'', ''1'']]) (demo_config_table [[''0'', ''a'', ''1'']]) [] =
      (Returns (Some rt), []) \<and>
    length (with_label (demo_config_table []) ''a'' (table_rows rt)) = 2"
proof -
  let ?t = "demo_config_table [[''0'', ''a'', ''0''], [''1'', ''a'', ''1'']]" and ?u = "demo_config_table [[''0'', ''a'', ''1'']]"
  have ok: "table_ok rat_float ?t" "table_ok rat_float ?u"
    by (simp_all add: table_ok_def schema_ok_def demo_config_table_def demo_diag_table_def row_of_def row_zero_def row_ok_def
        cells_ok_def parse_digit_cell)
  have s: "same_schema ?t ?u" by (simp add: same_schema_def demo_config_table_def demo_diag_table_def)
  have c: "contains_sub (to_lower (Title ?t)) ''config''"
    by (simp add: demo_config_table_def to_lower_def lower_char_def byte_of_def Let_def)
  have f: "length (table_rows ?u) \<le> 1" by (simp add: demo_config_table_def demo_diag_table_def table_rows_def)
  have l: "label_of ?t = label_of (demo_config_table [])" by (simp add: label_of_def demo_config_table_def demo_diag_table_def fun_eq_iff)
  have n: "length (with_label (demo_config_table []) ''a'' (table_rows ?t)) = 2" "length (with_label (demo_config_table []) ''a'' (table_rows ?u)) = 1"
    by (simp_all add: demo_config_table_def demo_diag_table_def table_rows_def label_of_def row_of_def row_zero_def)
  show ?thesis
    using compareTable_config [of demo_diag_env, unfolded demo_diag_env_simps, OF insertion_sort_ok ok s c f, unfolded l, of "[]"] n
    by auto
qed

end
