(* ===== verification/DiagReports.thy ===== *)
theory DiagReports
  imports DiagDiff DiagConfig
begin

text \<open>
  The comparison of two whole reports: the tables of one are paired with those of the other by
  category and title, and the table of the differences stands before the compared tables.
\<close>

section \<open>Pairing the tables\<close>

definition table_name :: "'f TableDef \<Rightarrow> string \<times> string" where
  "table_name t = (strings_Join (Category t) '','', Title t)"

lemma same_table_name: "same_table t u \<longleftrightarrow> table_name t = table_name u"
  by (simp add: same_table_def table_name_def)

lemma filter_distinct_key:
  "distinct (map f us) \<Longrightarrow> i < length us \<Longrightarrow> filter (\<lambda>u. f (us ! i) = f u) us = [us ! i]"
proof (induction us arbitrary: i)
  case (Cons u us)
  then show ?case
  proof (cases i)
    case 0
    then have "filter (\<lambda>w. f u = f w) us = []" using Cons.prems(1) by (auto simp: filter_empty_conv)
    then show ?thesis using 0 by simp
  next
    case (Suc j)
    then have "us ! j \<in> set us" using Cons.prems(2) by simp
    then have "f (us ! j) \<noteq> f u" using Cons.prems(1) by (metis distinct.simps(2) image_eqI list.simps(9) set_map)
    then show ?thesis using Suc Cons by simp
  qed
qed simp

lemma compared_pairs_zip:
  assumes "list_all2 same_table ts us" and "distinct (map table_name ts)"
  shows "compared_pairs ts us = zip ts us"
proof -
  have names: "map table_name us = map table_name ts"
    using assms(1) by (auto simp: list_all2_conv_all_nth same_table_name list_eq_iff_nth_eq)
  have len: "length us = length ts" using assms(1) by (simp add: list_all2_lengthD)
  have one: "filter (same_table (ts ! i)) us = [us ! i]" if "i < length ts" for i
  proof -
    have n: "table_name (ts ! i) = table_name (us ! i)"
      using assms(1) that by (simp add: list_all2_conv_all_nth same_table_name)
    have "distinct (map table_name us)" unfolding names by (rule assms(2))
    moreover have "same_table (ts ! i) = (\<lambda>u. table_name (us ! i) = table_name u)"
      by (simp add: same_table_name fun_eq_iff n)
    ultimately show ?thesis using filter_distinct_key [of table_name us i] that len by simp
  qed
  have "map (\<lambda>t. map (\<lambda>u. (t, u)) (filter (same_table t) us)) ts = map (\<lambda>p. [p]) (zip ts us)"
    using one len by (intro nth_equalityI) auto
  then show ?thesis unfolding compared_pairs_def by simp
qed

section \<open>The comparison of two reports\<close>

definition is_config :: "'f TableDef \<Rightarrow> bool" where
  "is_config t = contains_sub (to_lower (Title t)) ''config''"

definition pair_ok :: "nat \<Rightarrow> 'f gofloat \<Rightarrow> 'f TableDef \<Rightarrow> 'f TableDef \<Rightarrow> bool" where
  "pair_ok fuel F t u \<longleftrightarrow> same_table t u \<and> same_schema t u \<and> table_ok F t \<and> table_ok F u \<and>
     (if is_config t then length (table_rows u) \<le> fuel else labels_distinct t \<and> labels_distinct u)"

definition pair_diffs :: "'f gofloat \<Rightarrow> 'f TableDef \<times> 'f TableDef \<Rightarrow> 'f diffRow list" where
  "pair_diffs F = (\<lambda>(t, u). if is_config t then [] else join_diffs F t (table_rows t) (table_rows u))"

definition pair_rows :: "'f gofloat \<Rightarrow> 'f TableDef \<Rightarrow> 'f TableDef \<Rightarrow> ('f TableRowDef \<times> 'f TableRowDef) list" where
  "pair_rows F t u =
     (if is_config t then config_match F t (table_rows t) (table_rows u)
      else outer_join F t (table_rows t) (table_rows u))"

text \<open>The compared table of a pair.\<close>

definition compared :: "'f diag_env \<Rightarrow> 'f TableDef \<Rightarrow> 'f TableDef \<Rightarrow> 'f TableDef \<Rightarrow> bool" where
  "compared E t u rt \<longleftrightarrow> Column rt = out_columns t \<and>
     mset (table_rows rt) = image_mset (\<lambda>(r1, r2). joined_row E t r1 r2) (mset (pair_rows (de_float E) t u))"

lemma compareTable_pair:
  assumes "go_sort_ok (de_sort E)" and "pair_ok fuel (de_float E) t u"
  shows "\<exists>rt. compareTable fuel E t u dr = (Returns (Some rt), add_diffs (de_float E) (pair_diffs (de_float E) (t, u)) dr) \<and>
    compared E t u rt"
proof -
  have ok: "same_schema t u" "table_ok (de_float E) t" "table_ok (de_float E) u" using assms(2) by (auto simp: pair_ok_def)
  show ?thesis
  proof (cases "is_config t")
    case True
    then obtain rt where rt: "compareTable fuel E t u dr = (Returns (Some rt), dr)" "Column rt = out_columns t"
      "mset (table_rows rt) = image_mset (\<lambda>(r1, r2). joined_row E t r1 r2)
        (mset (config_match (de_float E) t (table_rows t) (table_rows u)))"
      using compareTable_config_spec [OF assms(1) ok(2,3,1), of fuel dr] assms(2)
      by (auto simp: pair_ok_def is_config_def)
    then show ?thesis using True by (auto simp: pair_diffs_def pair_rows_def compared_def)
  next
    case False
    then have "labels_distinct t" "labels_distinct u" using assms(2) by (auto simp: pair_ok_def)
    then show ?thesis
      using compareTable_body_spec [OF assms(1) ok(2) _ ok(3) _ ok(1), of dr] False
      by (auto simp: compareTable_def recovering_def op_bind_def is_config_def pair_diffs_def pair_rows_def compared_def
          mset_sort_Slice [OF assms(1)])
  qed
qed

lemma compare_pairs_ok:
  assumes "go_sort_ok (de_sort E)"
  shows "list_all (\<lambda>(t, u). pair_ok fuel (de_float E) t u) ps \<Longrightarrow>
    \<exists>rts. fold (compare_pair fuel E) ps (ts, errs, dr) =
      (ts @ rts, errs, add_diffs (de_float E) (concat (map (pair_diffs (de_float E)) ps)) dr) \<and>
      list_all2 (\<lambda>(t, u) rt. compared E t u rt) ps rts"
proof (induction ps arbitrary: ts dr)
  case (Cons p ps)
  obtain t u where p: "p = (t, u)" by (cases p)
  obtain rt where rt: "compareTable fuel E t u dr =
      (Returns (Some rt), add_diffs (de_float E) (pair_diffs (de_float E) (t, u)) dr)" "compared E t u rt"
    using compareTable_pair [OF assms, of fuel t u dr] Cons.prems p by auto
  obtain rts where "fold (compare_pair fuel E) ps (ts @ [rt], errs, add_diffs (de_float E) (pair_diffs (de_float E) (t, u)) dr) =
      ((ts @ [rt]) @ rts, errs, add_diffs (de_float E) (concat (map (pair_diffs (de_float E)) ps))
         (add_diffs (de_float E) (pair_diffs (de_float E) (t, u)) dr))"
    "list_all2 (\<lambda>(t, u) rt. compared E t u rt) ps rts"
    using Cons.IH [of "ts @ [rt]"] Cons.prems by auto
  then show ?case using p rt by (intro exI [of _ "rt # rts"]) (simp add: compare_pair_def)
qed simp

text \<open>
  C15: comparing two reports whose tables are well formed, have distinct names and come in the
  same order gives no error: the result is the table of the greatest differences, built from the
  differences of all compared tables that are not configuration, followed by one compared table
  for each pair, which holds the joined rows of its two tables.
\<close>

theorem CompareTables_complete:
  assumes "go_sort_ok (de_sort E)" and "list_all2 (pair_ok fuel (de_float E)) ts us" and "distinct (map table_name ts)"
  shows "\<exists>rts. CompareTables fuel E ts us =
      (GenerateDiffTable E (add_diffs (de_float E) (concat (map (pair_diffs (de_float E)) (zip ts us))) []) # rts, []) \<and>
    list_all2 (\<lambda>(t, u) rt. Column rt = out_columns t \<and>
      mset (table_rows rt) = image_mset (\<lambda>(r1, r2). joined_row E t r1 r2) (mset (pair_rows (de_float E) t u))) (zip ts us) rts"
proof -
  have "list_all2 same_table ts us" using assms(2) by (rule list_all2_mono) (simp add: pair_ok_def)
  then have z: "compared_pairs ts us = zip ts us" using compared_pairs_zip assms(3) by blast
  have "list_all (\<lambda>(t, u). pair_ok fuel (de_float E) t u) (zip ts us)"
    using assms(2) by (auto simp: list_all_iff list_all2_iff)
  then obtain rts where "fold (compare_pair fuel E) (zip ts us) ([], [], []) =
      ([] @ rts, [], add_diffs (de_float E) (concat (map (pair_diffs (de_float E)) (zip ts us))) [])"
    "list_all2 (\<lambda>(t, u) rt. compared E t u rt) (zip ts us) rts"
    using compare_pairs_ok [OF assms(1)] by blast
  then show ?thesis by (auto simp: CompareTables_def z compared_def)
qed

lemma CompareTables_complete_witness:
  "\<exists>rt dt. CompareTables 1 demo_diag_env [demo_config_table [[''0'', ''a'', ''0'']]] [demo_config_table [[''0'', ''a'', ''1'']]] = ([dt, rt], []) \<and>
    length (table_rows rt) = 1"
proof -
  let ?t = "demo_config_table [[''0'', ''a'', ''0'']]" and ?u = "demo_config_table [[''0'', ''a'', ''1'']]"
  have ok: "table_ok rat_float ?t" "table_ok rat_float ?u"
    by (simp_all add: table_ok_def schema_ok_def demo_config_table_def demo_diag_table_def row_of_def row_zero_def row_ok_def
        cells_ok_def parse_digit_cell)
  have c: "is_config ?t"
    by (simp add: is_config_def demo_config_table_def to_lower_def lower_char_def byte_of_def Let_def)
  have p: "list_all2 (pair_ok 1 rat_float) [?t] [?u]"
    using ok c by (simp add: pair_ok_def)
      (simp add: same_table_def same_schema_def demo_config_table_def demo_diag_table_def table_rows_def)
  have d: "distinct (map table_name [?t])" by simp
  have m: "length (config_match rat_float ?t (table_rows ?t) (table_rows ?u)) = 1"
    by (simp add: demo_config_table_def demo_diag_table_def table_rows_def label_of_def row_of_def row_zero_def Let_def)
  obtain rts where r: "CompareTables 1 demo_diag_env [?t] [?u] =
      (GenerateDiffTable demo_diag_env (add_diffs rat_float (concat (map (pair_diffs rat_float) (zip [?t] [?u]))) []) # rts, [])"
    "list_all2 (\<lambda>(t, u) rt. Column rt = out_columns t \<and>
      mset (table_rows rt) = image_mset (\<lambda>(r1, r2). joined_row demo_diag_env t r1 r2) (mset (pair_rows rat_float t u)))
      (zip [?t] [?u]) rts"
    using CompareTables_complete [of demo_diag_env 1 "[?t]" "[?u]", unfolded demo_diag_env_simps, OF insertion_sort_ok p d] by blast
  obtain rt where rt: "rts = [rt]"
    "mset (table_rows rt) = image_mset (\<lambda>(r1, r2). joined_row demo_diag_env ?t r1 r2) (mset (pair_rows rat_float ?t ?u))"
    using r(2) by (auto simp: list_all2_Cons1)
  have "length (table_rows rt) = length (pair_rows rat_float ?t ?u)" using rt(2) by (metis size_image_mset size_mset)
  then show ?thesis using r(1) rt(1) c m by (auto simp: pair_rows_def)
qed

end
