(* ===== verification/DiagParallel.thy ===== *)
theory DiagParallel
  imports DiagTable
begin

text \<open>
  The concurrent computation of the tables of a report (\<open>getTablesParallel\<close>, \<open>doGetTable\<close> and
  \<open>func2task\<close> in \<open>pkg/apiserver/diagnose/report.go\<close>): the tasks wait in a channel, the workers
  take them, count them, send their results and write the progress. Every interleaving of these
  steps is a run of the relation \<open>par_step\<close>.

  What a table function does is a parameter: it panics with a value (as printed) or returns a
  table and perhaps an error.
\<close>

section \<open>The result of a task\<close>

type_synonym 'f get_table = "string + 'f TableDef \<times> string option"

record 'f tblAndErr =
  te_tbl :: "'f TableDef option"
  te_err :: "'f TableRowDef option"
  te_taskID :: nat

definition empty_table :: "'f TableDef" where
  "empty_table = \<lparr>Category = [], Title = '''', Comment = '''', joinColumns = [], compareColumns = [], Column = [], Rows = None\<rparr>"

text \<open>The call of the table function with its deferred \<open>recover\<close>.\<close>

definition call_table :: "'f get_table \<Rightarrow> nat \<Rightarrow> 'f TableDef \<times> string option" where
  "call_table f taskID =
     (case f of
        Inl r \<Rightarrow> (empty_table\<lparr>Title := ''panic_in_table_'' @ dec_string (int taskID)\<rparr>, Some (''panic: '' @ r))
      | Inr (tbl, err) \<Rightarrow> (tbl, err))"

definition task_result :: "'f gofloat \<Rightarrow> 'f get_table \<Rightarrow> nat \<Rightarrow> 'f tblAndErr" where
  "task_result F f taskID =
     (case call_table f taskID of (tbl, err) \<Rightarrow>
        \<lparr>te_tbl = (if Rows tbl \<noteq> None then Some tbl else None),
         te_err = map_option (\<lambda>e. row_of F [strings_Join (Category tbl) '','', Title tbl, e]) err,
         te_taskID = taskID\<rparr>)"

section \<open>The workers\<close>

datatype worker = Waiting | Got nat | Counted nat int | Sent int | Stopped

record 'f par_state =
  todo :: "nat list"
  workers :: "worker list"
  results :: "'f tblAndErr list"
  progress :: int
  written :: "int list"

text \<open>
  The steps of a worker: take a task, run it and count it (\<open>atomic.AddInt32\<close>), send the result,
  write the progress to the database, stop when the closed channel is empty. The result channel
  has room for all tasks, so a send waits only when it is full.
\<close>

inductive par_step :: "'f gofloat \<Rightarrow> 'f get_table list \<Rightarrow> int \<Rightarrow> 'f par_state \<Rightarrow> 'f par_state \<Rightarrow> bool"
  for F funcs ntables where
  take_task: "w < length (workers s) \<Longrightarrow> workers s ! w = Waiting \<Longrightarrow> todo s = i # rest \<Longrightarrow>
     par_step F funcs ntables s (s\<lparr>todo := rest, workers := (workers s)[w := Got i]\<rparr>)"
| count_task: "w < length (workers s) \<Longrightarrow> workers s ! w = Got i \<Longrightarrow>
     par_step F funcs ntables s (s\<lparr>progress := progress s + 1, workers := (workers s)[w := Counted i (progress s + 1)]\<rparr>)"
| send_result: "w < length (workers s) \<Longrightarrow> workers s ! w = Counted i p \<Longrightarrow> length (results s) < length funcs \<Longrightarrow>
     par_step F funcs ntables s (s\<lparr>results := results s @ [task_result F (funcs ! i) i], workers := (workers s)[w := Sent p]\<rparr>)"
| write_progress: "w < length (workers s) \<Longrightarrow> workers s ! w = Sent p \<Longrightarrow>
     par_step F funcs ntables s (s\<lparr>written := written s @ [p * 100 div ntables], workers := (workers s)[w := Waiting]\<rparr>)"
| stop: "w < length (workers s) \<Longrightarrow> workers s ! w = Waiting \<Longrightarrow> todo s = [] \<Longrightarrow>
     par_step F funcs ntables s (s\<lparr>workers := (workers s)[w := Stopped]\<rparr>)"

text \<open>The number of workers and the first state; \<open>func2task\<close> numbers the tasks in order.\<close>

definition par_workers :: "nat \<Rightarrow> nat \<Rightarrow> nat" where
  "par_workers cpus n = (let conc = (if 20 < cpus then 20 else cpus) in if n < conc then n else conc)"

definition func2task :: "'f get_table list \<Rightarrow> nat list" where
  "func2task funcs = [0..<length funcs]"

definition par_init :: "nat \<Rightarrow> 'f get_table list \<Rightarrow> 'f par_state" where
  "par_init cpus funcs = \<lparr>todo = func2task funcs, workers = replicate (par_workers cpus (length funcs)) Waiting,
     results = [], progress = 0, written = []\<rparr>"

abbreviation par_steps :: "'f gofloat \<Rightarrow> 'f get_table list \<Rightarrow> int \<Rightarrow> 'f par_state \<Rightarrow> 'f par_state \<Rightarrow> bool" where
  "par_steps F funcs ntables \<equiv> (par_step F funcs ntables)\<^sup>*\<^sup>*"

text \<open>\<open>wg.Wait()\<close> returns.\<close>

definition par_done :: "'f par_state \<Rightarrow> bool" where
  "par_done s \<longleftrightarrow> (\<forall>w\<in>set (workers s). w = Stopped)"

text \<open>What is made of the results: sorted by task, split into tables and error rows.\<close>

definition collect_results ::
  "go_sort \<Rightarrow> 'f tblAndErr list \<Rightarrow> 'f TableDef list \<times> 'f TableRowDef list" where
  "collect_results srt out =
     (let rs = sort_Slice srt (\<lambda>a b. te_taskID a < te_taskID b) out
      in (List.map_filter te_tbl rs, List.map_filter te_err rs))"

text \<open>The reference: the table functions called one after the other.\<close>

definition tables_in_order ::
  "'f gofloat \<Rightarrow> 'f get_table list \<Rightarrow> 'f TableDef list \<times> 'f TableRowDef list" where
  "tables_in_order F funcs =
     (let rs = map (\<lambda>i. task_result F (funcs ! i) i) [0..<length funcs]
      in (List.map_filter te_tbl rs, List.map_filter te_err rs))"

section \<open>The invariant\<close>

fun worker_task :: "worker \<Rightarrow> nat list" where
  "worker_task (Got i) = [i]"
| "worker_task (Counted i p) = [i]"
| "worker_task _ = []"

fun worker_progress :: "worker \<Rightarrow> int list" where
  "worker_progress (Counted i p) = [p]"
| "worker_progress (Sent p) = [p]"
| "worker_progress _ = []"

abbreviation tasks_held :: "worker list \<Rightarrow> nat list" where
  "tasks_held ws \<equiv> concat (map worker_task ws)"

fun uncounted :: "worker \<Rightarrow> nat" where
  "uncounted (Got i) = 1"
| "uncounted _ = 0"

definition par_inv :: "'f gofloat \<Rightarrow> 'f get_table list \<Rightarrow> 'f par_state \<Rightarrow> bool" where
  "par_inv F funcs s \<longleftrightarrow>
     mset (todo s) + mset (tasks_held (workers s)) + mset (map te_taskID (results s)) = mset [0..<length funcs] \<and>
     (\<forall>r\<in>set (results s). r = task_result F (funcs ! te_taskID r) (te_taskID r)) \<and>
     progress s + int (length (todo s)) + int (sum_list (map uncounted (workers s))) = int (length funcs) \<and>
     (\<forall>w\<in>set (workers s). \<forall>p\<in>set (worker_progress w). 1 \<le> p \<and> p \<le> progress s) \<and>
     (\<forall>x\<in>set (written s). \<exists>p. 1 \<le> p \<and> p \<le> progress s \<and> x = p * 100 div int (length funcs))"

lemma tasks_held_update:
  "w < length ws \<Longrightarrow>
   mset (tasks_held (ws[w := x])) + mset (worker_task (ws ! w)) = mset (tasks_held ws) + mset (worker_task x)"
proof (induction ws arbitrary: w)
  case (Cons v ws)
  show ?case
  proof (cases w)
    case (Suc k)
    then have "mset (tasks_held (ws[k := x])) + mset (worker_task (ws ! k)) = mset (tasks_held ws) + mset (worker_task x)"
      using Cons by simp
    then show ?thesis using Suc by (simp add: add.assoc)
  qed (simp add: add.commute)
qed simp

lemma uncounted_update:
  "w < length ws \<Longrightarrow> sum_list (map uncounted (ws[w := x])) + uncounted (ws ! w) = sum_list (map uncounted ws) + uncounted x"
proof (induction ws arbitrary: w)
  case (Cons v ws)
  then show ?case by (cases w) fastforce+
qed simp

lemma worker_update_ok:
  assumes "\<forall>v\<in>set ws. P v" and "P x" shows "\<forall>v\<in>set (ws[w := x]). P v"
  using assms set_update_subset_insert [of ws w x] by blast

lemma par_inv_init: "par_inv F funcs (par_init cpus funcs)"
  by (simp add: par_inv_def par_init_def func2task_def sum_list_replicate)

lemma par_inv_step:
  assumes "par_step F funcs (int (length funcs)) s s'" and "par_inv F funcs s"
  shows "par_inv F funcs s'"
  using assms
proof cases
  case (take_task w i rest)
  let ?ws = "(workers s)[w := Got i]"
  have "mset (tasks_held ?ws) = add_mset i (mset (tasks_held (workers s)))"
    "sum_list (map uncounted ?ws) = sum_list (map uncounted (workers s)) + 1"
    using tasks_held_update [OF take_task(2), of "Got i"] uncounted_update [OF take_task(2), of "Got i"] take_task(3)
    by auto
  moreover have "\<forall>v\<in>set ?ws. \<forall>p\<in>set (worker_progress v). 1 \<le> p \<and> p \<le> progress s"
    using assms(2) by (intro worker_update_ok) (auto simp: par_inv_def)
  ultimately show ?thesis using assms(2) take_task by (simp add: par_inv_def)
next
  case (count_task w i)
  let ?ws = "(workers s)[w := Counted i (progress s + 1)]"
  have p: "0 \<le> progress s"
  proof -
    have "sum_list (map uncounted (workers s)) + length (todo s) \<le> length funcs"
    proof -
      have u: "sum_list (map uncounted ws) \<le> length (tasks_held ws)" for ws
      proof (induction ws)
        case (Cons v ws)
        then show ?case by (cases v) auto
      qed simp
      moreover have "length (todo s) + length (tasks_held (workers s)) \<le> length funcs"
      proof -
        have "size (mset (todo s) + mset (tasks_held (workers s)) + mset (map te_taskID (results s))) =
            size (mset [0..<length funcs])"
          using assms(2) by (simp only: par_inv_def)
        then show ?thesis by simp
      qed
      ultimately show ?thesis using u [of "workers s"] by linarith
    qed
    then show ?thesis using assms(2) by (simp add: par_inv_def)
  qed
  have "mset (tasks_held ?ws) = mset (tasks_held (workers s))"
    "sum_list (map uncounted ?ws) + 1 = sum_list (map uncounted (workers s))"
    using tasks_held_update [OF count_task(2), of "Counted i (progress s + 1)"]
      uncounted_update [OF count_task(2), of "Counted i (progress s + 1)"] count_task(3) by auto
  moreover have "\<forall>v\<in>set (workers s). \<forall>q\<in>set (worker_progress v). 1 \<le> q \<and> q \<le> progress s + 1"
    using assms(2) unfolding par_inv_def by (meson add_increasing2 zero_le_one)
  then have "\<forall>v\<in>set ?ws. \<forall>q\<in>set (worker_progress v). 1 \<le> q \<and> q \<le> progress s + 1"
    using p by (intro worker_update_ok) auto
  moreover have "\<forall>x\<in>set (written s). \<exists>q. 1 \<le> q \<and> q \<le> progress s + 1 \<and> x = q * 100 div int (length funcs)"
    using assms(2) by (fastforce simp: par_inv_def)
  ultimately show ?thesis using assms(2) count_task by (simp add: par_inv_def)
next
  case (send_result w i p)
  let ?ws = "(workers s)[w := Sent p]"
  have held: "mset (tasks_held (workers s)) = add_mset i (mset (tasks_held ?ws))"
    and "sum_list (map uncounted ?ws) = sum_list (map uncounted (workers s))"
    using tasks_held_update [OF send_result(2), of "Sent p"] uncounted_update [OF send_result(2), of "Sent p"]
      send_result(3) by auto
  moreover have "1 \<le> p \<and> p \<le> progress s"
    using assms(2) send_result(2,3) unfolding par_inv_def by (metis list.set_intros(1) nth_mem worker_progress.simps(1))
  then have "\<forall>v\<in>set ?ws. \<forall>q\<in>set (worker_progress v). 1 \<le> q \<and> q \<le> progress s"
    using assms(2) by (intro worker_update_ok) (auto simp: par_inv_def)
  moreover have "te_taskID (task_result F (funcs ! i) i) = i" by (simp add: task_result_def split: prod.splits)
  ultimately show ?thesis using assms(2) send_result unfolding par_inv_def held by auto
next
  case (write_progress w p)
  let ?ws = "(workers s)[w := Waiting]"
  have "mset (tasks_held ?ws) = mset (tasks_held (workers s))"
    "sum_list (map uncounted ?ws) = sum_list (map uncounted (workers s))"
    using tasks_held_update [OF write_progress(2), of Waiting] uncounted_update [OF write_progress(2), of Waiting]
      write_progress(3) by auto
  moreover have "1 \<le> p \<and> p \<le> progress s"
    using assms(2) write_progress(2,3) unfolding par_inv_def
    by (metis list.set_intros(1) nth_mem worker_progress.simps(2))
  moreover have "\<forall>v\<in>set ?ws. \<forall>q\<in>set (worker_progress v). 1 \<le> q \<and> q \<le> progress s"
    using assms(2) by (intro worker_update_ok) (auto simp: par_inv_def)
  ultimately show ?thesis using assms(2) write_progress by (auto simp: par_inv_def)
next
  case (stop w)
  let ?ws = "(workers s)[w := Stopped]"
  have "mset (tasks_held ?ws) = mset (tasks_held (workers s))"
    "sum_list (map uncounted ?ws) = sum_list (map uncounted (workers s))"
    using tasks_held_update [OF stop(2), of Stopped] uncounted_update [OF stop(2), of Stopped] stop(3) by auto
  moreover have "\<forall>v\<in>set ?ws. \<forall>q\<in>set (worker_progress v). 1 \<le> q \<and> q \<le> progress s"
    using assms(2) by (intro worker_update_ok) (auto simp: par_inv_def)
  ultimately show ?thesis using assms(2) stop by (simp add: par_inv_def)
qed

lemma par_inv_reachable: "par_steps F funcs (int (length funcs)) (par_init cpus funcs) s \<Longrightarrow> par_inv F funcs s"
  by (induction rule: rtranclp_induct) (auto intro: par_inv_init par_inv_step)

lemma par_workers_kept: "par_steps F funcs n s s' \<Longrightarrow> length (workers s') = length (workers s)"
  by (induction rule: rtranclp_induct) (auto elim: par_step.cases)

section \<open>Every run ends with the tables in order\<close>

lemma tasks_held_stopped: "\<forall>w\<in>set ws. w = Stopped \<Longrightarrow> tasks_held ws = []"
  by (induction ws) auto

text \<open>While there are tasks, a worker has not stopped; so the channel is empty when all have.\<close>

lemma stopped_empty:
  "par_steps F funcs n s s' \<Longrightarrow> Stopped \<notin> set (workers s) \<Longrightarrow> Stopped \<in> set (workers s') \<Longrightarrow> todo s' = []"
proof (induction rule: rtranclp_induct)
  case (step u v)
  from step(2) show ?case
  proof cases
    case (stop w)
    then show ?thesis by simp
  next
    case (take_task w i rest)
    then show ?thesis using step set_update_subset_insert [of "workers u" w "Got i"] by auto
  next
    case (count_task w i)
    then show ?thesis using step set_update_subset_insert [of "workers u" w "Counted i (progress u + 1)"] by auto
  next
    case (send_result w i p)
    then show ?thesis using step set_update_subset_insert [of "workers u" w "Sent p"] by auto
  next
    case (write_progress w p)
    then show ?thesis using step set_update_subset_insert [of "workers u" w Waiting] by auto
  qed
qed simp

lemma sorted_by_task:
  assumes "go_sort_ok srt" and "mset (map te_taskID rs) = mset [0..<n]"
    and "\<forall>r\<in>set rs. r = f (te_taskID r)" and "\<And>i. te_taskID (f i) = i"
  shows "sort_Slice srt (\<lambda>a b. te_taskID a < te_taskID b) rs = map f [0..<n]"
proof -
  let ?s = "sort_Slice srt (\<lambda>a b. te_taskID a < te_taskID b) rs"
  have m: "mset (map te_taskID ?s) = mset [0..<n]"
    unfolding mset_map mset_sort_Slice [OF assms(1)] using assms(2) by (simp only: mset_map)
  have "sorted_wrt (\<lambda>a b. \<not> te_taskID b < te_taskID a) ?s"
    using sorted_sort_Slice [OF assms(1) weak_order_key] .
  then have "sorted (map te_taskID ?s)" by (simp add: sorted_wrt_map not_less)
  then have ids: "map te_taskID ?s = [0..<n]" using m by (metis properties_for_sort sorted_upt)
  have "?s = map (\<lambda>r. f (te_taskID r)) ?s"
    using assms(3) by (intro map_idI [symmetric]) (auto simp: set_sort_Slice [OF assms(1)])
  also have "\<dots> = map f (map te_taskID ?s)" by simp
  finally show ?thesis unfolding ids .
qed

fun phases :: "worker \<Rightarrow> nat" where
  "phases Stopped = 0"
| "phases Waiting = 1"
| "phases (Sent p) = 2"
| "phases (Counted i p) = 3"
| "phases (Got i) = 4"

definition par_measure :: "'f par_state \<Rightarrow> nat" where
  "par_measure s = 4 * length (todo s) + sum_list (map phases (workers s))"

lemma phases_update:
  "w < length ws \<Longrightarrow> sum_list (map phases (ws[w := x])) + phases (ws ! w) = sum_list (map phases ws) + phases x"
proof (induction ws arbitrary: w)
  case (Cons v ws)
  then show ?case by (cases w) fastforce+
qed simp

lemma par_step_decreases: "par_step F funcs n s s' \<Longrightarrow> par_measure s' < par_measure s"
proof (induction rule: par_step.induct)
  case (take_task w s i rest)
  then show ?case using phases_update [OF take_task(1), of "Got i"] by (simp add: par_measure_def)
next
  case (count_task w s i)
  then show ?case using phases_update [OF count_task(1), of "Counted i (progress s + 1)"] by (simp add: par_measure_def)
next
  case (send_result w s i p)
  then show ?case using phases_update [OF send_result(1), of "Sent p"] by (simp add: par_measure_def)
next
  case (write_progress w s p)
  then show ?case using phases_update [OF write_progress(1), of Waiting] by (simp add: par_measure_def)
next
  case (stop w s)
  then show ?case using phases_update [OF stop(1), of Stopped] by (simp add: par_measure_def)
qed

text \<open>No deadlock: while a worker has not stopped, a step can be made.\<close>

lemma par_progress:
  assumes inv: "par_inv F funcs s" and nd: "\<not> par_done s"
  shows "\<exists>s'. par_step F funcs n s s'"
proof -
  obtain w where w: "w < length (workers s)" "workers s ! w \<noteq> Stopped"
    using nd unfolding par_done_def by (metis in_set_conv_nth)
  show ?thesis
  proof (cases "workers s ! w")
    case Waiting
    then show ?thesis using w by (cases "todo s") (blast intro: par_step.intros)+
  next
    case (Counted i p)
    have "Counted i p \<in> set (workers s)" using w(1) Counted by (metis nth_mem)
    then have "i \<in> set (tasks_held (workers s))" by force
    then have "0 < length (tasks_held (workers s))" by (cases "tasks_held (workers s)") auto
    moreover have "size (mset (todo s) + mset (tasks_held (workers s)) + mset (map te_taskID (results s))) =
        size (mset [0..<length funcs])"
      using inv by (simp only: par_inv_def)
    ultimately have "length (results s) < length funcs" by (simp del: length_greater_0_conv)
    then show ?thesis using w Counted by (blast intro: par_step.intros)
  qed (use w in \<open>blast intro: par_step.intros\<close>)+
qed

text \<open>
  C8: computing the tables in parallel. Whatever the workers do first: no reachable state is stuck
  before all workers have stopped, each step brings the end nearer, every progress written is
  between 0 and 100, and once all workers have stopped, the tables and the error rows are those of
  calling the table functions one after the other, in their order.
\<close>

theorem parallel_tables_in_order:
  assumes "go_sort_ok srt" and "0 < cpus"
    and "par_steps F funcs (int (length funcs)) (par_init cpus funcs) s"
  shows "(par_done s \<longrightarrow> collect_results srt (results s) = tables_in_order F funcs \<and> progress s = int (length funcs)) \<and>
    (\<not> par_done s \<longrightarrow> (\<exists>s'. par_step F funcs (int (length funcs)) s s')) \<and>
    (\<forall>s'. par_step F funcs (int (length funcs)) s s' \<longrightarrow> par_measure s' < par_measure s) \<and>
    (\<forall>x\<in>set (written s). 0 \<le> x \<and> x \<le> 100)"
proof -
  let ?n = "length funcs"
  have inv: "par_inv F funcs s" using par_inv_reachable [OF assms(3)] .
  have fin: "collect_results srt (results s) = tables_in_order F funcs \<and> progress s = int ?n" if d: "par_done s"
  proof -
    have stopped: "\<forall>w\<in>set (workers s). w = Stopped" using d by (simp add: par_done_def)
    have "todo s = []"
    proof (cases "workers s = []")
      case True
      then have "par_workers cpus ?n = 0"
        using par_workers_kept [OF assms(3)] by (simp add: par_init_def)
      then have "funcs = []" using assms(2) by (auto simp: par_workers_def Let_def split: if_splits)
      then show ?thesis using inv by (simp add: par_inv_def)
    next
      case False
      then have "Stopped \<in> set (workers s)" using stopped by (cases "workers s") auto
      moreover have "Stopped \<notin> set (workers (par_init cpus funcs))" by (simp add: par_init_def)
      ultimately show ?thesis using stopped_empty [OF assms(3)] by blast
    qed
    moreover have "tasks_held (workers s) = []" using tasks_held_stopped stopped by blast
    moreover have "sum_list (map uncounted ws) = 0" if "\<forall>w\<in>set ws. w = Stopped" for ws using that by (induction ws) auto
    ultimately have e: "todo s = []" "tasks_held (workers s) = []" "sum_list (map uncounted (workers s)) = 0"
      using stopped by auto
    have "mset [] + mset [] + mset (map te_taskID (results s)) = mset [0..<?n]"
      "progress s + int (length ([] :: nat list)) + int 0 = int ?n"
      using inv unfolding par_inv_def e by blast+
    then have m: "mset (map te_taskID (results s)) = mset [0..<?n]" "progress s = int ?n"
      by (simp_all only: mset.simps add_0 list.size of_nat_0 add_0_right)
    have "sort_Slice srt (\<lambda>a b. te_taskID a < te_taskID b) (results s) = map (\<lambda>i. task_result F (funcs ! i) i) [0..<?n]"
      using inv by (intro sorted_by_task [OF assms(1) m(1)]) (auto simp: par_inv_def task_result_def split: prod.splits)
    then show ?thesis using m(2) by (simp add: collect_results_def tables_in_order_def)
  qed
  have wr: "0 \<le> x \<and> x \<le> 100" if xs: "x \<in> set (written s)" for x
  proof -
    have W: "\<forall>x\<in>set (written s). \<exists>p. 1 \<le> p \<and> p \<le> progress s \<and> x = p * 100 div int ?n"
      using inv unfolding par_inv_def by (elim conjE) assumption
    obtain p where p: "1 \<le> p" "p \<le> progress s" "x = p * 100 div int ?n"
      using bspec [OF W xs] by (elim exE conjE)
    have "progress s \<le> int ?n" using inv unfolding par_inv_def by linarith
    then have n: "0 < int ?n" "p * 100 \<le> 100 * int ?n" using p(1,2) by linarith+
    then have "x \<le> (100 * int ?n) div int ?n" using p(3) zdiv_mono1 by blast
    then show ?thesis using p n by (simp add: pos_imp_zdiv_nonneg_iff)
  qed
  show ?thesis using fin wr par_progress [OF inv] par_step_decreases by blast
qed

text \<open>One worker, one table function that panics: its run, and its row in the table of errors.\<close>

definition demo_funcs :: "rat get_table list" where
  "demo_funcs = [Inl ''boom'']"

definition demo_state :: "nat list \<Rightarrow> worker \<Rightarrow> rat tblAndErr list \<Rightarrow> int \<Rightarrow> int list \<Rightarrow> rat par_state" where
  "demo_state td w rs p wr = \<lparr>todo = td, workers = [w], results = rs, progress = p, written = wr\<rparr>"

lemma demo_run:
  defines "r \<equiv> task_result rat_float (Inl ''boom'') 0"
  shows "par_steps rat_float demo_funcs 1 (par_init 1 demo_funcs) (demo_state [] Stopped [r] 1 [100])"
proof -
  have i: "par_init 1 demo_funcs = demo_state [0] Waiting [] 0 []"
    by (simp add: par_init_def demo_state_def func2task_def demo_funcs_def par_workers_def)
  have 1: "par_step rat_float demo_funcs 1 (demo_state [0] Waiting [] 0 []) (demo_state [] (Got 0) [] 0 [])"
    using par_step.take_task [of 0 "demo_state [0] Waiting [] 0 []" 0 "[]" rat_float demo_funcs 1] by (simp add: demo_state_def)
  have 2: "par_step rat_float demo_funcs 1 (demo_state [] (Got 0) [] 0 []) (demo_state [] (Counted 0 1) [] 1 [])"
    using par_step.count_task [of 0 "demo_state [] (Got 0) [] 0 []" 0 rat_float demo_funcs 1] by (simp add: demo_state_def)
  have 3: "par_step rat_float demo_funcs 1 (demo_state [] (Counted 0 1) [] 1 []) (demo_state [] (Sent 1) [r] 1 [])"
    using par_step.send_result [of 0 "demo_state [] (Counted 0 1) [] 1 []" 0 1 demo_funcs rat_float 1]
    by (simp add: demo_state_def demo_funcs_def r_def)
  have 4: "par_step rat_float demo_funcs 1 (demo_state [] (Sent 1) [r] 1 []) (demo_state [] Waiting [r] 1 [100])"
    using par_step.write_progress [of 0 "demo_state [] (Sent 1) [r] 1 []" 1 rat_float demo_funcs 1] by (simp add: demo_state_def)
  have 5: "par_step rat_float demo_funcs 1 (demo_state [] Waiting [r] 1 [100]) (demo_state [] Stopped [r] 1 [100])"
    using par_step.stop [of 0 "demo_state [] Waiting [r] 1 [100]" rat_float demo_funcs 1] by (simp add: demo_state_def)
  show ?thesis unfolding i using 1 2 3 4 5 by (meson converse_rtranclp_into_rtranclp rtranclp.rtrancl_refl)
qed

lemma parallel_tables_in_order_witness:
  "collect_results insertion_sort [task_result rat_float (Inl ''boom'') 0] =
    ([], [row_of rat_float ['''', ''panic_in_table_0'', ''panic: boom'']])"
proof -
  have "collect_results insertion_sort [task_result rat_float (Inl ''boom'') 0] = tables_in_order rat_float demo_funcs"
    using parallel_tables_in_order [OF insertion_sort_ok zero_less_one, of rat_float demo_funcs
        "demo_state [] Stopped [task_result rat_float (Inl ''boom'') 0] 1 [100]"] demo_run
    by (simp add: demo_state_def demo_funcs_def par_done_def)
  moreover have "dec_string 0 = ''0''"
    by (simp add: dec_string_def) ((subst dec_digits.simps, simp)+, simp add: char_of_def bit_0)
  ultimately show ?thesis
    by (simp add: tables_in_order_def demo_funcs_def task_result_def call_table_def empty_table_def map_filter_simps)
qed

end
