(* ===== verification/DiagReport.thy ===== *)
theory DiagReport
  imports DiagInspect DiagReports DiagParallel
begin

text \<open>
  The whole diagnosis report and the whole comparison report
  (\<open>pkg/apiserver/diagnose/report.go\<close>, \<open>compare.go\<close>): the lists of table functions, the check before
  the report, the display of categories, the tables of two ranges side by side, and the
  goroutines of the comparison report with the variable \<open>errRows\<close> that they all append to.

  The tables of a list of functions are those of \<open>tables_in_order\<close>, what the pool of
  \<open>DiagParallel\<close> returns however its workers interleave. A panic in a table function is recovered
  there; \<open>msg\<close> is the text of the recovered value.
\<close>

section \<open>Lists of table functions\<close>

type_synonym 'f table_function = "'f diag_env \<Rightarrow> sql_db \<Rightarrow> string \<Rightarrow> string \<Rightarrow> 'f table_result"

definition as_get_table :: "string \<Rightarrow> 'f table_result \<Rightarrow> 'f get_table" where
  "as_get_table msg r = (case r of None \<Rightarrow> Inl msg | Some t \<Rightarrow> Inr t)"

definition run_tables ::
  "string \<Rightarrow> 'f diag_env \<Rightarrow> sql_db \<Rightarrow> string \<Rightarrow> string \<Rightarrow> 'f table_function list \<Rightarrow> 'f TableDef list \<times> 'f TableRowDef list" where
  "run_tables msg E db startTime endTime funcs =
     tables_in_order (de_float E) (map (\<lambda>f. as_get_table msg (f E db startTime endTime)) funcs)"

definition report_funcs :: "'f table_function list" where
  "report_funcs =
     [GetHeaderTimeTable, GetClusterHardwareInfoTable, GetClusterInfoTable, GetAllDiagnoseReport, GetLoadTable,
      GetCPUUsageTable, GetProcessMemUsageTable, GetTiKVThreadCPUTable, GetGoroutinesCountTable,
      GetTotalTimeConsumeTable, GetTotalErrorTable, GetTiDBTimeConsumeTable, GetTiDBConnectionCountTable,
      GetTiDBTxnTableData, GetTiDBStatisticsInfo, GetTiDBDDLOwner, GetTiDBTopNSlowQuery,
      GetTiDBTopNSlowQueryGroupByDigest, GetTiDBSlowQueryWithDiffPlan, GetPDTimeConsumeTable,
      GetPDSchedulerInfo, GetPDClusterStatusTable, GetStoreStatusTable, GetPDEtcdStatusTable,
      GetTiKVTotalTimeConsumeTable, GetTiKVRocksDBTimeConsumeTable, GetTiKVErrorTable, GetTiKVStoreInfo,
      GetTiKVRegionSizeInfo, GetTiKVCopInfo, GetTiKVSchedulerInfo, GetTiKVRaftInfo, GetTiKVSnapshotInfo,
      GetTiKVGCInfo, GetTiKVTaskInfo, GetTiKVCacheHitTable, GetPDConfigInfo, GetPDConfigChangeInfo,
      GetTiDBGCConfigInfo, GetTiDBGCConfigChangeInfo, GetTiKVRocksDBConfigInfo, GetTiKVRocksDBConfigChangeInfo,
      GetTiKVRaftStoreConfigInfo, GetTiKVRaftStoreConfigChangeInfo, GetTiDBCurrentConfig, GetPDCurrentConfig,
      GetTiKVCurrentConfig]"

definition compare_funcs :: "'f table_function list" where
  "compare_funcs =
     [GetLoadTable, GetCPUUsageTable, GetTiKVThreadCPUTable, GetGoroutinesCountTable, GetProcessMemUsageTable,
      GetTotalTimeConsumeTable, GetTotalErrorTable, GetTiDBTimeConsumeTable, GetTiDBConnectionCountTable,
      GetTiDBTxnTableData, GetTiDBStatisticsInfo, GetTiDBDDLOwner, GetPDTimeConsumeTable, GetPDSchedulerInfo,
      GetPDClusterStatusTable, GetStoreStatusTable, GetPDEtcdStatusTable, GetTiKVTotalTimeConsumeTable,
      GetTiKVRocksDBTimeConsumeTable, GetTiKVErrorTable, GetTiKVStoreInfo, GetTiKVRegionSizeInfo,
      GetTiKVCopInfo, GetTiKVSchedulerInfo, GetTiKVRaftInfo, GetTiKVSnapshotInfo, GetTiKVGCInfo,
      GetTiKVTaskInfo, GetTiKVCacheHitTable, GetPDConfigInfo, GetPDConfigChangeInfo, GetTiDBGCConfigInfo,
      GetTiDBGCConfigChangeInfo, GetTiKVRocksDBConfigInfo, GetTiKVRocksDBConfigChangeInfo,
      GetTiKVRaftStoreConfigInfo, GetTiKVRaftStoreConfigChangeInfo]"

definition header_funcs :: "'f table_function list" where
  "header_funcs =
     [GetClusterHardwareInfoTable, GetClusterInfoTable]"

definition end_funcs :: "'f table_function list" where
  "end_funcs =
     [GetTiDBCurrentConfig, GetPDCurrentConfig, GetTiKVCurrentConfig]"

definition two_range_funcs :: "'f table_function list" where
  "two_range_funcs =
     [GetTiDBTopNSlowQuery, GetTiDBTopNSlowQueryGroupByDigest, GetTiDBSlowQueryWithDiffPlan,
      GetAllDiagnoseReport]"

definition GenerateReportError :: "'f TableRowDef list \<Rightarrow> 'f TableDef" where
  "GenerateReportError errRows =
     (table_schema ''error'' ''generate_report_error'' [] [] [''CATEGORY'', ''TABLE'', ''ERROR''])\<lparr>Rows := Some errRows\<rparr>"

definition getCompareTables ::
  "string \<Rightarrow> 'f diag_env \<Rightarrow> sql_db \<Rightarrow> string \<Rightarrow> string \<Rightarrow> 'f TableDef list \<times> 'f TableRowDef list" where
  "getCompareTables msg E db startTime endTime = run_tables msg E db startTime endTime compare_funcs"

definition GetReportHeaderTables ::
  "string \<Rightarrow> 'f diag_env \<Rightarrow> sql_db \<Rightarrow> string \<Rightarrow> string \<Rightarrow> 'f TableDef list \<times> 'f TableRowDef list" where
  "GetReportHeaderTables msg E db startTime endTime = run_tables msg E db startTime endTime header_funcs"

definition GetReportEndTables ::
  "string \<Rightarrow> 'f diag_env \<Rightarrow> sql_db \<Rightarrow> string \<Rightarrow> string \<Rightarrow> 'f TableDef list \<times> 'f TableRowDef list" where
  "GetReportEndTables msg E db startTime endTime = run_tables msg E db startTime endTime end_funcs"

section \<open>The report of one range\<close>

definition newline_text :: string where
  "newline_text = [CHR 0x0A]"

definition metric_storage_hint :: string where
  "metric_storage_hint =
     ''you can use this shell command to set the config: `curl -X POST -d '' @
     quoted ''{\"metric-storage\":\"http://{PROMETHEUS_ADDRESS}\"}'' @ '' http://{PD_ADDRESS}/pd/api/v1/config`, '' @ newline_text @
     ''PROMETHEUS_ADDRESS is the prometheus address, It's used for query metric data; PD_ADDRESS is the HTTP API address of PD server, all PD servers need to set this config. '' @ newline_text @
     ''Here is an example: `curl -X POST -d '' @ quoted ''{\"metric-storage\":\"http://127.0.0.1:9090\"}'' @
     '' http://127.0.0.1:2379/pd/api/v1/config`''"

definition metric_storage_check :: string where
  "metric_storage_check =
     '', '' @ newline_text @
     ''Currently, the PD config `pd-server.metric-storage` value should be prometheus address, please check whether the config value is correct, you can use below sql check the value: '' @ newline_text @
     ''select * from information_schema.cluster_config where type='' @ quoted ''pd'' @ '' and `key` ='' @
     quoted ''pd-server.metric-storage'' @ ''; , '' @ newline_text"

definition checkBeforeReport :: "'f gofloat \<Rightarrow> sql_db \<Rightarrow> 'f TableRowDef list" where
  "checkBeforeReport F db =
     (case querySQL db ''select count(*) from metrics_schema.up;'' of
        Fails err \<Rightarrow> [row_of F [''check before report'', ''metrics_schema.up'', err @ metric_storage_check @ metric_storage_hint]]
      | _ \<Rightarrow> [])"

definition GetReportTables :: "string \<Rightarrow> 'f diag_env \<Rightarrow> sql_db \<Rightarrow> string \<Rightarrow> string \<Rightarrow> 'f TableDef list" where
  "GetReportTables msg E db startTime endTime =
     (case run_tables msg E db startTime endTime report_funcs of
        (tables, errRows) \<Rightarrow> tables @ [GenerateReportError errRows])"

text \<open>The category of a table is blanked when it is the one of the table before.\<close>

fun show_categories :: "string \<Rightarrow> 'f TableDef list \<Rightarrow> 'f TableDef list" where
  "show_categories lastCategory [] = []"
| "show_categories lastCategory (tbl # tables) =
     (let category = strings_Join (Category tbl) '','' in
      if category \<noteq> lastCategory then tbl # show_categories category tables
      else tbl\<lparr>Category := ['''']\<rparr> # show_categories lastCategory tables)"

definition GetReportTablesForDisplay :: "string \<Rightarrow> 'f diag_env \<Rightarrow> sql_db \<Rightarrow> string \<Rightarrow> string \<Rightarrow> 'f TableDef list" where
  "GetReportTablesForDisplay msg E db startTime endTime =
     (let errRows = checkBeforeReport (de_float E) db in
      if 0 < length errRows then [GenerateReportError errRows]
      else show_categories '''' (GetReportTables msg E db startTime endTime))"

section \<open>Tables of two ranges\<close>

text \<open>The two lists are merged one by one; what is left of the longer one follows.\<close>

fun alternate :: "'a list \<Rightarrow> 'a list \<Rightarrow> 'a list" where
  "alternate (x # xs) (y # ys) = x # y # alternate xs ys"
| "alternate xs ys = xs @ ys"

definition add_title :: "string \<Rightarrow> 'f TableDef \<Rightarrow> 'f TableDef" where
  "add_title suffix tbl = (if Rows tbl \<noteq> None then tbl\<lparr>Title := Title tbl @ suffix\<rparr> else tbl)"

definition two_range_tables ::
  "string \<Rightarrow> 'f diag_env \<Rightarrow> sql_db \<Rightarrow> string \<Rightarrow> string \<Rightarrow> string \<Rightarrow> 'f TableDef list \<times> 'f TableRowDef list" where
  "two_range_tables msg E db startTime endTime suffix =
     map_prod (map (add_title suffix)) (\<lambda>errs. errs) (run_tables msg E db startTime endTime two_range_funcs)"

section \<open>Goroutines that append to one variable\<close>

text \<open>
  \<open>errRows = append(errRows, errs...)\<close> in a goroutine, with no lock: it loads the variable and
  then stores the extended slice. \<open>None\<close> is a goroutine that does not append. The steps are those
  in which \<open>append\<close> copies, as it does from an empty slice: what two goroutines that write into
  the spare room of one array make of it is not modelled, so a report has at least these outcomes.
\<close>

datatype 'r appender = Pending | Loaded "'r list" | Stored

type_synonym 'r race_state = "'r appender list \<times> 'r list"

inductive race_step :: "'r list option list \<Rightarrow> 'r race_state \<Rightarrow> 'r race_state \<Rightarrow> bool" for errs where
  load_rows: "i < length errs \<Longrightarrow> errs ! i \<noteq> None \<Longrightarrow> ps ! i = Pending \<Longrightarrow>
    race_step errs (ps, v) (ps[i := Loaded v], v)"
| store_rows: "i < length errs \<Longrightarrow> errs ! i = Some es \<Longrightarrow> ps ! i = Loaded s \<Longrightarrow>
    race_step errs (ps, v) (ps[i := Stored], s @ es)"
| no_append: "i < length errs \<Longrightarrow> errs ! i = None \<Longrightarrow> ps ! i = Pending \<Longrightarrow>
    race_step errs (ps, v) (ps[i := Stored], v)"

definition race_results :: "'r list option list \<Rightarrow> 'r list \<Rightarrow> bool" where
  "race_results errs v \<longleftrightarrow>
     (race_step errs)\<^sup>*\<^sup>* (replicate (length errs) Pending, []) (replicate (length errs) Stored, v)"

text \<open>\<open>GetReportTablesIn2Range\<close>: its tables, and the error rows it may return.\<close>

definition GetReportTablesIn2Range ::
  "string \<Rightarrow> 'f diag_env \<Rightarrow> sql_db \<Rightarrow> string \<Rightarrow> string \<Rightarrow> string \<Rightarrow> string \<Rightarrow> 'f TableDef list \<times> 'f TableRowDef list \<Rightarrow> bool" where
  "GetReportTablesIn2Range msg E db startTime1 endTime1 startTime2 endTime2 = (\<lambda>(tables, errRows).
     let (tables1, errRows1) = two_range_tables msg E db startTime1 endTime1 ''_in_time_range_t1'';
         (tables2, errRows2) = two_range_tables msg E db startTime2 endTime2 ''_in_time_range_t2''
     in tables = alternate tables1 tables2 \<and> race_results [Some errRows1, Some errRows2] errRows)"

section \<open>The comparison report\<close>

text \<open>
  The tables a run of \<open>GetCompareReportTablesForDisplay\<close> may return; no run returns when
  \<open>CompareDiagnose\<close> or \<open>getTiDBAbnormalSlowQueryOnly\<close> panics, which ends the process.
\<close>

definition optional_table :: "'f TableDef \<times> 'f TableRowDef option \<Rightarrow> 'f TableDef list" where
  "optional_table r = (case snd r of None \<Rightarrow> [fst r] | Some _ \<Rightarrow> [])"

definition optional_error :: "'f TableDef \<times> 'f TableRowDef option \<Rightarrow> 'f TableRowDef list option" where
  "optional_error r = map_option (\<lambda>row. [row]) (snd r)"

definition GetCompareReportTablesForDisplay ::
  "nat \<Rightarrow> string \<Rightarrow> 'f diag_env \<Rightarrow> sql_db \<Rightarrow> string \<Rightarrow> string \<Rightarrow> string \<Rightarrow> string \<Rightarrow> 'f TableDef list \<Rightarrow> bool" where
  "GetCompareReportTablesForDisplay fuel msg E db startTime1 endTime1 startTime2 endTime2 report =
     (let F = de_float E; errRows = checkBeforeReport F db in
      if 0 < length errRows then report = [GenerateReportError errRows] else
      let (tables0, errRows0) = GetReportHeaderTables msg E db startTime2 endTime2;
          (tables2, errRows2) = getCompareTables msg E db startTime1 endTime1;
          (tables3, errRows3) = getCompareTables msg E db startTime2 endTime2;
          (tables4, errRows4) = GetReportEndTables msg E db startTime2 endTime2
      in \<exists>tables1 errRows1 diagnose abnormal errRows.
           GetReportTablesIn2Range msg E db startTime1 endTime1 startTime2 endTime2 (tables1, errRows1) \<and>
           CompareDiagnose E db startTime1 endTime1 startTime2 endTime2 = Returns diagnose \<and>
           getTiDBAbnormalSlowQueryOnly F db startTime1 endTime1 startTime2 endTime2 = Returns abnormal \<and>
           race_results [Some errRows0, Some errRows1, Some errRows2, Some errRows3, optional_error diagnose,
             optional_error abnormal, Some errRows4] errRows \<and>
           (let (tables, errs) = CompareTables fuel E tables2 tables3; errRows = errRows @ errs in
            report =
              [GetCompareHeaderTimeTable F startTime1 endTime1 startTime2 endTime2] @ tables0 @ optional_table abnormal @
              tables1 @ optional_table diagnose @ tables @ tables4 @
              (if 0 < length errRows then [GenerateReportError errRows] else [])))"

end
