(* ===== verification/DiagTyped.thy ===== *)
theory DiagTyped
  imports DiagReport
begin

text \<open>
  The tables of the report are well typed: every table function returns the schema that is
  its own, so tables that are compared agree in their columns, and the rows that metric queries
  give have a cell for each column, whatever happens on the way from the answers of the database
  to the cells of the table.
\<close>

section \<open>Schemas\<close>

definition returns_schema :: "'f TableDef \<Rightarrow> 'f table_result \<Rightarrow> bool" where
  "returns_schema sc r \<longleftrightarrow>
     (case r of None \<Rightarrow> True | Some (t, err) \<Rightarrow> t\<lparr>Rows := None\<rparr> = sc \<and> (Rows t \<noteq> None \<longrightarrow> err = None))"

definition compare_schemas :: "'f TableDef list" where
  "compare_schemas =
     [GetLoadTable_schema, GetCPUUsageTable_schema, GetTiKVThreadCPUTable_schema, GetGoroutinesCountTable_schema,
      GetProcessMemUsageTable_schema, GetTotalTimeConsumeTable_schema, GetTotalErrorTable_schema,
      GetTiDBTimeConsumeTable_schema, GetTiDBConnectionCountTable_schema, GetTiDBTxnTableData_schema,
      GetTiDBStatisticsInfo_schema, GetTiDBDDLOwner_schema, GetPDTimeConsumeTable_schema, GetPDSchedulerInfo_schema,
      GetPDClusterStatusTable_schema, GetStoreStatusTable_schema, GetPDEtcdStatusTable_schema,
      GetTiKVTotalTimeConsumeTable_schema, GetTiKVRocksDBTimeConsumeTable_schema, GetTiKVErrorTable_schema,
      GetTiKVStoreInfo_schema, GetTiKVRegionSizeInfo_schema, GetTiKVCopInfo_schema, GetTiKVSchedulerInfo_schema,
      GetTiKVRaftInfo_schema, GetTiKVSnapshotInfo_schema, GetTiKVGCInfo_schema, GetTiKVTaskInfo_schema,
      GetTiKVCacheHitTable_schema, GetPDConfigInfo_schema, GetPDConfigChangeInfo_schema, GetTiDBGCConfigInfo_schema,
      GetTiDBGCConfigChangeInfo_schema, GetTiKVRocksDBConfigInfo_schema, GetTiKVRocksDBConfigChangeInfo_schema,
      GetTiKVRaftStoreConfigInfo_schema, GetTiKVRaftStoreConfigChangeInfo_schema]"

lemmas schema_defs =
  GetLoadTable_schema_def GetCPUUsageTable_schema_def GetTiKVThreadCPUTable_schema_def GetGoroutinesCountTable_schema_def
  GetProcessMemUsageTable_schema_def GetTotalTimeConsumeTable_schema_def GetTotalErrorTable_schema_def
  GetTiDBTimeConsumeTable_schema_def GetTiDBConnectionCountTable_schema_def GetTiDBTxnTableData_schema_def
  GetTiDBStatisticsInfo_schema_def GetTiDBDDLOwner_schema_def GetPDTimeConsumeTable_schema_def GetPDSchedulerInfo_schema_def
  GetPDClusterStatusTable_schema_def GetStoreStatusTable_schema_def GetPDEtcdStatusTable_schema_def
  GetTiKVTotalTimeConsumeTable_schema_def GetTiKVRocksDBTimeConsumeTable_schema_def GetTiKVErrorTable_schema_def
  GetTiKVStoreInfo_schema_def GetTiKVRegionSizeInfo_schema_def GetTiKVCopInfo_schema_def GetTiKVSchedulerInfo_schema_def
  GetTiKVRaftInfo_schema_def GetTiKVSnapshotInfo_schema_def GetTiKVGCInfo_schema_def GetTiKVTaskInfo_schema_def
  GetTiKVCacheHitTable_schema_def GetPDConfigInfo_schema_def GetPDConfigChangeInfo_schema_def GetTiDBGCConfigInfo_schema_def
  GetTiDBGCConfigChangeInfo_schema_def GetTiKVRocksDBConfigInfo_schema_def GetTiKVRocksDBConfigChangeInfo_schema_def
  GetTiKVRaftStoreConfigInfo_schema_def GetTiKVRaftStoreConfigChangeInfo_schema_def

lemmas compare_func_defs =
  GetLoadTable_def GetCPUUsageTable_def GetTiKVThreadCPUTable_def GetGoroutinesCountTable_def GetProcessMemUsageTable_def
  GetTotalTimeConsumeTable_def GetTotalErrorTable_def GetTiDBTimeConsumeTable_def GetTiDBConnectionCountTable_def
  GetTiDBTxnTableData_def GetTiDBStatisticsInfo_def GetTiDBDDLOwner_def GetPDTimeConsumeTable_def GetPDSchedulerInfo_def
  GetPDClusterStatusTable_def GetStoreStatusTable_def GetPDEtcdStatusTable_def GetTiKVTotalTimeConsumeTable_def
  GetTiKVRocksDBTimeConsumeTable_def GetTiKVErrorTable_def GetTiKVStoreInfo_def GetTiKVRegionSizeInfo_def
  GetTiKVCopInfo_def GetTiKVSchedulerInfo_def GetTiKVRaftInfo_def GetTiKVSnapshotInfo_def GetTiKVGCInfo_def
  GetTiKVTaskInfo_def GetTiKVCacheHitTable_def GetPDConfigInfo_def GetPDConfigChangeInfo_def GetTiDBGCConfigInfo_def
  GetTiDBGCConfigChangeInfo_def GetTiKVRocksDBConfigInfo_def GetTiKVRocksDBConfigChangeInfo_def
  GetTiKVRaftStoreConfigInfo_def GetTiKVRaftStoreConfigChangeInfo_def

lemma fill_table_schema: "Rows sc = None \<Longrightarrow> returns_schema sc (fill_table sc r)"
  by (simp add: returns_schema_def fill_table_def split: outcome.splits)

lemma drop_empty_schema: "returns_schema sc r \<Longrightarrow> returns_schema sc (drop_empty r)"
  by (auto simp: returns_schema_def drop_empty_def split: option.splits)

lemma schema_Rows: "Rows (table_schema c t js cs cols) = None"
  by (simp add: table_schema_def)

lemma fill_table_typed: "returns_schema (table_schema c t js cs cols) (fill_table (table_schema c t js cs cols) r)"
  by (rule fill_table_schema [OF schema_Rows])

lemma compare_funcs_schemas:
  "list_all2 (\<lambda>f sc. returns_schema sc (f E db startTime endTime)) compare_funcs compare_schemas"
  unfolding compare_funcs_def compare_schemas_def
  by (simp add: compare_func_defs schema_defs Let_def fill_table_typed drop_empty_schema)

lemma schema_ok_simp:
  "schema_ok (table_schema c t js cs cols) \<longleftrightarrow>
     js \<noteq> [] \<and> distinct js \<and> list_all (\<lambda>i. i < length cols) (js @ cs)"
  by (auto simp: schema_ok_def table_schema_def list_all_iff)

lemma compare_schemas_ok: "list_all schema_ok compare_schemas"
  unfolding compare_schemas_def schema_defs by (simp add: schema_ok_simp)

lemma table_name_schema: "table_name (table_schema c t js cs cols) = (c, t)"
  by (simp add: table_name_def table_schema_def)

lemma compare_schemas_distinct: "distinct (map table_name compare_schemas)"
  unfolding compare_schemas_def schema_defs by (simp add: table_name_schema)

section \<open>The tables that are compared\<close>

lemma set_map_filter: "y \<in> set (List.map_filter f xs) \<longleftrightarrow> (\<exists>x\<in>set xs. f x = Some y)"
  by (induction xs) (auto simp: List.map_filter_simps split: option.splits)

lemma task_table:
  "te_tbl (task_result F (as_get_table msg r) i) = Some t \<longleftrightarrow> (\<exists>err. r = Some (t, err) \<and> Rows t \<noteq> None)"
  by (auto simp: task_result_def call_table_def as_get_table_def empty_table_def split: option.splits)

lemma run_tables_table:
  "t \<in> set (fst (run_tables msg E db startTime endTime funcs)) \<longleftrightarrow>
     (\<exists>f\<in>set funcs. \<exists>err. f E db startTime endTime = Some (t, err) \<and> Rows t \<noteq> None)"
proof -
  have "t \<in> set (fst (run_tables msg E db startTime endTime funcs)) \<longleftrightarrow>
      (\<exists>i<length funcs. \<exists>err. (funcs ! i) E db startTime endTime = Some (t, err) \<and> Rows t \<noteq> None)"
    by (auto simp: run_tables_def tables_in_order_def Let_def set_map_filter task_table)
  then show ?thesis by (metis in_set_conv_nth)
qed

lemma list_all2_left: "list_all2 P xs ys \<Longrightarrow> x \<in> set xs \<Longrightarrow> \<exists>y\<in>set ys. P x y"
  by (induction rule: list_all2_induct) auto

lemma compare_table_schema:
  assumes "t \<in> set (fst (getCompareTables msg E db startTime endTime))"
  obtains sc where "sc \<in> set compare_schemas" and "t\<lparr>Rows := None\<rparr> = sc"
proof -
  obtain f err where f: "f \<in> set compare_funcs" "f E db startTime endTime = Some (t, err)"
    using assms by (auto simp: getCompareTables_def run_tables_table)
  obtain sc where "sc \<in> set compare_schemas" "returns_schema sc (f E db startTime endTime)"
    using list_all2_left [OF compare_funcs_schemas f(1)] by blast
  then show ?thesis using that f(2) by (simp add: returns_schema_def)
qed

lemma without_rows_simps:
  "table_name (t\<lparr>Rows := r\<rparr>) = table_name t" "schema_ok (t\<lparr>Rows := r\<rparr>) = schema_ok t"
  by (simp_all add: table_name_def schema_ok_def)

text \<open>
  Whenever the comparison pairs two tables of two reports, taken of any two time ranges and
  any two answers of the database, they have the same schema in everything but their rows, and
  the schema is one that can be compared: it has join columns, distinct ones, and all join and
  compare columns exist.
\<close>

theorem compared_tables_typed:
  assumes "t \<in> set (fst (getCompareTables msg E db1 startTime1 endTime1))"
    and "u \<in> set (fst (getCompareTables msg E db2 startTime2 endTime2))" and "same_table t u"
  shows "t\<lparr>Rows := None\<rparr> = u\<lparr>Rows := None\<rparr> \<and> same_schema t u \<and> schema_ok t \<and> schema_ok u"
proof -
  obtain s1 where s1: "s1 \<in> set compare_schemas" "t\<lparr>Rows := None\<rparr> = s1" using compare_table_schema [OF assms(1)] .
  obtain s2 where s2: "s2 \<in> set compare_schemas" "u\<lparr>Rows := None\<rparr> = s2" using compare_table_schema [OF assms(2)] .
  have "table_name s1 = table_name s2"
    using assms(3) s1(2) s2(2) by (metis without_rows_simps(1) same_table_name)
  then have e: "s1 = s2" using compare_schemas_distinct s1(1) s2(1) unfolding distinct_map inj_on_def by blast
  then have "t\<lparr>Rows := None\<rparr> = u\<lparr>Rows := None\<rparr>" using s1(2) s2(2) by simp
  moreover have "schema_ok t" "schema_ok u"
    using compare_schemas_ok s1 s2 by (metis list_all_iff without_rows_simps(2))+
  moreover have "same_schema t u"
    using calculation(1) by (cases t, cases u) (simp add: same_schema_def)
  ultimately show ?thesis by blast
qed

text \<open>A database without rows: the table of the CPU usage of processes is paired with itself.\<close>

definition demo_no_rows :: sql_db where
  "demo_no_rows sql = Inr \<lparr>sa_rows = [], sa_err = None\<rparr>"

lemma demo_no_rows_query [simp]: "querySQL demo_no_rows sql = Returns []"
  by (simp add: querySQL_def demo_no_rows_def)

lemma compared_tables_typed_witness:
  "let t = (GetCPUUsageTable_schema :: rat TableDef)\<lparr>Rows := Some []\<rparr> in
     t \<in> set (fst (getCompareTables ''boom'' demo_diag_env demo_no_rows ''a'' ''b'')) \<and> same_table t t \<and>
     same_schema t t \<and> schema_ok t"
proof -
  define t where "t = (GetCPUUsageTable_schema :: rat TableDef)\<lparr>Rows := Some []\<rparr>"
  have "GetCPUUsageTable demo_diag_env demo_no_rows s e = Some (t, None)" for s e
    by (simp add: GetCPUUsageTable_def getSQLRoundRows_def fill_table_def t_def Let_def)
  moreover have "Rows t \<noteq> None" by (simp add: t_def)
  moreover have "GetCPUUsageTable \<in> set compare_funcs" unfolding compare_funcs_def by simp
  ultimately have t: "t \<in> set (fst (getCompareTables ''boom'' demo_diag_env demo_no_rows s e))" for s e
    by (force simp: getCompareTables_def run_tables_table)
  have s: "same_table t t" by (simp add: same_table_def)
  show ?thesis
    using compared_tables_typed [OF t t s] t [of "''a''" "''b''"] s unfolding t_def Let_def by blast
qed

end
