(* ===== verification/DiagRows.thy ===== *)
theory DiagRows
  imports DiagTyped
begin

text \<open>
  Every row that a metric query puts into a table of the report has exactly one cell for each
  column of the table, and so have the rows below it: from the width of the database's answers
  through the joining of labels, the formatting and the padding to the schema of the table.
\<close>

section \<open>Answers\<close>

definition answers_width :: "sql_db \<Rightarrow> string \<Rightarrow> nat \<Rightarrow> bool" where
  "answers_width db sql n \<longleftrightarrow>
     (case db sql of Inl _ \<Rightarrow> True
      | Inr a \<Rightarrow> list_all (\<lambda>row. case row of Inl _ \<Rightarrow> True | Inr cells \<Rightarrow> length cells = n) (sa_rows a))"

lemma query_rows_width:
  assumes "list_all (\<lambda>row. case row of Inl _ \<Rightarrow> True | Inr cells \<Rightarrow> length cells = n) raw"
    and "list_all (\<lambda>r. length r = n) acc"
  shows "query_rows err raw acc \<noteq> Panics \<and> (\<forall>rows. query_rows err raw acc = Returns rows \<longrightarrow> list_all (\<lambda>r. length r = n) rows)"
  using assms by (induction err raw acc rule: query_rows.induct) (auto split: option.splits)

lemma querySQL_width:
  assumes "answers_width db sql n"
  shows "querySQL db sql \<noteq> Panics \<and> (\<forall>rows. querySQL db sql = Returns rows \<longrightarrow> list_all (\<lambda>r. length r = n) rows)"
  using assms query_rows_width [of n _ "[]"]
  by (auto simp: querySQL_def answers_width_def split: sum.splits)

section \<open>Cells\<close>

definition typed_row :: "nat \<Rightarrow> 'f TableRowDef \<Rightarrow> bool" where
  "typed_row n r \<longleftrightarrow> length (Values r) = n \<and> list_all (\<lambda>s. length s = n) (SubValues r)"

lemma length_fold_update: "length (fold (\<lambda>i row. row[i := f i row]) ixs row) = length row"
  by (induction ixs arbitrary: row) auto

lemma update_cells_length:
  "list_all (\<lambda>i. i < length row) ixs \<Longrightarrow> \<exists>row'. update_cells f ixs row = Returns row' \<and> length row' = length row"
  by (simp add: update_cells_def length_fold_update)

lemma out_map_ok:
  "(\<And>x. x \<in> set xs \<Longrightarrow> \<exists>y. f x = Returns y \<and> P y) \<Longrightarrow> \<exists>ys. out_map f xs = Returns ys \<and> list_all P ys"
proof (induction xs)
  case (Cons x xs)
  then obtain y ys where "f x = Returns y" "P y" "out_map f xs = Returns ys" "list_all P ys" by force
  then show ?case by simp
qed simp

lemma join_labels_length:
  "1 \<le> n \<Longrightarrow> length row = n + k \<Longrightarrow> 1 \<le> k \<Longrightarrow> \<exists>row'. join_labels n row = Returns row' \<and> length row' = Suc k"
  by (auto simp: join_labels_def)

lemma handle_row_typed:
  assumes "\<And>row. length row = n \<Longrightarrow> \<exists>row'. special row = Returns row' \<and> length row' = n"
    and "length vs = n" and "list_all (\<lambda>s. length s = n) subs"
  shows "\<exists>r. handle_row F special comment vs subs = Returns r \<and> typed_row n r"
proof -
  obtain vs' where "special vs = Returns vs'" "length vs' = n" using assms(1,2) by blast
  moreover obtain subs' where "out_map special subs = Returns subs'" "list_all (\<lambda>s. length s = n) subs'"
    using out_map_ok [of subs special "\<lambda>s. length s = n"] assms(1,3) by (auto simp: list_all_iff)
  ultimately show ?thesis by (simp add: handle_row_def typed_row_def row_def_def)
qed

lemma handle_cells_typed:
  assumes "\<And>row. length row = n \<Longrightarrow> \<exists>row'. special row = Returns row' \<and> length row' = k" and "typed_row n r"
  shows "\<exists>r'. handle_cells special r = Returns r' \<and> typed_row k r'"
proof -
  obtain vs' where "special (Values r) = Returns vs'" "length vs' = k" using assms by (auto simp: typed_row_def)
  moreover obtain subs' where "out_map special (SubValues r) = Returns subs'" "list_all (\<lambda>s. length s = k) subs'"
    using out_map_ok [of "SubValues r" special "\<lambda>s. length s = k"] assms by (auto simp: list_all_iff typed_row_def)
  ultimately show ?thesis by (simp add: handle_cells_def typed_row_def)
qed

lemma avg_handle_length: "length row = 5 \<Longrightarrow> \<exists>row'. avg_handle F row = Returns row' \<and> length row' = 5"
  using update_cells_length [of row "[2, 3, 4]"] by (auto simp: avg_handle_def)

lemma sum_handle_length: "length row = 3 \<Longrightarrow> \<exists>row'. sum_handle F row = Returns row' \<and> length row' = 3"
  using update_cells_length [of row "[2]"] by (auto simp: sum_handle_def)

lemma time_cells_length: "length row = 9 \<Longrightarrow> \<exists>row'. update_cells f time_cells row = Returns row' \<and> length row' = 9"
  using update_cells_length [of row time_cells f] by (simp add: time_cells_def)

lemma round_times_length: "length row = 9 \<Longrightarrow> \<exists>row'. round_times F row = Returns row' \<and> length row' = 9"
  using time_cells_length [of row] time_cells_length [of "row[4 := convertFloatToInt F (row ! 4)]"]
  by (simp add: round_times_def idx_def)

lemma time_handle_length:
  assumes "length row = 9"
  shows "\<exists>row'. time_handle F row = Returns row' \<and> length row' = 9"
proof -
  obtain row' where "update_cells (us_cell F) time_cells row = Returns row'" "length row' = 9"
    using time_cells_length [OF assms] by blast
  then show ?thesis
    using assms round_times_length [OF assms] round_times_length [of "row'[0 := take (length (row ! 0) - 4) (row ! 0)]"]
    by (auto simp: time_handle_def Let_def idx_def)
qed

lemma int_cells_length: "length (int_cells F row) = length row"
  by (simp add: int_cells_def)

section \<open>One query\<close>

definition named_avg :: "AvgMaxMinTableDef \<Rightarrow> AvgMaxMinTableDef" where
  "named_avg t = (if length (am_name t) = 0 then t\<lparr>am_name := am_tbl t\<rparr> else t)"

definition named_sum :: "sumValueQuery \<Rightarrow> sumValueQuery" where
  "named_sum t = (if length (sv_name t) = 0 then t\<lparr>sv_name := sv_tbl t\<rparr> else t)"

text \<open>The database answers the two statements of a query with the columns they select.\<close>

fun query_answered :: "'f gofloat \<Rightarrow> sql_db \<Rightarrow> 'f queryArg \<Rightarrow> rowQuery \<Rightarrow> bool" where
  "query_answered F db arg (AvgQuery t) \<longleftrightarrow>
     answers_width db (avg_summary_sql (named_avg t) arg) 5 \<and>
     answers_width db (avg_detail_sql (named_avg t) arg) (length (am_labels t) + 4)"
| "query_answered F db arg (SumQuery t) \<longleftrightarrow>
     answers_width db (sum_summary_sql (named_sum t) arg) 3 \<and>
     answers_width db (sum_detail_sql (named_sum t) arg) (length (sv_labels t) + 2)"
| "query_answered F db arg (TimeQuery t) \<longleftrightarrow>
     answers_width db (tt_genSumarySQLs F t arg) (5 + length (qa_quantiles arg)) \<and>
     answers_width db (tt_genDetailSQLs F t arg) (length (tt_labels t) + (4 + length (qa_quantiles arg)))"
| "query_answered F db arg (ValueQuery t) \<longleftrightarrow>
     answers_width db (tv_genSumarySQLs F t arg) (4 + length (qa_quantiles arg)) \<and>
     answers_width db (tv_genDetailSQLs F t arg) (length (tv_labels t) + (3 + length (qa_quantiles arg)))"

text \<open>The total time in the statements is whatever the rows before have made it.\<close>

definition always_answered :: "'f gofloat \<Rightarrow> sql_db \<Rightarrow> 'f queryArg \<Rightarrow> rowQuery \<Rightarrow> bool" where
  "always_answered F db arg q \<longleftrightarrow> (\<forall>x. query_answered F db (arg\<lparr>qa_totalTime := x\<rparr>) q)"

fun query_width :: "rowQuery \<Rightarrow> nat" where
  "query_width (AvgQuery t) = 5"
| "query_width (SumQuery t) = 3"
| "query_width (TimeQuery t) = 9"
| "query_width (ValueQuery t) = 8"

lemma summary_detail_typed:
  assumes "answers_width db sql n" and "answers_width db detail (length labels + k)" and "n = Suc k" and "1 \<le> k"
    and "\<And>row subs. length row = n \<Longrightarrow> list_all (\<lambda>s. length s = n) subs \<Longrightarrow> \<exists>r. genRow row subs = Returns r \<and> typed_row n r"
  shows "summary_detail db labels sql detail genRow \<noteq> Panics \<and>
    (\<forall>r. summary_detail db labels sql detail genRow = Returns (Some r) \<longrightarrow> typed_row n r)"
proof (cases "querySQL db sql")
  case (Returns rows)
  show ?thesis
  proof (cases rows)
    case (Cons row rest)
    then have row: "length row = n" using querySQL_width [OF assms(1)] Returns by simp
    show ?thesis
    proof (cases "labels = []")
      case True
      then show ?thesis using assms(5) [OF row, of "[]"] Returns Cons by (auto simp: summary_detail_def)
    next
      case False
      then have l: "1 \<le> length labels" by (simp add: Suc_le_eq)
      show ?thesis
      proof (cases "querySQL db detail")
        case (Returns subs)
        then have "list_all (\<lambda>r. length r = length labels + k) subs" using querySQL_width [OF assms(2)] by blast
        then obtain subs' where "out_map (join_labels (length labels)) subs = Returns subs'" "list_all (\<lambda>s. length s = n) subs'"
          using out_map_ok [of subs "join_labels (length labels)" "\<lambda>s. length s = n"] join_labels_length [OF l _ assms(4)] assms(3)
          by (auto simp: list_all_iff)
        then show ?thesis
          using assms(5) [OF row, of subs'] \<open>querySQL db sql = Returns rows\<close> Cons Returns False
          by (auto simp: summary_detail_def)
      qed (use querySQL_width [OF assms(2)] Returns Cons False in \<open>auto simp: summary_detail_def\<close>)
    qed
  qed (use Returns in \<open>auto simp: summary_detail_def\<close>)
qed (use querySQL_width [OF assms(1)] in \<open>auto simp: summary_detail_def\<close>)

lemma avg_queryRow_typed:
  assumes "query_answered F db arg (AvgQuery t)"
  shows "avg_queryRow F db t arg \<noteq> Panics \<and> (\<forall>r. avg_queryRow F db t arg = Returns (Some r) \<longrightarrow> typed_row 5 r)"
proof -
  have l: "am_labels (named_avg t) = am_labels t" by (simp add: named_avg_def)
  have "avg_queryRow F db t arg = summary_detail db (am_labels (named_avg t)) (avg_summary_sql (named_avg t) arg)
      (avg_detail_sql (named_avg t) arg) (avg_genRow F (named_avg t))"
    by (simp add: avg_queryRow_def named_avg_def Let_def)
  moreover have "summary_detail db (am_labels (named_avg t)) (avg_summary_sql (named_avg t) arg) (avg_detail_sql (named_avg t) arg) (avg_genRow F (named_avg t)) \<noteq> Panics \<and>
    (\<forall>r. summary_detail db (am_labels (named_avg t)) (avg_summary_sql (named_avg t) arg) (avg_detail_sql (named_avg t) arg) (avg_genRow F (named_avg t)) = Returns (Some r) \<longrightarrow> typed_row 5 r)"
  proof (rule summary_detail_typed)
    show "answers_width db (avg_summary_sql (named_avg t) arg) 5" "answers_width db (avg_detail_sql (named_avg t) arg) (length (am_labels (named_avg t)) + 4)"
      using assms by (simp_all add: l)
    show "\<exists>r. avg_genRow F (named_avg t) row subs = Returns r \<and> typed_row 5 r"
      if "length row = 5" "list_all (\<lambda>s. length s = 5) subs" for row subs
      unfolding avg_genRow_def by (rule handle_row_typed [OF avg_handle_length]) (use that in simp_all)
  qed simp_all
  ultimately show ?thesis by simp
qed

lemma sum_queryRow_typed:
  assumes "query_answered F db arg (SumQuery t)"
  shows "sum_queryRow F db t arg \<noteq> Panics \<and> (\<forall>r. sum_queryRow F db t arg = Returns (Some r) \<longrightarrow> typed_row 3 r)"
proof -
  have l: "sv_labels (named_sum t) = sv_labels t" by (simp add: named_sum_def)
  have "sum_queryRow F db t arg = summary_detail db (sv_labels (named_sum t)) (sum_summary_sql (named_sum t) arg)
      (sum_detail_sql (named_sum t) arg) (sum_genRow F (named_sum t))"
    by (simp add: sum_queryRow_def named_sum_def Let_def)
  moreover have "summary_detail db (sv_labels (named_sum t)) (sum_summary_sql (named_sum t) arg) (sum_detail_sql (named_sum t) arg) (sum_genRow F (named_sum t)) \<noteq> Panics \<and>
    (\<forall>r. summary_detail db (sv_labels (named_sum t)) (sum_summary_sql (named_sum t) arg) (sum_detail_sql (named_sum t) arg) (sum_genRow F (named_sum t)) = Returns (Some r) \<longrightarrow> typed_row 3 r)"
  proof (rule summary_detail_typed)
    show "answers_width db (sum_summary_sql (named_sum t) arg) 3" "answers_width db (sum_detail_sql (named_sum t) arg) (length (sv_labels (named_sum t)) + 2)"
      using assms by (simp_all add: l)
    show "\<exists>r. sum_genRow F (named_sum t) row subs = Returns r \<and> typed_row 3 r"
      if "length row = 3" "list_all (\<lambda>s. length s = 3) subs" for row subs
      unfolding sum_genRow_def by (rule handle_row_typed [OF sum_handle_length]) (use that in simp_all)
  qed simp_all
  ultimately show ?thesis by simp
qed

lemma value_queryRow_typed:
  assumes "query_answered F db arg (ValueQuery t)" and "length (qa_quantiles arg) = 4"
  shows "value_queryRow F db t arg \<noteq> Panics \<and> (\<forall>r. value_queryRow F db t arg = Returns (Some r) \<longrightarrow> typed_row 8 r)"
  unfolding value_queryRow_def
proof (rule summary_detail_typed)
  show "answers_width db (tv_genSumarySQLs F t arg) 8" "answers_width db (tv_genDetailSQLs F t arg) (length (tv_labels t) + 7)"
    using assms by simp_all
  show "\<exists>r. value_genRow F t row subs = Returns r \<and> typed_row 8 r" if "length row = 8" "list_all (\<lambda>s. length s = 8) subs" for row subs
    unfolding value_genRow_def by (rule handle_row_typed) (use that in \<open>simp_all add: int_cells_length\<close>)
qed simp_all

lemma set_totalTime_simps:
  assumes "3 < length row" obtains x where "set_totalTime F row arg = (Returns (), arg\<lparr>qa_totalTime := x\<rparr>)"
proof -
  have a: "arg = arg\<lparr>qa_totalTime := qa_totalTime arg\<rparr>" by simp
  show ?thesis
    by (rule that [of "if fl_eq F (qa_totalTime arg) (fl_int F 0) \<and> 0 < length (row ! 3)
          then (case fl_Parse F (row ! 3) of Inl _ \<Rightarrow> qa_totalTime arg | Inr t \<Rightarrow> t) else qa_totalTime arg"])
      (use assms in \<open>auto simp: set_totalTime_def idx_def split: sum.splits\<close>)
qed

text \<open>A query of times in two parts: the summary, and what follows with the new total.\<close>

definition time_rest :: "'f gofloat \<Rightarrow> sql_db \<Rightarrow> totalTimeByLabelsTableDef \<Rightarrow> string list \<Rightarrow> 'f queryArg \<Rightarrow> 'f TableRowDef option outcome" where
  "time_rest F db t row arg =
     out_bind (querySQL db (tt_genDetailSQLs F t arg)) (\<lambda>subRows.
     out_bind (out_map (join_labels (length (tt_labels t))) subRows) (\<lambda>subRows.
     out_bind (time_genRow F t row subRows) (\<lambda>r. Returns (Some r))))"

lemma time_genRow_typed:
  "length row = 9 \<Longrightarrow> list_all (\<lambda>s. length s = 9) subs \<Longrightarrow> \<exists>r. time_genRow F t row subs = Returns r \<and> typed_row 9 r"
  unfolding time_genRow_def by (rule handle_row_typed [OF time_handle_length])

lemma time_rest_typed:
  assumes "query_answered F db arg (TimeQuery t)" and "length (qa_quantiles arg) = 4" and "length row = 9" and "tt_labels t \<noteq> []"
  shows "time_rest F db t row arg \<noteq> Panics \<and> (\<forall>r. time_rest F db t row arg = Returns (Some r) \<longrightarrow> typed_row 9 r)"
proof (cases "querySQL db (tt_genDetailSQLs F t arg)")
  case (Returns subs)
  have l: "1 \<le> length (tt_labels t)" using assms(4) by (simp add: Suc_le_eq)
  have "list_all (\<lambda>r. length r = length (tt_labels t) + 8) subs"
    using querySQL_width [of db "tt_genDetailSQLs F t arg"] assms(1,2) Returns by simp
  then obtain subs' where "out_map (join_labels (length (tt_labels t))) subs = Returns subs'" "list_all (\<lambda>s. length s = 9) subs'"
    using out_map_ok [of subs "join_labels (length (tt_labels t))" "\<lambda>s. length s = 9"] join_labels_length [OF l, of _ 8]
    by (auto simp: list_all_iff)
  moreover obtain r where "time_genRow F t row subs' = Returns r" "typed_row 9 r"
    using time_genRow_typed [OF assms(3) calculation(2)] by blast
  ultimately show ?thesis using Returns by (simp add: time_rest_def)
qed (use querySQL_width [of db "tt_genDetailSQLs F t arg"] assms(1) in \<open>auto simp: time_rest_def\<close>)

lemma time_queryRow_unfold:
  "time_queryRow F db t arg =
     (case querySQL db (tt_genSumarySQLs F t arg) of
        Panics \<Rightarrow> (Panics, arg)
      | Fails e \<Rightarrow> (Fails e, arg)
      | Returns [] \<Rightarrow> (Returns None, arg)
      | Returns (row # _) \<Rightarrow>
          if tt_labels t = [] then (out_bind (time_genRow F t row []) (\<lambda>r. Returns (Some r)), arg)
          else (case set_totalTime F row arg of
                  (Returns _, arg) \<Rightarrow> (time_rest F db t row arg, arg)
                | (Fails e, arg) \<Rightarrow> (Fails e, arg)
                | (Panics, arg) \<Rightarrow> (Panics, arg)))"
  by (auto simp: time_queryRow_def op_bind_def op_lift_def op_return_def time_rest_def out_bind_def
      split: outcome.splits list.splits prod.splits)

section \<open>Lists of queries\<close>

fun needs_quantiles :: "rowQuery \<Rightarrow> bool" where
  "needs_quantiles (TimeQuery t) = True"
| "needs_quantiles (ValueQuery t) = True"
| "needs_quantiles _ = False"

definition query_typed :: "'f gofloat \<Rightarrow> sql_db \<Rightarrow> 'f queryArg \<Rightarrow> rowQuery \<Rightarrow> bool" where
  "query_typed F db arg q \<longleftrightarrow> always_answered F db arg q \<and> (needs_quantiles q \<longrightarrow> length (qa_quantiles arg) = 4)"

lemma time_queryRow_typed:
  assumes "always_answered F db arg0 (TimeQuery t)" and "length (qa_quantiles arg0) = 4"
  shows "\<exists>y. snd (time_queryRow F db t (arg0\<lparr>qa_totalTime := x\<rparr>)) = arg0\<lparr>qa_totalTime := y\<rparr> \<and>
    fst (time_queryRow F db t (arg0\<lparr>qa_totalTime := x\<rparr>)) \<noteq> Panics \<and>
    (\<forall>r. fst (time_queryRow F db t (arg0\<lparr>qa_totalTime := x\<rparr>)) = Returns (Some r) \<longrightarrow> typed_row 9 r)"
    (is "\<exists>y. snd ?q = _ \<and> _")
proof -
  let ?arg = "arg0\<lparr>qa_totalTime := x\<rparr>"
  have a: "query_answered F db (arg0\<lparr>qa_totalTime := z\<rparr>) (TimeQuery t)" for z
    using assms(1) unfolding always_answered_def by blast
  show ?thesis
  proof (cases "querySQL db (tt_genSumarySQLs F t ?arg)")
    case (Returns rows)
    show ?thesis
    proof (cases rows)
      case (Cons row rest)
      have row: "length row = 9"
        using querySQL_width [of db "tt_genSumarySQLs F t ?arg"] a [of x] assms(2) Returns Cons by simp
      show ?thesis
      proof (cases "tt_labels t = []")
        case True
        obtain r where "time_genRow F t row [] = Returns r" "typed_row 9 r" using time_genRow_typed [OF row, of "[]"] by auto
        then show ?thesis using True Returns Cons by (auto simp: time_queryRow_unfold)
      next
        case False
        obtain z where z: "set_totalTime F row ?arg = (Returns (), arg0\<lparr>qa_totalTime := z\<rparr>)"
          using set_totalTime_simps [of row F ?arg] row by auto
        then have "?q = (time_rest F db t row (arg0\<lparr>qa_totalTime := z\<rparr>), arg0\<lparr>qa_totalTime := z\<rparr>)"
          using Returns Cons False by (simp add: time_queryRow_unfold)
        then show ?thesis using time_rest_typed [OF a [of z] _ row False] assms(2) by auto
      qed
    qed (use Returns in \<open>auto simp: time_queryRow_unfold\<close>)
  next
    case Panics
    then show ?thesis using querySQL_width [of db "tt_genSumarySQLs F t ?arg"] a [of x] by (metis query_answered.simps(3))
  qed (auto simp: time_queryRow_unfold)
qed

lemma queryRow_typed:
  assumes "query_typed F db arg0 q"
  shows "\<exists>y. snd (queryRow F db q (arg0\<lparr>qa_totalTime := x\<rparr>)) = arg0\<lparr>qa_totalTime := y\<rparr> \<and>
    fst (queryRow F db q (arg0\<lparr>qa_totalTime := x\<rparr>)) \<noteq> Panics \<and>
    (\<forall>r. fst (queryRow F db q (arg0\<lparr>qa_totalTime := x\<rparr>)) = Returns (Some r) \<longrightarrow> typed_row (query_width q) r)"
proof -
  have a: "query_answered F db (arg0\<lparr>qa_totalTime := x\<rparr>) q"
    using assms unfolding query_typed_def always_answered_def by blast
  show ?thesis
  proof (cases q)
    case (AvgQuery t)
    then show ?thesis using avg_queryRow_typed [of F db _ t] a by auto
  next
    case (SumQuery t)
    then show ?thesis using sum_queryRow_typed [of F db _ t] a by auto
  next
    case (TimeQuery t)
    then show ?thesis using time_queryRow_typed [of F db arg0 t x] assms by (simp add: query_typed_def)
  next
    case (ValueQuery t)
    then show ?thesis using value_queryRow_typed [of F db _ t] a assms by (auto simp: query_typed_def)
  qed
qed

text \<open>What \<open>appendRows\<close> has to do: give a row of the table's width and change the total only.\<close>

definition appends :: "('f TableRowDef \<Rightarrow> ('f queryArg, 'f TableRowDef) op) \<Rightarrow> 'f queryArg \<Rightarrow> nat \<Rightarrow> nat \<Rightarrow> bool" where
  "appends ap arg0 n k \<longleftrightarrow>
     (\<forall>row x. typed_row n row \<longrightarrow>
        (\<exists>row' y. ap row (arg0\<lparr>qa_totalTime := x\<rparr>) = (Returns row', arg0\<lparr>qa_totalTime := y\<rparr>) \<and> typed_row k row'))"

lemma getTableRows_typed:
  assumes "\<forall>q\<in>set defs. query_typed F db arg0 q \<and> appends ap arg0 (query_width q) k"
  shows "\<exists>rows y. getTableRows F db ap defs (arg0\<lparr>qa_totalTime := x\<rparr>) = (Returns rows, arg0\<lparr>qa_totalTime := y\<rparr>) \<and>
    list_all (typed_row k) rows \<and> length rows \<le> length defs"
  using assms
proof (induction defs arbitrary: x)
  case (Cons q defs)
  obtain r y where q: "queryRow F db q (arg0\<lparr>qa_totalTime := x\<rparr>) = (r, arg0\<lparr>qa_totalTime := y\<rparr>)" "r \<noteq> Panics"
    "\<And>row. r = Returns (Some row) \<Longrightarrow> typed_row (query_width q) row"
    using queryRow_typed [of F db arg0 q x] Cons.prems by (metis list.set_intros(1) prod.collapse)
  have IH: "\<exists>rows y. getTableRows F db ap defs (arg0\<lparr>qa_totalTime := z\<rparr>) = (Returns rows, arg0\<lparr>qa_totalTime := y\<rparr>) \<and>
      list_all (typed_row k) rows \<and> length rows \<le> length defs" for z
    using Cons by simp
  show ?case
  proof (cases "\<exists>row. r = Returns (Some row)")
    case True
    then obtain row where row: "r = Returns (Some row)" by blast
    obtain row' z where "ap row (arg0\<lparr>qa_totalTime := y\<rparr>) = (Returns row', arg0\<lparr>qa_totalTime := z\<rparr>)" "typed_row k row'"
      using Cons.prems q(3) [OF row] unfolding appends_def by (metis list.set_intros(1))
    moreover obtain rows w where "getTableRows F db ap defs (arg0\<lparr>qa_totalTime := z\<rparr>) = (Returns rows, arg0\<lparr>qa_totalTime := w\<rparr>)"
      "list_all (typed_row k) rows" "length rows \<le> length defs" using IH by blast
    ultimately have "getTableRows F db ap (q # defs) (arg0\<lparr>qa_totalTime := x\<rparr>) = (Returns (row' # rows), arg0\<lparr>qa_totalTime := w\<rparr>) \<and>
        list_all (typed_row k) (row' # rows) \<and> length (row' # rows) \<le> length (q # defs)"
      using q(1) row by simp
    then show ?thesis by blast
  next
    case False
    then have "getTableRows F db ap (q # defs) (arg0\<lparr>qa_totalTime := x\<rparr>) = getTableRows F db ap defs (arg0\<lparr>qa_totalTime := y\<rparr>)"
      using q(1,2) by (auto split: outcome.splits option.splits)
    then show ?thesis using IH [of y] by (metis le_SucI length_Cons)
  qed
next
  case Nil
  show ?case by (intro exI [of _ "[]"] exI [of _ x]) simp
qed

lemma table_rows_of_typed:
  assumes "\<forall>q\<in>set defs. query_typed F db arg0 q \<and> appends ap arg0 (query_width q) k"
  shows "\<exists>rows. table_rows_of F db ap defs arg0 = Returns rows \<and> list_all (typed_row k) rows \<and> length rows \<le> length defs"
proof -
  have "arg0\<lparr>qa_totalTime := qa_totalTime arg0\<rparr> = arg0" by simp
  then obtain rows y where "getTableRows F db ap defs arg0 = (Returns rows, arg0\<lparr>qa_totalTime := y\<rparr>)"
    "list_all (typed_row k) rows" "length rows \<le> length defs"
    using getTableRows_typed [OF assms, of "qa_totalTime arg0"] by metis
  then show ?thesis by (simp add: table_rows_of_def)
qed

lemma appends_return: "appends op_return arg0 n n"
  unfolding appends_def
proof (intro allI impI)
  fix row x assume "typed_row n row"
  then show "\<exists>row' y. op_return row (arg0\<lparr>qa_totalTime := x\<rparr>) = (Returns row', arg0\<lparr>qa_totalTime := y\<rparr>) \<and> typed_row n row'"
    by (intro exI [of _ row] exI [of _ x]) simp
qed

lemma appends_lift:
  "(\<And>row. typed_row n row \<Longrightarrow> \<exists>row'. f row = Returns row' \<and> typed_row k row') \<Longrightarrow> appends (\<lambda>row. op_lift (f row)) arg0 n k"
  by (fastforce simp: appends_def)

lemma appends_handled:
  assumes "\<And>row. length row = n \<Longrightarrow> \<exists>row'. special row = Returns row' \<and> length row' = k"
  shows "appends (append_handled special) arg0 n k"
  unfolding append_handled_def [abs_def] by (intro appends_lift handle_cells_typed [OF assms])

section \<open>The tables of metric queries\<close>

definition arg_with :: "'f gofloat \<Rightarrow> string \<Rightarrow> string \<Rightarrow> 'f list \<Rightarrow> 'f queryArg" where
  "arg_with F startTime endTime quantiles =
     \<lparr>qa_totalTime = fl_int F 0, qa_startTime = startTime, qa_endTime = endTime, qa_quantiles = quantiles\<rparr>"

definition usual_quantiles :: "'f gofloat \<Rightarrow> 'f list" where
  "usual_quantiles F = [fl_dec F 999 3, fl_dec F 99 2, fl_dec F 90 2, fl_dec F 80 2]"

lemma newQueryArg_with: "newQueryArg F s e = arg_with F s e (usual_quantiles F)"
  by (simp add: newQueryArg_def arg_with_def usual_quantiles_def)

text \<open>The table functions that only ask metric queries, with their queries and quantiles.\<close>

definition metric_tables :: "'f gofloat \<Rightarrow> (rowQuery list \<times> 'f list \<times> 'f TableDef \<times> 'f table_function) list" where
  "metric_tables F =
     (let qs = usual_quantiles F in
      [(map TimeQuery GetTotalTimeConsumeTable_defs, qs, GetTotalTimeConsumeTable_schema, GetTotalTimeConsumeTable),
       (map TimeQuery GetTiDBTimeConsumeTable_defs, qs, GetTiDBTimeConsumeTable_schema, GetTiDBTimeConsumeTable),
       (map TimeQuery GetTiKVTotalTimeConsumeTable_defs, qs, GetTiKVTotalTimeConsumeTable_schema, GetTiKVTotalTimeConsumeTable),
       (map TimeQuery GetPDTimeConsumeTable_defs, qs, GetPDTimeConsumeTable_schema, GetPDTimeConsumeTable),
       (map SumQuery GetTotalErrorTable_defs, qs, GetTotalErrorTable_schema, GetTotalErrorTable),
       (map SumQuery GetTiDBStatisticsInfo_defs, qs, GetTiDBStatisticsInfo_schema, GetTiDBStatisticsInfo),
       (map SumQuery GetPDSchedulerInfo_defs, qs, GetPDSchedulerInfo_schema, GetPDSchedulerInfo),
       (map SumQuery GetTiKVGCInfo_defs, qs, GetTiKVGCInfo_schema, GetTiKVGCInfo),
       (map SumQuery GetTiKVTaskInfo_defs, qs, GetTiKVTaskInfo_schema, GetTiKVTaskInfo),
       (map SumQuery GetTiKVStoreInfo_defs, qs, GetTiKVStoreInfo_schema, GetTiKVStoreInfo),
       (map SumQuery GetTiKVCopInfo_defs, qs, GetTiKVCopInfo_schema, GetTiKVCopInfo),
       (map SumQuery GetTiKVRaftInfo_defs, qs, GetTiKVRaftInfo_schema, GetTiKVRaftInfo),
       (map SumQuery GetTiKVErrorTable_defs, [], GetTiKVErrorTable_schema, GetTiKVErrorTable),
       (map ValueQuery GetTiDBTxnTableData_defs1 @ map SumQuery GetTiDBTxnTableData_defs2, qs, GetTiDBTxnTableData_schema,
         GetTiDBTxnTableData),
       (map ValueQuery GetTiKVSchedulerInfo_defs1 @ map SumQuery GetTiKVSchedulerInfo_defs2, qs, GetTiKVSchedulerInfo_schema,
         GetTiKVSchedulerInfo),
       (map ValueQuery GetTiKVSnapshotInfo_defs1 @ map SumQuery GetTiKVSnapshotInfo_defs2, qs, GetTiKVSnapshotInfo_schema,
         GetTiKVSnapshotInfo),
       (map ValueQuery GetTiKVRegionSizeInfo_defs, [fl_dec F 99 2, fl_dec F 90 2, fl_dec F 80 2, fl_dec F 50 2],
         GetTiKVRegionSizeInfo_schema, GetTiKVRegionSizeInfo),
       (map AvgQuery GetStoreStatusTable_defs, qs, GetStoreStatusTable_schema, GetStoreStatusTable),
       (map AvgQuery GetTiKVCacheHitTable_defs, qs, GetTiKVCacheHitTable_schema, GetTiKVCacheHitTable)])"

definition table_typed :: "'f TableDef \<Rightarrow> nat \<Rightarrow> 'f table_result \<Rightarrow> bool" where
  "table_typed sc n r \<longleftrightarrow>
     (\<exists>rows. r = Some (sc\<lparr>Rows := Some rows\<rparr>, None) \<and> list_all (typed_row (length (Column sc))) rows \<and> length rows \<le> n)"

lemma fill_table_rows:
  "\<exists>rows. r = Returns rows \<and> list_all (typed_row (length (Column sc))) rows \<and> length rows \<le> n \<Longrightarrow>
   table_typed sc n (fill_table sc r)"
  by (auto simp: table_typed_def fill_table_def)

lemma fill_table_mapped:
  assumes "\<exists>rows. r = Returns rows \<and> list_all (typed_row k) rows \<and> length rows \<le> n"
    and "\<And>row. typed_row k row \<Longrightarrow> typed_row (length (Column sc)) (f row)"
  shows "table_typed sc n (fill_table sc (out_bind r (\<lambda>rows. Returns (map f rows))))"
  using assms by (intro fill_table_rows) (auto simp: list_all_iff)

text \<open>What the tables append.\<close>

lemma op_map_totalTime:
  "list_all (\<lambda>s. 3 < length s) ss \<Longrightarrow>
   \<exists>us y. op_map (set_totalTime F) ss (arg\<lparr>qa_totalTime := x\<rparr>) = (Returns us, arg\<lparr>qa_totalTime := y\<rparr>)"
proof (induction ss arbitrary: x)
  case (Cons s ss)
  obtain z where "set_totalTime F s (arg\<lparr>qa_totalTime := x\<rparr>) = (Returns (), arg\<lparr>qa_totalTime := z\<rparr>)"
    using set_totalTime_simps [of s F "arg\<lparr>qa_totalTime := x\<rparr>"] Cons.prems by auto
  moreover obtain us y where "op_map (set_totalTime F) ss (arg\<lparr>qa_totalTime := z\<rparr>) = (Returns us, arg\<lparr>qa_totalTime := y\<rparr>)"
    using Cons by fastforce
  ultimately have "op_map (set_totalTime F) (s # ss) (arg\<lparr>qa_totalTime := x\<rparr>) = (Returns (() # us), arg\<lparr>qa_totalTime := y\<rparr>)"
    by simp
  then show ?case by blast
next
  case Nil
  show ?case by (intro exI [of _ "[]"] exI [of _ x]) simp
qed

lemma appends_time:
  fixes F :: "'f gofloat"
  shows "appends (append_time F) arg0 9 9"
  unfolding appends_def
proof (intro allI impI)
  fix row :: "'f TableRowDef" and x assume row: "typed_row 9 row"
  obtain z where "set_totalTime F (Values row) (arg0\<lparr>qa_totalTime := x\<rparr>) = (Returns (), arg0\<lparr>qa_totalTime := z\<rparr>)"
    using set_totalTime_simps [of "Values row" F "arg0\<lparr>qa_totalTime := x\<rparr>"] row by (auto simp: typed_row_def)
  moreover obtain us y where "op_map (set_totalTime F) (SubValues row) (arg0\<lparr>qa_totalTime := z\<rparr>) = (Returns us, arg0\<lparr>qa_totalTime := y\<rparr>)"
    using op_map_totalTime [where ss = "SubValues row" and F = F and arg = arg0 and x = z] row by (auto simp: typed_row_def list_all_iff)
  ultimately have "append_time F row (arg0\<lparr>qa_totalTime := x\<rparr>) = (Returns row, arg0\<lparr>qa_totalTime := y\<rparr>)"
    by (simp add: append_time_def)
  then show "\<exists>row' y. append_time F row (arg0\<lparr>qa_totalTime := x\<rparr>) = (Returns row', arg0\<lparr>qa_totalTime := y\<rparr>) \<and> typed_row 9 row'"
    using row by blast
qed

lemma appends_reset:
  fixes F :: "'f gofloat"
  shows "appends (append_reset F) arg0 n n"
  unfolding appends_def
proof (intro allI impI)
  fix row :: "'f TableRowDef" and x assume "typed_row n row"
  then show "\<exists>row' y. append_reset F row (arg0\<lparr>qa_totalTime := x\<rparr>) = (Returns row', arg0\<lparr>qa_totalTime := y\<rparr>) \<and> typed_row n row'"
    by (intro exI [of _ row] exI [of _ "fl_int F 0"]) (simp add: append_reset_def)
qed

lemma typed_size_row: "typed_row n row \<Longrightarrow> typed_row n (convertFloatToSizeByRow F ix row)"
  by (auto simp: typed_row_def convertFloatToSizeByRow_def set_size_def list_all_iff)

lemma appends_map:
  fixes g :: "'f TableRowDef \<Rightarrow> 'f TableRowDef"
  assumes "\<And>row. typed_row n row \<Longrightarrow> typed_row k (g row)"
  shows "appends (\<lambda>row. op_return (g row)) arg0 n k"
  unfolding appends_def
proof (intro allI impI)
  fix row :: "'f TableRowDef" and x assume "typed_row n row"
  then show "\<exists>row' y. op_return (g row) (arg0\<lparr>qa_totalTime := x\<rparr>) = (Returns row', arg0\<lparr>qa_totalTime := y\<rparr>) \<and> typed_row k row'"
    by (intro exI [of _ "g row"] exI [of _ x]) (simp add: assms)
qed

lemma appends_cop: "appends (append_cop F) arg0 n n"
  unfolding append_cop_def [abs_def] by (rule appends_map) (simp add: typed_size_row)

lemma pad_cells_length: "length row \<le> 8 \<Longrightarrow> length (pad_cells row) = 8"
  by (simp add: pad_cells_def)

lemma txn_cells_length: "length row \<le> 8 \<Longrightarrow> length (txn_cells F row) = 8"
  by (simp add: txn_cells_def pad_cells_length Let_def)

lemma region_cells_length: "length row = 8 \<Longrightarrow> length (region_cells F row) = 6"
  by (simp add: region_cells_def Let_def)

lemma percent_loop_length: "length (fst (percent_loop F ixs row)) = length row"
  by (induction F ixs row rule: percent_loop.induct) (auto split: sum.splits)

lemma map_row_cells_typed:
  "(\<And>row. length (f row) = length row) \<Longrightarrow> typed_row n row \<Longrightarrow> typed_row n (map_row_cells f row)"
  by (simp add: typed_row_def map_row_cells_def list_all_iff)

lemma count_handle_length: "length row = 3 \<Longrightarrow> \<exists>row'. count_handle F row = Returns row' \<and> length row' = 3"
  using update_cells_length [of row "[2]"] by (auto simp: count_handle_def)

lemma getSum_typed:
  assumes "\<forall>q\<in>set (map SumQuery defs). query_typed F db (arg_with F s e (usual_quantiles F)) q"
  shows "\<exists>rows. getSumValueTableData F db s e defs = Returns rows \<and> list_all (typed_row 3) rows \<and> length rows \<le> length (map SumQuery defs)"
  unfolding getSumValueTableData_def newQueryArg_with
  by (rule table_rows_of_typed) (use assms appends_handled [of 3 "count_handle F" 3, OF count_handle_length] in auto)

lemma getAvg_typed:
  assumes "\<forall>q\<in>set (map AvgQuery defs). query_typed F db (arg_with F s e (usual_quantiles F)) q"
  shows "\<exists>rows. getAvgValueTableData F db s e defs = Returns rows \<and> list_all (typed_row 5) rows \<and> length rows \<le> length (map AvgQuery defs)"
  unfolding getAvgValueTableData_def newQueryArg_with
  by (rule table_rows_of_typed) (use assms appends_return in auto)

definition all_typed :: "'f gofloat \<Rightarrow> sql_db \<Rightarrow> string \<Rightarrow> string \<Rightarrow> 'f list \<Rightarrow> rowQuery list \<Rightarrow> bool" where
  "all_typed F db s e quantiles qs \<longleftrightarrow> (\<forall>q\<in>set qs. query_typed F db (arg_with F s e quantiles) q)"

lemma rows_typed:
  assumes "all_typed F db s e quantiles qs" and "\<forall>q\<in>set qs. appends ap (arg_with F s e quantiles) (query_width q) k"
  shows "\<exists>rows. table_rows_of F db ap qs (arg_with F s e quantiles) = Returns rows \<and> list_all (typed_row k) rows \<and> length rows \<le> length qs"
  by (rule table_rows_of_typed) (use assms in \<open>auto simp: all_typed_def\<close>)

lemma Column_table_schema [simp]: "Column (table_schema c t js cs cols) = cols"
  by (simp add: table_schema_def)

text \<open>The groups of tables.\<close>

lemma time_table_typed:
  assumes "all_typed F db s e (usual_quantiles F) (map TimeQuery defs)" and "length (Column sc) = 9"
  shows "table_typed sc (length defs) (fill_table sc (table_rows_of F db (append_time F) (map TimeQuery defs) (newQueryArg F s e)))"
    and "table_typed sc (length defs) (fill_table sc (table_rows_of F db (append_reset F) (map TimeQuery defs) (newQueryArg F s e)))"
  using rows_typed [OF assms(1), of "append_time F" 9] rows_typed [OF assms(1), of "append_reset F" 9] assms(2)
  by (auto intro!: fill_table_rows simp: newQueryArg_with appends_time appends_reset)

lemma sum_table_typed:
  assumes "all_typed F db s e (usual_quantiles F) (map SumQuery defs)" and "length (Column sc) = 3"
  shows "table_typed sc (length defs) (fill_table sc (getSumValueTableData F db s e defs))"
    and "table_typed sc (length defs) (fill_table sc (out_bind (getSumValueTableData F db s e defs)
      (\<lambda>rows. Returns (convertFloatToSizeByRows F 2 rows))))"
    and "table_typed sc (length defs) (fill_table sc (table_rows_of F db (append_cop F) (map SumQuery defs) (newQueryArg F s e)))"
    and "table_typed sc (length defs) (fill_table sc (table_rows_of F db op_return (map SumQuery defs) (newQueryArg F s e)))"
proof -
  have g: "\<exists>rows. getSumValueTableData F db s e defs = Returns rows \<and> list_all (typed_row 3) rows \<and> length rows \<le> length defs"
    using getSum_typed [of defs F db s e] assms(1) by (simp add: all_typed_def)
  then show "table_typed sc (length defs) (fill_table sc (getSumValueTableData F db s e defs))"
    using assms(2) by (auto intro!: fill_table_rows)
  show "table_typed sc (length defs) (fill_table sc (out_bind (getSumValueTableData F db s e defs)
      (\<lambda>rows. Returns (convertFloatToSizeByRows F 2 rows))))"
    unfolding convertFloatToSizeByRows_def using g assms(2) by (intro fill_table_mapped [where k = 3]) (auto simp: typed_size_row)
  show "table_typed sc (length defs) (fill_table sc (table_rows_of F db (append_cop F) (map SumQuery defs) (newQueryArg F s e)))"
    using rows_typed [OF assms(1), of "append_cop F" 3] assms(2) by (auto intro!: fill_table_rows simp: newQueryArg_with appends_cop)
  show "table_typed sc (length defs) (fill_table sc (table_rows_of F db op_return (map SumQuery defs) (newQueryArg F s e)))"
    using rows_typed [OF assms(1), of op_return 3] assms(2) by (auto intro!: fill_table_rows simp: newQueryArg_with appends_return)
qed

lemma avg_table_typed:
  assumes "all_typed F db s e (usual_quantiles F) (map AvgQuery defs)" and "length (Column sc) = 5"
  shows "table_typed sc (length defs) (fill_table sc (getAvgValueTableData F db s e defs))"
    and "table_typed sc (length defs) (fill_table sc (out_bind (getAvgValueTableData F db s e defs)
      (\<lambda>rows. Returns (map (map_row_cells (percent_cells F)) rows))))"
proof -
  have g: "\<exists>rows. getAvgValueTableData F db s e defs = Returns rows \<and> list_all (typed_row 5) rows \<and> length rows \<le> length defs"
    using getAvg_typed [of defs F db s e] assms(1) by (simp add: all_typed_def)
  then show "table_typed sc (length defs) (fill_table sc (getAvgValueTableData F db s e defs))"
    using assms(2) by (auto intro!: fill_table_rows)
  have p: "length (percent_cells F row) = length row" for row
    by (simp add: percent_cells_def percent_loop_length del: percent_loop.simps)
  show "table_typed sc (length defs) (fill_table sc (out_bind (getAvgValueTableData F db s e defs)
      (\<lambda>rows. Returns (map (map_row_cells (percent_cells F)) rows))))"
    using g assms(2) map_row_cells_typed [of "percent_cells F", OF p] by (intro fill_table_mapped [where k = 5]) auto
qed

lemma value_table_typed:
  assumes "all_typed F db s e (usual_quantiles F) (map ValueQuery defs1 @ map SumQuery defs2)" and "length (Column sc) = 8"
    and "\<And>row. length row \<le> 8 \<Longrightarrow> length (cells row) = 8"
  shows "table_typed sc (length defs1 + length defs2) (fill_table sc
    (table_rows_of F db (append_handled (\<lambda>row. Returns (cells row))) (map ValueQuery defs1 @ map SumQuery defs2) (newQueryArg F s e)))"
proof -
  have "appends (append_handled (\<lambda>row. Returns (cells row))) (arg_with F s e (usual_quantiles F)) n 8" if "n \<le> 8" for n
    by (rule appends_handled) (use that assms(3) in auto)
  then have "\<forall>q\<in>set (map ValueQuery defs1 @ map SumQuery defs2).
      appends (append_handled (\<lambda>row. Returns (cells row))) (arg_with F s e (usual_quantiles F)) (query_width q) 8"
    by auto
  from rows_typed [OF assms(1) this] show ?thesis
    using assms(2) by (auto intro!: fill_table_rows simp: newQueryArg_with)
qed

lemma region_table_typed:
  assumes "all_typed F db s e qs (map ValueQuery defs)" and "length (Column sc) = 6"
  shows "table_typed sc (length defs) (fill_table sc
    (table_rows_of F db (append_handled (\<lambda>row. Returns (region_cells F row))) (map ValueQuery defs) (arg_with F s e qs)))"
proof -
  have "\<forall>q\<in>set (map ValueQuery defs).
      appends (append_handled (\<lambda>row. Returns (region_cells F row))) (arg_with F s e qs) (query_width q) 6"
    by (auto intro!: appends_handled simp: region_cells_length)
  from rows_typed [OF assms(1) this] show ?thesis using assms(2) by (auto intro!: fill_table_rows)
qed

lemma error_table_typed:
  assumes "all_typed F db s e qs (map SumQuery defs)" and "length (Column sc) = 3"
  shows "table_typed sc (length defs) (fill_table sc
    (table_rows_of F db (append_handled (update_cells (convertFloatToInt F) [2])) (map SumQuery defs) (arg_with F s e qs)))"
proof -
  have u: "\<exists>row'. update_cells (convertFloatToInt F) [2] row = Returns row' \<and> length row' = 3" if "length row = 3" for row
    using update_cells_length [of row "[2]"] that by simp
  have "\<forall>q\<in>set (map SumQuery defs).
      appends (append_handled (update_cells (convertFloatToInt F) [2])) (arg_with F s e qs) (query_width q) 3"
    using appends_handled [OF u] by auto
  from rows_typed [OF assms(1) this] show ?thesis using assms(2) by (auto intro!: fill_table_rows)
qed

lemma metric_tables_ok:
  "list_all (\<lambda>(qs, quantiles, sc, f). all_typed (de_float E) db s e quantiles qs \<longrightarrow> table_typed sc (length qs) (f E db s e))
     (metric_tables (de_float E))"
  unfolding metric_tables_def Let_def list.pred_inject prod.case
  by (intro conjI impI TrueI)
    (simp_all add: schema_defs compare_func_defs Let_def time_table_typed sum_table_typed avg_table_typed
      value_table_typed [where cells = "txn_cells (de_float E)", OF _ _ txn_cells_length]
      value_table_typed [where cells = pad_cells, OF _ _ pad_cells_length] append_padded_def
      region_table_typed [unfolded arg_with_def] error_table_typed [unfolded arg_with_def])

text \<open>
  C12: a table made of metric queries is well typed. When the database answers every statement
  of its queries with the columns that the statement selects, the table function neither panics
  nor fails: it returns its schema with at most one row for each query, and each row and each row
  below it has exactly one cell for each column of the schema.
\<close>

theorem metric_tables_typed:
  assumes "(qs, quantiles, sc, f) \<in> set (metric_tables (de_float E))"
    and "all_typed (de_float E) db startTime endTime quantiles qs"
  shows "\<exists>rows. f E db startTime endTime = Some (sc\<lparr>Rows := Some rows\<rparr>, None) \<and>
    list_all (typed_row (length (Column sc))) rows \<and> length rows \<le> length qs"
  using metric_tables_ok [of E db startTime endTime] assms unfolding list_all_iff table_typed_def by blast

text \<open>The table of the sizes of the stores, with one instance and no value yet.\<close>

definition demo_size_query :: sumValueQuery where
  "demo_size_query = sum_def ''store size'' ''tikv_engine_size'' [''instance'', ''type''] ''''"

definition demo_sizes :: sql_db where
  "demo_sizes sql =
     Inr \<lparr>sa_rows =
            [Inr (if sql = sum_detail_sql demo_size_query (arg_with rat_float ''a'' ''b'' []) then
                    [Some ''store size'', Some ''kv1'', Some ''raft'', None]
                  else [Some ''store size'', Some '''', None])],
          sa_err = None\<rparr>"

lemma demo_size_sql:
  "sum_detail_sql demo_size_query (arg_with F s e qs\<lparr>qa_totalTime := x\<rparr>) = sum_detail_sql demo_size_query (arg_with G s e qs')"
  "sum_summary_sql demo_size_query arg \<noteq> sum_detail_sql demo_size_query arg'"
  by (simp_all add: sum_detail_sql_def sum_summary_sql_def demo_size_query_def sum_def_def metric_condition_def arg_with_def
      quoted_def quote_def label_columns_def)

lemma metric_tables_typed_witness:
  "\<exists>rows. GetTiKVStoreInfo demo_diag_env demo_sizes ''a'' ''b'' = Some (GetTiKVStoreInfo_schema\<lparr>Rows := Some rows\<rparr>, None) \<and>
     list_all (typed_row 3) rows \<and> length rows \<le> 1"
proof -
  have q: "map SumQuery GetTiKVStoreInfo_defs = [SumQuery demo_size_query]"
    by (simp add: GetTiKVStoreInfo_defs_def demo_size_query_def)
  have n: "named_sum demo_size_query = demo_size_query" "length (sv_labels demo_size_query) = 2"
    by (simp_all add: named_sum_def demo_size_query_def sum_def_def)
  have "all_typed (de_float demo_diag_env) demo_sizes ''a'' ''b'' (usual_quantiles (de_float demo_diag_env)) [SumQuery demo_size_query]"
    by (simp add: all_typed_def query_typed_def always_answered_def n answers_width_def demo_sizes_def demo_size_sql
        demo_size_sql(1) [where G = rat_float and qs' = "[]"])
  from metric_tables_typed [OF _ this, where sc = GetTiKVStoreInfo_schema and f = GetTiKVStoreInfo]
  have "\<exists>rows. GetTiKVStoreInfo demo_diag_env demo_sizes ''a'' ''b'' = Some (GetTiKVStoreInfo_schema\<lparr>Rows := Some rows\<rparr>, None) \<and>
      list_all (typed_row (length (Column (GetTiKVStoreInfo_schema :: rat TableDef)))) rows \<and> length rows \<le> length [SumQuery demo_size_query]"
    unfolding metric_tables_def Let_def q by simp
  moreover have "length (Column (GetTiKVStoreInfo_schema :: rat TableDef)) = 3" by (simp add: GetTiKVStoreInfo_schema_def)
  ultimately show ?thesis by simp
qed

end
