(* ===== verification/DiagCells.thy ===== *)
theory DiagCells
  imports DiagQuery
begin

text \<open>
  The cells that the report writes can be read back by the comparison: \<open>parseFloat\<close> of
  \<open>compare.go\<close> inverts the formatting functions of \<open>query.go\<close> up to their rounding. Shown for exact
  arithmetic, with the decimal notation of the verb \<open>%.nf\<close> written out in \<open>DiagTable\<close>.
\<close>

section \<open>Decimal notation\<close>












section \<open>The verb of fixed precision\<close>







section \<open>Suffixes\<close>









section \<open>Rounding\<close>


definition thousandth :: "rat \<Rightarrow> rat" where
  "thousandth x = rat_Round (x * 1000) / 1000"

lemma round_thousandth_rat [simp]: "round_thousandth rat_float x = thousandth x"
  by (simp add: round_thousandth_def thousandth_def)




section \<open>The shortest decimals\<close>









section \<open>Reading the cells back\<close>










end
