(* ===== verification/DiagRace.thy ===== *)
theory DiagRace
  imports DiagReport
begin

text \<open>
  What the goroutines of a comparison report can make of the variable \<open>errRows\<close> that they all
  append to without a lock.
\<close>

definition rows_of :: "'r list option \<Rightarrow> 'r list" where
  "rows_of e = (case e of None \<Rightarrow> [] | Some es \<Rightarrow> es)"

text \<open>A goroutine can run from beginning to end undisturbed, and so can any number of them.\<close>

lemma race_alone:
  assumes "j < length errs" and "ps ! j = Pending" and "length ps = length errs"
  shows "(race_step errs)\<^sup>*\<^sup>* (ps, v) (ps[j := Stored], v @ rows_of (errs ! j))"
proof (cases "errs ! j")
  case None
  then show ?thesis using no_append [OF assms(1) None assms(2), of v] by (simp add: rows_of_def)
next
  case (Some es)
  have "race_step errs (ps, v) (ps[j := Loaded v], v)" using load_rows [OF assms(1) _ assms(2)] Some by simp
  moreover have "race_step errs (ps[j := Loaded v], v) (ps[j := Loaded v, j := Stored], v @ es)"
    using assms Some by (intro store_rows) simp_all
  ultimately show ?thesis by (simp add: Some rows_of_def)
qed

definition stored :: "nat list \<Rightarrow> 'r appender list \<Rightarrow> 'r appender list" where
  "stored js ps = fold (\<lambda>j ps. ps[j := Stored]) js ps"

lemma nth_stored: "k < length ps \<Longrightarrow> stored js ps ! k = (if k \<in> set js then Stored else ps ! k)"
  unfolding stored_def by (induction js arbitrary: ps) (auto simp: nth_list_update)

lemma length_stored: "length (stored js ps) = length ps"
  unfolding stored_def by (induction js arbitrary: ps) auto

lemma race_sequence:
  assumes "distinct js" and "\<forall>j\<in>set js. j < length errs \<and> ps ! j = Pending" and "length ps = length errs"
  shows "(race_step errs)\<^sup>*\<^sup>* (ps, v) (stored js ps, v @ concat (map (\<lambda>j. rows_of (errs ! j)) js))"
  using assms
proof (induction js arbitrary: ps v)
  case (Cons j js)
  have "(race_step errs)\<^sup>*\<^sup>* (ps, v) (ps[j := Stored], v @ rows_of (errs ! j))"
    using race_alone [of j errs ps v] Cons.prems by simp
  moreover have "\<forall>k\<in>set js. k < length errs \<and> ps[j := Stored] ! k = Pending"
    using Cons.prems(1,2) by (metis distinct.simps(2) list.set_intros(2) nth_list_update_neq)
  note Cons.IH [OF _ this, of "v @ rows_of (errs ! j)"]
  ultimately show ?case using Cons.prems by (auto simp: stored_def intro: rtranclp_trans)
qed (simp add: stored_def)

lemma race_in_order: 
  fixes errs :: "'r list option list"
  shows "race_results errs (concat (map rows_of errs))"
proof -
  let ?start = "replicate (length errs) (Pending :: 'r appender)"
  have "stored [0..<length errs] ?start = replicate (length errs) Stored"
    by (rule nth_equalityI) (simp_all add: length_stored nth_stored)
  moreover have "map (\<lambda>j. rows_of (errs ! j)) [0..<length errs] = map rows_of errs"
    by (rule nth_equalityI) simp_all
  moreover have "(race_step errs)\<^sup>*\<^sup>* (?start, [])
    (stored [0..<length errs] ?start, [] @ concat (map (\<lambda>j. rows_of (errs ! j)) [0..<length errs]))"
    by (rule race_sequence) simp_all
  ultimately show ?thesis unfolding race_results_def by simp
qed

lemma race_last:
  fixes errs :: "'r list option list"
  assumes "i < length errs" and "errs ! i = Some es"
  shows "race_results errs es"
proof -
  let ?n = "length errs" and ?ps = "(replicate (length errs) (Pending :: 'r appender))[i := Loaded []]"
  let ?js = "filter (\<lambda>j. j \<noteq> i) [0..<length errs]"
  have first: "race_step errs (replicate ?n Pending, []) (?ps, [])" using assms by (intro load_rows) simp_all
  have others: "(race_step errs)\<^sup>*\<^sup>* (?ps, []) (stored ?js ?ps, [] @ concat (map (\<lambda>j. rows_of (errs ! j)) ?js))"
    by (rule race_sequence) simp_all
  have last_one: "race_step errs (stored ?js ?ps, v) ((stored ?js ?ps)[i := Stored], [] @ es)" for v
    using assms by (intro store_rows) (simp_all add: nth_stored)
  have "(stored ?js ?ps)[i := Stored] = replicate ?n Stored"
    using assms(1) by (intro nth_equalityI) (auto simp: length_stored nth_list_update nth_stored)
  with rtranclp.rtrancl_into_rtrancl [OF converse_rtranclp_into_rtranclp [where r = "race_step errs", OF first others] last_one]
  show ?thesis unfolding race_results_def by simp
qed

text \<open>
  C18: the error rows of a comparison report are a matter of luck. When the goroutines run one
  after the other the report has the error rows of all of them; but every goroutine that
  appends, also one that has no error to append, can be the only one whose rows are left: the
  errors of all the others are then missing from the report.
\<close>

theorem errRows_race:
  "race_results errs (concat (map rows_of errs)) \<and>
   (\<forall>i<length errs. \<forall>es. errs ! i = Some es \<longrightarrow> race_results errs es)"
  using race_in_order race_last by blast

lemma errRows_race_witness:
  "race_results [Some [''tikv failed''], Some []] [''tikv failed''] \<and> race_results [Some [''tikv failed''], Some []] ([] :: string list)"
  using errRows_race [of "[Some [''tikv failed''], Some ([] :: string list)]"] by (force simp: rows_of_def)

end
