(* ===== verification/DiagVerdict.thy ===== *)
theory DiagVerdict
  imports DiagInspect DiagConfig
begin

text \<open>
  When the comparison of two time ranges reports a big query (\<open>CompareDiagnose\<close> of
  \<open>pkg/apiserver/diagnose/inspection.go\<close>).
\<close>

text \<open>
  The value of a label in one range: zero if the query did not return the label. A value has
  fallen below (risen above) a threshold when its ratio to the value of the earlier range is below
  (above) it; without an earlier value, or with zero, the later value itself is compared.
\<close>

definition metric_at :: "'f gofloat \<Rightarrow> 'f metric_map \<Rightarrow> string \<Rightarrow> 'f" where
  "metric_at F m label = (case map_of m label of None \<Rightarrow> fl_int F 0 | Some v \<Rightarrow> metric_avg F v)"

definition fell_below :: "'f gofloat \<Rightarrow> 'f \<Rightarrow> 'f \<Rightarrow> 'f \<Rightarrow> bool" where
  "fell_below F refer v t \<longleftrightarrow>
     fl_eq F refer (fl_int F 0) \<and> fl_less F v t \<or> \<not> fl_eq F refer (fl_int F 0) \<and> fl_less F (fl_div F v refer) t"

definition rose_above :: "'f gofloat \<Rightarrow> 'f \<Rightarrow> 'f \<Rightarrow> 'f \<Rightarrow> bool" where
  "rose_above F refer v t \<longleftrightarrow>
     fl_eq F refer (fl_int F 0) \<and> fl_less F t v \<or> \<not> fl_eq F refer (fl_int F 0) \<and> fl_less F t (fl_div F v refer)"

text \<open>Some instance of the later range does fewer queries per second, or some takes longer for them.\<close>

definition got_worse :: "'f gofloat \<Rightarrow> 'f metric_map \<Rightarrow> 'f metric_map \<Rightarrow> 'f metric_map \<Rightarrow> 'f metric_map \<Rightarrow> bool" where
  "got_worse F rq cq rl cl \<longleftrightarrow>
     (\<exists>l\<in>dom (map_of cq). fell_below F (metric_at F rq l) (metric_at F cq l) (fl_dec F 95 2)) \<or>
     (\<exists>l\<in>dom (map_of cl). rose_above F (metric_at F rl l) (metric_at F cl l) (fl_dec F 12 1))"

lemma fell_below_ratio: "fl_less F (calculateDiff F r v) t \<longleftrightarrow> fell_below F r v t"
  by (simp add: calculateDiff_def fell_below_def)

lemma rose_above_ratio: "fl_less F t (calculateDiff F r v) \<longleftrightarrow> rose_above F r v t"
  by (simp add: calculateDiff_def rose_above_def)

lemma metric_compare_map:
  "metric_compare E k q refer current =
     map (\<lambda>l. newMetricDiff (de_float E) (bq_table (query_base q)) l (metric_at (de_float E) refer l) (metric_at (de_float E) current l))
       (range_order E k (map fst current))"
  by (simp add: metric_compare_def metric_at_def Let_def)

lemma md_ratio_new: "md_ratio (newMetricDiff F tp l refer check) = calculateDiff F refer check"
  by (simp add: newMetricDiff_def)

lemma checkDiffs_none:
  "checkDiffs (de_float E) (metric_compare E k q refer current) CompareLT t = [] \<longleftrightarrow>
     \<not> (\<exists>l\<in>dom (map_of current). fell_below (de_float E) (metric_at (de_float E) refer l) (metric_at (de_float E) current l) t)"
  "checkDiffs (de_float E) (metric_compare E k q refer current) CompareGT t = [] \<longleftrightarrow>
     \<not> (\<exists>l\<in>dom (map_of current). rose_above (de_float E) (metric_at (de_float E) refer l) (metric_at (de_float E) current l) t)"
  by (simp_all add: checkDiffs_def metric_compare_map filter_empty_conv md_ratio_new set_range_order dom_map_of_conv_image_fst
      fell_below_ratio rose_above_ratio)

lemma big_query_run:
  assumes "compareMetric (de_float E) db c qps_query = Returns (rq, cq)"
    and "compareMetric (de_float E) db c latency_query = Returns (rl, cl)"
  obtains ds where "run_checks E db c 0 (big_query_checks (de_float E)) = Returns ds"
    and "ds \<noteq> [] \<longleftrightarrow> got_worse (de_float E) rq cq rl cl"
proof
  let ?ds = "checkDiffs (de_float E) (metric_compare E 0 qps_query rq cq) CompareLT (fl_dec (de_float E) 95 2) @
             checkDiffs (de_float E) (metric_compare E 1 latency_query rl cl) CompareGT (fl_dec (de_float E) 12 1)"
  show "run_checks E db c 0 (big_query_checks (de_float E)) = Returns ?ds"
    by (simp add: big_query_checks_def check_metric_def assms out_bind_def)
  show "?ds \<noteq> [] \<longleftrightarrow> got_worse (de_float E) rq cq rl cl"
    unfolding append_is_Nil_conv checkDiffs_none got_worse_def by blast
qed

lemma run_other_checks_no_fail: "run_other_checks E db c k cks \<noteq> Fails e"
  by (induction E db c k cks rule: run_other_checks.induct) (auto simp: out_bind_def split: outcome.splits)

text \<open>What is made of the differences that were found.\<close>

lemma details_of:
  assumes "run_checks E db c 0 (big_query_checks (de_float E)) = Returns ds"
  shows "case inspectForAffectByBigQuery E db c of
      Returns details \<Rightarrow> details \<noteq> [] \<longleftrightarrow> ds \<noteq> []
    | Fails e \<Rightarrow> ds \<noteq> [] \<and> detail_statement db c = Fails e
    | Panics \<Rightarrow> ds \<noteq> [] \<and>
        (run_other_checks E db c 2 (other_info_checks (de_float E)) = Panics \<or> detail_statement db c = Panics)"
proof (cases "ds = []")
  case True
  then show ?thesis by (simp add: inspectForAffectByBigQuery_def assms Let_def)
next
  case False
  then have "genMetricDiffsString (de_float E) (ds @ more) @ rest \<noteq> []" for more rest
    by (simp add: genMetricDiffsString_def)
  then show ?thesis
    using False run_other_checks_no_fail [of E db c 2 "other_info_checks (de_float E)"]
    by (simp add: inspectForAffectByBigQuery_def assms Let_def split: outcome.splits)
      (auto simp: out_bind_def split: outcome.splits)
qed

text \<open>
  C20: when the database answers the queries of both time ranges for the queries per second and
  for their duration, the comparison reports a big query exactly if some instance of the later
  range got worse: its queries per second fell below 95 percent of those of the earlier range, or
  its duration rose above 120 percent of the earlier one. Where the earlier range has no value, or
  zero, there is no percentage: the later value itself is compared, with 0.95 (queries per second) or
  1.2 (seconds). Instances that the query of the later range does not return are not compared: the
  query keeps positive averages only, so that an outage of an instance is not a worsening. If nothing
  got worse there is neither a report nor an error. If something did, the report can still be lost:
  the statement for its details fails, which gives an error row and no report, or one of the further
  queries panics.
\<close>

theorem CompareDiagnose_verdict:
  fixes E :: "'f diag_env"
  defines "F \<equiv> de_float E"
  assumes qps: "compareMetric F db \<lparr>ci_referStartTime = s1, ci_referEndTime = e1, ci_startTime = s2, ci_endTime = e2\<rparr> qps_query =
      Returns (rq, cq)"
    and latency: "compareMetric F db \<lparr>ci_referStartTime = s1, ci_referEndTime = e1, ci_startTime = s2, ci_endTime = e2\<rparr> latency_query =
      Returns (rl, cl)"
  shows "case CompareDiagnose E db s1 e1 s2 e2 of
      Returns (t, None) \<Rightarrow> Rows t \<noteq> None \<longleftrightarrow> got_worse F rq cq rl cl
    | Returns (t, Some errRow) \<Rightarrow> Rows t = None \<and> got_worse F rq cq rl cl \<and>
        (\<exists>err. detail_statement db \<lparr>ci_referStartTime = s1, ci_referEndTime = e1, ci_startTime = s2, ci_endTime = e2\<rparr> = Fails err \<and>
           Values errRow = [''diagnose'', ''compare_diagnose'', err])
    | Fails err \<Rightarrow> False
    | Panics \<Rightarrow> got_worse F rq cq rl cl \<and>
        (run_other_checks E db \<lparr>ci_referStartTime = s1, ci_referEndTime = e1, ci_startTime = s2, ci_endTime = e2\<rparr> 2 (other_info_checks F) = Panics \<or>
         detail_statement db \<lparr>ci_referStartTime = s1, ci_referEndTime = e1, ci_startTime = s2, ci_endTime = e2\<rparr> = Panics)"
proof -
  let ?c = "\<lparr>ci_referStartTime = s1, ci_referEndTime = e1, ci_startTime = s2, ci_endTime = e2\<rparr>"
  obtain ds where ds: "run_checks E db ?c 0 (big_query_checks (de_float E)) = Returns ds" "ds \<noteq> [] \<longleftrightarrow> got_worse F rq cq rl cl"
    using big_query_run [OF qps [unfolded F_def] latency [unfolded F_def]] unfolding F_def by blast
  show ?thesis
  proof (cases "inspectForAffectByBigQuery E db ?c")
    case (Returns details)
    then have "details \<noteq> [] \<longleftrightarrow> got_worse F rq cq rl cl" using details_of [OF ds(1)] ds(2) by simp
    then show ?thesis by (simp add: CompareDiagnose_def Returns Let_def table_schema_def)
  next
    case (Fails err)
    then have "got_worse F rq cq rl cl" "detail_statement db ?c = Fails err" using details_of [OF ds(1)] ds(2) by simp_all
    then show ?thesis
      by (simp add: CompareDiagnose_def Fails Let_def table_schema_def row_of_def)
  next
    case Panics
    then show ?thesis using details_of [OF ds(1)] ds(2) by (simp add: CompareDiagnose_def Let_def F_def)
  qed
qed

lemma metric_compare_nothing: "metric_compare E k q refer [] = []"
  using set_range_order [of E k "[]"] by (simp add: metric_compare_map)

definition demo_drop :: sql_db where
  "demo_drop sql =
     Inr \<lparr>sa_rows =
            (if sql = generateSQL qps_query ''a'' ''b'' then [Inr [Some ''i'', Some ''9'', Some ''9'', Some ''9'']]
             else if sql = generateSQL qps_query ''c'' ''d'' then [Inr [Some ''i'', Some ''3'', Some ''3'', Some ''3'']]
             else []),
          sa_err = None\<rparr>"

lemma demo_drop_qps:
  "querySQL demo_drop (generateSQL qps_query ''a'' ''b'') = Returns [[''i'', ''9'', ''9'', ''9'']]"
  "querySQL demo_drop (generateSQL qps_query ''c'' ''d'') = Returns [[''i'', ''3'', ''3'', ''3'']]"
  by (simp_all add: querySQL_def demo_drop_def qps_query_def base_query_def genCondition_def time_range_def quoted_def quote_def
      prepare_sql_def)

lemma demo_drop_others:
  "querySQL demo_drop (generateSQL (QueryQuantile b) s e) = Returns []"
  "querySQL demo_drop (generateSQL (QueryTotal b) s e) = Returns []"
  "querySQL demo_drop (big_query_count_sql c) = Returns []"
  "querySQL demo_drop (expensive_sql c) = Returns []"
  by (simp_all add: querySQL_def demo_drop_def qps_query_def base_query_def prepare_sql_def label_columns_def
      big_query_count_sql_def expensive_sql_def)

lemma demo_drop_parse:
  "rat_Parse ''9'' = Inr 9" "rat_Parse ''3'' = Inr 3" "rat_Round 9 = 9" "rat_Round 3 = 3"
  "rat_Int 9 = 9" "rat_Int 3 = 3"
  by (code_simp, code_simp, simp_all add: rat_Round_def rat_Int_def floor_eq_iff)

lemma demo_drop_values:
  "metric_appendRow rat_float qps_query [''i'', ''9'', ''9'', ''9''] [] = Returns [(''i'', AvgMaxMin 9 9 9)]"
  "metric_appendRow rat_float qps_query [''i'', ''3'', ''3'', ''3''] [] = Returns [(''i'', AvgMaxMin 3 3 3)]"
  by (simp_all add: metric_appendRow_def qps_query_def base_query_def batchAtoi_def out_bind_def err_out_def demo_drop_parse)

lemma CompareDiagnose_verdict_witness:
  "\<exists>t. CompareDiagnose demo_diag_env demo_drop ''a'' ''b'' ''c'' ''d'' = Returns (t, None) \<and> Rows t \<noteq> None"
proof -
  let ?c = "\<lparr>ci_referStartTime = ''a'', ci_referEndTime = ''b'', ci_startTime = ''c'', ci_endTime = ''d''\<rparr>"
  let ?F = "de_float demo_diag_env"
  have qps: "compareMetric ?F demo_drop ?c qps_query = Returns ([(''i'', AvgMaxMin 9 9 9)], [(''i'', AvgMaxMin 3 3 3)])"
    by (simp add: compareMetric_def queryMetric_def demo_drop_qps demo_drop_values out_bind_def)
  have none: "compareMetric ?F demo_drop ?c (QueryQuantile b) = Returns ([], [])"
    "compareMetric ?F demo_drop ?c (QueryTotal b) = Returns ([], [])" for b
    by (simp_all add: compareMetric_def queryMetric_def demo_drop_others out_bind_def del: generateSQL.simps)
  then have latency: "compareMetric ?F demo_drop ?c latency_query = Returns ([], [])" by (simp add: latency_query_def)
  have others: "run_other_checks demo_diag_env demo_drop ?c 2 (other_info_checks ?F) = Returns []"
    unfolding other_info_checks_def run_other_checks.simps check_metric_def prod.case none out_bind_def outcome.case checkDiffs_def
    by (simp add: metric_compare_nothing)
  have detail: "detail_statement demo_drop ?c = Returns []"
    by (simp add: detail_statement_def queryBigQueryInSlowLog_def queryExpensiveQueryInTiDBLog_def demo_drop_others
        count_cell_def out_bind_def)
  have worse: "got_worse ?F [(''i'', AvgMaxMin 9 9 9)] [(''i'', AvgMaxMin 3 3 3)] [] []"
    by (simp add: got_worse_def metric_at_def fell_below_def)
  show ?thesis
    using CompareDiagnose_verdict [OF qps latency] others detail worse
    by (auto split: outcome.splits option.splits)
qed

end
