(* ===== verification/ConfigService.thy ===== *)
theory ConfigService
  imports ConfigEditable "HOL-Library.AList"
begin

text \<open>
  The configuration page (\<open>pkg/apiserver/configuration/service.go\<close>, \<open>flatten.go\<close>, \<open>editable.go\<close>): the
  configurations of all components flattened and merged, and the editing of one item.

  Numbers are a type \<open>'f\<close> whose equality is that of \<open>float64\<close>; \<open>json.Marshal\<close> of an array is an
  argument. Maps are lists of their entries in the order of a range. The answers of the components
  arrive in some order; a failed request is \<open>None\<close>.
\<close>

section \<open>Flattening\<close>

datatype 'f json =
    JNull
  | JBool bool
  | JNumber 'f
  | JString string
  | JArray "'f json list"
  | JObject "(string \<times> 'f json) list"

text \<open>The values of a flat map.\<close>

datatype 'f config_value = CNil | CBool bool | CNumber 'f | CString string

type_synonym 'f flat_map = "(string \<times> 'f config_value) list"

definition sub_path :: "string \<Rightarrow> string \<Rightarrow> string" where
  "sub_path prefix k = (if prefix \<noteq> '''' then prefix @ ''.'' @ k else k)"

fun flatten :: "('f json list \<Rightarrow> string option) \<Rightarrow> 'f json \<Rightarrow> string \<Rightarrow> 'f flat_map \<Rightarrow> 'f flat_map"
  and flatten_fields :: "('f json list \<Rightarrow> string option) \<Rightarrow> (string \<times> 'f json) list \<Rightarrow> string \<Rightarrow> 'f flat_map \<Rightarrow> 'f flat_map" where
  "flatten marshal (JObject fields) prefix flatMap = flatten_fields marshal fields prefix flatMap"
| "flatten marshal (JArray n) prefix flatMap =
     (case marshal n of
        None \<Rightarrow> AList.update prefix CNil flatMap
      | Some j \<Rightarrow> AList.update prefix (CString j) flatMap)"
| "flatten marshal JNull prefix flatMap = AList.update prefix (CString '''') flatMap"
| "flatten marshal (JBool b) prefix flatMap = AList.update prefix (CBool b) flatMap"
| "flatten marshal (JNumber x) prefix flatMap = AList.update prefix (CNumber x) flatMap"
| "flatten marshal (JString s) prefix flatMap = AList.update prefix (CString s) flatMap"
| "flatten_fields marshal [] prefix flatMap = flatMap"
| "flatten_fields marshal ((k, v) # fields) prefix flatMap =
     flatten_fields marshal fields prefix (flatten marshal v (sub_path prefix k) flatMap)"

definition flattenRecursive :: "('f json list \<Rightarrow> string option) \<Rightarrow> (string \<times> 'f json) list \<Rightarrow> 'f flat_map" where
  "flattenRecursive marshal nestedConfig = flatten marshal (JObject nestedConfig) '''' []"

text \<open>The answer of a component: \<open>parsed\<close> is what \<open>json.Unmarshal\<close> makes of it.\<close>

definition processNestedConfigAPIResponse ::
  "('f json list \<Rightarrow> string option) \<Rightarrow> (string \<times> 'f json) list option \<Rightarrow> 'f flat_map option" where
  "processNestedConfigAPIResponse marshal parsed = map_option (flattenRecursive marshal) parsed"

text \<open>The rows of \<open>SHOW GLOBAL VARIABLES\<close>.\<close>

definition getGlobalVariablesFromTiDB :: "(string \<times> string) list option \<Rightarrow> 'f flat_map option" where
  "getGlobalVariablesFromTiDB rows =
     map_option (\<lambda>rows. fold (\<lambda>(name, value). AList.update name (CString value)) rows []) rows"

section \<open>Editable items\<close>

datatype ItemKind = TiKVConfig | PDConfig | TiDBConfig | TiDBVariable | OtherKind string

fun editableConfigItems :: "ItemKind \<Rightarrow> string list" where
  "editableConfigItems TiKVConfig = editable_tikv"
| "editableConfigItems PDConfig = editable_pd"
| "editableConfigItems TiDBVariable = editable_variables"
| "editableConfigItems _ = []"

definition isConfigItemEditable :: "ItemKind \<Rightarrow> string \<Rightarrow> bool" where
  "isConfigItemEditable kind key \<longleftrightarrow> key \<in> set (editableConfigItems kind)"

section \<open>Merging\<close>

record 'f channelItem =
  SourceKind :: ItemKind
  ci_Values :: "'f flat_map"

record 'f merged =
  valuesMap :: "ItemKind \<Rightarrow> 'f flat_map option"
  occurTimes :: "ItemKind \<Rightarrow> string \<Rightarrow> int option"
  identical :: "ItemKind \<Rightarrow> string \<Rightarrow> bool option"
  expectedOccurTimes :: "ItemKind \<Rightarrow> int option"

definition no_items :: "'f merged" where
  "no_items = \<lparr>valuesMap = (\<lambda>_. None), occurTimes = (\<lambda>_ _. None), identical = (\<lambda>_ _. None), expectedOccurTimes = (\<lambda>_. None)\<rparr>"

definition upd2 :: "'a \<Rightarrow> 'b \<Rightarrow> 'c \<Rightarrow> ('a \<Rightarrow> 'b \<Rightarrow> 'c option) \<Rightarrow> 'a \<Rightarrow> 'b \<Rightarrow> 'c option" where
  "upd2 a b c f = f(a := (f a)(b \<mapsto> c))"

definition merge_value :: "ItemKind \<Rightarrow> string \<times> 'f config_value \<Rightarrow> 'f merged \<Rightarrow> 'f merged" where
  "merge_value kind kv m =
     (let (key, value) = kv; vs = (case valuesMap m kind of None \<Rightarrow> [] | Some vs \<Rightarrow> vs) in
      case map_of vs key of
        None \<Rightarrow>
          m\<lparr>valuesMap := (valuesMap m)(kind \<mapsto> vs @ [(key, value)]), occurTimes := upd2 kind key 1 (occurTimes m),
            identical := upd2 kind key True (identical m)\<rparr>
      | Some first \<Rightarrow>
          let m = m\<lparr>occurTimes := upd2 kind key (the (occurTimes m kind key) + 1) (occurTimes m)\<rparr> in
          if value \<noteq> first then m\<lparr>identical := upd2 kind key False (identical m)\<rparr> else m)"

definition merge_item :: "'f channelItem \<Rightarrow> 'f merged \<Rightarrow> 'f merged" where
  "merge_item item m =
     (let kind = SourceKind item;
          m = m\<lparr>expectedOccurTimes := (expectedOccurTimes m)(kind \<mapsto>
                (case expectedOccurTimes m kind of None \<Rightarrow> 1 | Some n \<Rightarrow> n + 1))\<rparr>;
          m = (if valuesMap m kind = None then m\<lparr>valuesMap := (valuesMap m)(kind \<mapsto> [])\<rparr> else m)
      in fold (merge_value kind) (ci_Values item) m)"

section \<open>The items\<close>

record 'f Item =
  ID :: string
  IsEditable :: bool
  IsMultiValue :: bool
  item_Value :: "'f config_value"

definition make_item :: "'f merged \<Rightarrow> ItemKind \<Rightarrow> string \<times> 'f config_value \<Rightarrow> 'f Item" where
  "make_item m kind kv =
     (let (configKey, configValue) = kv;
          isMultiValue = (\<not> the (identical m kind configKey));
          isMultiValue =
            (if \<not> isMultiValue \<and> the (occurTimes m kind configKey) < the (expectedOccurTimes m kind) then False else isMultiValue)
      in \<lparr>ID = configKey, IsEditable = isConfigItemEditable kind configKey, IsMultiValue = isMultiValue, item_Value = configValue\<rparr>)"

record ErrorResponse =
  er_Error :: bool
  Message :: string
  er_Code :: string
  FullText :: string

text \<open>\<open>rest.NewErrorResponse(nil)\<close>\<close>

definition nil_error_response :: ErrorResponse where
  "nil_error_response = \<lparr>er_Error = True, Message = '''', er_Code = '''', FullText = ''<nil>''\<rparr>"

record 'f AllConfigItems =
  Errors :: "ErrorResponse list"
  Items :: "ItemKind \<Rightarrow> 'f Item list option"

text \<open>
  \<open>arrived\<close> are the answers in the order in which the channel gives them. An error is appended as
  the response of \<open>err\<close>, the error of an earlier call, which is \<open>nil\<close> here, and not of the item.
\<close>

definition getAllConfigItems :: "'f channelItem option list \<Rightarrow> 'f AllConfigItems" where
  "getAllConfigItems arrived =
     (let errors = map (\<lambda>_. nil_error_response) (filter (\<lambda>i. i = None) arrived);
          m = fold merge_item (map the (filter (\<lambda>i. i \<noteq> None) arrived)) no_items
      in \<lparr>Errors = errors,
          Items = (\<lambda>kind. map_option (\<lambda>vs. sort_key ID (map (make_item m kind) vs)) (valuesMap m kind))\<rparr>)"

section \<open>Asking the components\<close>

text \<open>A store or a TiDB instance, as far as the page needs it.\<close>

record edit_store =
  es_IP :: string
  es_Port :: int
  es_StatusPort :: int

text \<open>What the components answer: parsed JSON, or nothing when the request or the parsing fails.\<close>

record 'f config_env =
  ce_marshal :: "'f json list \<Rightarrow> string option"
  ce_stores :: "string + edit_store list"
  ce_tidbs :: "string + edit_store list"
  ce_pd_answer :: "(string \<times> 'f json) list option"
  ce_tidb_answer :: "string \<Rightarrow> int \<Rightarrow> (string \<times> 'f json) list option"
  ce_tikv_answer :: "string \<Rightarrow> int \<Rightarrow> (string \<times> 'f json) list option"
  ce_variables :: "(string \<times> string) list option"

definition to_channel :: "ItemKind \<Rightarrow> 'f flat_map option \<Rightarrow> 'f channelItem option" where
  "to_channel kind r = map_option (\<lambda>vs. \<lparr>SourceKind = kind, ci_Values = vs\<rparr>) r"

definition getConfigItemsFromPD :: "'f config_env \<Rightarrow> 'f channelItem option" where
  "getConfigItemsFromPD E = to_channel PDConfig (processNestedConfigAPIResponse (ce_marshal E) (ce_pd_answer E))"

definition getConfigItemsFromTiDB :: "'f config_env \<Rightarrow> edit_store \<Rightarrow> 'f channelItem option" where
  "getConfigItemsFromTiDB E tidb =
     to_channel TiDBConfig (processNestedConfigAPIResponse (ce_marshal E) (ce_tidb_answer E (es_IP tidb) (es_StatusPort tidb)))"

definition getConfigItemsFromTiKV :: "'f config_env \<Rightarrow> edit_store \<Rightarrow> 'f channelItem option" where
  "getConfigItemsFromTiKV E tikv =
     to_channel TiKVConfig (processNestedConfigAPIResponse (ce_marshal E) (ce_tikv_answer E (es_IP tikv) (es_StatusPort tikv)))"

definition getGlobalVariables :: "'f config_env \<Rightarrow> 'f channelItem option" where
  "getGlobalVariables E = to_channel TiDBVariable (getGlobalVariablesFromTiDB (ce_variables E))"

text \<open>The goroutines that are started, each of which sends one item.\<close>

definition config_goroutines :: "'f config_env \<Rightarrow> edit_store list \<Rightarrow> edit_store list \<Rightarrow> 'f channelItem option list" where
  "config_goroutines E tikvInfo tidbInfo =
     [getConfigItemsFromPD E, getGlobalVariables E] @ map (getConfigItemsFromTiKV E) tikvInfo @
     map (getConfigItemsFromTiDB E) tidbInfo"

text \<open>\<open>arrive\<close> is the order in which the items are received.\<close>

definition configuration_page ::
  "('f channelItem option list \<Rightarrow> 'f channelItem option list) \<Rightarrow> 'f config_env \<Rightarrow> string + 'f AllConfigItems" where
  "configuration_page arrive E =
     (case ce_stores E of Inl e \<Rightarrow> Inl (''Failed to list TiKV stores'' @ e) | Inr tikvInfo \<Rightarrow>
     (case ce_tidbs E of Inl e \<Rightarrow> Inl (''Failed to list TiDB instances'' @ e) | Inr tidbInfo \<Rightarrow>
      Inr (getAllConfigItems (arrive (config_goroutines E tikvInfo tidbInfo)))))"

section \<open>Editing\<close>

text \<open>What the service sends.\<close>

datatype 'v edit_request = PostPD string 'v | PostTiKV string int string 'v | SetGlobal string 'v

datatype edit_error = ErrNotEditable string | ErrEditFailed string

text \<open>
  The answers: whether the new value can be marshalled, the stores of the topology, and the error of
  each request.
\<close>

record 'v edit_env =
  ev_marshals :: "'v \<Rightarrow> bool"
  ev_stores :: "string + edit_store list"
  ev_send :: "'v edit_request \<Rightarrow> string option"

definition tikv_request :: "string \<Rightarrow> 'v \<Rightarrow> edit_store \<Rightarrow> 'v edit_request" where
  "tikv_request itemID newValue st = PostTiKV (es_IP st) (es_StatusPort st) itemID newValue"

text \<open>The requests in order, and the warnings or the error.\<close>

definition editConfig :: "'v edit_env \<Rightarrow> ItemKind \<Rightarrow> string \<Rightarrow> 'v \<Rightarrow> 'v edit_request list \<times> (edit_error + string list)" where
  "editConfig E kind itemID newValue =
     (if \<not> isConfigItemEditable kind itemID then ([], Inl (ErrNotEditable itemID))
      else if \<not> ev_marshals E newValue then ([], Inl (ErrEditFailed ''marshal''))
      else
        case kind of
          PDConfig \<Rightarrow>
            let r = PostPD itemID newValue in
            ([r], case ev_send E r of Some e \<Rightarrow> Inl (ErrEditFailed e) | None \<Rightarrow> Inr [])
        | TiKVConfig \<Rightarrow>
            (case ev_stores E of
               Inl e \<Rightarrow> ([], Inl (ErrEditFailed e))
             | Inr tikvInfo \<Rightarrow>
                 let reqs = map (tikv_request itemID newValue) tikvInfo;
                     failures = concat (map (\<lambda>r. case ev_send E r of None \<Rightarrow> [] | Some e \<Rightarrow> [e]) reqs)
                 in (reqs,
                     if length failures = length tikvInfo then
                       (if 0 < length failures then Inl (ErrEditFailed (hd failures)) else Inr [])
                     else Inr failures))
        | TiDBVariable \<Rightarrow>
            let r = SetGlobal itemID newValue in
            ([r], case ev_send E r of Some e \<Rightarrow> Inl (ErrEditFailed e) | None \<Rightarrow> Inr [])
        | _ \<Rightarrow> ([], Inl (ErrEditFailed ''Edit failed, not implemented'')))"

end
