(* ===== verification/ConfigProps.thy ===== *)
theory ConfigProps
  imports ConfigService "HOL-Library.Multiset"
begin

text \<open>
  What the configuration page shows and what an edit sends.
\<close>

section \<open>Merging\<close>

text \<open>The values of an item of a kind in the order of their arrival.\<close>

definition item_events :: "'f channelItem \<Rightarrow> (ItemKind \<times> string \<times> 'f config_value) list" where
  "item_events item = map (\<lambda>(k, v). (SourceKind item, k, v)) (ci_Values item)"

definition event_values :: "ItemKind \<Rightarrow> string \<Rightarrow> (ItemKind \<times> string \<times> 'f config_value) list \<Rightarrow> 'f config_value list" where
  "event_values kind key es = map (\<lambda>(_, _, v). v) (filter (\<lambda>(k, i, _). k = kind \<and> i = key) es)"

lemma event_values_simps [simp]:
  "event_values kind key [] = []"
  "event_values kind key (es @ [(k, i, v)]) = event_values kind key es @ (if k = kind \<and> i = key then [v] else [])"
  by (simp_all add: event_values_def)

definition merge_inv :: "(ItemKind \<times> string \<times> 'f config_value) list \<Rightarrow> 'f merged \<Rightarrow> bool" where
  "merge_inv es m \<longleftrightarrow>
     (\<forall>kind. (case valuesMap m kind of
        None \<Rightarrow> \<forall>key. event_values kind key es = []
      | Some l \<Rightarrow> distinct (map fst l) \<and>
          (\<forall>key. map_of l key = (case event_values kind key es of [] \<Rightarrow> None | v # _ \<Rightarrow> Some v)))) \<and>
     (\<forall>kind key. event_values kind key es \<noteq> [] \<longrightarrow>
        identical m kind key = Some (\<forall>v\<in>set (event_values kind key es). v = hd (event_values kind key es)))"

lemma merge_invD:
  assumes "merge_inv es m"
  shows "case valuesMap m kind of
        None \<Rightarrow> \<forall>key. event_values kind key es = []
      | Some l \<Rightarrow> distinct (map fst l) \<and>
          (\<forall>key. map_of l key = (case event_values kind key es of [] \<Rightarrow> None | v # _ \<Rightarrow> Some v))"
    and "event_values kind key es \<noteq> [] \<Longrightarrow>
      identical m kind key = Some (\<forall>v\<in>set (event_values kind key es). v = hd (event_values kind key es))"
  using assms unfolding merge_inv_def by blast+

lemma merge_value_fields:
  "valuesMap (merge_value kind (key, v) m) k =
     (if k = kind then
        (let l = (case valuesMap m kind of None \<Rightarrow> [] | Some l \<Rightarrow> l) in
         if map_of l key = None then Some (l @ [(key, v)]) else valuesMap m kind)
      else valuesMap m k)"
  "identical (merge_value kind (key, v) m) k i =
     (if k = kind \<and> i = key then
        (case map_of (case valuesMap m kind of None \<Rightarrow> [] | Some l \<Rightarrow> l) key of
           None \<Rightarrow> Some True
         | Some w \<Rightarrow> if v = w then identical m kind key else Some False)
      else identical m k i)"
  by (simp_all add: merge_value_def upd2_def Let_def split: option.split)

lemma merge_inv_value:
  assumes "merge_inv es m"
  shows "merge_inv (es @ [(kind, key, v)]) (merge_value kind (key, v) m)"
proof -
  let ?l = "case valuesMap m kind of None \<Rightarrow> [] | Some l \<Rightarrow> l"
  have l: "distinct (map fst ?l)" "map_of ?l i = (case event_values kind i es of [] \<Rightarrow> None | w # _ \<Rightarrow> Some w)" for i
    using assms unfolding merge_inv_def by (auto split: option.splits dest!: spec [of _ kind])
  have fresh: "key \<notin> set (map fst ?l) \<longleftrightarrow> map_of ?l key = None"
    by (metis map_of_eq_None_iff set_map)
  have old: "\<And>kind' key'. event_values kind' key' es \<noteq> [] \<Longrightarrow> identical m kind' key' =
      Some (\<forall>v\<in>set (event_values kind' key' es). v = hd (event_values kind' key' es))"
    using assms unfolding merge_inv_def by blast
  have firsts: "case valuesMap (merge_value kind (key, v) m) k of
      None \<Rightarrow> \<forall>i. event_values k i (es @ [(kind, key, v)]) = []
    | Some l' \<Rightarrow> distinct (map fst l') \<and>
        (\<forall>i. map_of l' i = (case event_values k i (es @ [(kind, key, v)]) of [] \<Rightarrow> None | w # _ \<Rightarrow> Some w))" for k
  proof (cases "k = kind")
    case True
    show ?thesis
    proof (cases "map_of ?l key")
      case None
      with l(2) [of key] have "event_values kind key es = []" by (simp split: list.splits)
      then show ?thesis
        using True None l fresh by (auto simp: merge_value_fields Let_def map_add_def split: list.splits option.splits)
    next
      case (Some w)
      then have "valuesMap m kind \<noteq> None" by (auto split: option.splits)
      moreover obtain ws where "event_values kind key es = w # ws"
        using Some l(2) [of key] by (simp split: list.splits)
      ultimately show ?thesis
        using True Some l by (auto simp: merge_value_fields Let_def split: list.splits)
    qed
  next
    case False
    then have "kind \<noteq> k" by blast
    with False show ?thesis using merge_invD(1) [OF assms, of k] by (simp add: merge_value_fields split: option.splits)
  qed
  have same: "identical (merge_value kind (key, v) m) k i =
      Some (\<forall>w\<in>set (event_values k i (es @ [(kind, key, v)])). w = hd (event_values k i (es @ [(kind, key, v)])))"
    if "event_values k i (es @ [(kind, key, v)]) \<noteq> []" for k i
  proof (cases "k = kind \<and> i = key")
    case True
    show ?thesis
    proof (cases "event_values kind key es")
      case Nil
      then show ?thesis using True l(2) [of key] by (simp add: merge_value_fields)
    next
      case (Cons w ws)
      then show ?thesis using True l(2) [of key] old [of kind key] by (simp add: merge_value_fields)
    qed
  next
    case False
    then show ?thesis using that old [of k i] by (auto simp: merge_value_fields)
  qed
  show ?thesis unfolding merge_inv_def using firsts same by blast
qed

lemma merge_inv_values:
  "merge_inv es m \<Longrightarrow> merge_inv (es @ map (\<lambda>(k, v). (kind, k, v)) kvs) (fold (merge_value kind) kvs m)"
proof (induction kvs arbitrary: es m)
  case (Cons kv kvs)
  obtain k v where kv: "kv = (k, v)" by (cases kv)
  show ?case using Cons.IH [OF merge_inv_value [OF Cons.prems, of kind k v]] by (simp add: kv)
qed simp

lemma merge_inv_item:
  assumes "merge_inv es m"
  shows "merge_inv (es @ item_events item) (merge_item item m)"
proof -
  let ?k = "SourceKind item"
  define m' where "m' = (let m = m\<lparr>expectedOccurTimes := (expectedOccurTimes m)(?k \<mapsto>
      (case expectedOccurTimes m ?k of None \<Rightarrow> 1 | Some n \<Rightarrow> n + 1))\<rparr>
    in if valuesMap m ?k = None then m\<lparr>valuesMap := (valuesMap m)(?k \<mapsto> [])\<rparr> else m)"
  have "event_values ?k key es = []" if "valuesMap m ?k = None" for key
    using that merge_invD(1) [OF assms, of ?k] by simp
  then have "merge_inv es m'"
    using assms unfolding merge_inv_def m'_def Let_def by (auto split: option.splits)
  from merge_inv_values [OF this, of ?k "ci_Values item"]
  show ?thesis by (simp add: merge_item_def m'_def item_events_def Let_def)
qed

lemma merge_inv_items: "merge_inv (concat (map item_events items)) (fold merge_item items no_items)"
proof (induction items rule: rev_induct)
  case Nil
  show ?case by (simp add: merge_inv_def no_items_def)
next
  case (snoc item items)
  then show ?case using merge_inv_item by simp
qed

text \<open>The kinds that have an answer.\<close>

lemma merge_values_kind:
  "(valuesMap (fold (merge_value kind) kvs m) k = None) = (valuesMap m k = None \<and> \<not> (k = kind \<and> kvs \<noteq> []))"
proof (induction kvs arbitrary: m)
  case (Cons kv kvs)
  have "(valuesMap (merge_value kind kv m) k = None) = (valuesMap m k = None \<and> k \<noteq> kind)"
    by (cases kv) (auto simp: merge_value_fields Let_def split: option.splits)
  then show ?case using Cons by auto
qed simp

lemma merge_item_kind:
  "(valuesMap (merge_item item m) k = None) = (valuesMap m k = None \<and> k \<noteq> SourceKind item)"
  by (auto simp: merge_item_def merge_values_kind Let_def)

lemma merge_items_kind:
  "(valuesMap (fold merge_item items m) k = None) = (valuesMap m k = None \<and> k \<notin> SourceKind ` set items)"
  by (induction items arbitrary: m) (auto simp: merge_item_kind)

section \<open>The page\<close>

lemma make_item_simps [simp]:
  "ID (make_item m kind kv) = fst kv" "item_Value (make_item m kind kv) = snd kv"
  "IsEditable (make_item m kind kv) = isConfigItemEditable kind (fst kv)"
  "IsMultiValue (make_item m kind kv) = (\<not> the (identical m kind (fst kv)))"
  by (simp_all add: make_item_def Let_def split: prod.split)

definition arrived_values :: "'f channelItem option list \<Rightarrow> ItemKind \<Rightarrow> string \<Rightarrow> 'f config_value list" where
  "arrived_values arrived kind key =
     event_values kind key (concat (map item_events (map the (filter (\<lambda>i. i \<noteq> None) arrived))))"

text \<open>
  C24: the page shows, for every kind of which an answer arrived, each item of the answers once,
  sorted by name, with the value that arrived first; it is editable if the table says so, and
  multi-valued exactly if two of the arrived values differ. So an item that some
  instances lack is not multi-valued, against the comment of the code, and every failed request
  is reported as the same empty error.
\<close>

theorem getAllConfigItems_merges:
  "Errors (getAllConfigItems arrived) = replicate (length (filter (\<lambda>i. i = None) arrived)) nil_error_response \<and>
    (\<forall>kind. case Items (getAllConfigItems arrived) kind of
       None \<Rightarrow> \<not> (\<exists>item. Some item \<in> set arrived \<and> SourceKind item = kind)
     | Some items \<Rightarrow>
         (\<exists>item. Some item \<in> set arrived \<and> SourceKind item = kind) \<and> sorted (map ID items) \<and> distinct (map ID items) \<and>
         set (map ID items) = {key. arrived_values arrived kind key \<noteq> []} \<and>
         (\<forall>item\<in>set items.
            item_Value item = hd (arrived_values arrived kind (ID item)) \<and>
            IsEditable item = isConfigItemEditable kind (ID item) \<and>
            IsMultiValue item = (\<exists>v\<in>set (arrived_values arrived kind (ID item)). v \<noteq> hd (arrived_values arrived kind (ID item)))))"
proof -
  let ?oks = "map the (filter (\<lambda>i. i \<noteq> None) arrived)"
  let ?m = "fold merge_item ?oks no_items"
  let ?es = "concat (map item_events ?oks)"
  have inv: "merge_inv ?es ?m" by (rule merge_inv_items)
  have kinds: "valuesMap ?m kind = None \<longleftrightarrow> \<not> (\<exists>item. Some item \<in> set arrived \<and> SourceKind item = kind)" for kind
    by (auto simp: merge_items_kind no_items_def image_iff)
  have page: "case Items (getAllConfigItems arrived) kind of
       None \<Rightarrow> \<not> (\<exists>item. Some item \<in> set arrived \<and> SourceKind item = kind)
     | Some items \<Rightarrow>
         (\<exists>item. Some item \<in> set arrived \<and> SourceKind item = kind) \<and> sorted (map ID items) \<and> distinct (map ID items) \<and>
         set (map ID items) = {key. arrived_values arrived kind key \<noteq> []} \<and>
         (\<forall>item\<in>set items.
            item_Value item = hd (arrived_values arrived kind (ID item)) \<and>
            IsEditable item = isConfigItemEditable kind (ID item) \<and>
            IsMultiValue item = (\<exists>v\<in>set (arrived_values arrived kind (ID item)). v \<noteq> hd (arrived_values arrived kind (ID item))))" for kind
  proof (cases "valuesMap ?m kind")
    case None
    then show ?thesis using kinds [of kind] by (simp add: getAllConfigItems_def Let_def)
  next
    case (Some l)
    let ?items = "sort_key ID (map (make_item ?m kind) l)"
    have l: "distinct (map fst l)" "\<And>key. map_of l key = (case event_values kind key ?es of [] \<Rightarrow> None | v # _ \<Rightarrow> Some v)"
      using merge_invD(1) [OF inv, of kind] Some by simp_all
    have "mset (map ID ?items) = mset (map ID (map (make_item ?m kind) l))" unfolding mset_map mset_sort ..
    also have "map ID (map (make_item ?m kind) l) = map fst l" by simp
    finally have perm: "mset (map ID ?items) = mset (map fst l)" .
    then have ids: "distinct (map ID ?items)" "set (map ID ?items) = set (map fst l)"
      using l(1) by (metis mset_eq_imp_distinct_iff, metis mset_eq_setD)
    have keys: "set (map fst l) = {key. event_values kind key ?es \<noteq> []}"
    proof (rule set_eqI)
      fix key
      have "key \<in> set (map fst l) \<longleftrightarrow> map_of l key \<noteq> None" by (metis map_of_eq_None_iff set_map)
      then show "key \<in> set (map fst l) \<longleftrightarrow> key \<in> {key. event_values kind key ?es \<noteq> []}"
        using l(2) [of key] by (simp split: list.splits)
    qed
    have each: "snd kv = hd (event_values kind (fst kv) ?es) \<and>
        the (identical ?m kind (fst kv)) = (\<forall>v\<in>set (event_values kind (fst kv) ?es). v = hd (event_values kind (fst kv) ?es))"
      if "kv \<in> set l" for kv
    proof -
      have "map_of l (fst kv) = Some (snd kv)" using that l(1) by (simp add: map_of_is_SomeI)
      then obtain ws where w: "event_values kind (fst kv) ?es = snd kv # ws"
        using l(2) [of "fst kv"] by (simp split: list.splits)
      then show ?thesis using merge_invD(2) [OF inv, of kind "fst kv"] by simp
    qed
    show ?thesis
      using Some kinds [of kind] ids keys each by (auto simp: getAllConfigItems_def arrived_values_def Let_def)
  qed
  have "Errors (getAllConfigItems arrived) = replicate (length (filter (\<lambda>i. i = None) arrived)) nil_error_response"
    by (simp add: getAllConfigItems_def Let_def map_replicate_const)
  with page show ?thesis by blast
qed

definition demo_arrived :: "nat channelItem option list" where
  "demo_arrived =
     [Some \<lparr>SourceKind = TiKVConfig, ci_Values = [(''b'', CBool True), (''a'', CString ''x'')]\<rparr>, None,
      Some \<lparr>SourceKind = TiKVConfig, ci_Values = [(''a'', CString ''y'')]\<rparr>]"

lemma getAllConfigItems_merges_witness:
  "\<exists>items. Items (getAllConfigItems demo_arrived) TiKVConfig = Some items \<and> map ID items = [''a'', ''b''] \<and>
     map IsMultiValue items = [True, False] \<and> Errors (getAllConfigItems demo_arrived) = [nil_error_response]"
proof -
  have v: "arrived_values demo_arrived TiKVConfig key =
      (if key = ''a'' then [CString ''x'', CString ''y''] else if key = ''b'' then [CBool True] else [])" for key
    by (auto simp: arrived_values_def demo_arrived_def item_events_def event_values_def)
  note page = getAllConfigItems_merges [of demo_arrived]
  from page have e: "Errors (getAllConfigItems demo_arrived) = [nil_error_response]"
    by (simp add: demo_arrived_def)
  have "Some \<lparr>SourceKind = TiKVConfig, ci_Values = [(''a'', CString ''y'')]\<rparr> \<in> set demo_arrived"
    by (simp add: demo_arrived_def)
  then have some: "\<exists>item. Some item \<in> set demo_arrived \<and> SourceKind item = TiKVConfig" by force
  have keys: "{key. arrived_values demo_arrived TiKVConfig key \<noteq> []} = {''a'', ''b''}" by (auto simp: v)
  note tikv = conjunct2 [OF page, THEN spec, of TiKVConfig, unfolded keys]
  obtain items where i: "Items (getAllConfigItems demo_arrived) TiKVConfig = Some items"
    using tikv some by (cases "Items (getAllConfigItems demo_arrived) TiKVConfig") simp_all
  note t = tikv [unfolded i option.case]
  have m: "IsMultiValue item =
      (\<exists>v\<in>set (arrived_values demo_arrived TiKVConfig (ID item)). v \<noteq> hd (arrived_values demo_arrived TiKVConfig (ID item)))"
    if "item \<in> set items" for item using t that by blast
  have s: "sorted (map ID items)" "distinct (map ID items)" "set (map ID items) = {''a'', ''b''}" using t by blast+
  have ids: "map ID items = [''a'', ''b'']"
    using s by (intro sorted_distinct_set_unique) auto
  moreover have "map IsMultiValue items = map (\<lambda>key. key = ''a'') (map ID items)"
    using m s(3) by (auto simp: v)
  ultimately show ?thesis using i e by simp
qed

section \<open>Editing\<close>

fun request_item :: "'v edit_request \<Rightarrow> string" where
  "request_item (PostPD i v) = i"
| "request_item (PostTiKV h p i v) = i"
| "request_item (SetGlobal i v) = i"

text \<open>The characters of a name that needs no quotes in SQL, common letters first.\<close>

definition name_char :: "char \<Rightarrow> bool" where
  "name_char c \<longleftrightarrow> c \<in> set ''_etaionsrldcmpubfyghkvxqzw0123456789j''"

definition sql_name :: "string \<Rightarrow> bool" where
  "sql_name s \<longleftrightarrow> s \<noteq> [] \<and> list_all name_char s"

lemma variables_named1: "list_all sql_name editable_variables1"
  unfolding editable_variables1_def by code_simp

lemma variables_named2: "list_all sql_name editable_variables2"
  unfolding editable_variables2_def by code_simp

lemma variables_named3: "list_all sql_name editable_variables3"
  unfolding editable_variables3_def by code_simp

lemma variables_named4: "list_all sql_name editable_variables4"
  unfolding editable_variables4_def by code_simp

lemma editable_variable_name: "isConfigItemEditable TiDBVariable i \<Longrightarrow> sql_name i"
  using variables_named1 variables_named2 variables_named3 variables_named4
  by (auto simp: isConfigItemEditable_def editable_variables_def list_all_iff)

lemma failures_answered:
  "length (concat (map (\<lambda>r. case send r of None \<Rightarrow> [] | Some e \<Rightarrow> [e]) reqs)) = length reqs \<longleftrightarrow> (\<forall>r\<in>set reqs. send r \<noteq> None)"
proof (induction reqs)
  case (Cons r reqs)
  have "length (concat (map (\<lambda>r. case send r of None \<Rightarrow> [] | Some e \<Rightarrow> [e]) reqs)) \<le> length reqs"
    by (induction reqs) (auto split: option.splits)
  then show ?case using Cons by (cases "send r") auto
qed simp

text \<open>
  C25: an edit sends nothing unless the item is in the table of its kind, every request is about
  that item, and the name that is put into a \<open>SET GLOBAL\<close> statement is a plain name, so that it
  injects no SQL. The edit succeeds only if some request was answered well, or if there was no
  store to send it to; the failures of the other stores are its warnings.
\<close>

theorem editConfig_safe:
  "case editConfig E kind itemID v of (reqs, r) \<Rightarrow>
     (isConfigItemEditable kind itemID \<or> reqs = [] \<and> r = Inl (ErrNotEditable itemID)) \<and>
     (\<forall>q\<in>set reqs. request_item q = itemID) \<and>
     (\<forall>i w. SetGlobal i w \<in> set reqs \<longrightarrow> sql_name i) \<and>
     (\<forall>ws. r = Inr ws \<longrightarrow>
        (reqs = [] \<longrightarrow> kind = TiKVConfig \<and> ev_stores E = Inr []) \<and>
        (reqs \<noteq> [] \<longrightarrow> (\<exists>q\<in>set reqs. ev_send E q = None)) \<and>
        ws = concat (map (\<lambda>q. case ev_send E q of None \<Rightarrow> [] | Some e \<Rightarrow> [e]) reqs))"
proof (cases "isConfigItemEditable kind itemID \<and> ev_marshals E v \<and> kind = TiKVConfig")
  case True
  show ?thesis
  proof (cases "ev_stores E")
    case (Inr stores)
    let ?reqs = "map (tikv_request itemID v) stores"
    show ?thesis
      using True Inr failures_answered [of "ev_send E" ?reqs]
      by (cases stores) (auto simp: editConfig_def tikv_request_def Let_def split: option.splits)
  qed (use True in \<open>simp add: editConfig_def\<close>)
next
  case False
  then show ?thesis
    using editable_variable_name [of itemID]
    by (cases kind) (auto simp: editConfig_def Let_def isConfigItemEditable_def split: option.splits)
qed

lemma editConfig_safe_witness:
  "fst (editConfig \<lparr>ev_marshals = (\<lambda>v. True), ev_stores = Inr [], ev_send = (\<lambda>q. None)\<rparr> PDConfig ''log.format'' ''json'') = []"
proof -
  have "\<not> isConfigItemEditable PDConfig ''log.format''"
    by (simp add: isConfigItemEditable_def editable_pd_def)
  with editConfig_safe [where E = "\<lparr>ev_marshals = (\<lambda>v. True), ev_stores = Inr [], ev_send = (\<lambda>q. None)\<rparr>"
    and kind = PDConfig and itemID = "''log.format''" and v = "''json''"]
  show ?thesis by (auto split: prod.splits)
qed

end
