(* ===== verification/UserPrivs.thy ===== *)
theory UserPrivs
  imports GoStrings
begin

text \<open>
  Which SQL users may use the dashboard, and which of them may change things with it
  (\<open>pkg/apiserver/user/verify_sql_user.go\<close>).

  TiDB is what the code sees of it: the outcome of opening a connection, of \<open>GET /config\<close> and of
  \<open>show grants\<close>. Errors keep what the callers look at, their type.
\<close>

section \<open>The regular expression\<close>

text \<open>
  The longest text before the last \<open> ON\<close> of a line, what \<open>(.+) ON\<close> matches at one place: at least one
  character, and the dot does not match a new line.
\<close>

fun longest_before_on :: "string \<Rightarrow> string option" where
  "longest_before_on [] = None"
| "longest_before_on (c # s) =
     (if c = CHR 0x0A then None else
      case longest_before_on s of
        Some x \<Rightarrow> Some (c # x)
      | None \<Rightarrow> if prefix_at '' ON'' s then Some [c] else None)"

text \<open>\<open>grantRegex.FindStringSubmatch\<close>: the group of the leftmost match.\<close>

fun grantRegex :: "string \<Rightarrow> string option" where
  "grantRegex [] = None"
| "grantRegex (c # s) =
     (case (if prefix_at ''GRANT '' (c # s) then longest_before_on (drop 6 (c # s)) else None) of
        Some x \<Rightarrow> Some x
      | None \<Rightarrow> grantRegex s)"

section \<open>Grants\<close>

definition row_grants :: "string \<Rightarrow> string list" where
  "row_grants row = (case grantRegex row of None \<Rightarrow> [] | Some m \<Rightarrow> strings_Split m '','')"

definition parseUserGrants :: "string list \<Rightarrow> string set" where
  "parseUserGrants grantRows = set (concat (map row_grants grantRows))"

definition hasPriv :: "string \<Rightarrow> string set \<Rightarrow> bool" where
  "hasPriv priv privs \<longleftrightarrow> priv \<in> privs"

definition checkDashboardPriv :: "string set \<Rightarrow> bool \<Rightarrow> bool" where
  "checkDashboardPriv privs enableSEM =
     (if enableSEM \<and> \<not> hasPriv ''RESTRICTED_VARIABLES_ADMIN'' privs then False
      else if enableSEM \<and> \<not> hasPriv ''RESTRICTED_TABLES_ADMIN'' privs then False
      else if enableSEM \<and> \<not> hasPriv ''RESTRICTED_STATUS_ADMIN'' privs then False
      else if hasPriv ''ALL PRIVILEGES'' privs then True
      else if \<not> hasPriv ''PROCESS'' privs then False
      else if \<not> hasPriv ''SHOW DATABASES'' privs then False
      else if \<not> hasPriv ''CONFIG'' privs then False
      else if hasPriv ''SUPER'' privs then True
      else if \<not> hasPriv ''DASHBOARD_CLIENT'' privs then False
      else True)"

definition checkWriteablePriv :: "string set \<Rightarrow> bool" where
  "checkWriteablePriv privs =
     (if hasPriv ''ALL PRIVILEGES'' privs then True
      else if hasPriv ''SUPER'' privs then True
      else if hasPriv ''SYSTEM_VARIABLES_ADMIN'' privs then True
      else False)"

section \<open>Verification\<close>

text \<open>
  Errors by type: the two that callers single out, every other error of the code's own error
  library, and plain errors.
\<close>

datatype sql_error = ErrTiDBAuthFailed | ErrInsufficientPrivs | ErrTyped string | ErrPlain string

record tidbSEMConfig =
  EnableSEM :: bool
  SkipGrantTable :: bool

text \<open>What TiDB answers to a user name and a password.\<close>

record tidb_answers =
  ta_conn :: "sql_error option"
  ta_config :: "sql_error + tidbSEMConfig"
  ta_grants :: "sql_error + string list"

type_synonym tidb_server = "string \<Rightarrow> string \<Rightarrow> tidb_answers"

definition VerifySQLUser :: "tidb_server \<Rightarrow> string \<Rightarrow> string \<Rightarrow> sql_error + bool" where
  "VerifySQLUser tidbClient userName password =
     (let a = tidbClient userName password in
      case ta_conn a of Some err \<Rightarrow> Inl err | None \<Rightarrow>
      (case ta_config a of Inl err \<Rightarrow> Inl err | Inr config \<Rightarrow>
       if SkipGrantTable config then Inr True else
       (case ta_grants a of Inl err \<Rightarrow> Inl err | Inr grantRows \<Rightarrow>
        let grants = parseUserGrants grantRows in
        if \<not> checkDashboardPriv grants (EnableSEM config) then Inl ErrInsufficientPrivs
        else Inr (checkWriteablePriv grants))))"

section \<open>What the checks ask for\<close>

text \<open>The smallest sets of privileges that open the dashboard.\<close>

definition sem_privs :: "bool \<Rightarrow> string set" where
  "sem_privs enableSEM =
     (if enableSEM then {''RESTRICTED_VARIABLES_ADMIN'', ''RESTRICTED_TABLES_ADMIN'', ''RESTRICTED_STATUS_ADMIN''} else {})"

definition base_privs :: "string set" where
  "base_privs = {''PROCESS'', ''SHOW DATABASES'', ''CONFIG''}"

lemma checkDashboardPriv_iff:
  "checkDashboardPriv privs enableSEM \<longleftrightarrow>
     sem_privs enableSEM \<subseteq> privs \<and>
     (''ALL PRIVILEGES'' \<in> privs \<or> base_privs \<subseteq> privs \<and> (''SUPER'' \<in> privs \<or> ''DASHBOARD_CLIENT'' \<in> privs))"
  unfolding checkDashboardPriv_def sem_privs_def base_privs_def hasPriv_def by auto

lemma checkWriteablePriv_iff:
  "checkWriteablePriv privs \<longleftrightarrow> privs \<inter> {''ALL PRIVILEGES'', ''SUPER'', ''SYSTEM_VARIABLES_ADMIN''} \<noteq> {}"
  unfolding checkWriteablePriv_def hasPriv_def by auto

section \<open>Splitting at commas\<close>

lemma split_comma_free: "CHR '','' \<notin> set p \<Longrightarrow> split_at '','' cur p = [cur @ p]"
proof (induction p arbitrary: cur)
  case (Cons c p)
  then show ?case by (subst split_at.simps) (auto simp: prefix_at_def)
qed (simp add: split_at.simps)

lemma split_comma_head:
  "CHR '','' \<notin> set p \<Longrightarrow> split_at '','' cur (p @ '','' @ s) = (cur @ p) # split_at '','' [] s"
proof (induction p arbitrary: cur)
  case Nil
  show ?case by (subst split_at.simps) (simp add: prefix_at_def)
next
  case (Cons c p)
  then show ?case by (subst split_at.simps) (auto simp: prefix_at_def)
qed

lemma Split_Join_commas:
  "ps \<noteq> [] \<Longrightarrow> \<forall>p\<in>set ps. CHR '','' \<notin> set p \<Longrightarrow> strings_Split (strings_Join ps '','') '','' = ps"
proof (induction ps "'',''" rule: strings_Join.induct)
  case (2 p)
  then show ?case by (simp add: strings_Split_def split_comma_free)
next
  case (3 p q ps)
  then show ?case using split_comma_head [of p "[]"] by (simp add: strings_Split_def)
qed simp

section \<open>The match\<close>

text \<open>Text without another \<open> ON\<close>.\<close>

fun no_on :: "string \<Rightarrow> bool" where
  "no_on [] \<longleftrightarrow> True"
| "no_on (c # s) \<longleftrightarrow> \<not> prefix_at '' ON'' (c # s) \<and> no_on s"

lemma longest_before_none: "no_on s \<Longrightarrow> longest_before_on (c # s) = None"
proof (induction s arbitrary: c)
  case (Cons d s)
  then show ?case by (simp del: longest_before_on.simps(2) add: longest_before_on.simps(2) [of c])
qed (simp add: prefix_at_def)

lemma longest_before_rest:
  assumes "no_on (''ON'' @ rest)"
  shows "longest_before_on ('' ON'' @ rest) = None"
  using longest_before_none [OF assms, of "CHR '' ''"] by simp

lemma longest_before_append:
  assumes "no_on (''ON'' @ rest)"
  shows "p \<noteq> [] \<Longrightarrow> CHR 0x0A \<notin> set p \<Longrightarrow> longest_before_on (p @ '' ON'' @ rest) = Some p"
proof (induction p)
  case (Cons c p)
  show ?case
  proof (cases "p = []")
    case True
    have "longest_before_on ('' ON'' @ rest) = None" by (rule longest_before_rest [OF assms])
    then show ?thesis using Cons.prems True by (simp add: prefix_at_def)
  next
    case False
    then have "longest_before_on (p @ '' ON'' @ rest) = Some p" using Cons by simp
    then show ?thesis using Cons.prems by auto
  qed
qed simp

lemma grantRegex_row:
  assumes "no_on (''ON'' @ rest)" and "p \<noteq> []" and "CHR 0x0A \<notin> set p"
  shows "grantRegex (''GRANT '' @ p @ '' ON'' @ rest) = Some p"
  using longest_before_append [OF assms] by (simp add: prefix_at_def)

lemma newline_join: "CHR 0x0A \<notin> set (strings_Join ps '','') \<longleftrightarrow> (\<forall>p\<in>set ps. CHR 0x0A \<notin> set p)"
  by (induction ps "'',''" rule: strings_Join.induct) auto

lemma row_grants_row:
  assumes "no_on (''ON'' @ rest)" and "ps \<noteq> []" and "\<forall>p\<in>set ps. p \<noteq> [] \<and> CHR '','' \<notin> set p \<and> CHR 0x0A \<notin> set p"
  shows "row_grants (''GRANT '' @ strings_Join ps '','' @ '' ON'' @ rest) = ps"
proof -
  have "strings_Join ps '','' \<noteq> []"
    using assms(2,3) by (cases ps; cases "tl ps") auto
  then have "grantRegex (''GRANT '' @ strings_Join ps '','' @ '' ON'' @ rest) = Some (strings_Join ps '','')"
    using grantRegex_row [OF assms(1)] assms(3) newline_join by blast
  then show ?thesis using Split_Join_commas [of ps] assms(2,3) by (simp add: row_grants_def)
qed

section \<open>The verdict\<close>

text \<open>
  A row of \<open>show grants\<close> is of one of two kinds: privileges on an object, where the object and
  the user follow \<open>ON\<close>, or the grant of a role, all that follows \<open>GRANT\<close>.
\<close>

datatype grant = PrivGrant "string list" string | RoleGrant string

fun show_grant :: "grant \<Rightarrow> string" where
  "show_grant (PrivGrant ps object) = ''GRANT '' @ strings_Join ps '','' @ '' ON'' @ object"
| "show_grant (RoleGrant roles) = ''GRANT '' @ roles"

text \<open>
  What the rows must not contain for the regular expression to read them as they are meant: no
  comma and no new line in a privilege, and no further \<open> ON\<close> in the names of objects, users and roles.
\<close>

fun plain_grant :: "grant \<Rightarrow> bool" where
  "plain_grant (PrivGrant ps object) \<longleftrightarrow>
     ps \<noteq> [] \<and> (\<forall>p\<in>set ps. p \<noteq> [] \<and> CHR '','' \<notin> set p \<and> CHR 0x0A \<notin> set p) \<and> no_on (''ON'' @ object)"
| "plain_grant (RoleGrant roles) \<longleftrightarrow> no_on ('' '' @ roles)"

fun grant_privs :: "grant \<Rightarrow> string set" where
  "grant_privs (PrivGrant ps object) = set ps"
| "grant_privs (RoleGrant roles) = {}"

definition granted :: "grant list \<Rightarrow> string set" where
  "granted gs = (\<Union>g\<in>set gs. grant_privs g)"

lemma no_on_drop: "no_on s \<Longrightarrow> no_on (drop n s)"
  by (induction s arbitrary: n) (auto simp: drop_Cons' simp del: no_on.simps(2) dest: no_on.simps(2) [THEN iffD1])

lemma longest_before_no_on: "no_on s \<Longrightarrow> longest_before_on s = None"
  by (cases s) (auto intro: longest_before_none simp del: longest_before_on.simps(2))

lemma grantRegex_no_on: "no_on s \<Longrightarrow> grantRegex s = None"
proof (induction s)
  case (Cons c s)
  then have "longest_before_on (drop 6 (c # s)) = None" by (blast intro: longest_before_no_on no_on_drop)
  then show ?case using Cons by simp
qed simp

lemma row_grants_show: "plain_grant g \<Longrightarrow> set (row_grants (show_grant g)) = grant_privs g"
proof (cases g)
  case (RoleGrant roles)
  assume "plain_grant g"
  then have "no_on (''GRANT '' @ roles)" using RoleGrant by (simp add: prefix_at_def)
  then show ?thesis using RoleGrant grantRegex_no_on by (simp only: show_grant.simps row_grants_def) simp
next
  case (PrivGrant ps object)
  assume "plain_grant g"
  then have "row_grants (show_grant g) = ps"
    unfolding PrivGrant show_grant.simps by (intro row_grants_row) auto
  then show ?thesis by (simp add: PrivGrant)
qed

lemma parseUserGrants_rows: "list_all plain_grant gs \<Longrightarrow> parseUserGrants (map show_grant gs) = granted gs"
  by (induction gs) (simp_all add: parseUserGrants_def granted_def row_grants_show)

text \<open>
  C21: for a user whom TiDB lets in and whose configuration it answers. With the grant table
  skipped the user may do everything. Otherwise the rows of \<open>show grants\<close> decide, in both of
  their formats, privileges on an object and roles: the user may use the dashboard exactly if the
  privileges of all the rows together contain what the dashboard asks for, and may change things
  with it exactly if one of them is a privilege to write. A role counts for nothing. The object of
  a row plays no part: the privileges on a single database or table count like global ones, so
  that a user with all privileges on one schema has the rights of an administrator in the
  dashboard. The rows are \<open>plain_grant\<close>: privileges are without commas and new lines, and the names
  of objects, users and roles do not hold \<open> ON\<close> (\<open>injected_privileges\<close> shows what such a name does).
\<close>

theorem VerifySQLUser_scope:
  assumes "ta_conn (tidbClient userName password) = None"
    and "ta_config (tidbClient userName password) = Inr config"
    and "SkipGrantTable config \<or>
      ta_grants (tidbClient userName password) = Inr (map show_grant gs) \<and> list_all plain_grant gs"
  shows "VerifySQLUser tidbClient userName password =
    (if SkipGrantTable config then Inr True
     else if sem_privs (EnableSEM config) \<subseteq> granted gs \<and>
        (''ALL PRIVILEGES'' \<in> granted gs \<or>
         base_privs \<subseteq> granted gs \<and> (''SUPER'' \<in> granted gs \<or> ''DASHBOARD_CLIENT'' \<in> granted gs))
     then Inr (granted gs \<inter> {''ALL PRIVILEGES'', ''SUPER'', ''SYSTEM_VARIABLES_ADMIN''} \<noteq> {})
     else Inl ErrInsufficientPrivs)"
proof (cases "SkipGrantTable config")
  case True
  then show ?thesis using assms(1,2) by (simp add: VerifySQLUser_def)
next
  case False
  then have "ta_grants (tidbClient userName password) = Inr (map show_grant gs)" "parseUserGrants (map show_grant gs) = granted gs"
    using assms(3) parseUserGrants_rows by blast+
  then show ?thesis
    using assms(1,2) False by (simp add: VerifySQLUser_def checkDashboardPriv_iff checkWriteablePriv_iff Let_def)
qed

definition demo_tidb :: "string list \<Rightarrow> tidb_server" where
  "demo_tidb rows u p =
     \<lparr>ta_conn = None, ta_config = Inr \<lparr>EnableSEM = False, SkipGrantTable = False\<rparr>, ta_grants = Inr rows\<rparr>"

lemma VerifySQLUser_scope_witness:
  "VerifySQLUser (demo_tidb [''GRANT ALL PRIVILEGES ON app.* TO u'', ''GRANT `app_read`@`%` TO `u`@`%`'']) ''u'' ''p'' = Inr True"
proof -
  let ?gs = "[PrivGrant [''ALL PRIVILEGES''] '' app.* TO u'', RoleGrant ''`app_read`@`%` TO `u`@`%`'']"
  have rows: "map show_grant ?gs = [''GRANT ALL PRIVILEGES ON app.* TO u'', ''GRANT `app_read`@`%` TO `u`@`%`'']"
    by simp
  have plain: "list_all plain_grant ?gs" by (simp add: prefix_at_def)
  have "VerifySQLUser (demo_tidb (map show_grant ?gs)) ''u'' ''p'' =
      (if sem_privs False \<subseteq> granted ?gs \<and>
          (''ALL PRIVILEGES'' \<in> granted ?gs \<or>
           base_privs \<subseteq> granted ?gs \<and> (''SUPER'' \<in> granted ?gs \<or> ''DASHBOARD_CLIENT'' \<in> granted ?gs))
       then Inr (granted ?gs \<inter> {''ALL PRIVILEGES'', ''SUPER'', ''SYSTEM_VARIABLES_ADMIN''} \<noteq> {})
       else Inl ErrInsufficientPrivs)"
    using VerifySQLUser_scope [of "demo_tidb (map show_grant ?gs)" "''u''" "''p''" "\<lparr>EnableSEM = False, SkipGrantTable = False\<rparr>" ?gs] plain
    by (simp add: demo_tidb_def)
  then show ?thesis unfolding rows by (simp add: granted_def sem_privs_def)
qed

text \<open>
  The last \<open> ON\<close> of a row need not be the one before the object: the name of a database can
  hold privileges that were never granted.
\<close>

lemma injected_privileges:
  "VerifySQLUser (demo_tidb [''GRANT SELECT ON `x,ALL PRIVILEGES ON y`.* TO u'']) ''u'' ''p'' = Inr True"
proof -
  have "row_grants ''GRANT SELECT ON `x,ALL PRIVILEGES ON y`.* TO u'' = [''SELECT ON `x'', ''ALL PRIVILEGES'']"
    by code_simp
  then show ?thesis
    by (simp add: VerifySQLUser_def demo_tidb_def parseUserGrants_def checkDashboardPriv_iff checkWriteablePriv_iff Let_def sem_privs_def)
qed

end
