(* ===== verification/UserAuth.thy ===== *)
theory UserAuth
  imports UserPrivs "HOL-Library.Word" "HOL-Library.AList"
begin

text \<open>
  Signing in and sessions (\<open>pkg/apiserver/user/auth.go\<close>, \<open>user/code/service.go\<close>, \<open>user/code/router.go\<close>,
  \<open>user/code/codeauth\<close>, \<open>user/sqlauth\<close>, \<open>utils/auth.go\<close>): the authenticators, the token that carries an encrypted
  session, the middlewares that ask for privileges, and sessions shared by a code.

  Encryption (\<open>cryptopasta\<close>), \<open>msgpack\<close> and \<open>encoding/json\<close> are operations of a record; the nonce of an
  encryption is an argument. Times are nanoseconds since 1970. That a token is signed and verified
  is left to the JWT middleware: its claims arrive as they were made.
\<close>

section \<open>Base64\<close>

text \<open>The alphabet: upper case, lower case, digits, \<open>+\<close> and \<open>/\<close>.\<close>

definition b64_char :: "nat \<Rightarrow> char" where
  "b64_char n = char_of
     (if n < 26 then n + 65 else if n < 52 then n + 71 else if n < 62 then n - 4 else if n = 62 then 43 else 47)"

definition b64_value :: "char \<Rightarrow> nat option" where
  "b64_value c =
     (let b = byte_of c in
      if 65 \<le> b \<and> b \<le> 90 then Some (b - 65)
      else if 97 \<le> b \<and> b \<le> 122 then Some (b - 71)
      else if 48 \<le> b \<and> b \<le> 57 then Some (b + 4)
      else if b = 43 then Some 62
      else if b = 47 then Some 63
      else None)"

text \<open>\<open>base64.StdEncoding.EncodeToString\<close>, on bytes.\<close>

fun b64_bytes :: "nat list \<Rightarrow> string" where
  "b64_bytes [] = []"
| "b64_bytes [a] = [b64_char (a div 4), b64_char (a mod 4 * 16), CHR ''='', CHR ''='']"
| "b64_bytes [a, b] =
     [b64_char (a div 4), b64_char (a mod 4 * 16 + b div 16), b64_char (b mod 16 * 4), CHR ''='']"
| "b64_bytes (a # b # c # r) =
     [b64_char (a div 4), b64_char (a mod 4 * 16 + b div 16), b64_char (b mod 16 * 4 + c div 64), b64_char (c mod 64)] @
     b64_bytes r"

definition base64_EncodeToString :: "string \<Rightarrow> string" where
  "base64_EncodeToString s = b64_bytes (map byte_of s)"

text \<open>\<open>DecodeString\<close>: new lines are skipped, padding ends the text.\<close>

fun b64_quads :: "string \<Rightarrow> nat list option" where
  "b64_quads [] = Some []"
| "b64_quads (p # q # r # s # rest) =
     (case (b64_value p, b64_value q, b64_value r, b64_value s) of
        (Some x, Some y, Some z, Some w) \<Rightarrow>
          map_option (\<lambda>bs. (x * 4 + y div 16) # (y mod 16 * 16 + z div 4) # (z mod 4 * 64 + w) # bs) (b64_quads rest)
      | (Some x, Some y, Some z, None) \<Rightarrow>
          if s = CHR ''='' \<and> rest = [] then Some [x * 4 + y div 16, y mod 16 * 16 + z div 4] else None
      | (Some x, Some y, None, _) \<Rightarrow>
          if r = CHR ''='' \<and> s = CHR ''='' \<and> rest = [] then Some [x * 4 + y div 16] else None
      | _ \<Rightarrow> None)"
| "b64_quads _ = None"

definition base64_DecodeString :: "string \<Rightarrow> string option" where
  "base64_DecodeString s =
     map_option (map char_of) (b64_quads (filter (\<lambda>c. c \<noteq> CHR 0x0A \<and> c \<noteq> CHR 0x0D) s))"

lemma byte_of_b64:
  "byte_of (b64_char n) =
     (if n < 26 then n + 65 else if n < 52 then n + 71 else if n < 62 then n - 4 else if n = 62 then 43 else 47)"
  unfolding byte_of_def b64_char_def by simp

lemma b64_value_char: "n < 64 \<Longrightarrow> b64_value (b64_char n) = Some n"
  unfolding b64_value_def Let_def byte_of_b64 by auto

lemma b64_char_plain: "n < 64 \<Longrightarrow> b64_char n \<noteq> CHR 0x0A \<and> b64_char n \<noteq> CHR 0x0D"
proof -
  have low: "43 \<le> byte_of (b64_char n)" unfolding byte_of_b64 by auto
  have "b64_char n \<noteq> c" if "byte_of c < 43" for c using that low by auto
  note this [of "CHR 0x0A"] this [of "CHR 0x0D"]
  moreover have "byte_of (CHR 0x0A) < 43" "byte_of (CHR 0x0D) < 43" by (simp_all add: byte_of_def)
  ultimately show ?thesis by blast
qed

lemma b64_value_pad: "b64_value (CHR ''='') = None"
  by code_simp

lemma b64_parts:
  fixes a b c :: nat
  assumes "a < 256" and "b < 256" and "c < 256"
  shows "a div 4 < 64" "a mod 4 * 16 < 64" "a mod 4 * 16 + b div 16 < 64" "b mod 16 * 4 < 64" "b mod 16 * 4 + c div 64 < 64"
    "c mod 64 < 64" "a div 4 * 4 + (a mod 4 * 16) div 16 = a" "a div 4 * 4 + (a mod 4 * 16 + b div 16) div 16 = a"
    "(a mod 4 * 16 + b div 16) mod 16 * 16 + (b mod 16 * 4 + c div 64) div 4 = b"
    "(a mod 4 * 16 + b div 16) mod 16 * 16 + (b mod 16 * 4) div 4 = b"
    "(b mod 16 * 4 + c div 64) mod 4 * 64 + c mod 64 = c"
proof -
  have d: "a div 4 < 64" "b div 16 < 16" "c div 64 < 4" using assms by simp_all
  have m: "a mod 4 < 4" "b mod 16 < 16" "c mod 64 < 64" by simp_all
  from d m show "a div 4 < 64" "a mod 4 * 16 < 64" "a mod 4 * 16 + b div 16 < 64" "b mod 16 * 4 < 64"
    "b mod 16 * 4 + c div 64 < 64" "c mod 64 < 64" by linarith+
  show "a div 4 * 4 + (a mod 4 * 16) div 16 = a" by simp
  have "(a mod 4 * 16 + b div 16) div 16 = a mod 4" using d by simp
  then show "a div 4 * 4 + (a mod 4 * 16 + b div 16) div 16 = a" by simp
  have "(a mod 4 * 16 + b div 16) mod 16 = b div 16" "(b mod 16 * 4 + c div 64) div 4 = b mod 16" using d by simp_all
  then show "(a mod 4 * 16 + b div 16) mod 16 * 16 + (b mod 16 * 4 + c div 64) div 4 = b"
    "(a mod 4 * 16 + b div 16) mod 16 * 16 + (b mod 16 * 4) div 4 = b" by simp_all
  have "(b mod 16 * 4 + c div 64) mod 4 = c div 64" using d by simp
  then show "(b mod 16 * 4 + c div 64) mod 4 * 64 + c mod 64 = c" by simp
qed

lemma b64_quads_bytes: "\<forall>b\<in>set bs. b < 256 \<Longrightarrow> b64_quads (b64_bytes bs) = Some bs"
proof (induction bs rule: b64_bytes.induct)
  case (2 a)
  then show ?case using b64_parts [of a 0 0] by (simp add: b64_value_char b64_value_pad)
next
  case (3 a b)
  then show ?case using b64_parts [of a b 0] by (simp add: b64_value_char b64_value_pad)
next
  case (4 a b c r)
  then show ?case using b64_parts [of a b c] by (simp add: b64_value_char)
qed simp

lemma b64_bytes_plain: "\<forall>b\<in>set bs. b < 256 \<Longrightarrow> \<forall>c\<in>set (b64_bytes bs). c \<noteq> CHR 0x0A \<and> c \<noteq> CHR 0x0D"
proof (induction bs rule: b64_bytes.induct)
  case (2 a)
  then show ?case using b64_parts [of a 0 0] b64_char_plain by simp
next
  case (3 a b)
  then show ?case using b64_parts [of a b 0] b64_char_plain by simp
next
  case (4 a b c r)
  then show ?case using b64_parts [of a b c] b64_char_plain by simp
qed simp

lemma base64_roundtrip [simp]: "base64_DecodeString (base64_EncodeToString s) = Some s"
proof -
  have b: "\<forall>b\<in>set (map byte_of s). b < 256" by (simp add: byte_of_less)
  have "filter (\<lambda>c. c \<noteq> CHR 0x0A \<and> c \<noteq> CHR 0x0D) (b64_bytes (map byte_of s)) = b64_bytes (map byte_of s)"
    using b64_bytes_plain [OF b] by (simp add: filter_id_conv)
  then show ?thesis
    using b64_quads_bytes [OF b]
    by (simp add: base64_DecodeString_def base64_EncodeToString_def byte_of_def comp_def)
qed

section \<open>Sessions\<close>

definition SessionVersion :: int where
  "SessionVersion = 2"

record SessionUser =
  Version :: int
  su_DisplayName :: string
  HasTiDBAuth :: bool
  TiDBUsername :: string
  TiDBPassword :: string
  SharedSessionExpireAt :: int
  OIDCIDToken :: string
  AuthFrom :: int
  IsShareable :: bool
  IsWriteable :: bool

text \<open>The zero \<open>time.Time\<close>, the first instant of year 1.\<close>

definition zero_time :: int where
  "zero_time = - 62135596800 * 1000000000"

record sharedSession =
  ss_Session :: "SessionUser option"
  ss_ExpireAt :: int
  ss_RevokeWritePriv :: bool

text \<open>The encodings; \<open>None\<close> is an error.\<close>

record session_codec =
  sc_Marshal :: "SessionUser \<Rightarrow> string option"
  sc_Unmarshal :: "string \<Rightarrow> SessionUser option"
  sc_Pack :: "sharedSession \<Rightarrow> string option"
  sc_Unpack :: "string \<Rightarrow> sharedSession option"
  sc_Encrypt :: "string \<Rightarrow> nat \<Rightarrow> string \<Rightarrow> string option"
  sc_Decrypt :: "string \<Rightarrow> string \<Rightarrow> string option"

section \<open>Sharing a session\<close>

text \<open>Errors of the handlers and of signing in.\<close>

datatype auth_error =
    ErrUnsupportedAuthType
  | ErrSignInInvalidCode
  | ErrSignInOther sql_error
  | ErrSQL sql_error
  | ErrUnauthenticated
  | ErrForbidden
  | ErrBadRequest string
  | ErrShareFailed
  | ErrOther string

definition MaxSessionShareExpiry :: int where
  "MaxSessionShareExpiry = 3600 * 1000000000 * 24 * 30"

definition SharingCodeFromSession ::
  "session_codec \<Rightarrow> string \<Rightarrow> nat \<Rightarrow> int \<Rightarrow> SessionUser \<Rightarrow> int \<Rightarrow> bool \<Rightarrow> string option" where
  "SharingCodeFromSession C sharingSecret nonce now session expireIn revokeWritePriv =
     (if \<not> IsShareable session then None
      else if expireIn < 0 then None
      else if MaxSessionShareExpiry < expireIn then None
      else
        let shared = \<lparr>ss_Session = Some session, ss_ExpireAt = now + expireIn, ss_RevokeWritePriv = revokeWritePriv\<rparr> in
        case sc_Pack C shared of None \<Rightarrow> None | Some b \<Rightarrow>
        (case sc_Encrypt C sharingSecret nonce b of None \<Rightarrow> None | Some encrypted \<Rightarrow> Some (hex_encode encrypted)))"

text \<open>The outer \<open>None\<close> is a panic: the session of a decoded code is a pointer that is followed.\<close>

definition NewSessionFromSharingCode ::
  "session_codec \<Rightarrow> string \<Rightarrow> int \<Rightarrow> string \<Rightarrow> SessionUser option option" where
  "NewSessionFromSharingCode C sharingSecret now codeInHex =
     (case hex_decode codeInHex of None \<Rightarrow> Some None | Some encrypted \<Rightarrow>
     (case sc_Decrypt C sharingSecret encrypted of None \<Rightarrow> Some None | Some b \<Rightarrow>
     (case sc_Unpack C b of None \<Rightarrow> Some None | Some shared \<Rightarrow>
      if ss_ExpireAt shared < now then Some None else
      map_option (\<lambda>s.
        let s = s\<lparr>SharedSessionExpireAt := ss_ExpireAt shared, su_DisplayName := ''Shared from '' @ su_DisplayName s,
                  IsShareable := False\<rparr>;
            s = (if ss_RevokeWritePriv shared then s\<lparr>IsWriteable := False\<rparr> else s)
        in Some s) (ss_Session shared))))"

text \<open>The handler: the product of the request's seconds is a signed 64-bit integer that wraps.\<close>

record ShareRequest =
  ExpireInSeconds :: "64 word"
  RevokeWritePriv :: bool

definition shareHandler ::
  "session_codec \<Rightarrow> string \<Rightarrow> nat \<Rightarrow> int \<Rightarrow> SessionUser \<Rightarrow> ShareRequest \<Rightarrow> auth_error + string" where
  "shareHandler C sharingSecret nonce now sessionUser req =
     (let expiry = sint (1000000000 * ExpireInSeconds req) in
      if MaxSessionShareExpiry < expiry \<or> expiry < 0 then Inl (ErrBadRequest ''Invalid share expiry'') else
      case SharingCodeFromSession C sharingSecret nonce now sessionUser expiry (RevokeWritePriv req) of
        None \<Rightarrow> Inl ErrShareFailed
      | Some code \<Rightarrow> Inr code)"

section \<open>Authenticators\<close>

record AuthenticateForm =
  af_Type :: int
  Username :: string
  Password :: string
  Extra :: string

text \<open>The interface; an authentication may panic (\<open>None\<close>).\<close>

record Authenticator =
  au_IsEnabled :: "auth_error + bool"
  au_Authenticate :: "int \<Rightarrow> AuthenticateForm \<Rightarrow> (auth_error + SessionUser) option"
  au_ProcessSession :: "int \<Rightarrow> SessionUser \<Rightarrow> bool"
  au_SignOutInfo :: "SessionUser \<Rightarrow> string \<Rightarrow> auth_error + string"

text \<open>What \<open>BaseAuthenticator\<close> gives to the types that embed it and authenticate in their own way.\<close>

definition BaseAuthenticator :: "(int \<Rightarrow> AuthenticateForm \<Rightarrow> (auth_error + SessionUser) option) \<Rightarrow> Authenticator" where
  "BaseAuthenticator authenticate =
     \<lparr>au_IsEnabled = Inr True, au_Authenticate = authenticate, au_ProcessSession = (\<lambda>now u. True),
      au_SignOutInfo = (\<lambda>u redirectURL. Inr [])\<rparr>"

definition sql_Authenticate :: "tidb_server \<Rightarrow> AuthenticateForm \<Rightarrow> auth_error + SessionUser" where
  "sql_Authenticate tidbClient f =
     (case VerifySQLUser tidbClient (Username f) (Password f) of
        Inl (ErrPlain e) \<Rightarrow> Inl (ErrSignInOther (ErrPlain e))
      | Inl err \<Rightarrow> Inl (ErrSQL err)
      | Inr writeable \<Rightarrow>
          Inr \<lparr>Version = SessionVersion, su_DisplayName = Username f, HasTiDBAuth = True, TiDBUsername = Username f,
               TiDBPassword = Password f, SharedSessionExpireAt = zero_time, OIDCIDToken = [], AuthFrom = 0,
               IsShareable = True, IsWriteable = writeable\<rparr>)"

definition sql_authenticator :: "tidb_server \<Rightarrow> Authenticator" where
  "sql_authenticator tidbClient = BaseAuthenticator (\<lambda>now f. Some (sql_Authenticate tidbClient f))"

definition code_Authenticate :: "session_codec \<Rightarrow> string \<Rightarrow> int \<Rightarrow> AuthenticateForm \<Rightarrow> (auth_error + SessionUser) option" where
  "code_Authenticate C sharingSecret now f =
     map_option (\<lambda>session. case session of None \<Rightarrow> Inl ErrSignInInvalidCode | Some u \<Rightarrow> Inr u)
       (NewSessionFromSharingCode C sharingSecret now (Password f))"

definition code_ProcessSession :: "int \<Rightarrow> SessionUser \<Rightarrow> bool" where
  "code_ProcessSession now user \<longleftrightarrow> \<not> SharedSessionExpireAt user < now"

definition code_authenticator :: "session_codec \<Rightarrow> string \<Rightarrow> Authenticator" where
  "code_authenticator C sharingSecret =
     (BaseAuthenticator (code_Authenticate C sharingSecret))\<lparr>au_ProcessSession := code_ProcessSession\<rparr>"

section \<open>The service\<close>

type_synonym AuthService = "(int \<times> Authenticator) list"

definition RegisterAuthenticator :: "int \<Rightarrow> Authenticator \<Rightarrow> AuthService \<Rightarrow> AuthService" where
  "RegisterAuthenticator typeID a s = AList.update typeID a s"

definition authForm :: "AuthService \<Rightarrow> int \<Rightarrow> AuthenticateForm \<Rightarrow> (auth_error + SessionUser) option" where
  "authForm s now f =
     (case map_of s (af_Type f) of
        None \<Rightarrow> Some (Inl ErrUnsupportedAuthType)
      | Some a \<Rightarrow>
          map_option (\<lambda>r. case r of Inl err \<Rightarrow> Inl err | Inr u \<Rightarrow> Inr (u\<lparr>AuthFrom := af_Type f\<rparr>))
            (au_Authenticate a now f))"

text \<open>The claims of a token: the field \<open>p\<close>, if it is there.\<close>

type_synonym claims = "string option"

definition PayloadFunc :: "session_codec \<Rightarrow> string \<Rightarrow> nat \<Rightarrow> SessionUser \<Rightarrow> claims" where
  "PayloadFunc C secret nonce user =
     (case sc_Marshal C user of None \<Rightarrow> None | Some plain \<Rightarrow>
     (case sc_Encrypt C secret nonce plain of None \<Rightarrow> None | Some encrypted \<Rightarrow>
        Some (base64_EncodeToString encrypted)))"

definition IdentityHandler :: "session_codec \<Rightarrow> string \<Rightarrow> AuthService \<Rightarrow> int \<Rightarrow> claims \<Rightarrow> SessionUser option" where
  "IdentityHandler C secret service now claims =
     (case claims of None \<Rightarrow> None | Some encoded \<Rightarrow>
     (case base64_DecodeString encoded of None \<Rightarrow> None | Some decoded \<Rightarrow>
     (case sc_Decrypt C secret decoded of None \<Rightarrow> None | Some decrypted \<Rightarrow>
     (case sc_Unmarshal C decrypted of None \<Rightarrow> None | Some user \<Rightarrow>
      if Version user \<noteq> SessionVersion then None else
      (case map_of service (AuthFrom user) of None \<Rightarrow> None | Some a \<Rightarrow>
       if \<not> au_ProcessSession a now user then None else Some user)))))"

definition Authorizator :: "SessionUser option \<Rightarrow> bool" where
  "Authorizator data \<longleftrightarrow> data \<noteq> None"

text \<open>The middlewares: the error, or the handlers that follow run.\<close>

definition MWRequireSharePriv :: "SessionUser option \<Rightarrow> auth_error option" where
  "MWRequireSharePriv session =
     (case session of None \<Rightarrow> Some ErrUnauthenticated
      | Some u \<Rightarrow> if \<not> IsShareable u then Some ErrForbidden else None)"

definition MWRequireWritePriv :: "SessionUser option \<Rightarrow> auth_error option" where
  "MWRequireWritePriv session =
     (case session of None \<Rightarrow> Some ErrUnauthenticated
      | Some u \<Rightarrow> if \<not> IsWriteable u then Some ErrForbidden else None)"

text \<open>The authenticators in the order in which the map is ranged over.\<close>

fun supported_loop :: "AuthService \<Rightarrow> auth_error + int list" where
  "supported_loop [] = Inr []"
| "supported_loop ((typeID, a) # s) =
     (case au_IsEnabled a of
        Inl err \<Rightarrow> Inl err
      | Inr enabled \<Rightarrow>
          (case supported_loop s of
             Inl err \<Rightarrow> Inl err
           | Inr ids \<Rightarrow> Inr (if enabled then typeID # ids else ids)))"

definition getLoginInfoHandler :: "AuthService \<Rightarrow> auth_error + int list" where
  "getLoginInfoHandler s = (case supported_loop s of Inl err \<Rightarrow> Inl err | Inr ids \<Rightarrow> Inr (sort ids))"

definition getSignOutInfoHandler :: "AuthService \<Rightarrow> SessionUser \<Rightarrow> string \<Rightarrow> auth_error + string" where
  "getSignOutInfoHandler s u redirectURL =
     (case map_of s (AuthFrom u) of
        None \<Rightarrow> Inl ErrUnsupportedAuthType
      | Some a \<Rightarrow> au_SignOutInfo a u redirectURL)"

end
