(* ===== verification/UserShare.thy ===== *)
theory UserShare
  imports UserAuth
begin

text \<open>
  What a sharing code gives: from the request for the code to the requests made with the token of
  the shared session.
\<close>

section \<open>The laws of the encodings\<close>

text \<open>Fields marked \<open>msgpack:"-"\<close> are left out and come back as zero.\<close>

definition unpacked :: "SessionUser \<Rightarrow> SessionUser" where
  "unpacked u = u\<lparr>SharedSessionExpireAt := zero_time, AuthFrom := 0\<rparr>"

definition codec_laws :: "session_codec \<Rightarrow> bool" where
  "codec_laws C \<longleftrightarrow>
     (\<forall>k n m c. sc_Encrypt C k n m = Some c \<longrightarrow> sc_Decrypt C k c = Some m) \<and>
     (\<forall>u b. sc_Marshal C u = Some b \<longrightarrow> sc_Unmarshal C b = Some u) \<and>
     (\<forall>s b. sc_Pack C s = Some b \<longrightarrow> sc_Unpack C b = Some (s\<lparr>ss_Session := map_option unpacked (ss_Session s)\<rparr>))"

lemma decrypt_encrypted: "codec_laws C \<Longrightarrow> sc_Encrypt C k n m = Some c \<Longrightarrow> sc_Decrypt C k c = Some m"
  unfolding codec_laws_def by blast

lemma unmarshal_marshaled: "codec_laws C \<Longrightarrow> sc_Marshal C u = Some b \<Longrightarrow> sc_Unmarshal C b = Some u"
  unfolding codec_laws_def by blast

lemma unpack_packed:
  "codec_laws C \<Longrightarrow> sc_Pack C s = Some b \<Longrightarrow> sc_Unpack C b = Some (s\<lparr>ss_Session := map_option unpacked (ss_Session s)\<rparr>)"
  unfolding codec_laws_def by blast

section \<open>Tokens\<close>

lemma IdentityHandler_PayloadFunc:
  assumes "codec_laws C" and "PayloadFunc C secret nonce u \<noteq> None"
  shows "IdentityHandler C secret service now (PayloadFunc C secret nonce u) =
    (case map_of service (AuthFrom u) of
       Some a \<Rightarrow> if Version u = SessionVersion \<and> au_ProcessSession a now u then Some u else None
     | None \<Rightarrow> None)"
proof -
  obtain plain c where p: "sc_Marshal C u = Some plain" "sc_Encrypt C secret nonce plain = Some c"
    using assms(2) by (auto simp: PayloadFunc_def split: option.splits)
  then show ?thesis
    using unmarshal_marshaled [OF assms(1) p(1)] decrypt_encrypted [OF assms(1) p(2)]
    by (simp add: PayloadFunc_def IdentityHandler_def split: option.split)
qed

lemma IdentityHandler_None [simp]: "IdentityHandler C secret service now None = None"
  by (simp add: IdentityHandler_def)

section \<open>Codes\<close>

lemma shareHandler_code:
  assumes "shareHandler C key nonce now session req = Inr code"
  obtains e shared b c where "e = sint (1000000000 * ExpireInSeconds req)" and "0 \<le> e" and "e \<le> MaxSessionShareExpiry"
    and "shared = \<lparr>ss_Session = Some session, ss_ExpireAt = now + e, ss_RevokeWritePriv = RevokeWritePriv req\<rparr>"
    and "sc_Pack C shared = Some b" and "sc_Encrypt C key nonce b = Some c" and "code = hex_encode c" and "IsShareable session"
  using assms
  by (auto simp: shareHandler_def SharingCodeFromSession_def Let_def split: if_splits option.splits)

text \<open>The session of a code.\<close>

definition shared_user :: "SessionUser \<Rightarrow> int \<Rightarrow> bool \<Rightarrow> SessionUser" where
  "shared_user session expireAt revoke =
     session\<lparr>SharedSessionExpireAt := expireAt, su_DisplayName := ''Shared from '' @ su_DisplayName session,
       AuthFrom := 0, IsShareable := False, IsWriteable := IsWriteable session \<and> \<not> revoke\<rparr>"

lemma NewSession_of_code:
  assumes "codec_laws C"
    and "sc_Pack C \<lparr>ss_Session = Some session, ss_ExpireAt = t, ss_RevokeWritePriv = revoke\<rparr> = Some b"
    and "sc_Encrypt C key nonce b = Some c"
  shows "NewSessionFromSharingCode C key now (hex_encode c) =
    Some (if t < now then None else Some (shared_user session t revoke))"
  using unpack_packed [OF assms(1,2)] decrypt_encrypted [OF assms(1,3)]
  by (simp add: NewSessionFromSharingCode_def hex_decode_encode unpacked_def shared_user_def Let_def)

text \<open>
  C22: a session that is shared with a code is never more than the session it was shared from. A
  code is made only for a session that may be shared, for at most thirty days, also when the
  product of the requested seconds wraps around. Before it expires it signs in a session of the same SQL user that may not be
  shared on, and that may write only if the sharer may and did not revoke it; its token stands
  for that session until the code expires, and for nobody afterwards. An expired code signs in
  nobody.
\<close>

theorem shared_session_bounded:
  assumes "codec_laws C" and "shareHandler C key nonce t0 session req = Inr code" and "Version session = SessionVersion"
    and "map_of service 1 = Some (code_authenticator C key)"
  shows "\<exists>e u. 0 \<le> e \<and> e \<le> MaxSessionShareExpiry \<and> IsShareable session \<and>
    TiDBUsername u = TiDBUsername session \<and> TiDBPassword u = TiDBPassword session \<and> \<not> IsShareable u \<and>
    IsWriteable u = (IsWriteable session \<and> \<not> RevokeWritePriv req) \<and>
    (\<forall>t name extra. authForm service t \<lparr>af_Type = 1, Username = name, Password = code, Extra = extra\<rparr> =
       Some (if t0 + e < t then Inl ErrSignInInvalidCode else Inr u)) \<and>
    (\<forall>t secret n. PayloadFunc C secret n u \<noteq> None \<longrightarrow>
       IdentityHandler C secret service t (PayloadFunc C secret n u) = (if t0 + e < t then None else Some u))"
proof -
  obtain e shared b c where e: "0 \<le> e" "e \<le> MaxSessionShareExpiry"
    and shared: "shared = \<lparr>ss_Session = Some session, ss_ExpireAt = t0 + e, ss_RevokeWritePriv = RevokeWritePriv req\<rparr>"
    and made: "sc_Pack C shared = Some b" "sc_Encrypt C key nonce b = Some c" "code = hex_encode c" "IsShareable session"
    using assms(2) by (rule shareHandler_code)
  let ?u = "(shared_user session (t0 + e) (RevokeWritePriv req))\<lparr>AuthFrom := 1\<rparr>"
  have "authForm service t \<lparr>af_Type = 1, Username = name, Password = code, Extra = extra\<rparr> =
      Some (if t0 + e < t then Inl ErrSignInInvalidCode else Inr ?u)" for t name extra
    using NewSession_of_code [OF assms(1) made(1) [unfolded shared] made(2), of t] assms(4) made(3)
    by (simp add: authForm_def code_authenticator_def BaseAuthenticator_def code_Authenticate_def)
  moreover have "IdentityHandler C secret service t (PayloadFunc C secret n ?u) = (if t0 + e < t then None else Some ?u)"
    if "PayloadFunc C secret n ?u \<noteq> None" for t secret n
    using IdentityHandler_PayloadFunc [OF assms(1) that] assms(3,4)
    by (simp add: code_authenticator_def BaseAuthenticator_def code_ProcessSession_def shared_user_def)
  ultimately show ?thesis
    using e made(4) by (intro exI [of _ e] exI [of _ ?u]) (simp add: shared_user_def)
qed

definition demo_user :: SessionUser where
  "demo_user =
     \<lparr>Version = 2, su_DisplayName = ''root'', HasTiDBAuth = True, TiDBUsername = ''root'', TiDBPassword = ''pw'',
      SharedSessionExpireAt = zero_time, OIDCIDToken = [], AuthFrom = 0, IsShareable = True, IsWriteable = True\<rparr>"

definition demo_packed :: sharedSession where
  "demo_packed = \<lparr>ss_Session = Some demo_user, ss_ExpireAt = 60000000000, ss_RevokeWritePriv = False\<rparr>"

definition demo_codec :: session_codec where
  "demo_codec =
     \<lparr>sc_Marshal = (\<lambda>u. if u = demo_user then Some ''u'' else None), sc_Unmarshal = (\<lambda>b. Some demo_user),
      sc_Pack = (\<lambda>s. if s = demo_packed then Some ''s'' else None),
      sc_Unpack = (\<lambda>b. Some (demo_packed\<lparr>ss_Session := Some (unpacked demo_user)\<rparr>)),
      sc_Encrypt = (\<lambda>k n m. Some (k @ m)), sc_Decrypt = (\<lambda>k c. Some (drop (length k) c))\<rparr>"

lemma demo_codec_laws: "codec_laws demo_codec"
  unfolding codec_laws_def by (auto simp: demo_codec_def demo_packed_def split: if_splits)

lemma shared_session_bounded_witness:
  "\<exists>u. authForm [(1, code_authenticator demo_codec ''k'')] 0
         \<lparr>af_Type = 1, Username = [], Password = hex_encode ''ks'', Extra = []\<rparr> = Some (Inr u) \<and>
       \<not> IsShareable u \<and> IsWriteable u"
proof -
  have e: "sint (1000000000 * 60 :: 64 word) = 60000000000" by simp
  have "shareHandler demo_codec ''k'' 0 0 demo_user \<lparr>ExpireInSeconds = 60, RevokeWritePriv = False\<rparr> = Inr (hex_encode ''ks'')"
    unfolding shareHandler_def SharingCodeFromSession_def Let_def ShareRequest.simps e
    by (simp add: demo_codec_def demo_packed_def MaxSessionShareExpiry_def) (simp add: demo_user_def)
  from shared_session_bounded [OF demo_codec_laws this, of "[(1, code_authenticator demo_codec ''k'')]"]
  obtain e u where b: "0 \<le> e" "\<not> IsShareable u" "IsWriteable u"
    and f: "\<And>t name extra. authForm [(1, code_authenticator demo_codec ''k'')] t
      \<lparr>af_Type = 1, Username = name, Password = hex_encode ''ks'', Extra = extra\<rparr> =
      Some (if 0 + e < t then Inl ErrSignInInvalidCode else Inr u)"
    by (auto simp: demo_user_def SessionVersion_def)
  from f [of 0 "[]" "[]"] b show ?thesis by (intro exI [of _ u]) simp
qed

end
