(* ===== verification/UserSso.thy ===== *)
theory UserSso
  imports UserShare DynamicConfig
begin

text \<open>
  Single sign-on (\<open>pkg/apiserver/user/sso/service.go\<close>, \<open>models.go\<close>, \<open>router.go\<close>, \<open>ssoauth\<close>): the SQL user
  that sessions of the identity provider act as, its encrypted password in the local store, the
  key in a file, and the configuration of the provider.

  The local store is the list of its impersonation records, the key file what reading it gives.
  Outcomes that the code does not decide are arguments: whether a statement or a write fails, what
  the provider answers, whether \<open>url.Parse\<close> accepts an address. The records of the store are \<open>First\<close>
  in the order of their primary key, which plays no part with one record.
\<close>

section \<open>State\<close>

datatype ImpersonateStatus = ImpersonateStatusSuccess | ImpersonateStatusAuthFail | ImpersonateStatusInsufficientPrivs

record SSOImpersonationModel =
  SQLUser :: string
  EncryptedPass :: string
  LastImpersonateStatus :: "ImpersonateStatus option"

datatype key_file = KeyMissing | KeyUnreadable string | KeyContent string

record sso_state =
  so_records :: "SSOImpersonationModel list"
  so_key :: key_file

datatype sso_error =
    SsoPlain string
  | SsoSQL sql_error
  | ErrInvalidImpersonateCredential string
  | ErrDiscoverFailed string
  | ErrBadConfig string
  | ErrOIDCInternalErr string
  | SsoConfigErr string
  | SsoBadRequest sso_error

section \<open>The key\<close>

definition getMasterEncKey :: "sso_state \<Rightarrow> sso_error + string option" where
  "getMasterEncKey s =
     (case so_key s of
        KeyMissing \<Rightarrow> Inr None
      | KeyUnreadable e \<Rightarrow> Inl (SsoPlain e)
      | KeyContent b \<Rightarrow> if length b \<noteq> 32 then Inl (SsoPlain ''encryption key is broken'') else Inr (Some b))"

text \<open>A write that fails leaves the file in some state.\<close>

datatype write_outcome = Written | WriteFailed string key_file

definition getOrCreateMasterEncKey :: "string \<Rightarrow> write_outcome \<Rightarrow> sso_state \<Rightarrow> (sso_error + string) \<times> sso_state" where
  "getOrCreateMasterEncKey newKey w s =
     (case getMasterEncKey s of
        Inr (Some key) \<Rightarrow> (Inr key, s)
      | _ \<Rightarrow>
          (case w of
             Written \<Rightarrow> (Inr newKey, s\<lparr>so_key := KeyContent newKey\<rparr>)
           | WriteFailed e f \<Rightarrow> (Inl (SsoPlain (''persist key failed: '' @ e)), s\<lparr>so_key := f\<rparr>)))"

section \<open>Impersonation\<close>

text \<open>The outcome of a statement on the local store: an error, or it runs.\<close>

type_synonym store_outcome = "string option"

text \<open>
  The comment in the source says that only the impersonation of \<open>root\<close> is read; the code takes
  the first record, whatever its user is.
\<close>

definition getAndDecryptImpersonation ::
  "session_codec \<Rightarrow> store_outcome \<Rightarrow> sso_state \<Rightarrow> sso_error + string \<times> string" where
  "getAndDecryptImpersonation C first_err s =
     (case (case first_err of Some e \<Rightarrow> Inl e | None \<Rightarrow>
              (case so_records s of [] \<Rightarrow> Inl ''record not found'' | imp # _ \<Rightarrow> Inr imp)) of
        Inl e \<Rightarrow> Inl (SsoPlain (''bad record: '' @ e))
      | Inr imp \<Rightarrow>
          (case getMasterEncKey s of
             Inl e \<Rightarrow> Inl e
           | Inr None \<Rightarrow> Inl (SsoPlain ''encryption key is missing'')
           | Inr (Some key) \<Rightarrow>
               (case hex_decode (EncryptedPass imp) of
                  None \<Rightarrow> Inl (SsoPlain ''bad record'')
                | Some encrypted \<Rightarrow>
                    (case sc_Decrypt C key encrypted of
                       None \<Rightarrow> Inl (SsoPlain ''bad record'')
                     | Some decryptedPass \<Rightarrow> Inr (SQLUser imp, decryptedPass)))))"

definition updateImpersonationStatus :: "store_outcome \<Rightarrow> string \<Rightarrow> ImpersonateStatus \<Rightarrow> sso_state \<Rightarrow> sso_state" where
  "updateImpersonationStatus update_err user status s =
     (if update_err \<noteq> None then s else
      s\<lparr>so_records := map (\<lambda>r. if SQLUser r = user then r\<lparr>LastImpersonateStatus := Some status\<rparr> else r) (so_records s)\<rparr>)"

record oAuthUserInfo =
  ou_Name :: string
  Email :: string

definition impersonated :: "string \<Rightarrow> string \<Rightarrow> string \<Rightarrow> string \<Rightarrow> bool \<Rightarrow> SessionUser" where
  "impersonated userName password email idToken writeable =
     \<lparr>Version = SessionVersion, su_DisplayName = email, HasTiDBAuth = True, TiDBUsername = userName, TiDBPassword = password,
      SharedSessionExpireAt = zero_time, OIDCIDToken = idToken, AuthFrom = 0, IsShareable = True, IsWriteable = writeable\<rparr>"

definition newSessionFromImpersonation ::
  "session_codec \<Rightarrow> tidb_server \<Rightarrow> string + DynamicConfig \<Rightarrow> store_outcome \<Rightarrow> store_outcome \<Rightarrow>
   oAuthUserInfo \<Rightarrow> string \<Rightarrow> sso_state \<Rightarrow> (sso_error + SessionUser) \<times> sso_state" where
  "newSessionFromImpersonation C tidbClient gotConfig first_err update_err userInfo idToken s =
     (case gotConfig of Inl e \<Rightarrow> (Inl (SsoConfigErr e), s) | Inr dc \<Rightarrow>
     (case getAndDecryptImpersonation C first_err s of Inl e \<Rightarrow> (Inl e, s) | Inr (userName, password) \<Rightarrow>
     (case VerifySQLUser tidbClient userName password of
        Inl ErrTiDBAuthFailed \<Rightarrow>
          (Inl (ErrInvalidImpersonateCredential ''Invalid SQL credential''),
           updateImpersonationStatus update_err userName ImpersonateStatusAuthFail s)
      | Inl ErrInsufficientPrivs \<Rightarrow>
          (Inl (ErrInvalidImpersonateCredential ''Insufficient privileges''),
           updateImpersonationStatus update_err userName ImpersonateStatusInsufficientPrivs s)
      | Inl err \<Rightarrow> (Inl (SsoSQL err), s)
      | Inr writeable \<Rightarrow>
          (Inr (impersonated userName password (Email userInfo) idToken (writeable \<and> \<not> IsReadOnly (CoreConfig (SSO dc)))),
           updateImpersonationStatus update_err userName ImpersonateStatusSuccess s))))"

definition revokeAllImpersonations :: "store_outcome \<Rightarrow> sso_state \<Rightarrow> sso_error option \<times> sso_state" where
  "revokeAllImpersonations delete_err s =
     (case delete_err of Some e \<Rightarrow> (Some (SsoPlain e), s) | None \<Rightarrow> (None, s\<lparr>so_records := []\<rparr>))"

definition createImpersonation ::
  "session_codec \<Rightarrow> tidb_server \<Rightarrow> string \<Rightarrow> write_outcome \<Rightarrow> nat \<Rightarrow> store_outcome \<Rightarrow> store_outcome \<Rightarrow>
   string \<Rightarrow> string \<Rightarrow> sso_state \<Rightarrow> (sso_error + SSOImpersonationModel) \<times> sso_state" where
  "createImpersonation C tidbClient newKey w nonce delete_err create_err userName password s =
     (case VerifySQLUser tidbClient userName password of
        Inl ErrTiDBAuthFailed \<Rightarrow> (Inl (ErrInvalidImpersonateCredential ''Invalid SQL credential''), s)
      | Inl ErrInsufficientPrivs \<Rightarrow> (Inl (ErrInvalidImpersonateCredential ''Insufficient privileges''), s)
      | Inl err \<Rightarrow> (Inl (SsoSQL err), s)
      | Inr _ \<Rightarrow>
          (case getOrCreateMasterEncKey newKey w s of
             (Inl err, s) \<Rightarrow> (Inl err, s)
           | (Inr key, s) \<Rightarrow>
               (case sc_Encrypt C key nonce password of
                  None \<Rightarrow> (Inl (SsoPlain ''encryption failed''), s)
                | Some encrypted \<Rightarrow>
                    let record = \<lparr>SQLUser = userName, EncryptedPass = hex_encode encrypted, LastImpersonateStatus = None\<rparr> in
                    (case revokeAllImpersonations delete_err s of
                       (Some err, s) \<Rightarrow> (Inl err, s)
                     | (None, s) \<Rightarrow>
                         (case create_err of
                            Some e \<Rightarrow> (Inl (SsoPlain e), s)
                          | None \<Rightarrow> (Inr record, s\<lparr>so_records := so_records s @ [record]\<rparr>))))))"

section \<open>The provider\<close>

record oidcWellKnownConfig =
  Issuer :: string
  wk_AuthURL :: string
  wk_TokenURL :: string
  wk_UserInfoURL :: string
  EndSessionURL :: string
  JWKSURI :: string
  ResponseTypesSupported :: "string list"
  SubjectTypesSupported :: "string list"
  IDTokenSigningAlgValuesSupported :: "string list"

definition trim_slash :: "string \<Rightarrow> string" where
  "trim_slash s = (if has_suffix s ''/'' then take (length s - 1) s else s)"

definition discoverOIDC ::
  "(string \<Rightarrow> bool) \<Rightarrow> (string \<Rightarrow> string + oidcWellKnownConfig) \<Rightarrow> string \<Rightarrow> sso_error + oidcWellKnownConfig" where
  "discoverOIDC url_parses http_get issuer =
     (let issuer = trim_slash issuer;
          issuer = (if \<not> prefix_at ''http://'' issuer \<and> \<not> prefix_at ''https://'' issuer then ''https://'' @ issuer else issuer) in
      if \<not> url_parses issuer then Inl (ErrDiscoverFailed ''Invalid URL format'') else
      (case http_get (issuer @ ''/.well-known/openid-configuration'') of
         Inl _ \<Rightarrow> Inl (ErrDiscoverFailed ''Failed to discover OIDC endpoints'')
       | Inr wk \<Rightarrow>
           if trim_slash (Issuer wk) \<noteq> issuer then
             Inl (ErrDiscoverFailed (''Issuer did not match in the OIDC provider, expect '' @ issuer @ '', got '' @ Issuer wk))
           else if length (wk_TokenURL wk) = 0 then Inl (ErrDiscoverFailed ''token_endpoint is not provided in the OIDC provider'')
           else if length (wk_AuthURL wk) = 0 then Inl (ErrDiscoverFailed ''authorization_endpoint is not provided in the OIDC provider'')
           else if length (wk_UserInfoURL wk) = 0 then Inl (ErrDiscoverFailed ''userinfo_endpoint is not provided in the OIDC provider'')
           else if length (JWKSURI wk) = 0 then Inl (ErrDiscoverFailed ''jwks_uri is not provided in the OIDC provider'')
           else if length (ResponseTypesSupported wk) = 0 then
             Inl (ErrDiscoverFailed ''response_types_supported is not provided in the OIDC provider'')
           else if length (SubjectTypesSupported wk) = 0 then
             Inl (ErrDiscoverFailed ''subject_types_supported is not provided in the OIDC provider'')
           else if length (IDTokenSigningAlgValuesSupported wk) = 0 then
             Inl (ErrDiscoverFailed ''id_token_signing_alg_values_supported is not provided in the OIDC provider'')
           else Inr wk))"

definition sso_IsEnabled :: "string + DynamicConfig \<Rightarrow> sso_error + bool" where
  "sso_IsEnabled gotConfig =
     (case gotConfig of Inl e \<Rightarrow> Inl (SsoConfigErr e) | Inr dc \<Rightarrow> Inr (sso_Enabled (CoreConfig (SSO dc))))"

record oauth2_Config =
  oc_ClientID :: string
  RedirectURL :: string
  oc_AuthURL :: string
  oc_TokenURL :: string
  Scopes :: "string list"

definition buildOAuth2Config :: "string + DynamicConfig \<Rightarrow> string \<Rightarrow> sso_error + oauth2_Config" where
  "buildOAuth2Config gotConfig redirectURL =
     (case gotConfig of Inl e \<Rightarrow> Inl (SsoConfigErr e) | Inr dc \<Rightarrow>
      if \<not> sso_Enabled (CoreConfig (SSO dc)) then Inl (ErrBadConfig ''SSO is not enabled'') else
      Inr \<lparr>oc_ClientID = ClientID (CoreConfig (SSO dc)), RedirectURL = redirectURL, oc_AuthURL = AuthURL (SSO dc),
           oc_TokenURL = TokenURL (SSO dc), Scopes = [''openid'', ''profile'', ''email'']\<rparr>)"

text \<open>What the provider answers to the exchange of a code: the access token, and the identity token if there is one.\<close>

type_synonym oauth_exchange = "oauth2_Config \<Rightarrow> string \<Rightarrow> string \<Rightarrow> string + string \<times> string option"

definition exchangeOAuthCode ::
  "oauth_exchange \<Rightarrow> string + DynamicConfig \<Rightarrow> string \<Rightarrow> string \<Rightarrow> string \<Rightarrow> sso_error + string \<times> string" where
  "exchangeOAuthCode exchange gotConfig redirectURL code codeVerifier =
     (case buildOAuth2Config gotConfig redirectURL of Inl e \<Rightarrow> Inl e | Inr oauthConfig \<Rightarrow>
     (case exchange oauthConfig code codeVerifier of
        Inl _ \<Rightarrow> Inl (ErrOIDCInternalErr ''oidc: exchange failed'')
      | Inr (_, None) \<Rightarrow> Inl (ErrOIDCInternalErr ''oidc: id_token not exist'')
      | Inr (accessToken, Some idToken) \<Rightarrow> Inr (accessToken, idToken)))"

definition oAuthGetUserInfo ::
  "(string \<Rightarrow> string \<Rightarrow> string + oAuthUserInfo) \<Rightarrow> string + DynamicConfig \<Rightarrow> string \<Rightarrow> sso_error + oAuthUserInfo" where
  "oAuthGetUserInfo user_info gotConfig accessToken =
     (case gotConfig of Inl e \<Rightarrow> Inl (SsoConfigErr e) | Inr dc \<Rightarrow>
      if \<not> sso_Enabled (CoreConfig (SSO dc)) then Inl (ErrBadConfig ''SSO is not enabled'') else
      (case user_info (UserInfoURL (SSO dc)) accessToken of
         Inl _ \<Rightarrow> Inl (ErrOIDCInternalErr ''Failed to read user info'')
       | Inr info \<Rightarrow> Inr info))"

definition NewSessionFromOAuthExchange ::
  "session_codec \<Rightarrow> tidb_server \<Rightarrow> oauth_exchange \<Rightarrow> (string \<Rightarrow> string \<Rightarrow> string + oAuthUserInfo) \<Rightarrow> string + DynamicConfig \<Rightarrow>
   store_outcome \<Rightarrow> store_outcome \<Rightarrow> string \<Rightarrow> string \<Rightarrow> string \<Rightarrow> sso_state \<Rightarrow> (sso_error + SessionUser) \<times> sso_state" where
  "NewSessionFromOAuthExchange C tidbClient exchange user_info gotConfig first_err update_err redirectURL code codeVerifier s =
     (case exchangeOAuthCode exchange gotConfig redirectURL code codeVerifier of
        Inl _ \<Rightarrow> (Inl (ErrBadConfig ''SSO is not configured correctly''), s)
      | Inr (ak, idToken) \<Rightarrow>
          (case oAuthGetUserInfo user_info gotConfig ak of
             Inl e \<Rightarrow> (Inl e, s)
           | Inr info \<Rightarrow>
               (case newSessionFromImpersonation C tidbClient gotConfig first_err update_err info idToken s of
                  (Inl _, s) \<Rightarrow> (Inl (ErrBadConfig ''SSO is not configured correctly''), s)
                | (Inr u, s) \<Rightarrow> (Inr u, s))))"

text \<open>\<open>setConfig\<close> up to the call of \<open>Modify\<close>: the error, or the configuration that is put in place.\<close>

definition sso_setConfig ::
  "(string \<Rightarrow> bool) \<Rightarrow> (string \<Rightarrow> string + oidcWellKnownConfig) \<Rightarrow> store_outcome \<Rightarrow> SSOCoreConfig \<Rightarrow> sso_state \<Rightarrow>
   (sso_error + SSOConfig) \<times> sso_state" where
  "sso_setConfig url_parses http_get delete_err config s =
     (let dConfig = \<lparr>CoreConfig = config, AuthURL = [], TokenURL = [], UserInfoURL = [], SignOutURL = []\<rparr> in
      if sso_Enabled config then
        (case discoverOIDC url_parses http_get (DiscoveryURL config) of
           Inl e \<Rightarrow> (Inl (SsoBadRequest e), s)
         | Inr wk \<Rightarrow>
             (Inr (dConfig\<lparr>AuthURL := wk_AuthURL wk, TokenURL := wk_TokenURL wk, UserInfoURL := wk_UserInfoURL wk,
                    SignOutURL := EndSessionURL wk\<rparr>), s))
      else
        (case revokeAllImpersonations delete_err s of
           (Some e, s) \<Rightarrow> (Inl e, s)
         | (None, s) \<Rightarrow> (Inr dConfig, s)))"

text \<open>
  The address that ends a session at the provider. \<open>url_parse\<close> is \<open>url.Parse\<close>; \<open>with_params\<close> writes the
  address with these parameters added to its query.
\<close>

definition BuildEndSessionURL ::
  "(string \<Rightarrow> string + 'u) \<Rightarrow> ('u \<Rightarrow> (string \<times> string) list \<Rightarrow> string) \<Rightarrow> string + DynamicConfig \<Rightarrow> SessionUser \<Rightarrow> string \<Rightarrow> sso_error + string" where
  "BuildEndSessionURL url_parse with_params gotConfig user redirectURL =
     (case gotConfig of Inl e \<Rightarrow> Inl (SsoConfigErr e) | Inr dc \<Rightarrow>
      if \<not> sso_Enabled (CoreConfig (SSO dc)) then Inl (ErrBadConfig ''SSO is not enabled'') else
      (case url_parse (SignOutURL (SSO dc)) of
         Inl _ \<Rightarrow> Inl (ErrBadConfig ''Bad end session URL'')
       | Inr u \<Rightarrow>
           let q = [(''client_id'', ClientID (CoreConfig (SSO dc))), (''id_token_hint'', OIDCIDToken user)];
               q = (if 0 < length redirectURL then q @ [(''post_logout_redirect_uri'', redirectURL)] else q)
           in Inr (with_params u q)))"

section \<open>The authenticator and the handlers\<close>

record SSOExtra =
  ex_Code :: string
  CodeVerifier :: string
  ex_RedirectURL :: string

text \<open>\<open>ssoauth\<close>: the extra payload of the form is JSON, which an argument parses.\<close>

definition sso_Authenticate ::
  "(string \<Rightarrow> SSOExtra option) \<Rightarrow> (string \<Rightarrow> string \<Rightarrow> string \<Rightarrow> sso_state \<Rightarrow> (sso_error + SessionUser) \<times> sso_state) \<Rightarrow>
   AuthenticateForm \<Rightarrow> sso_state \<Rightarrow> (sso_error + SessionUser) \<times> sso_state" where
  "sso_Authenticate parse_extra newSession f s =
     (case parse_extra (Extra f) of
        None \<Rightarrow> (Inl (SsoBadRequest (SsoPlain ''Invalid extra payload'')), s)
      | Some extra \<Rightarrow> newSession (ex_RedirectURL extra) (ex_Code extra) (CodeVerifier extra) s)"

definition listImpersonationHandler :: "store_outcome \<Rightarrow> sso_state \<Rightarrow> string + SSOImpersonationModel list" where
  "listImpersonationHandler find_err s = (case find_err of Some e \<Rightarrow> Inl e | None \<Rightarrow> Inr (so_records s))"

text \<open>The errors that the handler answers with the status of a bad request.\<close>

definition create_bad_request :: "sso_error \<Rightarrow> bool" where
  "create_bad_request e \<longleftrightarrow> (case e of ErrInvalidImpersonateCredential _ \<Rightarrow> True | _ \<Rightarrow> False)"

definition sso_getConfig :: "string + DynamicConfig \<Rightarrow> sso_error + SSOCoreConfig" where
  "sso_getConfig gotConfig = (case gotConfig of Inl e \<Rightarrow> Inl (SsoConfigErr e) | Inr dc \<Rightarrow> Inr (CoreConfig (SSO dc)))"

section \<open>One SQL user at most\<close>

lemma one_record_update:
  "length (so_records (updateImpersonationStatus e u st s)) = length (so_records s)"
  by (simp add: updateImpersonationStatus_def)

lemma getOrCreate_key:
  assumes "getOrCreateMasterEncKey newKey w s = (Inr key, s')" and "length newKey = 32"
  shows "getMasterEncKey s' = Inr (Some key)"
  using assms
  by (auto simp: getOrCreateMasterEncKey_def getMasterEncKey_def split: key_file.splits if_splits write_outcome.splits)

lemma createImpersonation_success:
  assumes "createImpersonation C T newKey w n delete_err create_err u p s = (Inr rec, s')" and "length newKey = 32"
  obtains key c where "so_records s' = [rec]" and "rec = \<lparr>SQLUser = u, EncryptedPass = hex_encode c, LastImpersonateStatus = None\<rparr>"
    and "sc_Encrypt C key n p = Some c" and "getMasterEncKey s' = Inr (Some key)"
proof (cases "getOrCreateMasterEncKey newKey w s")
  case (Pair k s1)
  then show ?thesis
    using assms getOrCreate_key [of newKey w s _ s1] that
    by (auto simp: createImpersonation_def revokeAllImpersonations_def getMasterEncKey_def Let_def
        split: sum.splits option.splits sql_error.splits)
qed

text \<open>
  C23: single sign-on acts as the SQL user that was set up last. When \<open>createImpersonation\<close> returns a
  record, it is the only one, and a sign-in through the provider that reads it back decrypts
  the password that was given, verifies that user again and gives a session of it, which may
  write if the user may and the configuration is not read only; a sign-in never changes the number of records.
  Turning single sign-on off leaves no record, and then nobody signs in. The user \<open>u\<close> is any SQL
  user: the comment on \<open>getAndDecryptImpersonation\<close> says that only the impersonation of \<open>root\<close> is
  read, but the query takes the first record whatever its user is.
\<close>

theorem sso_impersonation:
  assumes "codec_laws C" and "createImpersonation C T newKey w n delete_err create_err u p s = (Inr rec, s')"
    and "length newKey = 32"
  shows "so_records s' = [rec] \<and>
    (\<forall>dc info idToken update_err.
       fst (newSessionFromImpersonation C T' (Inr dc) None update_err info idToken s') =
       (case VerifySQLUser T' u p of
          Inr writeable \<Rightarrow> Inr (impersonated u p (Email info) idToken (writeable \<and> \<not> IsReadOnly (CoreConfig (SSO dc))))
        | Inl ErrTiDBAuthFailed \<Rightarrow> Inl (ErrInvalidImpersonateCredential ''Invalid SQL credential'')
        | Inl ErrInsufficientPrivs \<Rightarrow> Inl (ErrInvalidImpersonateCredential ''Insufficient privileges'')
        | Inl err \<Rightarrow> Inl (SsoSQL err)) \<and>
       length (so_records (snd (newSessionFromImpersonation C T' (Inr dc) None update_err info idToken s'))) = 1) \<and>
    (\<forall>config r s'' dc info idToken first_err update_err.
       sso_setConfig url_parses http_get None (config\<lparr>sso_Enabled := False\<rparr>) s' = (r, s'') \<longrightarrow>
       (\<exists>e. newSessionFromImpersonation C T' (Inr dc) first_err update_err info idToken s'' = (Inl e, s'')))"
proof -
  obtain key c where rec: "so_records s' = [rec]" "rec = \<lparr>SQLUser = u, EncryptedPass = hex_encode c, LastImpersonateStatus = None\<rparr>"
    and enc: "sc_Encrypt C key n p = Some c" and key: "getMasterEncKey s' = Inr (Some key)"
    using createImpersonation_success [OF assms(2,3)] .
  have get: "getAndDecryptImpersonation C None s' = Inr (u, p)"
    using rec key decrypt_encrypted [OF assms(1) enc] by (simp add: getAndDecryptImpersonation_def hex_decode_encode)
  have off: "\<exists>e. newSessionFromImpersonation C T' (Inr dc) first_err update_err info idToken s'' = (Inl e, s'')"
    if "sso_setConfig url_parses http_get None (config\<lparr>sso_Enabled := False\<rparr>) s' = (r, s'')"
    for config r s'' dc info idToken first_err update_err
    using that
    by (auto simp: sso_setConfig_def revokeAllImpersonations_def newSessionFromImpersonation_def getAndDecryptImpersonation_def
        Let_def split: option.splits)
  show ?thesis
    using rec(1) off
    by (auto simp: newSessionFromImpersonation_def get one_record_update split: sum.splits sql_error.splits)
qed

definition demo_root :: tidb_server where
  "demo_root = demo_tidb [''GRANT ALL PRIVILEGES ON *.* TO root'']"

lemma demo_root_verified: "VerifySQLUser demo_root u p = Inr True"
proof -
  have "row_grants ''GRANT ALL PRIVILEGES ON *.* TO root'' = [''ALL PRIVILEGES'']" by code_simp
  then show ?thesis
    by (simp add: VerifySQLUser_def demo_root_def demo_tidb_def parseUserGrants_def checkDashboardPriv_iff
        checkWriteablePriv_iff sem_privs_def Let_def)
qed

definition demo_dynamic_config :: DynamicConfig where
  "demo_dynamic_config =
     \<lparr>KeyVisual = \<lparr>AutoCollectionDisabled = False, Policy = ''db'', PolicyKVSeparator = []\<rparr>,
      Profiling = \<lparr>AutoCollectionTargets = [], AutoCollectionDurationSecs = 0, AutoCollectionIntervalSecs = 0\<rparr>,
      SSO = \<lparr>CoreConfig = \<lparr>sso_Enabled = True, ClientID = [], DiscoveryURL = [], IsReadOnly = True\<rparr>,
        AuthURL = [], TokenURL = [], UserInfoURL = [], SignOutURL = []\<rparr>\<rparr>"

definition demo_sso_record :: SSOImpersonationModel where
  "demo_sso_record =
     \<lparr>SQLUser = ''root'', EncryptedPass = hex_encode (replicate 32 (CHR ''k'') @ ''pw''), LastImpersonateStatus = None\<rparr>"

lemma sso_impersonation_witness:
  "fst (newSessionFromImpersonation demo_codec demo_root (Inr demo_dynamic_config) None None
      \<lparr>ou_Name = ''n'', Email = ''mail''\<rparr> ''id'' \<lparr>so_records = [demo_sso_record], so_key = KeyContent (replicate 32 (CHR ''k''))\<rparr>) =
   Inr (impersonated ''root'' ''pw'' ''mail'' ''id'' False)"
proof -
  let ?key = "replicate 32 (CHR ''k'')"
  have "createImpersonation demo_codec demo_root ?key Written 0 None None ''root'' ''pw''
      \<lparr>so_records = [], so_key = KeyMissing\<rparr> = (Inr demo_sso_record, \<lparr>so_records = [demo_sso_record], so_key = KeyContent ?key\<rparr>)"
    by (simp add: createImpersonation_def demo_root_verified getOrCreateMasterEncKey_def getMasterEncKey_def demo_codec_def
        revokeAllImpersonations_def demo_sso_record_def Let_def)
  from sso_impersonation [OF demo_codec_laws this, of demo_root] show ?thesis
    by (simp add: demo_root_verified demo_dynamic_config_def)
qed

end
