(* ===== verification/Tokens.thy ===== *)
theory Tokens
  imports UserAuth
begin

text \<open>
  Tokens of downloads and exported tables (\<open>pkg/apiserver/utils/jwt.go\<close>, \<open>export.go\<close>).

  Signing, encryption and files are operations of records. Values are written into cells by the
  kind of their Go type.
\<close>

section \<open>\<open>jwt.go\<close>\<close>

record Claims =
  Data :: string
  cl_Issuer :: string
  ExpiresAt :: int

text \<open>
  Signing and parsing are those of the JWT library with the secret of the process: parsing gives
  the claims of a token whose signature is right and that has not expired. Times are seconds.
\<close>

record jwt_ops =
  jw_sign :: "Claims \<Rightarrow> string option"
  jw_parse :: "int \<Rightarrow> string \<Rightarrow> Claims option"

definition newClaims :: "int \<Rightarrow> string \<Rightarrow> string \<Rightarrow> int \<Rightarrow> Claims" where
  "newClaims now issuer data expireIn = \<lparr>Data = data, cl_Issuer = issuer, ExpiresAt = now + expireIn\<rparr>"

definition NewJWTStringWithExpire :: "jwt_ops \<Rightarrow> int \<Rightarrow> string \<Rightarrow> string \<Rightarrow> int \<Rightarrow> string option" where
  "NewJWTStringWithExpire J now issuer data expireIn = jw_sign J (newClaims now issuer data expireIn)"

definition NewJWTString :: "jwt_ops \<Rightarrow> int \<Rightarrow> string \<Rightarrow> string \<Rightarrow> string option" where
  "NewJWTString J now issuer data = NewJWTStringWithExpire J now issuer data (24 * 3600)"

definition ParseJWTString :: "jwt_ops \<Rightarrow> int \<Rightarrow> string \<Rightarrow> string \<Rightarrow> string option" where
  "ParseJWTString J now requiredIssuer tokenStr =
     (case jw_parse J now tokenStr of
        None \<Rightarrow> None
      | Some claims \<Rightarrow> if cl_Issuer claims \<noteq> requiredIssuer then None else Some (Data claims))"

section \<open>\<open>export.go\<close>\<close>

text \<open>The cells of a table by the JSON name of their field, and what the verbs of \<open>fmt\<close> make of them.\<close>

datatype 'f csv_value = CsvInt int | CsvUint nat | CsvFloat 'f | CsvString string

definition csv_cell :: "(int \<Rightarrow> string) \<Rightarrow> ('f \<Rightarrow> string) \<Rightarrow> string list \<Rightarrow> string \<Rightarrow> 'f csv_value option \<Rightarrow> string" where
  "csv_cell fmt_time fmt_float timeFields field s =
     (case s of
        Some (CsvInt t) \<Rightarrow> if field \<in> set timeFields then fmt_time t else dec_string t
      | Some (CsvUint t) \<Rightarrow> dec_string (int t)
      | Some (CsvFloat t) \<Rightarrow> fmt_float t
      | Some (CsvString t) \<Rightarrow> t
      | None \<Rightarrow> ''%!s(<nil>)'')"

text \<open>
  \<open>jsonNames\<close> are the JSON names of the fields in order; a field that is not one of them has no value.
  A name is looked up in lower case, as it is entered. No data is a panic: the type of the rows is
  read off the first.
\<close>

definition GenerateCSVFromRaw ::
  "(int \<Rightarrow> string) \<Rightarrow> ('f \<Rightarrow> string) \<Rightarrow> string list \<Rightarrow> (string \<Rightarrow> 'f csv_value) list \<Rightarrow> string list \<Rightarrow> string list \<Rightarrow> string list list option" where
  "GenerateCSVFromRaw fmt_time fmt_float jsonNames rawData reqFields timeFields =
     (if rawData = [] then None else let allFields = map to_lower jsonNames;
          reqFields = (if reqFields = [''*''] then allFields else reqFields);
          cell = (\<lambda>overview field. csv_cell fmt_time fmt_float timeFields field
            (if field \<in> set allFields then Some (overview field) else None))
      in Some (reqFields # map (\<lambda>overview. map (cell overview) reqFields) rawData))"

text \<open>The token of an export: the key that encrypts the file, and the file.\<close>

definition export_token :: "jwt_ops \<Rightarrow> int \<Rightarrow> string \<Rightarrow> string \<Rightarrow> string \<Rightarrow> string option" where
  "export_token J now secretKey fileName tokenNamespace =
     NewJWTString J now tokenNamespace (base64_EncodeToString secretKey @ '' '' @ fileName)"

text \<open>\<open>ExportCSV\<close>: the temporary file, the encryption of the table (a key and a vector of 16 bytes), the token.\<close>

definition ExportCSV ::
  "jwt_ops \<Rightarrow> int \<Rightarrow> string + string \<Rightarrow> string \<Rightarrow> (string \<Rightarrow> string \<Rightarrow> string list list \<Rightarrow> string option) \<Rightarrow> string list list \<Rightarrow>
   string \<Rightarrow> string option" where
  "ExportCSV J now tempFile secretKey encrypt_err data tokenNamespace =
     (case tempFile of Inl _ \<Rightarrow> None | Inr fileName \<Rightarrow>
      (case encrypt_err (take 16 secretKey) (drop 16 secretKey) data of
         Some _ \<Rightarrow> None
       | None \<Rightarrow> export_token J now secretKey fileName tokenNamespace))"

definition is_space :: "char \<Rightarrow> bool" where
  "is_space c \<longleftrightarrow> (let b = byte_of c in b = 32 \<or> 9 \<le> b \<and> b \<le> 13)"

text \<open>\<open>strings.Fields\<close>; \<open>cur\<close> is the field read so far.\<close>

fun fields_at :: "string \<Rightarrow> string \<Rightarrow> string list" where
  "fields_at cur [] = (if cur = [] then [] else [cur])"
| "fields_at cur (c # s) =
     (if is_space c then (if cur = [] then fields_at [] s else cur # fields_at [] s) else fields_at (cur @ [c]) s)"

definition strings_Fields :: "string \<Rightarrow> string list" where
  "strings_Fields s = fields_at [] s"

text \<open>
  \<open>DownloadByToken\<close>: an error, or the name and what is written, with the file that is removed.
  \<open>None\<close> is a panic: a key that is too short is sliced.
\<close>

datatype download_error = BadToken | FileError string

record file_env =
  fe_stat :: "string \<Rightarrow> string + string"
  fe_open :: "string \<Rightarrow> string + string"
  fe_decrypt :: "string \<Rightarrow> string \<Rightarrow> string \<Rightarrow> string"

definition DownloadByToken ::
  "jwt_ops \<Rightarrow> file_env \<Rightarrow> int \<Rightarrow> string \<Rightarrow> string \<Rightarrow> ((download_error + string \<times> string) \<times> string list) option" where
  "DownloadByToken J E now token tokenNamespace =
     (case ParseJWTString J now tokenNamespace token of None \<Rightarrow> Some (Inl BadToken, []) | Some tokenPlain \<Rightarrow>
      let arr = strings_Fields tokenPlain in
      if length arr \<noteq> 2 then Some (Inl BadToken, []) else
      (case base64_DecodeString (arr ! 0) of None \<Rightarrow> Some (Inl BadToken, []) | Some secretKey \<Rightarrow>
      (case fe_stat E (arr ! 1) of Inl err \<Rightarrow> Some (Inl (FileError err), []) | Inr name \<Rightarrow>
      (case fe_open E (arr ! 1) of Inl err \<Rightarrow> Some (Inl (FileError err), []) | Inr content \<Rightarrow>
       if length secretKey < 16 then None else
       Some (Inr (name, fe_decrypt E (take 16 secretKey) (drop 16 secretKey) content), [arr ! 1])))))"

section \<open>What a token gives\<close>

text \<open>The laws of the JWT library.\<close>

definition jwt_laws :: "jwt_ops \<Rightarrow> bool" where
  "jwt_laws J \<longleftrightarrow> (\<forall>c tok now. jw_sign J c = Some tok \<longrightarrow> jw_parse J now tok = (if now \<le> ExpiresAt c then Some c else None))"

lemma ParseJWTString_NewJWTString:
  assumes "jwt_laws J" and "NewJWTString J now issuer data = Some tok"
  shows "ParseJWTString J later required tok = (if later \<le> now + 86400 \<and> required = issuer then Some data else None)"
  using assms by (auto simp: jwt_laws_def NewJWTString_def NewJWTStringWithExpire_def newClaims_def ParseJWTString_def)

lemma fields_at_word:
  "\<forall>c\<in>set w. \<not> is_space c \<Longrightarrow> fields_at cur (w @ s) = fields_at (cur @ w) s"
  by (induction w arbitrary: cur) simp_all

lemma fields_two:
  assumes "\<forall>c\<in>set a. \<not> is_space c" and "\<forall>c\<in>set b. \<not> is_space c" and "a \<noteq> []" and "b \<noteq> []"
  shows "strings_Fields (a @ '' '' @ b) = [a, b]"
proof -
  have space: "is_space (CHR '' '')" by code_simp
  have "fields_at [] (a @ '' '' @ b) = fields_at a ('' '' @ b)" using fields_at_word [OF assms(1)] by simp
  also have "\<dots> = a # fields_at [] b" using assms(3) space by simp
  also have "fields_at [] b = [b]" using fields_at_word [OF assms(2), of "[]" "[]"] assms(4) by simp
  finally show ?thesis by (simp add: strings_Fields_def)
qed

lemma b64_bytes_ne: "bs \<noteq> [] \<Longrightarrow> b64_bytes bs \<noteq> []"
  by (cases bs rule: b64_bytes.cases) auto

lemma b64_bytes_no_space: "\<forall>b\<in>set bs. b < 256 \<Longrightarrow> \<forall>c\<in>set (b64_bytes bs). \<not> is_space c"
proof -
  have char: "\<not> is_space (b64_char n)" if "n < 64" for n
  proof -
    have "43 \<le> byte_of (b64_char n)" using that unfolding byte_of_b64 by auto
    then show ?thesis by (simp add: is_space_def Let_def)
  qed
  have pad: "\<not> is_space (CHR ''='')" by code_simp
  show "\<forall>b\<in>set bs. b < 256 \<Longrightarrow> \<forall>c\<in>set (b64_bytes bs). \<not> is_space c"
  proof (induction bs rule: b64_bytes.induct)
    case (2 a)
    then show ?case using b64_parts [of a 0 0] char pad by simp
  next
    case (3 a b)
    then show ?case using b64_parts [of a b 0] char pad by simp
  next
    case (4 a b c r)
    then show ?case using b64_parts [of a b c] char by simp
  qed simp
qed

text \<open>
  The token of an export opens its file with its key, for a day and in its own namespace only, and
  the file is removed by the first download.
\<close>

lemma export_download:
  assumes "jwt_laws J" and "export_token J now secretKey fileName ns = Some tok" and "length secretKey = 32"
    and "fileName \<noteq> []" and "\<forall>c\<in>set fileName. \<not> is_space c" and "fe_stat E fileName = Inr name" and "fe_open E fileName = Inr content"
  shows "DownloadByToken J E later tok ns' =
    (if later \<le> now + 86400 \<and> ns' = ns
     then Some (Inr (name, fe_decrypt E (take 16 secretKey) (drop 16 secretKey) content), [fileName])
     else Some (Inl BadToken, []))"
proof -
  have key: "base64_EncodeToString secretKey \<noteq> []"
    using assms(3) b64_bytes_ne [of "map byte_of secretKey"] by (cases "secretKey = []") (simp_all add: base64_EncodeToString_def)
  have "\<forall>c\<in>set (base64_EncodeToString secretKey). \<not> is_space c"
    unfolding base64_EncodeToString_def by (rule b64_bytes_no_space) (simp add: byte_of_less)
  note fields = fields_two [OF this assms(5) key assms(4)]
  show ?thesis
    using ParseJWTString_NewJWTString [OF assms(1) assms(2) [unfolded export_token_def], of later ns'] assms(3,6,7) fields
    by (simp add: DownloadByToken_def)
qed

end
