(* ===== verification/Profiling.thy ===== *)
theory Profiling
  imports DynamicConfig Tokens
begin

text \<open>
  Profiling of the nodes (\<open>pkg/apiserver/profiling\<close>: \<open>model.go\<close>, \<open>pprof.go\<close>, \<open>profile.go\<close>, \<open>service.go\<close>,
  \<open>router.go\<close>): task groups, their tasks, the loop of the service and the goroutines it starts.

  The state is the rows of the local store, the task objects that goroutines share, the map of
  live tasks, and the goroutine of each group that waits for its tasks. A step is one iteration of
  the loop, the run of one task, the end of the wait of a group, or a request to delete a group.
  What the file system, the nodes and the store answer are arguments of the steps. An error keeps
  its type and text.
\<close>

section \<open>\<open>model.go\<close>\<close>

datatype ProfState = ProfError | ProfRunning | ProfFinish | ProfPartialFinish | ProfSkipped

text \<open>\<open>RawDataNone\<close> is the empty string of a task that has not finished.\<close>

datatype TaskRawDataType = RawDataNone | RawDataTypeProtobuf | RawDataTypeText

type_synonym TaskProfilingType = string

definition ProfilingTypeCPU :: TaskProfilingType where "ProfilingTypeCPU = ''cpu''"
definition ProfilingTypeHeap :: TaskProfilingType where "ProfilingTypeHeap = ''heap''"
definition ProfilingTypeGoroutine :: TaskProfilingType where "ProfilingTypeGoroutine = ''goroutine''"
definition ProfilingTypeMutex :: TaskProfilingType where "ProfilingTypeMutex = ''mutex''"

definition profilingTypeMap :: "TaskProfilingType list" where
  "profilingTypeMap = [ProfilingTypeCPU, ProfilingTypeHeap, ProfilingTypeGoroutine, ProfilingTypeMutex]"

datatype prof_error =
    ErrIgnoredRequest string
  | ErrTimeout
  | ErrUnsupportedProfilingType
  | ErrUnsupportedProfilingTarget string
  | ProfPlain string
  | ProfBadRequest string

record ProfTask =
  pt_ID :: nat
  pt_TaskGroupID :: nat
  pt_State :: ProfState
  pt_Target :: RequestTargetNode
  FilePath :: string
  pt_Error :: "prof_error option"
  pt_StartedAt :: int
  RawDataType :: TaskRawDataType
  ProfilingType :: TaskProfilingType

record ProfGroup =
  pg_ID :: nat
  pg_State :: ProfState
  ProfileDurationSecs :: u64
  pg_TargetStats :: RequestTargetStatistics
  pg_StartedAt :: int
  RequstedProfilingTypes :: "TaskProfilingType list"

record StartRequest =
  Targets :: "RequestTargetNode list"
  DurationSecs :: u64
  RequstedTypes :: "TaskProfilingType list"

definition NewTask :: "int \<Rightarrow> ProfGroup \<Rightarrow> RequestTargetNode \<Rightarrow> TaskProfilingType \<Rightarrow> ProfTask" where
  "NewTask now taskGroup target profilingType =
     \<lparr>pt_ID = 0, pt_TaskGroupID = pg_ID taskGroup, pt_State = ProfRunning, pt_Target = target, FilePath = '''',
      pt_Error = None, pt_StartedAt = now, RawDataType = RawDataNone, ProfilingType = profilingType\<rparr>"

definition NewTaskGroup :: "int \<Rightarrow> u64 \<Rightarrow> RequestTargetStatistics \<Rightarrow> TaskProfilingType list \<Rightarrow> ProfGroup" where
  "NewTaskGroup now profileDurationSecs stats requestedProfilingTypes =
     \<lparr>pg_ID = 0, pg_State = ProfRunning, ProfileDurationSecs = profileDurationSecs, pg_TargetStats = stats,
      pg_StartedAt = now, RequstedProfilingTypes = requestedProfilingTypes\<rparr>"

section \<open>\<open>pprof.go\<close> and \<open>profile.go\<close>\<close>

text \<open>The request and the file of a profile; the default of the switch leaves all three empty.\<close>

definition pprof_request :: "u64 \<Rightarrow> TaskProfilingType \<Rightarrow> string \<times> TaskRawDataType \<times> string" where
  "pprof_request duration profilingType =
     (if profilingType = ProfilingTypeCPU then
        (''/debug/pprof/profile?seconds='' @ dec_string (sint duration), RawDataTypeProtobuf, ''*.proto'')
      else if profilingType = ProfilingTypeHeap then (''/debug/pprof/heap'', RawDataTypeProtobuf, ''*.proto'')
      else if profilingType = ProfilingTypeGoroutine then (''/debug/pprof/goroutine?debug=1'', RawDataTypeText, ''*.txt'')
      else if profilingType = ProfilingTypeMutex then (''/debug/pprof/mutex?debug=1'', RawDataTypeText, ''*.txt'')
      else ('''', RawDataNone, ''''))"

type_synonym profileFetcher = "string \<Rightarrow> int \<Rightarrow> string \<Rightarrow> string + string"

text \<open>The clients of the four kinds of nodes and the temporary files.\<close>

record fetch_env =
  fe_tikv :: profileFetcher
  fe_tiflash :: profileFetcher
  fe_tidb :: profileFetcher
  fe_pd :: profileFetcher
  fe_TempFile :: "string \<Rightarrow> string + string"
  fe_Write :: "string \<Rightarrow> string \<Rightarrow> string option"

definition FetchAndWriteToFile ::
  "fetch_env \<Rightarrow> profileFetcher \<Rightarrow> RequestTargetNode \<Rightarrow> u64 \<Rightarrow> string \<Rightarrow> TaskProfilingType \<Rightarrow>
   string + string \<times> TaskRawDataType" where
  "FetchAndWriteToFile E fetch target duration fileNameWithoutExt profilingType =
     (let (url, profilingRawDataType, fileExtenstion) = pprof_request duration profilingType in
      case fe_TempFile E (fileNameWithoutExt @ ''_'' @ fileExtenstion) of
        Inl err \<Rightarrow> Inl (''failed to create tmpfile to write profile: '' @ err)
      | Inr tmpfile \<Rightarrow>
          (case fetch (IP target) (Port target) url of
             Inl err \<Rightarrow> Inl (''failed to fetch profile with '' @ fileExtenstion @ '' format: '' @ err)
           | Inr resp \<Rightarrow>
               (case fe_Write E tmpfile resp of
                  Some err \<Rightarrow> Inl (''failed to write profile: '' @ err)
                | None \<Rightarrow> Inr (tmpfile, profilingRawDataType))))"

definition fetchPprof ::
  "fetch_env \<Rightarrow> profileFetcher \<Rightarrow> RequestTargetNode \<Rightarrow> u64 \<Rightarrow> string \<Rightarrow> TaskProfilingType \<Rightarrow>
   prof_error + string \<times> TaskRawDataType" where
  "fetchPprof E fetch target duration fileNameWithoutExt profilingType =
     (case FetchAndWriteToFile E fetch target duration fileNameWithoutExt profilingType of
        Inl err \<Rightarrow> Inl (ProfPlain (''failed to fetch and write to temp file: '' @ err))
      | Inr r \<Rightarrow> Inr r)"

definition profileAndWritePprof ::
  "fetch_env \<Rightarrow> RequestTargetNode \<Rightarrow> string \<Rightarrow> u64 \<Rightarrow> TaskProfilingType \<Rightarrow> prof_error + string \<times> TaskRawDataType" where
  "profileAndWritePprof E target fileNameWithoutExt profileDurationSecs profilingType =
     (if rt_Kind target = NodeKindTiKV then
        (if profilingType \<noteq> ProfilingTypeCPU then Inl ErrUnsupportedProfilingType
         else fetchPprof E (fe_tikv E) target profileDurationSecs fileNameWithoutExt profilingType)
      else if rt_Kind target = NodeKindTiFlash then
        (if profilingType \<noteq> ProfilingTypeCPU then Inl ErrUnsupportedProfilingType
         else fetchPprof E (fe_tiflash E) target profileDurationSecs fileNameWithoutExt profilingType)
      else if rt_Kind target = NodeKindTiDB then
        fetchPprof E (fe_tidb E) target profileDurationSecs fileNameWithoutExt profilingType
      else if rt_Kind target = NodeKindPD then
        fetchPprof E (fe_pd E) target profileDurationSecs fileNameWithoutExt profilingType
      else Inl (ErrUnsupportedProfilingTarget (node_String target)))"

text \<open>\<open>Task.run\<close> up to the save of the row, which is the last thing it does on every path.\<close>

definition prof_task_run :: "fetch_env \<Rightarrow> u64 \<Rightarrow> ProfTask \<Rightarrow> ProfTask" where
  "prof_task_run E duration t =
     (let fileNameWithoutExt = ProfilingType t @ ''_'' @ FileName (pt_Target t) in
      case profileAndWritePprof E (pt_Target t) fileNameWithoutExt duration (ProfilingType t) of
        Inl err \<Rightarrow>
          (case err of
             ErrUnsupportedProfilingType \<Rightarrow> t\<lparr>pt_State := ProfSkipped\<rparr>
           | _ \<Rightarrow> t\<lparr>pt_Error := Some err, pt_State := ProfError\<rparr>)
      | Inr (protoFilePath, rawDataType) \<Rightarrow>
          t\<lparr>FilePath := protoFilePath, pt_State := ProfFinish, RawDataType := rawDataType\<rparr>)"

section \<open>The store and the service\<close>

text \<open>
  \<open>ps_objs\<close> are the task objects in the order of their creation; the map of live tasks and the
  waiting goroutines refer to them by their place. \<open>ps_watch\<close> are the goroutines that wait: the
  group object and its tasks.
\<close>

record prof_state =
  ps_groups :: "ProfGroup list"
  ps_tasks :: "ProfTask list"
  ps_next_group :: nat
  ps_next_task :: nat
  ps_objs :: "ProfTask list"
  ps_live :: "nat \<rightharpoonup> nat"
  ps_cancelled :: "nat list"
  ps_watch :: "(ProfGroup \<times> nat list) list"
  lastTaskGroup :: "ProfGroup option"
  ps_dc :: "DynamicConfig option"
  ps_timer :: "u64 option"

text \<open>
  The store numbers new rows. \<open>Save\<close> of a row without a number creates it, \<open>Save\<close> of a row that is
  there replaces it; whether \<open>Save\<close> of a row that is gone creates it again is a parameter. A
  statement that fails changes nothing.
\<close>

definition create_task :: "bool \<Rightarrow> ProfTask \<Rightarrow> prof_state \<Rightarrow> ProfTask \<times> prof_state" where
  "create_task ok t s =
     (if \<not> ok then (t, s) else
      let t = t\<lparr>pt_ID := ps_next_task s\<rparr>
      in (t, s\<lparr>ps_tasks := ps_tasks s @ [t], ps_next_task := ps_next_task s + 1\<rparr>))"

definition save_task :: "bool \<Rightarrow> bool \<Rightarrow> ProfTask \<Rightarrow> prof_state \<Rightarrow> ProfTask \<times> prof_state" where
  "save_task upsert ok t s =
     (if \<not> ok then (t, s)
      else if pt_ID t = 0 then create_task True t s
      else if pt_ID t \<in> pt_ID ` set (ps_tasks s) then
        (t, s\<lparr>ps_tasks := map (\<lambda>r. if pt_ID r = pt_ID t then t else r) (ps_tasks s)\<rparr>)
      else if upsert then (t, s\<lparr>ps_tasks := ps_tasks s @ [t]\<rparr>)
      else (t, s))"

definition create_group :: "ProfGroup \<Rightarrow> prof_state \<Rightarrow> ProfGroup \<times> prof_state" where
  "create_group g s =
     (let g = g\<lparr>pg_ID := ps_next_group s\<rparr>
      in (g, s\<lparr>ps_groups := ps_groups s @ [g], ps_next_group := ps_next_group s + 1\<rparr>))"

definition save_group :: "bool \<Rightarrow> bool \<Rightarrow> ProfGroup \<Rightarrow> prof_state \<Rightarrow> prof_state" where
  "save_group upsert ok g s =
     (if \<not> ok then s
      else if pg_ID g \<in> pg_ID ` set (ps_groups s) then
        s\<lparr>ps_groups := map (\<lambda>r. if pg_ID r = pg_ID g then g else r) (ps_groups s)\<rparr>
      else if upsert then s\<lparr>ps_groups := ps_groups s @ [g]\<rparr>
      else s)"

text \<open>What happens while a group is started: the time, and which statements succeed.\<close>

record start_env =
  se_now :: int
  se_group_ok :: bool
  se_task_ok :: "nat \<Rightarrow> bool"

text \<open>The tasks of a group, each of which is stored; \<open>None\<close> when a type is not supported.\<close>

fun start_tasks ::
  "start_env \<Rightarrow> ProfGroup \<Rightarrow> (RequestTargetNode \<times> TaskProfilingType) list \<Rightarrow> nat list \<Rightarrow> prof_state \<Rightarrow>
   prof_state \<times> nat list option" where
  "start_tasks V taskGroup [] tasks s = (s, Some tasks)"
| "start_tasks V taskGroup ((target, profilingType) # rest) tasks s =
     (if profilingType \<notin> set profilingTypeMap then (s, None) else
      let k = length (ps_objs s);
          (t, s) = create_task (se_task_ok V (length tasks)) (NewTask (se_now V) taskGroup target profilingType) s
      in start_tasks V taskGroup rest (tasks @ [k])
           (s\<lparr>ps_objs := ps_objs s @ [t], ps_live := (ps_live s)(pt_ID t \<mapsto> k)\<rparr>))"

definition startGroup :: "start_env \<Rightarrow> StartRequest \<Rightarrow> prof_state \<Rightarrow> prof_state \<times> (prof_error + ProfGroup)" where
  "startGroup V req s =
     (if \<not> se_group_ok V then (s, Inl (ProfPlain ''failed to start task group'')) else
      let (taskGroup, s) = create_group (NewTaskGroup (se_now V) (DurationSecs req)
            (NewRequestTargetStatisticsFromArray (Targets req)) (RequstedTypes req)) s
      in case start_tasks V taskGroup (List.product (Targets req) (RequstedTypes req)) [] s of
           (s, None) \<Rightarrow> (s, Inl ErrUnsupportedProfilingType)
         | (s, Some tasks) \<Rightarrow> (s\<lparr>ps_watch := ps_watch s @ [(taskGroup, tasks)]\<rparr>, Inr taskGroup))"

text \<open>\<open>cancelGroup\<close>: it cancels the live tasks, then waits until no row is running.\<close>

definition running_rows :: "nat \<Rightarrow> prof_state \<Rightarrow> ProfTask list" where
  "running_rows taskGroupID s =
     filter (\<lambda>t. pt_TaskGroupID t = taskGroupID \<and> pt_State t = ProfRunning) (ps_tasks s)"

definition cancel_tasks :: "nat \<Rightarrow> prof_state \<Rightarrow> prof_state" where
  "cancel_tasks taskGroupID s =
     s\<lparr>ps_cancelled := ps_cancelled s @ List.map_filter (\<lambda>t. ps_live s (pt_ID t)) (running_rows taskGroupID s)\<rparr>"

definition cancel_returns :: "nat \<Rightarrow> prof_state \<Rightarrow> bool" where
  "cancel_returns taskGroupID s \<longleftrightarrow> running_rows taskGroupID s = []"

text \<open>The result is \<open>None\<close> while it waits for the tasks of the last group.\<close>

definition exclusiveExecute ::
  "start_env \<Rightarrow> StartRequest \<Rightarrow> prof_state \<Rightarrow> prof_state \<times> (prof_error + ProfGroup) option" where
  "exclusiveExecute V req s =
     (case lastTaskGroup s of
        None \<Rightarrow> (case startGroup V req s of (s, r) \<Rightarrow> (s, Some r))
      | Some g \<Rightarrow>
          let s = cancel_tasks (pg_ID g) s in
          if \<not> cancel_returns (pg_ID g) s then (s, None)
          else (case startGroup V req s of (s, r) \<Rightarrow> (s, Some r)))"

text \<open>The request of the automatic collection and its timer; it asks for no type of profile.\<close>

definition newAutoRequest :: "prof_state \<Rightarrow> prof_state \<times> StartRequest option" where
  "newAutoRequest s =
     (case ps_dc s of
        None \<Rightarrow> (s\<lparr>ps_timer := None\<rparr>, None)
      | Some dc \<Rightarrow>
          let p = Profiling dc in
          if AutoCollectionDurationSecs p = 0 then (s\<lparr>ps_timer := None\<rparr>, None)
          else (s\<lparr>ps_timer := Some ((AutoCollectionIntervalSecs p + AutoCollectionDurationSecs p) * 1000000000)\<rparr>,
                Some \<lparr>Targets = AutoCollectionTargets p, DurationSecs = AutoCollectionDurationSecs p, RequstedTypes = []\<rparr>))"

text \<open>\<open>None\<close> is a panic: the configuration is a pointer that is nil before the first one arrives.\<close>

definition handleRequest ::
  "start_env \<Rightarrow> StartRequest \<Rightarrow> prof_state \<Rightarrow> (prof_state \<times> (prof_error + ProfGroup) option) option" where
  "handleRequest V req s =
     map_option (\<lambda>dc.
       if 0 < AutoCollectionDurationSecs (Profiling dc) then
         (s, Some (Inl (ErrIgnoredRequest ''automatic collection is enabled'')))
       else exclusiveExecute V req s)
     (ps_dc s)"

text \<open>The end of the wait of a group.\<close>

definition group_result :: "ProfState list \<Rightarrow> ProfState" where
  "group_result states =
     (let errorTasks = length (filter (\<lambda>x. x = ProfError) states);
          finishedTasks = length (filter (\<lambda>x. x = ProfFinish) states)
      in if 0 < errorTasks then (if 0 < finishedTasks then ProfPartialFinish else ProfError) else ProfFinish)"

section \<open>Steps\<close>

datatype prof_event =
    RecvConfig DynamicConfig start_env
  | TimerFires start_env
  | RecvSession StartRequest start_env
  | TaskRuns nat fetch_env bool
  | GroupDone nat bool
  | DeleteGroup nat

definition auto_collect :: "start_env \<Rightarrow> prof_state \<Rightarrow> prof_state option" where
  "auto_collect V s =
     (case newAutoRequest s of
        (s, None) \<Rightarrow> Some s
      | (s, Some req) \<Rightarrow> (case exclusiveExecute V req s of (s, None) \<Rightarrow> None | (s, Some _) \<Rightarrow> Some s))"

definition group_of_task :: "nat \<Rightarrow> prof_state \<Rightarrow> ProfGroup option" where
  "group_of_task k s = map_option fst (List.find (\<lambda>w. k \<in> set (snd w)) (ps_watch s))"

text \<open>
  A step, if it is enabled and does not wait or panic. A task runs once, and is then taken from the
  live ones. A group can be deleted once \<open>cancelGroup\<close> returns.
\<close>

fun prof_next :: "bool \<Rightarrow> prof_event \<Rightarrow> prof_state \<Rightarrow> prof_state option" where
  "prof_next upsert (RecvConfig dc V) s = auto_collect V (s\<lparr>ps_dc := Some dc\<rparr>)"
| "prof_next upsert (TimerFires V) s = (if ps_timer s = None then None else auto_collect V s)"
| "prof_next upsert (RecvSession req V) s =
     (case handleRequest V req s of None \<Rightarrow> None | Some (s, None) \<Rightarrow> None | Some (s, Some _) \<Rightarrow> Some s)"
| "prof_next upsert (TaskRuns k E ok) s =
     (case group_of_task k s of None \<Rightarrow> None | Some g \<Rightarrow>
      if pt_State (ps_objs s ! k) \<noteq> ProfRunning then None else
      let (t, s) = save_task upsert ok (prof_task_run E (ProfileDurationSecs g) (ps_objs s ! k)) s
      in Some (s\<lparr>ps_objs := (ps_objs s)[k := t], ps_live := (ps_live s)(pt_ID t := None)\<rparr>))"
| "prof_next upsert (GroupDone i ok) s =
     (if length (ps_watch s) \<le> i then None else
      let (taskGroup, tasks) = ps_watch s ! i; states = map (\<lambda>k. pt_State (ps_objs s ! k)) tasks in
      if ProfRunning \<in> set states then None else
      Some (save_group upsert ok (taskGroup\<lparr>pg_State := group_result states\<rparr>)
              (s\<lparr>ps_watch := take i (ps_watch s) @ drop (i + 1) (ps_watch s)\<rparr>)))"
| "prof_next upsert (DeleteGroup taskGroupID) s =
     (if \<not> cancel_returns taskGroupID s then None else
      Some ((cancel_tasks taskGroupID s)\<lparr>
        ps_tasks := filter (\<lambda>t. pt_TaskGroupID t \<noteq> taskGroupID) (ps_tasks s),
        ps_groups := filter (\<lambda>g. pg_ID g \<noteq> taskGroupID) (ps_groups s)\<rparr>))"

fun prof_run :: "bool \<Rightarrow> prof_event list \<Rightarrow> prof_state \<Rightarrow> prof_state option" where
  "prof_run upsert [] s = Some s"
| "prof_run upsert (e # es) s =
     (case prof_next upsert e s of None \<Rightarrow> None | Some s \<Rightarrow> prof_run upsert es s)"

text \<open>The service after it started on a store with no running row; the first number is 1.\<close>

definition prof_init :: prof_state where
  "prof_init = \<lparr>ps_groups = [], ps_tasks = [], ps_next_group = 1, ps_next_task = 1, ps_objs = [], ps_live = Map.empty,
     ps_cancelled = [], ps_watch = [], lastTaskGroup = None, ps_dc = None, ps_timer = None\<rparr>"

section \<open>\<open>router.go\<close>\<close>

text \<open>The request of \<open>handleStartGroup\<close> as it is sent to the loop.\<close>

definition start_request :: "StartRequest option \<Rightarrow> prof_error + StartRequest" where
  "start_request parsed =
     (case parsed of
        None \<Rightarrow> Inl (ProfBadRequest '''')
      | Some req \<Rightarrow>
          if length (Targets req) = 0 then Inl (ProfBadRequest ''Expect at least 1 target'') else
          let req = (if DurationSecs req = 0 then req\<lparr>DurationSecs := DefaultProfilingAutoCollectionDurationSecs\<rparr> else req);
              req = (if MaxProfilingAutoCollectionDurationSecs < DurationSecs req
                then req\<lparr>DurationSecs := MaxProfilingAutoCollectionDurationSecs\<rparr> else req)
          in Inr req)"

text \<open>What it answers: the session's result, or a timeout when the loop is not done within 5 seconds.\<close>

definition start_reply :: "(prof_error + ProfGroup) option \<Rightarrow> prof_error + ProfGroup" where
  "start_reply session = (case session of None \<Rightarrow> Inl ErrTimeout | Some r \<Rightarrow> r)"

definition getGroupList :: "prof_state \<Rightarrow> ProfGroup list" where
  "getGroupList s = rev (sort_key pg_ID (ps_groups s))"

text \<open>\<open>Find\<close> leaves the zero group when there is no row.\<close>

definition zero_group :: ProfGroup where
  "zero_group = \<lparr>pg_ID = 0, pg_State = ProfError, ProfileDurationSecs = 0,
     pg_TargetStats = \<lparr>NumTiKVNodes = 0, NumTiDBNodes = 0, NumPDNodes = 0, NumTiFlashNodes = 0\<rparr>, pg_StartedAt = 0,
     RequstedProfilingTypes = []\<rparr>"

definition getGroupDetail :: "int option \<Rightarrow> prof_state \<Rightarrow> prof_error + ProfGroup \<times> ProfTask list" where
  "getGroupDetail taskGroupID s =
     (case taskGroupID of
        None \<Rightarrow> Inl (ProfBadRequest '''')
      | Some n \<Rightarrow>
          Inr (case List.find (\<lambda>g. int (pg_ID g) = n) (ps_groups s) of None \<Rightarrow> zero_group | Some g \<Rightarrow> g,
               filter (\<lambda>t. int (pt_TaskGroupID t) = n) (ps_tasks s)))"

definition getActionToken :: "jwt_ops \<Rightarrow> int \<Rightarrow> string \<Rightarrow> string \<Rightarrow> string option" where
  "getActionToken J now ident action = NewJWTString J now (''profiling/'' @ action) ident"

text \<open>The files of a group that a token of the right kind names.\<close>

definition download_files :: "jwt_ops \<Rightarrow> int \<Rightarrow> string \<Rightarrow> prof_state \<Rightarrow> prof_error + string list" where
  "download_files J now token s =
     (case ParseJWTString J now ''profiling/group_download'' token of
        None \<Rightarrow> Inl (ProfBadRequest '''')
      | Some str \<Rightarrow>
          (case ParseInt str of
             None \<Rightarrow> Inl (ProfBadRequest '''')
           | Some taskGroupID \<Rightarrow>
               Inr (map FilePath (filter (\<lambda>t. int (pt_TaskGroupID t) = taskGroupID \<and> pt_State t = ProfFinish) (ps_tasks s)))))"

text \<open>The first finished task of a number, for \<open>downloadSingle\<close> and \<open>viewSingle\<close>.\<close>

definition single_task :: "jwt_ops \<Rightarrow> string \<Rightarrow> int \<Rightarrow> string \<Rightarrow> prof_state \<Rightarrow> prof_error + ProfTask" where
  "single_task J issuer now token s =
     (case ParseJWTString J now issuer token of
        None \<Rightarrow> Inl (ProfBadRequest '''')
      | Some str \<Rightarrow>
          (case ParseInt str of
             None \<Rightarrow> Inl (ProfBadRequest '''')
           | Some taskID \<Rightarrow>
               (case List.find (\<lambda>t. int (pt_ID t) = taskID \<and> pt_State t = ProfFinish) (ps_tasks s) of
                  None \<Rightarrow> Inl (ProfPlain ''record not found'')
                | Some task \<Rightarrow> Inr task)))"

definition downloadSingle :: "jwt_ops \<Rightarrow> int \<Rightarrow> string \<Rightarrow> prof_state \<Rightarrow> prof_error + string list" where
  "downloadSingle J now token s =
     (case single_task J ''profiling/single_download'' now token s of Inl e \<Rightarrow> Inl e | Inr task \<Rightarrow> Inr [FilePath task])"

text \<open>
  The archive: what opening and reading a file gives is an argument; the entries that were written
  when a file fails stay written.
\<close>

fun writeZipFromFiles :: "(string \<Rightarrow> string + string \<times> string) \<Rightarrow> string list \<Rightarrow> (string \<times> string) list \<times> string option" where
  "writeZipFromFiles open_file [] = ([], None)"
| "writeZipFromFiles open_file (file # files) =
     (case open_file file of
        Inl err \<Rightarrow> ([], Some err)
      | Inr entry \<Rightarrow> (case writeZipFromFiles open_file files of (es, r) \<Rightarrow> (entry # es, r)))"

text \<open>The content type and content of a finished task; \<open>to_svg\<close> draws a profile.\<close>

definition view_content ::
  "(string \<Rightarrow> string + string) \<Rightarrow> TaskRawDataType \<Rightarrow> string \<Rightarrow> string \<Rightarrow> prof_error + string \<times> string" where
  "view_content to_svg rawDataType outputType content =
     (case rawDataType of
        RawDataTypeProtobuf \<Rightarrow>
          if outputType = ''graph'' then
            (case to_svg content of Inl err \<Rightarrow> Inl (ProfPlain err) | Inr svgContent \<Rightarrow> Inr (''image/svg+xml'', svgContent))
          else if outputType = ''protobuf'' then Inr (''application/protobuf'', content)
          else Inl (ProfBadRequest (''Cannot output protobuf as '' @ outputType))
      | RawDataTypeText \<Rightarrow>
          if outputType = ''text'' then Inr (''text/plain'', content)
          else Inl (ProfBadRequest (''Cannot output text as '' @ outputType))
      | RawDataNone \<Rightarrow> Inr (''image/svg+xml'', content))"

definition viewSingle ::
  "jwt_ops \<Rightarrow> (string \<Rightarrow> string + string) \<Rightarrow> (string \<Rightarrow> string + string) \<Rightarrow> int \<Rightarrow> string \<Rightarrow> string \<Rightarrow> prof_state \<Rightarrow>
   prof_error + string \<times> string" where
  "viewSingle J read_file to_svg now token outputType s =
     (case single_task J ''profiling/single_view'' now token s of Inl e \<Rightarrow> Inl e | Inr task \<Rightarrow>
     (case read_file (FilePath task) of Inl err \<Rightarrow> Inl (ProfPlain err) | Inr content \<Rightarrow>
      view_content to_svg (RawDataType task) outputType content))"

text \<open>\<open>setDynamicConfig\<close>: what is put in place by \<open>Modify\<close>.\<close>

definition set_profiling :: "ProfilingConfig \<Rightarrow> DynamicConfig \<Rightarrow> DynamicConfig" where
  "set_profiling req dc = dc\<lparr>Profiling := req\<rparr>"

end
