(* ===== verification/ProfilingProps.thy ===== *)
theory ProfilingProps
  imports Profiling
begin

text \<open>
  Task groups of the profiling service finish when nothing goes wrong with the requests and the
  store, and a request with an unsupported type leaves a group that never does.
\<close>

section \<open>What the operations change\<close>

lemma run_state:
  "pt_ID (prof_task_run E d t) = pt_ID t" "pt_TaskGroupID (prof_task_run E d t) = pt_TaskGroupID t"
  "pt_State (prof_task_run E d t) \<noteq> ProfRunning"
  unfolding prof_task_run_def Let_def by (auto split: sum.split prof_error.split)

lemma start_tasks_effect:
  "start_tasks V g ps ks s = (s', r) \<Longrightarrow>
   \<exists>objs rows. s' = s\<lparr>ps_objs := ps_objs s @ objs, ps_tasks := ps_tasks s @ rows, ps_next_task := ps_next_task s',
       ps_live := ps_live s'\<rparr> \<and>
     ps_next_task s \<le> ps_next_task s' \<and>
     (\<forall>t\<in>set objs. pt_State t = ProfRunning \<and> pt_TaskGroupID t = pg_ID g \<and>
        (pt_ID t = 0 \<or> ps_next_task s \<le> pt_ID t) \<and> (0 < ps_next_task s \<longrightarrow> pt_ID t < ps_next_task s')) \<and>
     ((\<forall>i. se_task_ok V i) \<longrightarrow> rows = objs \<and> (\<forall>t\<in>set objs. ps_next_task s \<le> pt_ID t)) \<and>
     (\<forall>ks'. r = Some ks' \<longrightarrow> ks' = ks @ [length (ps_objs s)..<length (ps_objs s')])"
proof (induction V g ps ks s rule: start_tasks.induct)
  case (1 V g ks s)
  then show ?case by (intro exI [of _ "[]"]) auto
next
  case (2 V g target ty rest ks s)
  show ?case
  proof (cases "ty \<in> set profilingTypeMap")
    case False
    then show ?thesis using 2 by (intro exI [of _ "[]"]) auto
  next
    case True
    obtain t s1 where c: "create_task (se_task_ok V (length ks)) (NewTask (se_now V) g target ty) s = (t, s1)"
      by fastforce
    define s2 where "s2 = s1\<lparr>ps_objs := ps_objs s1 @ [t], ps_live := (ps_live s1)(pt_ID t \<mapsto> length (ps_objs s))\<rparr>"
    have run: "start_tasks V g rest (ks @ [length (ps_objs s)]) s2 = (s', r)"
      using 2(2) True c by (simp add: s2_def Let_def)
    have t: "pt_State t = ProfRunning" "pt_TaskGroupID t = pg_ID g" "pt_ID t = (if se_task_ok V (length ks) then ps_next_task s else 0)"
      and s1: "s1 = (if se_task_ok V (length ks) then s\<lparr>ps_tasks := ps_tasks s @ [t], ps_next_task := ps_next_task s + 1\<rparr> else s)"
      using c by (auto simp: create_task_def NewTask_def Let_def split: if_splits)
    obtain objs rows where e: "s' = s2\<lparr>ps_objs := ps_objs s2 @ objs, ps_tasks := ps_tasks s2 @ rows, ps_next_task := ps_next_task s',
         ps_live := ps_live s'\<rparr>" "ps_next_task s2 \<le> ps_next_task s'"
      "\<forall>t\<in>set objs. pt_State t = ProfRunning \<and> pt_TaskGroupID t = pg_ID g \<and> (pt_ID t = 0 \<or> ps_next_task s2 \<le> pt_ID t) \<and>
         (0 < ps_next_task s2 \<longrightarrow> pt_ID t < ps_next_task s')"
      "(\<forall>i. se_task_ok V i) \<longrightarrow> rows = objs \<and> (\<forall>t\<in>set objs. ps_next_task s2 \<le> pt_ID t)"
      "\<forall>ks'. r = Some ks' \<longrightarrow> ks' = (ks @ [length (ps_objs s)]) @ [length (ps_objs s2)..<length (ps_objs s')]"
      using 2(1) [OF _ refl c [symmetric] refl] True run by (auto simp: s2_def)
    let ?rows = "(if se_task_ok V (length ks) then [t] else []) @ rows"
    have len: "length (ps_objs s2) = Suc (length (ps_objs s))" by (simp add: s2_def s1)
    moreover have "length (ps_objs s2) \<le> length (ps_objs s')" by (subst e(1)) simp
    ultimately have upt: "[length (ps_objs s)..<length (ps_objs s')] = length (ps_objs s) # [length (ps_objs s2)..<length (ps_objs s')]"
      by (simp add: upt_conv_Cons)
    have next2: "ps_next_task s \<le> ps_next_task s2" "0 < ps_next_task s \<longrightarrow> pt_ID t < ps_next_task s2"
      by (auto simp: s2_def s1 t(3))
    have "s' = s\<lparr>ps_objs := ps_objs s @ t # objs, ps_tasks := ps_tasks s @ ?rows, ps_next_task := ps_next_task s',
         ps_live := ps_live s'\<rparr>"
      by (subst e(1)) (simp add: s2_def s1)
    moreover have "\<forall>u\<in>set (t # objs). pt_State u = ProfRunning \<and> pt_TaskGroupID u = pg_ID g \<and>
        (pt_ID u = 0 \<or> ps_next_task s \<le> pt_ID u) \<and> (0 < ps_next_task s \<longrightarrow> pt_ID u < ps_next_task s')"
      using e(2,3) t next2 by fastforce
    moreover have "(\<forall>i. se_task_ok V i) \<longrightarrow> ?rows = t # objs \<and> (\<forall>u\<in>set (t # objs). ps_next_task s \<le> pt_ID u)"
      using e(4) t(3) next2(1) by fastforce
    ultimately show ?thesis using e(2,5) upt next2(1)
      by (intro exI [of _ "t # objs"] exI [of _ ?rows]) auto
  qed
qed

lemma start_tasks_None:
  "snd (start_tasks V g ps ks s) = None \<longleftrightarrow> (\<exists>p\<in>set ps. snd p \<notin> set profilingTypeMap)"
  by (induction V g ps ks s rule: start_tasks.induct) (auto simp: Let_def split: prod.split)

text \<open>Starting a group adds rows and objects, and a goroutine unless a type is not supported.\<close>

lemma startGroup_effect:
  assumes "startGroup V req s = (s', r)" and "0 < ps_next_task s"
  shows "s' = s \<and> \<not> se_group_ok V \<or>
    (\<exists>g objs rows watch. se_group_ok V \<and> pg_ID g = ps_next_group s \<and> pg_State g = ProfRunning \<and>
      s' = s\<lparr>ps_groups := ps_groups s @ [g], ps_next_group := ps_next_group s + 1, ps_objs := ps_objs s @ objs,
             ps_tasks := ps_tasks s @ rows, ps_next_task := ps_next_task s', ps_live := ps_live s',
             ps_watch := ps_watch s @ watch\<rparr> \<and>
      ps_next_task s \<le> ps_next_task s' \<and>
      (\<forall>t\<in>set objs. pt_State t = ProfRunning \<and> pt_TaskGroupID t = pg_ID g \<and>
        (pt_ID t = 0 \<or> ps_next_task s \<le> pt_ID t) \<and> pt_ID t < ps_next_task s') \<and>
      ((\<forall>i. se_task_ok V i) \<longrightarrow> rows = objs \<and> (\<forall>t\<in>set objs. ps_next_task s \<le> pt_ID t)) \<and>
      watch = (if \<forall>p\<in>set (List.product (Targets req) (RequstedTypes req)). snd p \<in> set profilingTypeMap
               then [(g, [length (ps_objs s)..<length (ps_objs s')])] else []))"
proof (cases "se_group_ok V")
  case True
  obtain g s1 where g: "create_group (NewTaskGroup (se_now V) (DurationSecs req)
        (NewRequestTargetStatisticsFromArray (Targets req)) (RequstedTypes req)) s = (g, s1)" by fastforce
  then have s1: "pg_ID g = ps_next_group s" "pg_State g = ProfRunning"
      "s1 = s\<lparr>ps_groups := ps_groups s @ [g], ps_next_group := ps_next_group s + 1\<rparr>"
    by (auto simp: create_group_def NewTaskGroup_def Let_def)
  let ?ps = "List.product (Targets req) (RequstedTypes req)"
  obtain s2 q where q: "start_tasks V g ?ps [] s1 = (s2, q)" by fastforce
  have none: "q = None \<longleftrightarrow> (\<exists>p\<in>set ?ps. snd p \<notin> set profilingTypeMap)"
    using start_tasks_None [of V g ?ps "[]" s1] q by simp
  have s': "s' = (case q of None \<Rightarrow> s2 | Some ks \<Rightarrow> s2\<lparr>ps_watch := ps_watch s2 @ [(g, ks)]\<rparr>)"
    using assms(1) True g q by (auto simp: startGroup_def split: option.splits)
  obtain objs rows where e: "s2 = s1\<lparr>ps_objs := ps_objs s1 @ objs, ps_tasks := ps_tasks s1 @ rows, ps_next_task := ps_next_task s2,
       ps_live := ps_live s2\<rparr>" "ps_next_task s1 \<le> ps_next_task s2"
    "\<forall>t\<in>set objs. pt_State t = ProfRunning \<and> pt_TaskGroupID t = pg_ID g \<and> (pt_ID t = 0 \<or> ps_next_task s1 \<le> pt_ID t) \<and>
       (0 < ps_next_task s1 \<longrightarrow> pt_ID t < ps_next_task s2)"
    "(\<forall>i. se_task_ok V i) \<longrightarrow> rows = objs \<and> (\<forall>t\<in>set objs. ps_next_task s1 \<le> pt_ID t)"
    "\<forall>ks'. q = Some ks' \<longrightarrow> ks' = [] @ [length (ps_objs s1)..<length (ps_objs s2)]"
    using start_tasks_effect [OF q] by blast
  let ?watch = "case q of None \<Rightarrow> [] | Some ks \<Rightarrow> [(g, ks)]"
  have objs': "ps_objs s' = ps_objs s2" "ps_next_task s' = ps_next_task s2" "ps_live s' = ps_live s2"
    using s' by (simp_all split: option.split)
  have "s' = s2\<lparr>ps_watch := ps_watch s2 @ ?watch\<rparr>" using s' by (simp split: option.split)
  also have "\<dots> = s\<lparr>ps_groups := ps_groups s @ [g], ps_next_group := ps_next_group s + 1, ps_objs := ps_objs s @ objs,
      ps_tasks := ps_tasks s @ rows, ps_next_task := ps_next_task s2, ps_live := ps_live s2, ps_watch := ps_watch s @ ?watch\<rparr>"
    by (subst e(1), subst e(1)) (simp add: s1(3))
  finally have eq: "s' = \<dots>" .
  have "?watch = (if \<forall>p\<in>set ?ps. snd p \<in> set profilingTypeMap then [(g, [length (ps_objs s)..<length (ps_objs s')])] else [])"
    using none e(5) by (auto simp: objs' s1(3) split: option.split)
  moreover have "ps_next_task s1 = ps_next_task s" by (simp add: s1(3))
  ultimately show ?thesis
    using True s1(1,2) eq e(2,3,4) assms(2) unfolding objs'
    by (intro disjI2 exI [of _ g] exI [of _ objs] exI [of _ rows] exI [of _ ?watch]) simp
qed (use assms in \<open>simp add: startGroup_def\<close>)

text \<open>The same, field by field.\<close>

lemma startGroup_cases [consumes 2, case_names same new]:
  assumes "startGroup V req s = (s', r)" and "0 < ps_next_task s"
  obtains "s' = s" "\<not> se_group_ok V"
  | g objs rows watch where "se_group_ok V" "pg_ID g = ps_next_group s" "pg_State g = ProfRunning"
      "ps_groups s' = ps_groups s @ [g]" "ps_next_group s' = ps_next_group s + 1" "ps_objs s' = ps_objs s @ objs"
      "ps_tasks s' = ps_tasks s @ rows" "ps_watch s' = ps_watch s @ watch" "lastTaskGroup s' = lastTaskGroup s"
      "ps_next_task s \<le> ps_next_task s'"
      "\<And>t. t \<in> set objs \<Longrightarrow> pt_State t = ProfRunning \<and> pt_TaskGroupID t = pg_ID g \<and>
        (pt_ID t = 0 \<or> ps_next_task s \<le> pt_ID t) \<and> pt_ID t < ps_next_task s'"
      "(\<And>i. se_task_ok V i) \<Longrightarrow> rows = objs \<and> (\<forall>t\<in>set objs. ps_next_task s \<le> pt_ID t)"
      "watch = (if \<forall>p\<in>set (List.product (Targets req) (RequstedTypes req)). snd p \<in> set profilingTypeMap
               then [(g, [length (ps_objs s)..<length (ps_objs s) + length objs])] else [])"
proof -
  from startGroup_effect [OF assms] consider "s' = s" "\<not> se_group_ok V"
    | g objs rows watch where "se_group_ok V" "pg_ID g = ps_next_group s" "pg_State g = ProfRunning"
      and "s' = s\<lparr>ps_groups := ps_groups s @ [g], ps_next_group := ps_next_group s + 1, ps_objs := ps_objs s @ objs,
             ps_tasks := ps_tasks s @ rows, ps_next_task := ps_next_task s', ps_live := ps_live s',
             ps_watch := ps_watch s @ watch\<rparr>"
      and "ps_next_task s \<le> ps_next_task s'"
      and "\<forall>t\<in>set objs. pt_State t = ProfRunning \<and> pt_TaskGroupID t = pg_ID g \<and>
        (pt_ID t = 0 \<or> ps_next_task s \<le> pt_ID t) \<and> pt_ID t < ps_next_task s'"
      and "(\<forall>i. se_task_ok V i) \<longrightarrow> rows = objs \<and> (\<forall>t\<in>set objs. ps_next_task s \<le> pt_ID t)"
      and "watch = (if \<forall>p\<in>set (List.product (Targets req) (RequstedTypes req)). snd p \<in> set profilingTypeMap
               then [(g, [length (ps_objs s)..<length (ps_objs s')])] else [])"
    by blast
  then show thesis
  proof cases
    case 2
    note e = 2(4)
    have "ps_groups s' = ps_groups s @ [g]" "ps_next_group s' = ps_next_group s + 1" "ps_objs s' = ps_objs s @ objs"
      "ps_tasks s' = ps_tasks s @ rows" "ps_watch s' = ps_watch s @ watch" "lastTaskGroup s' = lastTaskGroup s"
      by (subst e, simp)+
    then show thesis using 2 by (intro that(2) [of g objs rows watch]) simp_all
  qed (rule that(1))
qed

section \<open>Steps\<close>

text \<open>The number of the last group is never set.\<close>

definition ids_ok :: "prof_state \<Rightarrow> bool" where
  "ids_ok s \<longleftrightarrow> lastTaskGroup s = None \<and> 0 < ps_next_group s \<and> 0 < ps_next_task s \<and>
     (\<forall>g ks. (g, ks) \<in> set (ps_watch s) \<longrightarrow> pg_ID g < ps_next_group s \<and>
       (\<forall>k\<in>set ks. k < length (ps_objs s) \<and> pt_ID (ps_objs s ! k) < ps_next_task s))"

fun start_ok :: "start_env \<Rightarrow> bool" where
  "start_ok V \<longleftrightarrow> se_group_ok V \<and> (\<forall>i. se_task_ok V i)"

text \<open>The steps of a store that works and of requests that ask for supported types only.\<close>

fun event_ok :: "prof_event \<Rightarrow> bool" where
  "event_ok (RecvConfig dc V) \<longleftrightarrow> (\<forall>i. se_task_ok V i)"
| "event_ok (TimerFires V) \<longleftrightarrow> (\<forall>i. se_task_ok V i)"
| "event_ok (RecvSession req V) \<longleftrightarrow> (\<forall>i. se_task_ok V i) \<and> set (RequstedTypes req) \<subseteq> set profilingTypeMap"
| "event_ok (TaskRuns k E ok) \<longleftrightarrow> ok"
| "event_ok (GroupDone i ok) \<longleftrightarrow> ok"
| "event_ok (DeleteGroup n) \<longleftrightarrow> True"

text \<open>The steps of the goroutines of a group.\<close>

fun is_work :: "prof_event \<Rightarrow> bool" where
  "is_work (TaskRuns k E ok) \<longleftrightarrow> ok"
| "is_work (GroupDone i ok) \<longleftrightarrow> ok"
| "is_work _ \<longleftrightarrow> False"

lemma auto_collect_cases:
  assumes "auto_collect V s = Some s'" and "lastTaskGroup s = None"
  shows "\<exists>tm. s' = s\<lparr>ps_timer := tm\<rparr> \<or>
    (\<exists>req. s' = fst (startGroup V req (s\<lparr>ps_timer := tm\<rparr>)) \<and> RequstedTypes req = [])"
proof -
  have idle: "\<exists>tm. s\<lparr>ps_timer := x\<rparr> = s\<lparr>ps_timer := tm\<rparr>" for x by blast
  show ?thesis
  proof (cases "ps_dc s")
    case None
    then show ?thesis using assms by (auto simp: auto_collect_def newAutoRequest_def)
  next
    case (Some dc)
    show ?thesis
    proof (cases "AutoCollectionDurationSecs (Profiling dc) = 0")
      case True
      then show ?thesis using assms Some by (auto simp: auto_collect_def newAutoRequest_def Let_def)
    next
      case False
      let ?tm = "Some ((AutoCollectionIntervalSecs (Profiling dc) + AutoCollectionDurationSecs (Profiling dc)) * 1000000000)"
      let ?req = "\<lparr>Targets = AutoCollectionTargets (Profiling dc), DurationSecs = AutoCollectionDurationSecs (Profiling dc), RequstedTypes = []\<rparr>"
      have "s' = fst (startGroup V ?req (s\<lparr>ps_timer := ?tm\<rparr>))"
        using assms Some False
        by (auto simp: auto_collect_def newAutoRequest_def exclusiveExecute_def Let_def split: prod.splits option.splits)
      then show ?thesis by (intro exI [of _ ?tm] disjI2 exI [of _ ?req]) simp
    qed
  qed
qed

text \<open>The steps of the loop either set the configuration and the timer only, or start one group as well.\<close>

lemma prof_next_cases [consumes 2, case_names idle start task finish delete]:
  assumes "prof_next U e s = Some s'" and "lastTaskGroup s = None"
    and "\<And>dc tm. s' = s\<lparr>ps_dc := dc, ps_timer := tm\<rparr> \<Longrightarrow> \<not> is_work e \<Longrightarrow> P"
    and "\<And>dc tm V req. s' = fst (startGroup V req (s\<lparr>ps_dc := dc, ps_timer := tm\<rparr>)) \<Longrightarrow>
       (event_ok e \<Longrightarrow> (\<forall>i. se_task_ok V i) \<and> set (RequstedTypes req) \<subseteq> set profilingTypeMap) \<Longrightarrow> \<not> is_work e \<Longrightarrow> P"
    and "\<And>k E ok g t s1. e = TaskRuns k E ok \<Longrightarrow> group_of_task k s = Some g \<Longrightarrow> pt_State (ps_objs s ! k) = ProfRunning \<Longrightarrow>
       save_task U ok (prof_task_run E (ProfileDurationSecs g) (ps_objs s ! k)) s = (t, s1) \<Longrightarrow>
       s' = s1\<lparr>ps_objs := (ps_objs s1)[k := t], ps_live := (ps_live s1)(pt_ID t := None)\<rparr> \<Longrightarrow> P"
    and "\<And>i ok g ks. e = GroupDone i ok \<Longrightarrow> i < length (ps_watch s) \<Longrightarrow> ps_watch s ! i = (g, ks) \<Longrightarrow>
       \<forall>k\<in>set ks. pt_State (ps_objs s ! k) \<noteq> ProfRunning \<Longrightarrow>
       s' = save_group U ok (g\<lparr>pg_State := group_result (map (\<lambda>k. pt_State (ps_objs s ! k)) ks)\<rparr>)
              (s\<lparr>ps_watch := take i (ps_watch s) @ drop (i + 1) (ps_watch s)\<rparr>) \<Longrightarrow> P"
    and "\<And>n. e = DeleteGroup n \<Longrightarrow> cancel_returns n s \<Longrightarrow>
       s' = (cancel_tasks n s)\<lparr>ps_tasks := filter (\<lambda>t. pt_TaskGroupID t \<noteq> n) (ps_tasks s),
              ps_groups := filter (\<lambda>g. pg_ID g \<noteq> n) (ps_groups s)\<rparr> \<Longrightarrow> P"
  shows P
proof (cases e)
  case (RecvConfig dc V)
  then have "auto_collect V (s\<lparr>ps_dc := Some dc\<rparr>) = Some s'" using assms(1) by simp
  from auto_collect_cases [OF this] assms(2) obtain tm where
    "s' = s\<lparr>ps_dc := Some dc, ps_timer := tm\<rparr> \<or>
     (\<exists>req. s' = fst (startGroup V req (s\<lparr>ps_dc := Some dc, ps_timer := tm\<rparr>)) \<and> RequstedTypes req = [])" by auto
  then show P
  proof
    assume "s' = s\<lparr>ps_dc := Some dc, ps_timer := tm\<rparr>"
    then show P by (rule assms(3)) (use RecvConfig in simp)
  next
    assume "\<exists>req. s' = fst (startGroup V req (s\<lparr>ps_dc := Some dc, ps_timer := tm\<rparr>)) \<and> RequstedTypes req = []"
    then obtain req where r: "s' = fst (startGroup V req (s\<lparr>ps_dc := Some dc, ps_timer := tm\<rparr>))" "RequstedTypes req = []" by blast
    show P by (rule assms(4) [OF r(1)]) (use r(2) RecvConfig in auto)
  qed
next
  case (TimerFires V)
  then have "auto_collect V s = Some s'" using assms(1) by (simp split: if_splits)
  from auto_collect_cases [OF this assms(2)] obtain tm where
    "s' = s\<lparr>ps_dc := ps_dc s, ps_timer := tm\<rparr> \<or>
     (\<exists>req. s' = fst (startGroup V req (s\<lparr>ps_dc := ps_dc s, ps_timer := tm\<rparr>)) \<and> RequstedTypes req = [])" by auto
  then show P
  proof
    assume "s' = s\<lparr>ps_dc := ps_dc s, ps_timer := tm\<rparr>"
    then show P by (rule assms(3)) (use TimerFires in simp)
  next
    assume "\<exists>req. s' = fst (startGroup V req (s\<lparr>ps_dc := ps_dc s, ps_timer := tm\<rparr>)) \<and> RequstedTypes req = []"
    then obtain req where r: "s' = fst (startGroup V req (s\<lparr>ps_dc := ps_dc s, ps_timer := tm\<rparr>))" "RequstedTypes req = []" by blast
    show P by (rule assms(4) [OF r(1)]) (use r(2) TimerFires in auto)
  qed
next
  case (RecvSession req V)
  have "s' = s\<lparr>ps_dc := ps_dc s, ps_timer := ps_timer s\<rparr> \<or> s' = fst (startGroup V req (s\<lparr>ps_dc := ps_dc s, ps_timer := ps_timer s\<rparr>))"
    using assms(1,2) RecvSession
    by (auto simp: handleRequest_def exclusiveExecute_def split: option.splits prod.splits if_splits)
  then show P
  proof
    assume "s' = s\<lparr>ps_dc := ps_dc s, ps_timer := ps_timer s\<rparr>"
    then show P by (rule assms(3)) (use RecvSession in simp)
  next
    assume "s' = fst (startGroup V req (s\<lparr>ps_dc := ps_dc s, ps_timer := ps_timer s\<rparr>))"
    then show P by (rule assms(4)) (use RecvSession in auto)
  qed
next
  case (TaskRuns k E ok)
  then show P using assms(1) by (auto split: option.splits if_splits prod.splits intro: assms(5))
next
  case (GroupDone i ok)
  then have i: "i < length (ps_watch s)" using assms(1) by (simp split: if_splits)
  obtain g ks where g: "ps_watch s ! i = (g, ks)" by fastforce
  show P
    by (rule assms(6) [OF GroupDone i g]) (use assms(1) GroupDone i g in \<open>force simp: Let_def split: if_splits\<close>)+
next
  case (DeleteGroup n)
  then show P using assms(1) by (intro assms(7)) (auto split: if_splits)
qed

lemma group_of_task_watched:
  assumes "group_of_task k s = Some g"
  shows "\<exists>ks. (g, ks) \<in> set (ps_watch s) \<and> k \<in> set ks"
  using assms by (auto simp: group_of_task_def find_Some_iff) (metis nth_mem snd_conv)

lemma save_task_effect:
  assumes "save_task U ok t s = (t', s')"
  shows "\<exists>rows n. s' = s\<lparr>ps_tasks := rows, ps_next_task := n\<rparr> \<and> ps_next_task s \<le> n \<and>
      pt_State t' = pt_State t \<and> pt_TaskGroupID t' = pt_TaskGroupID t \<and>
      (pt_ID t' = pt_ID t \<or> pt_ID t = 0 \<and> pt_ID t' = ps_next_task s \<and> n = ps_next_task s + 1) \<and>
      (\<forall>r\<in>set rows. r = t' \<or> r \<in> set (ps_tasks s) \<and> (ok \<and> pt_ID t \<noteq> 0 \<longrightarrow> pt_ID r \<noteq> pt_ID t)) \<and>
      (\<forall>r\<in>set (ps_tasks s). pt_ID r \<noteq> pt_ID t \<or> pt_ID t = 0 \<or> \<not> ok \<longrightarrow> r \<in> set rows)"
proof -
  consider "\<not> ok" | "ok" "pt_ID t = 0" | "ok" "pt_ID t \<noteq> 0" "pt_ID t \<in> pt_ID ` set (ps_tasks s)"
    | "ok" "pt_ID t \<noteq> 0" "pt_ID t \<notin> pt_ID ` set (ps_tasks s)" by blast
  then show ?thesis
  proof cases
    case 1
    then show ?thesis using assms by (intro exI [of _ "ps_tasks s"] exI [of _ "ps_next_task s"]) (simp add: save_task_def)
  next
    case 2
    then show ?thesis using assms
      by (intro exI [of _ "ps_tasks s @ [t']"] exI [of _ "ps_next_task s + 1"])
        (auto simp: save_task_def create_task_def Let_def)
  next
    case 3
    then show ?thesis using assms
      by (intro exI [of _ "map (\<lambda>r. if pt_ID r = pt_ID t then t else r) (ps_tasks s)"] exI [of _ "ps_next_task s"])
        (auto simp: save_task_def image_iff)
  next
    case 4
    then show ?thesis using assms
      by (intro exI [of _ "if U then ps_tasks s @ [t] else ps_tasks s"] exI [of _ "ps_next_task s"])
        (auto simp: save_task_def image_iff split: if_splits)
  qed
qed

lemma save_group_effect:
  "\<exists>rows. save_group U ok g s = s\<lparr>ps_groups := rows\<rparr> \<and>
     (\<forall>r\<in>set rows. r = g \<or> r \<in> set (ps_groups s) \<and> (ok \<longrightarrow> pg_ID r \<noteq> pg_ID g)) \<and>
     (\<forall>r\<in>set (ps_groups s). pg_ID r \<noteq> pg_ID g \<longrightarrow> r \<in> set rows)"
proof -
  consider "\<not> ok" | "ok" "pg_ID g \<in> pg_ID ` set (ps_groups s)" | "ok" "pg_ID g \<notin> pg_ID ` set (ps_groups s)" by blast
  then show ?thesis
  proof cases
    case 1
    then show ?thesis by (intro exI [of _ "ps_groups s"]) (simp add: save_group_def)
  next
    case 2
    then show ?thesis
      by (intro exI [of _ "map (\<lambda>r. if pg_ID r = pg_ID g then g else r) (ps_groups s)"]) (auto simp: save_group_def)
  next
    case 3
    then show ?thesis
      by (intro exI [of _ "if U then ps_groups s @ [g] else ps_groups s"]) (auto simp: save_group_def image_iff)
  qed
qed

lemma watch_removed: "w \<in> set (take i ws @ drop (Suc i) ws) \<Longrightarrow> w \<in> set ws"
  by (auto dest: in_set_takeD in_set_dropD)

lemma ids_ok_start:
  assumes "ids_ok s" and "startGroup V req s = (s', r)"
  shows "ids_ok s'"
proof -
  have pos: "0 < ps_next_task s" using assms(1) by (simp add: ids_ok_def)
  from assms(2) pos show ?thesis
  proof (cases rule: startGroup_cases)
    case (new g objs rows watch)
    have "pt_ID ((ps_objs s @ objs) ! k) < ps_next_task s'" if "length (ps_objs s) \<le> k" "k < length (ps_objs s) + length objs" for k
      using new(11) [of "objs ! (k - length (ps_objs s))"] that by (simp add: nth_append)
    then show ?thesis using assms(1) new(2,10) unfolding ids_ok_def new(5,6,8,9,13)
      by (fastforce simp: nth_append split: if_splits)
  qed (use assms in simp)
qed

lemma ids_ok_next:
  assumes "ids_ok s" and "prof_next U e s = Some s'"
  shows "ids_ok s'"
proof -
  have last: "lastTaskGroup s = None" using assms(1) by (simp add: ids_ok_def)
  from assms(2) last show ?thesis
  proof (cases rule: prof_next_cases)
    case (idle dc tm)
    then show ?thesis using assms(1) by (simp add: ids_ok_def)
  next
    case (start dc tm V req)
    have "ids_ok (s\<lparr>ps_dc := dc, ps_timer := tm\<rparr>)" using assms(1) by (simp add: ids_ok_def)
    then show ?thesis using ids_ok_start start(1) by (metis prod.collapse)
  next
    case (task k E ok g t s1)
    obtain rows n where e: "s1 = s\<lparr>ps_tasks := rows, ps_next_task := n\<rparr>" "ps_next_task s \<le> n"
      "pt_ID t = pt_ID (ps_objs s ! k) \<or> pt_ID t = ps_next_task s \<and> n = ps_next_task s + 1"
      using save_task_effect [OF task(4)] by (auto simp: run_state)
    have "pt_ID ((ps_objs s)[k := t] ! j) < n" if "j < length (ps_objs s)" "pt_ID (ps_objs s ! j) < ps_next_task s" for j
      using e(2,3) that by (cases "j = k") auto
    then show ?thesis using assms(1) e(2) unfolding ids_ok_def task(5) e(1)
      by (fastforce)
  next
    case (finish i ok g ks)
    then show ?thesis using assms(1) save_group_effect [of U ok "g\<lparr>pg_State := group_result (map (\<lambda>k. pt_State (ps_objs s ! k)) ks)\<rparr>"
        "s\<lparr>ps_watch := take i (ps_watch s) @ drop (i + 1) (ps_watch s)\<rparr>"]
      by (auto simp: ids_ok_def dest: watch_removed) (metis Un_iff in_set_dropD in_set_takeD)+
  next
    case (delete n)
    then show ?thesis using assms(1) by (simp add: ids_ok_def cancel_tasks_def)
  qed
qed

lemma ids_ok_run: "ids_ok s \<Longrightarrow> prof_run U es s = Some s' \<Longrightarrow> ids_ok s'"
  by (induction es arbitrary: s) (auto split: option.splits intro: ids_ok_next)

lemma ids_ok_init: "ids_ok prof_init"
  by (simp add: ids_ok_def prof_init_def)

section \<open>A group that never ends\<close>

text \<open>The row of the group runs, and so does the row of one of its tasks, and no goroutine will save either.\<close>

definition stuck :: "nat \<Rightarrow> nat \<Rightarrow> prof_state \<Rightarrow> bool" where
  "stuck gid tid s \<longleftrightarrow> gid < ps_next_group s \<and> 0 < tid \<and> tid < ps_next_task s \<and>
     (\<exists>g\<in>set (ps_groups s). pg_ID g = gid \<and> pg_State g = ProfRunning) \<and>
     (\<exists>t\<in>set (ps_tasks s). pt_ID t = tid \<and> pt_TaskGroupID t = gid \<and> pt_State t = ProfRunning) \<and>
     (\<forall>g ks. (g, ks) \<in> set (ps_watch s) \<longrightarrow> pg_ID g \<noteq> gid \<and> (\<forall>k\<in>set ks. pt_ID (ps_objs s ! k) \<noteq> tid))"

lemma stuck_waits: "stuck gid tid s \<Longrightarrow> \<not> cancel_returns gid s"
  by (auto simp: stuck_def cancel_returns_def running_rows_def filter_empty_conv)

lemma stuck_next:
  assumes "stuck gid tid s" and "ids_ok s" and "prof_next U e s = Some s'"
  shows "stuck gid tid s'"
proof -
  have last: "lastTaskGroup s = None" using assms(2) by (simp add: ids_ok_def)
  from assms(3) last show ?thesis
  proof (cases rule: prof_next_cases)
    case (idle dc tm)
    then show ?thesis using assms(1) by (simp add: stuck_def)
  next
    case (start dc tm V req)
    let ?s = "s\<lparr>ps_dc := dc, ps_timer := tm\<rparr>"
    have st: "stuck gid tid ?s" "ids_ok ?s" using assms(1,2) by (simp_all add: stuck_def ids_ok_def)
    obtain r where r: "startGroup V req ?s = (s', r)" using start(1) by (metis prod.collapse)
    have pos: "0 < ps_next_task ?s" using st(2) by (simp add: ids_ok_def)
    from r pos show ?thesis
    proof (cases rule: startGroup_cases)
      case same
      then show ?thesis using st(1) by simp
    next
      case (new g objs rows watch)
      have "pt_ID ((ps_objs ?s @ objs) ! k) \<noteq> tid" if "length (ps_objs s) \<le> k" "k < length (ps_objs s) + length objs" for k
      proof -
        have "objs ! (k - length (ps_objs s)) \<in> set objs" using that by simp
        from new(11) [OF this] show ?thesis using st(1) that by (auto simp: stuck_def nth_append)
      qed
      moreover have "k < length (ps_objs s)" if "(g', ks) \<in> set (ps_watch s)" "k \<in> set ks" for g' ks k
        using st(2) that by (auto simp: ids_ok_def)
      ultimately show ?thesis using st(1) new(2,10) unfolding stuck_def new(4,5,6,7,8,13)
        by (fastforce simp: nth_append split: if_splits)
    qed
  next
    case (task k E ok g t s1)
    obtain ks where w: "(g, ks) \<in> set (ps_watch s)" "k \<in> set ks" using group_of_task_watched [OF task(2)] by blast
    then have k: "pt_ID (ps_objs s ! k) \<noteq> tid" "k < length (ps_objs s)"
      using assms(1,2) by (auto simp: stuck_def ids_ok_def)
    obtain rows n where e: "s1 = s\<lparr>ps_tasks := rows, ps_next_task := n\<rparr>" "ps_next_task s \<le> n"
      "pt_ID t = pt_ID (ps_objs s ! k) \<or> pt_ID t = ps_next_task s"
      "\<forall>r\<in>set (ps_tasks s). pt_ID r \<noteq> pt_ID (ps_objs s ! k) \<or> pt_ID (ps_objs s ! k) = 0 \<or> \<not> ok \<longrightarrow> r \<in> set rows"
      using save_task_effect [OF task(4)] by (auto simp: run_state)
    have "pt_ID t \<noteq> tid" using e(3) k(1) assms(1) by (auto simp: stuck_def)
    then have "pt_ID ((ps_objs s)[k := t] ! j) \<noteq> tid" if "pt_ID (ps_objs s ! j) \<noteq> tid" for j
      using that k(2) by (cases "j = k") auto
    then show ?thesis using assms(1) e(2,4) k(1) unfolding stuck_def task(5) e(1) by fastforce
  next
    case (finish i ok g ks)
    let ?g = "g\<lparr>pg_State := group_result (map (\<lambda>k. pt_State (ps_objs s ! k)) ks)\<rparr>"
    let ?s = "s\<lparr>ps_watch := take i (ps_watch s) @ drop (i + 1) (ps_watch s)\<rparr>"
    have "(g, ks) \<in> set (ps_watch s)" using finish(2,3) by (metis nth_mem)
    then have g: "pg_ID ?g \<noteq> gid" using assms(1) by (simp add: stuck_def)
    obtain rows where rows: "save_group U ok ?g ?s = ?s\<lparr>ps_groups := rows\<rparr>"
      "\<forall>r\<in>set (ps_groups ?s). pg_ID r \<noteq> pg_ID ?g \<longrightarrow> r \<in> set rows"
      using save_group_effect [of U ok ?g ?s] by blast
    have w: "w \<in> set (ps_watch s)" if "w \<in> set (take i (ps_watch s) @ drop (i + 1) (ps_watch s))" for w
      using watch_removed that by simp
    obtain g0 where "g0 \<in> set (ps_groups s)" "pg_ID g0 = gid" "pg_State g0 = ProfRunning"
      using assms(1) by (auto simp: stuck_def)
    then have "\<exists>g0\<in>set rows. pg_ID g0 = gid \<and> pg_State g0 = ProfRunning"
      using rows(2) g by (intro bexI [of _ g0]) auto
    then show ?thesis using assms(1) w unfolding stuck_def finish(5) rows(1) by (simp) blast
  next
    case (delete n)
    have "n \<noteq> gid" using stuck_waits [OF assms(1)] delete(2) by blast
    then show ?thesis using assms(1) unfolding delete(3) by (auto simp: stuck_def cancel_tasks_def)
  qed
qed

lemma stuck_run: "stuck gid tid s \<Longrightarrow> ids_ok s \<Longrightarrow> prof_run U es s = Some s' \<Longrightarrow> stuck gid tid s'"
  by (induction es arbitrary: s) (auto split: option.splits intro: stuck_next ids_ok_next)

lemma startGroup_first_row:
  assumes "startGroup V req s = (s', r)" and "se_group_ok V" and "se_task_ok V 0"
    and "Targets req = target # targets" and "RequstedTypes req = ty # types" and "ty \<in> set profilingTypeMap"
  shows "ps_next_task s < ps_next_task s' \<and>
    (\<exists>t\<in>set (ps_tasks s'). pt_ID t = ps_next_task s \<and> pt_TaskGroupID t = ps_next_group s \<and> pt_State t = ProfRunning)"
proof -
  obtain g s1 where g: "create_group (NewTaskGroup (se_now V) (DurationSecs req)
        (NewRequestTargetStatisticsFromArray (Targets req)) (RequstedTypes req)) s = (g, s1)" by fastforce
  let ?t = "(NewTask (se_now V) g target ty)\<lparr>pt_ID := ps_next_task s\<rparr>"
  let ?rest = "tl (List.product (Targets req) (RequstedTypes req))"
  let ?s2 = "s1\<lparr>ps_tasks := ps_tasks s1 @ [?t], ps_next_task := ps_next_task s1 + 1, ps_objs := ps_objs s1 @ [?t],
    ps_live := (ps_live s1)(ps_next_task s \<mapsto> length (ps_objs s1))\<rparr>"
  have s1: "ps_tasks s1 = ps_tasks s" "ps_next_task s1 = ps_next_task s" "pg_ID g = ps_next_group s"
    using g by (auto simp: create_group_def Let_def)
  have "start_tasks V g (List.product (Targets req) (RequstedTypes req)) [] s1 = start_tasks V g ?rest [length (ps_objs s1)] ?s2"
    using assms(3-6) s1 by (simp add: create_task_def Let_def)
  moreover obtain s3 q where q: "start_tasks V g ?rest [length (ps_objs s1)] ?s2 = (s3, q)" by fastforce
  ultimately have s': "ps_tasks s' = ps_tasks s3" "ps_next_task s' = ps_next_task s3"
    using assms(1,2) g by (auto simp: startGroup_def split: option.splits)
  obtain objs rows where e: "s3 = ?s2\<lparr>ps_objs := ps_objs ?s2 @ objs, ps_tasks := ps_tasks ?s2 @ rows,
      ps_next_task := ps_next_task s3, ps_live := ps_live s3\<rparr>" "ps_next_task ?s2 \<le> ps_next_task s3"
    using start_tasks_effect [OF q] by blast
  have "ps_tasks s3 = ps_tasks ?s2 @ rows" by (subst e(1)) simp
  with e(2) show ?thesis using s1 unfolding s' by (intro conjI bexI [of _ ?t]) (auto simp: NewTask_def)
qed

lemma stuck_start:
  assumes "ids_ok s" and "startGroup V req s = (s', r)" and "se_group_ok V" and "se_task_ok V 0"
    and "Targets req = target # targets" and "RequstedTypes req = ty # types" and "ty \<in> set profilingTypeMap"
    and "ty' \<in> set types" and "ty' \<notin> set profilingTypeMap"
  shows "stuck (ps_next_group s) (ps_next_task s) s'"
proof -
  have pos: "0 < ps_next_task s" using assms(1) by (simp add: ids_ok_def)
  have "(target, ty') \<in> set (List.product (Targets req) (RequstedTypes req))" using assms(5,6,8) by simp
  then have bad: "\<not> (\<forall>p\<in>set (List.product (Targets req) (RequstedTypes req)). snd p \<in> set profilingTypeMap)"
    using assms(9) by (metis snd_conv)
  note row = startGroup_first_row [OF assms(2-7)]
  from assms(2) pos show ?thesis
  proof (cases rule: startGroup_cases)
    case (new g objs rows watch)
    have "watch = []" using new(13) bad by simp
    then have w: "ps_watch s' = ps_watch s" using new(8) by simp
    have "pg_ID g' \<noteq> ps_next_group s \<and> (\<forall>k\<in>set ks. pt_ID (ps_objs s' ! k) \<noteq> ps_next_task s)"
      if "(g', ks) \<in> set (ps_watch s')" for g' ks
      using assms(1) that unfolding w new(6) ids_ok_def by (fastforce simp: nth_append)
    moreover have "\<exists>g\<in>set (ps_groups s'). pg_ID g = ps_next_group s \<and> pg_State g = ProfRunning"
      using new(2,3) unfolding new(4) by (intro bexI [of _ g]) simp_all
    ultimately show ?thesis using row pos unfolding stuck_def new(5) by (intro conjI) (simp, blast+)
  qed (use assms in simp)
qed

text \<open>
  C19: a request for a supported type followed by one that is not supported is answered by an
  error, but leaves a group that runs forever: whatever happens afterwards, its row and the row of
  its first task keep the state of a running one, and a request to cancel or to delete the group
  does not return.
\<close>

theorem unsupported_type_stuck:
  assumes "prof_run U es prof_init = Some s" and "ps_dc s = Some dc" and "AutoCollectionDurationSecs (Profiling dc) = 0"
    and "se_group_ok V" and "se_task_ok V 0" and "Targets req = target # targets" and "RequstedTypes req = ty # types"
    and "ty \<in> set profilingTypeMap" and "ty' \<in> set types" and "ty' \<notin> set profilingTypeMap"
  shows "\<exists>s'. handleRequest V req s = Some (s', Some (Inl ErrUnsupportedProfilingType)) \<and>
    (\<forall>es' s''. prof_run U es' s' = Some s'' \<longrightarrow>
       (\<exists>g\<in>set (ps_groups s''). pg_ID g = ps_next_group s \<and> pg_State g = ProfRunning) \<and>
       \<not> cancel_returns (ps_next_group s) s'' \<and> prof_next U (DeleteGroup (ps_next_group s)) s'' = None)"
proof -
  have ids: "ids_ok s" by (rule ids_ok_run [OF ids_ok_init assms(1)])
  obtain s' r where r: "startGroup V req s = (s', r)" by fastforce
  note st = stuck_start [OF ids r assms(4-10)]
  have "(target, ty') \<in> set (List.product (Targets req) (RequstedTypes req))" using assms(6,7,9) by simp
  then have "snd (start_tasks V g (List.product (Targets req) (RequstedTypes req)) [] s0) = None" for g s0
    unfolding start_tasks_None using assms(10) by (metis snd_conv)
  then have "r = Inl ErrUnsupportedProfilingType"
    using r assms(4) by (auto simp: startGroup_def split: prod.splits option.splits) (metis option.distinct(1) snd_conv)
  then have handled: "handleRequest V req s = Some (s', Some (Inl ErrUnsupportedProfilingType))"
    using r ids assms(2,3) by (simp add: handleRequest_def exclusiveExecute_def ids_ok_def)
  then have "prof_next U (RecvSession req V) s = Some s'" by simp
  then have ids': "ids_ok s'" by (rule ids_ok_next [OF ids])
  have "(\<exists>g\<in>set (ps_groups s''). pg_ID g = ps_next_group s \<and> pg_State g = ProfRunning) \<and>
      \<not> cancel_returns (ps_next_group s) s'' \<and> prof_next U (DeleteGroup (ps_next_group s)) s'' = None"
    if "prof_run U es' s' = Some s''" for es' s''
    using stuck_run [OF st ids' that] stuck_waits by (auto simp: stuck_def)
  with handled show ?thesis by blast
qed

section \<open>Groups finish\<close>

text \<open>Every running row has its goroutine.\<close>

definition rows_inv :: "prof_state \<Rightarrow> bool" where
  "rows_inv s \<longleftrightarrow>
     (\<forall>t\<in>set (ps_tasks s). pt_State t = ProfRunning \<longrightarrow>
        (\<exists>g ks. (g, ks) \<in> set (ps_watch s) \<and> (\<exists>k\<in>set ks. ps_objs s ! k = t))) \<and>
     (\<forall>g\<in>set (ps_groups s). pg_State g \<noteq> ProfSkipped \<and> (pg_State g = ProfRunning \<longrightarrow> g \<in> fst ` set (ps_watch s))) \<and>
     (\<forall>g ks. (g, ks) \<in> set (ps_watch s) \<longrightarrow> (\<forall>k\<in>set ks. 0 < pt_ID (ps_objs s ! k)))"

lemma rows_inv_start:
  assumes "rows_inv s" and "ids_ok s" and "startGroup V req s = (s', r)" and "\<And>i. se_task_ok V i"
    and "set (RequstedTypes req) \<subseteq> set profilingTypeMap"
  shows "rows_inv s'"
proof -
  have pos: "0 < ps_next_task s" using assms(2) by (simp add: ids_ok_def)
  from assms(3) pos show ?thesis
  proof (cases rule: startGroup_cases)
    case (new g objs rows watch)
    let ?new = "[length (ps_objs s)..<length (ps_objs s) + length objs]"
    have w: "watch = [(g, ?new)]" using new(13) assms(5) by auto
    have rows: "rows = objs" "\<forall>t\<in>set objs. 0 < pt_ID t" using new(12) assms(4) pos by fastforce+
    have old: "(ps_objs s @ objs) ! k = ps_objs s ! k" if "(g', ks) \<in> set (ps_watch s)" "k \<in> set ks" for g' ks k
      using assms(2) that by (auto simp: ids_ok_def nth_append)
    have in_new: "\<exists>k\<in>set ?new. (ps_objs s @ objs) ! k = t" if "t \<in> set objs" for t
    proof -
      obtain i where "i < length objs" "objs ! i = t" using \<open>t \<in> set objs\<close> by (auto simp: in_set_conv_nth)
      then show ?thesis by (intro bexI [of _ "length (ps_objs s) + i"]) (auto simp: nth_append)
    qed
    have "\<forall>k\<in>set ?new. 0 < pt_ID ((ps_objs s @ objs) ! k)" using rows(2) by (auto simp: nth_append)
    moreover have "\<exists>g' ks. (g', ks) \<in> set (ps_watch s @ watch) \<and> (\<exists>k\<in>set ks. (ps_objs s @ objs) ! k = t)"
      if t: "t \<in> set (ps_tasks s @ rows)" "pt_State t = ProfRunning" for t
    proof (cases "t \<in> set (ps_tasks s)")
      case True
      then show ?thesis using assms(1) t(2) old unfolding rows_inv_def by (metis Un_iff set_append)
    next
      case False
      then show ?thesis using in_new t(1) rows(1) w by (metis Un_iff list.set_intros(1) set_append)
    qed
    ultimately show ?thesis
      using assms(1) old new(3) unfolding rows_inv_def new(4,6,7,8) w
      by (auto simp: image_iff)
  qed (use assms in simp)
qed

lemma rows_inv_next:
  assumes "rows_inv s" and "ids_ok s" and "prof_next U e s = Some s'" and "event_ok e"
  shows "rows_inv s'"
proof -
  have last: "lastTaskGroup s = None" using assms(2) by (simp add: ids_ok_def)
  from assms(3) last show ?thesis
  proof (cases rule: prof_next_cases)
    case (idle dc tm)
    then show ?thesis using assms(1) by (simp add: rows_inv_def)
  next
    case (start dc tm V req)
    let ?s = "s\<lparr>ps_dc := dc, ps_timer := tm\<rparr>"
    have st: "rows_inv ?s" "ids_ok ?s" using assms(1,2) by (simp_all add: rows_inv_def ids_ok_def)
    obtain r where "startGroup V req ?s = (s', r)" using start(1) by (metis prod.collapse)
    then show ?thesis using rows_inv_start [OF st] start(2) assms(4) by blast
  next
    case (task k E ok g t s1)
    obtain ks where w: "(g, ks) \<in> set (ps_watch s)" "k \<in> set ks" using group_of_task_watched [OF task(2)] by blast
    then have k: "k < length (ps_objs s)" "0 < pt_ID (ps_objs s ! k)"
      using assms(1,2) by (auto simp: ids_ok_def rows_inv_def)
    have ok: "ok" using assms(4) task(1) by simp
    obtain rows n where e: "s1 = s\<lparr>ps_tasks := rows, ps_next_task := n\<rparr>" "pt_ID t = pt_ID (ps_objs s ! k)"
      "pt_State t \<noteq> ProfRunning"
      "\<And>r. r \<in> set rows \<Longrightarrow> r = t \<or> r \<in> set (ps_tasks s) \<and> pt_ID r \<noteq> pt_ID (ps_objs s ! k)"
      using save_task_effect [OF task(4)] ok k(2) by (auto simp: run_state)
    have "\<exists>g ks. (g, ks) \<in> set (ps_watch s) \<and> (\<exists>j\<in>set ks. (ps_objs s)[k := t] ! j = r)"
      if r: "r \<in> set rows" "pt_State r = ProfRunning" for r
    proof -
      have r': "r \<in> set (ps_tasks s)" "pt_ID r \<noteq> pt_ID (ps_objs s ! k)" using e(3,4) r by blast+
      then obtain g' ks' j where "(g', ks') \<in> set (ps_watch s)" "j \<in> set ks'" "ps_objs s ! j = r"
        using assms(1) r(2) by (auto simp: rows_inv_def)
      moreover from this r'(2) have "(ps_objs s)[k := t] ! j = r" by (cases "j = k") auto
      ultimately show ?thesis by blast
    qed
    moreover have "0 < pt_ID ((ps_objs s)[k := t] ! j)" if "0 < pt_ID (ps_objs s ! j)" for j
      using e(2) k that by (cases "j = k") auto
    ultimately show ?thesis using assms(1) unfolding rows_inv_def task(5) e(1) by simp
  next
    case (finish i ok g ks)
    let ?states = "map (\<lambda>k. pt_State (ps_objs s ! k)) ks"
    let ?g = "g\<lparr>pg_State := group_result ?states\<rparr>"
    let ?w = "take i (ps_watch s) @ drop (i + 1) (ps_watch s)"
    let ?s = "s\<lparr>ps_watch := ?w\<rparr>"
    have ok: "ok" using assms(4) finish(1) by simp
    obtain rows where rows: "save_group U ok ?g ?s = ?s\<lparr>ps_groups := rows\<rparr>"
      "\<And>r. r \<in> set rows \<Longrightarrow> r = ?g \<or> r \<in> set (ps_groups s) \<and> pg_ID r \<noteq> pg_ID g"
      using save_group_effect [of U ok ?g ?s] ok by auto
    have split: "ps_watch s = take i (ps_watch s) @ (g, ks) # drop (i + 1) (ps_watch s)"
      by (metis Suc_eq_plus1 finish(2,3) id_take_nth_drop)
    have members: "w \<in> set (ps_watch s) \<longleftrightarrow> w = (g, ks) \<or> w \<in> set ?w" for w
      by (subst split) auto
    have result: "pg_State ?g \<noteq> ProfSkipped" "pg_State ?g \<noteq> ProfRunning" by (simp_all add: group_result_def Let_def)
    have "pg_State r \<noteq> ProfSkipped \<and> (pg_State r = ProfRunning \<longrightarrow> r \<in> fst ` set ?w)" if "r \<in> set rows" for r
    proof (cases "r = ?g")
      case False
      then have r: "r \<in> set (ps_groups s)" "pg_ID r \<noteq> pg_ID g" using rows(2) that by blast+
      have "w \<in> set ?w" if "w \<in> set (ps_watch s)" "fst w = r" for w
        using members [of w] that r(2) by auto
      then show ?thesis using assms(1) r(1) by (force simp: rows_inv_def)
    qed (use result in simp)
    moreover have "\<exists>g ks. (g, ks) \<in> set ?w \<and> (\<exists>k\<in>set ks. ps_objs s ! k = t)"
      if t: "t \<in> set (ps_tasks s)" "pt_State t = ProfRunning" for t
    proof -
      obtain g' ks' k where w: "(g', ks') \<in> set (ps_watch s)" "k \<in> set ks'" "ps_objs s ! k = t"
        using assms(1) t by (auto simp: rows_inv_def)
      then have "(g', ks') \<noteq> (g, ks)" using finish(4) t(2) by auto
      then show ?thesis using w members by blast
    qed
    moreover have "0 < pt_ID (ps_objs s ! k)" if "(g', ks') \<in> set ?w" "k \<in> set ks'" for g' ks' k
      using assms(1) members that unfolding rows_inv_def by blast
    ultimately show ?thesis unfolding rows_inv_def finish(5) rows(1) by simp
  next
    case (delete n)
    then show ?thesis using assms(1) unfolding rows_inv_def by (simp add: cancel_tasks_def)
  qed
qed

lemma rows_inv_run:
  "rows_inv s \<Longrightarrow> ids_ok s \<Longrightarrow> list_all event_ok es \<Longrightarrow> prof_run U es s = Some s' \<Longrightarrow> rows_inv s' \<and> ids_ok s'"
proof (induction es arbitrary: s)
  case (Cons e es)
  then obtain s1 where s1: "prof_next U e s = Some s1" "prof_run U es s1 = Some s'" by (auto split: option.splits)
  have "rows_inv s1" using rows_inv_next [OF Cons.prems(1,2) s1(1)] Cons.prems(3) by simp
  moreover have "ids_ok s1" by (rule ids_ok_next [OF Cons.prems(2) s1(1)])
  ultimately show ?case using Cons.IH s1(2) Cons.prems(3) by simp
qed simp

lemma rows_inv_init: "rows_inv prof_init"
  by (simp add: rows_inv_def prof_init_def)

text \<open>The work that is left: tasks that have not run and goroutines that wait.\<close>

definition work :: "prof_state \<Rightarrow> nat" where
  "work s = length (ps_watch s) +
     length (filter (\<lambda>k. pt_State (ps_objs s ! k) = ProfRunning) (concat (map snd (ps_watch s))))"

lemma length_filter_less':
  assumes "k \<in> set xs" and "P k" and "\<not> Q k" and "\<And>x. Q x \<Longrightarrow> P x"
  shows "length (filter Q xs) < length (filter P xs)"
proof -
  have "filter Q xs = filter Q (filter P xs)" using assms(4) by (auto simp: filter_filter intro: filter_cong)
  also have "length \<dots> < length (filter P xs)" using assms(1-3) by (intro length_filter_less [of k]) auto
  finally show ?thesis .
qed

lemma work_next:
  assumes "ids_ok s" and "prof_next U e s = Some s'" and "is_work e"
  shows "work s' < work s"
proof -
  have last: "lastTaskGroup s = None" using assms(1) by (simp add: ids_ok_def)
  show ?thesis
  proof (cases e)
    case (TaskRuns k E ok)
    with assms(2) last show ?thesis
    proof (cases rule: prof_next_cases)
      case (task k' E' ok' g t s1)
      obtain ks where w: "(g, ks) \<in> set (ps_watch s)" "k' \<in> set ks" using group_of_task_watched [OF task(2)] by blast
      then have k: "k' < length (ps_objs s)" using assms(1) by (auto simp: ids_ok_def)
      obtain rows n where s1: "s1 = s\<lparr>ps_tasks := rows, ps_next_task := n\<rparr>" "pt_State t \<noteq> ProfRunning"
        using save_task_effect [OF task(4)] by (auto simp: run_state)
      have "length (filter (\<lambda>j. pt_State ((ps_objs s)[k' := t] ! j) = ProfRunning) (concat (map snd (ps_watch s)))) <
          length (filter (\<lambda>j. pt_State (ps_objs s ! j) = ProfRunning) (concat (map snd (ps_watch s))))"
      proof (rule length_filter_less' [of k'])
        show "k' \<in> set (concat (map snd (ps_watch s)))" using w by force
        show "pt_State ((ps_objs s)[k' := t] ! j) = ProfRunning \<Longrightarrow> pt_State (ps_objs s ! j) = ProfRunning" for j
          using s1(2) k by (cases "j = k'") auto
      qed (use task(3) s1(2) k in auto)
      then show ?thesis unfolding work_def task(5) s1(1) by simp
    qed (use TaskRuns assms(3) in simp_all)
  next
    case (GroupDone i ok)
    with assms(2) last show ?thesis
    proof (cases rule: prof_next_cases)
      case (finish i' ok' g ks)
      let ?w = "take i' (ps_watch s) @ drop (i' + 1) (ps_watch s)"
      obtain rows where s': "s' = s\<lparr>ps_watch := ?w, ps_groups := rows\<rparr>"
        using finish(5) save_group_effect by blast
      have split: "ps_watch s = take i' (ps_watch s) @ (g, ks) # drop (i' + 1) (ps_watch s)"
        by (metis Suc_eq_plus1 finish(2,3) id_take_nth_drop)
      have "length ?w < length (ps_watch s)" using finish(2) by simp
      moreover have "length (filter P (concat (map snd ?w))) \<le> length (filter P (concat (map snd (ps_watch s))))" for P
        by (subst (3) split) simp
      ultimately have "length ?w + length (filter (\<lambda>k. pt_State (ps_objs s ! k) = ProfRunning) (concat (map snd ?w))) < work s"
        unfolding work_def by (rule add_less_le_mono)
      then show ?thesis unfolding work_def s' by simp
    qed (use GroupDone assms(3) in simp_all)
  qed (use assms(3) in simp_all)
qed

lemma work_run: "ids_ok s \<Longrightarrow> list_all is_work es \<Longrightarrow> prof_run U es s = Some s' \<Longrightarrow> length es + work s' \<le> work s"
proof (induction es arbitrary: s)
  case (Cons e es)
  then obtain s1 where s1: "prof_next U e s = Some s1" "prof_run U es s1 = Some s'" by (auto split: option.splits)
  have "work s1 < work s" using work_next [OF Cons.prems(1) s1(1)] Cons.prems(2) by simp
  moreover have "length es + work s' \<le> work s1"
    using Cons.IH [OF ids_ok_next [OF Cons.prems(1) s1(1)] _ s1(2)] Cons.prems(2) by simp
  ultimately show ?case by simp
qed simp

text \<open>While work is left, some of it can be done.\<close>

lemma work_enabled:
  assumes "\<And>e. is_work e \<Longrightarrow> prof_next U e s = None"
  shows "ps_watch s = []"
proof (rule ccontr)
  assume "ps_watch s \<noteq> []"
  then obtain g ks ws where w: "ps_watch s = (g, ks) # ws" by (cases "ps_watch s") auto
  have "pt_State (ps_objs s ! k) \<noteq> ProfRunning" if "k \<in> set ks" for k
  proof
    assume run: "pt_State (ps_objs s ! k) = ProfRunning"
    have "group_of_task k s = Some g" using w that by (simp add: group_of_task_def)
    then show False using assms [of "TaskRuns k undefined True"] run by (simp split: prod.splits)
  qed
  then have "\<forall>k\<in>set ks. ProfRunning \<noteq> pt_State (ps_objs s ! k)" by (auto dest: sym)
  then have "ProfRunning \<notin> set (map (\<lambda>k. pt_State (ps_objs s ! k)) ks)" by auto
  then show False using assms [of "GroupDone 0 True"] w by (simp add: Let_def)
qed

text \<open>
  C14: while the store works and requests ask for supported types, whatever the configurations, the
  requests, the failures of nodes and the deletions that came before: no more than \<open>work\<close> runs of
  tasks and ends of groups can happen without a new request, and when none is left every group is
  finished, partially finished or failed, and no task is left running.
\<close>

theorem groups_finish:
  assumes "prof_run U es prof_init = Some s" and "list_all event_ok es"
    and "list_all is_work ws" and "prof_run U ws s = Some s'"
  shows "length ws \<le> work s \<and>
    ((\<forall>e. is_work e \<longrightarrow> prof_next U e s' = None) \<longrightarrow>
       (\<forall>g\<in>set (ps_groups s'). pg_State g \<in> {ProfFinish, ProfPartialFinish, ProfError}) \<and>
       (\<forall>t\<in>set (ps_tasks s'). pt_State t \<noteq> ProfRunning))"
proof -
  have s: "rows_inv s" "ids_ok s" using rows_inv_run [OF rows_inv_init ids_ok_init assms(2,1)] by simp_all
  have "event_ok w" if "is_work w" for w using that by (cases w) auto
  then have ok: "list_all event_ok ws" using assms(3) by (auto simp: list_all_iff)
  have s': "rows_inv s'" using rows_inv_run [OF s ok assms(4)] by simp
  have "ps_watch s' = []" if "\<forall>e. is_work e \<longrightarrow> prof_next U e s' = None"
    using work_enabled that by blast
  then show ?thesis
    using s' work_run [OF s(2) assms(3,4)] by (fastforce simp: rows_inv_def intro: ProfState.exhaust)
qed

section \<open>A run\<close>

definition demo_node :: "NodeKind \<Rightarrow> RequestTargetNode" where
  "demo_node kind = \<lparr>rt_Kind = kind, DisplayName = ''n:1'', IP = ''h'', Port = 1\<rparr>"

definition demo_request :: "string list \<Rightarrow> StartRequest" where
  "demo_request types = \<lparr>Targets = [demo_node NodeKindTiDB, demo_node NodeKindTiKV], DurationSecs = 30, RequstedTypes = types\<rparr>"

definition demo_start :: start_env where
  "demo_start = \<lparr>se_now = 0, se_group_ok = True, se_task_ok = (\<lambda>_. True)\<rparr>"

text \<open>TiKV does not answer.\<close>

definition demo_fetch :: fetch_env where
  "demo_fetch = \<lparr>fe_tikv = (\<lambda>ip port path. Inl ''timeout''), fe_tiflash = (\<lambda>ip port path. Inl ''''),
     fe_tidb = (\<lambda>ip port path. Inr ''profile''), fe_pd = (\<lambda>ip port path. Inl ''''),
     fe_TempFile = (\<lambda>name. Inr name), fe_Write = (\<lambda>name content. None)\<rparr>"

definition demo_events :: "prof_event list" where
  "demo_events = [RecvConfig zero_config demo_start, RecvSession (demo_request [''cpu'']) demo_start]"

definition demo_work :: "prof_event list" where
  "demo_work = [TaskRuns 1 demo_fetch True, TaskRuns 0 demo_fetch True, GroupDone 0 True]"

lemma demo_events_ok: "list_all event_ok demo_events" "list_all is_work demo_work"
  by (simp_all add: demo_events_def demo_work_def demo_start_def demo_request_def profilingTypeMap_def ProfilingTypeCPU_def)

definition demo_started :: prof_state where
  "demo_started = the (prof_run True demo_events prof_init)"

definition demo_finished :: prof_state where
  "demo_finished = the (prof_run True demo_work demo_started)"

lemma demo_started: "prof_run True demo_events prof_init = Some demo_started"
proof -
  have "prof_run True demo_events prof_init \<noteq> None" by code_simp
  then show ?thesis by (auto simp: demo_started_def)
qed

lemma demo_finished: "prof_run True demo_work demo_started = Some demo_finished"
proof -
  have "prof_run True demo_work demo_started \<noteq> None" by code_simp
  then show ?thesis by (auto simp: demo_finished_def)
qed

lemma demo_states:
  "map pg_State (ps_groups demo_finished) = [ProfPartialFinish]" "map pt_State (ps_tasks demo_finished) = [ProfFinish, ProfError]"
  by code_simp+

lemma groups_finish_witness:
  "length demo_work \<le> work demo_started \<and> pg_State (hd (ps_groups demo_finished)) \<noteq> ProfRunning"
proof -
  have idle: "ps_watch demo_finished = []" "ps_objs demo_finished \<noteq> []" by code_simp+
  have "prof_next True e demo_finished = None" if "is_work e" for e
    using that idle by (cases e) (simp_all add: group_of_task_def)
  moreover have "ps_groups demo_finished \<noteq> []" using demo_states(1) by auto
  ultimately show ?thesis
    using groups_finish [OF demo_started demo_events_ok demo_finished] hd_in_set by fastforce
qed

text \<open>A request for \<open>cpu\<close> and a type that does not exist.\<close>

definition demo_configured :: prof_state where
  "demo_configured = the (prof_run True [RecvConfig zero_config demo_start] prof_init)"

lemma demo_configured: "prof_run True [RecvConfig zero_config demo_start] prof_init = Some demo_configured"
proof -
  have "prof_run True [RecvConfig zero_config demo_start] prof_init \<noteq> None" by code_simp
  then show ?thesis by (auto simp: demo_configured_def)
qed

lemma unsupported_type_stuck_witness:
  "\<exists>s'. handleRequest demo_start (demo_request [''cpu'', ''block'']) demo_configured = Some (s', Some (Inl ErrUnsupportedProfilingType)) \<and>
     \<not> cancel_returns (ps_next_group demo_configured) s'"
proof -
  have dc: "ps_dc demo_configured \<noteq> None" "AutoCollectionDurationSecs (Profiling (the (ps_dc demo_configured))) = 0"
    by code_simp+
  then obtain dc where dc: "ps_dc demo_configured = Some dc" "AutoCollectionDurationSecs (Profiling dc) = 0" by auto
  have cpu: "''cpu'' \<in> set profilingTypeMap" "''block'' \<notin> set profilingTypeMap" by code_simp+
  obtain s' where s': "handleRequest demo_start (demo_request [''cpu'', ''block'']) demo_configured =
      Some (s', Some (Inl ErrUnsupportedProfilingType))"
    "\<forall>es' s''. prof_run True es' s' = Some s'' \<longrightarrow> \<not> cancel_returns (ps_next_group demo_configured) s''"
    using unsupported_type_stuck [OF demo_configured dc, where V = demo_start and req = "demo_request [''cpu'', ''block'']"
        and ty = "''cpu''" and types = "[''block'']" and ty' = "''block''"] cpu
    by (simp add: demo_start_def demo_request_def) blast
  have "prof_run True [] s' = Some s'" by simp
  with s' show ?thesis by blast
qed

text \<open>
  A group deleted between the last save of its tasks and the end of its wait comes back when \<open>Save\<close>
  creates the rows that are gone: finished, and without tasks.
\<close>

lemma deleted_group_returns:
  "map_option (\<lambda>s. (map pg_State (ps_groups s), ps_tasks s))
     (prof_run True (demo_events @ [TaskRuns 0 demo_fetch True, TaskRuns 1 demo_fetch True, DeleteGroup 1, GroupDone 0 True]) prof_init) =
   Some ([ProfPartialFinish], [])"
  by code_simp

text \<open>A request before the first configuration panics; the automatic collection asks for no profile.\<close>

lemma request_before_config: "handleRequest V req prof_init = None"
  by (simp add: handleRequest_def prof_init_def)

lemma product_no_types: "List.product xs [] = []"
  by (induction xs) simp_all

lemma auto_request_empty: "newAutoRequest s = (s', Some req) \<Longrightarrow> List.product (Targets req) (RequstedTypes req) = []"
  by (auto simp: newAutoRequest_def Let_def product_no_types split: option.splits if_splits)

section \<open>Tokens\<close>

text \<open>A token for one action is accepted by that action only, for a day.\<close>

lemma token_of_action:
  assumes "jwt_laws J" and "getActionToken J now ident action = Some tok"
  shows "single_task J ''profiling/single_view'' later tok s \<noteq> Inl (ProfBadRequest '''') \<longleftrightarrow>
    later \<le> now + 86400 \<and> action = ''single_view'' \<and> ParseInt ident \<noteq> None"
  using ParseJWTString_NewJWTString [OF assms(1)] assms(2)
  by (auto simp: getActionToken_def single_task_def split: option.splits)

end
