(* ===== verification/DiagService.thy ===== *)
theory DiagService
  imports DiagReport
begin

text \<open>
  The reports of the diagnosis (\<open>pkg/apiserver/diagnose/model.go\<close> and the handlers of \<open>diagnose.go\<close>):
  their rows in the local store, the goroutine that fills a row, and what is read of it meanwhile.
  Times are seconds since 1970, \<open>fmt\<close> writes them in the layout of the queries; a report's tables
  are written as JSON by an argument. A statement on the store may fail and then changes nothing.
\<close>

section \<open>\<open>model.go\<close>\<close>

record Report =
  rp_ID :: string
  rp_CreatedAt :: int
  rp_Progress :: int
  rp_Content :: string
  rp_StartTime :: int
  rp_EndTime :: int
  rp_CompareStartTime :: "int option"
  rp_CompareEndTime :: "int option"

type_synonym report_store = "Report list"

definition NewReport ::
  "string \<Rightarrow> int \<Rightarrow> string option \<Rightarrow> int \<Rightarrow> int \<Rightarrow> int option \<Rightarrow> int option \<Rightarrow> report_store \<Rightarrow> report_store \<times> (string + string)" where
  "NewReport uuid now create_err startTime endTime compareStartTime compareEndTime db =
     (let report = \<lparr>rp_ID = uuid, rp_CreatedAt = now, rp_Progress = 0, rp_Content = '''', rp_StartTime = startTime,
            rp_EndTime = endTime, rp_CompareStartTime = compareStartTime, rp_CompareEndTime = compareEndTime\<rparr>
      in case create_err of Some err \<Rightarrow> (db, Inl err) | None \<Rightarrow> (db @ [report], Inr uuid))"

text \<open>The list leaves the content out; the newest report comes first.\<close>

definition GetReports :: "report_store \<Rightarrow> Report list" where
  "GetReports db = map (\<lambda>r. r\<lparr>rp_Content := ''''\<rparr>) (sort_key (\<lambda>r. - rp_CreatedAt r) db)"

definition GetReport :: "report_store \<Rightarrow> string \<Rightarrow> Report option" where
  "GetReport db reportID = List.find (\<lambda>r. rp_ID r = reportID) db"

definition UpdateReportProgress :: "bool \<Rightarrow> string \<Rightarrow> int \<Rightarrow> report_store \<Rightarrow> report_store" where
  "UpdateReportProgress ok reportID p db =
     (if \<not> ok then db else map (\<lambda>r. if rp_ID r = reportID then r\<lparr>rp_Progress := p\<rparr> else r) db)"

definition SaveReportContent :: "bool \<Rightarrow> string \<Rightarrow> string \<Rightarrow> report_store \<Rightarrow> report_store" where
  "SaveReportContent ok reportID c db =
     (if \<not> ok then db else map (\<lambda>r. if rp_ID r = reportID then r\<lparr>rp_Content := c\<rparr> else r) db)"

section \<open>The handlers\<close>

record GenerateReportRequest =
  gr_StartTime :: int
  gr_EndTime :: int
  gr_CompareStartTime :: int
  gr_CompareEndTime :: int

text \<open>The times to compare with, if both are given.\<close>

definition compare_times :: "GenerateReportRequest \<Rightarrow> (int \<times> int) option" where
  "compare_times req =
     (if gr_CompareStartTime req \<noteq> 0 \<and> gr_CompareEndTime req \<noteq> 0
      then Some (gr_CompareStartTime req, gr_CompareEndTime req) else None)"

text \<open>The tables that the goroutine of a report may compute.\<close>

definition report_tables ::
  "nat \<Rightarrow> (int \<Rightarrow> string) \<Rightarrow> string \<Rightarrow> 'f diag_env \<Rightarrow> sql_db \<Rightarrow> GenerateReportRequest \<Rightarrow> 'f TableDef list \<Rightarrow> bool" where
  "report_tables fuel fmt msg E db req tables =
     (case compare_times req of
        None \<Rightarrow> tables = GetReportTablesForDisplay msg E db (fmt (gr_StartTime req)) (fmt (gr_EndTime req))
      | Some (compareStartTime, compareEndTime) \<Rightarrow>
          GetCompareReportTablesForDisplay fuel msg E db (fmt compareStartTime) (fmt compareEndTime)
            (fmt (gr_StartTime req)) (fmt (gr_EndTime req)) tables)"

text \<open>
  The statements of the goroutine in order: the progress that the workers write, then 100, then the
  content unless the tables cannot be marshalled.
\<close>

datatype report_write = WriteProgress int | WriteContent string

definition report_writes :: "int list \<Rightarrow> string option \<Rightarrow> report_write list" where
  "report_writes progresses json =
     map WriteProgress progresses @ [WriteProgress 100] @ (case json of None \<Rightarrow> [] | Some content \<Rightarrow> [WriteContent content])"

fun apply_write :: "string \<Rightarrow> report_write \<times> bool \<Rightarrow> report_store \<Rightarrow> report_store" where
  "apply_write reportID (WriteProgress p, ok) db = UpdateReportProgress ok reportID p db"
| "apply_write reportID (WriteContent c, ok) db = SaveReportContent ok reportID c db"

definition genReportHandler ::
  "string \<Rightarrow> int \<Rightarrow> string option \<Rightarrow> GenerateReportRequest \<Rightarrow> report_store \<Rightarrow> report_store \<times> (string + string)" where
  "genReportHandler uuid now create_err req db =
     NewReport uuid now create_err (gr_StartTime req) (gr_EndTime req)
       (map_option fst (compare_times req)) (map_option snd (compare_times req)) db"

definition reportDataHandler :: "report_store \<Rightarrow> string \<Rightarrow> string option" where
  "reportDataHandler db reportID =
     map_option (\<lambda>report. ''window.__diagnosis_data__ = '' @ rp_Content report) (GetReport db reportID)"

definition diagnosis_rules :: "string \<Rightarrow> string list" where
  "diagnosis_rules kind =
     (if kind = ''config'' then [''config'', ''version'']
      else if kind = ''error'' then [''critical-error'']
      else if kind = ''performance'' then [''node-load'', ''threshold-check'']
      else [])"

text \<open>\<open>None\<close> is a panic.\<close>

definition genDiagnosisHandler ::
  "(int \<Rightarrow> string) \<Rightarrow> 'f diag_env \<Rightarrow> sql_db \<Rightarrow> int \<Rightarrow> int \<Rightarrow> string \<Rightarrow> 'f TableDef option" where
  "genDiagnosisHandler fmt E db startTime endTime kind =
     map_option (\<lambda>(table, err). case err of
         None \<Rightarrow> table
       | Some e \<Rightarrow> GenerateReportError [row_of (de_float E) [''diagnose'', ''diagnose'', e]])
       (GetDiagnoseReport E db (fmt startTime) (fmt endTime) (diagnosis_rules kind))"

section \<open>Progress and content\<close>

lemma GetReport_write:
  assumes "GetReport db reportID = Some r"
  shows "GetReport (apply_write reportID (w, ok) db) reportID =
    Some (if \<not> ok then r else case w of WriteProgress p \<Rightarrow> r\<lparr>rp_Progress := p\<rparr> | WriteContent c \<Rightarrow> r\<lparr>rp_Content := c\<rparr>)"
  using assms
proof (induction db)
  case (Cons x db)
  then show ?case
    by (cases w; cases "rp_ID x = reportID")
      (auto simp: GetReport_def UpdateReportProgress_def SaveReportContent_def split: if_splits)
qed (simp add: GetReport_def)

lemma GetReport_writes:
  assumes "GetReport db reportID = Some r"
  shows "GetReport (fold (apply_write reportID) (map (\<lambda>p. (WriteProgress p, ok p)) ps) db) reportID =
    Some (fold (\<lambda>p r. if ok p then r\<lparr>rp_Progress := p\<rparr> else r) ps r)"
  using assms
proof (induction ps arbitrary: db r)
  case (Cons p ps)
  then show ?case using GetReport_write [OF Cons.prems, of "WriteProgress p" "ok p"]
    by (auto simp del: apply_write.simps split: if_splits)
qed simp

lemma fold_progress_content:
  "rp_Content (fold (\<lambda>p r. if ok p then r\<lparr>rp_Progress := p\<rparr> else r) ps r) = rp_Content r"
  by (induction ps arbitrary: r) simp_all

text \<open>
  A report that is said to be complete need not have a content: the progress 100 is written
  before the content is, and remains when the content is never written. What is read of the
  report at that moment is an assignment without a right-hand side.
\<close>

lemma report_complete_without_content:
  assumes "GetReport db reportID = Some r" and "rp_Content r = ''''"
  shows "\<exists>r'. GetReport (fold (apply_write reportID) (map (\<lambda>p. (WriteProgress p, ok p)) ps @ [(WriteProgress 100, True)]) db) reportID =
      Some r' \<and> rp_Progress r' = 100 \<and> rp_Content r' = ''''" (is "\<exists>r'. GetReport ?db reportID = _ \<and> _")
    and "reportDataHandler
      (fold (apply_write reportID) (map (\<lambda>p. (WriteProgress p, ok p)) ps @ [(WriteProgress 100, True)]) db) reportID =
      Some ''window.__diagnosis_data__ = ''"
    and "\<exists>r'. GetReport (fold (apply_write reportID) (map (\<lambda>p. (WriteProgress p, ok p)) ps @ [(WriteProgress 100, True), (WriteContent c, True)]) db)
      reportID = Some r' \<and> rp_Progress r' = 100 \<and> rp_Content r' = c"
proof -
  let ?r = "fold (\<lambda>p r. if ok p then r\<lparr>rp_Progress := p\<rparr> else r) ps r"
  let ?db1 = "fold (apply_write reportID) (map (\<lambda>p. (WriteProgress p, ok p)) ps) db"
  have r: "GetReport ?db1 reportID = Some ?r" by (rule GetReport_writes [OF assms(1)])
  have content: "rp_Content ?r = ''''" using fold_progress_content assms(2) by metis
  note r1 = GetReport_write [OF r, of "WriteProgress 100" True]
  then have r1: "GetReport (apply_write reportID (WriteProgress 100, True) ?db1) reportID = Some (?r\<lparr>rp_Progress := 100\<rparr>)"
    by (simp del: apply_write.simps)
  note r2 = GetReport_write [OF r1, of "WriteContent c" True]
  show "\<exists>r'. GetReport ?db reportID = Some r' \<and> rp_Progress r' = 100 \<and> rp_Content r' = ''''"
    using r1 content by (simp del: apply_write.simps)
  show "reportDataHandler ?db reportID = Some ''window.__diagnosis_data__ = ''"
    using r1 content by (simp del: apply_write.simps add: reportDataHandler_def)
  show "\<exists>r'. GetReport (fold (apply_write reportID) (map (\<lambda>p. (WriteProgress p, ok p)) ps @ [(WriteProgress 100, True), (WriteContent c, True)]) db)
      reportID = Some r' \<and> rp_Progress r' = 100 \<and> rp_Content r' = c"
    using r2 by (simp del: apply_write.simps)
qed

end
