(* ===== verification/DebugApi.thy ===== *)
theory DebugApi
  imports GoStrings "HOL-Library.AList"
begin

text \<open>
  The debug API (\<open>pkg/apiserver/debugapi\<close>: \<open>apis.go\<close>, \<open>service.go\<close>, \<open>endpoint/models.go\<close>,
  \<open>endpoint/payload.go\<close>): the table of endpoints, and the request that is sent for what a user asks.

  How a parameter is shown is left out. Of the client of a component its transport is modelled, for
  the choice of the scheme (\<open>util/client/httpclient/request.go\<close>). Sending is the request that is
  handed to the HTTP library, which joins the base URL and the path.
\<close>

section \<open>\<open>models.go\<close>\<close>

datatype ComponentKind = KindTiDB | KindTiKV | KindPD | KindTiFlash | KindOther string

text \<open>The functions that check a value; \<open>ResolveAny\<close> is the nil function.\<close>

datatype resolver = ResolveAny | ResolveInt | ResolveEnum "string list" | ResolvePDKey

record APIParamDefinition =
  Name :: string
  Required :: bool
  OnResolve :: resolver

definition quote_value :: "string \<Rightarrow> string" where
  "quote_value v = [CHR 0x27] @ v @ [CHR 0x27]"

definition Resolve :: "APIParamDefinition \<Rightarrow> string \<Rightarrow> string + string list" where
  "Resolve d v =
     (case OnResolve d of
        ResolveAny \<Rightarrow> Inr [v]
      | ResolveInt \<Rightarrow> if ParseInt v = None then Inl (quote_value v @ '' is not a int'') else Inr [v]
      | ResolveEnum items \<Rightarrow> if v \<in> set items then Inr [v] else Inl (quote_value v @ '' is not a valid enum value'')
      | ResolvePDKey \<Rightarrow>
          (case hex_decode v of None \<Rightarrow> Inl (quote_value v @ '' is not a valid hex key'') | Some keyBinary \<Rightarrow> Inr [keyBinary]))"

definition APIParamText :: "string \<Rightarrow> bool \<Rightarrow> APIParamDefinition" where
  "APIParamText name required = \<lparr>Name = name, Required = required, OnResolve = ResolveAny\<rparr>"

definition APIParamInt :: "string \<Rightarrow> bool \<Rightarrow> APIParamDefinition" where
  "APIParamInt name required = \<lparr>Name = name, Required = required, OnResolve = ResolveInt\<rparr>"

definition APIParamDBName :: "string \<Rightarrow> bool \<Rightarrow> APIParamDefinition" where
  "APIParamDBName name required = \<lparr>Name = name, Required = required, OnResolve = ResolveAny\<rparr>"

definition APIParamTableName :: "string \<Rightarrow> bool \<Rightarrow> APIParamDefinition" where
  "APIParamTableName name required = \<lparr>Name = name, Required = required, OnResolve = ResolveAny\<rparr>"

definition APIParamTableID :: "string \<Rightarrow> bool \<Rightarrow> APIParamDefinition" where
  "APIParamTableID name required = \<lparr>Name = name, Required = required, OnResolve = ResolveAny\<rparr>"

definition APIParamEnum :: "string \<Rightarrow> bool \<Rightarrow> string list \<Rightarrow> APIParamDefinition" where
  "APIParamEnum name required items = \<lparr>Name = name, Required = required, OnResolve = ResolveEnum items\<rparr>"

definition APIParamPDKey :: "string \<Rightarrow> bool \<Rightarrow> APIParamDefinition" where
  "APIParamPDKey name required = \<lparr>Name = name, Required = required, OnResolve = ResolvePDKey\<rparr>"

text \<open>\<open>SetHeader\<close> is what \<open>BeforeSendRequest\<close> does.\<close>

record APIDefinition =
  api_ID :: string
  Component :: ComponentKind
  Path :: string
  Method :: string
  PathParams :: "APIParamDefinition list"
  QueryParams :: "APIParamDefinition list"
  SetHeader :: "(string \<times> string) option"

section \<open>\<open>apis.go\<close>\<close>

definition api ::
  "string \<Rightarrow> ComponentKind \<Rightarrow> string \<Rightarrow> APIParamDefinition list \<Rightarrow> APIParamDefinition list \<Rightarrow> (string \<times> string) option \<Rightarrow>
   APIDefinition" where
  "api ident component path path_params query_params header =
     \<lparr>api_ID = ident, Component = component, Path = path, Method = ''GET'', PathParams = path_params,
      QueryParams = query_params, SetHeader = header\<rparr>"

definition commomParamPprofKinds :: APIParamDefinition where
  "commomParamPprofKinds = APIParamEnum ''kind'' True
     [''allocs'', ''block'', ''cmdline'', ''goroutine'', ''heap'', ''mutex'', ''profile'', ''threadcreate'', ''trace'']"

definition commonParamPprofSeconds :: APIParamDefinition where
  "commonParamPprofSeconds = APIParamEnum ''seconds'' False [''10'', ''30'', ''60'']"

definition commonParamPprofDebug :: APIParamDefinition where
  "commonParamPprofDebug = APIParamEnum ''debug'' False [''0'', ''1'', ''2'']"

definition tidb_endpoints :: "APIDefinition list" where
  "tidb_endpoints =
    [api ''tidb_stats_by_table'' KindTiDB ''/stats/dump/{db}/{table}''
       [APIParamDBName ''db'' True, APIParamTableName ''table'' True] [] None,
     api ''tidb_stats_by_table_timestamp'' KindTiDB ''/stats/dump/{db}/{table}/{yyyyMMddHHmmss}''
       [APIParamDBName ''db'' True, APIParamTableName ''table'' True, APIParamText ''yyyyMMddHHmmss'' True] [] None,
     api ''tidb_settings'' KindTiDB ''/settings''
       [] [] None,
     api ''tidb_schema'' KindTiDB ''/schema''
       [] [APIParamTableID ''table_id'' False] None,
     api ''tidb_schema_by_db'' KindTiDB ''/schema/{db}''
       [APIParamDBName ''db'' True] [] None,
     api ''tidb_schema_by_table'' KindTiDB ''/schema/{db}/{table}''
       [APIParamDBName ''db'' True, APIParamTableName ''table'' True] [] None,
     api ''tidb_schema_by_table_id'' KindTiDB ''/db-table/{tableID}''
       [APIParamTableID ''tableID'' True] [] None,
     api ''tidb_ddl_history'' KindTiDB ''/ddl/history''
       [] [] None,
     api ''tidb_server_info'' KindTiDB ''/info''
       [] [] None,
     api ''tidb_all_servers_info'' KindTiDB ''/info/all''
       [] [] None,
     api ''tidb_all_regions_meta'' KindTiDB ''/regions/meta''
       [] [] None,
     api ''tidb_region_meta_by_id'' KindTiDB ''/regions/{regionID}''
       [APIParamInt ''regionID'' True] [] None,
     api ''tidb_table_regions'' KindTiDB ''/tables/{db}/{table}/regions''
       [APIParamDBName ''db'' True, APIParamTableName ''table'' True] [] None,
     api ''tidb_hot_regions'' KindTiDB ''/regions/hot''
       [] [] None,
     api ''tidb_pprof'' KindTiDB ''/debug/pprof/{kind}''
       [commomParamPprofKinds] [commonParamPprofSeconds, commonParamPprofDebug] None]"

definition pd_endpoints1 :: "APIDefinition list" where
  "pd_endpoints1 =
    [api ''pd_cluster_info'' KindPD ''/pd/api/v1/cluster''
       [] [] None,
     api ''pd_cluster_status'' KindPD ''/pd/api/v1/cluster/status''
       [] [] None,
     api ''pd_configs_all'' KindPD ''/pd/api/v1/config''
       [] [] None,
     api ''pd_health'' KindPD ''/pd/api/v1/health''
       [] [] None,
     api ''pd_hot_read'' KindPD ''/pd/api/v1/hotspot/regions/read''
       [] [] None,
     api ''pd_hot_write'' KindPD ''/pd/api/v1/hotspot/regions/write''
       [] [] None,
     api ''pd_hot_stores'' KindPD ''/pd/api/v1/hotspot/stores''
       [] [] None,
     api ''pd_labels_all'' KindPD ''/pd/api/v1/labels''
       [] [] None,
     api ''pd_members_all'' KindPD ''/pd/api/v1/members''
       [] [] None,
     api ''pd_leader'' KindPD ''/pd/api/v1/leader''
       [] [] None,
     api ''pd_operators'' KindPD ''/pd/api/v1/operators''
       [] [APIParamEnum ''kind'' False [''admin'', ''leader'', ''region'']] None,
     api ''pd_regions_all'' KindPD ''/pd/api/v1/regions''
       [] [] None,
     api ''pd_region_by_id'' KindPD ''/pd/api/v1/region/id/{regionID}''
       [APIParamInt ''regionID'' True] [] None]"

definition pd_endpoints2 :: "APIDefinition list" where
  "pd_endpoints2 =
    [api ''pd_region_by_key'' KindPD ''/pd/api/v1/region/key/{regionKey}''
       [APIParamPDKey ''regionKey'' True] [] None,
     api ''pd_regions_sibling_by_id'' KindPD ''/pd/api/v1/regions/sibling/{regionID}''
       [APIParamInt ''regionID'' True] [] None,
     api ''pd_regions_store'' KindPD ''/pd/api/v1/regions/store/{storeID}''
       [APIParamInt ''storeID'' True] [] None,
     api ''pd_regions_by_top_read'' KindPD ''/pd/api/v1/regions/readflow''
       [] [APIParamInt ''limit'' False] None,
     api ''pd_regions_by_top_write'' KindPD ''/pd/api/v1/regions/writeflow''
       [] [APIParamInt ''limit'' False] None,
     api ''pd_regions_by_top_conf_ver'' KindPD ''/pd/api/v1/regions/confver''
       [] [APIParamInt ''limit'' False] None,
     api ''pd_regions_by_top_version'' KindPD ''/pd/api/v1/regions/version''
       [] [APIParamInt ''limit'' False] None,
     api ''pd_regions_by_top_size'' KindPD ''/pd/api/v1/regions/size''
       [] [APIParamInt ''limit'' False] None,
     api ''pd_regions_by_state'' KindPD ''/pd/api/v1/regions/check/{state}''
       [APIParamEnum ''state'' True [''miss-peer'', ''extra-peer'', ''down-peer'', ''pending-peer'', ''offline-peer'', ''empty-region'']] [] None,
     api ''pd_schedulers_all'' KindPD ''/pd/api/v1/schedulers''
       [] [APIParamEnum ''status'' False [''paused'', ''disabled'']] None,
     api ''pd_stores_all'' KindPD ''/pd/api/v1/stores''
       [] [APIParamEnum ''state'' False [''0'', ''1'', ''2'']] None,
     api ''pd_stores_by_label'' KindPD ''/pd/api/v1/labels/stores''
       [] [APIParamText ''name'' True, APIParamText ''value'' True] None,
     api ''pd_store_by_id'' KindPD ''/pd/api/v1/store/{storeID}''
       [APIParamInt ''storeID'' True] [] None,
     api ''pd_pprof'' KindPD ''/pd/api/v1/debug/pprof/{kind}''
       [commomParamPprofKinds] [commonParamPprofSeconds, commonParamPprofDebug] None]"

definition tikv_endpoints :: "APIDefinition list" where
  "tikv_endpoints =
    [api ''tikv_config'' KindTiKV ''/config''
       [] [] None,
     api ''tikv_pprof_profile'' KindTiKV ''/debug/pprof/profile''
       [] [commonParamPprofSeconds] (Some (''Content-Type'', ''application/protobuf''))]"

definition tiflash_endpoints :: "APIDefinition list" where
  "tiflash_endpoints =
    [api ''tiflash_config'' KindTiFlash ''/config''
       [] [] None,
     api ''tiflash_pprof_profile'' KindTiFlash ''/debug/pprof/profile''
       [] [commonParamPprofSeconds] (Some (''Content-Type'', ''application/protobuf''))]"

definition apiEndpoints :: "APIDefinition list" where
  "apiEndpoints = tidb_endpoints @ pd_endpoints1 @ pd_endpoints2 @ tikv_endpoints @ tiflash_endpoints"

section \<open>\<open>payload.go\<close>\<close>

record RequestPayload =
  pl_API :: string
  pl_Host :: string
  pl_Port :: int
  ParamValues :: "string \<rightharpoonup> string"

text \<open>The value of a parameter, empty when it is not given.\<close>

definition param_value :: "RequestPayload \<Rightarrow> string \<Rightarrow> string" where
  "param_value payload name = (case ParamValues payload name of None \<Rightarrow> '''' | Some v \<Rightarrow> v)"

text \<open>
  The transport of a client: one of the standard library, with its TLS configuration (how many
  certificates, whether there are root certificates) if it has one, or another one.
\<close>

datatype transport = HttpTransport "(nat \<times> bool) option" | OtherTransport

definition isMTLSConfigured :: "transport \<Rightarrow> bool" where
  "isMTLSConfigured r =
     (case r of
        OtherTransport \<Rightarrow> False
      | HttpTransport None \<Rightarrow> False
      | HttpTransport (Some (certificates, rootCAs)) \<Rightarrow> if certificates > 0 \<or> rootCAs then True else False)"

definition SetTLSAwareBaseURL :: "transport \<Rightarrow> string \<Rightarrow> string" where
  "SetTLSAwareBaseURL r baseURL =
     (if isMTLSConfigured r \<and> prefix_at ''http://'' baseURL
      then ''https://'' @ drop (length ''http://'') baseURL else baseURL)"

text \<open>The clients of the components, \<open>None\<close> for nil.\<close>

type_synonym HTTPClients = "ComponentKind \<Rightarrow> transport option"

definition GetHTTPClientByNodeKind :: "HTTPClients \<Rightarrow> ComponentKind \<Rightarrow> transport option" where
  "GetHTTPClientByNodeKind c kind =
     (case kind of KindPD \<Rightarrow> c KindPD | KindTiDB \<Rightarrow> c KindTiDB | KindTiKV \<Rightarrow> c KindTiKV | KindTiFlash \<Rightarrow> c KindTiFlash
      | KindOther _ \<Rightarrow> None)"

type_synonym RequestPayloadResolver = "APIDefinition list"

definition NewRequestPayloadResolver :: "APIDefinition list \<Rightarrow> HTTPClients \<Rightarrow> RequestPayloadResolver" where
  "NewRequestPayloadResolver apis acceptedClients = filter (\<lambda>a. GetHTTPClientByNodeKind acceptedClients (Component a) \<noteq> None) apis"

text \<open>The map by identifier: a later definition overwrites an earlier one.\<close>

definition apiMapByID :: "RequestPayloadResolver \<Rightarrow> string \<Rightarrow> APIDefinition option" where
  "apiMapByID r ident = List.find (\<lambda>a. api_ID a = ident) (rev r)"

text \<open>The regular expression \<open>\{(\w+)\}\<close>: each match is replaced by what \<open>f\<close> gives for its name.\<close>

definition word_char :: "char \<Rightarrow> bool" where
  "word_char c \<longleftrightarrow> (let b = byte_of c in
     97 \<le> b \<and> b \<le> 122 \<or> 65 \<le> b \<and> b \<le> 90 \<or> 48 \<le> b \<and> b \<le> 57 \<or> b = 95)"

function replace_placeholders :: "(string \<Rightarrow> string) \<Rightarrow> string \<Rightarrow> string" where
  "replace_placeholders f [] = []"
| "replace_placeholders f (c # s) =
     (let w = takeWhile word_char s; rest = drop (length w) s in
      if c = CHR ''{'' \<and> w \<noteq> [] \<and> take 1 rest = ''}'' then f w @ replace_placeholders f (tl rest)
      else c # replace_placeholders f s)"
  by pat_completeness auto
termination by (relation "measure (\<lambda>(f, s). length s)") auto

declare replace_placeholders.simps(2) [simp del]

datatype debug_error = UnknownAPI string | ParamRequired string | ParamInvalid string string

fun path_values :: "RequestPayload \<Rightarrow> APIParamDefinition list \<Rightarrow> (string \<rightharpoonup> string) \<Rightarrow> debug_error + (string \<rightharpoonup> string)" where
  "path_values payload [] pathValues = Inr pathValues"
| "path_values payload (pathParam # ps) pathValues =
     (let v = param_value payload (Name pathParam) in
      if v = '''' then Inl (ParamRequired (Name pathParam)) else
      (case Resolve pathParam v of
         Inl err \<Rightarrow> Inl (ParamInvalid (Name pathParam) err)
       | Inr resolvedValue \<Rightarrow> path_values payload ps (pathValues(Name pathParam \<mapsto> hd resolvedValue))))"

fun query_values ::
  "RequestPayload \<Rightarrow> APIParamDefinition list \<Rightarrow> (string \<times> string list) list \<Rightarrow> debug_error + (string \<times> string list) list" where
  "query_values payload [] queryValues = Inr queryValues"
| "query_values payload (queryParam # ps) queryValues =
     (let v = param_value payload (Name queryParam) in
      if v = '''' then
        (if Required queryParam then Inl (ParamRequired (Name queryParam)) else query_values payload ps queryValues)
      else
        (case Resolve queryParam v of
           Inl err \<Rightarrow> Inl (ParamInvalid (Name queryParam) err)
         | Inr resolvedValue \<Rightarrow> query_values payload ps (AList.update (Name queryParam) resolvedValue queryValues)))"

record ResolvedRequestPayload =
  rp_api :: APIDefinition
  rp_host :: string
  rp_port :: int
  rp_path :: string
  queryValues :: "(string \<times> string list) list"

definition ResolvePayload :: "RequestPayloadResolver \<Rightarrow> RequestPayload \<Rightarrow> debug_error + ResolvedRequestPayload" where
  "ResolvePayload r payload =
     (case apiMapByID r (pl_API payload) of None \<Rightarrow> Inl (UnknownAPI (pl_API payload)) | Some a \<Rightarrow>
     (case path_values payload (PathParams a) Map.empty of Inl e \<Rightarrow> Inl e | Inr pathValues \<Rightarrow>
      let path = replace_placeholders (\<lambda>key. PathEscape (case pathValues key of None \<Rightarrow> '''' | Some v \<Rightarrow> v)) (Path a) in
      (case query_values payload (QueryParams a) [] of Inl e \<Rightarrow> Inl e | Inr qs \<Rightarrow>
       Inr \<lparr>rp_api = a, rp_host = pl_Host payload, rp_port = pl_Port payload, rp_path = path, queryValues = qs\<rparr>)))"

text \<open>
  The request that the client of the component sends. \<open>join\<close> is the HTTP library: the URL of a base
  URL and a request URL, \<open>None\<close> if one of them does not parse.
\<close>

record sent_request =
  sr_kind :: ComponentKind
  sr_url :: string
  sr_method :: string
  sr_query :: "(string \<times> string list) list"
  sr_header :: "(string \<times> string) option"

type_synonym url_join = "string \<Rightarrow> string \<Rightarrow> string option"

definition SendRequest :: "url_join \<Rightarrow> HTTPClients \<Rightarrow> ResolvedRequestPayload \<Rightarrow> string + sent_request" where
  "SendRequest join clientsToUse p =
     (case GetHTTPClientByNodeKind clientsToUse (Component (rp_api p)) of
        None \<Rightarrow> Inl ''Unknown component''
      | Some r \<Rightarrow>
          (case join (SetTLSAwareBaseURL r (''http://'' @ rp_host p @ '':'' @ dec_string (rp_port p))) (rp_path p) of
             None \<Rightarrow> Inl ''invalid URL''
           | Some url \<Rightarrow>
               Inr \<lparr>sr_kind = Component (rp_api p), sr_url = url, sr_method = Method (rp_api p),
                    sr_query = queryValues p, sr_header = SetHeader (rp_api p)\<rparr>))"

text \<open>\<open>service.go\<close>: the extension of a download; the media type and its extensions are those of the \<open>mime\<close> package.\<close>

definition getExtFromContentTypeHeader :: "string option \<Rightarrow> string list option \<Rightarrow> string" where
  "getExtFromContentTypeHeader mediaType exts =
     (case mediaType of
        None \<Rightarrow> ''.bin''
      | Some m \<Rightarrow>
          if length m = 0 then ''.bin''
          else if m = ''text/plain'' then ''.txt''
          else (case exts of Some (e # _) \<Rightarrow> e | _ \<Rightarrow> ''.bin''))"

text \<open>\<open>RequestEndpoint\<close> up to the answer of the component.\<close>

definition RequestEndpoint :: "url_join \<Rightarrow> HTTPClients \<Rightarrow> RequestPayload option \<Rightarrow> (debug_error option) + (string + sent_request)" where
  "RequestEndpoint join clients payload =
     (case payload of
        None \<Rightarrow> Inl None
      | Some req \<Rightarrow>
          (case ResolvePayload (NewRequestPayloadResolver apiEndpoints clients) req of
             Inl e \<Rightarrow> Inl (Some e)
           | Inr resolved \<Rightarrow> Inr (SendRequest join clients resolved)))"

section \<open>Paths by segments\<close>

datatype path_seg = Lit string | Hole string

definition seg_of :: "string \<Rightarrow> path_seg" where
  "seg_of s = (if take 1 s = ''{'' then Hole (butlast (tl s)) else Lit s)"

definition path_segments :: "string \<Rightarrow> path_seg list" where
  "path_segments p = map seg_of (tl (strings_Split p ''/''))"

fun seg_text :: "(string \<Rightarrow> string) \<Rightarrow> path_seg \<Rightarrow> string" where
  "seg_text f (Lit l) = l"
| "seg_text f (Hole n) = f n"

definition path_of :: "(string \<Rightarrow> string) \<Rightarrow> path_seg list \<Rightarrow> string" where
  "path_of f segs = concat (map (\<lambda>s. ''/'' @ seg_text f s) segs)"

definition braced :: "string \<Rightarrow> string" where
  "braced n = ''{'' @ n @ ''}''"

fun good_seg :: "path_seg \<Rightarrow> bool" where
  "good_seg (Lit l) \<longleftrightarrow> CHR ''{'' \<notin> set l"
| "good_seg (Hole n) \<longleftrightarrow> n \<noteq> [] \<and> list_all word_char n"

text \<open>What holds of every endpoint: its path is read back from its segments, and each hole is a path parameter.\<close>

definition api_ok :: "APIDefinition \<Rightarrow> bool" where
  "api_ok a \<longleftrightarrow> Path a = path_of braced (path_segments (Path a)) \<and> list_all good_seg (path_segments (Path a)) \<and>
     list_all (\<lambda>s. case s of Lit l \<Rightarrow> True | Hole n \<Rightarrow> n \<in> set (map Name (PathParams a))) (path_segments (Path a)) \<and>
     distinct (map Name (PathParams a)) \<and> Method a = ''GET''"

lemma endpoints_ok: "list_all api_ok apiEndpoints"
  by code_simp

lemma endpoints_distinct: "distinct (map api_ID apiEndpoints)"
  by code_simp

lemma replace_literal: "CHR ''{'' \<notin> set l \<Longrightarrow> replace_placeholders f (l @ s) = l @ replace_placeholders f s"
  by (induction l) (auto simp: replace_placeholders.simps(2) Let_def)

lemma replace_hole:
  assumes "n \<noteq> []" and "list_all word_char n"
  shows "replace_placeholders f (braced n @ s) = f n @ replace_placeholders f s"
proof -
  have "\<not> word_char (CHR ''}'')" by code_simp
  then have "takeWhile word_char (n @ ''}'' @ s) = n"
    using assms(2) by (simp add: takeWhile_append2 list_all_iff)
  then show ?thesis using assms(1) by (simp add: braced_def replace_placeholders.simps(2) Let_def)
qed

lemma replace_path_of:
  "list_all good_seg segs \<Longrightarrow> replace_placeholders f (path_of braced segs) = path_of f segs"
proof (induction segs)
  case (Cons s segs)
  have "replace_placeholders f (''/'' @ seg_text braced s @ path_of braced segs) =
      ''/'' @ replace_placeholders f (seg_text braced s @ path_of braced segs)"
    using replace_literal [of "''/''"] by simp
  also have "replace_placeholders f (seg_text braced s @ path_of braced segs) =
      seg_text f s @ replace_placeholders f (path_of braced segs)"
    using Cons.prems by (cases s) (simp_all add: replace_literal replace_hole)
  finally show ?case using Cons by (simp add: path_of_def)
qed (simp add: path_of_def)

section \<open>What can be requested\<close>

lemma find_member: "List.find P xs = Some x \<Longrightarrow> x \<in> set xs \<and> P x"
  by (induction xs) (auto split: if_splits)

lemma path_values_Inr:
  assumes "path_values payload ps m = Inr m'" and "distinct (map Name ps)"
  shows "(\<forall>p\<in>set ps. param_value payload (Name p) \<noteq> '''' \<and>
      (\<exists>vs. Resolve p (param_value payload (Name p)) = Inr vs \<and> m' (Name p) = Some (hd vs))) \<and>
    (\<forall>n. n \<notin> set (map Name ps) \<longrightarrow> m' n = m n)"
  using assms
proof (induction payload ps m rule: path_values.induct)
  case (2 payload p ps m)
  obtain vs where r: "param_value payload (Name p) \<noteq> ''''" "Resolve p (param_value payload (Name p)) = Inr vs"
    "path_values payload ps (m(Name p \<mapsto> hd vs)) = Inr m'"
    using "2.prems"(1) by (auto simp: Let_def split: if_splits sum.splits)
  note IH = "2.IH" [OF refl r(1,2) r(3)]
  show ?case using IH "2.prems"(2) r by auto
qed simp

lemma in_update: "kv \<in> set (AList.update k v al) \<Longrightarrow> kv = (k, v) \<or> kv \<in> set al"
  by (induction al) (auto split: if_splits)

lemma query_values_Inr:
  assumes "query_values payload ps qs = Inr qs'" and "(k, vs) \<in> set qs'"
  shows "(k, vs) \<in> set qs \<or>
    (\<exists>p\<in>set ps. Name p = k \<and> param_value payload k \<noteq> '''' \<and> Resolve p (param_value payload k) = Inr vs)"
  using assms
proof (induction payload ps qs rule: query_values.induct)
  case (2 payload p ps qs)
  show ?case
  proof (cases "param_value payload (Name p) = ''''")
    case True
    then show ?thesis using 2 by (auto simp: Let_def split: if_splits)
  next
    case False
    then obtain ws where r: "Resolve p (param_value payload (Name p)) = Inr ws"
      "query_values payload ps (AList.update (Name p) ws qs) = Inr qs'"
      using "2.prems"(1) by (auto simp: Let_def split: sum.splits)
    from "2.IH"(2) [OF refl False r(1,2) "2.prems"(2)] consider
        "(k, vs) \<in> set (AList.update (Name p) ws qs)"
      | "\<exists>p\<in>set ps. Name p = k \<and> param_value payload k \<noteq> '''' \<and> Resolve p (param_value payload k) = Inr vs" by blast
    then show ?thesis
    proof cases
      case 1
      then have "(k, vs) = (Name p, ws) \<or> (k, vs) \<in> set qs" by (rule in_update)
      then show ?thesis using r(1) False by auto
    qed auto
  qed
qed simp

lemma PathEscape_plain: "c \<in> set (PathEscape s) \<Longrightarrow> c \<notin> set ''/?#''"
proof -
  have hex: "upper_hex_digit n \<notin> set ''/?#''" if "n < 16" for n
  proof -
    have "list_all (\<lambda>n. upper_hex_digit n \<notin> set ''/?#'') [0..<16]" by code_simp
    then show ?thesis using that by (simp add: list_all_iff)
  qed
  have keep: "c \<notin> set ''/?#''" if "path_keeps c" for c
    using that by (auto simp: path_keeps_def byte_of_def)
  have b: "byte_of c div 16 < 16" "byte_of c mod 16 < 16" for c using byte_of_less [of c] by simp_all
  assume "c \<in> set (PathEscape s)"
  then show ?thesis using hex b keep by (auto simp: PathEscape_def split: if_splits)
qed

lemma hex_decode_empty: "hex_decode v = Some [] \<Longrightarrow> v = []"
  by (induction v rule: hex_decode.induct) (auto split: bind_splits)

lemma Resolve_nonempty:
  assumes "Resolve p v = Inr vs" and "v \<noteq> ''''"
  shows "hd vs \<noteq> ''''"
  using assms hex_decode_empty [of v] by (auto simp: Resolve_def split: resolver.splits if_splits option.splits)

text \<open>
  What the HTTP library documents of a relative URL: it is based on the base URL. For a base without
  a slash at the end and a path of escaped segments that is the one after the other.
\<close>

definition join_law :: "url_join \<Rightarrow> bool" where
  "join_law join \<longleftrightarrow> (\<forall>base segs url. base \<noteq> [] \<longrightarrow> last base \<noteq> CHR ''/'' \<longrightarrow> segs \<noteq> [] \<longrightarrow> [] \<notin> set segs \<longrightarrow>
     join base (concat (map (\<lambda>s. ''/'' @ PathEscape s) segs)) = Some url \<longrightarrow>
     url = base @ concat (map (\<lambda>s. ''/'' @ PathEscape s) segs))"

text \<open>The scheme that a client uses.\<close>

definition scheme_of :: "transport \<Rightarrow> string" where
  "scheme_of r = (if isMTLSConfigured r then ''https://'' else ''http://'')"

lemma SetTLSAwareBaseURL_http: "SetTLSAwareBaseURL r (''http://'' @ s) = scheme_of r @ s"
  by (simp add: SetTLSAwareBaseURL_def scheme_of_def prefix_at_def)

text \<open>The literals of the paths are their own escapes, and no path is empty.\<close>

lemma endpoints_literal:
  "list_all (\<lambda>a. path_segments (Path a) \<noteq> [] \<and>
     list_all (\<lambda>s. case s of Lit l \<Rightarrow> l \<noteq> [] \<and> PathEscape l = l | Hole n \<Rightarrow> True) (path_segments (Path a))) apiEndpoints"
  by code_simp

lemma dec_string_last: "dec_string n \<noteq> [] \<and> last (dec_string n) \<noteq> CHR ''/''"
proof -
  have "\<exists>s c. dec_digits k = s @ [c] \<and> byte_of c \<in> {48..57}" for k :: nat
    by (subst dec_digits.simps) (auto simp: byte_of_def)
  then obtain s c where "dec_digits (nat \<bar>n\<bar>) = s @ [c]" "byte_of c \<in> {48..57}" by blast
  then show ?thesis by (auto simp: dec_string_def byte_of_def)
qed

definition seg_value :: "(string \<Rightarrow> string) \<Rightarrow> path_seg \<Rightarrow> string" where
  "seg_value f s = (case s of Lit l \<Rightarrow> l | Hole n \<Rightarrow> f n)"

lemma path_of_escaped:
  "list_all (\<lambda>s. case s of Lit l \<Rightarrow> l \<noteq> [] \<and> PathEscape l = l | Hole n \<Rightarrow> True) segs \<Longrightarrow>
   path_of (\<lambda>n. PathEscape (f n)) segs = concat (map (\<lambda>s. ''/'' @ PathEscape s) (map (seg_value f) segs))"
  by (induction segs) (auto simp: path_of_def seg_value_def split: path_seg.splits)

lemma api_path:
  assumes "api_ok a"
  shows "replace_placeholders f (Path a) = path_of f (path_segments (Path a))"
proof -
  have segs: "Path a = path_of braced (path_segments (Path a))" "list_all good_seg (path_segments (Path a))"
    using assms by (simp_all add: api_ok_def)
  have "replace_placeholders f (Path a) = replace_placeholders f (path_of braced (path_segments (Path a)))"
    by (rule arg_cong [OF segs(1)])
  then show ?thesis by (simp add: replace_path_of [OF segs(2)])
qed

lemma api_hole:
  assumes "api_ok a" and "Hole n \<in> set (path_segments (Path a))"
  shows "\<exists>p\<in>set (PathParams a). Name p = n"
proof -
  have "\<forall>s\<in>set (path_segments (Path a)). case s of Lit l \<Rightarrow> True | Hole n \<Rightarrow> n \<in> set (map Name (PathParams a))"
    using assms(1) by (simp add: api_ok_def list_all_iff)
  from bspec [OF this assms(2)] show ?thesis by auto
qed

lemma SendRequest_Inr:
  assumes "SendRequest join clients p = Inr req"
  obtains r url where "clients (Component (rp_api p)) = Some r"
    and "join (scheme_of r @ rp_host p @ '':'' @ dec_string (rp_port p)) (rp_path p) = Some url"
    and "req = \<lparr>sr_kind = Component (rp_api p), sr_url = url, sr_method = Method (rp_api p),
      sr_query = queryValues p, sr_header = SetHeader (rp_api p)\<rparr>"
proof -
  obtain r where r: "GetHTTPClientByNodeKind clients (Component (rp_api p)) = Some r"
    using assms by (auto simp: SendRequest_def split: option.splits)
  then have "clients (Component (rp_api p)) = Some r"
    by (simp add: GetHTTPClientByNodeKind_def split: ComponentKind.splits)
  then show ?thesis
    using that assms r SetTLSAwareBaseURL_http [of r] by (auto simp: SendRequest_def split: option.splits)
qed

lemma join_path:
  assumes "join_law join" and "a \<in> set apiEndpoints"
    and "join (s @ '':'' @ dec_string n) (path_of (\<lambda>n. PathEscape (v n)) (path_segments (Path a))) = Some url"
    and "\<forall>n. Hole n \<in> set (path_segments (Path a)) \<longrightarrow> v n \<noteq> []"
  shows "url = (s @ '':'' @ dec_string n) @ path_of (\<lambda>n. PathEscape (v n)) (path_segments (Path a))"
proof -
  let ?segs = "map (seg_value v) (path_segments (Path a))"
  have lit: "path_segments (Path a) \<noteq> []"
    "list_all (\<lambda>s. case s of Lit l \<Rightarrow> l \<noteq> [] \<and> PathEscape l = l | Hole n \<Rightarrow> True) (path_segments (Path a))"
    using bspec [OF endpoints_literal [unfolded list_all_iff] assms(2)] by (simp_all add: list_all_iff)
  have ne: "[] \<notin> set ?segs"
    using lit(2) assms(4) by (force simp: seg_value_def list_all_iff split: path_seg.splits)
  have "s @ '':'' @ dec_string n \<noteq> []" "last (s @ '':'' @ dec_string n) \<noteq> CHR ''/''"
    using dec_string_last [of n] by simp_all
  then show ?thesis
    using assms(1,3) lit(1) ne unfolding path_of_escaped [OF lit(2)] join_law_def by blast
qed

text \<open>
  C26: what a request of the debug API is made of. Its URL is the text of a base, \<open>http://\<close> (\<open>https://\<close> if
  the client of the component has certificates) with the host and the port that the user gave,
  followed by the path of an endpoint of the table, of a component that has a client. In the path
  each placeholder is replaced by the escape of a value that its parameter accepts: it is not
  empty and adds no slash, question mark or hash, so that the path has the segments of the
  endpoint. The method is GET and the query has the declared parameters with accepted values
  only. Where the request ends up is not confined: the host is not checked, and the value of a text
  parameter may be two dots, which the escape keeps (\<open>demo_request\<close>, \<open>demo_host\<close>).
\<close>

theorem debug_request_confined:
  assumes "join_law join" and "RequestEndpoint join clients (Some payload) = Inr (Inr req)"
  shows "\<exists>a\<in>set apiEndpoints. \<exists>r. api_ID a = pl_API payload \<and> clients (Component a) = Some r \<and>
    sr_kind req = Component a \<and> sr_method req = ''GET'' \<and> sr_header req = SetHeader a \<and>
    (\<exists>v. sr_url req = (if isMTLSConfigured r then ''https://'' else ''http://'') @ pl_Host payload @ '':'' @
           dec_string (pl_Port payload) @ path_of (\<lambda>n. PathEscape (v n)) (path_segments (Path a)) \<and>
      (\<forall>n. Hole n \<in> set (path_segments (Path a)) \<longrightarrow>
         v n \<noteq> '''' \<and> set (PathEscape (v n)) \<inter> set ''/?#'' = {} \<and>
         (\<exists>p\<in>set (PathParams a). Name p = n \<and> (\<exists>vs. Resolve p (param_value payload n) = Inr vs \<and> v n = hd vs)))) \<and>
    (\<forall>(k, vs)\<in>set (sr_query req). \<exists>p\<in>set (QueryParams a). Name p = k \<and> Resolve p (param_value payload k) = Inr vs)"
proof -
  obtain r where r: "ResolvePayload (NewRequestPayloadResolver apiEndpoints clients) payload = Inr r" "SendRequest join clients r = Inr req"
    using assms(2) by (auto simp: RequestEndpoint_def split: sum.splits)
  obtain a m qs where a: "apiMapByID (NewRequestPayloadResolver apiEndpoints clients) (pl_API payload) = Some a"
    "path_values payload (PathParams a) Map.empty = Inr m" "query_values payload (QueryParams a) [] = Inr qs"
    and r': "r = \<lparr>rp_api = a, rp_host = pl_Host payload, rp_port = pl_Port payload,
      rp_path = replace_placeholders (\<lambda>key. PathEscape (case m key of None \<Rightarrow> '''' | Some v \<Rightarrow> v)) (Path a), queryValues = qs\<rparr>"
    using r(1) by (auto simp: ResolvePayload_def Let_def split: option.splits sum.splits)
  have mem: "a \<in> set apiEndpoints" "GetHTTPClientByNodeKind clients (Component a) \<noteq> None" "api_ID a = pl_API payload"
    using find_member [OF a(1) [unfolded apiMapByID_def]] by (simp_all add: NewRequestPayloadResolver_def)
  then have ok: "api_ok a" using endpoints_ok by (simp add: list_all_iff)
  let ?v = "\<lambda>key. case m key of None \<Rightarrow> '''' | Some v \<Rightarrow> v"
  have path: "rp_path r = path_of (\<lambda>n. PathEscape (?v n)) (path_segments (Path a))"
    using api_path [OF ok, of "\<lambda>n. PathEscape (?v n)"] by (simp add: r')
  have vals: "\<forall>p\<in>set (PathParams a). param_value payload (Name p) \<noteq> '''' \<and>
      (\<exists>vs. Resolve p (param_value payload (Name p)) = Inr vs \<and> m (Name p) = Some (hd vs))"
    using path_values_Inr [OF a(2)] ok unfolding api_ok_def by blast
  have hole: "?v n \<noteq> '''' \<and> set (PathEscape (?v n)) \<inter> set ''/?#'' = {} \<and>
      (\<exists>p\<in>set (PathParams a). Name p = n \<and> (\<exists>vs. Resolve p (param_value payload n) = Inr vs \<and> ?v n = hd vs))"
    if h: "Hole n \<in> set (path_segments (Path a))" for n
  proof -
    obtain p where p: "p \<in> set (PathParams a)" "Name p = n" using api_hole [OF ok h] by blast
    then obtain vs where vs: "Resolve p (param_value payload n) = Inr vs" "m n = Some (hd vs)" "param_value payload n \<noteq> ''''"
      using vals by blast
    then show ?thesis using p Resolve_nonempty [OF vs(1,3)] PathEscape_plain [of _ "hd vs"] by auto
  qed
  obtain c url where client: "clients (Component a) = Some c"
    and url: "join (scheme_of c @ pl_Host payload @ '':'' @ dec_string (pl_Port payload)) (rp_path r) = Some url"
    and req: "req = \<lparr>sr_kind = Component a, sr_url = url, sr_method = Method a, sr_query = qs, sr_header = SetHeader a\<rparr>"
    using SendRequest_Inr [OF r(2)] by (auto simp: r')
  have "url = (scheme_of c @ pl_Host payload @ '':'' @ dec_string (pl_Port payload)) @ path_of (\<lambda>n. PathEscape (?v n)) (path_segments (Path a))"
    using join_path [OF assms(1) mem(1), where v = ?v and s = "scheme_of c @ pl_Host payload" and n = "pl_Port payload" and url = url]
      hole url unfolding path by auto
  moreover have query: "\<forall>(k, vs)\<in>set qs. \<exists>p\<in>set (QueryParams a). Name p = k \<and> Resolve p (param_value payload k) = Inr vs"
    using query_values_Inr [OF a(3)] by fastforce
  ultimately show ?thesis
    using mem client ok hole unfolding req
    by (intro bexI [of _ a] exI [of _ c] conjI exI [of _ ?v]) (simp_all add: api_ok_def scheme_of_def)
qed

definition demo_payload :: RequestPayload where
  "demo_payload = \<lparr>pl_API = ''tidb_schema_by_table'', pl_Host = ''h'', pl_Port = 80,
     ParamValues = [''db'' \<mapsto> ''..'', ''table'' \<mapsto> ''a/b'']\<rparr>"

definition demo_clients :: HTTPClients where
  "demo_clients kind = (if kind = KindTiDB then Some (HttpTransport (Some (1, False))) else None)"

definition demo_join :: url_join where
  "demo_join base path = Some (base @ path)"

text \<open>A segment of dots is a value too: the path of this request leaves \<open>/schema\<close> where dots are resolved.\<close>

lemma demo_request:
  "case RequestEndpoint demo_join demo_clients (Some demo_payload) of
     Inr (Inr req) \<Rightarrow> sr_url req = ''https://h:80/schema/../a%2Fb'' | _ \<Rightarrow> False"
  by code_simp

text \<open>A host with a question mark makes the path of the endpoint a part of the query.\<close>

lemma demo_host:
  "case RequestEndpoint demo_join demo_clients (Some (demo_payload\<lparr>pl_Host := ''h/x?''\<rparr>)) of
     Inr (Inr req) \<Rightarrow> sr_url req = ''https://h/x?:80/schema/../a%2Fb'' | _ \<Rightarrow> False"
  by code_simp

lemma demo_api:
  "list_all (\<lambda>a. api_ID a = ''tidb_schema_by_table'' \<longrightarrow> a = api ''tidb_schema_by_table'' KindTiDB ''/schema/{db}/{table}''
     [APIParamDBName ''db'' True, APIParamTableName ''table'' True] [] None) apiEndpoints"
  by code_simp

lemma demo_segments: "path_segments ''/schema/{db}/{table}'' = [Lit ''schema'', Hole ''db'', Hole ''table'']"
  by code_simp

lemma debug_request_confined_witness:
  "\<exists>req v. RequestEndpoint demo_join demo_clients (Some demo_payload) = Inr (Inr req) \<and> sr_method req = ''GET'' \<and>
     sr_url req = ''https://h:80/schema/'' @ PathEscape (v ''db'') @ ''/'' @ PathEscape (v ''table'')"
proof -
  obtain req where req: "RequestEndpoint demo_join demo_clients (Some demo_payload) = Inr (Inr req)"
    using demo_request
    by (cases "RequestEndpoint demo_join demo_clients (Some demo_payload)";
        cases "projr (RequestEndpoint demo_join demo_clients (Some demo_payload))") simp_all
  have law: "join_law demo_join" by (simp add: join_law_def demo_join_def)
  have port: "dec_string 80 = ''80''" by code_simp
  have tls: "isMTLSConfigured (HttpTransport (Some (1, False)))" by (simp add: isMTLSConfigured_def)
  from debug_request_confined [OF law req] obtain a r v where a: "a \<in> set apiEndpoints" "api_ID a = ''tidb_schema_by_table''"
    "demo_clients (Component a) = Some r" and u: "sr_method req = ''GET''"
    "sr_url req = (if isMTLSConfigured r then ''https://'' else ''http://'') @ ''h:80'' @
       path_of (\<lambda>n. PathEscape (v n)) (path_segments (Path a))"
    by (auto simp: demo_payload_def port)
  have "a = api ''tidb_schema_by_table'' KindTiDB ''/schema/{db}/{table}''
      [APIParamDBName ''db'' True, APIParamTableName ''table'' True] [] None"
    using a(1,2) demo_api by (simp add: list_all_iff)
  then have "path_segments (Path a) = [Lit ''schema'', Hole ''db'', Hole ''table'']" "r = HttpTransport (Some (1, False))"
    using a(3) by (auto simp: api_def demo_segments demo_clients_def)
  then show ?thesis using req u tls by (auto simp: path_of_def)
qed

end
