(* ===== verification/PromAddress.thy ===== *)
theory PromAddress
  imports GoStrings
begin

text \<open>
  The address of Prometheus (\<open>pkg/apiserver/metrics/prom_resolve.go\<close> and the handlers of
  \<open>router.go\<close>): how it is found, cached for a time and set.

  PD, etcd, \<open>url.Parse\<close>, the encoding of a query and Prometheus are arguments. Times are nanoseconds
  since 1970. Concurrent requests for the address share one resolution, of which there is one at a
  time; its parts (the look at the cache, the end of the resolution, the store) are steps of
  their own, and so are the two parts of setting an address (PD is told, the cache is stored), so
  that the steps of requests can fall between each other.
\<close>

section \<open>Resolution\<close>

record parsed_url =
  Scheme :: string
  Host :: string

definition normalizeCustomizedPromAddress :: "(string \<Rightarrow> string + parsed_url) \<Rightarrow> string \<Rightarrow> string + string" where
  "normalizeCustomizedPromAddress url_parse addr =
     (let addr = (if \<not> prefix_at ''http://'' addr \<and> \<not> prefix_at ''https://'' addr then ''http://'' @ addr else addr) in
      case url_parse addr of
        Inl err \<Rightarrow> Inl (''invalid Prometheus address format: '' @ err)
      | Inr u \<Rightarrow>
          if length (Host u) = 0 \<or> length (Scheme u) = 0 then Inl ''invalid Prometheus address format''
          else Inr (Scheme u @ ''://'' @ Host u))"

text \<open>\<open>config\<close> is the metric storage in the configuration of PD, if it can be read.\<close>

definition resolveCustomizedPromAddress ::
  "(string \<Rightarrow> string + parsed_url) \<Rightarrow> string + string \<Rightarrow> bool \<Rightarrow> string + string" where
  "resolveCustomizedPromAddress url_parse config acceptInvalidAddr =
     (case config of
        Inl err \<Rightarrow> Inl err
      | Inr addr \<Rightarrow>
          if 0 < length addr then
            (if acceptInvalidAddr then Inr addr else normalizeCustomizedPromAddress url_parse addr)
          else Inr '''')"

definition resolveDeployedPromAddress :: "string + (string \<times> int) option \<Rightarrow> string + string" where
  "resolveDeployedPromAddress topology =
     (case topology of
        Inl err \<Rightarrow> Inl err
      | Inr None \<Rightarrow> Inr ''''
      | Inr (Some (ip, port)) \<Rightarrow> Inr (''http://'' @ ip @ '':'' @ dec_string port))"

definition resolveFinalPromAddress ::
  "(string \<Rightarrow> string + parsed_url) \<Rightarrow> string + string \<Rightarrow> string + (string \<times> int) option \<Rightarrow> string + string" where
  "resolveFinalPromAddress url_parse config topology =
     (case resolveCustomizedPromAddress url_parse config False of
        Inl err \<Rightarrow> Inl err
      | Inr addr \<Rightarrow>
          if addr \<noteq> '''' then Inr addr else
          (case resolveDeployedPromAddress topology of
             Inl err \<Rightarrow> Inl err
           | Inr addr \<Rightarrow> if addr \<noteq> '''' then Inr addr else Inr ''''))"

section \<open>The cache\<close>

definition promCacheTTL :: int where
  "promCacheTTL = 5 * 1000000000"

record promAddressCacheEntity =
  address :: string
  cacheAt :: int

definition zero_instant :: int where
  "zero_instant = - 62135596800 * 1000000000"

text \<open>The cache, the resolution in flight, and the addresses that PD was told and that are still to be stored.\<close>

datatype flight = Resolving | Resolved string

record prom_state =
  promAddressCache :: "promAddressCacheEntity option"
  promFlight :: "flight option"
  setsPending :: "string list"

type_synonym prom_reply = "(string + string) option"

text \<open>
  \<open>getPromAddressFromCache\<close> in steps: the check at the time \<open>now\<close>, what the resolution gives, the
  store at the time \<open>now\<close>. A step gives the answer of the requests that wait, or none yet.
\<close>

definition get_check :: "int \<Rightarrow> prom_state \<Rightarrow> prom_reply \<times> prom_state" where
  "get_check now s =
     (case promAddressCache s of
        None \<Rightarrow> (None, s\<lparr>promFlight := Some Resolving\<rparr>)
      | Some entity \<Rightarrow>
          if now < cacheAt entity + promCacheTTL then (Some (Inr (address entity)), s)
          else (None, s\<lparr>promFlight := Some Resolving\<rparr>))"

definition get_resolved :: "string + string \<Rightarrow> prom_state \<Rightarrow> prom_reply \<times> prom_state" where
  "get_resolved r s =
     (case r of
        Inl err \<Rightarrow> (Some (Inl err), s\<lparr>promFlight := None\<rparr>)
      | Inr addr \<Rightarrow> (None, s\<lparr>promFlight := Some (Resolved addr)\<rparr>))"

definition get_store :: "int \<Rightarrow> string \<Rightarrow> prom_state \<Rightarrow> prom_reply \<times> prom_state" where
  "get_store now addr s =
     (Some (Inr addr), s\<lparr>promAddressCache := Some \<lparr>address = addr, cacheAt = now\<rparr>, promFlight := None\<rparr>)"

text \<open>
  \<open>setCustomPromAddress\<close> up to the answer of PD (\<open>post_err\<close> is the error of the request to PD, which is
  sent for a valid address), and its store in the cache.
\<close>

definition setCustomPromAddress ::
  "(string \<Rightarrow> string + parsed_url) \<Rightarrow> (string \<Rightarrow> string option) \<Rightarrow> string \<Rightarrow> string + string" where
  "setCustomPromAddress url_parse post_err addr =
     (case (if 0 < length addr then normalizeCustomizedPromAddress url_parse addr else Inr addr) of
        Inl err \<Rightarrow> Inl err
      | Inr addr \<Rightarrow> (case post_err addr of Some err \<Rightarrow> Inl err | None \<Rightarrow> Inr addr))"

definition set_post ::
  "(string \<Rightarrow> string + parsed_url) \<Rightarrow> (string \<Rightarrow> string option) \<Rightarrow> string \<Rightarrow> prom_state \<Rightarrow> prom_reply \<times> prom_state" where
  "set_post url_parse post_err addr s =
     (case setCustomPromAddress url_parse post_err addr of
        Inl err \<Rightarrow> (Some (Inl err), s)
      | Inr addr \<Rightarrow> (None, s\<lparr>setsPending := setsPending s @ [addr]\<rparr>))"

definition set_store :: "string \<Rightarrow> prom_state \<Rightarrow> prom_reply \<times> prom_state" where
  "set_store addr s =
     (Some (Inr addr), s\<lparr>promAddressCache := Some \<lparr>address = addr, cacheAt = zero_instant\<rparr>,
        setsPending := remove1 addr (setsPending s)\<rparr>)"

section \<open>The handlers\<close>

datatype prom_error = ErrLoadPrometheusAddressFailed string | ErrPrometheusNotFound | ErrPrometheusQueryFailed string

record QueryRequest =
  StartTimeSec :: int
  EndTimeSec :: int
  StepSec :: int
  Query :: string

definition query_uri :: "((string \<times> string) list \<Rightarrow> string) \<Rightarrow> string \<Rightarrow> QueryRequest \<Rightarrow> string" where
  "query_uri encode addr req =
     (let params = [(''query'', Query req), (''start'', dec_string (StartTimeSec req)), (''end'', dec_string (EndTimeSec req)),
            (''step'', dec_string (StepSec req))]
      in addr @ ''/api/v1/query_range?'' @ encode params)"

text \<open>\<open>prom\<close> gives the status and the body, or an error.\<close>

definition queryMetrics ::
  "((string \<times> string) list \<Rightarrow> string) \<Rightarrow> (string \<Rightarrow> string + int \<times> string) \<Rightarrow> string + string \<Rightarrow> QueryRequest \<Rightarrow> prom_error + string" where
  "queryMetrics encode prom got req =
     (case got of
        Inl err \<Rightarrow> Inl (ErrLoadPrometheusAddressFailed err)
      | Inr addr \<Rightarrow>
          if addr = '''' then Inl ErrPrometheusNotFound else
          (case prom (query_uri encode addr req) of
             Inl err \<Rightarrow> Inl (ErrPrometheusQueryFailed err)
           | Inr (status, body) \<Rightarrow>
               if status \<noteq> 200 then Inl (ErrPrometheusQueryFailed ''failed to query Prometheus'') else Inr body))"

definition getPromAddressConfig ::
  "(string \<Rightarrow> string + parsed_url) \<Rightarrow> string + string \<Rightarrow> string + (string \<times> int) option \<Rightarrow> string + string \<times> string" where
  "getPromAddressConfig url_parse config topology =
     (case resolveCustomizedPromAddress url_parse config True of Inl err \<Rightarrow> Inl err | Inr cAddr \<Rightarrow>
     (case resolveDeployedPromAddress topology of Inl err \<Rightarrow> Inl err | Inr dAddr \<Rightarrow> Inr (cAddr, dAddr)))"

section \<open>Runs\<close>

datatype prom_event =
    GetCheck int
  | GetResolved "string + string"
  | GetStore int
  | SetPost string "string option"
  | SetStore string

text \<open>\<open>None\<close> is a step that cannot be taken: a request that comes while a resolution is in flight waits for it.\<close>

fun prom_step :: "(string \<Rightarrow> string + parsed_url) \<Rightarrow> prom_event \<Rightarrow> prom_state \<Rightarrow> (prom_reply \<times> prom_state) option" where
  "prom_step url_parse (GetCheck now) s = (if promFlight s = None then Some (get_check now s) else None)"
| "prom_step url_parse (GetResolved r) s = (if promFlight s = Some Resolving then Some (get_resolved r s) else None)"
| "prom_step url_parse (GetStore now) s =
     (case promFlight s of Some (Resolved addr) \<Rightarrow> Some (get_store now addr s) | _ \<Rightarrow> None)"
| "prom_step url_parse (SetPost addr err) s = Some (set_post url_parse (\<lambda>_. err) addr s)"
| "prom_step url_parse (SetStore addr) s = (if addr \<in> set (setsPending s) then Some (set_store addr s) else None)"

definition prom_init :: prom_state where
  "prom_init = \<lparr>promAddressCache = None, promFlight = None, setsPending = []\<rparr>"

definition prom_run :: "(string \<Rightarrow> string + parsed_url) \<Rightarrow> prom_event list \<Rightarrow> prom_state option" where
  "prom_run url_parse es = fold (\<lambda>e s. Option.bind s (\<lambda>s. map_option snd (prom_step url_parse e s))) es (Some prom_init)"

lemma prom_run_Nil: "prom_run url_parse [] = Some prom_init"
  by (simp add: prom_run_def)

lemma prom_run_snoc:
  "prom_run url_parse (es @ [e]) = Some s' \<longleftrightarrow> (\<exists>s r. prom_run url_parse es = Some s \<and> prom_step url_parse e s = Some (r, s'))"
  by (auto simp: prom_run_def bind_eq_Some_conv)

fun is_set :: "prom_event \<Rightarrow> bool" where
  "is_set (SetPost addr err) \<longleftrightarrow> True"
| "is_set (SetStore addr) \<longleftrightarrow> True"
| "is_set _ \<longleftrightarrow> False"

fun ends_set :: "prom_event \<Rightarrow> bool" where
  "ends_set (SetStore addr) \<longleftrightarrow> True"
| "ends_set _ \<longleftrightarrow> False"

text \<open>
  The run ends with a resolution in flight: since its check, and since it gave an address, only
  steps of setting an address were taken. And: the run has such a resolution that was stored, and
  no address finished to be set after that.
\<close>

definition in_flight :: "prom_event list \<Rightarrow> prom_event list \<Rightarrow> bool" where
  "in_flight es m \<longleftrightarrow> (\<exists>old now. es = old @ GetCheck now # m \<and> list_all is_set m)"

definition resolved_to :: "prom_event list \<Rightarrow> string \<Rightarrow> prom_event list \<Rightarrow> bool" where
  "resolved_to es a during \<longleftrightarrow> (\<exists>es' m m'. es = es' @ GetResolved (Inr a) # m' \<and> in_flight es' m \<and> list_all is_set m' \<and> during = m @ m')"

definition stored :: "prom_event list \<Rightarrow> string \<Rightarrow> int \<Rightarrow> prom_event list \<Rightarrow> bool" where
  "stored es a t during \<longleftrightarrow> (\<exists>es' rest. es = es' @ GetStore t # rest \<and> resolved_to es' a during \<and> \<not> list_ex ends_set rest)"

lemma in_flight_snoc: "in_flight es m \<Longrightarrow> is_set e \<Longrightarrow> in_flight (es @ [e]) (m @ [e])"
  unfolding in_flight_def by fastforce

lemma resolved_to_snoc: "resolved_to es a d \<Longrightarrow> is_set e \<Longrightarrow> resolved_to (es @ [e]) a (d @ [e])"
  unfolding resolved_to_def by fastforce

lemma stored_snoc: "stored es a t d \<Longrightarrow> \<not> ends_set e \<Longrightarrow> stored (es @ [e]) a t d"
  unfolding stored_def by fastforce

text \<open>Where the state comes from.\<close>

definition state_source :: "prom_event list \<Rightarrow> prom_state \<Rightarrow> bool" where
  "state_source es s \<longleftrightarrow>
     (case promFlight s of None \<Rightarrow> True | Some Resolving \<Rightarrow> \<exists>m. in_flight es m | Some (Resolved a) \<Rightarrow> \<exists>d. resolved_to es a d) \<and>
     (case promAddressCache s of None \<Rightarrow> True
      | Some c \<Rightarrow> cacheAt c = zero_instant \<or> (\<exists>d. stored es (address c) (cacheAt c) d))"

lemma prom_run_source: "prom_run url_parse es = Some s \<Longrightarrow> state_source es s"
proof (induction es arbitrary: s rule: rev_induct)
  case Nil
  then show ?case by (auto simp: prom_run_Nil prom_init_def state_source_def)
next
  case (snoc e es)
  obtain s0 r where s0: "prom_run url_parse es = Some s0" and step: "prom_step url_parse e s0 = Some (r, s)"
    using snoc.prems prom_run_snoc by blast
  note IH = snoc.IH [OF s0]
  have cache: "case promAddressCache s0 of None \<Rightarrow> True
      | Some c \<Rightarrow> cacheAt c = zero_instant \<or> (\<exists>d. stored (es @ [e]) (address c) (cacheAt c) d)" if "\<not> ends_set e"
    using IH stored_snoc [OF _ that] by (fastforce simp: state_source_def split: option.splits)
  show ?case
  proof (cases e)
    case (GetCheck now)
    then have f: "promFlight s0 = None" "(r, s) = get_check now s0" using step by (auto split: if_splits)
    then have "promAddressCache s = promAddressCache s0" "promFlight s = None \<or> promFlight s = Some Resolving"
      by (auto simp: get_check_def split: option.splits if_splits)
    moreover have "in_flight (es @ [e]) []" using GetCheck by (simp add: in_flight_def)
    ultimately show ?thesis using cache GetCheck by (auto simp: state_source_def)
  next
    case (GetResolved x)
    then have f: "promFlight s0 = Some Resolving" "(r, s) = get_resolved x s0" using step by (auto split: if_splits)
    then obtain m where m: "in_flight es m" using IH by (auto simp: state_source_def)
    have "promAddressCache s = promAddressCache s0" using f(2) by (auto simp: get_resolved_def split: sum.splits)
    moreover have "\<exists>d. resolved_to (es @ [e]) a d" if "x = Inr a" for a
      unfolding resolved_to_def using m that GetResolved by fastforce
    moreover have "promFlight s = None \<or> (\<exists>a. x = Inr a \<and> promFlight s = Some (Resolved a))"
      using f(2) by (auto simp: get_resolved_def split: sum.splits)
    ultimately show ?thesis using cache GetResolved by (auto simp: state_source_def)
  next
    case (GetStore now)
    then obtain a where f: "promFlight s0 = Some (Resolved a)" "(r, s) = get_store now a s0"
      using step by (auto split: option.splits flight.splits)
    then obtain d where "resolved_to es a d" using IH by (auto simp: state_source_def)
    then have "stored (es @ [e]) a now d" using GetStore by (fastforce simp: stored_def)
    then show ?thesis using f(2) by (auto simp: state_source_def get_store_def)
  next
    case (SetPost addr err)
    then have "promAddressCache s = promAddressCache s0" "promFlight s = promFlight s0"
      using step by (auto simp: set_post_def split: sum.splits)
    moreover have "is_set e" "\<not> ends_set e" using SetPost by simp_all
    ultimately show ?thesis
      using cache IH in_flight_snoc [of es _ e] resolved_to_snoc [of es _ _ e]
      by (fastforce simp: state_source_def split: option.splits flight.splits)
  next
    case (SetStore addr)
    then have s: "(r, s) = set_store addr s0" using step by (auto split: if_splits)
    moreover have "is_set e" using SetStore by simp
    ultimately show ?thesis
      using IH in_flight_snoc [of es _ e] resolved_to_snoc [of es _ _ e]
      by (fastforce simp: state_source_def set_store_def split: option.splits flight.splits)
  qed
qed

text \<open>
  C37: where an address that is answered to a request for the address comes from, in every
  interleaving of such requests with requests that set the address. Either the resolution in flight
  just stored it; or it is answered from the cache, less than the time to live after a resolution
  stored it, and no address finished to be set since that store. In both cases \<open>during\<close> are the
  steps of setting an address that fell into the resolution: if there are none, the address was
  resolved after the last time that one was set. If there are, it can be an older address, and
  stay in the cache for the time to live (\<open>stale_address_stored\<close>).
\<close>

theorem prom_answer_fresh:
  assumes "prom_run url_parse es = Some s" and "prom_step url_parse e s = Some (Some (Inr a), s')" and "\<not> is_set e"
    and "\<And>now. e = GetCheck now \<Longrightarrow> 0 \<le> now"
  shows "(\<exists>now during. e = GetStore now \<and> resolved_to es a during) \<or>
    (\<exists>now t during. e = GetCheck now \<and> now < t + promCacheTTL \<and> stored es a t during)"
proof -
  note src = prom_run_source [OF assms(1)]
  show ?thesis
  proof (cases e)
    case (GetCheck now)
    then have g: "get_check now s = (Some (Inr a), s')" using assms(2) by (auto split: if_splits)
    then obtain c where c: "promAddressCache s = Some c" "now < cacheAt c + promCacheTTL" "address c = a"
      by (auto simp: get_check_def split: option.splits if_splits)
    have "cacheAt c \<noteq> zero_instant" using c(2) assms(4) [OF GetCheck] by (auto simp: zero_instant_def promCacheTTL_def)
    then show ?thesis using src c GetCheck by (auto simp: state_source_def)
  next
    case (GetResolved x)
    then show ?thesis using assms(2) by (auto simp: get_resolved_def split: if_splits sum.splits)
  next
    case (GetStore now)
    then obtain b where "promFlight s = Some (Resolved b)" "get_store now b s = (Some (Inr a), s')"
      using assms(2) by (auto split: option.splits flight.splits)
    then show ?thesis using src GetStore by (auto simp: state_source_def get_store_def)
  qed (use assms(3) in simp_all)
qed

definition demo_parse :: "string \<Rightarrow> string + parsed_url" where
  "demo_parse s = Inr \<lparr>Scheme = ''http'', Host = drop 7 s\<rparr>"

definition demo_old :: "prom_event list" where
  "demo_old = [GetCheck 1, GetResolved (Inr ''http://a''), GetStore 2]"

definition reply_of :: "prom_event list \<Rightarrow> prom_event \<Rightarrow> prom_reply option" where
  "reply_of es e = Option.bind (prom_run demo_parse es) (\<lambda>s. map_option fst (prom_step demo_parse e s))"

text \<open>
  Within the time to live the cache answers, and after an address is set it does not. But an
  address that is set between the resolution and the store is overwritten by the older one.
\<close>

lemma demo_replies:
  "reply_of demo_old (GetCheck 10) = Some (Some (Inr ''http://a''))"
  "reply_of (demo_old @ [SetPost ''b'' None, SetStore ''http://b'']) (GetCheck 10) = Some None"
  by code_simp+

lemma stale_address_stored:
  "reply_of [GetCheck 1, GetResolved (Inr ''http://a''), SetPost ''b'' None, SetStore ''http://b'', GetStore 2] (GetCheck 10)
     = Some (Some (Inr ''http://a''))"
  by code_simp

lemma prom_answer_fresh_witness:
  "reply_of demo_old (GetCheck 10) = Some (Some (Inr ''http://a'')) \<and>
   (\<exists>t during. 10 < t + promCacheTTL \<and> stored demo_old ''http://a'' t during)"
proof -
  obtain s s' where s: "prom_run demo_parse demo_old = Some s" "prom_step demo_parse (GetCheck 10) s = Some (Some (Inr ''http://a''), s')"
    using demo_replies(1) by (auto simp: reply_of_def bind_eq_Some_conv)
  show ?thesis using demo_replies(1) prom_answer_fresh [OF s] by auto
qed

end
