(* ===== verification/SqlLists.thy ===== *)
theory SqlLists
  imports Tokens
begin

text \<open>
  The lists of slow queries and of statements (\<open>pkg/apiserver/slowquery\<close>: \<open>model.go\<close>,
  \<open>statement_gen.go\<close>, \<open>queries.go\<close>; \<open>pkg/apiserver/statement\<close>: \<open>models.go\<close>, \<open>statement_gen.go\<close>,
  \<open>queries.go\<close>, \<open>config.go\<close>, \<open>service.go\<close>; \<open>utils/subset.go\<close>): the statements that are handed to the query builder.

  A statement is the record of its clauses (each run of white space in a text of the code is one
  space); values are arguments of a clause and not part of its
  text. The fields of the models, which the code reads from struct tags, are tables here. The
  naming of columns by the query builder, the columns of the tables, and the unique elements (\<open>uniq\<close>) and the
  intersection of the list library, and \<open>strings.ToLower\<close> of a search text, are arguments. Space is ASCII space. \<open>None\<close> is a panic.
\<close>

section \<open>Clauses\<close>

datatype sql_arg = ArgInt int | ArgString string | ArgStrings "string list"

record sql_select =
  sq_select :: string
  sq_where :: "(string \<times> sql_arg list) list"
  sq_group :: string
  sq_order :: string
  sq_limit :: "int option"

definition strings_TrimSpace :: "string \<Rightarrow> string" where
  "strings_TrimSpace s = rev (dropWhile is_space (rev (dropWhile is_space s)))"

text \<open>\<open>a\<close> holds all of \<open>b\<close>, in any case; \<open>inner_join\<close> is \<open>funk.Join\<close> with \<open>InnerJoin\<close>.\<close>

definition IsSubsets :: "(string list \<Rightarrow> string list \<Rightarrow> string list) \<Rightarrow> string list \<Rightarrow> string list \<Rightarrow> bool" where
  "IsSubsets inner_join a b \<longleftrightarrow> length (inner_join (map to_lower a) (map to_lower b)) = length (map to_lower b)"

section \<open>Slow queries\<close>

record SlowField =
  sf_ColumnName :: string
  sf_JSONName :: string
  sf_Projection :: string

definition slow_field :: "string \<Rightarrow> string \<Rightarrow> string \<Rightarrow> SlowField" where
  "slow_field column json proj = \<lparr>sf_ColumnName = column, sf_JSONName = json, sf_Projection = proj\<rparr>"

definition slow_fields :: "SlowField list" where
  "slow_fields =
    [slow_field ''Digest'' ''digest'' '''',
     slow_field ''Query'' ''query'' '''',
     slow_field ''INSTANCE'' ''instance'' '''',
     slow_field ''DB'' ''db'' '''',
     slow_field ''Conn_ID'' ''connection_id'' '''',
     slow_field ''Succ'' ''success'' '''',
     slow_field ''timestamp'' ''timestamp'' ''(UNIX_TIMESTAMP(Time) + 0E0)'',
     slow_field ''Query_time'' ''query_time'' '''',
     slow_field ''Parse_time'' ''parse_time'' '''',
     slow_field ''Compile_time'' ''compile_time'' '''',
     slow_field ''Rewrite_time'' ''rewrite_time'' '''',
     slow_field ''Preproc_subqueries_time'' ''preproc_subqueries_time'' '''',
     slow_field ''Optimize_time'' ''optimize_time'' '''',
     slow_field ''Wait_TS'' ''wait_ts'' '''',
     slow_field ''Cop_time'' ''cop_time'' '''',
     slow_field ''LockKeys_time'' ''lock_keys_time'' '''',
     slow_field ''Write_sql_response_total'' ''write_sql_response_total'' '''',
     slow_field ''Exec_retry_time'' ''exec_retry_time'' '''',
     slow_field ''Mem_max'' ''memory_max'' '''',
     slow_field ''Disk_max'' ''disk_max'' '''',
     slow_field ''Txn_start_ts'' ''txn_start_ts'' '''',
     slow_field ''Prev_stmt'' ''prev_stmt'' '''',
     slow_field ''Plan'' ''plan'' '''',
     slow_field ''Is_internal'' ''is_internal'' '''',
     slow_field ''Index_names'' ''index_names'' '''',
     slow_field ''Stats'' ''stats'' '''',
     slow_field ''Backoff_types'' ''backoff_types'' '''',
     slow_field ''User'' ''user'' '''',
     slow_field ''Host'' ''host'' '''',
     slow_field ''Process_time'' ''process_time'' '''',
     slow_field ''Wait_time'' ''wait_time'' '''',
     slow_field ''Backoff_time'' ''backoff_time'' '''',
     slow_field ''Get_commit_ts_time'' ''get_commit_ts_time'' '''',
     slow_field ''Local_latch_wait_time'' ''local_latch_wait_time'' '''',
     slow_field ''Resolve_lock_time'' ''resolve_lock_time'' '''',
     slow_field ''Prewrite_time'' ''prewrite_time'' '''',
     slow_field ''Wait_prewrite_binlog_time'' ''wait_prewrite_binlog_time'' '''',
     slow_field ''Commit_time'' ''commit_time'' '''',
     slow_field ''Commit_backoff_time'' ''commit_backoff_time'' '''',
     slow_field ''Cop_proc_avg'' ''cop_proc_avg'' '''',
     slow_field ''Cop_proc_p90'' ''cop_proc_p90'' '''',
     slow_field ''Cop_proc_max'' ''cop_proc_max'' '''',
     slow_field ''Cop_wait_avg'' ''cop_wait_avg'' '''',
     slow_field ''Cop_wait_p90'' ''cop_wait_p90'' '''',
     slow_field ''Cop_wait_max'' ''cop_wait_max'' '''',
     slow_field ''Write_keys'' ''write_keys'' '''',
     slow_field ''Write_size'' ''write_size'' '''',
     slow_field ''Prewrite_region'' ''prewrite_region'' '''',
     slow_field ''Txn_retry'' ''txn_retry'' '''',
     slow_field ''Request_count'' ''request_count'' '''',
     slow_field ''Process_keys'' ''process_keys'' '''',
     slow_field ''Total_keys'' ''total_keys'' '''',
     slow_field ''Cop_proc_addr'' ''cop_proc_addr'' '''',
     slow_field ''Cop_wait_addr'' ''cop_wait_addr'' '''',
     slow_field ''Rocksdb_delete_skipped_count'' ''rocksdb_delete_skipped_count'' '''',
     slow_field ''Rocksdb_key_skipped_count'' ''rocksdb_key_skipped_count'' '''',
     slow_field ''Rocksdb_block_cache_hit_count'' ''rocksdb_block_cache_hit_count'' '''',
     slow_field ''Rocksdb_block_read_count'' ''rocksdb_block_read_count'' '''',
     slow_field ''Rocksdb_block_read_byte'' ''rocksdb_block_read_byte'' '''']"

definition slow_virtual_fields :: "string list" where
  "slow_virtual_fields = map sf_ColumnName (filter (\<lambda>f. sf_Projection f \<noteq> '''') slow_fields)"

definition slow_select_item :: "SlowField \<Rightarrow> string" where
  "slow_select_item f = (if sf_Projection f = '''' then sf_ColumnName f else sf_Projection f @ '' AS '' @ sf_ColumnName f)"

definition slow_genSelectStmt :: "(string list \<Rightarrow> string list) \<Rightarrow> string list \<Rightarrow> string list \<Rightarrow> (string + string) option" where
  "slow_genSelectStmt uniq tableColumns reqJSONColumns =
     (if reqJSONColumns = [] then None else
      let fs = slow_fields;
          fs = (if hd reqJSONColumns \<noteq> ''*'' then
                  let requiredFields = uniq (reqJSONColumns @ [''digest'', ''connection_id'', ''timestamp''])
                  in filter (\<lambda>f. sf_JSONName f \<in> set requiredFields) fs
                else fs);
          fs = filter (\<lambda>f. sf_Projection f \<noteq> '''' \<or> sf_ColumnName f \<in> set tableColumns) fs
      in Some (if length fs = 0 then Inl ''unknown_column'' else Inr (strings_Join (map slow_select_item fs) '', '')))"

definition slow_genOrderStmt :: "string list \<Rightarrow> string \<Rightarrow> bool \<Rightarrow> string + string" where
  "slow_genOrderStmt tableColumns orderBy isDesc =
     (case (if orderBy = ''timestamp'' then Some ''Time''
            else map_option sf_ColumnName
              (List.find (\<lambda>f. sf_JSONName f = orderBy) (filter (\<lambda>f. sf_ColumnName f \<in> set tableColumns) slow_fields))) of
        None \<Rightarrow> Inl ''unknown_column''
      | Some order \<Rightarrow> Inr (if isDesc then order @ '' DESC'' else order @ '' ASC''))"

record GetListRequest =
  gl_BeginTime :: int
  gl_EndTime :: int
  gl_DB :: "string list"
  gl_Limit :: int
  gl_Text :: string
  gl_OrderBy :: string
  gl_IsDesc :: bool
  gl_Plans :: "string list"
  gl_Digest :: string
  gl_Fields :: string

definition slow_time_where :: string where
  "slow_time_where = ''Time BETWEEN FROM_UNIXTIME(?) AND FROM_UNIXTIME(?)''"

definition slow_text_where :: string where
  "slow_text_where = ''Txn_start_ts REGEXP ? OR LOWER(Digest) REGEXP ? OR LOWER(CONVERT(Prev_stmt USING utf8)) REGEXP ?'' @
     '' OR LOWER(CONVERT(Query USING utf8)) REGEXP ?''"

text \<open>\<open>columns\<close> are those of the table, or the error of reading them.\<close>

definition QuerySlowLogList :: "(string \<Rightarrow> string) \<Rightarrow> (string list \<Rightarrow> string list) \<Rightarrow> string + string list \<Rightarrow> GetListRequest \<Rightarrow> (string + sql_select) option" where
  "QuerySlowLogList lower uniq columns req =
     (case columns of Inl err \<Rightarrow> Some (Inl err) | Inr slowQueryColumns \<Rightarrow>
     (case slow_genSelectStmt uniq slowQueryColumns (strings_Split (gl_Fields req) '','') of
        None \<Rightarrow> None
      | Some (Inl err) \<Rightarrow> Some (Inl err)
      | Some (Inr selectStmt) \<Rightarrow>
          let time = (if gl_BeginTime req \<noteq> 0 \<and> gl_EndTime req \<noteq> 0
                then [(slow_time_where, [ArgInt (gl_BeginTime req), ArgInt (gl_EndTime req)])] else []);
              limit = (if gl_Limit req \<le> 0 then 100 else gl_Limit req);
              text = (if gl_Text req \<noteq> ''''
                then map (\<lambda>v. (slow_text_where, [ArgString v, ArgString v, ArgString v, ArgString v]))
                  (strings_Fields (lower (gl_Text req))) else []);
              db = (if 0 < length (gl_DB req) then [(''DB IN (?)'', [ArgStrings (gl_DB req)])] else []);
              orderBy = (if gl_OrderBy req = '''' then ''timestamp'' else gl_OrderBy req)
          in case slow_genOrderStmt slowQueryColumns orderBy (gl_IsDesc req) of
               Inl err \<Rightarrow> Some (Inl err)
             | Inr orderStmt \<Rightarrow>
                 let plans = (if 0 < length (gl_Plans req) then [(''Plan_digest IN (?)'', [ArgStrings (gl_Plans req)])] else []);
                     digest = (if 0 < length (gl_Digest req) then [(''Digest = ?'', [ArgString (gl_Digest req)])] else [])
                 in Some (Inr \<lparr>sq_select = selectStmt, sq_where = time @ text @ db @ plans @ digest, sq_group = '''',
                      sq_order = orderStmt, sq_limit = Some limit\<rparr>)))"

definition QuerySlowLogDetail :: "string \<Rightarrow> 'f \<Rightarrow> string \<Rightarrow> ('f \<Rightarrow> sql_arg) \<Rightarrow> string \<times> (string \<times> sql_arg list) list" where
  "QuerySlowLogDetail digest timestamp connectID arg =
     (''*, (UNIX_TIMESTAMP(Time) + 0E0) AS timestamp'',
      [(''Digest = ?'', [ArgString digest]), (''Time = FROM_UNIXTIME(?)'', [arg timestamp]), (''Conn_id = ?'', [ArgString connectID])])"

definition slow_QueryTableColumns :: "(string list \<Rightarrow> string list) \<Rightarrow> string + string list \<Rightarrow> string + string list" where
  "slow_QueryTableColumns uniq columns = (case columns of Inl err \<Rightarrow> Inl err | Inr cs \<Rightarrow> Inr (uniq (cs @ slow_virtual_fields)))"

section \<open>Statements\<close>

record StmtField =
  st_Name :: string
  st_JSONName :: string
  st_Aggregation :: string
  st_Related :: "string list"

definition stmt_field :: "string \<Rightarrow> string \<Rightarrow> string \<Rightarrow> string list \<Rightarrow> StmtField" where
  "stmt_field name json agg related =
     \<lparr>st_Name = name, st_JSONName = json, st_Aggregation = agg, st_Related = related\<rparr>"

definition stmt_fields1 :: "StmtField list" where
  "stmt_fields1 =
    [stmt_field ''AggDigestText'' ''digest_text'' ''ANY_VALUE(digest_text)'' [],
     stmt_field ''AggDigest'' ''digest'' ''ANY_VALUE(digest)'' [],
     stmt_field ''AggExecCount'' ''exec_count'' ''SUM(exec_count)'' [],
     stmt_field ''AggSumErrors'' ''sum_errors'' ''SUM(sum_errors)'' [],
     stmt_field ''AggSumWarnings'' ''sum_warnings'' ''SUM(sum_warnings)'' [],
     stmt_field ''AggSumLatency'' ''sum_latency'' ''SUM(sum_latency)'' [],
     stmt_field ''AggMaxLatency'' ''max_latency'' ''MAX(max_latency)'' [],
     stmt_field ''AggMinLatency'' ''min_latency'' ''MIN(min_latency)'' [],
     stmt_field ''AggAvgLatency'' ''avg_latency'' ''CAST(SUM(exec_count * avg_latency) / SUM(exec_count) AS SIGNED)'' [],
     stmt_field ''AggAvgParseLatency'' ''avg_parse_latency'' ''CAST(SUM(exec_count * avg_parse_latency) / SUM(exec_count) AS SIGNED)'' [],
     stmt_field ''AggMaxParseLatency'' ''max_parse_latency'' ''MAX(max_parse_latency)'' [],
     stmt_field ''AggAvgCompileLatency'' ''avg_compile_latency'' ''CAST(SUM(exec_count * avg_compile_latency) / SUM(exec_count) AS SIGNED)'' [],
     stmt_field ''AggMaxCompileLatency'' ''max_compile_latency'' ''MAX(max_compile_latency)'' [],
     stmt_field ''AggSumCopTaskNum'' ''sum_cop_task_num'' ''SUM(sum_cop_task_num)'' [],
     stmt_field ''AggAvgCopProcessTime'' ''avg_cop_process_time'' ''CAST(SUM(exec_count * avg_process_time) / SUM(sum_cop_task_num) AS SIGNED)'' [],
     stmt_field ''AggMaxCopProcessTime'' ''max_cop_process_time'' ''MAX(max_cop_process_time)'' [],
     stmt_field ''AggAvgCopWaitTime'' ''avg_cop_wait_time'' ''CAST(SUM(exec_count * avg_wait_time) / SUM(sum_cop_task_num) AS SIGNED)'' [],
     stmt_field ''AggMaxCopWaitTime'' ''max_cop_wait_time'' ''MAX(max_cop_wait_time)'' [],
     stmt_field ''AggAvgProcessTime'' ''avg_process_time'' ''CAST(SUM(exec_count * avg_process_time) / SUM(exec_count) AS SIGNED)'' [],
     stmt_field ''AggMaxProcessTime'' ''max_process_time'' ''MAX(max_process_time)'' [],
     stmt_field ''AggAvgWaitTime'' ''avg_wait_time'' ''CAST(SUM(exec_count * avg_wait_time) / SUM(exec_count) AS SIGNED)'' [],
     stmt_field ''AggMaxWaitTime'' ''max_wait_time'' ''MAX(max_wait_time)'' [],
     stmt_field ''AggAvgBackoffTime'' ''avg_backoff_time'' ''CAST(SUM(exec_count * avg_backoff_time) / SUM(exec_count) AS SIGNED)'' [],
     stmt_field ''AggMaxBackoffTime'' ''max_backoff_time'' ''MAX(max_backoff_time)'' [],
     stmt_field ''AggAvgTotalKeys'' ''avg_total_keys'' ''CAST(SUM(exec_count * avg_total_keys) / SUM(exec_count) AS SIGNED)'' [],
     stmt_field ''AggMaxTotalKeys'' ''max_total_keys'' ''MAX(max_total_keys)'' [],
     stmt_field ''AggAvgProcessedKeys'' ''avg_processed_keys'' ''CAST(SUM(exec_count * avg_processed_keys) / SUM(exec_count) AS SIGNED)'' [],
     stmt_field ''AggMaxProcessedKeys'' ''max_processed_keys'' ''MAX(max_processed_keys)'' [],
     stmt_field ''AggAvgPrewriteTime'' ''avg_prewrite_time'' ''CAST(SUM(exec_count * avg_prewrite_time) / SUM(exec_count) AS SIGNED)'' [],
     stmt_field ''AggMaxPrewriteTime'' ''max_prewrite_time'' ''MAX(max_prewrite_time)'' [],
     stmt_field ''AggAvgCommitTime'' ''avg_commit_time'' ''CAST(SUM(exec_count * avg_commit_time) / SUM(exec_count) AS SIGNED)'' [],
     stmt_field ''AggMaxCommitTime'' ''max_commit_time'' ''MAX(max_commit_time)'' [],
     stmt_field ''AggAvgGetCommitTsTime'' ''avg_get_commit_ts_time'' ''CAST(SUM(exec_count * avg_get_commit_ts_time) / SUM(exec_count) AS SIGNED)'' [],
     stmt_field ''AggMaxGetCommitTsTime'' ''max_get_commit_ts_time'' ''MAX(max_get_commit_ts_time)'' [],
     stmt_field ''AggAvgCommitBackoffTime'' ''avg_commit_backoff_time'' ''CAST(SUM(exec_count * avg_commit_backoff_time) / SUM(exec_count) AS SIGNED)'' [],
     stmt_field ''AggMaxCommitBackoffTime'' ''max_commit_backoff_time'' ''MAX(max_commit_backoff_time)'' [],
     stmt_field ''AggAvgResolveLockTime'' ''avg_resolve_lock_time'' ''CAST(SUM(exec_count * avg_resolve_lock_time) / SUM(exec_count) AS SIGNED)'' [],
     stmt_field ''AggMaxResolveLockTime'' ''max_resolve_lock_time'' ''MAX(max_resolve_lock_time)'' []]"

definition stmt_fields2 :: "StmtField list" where
  "stmt_fields2 =
    [stmt_field ''AggAvgLocalLatchWaitTime'' ''avg_local_latch_wait_time'' ''CAST(SUM(exec_count * avg_local_latch_wait_time) / SUM(exec_count) AS SIGNED)'' [],
     stmt_field ''AggMaxLocalLatchWaitTime'' ''max_local_latch_wait_time'' ''MAX(max_local_latch_wait_time)'' [],
     stmt_field ''AggAvgWriteKeys'' ''avg_write_keys'' ''CAST(SUM(exec_count * avg_write_keys) / SUM(exec_count) AS SIGNED)'' [],
     stmt_field ''AggMaxWriteKeys'' ''max_write_keys'' ''MAX(max_write_keys)'' [],
     stmt_field ''AggAvgWriteSize'' ''avg_write_size'' ''CAST(SUM(exec_count * avg_write_size) / SUM(exec_count) AS SIGNED)'' [],
     stmt_field ''AggMaxWriteSize'' ''max_write_size'' ''MAX(max_write_size)'' [],
     stmt_field ''AggAvgPrewriteRegions'' ''avg_prewrite_regions'' ''CAST(SUM(exec_count * avg_prewrite_regions) / SUM(exec_count) AS SIGNED)'' [],
     stmt_field ''AggMaxPrewriteRegions'' ''max_prewrite_regions'' ''MAX(max_prewrite_regions)'' [],
     stmt_field ''AggAvgTxnRetry'' ''avg_txn_retry'' ''CAST(SUM(exec_count * avg_txn_retry) / SUM(exec_count) AS SIGNED)'' [],
     stmt_field ''AggMaxTxnRetry'' ''max_txn_retry'' ''MAX(max_txn_retry)'' [],
     stmt_field ''AggSumBackoffTimes'' ''sum_backoff_times'' ''SUM(sum_backoff_times)'' [],
     stmt_field ''AggAvgMem'' ''avg_mem'' ''CAST(SUM(exec_count * avg_mem) / SUM(exec_count) AS SIGNED)'' [],
     stmt_field ''AggMaxMem'' ''max_mem'' ''MAX(max_mem)'' [],
     stmt_field ''AggAvgDisk'' ''avg_disk'' ''CAST(SUM(exec_count * avg_disk) / SUM(exec_count) AS SIGNED)'' [],
     stmt_field ''AggMaxDisk'' ''max_disk'' ''MAX(max_disk)'' [],
     stmt_field ''AggAvgAffectedRows'' ''avg_affected_rows'' ''CAST(SUM(exec_count * avg_affected_rows) / SUM(exec_count) AS SIGNED)'' [],
     stmt_field ''AggFirstSeen'' ''first_seen'' ''UNIX_TIMESTAMP(MIN(first_seen))'' [],
     stmt_field ''AggLastSeen'' ''last_seen'' ''UNIX_TIMESTAMP(MAX(last_seen))'' [],
     stmt_field ''AggSampleUser'' ''sample_user'' ''ANY_VALUE(sample_user)'' [],
     stmt_field ''AggQuerySampleText'' ''query_sample_text'' ''ANY_VALUE(query_sample_text)'' [],
     stmt_field ''AggPrevSampleText'' ''prev_sample_text'' ''ANY_VALUE(prev_sample_text)'' [],
     stmt_field ''AggSchemaName'' ''schema_name'' ''ANY_VALUE(schema_name)'' [],
     stmt_field ''AggTableNames'' ''table_names'' ''ANY_VALUE(table_names)'' [],
     stmt_field ''AggIndexNames'' ''index_names'' ''ANY_VALUE(index_names)'' [],
     stmt_field ''AggPlanCount'' ''plan_count'' ''COUNT(DISTINCT plan_digest)'' [''plan_digest''],
     stmt_field ''AggPlan'' ''plan'' ''ANY_VALUE(plan)'' [],
     stmt_field ''AggPlanDigest'' ''plan_digest'' ''ANY_VALUE(plan_digest)'' [],
     stmt_field ''AggMaxRocksdbDeleteSkippedCount'' ''max_rocksdb_delete_skipped_count'' ''MAX(max_rocksdb_delete_skipped_count)'' [],
     stmt_field ''AggAvgRocksdbDeleteSkippedCount'' ''avg_rocksdb_delete_skipped_count'' ''CAST(SUM(exec_count * avg_rocksdb_delete_skipped_count) / SUM(exec_count) as SIGNED)'' [],
     stmt_field ''AggMaxRocksdbKeySkippedCount'' ''max_rocksdb_key_skipped_count'' ''MAX(max_rocksdb_key_skipped_count)'' [],
     stmt_field ''AggAvgRocksdbKeySkippedCount'' ''avg_rocksdb_key_skipped_count'' ''CAST(SUM(exec_count * avg_rocksdb_key_skipped_count) / SUM(exec_count) as SIGNED)'' [],
     stmt_field ''AggMaxRocksdbBlockCacheHitCount'' ''max_rocksdb_block_cache_hit_count'' ''MAX(max_rocksdb_block_cache_hit_count)'' [],
     stmt_field ''AggAvgRocksdbBlockCacheHitCount'' ''avg_rocksdb_block_cache_hit_count'' ''CAST(SUM(exec_count * avg_rocksdb_block_cache_hit_count) / SUM(exec_count) as SIGNED)'' [],
     stmt_field ''AggMaxRocksdbBlockReadCount'' ''max_rocksdb_block_read_count'' ''MAX(max_rocksdb_block_read_count)'' [],
     stmt_field ''AggAvgRocksdbBlockReadCount'' ''avg_rocksdb_block_read_count'' ''CAST(SUM(exec_count * avg_rocksdb_block_read_count) / SUM(exec_count) as SIGNED)'' [],
     stmt_field ''AggMaxRocksdbBlockReadByte'' ''max_rocksdb_block_read_byte'' ''MAX(max_rocksdb_block_read_byte)'' [],
     stmt_field ''AggAvgRocksdbBlockReadByte'' ''avg_rocksdb_block_read_byte'' ''CAST(SUM(exec_count * avg_rocksdb_block_read_byte) / SUM(exec_count) as SIGNED)'' [],
     stmt_field ''RelatedSchemas'' ''related_schemas'' '''' []]"

definition stmt_fields :: "StmtField list" where
  "stmt_fields = stmt_fields1 @ stmt_fields2"

text \<open>The order of a range over the set of schemas is an argument.\<close>

definition extractSchemasFromTableNames :: "(string list \<Rightarrow> string list) \<Rightarrow> string \<Rightarrow> string" where
  "extractSchemasFromTableNames range_order tableNames =
     (let trim = (\<lambda>s. rev (dropWhile (\<lambda>c. c = CHR '' '') (rev (dropWhile (\<lambda>c. c = CHR '' '') s))));
          schemas = filter (\<lambda>s. 0 < length s) (map (\<lambda>v. trim (hd (strings_Split v ''.''))) (strings_Split tableNames '',''))
      in strings_Join (range_order (remdups schemas)) '', '')"

definition stmt_virtual_fields :: "(string list \<Rightarrow> string list \<Rightarrow> string list) \<Rightarrow> string list \<Rightarrow> string list" where
  "stmt_virtual_fields inner_join tableFields =
     map st_JSONName (filter (\<lambda>f. length (st_Related f) \<noteq> 0 \<and> IsSubsets inner_join tableFields (st_Related f)) stmt_fields)"

text \<open>\<open>column_name\<close> is the naming strategy of the query builder.\<close>

definition stmt_select_item :: "(string \<Rightarrow> string) \<Rightarrow> StmtField \<Rightarrow> string" where
  "stmt_select_item column_name f =
     (if st_Aggregation f = '''' then st_JSONName f else st_Aggregation f @ '' AS '' @ column_name (st_Name f))"

definition represented :: "StmtField \<Rightarrow> string list" where
  "represented f = (if length (st_Related f) \<noteq> 0 then st_Related f else [st_JSONName f])"

definition stmt_genSelectStmt ::
  "(string list \<Rightarrow> string list) \<Rightarrow> (string list \<Rightarrow> string list \<Rightarrow> string list) \<Rightarrow> (string \<Rightarrow> string) \<Rightarrow> string list \<Rightarrow> string list \<Rightarrow> (string + string) option" where
  "stmt_genSelectStmt uniq inner_join column_name tableColumns reqJSONColumns =
     (if reqJSONColumns = [] then None else
      let fs = stmt_fields;
          fs = (if hd reqJSONColumns \<noteq> ''*'' then
                  let requiredFields = uniq (reqJSONColumns @ [''schema_name'', ''digest'', ''sum_latency''])
                  in filter (\<lambda>f. st_JSONName f \<in> set requiredFields) fs
                else fs);
          fs = filter (\<lambda>f. IsSubsets inner_join tableColumns (represented f)) fs
      in Some (if length fs = 0 then Inl ''unknown_column'' else Inr (strings_Join (map (stmt_select_item column_name) fs) '', '')))"

text \<open>\<open>regexp.QuoteMeta\<close>\<close>

definition QuoteMeta :: "string \<Rightarrow> string" where
  "QuoteMeta s = concat (map (\<lambda>c. if c \<in> set (CHR 0x5C # ''.+*?()|[]{}^$'') then [CHR 0x5C, c] else [c]) s)"

definition schema_regex :: "string \<Rightarrow> string" where
  "schema_regex schema = [CHR 0x5C] @ ''b'' @ QuoteMeta schema @ [CHR 0x5C] @ ''.''"

definition stmt_time_where :: string where
  "stmt_time_where = ''summary_begin_time >= FROM_UNIXTIME(?) AND summary_end_time <= FROM_UNIXTIME(?)''"

definition stmt_text_where :: string where
  "stmt_text_where = ''LOWER(digest_text) REGEXP ? OR LOWER(digest) REGEXP ? OR LOWER(schema_name) REGEXP ?'' @
     '' OR LOWER(table_names) REGEXP ? OR LOWER(plan) REGEXP ?''"

definition queryStatements ::
  "(string \<Rightarrow> string) \<Rightarrow> (string list \<Rightarrow> string list) \<Rightarrow> (string list \<Rightarrow> string list \<Rightarrow> string list) \<Rightarrow> (string \<Rightarrow> string) \<Rightarrow> string + string list \<Rightarrow> int \<Rightarrow> int \<Rightarrow> string list \<Rightarrow>
   string list \<Rightarrow> string \<Rightarrow> string list \<Rightarrow> (string + sql_select) option" where
  "queryStatements lower uniq inner_join column_name columns beginTime endTime schemas stmtTypes text reqFields =
     (case columns of Inl err \<Rightarrow> Some (Inl err) | Inr tableColumns \<Rightarrow>
     (case stmt_genSelectStmt uniq inner_join column_name tableColumns reqFields of
        None \<Rightarrow> None
      | Some (Inl err) \<Rightarrow> Some (Inl err)
      | Some (Inr selectStmt) \<Rightarrow>
          let time = [(stmt_time_where, [ArgInt beginTime, ArgInt endTime])];
              schema = (if 0 < length schemas
                then [(''table_names REGEXP ?'', [ArgString (strings_Join (map schema_regex schemas) ''|'')])] else []);
              types = (if 0 < length stmtTypes then [(''stmt_type in (?)'', [ArgStrings stmtTypes])] else []);
              texts = (if 0 < length text
                then map (\<lambda>v. (stmt_text_where, [ArgString v, ArgString v, ArgString v, ArgString v, ArgString v]))
                  (strings_Fields (lower text)) else [])
          in Some (Inr \<lparr>sq_select = selectStmt, sq_where = time @ schema @ types @ texts, sq_group = ''schema_name, digest'',
               sq_order = ''agg_sum_latency DESC'', sq_limit = None\<rparr>)))"

text \<open>
  The lists and the plans of a statement. The code does not use the result of some calls of
  \<open>Where\<close>; what such a call does to the statement it is made on is the argument \<open>where_only\<close>.
\<close>

definition queryTimeRanges :: sql_select where
  "queryTimeRanges = \<lparr>sq_select = ''DISTINCT FLOOR(UNIX_TIMESTAMP(summary_begin_time)) AS begin_time, '' @
     ''FLOOR(UNIX_TIMESTAMP(summary_end_time)) AS end_time'', sq_where = [], sq_group = '''',
     sq_order = ''begin_time DESC, end_time DESC'', sq_limit = None\<rparr>"

definition queryStmtTypes :: sql_select where
  "queryStmtTypes = \<lparr>sq_select = ''DISTINCT stmt_type'', sq_where = [], sq_group = '''', sq_order = ''stmt_type ASC'', sq_limit = None\<rparr>"

definition plan_fields :: "string list" where
  "plan_fields = [''plan_digest'', ''schema_name'', ''digest_text'', ''digest'', ''sum_latency'', ''max_latency'', ''min_latency'',
     ''avg_latency'', ''exec_count'', ''avg_mem'', ''max_mem'']"

definition add_where :: "string \<times> sql_arg list \<Rightarrow> sql_select \<Rightarrow> sql_select" where
  "add_where c q = q\<lparr>sq_where := sq_where q @ [c]\<rparr>"

definition queryPlans ::
  "(string list \<Rightarrow> string list) \<Rightarrow> (string list \<Rightarrow> string list \<Rightarrow> string list) \<Rightarrow> (string \<Rightarrow> string) \<Rightarrow> (string \<times> sql_arg list \<Rightarrow> sql_select \<Rightarrow> sql_select) \<Rightarrow>
   string + string list \<Rightarrow> int \<Rightarrow> int \<Rightarrow> string \<Rightarrow> string \<Rightarrow> (string + sql_select) option" where
  "queryPlans uniq inner_join column_name where_only columns beginTime endTime schemaName digest =
     (case columns of Inl err \<Rightarrow> Some (Inl err) | Inr tableColumns \<Rightarrow>
     (case stmt_genSelectStmt uniq inner_join column_name tableColumns plan_fields of
        None \<Rightarrow> None
      | Some (Inl err) \<Rightarrow> Some (Inl err)
      | Some (Inr selectStmt) \<Rightarrow>
          let query = \<lparr>sq_select = selectStmt, sq_where = [(stmt_time_where, [ArgInt beginTime, ArgInt endTime])],
                sq_group = ''plan_digest'', sq_order = '''', sq_limit = None\<rparr>
          in Some (Inr (if digest = '''' then where_only (''digest IS NULL'', []) query
               else let query = (if schemaName \<noteq> '''' then where_only (''schema_name = ?'', [ArgString schemaName]) query else query)
                    in where_only (''digest = ?'', [ArgString digest]) query))))"

definition queryPlanDetail ::
  "(string list \<Rightarrow> string list) \<Rightarrow> (string list \<Rightarrow> string list \<Rightarrow> string list) \<Rightarrow> (string \<Rightarrow> string) \<Rightarrow> (string \<times> sql_arg list \<Rightarrow> sql_select \<Rightarrow> sql_select) \<Rightarrow>
   string + string list \<Rightarrow> int \<Rightarrow> int \<Rightarrow> string \<Rightarrow> string \<Rightarrow> string list \<Rightarrow> (string + sql_select) option" where
  "queryPlanDetail uniq inner_join column_name where_only columns beginTime endTime schemaName digest plans =
     (case columns of Inl err \<Rightarrow> Some (Inl err) | Inr tableColumns \<Rightarrow>
     (case stmt_genSelectStmt uniq inner_join column_name tableColumns [''*''] of
        None \<Rightarrow> None
      | Some (Inl err) \<Rightarrow> Some (Inl err)
      | Some (Inr selectStmt) \<Rightarrow>
          let query = \<lparr>sq_select = selectStmt, sq_where = [(stmt_time_where, [ArgInt beginTime, ArgInt endTime])],
                sq_group = '''', sq_order = '''', sq_limit = None\<rparr>
          in Some (Inr (if digest = '''' then where_only (''digest IS NULL'', []) query
               else let query = (if schemaName \<noteq> '''' then where_only (''schema_name = ?'', [ArgString schemaName]) query else query);
                        query = (if 0 < length plans then add_where (''plan_digest in (?)'', [ArgStrings plans]) query else query)
                    in where_only (''digest = ?'', [ArgString digest]) query))))"

record GetStatementsRequest =
  gs_Schemas :: "string list"
  gs_StmtTypes :: "string list"
  gs_BeginTime :: int
  gs_EndTime :: int
  gs_Text :: string
  gs_Fields :: string

definition stmt_request_fields :: "GetStatementsRequest \<Rightarrow> string list" where
  "stmt_request_fields req = (if strings_TrimSpace (gs_Fields req) \<noteq> '''' then strings_Split (gs_Fields req) '','' else [])"

definition stmt_listHandler ::
  "(string \<Rightarrow> string) \<Rightarrow> (string list \<Rightarrow> string list) \<Rightarrow> (string list \<Rightarrow> string list \<Rightarrow> string list) \<Rightarrow> (string \<Rightarrow> string) \<Rightarrow> string + string list \<Rightarrow> GetStatementsRequest \<Rightarrow>
   (string + sql_select) option" where
  "stmt_listHandler lower uniq inner_join column_name columns req =
     queryStatements lower uniq inner_join column_name columns (gs_BeginTime req) (gs_EndTime req) (gs_Schemas req) (gs_StmtTypes req)
       (gs_Text req) (stmt_request_fields req)"

text \<open>\<open>config.go\<close>, for the one structure it is used with: the names and columns of its fields.\<close>

definition editable_config_fields :: "(string \<times> string) list" where
  "editable_config_fields =
     [(''Enable'', ''tidb_enable_stmt_summary''), (''RefreshInterval'', ''tidb_stmt_summary_refresh_interval''),
      (''HistorySize'', ''tidb_stmt_summary_history_size''), (''MaxSize'', ''tidb_stmt_summary_max_stmt_count''),
      (''InternalQuery'', ''tidb_stmt_summary_internal_query'')]"

definition buildGlobalConfigProjectionSelectSQL :: "(string \<times> string) list \<Rightarrow> string" where
  "buildGlobalConfigProjectionSelectSQL config =
     ''SELECT '' @ strings_Join (map (\<lambda>(name, column). ''@@GLOBAL.'' @ column @ '' AS '' @ column) config) '', ''"

definition buildGlobalConfigNamedArgsUpdateSQL :: "(string \<times> string) list \<Rightarrow> string list \<Rightarrow> string" where
  "buildGlobalConfigNamedArgsUpdateSQL config allowedFields =
     ''SET '' @ strings_Join (map (\<lambda>(name, column). ''@@GLOBAL.'' @ column @ '' = @'' @ name)
       (filter (\<lambda>(name, column). length allowedFields = 0 \<or> name \<in> set allowedFields) config)) '', ''"

text \<open>When statements are switched off nothing else is changed.\<close>

definition modify_config_sql :: "bool \<Rightarrow> string" where
  "modify_config_sql enable =
     (if \<not> enable then buildGlobalConfigNamedArgsUpdateSQL editable_config_fields [''Enable'']
      else buildGlobalConfigNamedArgsUpdateSQL editable_config_fields [])"

section \<open>Exports\<close>

text \<open>
  The handlers of the tokens of downloads: \<open>rows\<close> are the answers of the database, and \<open>export\<close> is
  \<open>ExportCSV\<close> for a table and a name. The fields of a request are read a second time here.
\<close>

definition export_table ::
  "(int \<Rightarrow> string) \<Rightarrow> ('f \<Rightarrow> string) \<Rightarrow> string list \<Rightarrow> string list \<Rightarrow> (sql_select \<Rightarrow> string + (string \<Rightarrow> 'f csv_value) list) \<Rightarrow>
   (string list list \<Rightarrow> string + string) \<Rightarrow> string list \<Rightarrow> (string + sql_select) option \<Rightarrow> (string + string) option" where
  "export_table fmt_time fmt_float jsonNames timeFields rows export reqFields query =
     (case query of
        None \<Rightarrow> None
      | Some (Inl _) \<Rightarrow> Some (Inl ''bad_request'')
      | Some (Inr q) \<Rightarrow>
          (case rows q of
             Inl _ \<Rightarrow> Some (Inl ''bad_request'')
           | Inr list \<Rightarrow>
               if length list = 0 then Some (Inl ''no_data'') else
               (case GenerateCSVFromRaw fmt_time fmt_float jsonNames list reqFields timeFields of
                  None \<Rightarrow> None
                | Some csvData \<Rightarrow> Some (export csvData))))"

definition slow_downloadTokenHandler ::
  "(string \<Rightarrow> string) \<Rightarrow> (string list \<Rightarrow> string list) \<Rightarrow> (int \<Rightarrow> string) \<Rightarrow> ('f \<Rightarrow> string) \<Rightarrow> (sql_select \<Rightarrow> string + (string \<Rightarrow> 'f csv_value) list) \<Rightarrow>
   (string list list \<Rightarrow> string + string) \<Rightarrow> string + string list \<Rightarrow> GetListRequest \<Rightarrow> (string + string) option" where
  "slow_downloadTokenHandler lower uniq fmt_time fmt_float rows export columns req =
     (let reqFields = (if strings_TrimSpace (gl_Fields req) \<noteq> '''' then strings_Split (gl_Fields req) '','' else [])
      in export_table fmt_time fmt_float (map sf_JSONName slow_fields) [] rows export reqFields (QuerySlowLogList lower uniq columns req))"

definition stmt_downloadTokenHandler ::
  "(string \<Rightarrow> string) \<Rightarrow> (string list \<Rightarrow> string list) \<Rightarrow> (int \<Rightarrow> string) \<Rightarrow> ('f \<Rightarrow> string) \<Rightarrow> (string list \<Rightarrow> string list \<Rightarrow> string list) \<Rightarrow> (string \<Rightarrow> string) \<Rightarrow>
   (sql_select \<Rightarrow> string + (string \<Rightarrow> 'f csv_value) list) \<Rightarrow> (string list list \<Rightarrow> string + string) \<Rightarrow> string + string list \<Rightarrow>
   GetStatementsRequest \<Rightarrow> (string + string) option" where
  "stmt_downloadTokenHandler lower uniq fmt_time fmt_float inner_join column_name rows export columns req =
     export_table fmt_time fmt_float (map st_JSONName stmt_fields) [''first_seen'', ''last_seen''] rows export
       (stmt_request_fields req) (stmt_listHandler lower uniq inner_join column_name columns req)"

section \<open>What a request can put into a statement\<close>

text \<open>The fields that a list of slow queries selects.\<close>

definition slow_selected :: "string list \<Rightarrow> string list \<Rightarrow> SlowField \<Rightarrow> bool" where
  "slow_selected columns wanted f \<longleftrightarrow>
     (hd wanted = ''*'' \<or> sf_JSONName f \<in> set wanted \<or> sf_JSONName f \<in> {''digest'', ''connection_id'', ''timestamp''}) \<and>
     (sf_Projection f \<noteq> '''' \<or> sf_ColumnName f \<in> set columns)"

lemma slow_genSelectStmt_eq:
  assumes "wanted \<noteq> []" and "\<And>xs. set (uniq xs) = set xs"
  shows "slow_genSelectStmt uniq columns wanted =
    Some (if filter (slow_selected columns wanted) slow_fields = [] then Inl ''unknown_column''
          else Inr (strings_Join (map slow_select_item (filter (slow_selected columns wanted) slow_fields)) '', ''))"
proof -
  have "filter (slow_selected columns wanted) slow_fields =
      filter (\<lambda>f. sf_Projection f \<noteq> '''' \<or> sf_ColumnName f \<in> set columns)
        (if hd wanted \<noteq> ''*'' then
           filter (\<lambda>f. sf_JSONName f \<in> set (uniq (wanted @ [''digest'', ''connection_id'', ''timestamp'']))) slow_fields
         else slow_fields)"
    using assms(2) by (auto simp: slow_selected_def filter_filter intro!: filter_cong)
  then show ?thesis using assms(1) by (simp add: slow_genSelectStmt_def Let_def)
qed

lemma find_in: "List.find P xs = Some x \<Longrightarrow> x \<in> set xs"
  by (induction xs) (auto split: if_splits)

lemma slow_genOrderStmt_Inr:
  assumes "slow_genOrderStmt columns orderBy desc = Inr order"
  shows "\<exists>column. (column = ''Time'' \<or> column \<in> sf_ColumnName ` set slow_fields \<inter> set columns) \<and>
    order = column @ (if desc then '' DESC'' else '' ASC'')"
proof (cases "orderBy = ''timestamp''")
  case True
  then show ?thesis using assms by (auto simp: slow_genOrderStmt_def)
next
  case False
  then obtain f where f: "List.find (\<lambda>f. sf_JSONName f = orderBy) (filter (\<lambda>f. sf_ColumnName f \<in> set columns) slow_fields) = Some f"
    "order = sf_ColumnName f @ (if desc then '' DESC'' else '' ASC'')"
    using assms by (auto simp: slow_genOrderStmt_def split: option.splits)
  then show ?thesis using find_in [OF f(1)] by (intro exI [of _ "sf_ColumnName f"]) auto
qed

text \<open>The texts of the conditions, each of which has as many places as arguments.\<close>

definition places :: "string \<Rightarrow> nat" where
  "places s = length (filter (\<lambda>c. c = CHR ''?'') s)"

definition slow_conditions :: "string list" where
  "slow_conditions = [slow_time_where, slow_text_where, ''DB IN (?)'', ''Plan_digest IN (?)'', ''Digest = ?'']"

definition slow_where :: "(string \<Rightarrow> string) \<Rightarrow> GetListRequest \<Rightarrow> (string \<times> sql_arg list) list" where
  "slow_where lower req =
     (if gl_BeginTime req \<noteq> 0 \<and> gl_EndTime req \<noteq> 0
      then [(slow_time_where, [ArgInt (gl_BeginTime req), ArgInt (gl_EndTime req)])] else []) @
     (if gl_Text req \<noteq> '''' then map (\<lambda>v. (slow_text_where, [ArgString v, ArgString v, ArgString v, ArgString v]))
        (strings_Fields (lower (gl_Text req))) else []) @
     (if 0 < length (gl_DB req) then [(''DB IN (?)'', [ArgStrings (gl_DB req)])] else []) @
     (if 0 < length (gl_Plans req) then [(''Plan_digest IN (?)'', [ArgStrings (gl_Plans req)])] else []) @
     (if 0 < length (gl_Digest req) then [(''Digest = ?'', [ArgString (gl_Digest req)])] else [])"

definition fixed_condition :: "string \<times> sql_arg list \<Rightarrow> bool" where
  "fixed_condition c \<longleftrightarrow> fst c \<in> set slow_conditions \<and> places (fst c) = length (snd c)"

lemma places_slow_conditions:
  "places slow_time_where = 2" "places slow_text_where = 4" "places ''DB IN (?)'' = 1" "places ''Plan_digest IN (?)'' = 1"
  "places ''Digest = ?'' = 1"
  by code_simp+

lemma slow_where_fixed: "list_all fixed_condition (slow_where lower req)"
proof -
  have "fixed_condition (slow_time_where, [a, b])" "fixed_condition (slow_text_where, [a, b, c, d])"
    "fixed_condition (''DB IN (?)'', [a])" "fixed_condition (''Plan_digest IN (?)'', [a])" "fixed_condition (''Digest = ?'', [a])"
    for a b c d
    unfolding fixed_condition_def fst_conv snd_conv places_slow_conditions by (simp_all add: slow_conditions_def)
  then show ?thesis by (auto simp: slow_where_def list_all_iff)
qed

text \<open>
  C27: what a user asks of the list of slow queries never becomes text of the statement. A list is
  made without a panic; the columns selected are the fields of the model that are asked for or basic and
  that the table has, once each and in the order of the model; it is ordered by a column of the
  model that the table has, or by the time; the conditions are fixed texts with a place for each
  value; and the number of rows is limited.
\<close>

theorem slow_list_no_injection:
  assumes "\<And>xs. set (uniq xs) = set xs"
  shows "case QuerySlowLogList lower uniq (Inr columns) req of
     None \<Rightarrow> False
   | Some (Inl err) \<Rightarrow> True
   | Some (Inr q) \<Rightarrow>
       sq_select q = strings_Join (map slow_select_item
         (filter (slow_selected columns (strings_Split (gl_Fields req) '','')) slow_fields)) '', '' \<and>
       (\<exists>column. (column = ''Time'' \<or> column \<in> sf_ColumnName ` set slow_fields \<inter> set columns) \<and>
          sq_order q = column @ (if gl_IsDesc req then '' DESC'' else '' ASC'')) \<and>
       list_all fixed_condition (sq_where q) \<and>
       (case sq_limit q of None \<Rightarrow> False | Some n \<Rightarrow> 0 < n)"
proof -
  have ne: "strings_Split (gl_Fields req) '','' \<noteq> []" by (simp add: strings_Split_def split_at_ne)
  let ?fs = "filter (slow_selected columns (strings_Split (gl_Fields req) '','')) slow_fields"
  let ?orderBy = "if gl_OrderBy req = '''' then ''timestamp'' else gl_OrderBy req"
  show ?thesis
  proof (cases "slow_genOrderStmt columns ?orderBy (gl_IsDesc req)")
    case (Inl err)
    then show ?thesis by (simp only: QuerySlowLogList_def slow_genSelectStmt_eq [OF ne assms] Let_def sum.case option.case split: if_split) simp
  next
    case (Inr order)
    show ?thesis
    proof (cases "?fs = []")
      case True
      then show ?thesis by (simp only: QuerySlowLogList_def slow_genSelectStmt_eq [OF ne assms] Let_def sum.case option.case if_True simp_thms)
    next
      case False
      have q: "QuerySlowLogList lower uniq (Inr columns) req = Some (Inr
          \<lparr>sq_select = strings_Join (map slow_select_item ?fs) '', '', sq_where = slow_where lower req, sq_group = '''',
           sq_order = order, sq_limit = Some (if gl_Limit req \<le> 0 then 100 else gl_Limit req)\<rparr>)"
        using False Inr
        by (simp only: QuerySlowLogList_def slow_genSelectStmt_eq [OF ne assms] slow_where_def Let_def sum.case option.case if_False)
      show ?thesis
        unfolding q using slow_genOrderStmt_Inr [OF Inr] slow_where_fixed [of lower req] by simp
    qed
  qed
qed

text \<open>A search for words that look like SQL, ordered by the time of the query.\<close>

definition demo_list_request :: GetListRequest where
  "demo_list_request =
     \<lparr>gl_BeginTime = 0, gl_EndTime = 5, gl_DB = [], gl_Limit = 0, gl_Text = ''a OR 1'', gl_OrderBy = ''query_time'', gl_IsDesc = True,
      gl_Plans = [], gl_Digest = '''', gl_Fields = ''query;drop,query_time''\<rparr>"

definition demo_list :: sql_select where
  "demo_list =
     \<lparr>sq_select = ''Digest, (UNIX_TIMESTAMP(Time) + 0E0) AS timestamp, Query_time'',
      sq_where = map (\<lambda>v. (slow_text_where, replicate 4 (ArgString v))) [''a'', ''or'', ''1''], sq_group = '''',
      sq_order = ''Query_time DESC'', sq_limit = Some 100\<rparr>"

lemma slow_list_no_injection_witness:
  "QuerySlowLogList to_lower remdups (Inr [''Digest'', ''Query'', ''Query_time'']) demo_list_request = Some (Inr demo_list) \<and>
   list_all fixed_condition (sq_where demo_list)"
proof -
  have q: "QuerySlowLogList to_lower remdups (Inr [''Digest'', ''Query'', ''Query_time'']) demo_list_request = Some (Inr demo_list)"
    by code_simp
  show ?thesis
    using q slow_list_no_injection [where lower = to_lower and uniq = remdups and columns = "[''Digest'', ''Query'', ''Query_time'']" and req = demo_list_request] by simp
qed

section \<open>Requests that panic\<close>

lemma split_ne: "strings_Split s sep \<noteq> []"
  by (simp add: strings_Split_def split_at_ne)

lemma stmt_genSelectStmt_ne: "fs \<noteq> [] \<Longrightarrow> stmt_genSelectStmt uniq inner_join column_name columns fs \<noteq> None"
  by (simp add: stmt_genSelectStmt_def Let_def)

lemma plans_do_not_panic:
  "queryPlans uniq inner_join column_name where_only columns b e s d \<noteq> None"
  "queryPlanDetail uniq inner_join column_name where_only columns b e s d plans \<noteq> None"
  by (auto simp: queryPlans_def queryPlanDetail_def plan_fields_def Let_def stmt_genSelectStmt_ne [simplified] split: sum.splits option.splits
      dest!: stmt_genSelectStmt_ne [THEN notE, rotated])

text \<open>
  If a call whose result is not used counts, the plans of a statement are restricted to its digest.
\<close>

lemma plans_of_digest:
  assumes "queryPlans uniq inner_join column_name add_where columns b e s d = Some (Inr q)" "d \<noteq> ''''"
  shows "(''digest = ?'', [ArgString d]) \<in> set (sq_where q)"
  using assms by (auto simp: queryPlans_def add_where_def Let_def split: sum.splits option.splits if_splits)

text \<open>
  A request for the list of statements panics exactly if it names no fields and the columns of
  the table can be read: the handler then passes an empty list, whose first element is looked at.
\<close>

lemma statement_list_panics:
  "stmt_listHandler lower uniq inner_join column_name columns req = None \<longleftrightarrow>
     strings_TrimSpace (gs_Fields req) = '''' \<and> (\<exists>cs. columns = Inr cs)"
  by (auto simp: stmt_listHandler_def queryStatements_def stmt_genSelectStmt_def stmt_request_fields_def split_ne Let_def
      split: sum.splits option.splits)


text \<open>The export of statements panics likewise.\<close>

lemma statement_export_panics:
  assumes "strings_TrimSpace (gs_Fields req) = ''''"
  shows "stmt_downloadTokenHandler lower uniq fmt_time fmt_float inner_join column_name rows export (Inr cs) req = None"
  using assms by (simp add: stmt_downloadTokenHandler_def export_table_def stmt_listHandler_def queryStatements_def
      stmt_genSelectStmt_def stmt_request_fields_def)

text \<open>
  An export of slow queries without fields is a table without cells, whatever the list holds: the
  list reads the fields that are missing as one without a name, the table as none.
\<close>

lemma slow_export_without_fields:
  assumes "strings_TrimSpace (gl_Fields req) = ''''" and "QuerySlowLogList lower uniq columns req = Some (Inr q)"
    and "rows q = Inr data" and "data \<noteq> []"
  shows "slow_downloadTokenHandler lower uniq fmt_time fmt_float rows export columns req = Some (export (replicate (Suc (length data)) []))"
  using assms by (simp add: slow_downloadTokenHandler_def export_table_def GenerateCSVFromRaw_def map_replicate_const)

text \<open>Otherwise it has a line of names and a line of as many cells for each slow query.\<close>

lemma export_table_rectangular:
  assumes "export_table fmt_time fmt_float jsonNames timeFields rows export names (Some (Inr q)) = Some r"
    and "rows q = Inr data" and "data \<noteq> []" and "names \<noteq> [''*'']"
  shows "\<exists>csv. r = export (names # csv) \<and> length csv = length data \<and> (\<forall>row\<in>set csv. length row = length names)"
  using assms by (auto simp: export_table_def GenerateCSVFromRaw_def Let_def intro!: exI [of _ "map f data" for f data])

end
