(* ===== verification/ClusterInfo.thy ===== *)
theory ClusterInfo
  imports Topology
begin

text \<open>
  The hosts of the cluster and its statistics (\<open>pkg/apiserver/clusterinfo\<close>: \<open>hostinfo/hostinfo.go\<close>,
  \<open>hostinfo/cluster_load.go\<close>, \<open>hostinfo/cluster_hardware.go\<close>, \<open>hostinfo/cluster_config.go\<close>, \<open>host.go\<close>,
  \<open>statistics.go\<close>, \<open>topology.go\<close>, \<open>service.go\<close>).

  A Go map is an association list, a set a list without duplicates; the order in which Go ranges
  over a map is an argument where the code does so. The rows of the tables, or the error of
  reading them, the decoding of JSON values and \<open>strings.ToLower\<close> (\<open>host_json\<close>; the latter maps all of
  Unicode) are arguments, as are the topologies,
  which are those of \<open>pkg/utils/topology\<close>. \<open>int\<close> is a word of 64 bits, read with its sign. \<open>None\<close> is
  a panic.
\<close>

section \<open>\<open>hostinfo.go\<close>\<close>

record 'f CPUUsageInfo =
  cu_Idle :: 'f
  cu_System :: 'f

record MemoryUsageInfo =
  mu_Used :: u64
  mu_Total :: u64

record CPUInfo =
  ci_Arch :: string
  ci_LogicalCores :: u64
  ci_PhysicalCores :: u64

record PartitionInfo =
  pt_Path :: string
  pt_FSType :: string
  pt_Free :: u64
  pt_Total :: u64

record InstanceInfo =
  in_Type :: string
  in_PartitionPathL :: string

record 'f HostInfo =
  hi_Host :: string
  hi_CPUInfo :: "CPUInfo option"
  hi_CPUUsage :: "'f CPUUsageInfo option"
  hi_MemoryUsage :: "MemoryUsageInfo option"
  hi_Partitions :: "(string \<times> PartitionInfo) list"
  hi_PartitionProviderType :: string
  hi_Instances :: "(string \<times> InstanceInfo) list"

type_synonym 'f InfoMap = "(string \<times> 'f HostInfo) list"

definition NewHostInfo :: "string \<Rightarrow> 'f HostInfo" where
  "NewHostInfo hostname =
     \<lparr>hi_Host = hostname, hi_CPUInfo = None, hi_CPUUsage = None, hi_MemoryUsage = None, hi_Partitions = [],
      hi_PartitionProviderType = '''', hi_Instances = []\<rparr>"

record clusterTableModel =
  ct_Type :: string
  ct_Instance :: string
  ct_DeviceType :: string
  ct_DeviceName :: string
  ct_JSONValue :: string

record 'f host_json =
  hj_memory :: "string \<Rightarrow> MemoryUsageInfo option"
  hj_usage :: "string \<Rightarrow> 'f CPUUsageInfo option"
  hj_cpu :: "string \<Rightarrow> CPUInfo option"
  hj_disk :: "string \<Rightarrow> PartitionInfo option"
  hj_lower :: "string \<Rightarrow> string"

text \<open>The statement of a table and the types of devices that are asked for (white space is one space).\<close>

definition clusterTableQuery :: "string \<Rightarrow> string" where
  "clusterTableQuery tableName =
     ''SELECT *, FIELD(LOWER(A.TYPE), 'tiflash', 'tikv', 'pd', 'tidb') AS _ORDER FROM ('' @
     ''SELECT TYPE, INSTANCE, DEVICE_TYPE, DEVICE_NAME, JSON_OBJECTAGG(NAME, VALUE) AS JSON_VALUE FROM '' @ tableName @
     '' WHERE DEVICE_TYPE IN (?) GROUP BY TYPE, INSTANCE, DEVICE_TYPE, DEVICE_NAME) AS A'' @
     '' ORDER BY _ORDER DESC, INSTANCE, DEVICE_TYPE, DEVICE_NAME''"

text \<open>A row changes the information on its host, which is made if there is none.\<close>

definition with_host :: "string \<Rightarrow> ('f HostInfo \<Rightarrow> 'f HostInfo) \<Rightarrow> 'f InfoMap \<Rightarrow> 'f InfoMap" where
  "with_host hostname f m =
     AList.update hostname (f (case map_of m hostname of None \<Rightarrow> NewHostInfo hostname | Some h \<Rightarrow> h)) m"

definition row_host :: "string \<Rightarrow> string option" where
  "row_host instance_address = map_option fst (ParseHostAndPortFromAddress instance_address)"

section \<open>\<open>cluster_load.go\<close>\<close>

definition load_device :: "'f host_json \<Rightarrow> clusterTableModel \<Rightarrow> 'f HostInfo \<Rightarrow> 'f HostInfo" where
  "load_device J row h =
     (if ct_DeviceType row = ''memory'' \<and> ct_DeviceName row = ''virtual'' then
        (if hi_MemoryUsage h \<noteq> None then h else
         (case hj_memory J (ct_JSONValue row) of None \<Rightarrow> h | Some v \<Rightarrow> h\<lparr>hi_MemoryUsage := Some v\<rparr>))
      else if ct_DeviceType row = ''cpu'' \<and> ct_DeviceName row = ''usage'' then
        (if hi_CPUUsage h \<noteq> None then h else
         (case hj_usage J (ct_JSONValue row) of None \<Rightarrow> h | Some v \<Rightarrow> h\<lparr>hi_CPUUsage := Some v\<rparr>))
      else h)"

definition fill_rows ::
  "(clusterTableModel \<Rightarrow> 'f HostInfo \<Rightarrow> 'f HostInfo) \<Rightarrow> clusterTableModel list \<Rightarrow> 'f InfoMap \<Rightarrow> 'f InfoMap" where
  "fill_rows device rows m =
     fold (\<lambda>row m. case row_host (ct_Instance row) of None \<Rightarrow> m | Some hostname \<Rightarrow> with_host hostname (device row) m) rows m"

definition FillFromClusterLoadTable :: "'f host_json \<Rightarrow> clusterTableModel list \<Rightarrow> 'f InfoMap \<Rightarrow> 'f InfoMap" where
  "FillFromClusterLoadTable J rows m = fill_rows (load_device J) rows m"

section \<open>\<open>cluster_hardware.go\<close>\<close>

definition hardware_device :: "'f host_json \<Rightarrow> clusterTableModel \<Rightarrow> 'f HostInfo \<Rightarrow> 'f HostInfo" where
  "hardware_device J row h =
     (if ct_DeviceType row = ''cpu'' \<and> ct_DeviceName row = ''cpu'' then
        (if hi_CPUInfo h \<noteq> None then h else
         (case hj_cpu J (ct_JSONValue row) of None \<Rightarrow> h | Some v \<Rightarrow> h\<lparr>hi_CPUInfo := Some v\<rparr>))
      else if ct_DeviceType row = ''disk'' then
        (if hi_PartitionProviderType h \<noteq> '''' \<and> hi_PartitionProviderType h \<noteq> ct_Type row then h else
         (case hj_disk J (ct_JSONValue row) of
            None \<Rightarrow> h
          | Some v \<Rightarrow>
              let h = (if hi_PartitionProviderType h = '''' then h\<lparr>hi_PartitionProviderType := ct_Type row\<rparr> else h)
              in h\<lparr>hi_Partitions := AList.update (hj_lower J (pt_Path v)) v (hi_Partitions h)\<rparr>))
      else h)"

text \<open>The disks of TiFlash, and for each of its instances the longest path that it reports.\<close>

definition tiFlashDisks :: "clusterTableModel list \<Rightarrow> clusterTableModel list" where
  "tiFlashDisks rows = filter (\<lambda>row. row_host (ct_Instance row) \<noteq> None \<and> ct_DeviceType row = ''disk'' \<and> ct_Type row = ''tiflash'') rows"

definition tiflash_disk :: "'f host_json \<Rightarrow> clusterTableModel \<Rightarrow> (string \<times> nat \<times> string) list \<Rightarrow> (string \<times> nat \<times> string) list" where
  "tiflash_disk J d m =
     (case hj_disk J (ct_JSONValue d) of
        None \<Rightarrow> m
      | Some v \<Rightarrow>
          let m = (if map_of m (ct_Instance d) = None then AList.update (ct_Instance d) (0, '''') m else m)
          in if length (pt_Path v) > fst (the (map_of m (ct_Instance d)))
             then AList.update (ct_Instance d) (length (pt_Path v), pt_Path v) m else m)"

definition tiFlashDiskInfo :: "'f host_json \<Rightarrow> clusterTableModel list \<Rightarrow> (string \<times> nat \<times> string) list" where
  "tiFlashDiskInfo J disks = fold (tiflash_disk J) disks []"

fun back_fill :: "(string \<Rightarrow> string) \<Rightarrow> (string \<times> nat \<times> string) list \<Rightarrow> 'f InfoMap \<Rightarrow> 'f InfoMap option" where
  "back_fill lower [] m = Some m"
| "back_fill lower ((inst, maxLen, maxLenPath) # ds) m =
     (case row_host inst of
        None \<Rightarrow> None
      | Some hostname \<Rightarrow>
          (case map_of m hostname of
             None \<Rightarrow> None
           | Some h \<Rightarrow> back_fill lower ds (AList.update hostname
               (h\<lparr>hi_Instances := AList.update inst \<lparr>in_Type = ''tiflash'', in_PartitionPathL = lower maxLenPath\<rparr> (hi_Instances h)\<rparr>) m)))"

definition FillFromClusterHardwareTable ::
  "((string \<times> nat \<times> string) list \<Rightarrow> (string \<times> nat \<times> string) list) \<Rightarrow> 'f host_json \<Rightarrow> clusterTableModel list \<Rightarrow> 'f InfoMap \<Rightarrow>
   'f InfoMap option" where
  "FillFromClusterHardwareTable disk_order J rows m =
     back_fill (hj_lower J) (disk_order (tiFlashDiskInfo J (tiFlashDisks rows))) (fill_rows (hardware_device J) rows m)"

section \<open>\<open>cluster_config.go\<close>\<close>

record clusterConfigModel =
  cc_Type :: string
  cc_Instance :: string
  cc_Key :: string
  cc_Value :: string

text \<open>The longest of the partitions whose path is a prefix; \<open>partitions\<close> is in the order of the range.\<close>

definition match_partition :: "(string \<Rightarrow> string) \<Rightarrow> string \<Rightarrow> string \<times> PartitionInfo \<Rightarrow> nat \<times> string \<Rightarrow> nat \<times> string" where
  "match_partition lower directoryOrFilePathL = (\<lambda>(key, info) (maxMatchLen, maxMatchPath).
     if \<not> prefix_at (lower (pt_Path info)) directoryOrFilePathL then (maxMatchLen, maxMatchPath)
     else if length (pt_Path info) > maxMatchLen then (length (pt_Path info), pt_Path info)
     else (maxMatchLen, maxMatchPath))"

definition locateInstanceMountPartition :: "(string \<Rightarrow> string) \<Rightarrow> string \<Rightarrow> (string \<times> PartitionInfo) list \<Rightarrow> string" where
  "locateInstanceMountPartition lower directoryOrFilePath partitions =
     (if length directoryOrFilePath = 0 then '''' else
      snd (fold (match_partition lower (lower directoryOrFilePath)) partitions (0, '''')))"

definition FillInstances ::
  "(string \<Rightarrow> string) \<Rightarrow> ((string \<times> PartitionInfo) list \<Rightarrow> (string \<times> PartitionInfo) list) \<Rightarrow> clusterConfigModel list \<Rightarrow> 'f InfoMap \<Rightarrow> 'f InfoMap" where
  "FillInstances lower partition_order rows m =
     fold (\<lambda>row m. case row_host (cc_Instance row) of
         None \<Rightarrow> m
       | Some hostname \<Rightarrow> with_host hostname (\<lambda>h. h\<lparr>hi_Instances := AList.update (cc_Instance row)
           \<lparr>in_Type = cc_Type row,
            in_PartitionPathL = lower (locateInstanceMountPartition lower (cc_Value row) (partition_order (hi_Partitions h)))\<rparr>
           (hi_Instances h)\<rparr>) m) rows m"

section \<open>\<open>host.go\<close>\<close>

text \<open>The results of the topology package: PD (which may panic), the stores, TiDB.\<close>

record topologies =
  tp_pd :: "(topology_error + PDInfo list) option"
  tp_stores :: "topology_error + StoreInfo list \<times> StoreInfo list"
  tp_tidb :: "topology_error + TiDBInfo list"

definition fetch_topologies ::
  "topologies \<Rightarrow> (topology_error + PDInfo list \<times> StoreInfo list \<times> StoreInfo list \<times> TiDBInfo list) option" where
  "fetch_topologies T =
     (case tp_pd T of
        None \<Rightarrow> None
      | Some (Inl err) \<Rightarrow> Some (Inl err)
      | Some (Inr pdInfo) \<Rightarrow>
          (case tp_stores T of
             Inl err \<Rightarrow> Some (Inl err)
           | Inr (tikvInfo, tiFlashInfo) \<Rightarrow>
               (case tp_tidb T of
                  Inl err \<Rightarrow> Some (Inl err)
                | Inr tidbInfo \<Rightarrow> Some (Inr (pdInfo, tikvInfo, tiFlashInfo, tidbInfo)))))"

definition fetchAllInstanceHosts :: "topologies \<Rightarrow> (topology_error + string list) option" where
  "fetchAllInstanceHosts T =
     (case fetch_topologies T of
        None \<Rightarrow> None
      | Some (Inl err) \<Rightarrow> Some (Inl err)
      | Some (Inr (pdInfo, tikvInfo, tiFlashInfo, tidbInfo)) \<Rightarrow>
          Some (Inr (sort (remdups (map pi_IP pdInfo @ map si_IP tikvInfo @ map si_IP tiFlashInfo @ map ti_IP tidbInfo)))))"

text \<open>What the tables answer: the rows, or an error.\<close>

record host_tables =
  ht_load :: "string + clusterTableModel list"
  ht_hardware :: "string + clusterTableModel list"
  ht_config :: "string + clusterConfigModel list"

record map_orders =
  mo_disks :: "(string \<times> nat \<times> string) list \<Rightarrow> (string \<times> nat \<times> string) list"
  mo_partitions :: "(string \<times> PartitionInfo) list \<Rightarrow> (string \<times> PartitionInfo) list"

text \<open>The information is returned together with the first error of a table.\<close>

datatype fetch_error = TopologyError topology_error | TableError string

definition fill_hosts_info ::
  "map_orders \<Rightarrow> 'f host_json \<Rightarrow> host_tables \<Rightarrow> ('f InfoMap \<times> string option) option" where
  "fill_hosts_info os J D =
     (let (m, err) = (case ht_load D of Inl e \<Rightarrow> ([], Some e) | Inr rows \<Rightarrow> (FillFromClusterLoadTable J rows [], None)) in
      case (case ht_hardware D of
              Inl e \<Rightarrow> Some (m, if err = None then Some e else err)
            | Inr rows \<Rightarrow> map_option (\<lambda>m. (m, err)) (FillFromClusterHardwareTable (mo_disks os) J rows m)) of
        None \<Rightarrow> None
      | Some (m, err) \<Rightarrow>
          Some (case ht_config D of
              Inl e \<Rightarrow> (m, if err = None then Some e else err)
            | Inr rows \<Rightarrow> (FillInstances (hj_lower J) (mo_partitions os) rows m, err)))"

definition fetchAllHostsInfo ::
  "map_orders \<Rightarrow> 'f host_json \<Rightarrow> topologies \<Rightarrow> host_tables \<Rightarrow> ('f HostInfo list option \<times> fetch_error option) option" where
  "fetchAllHostsInfo os J T D =
     (case fetchAllInstanceHosts T of
        None \<Rightarrow> None
      | Some (Inl err) \<Rightarrow> Some (None, Some (TopologyError err))
      | Some (Inr allHosts) \<Rightarrow>
          (case fill_hosts_info os J D of
             None \<Rightarrow> None
           | Some (m, err) \<Rightarrow>
               Some (Some (map (\<lambda>host. case map_of m host of Some im \<Rightarrow> im | None \<Rightarrow> NewHostInfo host) allHosts),
                 map_option TableError err)))"

text \<open>The handler: an error, or the hosts with a warning.\<close>

definition getHostsInfo ::
  "('f HostInfo list option \<times> fetch_error option) option \<Rightarrow> (fetch_error + 'f HostInfo list option \<times> fetch_error option) option" where
  "getHostsInfo r =
     map_option (\<lambda>(info, err). case err of
         Some e \<Rightarrow> if info = None then Inl e else Inr (info, Some e)
       | None \<Rightarrow> Inr (info, None)) r"

section \<open>\<open>statistics.go\<close>\<close>

record ClusterStatisticsPartial =
  NumberOfHosts :: nat
  NumberOfInstances :: nat
  TotalMemoryCapacityBytes :: u64
  TotalPhysicalCores :: u64
  TotalLogicalCores :: u64

record ClusterStatistics =
  ProbeFailureHosts :: nat
  Versions :: "string list"
  TotalStats :: ClusterStatisticsPartial
  StatsByInstanceKind :: "(string \<times> ClusterStatisticsPartial) list"

record host_capacity =
  memoryCapacity :: u64
  physicalCores :: u64
  logicalCores :: u64

record instanceKindImmediateInfo =
  ik_instances :: "string list"
  ik_hosts :: "(string \<times> host_capacity) list"

definition sumInt :: "u64 list \<Rightarrow> u64" where
  "sumInt array = fold (\<lambda>v result. result + v) array 0"

definition ToResult :: "instanceKindImmediateInfo \<Rightarrow> ClusterStatisticsPartial" where
  "ToResult info =
     \<lparr>NumberOfHosts = length (ik_hosts info), NumberOfInstances = length (ik_instances info),
      TotalMemoryCapacityBytes = sumInt (map (memoryCapacity \<circ> snd) (ik_hosts info)),
      TotalPhysicalCores = sumInt (map (physicalCores \<circ> snd) (ik_hosts info)),
      TotalLogicalCores = sumInt (map (logicalCores \<circ> snd) (ik_hosts info))\<rparr>"

text \<open>What the statistics read of an instance: IP, port, version.\<close>

type_synonym node = "string \<times> u64 \<times> string"

definition pd_nodes :: "PDInfo list \<Rightarrow> node list" where
  "pd_nodes = map (\<lambda>i. (pi_IP i, pi_Port i, pi_Version i))"

definition store_nodes :: "StoreInfo list \<Rightarrow> node list" where
  "store_nodes = map (\<lambda>i. (si_IP i, si_Port i, si_Version i))"

definition tidb_nodes :: "TiDBInfo list \<Rightarrow> node list" where
  "tidb_nodes = map (\<lambda>i. (ti_IP i, ti_Port i, ti_Version i))"

definition node_address :: "node \<Rightarrow> string" where
  "node_address = (\<lambda>(ip, port, version). ip @ '':'' @ dec_string (uint port))"

definition node_instances :: "node list \<Rightarrow> string list" where
  "node_instances ns = fold (\<lambda>n. List.insert (node_address n)) ns []"

text \<open>The capacity of a host, if all of it is known; a missing pointer that is read is a panic.\<close>

definition host_capacity_of :: "'f HostInfo \<Rightarrow> host_capacity option option" where
  "host_capacity_of hi =
     (case hi_MemoryUsage hi of
        None \<Rightarrow> None
      | Some mu \<Rightarrow>
          if \<not> 0 < sint (mu_Total mu) then Some None else
          (case hi_CPUInfo hi of
             None \<Rightarrow> None
           | Some ci \<Rightarrow>
               Some (if 0 < sint (ci_PhysicalCores ci) \<and> 0 < sint (ci_LogicalCores ci)
                 then Some \<lparr>memoryCapacity = mu_Total mu, physicalCores = ci_PhysicalCores ci, logicalCores = ci_LogicalCores ci\<rparr>
                 else None)))"

fun known_hosts :: "'f InfoMap \<Rightarrow> (string \<times> host_capacity) list \<Rightarrow> (string \<times> host_capacity) list option" where
  "known_hosts [] known = Some known"
| "known_hosts ((host, hi) # m) known =
     (case host_capacity_of hi of
        None \<Rightarrow> None
      | Some None \<Rightarrow> known_hosts m known
      | Some (Some v) \<Rightarrow> known_hosts m (AList.update host v known))"

text \<open>The hosts of a kind of instances, and those whose capacity is not known.\<close>

definition kind_hosts ::
  "(string \<times> host_capacity) list \<Rightarrow> node list \<Rightarrow> (string \<times> host_capacity) list \<times> string list \<Rightarrow>
   (string \<times> host_capacity) list \<times> string list" where
  "kind_hosts known ns s =
     fold (\<lambda>(ip, _) (hosts, failures). case map_of known ip of
         Some v \<Rightarrow> (AList.update ip v hosts, failures)
       | None \<Rightarrow> (hosts, List.insert ip failures)) ns s"

definition cluster_statistics ::
  "(string \<times> node list) list \<Rightarrow> (string \<times> host_capacity) list \<Rightarrow> ClusterStatistics" where
  "cluster_statistics kinds known =
     (let ns = concat (map snd kinds);
          failures = fold (\<lambda>(ik, ns) failures. snd (kind_hosts known ns ([], failures))) kinds [];
          infoByIk = map (\<lambda>(ik, ns). (ik, \<lparr>ik_instances = node_instances ns, ik_hosts = fst (kind_hosts known ns ([], []))\<rparr>)) kinds
      in \<lparr>ProbeFailureHosts = length failures, Versions = sort (remdups (map (snd \<circ> snd) ns)),
          TotalStats = ToResult \<lparr>ik_instances = node_instances ns, ik_hosts = known\<rparr>,
          StatsByInstanceKind = map (\<lambda>(ik, info). (ik, ToResult info)) infoByIk\<rparr>)"

text \<open>
  \<open>Inr None\<close> is a result that is nil without an error: the code returns the error of the topology
  (which is nil by then) when a table cannot be read. \<open>host_order\<close> is the order of the range over the hosts.
\<close>

definition calculateStatistics ::
  "map_orders \<Rightarrow> ('f InfoMap \<Rightarrow> 'f InfoMap) \<Rightarrow> 'f host_json \<Rightarrow> topologies \<Rightarrow> host_tables \<Rightarrow>
   (topology_error + ClusterStatistics option) option" where
  "calculateStatistics os host_order J T D =
     (case fetch_topologies T of
        None \<Rightarrow> None
      | Some (Inl err) \<Rightarrow> Some (Inl err)
      | Some (Inr (pdInfo, tikvInfo, tiFlashInfo, tidbInfo)) \<Rightarrow>
          (case ht_load D of Inl _ \<Rightarrow> Some (Inr None) | Inr load_rows \<Rightarrow>
          (case ht_hardware D of Inl _ \<Rightarrow> Some (Inr None) | Inr hardware_rows \<Rightarrow>
          (case FillFromClusterHardwareTable (mo_disks os) J hardware_rows (FillFromClusterLoadTable J load_rows []) of
             None \<Rightarrow> None
           | Some m \<Rightarrow>
               (case known_hosts (host_order m) [] of
                  None \<Rightarrow> None
                | Some known \<Rightarrow>
                    Some (Inr (Some (cluster_statistics
                      [(''pd'', pd_nodes pdInfo), (''tikv'', store_nodes tikvInfo), (''tiflash'', store_nodes tiFlashInfo),
                       (''tidb'', tidb_nodes tidbInfo)] known))))))))"

section \<open>\<open>topology.go\<close> and \<open>service.go\<close>\<close>

definition fetchAlertManagerCounts :: "(string \<Rightarrow> string + int \<times> string) \<Rightarrow> (string \<Rightarrow> nat option) \<Rightarrow> string \<Rightarrow> string + nat" where
  "fetchAlertManagerCounts get alerts alertManagerAddr =
     (case get (''http://'' @ alertManagerAddr @ ''/api/v2/alerts'') of
        Inl err \<Rightarrow> Inl err
      | Inr (status, data) \<Rightarrow>
          if status \<noteq> 200 then Inl ''alert manager API returns non success status code'' else
          (case alerts data of None \<Rightarrow> Inl ''invalid answer'' | Some n \<Rightarrow> Inr n))"

text \<open>
  Hiding an instance of TiDB. Two goroutines delete its keys; \<open>finish\<close> is the order in which they
  end, and the error of the first that fails is answered.
\<close>

definition tidb_keys :: "string \<Rightarrow> string list" where
  "tidb_keys address = [''/topology/tidb/'' @ address @ ''/ttl'', ''/topology/tidb/'' @ address @ ''/info'']"

definition deleteTiDBTopology ::
  "(string \<Rightarrow> string option) \<Rightarrow> (string list \<Rightarrow> string list) \<Rightarrow> string \<Rightarrow> (string \<times> string) list \<Rightarrow>
   string option \<times> (string \<times> string) list" where
  "deleteTiDBTopology delete_err finish address kvs =
     (let keys = finish (tidb_keys address);
          errs = concat (map (\<lambda>k. case delete_err k of None \<Rightarrow> [] | Some e \<Rightarrow> [e]) keys)
      in (if errs = [] then None else Some (hd errs),
          filter (\<lambda>(k, v). \<not> (k \<in> set keys \<and> delete_err k = None)) kvs))"

end
