(* ===== verification/ClusterProps.thy ===== *)
theory ClusterProps
  imports ClusterInfo
begin

text \<open>
  What the information on hosts is in terms of the rows of the tables, and what the statistics count.
  A map that is an association list is read by \<open>map_of\<close>; every result is stated for all orders in
  which Go may range over a map.
\<close>

section \<open>What the rows say of a host\<close>

definition host_or_new :: "'f InfoMap \<Rightarrow> string \<Rightarrow> 'f HostInfo" where
  "host_or_new m host = (case map_of m host of None \<Rightarrow> NewHostInfo host | Some h \<Rightarrow> h)"

lemma map_of_with_host: "map_of (with_host hostname f m) = (map_of m)(hostname \<mapsto> f (host_or_new m hostname))"
  by (simp add: with_host_def host_or_new_def update_conv')

lemma distinct_with_host: "distinct (map fst m) \<Longrightarrow> distinct (map fst (with_host hostname f m))"
  by (simp add: with_host_def distinct_update)

definition rows_of :: "string \<Rightarrow> clusterTableModel list \<Rightarrow> clusterTableModel list" where
  "rows_of host rows = filter (\<lambda>r. row_host (ct_Instance r) = Some host) rows"

lemma map_of_fill_rows:
  "map_of (fill_rows device rows m) host =
     (if rows_of host rows = [] then map_of m host else Some (fold device (rows_of host rows) (host_or_new m host)))"
proof (induction rows arbitrary: m)
  case (Cons r rows)
  have "fill_rows device (r # rows) m =
      fill_rows device rows (case row_host (ct_Instance r) of None \<Rightarrow> m | Some h \<Rightarrow> with_host h (device r) m)"
    by (simp add: fill_rows_def)
  then show ?case
    by (simp only:) (auto simp: Cons.IH rows_of_def map_of_with_host host_or_new_def split: option.split)
qed (simp add: fill_rows_def rows_of_def)

lemma distinct_fill_rows: "distinct (map fst m) \<Longrightarrow> distinct (map fst (fill_rows device rows m))"
proof (induction rows arbitrary: m)
  case (Cons r rows)
  have "fill_rows device (r # rows) m =
      fill_rows device rows (case row_host (ct_Instance r) of None \<Rightarrow> m | Some h \<Rightarrow> with_host h (device r) m)"
    by (simp add: fill_rows_def)
  then show ?case using Cons by (auto simp: distinct_with_host split: option.split)
qed (simp add: fill_rows_def)

text \<open>The first value that decodes, of the rows of a device.\<close>

fun first_decoded :: "(clusterTableModel \<Rightarrow> bool) \<Rightarrow> (string \<Rightarrow> 'v option) \<Rightarrow> clusterTableModel list \<Rightarrow> 'v option" where
  "first_decoded P dec [] = None"
| "first_decoded P dec (r # rows) =
     (if P r \<and> dec (ct_JSONValue r) \<noteq> None then dec (ct_JSONValue r) else first_decoded P dec rows)"

definition is_memory :: "clusterTableModel \<Rightarrow> bool" where
  "is_memory r \<longleftrightarrow> ct_DeviceType r = ''memory'' \<and> ct_DeviceName r = ''virtual''"

definition is_cpu :: "clusterTableModel \<Rightarrow> bool" where
  "is_cpu r \<longleftrightarrow> ct_DeviceType r = ''cpu'' \<and> ct_DeviceName r = ''cpu''"

lemma load_memory:
  "hi_MemoryUsage (fold (load_device J) rs h) =
     (case hi_MemoryUsage h of Some v \<Rightarrow> Some v | None \<Rightarrow> first_decoded is_memory (hj_memory J) rs)"
  by (induction rs arbitrary: h) (auto simp: load_device_def is_memory_def split: option.splits)

lemma load_cpu: "hi_CPUInfo (fold (load_device J) rs h) = hi_CPUInfo h"
  by (induction rs arbitrary: h) (auto simp: load_device_def split: option.splits)

lemma hardware_cpu:
  "hi_CPUInfo (fold (hardware_device J) rs h) =
     (case hi_CPUInfo h of Some v \<Rightarrow> Some v | None \<Rightarrow> first_decoded is_cpu (hj_cpu J) rs)"
  by (induction rs arbitrary: h) (auto simp: hardware_device_def is_cpu_def Let_def split: option.splits)

lemma hardware_memory: "hi_MemoryUsage (fold (hardware_device J) rs h) = hi_MemoryUsage h"
  by (induction rs arbitrary: h) (auto simp: hardware_device_def Let_def split: option.splits)

section \<open>The disks of TiFlash\<close>

text \<open>Filling in the instances of TiFlash changes nothing else, and never panics.\<close>

definition strip :: "'f HostInfo \<Rightarrow> 'f HostInfo" where
  "strip h = h\<lparr>hi_Instances := []\<rparr>"

lemma strip_fields:
  assumes "strip h = strip h'"
  shows "hi_MemoryUsage h = hi_MemoryUsage h'" "hi_CPUInfo h = hi_CPUInfo h'" "hi_Partitions h = hi_Partitions h'" "hi_Host h = hi_Host h'"
  using assms by (cases h; cases h'; simp add: strip_def)+

lemma back_fill_Some:
  assumes "\<forall>d\<in>set ds. \<exists>host h. row_host (fst d) = Some host \<and> map_of m host = Some h" and "distinct (map fst m)"
  shows "\<exists>m'. back_fill lower ds m = Some m' \<and> distinct (map fst m') \<and> map_option strip \<circ> map_of m' = map_option strip \<circ> map_of m"
  using assms
proof (induction ds arbitrary: m)
  case (Cons d ds)
  obtain inst len path where d: "d = (inst, len, path)" by (cases d) auto
  obtain host h where h: "row_host inst = Some host" "map_of m host = Some h" using Cons.prems(1) d by auto
  let ?h = "h\<lparr>hi_Instances := AList.update inst \<lparr>in_Type = ''tiflash'', in_PartitionPathL = lower path\<rparr> (hi_Instances h)\<rparr>"
  let ?m = "AList.update host ?h m"
  have mo: "map_of ?m = (map_of m)(host \<mapsto> ?h)" by (simp add: update_conv')
  have "\<forall>d\<in>set ds. \<exists>host h. row_host (fst d) = Some host \<and> map_of ?m host = Some h"
    using Cons.prems(1) unfolding mo by fastforce
  moreover have "distinct (map fst ?m)" using Cons.prems(2) by (simp add: distinct_update)
  ultimately obtain m' where m': "back_fill lower ds ?m = Some m'" "distinct (map fst m')"
    "map_option strip \<circ> map_of m' = map_option strip \<circ> map_of ?m" using Cons.IH by blast
  have "strip ?h = strip h" by (simp add: strip_def)
  then have "map_option strip \<circ> map_of ?m = map_option strip \<circ> map_of m" using h(2) by (auto simp: mo fun_eq_iff)
  moreover have "back_fill lower (d # ds) m = Some m'" using m'(1) h d by simp
  ultimately show ?case using m'(2,3) by (intro exI [of _ m'] conjI) simp_all
qed simp

lemma keys_tiflash_disk: "fst ` set (tiflash_disk J d m) \<subseteq> insert (ct_Instance d) (fst ` set m)"
  by (auto simp: tiflash_disk_def Let_def update_keys dom_update split: option.splits if_splits
      dest!: image_eqI [where f = fst, OF refl] simp flip: set_map)

lemma keys_tiFlashDiskInfo: "fst ` set (tiFlashDiskInfo J ds) \<subseteq> ct_Instance ` set ds"
proof -
  have "fst ` set (fold (tiflash_disk J) ds m) \<subseteq> fst ` set m \<union> ct_Instance ` set ds" for m
  proof (induction ds arbitrary: m)
    case (Cons d ds)
    show ?case using Cons.IH [of "tiflash_disk J d m"] keys_tiflash_disk [of J d m] by auto
  qed simp
  from this [of "[]"] show ?thesis by (simp add: tiFlashDiskInfo_def)
qed

text \<open>The hypothesis on the orders: a range visits each entry once.\<close>

definition orders_ok :: "map_orders \<Rightarrow> bool" where
  "orders_ok os \<longleftrightarrow> (\<forall>l. mset (mo_disks os l) = mset l) \<and> (\<forall>l. mset (mo_partitions os l) = mset l)"

lemma hardware_table:
  assumes "orders_ok os" and "distinct (map fst m)"
  shows "\<exists>m'. FillFromClusterHardwareTable (mo_disks os) J rows m = Some m' \<and> distinct (map fst m') \<and>
    map_option strip \<circ> map_of m' = map_option strip \<circ> map_of (fill_rows (hardware_device J) rows m)"
proof -
  let ?m = "fill_rows (hardware_device J) rows m" and ?ds = "tiFlashDiskInfo J (tiFlashDisks rows)"
  have "set (mo_disks os ?ds) = set ?ds" using assms(1) by (metis orders_ok_def set_mset_mset)
  moreover have "\<exists>host h. row_host (fst d) = Some host \<and> map_of ?m host = Some h" if "d \<in> set ?ds" for d
  proof -
    have "fst d \<in> ct_Instance ` set (tiFlashDisks rows)" using keys_tiFlashDiskInfo that by blast
    then obtain r where r: "r \<in> set rows" "ct_Instance r = fst d" "row_host (fst d) \<noteq> None" by (auto simp: tiFlashDisks_def)
    then obtain host where "row_host (fst d) = Some host" by auto
    moreover from this have "rows_of host rows \<noteq> []" using r unfolding rows_of_def filter_empty_conv by metis
    ultimately show ?thesis by (simp add: map_of_fill_rows)
  qed
  ultimately show ?thesis
    unfolding FillFromClusterHardwareTable_def by (intro back_fill_Some) (simp_all add: distinct_fill_rows assms(2))
qed

text \<open>What both tables say of a host.\<close>

definition reported :: "clusterTableModel list \<Rightarrow> string \<Rightarrow> bool" where
  "reported rows host \<longleftrightarrow> rows_of host rows \<noteq> []"

definition memory_of :: "'f host_json \<Rightarrow> clusterTableModel list \<Rightarrow> string \<Rightarrow> MemoryUsageInfo option" where
  "memory_of J L host = first_decoded is_memory (hj_memory J) (rows_of host L)"

definition cpu_of :: "'f host_json \<Rightarrow> clusterTableModel list \<Rightarrow> string \<Rightarrow> CPUInfo option" where
  "cpu_of J H host = first_decoded is_cpu (hj_cpu J) (rows_of host H)"

lemma both_tables:
  assumes "orders_ok os"
  shows "\<exists>m. FillFromClusterHardwareTable (mo_disks os) J H (FillFromClusterLoadTable J L []) = Some m \<and> distinct (map fst m) \<and>
    (\<forall>host. map_of m host \<noteq> None \<longleftrightarrow> reported L host \<or> reported H host) \<and>
    (\<forall>host h. map_of m host = Some h \<longrightarrow> hi_MemoryUsage h = memory_of J L host \<and> hi_CPUInfo h = cpu_of J H host)"
proof -
  let ?l = "FillFromClusterLoadTable J L []"
  let ?m = "fill_rows (hardware_device J) H ?l"
  have d: "distinct (map fst ?l)" by (simp add: FillFromClusterLoadTable_def distinct_fill_rows)
  obtain m where m: "FillFromClusterHardwareTable (mo_disks os) J H ?l = Some m" "distinct (map fst m)"
    "map_option strip \<circ> map_of m = map_option strip \<circ> map_of ?m" using hardware_table [OF assms d] by blast
  have l: "map_of ?l host = (if rows_of host L = [] then None else Some (fold (load_device J) (rows_of host L) (NewHostInfo host)))" for host
    by (simp add: FillFromClusterLoadTable_def map_of_fill_rows host_or_new_def)
  have eq: "map_option strip (map_of m host) = map_option strip (map_of ?m host)" for host
    using m(3) by (metis comp_apply)
  have dom: "map_of m host \<noteq> None \<longleftrightarrow> reported L host \<or> reported H host" for host
    using arg_cong [OF eq [of host], of "\<lambda>x. x = None"] by (auto simp: map_of_fill_rows l reported_def)
  have vals: "hi_MemoryUsage h = memory_of J L host \<and> hi_CPUInfo h = cpu_of J H host" if h: "map_of m host = Some h" for host h
  proof -
    obtain h' where h': "map_of ?m host = Some h'" "strip h = strip h'"
      using eq [of host] unfolding h by (auto dest: sym)
    have new: "hi_MemoryUsage (NewHostInfo host :: 'a HostInfo) = None" "hi_CPUInfo (NewHostInfo host :: 'a HostInfo) = None"
      by (simp_all add: NewHostInfo_def)
    have "hi_MemoryUsage h' = memory_of J L host \<and> hi_CPUInfo h' = cpu_of J H host"
      using h'(1) by (auto simp: map_of_fill_rows l host_or_new_def memory_of_def cpu_of_def hardware_memory hardware_cpu
          load_memory load_cpu new split: if_splits)
    then show ?thesis using strip_fields [OF h'(2)] by simp
  qed
  show ?thesis using m(1,2) dom vals by blast
qed

section \<open>The capacity of hosts\<close>

text \<open>
  What the statistics read of a host: \<open>None\<close> if the memory is missing, or the memory is positive
  and the CPU is missing.
\<close>

definition capacity :: "MemoryUsageInfo option \<Rightarrow> CPUInfo option \<Rightarrow> host_capacity option option" where
  "capacity memory cpu =
     (case memory of
        None \<Rightarrow> None
      | Some mu \<Rightarrow>
          if \<not> 0 < sint (mu_Total mu) then Some None else
          (case cpu of
             None \<Rightarrow> None
           | Some ci \<Rightarrow>
               Some (if 0 < sint (ci_PhysicalCores ci) \<and> 0 < sint (ci_LogicalCores ci)
                 then Some \<lparr>memoryCapacity = mu_Total mu, physicalCores = ci_PhysicalCores ci, logicalCores = ci_LogicalCores ci\<rparr>
                 else None)))"

lemma host_capacity_of_eq: "host_capacity_of h = capacity (hi_MemoryUsage h) (hi_CPUInfo h)"
  by (simp add: host_capacity_of_def capacity_def)

lemma known_hosts_None: "known_hosts m known = None \<longleftrightarrow> (\<exists>(host, hi)\<in>set m. host_capacity_of hi = None)"
  by (induction m known rule: known_hosts.induct) (auto split: option.splits)

lemma known_hosts_Some:
  assumes "known_hosts m known = Some known'" and "distinct (map fst m)" and "distinct (map fst known)"
    and "fst ` set m \<inter> fst ` set known = {}"
  shows "distinct (map fst known') \<and>
    (\<forall>host v. map_of known' host = Some v \<longleftrightarrow>
       map_of known host = Some v \<or> (\<exists>hi. map_of m host = Some hi \<and> host_capacity_of hi = Some (Some v)))"
  using assms
proof (induction m known rule: known_hosts.induct)
  case (2 host hi m known)
  obtain c where c: "host_capacity_of hi = Some c" using "2.prems"(1) by (auto split: option.splits)
  have new: "map_of known host = None" "map_of m host = None" using "2.prems"(2,4) by (auto simp: map_of_eq_None_iff)
  show ?case
  proof (cases c)
    case None
    have "distinct (map fst known') \<and>
      (\<forall>h v. map_of known' h = Some v \<longleftrightarrow>
         map_of known h = Some v \<or> (\<exists>hi. map_of m h = Some hi \<and> host_capacity_of hi = Some (Some v)))"
      using "2.prems" c None by (intro "2.IH"(1) [OF c None]) simp_all
    then show ?thesis using c None new by simp
  next
    case (Some v)
    have "distinct (map fst known') \<and>
      (\<forall>h v'. map_of known' h = Some v' \<longleftrightarrow>
         map_of (AList.update host v known) h = Some v' \<or> (\<exists>hi. map_of m h = Some hi \<and> host_capacity_of hi = Some (Some v')))"
      using "2.prems" c Some by (intro "2.IH"(2) [OF c Some]) (auto simp: distinct_update dom_update)
    then show ?thesis using c Some new by (simp add: update_conv')
  qed
qed simp

section \<open>Counting\<close>

lemma sumInt_eq: "sumInt xs = sum_list xs"
proof -
  have "fold (\<lambda>v result. result + v) xs a = a + sum_list xs" for a :: u64
    by (induction xs arbitrary: a) (simp_all add: add.assoc)
  then show ?thesis by (simp add: sumInt_def)
qed

lemma fold_insert: "set (fold (\<lambda>n. List.insert (f n)) ns xs) = f ` set ns \<union> set xs \<and>
    (distinct xs \<longrightarrow> distinct (fold (\<lambda>n. List.insert (f n)) ns xs))"
  by (induction ns arbitrary: xs) auto

lemma length_node_instances: "length (node_instances ns) = card (node_address ` set ns)"
  using fold_insert [of node_address ns "[]"] by (simp add: node_instances_def distinct_card [symmetric])

lemma update_member: "kv \<in> set (AList.update k v al) \<Longrightarrow> kv = (k, v) \<or> kv \<in> set al"
  by (induction al) (auto split: if_splits)

lemma kind_hosts_fold:
  assumes "distinct (map fst hosts)" and "\<forall>(h, v)\<in>set hosts. map_of known h = Some v" and "distinct failures"
  shows "case kind_hosts known ns (hosts, failures) of (hosts', failures') \<Rightarrow>
    distinct (map fst hosts') \<and> (\<forall>(h, v)\<in>set hosts'. map_of known h = Some v) \<and>
    fst ` set hosts' = fst ` set hosts \<union> (fst ` set ns \<inter> dom (map_of known)) \<and>
    distinct failures' \<and> set failures' = set failures \<union> (fst ` set ns - dom (map_of known))"
  using assms
proof (induction ns arbitrary: hosts failures)
  case (Cons n ns)
  obtain ip r where n: "n = (ip, r)" by (cases n) auto
  show ?case
  proof (cases "map_of known ip")
    case None
    have "case kind_hosts known ns (hosts, List.insert ip failures) of (hosts', failures') \<Rightarrow>
      distinct (map fst hosts') \<and> (\<forall>(h, v)\<in>set hosts'. map_of known h = Some v) \<and>
      fst ` set hosts' = fst ` set hosts \<union> (fst ` set ns \<inter> dom (map_of known)) \<and>
      distinct failures' \<and> set failures' = set (List.insert ip failures) \<union> (fst ` set ns - dom (map_of known))"
      using Cons.prems by (intro Cons.IH) simp_all
    moreover have "ip \<notin> dom (map_of known)" using None by auto
    ultimately show ?thesis using None n by (simp add: kind_hosts_def insert_Diff_if split: prod.splits)
  next
    case (Some v)
    have "\<forall>(h, w)\<in>set (AList.update ip v hosts). map_of known h = Some w"
      using Cons.prems(2) Some by (fastforce dest: update_member)
    then have "case kind_hosts known ns (AList.update ip v hosts, failures) of (hosts', failures') \<Rightarrow>
      distinct (map fst hosts') \<and> (\<forall>(h, v)\<in>set hosts'. map_of known h = Some v) \<and>
      fst ` set hosts' = fst ` set (AList.update ip v hosts) \<union> (fst ` set ns \<inter> dom (map_of known)) \<and>
      distinct failures' \<and> set failures' = set failures \<union> (fst ` set ns - dom (map_of known))"
      using Cons.prems by (intro Cons.IH) (simp_all add: distinct_update)
    moreover have "ip \<in> dom (map_of known)" using Some by auto
    ultimately show ?thesis using Some n by (simp add: kind_hosts_def dom_update split: prod.splits)
  qed
qed (simp add: kind_hosts_def)

text \<open>The statistics of a kind are those of its instances and of the hosts of known capacity that it runs on.\<close>

definition partial_ok :: "(string \<rightharpoonup> host_capacity) \<Rightarrow> node list \<Rightarrow> string set \<Rightarrow> ClusterStatisticsPartial \<Rightarrow> bool" where
  "partial_ok cap ns hosts p \<longleftrightarrow>
     NumberOfInstances p = card (node_address ` set ns) \<and> NumberOfHosts p = card hosts \<and>
     TotalMemoryCapacityBytes p = (\<Sum>h\<in>hosts. memoryCapacity (the (cap h))) \<and>
     TotalPhysicalCores p = (\<Sum>h\<in>hosts. physicalCores (the (cap h))) \<and>
     TotalLogicalCores p = (\<Sum>h\<in>hosts. logicalCores (the (cap h)))"

lemma sum_hosts:
  assumes "distinct (map fst hosts)" and "\<forall>(h, v)\<in>set hosts. cap h = Some v"
  shows "sumInt (map (f \<circ> snd) hosts) = (\<Sum>h\<in>fst ` set hosts. f (the (cap h)))"
proof -
  have "map (f \<circ> snd) hosts = map (\<lambda>h. f (the (cap h))) (map fst hosts)" using assms(2) by (auto simp: map_eq_conv)
  then have "sumInt (map (f \<circ> snd) hosts) = sum_list (map (\<lambda>h. f (the (cap h))) (map fst hosts))"
    by (simp only: sumInt_eq)
  also have "\<dots> = (\<Sum>h\<in>fst ` set hosts. f (the (cap h)))" using sum.distinct_set_conv_list [OF assms(1), of "\<lambda>h. f (the (cap h))"] by simp
  finally show ?thesis .
qed

lemma ToResult_ok:
  assumes "distinct (map fst hosts)" and "\<forall>(h, v)\<in>set hosts. cap h = Some v"
  shows "partial_ok cap ns (fst ` set hosts) (ToResult \<lparr>ik_instances = node_instances ns, ik_hosts = hosts\<rparr>)"
  using distinct_card [OF assms(1)]
  by (simp add: partial_ok_def ToResult_def length_node_instances sum_hosts [OF assms])

lemma failures_fold:
  assumes "distinct failures"
  shows "distinct (fold (\<lambda>(ik, ns) failures. snd (kind_hosts known ns ([], failures))) kinds failures) \<and>
    set (fold (\<lambda>(ik, ns) failures. snd (kind_hosts known ns ([], failures))) kinds failures) =
      set failures \<union> (fst ` set (concat (map snd kinds)) - dom (map_of known))"
  using assms
proof (induction kinds arbitrary: failures)
  case (Cons k kinds)
  let ?f = "snd (kind_hosts known (snd k) ([], failures))"
  have f: "distinct ?f \<and> set ?f = set failures \<union> (fst ` set (snd k) - dom (map_of known))"
    using kind_hosts_fold [of "[]" known failures "snd k"] Cons.prems by (auto split: prod.splits)
  show ?case using Cons.IH [of ?f] f by (auto simp: case_prod_beta')
qed simp

lemma cluster_statistics_ok:
  assumes "distinct (map fst known)"
  shows "let st = cluster_statistics kinds known; ns = concat (map snd kinds) in
    ProbeFailureHosts st = card (fst ` set ns - dom (map_of known)) \<and>
    Versions st = sort (remdups (map (snd \<circ> snd) ns)) \<and>
    partial_ok (map_of known) ns (dom (map_of known)) (TotalStats st) \<and>
    map fst (StatsByInstanceKind st) = map fst kinds \<and>
    list_all2 (\<lambda>(ik, ns) (ik', p). ik' = ik \<and> partial_ok (map_of known) ns (fst ` set ns \<inter> dom (map_of known)) p)
      kinds (StatsByInstanceKind st)"
proof -
  have fail: "length (fold (\<lambda>(ik, ns) failures. snd (kind_hosts known ns ([], failures))) kinds []) =
      card (fst ` set (concat (map snd kinds)) - dom (map_of known))"
    using failures_fold [of "[]" known kinds] by (metis Un_empty_left distinct.simps(1) distinct_card list.set(1))
  have all: "\<forall>(h, v)\<in>set known. map_of known h = Some v" using assms by (auto intro: map_of_is_SomeI)
  have kind: "partial_ok (map_of known) ns (fst ` set ns \<inter> dom (map_of known))
      (ToResult \<lparr>ik_instances = node_instances ns, ik_hosts = fst (kind_hosts known ns ([], []))\<rparr>)" for ns
  proof -
    obtain hs fs where k: "kind_hosts known ns ([], []) = (hs, fs)" by fastforce
    then have "distinct (map fst hs)" "\<forall>(h, v)\<in>set hs. map_of known h = Some v" "fst ` set hs = fst ` set ns \<inter> dom (map_of known)"
      using kind_hosts_fold [of "[]" known "[]" ns] by simp_all
    from ToResult_ok [OF this(1,2), of ns] this(3) k show ?thesis by simp
  qed
  show ?thesis
    using fail ToResult_ok [OF assms all, of "concat (map snd kinds)"] kind
    by (simp add: cluster_statistics_def Let_def dom_map_of_conv_image_fst list_all2_map2 case_prod_beta' list.rel_refl comp_def)
qed

section \<open>The statistics of the cluster\<close>

text \<open>The order in which the hosts are visited does not matter.\<close>

lemma map_of_perm:
  assumes "mset xs = mset ys" and "distinct (map fst xs)"
  shows "distinct (map fst ys)" and "map_of ys = map_of xs"
proof -
  have "mset (map fst xs) = mset (map fst ys)" using assms(1) by simp
  then show d: "distinct (map fst ys)" using assms(2) by (metis mset_eq_imp_distinct_iff)
  have "set xs = set ys" using assms(1) by (metis set_mset_mset)
  then show "map_of ys = map_of xs" using map_of_inject_set [OF assms(2) d] by simp
qed

definition topology_nodes ::
  "PDInfo list \<Rightarrow> StoreInfo list \<Rightarrow> StoreInfo list \<Rightarrow> TiDBInfo list \<Rightarrow> (string \<times> node list) list" where
  "topology_nodes pdInfo tikvInfo tiFlashInfo tidbInfo =
     [(''pd'', pd_nodes pdInfo), (''tikv'', store_nodes tikvInfo), (''tiflash'', store_nodes tiFlashInfo), (''tidb'', tidb_nodes tidbInfo)]"

text \<open>The hosts that the tables report, and the capacity of one.\<close>

definition reported_hosts :: "clusterTableModel list \<Rightarrow> clusterTableModel list \<Rightarrow> string set" where
  "reported_hosts L H = {host. reported L host \<or> reported H host}"

definition table_capacity ::
  "'f host_json \<Rightarrow> clusterTableModel list \<Rightarrow> clusterTableModel list \<Rightarrow> string \<Rightarrow> host_capacity option option" where
  "table_capacity J L H host = capacity (memory_of J L host) (cpu_of J H host)"

definition known_capacity ::
  "'f host_json \<Rightarrow> clusterTableModel list \<Rightarrow> clusterTableModel list \<Rightarrow> string \<Rightarrow> host_capacity option" where
  "known_capacity J L H host =
     (if host \<in> reported_hosts L H then (case table_capacity J L H host of Some c \<Rightarrow> c | None \<Rightarrow> None) else None)"

lemma calculateStatistics_cases:
  assumes "orders_ok os" and "\<forall>m. mset (host_order m) = mset m"
    and "fetch_topologies T = Some (Inr (pdInfo, tikvInfo, tiFlashInfo, tidbInfo))" and "ht_load D = Inr L" and "ht_hardware D = Inr H"
  shows "if \<exists>host\<in>reported_hosts L H. table_capacity J L H host = None then calculateStatistics os host_order J T D = None
    else \<exists>known. distinct (map fst known) \<and> map_of known = known_capacity J L H \<and>
      calculateStatistics os host_order J T D =
        Some (Inr (Some (cluster_statistics (topology_nodes pdInfo tikvInfo tiFlashInfo tidbInfo) known)))"
proof -
  obtain m where m: "FillFromClusterHardwareTable (mo_disks os) J H (FillFromClusterLoadTable J L []) = Some m" "distinct (map fst m)"
    "\<And>host. map_of m host \<noteq> None \<longleftrightarrow> host \<in> reported_hosts L H"
    "\<And>host h. map_of m host = Some h \<Longrightarrow> hi_MemoryUsage h = memory_of J L host \<and> hi_CPUInfo h = cpu_of J H host"
    using both_tables [OF assms(1), of J H L] by (auto simp: reported_hosts_def)
  let ?m = "host_order m"
  have perm: "distinct (map fst ?m)" "map_of ?m = map_of m" using map_of_perm [of m ?m] assms(2) m(2) by simp_all
  have cap: "host_capacity_of h = table_capacity J L H host" if "map_of m host = Some h" for host h
    using m(4) [OF that] by (simp add: host_capacity_of_eq table_capacity_def)
  have mem: "(host, h) \<in> set ?m \<longleftrightarrow> map_of m host = Some h" for host h
    using perm by (metis map_of_eq_Some_iff)
  have none: "known_hosts ?m [] = None \<longleftrightarrow> (\<exists>host\<in>reported_hosts L H. table_capacity J L H host = None)"
  proof
    assume "known_hosts ?m [] = None"
    then obtain host h where "(host, h) \<in> set ?m" "host_capacity_of h = None" unfolding known_hosts_None by auto
    then show "\<exists>host\<in>reported_hosts L H. table_capacity J L H host = None" using mem cap m(3) by (metis option.distinct(1))
  next
    assume "\<exists>host\<in>reported_hosts L H. table_capacity J L H host = None"
    then obtain host h where "map_of m host = Some h" "table_capacity J L H host = None" using m(3) by blast
    then have "(host, h) \<in> set ?m" "host_capacity_of h = None" using mem cap by simp_all
    then show "known_hosts ?m [] = None" unfolding known_hosts_None by blast
  qed
  have calc: "calculateStatistics os host_order J T D = (case known_hosts ?m [] of None \<Rightarrow> None
      | Some known \<Rightarrow> Some (Inr (Some (cluster_statistics (topology_nodes pdInfo tikvInfo tiFlashInfo tidbInfo) known))))"
    using assms(3-5) m(1) by (simp add: calculateStatistics_def topology_nodes_def split: option.split)
  show ?thesis
  proof (cases "known_hosts ?m []")
    case None
    then show ?thesis using none calc by simp
  next
    case (Some known)
    have k: "distinct (map fst known)"
      "map_of known host = Some v \<longleftrightarrow> (\<exists>h. map_of m host = Some h \<and> host_capacity_of h = Some (Some v))" for host v
      using known_hosts_Some [OF Some perm(1)] by (simp_all add: perm(2))
    have "map_of known host = known_capacity J L H host" for host
    proof (cases "map_of m host")
      case None
      then have "host \<notin> reported_hosts L H" using m(3) by blast
      moreover have "map_of known host = None" using k(2) [of host] None by (metis not_None_eq option.distinct(1))
      ultimately show ?thesis by (simp add: known_capacity_def)
    next
      case h: (Some h)
      then have "host \<in> reported_hosts L H" using m(3) by blast
      then have "known_capacity J L H host = (case host_capacity_of h of Some c \<Rightarrow> c | None \<Rightarrow> None)"
        using cap [OF h] by (simp add: known_capacity_def)
      moreover have "map_of known host = (case host_capacity_of h of Some c \<Rightarrow> c | None \<Rightarrow> None)"
      proof -
        have r: "(case host_capacity_of h of Some c \<Rightarrow> c | None \<Rightarrow> None) = Some v \<longleftrightarrow> host_capacity_of h = Some (Some v)" for v
          by (simp split: option.split)
        have k': "map_of known host = Some v \<longleftrightarrow> host_capacity_of h = Some (Some v)" for v using k(2) h by simp
        show ?thesis by (metis r k' not_None_eq)
      qed
      ultimately show ?thesis by simp
    qed
    then have "map_of known = known_capacity J L H" by blast
    moreover have "calculateStatistics os host_order J T D =
        Some (Inr (Some (cluster_statistics (topology_nodes pdInfo tikvInfo tiFlashInfo tidbInfo) known)))"
      using calc Some by simp
    moreover have no: "\<not> (\<exists>host\<in>reported_hosts L H. table_capacity J L H host = None)" using none Some by simp
    ultimately show ?thesis unfolding if_not_P [OF no] using k(1) by blast
  qed
qed

text \<open>
  C28: the statistics of the cluster end in a panic exactly if some host that one of the two tables
  reports has no memory that can be read, or has memory and no CPU that can be read: the code reads
  through missing pointers. Otherwise they count what the topology and the tables say: each kind
  has the instances of its topology and the capacity of the hosts it runs on, each host once; the
  hosts of the topology whose capacity is not known are counted as failures; the totals count every
  host of known capacity that the tables report, whether the topology has it or not.
\<close>

theorem statistics_count_hosts:
  assumes "orders_ok os" and "\<forall>m. mset (host_order m) = mset m"
    and "fetch_topologies T = Some (Inr (pdInfo, tikvInfo, tiFlashInfo, tidbInfo))" and "ht_load D = Inr L" and "ht_hardware D = Inr H"
  shows "case calculateStatistics os host_order J T D of
      None \<Rightarrow> \<exists>host\<in>reported_hosts L H. table_capacity J L H host = None
    | Some r \<Rightarrow> (\<forall>host\<in>reported_hosts L H. table_capacity J L H host \<noteq> None) \<and>
        (\<exists>st. r = Inr (Some st) \<and>
          (let kinds = topology_nodes pdInfo tikvInfo tiFlashInfo tidbInfo; ns = concat (map snd kinds);
               cap = known_capacity J L H
           in ProbeFailureHosts st = card (fst ` set ns - dom cap) \<and> Versions st = sort (remdups (map (snd \<circ> snd) ns)) \<and>
             partial_ok cap ns (dom cap) (TotalStats st) \<and>
             list_all2 (\<lambda>(ik, ns) (ik', p). ik' = ik \<and> partial_ok cap ns (fst ` set ns \<inter> dom cap) p) kinds (StatsByInstanceKind st)))"
proof (cases "\<exists>host\<in>reported_hosts L H. table_capacity J L H host = None")
  case True
  then show ?thesis using calculateStatistics_cases [OF assms, of J] by simp
next
  case False
  then obtain known where known: "distinct (map fst known)" "map_of known = known_capacity J L H"
    "calculateStatistics os host_order J T D =
       Some (Inr (Some (cluster_statistics (topology_nodes pdInfo tikvInfo tiFlashInfo tidbInfo) known)))"
    using calculateStatistics_cases [OF assms, of J] unfolding if_not_P [OF False] by blast
  show ?thesis
    using False cluster_statistics_ok [OF known(1), of "topology_nodes pdInfo tikvInfo tiFlashInfo tidbInfo"]
    unfolding known(2) known(3) by (simp add: Let_def)
qed

text \<open>A table that cannot be read is not an error of the statistics: they are missing without one.\<close>

lemma statistics_error_lost:
  assumes "fetch_topologies T = Some (Inr ns)" and "ht_load D = Inl err"
  shows "calculateStatistics os host_order J T D = Some (Inr None)"
  using assms by (cases ns) (simp add: calculateStatistics_def)

definition demo_orders :: map_orders where
  "demo_orders = \<lparr>mo_disks = rev, mo_partitions = rev\<rparr>"

definition demo_host_json :: "unit host_json" where
  "demo_host_json =
     \<lparr>hj_memory = \<lambda>s. Some \<lparr>mu_Used = 1, mu_Total = 8\<rparr>, hj_usage = \<lambda>s. None,
      hj_cpu = \<lambda>s. Some \<lparr>ci_Arch = ''amd64'', ci_LogicalCores = 4, ci_PhysicalCores = 2\<rparr>, hj_disk = \<lambda>s. None, hj_lower = to_lower\<rparr>"

definition demo_topologies :: topologies where
  "demo_topologies =
     \<lparr>tp_pd = Some (Inr [\<lparr>pi_GitHash = [], pi_Version = ''v5'', pi_IP = ''h'', pi_Port = 1, pi_DeployPath = [],
        pi_Status = ComponentStatusUp, pi_StartTimestamp = 0\<rparr>]), tp_stores = Inr ([], []), tp_tidb = Inr []\<rparr>"

definition demo_memory_row :: clusterTableModel where
  "demo_memory_row = \<lparr>ct_Type = ''pd'', ct_Instance = ''h:1'', ct_DeviceType = ''memory'', ct_DeviceName = ''virtual'', ct_JSONValue = ''{}''\<rparr>"

definition demo_cpu_row :: clusterTableModel where
  "demo_cpu_row = \<lparr>ct_Type = ''pd'', ct_Instance = ''h:1'', ct_DeviceType = ''cpu'', ct_DeviceName = ''cpu'', ct_JSONValue = ''{}''\<rparr>"

definition demo_tables :: "clusterTableModel list \<Rightarrow> clusterTableModel list \<Rightarrow> host_tables" where
  "demo_tables L H = \<lparr>ht_load = Inr L, ht_hardware = Inr H, ht_config = Inr []\<rparr>"

lemma demo_orders_ok: "orders_ok demo_orders"
  by (simp add: orders_ok_def demo_orders_def)

lemma demo_row_host: "row_host ''h:1'' = Some ''h''"
proof -
  have "SplitHostPort ''h:1'' = Some (''h'', ''1'')" by code_simp
  moreover have "ParseInt ''1'' = Some 1" by (simp add: ParseInt_def Let_def digit_value_def byte_of_def)
  ultimately show ?thesis by (simp add: row_host_def ParseHostAndPortFromAddress_def)
qed

text \<open>A host with memory and CPU is counted; one with a CPU only ends the request.\<close>

theorem statistics_count_hosts_witness:
  "(\<exists>st. calculateStatistics demo_orders rev demo_host_json demo_topologies (demo_tables [demo_memory_row] [demo_cpu_row]) = Some (Inr (Some st)) \<and>
      ProbeFailureHosts st = 0 \<and> NumberOfHosts (TotalStats st) = 1) \<and>
   calculateStatistics demo_orders rev demo_host_json demo_topologies (demo_tables [] [demo_cpu_row]) = None"
proof -
  note stats = statistics_count_hosts [OF demo_orders_ok, of rev demo_topologies "[\<lparr>pi_GitHash = [], pi_Version = ''v5'', pi_IP = ''h'', pi_Port = 1,
      pi_DeployPath = [], pi_Status = ComponentStatusUp, pi_StartTimestamp = 0\<rparr>]" "[]" "[]" "[]" _ _ _ demo_host_json]
  have T: "fetch_topologies demo_topologies = Some (Inr ([\<lparr>pi_GitHash = [], pi_Version = ''v5'', pi_IP = ''h'', pi_Port = 1,
      pi_DeployPath = [], pi_Status = ComponentStatusUp, pi_StartTimestamp = 0\<rparr>], [], [], []))"
    by (simp add: fetch_topologies_def demo_topologies_def)
  have tables: "ht_load (demo_tables L H) = Inr L" "ht_hardware (demo_tables L H) = Inr H" for L H
    by (simp_all add: demo_tables_def)
  have rows: "rows_of host [demo_memory_row] = (if host = ''h'' then [demo_memory_row] else [])"
    "rows_of host [demo_cpu_row] = (if host = ''h'' then [demo_cpu_row] else [])" "rows_of host [] = []" for host
    by (simp_all add: rows_of_def demo_memory_row_def demo_cpu_row_def demo_row_host)
  have reported: "reported_hosts [demo_memory_row] [demo_cpu_row] = {''h''}" "reported_hosts [] [demo_cpu_row] = {''h''}"
    by (simp_all add: reported_hosts_def reported_def rows)
  have kinds: "is_memory demo_memory_row" "is_cpu demo_cpu_row"
    by (simp_all add: is_memory_def is_cpu_def demo_memory_row_def demo_cpu_row_def)
  have cap: "table_capacity demo_host_json [demo_memory_row] [demo_cpu_row] ''h'' =
      Some (Some \<lparr>memoryCapacity = 8, physicalCores = 2, logicalCores = 4\<rparr>)" "table_capacity demo_host_json [] [demo_cpu_row] ''h'' = None"
    by (simp_all add: table_capacity_def memory_of_def cpu_of_def rows kinds capacity_def demo_host_json_def)
  have dom: "dom (known_capacity demo_host_json [demo_memory_row] [demo_cpu_row]) = {''h''}"
    by (auto simp: known_capacity_def reported cap split: if_splits)
  have good: "\<exists>st. calculateStatistics demo_orders rev demo_host_json demo_topologies (demo_tables [demo_memory_row] [demo_cpu_row]) = Some (Inr (Some st)) \<and>
      ProbeFailureHosts st = 0 \<and> NumberOfHosts (TotalStats st) = 1"
    using stats [OF _ T tables, of "[demo_memory_row]" "[demo_cpu_row]"]
    by (auto simp: reported cap dom topology_nodes_def pd_nodes_def store_nodes_def tidb_nodes_def partial_ok_def Let_def
        split: option.splits)
  have bad: "calculateStatistics demo_orders rev demo_host_json demo_topologies (demo_tables [] [demo_cpu_row]) = None"
    using stats [OF _ T tables, of "[]" "[demo_cpu_row]"] by (auto simp: reported cap split: option.splits)
  show ?thesis using good bad by blast
qed

end
