(* ===== verification/HostInstances.thy ===== *)
theory HostInstances
  imports ClusterProps
begin

text \<open>
  The list of hosts: it is that of the topology, the disks of a host are those that its one provider
  reports, and each instance is shown on the longest disk that holds its directory, an instance of
  TiFlash on the longest disk that it reports itself.
\<close>

section \<open>The disks of a host\<close>

text \<open>The disks that the table of the hardware has for a host: the type of the row and what it decodes to.\<close>

definition disk_of_row :: "'f host_json \<Rightarrow> clusterTableModel \<Rightarrow> (string \<times> PartitionInfo) list" where
  "disk_of_row J row = (if ct_DeviceType row = ''disk'' then
     (case hj_disk J (ct_JSONValue row) of None \<Rightarrow> [] | Some v \<Rightarrow> [(ct_Type row, v)]) else [])"

definition hardware_rows :: "host_tables \<Rightarrow> clusterTableModel list" where
  "hardware_rows D = (case ht_hardware D of Inl _ \<Rightarrow> [] | Inr rows \<Rightarrow> rows)"

definition reported_disks :: "'f host_json \<Rightarrow> host_tables \<Rightarrow> string \<Rightarrow> (string \<times> PartitionInfo) list" where
  "reported_disks J D host = concat (map (disk_of_row J) (rows_of host (hardware_rows D)))"

text \<open>
  The provider is the first type of an instance that reports a disk (a row without a type does not
  become one); only its disks count, with those that were reported before it.
\<close>

definition provider :: "(string \<times> PartitionInfo) list \<Rightarrow> string" where
  "provider ds = (case find (\<lambda>(tp, v). tp \<noteq> '''') ds of None \<Rightarrow> '''' | Some (tp, v) \<Rightarrow> tp)"

definition provided :: "(string \<times> PartitionInfo) list \<Rightarrow> PartitionInfo list" where
  "provided ds = map snd (takeWhile (\<lambda>(tp, v). tp = '''') ds @
     filter (\<lambda>(tp, v). tp = provider ds) (dropWhile (\<lambda>(tp, v). tp = '''') ds))"

text \<open>Disks are kept by their path in lower case, the last report of a path counts.\<close>

definition keyed :: "(string \<Rightarrow> string) \<Rightarrow> PartitionInfo list \<Rightarrow> string \<rightharpoonup> PartitionInfo" where
  "keyed lower vs = map_of (rev (map (\<lambda>v. (lower (pt_Path v), v)) vs))"

definition partitions_ok :: "(string \<Rightarrow> string) \<Rightarrow> (string \<times> PartitionInfo) list \<Rightarrow> bool" where
  "partitions_ok lower ps \<longleftrightarrow> distinct (map fst ps) \<and> (\<forall>(key, p)\<in>set ps. key = lower (pt_Path p))"

lemma partitions_ok_update: "partitions_ok lower ps \<Longrightarrow> partitions_ok lower (AList.update (lower (pt_Path v)) v ps)"
  by (auto simp: partitions_ok_def distinct_update dest: update_member)

definition put_disks :: "(string \<Rightarrow> string) \<Rightarrow> PartitionInfo list \<Rightarrow> (string \<times> PartitionInfo) list \<Rightarrow> (string \<times> PartitionInfo) list" where
  "put_disks lower vs ps = fold (\<lambda>v. AList.update (lower (pt_Path v)) v) vs ps"

lemma put_disks_ok: "partitions_ok lower ps \<Longrightarrow> partitions_ok lower (put_disks lower vs ps)"
  unfolding put_disks_def by (induction vs arbitrary: ps) (simp_all add: partitions_ok_update)

lemma map_of_put_disks: "map_of (put_disks lower vs ps) = map_of ps ++ keyed lower vs"
  unfolding put_disks_def keyed_def
  by (induction vs arbitrary: ps) (simp_all add: update_conv' map_add_upds fun_eq_iff map_add_def split: option.splits)

lemma provided_Cons:
  "provided ((tp, v) # ds) = v # (if tp = '''' then provided ds else map snd (filter (\<lambda>(t, v). t = tp) ds))"
  by (cases "tp = ''''") (auto simp: provided_def provider_def)

lemma hardware_disks:
  "hi_Partitions (fold (hardware_device J) rs h) =
     put_disks (hj_lower J)
       (let ds = concat (map (disk_of_row J) rs) in
        if hi_PartitionProviderType h = '''' then provided ds
        else map snd (filter (\<lambda>(t, v). t = hi_PartitionProviderType h) ds)) (hi_Partitions h)"
proof (induction rs arbitrary: h)
  case Nil
  then show ?case by (simp add: put_disks_def provided_def)
next
  case (Cons r rs)
  let ?h = "hardware_device J r h"
  have IH: "hi_Partitions (fold (hardware_device J) (r # rs) h) =
     put_disks (hj_lower J)
       (let ds = concat (map (disk_of_row J) rs) in
        if hi_PartitionProviderType ?h = '''' then provided ds
        else map snd (filter (\<lambda>(t, v). t = hi_PartitionProviderType ?h) ds)) (hi_Partitions ?h)"
    using Cons.IH [of ?h] by simp
  show ?case
  proof (cases "disk_of_row J r")
    case Nil
    then have same: "hi_Partitions ?h = hi_Partitions h" "hi_PartitionProviderType ?h = hi_PartitionProviderType h"
      by (auto simp: hardware_device_def disk_of_row_def split: option.splits if_splits)
    show ?thesis unfolding IH same using Nil by simp
  next
    case (Cons d ds)
    then obtain v where v: "ct_DeviceType r = ''disk''" "hj_disk J (ct_JSONValue r) = Some v" "disk_of_row J r = [(ct_Type r, v)]"
      by (auto simp: disk_of_row_def split: option.splits if_splits)
    have h: "?h = (if hi_PartitionProviderType h \<noteq> '''' \<and> hi_PartitionProviderType h \<noteq> ct_Type r then h else
        h\<lparr>hi_PartitionProviderType := ct_Type r,
          hi_Partitions := AList.update (hj_lower J (pt_Path v)) v (hi_Partitions h)\<rparr>)"
      by (auto simp: hardware_device_def v Let_def)
    show ?thesis
      unfolding IH by (auto simp: h v(3) provided_Cons Let_def put_disks_def)
  qed
qed

text \<open>What holds of each host before the instances of the configuration are filled in.\<close>

definition host_ok :: "'f host_json \<Rightarrow> host_tables \<Rightarrow> string \<Rightarrow> 'f HostInfo \<Rightarrow> bool" where
  "host_ok J D host h \<longleftrightarrow> hi_Host h = host \<and> partitions_ok (hj_lower J) (hi_Partitions h) \<and>
     map_of (hi_Partitions h) = keyed (hj_lower J) (provided (reported_disks J D host))"

lemma load_fold: "hi_Host (fold (load_device J) rs h) = hi_Host h" "hi_Partitions (fold (load_device J) rs h) = hi_Partitions h"
  "hi_PartitionProviderType (fold (load_device J) rs h) = hi_PartitionProviderType h"
  "hi_Instances (fold (load_device J) rs h) = hi_Instances h"
  by (induction rs arbitrary: h) (simp_all add: load_device_def split: option.split)

lemma hardware_fold: "hi_Host (fold (hardware_device J) rs h) = hi_Host h"
  "hi_Instances (fold (hardware_device J) rs h) = hi_Instances h"
  by (induction rs arbitrary: h) (simp_all add: hardware_device_def Let_def split: option.split)

definition new_fields :: "string \<Rightarrow> 'f HostInfo \<Rightarrow> bool" where
  "new_fields host h \<longleftrightarrow> hi_Host h = host \<and> hi_Partitions h = [] \<and> hi_PartitionProviderType h = '''' \<and> hi_Instances h = []"

lemma load_new: "new_fields host (host_or_new (fill_rows (load_device J) rows []) host)"
  by (simp add: host_or_new_def map_of_fill_rows new_fields_def load_fold NewHostInfo_def)

lemma hardware_new:
  assumes "\<And>host. new_fields host (host_or_new l host)"
  shows "hi_Host (host_or_new (fill_rows (hardware_device J) H l) host) = host"
    and "hi_Instances (host_or_new (fill_rows (hardware_device J) H l) host) = []"
    and "hi_Partitions (host_or_new (fill_rows (hardware_device J) H l) host) =
      put_disks (hj_lower J) (provided (concat (map (disk_of_row J) (rows_of host H)))) []"
proof -
  have "host_or_new (fill_rows (hardware_device J) H l) host = fold (hardware_device J) (rows_of host H) (host_or_new l host)"
    by (simp add: host_or_new_def map_of_fill_rows split: option.split)
  then show "hi_Host (host_or_new (fill_rows (hardware_device J) H l) host) = host"
    "hi_Instances (host_or_new (fill_rows (hardware_device J) H l) host) = []"
    "hi_Partitions (host_or_new (fill_rows (hardware_device J) H l) host) =
      put_disks (hj_lower J) (provided (concat (map (disk_of_row J) (rows_of host H)))) []"
    using assms [of host] by (simp_all add: new_fields_def hardware_fold hardware_disks Let_def)
qed

section \<open>The instances of TiFlash\<close>

text \<open>The paths of the disks that an instance of TiFlash reports, and a longest one.\<close>

definition tiflash_paths :: "'f host_json \<Rightarrow> clusterTableModel list \<Rightarrow> string \<Rightarrow> string list" where
  "tiflash_paths J rows inst = concat (map (\<lambda>row. if ct_Instance row = inst \<and> ct_Type row = ''tiflash''
     then map (pt_Path \<circ> snd) (disk_of_row J row) else []) rows)"

definition longest_of :: "string list \<Rightarrow> string \<Rightarrow> bool" where
  "longest_of paths p \<longleftrightarrow> p \<in> set paths \<and> (\<forall>q\<in>set paths. length q \<le> length p)"

definition entry_ok :: "string list \<Rightarrow> (nat \<times> string) option \<Rightarrow> bool" where
  "entry_ok paths e \<longleftrightarrow> (case e of None \<Rightarrow> paths = [] | Some (n, p) \<Rightarrow> n = length p \<and> longest_of paths p)"

lemma tiflash_disk_entry:
  assumes "\<And>inst. entry_ok (paths inst) (map_of m inst)"
  shows "entry_ok (paths inst @ (if ct_Instance d = inst then
      (case hj_disk J (ct_JSONValue d) of None \<Rightarrow> [] | Some v \<Rightarrow> [pt_Path v]) else [])) (map_of (tiflash_disk J d m) inst)"
proof (cases "hj_disk J (ct_JSONValue d) = None \<or> ct_Instance d \<noteq> inst")
  case True
  then show ?thesis using assms [of inst] by (auto simp: tiflash_disk_def Let_def update_conv' split: option.splits)
next
  case False
  then obtain v where v: "hj_disk J (ct_JSONValue d) = Some v" "ct_Instance d = inst" by auto
  show ?thesis
  proof (cases "map_of m inst")
    case None
    then show ?thesis using assms [of inst] v by (auto simp: tiflash_disk_def Let_def update_conv' entry_ok_def longest_of_def)
  next
    case (Some e)
    then obtain p where p: "e = (length p, p)" "longest_of (paths inst) p" using assms [of inst] by (cases e) (auto simp: entry_ok_def)
    show ?thesis
    proof (cases "length p < length (pt_Path v)")
      case True
      then have "\<forall>q\<in>set (paths inst). length q \<le> length (pt_Path v)" using p(2) unfolding longest_of_def by (meson le_less_trans less_imp_le)
      then show ?thesis using True Some p(1) v by (simp add: tiflash_disk_def Let_def update_conv' entry_ok_def longest_of_def)
    next
      case False
      then show ?thesis using Some p v by (simp add: tiflash_disk_def Let_def update_conv' entry_ok_def longest_of_def)
    qed
  qed
qed

lemma tiFlashDiskInfo_entry:
  assumes "row_host inst \<noteq> None"
  shows "entry_ok (tiflash_paths J rows inst) (map_of (tiFlashDiskInfo J (tiFlashDisks rows)) inst)"
proof -
  let ?new = "\<lambda>inst d. if ct_Instance d = inst then
      (case hj_disk J (ct_JSONValue d) of None \<Rightarrow> [] | Some v \<Rightarrow> [pt_Path v]) else []"
  have "entry_ok (paths inst @ concat (map (?new inst) ds)) (map_of (fold (tiflash_disk J) ds m) inst)"
    if "\<And>inst. entry_ok (paths inst) (map_of m inst)" for ds m paths inst
    using that
  proof (induction ds arbitrary: m paths)
    case (Cons d ds)
    have "\<And>i. entry_ok (paths i @ ?new i d) (map_of (tiflash_disk J d m) i)"
      using tiflash_disk_entry [OF Cons.prems] by blast
    from Cons.IH [OF this] show ?case by simp
  qed simp
  from this [of "\<lambda>_. []" "[]" inst "tiFlashDisks rows"]
  have "entry_ok (concat (map (?new inst) (tiFlashDisks rows))) (map_of (tiFlashDiskInfo J (tiFlashDisks rows)) inst)"
    by (simp add: tiFlashDiskInfo_def entry_ok_def)
  moreover have "concat (map (?new inst) (tiFlashDisks rows)) = tiflash_paths J rows inst"
    using assms by (induction rows) (auto simp: tiFlashDisks_def tiflash_paths_def disk_of_row_def split: option.splits)
  ultimately show ?thesis by simp
qed

lemma distinct_tiFlashDiskInfo: "distinct (map fst (tiFlashDiskInfo J ds))"
proof -
  have "distinct (map fst (tiflash_disk J d m))" if "distinct (map fst m)" for d m
    using that by (auto simp: tiflash_disk_def Let_def distinct_update split: option.split)
  then have "distinct (map fst (fold (tiflash_disk J) ds m))" if "distinct (map fst m)" for m
    using that by (induction ds arbitrary: m) simp_all
  then show ?thesis by (simp add: tiFlashDiskInfo_def)
qed

lemma back_fill_instances:
  assumes "back_fill lower ds m = Some m'" and "distinct (map fst ds)"
  shows "map_of (hi_Instances (host_or_new m' host)) inst =
    (case (if row_host inst = Some host then map_of ds inst else None) of
       None \<Rightarrow> map_of (hi_Instances (host_or_new m host)) inst
     | Some (n, p) \<Rightarrow> Some \<lparr>in_Type = ''tiflash'', in_PartitionPathL = lower p\<rparr>)"
  using assms
proof (induction lower ds m rule: back_fill.induct)
  case (2 lower i len path ds m)
  obtain hn h where h: "row_host i = Some hn" "map_of m hn = Some h" using "2.prems"(1) by (auto split: option.splits)
  let ?h = "h\<lparr>hi_Instances := AList.update i \<lparr>in_Type = ''tiflash'', in_PartitionPathL = lower path\<rparr> (hi_Instances h)\<rparr>"
  let ?m = "AList.update hn ?h m"
  have new: "host_or_new ?m x = (if x = hn then ?h else host_or_new m x)" for x
    by (simp add: host_or_new_def update_conv')
  have IH: "map_of (hi_Instances (host_or_new m' host)) inst =
    (case (if row_host inst = Some host then map_of ds inst else None) of
       None \<Rightarrow> map_of (hi_Instances (host_or_new ?m host)) inst
     | Some (n, p) \<Rightarrow> Some \<lparr>in_Type = ''tiflash'', in_PartitionPathL = lower p\<rparr>)"
    using "2.IH" [OF h] "2.prems" h by simp
  have hm: "host_or_new m hn = h" using h(2) by (simp add: host_or_new_def)
  show ?case
  proof (cases "inst = i")
    case True
    then have "map_of ds inst = None" using "2.prems"(2) by (auto simp: map_of_eq_None_iff)
    then show ?thesis unfolding IH new using True h(1) hm by (auto simp: update_conv')
  next
    case False
    then have same: "map_of (hi_Instances (host_or_new ?m host)) inst = map_of (hi_Instances (host_or_new m host)) inst"
      unfolding new using hm by (auto simp: update_conv')
    show ?thesis unfolding IH same using False by simp
  qed
qed simp

section \<open>Locating an instance\<close>

text \<open>The longest disk whose path is a prefix.\<close>

definition located :: "(string \<Rightarrow> string) \<Rightarrow> (string \<times> PartitionInfo) list \<Rightarrow> string \<Rightarrow> string \<Rightarrow> bool" where
  "located lower ps path r \<longleftrightarrow>
     (\<forall>(key, p)\<in>set ps. prefix_at (lower (pt_Path p)) (lower path) \<longrightarrow> length (pt_Path p) \<le> length r) \<and>
     (r = '''' \<or> (\<exists>(key, p)\<in>set ps. pt_Path p = r \<and> prefix_at (lower r) (lower path)))"

lemma match_fold:
  "case fold (match_partition lower L) ps (n, r) of (n', r') \<Rightarrow>
     n \<le> n' \<and> (n = length r \<longrightarrow> n' = length r') \<and>
     (\<forall>(key, p)\<in>set ps. prefix_at (lower (pt_Path p)) L \<longrightarrow> length (pt_Path p) \<le> n') \<and>
     (r' = r \<or> (\<exists>(key, p)\<in>set ps. pt_Path p = r' \<and> prefix_at (lower r') L))"
proof (induction ps arbitrary: n r)
  case (Cons p ps)
  obtain key i where p: "p = (key, i)" by (cases p)
  obtain n1 r1 where m: "match_partition lower L p (n, r) = (n1, r1)" by fastforce
  have "n \<le> n1" "n = length r \<longrightarrow> n1 = length r1" "prefix_at (lower (pt_Path i)) L \<longrightarrow> length (pt_Path i) \<le> n1"
    "r1 = r \<or> pt_Path i = r1 \<and> prefix_at (lower r1) L"
    using m by (auto simp: match_partition_def p split: if_splits)
  then show ?case using Cons.IH [of n1 r1] m by (auto simp: p split: prod.splits)
qed simp

lemma locate_located:
  assumes "set ps' = set ps" and "path \<noteq> ''''"
  shows "located lower ps path (locateInstanceMountPartition lower path ps')"
  using match_fold [where L = "lower path" and ps = ps' and n = 0 and r = "''''" and lower = lower] assms
  by (auto simp: located_def locateInstanceMountPartition_def split: prod.splits)

text \<open>There is only one, if lower case does not change the length of a text.\<close>

lemma prefix_at_eq:
  assumes "prefix_at a s" and "prefix_at b s" and "length a = length b"
  shows "a = b"
  using assms by (simp add: prefix_at_def)

lemma located_unique:
  assumes "partitions_ok lower ps" and "located lower ps path r" and "located lower ps path r'"
    and "\<And>s. length (lower s) = length s"
  shows "r = r'"
proof -
  have le: "length a \<le> length b" if "located lower ps path a" "located lower ps path b" for a b
    using that by (auto simp: located_def)
  then have len: "length r = length r'" using assms by (metis le_antisym)
  show ?thesis
  proof (cases "r = ''''")
    case False
    then have "r' \<noteq> ''''" using len by auto
    then obtain k p k' p' where p: "(k, p) \<in> set ps" "pt_Path p = r" "prefix_at (lower r) (lower path)"
      "(k', p') \<in> set ps" "pt_Path p' = r'" "prefix_at (lower r') (lower path)"
      using assms(2,3) False unfolding located_def by fast
    then have "lower r = lower r'" using len assms(4) by (intro prefix_at_eq) simp_all
    moreover have "k = lower (pt_Path p)" "k' = lower (pt_Path p')" using p(1,4) assms(1) by (auto simp: partitions_ok_def)
    ultimately have "k = k'" using p(2,5) by simp
    then show ?thesis using p assms(1) by (metis eq_key_imp_eq_value partitions_ok_def)
  qed (use len in auto)
qed

section \<open>Filling in the instances\<close>

text \<open>The last row of the configuration that names an instance.\<close>

definition last_row :: "clusterConfigModel list \<Rightarrow> string \<Rightarrow> clusterConfigModel option" where
  "last_row rows inst = find (\<lambda>row. cc_Instance row = inst) (rev rows)"

lemma find_append: "find P (xs @ ys) = (case find P xs of None \<Rightarrow> find P ys | Some x \<Rightarrow> Some x)"
  by (induction xs) simp_all

lemma last_row_Cons:
  "last_row (row # rows) inst = (case last_row rows inst of None \<Rightarrow> if cc_Instance row = inst then Some row else None | Some r \<Rightarrow> Some r)"
  by (simp add: last_row_def find_append split: option.split)

lemma FillInstances_spec:
  fixes lower :: "string \<Rightarrow> string" and order :: "(string \<times> PartitionInfo) list \<Rightarrow> (string \<times> PartitionInfo) list"
  defines "I \<equiv> \<lambda>ps row. \<lparr>in_Type = cc_Type row, in_PartitionPathL = lower (locateInstanceMountPartition lower (cc_Value row) (order ps))\<rparr>"
  shows "hi_Partitions (host_or_new (FillInstances lower order rows m) host) = hi_Partitions (host_or_new m host) \<and>
    hi_Host (host_or_new (FillInstances lower order rows m) host) = hi_Host (host_or_new m host) \<and>
    map_of (hi_Instances (host_or_new (FillInstances lower order rows m) host)) inst =
      (case (if row_host inst = Some host then last_row rows inst else None) of
         None \<Rightarrow> map_of (hi_Instances (host_or_new m host)) inst
       | Some row \<Rightarrow> Some (I (hi_Partitions (host_or_new m host)) row))"
proof (induction rows arbitrary: m)
  case Nil
  show ?case by (simp add: FillInstances_def last_row_def)
next
  case (Cons row rows)
  let ?f = "\<lambda>h. h\<lparr>hi_Instances := AList.update (cc_Instance row) (I (hi_Partitions h) row) (hi_Instances h)\<rparr>"
  let ?m = "case row_host (cc_Instance row) of None \<Rightarrow> m | Some hn \<Rightarrow> with_host hn ?f m"
  have step: "FillInstances lower order (row # rows) m = FillInstances lower order rows ?m"
    by (simp add: FillInstances_def I_def split: option.split)
  have new: "host_or_new ?m host = (if row_host (cc_Instance row) = Some host then ?f (host_or_new m host) else host_or_new m host)"
    by (auto simp: host_or_new_def map_of_with_host split: option.split)
  show ?case
    unfolding step using Cons.IH [of ?m] unfolding new last_row_Cons by (auto simp: update_conv' split: option.splits)
qed

section \<open>The list of hosts\<close>

text \<open>
  Where the instance \<open>inst\<close> of a host is shown: by the configuration, if a row of it names the
  instance; else, if it reports disks as an instance of TiFlash, on a longest of them; else not at all.
\<close>

definition config_row :: "host_tables \<Rightarrow> string \<Rightarrow> clusterConfigModel option" where
  "config_row D inst = (case ht_config D of Inl _ \<Rightarrow> None | Inr rows \<Rightarrow> last_row rows inst)"

definition placed :: "'f host_json \<Rightarrow> host_tables \<Rightarrow> 'f HostInfo \<Rightarrow> string \<Rightarrow> bool" where
  "placed J D h inst \<longleftrightarrow>
     (if row_host inst \<noteq> Some (hi_Host h) then map_of (hi_Instances h) inst = None
      else case config_row D inst of
        Some row \<Rightarrow> \<exists>r. map_of (hi_Instances h) inst = Some \<lparr>in_Type = cc_Type row, in_PartitionPathL = hj_lower J r\<rparr> \<and>
          (if cc_Value row = '''' then r = '''' else located (hj_lower J) (hi_Partitions h) (cc_Value row) r)
      | None \<Rightarrow>
          if tiflash_paths J (hardware_rows D) inst = [] then map_of (hi_Instances h) inst = None
          else \<exists>p. longest_of (tiflash_paths J (hardware_rows D) inst) p \<and>
            map_of (hi_Instances h) inst = Some \<lparr>in_Type = ''tiflash'', in_PartitionPathL = hj_lower J p\<rparr>)"

text \<open>The tables before the configuration, whichever of them can be read.\<close>

definition tiflash_placed :: "'f host_json \<Rightarrow> host_tables \<Rightarrow> string \<Rightarrow> 'f HostInfo \<Rightarrow> bool" where
  "tiflash_placed J D host h \<longleftrightarrow> (\<forall>inst.
     if row_host inst = Some host \<and> tiflash_paths J (hardware_rows D) inst \<noteq> []
     then \<exists>p. longest_of (tiflash_paths J (hardware_rows D) inst) p \<and>
       map_of (hi_Instances h) inst = Some \<lparr>in_Type = ''tiflash'', in_PartitionPathL = hj_lower J p\<rparr>
     else map_of (hi_Instances h) inst = None)"

lemma hardware_placed:
  assumes "orders_ok os" and "ht_hardware D = Inr H" and "\<And>host. new_fields host (host_or_new l host)"
    and "distinct (map fst l)"
  shows "\<exists>m. FillFromClusterHardwareTable (mo_disks os) J H l = Some m \<and>
    (\<forall>host. host_ok J D host (host_or_new m host) \<and> tiflash_placed J D host (host_or_new m host))"
proof -
  let ?l = "fill_rows (hardware_device J) H l" and ?ds = "mo_disks os (tiFlashDiskInfo J (tiFlashDisks H))"
  obtain m where m: "FillFromClusterHardwareTable (mo_disks os) J H l = Some m"
    "map_option strip \<circ> map_of m = map_option strip \<circ> map_of ?l"
    using hardware_table [OF assms(1,4)] by blast
  have eq: "strip (host_or_new m host) = strip (host_or_new ?l host)" for host
    using fun_cong [OF m(2), of host] by (auto simp: host_or_new_def split: option.splits)
  have ok: "host_ok J D host (host_or_new m host)" for host
    using strip_fields [OF eq [of host]] hardware_new [OF assms(3), of J H host]
    by (simp add: host_ok_def reported_disks_def hardware_rows_def assms(2) map_of_put_disks put_disks_ok partitions_ok_def [of _ "[]"])
  have mset: "mset ?ds = mset (tiFlashDiskInfo J (tiFlashDisks H))" using assms(1) by (simp add: orders_ok_def)
  have d: "distinct (map fst ?ds)"
    using distinct_tiFlashDiskInfo mset by (metis mset_eq_imp_distinct_iff mset_map)
  have mo: "map_of ?ds = map_of (tiFlashDiskInfo J (tiFlashDisks H))"
    using d distinct_tiFlashDiskInfo mset by (metis map_of_inject_set set_mset_mset)
  have "tiflash_placed J D host (host_or_new m host)" for host
    unfolding tiflash_placed_def
  proof
    fix inst
    have at: "map_of (hi_Instances (host_or_new m host)) inst =
        (case (if row_host inst = Some host then map_of (tiFlashDiskInfo J (tiFlashDisks H)) inst else None) of
           None \<Rightarrow> None | Some (n, p) \<Rightarrow> Some \<lparr>in_Type = ''tiflash'', in_PartitionPathL = hj_lower J p\<rparr>)"
      using back_fill_instances [OF m(1) [unfolded FillFromClusterHardwareTable_def] d, of host inst]
        hardware_new(2) [OF assms(3), of J H host] by (simp add: mo split: option.split)
    show "if row_host inst = Some host \<and> tiflash_paths J (hardware_rows D) inst \<noteq> []
      then \<exists>p. longest_of (tiflash_paths J (hardware_rows D) inst) p \<and>
        map_of (hi_Instances (host_or_new m host)) inst = Some \<lparr>in_Type = ''tiflash'', in_PartitionPathL = hj_lower J p\<rparr>
      else map_of (hi_Instances (host_or_new m host)) inst = None"
    proof (cases "row_host inst = Some host")
      case True
      then have e: "entry_ok (tiflash_paths J H inst) (map_of (tiFlashDiskInfo J (tiFlashDisks H)) inst)"
        by (intro tiFlashDiskInfo_entry) simp
      show ?thesis
        using e at True
        by (cases "map_of (tiFlashDiskInfo J (tiFlashDisks H)) inst")
          (auto simp: entry_ok_def hardware_rows_def assms(2) longest_of_def)
    qed (simp add: at)
  qed
  then show ?thesis using m(1) ok by blast
qed

lemma load_tables:
  fixes J :: "'f host_json" and D :: host_tables
  defines "l \<equiv> (case ht_load D of Inl e \<Rightarrow> [] | Inr rows \<Rightarrow> FillFromClusterLoadTable J rows [])"
  shows "new_fields host (host_or_new l host)" and "distinct (map fst l)"
  by (simp_all add: l_def FillFromClusterLoadTable_def load_new distinct_fill_rows split: sum.split)
    (simp add: host_or_new_def new_fields_def NewHostInfo_def)

lemma device_tables:
  assumes "orders_ok os"
  shows "\<exists>m err. (\<forall>host. host_ok J D host (host_or_new m host) \<and> tiflash_placed J D host (host_or_new m host)) \<and>
    fill_hosts_info os J D = Some (case ht_config D of
        Inl e \<Rightarrow> (m, if err = None then Some e else err)
      | Inr rows \<Rightarrow> (FillInstances (hj_lower J) (mo_partitions os) rows m, err))"
proof -
  obtain l err where l: "(case ht_load D of Inl e \<Rightarrow> ([], Some e) | Inr rows \<Rightarrow> (FillFromClusterLoadTable J rows [], None)) = (l, err)"
    by fastforce
  then have le: "l = (case ht_load D of Inl e \<Rightarrow> [] | Inr rows \<Rightarrow> FillFromClusterLoadTable J rows [])"
    by (auto split: sum.splits)
  have new: "new_fields host (host_or_new l host)" for host unfolding le by (rule load_tables(1))
  have dis: "distinct (map fst l)" unfolding le by (rule load_tables(2))
  show ?thesis
  proof (cases "ht_hardware D")
    case (Inl e)
    have "host_ok J D host (host_or_new l host) \<and> tiflash_placed J D host (host_or_new l host)" for host
      using new [of host]
      by (simp add: new_fields_def host_ok_def tiflash_placed_def hardware_rows_def reported_disks_def tiflash_paths_def Inl
          rows_of_def provided_def keyed_def partitions_ok_def)
    then show ?thesis
      using l Inl by (intro exI [of _ l] exI [of _ "if err = None then Some e else err"]) (simp add: fill_hosts_info_def split: sum.split)
  next
    case (Inr H)
    obtain m where m: "FillFromClusterHardwareTable (mo_disks os) J H l = Some m"
      "\<forall>host. host_ok J D host (host_or_new m host) \<and> tiflash_placed J D host (host_or_new m host)"
      using hardware_placed [OF assms Inr new dis] by blast
    then show ?thesis
      using l Inr by (intro exI [of _ m] exI [of _ err]) (auto simp: fill_hosts_info_def split: sum.split)
  qed
qed

lemma all_tables:
  assumes "orders_ok os"
  shows "\<exists>m err. fill_hosts_info os J D = Some (m, err) \<and>
    (\<forall>host. host_ok J D host (host_or_new m host) \<and> (\<forall>inst. placed J D (host_or_new m host) inst))"
proof -
  obtain m err where m: "\<And>host. host_ok J D host (host_or_new m host)" "\<And>host. tiflash_placed J D host (host_or_new m host)"
    "fill_hosts_info os J D = Some (case ht_config D of
        Inl e \<Rightarrow> (m, if err = None then Some e else err)
      | Inr rows \<Rightarrow> (FillInstances (hj_lower J) (mo_partitions os) rows m, err))" using device_tables [OF assms, of J D] by blast
  have name: "hi_Host (host_or_new m host) = host" for host using m(1) [of host] by (simp add: host_ok_def)
  show ?thesis
  proof (cases "ht_config D")
    case (Inl e)
    have "placed J D (host_or_new m host) inst" for host inst
      using m(2) [of host] by (auto simp: placed_def name config_row_def Inl tiflash_placed_def)
    then show ?thesis using m(1,3) Inl by auto
  next
    case (Inr rows)
    let ?m = "FillInstances (hj_lower J) (mo_partitions os) rows m"
    have order: "set (mo_partitions os l) = set l" for l using assms by (metis orders_ok_def set_mset_mset)
    note spec = FillInstances_spec [of "hj_lower J" "mo_partitions os" rows m]
    have ok: "host_ok J D host (host_or_new ?m host)" for host
      using m(1) [of host] spec [of host "''''"] by (simp add: host_ok_def)
    have name': "hi_Host (host_or_new ?m host) = host" for host using ok [of host] by (simp add: host_ok_def)
    have "placed J D (host_or_new ?m host) inst" for host inst
    proof (cases "row_host inst = Some host \<and> last_row rows inst \<noteq> None")
      case False
      then have at: "map_of (hi_Instances (host_or_new ?m host)) inst = map_of (hi_Instances (host_or_new m host)) inst"
        using spec [of host inst] by auto
      show ?thesis
        using False m(2) [of host] at by (auto simp: placed_def name' config_row_def Inr tiflash_placed_def)
    next
      case True
      then obtain row where row: "last_row rows inst = Some row" by blast
      let ?ps = "hi_Partitions (host_or_new m host)"
      let ?r = "locateInstanceMountPartition (hj_lower J) (cc_Value row) (mo_partitions os ?ps)"
      have at: "map_of (hi_Instances (host_or_new ?m host)) inst = Some \<lparr>in_Type = cc_Type row, in_PartitionPathL = hj_lower J ?r\<rparr>"
        "hi_Partitions (host_or_new ?m host) = ?ps"
        using spec [of host inst] True row by simp_all
      have "if cc_Value row = '''' then ?r = '''' else located (hj_lower J) ?ps (cc_Value row) ?r"
        using locate_located [OF order, of "cc_Value row"] by (simp add: locateInstanceMountPartition_def)
      then show ?thesis
        using True row at
        by (simp add: placed_def name' config_row_def Inr) (intro exI [of _ ?r], simp add: locateInstanceMountPartition_def [of _ "[]"])
    qed
    then show ?thesis using m(3) Inr ok by auto
  qed
qed

text \<open>
  C29: the list of hosts panics only if the topology of PD does, and is missing only with an error of
  the topology. Otherwise it has the addresses of all instances once each and in order, whatever the
  tables answer. The disks of a host are exactly those that its provider, the type of the first of its
  instances to report a disk, reports in the hardware table, by their path in lower case and the
  last report counting. Its instances are exactly these: an instance of the host that a row of
  the configuration names (the last such row) is shown on the longest disk of the host whose path is
  a prefix of its directory, in lower case, and on none if there is no such disk; any other that
  reports disks as TiFlash is shown on a longest of the disks it reports. This holds for every order
  in which the maps are visited.
\<close>

theorem host_instances_located:
  assumes "orders_ok os"
  shows "case fetchAllHostsInfo os J T D of
      None \<Rightarrow> tp_pd T = None
    | Some (None, err) \<Rightarrow> (\<exists>e. err = Some (TopologyError e))
    | Some (Some hosts, err) \<Rightarrow>
        (\<exists>ips. fetchAllInstanceHosts T = Some (Inr ips) \<and> sorted ips \<and> distinct ips \<and> map hi_Host hosts = ips) \<and>
        (\<forall>h\<in>set hosts. distinct (map fst (hi_Partitions h)) \<and>
          map_of (hi_Partitions h) = keyed (hj_lower J) (provided (reported_disks J D (hi_Host h))) \<and>
          (\<forall>inst. placed J D h inst))"
proof (cases "fetchAllInstanceHosts T")
  case None
  then show ?thesis by (auto simp: fetchAllHostsInfo_def fetchAllInstanceHosts_def fetch_topologies_def split: option.splits sum.splits)
next
  case (Some r)
  show ?thesis
  proof (cases r)
    case (Inl e)
    then show ?thesis using Some by (simp add: fetchAllHostsInfo_def)
  next
    case (Inr ips)
    obtain m err where m: "fill_hosts_info os J D = Some (m, err)" "\<And>host. host_ok J D host (host_or_new m host)"
      "\<And>host inst. placed J D (host_or_new m host) inst" using all_tables [OF assms, of J D] by blast
    have ips: "sorted ips" "distinct ips"
      using Some Inr by (auto simp: fetchAllInstanceHosts_def split: option.splits sum.splits)
    have f: "fetchAllHostsInfo os J T D = Some (Some (map (host_or_new m) ips), map_option TableError err)"
      using Some Inr m(1) by (simp add: fetchAllHostsInfo_def host_or_new_def option.case_eq_if)
    have "hi_Host (host_or_new m host) = host" for host using m(2) [of host] by (simp add: host_ok_def)
    then have "map hi_Host (map (host_or_new m) ips) = ips" by (simp add: comp_def)
    moreover have "distinct (map fst (hi_Partitions h)) \<and>
          map_of (hi_Partitions h) = keyed (hj_lower J) (provided (reported_disks J D (hi_Host h))) \<and> (\<forall>inst. placed J D h inst)"
      if mem: "h \<in> set (map (host_or_new m) ips)" for h
    proof -
      obtain host where h: "h = host_or_new m host" using mem by auto
      then show ?thesis using m(2) [of host] m(3) [of host] by (auto simp: host_ok_def partitions_ok_def)
    qed
    then have "\<forall>h\<in>set (map (host_or_new m) ips). distinct (map fst (hi_Partitions h)) \<and>
          map_of (hi_Partitions h) = keyed (hj_lower J) (provided (reported_disks J D (hi_Host h))) \<and> (\<forall>inst. placed J D h inst)"
      by blast
    ultimately show ?thesis unfolding f option.case prod.case using Some Inr ips by blast
  qed
qed

text \<open>A host with two disks of TiKV, one of TiFlash, and an instance of each.\<close>

definition demo_disk_json :: "unit host_json" where
  "demo_disk_json = demo_host_json\<lparr>hj_disk := \<lambda>s. Some \<lparr>pt_Path = s, pt_FSType = ''ext4'', pt_Free = 1, pt_Total = 2\<rparr>\<rparr>"

definition demo_disk_row :: "string \<Rightarrow> string \<Rightarrow> string \<Rightarrow> clusterTableModel" where
  "demo_disk_row tp inst path =
     \<lparr>ct_Type = tp, ct_Instance = inst, ct_DeviceType = ''disk'', ct_DeviceName = ''d'', ct_JSONValue = path\<rparr>"

definition demo_disk_tables :: host_tables where
  "demo_disk_tables = \<lparr>ht_load = Inr [],
     ht_hardware = Inr [demo_disk_row ''tikv'' ''h:1'' ''/'', demo_disk_row ''tikv'' ''h:1'' ''/Data'', demo_disk_row ''tiflash'' ''h:2'' ''/flash''],
     ht_config = Inr [\<lparr>cc_Type = ''tikv'', cc_Instance = ''h:1'', cc_Key = ''storage.data-dir'', cc_Value = ''/data/tikv''\<rparr>]\<rparr>"

lemma demo_row_host2: "row_host ''h:2'' = Some ''h''"
proof -
  have "SplitHostPort ''h:2'' = Some (''h'', ''2'')" by code_simp
  moreover have "ParseInt ''2'' = Some 2" by (simp add: ParseInt_def Let_def digit_value_def byte_of_def)
  ultimately show ?thesis by (simp add: row_host_def ParseHostAndPortFromAddress_def)
qed

lemma demo_disks:
  "provided (reported_disks demo_disk_json demo_disk_tables ''h'') =
     map (\<lambda>p. \<lparr>pt_Path = p, pt_FSType = ''ext4'', pt_Free = 1, pt_Total = 2\<rparr>) [''/'', ''/Data'']"
  by (simp add: reported_disks_def hardware_rows_def demo_disk_tables_def rows_of_def demo_disk_row_def demo_row_host demo_row_host2
      disk_of_row_def demo_disk_json_def demo_host_json_def provided_def provider_def)

lemma demo_lower: "hj_lower demo_disk_json = to_lower" "to_lower ''/'' = ''/''" "to_lower ''/Data'' = ''/data''"
  "to_lower ''/data/tikv'' = ''/data/tikv''" "to_lower ''/flash'' = ''/flash''"
  by (simp add: demo_disk_json_def demo_host_json_def, code_simp, code_simp, code_simp, code_simp)

theorem host_instances_located_witness:
  "\<exists>h err. fetchAllHostsInfo demo_orders demo_disk_json demo_topologies demo_disk_tables = Some (Some [h], err) \<and>
     dom (map_of (hi_Partitions h)) = {''/'', ''/data''} \<and>
     map_of (hi_Instances h) ''h:1'' = Some \<lparr>in_Type = ''tikv'', in_PartitionPathL = ''/data''\<rparr> \<and>
     map_of (hi_Instances h) ''h:2'' = Some \<lparr>in_Type = ''tiflash'', in_PartitionPathL = ''/flash''\<rparr>"
proof -
  let ?J = demo_disk_json and ?D = demo_disk_tables
  have ips: "fetchAllInstanceHosts demo_topologies = Some (Inr [''h''])"
    by (simp add: fetchAllInstanceHosts_def fetch_topologies_def demo_topologies_def)
  have pd: "tp_pd demo_topologies \<noteq> None" by (simp add: demo_topologies_def)
  have some: "fetchAllHostsInfo demo_orders ?J demo_topologies ?D \<noteq> Some (None, err)" for err
    by (auto simp: fetchAllHostsInfo_def ips split: option.splits)
  note C = host_instances_located [OF demo_orders_ok, where J = ?J and T = demo_topologies and D = ?D]
  obtain hosts err where f: "fetchAllHostsInfo demo_orders ?J demo_topologies ?D = Some (Some hosts, err)"
    using C pd some by (cases "fetchAllHostsInfo demo_orders ?J demo_topologies ?D") (auto split: option.splits prod.splits)
  then have hosts: "map hi_Host hosts = [''h'']" "\<forall>h\<in>set hosts. distinct (map fst (hi_Partitions h)) \<and>
      map_of (hi_Partitions h) = keyed (hj_lower ?J) (provided (reported_disks ?J ?D (hi_Host h))) \<and> (\<forall>inst. placed ?J ?D h inst)"
    using C ips by auto
  then obtain h where h: "hosts = [h]" "hi_Host h = ''h''" by auto
  have parts: "map_of (hi_Partitions h) = keyed to_lower (map (\<lambda>p. \<lparr>pt_Path = p, pt_FSType = ''ext4'', pt_Free = 1, pt_Total = 2\<rparr>) [''/'', ''/Data''])"
    using hosts(2) h by (simp add: demo_disks demo_lower(1))
  then have dom: "dom (map_of (hi_Partitions h)) = {''/'', ''/data''}" by (auto simp: keyed_def demo_lower)
  have dis: "distinct (map fst (hi_Partitions h))" using hosts(2) h by simp
  have mem: "(''/data'', \<lparr>pt_Path = ''/Data'', pt_FSType = ''ext4'', pt_Free = 1, pt_Total = 2\<rparr>) \<in> set (hi_Partitions h)"
    by (rule map_of_SomeD) (simp add: parts keyed_def demo_lower)
  have paths: "pt_Path p \<in> {''/'', ''/Data''}" if "(k, p) \<in> set (hi_Partitions h)" for k p
    using map_of_is_SomeI [OF dis that] by (auto simp: parts keyed_def split: if_splits)
  have one: "r = ''/Data''" if r: "located to_lower (hi_Partitions h) ''/data/tikv'' r" for r
  proof -
    have "length ''/Data'' \<le> length r" using r mem unfolding located_def by (auto simp: demo_lower prefix_at_def)
    then show ?thesis using r paths unfolding located_def by fastforce
  qed
  have place: "placed ?J ?D h ''h:1''" "placed ?J ?D h ''h:2''" using hosts(2) h by simp_all
  have cfg: "config_row ?D ''h:1'' = Some \<lparr>cc_Type = ''tikv'', cc_Instance = ''h:1'', cc_Key = ''storage.data-dir'', cc_Value = ''/data/tikv''\<rparr>"
    "config_row ?D ''h:2'' = None"
    by (simp_all add: config_row_def demo_disk_tables_def last_row_def)
  have flash: "tiflash_paths ?J (hardware_rows ?D) ''h:2'' = [''/flash'']"
    by (simp add: tiflash_paths_def hardware_rows_def demo_disk_tables_def demo_disk_row_def disk_of_row_def demo_disk_json_def)
  obtain r where "map_of (hi_Instances h) ''h:1'' = Some \<lparr>in_Type = ''tikv'', in_PartitionPathL = to_lower r\<rparr>"
    "located to_lower (hi_Partitions h) ''/data/tikv'' r"
    using place(1) unfolding placed_def by (auto simp: h(2) demo_row_host cfg demo_lower(1))
  then have "map_of (hi_Instances h) ''h:1'' = Some \<lparr>in_Type = ''tikv'', in_PartitionPathL = ''/data''\<rparr>"
    using one demo_lower(3) by simp
  moreover have "map_of (hi_Instances h) ''h:2'' = Some \<lparr>in_Type = ''tiflash'', in_PartitionPathL = ''/flash''\<rparr>"
    using place(2) unfolding placed_def by (auto simp: h(2) demo_row_host2 cfg flash longest_of_def demo_lower)
  ultimately show ?thesis using f h(1) dom by auto
qed

text \<open>
  An instance of TiDB that was hidden is not part of the topology any more: its keys are what the
  topology reads.
\<close>

lemma hidden_not_listed:
  assumes "distinct (map fst kvs)" and "\<And>k. delete_err k = None" and "\<And>ks. set (finish ks) = set ks"
  shows "\<exists>nodes. FetchTiDBTopology dec now (Some (snd (deleteTiDBTopology delete_err finish address kvs))) = Inr nodes \<and>
    (\<forall>n\<in>set nodes. \<exists>addr v info. addr \<noteq> address \<and> (tidbTopologyKeyPrefix @ addr @ ''/info'', v) \<in> set kvs \<and>
       parseTiDBInfo addr (dec v) = Inr info \<and> ti_IP n = ti_IP info \<and> ti_Port n = ti_Port info)"
proof -
  let ?kvs = "snd (deleteTiDBTopology delete_err finish address kvs)"
  have kvs: "?kvs = filter (\<lambda>(k, v). k \<notin> set (tidb_keys address)) kvs"
    using assms(2,3) by (simp add: deleteTiDBTopology_def Let_def case_prod_beta')
  then have d: "distinct (map fst ?kvs)" using assms(1) by (simp add: distinct_map_filter)
  have gone: "(tidbTopologyKeyPrefix @ address @ ''/info'', v) \<notin> set ?kvs" for v
    by (simp add: kvs tidb_keys_def tidbTopologyKeyPrefix_def)
  obtain nodes where nodes: "FetchTiDBTopology dec now (Some ?kvs) = Inr nodes"
    "set nodes = {info\<lparr>ti_Status := (if \<exists>t. (tidbTopologyKeyPrefix @ addr @ ''/ttl'', t) \<in> set ?kvs \<and> ParseUint t \<noteq> None
        then ComponentStatusUp else ComponentStatusUnreachable)\<rparr> | addr info v.
      (tidbTopologyKeyPrefix @ addr @ ''/info'', v) \<in> set ?kvs \<and> CHR ''/'' \<notin> set addr \<and> parseTiDBInfo addr (dec v) = Inr info}"
    using FetchTiDBTopology_nodes [OF d, of dec now] by blast
  have "\<exists>addr v info. addr \<noteq> address \<and> (tidbTopologyKeyPrefix @ addr @ ''/info'', v) \<in> set kvs \<and>
       parseTiDBInfo addr (dec v) = Inr info \<and> ti_IP n = ti_IP info \<and> ti_Port n = ti_Port info" if n: "n \<in> set nodes" for n
  proof -
    obtain addr info v where i: "(tidbTopologyKeyPrefix @ addr @ ''/info'', v) \<in> set ?kvs" "parseTiDBInfo addr (dec v) = Inr info"
      "ti_IP n = ti_IP info \<and> ti_Port n = ti_Port info" using n unfolding nodes(2) by fastforce
    have "addr \<noteq> address" using i(1) gone by blast
    moreover have "(tidbTopologyKeyPrefix @ addr @ ''/info'', v) \<in> set kvs" using i(1) by (simp add: kvs)
    ultimately show ?thesis using i by blast
  qed
  then show ?thesis using nodes(1) by blast
qed


text \<open>The prefix need not end at a separator: a directory of one disk is taken for one of another.\<close>

lemma located_on_other_disk:
  "locateInstanceMountPartition to_lower ''/data10/tikv''
     [(''/data1'', \<lparr>pt_Path = ''/data1'', pt_FSType = ''ext4'', pt_Free = 0, pt_Total = 0\<rparr>)] = ''/data1''"
  by code_simp

end
