(* ===== verification/Spec2Isabelle.thy ===== *)
theory Spec2Isabelle
  imports KvHeatmaps DistanceScale TidbForwarder UtilProxy LogSearch DiagRows DiagCells DiagRace DiagVerdict
    ConfigProps UserSso ProfilingProps DiagService DebugApi PromAddress SqlLists HostInstances
begin

text \<open>
  Verification library of the backend of TiDB Dashboard (the Go code under \<open>src/pkg\<close> and \<open>src/util\<close>).

  \<^bold>\<open>The program.\<close> The backend is a set of services behind one HTTP server. The Key Visualizer
  collects statistics of the regions once a minute, keeps them in layers of growing intervals and
  answers queries with a matrix of colours. The diagnosis runs SQL on the metric tables of TiDB and
  writes reports on one time range or on two. Smaller services sign users in, show and edit the
  configuration of the cluster, search logs and profile nodes. They share the dynamic configuration
  in etcd, the topology of the cluster, the proxies in front of TiDB, and a local SQLite store.

  \<^bold>\<open>How the model is made.\<close> Structs are records, errors are values of a sum or an option, a panic is
  \<open>None\<close> (or \<open>Panics\<close>), integers whose overflow matters are words or have the wrap-around written
  out. State is passed explicitly; what goroutines do in an order that the code does not fix is a
  step relation or a sequence of events. What is not in the repository is an argument: floating
  point (\<open>gofloat\<close>), the order of a range over a map, \<open>sort.Slice\<close>, the answers of TiDB, PD, etcd and
  of the nodes, JSON, encryption, files. Where a theorem needs laws of such an argument they are its
  hypotheses, and its witness instantiates the argument.

  \<^bold>\<open>Shared theories.\<close>
  \<^item> \<open>Prelude\<close>: Go's slices, copy, division and binary search, the collection \<open>go_simps\<close>, and generic
    lemmas. \<open>GoStrings\<close>: hexadecimal, decimal, splitting, joining, escaping. \<open>GoHeap\<close>:
    \<open>container/heap\<close>; the locale \<open>min_queue\<close> says what a client may expect of a queue and is
    interpreted on the heap.

  \<^bold>\<open>Key Visualizer\<close> (\<open>pkg/keyvisual\<close>).
  \<^item> \<open>GoKeys\<close>, \<open>MatrixUtil\<close>: \<open>matrix/key.go\<close> and \<open>matrix/util.go\<close>. \<open>MatrixChunk\<close>, \<open>ChunkBuckets\<close>, \<open>ChunkProps\<close>,
    \<open>ChunkDivide\<close>: \<open>matrix/axis.go\<close>, one column of statistics over key ranges, and that every
    operation on it re-buckets the same statistics; the binary search of \<open>Divide\<close> is a partial
    function, shown to end for thresholds below \<open>2 ^ 63\<close>. \<open>MatrixAxis\<close>: the axes that hold several
    columns.
  \<^item> \<open>MatrixSplit\<close>, \<open>MatrixDistance\<close>, \<open>DistanceProps\<close>, \<open>DistanceTotal\<close>, \<open>DistanceScale\<close>: the two strategies
    that spread the statistics of a wide range over narrower ones. \<open>Decorator\<close>: the labelers. The
    locales \<open>split_contract\<close>, \<open>labeler_contract\<close> and \<open>pixel_contract\<close> state what \<open>Plane.Pixel\<close> needs of
    them; \<open>MatrixPlane\<close>, \<open>PlaneProps\<close>, \<open>PixelProps\<close> prove compaction and pixelation once, and
    \<open>PlaneInstances\<close> interprets the locales on the strategies and labelers of the code.
  \<^item> \<open>TidbCodec\<close>, \<open>CodecProps\<close>: the key encoding of TiDB (\<open>pkg/tidb/model\<close>), its round trips and order.
  \<^item> \<open>RegionTags\<close>, \<open>RegionInput\<close>: \<open>region\<close> and \<open>input\<close>; the locale \<open>regions_info\<close> is interpreted on the
    answers of the API.
  \<^item> \<open>StorageAxis\<close>, \<open>StorageStat\<close>, \<open>StorageQueue\<close>, \<open>StorageRange\<close>, \<open>StoragePersist\<close>, \<open>StorageInvariant\<close>:
    \<open>storage\<close>. A layer refines a bounded queue; a query returns the history that the layers hold; what
    is written to the store is read back after a restart (the fuel of the restore is above the
    number of layers, each of which it reads once).
  \<^item> \<open>KvService\<close>, \<open>KvHeatmaps\<close>: \<open>service.go\<close>, from the loop that follows the configuration to the answer.

  \<^bold>\<open>Configuration, topology, proxies.\<close>
  \<^item> \<open>DynamicConfig\<close>: \<open>pkg/config\<close> and the node kinds of \<open>pkg/apiserver/model\<close>; the manager as a step
    relation whose reachable states hold valid configurations only.
  \<^item> \<open>Topology\<close>: \<open>pkg/utils/topology\<close>. \<open>TidbProxy\<close>, \<open>TidbForwarder\<close>: \<open>pkg/tidb\<close>. \<open>UtilProxy\<close>: \<open>util/proxy\<close>.

  \<^bold>\<open>Diagnosis\<close> (\<open>pkg/apiserver/diagnose\<close>).
  \<^item> \<open>DiagTable\<close>, \<open>DiagQuery\<close>, \<open>DiagMetrics\<close>, \<open>DiagPlain\<close>, \<open>DiagHardware\<close>: tables, queries and the functions that
    fill each table of \<open>report.go\<close> and \<open>query.go\<close>; the statements are the texts of the code.
    \<open>DiagTyped\<close>, \<open>DiagRows\<close>, \<open>DiagCells\<close>: the types of tables and rows, and that cells are read back.
  \<^item> \<open>DiagCompare\<close>, \<open>DiagJoin\<close>, \<open>DiagDiff\<close>, \<open>DiagConfig\<close>, \<open>DiagReports\<close>: \<open>compare.go\<close>; the comparison is
    an outer join, the differences shown are the greatest ones. The fuel of the comparison of
    configuration tables is at least the number of rows of the second table, of which each round
    takes one.
  \<^item> \<open>DiagInspect\<close>, \<open>DiagVerdict\<close>: \<open>inspection.go\<close>. \<open>DiagParallel\<close>, \<open>DiagReport\<close>, \<open>DiagRace\<close>: the goroutines
    that compute the tables, the whole reports, and the race on their error rows. \<open>DiagService\<close>:
    \<open>model.go\<close> and the handlers.

  \<^bold>\<open>Users\<close> (\<open>pkg/apiserver/user\<close>): \<open>UserPrivs\<close> (the check of SQL privileges), \<open>UserAuth\<close> (authenticators,
  tokens, middlewares, sharing codes), \<open>UserShare\<close> (what a sharing code can give), \<open>UserSso\<close> (single
  sign-on and the stored SQL user).

  \<^bold>\<open>Other services.\<close> \<open>ConfigEditable\<close>, \<open>ConfigService\<close>, \<open>ConfigProps\<close>: \<open>pkg/apiserver/configuration\<close>.
  \<open>ClusterInfo\<close>, \<open>ClusterProps\<close>, \<open>HostInstances\<close>: \<open>pkg/apiserver/clusterinfo\<close>, the hosts as the tables of
  TiDB report them, what the statistics count and where they panic, the disk of each instance.
  \<open>LogSearch\<close>: \<open>pkg/apiserver/logsearch\<close>. \<open>Tokens\<close>: \<open>utils/jwt.go\<close> and \<open>utils/export.go\<close>.
  \<open>Profiling\<close>, \<open>ProfilingProps\<close>: \<open>pkg/apiserver/profiling\<close>; groups of tasks as sequences of events, with
  a measure that bounds what is left. \<open>DebugApi\<close>: \<open>pkg/apiserver/debugapi\<close>, the table of endpoints and
  the requests that can reach them. \<open>PromAddress\<close>: \<open>pkg/apiserver/metrics\<close>, the cached address of
  Prometheus. \<open>SqlLists\<close>: \<open>pkg/apiserver/slowquery\<close> and \<open>statement\<close>, the statements that are handed to
  the query builder as records of their clauses, and the exported tables.

  \<^bold>\<open>Not modelled.\<close> Code that only hands a request to a library or another process and returns the
  answer: the clients, the query editor, continuous profiling, Top SQL; the virtual views of a
  query builder, found by reflection on types; the wiring of the services, static files, the mocks
  and scripts; the user interface, which is TypeScript. Timeouts and sleeps are not part of the models; a step that may wait is enabled or not.
  The theories name in their headers what else they leave out.
\<close>

end
